(* ===== verification/Prelude.thy ===== *)
theory Prelude
  imports Main "HOL-Library.Word"
begin

text \<open>
  Shared vocabulary of the development: bytes and byte strings, JavaScript
  strings and array reads, the error type of the fallible code, and the
  generic list facts the component theories use.

  Strings.  A TypeScript string is a sequence of UTF-16 code units.  Here a
  \<open>char\<close> stands for one code unit: the units below 256 by their own code, and
  the larger units the modelled code writes itself, the ellipsis U+2026 of the shortened
  labels and the apostrophe U+2019 of some messages, by the control codes 0x85 and 0x92.

  Arrays.  \<open>nth_opt\<close> is the JavaScript read \<open>xs[i]\<close>, \<open>None\<close> for \<open>undefined\<close>.

  Errors.  A function that can throw returns \<open>'e + 'a\<close>: \<open>Inl\<close> is the exception,
  \<open>Inr\<close> the result, and \<open>obind\<close> continues after a call that did not throw.
\<close>

unbundle bit_operations_syntax

type_synonym byte = "8 word"
type_synonym bytes = "byte list"

named_theorems result_simps \<open>evaluation rules for results and early exits\<close>
named_theorems wf_intros \<open>introduction rules for the components' invariants\<close>

lemma unat_byte_lt: "unat (x :: byte) < 256"
proof -
  have "unat x < 2 ^ LENGTH(8)" by (rule unsigned_less)
  then show ?thesis by simp
qed

subsection \<open>Results\<close>

primrec obind :: "'e + 'a \<Rightarrow> ('a \<Rightarrow> 'e + 'b) \<Rightarrow> 'e + 'b" where
  "obind (Inl e) f = Inl e"
| "obind (Inr x) f = f x"

lemma obind_Inr_iff [result_simps]:
  "obind m f = Inr y \<longleftrightarrow> (\<exists>x. m = Inr x \<and> f x = Inr y)"
  by (cases m) auto

lemma obind_Inl_iff:
  "obind m f = Inl e \<longleftrightarrow> m = Inl e \<or> (\<exists>x. m = Inr x \<and> f x = Inl e)"
  by (cases m) auto

definition err_if :: "bool \<Rightarrow> 'e \<Rightarrow> 'e + 'a \<Rightarrow> 'e + 'a" where
  "err_if b e k = (if b then Inl e else k)"

lemma err_if_Inr_iff [result_simps]:
  "err_if b e k = Inr y \<longleftrightarrow> \<not> b \<and> k = Inr y"
  by (simp add: err_if_def)

lemma err_if_simps [simp]:
  "err_if True e k = Inl e"
  "err_if False e k = k"
  by (simp_all add: err_if_def)

definition is_ok :: "'e + 'a \<Rightarrow> bool" where
  "is_ok r = (case r of Inl _ \<Rightarrow> False | Inr _ \<Rightarrow> True)"

lemma is_ok_simps [simp]: "is_ok (Inr x)" "\<not> is_ok (Inl e)"
  by (simp_all add: is_ok_def)

lemma is_ok_iff: "is_ok r \<longleftrightarrow> (\<exists>x. r = Inr x)"
  by (cases r) auto

subsection \<open>Array reads\<close>

definition nth_opt :: "'a list \<Rightarrow> nat \<Rightarrow> 'a option" where
  "nth_opt xs i = (if i < length xs then Some (xs ! i) else None)"

lemma nth_opt_Some_iff [simp]:
  "nth_opt xs i = Some x \<longleftrightarrow> i < length xs \<and> xs ! i = x"
  by (auto simp: nth_opt_def)

lemma nth_opt_None_iff [simp]: "nth_opt xs i = None \<longleftrightarrow> length xs \<le> i"
  by (auto simp: nth_opt_def)

lemma nth_opt_Nil [simp]: "nth_opt [] i = None"
  by simp

lemma nth_opt_Cons [simp]:
  "nth_opt (x # xs) 0 = Some x"
  "nth_opt (x # xs) (Suc i) = nth_opt xs i"
  by (simp_all add: nth_opt_def)

lemma nth_opt_append_left: "i < length xs \<Longrightarrow> nth_opt (xs @ ys) i = nth_opt xs i"
  by (simp add: nth_opt_def nth_append)

lemma nth_opt_map: "nth_opt (map f xs) i = map_option f (nth_opt xs i)"
  by (simp add: nth_opt_def)

subsection \<open>Strings\<close>

definition ellipsis :: char where
  "ellipsis = CHR 0x85"

definition apostrophe :: char where
  "apostrophe = CHR 0x92"

definition is_space :: "char \<Rightarrow> bool" where
  "is_space c \<longleftrightarrow> c \<in> {CHR 0x09, CHR 0x0A, CHR 0x0B, CHR 0x0C, CHR 0x0D, CHR '' '', CHR 0xA0}"

definition trim :: "string \<Rightarrow> string" where
  "trim s = rev (dropWhile is_space (rev (dropWhile is_space s)))"

definition starts_with :: "string \<Rightarrow> string \<Rightarrow> bool" where
  "starts_with p s \<longleftrightarrow> take (length p) s = p"

definition ends_with :: "string \<Rightarrow> string \<Rightarrow> bool" where
  "ends_with p s \<longleftrightarrow> length p \<le> length s \<and> drop (length s - length p) s = p"

fun includes_str :: "string \<Rightarrow> string \<Rightarrow> bool" where
  "includes_str p [] = (p = [])"
| "includes_str p (c # s) = (starts_with p (c # s) \<or> includes_str p s)"

text \<open>\<open>Array.prototype.join\<close>\<close>

fun join :: "string \<Rightarrow> string list \<Rightarrow> string" where
  "join sep [] = []"
| "join sep [x] = x"
| "join sep (x # y # zs) = x @ sep @ join sep (y # zs)"

lemma starts_with_append [simp]: "starts_with p (p @ s)"
  by (simp add: starts_with_def)

lemma starts_with_Cons: "starts_with (a # p) (b # s) \<longleftrightarrow> a = b \<and> starts_with p s"
  by (auto simp: starts_with_def)

lemma starts_with_Nil [simp]: "starts_with [] s"
  by (simp add: starts_with_def)

lemma starts_with_empty [simp]: "starts_with (a # p) [] = False"
  by (simp add: starts_with_def)

lemma ends_with_append [simp]: "ends_with p (s @ p)"
  by (simp add: ends_with_def)

lemma trim_id:
  "s = [] \<or> (\<not> is_space (hd s) \<and> \<not> is_space (last s)) \<Longrightarrow> trim s = s"
proof -
  assume h: "s = [] \<or> (\<not> is_space (hd s) \<and> \<not> is_space (last s))"
  then have "dropWhile is_space s = s" by (auto simp add: dropWhile_eq_self_iff)
  moreover from h have "dropWhile is_space (rev s) = rev s"
    by (auto simp add: dropWhile_eq_self_iff hd_rev)
  ultimately show ?thesis by (simp add: trim_def)
qed

lemma trim_Nil [simp]: "trim [] = []"
  by (simp add: trim_def)

lemma trim_no_blanks: "trim s = '''' \<or> (\<not> is_space (hd (trim s)) \<and> \<not> is_space (last (trim s)))"
proof (cases "trim s = ''''")
  case False
  define t where "t = dropWhile is_space s"
  have r: "trim s = rev (dropWhile is_space (rev t))" by (simp add: trim_def t_def)
  with False have "dropWhile is_space (rev t) \<noteq> []" by simp
  then have "\<not> is_space (last (trim s))" by (simp add: r last_rev hd_dropWhile)
  moreover have "t \<noteq> []" using False r by auto
  then have "\<not> is_space (hd t)" by (simp add: t_def hd_dropWhile)
  moreover obtain u where "t = trim s @ u"
    unfolding r by (metis rev_append rev_rev_ident takeWhile_dropWhile_id)
  ultimately show ?thesis using False by auto
qed simp

lemma trim_trim [simp]: "trim (trim s) = trim s"
  using trim_no_blanks [of s] by (intro trim_id) auto

subsection \<open>Objects as association lists\<close>

text \<open>\<open>{...a, ...b}\<close> of objects: the keys of \<open>a\<close> keep their place, those of \<open>b\<close> win.\<close>

fun set_key :: "'k \<Rightarrow> 'v \<Rightarrow> ('k \<times> 'v) list \<Rightarrow> ('k \<times> 'v) list" where
  "set_key k v [] = [(k, v)]"
| "set_key k v ((k', v') # rest) = (if k = k' then (k, v) # rest else (k', v') # set_key k v rest)"

definition spread :: "('k \<times> 'v) list \<Rightarrow> ('k \<times> 'v) list \<Rightarrow> ('k \<times> 'v) list" where
  "spread a b = foldl (\<lambda>m (k, v). set_key k v m) a b"

lemma map_of_set_key: "map_of (set_key k v m) = (map_of m)(k \<mapsto> v)"
  by (induction k v m rule: set_key.induct) auto

lemma map_of_spread: "distinct (map fst b) \<Longrightarrow> map_of (spread a b) = map_of a ++ map_of b"
proof (induction b arbitrary: a)
  case (Cons p b)
  obtain k v where p: "p = (k, v)" by force
  have "spread a (p # b) = spread (set_key k v a) b" by (simp add: spread_def p)
  moreover from Cons p have "map_of (spread (set_key k v a) b) = (map_of a)(k \<mapsto> v) ++ map_of b"
    by (simp add: map_of_set_key)
  moreover from Cons.prems p have "map_of b k = None" by (simp add: map_of_eq_None_iff)
  then have "(map_of a)(k \<mapsto> v) ++ map_of b = map_of a ++ (map_of b)(k \<mapsto> v)"
    by (auto simp: map_add_def fun_eq_iff split: option.splits)
  ultimately show ?case by (simp only: p map_of.simps fst_conv snd_conv)
qed (simp add: spread_def)

end
