(* ===== verification/Encoding.thy ===== *)
theory Encoding
  imports Prelude "HOL-Library.Char_ord"
begin

text \<open>
  The byte/string codecs of the signer's trust boundary,
  \<^verbatim>\<open>secure-signer/src/encoding.ts\<close>: strict base64 and base64url decoding with an
  output cap, encoding, UTF-8 and constant-time comparison.  The 32-bit
  integers of JavaScript's bitwise operators are \<open>32 word\<close>.

  The lemmas show that decoding inverts encoding, that a decoded string is
  determined by its bytes up to its padding, and that the cap is respected.
\<close>

unbundle bit_operations_syntax

datatype b64_variant = Std | Url

datatype decode_error = DecodeError string

definition B64_STD :: string where
  "B64_STD = ''ABCDEFGHIJKLMNOPQRSTUVWXYZabcdefghijklmnopqrstuvwxyz0123456789+/''"

definition B64_URL :: string where
  "B64_URL = ''ABCDEFGHIJKLMNOPQRSTUVWXYZabcdefghijklmnopqrstuvwxyz0123456789-_''"

text \<open>\<open>buildLookup\<close>: an \<open>Int16Array(128)\<close> filled with -1, then indexed by character code.\<close>

definition buildLookup :: "string \<Rightarrow> int list" where
  "buildLookup alphabet =
     foldl (\<lambda>table i. table[of_char (alphabet ! i) := int i])
       (replicate 128 (-1)) [0 ..< length alphabet]"

definition STD_LOOKUP :: "int list" where
  "STD_LOOKUP = buildLookup B64_STD"

definition URL_LOOKUP :: "int list" where
  "URL_LOOKUP = buildLookup B64_URL"

definition lookup_of :: "b64_variant \<Rightarrow> int list" where
  "lookup_of v = (case v of Url \<Rightarrow> URL_LOOKUP | Std \<Rightarrow> STD_LOOKUP)"

definition alphabet_of :: "b64_variant \<Rightarrow> string" where
  "alphabet_of v = (case v of Url \<Rightarrow> B64_URL | Std \<Rightarrow> B64_STD)"

subsection \<open>Decoding\<close>

text \<open>The padding loop, from the end of the input: the length without the padding.\<close>

primrec strip_end :: "string \<Rightarrow> nat \<Rightarrow> nat \<Rightarrow> decode_error + nat" where
  "strip_end s 0 pad = Inr 0"
| "strip_end s (Suc n) pad =
     (if s ! n = CHR ''='' then
        err_if (pad + 1 > 2) (DecodeError ''excess padding'') (strip_end s n (pad + 1))
      else Inr (Suc n))"

text \<open>\<open>code < 128 ? lookup[code] : -1\<close>\<close>

definition char_val :: "b64_variant \<Rightarrow> char \<Rightarrow> int" where
  "char_val v c = (let code = of_char c :: nat in if code < 128 then lookup_of v ! code else -1)"

text \<open>The three bitwise expressions of the loop, on 32-bit integers.\<close>

definition shift_in :: "32 word \<Rightarrow> int \<Rightarrow> 32 word" where
  "shift_in buffer val = push_bit 6 buffer OR word_of_int val"

definition byte_at :: "nat \<Rightarrow> 32 word \<Rightarrow> byte" where
  "byte_at bits buffer = ucast (signed_drop_bit bits buffer AND 0xff)"

definition trail_bits :: "nat \<Rightarrow> 32 word \<Rightarrow> 32 word" where
  "trail_bits bits buffer = buffer AND (push_bit bits 1 - 1)"

text \<open>
  The character loop with its three variables: the 32-bit \<open>buffer\<close> (high bits of
  earlier characters stay in it), the count \<open>bits\<close> of bits not yet written, and \<open>out\<close>.
\<close>

fun dec_loop ::
  "b64_variant \<Rightarrow> nat \<Rightarrow> string \<Rightarrow> 32 word \<Rightarrow> nat \<Rightarrow> bytes \<Rightarrow> decode_error + bytes \<times> 32 word \<times> nat" where
  "dec_loop v maxBytes [] buffer bits out = Inr (out, buffer, bits)"
| "dec_loop v maxBytes (c # cs) buffer bits out =
     (let val = char_val v c in
      err_if (val < 0) (DecodeError ''invalid character'')
       (let buffer = shift_in buffer val;
            bits = bits + 6 in
        if bits \<ge> 8 then
          (let bits = bits - 8;
               out = out @ [byte_at bits buffer] in
           err_if (length out > maxBytes) (DecodeError ''too large'')
             (dec_loop v maxBytes cs buffer bits out))
        else dec_loop v maxBytes cs buffer bits out))"

definition base64ToBytes :: "string \<Rightarrow> nat \<Rightarrow> b64_variant \<Rightarrow> decode_error + bytes" where
  "base64ToBytes input maxBytes v =
     obind (strip_end input (length input) 0) (\<lambda>len.
       let approxOut = (len * 3) div 4 in
       err_if (approxOut > maxBytes) (DecodeError ''too large'')
       (err_if (len mod 4 = 1) (DecodeError ''invalid length'')
       (obind (dec_loop v maxBytes (take len input) 0 0 []) (\<lambda>(out, buffer, bits).
          err_if (bits > 0 \<and> trail_bits bits buffer \<noteq> 0)
            (DecodeError ''non-canonical trailing bits'')
          (Inr out)))))"

subsection \<open>Encoding\<close>

definition enc_char :: "b64_variant \<Rightarrow> 32 word \<Rightarrow> nat \<Rightarrow> char" where
  "enc_char v n k = alphabet_of v ! unat (signed_drop_bit k n AND 63)"

fun bytesToBase64 :: "bytes \<Rightarrow> b64_variant \<Rightarrow> string" where
  "bytesToBase64 (a # b # c # rest) v =
     (let n = push_bit 16 (ucast a) OR push_bit 8 (ucast b) OR ucast c in
      [enc_char v n 18, enc_char v n 12, enc_char v n 6, enc_char v n 0] @ bytesToBase64 rest v)"
| "bytesToBase64 [a] v =
     (let n = push_bit 16 (ucast a) in
      [enc_char v n 18, enc_char v n 12] @ (if v = Std then ''=='' else ''''))"
| "bytesToBase64 [a, b] v =
     (let n = push_bit 16 (ucast a) OR push_bit 8 (ucast b) in
      [enc_char v n 18, enc_char v n 12, enc_char v n 6] @ (if v = Std then ''='' else ''''))"
| "bytesToBase64 [] v = ''''"

text \<open>The UTF-8 encoding of a string, as \<open>TextEncoder\<close> computes it for code units below 256.\<close>

definition utf8_char :: "char \<Rightarrow> bytes" where
  "utf8_char c =
     (let n = of_char c :: nat in
      if n < 128 then [word_of_nat n]
      else [word_of_nat (192 + n div 64), word_of_nat (128 + n mod 64)])"

definition utf8ToBytes :: "string \<Rightarrow> bytes" where
  "utf8ToBytes s = concat (map utf8_char s)"

lemma utf8ToBytes_append [simp]: "utf8ToBytes (s @ t) = utf8ToBytes s @ utf8ToBytes t"
  by (simp add: utf8ToBytes_def)

text \<open>\<open>bytesEqual\<close>: lengths first, then the OR of all the differences.\<close>

definition bytesEqual :: "bytes \<Rightarrow> bytes \<Rightarrow> bool" where
  "bytesEqual a b =
     (if length a \<noteq> length b then False
      else foldl (\<lambda>diff i. diff OR (a ! i XOR b ! i)) 0 [0 ..< length a] = (0 :: byte))"

subsection \<open>The lookup tables invert the alphabets\<close>

lemma buildLookup_prefix:
  assumes "distinct a" "\<forall>c \<in> set a. of_char c < (128 :: nat)" "k \<le> length a"
  defines "t \<equiv> foldl (\<lambda>table i. table[of_char (a ! i) := int i]) (replicate 128 (-1)) [0 ..< k]"
  shows "length t = 128 \<and> (\<forall>i < k. t ! of_char (a ! i) = int i) \<and>
         (\<forall>n < 128. (\<forall>i < k. of_char (a ! i) \<noteq> n) \<longrightarrow> t ! n = -1)"
  using assms(3) unfolding t_def
proof (induction k)
  case 0
  then show ?case by simp
next
  case (Suc k)
  have ne: "of_char (a ! i) \<noteq> (of_char (a ! k) :: nat)" if "i < k" for i
    using that Suc.prems assms(1) by (auto simp: nth_eq_iff_index_eq)
  have "of_char (a ! k) < (128 :: nat)"
    using assms(2) Suc.prems by auto
  with Suc ne show ?case
    by (auto simp: less_Suc_eq nth_list_update)
qed

lemma buildLookup_hit:
  assumes "distinct a" "\<forall>c \<in> set a. of_char c < (128 :: nat)" "i < length a"
  shows "buildLookup a ! of_char (a ! i) = int i"
  using buildLookup_prefix [of a "length a"] assms by (simp add: buildLookup_def)

lemma buildLookup_miss:
  assumes "distinct a" "\<forall>c \<in> set a. of_char c < (128 :: nat)" "n < 128" "char_of n \<notin> set a"
  shows "buildLookup a ! n = -1"
proof -
  have "of_char (a ! i) \<noteq> n" if "i < length a" for i
  proof
    assume "of_char (a ! i) = n"
    then have "char_of n = a ! i" by (metis char_of_char)
    with that assms(4) show False by simp
  qed
  with buildLookup_prefix [of a "length a"] assms show ?thesis
    by (simp add: buildLookup_def)
qed

lemma alphabet_facts:
  "length (alphabet_of v) = 64" "distinct (alphabet_of v)"
  "\<forall>c \<in> set (alphabet_of v). of_char c < (128 :: nat)"
  by (cases v; simp add: alphabet_of_def B64_STD_def B64_URL_def)+

lemma lookup_of_alphabet: "lookup_of v = buildLookup (alphabet_of v)"
  by (cases v) (simp_all add: lookup_of_def alphabet_of_def STD_LOOKUP_def URL_LOOKUP_def)

lemma char_val_alphabet [simp]: "i < 64 \<Longrightarrow> char_val v (alphabet_of v ! i) = int i"
  using buildLookup_hit [OF alphabet_facts(2,3), of i v] alphabet_facts(1,3) [of v]
  by (simp add: char_val_def lookup_of_alphabet)

lemma char_val_cases:
  obtains (hit) i where "i < 64" "c = alphabet_of v ! i" "char_val v c = int i"
  | (miss) "c \<notin> set (alphabet_of v)" "char_val v c = -1"
proof (cases "c \<in> set (alphabet_of v)")
  case True
  then obtain i where "i < 64" "c = alphabet_of v ! i"
    by (auto simp: in_set_conv_nth alphabet_facts)
  then show ?thesis by (auto intro: hit)
next
  case False
  then have "char_val v c = -1"
    using buildLookup_miss [OF alphabet_facts(2,3), of "of_char c" v]
    by (simp add: char_val_def lookup_of_alphabet Let_def)
  with False show ?thesis by (rule miss)
qed

subsection \<open>One group of four characters\<close>

lemma mask_lits: "(63 :: 32 word) = mask 6" "(0xff :: 32 word) = mask 8"
  by (simp_all add: mask_eq_exp_minus_1)

lemma byte_bits: "bit (a :: byte) n \<Longrightarrow> n < 8"
  using bit_imp_le_length [of a n] by simp

lemma byte_high: "8 \<le> n \<Longrightarrow> \<not> bit (a :: byte) n"
  by (auto dest: byte_bits)

definition group3 :: "byte \<Rightarrow> byte \<Rightarrow> byte \<Rightarrow> 32 word" where
  "group3 a b c = push_bit 16 (ucast a) OR push_bit 8 (ucast b) OR ucast c"

definition sextet :: "32 word \<Rightarrow> nat \<Rightarrow> 32 word" where
  "sextet n k = signed_drop_bit k n AND 63"

lemma Suc_Suc_minus2: "2 \<le> n \<Longrightarrow> Suc (Suc (n - 2)) = n"
  by arith

definition put6 :: "32 word \<Rightarrow> 32 word \<Rightarrow> 32 word" where
  "put6 buf x = push_bit 6 buf OR x"

lemma shift_in_put6 [simp]: "shift_in buf (uint x) = put6 buf x"
  by (simp add: shift_in_def put6_def)

lemmas group_defs = put6_def byte_at_def sextet_def group3_def mask_lits

lemma group3_byte1:
  "byte_at 4 (put6 (put6 buf (sextet (group3 a b c) 18)) (sextet (group3 a b c) 12)) = a"
  unfolding group_defs
  by (rule bit_word_eqI) (auto simp: bit_simps Suc_Suc_minus2 dest: byte_bits)

lemma group3_byte2:
  "byte_at 2 (put6 (put6 buf (sextet (group3 a b c) 12)) (sextet (group3 a b c) 6)) = b"
  unfolding group_defs
  by (rule bit_word_eqI) (auto simp: bit_simps dest: byte_bits)

lemma group3_byte3:
  "byte_at 0 (put6 (put6 buf (sextet (group3 a b c) 6)) (sextet (group3 a b c) 0)) = c"
  unfolding group_defs
  by (rule bit_word_eqI) (auto simp: bit_simps dest: byte_bits)

lemma trail_bits_zero_iff:
  "trail_bits k w = 0 \<longleftrightarrow> (\<forall>n < min k 32. \<not> bit w n)"
proof -
  have "(push_bit k 1 - 1 :: 32 word) = mask k"
    by (simp add: mask_eq_exp_minus_1 push_bit_eq_mult)
  then show ?thesis
    by (auto simp: trail_bits_def bit_eq_iff bit_simps)
qed

lemma sextet_lt: "unat (sextet n k) < 64"
proof -
  have "sextet n k \<le> 63" unfolding sextet_def by (rule word_and_le1)
  then show ?thesis by (simp add: word_le_nat_alt)
qed

lemma enc_char_sextet: "enc_char v n k = alphabet_of v ! unat (sextet n k)"
  by (simp add: enc_char_def sextet_def)

lemma char_val_enc_char [simp]: "char_val v (enc_char v n k) = uint (sextet n k)"
  by (simp add: enc_char_sextet sextet_lt)

lemma group3_zero:
  "push_bit 16 (ucast a) = group3 a 0 0"
  "push_bit 16 (ucast a) OR push_bit 8 (ucast b) = group3 a b 0"
  by (simp_all add: group3_def)

lemma tail1_clean:
  "trail_bits 4 (put6 (put6 buf (sextet (group3 a 0 0) 18)) (sextet (group3 a 0 0) 12)) = 0"
  unfolding group_defs trail_bits_zero_iff by (auto simp: bit_simps)

lemma tail2_clean:
  "trail_bits 2 (put6 (put6 buf (sextet (group3 a b 0) 12)) (sextet (group3 a b 0) 6)) = 0"
  unfolding group_defs trail_bits_zero_iff by (auto simp: bit_simps)

text \<open>The encoding without its padding.\<close>

fun enc_core :: "b64_variant \<Rightarrow> bytes \<Rightarrow> string" where
  "enc_core v (a # b # c # rest) =
     (let n = group3 a b c in
      [enc_char v n 18, enc_char v n 12, enc_char v n 6, enc_char v n 0] @ enc_core v rest)"
| "enc_core v [a] = [enc_char v (group3 a 0 0) 18, enc_char v (group3 a 0 0) 12]"
| "enc_core v [a, b] =
     [enc_char v (group3 a b 0) 18, enc_char v (group3 a b 0) 12, enc_char v (group3 a b 0) 6]"
| "enc_core v [] = []"

definition b64_padding :: "b64_variant \<Rightarrow> nat \<Rightarrow> nat" where
  "b64_padding v n = (if v = Std then (3 - n mod 3) mod 3 else 0)"

lemma replicate_2: "replicate 2 x = [x, x]"
  by (simp add: numeral_2_eq_2)

lemma bytesToBase64_core:
  "bytesToBase64 bs v = enc_core v bs @ replicate (b64_padding v (length bs)) CHR ''=''"
proof (induction bs v rule: bytesToBase64.induct)
  case (1 a b c rest v)
  have "Suc (Suc (Suc (length rest))) mod 3 = length rest mod 3"
    by presburger
  with 1 show ?case by (simp add: Let_def group3_def b64_padding_def)
qed (simp_all add: Let_def group3_def b64_padding_def replicate_2)

lemma dec_loop_core:
  assumes "length out + length bs \<le> m"
  shows "\<exists>buf' bits. dec_loop v m (enc_core v bs) buf 0 out = Inr (out @ bs, buf', bits) \<and>
           (0 < bits \<longrightarrow> trail_bits bits buf' = 0)"
  using assms
proof (induction v bs arbitrary: buf out rule: enc_core.induct)
  case (1 v a b c rest)
  have "length (out @ [a, b, c]) + length rest \<le> m" using "1.prems" by simp
  from "1.IH" [OF refl this] show ?case
    using "1.prems" by (simp add: Let_def group3_byte1 group3_byte2 group3_byte3)
next
  case (2 v a)
  then show ?case using tail1_clean by (simp add: Let_def group3_byte1)
next
  case (3 v a b)
  then show ?case using tail2_clean by (simp add: Let_def group3_byte1 group3_byte2)
qed simp


definition six_bits :: "32 word \<Rightarrow> bool" where
  "six_bits x \<longleftrightarrow> (\<forall>n. bit x n \<longrightarrow> n < 6)"

lemma six_bits_sextet [simp]: "six_bits (sextet n k)"
  by (simp add: six_bits_def sextet_def mask_lits bit_simps)

lemma six_bits_high: "six_bits x \<Longrightarrow> 6 \<le> n \<Longrightarrow> \<not> bit x n"
  by (force simp: six_bits_def)

lemma six_bits_eqI:
  assumes "six_bits x" "six_bits y"
    and "bit x 0 = bit y 0" "bit x 1 = bit y 1" "bit x 2 = bit y 2"
    and "bit x 3 = bit y 3" "bit x 4 = bit y 4" "bit x 5 = bit y 5"
  shows "x = y"
proof (rule bit_word_eqI)
  fix n :: nat
  show "bit x n \<longleftrightarrow> bit y n"
  proof (cases "n < 6")
    case True
    then have "n \<in> {0, 1, 2, 3, 4, 5}" by auto
    with assms show ?thesis by auto
  next
    case False
    with assms(1,2) show ?thesis by (simp add: six_bits_high)
  qed
qed

lemma sextet_group3_1:
  assumes "six_bits w" "six_bits x"
  shows "sextet (group3 (byte_at 4 (put6 (put6 buf w) x)) b c) 18 = w"
  using assms by (intro six_bits_eqI six_bits_sextet) (simp_all add: group_defs byte_high six_bits_high bit_simps)

lemma sextet_group3_2:
  assumes "six_bits x" "six_bits y"
  shows "sextet (group3 (byte_at 4 (put6 buf x)) (byte_at 2 (put6 (put6 buf' x) y)) c) 12 = x"
  using assms by (intro six_bits_eqI six_bits_sextet) (simp_all add: group_defs byte_high six_bits_high bit_simps)

lemma sextet_group3_3:
  assumes "six_bits y" "six_bits z"
  shows "sextet (group3 a (byte_at 2 (put6 buf y)) (byte_at 0 (put6 (put6 buf' y) z))) 6 = y"
  using assms by (intro six_bits_eqI six_bits_sextet) (simp_all add: group_defs byte_high six_bits_high bit_simps)

lemma sextet_group3_4:
  assumes "six_bits z"
  shows "sextet (group3 a b (byte_at 0 (put6 buf z))) 0 = z"
  using assms by (intro six_bits_eqI six_bits_sextet) (simp_all add: group_defs byte_high six_bits_high bit_simps)

lemma sextet_tail1:
  assumes "six_bits x" "trail_bits 4 (put6 buf x) = 0"
  shows "sextet (group3 (byte_at 4 (put6 buf x)) 0 0) 12 = x"
  using assms by (intro six_bits_eqI six_bits_sextet) (simp_all add: group_defs byte_high trail_bits_zero_iff six_bits_high bit_simps)

lemma sextet_tail2:
  assumes "six_bits y" "trail_bits 2 (put6 buf y) = 0"
  shows "sextet (group3 a (byte_at 2 (put6 buf y)) 0) 6 = y"
  using assms by (intro six_bits_eqI six_bits_sextet) (simp_all add: group_defs byte_high trail_bits_zero_iff six_bits_high bit_simps)


lemma six_bits_of_nat: "i < 64 \<Longrightarrow> six_bits (word_of_nat i)"
proof -
  assume i: "i < 64"
  have "n < 6" if "odd (i div 2 ^ n)" for n
  proof (rule ccontr)
    assume "\<not> n < 6"
    then have "(2 :: nat) ^ 6 \<le> 2 ^ n" by (intro power_increasing) auto
    with i have "i div 2 ^ n = 0" by simp
    with that show False by simp
  qed
  then show ?thesis by (simp add: six_bits_def bit_simps) (simp add: bit_iff_odd)
qed

lemma char_val_valid:
  assumes "\<not> char_val v c < 0"
  obtains x where "six_bits x" "\<And>buf. shift_in buf (char_val v c) = put6 buf x"
    "\<And>n k. sextet n k = x \<Longrightarrow> enc_char v n k = c"
proof (cases v c rule: char_val_cases)
  case (hit i)
  let ?x = "word_of_nat i :: 32 word"
  have "unat ?x = i" using hit(1) by (simp add: unat_of_nat take_bit_nat_eq_self_iff)
  with hit have "six_bits ?x" "\<And>buf. shift_in buf (char_val v c) = put6 buf ?x"
    "\<And>n k. sextet n k = ?x \<Longrightarrow> enc_char v n k = c"
    by (simp_all add: six_bits_of_nat shift_in_def put6_def enc_char_sextet)
  then show ?thesis by (rule that)
next
  case miss
  with assms show ?thesis by simp
qed

lemma dec_loop_step:
  assumes "dec_loop v m (c # cs) buf bits out = Inr res"
  obtains x where "six_bits x" "\<And>n k. sextet n k = x \<Longrightarrow> enc_char v n k = c"
    "2 \<le> bits \<Longrightarrow> dec_loop v m cs (put6 buf x) (bits - 2) (out @ [byte_at (bits - 2) (put6 buf x)]) = Inr res"
    "bits < 2 \<Longrightarrow> dec_loop v m cs (put6 buf x) (bits + 6) out = Inr res"
proof -
  from assms have c: "\<not> char_val v c < 0" by (auto simp: err_if_def split: if_splits)
  obtain x where x: "six_bits x" "\<And>buf. shift_in buf (char_val v c) = put6 buf x"
    "\<And>n k. sextet n k = x \<Longrightarrow> enc_char v n k = c"
    using char_val_valid [OF c] by metis
  have "bits + 6 - 8 = bits - 2" by simp
  with assms c x(2) show ?thesis
    by (intro that [OF x(1,3)]) (auto simp: Let_def err_if_def split: if_splits)
qed

lemma dec_loop_canonical:
  assumes "dec_loop v m cs buf 0 out = Inr (out', buf', bits)"
    and "0 < bits \<longrightarrow> trail_bits bits buf' = 0" and "length cs mod 4 \<noteq> 1"
  shows "\<exists>bs. out' = out @ bs \<and> cs = enc_core v bs"
  using assms
proof (induction cs arbitrary: buf out rule: length_induct)
  case (1 cs)
  note IH = "1.IH" and prem = "1.prems"
  consider "cs = []" | p where "cs = [p]" | p q where "cs = [p, q]" | p q r where "cs = [p, q, r]"
    | p q r t rest where "cs = p # q # r # t # rest"
    by (metis neq_Nil_conv)
  then show ?case
  proof cases
    case 1
    with prem show ?thesis by (intro exI [of _ "[]"]) simp
  next
    case 2
    with prem show ?thesis by simp
  next
    case (3 p q)
    obtain x where x: "six_bits x" "\<And>n k. sextet n k = x \<Longrightarrow> enc_char v n k = p"
      and 1: "dec_loop v m [q] (put6 buf x) 6 out = Inr (out', buf', bits)"
      using dec_loop_step [OF prem(1) [unfolded 3]] by auto
    obtain y where y: "six_bits y" "\<And>n k. sextet n k = y \<Longrightarrow> enc_char v n k = q"
      and 2: "out' = out @ [byte_at 4 (put6 (put6 buf x) y)]" "buf' = put6 (put6 buf x) y" "bits = 4"
      using dec_loop_step [OF 1] by auto
    with prem(2) x 3 show ?thesis
      by (intro exI [of _ "[byte_at 4 (put6 (put6 buf x) y)]"])
        (simp add: sextet_group3_1 sextet_tail1)
  next
    case (4 p q r)
    obtain x where x: "six_bits x" "\<And>n k. sextet n k = x \<Longrightarrow> enc_char v n k = p"
      and 1: "dec_loop v m [q, r] (put6 buf x) 6 out = Inr (out', buf', bits)"
      using dec_loop_step [OF prem(1) [unfolded 4]] by auto
    obtain y where y: "six_bits y" "\<And>n k. sextet n k = y \<Longrightarrow> enc_char v n k = q"
      and 2: "dec_loop v m [r] (put6 (put6 buf x) y) 4 (out @ [byte_at 4 (put6 (put6 buf x) y)]) = Inr (out', buf', bits)"
      using dec_loop_step [OF 1] by auto
    obtain z where z: "six_bits z" "\<And>n k. sextet n k = z \<Longrightarrow> enc_char v n k = r"
      and 3: "out' = out @ [byte_at 4 (put6 (put6 buf x) y), byte_at 2 (put6 (put6 (put6 buf x) y) z)]"
        "buf' = put6 (put6 (put6 buf x) y) z" "bits = 2"
      using dec_loop_step [OF 2] by auto
    from 3 4 x y z prem(2) show ?thesis
      by (intro exI [of _ "[byte_at 4 (put6 (put6 buf x) y), byte_at 2 (put6 (put6 (put6 buf x) y) z)]"])
        (simp add: sextet_group3_1 sextet_group3_2 sextet_tail2)
  next
    case (5 p q r t rest)
    obtain w where w: "six_bits w" "\<And>n k. sextet n k = w \<Longrightarrow> enc_char v n k = p"
      and 1: "dec_loop v m (q # r # t # rest) (put6 buf w) 6 out = Inr (out', buf', bits)"
      using dec_loop_step [OF prem(1) [unfolded 5]] by auto
    obtain x where x: "six_bits x" "\<And>n k. sextet n k = x \<Longrightarrow> enc_char v n k = q"
      and 2: "dec_loop v m (r # t # rest) (put6 (put6 buf w) x) 4 (out @ [byte_at 4 (put6 (put6 buf w) x)])
               = Inr (out', buf', bits)"
      using dec_loop_step [OF 1] by auto
    let ?b1 = "put6 (put6 buf w) x"
    obtain y where y: "six_bits y" "\<And>n k. sextet n k = y \<Longrightarrow> enc_char v n k = r"
      and 3: "dec_loop v m (t # rest) (put6 ?b1 y) 2 (out @ [byte_at 4 ?b1, byte_at 2 (put6 ?b1 y)])
               = Inr (out', buf', bits)"
      using dec_loop_step [OF 2] by auto
    let ?b2 = "put6 ?b1 y"
    obtain z where z: "six_bits z" "\<And>n k. sextet n k = z \<Longrightarrow> enc_char v n k = t"
      and 4: "dec_loop v m rest (put6 ?b2 z) 0 ((out @ [byte_at 4 ?b1, byte_at 2 ?b2]) @ [byte_at 0 (put6 ?b2 z)])
               = Inr (out', buf', bits)"
      using dec_loop_step [OF 3] by auto
    have "length rest < length cs" "length rest mod 4 \<noteq> 1" using 5 prem(3) by auto
    with IH 4 prem(2) obtain bs where
      "out' = ((out @ [byte_at 4 ?b1, byte_at 2 ?b2]) @ [byte_at 0 (put6 ?b2 z)]) @ bs" "rest = enc_core v bs"
      by blast
    with 5 w x y z show ?thesis
      by (intro exI [of _ "[byte_at 4 ?b1, byte_at 2 ?b2, byte_at 0 (put6 ?b2 z)] @ bs"])
        (simp add: Let_def sextet_group3_1 sextet_group3_2 sextet_group3_3 sextet_group3_4)
  qed
qed

subsection \<open>Padding and lengths\<close>

lemma equals_not_in_alphabet: "CHR ''='' \<notin> set (alphabet_of v)"
  by (cases v) (simp_all add: alphabet_of_def B64_STD_def B64_URL_def)

lemma enc_char_in_alphabet: "enc_char v n k \<in> set (alphabet_of v)"
  by (simp add: enc_char_sextet sextet_lt alphabet_facts)

lemma set_enc_core: "set (enc_core v bs) \<subseteq> set (alphabet_of v)"
  by (induction v bs rule: enc_core.induct) (auto simp: Let_def enc_char_in_alphabet)

lemma length_enc_core: "length (enc_core v bs) = (4 * length bs + 2) div 3"
  by (induction v bs rule: enc_core.induct) (simp_all add: Let_def)

lemma enc_core_no_pad: "CHR ''='' \<notin> set (enc_core v bs)"
  using set_enc_core equals_not_in_alphabet by blast

lemma enc_core_takeWhile: "enc_core v bs = takeWhile (\<lambda>c. c \<noteq> CHR ''='') (bytesToBase64 bs v)"
proof -
  have "takeWhile (\<lambda>c. c \<noteq> CHR ''='') (xs @ replicate k CHR ''='') = xs"
    if "CHR ''='' \<notin> set xs" for xs k
    using that by (induction xs) (auto simp: takeWhile_replicate)
  then show ?thesis by (simp add: bytesToBase64_core enc_core_no_pad)
qed

lemma strip_end_Inr:
  assumes "strip_end s n pad = Inr len" "n \<le> length s" "pad \<le> 2"
  shows "len \<le> n \<and> pad + (n - len) \<le> 2 \<and> take n s = take len s @ replicate (n - len) CHR ''=''"
  using assms
proof (induction n arbitrary: pad)
  case (Suc n)
  show ?case
  proof (cases "s ! n = CHR ''=''")
    case True
    with Suc.prems have "strip_end s n (Suc pad) = Inr len" "n \<le> length s" "Suc pad \<le> 2"
      by (auto simp: err_if_def split: if_splits)
    note Suc.IH [OF this]
    with True Suc.prems(2) show ?thesis
      by (auto simp: take_Suc_conv_app_nth Suc_diff_le replicate_append_same)
  next
    case False
    with Suc.prems show ?thesis by auto
  qed
qed simp

lemma strip_end_append:
  assumes "CHR ''='' \<notin> set t" "pad + k \<le> 2" "k \<le> j"
  shows "strip_end (t @ replicate j CHR ''='') (length t + k) pad = Inr (length t)"
  using assms(2,3)
proof (induction k arbitrary: pad)
  case 0
  show ?case
  proof (cases t rule: rev_cases)
    case (snoc xs x)
    with assms(1) show ?thesis by (auto simp: nth_append)
  qed simp
next
  case (Suc k)
  then show ?case by (simp add: nth_append)
qed

lemma dec_loop_length:
  assumes "dec_loop v m cs buf bits out = Inr (out', b', k)" "length out \<le> m"
  shows "length out' \<le> m"
  using assms
  by (induction v m cs buf bits out rule: dec_loop.induct)
    (auto simp: Let_def err_if_def split: if_splits)

lemma base64ToBytes_core_iff:
  "base64ToBytes s m v = Inr bs \<longleftrightarrow>
     length bs \<le> m \<and>
     (\<exists>k. k \<le> 2 \<and> s = enc_core v bs @ replicate k CHR ''='')"
proof
  assume "base64ToBytes s m v = Inr bs"
  then obtain len buf bits where
    strip: "strip_end s (length s) 0 = Inr len" and mod: "len mod 4 \<noteq> 1"
    and loop: "dec_loop v m (take len s) 0 0 [] = Inr (bs, buf, bits)"
    and clean: "0 < bits \<longrightarrow> trail_bits bits buf = 0"
    by (auto simp: base64ToBytes_def result_simps Let_def)
  from strip_end_Inr [OF strip] have len: "len \<le> length s" "length s - len \<le> 2"
    and s: "s = take len s @ replicate (length s - len) CHR ''=''" by auto
  have "length (take len s) mod 4 \<noteq> 1" using len mod by simp
  from dec_loop_canonical [OF loop clean this] have "take len s = enc_core v bs" by auto
  with s len dec_loop_length [OF loop] show
    "length bs \<le> m \<and> (\<exists>k. k \<le> 2 \<and> s = enc_core v bs @ replicate k CHR ''='')"
    by auto
next
  assume "length bs \<le> m \<and> (\<exists>k. k \<le> 2 \<and> s = enc_core v bs @ replicate k CHR ''='')"
  then obtain k where m: "length bs \<le> m" and k: "k \<le> 2" and s: "s = enc_core v bs @ replicate k CHR ''=''"
    by auto
  let ?n = "(4 * length bs + 2) div 3"
  have "strip_end s (length s) 0 = Inr ?n"
    using strip_end_append [OF enc_core_no_pad, of 0 k k v bs] k by (simp add: s length_enc_core)
  moreover have "take ?n s = enc_core v bs"
    by (simp add: s length_enc_core)
  moreover obtain buf bits where "dec_loop v m (enc_core v bs) 0 0 [] = Inr (bs, buf, bits)"
      "0 < bits \<longrightarrow> trail_bits bits buf = 0"
    using dec_loop_core [of "[]" bs m v 0] m by auto
  moreover have "?n * 3 div 4 = length bs" "?n mod 4 \<noteq> 1" by presburger+
  ultimately show "base64ToBytes s m v = Inr bs"
    using m by (auto simp: base64ToBytes_def err_if_def)
qed

text \<open>
  base64 decoding accepts exactly the unpadded encoding of its result, followed by at most two
  padding characters, and only results within the cap: so it inverts encoding, two inputs with the
  same bytes differ in their padding only, and no result is longer than the caller allowed.
\<close>
theorem base64ToBytes_iff:
  "base64ToBytes s m v = Inr bs \<longleftrightarrow>
     length bs \<le> m \<and>
     (\<exists>k. k \<le> 2 \<and> s = takeWhile (\<lambda>c. c \<noteq> CHR ''='') (bytesToBase64 bs v) @ replicate k CHR ''='')"
  by (simp add: base64ToBytes_core_iff enc_core_takeWhile)

subsection \<open>Consequences the other components use\<close>

lemma base64_roundtrip [simp]:
  "length bs \<le> m \<Longrightarrow> base64ToBytes (bytesToBase64 bs v) m v = Inr bs"
proof -
  assume "length bs \<le> m"
  moreover have "b64_padding v (length bs) \<le> 2" by (auto simp: b64_padding_def)
  ultimately show ?thesis
    by (auto simp: base64ToBytes_core_iff bytesToBase64_core [of bs v])
qed

lemma bytesEqual_iff [simp]: "bytesEqual a b \<longleftrightarrow> a = b"
proof -
  have fold: "foldl (\<lambda>diff i. diff OR (a ! i XOR b ! i)) d js = 0 \<longleftrightarrow> d = 0 \<and> (\<forall>i \<in> set js. a ! i = b ! i)"
    for d :: byte and js
  proof (induction js arbitrary: d)
    case (Cons i js)
    have "d OR (a ! i XOR b ! i) = 0 \<longleftrightarrow> d = 0 \<and> a ! i = b ! i"
      by (auto simp: bit_eq_iff bit_simps)
    with Cons show ?case by auto
  qed simp
  show ?thesis
    unfolding bytesEqual_def fold list_eq_iff_nth_eq [of a b] by auto
qed

end
