(* ===== verification/SignerConstants.thy ===== *)
theory SignerConstants
  imports Prelude
begin

text \<open>
  The fixed parameters of the signer, \<^verbatim>\<open>secure-signer/src/constants.ts\<close>: the protocol
  version, the cryptographic sizes, the caps applied before parsing, the freshness window, and the
  choice of the WebAuthn RP ID (\<open>resolveRpId\<close>).  Numbers are the source's, byte counts as \<open>nat\<close>,
  times in milliseconds as \<open>int\<close>.
\<close>

definition PROTOCOL_VERSION :: nat where "PROTOCOL_VERSION = 1"

definition resolveRpId :: "string \<Rightarrow> string option \<Rightarrow> string" where
  "resolveRpId hostname envRpId =
     (let fromEnv = map_option trim envRpId in
      if fromEnv \<noteq> None \<and> fromEnv \<noteq> Some '''' then the fromEnv
      else if hostname = ''localhost'' \<or> hostname = ''127.0.0.1'' then ''localhost''
      else if hostname = ''revibase.com'' \<or> ends_with ''.revibase.com'' hostname then ''revibase.com''
      else hostname)"

definition PRF_INPUT_LABEL :: string where "PRF_INPUT_LABEL = ''secure-signer:prf:v1''"
definition HKDF_INFO_LABEL :: string where "HKDF_INFO_LABEL = ''secure-signer:wrap:v1''"
definition AES_GCM_IV_BYTES :: nat where "AES_GCM_IV_BYTES = 12"
definition ED25519_SEED_BYTES :: nat where "ED25519_SEED_BYTES = 32"
definition ED25519_PUBKEY_BYTES :: nat where "ED25519_PUBKEY_BYTES = 32"
definition KDF_SALT_BYTES :: nat where "KDF_SALT_BYTES = 32"
definition PUT_CHALLENGE_PREFIX :: string where
  "PUT_CHALLENGE_PREFIX = ''revibase.owner-wallet.put.v1''"

definition BLOB_MAGIC :: bytes where "BLOB_MAGIC = [0x53, 0x53, 0x57, 0x31]"
definition BLOB_VERSION :: byte where "BLOB_VERSION = 1"

definition MAX_MESSAGE_BYTES :: nat where "MAX_MESSAGE_BYTES = 16 * 1024"
definition MAX_BLOB_BYTES :: nat where "MAX_BLOB_BYTES = 1024"
definition MAX_CREDENTIAL_ID_BYTES :: nat where "MAX_CREDENTIAL_ID_BYTES = 256"
definition MAX_TX_BYTES :: nat where "MAX_TX_BYTES = 4096"

definition REQUEST_FRESHNESS_WINDOW_MS :: int where "REQUEST_FRESHNESS_WINDOW_MS = 60000"
definition SEEN_REQUEST_IDS_LIMIT :: nat where "SEEN_REQUEST_IDS_LIMIT = 512"

lemmas signer_sizes =
  AES_GCM_IV_BYTES_def ED25519_SEED_BYTES_def ED25519_PUBKEY_BYTES_def KDF_SALT_BYTES_def
  MAX_BLOB_BYTES_def MAX_CREDENTIAL_ID_BYTES_def MAX_TX_BYTES_def MAX_MESSAGE_BYTES_def

text \<open>An apex or sub-domain of the product always shares the apex RP ID, and nothing else does.\<close>

lemma resolveRpId_product:
  "resolveRpId h None = ''revibase.com'' \<longleftrightarrow> h = ''revibase.com'' \<or> ends_with ''.revibase.com'' h"
  by (auto simp: resolveRpId_def ends_with_def)

end
