(* ===== verification/Protocol.thy ===== *)
theory Protocol
  imports Encoding SignerConstants Complex_Main
begin

text \<open>
  The message protocol of the signer, \<^verbatim>\<open>secure-signer/src/protocol.ts\<close>: the JavaScript values a
  parent page can post, the size of their JSON text, and the fail-closed validator that turns one of
  them into a typed request.

  A posted value is a \<open>js\<close>: what the structured clone algorithm can carry and the code
  distinguishes.  An object is its list of own properties; \<open>jget\<close> is a property read.  A finite
  number is a rational (every double is one); \<open>number_text\<close> stands for ECMAScript's decimal text of a
  number, of which only the length matters here.  A \<open>JBigInt\<close> is a value \<open>JSON.stringify\<close> throws on.

  The main theorem characterises the validator: it accepts exactly the messages that are the
  serialisation of a well-formed request.
\<close>

datatype error_code =
  INVALID_MESSAGE | UNSUPPORTED_PROTOCOL | UNSUPPORTED_VERSION | MALFORMED_TRANSACTION
| INVALID_WALLET_BLOB | UNSUPPORTED_CREDENTIAL | POLICY_REJECTED | USER_CANCELLED
| AUTHENTICATION_FAILED | DECRYPTION_FAILED | WALLET_MISMATCH | REPLAY_REJECTED | INTERNAL_ERROR
| BLOB_UNAVAILABLE

datatype request_type = SIGN_TRANSACTION | EXPORT_PRIVATE_KEY | AUTH_START

definition REQUEST_TYPES :: "(string \<times> request_type) list" where
  "REQUEST_TYPES =
     [(''SIGN_TRANSACTION'', SIGN_TRANSACTION), (''EXPORT_PRIVATE_KEY'', EXPORT_PRIVATE_KEY),
      (''AUTH_START'', AUTH_START)]"

fun RESULT_TYPE :: "request_type \<Rightarrow> string" where
  "RESULT_TYPE SIGN_TRANSACTION = ''SIGN_TRANSACTION_RESULT''"
| "RESULT_TYPE EXPORT_PRIVATE_KEY = ''EXPORT_PRIVATE_KEY_RESULT''"
| "RESULT_TYPE AUTH_START = ''AUTH_COMPLETE''"

datatype auth_mode = Create | Unlock

datatype request_body =
  SignTransaction string
| ExportPrivateKey
| AuthStart "auth_mode option" "string option" "string option"

record inbound_request =
  protocolVersion :: nat
  requestId :: string
  timestamp :: rat
  body :: request_body

datatype validation_result = VOk inbound_request | VFail error_code "string option"

fun ALLOWED_KEYS :: "request_type \<Rightarrow> string list" where
  "ALLOWED_KEYS SIGN_TRANSACTION =
     [''type'', ''protocolVersion'', ''requestId'', ''timestamp'', ''transaction'']"
| "ALLOWED_KEYS EXPORT_PRIVATE_KEY = [''type'', ''protocolVersion'', ''requestId'', ''timestamp'']"
| "ALLOWED_KEYS AUTH_START =
     [''type'', ''protocolVersion'', ''requestId'', ''timestamp'', ''authMode'', ''credentialId'',
      ''webauthnAttestationObject'']"

subsection \<open>Posted values and their JSON text\<close>

datatype js =
  JUndefined | JNull | JBool bool | JNumber rat | JNonFinite | JBigInt int | JString string
| JArray "js list" | JObject "(string \<times> js) list"

definition jget :: "(string \<times> js) list \<Rightarrow> string \<Rightarrow> js" where
  "jget ps k = (case map_of ps k of None \<Rightarrow> JUndefined | Some v \<Rightarrow> v)"

definition hex_digit :: "nat \<Rightarrow> char" where
  "hex_digit n = ''0123456789abcdef'' ! n"

definition json_char :: "char \<Rightarrow> string" where
  "json_char c =
     (if c = CHR 0x22 \<or> c = CHR 0x5C then [CHR 0x5C, c]
      else if c = CHR 0x08 then [CHR 0x5C, CHR ''b'']
      else if c = CHR 0x0C then [CHR 0x5C, CHR ''f'']
      else if c = CHR 0x0A then [CHR 0x5C, CHR ''n'']
      else if c = CHR 0x0D then [CHR 0x5C, CHR ''r'']
      else if c = CHR 0x09 then [CHR 0x5C, CHR ''t'']
      else if (of_char c :: nat) < 32
        then [CHR 0x5C, CHR ''u'', CHR ''0'', CHR ''0'', hex_digit (of_char c div 16), hex_digit (of_char c mod 16)]
      else [c])"

definition json_string :: "string \<Rightarrow> string" where
  "json_string s = [CHR 0x22] @ concat (map json_char s) @ [CHR 0x22]"

text \<open>
  \<open>JSON.stringify\<close>: \<open>None\<close> when it throws, \<open>Some None\<close> when it returns \<open>undefined\<close>.  Array elements
  that have no text become \<open>null\<close>, properties that have none are left out.
\<close>

fun json_text :: "(rat \<Rightarrow> string) \<Rightarrow> js \<Rightarrow> string option option"
  and json_elems :: "(rat \<Rightarrow> string) \<Rightarrow> js list \<Rightarrow> string list option"
  and json_members :: "(rat \<Rightarrow> string) \<Rightarrow> (string \<times> js) list \<Rightarrow> string list option"
where
  "json_text num JUndefined = Some None"
| "json_text num JNull = Some (Some ''null'')"
| "json_text num (JBool b) = Some (Some (if b then ''true'' else ''false''))"
| "json_text num (JNumber q) = Some (Some (num q))"
| "json_text num JNonFinite = Some (Some ''null'')"
| "json_text num (JBigInt i) = None"
| "json_text num (JString s) = Some (Some (json_string s))"
| "json_text num (JArray xs) =
     (case json_elems num xs of None \<Rightarrow> None
      | Some ts \<Rightarrow> Some (Some (''['' @ join '','' ts @ '']'')))"
| "json_text num (JObject ps) =
     (case json_members num ps of None \<Rightarrow> None
      | Some ts \<Rightarrow> Some (Some (''{'' @ join '','' ts @ ''}'')))"
| "json_elems num [] = Some []"
| "json_elems num (x # xs) =
     (case (json_text num x, json_elems num xs) of
        (Some t, Some ts) \<Rightarrow> Some ((case t of None \<Rightarrow> ''null'' | Some s \<Rightarrow> s) # ts)
      | _ \<Rightarrow> None)"
| "json_members num [] = Some []"
| "json_members num ((k, v) # ps) =
     (case (json_text num v, json_members num ps) of
        (Some None, Some ts) \<Rightarrow> Some ts
      | (Some (Some s), Some ts) \<Rightarrow> Some ((json_string k @ '':'' @ s) # ts)
      | _ \<Rightarrow> None)"

definition messageByteLength :: "(rat \<Rightarrow> string) \<Rightarrow> js \<Rightarrow> nat option" where
  "messageByteLength num data =
     (case json_text num data of
        None \<Rightarrow> None
      | Some None \<Rightarrow> Some 0
      | Some (Some s) \<Rightarrow> Some (length (utf8ToBytes s)))"

subsection \<open>The validator\<close>

definition request_id_char :: "char \<Rightarrow> bool" where
  "request_id_char c \<longleftrightarrow>
     (let n = of_char c :: nat in
      65 \<le> n \<and> n \<le> 90 \<or> 97 \<le> n \<and> n \<le> 122 \<or> 48 \<le> n \<and> n \<le> 57 \<or> c = CHR ''_'' \<or> c = CHR ''-'')"

definition REQUEST_ID_RE :: "string \<Rightarrow> bool" where
  "REQUEST_ID_RE s \<longleftrightarrow> list_all request_id_char s \<and> 8 \<le> length s \<and> length s \<le> 128"

definition b64Cap :: "nat \<Rightarrow> nat" where
  "b64Cap n = (n * 4 + 2) div 3 + 4"

definition validString :: "js \<Rightarrow> nat \<Rightarrow> bool" where
  "validString v maxLen = (case v of JString s \<Rightarrow> 0 < length s \<and> length s \<le> maxLen | _ \<Rightarrow> False)"

definition the_string :: "js \<Rightarrow> string option" where
  "the_string v = (case v of JString s \<Rightarrow> Some s | _ \<Rightarrow> None)"

definition the_auth_mode :: "js \<Rightarrow> auth_mode option" where
  "the_auth_mode v =
     (if v = JString ''create'' then Some Create
      else if v = JString ''unlock'' then Some Unlock else None)"

definition validate_body ::
  "request_type \<Rightarrow> (string \<times> js) list \<Rightarrow> string \<Rightarrow> rat \<Rightarrow> validation_result" where
  "validate_body rtype ps rid ts =
     (let ok = (\<lambda>b. VOk \<lparr>protocolVersion = PROTOCOL_VERSION, requestId = rid, timestamp = ts, body = b\<rparr>);
          bad = VFail INVALID_MESSAGE (Some rid) in
      case rtype of
        AUTH_START \<Rightarrow>
          (let authMode = jget ps ''authMode'' in
           if authMode \<noteq> JUndefined \<and> authMode \<noteq> JString ''create'' \<and> authMode \<noteq> JString ''unlock''
           then bad
           else let credentialId = jget ps ''credentialId'' in
           if credentialId \<noteq> JUndefined \<and> \<not> validString credentialId (b64Cap MAX_CREDENTIAL_ID_BYTES)
           then bad
           else let att = jget ps ''webauthnAttestationObject'' in
           if att \<noteq> JUndefined \<and> \<not> validString att (b64Cap MAX_BLOB_BYTES)
           then bad
           else ok (AuthStart (the_auth_mode authMode) (the_string credentialId) (the_string att)))
      | SIGN_TRANSACTION \<Rightarrow>
          (case jget ps ''transaction'' of
             JString s \<Rightarrow> if validString (JString s) (b64Cap MAX_TX_BYTES) then ok (SignTransaction s) else bad
           | _ \<Rightarrow> bad)
      | EXPORT_PRIVATE_KEY \<Rightarrow> ok ExportPrivateKey)"

definition validateInbound :: "(rat \<Rightarrow> string) \<Rightarrow> js \<Rightarrow> validation_result" where
  "validateInbound num data =
     (case messageByteLength num data of
        None \<Rightarrow> VFail INVALID_MESSAGE None
      | Some sz \<Rightarrow>
     if sz > MAX_MESSAGE_BYTES then VFail INVALID_MESSAGE None
     else case data of
       JObject ps \<Rightarrow>
         (let rid = (case jget ps ''requestId'' of
                       JString s \<Rightarrow> if REQUEST_ID_RE s then Some s else None | _ \<Rightarrow> None) in
          if jget ps ''protocolVersion'' \<noteq> JNumber (of_nat PROTOCOL_VERSION)
          then VFail UNSUPPORTED_PROTOCOL rid
          else case Option.bind (the_string (jget ps ''type'')) (map_of REQUEST_TYPES) of
            None \<Rightarrow> VFail INVALID_MESSAGE rid
          | Some rtype \<Rightarrow>
          (case rid of
             None \<Rightarrow> VFail INVALID_MESSAGE None
           | Some r \<Rightarrow>
             if \<exists>k \<in> set (map fst ps). k \<notin> set (ALLOWED_KEYS rtype) then VFail INVALID_MESSAGE (Some r)
             else case jget ps ''timestamp'' of
               JNumber ts \<Rightarrow> validate_body rtype ps r ts
             | _ \<Rightarrow> VFail INVALID_MESSAGE (Some r)))
     | _ \<Rightarrow> VFail INVALID_MESSAGE None)"

definition error_code_text :: "error_code \<Rightarrow> string" where
  "error_code_text c =
     (case c of
        INVALID_MESSAGE \<Rightarrow> ''INVALID_MESSAGE'' | UNSUPPORTED_PROTOCOL \<Rightarrow> ''UNSUPPORTED_PROTOCOL''
      | UNSUPPORTED_VERSION \<Rightarrow> ''UNSUPPORTED_VERSION'' | MALFORMED_TRANSACTION \<Rightarrow> ''MALFORMED_TRANSACTION''
      | INVALID_WALLET_BLOB \<Rightarrow> ''INVALID_WALLET_BLOB'' | UNSUPPORTED_CREDENTIAL \<Rightarrow> ''UNSUPPORTED_CREDENTIAL''
      | POLICY_REJECTED \<Rightarrow> ''POLICY_REJECTED'' | USER_CANCELLED \<Rightarrow> ''USER_CANCELLED''
      | AUTHENTICATION_FAILED \<Rightarrow> ''AUTHENTICATION_FAILED'' | DECRYPTION_FAILED \<Rightarrow> ''DECRYPTION_FAILED''
      | WALLET_MISMATCH \<Rightarrow> ''WALLET_MISMATCH'' | REPLAY_REJECTED \<Rightarrow> ''REPLAY_REJECTED''
      | INTERNAL_ERROR \<Rightarrow> ''INTERNAL_ERROR'' | BLOB_UNAVAILABLE \<Rightarrow> ''BLOB_UNAVAILABLE'')"

definition errorResponse :: "string option \<Rightarrow> error_code \<Rightarrow> (string \<times> js) list" where
  "errorResponse rid code =
     [(''type'', JString ''ERROR''), (''protocolVersion'', JNumber (of_nat PROTOCOL_VERSION))] @
     (case rid of Some r \<Rightarrow> if r \<noteq> '''' then [(''requestId'', JString r)] else [] | None \<Rightarrow> []) @
     [(''code'', JString (error_code_text code))]"

subsection \<open>What the validator accepts\<close>

fun type_of_body :: "request_body \<Rightarrow> request_type" where
  "type_of_body (SignTransaction _) = SIGN_TRANSACTION"
| "type_of_body ExportPrivateKey = EXPORT_PRIVATE_KEY"
| "type_of_body (AuthStart _ _ _) = AUTH_START"

fun type_name :: "request_type \<Rightarrow> string" where
  "type_name SIGN_TRANSACTION = ''SIGN_TRANSACTION''"
| "type_name EXPORT_PRIVATE_KEY = ''EXPORT_PRIVATE_KEY''"
| "type_name AUTH_START = ''AUTH_START''"

definition opt_js :: "string option \<Rightarrow> js" where
  "opt_js v = (case v of None \<Rightarrow> JUndefined | Some s \<Rightarrow> JString s)"

definition mode_js :: "auth_mode option \<Rightarrow> js" where
  "mode_js m = opt_js (map_option (\<lambda>x. case x of Create \<Rightarrow> ''create'' | Unlock \<Rightarrow> ''unlock'') m)"

text \<open>The fields of the serialised request, and which requests are well formed.\<close>

fun body_fields :: "request_body \<Rightarrow> (string \<times> js) list" where
  "body_fields (SignTransaction tx) = [(''transaction'', JString tx)]"
| "body_fields ExportPrivateKey = []"
| "body_fields (AuthStart m c a) =
     [(''authMode'', mode_js m), (''credentialId'', opt_js c), (''webauthnAttestationObject'', opt_js a)]"

definition request_fields :: "inbound_request \<Rightarrow> (string \<times> js) list" where
  "request_fields r =
     [(''type'', JString (type_name (type_of_body (body r)))),
      (''protocolVersion'', JNumber (of_nat (protocolVersion r))),
      (''requestId'', JString (requestId r)), (''timestamp'', JNumber (timestamp r))] @
     body_fields (body r)"

definition short_string :: "nat \<Rightarrow> string \<Rightarrow> bool" where
  "short_string n s \<longleftrightarrow> s \<noteq> [] \<and> length s \<le> n"

fun wf_body :: "request_body \<Rightarrow> bool" where
  "wf_body (SignTransaction tx) = short_string (b64Cap MAX_TX_BYTES) tx"
| "wf_body ExportPrivateKey = True"
| "wf_body (AuthStart m c a) =
     (pred_option (short_string (b64Cap MAX_CREDENTIAL_ID_BYTES)) c \<and>
      pred_option (short_string (b64Cap MAX_BLOB_BYTES)) a)"

definition wf_request :: "inbound_request \<Rightarrow> bool" where
  "wf_request r \<longleftrightarrow> protocolVersion r = PROTOCOL_VERSION \<and> REQUEST_ID_RE (requestId r) \<and> wf_body (body r)"

text \<open>
  A message serialises a request when it has only the request's properties, each with the request's
  value; the order of the properties and extra \<open>undefined\<close> entries do not matter.
\<close>

definition serialises :: "(string \<times> js) list \<Rightarrow> inbound_request \<Rightarrow> bool" where
  "serialises ps r \<longleftrightarrow>
     set (map fst ps) \<subseteq> set (map fst (request_fields r)) \<and>
     list_all (\<lambda>(k, v). jget ps k = v) (request_fields r)"

lemma keys_request_fields: "map fst (request_fields r) = ALLOWED_KEYS (type_of_body (body r))"
  by (cases "body r") (auto simp: request_fields_def)

lemma REQUEST_TYPES_iff: "map_of REQUEST_TYPES s = Some t \<longleftrightarrow> s = type_name t"
  by (cases t) (auto simp: REQUEST_TYPES_def)

lemma the_string_iff: "the_string v = Some s \<longleftrightarrow> v = JString s"
  by (cases v) (auto simp: the_string_def)

lemma validString_iff: "validString v n \<longleftrightarrow> (\<exists>s. v = JString s \<and> short_string n s)"
  by (cases v) (auto simp: validString_def short_string_def)

lemma opt_js_iff: "v = opt_js c \<and> pred_option (short_string n) c \<longleftrightarrow>
    (v = JUndefined \<or> validString v n) \<and> c = the_string v"
  by (cases c; cases v) (auto simp: opt_js_def the_string_def validString_iff)

lemma mode_js_iff: "v = mode_js m \<longleftrightarrow>
    (v = JUndefined \<or> v = JString ''create'' \<or> v = JString ''unlock'') \<and> m = the_auth_mode v"
  by (cases m) (auto simp: mode_js_def opt_js_def the_auth_mode_def split: auth_mode.splits)

lemma validate_body_auth:
  "validate_body AUTH_START ps rid ts =
     (if (jget ps ''authMode'' = JUndefined \<or> jget ps ''authMode'' = JString ''create'' \<or>
          jget ps ''authMode'' = JString ''unlock'') \<and>
         (jget ps ''credentialId'' = JUndefined \<or>
          validString (jget ps ''credentialId'') (b64Cap MAX_CREDENTIAL_ID_BYTES)) \<and>
         (jget ps ''webauthnAttestationObject'' = JUndefined \<or>
          validString (jget ps ''webauthnAttestationObject'') (b64Cap MAX_BLOB_BYTES))
      then VOk \<lparr>protocolVersion = PROTOCOL_VERSION, requestId = rid, timestamp = ts,
             body = AuthStart (the_auth_mode (jget ps ''authMode'')) (the_string (jget ps ''credentialId''))
               (the_string (jget ps ''webauthnAttestationObject''))\<rparr>
      else VFail INVALID_MESSAGE (Some rid))"
  by (simp add: validate_body_def Let_def)

lemma validate_body_VOk_iff:
  "validate_body t ps rid ts = VOk r \<longleftrightarrow>
     protocolVersion r = PROTOCOL_VERSION \<and> requestId r = rid \<and> timestamp r = ts \<and>
     t = type_of_body (body r) \<and> wf_body (body r) \<and>
     list_all (\<lambda>(k, v). jget ps k = v) (body_fields (body r))"
proof (cases "body r")
  case (SignTransaction tx)
  then show ?thesis
    by (cases t; cases r) (auto simp: validate_body_def Let_def validString_iff split: js.splits)
next
  case ExportPrivateKey
  then show ?thesis
    by (cases t; cases r) (auto simp: validate_body_def Let_def validString_iff split: js.splits)
next
  case (AuthStart m c a)
  have "list_all (\<lambda>(k, v). jget ps k = v) (body_fields (AuthStart m c a)) \<and> wf_body (AuthStart m c a) \<longleftrightarrow>
      jget ps ''authMode'' = mode_js m \<and>
      (jget ps ''credentialId'' = opt_js c \<and> pred_option (short_string (b64Cap MAX_CREDENTIAL_ID_BYTES)) c) \<and>
      (jget ps ''webauthnAttestationObject'' = opt_js a \<and> pred_option (short_string (b64Cap MAX_BLOB_BYTES)) a)"
    by auto
  note body = this
  show ?thesis
  proof (cases t)
    case AUTH_START
    have "validate_body t ps rid ts = VOk r \<longleftrightarrow>
        protocolVersion r = PROTOCOL_VERSION \<and> requestId r = rid \<and> timestamp r = ts \<and>
        list_all (\<lambda>(k, v). jget ps k = v) (body_fields (AuthStart m c a)) \<and> wf_body (AuthStart m c a)"
      unfolding body opt_js_iff mode_js_iff AUTH_START validate_body_auth using AuthStart by (cases r) auto
    with AuthStart AUTH_START show ?thesis by auto
  qed (use AuthStart in \<open>auto simp: validate_body_def Let_def validString_iff split: js.splits\<close>)
qed

lemma validateInbound_VOk_iff:
  "validateInbound num data = VOk r \<longleftrightarrow>
     (\<exists>ps sz. data = JObject ps \<and> messageByteLength num data = Some sz \<and> sz \<le> MAX_MESSAGE_BYTES \<and>
        serialises ps r \<and> wf_request r)"
proof (cases data)
  case (JObject ps)
  have eq: "serialises ps r \<and> wf_request r \<longleftrightarrow>
      set (map fst ps) \<subseteq> set (ALLOWED_KEYS (type_of_body (body r))) \<and>
      jget ps ''type'' = JString (type_name (type_of_body (body r))) \<and>
      jget ps ''protocolVersion'' = JNumber (of_nat PROTOCOL_VERSION) \<and>
      jget ps ''requestId'' = JString (requestId r) \<and> REQUEST_ID_RE (requestId r) \<and>
      jget ps ''timestamp'' = JNumber (timestamp r) \<and>
      validate_body (type_of_body (body r)) ps (requestId r) (timestamp r) = VOk r"
    unfolding validate_body_VOk_iff serialises_def keys_request_fields wf_request_def
    by (auto simp: request_fields_def)
  show ?thesis
  proof
    assume "validateInbound num data = VOk r"
    then show "\<exists>ps sz. data = JObject ps \<and> messageByteLength num data = Some sz \<and> sz \<le> MAX_MESSAGE_BYTES \<and>
        serialises ps r \<and> wf_request r"
      unfolding eq using JObject
      by (auto simp: validateInbound_def Let_def bind_eq_Some_conv the_string_iff REQUEST_TYPES_iff
          validate_body_VOk_iff eq not_less split: option.splits if_splits js.splits)
  next
    assume "\<exists>ps sz. data = JObject ps \<and> messageByteLength num data = Some sz \<and> sz \<le> MAX_MESSAGE_BYTES \<and>
        serialises ps r \<and> wf_request r"
    then obtain sz where sz: "messageByteLength num data = Some sz" "sz \<le> MAX_MESSAGE_BYTES"
      and r: "serialises ps r \<and> wf_request r" using JObject by auto
    note f = r [unfolded eq]
    have "\<not> (\<exists>k\<in>set (map fst ps). k \<notin> set (ALLOWED_KEYS (type_of_body (body r))))" using f by blast
    moreover have "Option.bind (the_string (jget ps ''type'')) (map_of REQUEST_TYPES) = Some (type_of_body (body r))"
      using f by (simp add: the_string_def REQUEST_TYPES_iff)
    ultimately show "validateInbound num data = VOk r"
      using JObject sz f by (simp add: validateInbound_def Let_def not_less)
  qed
qed (auto simp: validateInbound_def split: option.splits)

text \<open>
  C39: The inbound validator is exact: it accepts a posted value as the request \<open>r\<close> exactly when the
  value is an object within the size cap that has the properties of the serialised \<open>r\<close> and no other
  property, and \<open>r\<close> is well formed (supported version, a request id of 8 to 128 URL-safe
  characters, every string field non-empty and within its cap).  In particular an unknown property, a
  mistyped field or an oversized value is never accepted, and no well-formed request is refused.
\<close>
theorem validateInbound_exact:
  "validateInbound num data = VOk r \<longleftrightarrow>
     (\<exists>ps sz. data = JObject ps \<and> messageByteLength num data = Some sz \<and> sz \<le> MAX_MESSAGE_BYTES \<and>
        serialises ps r \<and> wf_request r)"
  by (rule validateInbound_VOk_iff)

end
