(* ===== verification/SignerState.thy ===== *)
theory SignerState
  imports Protocol
begin

text \<open>
  The signer's state machine, \<^verbatim>\<open>secure-signer/src/state.ts\<close>: the one active operation, the FIFO of
  request ids already seen, and the single-use authorization bound to a digest.  The class's private
  fields are a record, each method a function on it; the clock is an argument.

  The locale \<open>replay_window\<close> is what the dispatcher relies on: ids are remembered in a window of the
  most recent ones.  It is interpreted on the model's \<open>remember\<close>.  The trace properties are about
  arbitrary sequences of the class's operations (\<open>run_ops\<close>).
\<close>

datatype operation_state = IDLE | SIGN_PENDING | PRIVATE_EXPORT_PENDING | AUTH_PENDING

record authorization =
  auth_operation :: operation_state
  auth_requestId :: string
  auth_walletPublicKey :: bytes
  auth_messageDigest :: string
  auth_createdAt :: int

record signer_state =
  st_state :: operation_state
  st_activeRequestId :: "string option"
  st_authorization :: "authorization option"
  st_seen :: "string set"
  st_seenOrder :: "string list"

definition newSignerState :: signer_state where
  "newSignerState = \<lparr>st_state = IDLE, st_activeRequestId = None, st_authorization = None,
     st_seen = {}, st_seenOrder = []\<rparr>"

definition isBusy :: "signer_state \<Rightarrow> bool" where
  "isBusy s \<longleftrightarrow> st_state s \<noteq> IDLE"

definition checkFreshnessAndReplay :: "signer_state \<Rightarrow> int \<Rightarrow> string \<Rightarrow> rat \<Rightarrow> error_code option" where
  "checkFreshnessAndReplay s now rid ts =
     (if rid \<in> st_seen s then Some REPLAY_REJECTED
      else let skew = \<bar>of_int now - ts\<bar> in
        if skew > of_int REQUEST_FRESHNESS_WINDOW_MS then Some REPLAY_REJECTED else None)"

definition remember :: "string \<Rightarrow> signer_state \<Rightarrow> signer_state" where
  "remember rid s =
     (if rid \<in> st_seen s then s
      else let s = s\<lparr>st_seen := insert rid (st_seen s), st_seenOrder := st_seenOrder s @ [rid]\<rparr> in
        if length (st_seenOrder s) > SEEN_REQUEST_IDS_LIMIT
        then s\<lparr>st_seenOrder := tl (st_seenOrder s), st_seen := st_seen s - {hd (st_seenOrder s)}\<rparr>
        else s)"

definition begin_op :: "operation_state \<Rightarrow> string \<Rightarrow> signer_state \<Rightarrow> bool \<times> signer_state" where
  "begin_op op rid s =
     (if st_state s \<noteq> IDLE then (False, s)
      else (True, s\<lparr>st_state := op, st_activeRequestId := Some rid\<rparr>))"

definition end_op :: "signer_state \<Rightarrow> signer_state" where
  "end_op s = s\<lparr>st_state := IDLE, st_activeRequestId := None, st_authorization := None\<rparr>"

definition authorize :: "authorization \<Rightarrow> signer_state \<Rightarrow> signer_state" where
  "authorize a s = s\<lparr>st_authorization := Some a\<rparr>"

definition consumeAuthorization ::
  "operation_state \<Rightarrow> string \<Rightarrow> string \<Rightarrow> signer_state \<Rightarrow> authorization option \<times> signer_state" where
  "consumeAuthorization op rid digest s =
     (let s' = s\<lparr>st_authorization := None\<rparr> in
      case st_authorization s of
        None \<Rightarrow> (None, s')
      | Some a \<Rightarrow>
          if auth_operation a \<noteq> op then (None, s')
          else if auth_requestId a \<noteq> rid then (None, s')
          else if auth_messageDigest a \<noteq> digest then (None, s')
          else (Some a, s'))"

text \<open>\<open>digestHex\<close>: two lower-case hexadecimal digits per byte of the SHA-256 digest.\<close>

definition hex_byte :: "byte \<Rightarrow> string" where
  "hex_byte b = [hex_digit (unat b div 16), hex_digit (unat b mod 16)]"

definition digestHex :: "(bytes \<Rightarrow> bytes) \<Rightarrow> bytes \<Rightarrow> string" where
  "digestHex sha256 bs = concat (map hex_byte (sha256 bs))"

subsection \<open>The replay window\<close>

locale replay_window =
  fixes ok :: "'s \<Rightarrow> bool"
    and seen_in :: "'s \<Rightarrow> string \<Rightarrow> bool"
    and note_id :: "string \<Rightarrow> 's \<Rightarrow> 's"
    and recent :: "'s \<Rightarrow> string list"
    and window :: nat
  assumes ok_note: "ok s \<Longrightarrow> ok (note_id x s)"
    and seen_iff: "ok s \<Longrightarrow> seen_in s x \<longleftrightarrow> x \<in> set (recent s)"
    and recent_note: "ok s \<Longrightarrow>
        recent (note_id x s) = (if x \<in> set (recent s) then recent s else take window (x # recent s))"
    and window_pos: "0 < window"
begin

text \<open>An id stays in the window while fewer than \<open>window\<close> ids are recorded after it.\<close>

lemma recorded:
  assumes "ok s" "\<not> seen_in s x"
  shows "\<exists>b. recent (note_id x s) = [] @ x # b"
  using assms window_pos by (cases window) (auto simp: seen_iff recent_note)

lemma kept:
  assumes "ok s" "recent s = a @ x # b" "length a + Suc n < window"
  shows "\<exists>a b. recent (note_id y s) = a @ x # b \<and> length a + n < window"
proof (cases "y \<in> set (recent s)")
  case True
  then have "recent (note_id y s) = a @ x # b" using assms by (simp add: recent_note)
  moreover have "length a + n < window" using assms(3) by simp
  ultimately show ?thesis by blast
next
  case False
  obtain k where k: "window = Suc k" "length a + n < k" using assms(3) by (cases window) auto
  then have "take k (a @ x # b) = a @ x # take (k - Suc (length a)) b" by (simp add: take_Cons')
  with False assms k have "recent (note_id y s) = (y # a) @ x # take (k - Suc (length a)) b"
    by (simp add: recent_note)
  moreover have "length (y # a) + n < window" using k by simp
  ultimately show ?thesis by blast
qed

lemma still_seen: "ok s \<Longrightarrow> recent s = a @ x # b \<Longrightarrow> seen_in s x"
  by (simp add: seen_iff)

end

definition state_ok :: "signer_state \<Rightarrow> bool" where
  "state_ok s \<longleftrightarrow> st_seen s = set (st_seenOrder s) \<and> distinct (st_seenOrder s) \<and>
     length (st_seenOrder s) \<le> SEEN_REQUEST_IDS_LIMIT"

definition is_seen :: "signer_state \<Rightarrow> string \<Rightarrow> bool" where
  "is_seen s x \<longleftrightarrow> x \<in> st_seen s"

definition seen_newest_first :: "signer_state \<Rightarrow> string list" where
  "seen_newest_first s = rev (st_seenOrder s)"

lemma remember_seen [simp]: "x \<in> st_seen s \<Longrightarrow> remember x s = s"
  by (simp add: remember_def)

lemma remember_order:
  assumes "state_ok s" "x \<notin> st_seen s"
  shows "rev (st_seenOrder (remember x s)) = take SEEN_REQUEST_IDS_LIMIT (x # rev (st_seenOrder s))"
proof (cases "length (st_seenOrder s) = SEEN_REQUEST_IDS_LIMIT")
  case True
  moreover have "SEEN_REQUEST_IDS_LIMIT = Suc 511" by (simp add: SEEN_REQUEST_IDS_LIMIT_def)
  ultimately obtain h t where ht: "st_seenOrder s = h # t" "length t = 511"
    by (cases "st_seenOrder s") auto
  then show ?thesis using assms by (simp add: remember_def Let_def SEEN_REQUEST_IDS_LIMIT_def)
next
  case False
  with assms have "length (st_seenOrder s) < SEEN_REQUEST_IDS_LIMIT" by (simp add: state_ok_def)
  then show ?thesis using assms by (simp add: remember_def Let_def)
qed

lemma remember_ok:
  assumes "state_ok s"
  shows "state_ok (remember x s)"
proof (cases "x \<in> st_seen s")
  case False
  show ?thesis
  proof (cases "st_seenOrder s")
    case Nil
    with False assms show ?thesis
      by (auto simp: remember_def Let_def state_ok_def SEEN_REQUEST_IDS_LIMIT_def)
  next
    case (Cons h t)
    with False assms show ?thesis
      by (auto simp: remember_def Let_def state_ok_def)
  qed
qed (use assms in simp)

interpretation ids: replay_window state_ok is_seen remember seen_newest_first SEEN_REQUEST_IDS_LIMIT
proof unfold_locales
  fix s x
  assume ok: "state_ok s"
  show "state_ok (remember x s)" by (rule remember_ok [OF ok])
  show seen: "is_seen s x \<longleftrightarrow> x \<in> set (seen_newest_first s)"
    using ok by (simp add: is_seen_def state_ok_def seen_newest_first_def)
  show "seen_newest_first (remember x s) =
      (if x \<in> set (seen_newest_first s) then seen_newest_first s
       else take SEEN_REQUEST_IDS_LIMIT (x # seen_newest_first s))"
    using seen ok remember_order [OF ok, of x] by (auto simp: is_seen_def seen_newest_first_def)
qed (simp add: SEEN_REQUEST_IDS_LIMIT_def)

subsection \<open>Sequences of operations\<close>

datatype signer_op =
  Remember string
| BeginOp operation_state string
| EndOp
| Authorize authorization
| Consume operation_state string string

fun run_op :: "signer_op \<Rightarrow> signer_state \<Rightarrow> signer_state" where
  "run_op (Remember x) s = remember x s"
| "run_op (BeginOp op rid) s = snd (begin_op op rid s)"
| "run_op EndOp s = end_op s"
| "run_op (Authorize a) s = authorize a s"
| "run_op (Consume op rid d) s = snd (consumeAuthorization op rid d s)"

definition run_ops :: "signer_op list \<Rightarrow> signer_state \<Rightarrow> signer_state" where
  "run_ops ops s = foldl (\<lambda>s op. run_op op s) s ops"

definition remembers :: "signer_op list \<Rightarrow> nat" where
  "remembers ops = length (filter (\<lambda>op. case op of Remember _ \<Rightarrow> True | _ \<Rightarrow> False) ops)"

lemma run_ops_simps [simp]:
  "run_ops [] s = s"
  "run_ops (op # ops) s = run_ops ops (run_op op s)"
  "run_ops (xs @ ys) s = run_ops ys (run_ops xs s)"
  by (simp_all add: run_ops_def)

lemma other_ops_seen:
  assumes "\<forall>x. op \<noteq> Remember x"
  shows "st_seen (run_op op s) = st_seen s" "st_seenOrder (run_op op s) = st_seenOrder s"
  using assms by (cases op; simp add: begin_op_def end_op_def authorize_def consumeAuthorization_def Let_def
      split: option.splits)+

lemma run_op_ok:
  assumes "state_ok s"
  shows "state_ok (run_op op s)"
proof (cases "\<exists>x. op = Remember x")
  case True
  with assms show ?thesis by (auto simp: remember_ok)
next
  case False
  with assms other_ops_seen [of op s] show ?thesis by (simp add: state_ok_def)
qed

lemma newSignerState_ok [simp]: "state_ok newSignerState"
  by (simp add: newSignerState_def state_ok_def)

lemma run_ops_ok: "state_ok s \<Longrightarrow> state_ok (run_ops ops s)"
  by (induction ops arbitrary: s) (auto simp: run_op_ok)

lemma seen_through_ops:
  assumes "state_ok s" "seen_newest_first s = a @ x # b" "length a + remembers ops < SEEN_REQUEST_IDS_LIMIT"
  shows "x \<in> st_seen (run_ops ops s)"
  using assms
proof (induction ops arbitrary: s a b)
  case Nil
  then show ?case using ids.still_seen by (simp add: is_seen_def)
next
  case (Cons op ops)
  show ?case
  proof (cases "\<exists>y. op = Remember y")
    case True
    then obtain y where y: "op = Remember y" ..
    with Cons.prems have "length a + Suc (remembers ops) < SEEN_REQUEST_IDS_LIMIT" by (simp add: remembers_def)
    from ids.kept [OF Cons.prems(1,2) this, of y] Cons.IH remember_ok [OF Cons.prems(1)] y
    show ?thesis by auto
  next
    case False
    then have "remembers (op # ops) = remembers ops" by (cases op) (simp_all add: remembers_def)
    with False Cons.IH [OF run_op_ok [OF Cons.prems(1)]] Cons.prems other_ops_seen [of op s]
    show ?thesis by (simp add: seen_newest_first_def)
  qed
qed

text \<open>
  A request accepted by the freshness check and then remembered cannot be replayed: whatever
  operations follow (beginning and ending flows, authorizing, consuming, remembering up to 511 other
  ids), the check rejects its id again, at any time and with any new timestamp.
\<close>
theorem replay_rejected_in_window:
  assumes "checkFreshnessAndReplay (run_ops before newSignerState) now rid ts = None"
    and "remembers later < SEEN_REQUEST_IDS_LIMIT"
  shows "checkFreshnessAndReplay (run_ops (before @ Remember rid # later) newSignerState) now' rid ts' =
           Some REPLAY_REJECTED"
proof -
  let ?s = "run_ops before newSignerState"
  have ok: "state_ok ?s" by (simp add: run_ops_ok)
  from assms(1) have "\<not> is_seen ?s rid" by (auto simp: checkFreshnessAndReplay_def is_seen_def split: if_splits)
  from ids.recorded [OF ok this] obtain b where "seen_newest_first (remember rid ?s) = [] @ rid # b" ..
  from seen_through_ops [OF remember_ok [OF ok] this, of later] assms(2)
  have "rid \<in> st_seen (run_ops later (remember rid ?s))" by simp
  then show ?thesis by (simp add: checkFreshnessAndReplay_def)
qed

theorem replay_rejected_in_window_witness:
  "checkFreshnessAndReplay
     (run_ops ([] @ Remember ''request-1'' # [Remember ''request-2'', EndOp]) newSignerState) 70000 ''request-1'' 70000 =
   Some REPLAY_REJECTED"
  by (rule replay_rejected_in_window [where now = 1000 and ts = 900])
    (simp_all add: checkFreshnessAndReplay_def newSignerState_def REQUEST_FRESHNESS_WINDOW_MS_def
      remembers_def SEEN_REQUEST_IDS_LIMIT_def)

text \<open>
  After any sequence of operations the memory of request ids is consistent: the set and the FIFO
  hold the same ids, without duplicates, at most 512 of them; and a request passes the freshness check
  exactly when its id is not among them and its timestamp is within 60 seconds of the clock.
\<close>
theorem seen_ids_consistent:
  "st_seen (run_ops ops newSignerState) = set (st_seenOrder (run_ops ops newSignerState)) \<and>
   distinct (st_seenOrder (run_ops ops newSignerState)) \<and>
   length (st_seenOrder (run_ops ops newSignerState)) \<le> 512 \<and>
   (checkFreshnessAndReplay (run_ops ops newSignerState) now rid ts = None \<longleftrightarrow>
      rid \<notin> set (st_seenOrder (run_ops ops newSignerState)) \<and>
      of_int now - 60000 \<le> ts \<and> ts \<le> of_int now + 60000)"
proof -
  have "state_ok (run_ops ops newSignerState)" by (simp add: run_ops_ok)
  then show ?thesis
    by (auto simp: state_ok_def SEEN_REQUEST_IDS_LIMIT_def checkFreshnessAndReplay_def Let_def
        REQUEST_FRESHNESS_WINDOW_MS_def abs_if split: if_splits)
qed

subsection \<open>Single-use authorization\<close>

definition clears_authorization :: "signer_op \<Rightarrow> bool" where
  "clears_authorization op = (case op of EndOp \<Rightarrow> True | Consume _ _ _ \<Rightarrow> True | Authorize _ \<Rightarrow> True | _ \<Rightarrow> False)"

lemma consumeAuthorization_Some_iff:
  "fst (consumeAuthorization op rid d s) = Some a \<longleftrightarrow>
     st_authorization s = Some a \<and> auth_operation a = op \<and> auth_requestId a = rid \<and> auth_messageDigest a = d"
  by (auto simp: consumeAuthorization_def Let_def split: option.splits)

lemma authorization_origin:
  "st_authorization (run_ops ops newSignerState) = Some a \<Longrightarrow>
     \<exists>pre post. ops = pre @ Authorize a # post \<and> \<not> list_ex clears_authorization post"
proof (induction ops rule: rev_induct)
  case Nil
  then show ?case by (simp add: newSignerState_def)
next
  case (snoc op ops)
  show ?case
  proof (cases "op = Authorize a")
    case True
    then show ?thesis by (intro exI [of _ ops] exI [of _ "[]"]) simp
  next
    case False
    with snoc.prems have "st_authorization (run_ops ops newSignerState) = Some a \<and> \<not> clears_authorization op"
      by (cases op) (auto simp: clears_authorization_def remember_def begin_op_def end_op_def authorize_def
          consumeAuthorization_def Let_def split: if_splits option.splits)
    with snoc.IH obtain pre post where "ops = pre @ Authorize a # post" "\<not> list_ex clears_authorization post" by blast
    with \<open>_ \<and> \<not> clears_authorization op\<close> have "ops @ [op] = pre @ Authorize a # (post @ [op])"
      "\<not> list_ex clears_authorization (post @ [op])" by auto
    then show ?thesis by blast
  qed
qed

text \<open>
  An authorization is single-use and bound.  If consuming it succeeds after any sequence of
  operations, it was granted earlier in that sequence for exactly this operation, request id and
  message digest, and nothing in between ended the flow, granted another one or tried to consume it.
\<close>
theorem consumeAuthorization_bound_once:
  assumes "fst (consumeAuthorization op rid digest (run_ops ops newSignerState)) = Some a"
  shows "auth_operation a = op \<and> auth_requestId a = rid \<and> auth_messageDigest a = digest \<and>
    (\<exists>pre post. ops = pre @ Authorize a # post \<and> \<not> list_ex clears_authorization post)"
  using assms authorization_origin by (auto simp: consumeAuthorization_Some_iff)

definition sample_auth :: authorization where
  "sample_auth = \<lparr>auth_operation = SIGN_PENDING, auth_requestId = ''request-1'', auth_walletPublicKey = [1, 2],
     auth_messageDigest = ''00ff'', auth_createdAt = 5\<rparr>"

theorem consumeAuthorization_bound_once_witness:
  "auth_operation sample_auth = SIGN_PENDING \<and> auth_requestId sample_auth = ''request-1'' \<and>
   auth_messageDigest sample_auth = ''00ff'' \<and>
   (\<exists>pre post. [BeginOp SIGN_PENDING ''request-1'', Authorize sample_auth] = pre @ Authorize sample_auth # post \<and>
      \<not> list_ex clears_authorization post)"
  by (rule consumeAuthorization_bound_once)
    (simp add: consumeAuthorization_Some_iff newSignerState_def begin_op_def authorize_def sample_auth_def)

subsection \<open>Digests\<close>

lemma hex_byte_inj: "hex_byte a = hex_byte b \<Longrightarrow> a = b"
proof -
  assume h: "hex_byte a = hex_byte b"
  have "unat c < 256" for c :: byte using unsigned_less [of c] by simp
  then have lt: "unat c div 16 < 16" "unat c mod 16 < 16" for c :: byte
    by (simp_all add: less_mult_imp_div_less)
  have dist: "distinct ''0123456789abcdef''" by simp
  have "hex_digit i = hex_digit j \<Longrightarrow> i = j" if "i < 16" "j < 16" for i j
    using nth_eq_iff_index_eq [OF dist] that by (simp add: hex_digit_def)
  with h lt have "unat a div 16 = unat b div 16" "unat a mod 16 = unat b mod 16"
    by (simp_all add: hex_byte_def)
  then have "unat a = unat b" by (metis mult_div_mod_eq)
  then show "a = b" by (rule word_unat_eq_iff [THEN iffD2])
qed

lemma hex_bytes_inj: "concat (map hex_byte a) = concat (map hex_byte b) \<Longrightarrow> a = b"
proof (induction a arbitrary: b)
  case Nil
  then show ?case by (cases b) (auto simp: hex_byte_def)
next
  case (Cons x xs)
  then obtain y ys where "b = y # ys" by (cases b) (auto simp: hex_byte_def)
  with Cons hex_byte_inj [of x y] show ?case by (auto simp: hex_byte_def)
qed

lemma digestHex_inj: "digestHex h a = digestHex h b \<Longrightarrow> h a = h b"
  by (auto simp: digestHex_def dest: hex_bytes_inj)

end
