(* ===== verification/Decimal.thy ===== *)
theory Decimal
  imports Prelude Complex_Main
begin

text \<open>
  Decimal texts of integers, as JavaScript's \<open>toString\<close>, template strings and \<open>padStart\<close> produce
  them, and their value as a rational number.  The components that print amounts share these lemmas.
\<close>

definition digit_char :: "nat \<Rightarrow> char" where
  "digit_char n = char_of (48 + n)"

definition digit_val :: "char \<Rightarrow> nat" where
  "digit_val c = of_char c - 48"

definition is_digit :: "char \<Rightarrow> bool" where
  "is_digit c \<longleftrightarrow> 48 \<le> (of_char c :: nat) \<and> (of_char c :: nat) \<le> 57"

fun nat_text :: "nat \<Rightarrow> string" where
  "nat_text n = (if n < 10 then [digit_char n] else nat_text (n div 10) @ [digit_char (n mod 10)])"

declare nat_text.simps [simp del]

definition int_text :: "int \<Rightarrow> string" where
  "int_text i = (if i < 0 then ''-'' @ nat_text (nat (- i)) else nat_text (nat i))"

definition padStart :: "nat \<Rightarrow> char \<Rightarrow> string \<Rightarrow> string" where
  "padStart n c s = replicate (n - length s) c @ s"

definition strip_trailing :: "char \<Rightarrow> string \<Rightarrow> string" where
  "strip_trailing c s = rev (dropWhile (\<lambda>x. x = c) (rev s))"

subsection \<open>Reading a decimal text\<close>

definition digits_val :: "string \<Rightarrow> nat" where
  "digits_val s = foldl (\<lambda>n c. 10 * n + digit_val c) 0 s"

definition decimal_value :: "string \<Rightarrow> rat" where
  "decimal_value s =
     (let neg = (s \<noteq> [] \<and> hd s = CHR ''-''); t = (if neg then tl s else s);
          whole = takeWhile (\<lambda>c. c \<noteq> CHR ''.'') t; frac = drop (length whole + 1) t;
          v = of_nat (digits_val whole) + of_nat (digits_val frac) / 10 ^ length frac
      in if neg then - v else v)"

lemma digit_char_simps [simp]:
  "n < 10 \<Longrightarrow> is_digit (digit_char n)" "n < 10 \<Longrightarrow> digit_val (digit_char n) = n"
  by (simp_all add: is_digit_def digit_char_def digit_val_def)

lemma is_digit_not: "is_digit c \<Longrightarrow> c \<noteq> CHR ''.'' \<and> c \<noteq> CHR ''-''"
  by (auto simp: is_digit_def)

lemma nat_text_digits: "list_all is_digit (nat_text n)"
  by (induction n rule: nat_text.induct) (subst nat_text.simps, simp)

lemma nat_text_nonempty [simp]: "nat_text n \<noteq> []"
  by (subst nat_text.simps) simp

lemma digits_val_simps [simp]:
  "digits_val [] = 0"
  "digits_val (s @ [c]) = 10 * digits_val s + digit_val c"
  by (simp_all add: digits_val_def)

lemma digits_val_append: "digits_val (s @ t) = digits_val s * 10 ^ length t + digits_val t"
  by (induction t rule: rev_induct) (simp_all add: algebra_simps flip: append_assoc)

lemma digits_val_nat_text [simp]: "digits_val (nat_text n) = n"
proof (induction n rule: nat_text.induct)
  case (1 n)
  show ?case
  proof (cases "n < 10")
    case True
    then show ?thesis
      using digits_val_simps(2) [of "[]" "digit_char n"] by (simp add: nat_text.simps)
  next
    case False
    with 1 show ?thesis by (subst nat_text.simps) simp
  qed
qed

lemma nat_text_inj: "nat_text m = nat_text n \<longleftrightarrow> m = n"
  by (metis digits_val_nat_text)

lemma nat_text_length: "n < 10 ^ k \<Longrightarrow> 0 < k \<Longrightarrow> length (nat_text n) \<le> k"
proof (induction n arbitrary: k rule: nat_text.induct)
  case (1 n)
  show ?case
  proof (cases "n < 10")
    case True
    with "1.prems" show ?thesis by (simp add: nat_text.simps)
  next
    case False
    with "1.prems" obtain j where j: "k = Suc j" "0 < j" by (cases k; cases "k - 1") auto
    with "1.prems" have "n div 10 < 10 ^ j" by (simp add: less_mult_imp_div_less mult.commute)
    from "1.IH" [OF False this j(2)] j show ?thesis
      using False by (subst nat_text.simps) simp
  qed
qed

lemma digits_val_zeros: "digits_val (replicate k CHR ''0'') = 0"
  by (induction k) (simp_all add: digits_val_def digit_val_def)

lemma digits_val_padStart [simp]: "digits_val (padStart k CHR ''0'' s) = digits_val s"
  by (simp add: padStart_def digits_val_append digits_val_zeros)

lemma strip_trailing_split: "\<exists>k. s = strip_trailing c s @ replicate k c"
proof -
  have "rev s = takeWhile (\<lambda>x. x = c) (rev s) @ dropWhile (\<lambda>x. x = c) (rev s)" by simp
  then have "s = rev (dropWhile (\<lambda>x. x = c) (rev s)) @ rev (takeWhile (\<lambda>x. x = c) (rev s))"
    by (metis rev_append rev_rev_ident)
  moreover have "takeWhile (\<lambda>x. x = c) (rev s) = replicate (length (takeWhile (\<lambda>x. x = c) (rev s))) c"
    by (metis (mono_tags, lifting) replicate_eqI set_takeWhileD)
  ultimately show ?thesis unfolding strip_trailing_def by (metis rev_replicate)
qed

lemma strip_trailing_last: "strip_trailing c s \<noteq> [] \<Longrightarrow> last (strip_trailing c s) \<noteq> c"
  using hd_dropWhile [of "\<lambda>x. x = c" "rev s"] by (simp add: strip_trailing_def last_rev)

lemma takeWhile_digits: "list_all is_digit w \<Longrightarrow> takeWhile (\<lambda>c. c \<noteq> CHR ''.'') w = w"
  by (induction w) (auto dest: is_digit_not)

lemma takeWhile_digits_dot: "list_all is_digit w \<Longrightarrow> takeWhile (\<lambda>c. c \<noteq> CHR ''.'') (w @ CHR ''.'' # f) = w"
  by (induction w) (auto dest: is_digit_not)

lemma decimal_value_whole:
  "list_all is_digit w \<Longrightarrow> w \<noteq> [] \<Longrightarrow> decimal_value w = of_nat (digits_val w)"
  by (cases w) (auto simp: decimal_value_def Let_def takeWhile_digits dest: is_digit_not)

lemma decimal_value_frac:
  "list_all is_digit w \<Longrightarrow> w \<noteq> [] \<Longrightarrow>
     decimal_value (w @ CHR ''.'' # f) = of_nat (digits_val w) + of_nat (digits_val f) / 10 ^ length f"
proof -
  assume w: "list_all is_digit w" "w \<noteq> []"
  then have "hd (w @ CHR ''.'' # f) \<noteq> CHR ''-''" by (cases w) (auto dest: is_digit_not)
  with w takeWhile_digits_dot [OF w(1), of f] show ?thesis
    by (simp del: takeWhile_append add: decimal_value_def Let_def)
qed

lemma decimal_value_neg:
  "s \<noteq> [] \<Longrightarrow> hd s \<noteq> CHR ''-'' \<Longrightarrow> decimal_value (''-'' @ s) = - decimal_value s"
  by (simp add: decimal_value_def Let_def)

lemma decimal_value_int_text: "decimal_value (int_text i) = of_int i"
proof -
  have n: "decimal_value (nat_text n) = of_nat n" for n
    by (simp add: decimal_value_whole nat_text_digits)
  have "hd (nat_text n) \<noteq> CHR ''-''" for n
    using nat_text_digits [of n] by (cases "nat_text n") (auto dest: is_digit_not)
  with n show ?thesis by (simp add: int_text_def decimal_value_neg [unfolded append_Cons append_Nil])
qed

lemma int_text_inj: "int_text i = int_text j \<longleftrightarrow> i = j"
  by (metis decimal_value_int_text of_int_eq_iff)

end
