(* ===== verification/ClearSign.thy ===== *)
theory ClearSign
  imports Decimal
begin

text \<open>
  Clear signing, \<^verbatim>\<open>secure-signer/src/tx/clear-sign.ts\<close>: the rows the confirmation screen shows for a
  wallet policy and for an inner instruction, decoded from the instruction's own bytes.

  An address is its base58 text.  \<open>TextDecoder\<close> (for memo text) is the argument \<open>decode_text\<close>.
  The lemmas show that an amount is displayed exactly: the text of \<open>formatUnits\<close> denotes the raw
  amount divided by the power of ten, and two transfers that look the same move the same amount.
\<close>

unbundle bit_operations_syntax

type_synonym address = string

record detail_row =
  label :: string
  val :: string

record cleared_inner =
  title :: string
  details :: "detail_row list"

definition row :: "string \<Rightarrow> string \<Rightarrow> detail_row" where
  "row l v = \<lparr>label = l, val = v\<rparr>"

record sol_cap_arg =
  sc_cap :: int
  sc_window :: int

record mint_cap_arg =
  mc_mint :: address
  mc_cap :: int
  mc_window :: int

text \<open>The rules of a restricted program are only counted here; \<open>bytes\<close> stands for one rule.\<close>

datatype program_access = Denied | AllInstructions | Restricted "bytes list"

record program_permission =
  pp_programId :: address
  pp_access :: program_access

record wallet_policy_data =
  solCap :: "sol_cap_arg option"
  mintCaps :: "mint_cap_arg list"
  programPermissions :: "program_permission list"

definition SYSTEM :: address where "SYSTEM = ''11111111111111111111111111111111''"
definition TOKEN :: address where "TOKEN = ''TokenkegQfeZyiNwAJbNbGKPFXCWuBvf9Ss623VQ5DA''"
definition TOKEN_2022 :: address where "TOKEN_2022 = ''TokenzQdBNbLqP5VEhdkAS6EPFLC1PHnBqCXEpPxuEb''"
definition ATA :: address where "ATA = ''ATokenGPvbdGVxr1b2hvZbsiqW5xWH25efTNsLJA8knL''"
definition MEMO :: address where "MEMO = ''MemoSq4gqBnyyd8CMoPbUxRWDFBIdzy9SHRdJrEqeL''"
definition MEMO_V1 :: address where "MEMO_V1 = ''Memo1UhkJRfHyvLMcVucJwxXeuD728EqVDDwQDxFMNo''"
definition METADATA :: address where "METADATA = ''metaqbxxUerdq28cj1RbAWkYQm3ybzjb6a8bt518x1s''"
definition BUBBLEGUM :: address where "BUBBLEGUM = ''BGUMAp9Gq7iTEuizy4pqaxsTyUCBK68MDfK752saRPUY''"
definition CORE :: address where "CORE = ''CoREENxT6tW1HoK8ypY1SxRMZTcVPm7R94rH4PZNhX7d''"

lemmas known_programs =
  SYSTEM_def TOKEN_def TOKEN_2022_def ATA_def MEMO_def MEMO_V1_def METADATA_def BUBBLEGUM_def CORE_def

definition KNOWN_MINT_META :: "(string \<times> nat \<times> string) list" where
  "KNOWN_MINT_META =
     [(''So11111111111111111111111111111111111111112'', 9, ''SOL''),
      (''EPjFWdd5AufqSSqeM2qN1xzybapC8G4wEGGkZwyTDt1v'', 6, ''USDC''),
      (''4zMMC9srt5Ri5X14GAgXhaHii3GnPAEERYPJgZJDnm3'', 6, ''USDC''),
      (''Es9vMFrzaCERmJfrF4H2FYD4KCoNkY11McCe8BenwNYB'', 6, ''USDT'')]"

definition mintMeta :: "string \<Rightarrow> (nat \<times> string) option" where
  "mintMeta mint = map_of KNOWN_MINT_META mint"

subsection \<open>Amounts\<close>

text \<open>\<open>addr.slice(0, 4)\<close>, the ellipsis, \<open>addr.slice(-4)\<close>\<close>

definition shorten :: "string \<Rightarrow> string" where
  "shorten a = (if length a > 12 then take 4 a @ [ellipsis] @ drop (length a - 4) a else a)"

definition formatUnits :: "int \<Rightarrow> nat \<Rightarrow> string" where
  "formatUnits raw decimals =
     (if decimals \<le> 0 then int_text raw
      else
        let neg = raw < 0;
            abs = (if neg then - raw else raw);
            base = 10 ^ decimals;
            whole = abs div base;
            frac = padStart decimals CHR ''0'' (int_text (abs mod base));
            frac = strip_trailing CHR ''0'' frac;
            s = (if frac \<noteq> '''' then int_text whole @ ''.'' @ frac else int_text whole)
        in if neg then ''-'' @ s else s)"

definition formatTokenAmount :: "int \<Rightarrow> string \<Rightarrow> nat option \<Rightarrow> string" where
  "formatTokenAmount raw mint decimalsHint =
     (let known = mintMeta mint;
          decimals = (case known of Some (d, _) \<Rightarrow> Some d | None \<Rightarrow> decimalsHint);
          symbol = map_option snd known;
          mint_label = '' '' @ [CHR 0xB7] @ '' mint '' @ shorten mint
      in case decimals of
           None \<Rightarrow> (case symbol of Some sy \<Rightarrow> int_text raw @ '' '' @ sy | None \<Rightarrow> int_text raw @ mint_label)
         | Some d \<Rightarrow>
             (let amount = formatUnits raw d in
              case symbol of Some sy \<Rightarrow> amount @ '' '' @ sy | None \<Rightarrow> amount @ mint_label))"

definition readU32LE :: "bytes \<Rightarrow> nat \<Rightarrow> int option" where
  "readU32LE dat off =
     (if off + 4 > length dat then None
      else Some (uint (ucast (dat ! off) OR push_bit 8 (ucast (dat ! (off + 1))) OR
        push_bit 16 (ucast (dat ! (off + 2))) OR push_bit 24 (ucast (dat ! (off + 3))) :: 32 word)))"

definition readU64LE :: "bytes \<Rightarrow> nat \<Rightarrow> int option" where
  "readU64LE dat off =
     (if off + 8 > length dat then None
      else Some (foldl (\<lambda>v i. v OR push_bit (8 * i) (uint (dat ! (off + i)))) 0 [0..<8]))"

definition windowPhrase :: "int \<Rightarrow> string" where
  "windowPhrase w =
     (if w = 0 then ''lifetime''
      else if w = 86400 then ''every day''
      else if w = 604800 then ''every week''
      else if w = 2592000 then ''every month''
      else if w mod 86400 = 0 then
        (let days = w div 86400 in ''every '' @ int_text days @ '' day'' @ (if days = 1 then '''' else ''s''))
      else ''every '' @ int_text w @ ''s'')"

subsection \<open>Policies\<close>

definition accessLabel :: "program_access \<Rightarrow> string" where
  "accessLabel a =
     (case a of
        Denied \<Rightarrow> ''Denied''
      | AllInstructions \<Rightarrow> ''All instructions''
      | Restricted rules \<Rightarrow>
          nat_text (length rules) @ '' rule'' @ (if length rules = 1 then '''' else ''s''))"

definition describeWalletPolicy :: "wallet_policy_data \<Rightarrow> detail_row list" where
  "describeWalletPolicy d =
     (case solCap d of
        Some sol \<Rightarrow>
          [row ''SOL limit'' (formatUnits (sc_cap sol) 9 @ '' SOL''),
           row ''SOL window'' (windowPhrase (sc_window sol))]
      | None \<Rightarrow> [row ''SOL limit'' ''None'']) @
     (if mintCaps d = [] then [row ''Token limits'' ''None'']
      else concat (map (\<lambda>(i, m).
        let prefix = (if length (mintCaps d) = 1 then ''Token'' else ''Token '' @ nat_text (i + 1)) in
        [row (prefix @ '' limit'') (formatTokenAmount (mc_cap m) (mc_mint m) None),
         row (prefix @ '' window'') (windowPhrase (mc_window m))]) (enumerate 0 (mintCaps d)))) @
     (if programPermissions d = [] then [row ''Programs'' ''Baseline only'']
      else concat (map (\<lambda>(i, p).
        let one = (length (programPermissions d) = 1) in
        [row (if one then ''Program'' else ''Program '' @ nat_text (i + 1)) (shorten (pp_programId p)),
         row (if one then ''Access'' else ''Access '' @ nat_text (i + 1)) (accessLabel (pp_access p))])
        (enumerate 0 (programPermissions d))))"

subsection \<open>Inner instructions\<close>

text \<open>\<open>accounts[i] ? shorten(accounts[i]) : "?"\<close>, an empty string being falsy.\<close>

definition acct_label :: "string list \<Rightarrow> nat \<Rightarrow> string" where
  "acct_label accounts i =
     (case nth_opt accounts i of Some a \<Rightarrow> if a \<noteq> '''' then shorten a else ''?'' | None \<Rightarrow> ''?'')"

definition count_rows :: "string list \<Rightarrow> bytes \<Rightarrow> detail_row list" where
  "count_rows accounts dat =
     [row ''Accounts'' (nat_text (length accounts)), row ''Data bytes'' (nat_text (length dat))]"

definition account_rows :: "nat \<Rightarrow> string list \<Rightarrow> detail_row list" where
  "account_rows n accounts =
     map (\<lambda>(i, a). row (''Account '' @ nat_text (i + 1)) (shorten a)) (enumerate 0 (take n accounts))"

definition describe_system :: "string list \<Rightarrow> bytes \<Rightarrow> cleared_inner" where
  "describe_system accounts dat =
     (let other = \<lparr>title = ''System program'', details = count_rows accounts dat\<rparr> in
      if readU32LE dat 0 = Some 2 then
        (case readU64LE dat 4 of
           Some lamports \<Rightarrow>
             \<lparr>title = ''Send '' @ formatUnits lamports 9 @ '' SOL'',
              details = [row ''From'' (acct_label accounts 0), row ''To'' (acct_label accounts 1)]\<rparr>
         | None \<Rightarrow> other)
      else other)"

definition describe_memo :: "(bytes \<Rightarrow> string) \<Rightarrow> bytes \<Rightarrow> cleared_inner" where
  "describe_memo decode_text dat =
     (let text = decode_text dat;
          text = (if length text > 80 then take 77 text @ [ellipsis] else text)
      in \<lparr>title = ''Memo'', details = [row ''Text'' (if text = '''' then ''(empty)'' else text)]\<rparr>)"

definition describe_token :: "string \<Rightarrow> string list \<Rightarrow> bytes \<Rightarrow> cleared_inner" where
  "describe_token kind accounts dat =
     (let disc = nth_opt dat 0;
          other = \<lparr>title = kind @ '' instruction'', details = count_rows accounts dat\<rparr>;
          unchecked =
            (if disc = Some 3 \<and> length dat \<ge> 9 then
               (case readU64LE dat 1 of
                  Some amount \<Rightarrow>
                    \<lparr>title = ''Send tokens ('' @ kind @ '')'',
                     details = [row ''Amount'' (int_text amount), row ''From'' (acct_label accounts 0),
                                row ''To'' (acct_label accounts 1)]\<rparr>
                | None \<Rightarrow> other)
             else other)
      in if disc = Some 12 \<and> length dat \<ge> 10 then
           (let decimals = unat (dat ! 9);
                mint = (case nth_opt accounts 1 of Some a \<Rightarrow> a | None \<Rightarrow> '''') in
            case readU64LE dat 1 of
              Some amount \<Rightarrow>
                (let amountLabel = (if mint \<noteq> '''' then formatTokenAmount amount mint (Some decimals)
                                    else formatUnits amount decimals) in
                 \<lparr>title = ''Send '' @ amountLabel @ '' ('' @ kind @ '')'',
                  details = [row ''Mint'' (if mint \<noteq> '''' then shorten mint else ''?''),
                             row ''From'' (acct_label accounts 0), row ''To'' (acct_label accounts 2)]\<rparr>)
            | None \<Rightarrow> unchecked)
         else unchecked)"

definition describeInnerInstruction ::
  "(bytes \<Rightarrow> string) \<Rightarrow> address \<Rightarrow> string list \<Rightarrow> bytes \<Rightarrow> cleared_inner" where
  "describeInnerInstruction decode_text program accounts dat =
     (if program = SYSTEM then describe_system accounts dat
      else if program = MEMO \<or> program = MEMO_V1 then describe_memo decode_text dat
      else if program = TOKEN \<or> program = TOKEN_2022
        then describe_token (if program = TOKEN_2022 then ''Token-2022'' else ''Token'') accounts dat
      else if program = ATA then
        \<lparr>title = (if nth_opt dat 0 = Some 1 then ''Create token account'' else ''Associated token''),
         details = [row ''Owner'' (acct_label accounts 2), row ''Mint'' (acct_label accounts 3)]\<rparr>
      else if program = METADATA then
        \<lparr>title = ''Transfer pNFT (Token Metadata)'', details = account_rows 4 accounts\<rparr>
      else if program = BUBBLEGUM then
        \<lparr>title = ''Transfer cNFT (Bubblegum)'', details = count_rows accounts dat\<rparr>
      else if program = CORE then
        \<lparr>title = ''Transfer NFT (Core)'', details = account_rows 3 accounts\<rparr>
      else \<lparr>title = ''Call '' @ shorten program, details = count_rows accounts dat\<rparr>)"

subsection \<open>Amounts are shown exactly\<close>

lemma nat_text_hd: "hd (nat_text n) \<noteq> CHR ''-''"
  using nat_text_digits [of n] by (cases "nat_text n") (auto dest: is_digit_not)

lemma int_text_nonneg: "0 \<le> i \<Longrightarrow> int_text i = nat_text (nat i)"
  by (simp add: int_text_def)

lemma frac_value:
  assumes "0 \<le> m" "m < 10 ^ d" "0 < d"
  defines "f \<equiv> strip_trailing CHR ''0'' (padStart d CHR ''0'' (int_text m))"
  shows "(of_nat (digits_val f) / 10 ^ length f :: rat) = of_int m / 10 ^ d"
proof -
  let ?p = "padStart d CHR ''0'' (int_text m)"
  have "nat m < 10 ^ d" using assms(1,2) by (simp add: nat_less_iff)
  then have "length (nat_text (nat m)) \<le> d" using nat_text_length assms(3) by blast
  then have len: "length ?p = d" using assms(1) by (simp add: padStart_def int_text_nonneg)
  have val: "digits_val ?p = nat m" using assms(1) by (simp add: int_text_nonneg)
  obtain k where k: "?p = f @ replicate k CHR ''0''" unfolding f_def using strip_trailing_split by blast
  then have "digits_val ?p = digits_val f * 10 ^ k" by (simp add: digits_val_append digits_val_zeros)
  with val have "of_int m = (of_nat (digits_val f) * 10 ^ k :: rat)"
    using assms(1) by (metis nat_0_le of_int_of_nat_eq of_nat_mult of_nat_numeral of_nat_power)
  moreover have "d = length f + k" using len k by (metis length_append length_replicate)
  ultimately show ?thesis by (simp add: power_add)
qed

lemma formatUnits_nonneg:
  assumes "0 \<le> raw"
  shows "decimal_value (formatUnits raw d) = of_int raw / 10 ^ d \<and> hd (formatUnits raw d) \<noteq> CHR ''-'' \<and>
    formatUnits raw d \<noteq> []"
proof (cases "d = 0")
  case True
  with assms show ?thesis by (simp add: formatUnits_def decimal_value_int_text) (simp add: int_text_nonneg nat_text_hd)
next
  case False
  let ?w = "raw div 10 ^ d" and ?m = "raw mod 10 ^ d"
  let ?f = "strip_trailing CHR ''0'' (padStart d CHR ''0'' (int_text ?m))"
  have m: "0 \<le> ?m" "?m < 10 ^ d" and w: "0 \<le> ?w" using assms by (simp_all add: pos_imp_zdiv_nonneg_iff)
  have "raw = ?w * 10 ^ d + ?m" by (rule div_mult_mod_eq [symmetric])
  from arg_cong [OF this, of rat_of_int]
  have "(of_int raw :: rat) = of_int ?w * 10 ^ d + of_int ?m" by (simp only: of_int_add of_int_mult) simp
  then have r: "(of_int raw :: rat) / 10 ^ d = of_int ?w + of_int ?m / 10 ^ d"
    by (simp add: add_divide_distrib)
  have fv: "(of_nat (digits_val ?f) / 10 ^ length ?f :: rat) = of_int ?m / 10 ^ d"
    using frac_value m False by simp
  have wv: "(of_nat (nat ?w) :: rat) = of_int ?w" using w by (metis of_int_of_nat_eq nat_0_le)
  have eq: "formatUnits raw d = nat_text (nat ?w) @ (if ?f \<noteq> [] then CHR ''.'' # ?f else [])"
    using assms False w by (simp add: formatUnits_def Let_def int_text_nonneg)
  show ?thesis
  proof (cases "?f = []")
    case True
    then have "(of_int ?m / 10 ^ d :: rat) = 0" using fv by simp
    with True r eq show ?thesis
      by (simp add: decimal_value_whole nat_text_digits nat_text_hd wv del: of_nat_nat)
  next
    case False
    with eq have "formatUnits raw d = nat_text (nat ?w) @ CHR ''.'' # ?f" by simp
    moreover from this have "decimal_value (formatUnits raw d) = of_int raw / 10 ^ d"
      using decimal_value_frac [OF nat_text_digits nat_text_nonempty, of "nat ?w" ?f] fv r wv by simp
    ultimately show ?thesis by (simp add: nat_text_hd)
  qed
qed

lemma formatUnits_value: "decimal_value (formatUnits raw d) = of_int raw / 10 ^ d"
proof (cases "raw < 0")
  case True
  show ?thesis
  proof (cases "d = 0")
    case True
    then show ?thesis by (simp add: formatUnits_def decimal_value_int_text)
  next
    case False
    with True have "formatUnits raw d = ''-'' @ formatUnits (- raw) d" by (simp add: formatUnits_def Let_def)
    moreover have "decimal_value (''-'' @ formatUnits (- raw) d) = - decimal_value (formatUnits (- raw) d)"
      using formatUnits_nonneg [of "- raw" d] True by (intro decimal_value_neg) auto
    ultimately show ?thesis using formatUnits_nonneg [of "- raw" d] True by simp
  qed
next
  case False
  then show ?thesis using formatUnits_nonneg by simp
qed

lemma formatUnits_injective: "formatUnits a d = formatUnits b d \<longleftrightarrow> a = b"
proof
  assume "formatUnits a d = formatUnits b d"
  then have "(of_int a / 10 ^ d :: rat) = of_int b / 10 ^ d" by (metis formatUnits_value)
  then show "a = b" by simp
qed simp

text \<open>
  An amount is displayed exactly: for every raw amount and number of decimals the text denotes
  the raw amount divided by that power of ten (no rounding, no truncation, negative amounts
  included), so two different amounts never look the same.
\<close>
theorem formatUnits_exact:
  "decimal_value (formatUnits raw d) = of_int raw / 10 ^ d \<and> (formatUnits raw d = formatUnits raw' d \<longleftrightarrow> raw = raw')"
  by (simp add: formatUnits_value formatUnits_injective)

subsection \<open>Transfers are shown exactly\<close>

fun le_int :: "bytes \<Rightarrow> int" where
  "le_int [] = 0"
| "le_int (b # bs) = uint b + 256 * le_int bs"

fun le_bytes :: "nat \<Rightarrow> int \<Rightarrow> bytes" where
  "le_bytes 0 v = []"
| "le_bytes (Suc k) v = word_of_int v # le_bytes k (v div 256)"

lemma length_le_bytes [simp]: "length (le_bytes k v) = k"
  by (induction k arbitrary: v) auto

lemma le_int_snoc: "le_int (xs @ [b]) = le_int xs + 256 ^ length xs * uint b"
  by (induction xs) (auto simp: algebra_simps)

lemma le_int_bounds: "0 \<le> le_int xs \<and> le_int xs < 256 ^ length xs"
proof (induction xs)
  case (Cons b xs)
  have "0 \<le> uint b" "uint b < 256" using uint_lt2p [of b] by simp_all
  with Cons show ?case by auto
qed simp

lemma le_int_le_bytes: "0 \<le> v \<Longrightarrow> v < 256 ^ k \<Longrightarrow> le_int (le_bytes k v) = v"
proof (induction k arbitrary: v)
  case (Suc k)
  from Suc.prems have "v div 256 < 256 ^ k" by simp
  with Suc.IH [of "v div 256"] Suc.prems have "le_int (le_bytes k (v div 256)) = v div 256" by simp
  then show ?case by (simp add: uint_word_of_int take_bit_eq_mod)
qed simp

lemma or_shifted_add:
  assumes "0 \<le> v" "v < 2 ^ k"
  shows "v OR push_bit k x = v + push_bit k (x :: int)"
proof (rule disjunctive_add [symmetric])
  fix n
  from assms have "take_bit k v = v" by (simp add: take_bit_int_eq_self)
  then have "bit v n \<Longrightarrow> n < k" by (metis bit_take_bit_iff)
  then show "\<not> bit v n \<or> \<not> bit (push_bit k x) n" by (auto simp: bit_simps)
qed

lemma le_fold:
  "off + n \<le> length dat \<Longrightarrow>
     foldl (\<lambda>v i. v OR push_bit (8 * i) (uint (dat ! (off + i)))) 0 [0..<n] = le_int (take n (drop off dat))"
proof (induction n)
  case (Suc n)
  let ?v = "le_int (take n (drop off dat))"
  have t: "take (Suc n) (drop off dat) = take n (drop off dat) @ [dat ! (off + n)]"
    using Suc.prems by (simp add: take_Suc_conv_app_nth)
  have len: "length (take n (drop off dat)) = n" using Suc.prems by simp
  have p: "(256 :: int) ^ n = 2 ^ (8 * n)" by (simp add: power_mult)
  from le_int_bounds [of "take n (drop off dat)"] have "0 \<le> ?v" "?v < 2 ^ (8 * n)"
    unfolding len p by simp_all
  from or_shifted_add [OF this, of "uint (dat ! (off + n))"]
  have "?v OR push_bit (8 * n) (uint (dat ! (off + n))) = le_int (take (Suc n) (drop off dat))"
    by (simp only: t le_int_snoc len p push_bit_eq_mult mult.commute)
  with Suc show ?case by simp
qed simp

lemma readU64LE_eq: "off + 8 \<le> length dat \<Longrightarrow> readU64LE dat off = Some (le_int (take 8 (drop off dat)))"
  by (simp only: readU64LE_def le_fold) simp

lemma readU64LE_le_bytes:
  "off = length pre \<Longrightarrow> readU64LE (pre @ le_bytes 8 (uint (n :: 64 word)) @ post) off = Some (uint n)"
proof -
  have "uint n < 256 ^ 8" using uint_lt2p [of n] by simp
  then show "off = length pre \<Longrightarrow> ?thesis" by (simp add: readU64LE_eq le_int_le_bytes)
qed

text \<open>The instruction data of the transfers the app builds, with an amount of 64 bits.\<close>

definition sol_transfer_data :: "64 word \<Rightarrow> bytes" where
  "sol_transfer_data n = [2, 0, 0, 0] @ le_bytes 8 (uint n)"

definition token_transfer_data :: "64 word \<Rightarrow> byte \<Rightarrow> bytes" where
  "token_transfer_data n decimals = [12] @ le_bytes 8 (uint n) @ [decimals]"

lemma describe_sol_transfer:
  "describeInnerInstruction dt SYSTEM accts (sol_transfer_data n) =
     \<lparr>title = ''Send '' @ formatUnits (uint n) 9 @ '' SOL'',
      details = [row ''From'' (acct_label accts 0), row ''To'' (acct_label accts 1)]\<rparr>"
proof -
  have "readU32LE (sol_transfer_data n) 0 = Some 2"
    by (simp add: readU32LE_def sol_transfer_data_def)
  moreover have "readU64LE (sol_transfer_data n) 4 = Some (uint n)"
    using readU64LE_le_bytes [of 4 "[2, 0, 0, 0]" n "[]"] by (simp add: sol_transfer_data_def)
  ultimately show ?thesis by (simp add: describeInnerInstruction_def describe_system_def)
qed

definition token_kind :: "address \<Rightarrow> string" where
  "token_kind program = (if program = TOKEN_2022 then ''Token-2022'' else ''Token'')"

lemma token_kind_TOKEN [simp]: "token_kind TOKEN = ''Token''"
  by (simp add: token_kind_def TOKEN_def TOKEN_2022_def)

lemma acct_label_nth:
  "acct_label (a # b # xs) 0 = acct_label [a] 0"
  "acct_label (b # a # xs) 1 = acct_label [a] 0"
  "acct_label (b # c # a # xs) 2 = acct_label [a] 0"
  by (simp_all add: acct_label_def numeral_2_eq_2)

lemma describe_token_transfer:
  assumes "program = TOKEN \<or> program = TOKEN_2022" "nth_opt accts 1 = Some mint" "mint \<noteq> ''''"
  shows "describeInnerInstruction dt program accts (token_transfer_data n d) =
     \<lparr>title = ''Send '' @ formatTokenAmount (uint n) mint (Some (unat d)) @ '' ('' @ token_kind program @ '')'',
      details = [row ''Mint'' (shorten mint), row ''From'' (acct_label accts 0), row ''To'' (acct_label accts 2)]\<rparr>"
proof -
  have "readU64LE (token_transfer_data n d) 1 = Some (uint n)"
    using readU64LE_le_bytes [of 1 "[12]" n "[d]"] by (simp add: token_transfer_data_def)
  moreover have "nth_opt (token_transfer_data n d) 0 = Some 12" "10 \<le> length (token_transfer_data n d)"
      "token_transfer_data n d ! 9 = d"
    by (simp_all add: token_transfer_data_def nth_append nth_Cons')
  moreover have "program \<noteq> SYSTEM" "program \<noteq> MEMO" "program \<noteq> MEMO_V1"
    using assms(1) by (auto simp: known_programs)
  ultimately show ?thesis
    using assms by (simp del: nth_opt_Some_iff One_nat_def add: describeInnerInstruction_def describe_token_def
        token_kind_def Let_def)
qed

lemma formatTokenAmount_injective:
  "formatTokenAmount a mint (Some d) = formatTokenAmount b mint (Some d) \<longleftrightarrow> a = b"
  by (auto simp: formatTokenAmount_def Let_def formatUnits_injective split: option.splits prod.splits)

text \<open>
  The title of a SOL transfer is \<open>Send\<close>, the exact amount and \<open>SOL\<close>, and the title of a checked
  token transfer is \<open>Send\<close>, the amount scaled by the decimals known for its mint and the symbol; the
  destination row names the account the program pays.  Two transfers of one kind and mint that look
  the same move the same number of base units.
\<close>
theorem transfers_displayed_exactly:
  "title (describeInnerInstruction dt SYSTEM accts (sol_transfer_data n)) = ''Send '' @ formatUnits (uint n) 9 @ '' SOL'' \<and>
   details (describeInnerInstruction dt SYSTEM (src # dst # xs) (sol_transfer_data n)) =
     [row ''From'' (acct_label [src] 0), row ''To'' (acct_label [dst] 0)] \<and>
   (title (describeInnerInstruction dt SYSTEM accts (sol_transfer_data n)) =
      title (describeInnerInstruction dt SYSTEM accts (sol_transfer_data m)) \<longleftrightarrow> n = m) \<and>
   title (describeInnerInstruction dt TOKEN (src # (c # mint) # dst # xs) (token_transfer_data n d)) =
     ''Send '' @ formatTokenAmount (uint n) (c # mint) (Some (unat d)) @ '' (Token)'' \<and>
   details (describeInnerInstruction dt TOKEN (src # (c # mint) # dst # xs) (token_transfer_data n d)) =
     [row ''Mint'' (shorten (c # mint)), row ''From'' (acct_label [src] 0), row ''To'' (acct_label [dst] 0)] \<and>
   (title (describeInnerInstruction dt TOKEN (src # (c # mint) # dst # xs) (token_transfer_data n d)) =
      title (describeInnerInstruction dt TOKEN (src # (c # mint) # dst # xs) (token_transfer_data m d)) \<longleftrightarrow> n = m)"
proof -
  have "nth_opt (src # (c # mint) # dst # xs) 1 = Some (c # mint)" by simp
  note tok = describe_token_transfer [OF disjI1 [OF refl] this list.distinct(2)]
  note sol = describe_sol_transfer [of dt]
  show ?thesis
  proof (intro conjI)
    show "details (describeInnerInstruction dt SYSTEM (src # dst # xs) (sol_transfer_data n)) =
        [row ''From'' (acct_label [src] 0), row ''To'' (acct_label [dst] 0)]"
      by (simp only: sol acct_label_nth cleared_inner.simps)
    show "details (describeInnerInstruction dt TOKEN (src # (c # mint) # dst # xs) (token_transfer_data n d)) =
        [row ''Mint'' (shorten (c # mint)), row ''From'' (acct_label [src] 0), row ''To'' (acct_label [dst] 0)]"
      by (simp only: tok acct_label_nth cleared_inner.simps)
  qed (simp_all only: sol tok cleared_inner.simps token_kind_TOKEN same_append_eq append_same_eq
      formatUnits_injective formatTokenAmount_injective word_uint_eq_iff, simp)
qed

end
