(* ===== verification/Kit.thy ===== *)
theory Kit
  imports ClearSign
begin

text \<open>
  What the code uses of \<open>@solana/kit\<close>, which is not part of the repository.  Its data types
  (addresses as base58 text, account roles, instructions, decoded transactions) are declared with the
  fields the code reads; its functions are the fields of the record \<open>kit\<close>, an argument of every
  definition that calls one of them.  A field that returns an \<open>option\<close> is a function that can throw.
  Nothing is assumed about them except by the named hypotheses \<open>kit_roles_ok\<close> and
  \<open>kit_addresses_ok\<close>, which state documented behaviour; \<open>sample_kit\<close> satisfies both.
\<close>

datatype account_role = READONLY | WRITABLE | READONLY_SIGNER | WRITABLE_SIGNER

record account_meta =
  am_address :: address
  am_role :: account_role

record kit_instruction =
  ix_program :: address
  ix_accounts :: "account_meta list option"
  ix_data :: "bytes option"

datatype tx_version = Legacy | Version nat

text \<open>A compiled message is a version and a payload only \<open>decompileTransactionMessage\<close> looks into.\<close>

record compiled_message =
  cm_version :: tx_version
  cm_payload :: bytes

record kit_message =
  km_version :: tx_version
  km_instructions :: "kit_instruction list"
  km_config :: "(string \<times> int) list option"
  km_feePayer :: address

record kit_transaction =
  kt_messageBytes :: bytes
  kt_signatures :: "(address \<times> bytes option) list"

record compact_instruction =
  ci_program :: nat
  ci_accounts :: "nat list"
  ci_data :: bytes

record verify_args =
  va_relativeIndex :: int
  va_messageIndex :: nat
  va_clientDataJson :: bytes

record kit =
  k_containsBytes :: "bytes \<Rightarrow> bytes \<Rightarrow> nat \<Rightarrow> bool"
  k_tx_decode :: "bytes \<Rightarrow> kit_transaction option"
  k_msg_read :: "bytes \<Rightarrow> (compiled_message \<times> nat) option"
  k_decompile :: "compiled_message \<Rightarrow> kit_message option"
  k_addr_decode :: "bytes \<Rightarrow> address option"
  k_base58 :: "bytes \<Rightarrow> string"
  k_text_decode :: "bytes \<Rightarrow> string"
  k_execute_data :: "bytes \<Rightarrow> (compact_instruction list \<times> verify_args \<times> int) option"
  k_compact_data :: "bytes \<Rightarrow> compact_instruction list option"
  k_set_authority_data :: "bytes \<Rightarrow> (address \<times> verify_args \<times> int) option"
  k_policy_data :: "bytes \<Rightarrow> wallet_policy_data option"
  k_mergeRoles :: "account_role \<Rightarrow> account_role \<Rightarrow> account_role"
  k_isSignerRole :: "account_role \<Rightarrow> bool"
  k_isWritableRole :: "account_role \<Rightarrow> bool"
  k_downgradeToNonSigner :: "account_role \<Rightarrow> account_role"
  k_upgradeToSigner :: "account_role \<Rightarrow> account_role"
  k_upgradeToWritable :: "account_role \<Rightarrow> account_role"
  k_addr_encode :: "address \<Rightarrow> bytes option"
  k_sha256 :: "bytes \<Rightarrow> bytes"

subsection \<open>Documented behaviour\<close>

definition is_signer :: "account_role \<Rightarrow> bool" where
  "is_signer r \<longleftrightarrow> r = READONLY_SIGNER \<or> r = WRITABLE_SIGNER"

definition is_writable :: "account_role \<Rightarrow> bool" where
  "is_writable r \<longleftrightarrow> r = WRITABLE \<or> r = WRITABLE_SIGNER"

definition role_of :: "bool \<Rightarrow> bool \<Rightarrow> account_role" where
  "role_of signer writable =
     (if signer then if writable then WRITABLE_SIGNER else READONLY_SIGNER
      else if writable then WRITABLE else READONLY)"

text \<open>A role is two flags; merging takes the union of the privileges.\<close>

definition kit_roles_ok :: "kit \<Rightarrow> bool" where
  "kit_roles_ok k \<longleftrightarrow>
     k_mergeRoles k = (\<lambda>a b. role_of (is_signer a \<or> is_signer b) (is_writable a \<or> is_writable b)) \<and>
     k_isSignerRole k = is_signer \<and> k_isWritableRole k = is_writable \<and>
     k_downgradeToNonSigner k = (\<lambda>r. role_of False (is_writable r)) \<and>
     k_upgradeToSigner k = (\<lambda>r. role_of True (is_writable r)) \<and>
     k_upgradeToWritable k = (\<lambda>r. role_of (is_signer r) True)"

text \<open>The address decoder maps the 32-byte strings one to one to base58 texts.\<close>

definition kit_addresses_ok :: "kit \<Rightarrow> bool" where
  "kit_addresses_ok k \<longleftrightarrow>
     (\<forall>b. k_addr_decode k b \<noteq> None \<longleftrightarrow> length b = 32) \<and>
     (\<forall>b c. length b = 32 \<longrightarrow> length c = 32 \<longrightarrow> k_addr_decode k b = k_addr_decode k c \<longrightarrow> b = c)"

text \<open>The address encoder is one to one into the 32-byte strings; SHA-256 digests have 32 bytes.\<close>

definition kit_hashing_ok :: "kit \<Rightarrow> bool" where
  "kit_hashing_ok k \<longleftrightarrow>
     (\<forall>a b. k_addr_encode k a = Some b \<longrightarrow> length b = 32) \<and>
     (\<forall>a b c. k_addr_encode k a = Some c \<longrightarrow> k_addr_encode k b = Some c \<longrightarrow> a = b) \<and>
     (\<forall>b. length (k_sha256 k b) = 32)"

lemma role_simps [simp]:
  "is_signer (role_of s w) = s" "is_writable (role_of s w) = w"
  "role_of (is_signer r) (is_writable r) = r"
  by (auto simp: is_signer_def is_writable_def role_of_def) (cases r; simp)

lemma role_eqI: "is_signer a = is_signer b \<Longrightarrow> is_writable a = is_writable b \<Longrightarrow> a = b"
  by (cases a; cases b) (auto simp: is_signer_def is_writable_def)

definition sample_kit :: kit where
  "sample_kit =
     \<lparr>k_containsBytes = (\<lambda>d b off. take (length b) (drop off d) = b),
      k_tx_decode = (\<lambda>_. None), k_msg_read = (\<lambda>_. None), k_decompile = (\<lambda>_. None),
      k_addr_decode = (\<lambda>b. if length b = 32 then Some (map (\<lambda>x. char_of (unat x)) b) else None),
      k_base58 = map (\<lambda>x. char_of (unat x)), k_text_decode = map (\<lambda>x. char_of (unat x)),
      k_execute_data = (\<lambda>_. None), k_compact_data = (\<lambda>_. None), k_set_authority_data = (\<lambda>_. None),
      k_policy_data = (\<lambda>_. None),
      k_mergeRoles = (\<lambda>a b. role_of (is_signer a \<or> is_signer b) (is_writable a \<or> is_writable b)),
      k_isSignerRole = is_signer, k_isWritableRole = is_writable, k_downgradeToNonSigner = (\<lambda>r. role_of False (is_writable r)),
      k_upgradeToSigner = (\<lambda>r. role_of True (is_writable r)),
      k_upgradeToWritable = (\<lambda>r. role_of (is_signer r) True),
      k_addr_encode = (\<lambda>a. if length a = 32 then Some (map (\<lambda>c. word_of_nat (of_char c)) a) else None),
      k_sha256 = (\<lambda>b. take 32 (b @ replicate 32 0))\<rparr>"

lemma byte_char_inj: "char_of (unat (x :: byte)) = (char_of (unat y) :: char) \<longleftrightarrow> x = y"
proof
  assume "char_of (unat x) = (char_of (unat y) :: char)"
  then have "unat x mod 256 = unat y mod 256" by (metis of_char_of)
  then show "x = y" using unat_byte_lt [of x] unat_byte_lt [of y] by (simp add: word_unat_eq_iff)
qed simp

lemma char_byte_inj: "word_of_nat (of_char c) = (word_of_nat (of_char d) :: byte) \<longleftrightarrow> c = d"
proof
  assume "word_of_nat (of_char c) = (word_of_nat (of_char d) :: byte)"
  then have "unat (word_of_nat (of_char c) :: byte) = unat (word_of_nat (of_char d) :: byte)" by simp
  then have "(of_char c :: nat) mod 256 = of_char d mod 256" by (simp add: unat_of_nat)
  then have "(of_char c :: nat) = of_char d" by simp
  then show "c = d" by simp
qed simp

lemma sample_kit_hashing: "kit_hashing_ok sample_kit"
proof -
  have "inj (\<lambda>c. word_of_nat (of_char c) :: byte)" by (intro injI) (simp only: char_byte_inj)
  then show ?thesis by (auto simp: kit_hashing_ok_def sample_kit_def dest: map_injective)
qed

lemma sample_kit_ok: "kit_roles_ok sample_kit" "kit_addresses_ok sample_kit"
proof -
  have "inj (\<lambda>x :: byte. char_of (unat x) :: char)" by (intro injI) (simp only: byte_char_inj)
  then show "kit_addresses_ok sample_kit" by (auto simp: kit_addresses_ok_def sample_kit_def dest: map_injective)
qed (simp add: kit_roles_ok_def sample_kit_def)

end
