(* ===== verification/WalletProgram.thy ===== *)
theory WalletProgram
  imports Kit
begin

text \<open>
  The wallet program as the SDK sees it, under \<^verbatim>\<open>packages/js/phygital-wallet/src\<close>: the instruction
  kinds with their discriminators and the parsers generated for them (\<^verbatim>\<open>generated/programs\<close>,
  \<^verbatim>\<open>generated/instructions\<close>), and the slice of the remaining accounts the compact instructions index
  into (\<^verbatim>\<open>wallet/execute-remaining.ts\<close>).

  A parsed instruction keeps its named accounts in order; \<open>account_of\<close> reads one by name.
\<close>

definition PHYGITAL_WALLET_PROGRAM_ADDRESS :: address where
  "PHYGITAL_WALLET_PROGRAM_ADDRESS = ''Fjbi9JrRAmSBdxQxbkcxYDp6JUwnLbFhU2GsieWQBLSg''"

datatype wallet_instruction =
  ClearAuthority | ClearWalletPolicy | Execute | ExecuteWithAuthority
| ExecuteWithAuthorityUsingPolicies | SetAuthority | SetWalletPolicy

definition discriminators :: "(wallet_instruction \<times> bytes) list" where
  "discriminators =
     [(ClearAuthority, [129, 249, 41, 111, 187, 52, 199, 214]),
      (ClearWalletPolicy, [226, 224, 82, 15, 201, 69, 123, 12]),
      (Execute, [130, 221, 242, 154, 13, 193, 189, 29]),
      (ExecuteWithAuthority, [249, 39, 107, 35, 244, 181, 161, 142]),
      (ExecuteWithAuthorityUsingPolicies, [237, 150, 126, 114, 227, 5, 73, 250]),
      (SetAuthority, [133, 250, 37, 21, 110, 163, 26, 121]),
      (SetWalletPolicy, [246, 162, 84, 132, 73, 92, 217, 149])]"

text \<open>The first discriminator the data starts with; \<open>None\<close> is the thrown \<open>SolanaError\<close>.\<close>

definition identifyPhygitalWalletInstruction :: "kit \<Rightarrow> bytes \<Rightarrow> wallet_instruction option" where
  "identifyPhygitalWalletInstruction k dat =
     map_option fst (find (\<lambda>(_, disc). k_containsBytes k dat disc 0) discriminators)"

datatype parsed_data =
  NoData
| ExecuteData "compact_instruction list" verify_args int
| CompactData "compact_instruction list"
| SetAuthorityData address verify_args int
| PolicyData wallet_policy_data

record parsed_instruction =
  pi_type :: wallet_instruction
  pi_program :: address
  pi_accounts :: "(string \<times> account_meta) list"
  pi_data :: parsed_data

text \<open>The common body of the generated parsers: enough accounts, the named ones in order, the data.\<close>

definition parse_named ::
  "wallet_instruction \<Rightarrow> string list \<Rightarrow> (bytes \<Rightarrow> parsed_data option) \<Rightarrow> kit_instruction \<Rightarrow>
     parsed_instruction option" where
  "parse_named kind names decode ix =
     (case (ix_accounts ix, ix_data ix) of
        (Some accounts, Some dat) \<Rightarrow>
          if length accounts < length names then None
          else map_option
            (\<lambda>d. \<lparr>pi_type = kind, pi_program = ix_program ix, pi_accounts = zip names accounts, pi_data = d\<rparr>)
            (decode dat)
      | _ \<Rightarrow> None)"

definition discriminator_only :: "bytes \<Rightarrow> parsed_data option" where
  "discriminator_only dat = (if length dat < 8 then None else Some NoData)"

definition parseClearAuthorityInstruction :: "kit_instruction \<Rightarrow> parsed_instruction option" where
  "parseClearAuthorityInstruction =
     parse_named ClearAuthority
       [''authority'', ''phygitalToken'', ''rentReceiver'', ''authorityAccount'', ''instructionsSysvar'']
       discriminator_only"

definition parseClearWalletPolicyInstruction :: "kit_instruction \<Rightarrow> parsed_instruction option" where
  "parseClearWalletPolicyInstruction =
     parse_named ClearWalletPolicy
       [''authority'', ''rentReceiver'', ''phygitalToken'', ''authorityAccount'', ''instructionsSysvar'']
       discriminator_only"

definition parseExecuteInstruction :: "kit \<Rightarrow> kit_instruction \<Rightarrow> parsed_instruction option" where
  "parseExecuteInstruction k =
     parse_named Execute
       [''phygitalToken'', ''wallet'', ''authorityAccount'', ''slotHashes'', ''instructionsSysvar'',
        ''phygitalTokenProgram'']
       (\<lambda>d. map_option (\<lambda>(c, v, s). ExecuteData c v s) (k_execute_data k d))"

definition parseExecuteWithAuthorityInstruction :: "kit \<Rightarrow> kit_instruction \<Rightarrow> parsed_instruction option" where
  "parseExecuteWithAuthorityInstruction k =
     parse_named ExecuteWithAuthority
       [''authority'', ''phygitalToken'', ''authorityAccount'', ''wallet'', ''instructionsSysvar'']
       (\<lambda>d. map_option CompactData (k_compact_data k d))"

definition parseExecuteWithAuthorityUsingPoliciesInstruction ::
  "kit \<Rightarrow> kit_instruction \<Rightarrow> parsed_instruction option" where
  "parseExecuteWithAuthorityUsingPoliciesInstruction k =
     parse_named ExecuteWithAuthorityUsingPolicies
       [''authority'', ''phygitalToken'', ''authorityAccount'', ''wallet'', ''instructionsSysvar'']
       (\<lambda>d. map_option CompactData (k_compact_data k d))"

definition parseSetAuthorityInstruction :: "kit \<Rightarrow> kit_instruction \<Rightarrow> parsed_instruction option" where
  "parseSetAuthorityInstruction k =
     parse_named SetAuthority
       [''payer'', ''phygitalToken'', ''wallet'', ''authorityAccount'', ''slotHashes'',
        ''instructionsSysvar'', ''phygitalTokenProgram'', ''systemProgram'']
       (\<lambda>d. map_option (\<lambda>(a, v, s). SetAuthorityData a v s) (k_set_authority_data k d))"

definition parseSetWalletPolicyInstruction :: "kit \<Rightarrow> kit_instruction \<Rightarrow> parsed_instruction option" where
  "parseSetWalletPolicyInstruction k =
     parse_named SetWalletPolicy
       [''authority'', ''payer'', ''rentReceiver'', ''phygitalToken'', ''authorityAccount'',
        ''instructionsSysvar'', ''systemProgram'']
       (\<lambda>d. map_option PolicyData (k_policy_data k d))"

definition parsePhygitalWalletInstruction :: "kit \<Rightarrow> kit_instruction \<Rightarrow> parsed_instruction option" where
  "parsePhygitalWalletInstruction k ix =
     (case Option.bind (ix_data ix) (identifyPhygitalWalletInstruction k) of
        None \<Rightarrow> None
      | Some ClearAuthority \<Rightarrow> parseClearAuthorityInstruction ix
      | Some ClearWalletPolicy \<Rightarrow> parseClearWalletPolicyInstruction ix
      | Some Execute \<Rightarrow> parseExecuteInstruction k ix
      | Some ExecuteWithAuthority \<Rightarrow> parseExecuteWithAuthorityInstruction k ix
      | Some ExecuteWithAuthorityUsingPolicies \<Rightarrow> parseExecuteWithAuthorityUsingPoliciesInstruction k ix
      | Some SetAuthority \<Rightarrow> parseSetAuthorityInstruction k ix
      | Some SetWalletPolicy \<Rightarrow> parseSetWalletPolicyInstruction k ix)"

definition account_of :: "parsed_instruction \<Rightarrow> string \<Rightarrow> address" where
  "account_of p name = (case map_of (pi_accounts p) name of Some m \<Rightarrow> am_address m | None \<Rightarrow> '''')"

subsection \<open>Remaining accounts\<close>

definition EXECUTE_NAMED_ACCOUNT_COUNT :: nat where "EXECUTE_NAMED_ACCOUNT_COUNT = 6"
definition EXECUTE_WITH_AUTHORITY_NAMED_ACCOUNT_COUNT :: nat where
  "EXECUTE_WITH_AUTHORITY_NAMED_ACCOUNT_COUNT = 5"

fun executeRemainingAccountOffset :: "wallet_instruction \<Rightarrow> nat option" where
  "executeRemainingAccountOffset Execute = Some EXECUTE_NAMED_ACCOUNT_COUNT"
| "executeRemainingAccountOffset ExecuteWithAuthority = Some EXECUTE_WITH_AUTHORITY_NAMED_ACCOUNT_COUNT"
| "executeRemainingAccountOffset ExecuteWithAuthorityUsingPolicies =
     Some EXECUTE_WITH_AUTHORITY_NAMED_ACCOUNT_COUNT"
| "executeRemainingAccountOffset _ = None"

definition sliceExecuteRemainingAccounts :: "wallet_instruction \<Rightarrow> 'a list \<Rightarrow> 'a list option" where
  "sliceExecuteRemainingAccounts kind accounts =
     (case executeRemainingAccountOffset kind of
        None \<Rightarrow> None
      | Some off \<Rightarrow> Some (drop off accounts))"

lemmas parser_defs =
  parseClearAuthorityInstruction_def parseClearWalletPolicyInstruction_def parseExecuteInstruction_def
  parseExecuteWithAuthorityInstruction_def parseExecuteWithAuthorityUsingPoliciesInstruction_def
  parseSetAuthorityInstruction_def parseSetWalletPolicyInstruction_def

lemma parse_named_Some:
  "parse_named kind names decode ix = Some p \<longleftrightarrow>
     (\<exists>accounts dat d. ix_accounts ix = Some accounts \<and> ix_data ix = Some dat \<and> length names \<le> length accounts \<and>
        decode dat = Some d \<and>
        p = \<lparr>pi_type = kind, pi_program = ix_program ix, pi_accounts = zip names accounts, pi_data = d\<rparr>)"
  by (auto simp: parse_named_def split: option.splits)

lemma parsed_type:
  "parsePhygitalWalletInstruction k ix = Some p \<Longrightarrow>
     Option.bind (ix_data ix) (identifyPhygitalWalletInstruction k) = Some (pi_type p)"
  by (auto simp: parsePhygitalWalletInstruction_def parser_defs parse_named_Some
      split: option.splits wallet_instruction.splits)

text \<open>
  Whatever the discriminator, the accounts a wallet instruction is parsed with are the first
  accounts of the instruction, and for the execute variants the accounts the compact instructions
  index are exactly the rest: no account is both named and remaining, and none is skipped.
\<close>
theorem parsed_accounts_partition:
  assumes "parsePhygitalWalletInstruction k ix = Some p" and "ix_accounts ix = Some accounts"
    and "sliceExecuteRemainingAccounts (pi_type p) accounts = Some remaining"
  shows "accounts = map snd (pi_accounts p) @ remaining"
  using assms
  by (cases "pi_type p")
    (auto simp: parsePhygitalWalletInstruction_def parser_defs parse_named_Some sliceExecuteRemainingAccounts_def
      EXECUTE_NAMED_ACCOUNT_COUNT_def EXECUTE_WITH_AUTHORITY_NAMED_ACCOUNT_COUNT_def map_snd_zip_take
      eval_nat_numeral
      split: option.splits wallet_instruction.splits)

definition sample_spend :: kit_instruction where
  "sample_spend =
     \<lparr>ix_program = PHYGITAL_WALLET_PROGRAM_ADDRESS,
      ix_accounts = Some (map (\<lambda>a. \<lparr>am_address = a, am_role = READONLY\<rparr>)
        [''owner'', ''token'', ''acct'', ''wallet'', ''ixs'', ''prog'', ''dest'']),
      ix_data = Some [249, 39, 107, 35, 244, 181, 161, 142, 0, 0, 0, 0]\<rparr>"

theorem parsed_accounts_partition_witness:
  "\<exists>p remaining. parsePhygitalWalletInstruction (sample_kit\<lparr>k_compact_data := \<lambda>_. Some []\<rparr>) sample_spend = Some p \<and>
     map am_address remaining = [''prog'', ''dest''] \<and>
     ix_accounts sample_spend = Some (map snd (pi_accounts p) @ remaining)"
proof -
  let ?k = "sample_kit\<lparr>k_compact_data := \<lambda>_. Some []\<rparr>"
  obtain accounts where a: "ix_accounts sample_spend = Some accounts" by (simp add: sample_spend_def)
  have id: "identifyPhygitalWalletInstruction ?k [249, 39, 107, 35, 244, 181, 161, 142, 0, 0, 0, 0] =
      Some ExecuteWithAuthority"
    by (simp add: identifyPhygitalWalletInstruction_def discriminators_def sample_kit_def)
  then obtain p where p: "parsePhygitalWalletInstruction ?k sample_spend = Some p" "pi_type p = ExecuteWithAuthority"
    by (simp add: parsePhygitalWalletInstruction_def sample_spend_def parser_defs parse_named_def)
  have s: "sliceExecuteRemainingAccounts (pi_type p) accounts = Some (drop 5 accounts)"
    by (simp add: p(2) sliceExecuteRemainingAccounts_def EXECUTE_WITH_AUTHORITY_NAMED_ACCOUNT_COUNT_def)
  from parsed_accounts_partition [OF p(1) a s] have "accounts = map snd (pi_accounts p) @ drop 5 accounts" .
  moreover have "map am_address (drop 5 accounts) = [''prog'', ''dest'']"
    using a by (auto simp: sample_spend_def)
  ultimately show ?thesis using p(1) a by (metis (no_types, lifting))
qed

end
