(* ===== verification/TxPolicy.thy ===== *)
theory TxPolicy
  imports WalletProgram Protocol
begin

text \<open>
  The transaction policy of the signer, \<^verbatim>\<open>secure-signer/src/tx\<close>: decoding of a v1 transaction
  (\<^verbatim>\<open>decode-v1.ts\<close>), the display summary of its instructions (\<^verbatim>\<open>parser.ts\<close>), the allow-list and owner
  binding (\<^verbatim>\<open>policy.ts\<close>) and the risk shown to the user (\<^verbatim>\<open>sign-risk.ts\<close>).

  A function that can throw returns \<open>None\<close> for the exception where the callers do not distinguish
  the exceptions.  The theorems say exactly which transactions pass the policy and what is displayed
  for them.
\<close>

subsection \<open>Decoding\<close>

record decoded_transaction =
  dt_messageBytes :: bytes
  dt_transaction :: kit_transaction
  dt_message :: kit_message

definition decodeV1Transaction :: "kit \<Rightarrow> bytes \<Rightarrow> decoded_transaction option" where
  "decodeV1Transaction k bs =
     (if length bs < 1 then None
      else if length bs > MAX_TX_BYTES then None
      else case k_tx_decode k bs of
        None \<Rightarrow> None
      | Some tx \<Rightarrow>
     (case k_msg_read k (kt_messageBytes tx) of
        None \<Rightarrow> None
      | Some (compiled, fin) \<Rightarrow>
      if fin \<noteq> length (kt_messageBytes tx) then None
      else if cm_version compiled \<noteq> Version 1 then None
      else case k_decompile k compiled of
        None \<Rightarrow> None
      | Some message \<Rightarrow>
      if km_version message \<noteq> Version 1 then None
      else Some \<lparr>dt_messageBytes = kt_messageBytes tx, dt_transaction = tx, dt_message = message\<rparr>))"

subsection \<open>Summaries\<close>

record inner_summary =
  is_programAddress :: address
  is_accounts :: "address list"
  is_dataLength :: nat
  is_title :: string
  is_details :: "detail_row list"

record instruction_summary =
  su_kind :: wallet_instruction
  su_authority :: "address option"
  su_phygitalToken :: "address option"
  su_inner :: "inner_summary list option"
  su_details :: "detail_row list"

text \<open>The accounts an index list selects; \<open>None\<close> when an index is out of range.\<close>

fun lookup_accounts :: "account_meta list \<Rightarrow> nat list \<Rightarrow> address list option" where
  "lookup_accounts remaining [] = Some []"
| "lookup_accounts remaining (ai # ais) =
     (case nth_opt remaining ai of
        None \<Rightarrow> None
      | Some meta \<Rightarrow> map_option (\<lambda>as. am_address meta # as) (lookup_accounts remaining ais))"

fun summarizeInner ::
  "kit \<Rightarrow> compact_instruction list \<Rightarrow> account_meta list \<Rightarrow> inner_summary list option" where
  "summarizeInner k [] remaining = Some []"
| "summarizeInner k (ci # rest) remaining =
     (case nth_opt remaining (ci_program ci) of
        None \<Rightarrow> None
      | Some prog \<Rightarrow>
     (case lookup_accounts remaining (ci_accounts ci) of
        None \<Rightarrow> None
      | Some accounts \<Rightarrow>
          (let cleared = describeInnerInstruction (k_text_decode k) (am_address prog) accounts (ci_data ci);
               s = \<lparr>is_programAddress = am_address prog, is_accounts = accounts,
                    is_dataLength = length (ci_data ci), is_title = title cleared,
                    is_details = details cleared\<rparr>
           in map_option (\<lambda>out. s # out) (summarizeInner k rest remaining))))"

definition summary_of ::
  "parsed_instruction \<Rightarrow> bool \<Rightarrow> inner_summary list option \<Rightarrow> detail_row list \<Rightarrow> instruction_summary" where
  "summary_of p with_authority inner rows =
     \<lparr>su_kind = pi_type p, su_authority = (if with_authority then Some (account_of p ''authority'') else None),
      su_phygitalToken = Some (account_of p ''phygitalToken''), su_inner = inner, su_details = rows\<rparr>"

definition compact_of :: "parsed_instruction \<Rightarrow> compact_instruction list" where
  "compact_of p = (case pi_data p of CompactData cs \<Rightarrow> cs | _ \<Rightarrow> [])"

definition parseInstruction :: "kit \<Rightarrow> kit_instruction \<Rightarrow> instruction_summary option" where
  "parseInstruction k ix =
     (let accounts = (case ix_accounts ix of Some as \<Rightarrow> as | None \<Rightarrow> []);
          dat = (case ix_data ix of Some d \<Rightarrow> d | None \<Rightarrow> []);
          kit_ix = \<lparr>ix_program = ix_program ix, ix_accounts = Some accounts, ix_data = Some dat\<rparr> in
      case parsePhygitalWalletInstruction k kit_ix of
        None \<Rightarrow> None
      | Some p \<Rightarrow>
     (case pi_type p of
        ExecuteWithAuthority \<Rightarrow>
          Option.bind (sliceExecuteRemainingAccounts (pi_type p) accounts) (\<lambda>remaining.
            map_option (\<lambda>inner. summary_of p True (Some inner) [])
              (summarizeInner k (compact_of p) remaining))
      | ExecuteWithAuthorityUsingPolicies \<Rightarrow>
          Option.bind (sliceExecuteRemainingAccounts (pi_type p) accounts) (\<lambda>remaining.
            map_option (\<lambda>inner. summary_of p True (Some inner)
                [row ''Note'' ''Owner spend with on-chain wallet policies applied''])
              (summarizeInner k (compact_of p) remaining))
      | ClearAuthority \<Rightarrow>
          Some (summary_of p True None [row ''Effect'' ''Removes the owner key from this accessory''])
      | SetWalletPolicy \<Rightarrow>
          Some (summary_of p True None
            (case pi_data p of PolicyData d \<Rightarrow> describeWalletPolicy d | _ \<Rightarrow> []))
      | ClearWalletPolicy \<Rightarrow>
          Some (summary_of p True None
            [row ''Effect'' ''Deletes spend caps and program permission overrides''])
      | SetAuthority \<Rightarrow> Some (summary_of p False None [])
      | Execute \<Rightarrow> Some (summary_of p False None [])))"

subsection \<open>The policy\<close>

record transaction_summary =
  ts_walletAddress :: address
  ts_instructions :: "instruction_summary list"
  ts_config :: "(string \<times> int) list"

datatype policy_result = POk transaction_summary | PFail error_code

fun summarize_all :: "kit \<Rightarrow> kit_instruction list \<Rightarrow> instruction_summary list option" where
  "summarize_all k [] = Some []"
| "summarize_all k (ix # ixs) =
     (case parseInstruction k ix of
        None \<Rightarrow> None
      | Some summary \<Rightarrow>
          if su_kind summary = SetAuthority then None
          else map_option (\<lambda>ss. summary # ss) (summarize_all k ixs))"

definition previewPolicy :: "kit \<Rightarrow> decoded_transaction \<Rightarrow> policy_result" where
  "previewPolicy k tx =
     (let message = dt_message tx in
      if km_instructions message = [] then PFail POLICY_REJECTED
      else if \<exists>ix \<in> set (km_instructions message). ix_program ix \<noteq> PHYGITAL_WALLET_PROGRAM_ADDRESS
        then PFail POLICY_REJECTED
      else case summarize_all k (km_instructions message) of
        None \<Rightarrow> PFail POLICY_REJECTED
      | Some summaries \<Rightarrow>
          POk \<lparr>ts_walletAddress =
                 (case find (\<lambda>s. su_authority s \<noteq> None) summaries of
                    Some s \<Rightarrow> the (su_authority s) | None \<Rightarrow> ''''),
               ts_instructions = summaries,
               ts_config = (case km_config message of Some c \<Rightarrow> c | None \<Rightarrow> [])\<rparr>)"

text \<open>\<open>None\<close>: the address decoder threw.\<close>

definition evaluatePolicy :: "kit \<Rightarrow> decoded_transaction \<Rightarrow> bytes \<Rightarrow> policy_result option" where
  "evaluatePolicy k tx ownerPubkey =
     (case previewPolicy k tx of
        PFail c \<Rightarrow> Some (PFail c)
      | POk preview \<Rightarrow>
     (case k_addr_decode k ownerPubkey of
        None \<Rightarrow> None
      | Some ownerAddress \<Rightarrow>
          if ownerAddress \<notin> set (map fst (kt_signatures (dt_transaction tx))) then Some (PFail WALLET_MISMATCH)
          else if \<exists>s \<in> set (ts_instructions preview). su_authority s \<noteq> None \<and> su_authority s \<noteq> Some ownerAddress
            then Some (PFail POLICY_REJECTED)
          else Some (POk (preview\<lparr>ts_walletAddress := ownerAddress\<rparr>))))"

subsection \<open>Risk\<close>

datatype sign_risk = Normal | Elevated | Critical

definition instructionLabel :: "wallet_instruction \<Rightarrow> string" where
  "instructionLabel kind =
     (case kind of
        ExecuteWithAuthority \<Rightarrow> ''Owner spend'' | ExecuteWithAuthorityUsingPolicies \<Rightarrow> ''Owner spend''
      | ClearAuthority \<Rightarrow> ''Remove owner'' | SetWalletPolicy \<Rightarrow> ''Update policy''
      | ClearWalletPolicy \<Rightarrow> ''Turn off protections'' | Execute \<Rightarrow> ''Accessory spend''
      | SetAuthority \<Rightarrow> ''Set owner'')"

definition isCriticalInstruction :: "wallet_instruction \<Rightarrow> bool" where
  "isCriticalInstruction kind \<longleftrightarrow> kind = ClearAuthority \<or> kind = ClearWalletPolicy"

definition isElevatedInstruction :: "wallet_instruction \<Rightarrow> bool" where
  "isElevatedInstruction kind \<longleftrightarrow> kind = SetWalletPolicy"

definition lower_char :: "char \<Rightarrow> char" where
  "lower_char c = (let n = of_char c :: nat in if 65 \<le> n \<and> n \<le> 90 then char_of (n + 32) else c)"

text \<open>The three tests of the loop over the inner rows; the regular expression ignores case.\<close>

definition opaque_row :: "inner_summary \<Rightarrow> bool" where
  "opaque_row r \<longleftrightarrow>
     starts_with ''Program '' (is_title r) \<or> includes_str ''opaque'' (is_title r) \<or>
     (\<exists>d \<in> set (is_details r). includes_str ''unknown'' (map lower_char (val d)) \<or>
        includes_str ''opaque'' (map lower_char (val d)))"

definition is_owner_spend :: "wallet_instruction \<Rightarrow> bool" where
  "is_owner_spend kind \<longleftrightarrow> kind = ExecuteWithAuthority \<or> kind = ExecuteWithAuthorityUsingPolicies"

definition ownerSpendRisk :: "instruction_summary list \<Rightarrow> sign_risk option" where
  "ownerSpendRisk ixs =
     (let ownerSpend = filter (\<lambda>ix. is_owner_spend (su_kind ix)) ixs in
      if ownerSpend = [] then None
      else if \<exists>ix \<in> set ownerSpend.
          (let inner = (case su_inner ix of Some i \<Rightarrow> i | None \<Rightarrow> []) in
           inner = [] \<or> (\<exists>r \<in> set inner. opaque_row r))
        then Some Critical
      else Some Elevated)"

definition classifySignRisk :: "transaction_summary \<Rightarrow> sign_risk" where
  "classifySignRisk summary =
     (if \<exists>ix \<in> set (ts_instructions summary). isCriticalInstruction (su_kind ix) then Critical
      else let ownerRisk = ownerSpendRisk (ts_instructions summary) in
      if ownerRisk = Some Critical then Critical
      else if \<exists>ix \<in> set (ts_instructions summary). isElevatedInstruction (su_kind ix) then Elevated
      else if ownerRisk = Some Elevated then Elevated
      else Normal)"

definition riskCallout :: "instruction_summary list \<Rightarrow> string option" where
  "riskCallout ixs =
     (let kinds = set (map su_kind ixs) in
      if ClearAuthority \<in> kinds then Some ''Removes the owner key from this accessory.''
      else if ClearWalletPolicy \<in> kinds then
        Some ''Turns off all accessory spend checks. Anyone with the item can move funds until you restore protections.''
      else if SetWalletPolicy \<in> kinds then Some ''Updates how this wallet can spend.''
      else if ExecuteWithAuthority \<in> kinds \<or> ExecuteWithAuthorityUsingPolicies \<in> kinds then
        Some ''This spend uses your owner key and can bypass accessory limits. Confirm the amount and destination carefully.''
      else None)"

subsection \<open>What passes the policy\<close>

lemma summarize_all_Some_iff:
  "summarize_all k ixs = Some ss \<longleftrightarrow>
     list_all2 (\<lambda>ix s. parseInstruction k ix = Some s \<and> su_kind s \<noteq> SetAuthority) ixs ss"
  by (induction k ixs arbitrary: ss rule: summarize_all.induct)
    (auto simp: list_all2_Cons1 split: option.splits)

lemma previewPolicy_POk_iff:
  "previewPolicy k tx = POk s \<longleftrightarrow>
     km_instructions (dt_message tx) \<noteq> [] \<and>
     (\<forall>ix \<in> set (km_instructions (dt_message tx)). ix_program ix = PHYGITAL_WALLET_PROGRAM_ADDRESS) \<and>
     list_all2 (\<lambda>ix s. parseInstruction k ix = Some s \<and> su_kind s \<noteq> SetAuthority)
       (km_instructions (dt_message tx)) (ts_instructions s) \<and>
     ts_walletAddress s = (case find (\<lambda>s. su_authority s \<noteq> None) (ts_instructions s) of
       Some x \<Rightarrow> the (su_authority x) | None \<Rightarrow> '''') \<and>
     ts_config s = (case km_config (dt_message tx) of Some c \<Rightarrow> c | None \<Rightarrow> [])"
  by (cases s) (auto simp: previewPolicy_def Let_def summarize_all_Some_iff [symmetric] split: option.splits)

lemma evaluatePolicy_POk_iff:
  "evaluatePolicy k tx owner = Some (POk s) \<longleftrightarrow>
     (\<exists>preview addr. previewPolicy k tx = POk preview \<and> k_addr_decode k owner = Some addr \<and>
        addr \<in> set (map fst (kt_signatures (dt_transaction tx))) \<and>
        (\<forall>x \<in> set (ts_instructions preview). su_authority x = None \<or> su_authority x = Some addr) \<and>
        s = preview\<lparr>ts_walletAddress := addr\<rparr>)"
  by (auto simp: evaluatePolicy_def split: policy_result.splits option.splits)

definition owner_authorised :: "wallet_instruction \<Rightarrow> bool" where
  "owner_authorised kind \<longleftrightarrow> kind \<noteq> SetAuthority \<and> kind \<noteq> Execute"

definition accounts_of :: "kit_instruction \<Rightarrow> account_meta list" where
  "accounts_of ix = (case ix_accounts ix of Some as \<Rightarrow> as | None \<Rightarrow> [])"

definition data_of :: "kit_instruction \<Rightarrow> bytes" where
  "data_of ix = (case ix_data ix of Some d \<Rightarrow> d | None \<Rightarrow> [])"

text \<open>The summary of an instruction names its kind and, where the owner authorises it, its first account.\<close>

lemma parseInstruction_authority:
  assumes "parseInstruction k ix = Some s"
  shows "identifyPhygitalWalletInstruction k (data_of ix) = Some (su_kind s) \<and>
    su_authority s = (if owner_authorised (su_kind s) then Some (am_address (hd (accounts_of ix))) else None)"
proof -
  let ?kit = "\<lparr>ix_program = ix_program ix, ix_accounts = Some (accounts_of ix), ix_data = Some (data_of ix)\<rparr>"
  from assms obtain p where p: "parsePhygitalWalletInstruction k ?kit = Some p"
    by (auto simp: parseInstruction_def Let_def accounts_of_def data_of_def split: option.splits)
  have "su_kind s = pi_type p \<and>
      su_authority s = (if owner_authorised (pi_type p) then Some (account_of p ''authority'') else None)"
    using assms p by (auto simp: parseInstruction_def Let_def accounts_of_def [symmetric] data_of_def [symmetric]
        summary_of_def owner_authorised_def bind_eq_Some_conv split: wallet_instruction.splits)
  moreover have "owner_authorised (pi_type p) \<Longrightarrow> account_of p ''authority'' = am_address (hd (accounts_of ix))"
    using p by (cases "accounts_of ix") (auto simp: parsePhygitalWalletInstruction_def parser_defs parse_named_Some
        owner_authorised_def account_of_def split: option.splits wallet_instruction.splits)
  ultimately show ?thesis using parsed_type [OF p] by auto
qed

text \<open>
  C31: A transaction passes the policy for an owner only when it has at least one instruction, every
  instruction is for the wallet program and of a known kind other than \<open>SetAuthority\<close>, the owner is
  one of the transaction's required signers, the first account of every instruction the owner
  authorises is the owner itself, and what is displayed is the owner's address and one summary per
  instruction, in order, of that instruction's kind.
\<close>
theorem evaluatePolicy_binds_owner:
  assumes "evaluatePolicy k tx owner = Some (POk s)"
  shows "km_instructions (dt_message tx) \<noteq> [] \<and>
    k_addr_decode k owner = Some (ts_walletAddress s) \<and>
    ts_walletAddress s \<in> fst ` set (kt_signatures (dt_transaction tx)) \<and>
    list_all2 (\<lambda>ix d. ix_program ix = PHYGITAL_WALLET_PROGRAM_ADDRESS \<and>
        identifyPhygitalWalletInstruction k (data_of ix) = Some (su_kind d) \<and> su_kind d \<noteq> SetAuthority \<and>
        (su_kind d \<noteq> Execute \<longrightarrow> am_address (hd (accounts_of ix)) = ts_walletAddress s))
      (km_instructions (dt_message tx)) (ts_instructions s)"
proof -
  from assms obtain preview addr where prev: "previewPolicy k tx = POk preview" and
    addr: "k_addr_decode k owner = Some addr" "addr \<in> set (map fst (kt_signatures (dt_transaction tx)))" and
    auth: "\<forall>x \<in> set (ts_instructions preview). su_authority x = None \<or> su_authority x = Some addr" and
    s: "s = preview\<lparr>ts_walletAddress := addr\<rparr>"
    by (auto simp: evaluatePolicy_POk_iff)
  from prev have ne: "km_instructions (dt_message tx) \<noteq> []"
    and prog: "\<forall>ix \<in> set (km_instructions (dt_message tx)). ix_program ix = PHYGITAL_WALLET_PROGRAM_ADDRESS"
    and all2: "list_all2 (\<lambda>ix s. parseInstruction k ix = Some s \<and> su_kind s \<noteq> SetAuthority)
       (km_instructions (dt_message tx)) (ts_instructions preview)"
    by (auto simp: previewPolicy_POk_iff)
  have "list_all2 (\<lambda>ix d. ix_program ix = PHYGITAL_WALLET_PROGRAM_ADDRESS \<and>
        identifyPhygitalWalletInstruction k (data_of ix) = Some (su_kind d) \<and> su_kind d \<noteq> SetAuthority \<and>
        (su_kind d \<noteq> Execute \<longrightarrow> am_address (hd (accounts_of ix)) = addr))
      (km_instructions (dt_message tx)) (ts_instructions preview)"
  proof (rule list.rel_mono_strong [OF all2])
    fix ix d
    assume "ix \<in> set (km_instructions (dt_message tx))" and d: "d \<in> set (ts_instructions preview)"
      and *: "parseInstruction k ix = Some d \<and> su_kind d \<noteq> SetAuthority"
    with prog parseInstruction_authority [of k ix d] auth d
    show "ix_program ix = PHYGITAL_WALLET_PROGRAM_ADDRESS \<and>
        identifyPhygitalWalletInstruction k (data_of ix) = Some (su_kind d) \<and> su_kind d \<noteq> SetAuthority \<and>
        (su_kind d \<noteq> Execute \<longrightarrow> am_address (hd (accounts_of ix)) = addr)"
      by (fastforce simp: owner_authorised_def)
  qed
  with ne addr s show ?thesis by simp
qed

definition clear_authority_ix :: "address \<Rightarrow> kit_instruction" where
  "clear_authority_ix owner =
     \<lparr>ix_program = PHYGITAL_WALLET_PROGRAM_ADDRESS,
      ix_accounts = Some (map (\<lambda>a. \<lparr>am_address = a, am_role = READONLY\<rparr>) [owner, ''token'', ''rent'', ''acct'', ''ixs'']),
      ix_data = Some [129, 249, 41, 111, 187, 52, 199, 214]\<rparr>"

definition sample_tx :: "address \<Rightarrow> decoded_transaction" where
  "sample_tx owner =
     \<lparr>dt_messageBytes = [1, 2, 3], dt_transaction = \<lparr>kt_messageBytes = [1, 2, 3], kt_signatures = [(owner, None)]\<rparr>,
      dt_message = \<lparr>km_version = Version 1, km_instructions = [clear_authority_ix owner], km_config = None,
        km_feePayer = owner\<rparr>\<rparr>"

definition sample_owner :: address where
  "sample_owner = replicate 32 (char_of (97 :: nat))"

lemma sample_policy:
  "evaluatePolicy sample_kit (sample_tx sample_owner) (replicate 32 97) =
     Some (POk \<lparr>ts_walletAddress = sample_owner,
       ts_instructions = [\<lparr>su_kind = ClearAuthority, su_authority = Some sample_owner,
         su_phygitalToken = Some ''token'', su_inner = None,
         su_details = [row ''Effect'' ''Removes the owner key from this accessory'']\<rparr>],
       ts_config = []\<rparr>)"
  by (simp add: evaluatePolicy_def previewPolicy_def Let_def sample_tx_def clear_authority_ix_def
      sample_kit_def parseInstruction_def parsePhygitalWalletInstruction_def identifyPhygitalWalletInstruction_def
      discriminators_def parser_defs parse_named_def discriminator_only_def summary_of_def account_of_def
      sample_owner_def)

theorem evaluatePolicy_binds_owner_witness:
  "\<exists>s. evaluatePolicy sample_kit (sample_tx sample_owner) (replicate 32 97) = Some (POk s) \<and>
     ts_walletAddress s \<in> fst ` set (kt_signatures (dt_transaction (sample_tx sample_owner)))"
  using evaluatePolicy_binds_owner [OF sample_policy] sample_policy by blast

subsection \<open>The risk of unknown programs\<close>

lemma includes_str_hd:
  "includes_str (p # ps) s \<Longrightarrow> p \<in> set s"
  by (induction "p # ps" s rule: includes_str.induct) (auto simp: starts_with_Cons)

lemma nat_text_not_includes: "\<not> is_digit p \<Longrightarrow> \<not> includes_str (p # ps) (nat_text n)"
  using nat_text_digits [of n] includes_str_hd [of p ps "nat_text n"] by (auto simp: list_all_iff)

lemma lower_digits: "map lower_char (nat_text n) = nat_text n"
proof -
  have "lower_char c = c" if "is_digit c" for c using that by (auto simp: lower_char_def is_digit_def)
  with nat_text_digits [of n] show ?thesis by (auto simp: list_all_iff map_idI)
qed

lemma count_rows_not_opaque:
  "d \<in> set (count_rows accts dat) \<Longrightarrow>
     \<not> includes_str ''unknown'' (map lower_char (val d)) \<and> \<not> includes_str ''opaque'' (map lower_char (val d))"
  by (auto simp: count_rows_def row_def lower_digits is_digit_def nat_text_not_includes)

lemma list4: "length xs = 4 \<Longrightarrow> \<exists>a b c d. xs = [a, b, c, d]"
  by (auto simp: numeral_eq_Suc length_Suc_conv)

lemma call_title_not_opaque:
  assumes "12 < length p"
  shows "\<not> starts_with ''Program '' (''Call '' @ shorten p)" "\<not> includes_str ''opaque'' (''Call '' @ shorten p)"
proof -
  from assms have "length (take 4 p) = 4" "length (drop (length p - 4) p) = 4" by auto
  then obtain a b c d e f g h where eq: "take 4 p = [a, b, c, d]" "drop (length p - 4) p = [e, f, g, h]"
    using list4 by metis
  have "shorten p = [a, b, c, d, ellipsis, e, f, g, h]"
    using assms unfolding shorten_def eq by simp
  then show "\<not> starts_with ''Program '' (''Call '' @ shorten p)" "\<not> includes_str ''opaque'' (''Call '' @ shorten p)"
    by (simp_all add: starts_with_Cons ellipsis_def)
qed

definition unknown_program :: "address \<Rightarrow> bool" where
  "unknown_program p \<longleftrightarrow> p \<notin> {SYSTEM, MEMO, MEMO_V1, TOKEN, TOKEN_2022, ATA, METADATA, BUBBLEGUM, CORE} \<and> 12 < length p"

lemma describe_unknown:
  "unknown_program p \<Longrightarrow> describeInnerInstruction dt p accts dat =
     \<lparr>title = ''Call '' @ shorten p, details = count_rows accts dat\<rparr>"
  by (simp add: unknown_program_def describeInnerInstruction_def)

definition described :: "kit \<Rightarrow> address \<Rightarrow> string \<Rightarrow> detail_row list \<Rightarrow> bool" where
  "described k p t ds \<longleftrightarrow>
     (\<exists>accts dat. describeInnerInstruction (k_text_decode k) p accts dat = \<lparr>title = t, details = ds\<rparr>)"

lemma described_intro [simp]:
  "described k p (title (describeInnerInstruction (k_text_decode k) p accts dat))
     (details (describeInnerInstruction (k_text_decode k) p accts dat))"
  unfolding described_def by (intro exI [of _ accts] exI [of _ dat]) simp

lemma summarizeInner_rows:
  "summarizeInner k cs remaining = Some rows \<Longrightarrow> r \<in> set rows \<Longrightarrow>
     described k (is_programAddress r) (is_title r) (is_details r)"
  by (induction k cs remaining arbitrary: rows rule: summarizeInner.induct)
    (auto simp: Let_def split: option.splits)

text \<open>
  A spend that calls only programs the signer does not know is classified as an ordinary owner
  spend (elevated), never as critical: such an inner instruction is titled \<open>Call ...\<close>, and none of
  the texts that would mark it as unknown occurs in its row.
\<close>
theorem unknown_inner_is_only_elevated:
  assumes "summarizeInner k cs remaining = Some rows" and "rows \<noteq> []"
    and "\<forall>r \<in> set rows. unknown_program (is_programAddress r)"
  shows "classifySignRisk \<lparr>ts_walletAddress = w,
      ts_instructions = [\<lparr>su_kind = ExecuteWithAuthority, su_authority = a, su_phygitalToken = t,
        su_inner = Some rows, su_details = ds\<rparr>], ts_config = cfg\<rparr> = Elevated"
proof -
  have "\<not> opaque_row r" if r: "r \<in> set rows" for r
  proof -
    from summarizeInner_rows [OF assms(1) r] assms(3) r obtain accts dat
      where "is_title r = ''Call '' @ shorten (is_programAddress r)" "is_details r = count_rows accts dat"
      by (auto simp: described_def describe_unknown eq_commute [of "count_rows _ _"])
    with assms(3) r call_title_not_opaque [of "is_programAddress r"] count_rows_not_opaque [of _ accts dat]
    show ?thesis by (auto simp: opaque_row_def unknown_program_def)
  qed
  with assms(2) show ?thesis
    by (simp add: classifySignRisk_def isCriticalInstruction_def isElevatedInstruction_def ownerSpendRisk_def
        is_owner_spend_def)
qed

definition sample_remaining :: "account_meta list" where
  "sample_remaining = [\<lparr>am_address = ''JUP6LkbZbjS1jKKwapdHNy74zcZ3tLUZoi5QNyVTaV4'', am_role = READONLY\<rparr>]"

theorem unknown_inner_is_only_elevated_witness:
  "\<exists>rows. summarizeInner sample_kit [\<lparr>ci_program = 0, ci_accounts = [], ci_data = [7]\<rparr>] sample_remaining = Some rows \<and>
     classifySignRisk \<lparr>ts_walletAddress = ''w'',
      ts_instructions = [\<lparr>su_kind = ExecuteWithAuthority, su_authority = None, su_phygitalToken = None,
        su_inner = Some rows, su_details = []\<rparr>], ts_config = []\<rparr> = Elevated"
proof -
  obtain rows where rows: "summarizeInner sample_kit [\<lparr>ci_program = 0, ci_accounts = [], ci_data = [7]\<rparr>] sample_remaining = Some rows"
    "rows \<noteq> []" "\<forall>r \<in> set rows. is_programAddress r = ''JUP6LkbZbjS1jKKwapdHNy74zcZ3tLUZoi5QNyVTaV4''"
    by (simp add: sample_remaining_def Let_def)
  moreover have "unknown_program ''JUP6LkbZbjS1jKKwapdHNy74zcZ3tLUZoi5QNyVTaV4''"
    by (simp add: unknown_program_def known_programs)
  ultimately have "\<forall>r \<in> set rows. unknown_program (is_programAddress r)" by simp
  from unknown_inner_is_only_elevated [OF rows(1,2) this] rows(1) show ?thesis by blast
qed

end
