(* ===== verification/WalletFormat.thy ===== *)
theory WalletFormat
  imports Encoding SignerConstants
begin

text \<open>
  The portable encrypted wallet blob, \<^verbatim>\<open>secure-signer/src/wallet-format.ts\<close>: the fields of a
  blob as a record, the bounds-checked \<open>Reader\<close> as a state-passing record, encoding, strict
  decoding and the authenticated data of the cipher.

  The locale \<open>byte_reader\<close> is the contract the decoder relies on: a reader is a cursor on the bytes
  not yet read.  It is interpreted on the model's \<open>Reader\<close>, and the decoder's theorems rest on its
  facts.  \<open>decodeWalletBlob\<close> is shown to accept exactly the encodings of well-formed fields, and the
  authenticated data to determine every field it binds.
\<close>

unbundle bit_operations_syntax

definition EXPECTED_CIPHERTEXT_BYTES :: nat where "EXPECTED_CIPHERTEXT_BYTES = 48"

datatype blob_error = BlobError string

record wallet_blob_fields =
  publicKey :: bytes
  credentialId :: bytes
  kdfSalt :: bytes
  iv :: bytes
  ciphertext :: bytes

record parsed_wallet_blob = wallet_blob_fields +
  version :: byte

subsection \<open>The bounds-checked reader\<close>

record reader =
  rd_b :: bytes
  rd_o :: nat

definition rd_new :: "bytes \<Rightarrow> reader" where
  "rd_new b = \<lparr>rd_b = b, rd_o = 0\<rparr>"

definition rd_need :: "reader \<Rightarrow> nat \<Rightarrow> bool" where
  "rd_need r n \<longleftrightarrow> \<not> (rd_o r + n > length (rd_b r))"

definition rd_bytes :: "reader \<Rightarrow> int \<Rightarrow> blob_error + bytes \<times> reader" where
  "rd_bytes r n =
     err_if (n < 0) (BlobError ''bad length'')
     (err_if (\<not> rd_need r (nat n)) (BlobError ''truncated'')
     (Inr (take (nat n) (drop (rd_o r) (rd_b r)), r\<lparr>rd_o := rd_o r + nat n\<rparr>)))"

definition rd_u8 :: "reader \<Rightarrow> blob_error + byte \<times> reader" where
  "rd_u8 r =
     err_if (\<not> rd_need r 1) (BlobError ''truncated'')
     (Inr (rd_b r ! rd_o r, r\<lparr>rd_o := rd_o r + 1\<rparr>))"

definition u16_of :: "byte \<Rightarrow> byte \<Rightarrow> int" where
  "u16_of hi lo = sint (push_bit 8 (ucast hi) OR ucast lo :: 32 word)"

definition rd_u16 :: "reader \<Rightarrow> blob_error + int \<times> reader" where
  "rd_u16 r =
     err_if (\<not> rd_need r 2) (BlobError ''truncated'')
     (Inr (u16_of (rd_b r ! rd_o r) (rd_b r ! (rd_o r + 1)), r\<lparr>rd_o := rd_o r + 2\<rparr>))"

definition rd_atEnd :: "reader \<Rightarrow> bool" where
  "rd_atEnd r \<longleftrightarrow> rd_o r = length (rd_b r)"

subsection \<open>Encoding\<close>

definition writeU16 :: "nat \<Rightarrow> blob_error + bytes" where
  "writeU16 n =
     err_if (n > 0xffff) (BlobError ''u16 overflow'')
     (Inr [ucast (signed_drop_bit 8 (word_of_nat n :: 32 word) AND 0xff),
           ucast (word_of_nat n AND 0xff :: 32 word)])"

text \<open>\<open>concat\<close>: an array of the summed length, each part copied at the running offset.\<close>

definition set_at :: "bytes \<Rightarrow> nat \<Rightarrow> bytes \<Rightarrow> bytes" where
  "set_at out off p = take off out @ p @ drop (off + length p) out"

definition concat_parts :: "bytes list \<Rightarrow> bytes" where
  "concat_parts parts =
     (let len = foldl (\<lambda>n p. n + length p) 0 parts in
      fst (foldl (\<lambda>(out, off) p. (set_at out off p, off + length p)) (replicate len 0, 0) parts))"

definition encodeWalletBlob :: "'a wallet_blob_fields_scheme \<Rightarrow> blob_error + bytes" where
  "encodeWalletBlob f =
     err_if (length (publicKey f) \<noteq> ED25519_PUBKEY_BYTES) (BlobError ''pubkey'')
     (err_if (length (kdfSalt f) \<noteq> KDF_SALT_BYTES) (BlobError ''salt'')
     (err_if (length (iv f) \<noteq> AES_GCM_IV_BYTES) (BlobError ''iv'')
     (err_if (length (ciphertext f) \<noteq> EXPECTED_CIPHERTEXT_BYTES) (BlobError ''ct'')
     (err_if (length (credentialId f) < 1 \<or> length (credentialId f) > MAX_CREDENTIAL_ID_BYTES)
        (BlobError ''credentialId'')
     (obind (writeU16 (length (credentialId f))) (\<lambda>credLen.
      obind (writeU16 (length (ciphertext f))) (\<lambda>ctLen.
        Inr (concat_parts
          [BLOB_MAGIC, [BLOB_VERSION], publicKey f, credLen, credentialId f, kdfSalt f, iv f,
           ctLen, ciphertext f]))))))))"

subsection \<open>Strict decoding\<close>

definition decodeWalletBlob :: "bytes \<Rightarrow> blob_error + parsed_wallet_blob" where
  "decodeWalletBlob b =
     err_if (length b < 4 + 1 + 32 + 2 + 1 + 32 + 12 + 2 + EXPECTED_CIPHERTEXT_BYTES) (BlobError ''too short'')
     (err_if (length b > MAX_BLOB_BYTES) (BlobError ''too large'')
     (obind (rd_bytes (rd_new b) 4) (\<lambda>(magic, r).
      err_if (\<not> bytesEqual magic BLOB_MAGIC) (BlobError ''bad magic'')
     (obind (rd_u8 r) (\<lambda>(ver, r).
      err_if (ver \<noteq> BLOB_VERSION) (BlobError ''unsupported version'')
     (obind (rd_bytes r (int ED25519_PUBKEY_BYTES)) (\<lambda>(pk, r).
      obind (rd_u16 r) (\<lambda>(credLen, r).
      err_if (credLen < 1 \<or> credLen > int MAX_CREDENTIAL_ID_BYTES) (BlobError ''credentialId length'')
     (obind (rd_bytes r credLen) (\<lambda>(cred, r).
      obind (rd_bytes r (int KDF_SALT_BYTES)) (\<lambda>(salt, r).
      obind (rd_bytes r (int AES_GCM_IV_BYTES)) (\<lambda>(ivb, r).
      obind (rd_u16 r) (\<lambda>(ctLen, r).
      err_if (ctLen \<noteq> int EXPECTED_CIPHERTEXT_BYTES) (BlobError ''ciphertext length'')
     (obind (rd_bytes r ctLen) (\<lambda>(ct, r).
      err_if (\<not> rd_atEnd r) (BlobError ''trailing bytes'')
     (Inr \<lparr>publicKey = pk, credentialId = cred, kdfSalt = salt, iv = ivb, ciphertext = ct,
           version = ver\<rparr>))))))))))))))))"

subsection \<open>Authenticated data\<close>

definition buildAad :: "'a wallet_blob_fields_scheme \<Rightarrow> string \<Rightarrow> blob_error + bytes" where
  "buildAad header rpId =
     (let rp = utf8ToBytes rpId; info = utf8ToBytes HKDF_INFO_LABEL in
      obind (writeU16 (length (credentialId header))) (\<lambda>credLen.
      obind (writeU16 (length rp)) (\<lambda>rpLen.
      obind (writeU16 (length info)) (\<lambda>infoLen.
        Inr (concat_parts
          [BLOB_MAGIC, [BLOB_VERSION], publicKey header, credLen, credentialId header,
           kdfSalt header, rpLen, rp, infoLen, info])))))"

subsection \<open>Sixteen-bit lengths and concatenation\<close>

lemma byte_uint_bounds: "0 \<le> uint (a :: byte)" "uint (a :: byte) < 256"
  using uint_lt2p [of a] by simp_all

lemma u16_of_eq: "u16_of hi lo = 256 * uint hi + uint lo"
proof -
  have "push_bit 8 (ucast hi) OR ucast lo = (push_bit 8 (ucast hi) + ucast lo :: 32 word)"
    by (rule disjunctive_add [symmetric]) (auto simp: bit_simps dest: byte_bits)
  moreover have "uint (push_bit 8 (ucast hi :: 32 word)) = 256 * uint hi"
    using byte_uint_bounds [of hi]
    by (simp add: push_bit_eq_mult uint_word_ariths unsigned_ucast_eq take_bit_int_eq_self)
  moreover have "uint (ucast lo :: 32 word) = uint lo"
    using byte_uint_bounds [of lo] by (simp add: unsigned_ucast_eq take_bit_int_eq_self)
  ultimately have or: "uint (push_bit 8 (ucast hi) OR ucast lo :: 32 word) = 256 * uint hi + uint lo"
    using byte_uint_bounds [of hi] byte_uint_bounds [of lo] by (simp add: uint_word_ariths)
  have "0 \<le> 256 * uint hi + uint lo" "256 * uint hi + uint lo < 2147483648"
    using byte_uint_bounds [of hi] byte_uint_bounds [of lo] by linarith+
  moreover have "(2 :: int) ^ 31 = 2147483648" by simp
  ultimately have "- (2 ^ 31) \<le> 256 * uint hi + uint lo" "256 * uint hi + uint lo < 2 ^ 31"
    by linarith+
  with or show ?thesis
    by (simp add: u16_of_def sint_uint signed_take_bit_int_eq_self)
qed

lemma writeU16_Inr:
  "writeU16 n = Inr w \<longleftrightarrow> n \<le> 65535 \<and> w = [word_of_nat (n div 256), word_of_nat n]"
proof -
  have "ucast (word_of_nat n AND 0xff :: 32 word) = (word_of_nat n :: byte)"
    unfolding mask_lits by (rule bit_word_eqI) (auto simp: bit_simps)
  moreover have "ucast (signed_drop_bit 8 (word_of_nat n :: 32 word) AND 0xff) = (word_of_nat (n div 256) :: byte)"
  proof -
    have "n div 256 = drop_bit 8 n" by (simp add: drop_bit_eq_div)
    then show ?thesis unfolding mask_lits
      by (simp only:) (rule bit_word_eqI, auto simp: bit_simps)
  qed
  ultimately show ?thesis by (auto simp: writeU16_def err_if_def)
qed

lemma writeU16_u16_of:
  "n \<le> 65535 \<Longrightarrow> u16_of (word_of_nat (n div 256)) (word_of_nat n) = int n"
proof -
  assume n: "n \<le> 65535"
  have "uint (word_of_nat (n div 256) :: byte) = int (n div 256)"
    using n by (simp add: unsigned_of_nat take_bit_nat_eq_self flip: of_nat_take_bit)
  moreover have "uint (word_of_nat n :: byte) = int (n mod 256)"
    by (simp add: unsigned_of_nat take_bit_eq_mod flip: of_nat_take_bit)
  ultimately show ?thesis by (simp add: u16_of_eq zdiv_int zmod_int)
qed

lemma u16_bytes_inverse:
  "[hi, lo] = [word_of_nat (nat (u16_of hi lo) div 256), word_of_nat (nat (u16_of hi lo))]"
proof -
  have "nat (u16_of hi lo) = 256 * unat hi + unat lo"
    by (simp add: u16_of_eq nat_add_distrib nat_mult_distrib)
  moreover have "unat lo < 256" using unsigned_less [of lo] by simp
  moreover have "word_of_nat (256 * unat hi + unat lo) = (word_of_nat (unat lo) :: byte)"
    by (subst word_of_nat_eq_iff) (simp add: take_bit_eq_mod)
  ultimately show ?thesis by simp
qed

lemma set_at_zeros:
  "length acc = off \<Longrightarrow> set_at (acc @ replicate k 0) off p = acc @ p @ replicate (k - length p) 0"
  by (simp add: set_at_def)

lemma concat_parts_eq [simp]: "concat_parts ps = concat ps"
proof -
  have len: "foldl (\<lambda>n p. n + length p) m ps = m + length (concat ps)" for m :: nat and ps :: "bytes list"
    by (induction ps arbitrary: m) auto
  have "fst (foldl (\<lambda>(out, off) p. (set_at out off p, off + length p))
          (acc @ replicate (length (concat ps)) 0, length acc) ps) = acc @ concat ps" for acc and ps :: "bytes list"
  proof (induction ps arbitrary: acc)
    case (Cons p ps)
    from Cons [of "acc @ p"] show ?case by (simp add: set_at_zeros)
  qed simp
  from this [of "[]" ps] show ?thesis by (simp add: concat_parts_def len)
qed

subsection \<open>The reader's contract\<close>

text \<open>
  What the decoder relies on: a reader in a good state stands for the bytes still to be read, and a
  read either fails or takes its bytes off the front of them.
\<close>

locale byte_reader =
  fixes new :: "bytes \<Rightarrow> 'r"
    and good :: "'r \<Rightarrow> bool"
    and rest :: "'r \<Rightarrow> bytes"
    and get :: "'r \<Rightarrow> int \<Rightarrow> 'e + bytes \<times> 'r"
    and get8 :: "'r \<Rightarrow> 'e + byte \<times> 'r"
    and get16 :: "'r \<Rightarrow> 'e + int \<times> 'r"
    and at_end :: "'r \<Rightarrow> bool"
  assumes good_new: "good (new b)" and rest_new: "rest (new b) = b"
    and get_fwd: "good r \<Longrightarrow> rest r = x @ y \<Longrightarrow> n = int (length x) \<Longrightarrow>
        \<exists>r'. get r n = Inr (x, r') \<and> good r' \<and> rest r' = y"
    and get_bwd: "good r \<Longrightarrow> get r n = Inr (x, r') \<Longrightarrow>
        good r' \<and> rest r = x @ rest r' \<and> n = int (length x)"
    and get8_fwd: "good r \<Longrightarrow> rest r = v # y \<Longrightarrow> \<exists>r'. get8 r = Inr (v, r') \<and> good r' \<and> rest r' = y"
    and get8_bwd: "good r \<Longrightarrow> get8 r = Inr (v, r') \<Longrightarrow> good r' \<and> rest r = v # rest r'"
    and get16_fwd: "good r \<Longrightarrow> rest r = hi # lo # y \<Longrightarrow>
        \<exists>r'. get16 r = Inr (u16_of hi lo, r') \<and> good r' \<and> rest r' = y"
    and get16_bwd: "good r \<Longrightarrow> get16 r = Inr (k, r') \<Longrightarrow>
        \<exists>hi lo. good r' \<and> rest r = hi # lo # rest r' \<and> k = u16_of hi lo"
    and at_end_iff: "good r \<Longrightarrow> at_end r \<longleftrightarrow> rest r = []"
begin

text \<open>A length written by \<open>writeU16\<close> is read back, and a length read was written so.\<close>

lemma get16_written:
  assumes "good r" "writeU16 n = Inr w" "rest r = w @ y"
  shows "\<exists>r'. get16 r = Inr (int n, r') \<and> good r' \<and> rest r' = y"
  using assms get16_fwd [of r "word_of_nat (n div 256)" "word_of_nat n" y]
  by (auto simp: writeU16_Inr writeU16_u16_of)

lemma get16_was_written:
  assumes "good r" "get16 r = Inr (k, r')" "k \<le> 65535"
  shows "\<exists>w. writeU16 (nat k) = Inr w \<and> good r' \<and> rest r = w @ rest r'"
proof -
  from get16_bwd [OF assms(1,2)] obtain hi lo
    where "good r'" "rest r = hi # lo # rest r'" "k = u16_of hi lo" by auto
  with assms(3) u16_bytes_inverse [of hi lo] show ?thesis
    by (auto simp: writeU16_Inr)
qed

end

lemma drop_Suc_tl: "drop (Suc n) xs = tl (drop n xs)"
  by (simp add: drop_Suc tl_drop)

definition rd_good :: "reader \<Rightarrow> bool" where
  "rd_good r \<longleftrightarrow> rd_o r \<le> length (rd_b r)"

definition rd_rest :: "reader \<Rightarrow> bytes" where
  "rd_rest r = drop (rd_o r) (rd_b r)"

interpretation rdr: byte_reader rd_new rd_good rd_rest rd_bytes rd_u8 rd_u16 rd_atEnd
proof unfold_locales
  fix r n x r' y
  assume good: "rd_good r"
  {
    assume "rd_rest r = x @ y" "n = int (length x)"
    moreover from this have "length x \<le> length (rd_b r) - rd_o r"
      by (metis length_append length_drop le_add1 rd_rest_def)
    ultimately show "\<exists>r'. rd_bytes r n = Inr (x, r') \<and> rd_good r' \<and> rd_rest r' = y"
      using good by (auto simp: rd_bytes_def rd_need_def rd_good_def rd_rest_def err_if_def
          add.commute simp flip: drop_drop)
  next
    assume "rd_bytes r n = Inr (x, r')"
    then show "rd_good r' \<and> rd_rest r = x @ rd_rest r' \<and> n = int (length x)"
      using good by (auto simp: rd_bytes_def rd_need_def rd_good_def rd_rest_def err_if_def
          add.commute simp flip: drop_drop split: if_splits)
  }
next
  fix r v y r'
  assume good: "rd_good r"
  {
    assume *: "rd_rest r = v # y"
    then have "rd_o r < length (rd_b r)" by (metis drop_all list.distinct(1) not_less rd_rest_def)
    moreover from * have "rd_b r ! rd_o r = v" by (simp add: rd_rest_def nth_via_drop)
    moreover from * have "drop (Suc (rd_o r)) (rd_b r) = y" by (simp add: rd_rest_def drop_Suc_tl)
    ultimately show "\<exists>r'. rd_u8 r = Inr (v, r') \<and> rd_good r' \<and> rd_rest r' = y"
      by (auto simp: rd_u8_def rd_need_def rd_good_def rd_rest_def err_if_def)
  next
    assume "rd_u8 r = Inr (v, r')"
    then show "rd_good r' \<and> rd_rest r = v # rd_rest r'"
      by (auto simp: rd_u8_def rd_need_def rd_good_def rd_rest_def err_if_def Cons_nth_drop_Suc split: if_splits)
  }
next
  fix r hi lo y k r'
  assume good: "rd_good r"
  {
    assume *: "rd_rest r = hi # lo # y"
    then have "length (rd_b r) - rd_o r = Suc (Suc (length y))"
      by (metis length_Cons length_drop rd_rest_def)
    moreover from * have "rd_b r ! rd_o r = hi" by (simp add: rd_rest_def nth_via_drop)
    moreover from * have "drop (Suc (rd_o r)) (rd_b r) = lo # y" by (simp add: rd_rest_def drop_Suc_tl)
    moreover from this have "rd_b r ! Suc (rd_o r) = lo" "drop (Suc (Suc (rd_o r))) (rd_b r) = y"
      by (simp_all add: nth_via_drop drop_Suc_tl [of "Suc (rd_o r)"])
    ultimately show "\<exists>r'. rd_u16 r = Inr (u16_of hi lo, r') \<and> rd_good r' \<and> rd_rest r' = y"
      by (auto simp: rd_u16_def rd_need_def rd_good_def rd_rest_def err_if_def)
  next
    assume "rd_u16 r = Inr (k, r')"
    then show "\<exists>hi lo. rd_good r' \<and> rd_rest r = hi # lo # rd_rest r' \<and> k = u16_of hi lo"
      by (auto simp: rd_u16_def rd_need_def rd_good_def rd_rest_def err_if_def Cons_nth_drop_Suc
          intro!: exI split: if_splits)
  }
qed (auto simp: rd_good_def rd_new_def rd_rest_def rd_atEnd_def)

subsection \<open>Encoding and decoding\<close>

lemma encodeWalletBlob_Inr:
  "encodeWalletBlob f = Inr b \<longleftrightarrow>
     length (publicKey f) = 32 \<and> length (kdfSalt f) = 32 \<and> length (iv f) = 12 \<and>
     length (ciphertext f) = 48 \<and> credentialId f \<noteq> [] \<and> length (credentialId f) \<le> 256 \<and>
     (\<exists>cl xl. writeU16 (length (credentialId f)) = Inr cl \<and> writeU16 48 = Inr xl \<and>
        b = BLOB_MAGIC @ BLOB_VERSION # publicKey f @ cl @ credentialId f @ kdfSalt f @ iv f @ xl @ ciphertext f)"
  by (auto simp: encodeWalletBlob_def result_simps signer_sizes EXPECTED_CIPHERTEXT_BYTES_def)

lemma length_BLOB_MAGIC [simp]: "length BLOB_MAGIC = 4"
  by (simp add: BLOB_MAGIC_def)

lemma encodeWalletBlob_length:
  "encodeWalletBlob f = Inr b \<Longrightarrow> length b = 133 + length (credentialId f)"
  by (auto simp: encodeWalletBlob_Inr writeU16_Inr)

lemma decodeWalletBlob_encoded:
  assumes "encodeWalletBlob (p :: parsed_wallet_blob) = Inr b" "version p = BLOB_VERSION"
  shows "decodeWalletBlob b = Inr p"
proof -
  from assms(1) obtain cl xl where len: "length (publicKey p) = 32" "length (kdfSalt p) = 32" "length (iv p) = 12"
      "length (ciphertext p) = 48" "credentialId p \<noteq> []" "length (credentialId p) \<le> 256"
    and cl: "writeU16 (length (credentialId p)) = Inr cl" and xl: "writeU16 48 = Inr xl"
    and b: "b = BLOB_MAGIC @ BLOB_VERSION # publicKey p @ cl @ credentialId p @ kdfSalt p @ iv p @ xl @ ciphertext p"
    by (auto simp: encodeWalletBlob_Inr)
  have "rd_rest (rd_new b) = BLOB_MAGIC @ BLOB_VERSION # publicKey p @ cl @ credentialId p @ kdfSalt p @ iv p @ xl @ ciphertext p"
    by (simp add: rdr.rest_new b)
  from rdr.get_fwd [OF rdr.good_new this, of 4] obtain r1 where 1: "rd_bytes (rd_new b) 4 = Inr (BLOB_MAGIC, r1)"
    "rd_good r1" "rd_rest r1 = BLOB_VERSION # publicKey p @ cl @ credentialId p @ kdfSalt p @ iv p @ xl @ ciphertext p"
    by auto
  from rdr.get8_fwd [OF 1(2,3)] obtain r2 where 2: "rd_u8 r1 = Inr (BLOB_VERSION, r2)"
    "rd_good r2" "rd_rest r2 = publicKey p @ cl @ credentialId p @ kdfSalt p @ iv p @ xl @ ciphertext p" by auto
  from rdr.get_fwd [OF 2(2,3), of 32] len obtain r3 where 3: "rd_bytes r2 32 = Inr (publicKey p, r3)"
    "rd_good r3" "rd_rest r3 = cl @ credentialId p @ kdfSalt p @ iv p @ xl @ ciphertext p" by auto
  from rdr.get16_written [OF 3(2) cl 3(3)] obtain r4 where 4: "rd_u16 r3 = Inr (int (length (credentialId p)), r4)"
    "rd_good r4" "rd_rest r4 = credentialId p @ kdfSalt p @ iv p @ xl @ ciphertext p" by auto
  from rdr.get_fwd [OF 4(2,3) refl] obtain r5 where 5: "rd_bytes r4 (int (length (credentialId p))) = Inr (credentialId p, r5)"
    "rd_good r5" "rd_rest r5 = kdfSalt p @ iv p @ xl @ ciphertext p" by auto
  from rdr.get_fwd [OF 5(2,3), of 32] len obtain r6 where 6: "rd_bytes r5 32 = Inr (kdfSalt p, r6)"
    "rd_good r6" "rd_rest r6 = iv p @ xl @ ciphertext p" by auto
  from rdr.get_fwd [OF 6(2,3), of 12] len obtain r7 where 7: "rd_bytes r6 12 = Inr (iv p, r7)"
    "rd_good r7" "rd_rest r7 = xl @ ciphertext p" by auto
  from rdr.get16_written [OF 7(2) xl 7(3)] obtain r8 where 8: "rd_u16 r7 = Inr (48, r8)"
    "rd_good r8" "rd_rest r8 = ciphertext p @ []" by auto
  from rdr.get_fwd [OF 8(2,3), of 48] len obtain r9 where 9: "rd_bytes r8 48 = Inr (ciphertext p, r9)"
    "rd_good r9" "rd_rest r9 = []" by auto
  from encodeWalletBlob_length [OF assms(1)] len
  have "\<not> length b < 4 + 1 + 32 + 2 + 1 + 32 + 12 + 2 + EXPECTED_CIPHERTEXT_BYTES" "\<not> length b > MAX_BLOB_BYTES"
    by (simp_all add: EXPECTED_CIPHERTEXT_BYTES_def MAX_BLOB_BYTES_def)
  then show ?thesis
    using 1(1) 2(1) 3(1) 4(1) 5(1) 6(1) 7(1) 8(1) 9 len assms(2)
    by (simp add: decodeWalletBlob_def signer_sizes EXPECTED_CIPHERTEXT_BYTES_def rdr.at_end_iff not_less
        bytesEqual_iff)
qed

lemma decodeWalletBlob_was_encoded:
  assumes "decodeWalletBlob b = Inr p"
  shows "version p = BLOB_VERSION" and "encodeWalletBlob p = Inr b"
proof -
  from assms obtain r1 r2 r3 r4 r5 r6 r7 r8 r9 k c
    where d: "rd_bytes (rd_new b) 4 = Inr (BLOB_MAGIC, r1)" "rd_u8 r1 = Inr (BLOB_VERSION, r2)"
      "rd_bytes r2 32 = Inr (publicKey p, r3)" "rd_u16 r3 = Inr (k, r4)" "1 \<le> k" "k \<le> 256"
      "rd_bytes r4 k = Inr (credentialId p, r5)" "rd_bytes r5 32 = Inr (kdfSalt p, r6)"
      "rd_bytes r6 12 = Inr (iv p, r7)" "rd_u16 r7 = Inr (48, r8)" "rd_bytes r8 48 = Inr (ciphertext p, r9)"
      "rd_atEnd r9" and v: "version p = BLOB_VERSION"
    by (auto simp: decodeWalletBlob_def result_simps signer_sizes EXPECTED_CIPHERTEXT_BYTES_def
        bytesEqual_iff not_less)
  show "version p = BLOB_VERSION" by (rule v)
  note 1 = rdr.get_bwd [OF rdr.good_new d(1)]
  note 2 = rdr.get8_bwd [OF 1 [THEN conjunct1] d(2)]
  note 3 = rdr.get_bwd [OF 2 [THEN conjunct1] d(3)]
  from rdr.get16_was_written [OF 3 [THEN conjunct1] d(4)] d(6) obtain cl
    where 4: "writeU16 (nat k) = Inr cl" "rd_good r4" "rd_rest r3 = cl @ rd_rest r4" by auto
  note 5 = rdr.get_bwd [OF 4(2) d(7)]
  note 6 = rdr.get_bwd [OF 5 [THEN conjunct1] d(8)]
  note 7 = rdr.get_bwd [OF 6 [THEN conjunct1] d(9)]
  from rdr.get16_was_written [OF 7 [THEN conjunct1] d(10)] obtain xl
    where 8: "writeU16 48 = Inr xl" "rd_good r8" "rd_rest r7 = xl @ rd_rest r8" by auto
  note 9 = rdr.get_bwd [OF 8(2) d(11)]
  have "rd_rest r9 = []" using 9 d(12) rdr.at_end_iff by blast
  then show "encodeWalletBlob p = Inr b"
    using 1 2 3 4 5 6 7 8 9 d(5,6) by (auto simp: encodeWalletBlob_Inr rdr.rest_new)
qed

text \<open>
  C38: The wallet-blob decoder accepts a byte string exactly when it is the encoding of the fields it
  returns, at the one supported version: every encoded wallet is read back unchanged, and no second
  byte string (wrong magic or version, other lengths, truncation, trailing bytes) is accepted for the
  same wallet.
\<close>
theorem decodeWalletBlob_iff_encoded:
  "decodeWalletBlob b = Inr p \<longleftrightarrow> version p = BLOB_VERSION \<and> encodeWalletBlob p = Inr b"
  using decodeWalletBlob_encoded decodeWalletBlob_was_encoded by blast

subsection \<open>What the authenticated data binds\<close>

lemma small_byte_eq: "m < 256 \<Longrightarrow> n < 256 \<Longrightarrow> (word_of_nat m :: byte) = word_of_nat n \<longleftrightarrow> m = n"
  by (simp add: word_of_nat_eq_iff take_bit_nat_eq_self)

lemma of_char_less: "(of_char c :: nat) < 256"
  using of_char_mod_256 [of c] by (metis mod_less_divisor zero_less_numeral)

lemma utf8_char_append_inj:
  assumes "utf8_char a @ x = utf8_char b @ y"
  shows "a = b \<and> x = y"
proof -
  define m n where "m = (of_char a :: nat)" and "n = (of_char b :: nat)"
  have mn: "m < 256" "n < 256" by (simp_all add: m_def n_def of_char_less)
  have div: "m div 64 < 4" "n div 64 < 4" using mn by simp_all
  have "a = b \<longleftrightarrow> m = n" by (simp add: m_def n_def)
  moreover have "m = n \<longleftrightarrow> m div 64 = n div 64 \<and> m mod 64 = n mod 64"
    by (metis mult_div_mod_eq)
  ultimately show ?thesis
    using assms mn div
    by (auto simp: utf8_char_def Let_def small_byte_eq simp flip: m_def n_def simp del: of_nat_add split: if_splits)
qed

lemma utf8ToBytes_inj: "utf8ToBytes s = utf8ToBytes t \<Longrightarrow> s = t"
proof (induction s arbitrary: t)
  case Nil
  then show ?case by (cases t) (auto simp: utf8ToBytes_def utf8_char_def Let_def split: if_splits)
next
  case (Cons a s)
  show ?case
  proof (cases t)
    case Nil
    with Cons.prems show ?thesis by (auto simp: utf8ToBytes_def utf8_char_def Let_def split: if_splits)
  next
    case (Cons b t')
    with Cons.prems have "utf8_char a @ utf8ToBytes s = utf8_char b @ utf8ToBytes t'"
      by (simp add: utf8ToBytes_def)
    with utf8_char_append_inj Cons.IH Cons show ?thesis by blast
  qed
qed

lemma writeU16_inj: "writeU16 m = Inr w \<Longrightarrow> writeU16 n = Inr w \<Longrightarrow> m = n"
  by (metis of_nat_eq_iff writeU16_Inr writeU16_u16_of list.inject)

text \<open>A field written as its length and its bytes can be taken off a byte string in one way only.\<close>

lemma prefixed_inj:
  assumes "writeU16 (length a) = Inr wa" "writeU16 (length b) = Inr wb" "wa @ a @ x = wb @ b @ y"
  shows "a = b \<and> x = y"
proof -
  from assms(1,2) have "length wa = length wb" by (auto simp: writeU16_Inr)
  with assms(3) have "wa = wb" "a @ x = b @ y" by simp_all
  moreover from this assms(1,2) writeU16_inj have "length a = length b" by blast
  ultimately show ?thesis by simp
qed

lemma buildAad_determines:
  assumes "buildAad f rp = Inr aad" "buildAad g rq = Inr aad"
    and "length (publicKey f) = length (publicKey g)" "length (kdfSalt f) = length (kdfSalt g)"
  shows "publicKey f = publicKey g \<and> credentialId f = credentialId g \<and> kdfSalt f = kdfSalt g \<and> rp = rq"
proof -
  from assms(1) obtain w1 r1 l1 where f: "writeU16 (length (credentialId f)) = Inr w1"
      "writeU16 (length (utf8ToBytes rp)) = Inr r1"
      "aad = BLOB_MAGIC @ BLOB_VERSION # publicKey f @ w1 @ credentialId f @ kdfSalt f @ r1 @ utf8ToBytes rp @ l1"
    by (auto simp: buildAad_def result_simps Let_def)
  from assms(2) obtain w2 r2 l2 where g: "writeU16 (length (credentialId g)) = Inr w2"
      "writeU16 (length (utf8ToBytes rq)) = Inr r2"
      "aad = BLOB_MAGIC @ BLOB_VERSION # publicKey g @ w2 @ credentialId g @ kdfSalt g @ r2 @ utf8ToBytes rq @ l2"
    by (auto simp: buildAad_def result_simps Let_def)
  from f(3) g(3) assms(3) have pk: "publicKey f = publicKey g"
    and "w1 @ credentialId f @ kdfSalt f @ r1 @ utf8ToBytes rp @ l1 =
         w2 @ credentialId g @ kdfSalt g @ r2 @ utf8ToBytes rq @ l2" by simp_all
  from prefixed_inj [OF f(1) g(1) this(2)] assms(4) have cred: "credentialId f = credentialId g"
    and salt: "kdfSalt f = kdfSalt g"
    and "r1 @ utf8ToBytes rp @ l1 = r2 @ utf8ToBytes rq @ l2" by simp_all
  from prefixed_inj [OF f(2) g(2) this(3)] utf8ToBytes_inj have "rp = rq" by blast
  with pk cred salt show ?thesis by simp
qed

text \<open>
  The authenticated data of two wallet blobs with keys and salts of the same size is the same only
  when the public key, the credential id, the salt and the RP ID are: a ciphertext cannot be moved to
  another wallet, another passkey or another relying party without its authentication failing.
\<close>
theorem buildAad_binds_header:
  assumes "buildAad f rp = Inr aad" and "buildAad g rq = Inr aad"
    and "length (publicKey f) = length (publicKey g)" and "length (kdfSalt f) = length (kdfSalt g)"
  shows "publicKey f = publicKey g \<and> credentialId f = credentialId g \<and> kdfSalt f = kdfSalt g \<and> rp = rq"
  using assms by (rule buildAad_determines)

definition sample_fields :: wallet_blob_fields where
  "sample_fields = \<lparr>publicKey = replicate 32 7, credentialId = [1, 2, 3], kdfSalt = replicate 32 9,
     iv = replicate 12 0, ciphertext = replicate 48 5\<rparr>"

lemma buildAad_defined:
  "length (credentialId f) \<le> 65535 \<Longrightarrow> length (utf8ToBytes rp) \<le> 65535 \<Longrightarrow> \<exists>aad. buildAad f rp = Inr aad"
  by (auto simp: buildAad_def result_simps writeU16_Inr Let_def HKDF_INFO_LABEL_def utf8ToBytes_def
      utf8_char_def)

theorem buildAad_binds_header_witness:
  "\<exists>aad. buildAad sample_fields ''localhost'' = Inr aad \<and>
     (\<forall>rq. buildAad sample_fields rq = Inr aad \<longrightarrow> rq = ''localhost'')"
proof -
  obtain aad where "buildAad sample_fields ''localhost'' = Inr aad"
    using buildAad_defined [of sample_fields "''localhost''"]
    by (auto simp: sample_fields_def utf8ToBytes_def utf8_char_def)
  then show ?thesis
    using buildAad_binds_header [of sample_fields "''localhost''" aad sample_fields] by blast
qed

end
