(* ===== verification/SignerIO.thy ===== *)
theory SignerIO
  imports SignerState TxPolicy WalletFormat
begin

text \<open>
  The effects of the signer's asynchronous code.  A program is a function on the \<open>world\<close>: the
  \<open>SignerState\<close> object, the clock, local storage, the random tape, the buffers that hold secrets,
  the dismissal flags of the busy screens, the messages posted to the parent, the summaries shown to
  the user, the requests sent to the API, and the list of responses the surroundings still have to give.

  Every \<open>await\<close> on the surroundings (a dialog, an authenticator, a network call) takes the next
  response.  While it waits, messages from the parent arrive and are dispatched, and the user may
  dismiss the busy screen; both are part of the response, so every interleaving the event loop allows
  is some list of responses.  When none is left the program is \<open>Blocked\<close>: it waits for ever.

  Secrets are references into \<open>w_bufs\<close>, so that zeroing one (\<open>fill0\<close>, the code's \<open>fill(0)\<close> and
  \<open>scrub\<close>) is visible through every alias, as in JavaScript.

  \<open>wp\<close> is the weakest precondition of a program for its four kinds of end.  Its rules are simp rules,
  so that properties of the handlers are computed from their code.
\<close>

datatype exn = ServiceErr error_code | WebAuthnUnsupported | DomErr string | OtherErr

record http_response =
  h_status :: nat
  h_json :: "js option"

record message_event =
  ev_origin :: string
  ev_from_parent :: bool
  ev_data :: js

record discoverable =
  d_credentialId :: bytes
  d_prfOutput :: bytes
  d_assertion :: js

record response =
  r_now :: int
  r_arrivals :: "message_event list"
  r_dismiss :: bool
  r_confirm :: bool
  r_retry :: bool
  r_prf :: "exn + bytes"
  r_enrol :: "exn + bytes \<times> bytes"
  r_disc :: "exn + discoverable"
  r_http :: "http_response option"
  r_http2 :: "http_response option"

record byte_store =
  bs_getItem :: "(string \<rightharpoonup> string) \<Rightarrow> string \<Rightarrow> string option option"
  bs_setItem :: "string \<Rightarrow> string \<Rightarrow> (string \<rightharpoonup> string) \<Rightarrow> (string \<rightharpoonup> string) option"

text \<open>
  The build's settings and the code outside the repository: \<open>@solana/kit\<close>, number texts, WebCrypto
  and the Ed25519 library (\<open>None\<close>: the call throws), and the storage object, if there is one.
\<close>

record env =
  e_kit :: kit
  e_parentOrigin :: string
  e_rpId :: string
  e_numText :: "rat \<Rightarrow> string"
  e_Number :: "js \<Rightarrow> rat option"
  e_sha256 :: "bytes \<Rightarrow> bytes"
  e_hkdf :: "bytes \<Rightarrow> bytes \<Rightarrow> bytes \<Rightarrow> bytes"
  e_aesEncrypt :: "bytes \<Rightarrow> bytes \<Rightarrow> bytes \<Rightarrow> bytes \<Rightarrow> bytes"
  e_aesDecrypt :: "bytes \<Rightarrow> bytes \<Rightarrow> bytes \<Rightarrow> bytes \<Rightarrow> bytes option"
  e_edPublicKey :: "bytes \<Rightarrow> bytes option"
  e_edSign :: "bytes \<Rightarrow> bytes \<Rightarrow> bytes option"
  e_store :: "byte_store option"

datatype secret_kind = Seed | Prf | ExportedKey

record world =
  w_st :: signer_state
  w_now :: int
  w_items :: "string \<rightharpoonup> string"
  w_tape :: "nat \<Rightarrow> byte"
  w_pos :: nat
  w_bufs :: "(secret_kind \<times> bytes) list"
  w_flags :: "bool list"
  w_dismiss :: "(nat \<times> string) option"
  w_posts :: "(string \<times> js) list list"
  w_shown :: "transaction_summary list"
  w_sent :: "(string \<times> (string \<times> js) list) list"
  w_in :: "response list"

datatype 'a res = Ret 'a | Throw exn | Blocked

type_synonym 'a io = "world \<Rightarrow> 'a res \<times> world"

subsection \<open>Programs\<close>

definition ret :: "'a \<Rightarrow> 'a io" where
  "ret x = (\<lambda>w. (Ret x, w))"

definition throw :: "exn \<Rightarrow> 'a io" where
  "throw e = (\<lambda>w. (Throw e, w))"

definition bindM :: "'a io \<Rightarrow> ('a \<Rightarrow> 'b io) \<Rightarrow> 'b io" where
  "bindM m f = (\<lambda>w. case m w of (Ret x, w') \<Rightarrow> f x w' | (Throw e, w') \<Rightarrow> (Throw e, w') | (Blocked, w') \<Rightarrow> (Blocked, w'))"

definition catchM :: "'a io \<Rightarrow> (exn \<Rightarrow> 'a io) \<Rightarrow> 'a io" where
  "catchM m h = (\<lambda>w. case m w of (Ret x, w') \<Rightarrow> (Ret x, w') | (Throw e, w') \<Rightarrow> h e w' | (Blocked, w') \<Rightarrow> (Blocked, w'))"

text \<open>\<open>try { m } finally { f }\<close> for a clean-up that does not throw.\<close>

definition finallyM :: "'a io \<Rightarrow> (world \<Rightarrow> world) \<Rightarrow> 'a io" where
  "finallyM m f = (\<lambda>w. case m w of (Ret x, w') \<Rightarrow> (Ret x, f w') | (Throw e, w') \<Rightarrow> (Throw e, f w') | (Blocked, w') \<Rightarrow> (Blocked, w'))"

definition attempt :: "'a io \<Rightarrow> (exn + 'a) io" where
  "attempt m = catchM (bindM m (\<lambda>x. ret (Inr x))) (\<lambda>e. ret (Inl e))"

definition modify :: "(world \<Rightarrow> world) \<Rightarrow> unit io" where
  "modify f = (\<lambda>w. (Ret (), f w))"

definition gets :: "(world \<Rightarrow> 'a) \<Rightarrow> 'a io" where
  "gets f = (\<lambda>w. (Ret (f w), w))"

text \<open>A computation that throws when it has no result.\<close>

definition lift_opt :: "exn \<Rightarrow> 'a option \<Rightarrow> 'a io" where
  "lift_opt e v = (case v of None \<Rightarrow> throw e | Some x \<Rightarrow> ret x)"

definition lift_sum :: "('e \<Rightarrow> exn) \<Rightarrow> 'e + 'a \<Rightarrow> 'a io" where
  "lift_sum g v = (case v of Inl e \<Rightarrow> throw (g e) | Inr x \<Rightarrow> ret x)"

text \<open>A request to the API, logged with its path and body; its response is awaited separately.\<close>

definition send :: "string \<Rightarrow> (string \<times> js) list \<Rightarrow> unit io" where
  "send path payload = modify (\<lambda>w. w\<lparr>w_sent := w_sent w @ [(path, payload)]\<rparr>)"

subsection \<open>Posting and the listener\<close>

definition post_w :: "(string \<times> js) list \<Rightarrow> world \<Rightarrow> world" where
  "post_w msg w = w\<lparr>w_posts := w_posts w @ [msg]\<rparr>"

definition fail_w :: "string option \<Rightarrow> error_code \<Rightarrow> world \<Rightarrow> world" where
  "fail_w rid code w = post_w (errorResponse rid code) w"

definition fail :: "string \<Rightarrow> error_code \<Rightarrow> unit io" where
  "fail rid code = modify (fail_w (Some rid) code)"

definition ok_msg :: "string \<Rightarrow> string \<Rightarrow> (string \<times> js) list \<Rightarrow> (string \<times> js) list" where
  "ok_msg rid typ extra = [(''type'', JString typ), (''requestId'', JString rid)] @ extra"

definition ok :: "string \<Rightarrow> string \<Rightarrow> (string \<times> js) list \<Rightarrow> unit io" where
  "ok rid typ extra = modify (post_w (ok_msg rid typ extra))"

text \<open>The \<open>message\<close> listener up to the call of \<open>handle\<close>.\<close>

definition listen :: "env \<Rightarrow> message_event \<Rightarrow> world \<Rightarrow> inbound_request option \<times> world" where
  "listen E ev w =
     (if ev_origin ev \<noteq> e_parentOrigin E then (None, w)
      else if \<not> ev_from_parent ev then (None, w)
      else case validateInbound (e_numText E) (ev_data ev) of
        VFail code rid \<Rightarrow> (None, fail_w rid code w)
      | VOk request \<Rightarrow>
     (case checkFreshnessAndReplay (w_st w) (w_now w) (requestId request) (timestamp request) of
        Some code \<Rightarrow> (None, fail_w (Some (requestId request)) code w)
      | None \<Rightarrow> (Some request, w\<lparr>w_st := remember (requestId request) (w_st w)\<rparr>)))"

fun op_for :: "request_body \<Rightarrow> operation_state" where
  "op_for (AuthStart _ _ _) = AUTH_PENDING"
| "op_for (SignTransaction _) = SIGN_PENDING"
| "op_for ExportPrivateKey = PRIVATE_EXPORT_PENDING"

text \<open>The start of \<open>handle\<close>: the request becomes the active operation, or is refused.\<close>

definition handle_begin :: "inbound_request \<Rightarrow> world \<Rightarrow> bool \<times> world" where
  "handle_begin request w =
     (let (began, st) = begin_op (op_for (body request)) (requestId request) (w_st w) in
      if began then (True, w\<lparr>w_st := st\<rparr>)
      else (False, fail_w (Some (requestId request)) INTERNAL_ERROR w))"

text \<open>A message that arrives while a flow is waiting; \<open>arrival_refused\<close> shows it never begins one.\<close>

definition arrive :: "env \<Rightarrow> message_event \<Rightarrow> world \<Rightarrow> world" where
  "arrive E ev w =
     (case listen E ev w of
        (None, w') \<Rightarrow> w'
      | (Some request, w') \<Rightarrow> snd (handle_begin request w'))"

subsection \<open>Busy screens\<close>

definition beginBusy :: "string \<Rightarrow> nat io" where
  "beginBusy rid = (\<lambda>w. (Ret (length (w_flags w)),
     w\<lparr>w_flags := w_flags w @ [False], w_dismiss := Some (length (w_flags w), rid)\<rparr>))"

definition wasDismissed :: "nat \<Rightarrow> bool io" where
  "wasDismissed i = gets (\<lambda>w. w_flags w ! i)"

definition busy_clear :: "world \<Rightarrow> world" where
  "busy_clear w = w\<lparr>w_dismiss := None\<rparr>"

definition user_dismiss :: "world \<Rightarrow> world" where
  "user_dismiss w =
     (case w_dismiss w of
        None \<Rightarrow> w
      | Some (i, rid) \<Rightarrow>
          let w = w\<lparr>w_dismiss := None\<rparr> in
          if w_flags w ! i then w
          else fail_w (Some rid) USER_CANCELLED (w\<lparr>w_flags := (w_flags w)[i := True]\<rparr>))"

text \<open>What happens while the code awaits \<open>r\<close>.\<close>

definition meanwhile :: "env \<Rightarrow> response \<Rightarrow> world \<Rightarrow> world" where
  "meanwhile E r w =
     (let w = foldl (\<lambda>w ev. arrive E ev w) (w\<lparr>w_now := r_now r\<rparr>) (r_arrivals r) in
      if r_dismiss r then user_dismiss w else w)"

text \<open>An \<open>await\<close>, one whose promise can be rejected, and one whose value is not the surroundings'.\<close>

definition await :: "env \<Rightarrow> (response \<Rightarrow> 'a) \<Rightarrow> 'a io" where
  "await E f = (\<lambda>w. case w_in w of
      [] \<Rightarrow> (Blocked, w)
    | r # rs \<Rightarrow> (Ret (f r), meanwhile E r (w\<lparr>w_in := rs\<rparr>)))"

definition await_or_throw :: "env \<Rightarrow> (response \<Rightarrow> exn + 'a) \<Rightarrow> 'a io" where
  "await_or_throw E f = bindM (await E f) (\<lambda>r. lift_sum (\<lambda>e. e) r)"

definition pause :: "env \<Rightarrow> unit io" where
  "pause E = await E (\<lambda>_. ())"

subsection \<open>Secrets\<close>

definition new_buf :: "secret_kind \<Rightarrow> bytes \<Rightarrow> nat io" where
  "new_buf kind b = (\<lambda>w. (Ret (length (w_bufs w)), w\<lparr>w_bufs := w_bufs w @ [(kind, b)]\<rparr>))"

definition read_buf :: "nat \<Rightarrow> bytes io" where
  "read_buf i = gets (\<lambda>w. snd (w_bufs w ! i))"

definition fill0_w :: "nat \<Rightarrow> world \<Rightarrow> world" where
  "fill0_w i w = w\<lparr>w_bufs := (w_bufs w)[i := (fst (w_bufs w ! i), replicate (length (snd (w_bufs w ! i))) 0)]\<rparr>"

definition fill0 :: "nat \<Rightarrow> unit io" where
  "fill0 i = modify (fill0_w i)"

definition randomBytes :: "nat \<Rightarrow> bytes io" where
  "randomBytes n = (\<lambda>w. (Ret (map (w_tape w) [w_pos w..<w_pos w + n]), w\<lparr>w_pos := w_pos w + n\<rparr>))"

subsection \<open>Weakest preconditions\<close>

definition wp :: "'a io \<Rightarrow> ('a \<Rightarrow> world \<Rightarrow> bool) \<Rightarrow> (exn \<Rightarrow> world \<Rightarrow> bool) \<Rightarrow> (world \<Rightarrow> bool) \<Rightarrow> world \<Rightarrow> bool" where
  "wp m Q X B w = (case m w of (Ret x, w') \<Rightarrow> Q x w' | (Throw e, w') \<Rightarrow> X e w' | (Blocked, w') \<Rightarrow> B w')"

named_theorems wps \<open>weakest precondition rules\<close>

lemma wp_ret [wps]: "wp (ret x) Q X B = Q x"
  by (rule ext) (simp add: wp_def ret_def)

lemma wp_throw [wps]: "wp (throw e) Q X B = X e"
  by (rule ext) (simp add: wp_def throw_def)

lemma wp_bindM [wps]: "wp (bindM m f) Q X B = wp m (\<lambda>x. wp (f x) Q X B) X B"
  by (rule ext) (auto simp: wp_def bindM_def split: res.splits prod.splits)

lemma wp_catchM [wps]: "wp (catchM m h) Q X B = wp m Q (\<lambda>e. wp (h e) Q X B) B"
  by (rule ext) (auto simp: wp_def catchM_def split: res.splits prod.splits)

lemma wp_finallyM [wps]:
  "wp (finallyM m f) Q X B = wp m (\<lambda>x w. Q x (f w)) (\<lambda>e w. X e (f w)) B"
  by (rule ext) (auto simp: wp_def finallyM_def split: res.splits prod.splits)

lemma wp_attempt [wps]: "wp (attempt m) Q X B = wp m (\<lambda>x. Q (Inr x)) (\<lambda>e. Q (Inl e)) B"
  by (simp add: attempt_def wps)

lemma wp_modify [wps]: "wp (modify f) Q X B = (\<lambda>w. Q () (f w))"
  by (rule ext) (simp add: wp_def modify_def)

lemma wp_gets [wps]: "wp (gets f) Q X B = (\<lambda>w. Q (f w) w)"
  by (rule ext) (simp add: wp_def gets_def)

lemma wp_lift_opt [wps]:
  "wp (lift_opt e v) Q X B = (case v of None \<Rightarrow> X e | Some x \<Rightarrow> Q x)"
  by (simp add: lift_opt_def wps split: option.splits)

lemma wp_lift_sum [wps]:
  "wp (lift_sum g v) Q X B = (case v of Inl e \<Rightarrow> X (g e) | Inr x \<Rightarrow> Q x)"
  by (simp add: lift_sum_def wps split: sum.splits)

lemma wp_fail [wps]: "wp (fail rid code) Q X B = (\<lambda>w. Q () (fail_w (Some rid) code w))"
  by (simp add: fail_def wps)

lemma wp_ok [wps]: "wp (ok rid typ extra) Q X B = (\<lambda>w. Q () (post_w (ok_msg rid typ extra) w))"
  by (simp add: ok_def wps)

lemma wp_beginBusy [wps]:
  "wp (beginBusy rid) Q X B = (\<lambda>w. Q (length (w_flags w))
     (w\<lparr>w_flags := w_flags w @ [False], w_dismiss := Some (length (w_flags w), rid)\<rparr>))"
  by (rule ext) (simp add: wp_def beginBusy_def)

lemma wp_wasDismissed [wps]: "wp (wasDismissed i) Q X B = (\<lambda>w. Q (w_flags w ! i) w)"
  by (simp add: wasDismissed_def wps)

lemma wp_await:
  "wp (await E f) Q X B =
     (\<lambda>w. case w_in w of [] \<Rightarrow> B w | r # rs \<Rightarrow> Q (f r) (meanwhile E r (w\<lparr>w_in := rs\<rparr>)))"
  by (rule ext) (simp add: wp_def await_def split: list.splits)

lemma wp_new_buf [wps]:
  "wp (new_buf kind b) Q X B = (\<lambda>w. Q (length (w_bufs w)) (w\<lparr>w_bufs := w_bufs w @ [(kind, b)]\<rparr>))"
  by (rule ext) (simp add: wp_def new_buf_def)

lemma wp_read_buf [wps]: "wp (read_buf i) Q X B = (\<lambda>w. Q (snd (w_bufs w ! i)) w)"
  by (simp add: read_buf_def wps)

lemma wp_fill0 [wps]: "wp (fill0 i) Q X B = (\<lambda>w. Q () (fill0_w i w))"
  by (simp add: fill0_def wps)

lemma wp_randomBytes [wps]:
  "wp (randomBytes n) Q X B =
     (\<lambda>w. Q (map (w_tape w) [w_pos w..<w_pos w + n]) (w\<lparr>w_pos := w_pos w + n\<rparr>))"
  by (rule ext) (simp add: wp_def randomBytes_def)

lemma wp_pause [wps]: "wp (pause E) Q X B = wp (await E (\<lambda>_. ())) Q X B"
  by (simp add: pause_def)

lemma wp_await_or_throw [wps]:
  "wp (await_or_throw E f) Q X B = wp (await E f) (\<lambda>r. case r of Inl e \<Rightarrow> X e | Inr x \<Rightarrow> Q x) X B"
  by (rule ext) (simp add: await_or_throw_def wp_bindM wp_lift_sum)

lemma wp_send [wps]: "wp (send path payload) Q X B = (\<lambda>w. Q () (w\<lparr>w_sent := w_sent w @ [(path, payload)]\<rparr>))"
  by (simp add: send_def wp_modify)

lemma wp_if [wps]: "wp (if b then m else m') Q X B = (if b then wp m Q X B else wp m' Q X B)"
  by simp

lemma wp_mono:
  assumes "wp m Q X B w" "\<And>x w. Q x w \<Longrightarrow> Q' x w" "\<And>e w. X e w \<Longrightarrow> X' e w" "\<And>w. B w \<Longrightarrow> B' w"
  shows "wp m Q' X' B' w"
  using assms by (auto simp: wp_def split: res.splits prod.splits)

lemma wp_conj:
  "wp m Q X B w \<Longrightarrow> wp m Q' X' B' w \<Longrightarrow>
     wp m (\<lambda>x w. Q x w \<and> Q' x w) (\<lambda>e w. X e w \<and> X' e w) (\<lambda>w. B w \<and> B' w) w"
  by (auto simp: wp_def split: res.splits prod.splits)

lemma wp_result: "wp m Q X B w \<Longrightarrow> m w = (Ret x, w') \<Longrightarrow> Q x w'"
  by (simp add: wp_def)

subsection \<open>What a wait can change\<close>

text \<open>
  A message or a dismissal changes the replay memory, the posted messages and the dismissal flags,
  and nothing else; while a flow is active it changes of the signer's state only the replay memory.
\<close>

lemma post_w_frame [simp]:
  "w_st (post_w m w) = w_st w" "w_now (post_w m w) = w_now w" "w_items (post_w m w) = w_items w"
  "w_tape (post_w m w) = w_tape w" "w_pos (post_w m w) = w_pos w" "w_bufs (post_w m w) = w_bufs w"
  "w_flags (post_w m w) = w_flags w" "w_dismiss (post_w m w) = w_dismiss w"
  "w_shown (post_w m w) = w_shown w" "w_sent (post_w m w) = w_sent w" "w_in (post_w m w) = w_in w"
  "w_posts (post_w m w) = w_posts w @ [m]"
  by (simp_all add: post_w_def)

lemma fail_w_frame [simp]:
  "w_st (fail_w r c w) = w_st w" "w_now (fail_w r c w) = w_now w" "w_items (fail_w r c w) = w_items w"
  "w_tape (fail_w r c w) = w_tape w" "w_pos (fail_w r c w) = w_pos w" "w_bufs (fail_w r c w) = w_bufs w"
  "w_flags (fail_w r c w) = w_flags w" "w_dismiss (fail_w r c w) = w_dismiss w"
  "w_shown (fail_w r c w) = w_shown w" "w_sent (fail_w r c w) = w_sent w" "w_in (fail_w r c w) = w_in w"
  "w_posts (fail_w r c w) = w_posts w @ [errorResponse r c]"
  by (simp_all add: fail_w_def)

definition is_error :: "(string \<times> js) list \<Rightarrow> bool" where
  "is_error msg \<longleftrightarrow> jget msg ''type'' = JString ''ERROR''"

lemma errorResponse_is_error [simp]: "is_error (errorResponse r c)"
  by (simp add: is_error_def errorResponse_def jget_def)

text \<open>The relation between the worlds before and after a wait.\<close>

definition waited :: "world \<Rightarrow> world \<Rightarrow> bool" where
  "waited w w' \<longleftrightarrow>
     w_items w' = w_items w \<and> w_tape w' = w_tape w \<and> w_pos w' = w_pos w \<and> w_bufs w' = w_bufs w \<and>
     w_shown w' = w_shown w \<and> w_sent w' = w_sent w \<and> w_in w' = w_in w \<and>
     length (w_flags w') = length (w_flags w) \<and>
     (\<exists>errs. w_posts w' = w_posts w @ errs \<and> list_all is_error errs) \<and>
     (isBusy (w_st w) \<longrightarrow> st_state (w_st w') = st_state (w_st w) \<and>
        st_activeRequestId (w_st w') = st_activeRequestId (w_st w) \<and>
        st_authorization (w_st w') = st_authorization (w_st w)) \<and>
     (state_ok (w_st w) \<longrightarrow> state_ok (w_st w'))"

lemma waited_refl: "waited w w"
  by (simp add: waited_def)

lemma waited_trans: "waited a b \<Longrightarrow> waited b c \<Longrightarrow> waited a c"
  by (auto simp: waited_def isBusy_def)

lemma remember_other [simp]:
  "st_state (remember x s) = st_state s" "st_activeRequestId (remember x s) = st_activeRequestId s"
  "st_authorization (remember x s) = st_authorization s"
  by (simp_all add: remember_def Let_def)

lemma listen_waited: "listen E ev w = (r, w') \<Longrightarrow> waited w w'"
  by (auto simp: listen_def waited_def remember_ok split: if_splits validation_result.splits option.splits)

lemma handle_begin_busy: "isBusy (w_st w) \<Longrightarrow> handle_begin req w = (False, fail_w (Some (requestId req)) INTERNAL_ERROR w)"
  by (simp add: handle_begin_def begin_op_def isBusy_def)

text \<open>While an operation is active, every arriving message is refused or ignored.\<close>

lemma arrival_refused:
  assumes "isBusy (w_st w)" "listen E ev w = (Some request, w')"
  shows "\<not> fst (handle_begin request w')"
  using assms listen_waited [OF assms(2)] by (simp add: waited_def isBusy_def handle_begin_def begin_op_def)

lemma fail_waited: "waited w (fail_w r c w)"
  by (simp add: waited_def)

lemma arrive_waited: "waited w (arrive E ev w)" if "isBusy (w_st w)"
proof (cases "listen E ev w")
  case (Pair r w1)
  with listen_waited have w1: "waited w w1" by blast
  with that have "isBusy (w_st w1)" by (simp add: waited_def isBusy_def)
  with Pair w1 show ?thesis
    by (cases r) (auto simp: arrive_def handle_begin_busy intro: waited_trans fail_waited)
qed

lemma arrivals_waited: "isBusy (w_st w) \<Longrightarrow> waited w (foldl (\<lambda>w ev. arrive E ev w) w evs)"
proof (induction evs arbitrary: w)
  case (Cons ev evs)
  note first = arrive_waited [OF Cons.prems, of E ev]
  with Cons.prems have "isBusy (w_st (arrive E ev w))" by (simp add: waited_def isBusy_def)
  with Cons.IH first show ?case by (auto intro: waited_trans)
qed (simp add: waited_refl)

lemma user_dismiss_waited: "waited w (user_dismiss w)"
  by (auto simp: user_dismiss_def waited_def Let_def split: option.splits)

lemma meanwhile_waited:
  assumes "isBusy (w_st w)"
  shows "waited w (meanwhile E r w)"
proof -
  let ?w0 = "w\<lparr>w_now := r_now r\<rparr>" and ?w1 = "foldl (\<lambda>w ev. arrive E ev w) (w\<lparr>w_now := r_now r\<rparr>) (r_arrivals r)"
  have 0: "waited w ?w0" by (simp add: waited_def)
  have "waited ?w0 ?w1" using assms by (intro arrivals_waited) simp
  with 0 have 1: "waited w ?w1" by (rule waited_trans)
  moreover have "waited ?w1 (user_dismiss ?w1)" by (rule user_dismiss_waited)
  ultimately show ?thesis by (auto simp: meanwhile_def Let_def intro: waited_trans)
qed

lemma meanwhile_frame [simp]:
  "w_bufs (meanwhile E r w) = w_bufs w" "w_tape (meanwhile E r w) = w_tape w"
  "w_pos (meanwhile E r w) = w_pos w" "w_items (meanwhile E r w) = w_items w"
  "w_in (meanwhile E r w) = w_in w"
proof -
  have l: "w_bufs (arrive E ev w) = w_bufs w \<and> w_tape (arrive E ev w) = w_tape w \<and> w_pos (arrive E ev w) = w_pos w \<and>
      w_items (arrive E ev w) = w_items w \<and> w_in (arrive E ev w) = w_in w" for ev w
    by (auto simp: arrive_def listen_def handle_begin_def split: option.splits validation_result.splits prod.splits)
  have "w_bufs (foldl (\<lambda>w ev. arrive E ev w) w evs) = w_bufs w \<and> w_tape (foldl (\<lambda>w ev. arrive E ev w) w evs) = w_tape w \<and>
      w_pos (foldl (\<lambda>w ev. arrive E ev w) w evs) = w_pos w \<and> w_items (foldl (\<lambda>w ev. arrive E ev w) w evs) = w_items w \<and>
      w_in (foldl (\<lambda>w ev. arrive E ev w) w evs) = w_in w" for evs and w
    by (induction evs arbitrary: w) (auto simp: l)
  then show "w_bufs (meanwhile E r w) = w_bufs w" "w_tape (meanwhile E r w) = w_tape w"
    "w_pos (meanwhile E r w) = w_pos w" "w_items (meanwhile E r w) = w_items w"
    "w_in (meanwhile E r w) = w_in w"
    by (auto simp: meanwhile_def Let_def user_dismiss_def split: option.splits)
qed

text \<open>
  The steps of a flow that do not end it: errors may be posted, nothing else is, the active operation
  and its authorization stay, and nothing new is shown to the user.
\<close>

definition steady :: "world \<Rightarrow> world \<Rightarrow> bool" where
  "steady w w' \<longleftrightarrow>
     w_shown w' = w_shown w \<and>
     (\<exists>errs. w_posts w' = w_posts w @ errs \<and> list_all is_error errs) \<and>
     (isBusy (w_st w) \<longrightarrow> st_state (w_st w') = st_state (w_st w) \<and>
        st_activeRequestId (w_st w') = st_activeRequestId (w_st w) \<and>
        st_authorization (w_st w') = st_authorization (w_st w)) \<and>
     (state_ok (w_st w) \<longrightarrow> state_ok (w_st w'))"

lemma steady_refl [simp]: "steady w w"
  by (simp add: steady_def)

lemma steady_trans [trans]: "steady a b \<Longrightarrow> steady b c \<Longrightarrow> steady a c"
  by (auto simp: steady_def isBusy_def)

lemma steady_busy: "steady w w' \<Longrightarrow> isBusy (w_st w) \<Longrightarrow> isBusy (w_st w')"
  by (simp add: steady_def isBusy_def)

lemma steady_meanwhile: "isBusy (w_st w) \<Longrightarrow> steady w (meanwhile E r w)"
  using meanwhile_waited [of w E r] by (auto simp: waited_def steady_def)

lemma steady_fail: "steady w (fail_w r c w)"
  by (simp add: steady_def)

text \<open>Updates of the fields \<open>steady\<close> does not read.\<close>

lemma steady_updates [simp]:
  "steady w (w'\<lparr>w_in := a\<rparr>) = steady w w'" "steady w (w'\<lparr>w_bufs := b\<rparr>) = steady w w'"
  "steady w (w'\<lparr>w_items := c\<rparr>) = steady w w'" "steady w (w'\<lparr>w_pos := d\<rparr>) = steady w w'"
  "steady w (w'\<lparr>w_flags := f\<rparr>) = steady w w'" "steady w (w'\<lparr>w_dismiss := g\<rparr>) = steady w w'"
  "steady w (w'\<lparr>w_sent := h\<rparr>) = steady w w'"
  "steady w (fill0_w i w') = steady w w'" "steady w (busy_clear w') = steady w w'"
  by (simp_all add: steady_def fill0_w_def busy_clear_def)

lemma steady_updates_left [simp]:
  "steady (w\<lparr>w_in := a\<rparr>) w' = steady w w'" "steady (w\<lparr>w_bufs := b\<rparr>) w' = steady w w'"
  "steady (w\<lparr>w_items := c\<rparr>) w' = steady w w'" "steady (w\<lparr>w_pos := d\<rparr>) w' = steady w w'"
  "steady (w\<lparr>w_flags := f\<rparr>) w' = steady w w'" "steady (w\<lparr>w_dismiss := g\<rparr>) w' = steady w w'"
  "steady (w\<lparr>w_sent := h\<rparr>) w' = steady w w'"
  "steady (fill0_w i w) w' = steady w w'" "steady (busy_clear w) w' = steady w w'"
  by (simp_all add: steady_def fill0_w_def busy_clear_def)

lemma fill0_w_frame [simp]:
  "w_st (fill0_w i w) = w_st w" "w_items (fill0_w i w) = w_items w" "w_posts (fill0_w i w) = w_posts w"
  "w_flags (fill0_w i w) = w_flags w" "w_in (fill0_w i w) = w_in w" "w_shown (fill0_w i w) = w_shown w"
  "w_dismiss (fill0_w i w) = w_dismiss w" "w_sent (fill0_w i w) = w_sent w" "w_now (fill0_w i w) = w_now w"
  "w_bufs (fill0_w i w) = (w_bufs w)[i := (fst (w_bufs w ! i), replicate (length (snd (w_bufs w ! i))) 0)]"
  by (simp_all add: fill0_w_def)

lemma busy_clear_frame [simp]:
  "w_st (busy_clear w) = w_st w" "w_items (busy_clear w) = w_items w" "w_posts (busy_clear w) = w_posts w"
  "w_flags (busy_clear w) = w_flags w" "w_in (busy_clear w) = w_in w" "w_shown (busy_clear w) = w_shown w"
  "w_bufs (busy_clear w) = w_bufs w" "w_sent (busy_clear w) = w_sent w" "w_now (busy_clear w) = w_now w"
  by (simp_all add: busy_clear_def)

definition zeroed :: "secret_kind \<times> bytes \<Rightarrow> bool" where
  "zeroed b \<longleftrightarrow> list_all (\<lambda>x. x = 0) (snd b)"

lemma zeroed_replicate [simp]: "zeroed (k, replicate n 0)"
  by (simp add: zeroed_def list_all_iff)

text \<open>One wait of an active flow.\<close>

lemma await_steady:
  assumes "isBusy (w_st w)" and "\<And>r rs w'. w_in w = r # rs \<Longrightarrow> steady w w' \<Longrightarrow> w_bufs w' = w_bufs w \<Longrightarrow>
      w_in w' = rs \<Longrightarrow> w_items w' = w_items w \<Longrightarrow> isBusy (w_st w') \<Longrightarrow> Q (f r) w'"
    and "w_in w = [] \<Longrightarrow> B w"
  shows "wp (await E f) Q X B w"
proof (cases "w_in w")
  case Nil
  with assms(3) show ?thesis by (simp add: wp_await)
next
  case (Cons r rs)
  let ?w = "meanwhile E r (w\<lparr>w_in := rs\<rparr>)"
  have "steady (w\<lparr>w_in := rs\<rparr>) ?w" using assms(1) by (intro steady_meanwhile) simp
  then have "steady w ?w" by (simp add: steady_def)
  with assms(2) [OF Cons this] steady_busy [OF this assms(1)] Cons show ?thesis by (simp add: wp_await)
qed

end
