(* ===== verification/WalletService.thy ===== *)
theory WalletService
  imports SignerIO
begin

text \<open>
  Wallet operations of the signer: \<^verbatim>\<open>secure-signer/src/crypto.ts\<close> and \<^verbatim>\<open>wallet-service.ts\<close> (create,
  unwrap and use the encrypted key), \<^verbatim>\<open>blob-store.ts\<close> (the ciphertext kept in local storage),
  \<^verbatim>\<open>api-backup.ts\<close> (its backup at the API) and \<^verbatim>\<open>user-name.ts\<close> (labels of passkeys).

  The cryptographic functions are arguments; what the theorems assume of them is \<open>aead_correct\<close> (where
  something is decrypted that was encrypted under the same key) and \<open>crypto_documented\<close> (lengths: the tag of
  AES-GCM, and that each 32 bytes are the seed of an Ed25519 key).  The main results: a wallet that was wrapped is unwrapped to the same key under
  the same PRF output, an unwrapped key always belongs to the public key of the blob, and the key and
  PRF buffers are zeroed on every way out except the one that returns the key.
\<close>

subsection \<open>Primitives\<close>

definition deriveWrappingKey :: "env \<Rightarrow> bytes \<Rightarrow> bytes \<Rightarrow> bytes" where
  "deriveWrappingKey E prfOutput salt = e_hkdf E prfOutput salt (utf8ToBytes HKDF_INFO_LABEL)"

definition ed25519PublicKey :: "env \<Rightarrow> bytes \<Rightarrow> bytes option" where
  "ed25519PublicKey E seed =
     (case e_edPublicKey E seed of
        None \<Rightarrow> None
      | Some pub \<Rightarrow> if length pub \<noteq> ED25519_PUBKEY_BYTES then None else Some pub)"

definition generateEd25519Seed :: "nat io" where
  "generateEd25519Seed = bindM (randomBytes 32) (new_buf Seed)"

subsection \<open>The wallet service\<close>

record created_wallet =
  cw_publicKey :: bytes
  cw_blob :: bytes
  cw_signature :: "bytes option"

definition header :: "bytes \<Rightarrow> bytes \<Rightarrow> bytes \<Rightarrow> wallet_blob_fields" where
  "header pk cred salt = \<lparr>publicKey = pk, credentialId = cred, kdfSalt = salt, iv = [], ciphertext = []\<rparr>"

text \<open>The two halves of the \<open>try\<close> block of \<open>wrapNewSeed\<close>, split at the encoding of the blob.\<close>

definition seal_wallet :: "env \<Rightarrow> wallet_blob_fields \<Rightarrow> bytes option \<Rightarrow> nat \<Rightarrow> created_wallet io" where
  "seal_wallet E flds messageToSign seed =
     bindM (lift_sum (\<lambda>_. OtherErr) (encodeWalletBlob flds)) (\<lambda>blob.
     case messageToSign of
       None \<Rightarrow> ret \<lparr>cw_publicKey = publicKey flds, cw_blob = blob, cw_signature = None\<rparr>
     | Some m \<Rightarrow>
         bindM (read_buf seed) (\<lambda>sk.
         bindM (lift_opt OtherErr (e_edSign E m sk)) (\<lambda>sig.
         ret \<lparr>cw_publicKey = publicKey flds, cw_blob = blob, cw_signature = Some sig\<rparr>)))"

definition wrap_seed ::
  "env \<Rightarrow> nat \<Rightarrow> bytes \<Rightarrow> string \<Rightarrow> bytes option \<Rightarrow> nat \<Rightarrow> created_wallet io" where
  "wrap_seed E prfOutput credId rpId messageToSign seed =
     bindM (read_buf seed) (\<lambda>sk.
     bindM (lift_opt OtherErr (ed25519PublicKey E sk)) (\<lambda>pk.
     bindM (randomBytes KDF_SALT_BYTES) (\<lambda>salt.
     bindM (randomBytes AES_GCM_IV_BYTES) (\<lambda>ivb.
     bindM (read_buf prfOutput) (\<lambda>prf.
     bindM (pause E) (\<lambda>_.
     bindM (lift_sum (\<lambda>_. OtherErr) (buildAad (header pk credId salt) rpId)) (\<lambda>aad.
     bindM (read_buf seed) (\<lambda>sk.
     bindM (pause E) (\<lambda>_.
     seal_wallet E \<lparr>publicKey = pk, credentialId = credId, kdfSalt = salt, iv = ivb,
         ciphertext = e_aesEncrypt E (deriveWrappingKey E prf salt) ivb sk aad\<rparr> messageToSign seed)))))))))"

definition wrapNewSeed :: "env \<Rightarrow> nat \<Rightarrow> bytes \<Rightarrow> string \<Rightarrow> bytes option \<Rightarrow> created_wallet io" where
  "wrapNewSeed E prfOutput credId rpId messageToSign =
     bindM generateEd25519Seed (\<lambda>seed.
       finallyM (wrap_seed E prfOutput credId rpId messageToSign seed) (fill0_w seed))"

definition createWallet :: "env \<Rightarrow> string \<Rightarrow> bytes option \<Rightarrow> created_wallet io" where
  "createWallet E rpId messageToSign =
     bindM (await_or_throw E r_enrol) (\<lambda>(credId, prf).
     bindM (new_buf Prf prf) (\<lambda>prfOutput.
     finallyM (wrapNewSeed E prfOutput credId rpId messageToSign) (fill0_w prfOutput)))"

definition enrollExistingCredential ::
  "env \<Rightarrow> string \<Rightarrow> bytes \<Rightarrow> bytes option \<Rightarrow> created_wallet io" where
  "enrollExistingCredential E rpId credId messageToSign =
     bindM (await_or_throw E r_prf) (\<lambda>prf.
     bindM (new_buf Prf prf) (\<lambda>prfOutput.
     finallyM (wrapNewSeed E prfOutput credId rpId messageToSign) (fill0_w prfOutput)))"

definition parseBlob :: "bytes \<Rightarrow> exn + parsed_wallet_blob" where
  "parseBlob blob =
     (case decodeWalletBlob blob of Inl _ \<Rightarrow> Inl (ServiceErr INVALID_WALLET_BLOB) | Inr p \<Rightarrow> Inr p)"

text \<open>The part of \<open>unwrapWallet\<close> after the key and the authenticated data are known.\<close>

definition open_wallet :: "env \<Rightarrow> bytes \<Rightarrow> parsed_wallet_blob \<Rightarrow> bytes \<Rightarrow> (nat \<times> bytes) io" where
  "open_wallet E key parsed aad =
     bindM (lift_opt (ServiceErr DECRYPTION_FAILED)
       (e_aesDecrypt E key (iv parsed) (ciphertext parsed) aad)) (\<lambda>sk.
     bindM (new_buf Seed sk) (\<lambda>seed.
     bindM (lift_opt OtherErr (ed25519PublicKey E sk)) (\<lambda>pk.
     if \<not> bytesEqual pk (publicKey parsed) then
       bindM (fill0 seed) (\<lambda>_. throw (ServiceErr WALLET_MISMATCH))
     else ret (seed, pk))))"

definition unwrapWallet :: "env \<Rightarrow> nat \<Rightarrow> parsed_wallet_blob \<Rightarrow> string \<Rightarrow> (nat \<times> bytes) io" where
  "unwrapWallet E prfOutput parsed rpId =
     bindM (read_buf prfOutput) (\<lambda>prf.
     bindM (pause E) (\<lambda>_.
     bindM (lift_sum (\<lambda>_. OtherErr) (buildAad parsed rpId)) (\<lambda>aad.
     bindM (pause E) (\<lambda>_.
     open_wallet E (deriveWrappingKey E prf (kdfSalt parsed)) parsed aad))))"

definition decryptWallet :: "env \<Rightarrow> string \<Rightarrow> parsed_wallet_blob \<Rightarrow> (nat \<times> bytes) io" where
  "decryptWallet E rpId parsed =
     bindM (attempt (await_or_throw E r_prf)) (\<lambda>got.
     case got of
       Inl _ \<Rightarrow> throw (ServiceErr AUTHENTICATION_FAILED)
     | Inr prf \<Rightarrow>
         bindM (new_buf Prf prf) (\<lambda>prfOutput.
         finallyM (unwrapWallet E prfOutput parsed rpId) (fill0_w prfOutput)))"

definition signAndScrub :: "env \<Rightarrow> bytes \<Rightarrow> nat \<Rightarrow> bytes io" where
  "signAndScrub E messageBytes seed =
     finallyM (bindM (read_buf seed) (\<lambda>sk. lift_opt OtherErr (e_edSign E messageBytes sk))) (fill0_w seed)"

subsection \<open>The local blob\<close>

definition LOCAL_BLOB_KEY :: string where "LOCAL_BLOB_KEY = ''ssw1.wallet.blob''"

definition bytesToBinary :: "bytes \<Rightarrow> string" where
  "bytesToBinary bs = map (\<lambda>b. char_of (unat b)) bs"

definition binaryToBytes :: "string \<Rightarrow> bytes" where
  "binaryToBytes s = map (\<lambda>c. word_of_nat (of_char c) AND 0xff) s"

definition readLocalBlob ::
  "byte_store option \<Rightarrow> (string \<rightharpoonup> string) \<Rightarrow> (bytes \<times> parsed_wallet_blob) option" where
  "readLocalBlob store items =
     (case store of
        None \<Rightarrow> None
      | Some st \<Rightarrow>
     (case bs_getItem st items LOCAL_BLOB_KEY of
        Some (Some rawStr) \<Rightarrow>
          if rawStr = '''' then None
          else (let raw = binaryToBytes rawStr in
            if length raw > MAX_BLOB_BYTES then None
            else case parseBlob raw of Inl _ \<Rightarrow> None | Inr parsed \<Rightarrow> Some (raw, parsed))
      | _ \<Rightarrow> None))"

definition writeLocalBlob ::
  "byte_store option \<Rightarrow> bytes \<Rightarrow> (string \<rightharpoonup> string) \<Rightarrow> bool \<times> (string \<rightharpoonup> string)" where
  "writeLocalBlob store raw items =
     (case store of
        None \<Rightarrow> (False, items)
      | Some st \<Rightarrow>
     (case parseBlob raw of
        Inl _ \<Rightarrow> (False, items)
      | Inr _ \<Rightarrow>
          (let encoded = bytesToBinary raw in
           case bs_setItem st LOCAL_BLOB_KEY encoded items of
             None \<Rightarrow> (False, items)
           | Some items' \<Rightarrow> (bs_getItem st items' LOCAL_BLOB_KEY = Some (Some encoded), items'))))"

definition read_local :: "env \<Rightarrow> (bytes \<times> parsed_wallet_blob) option io" where
  "read_local E = gets (\<lambda>w. readLocalBlob (e_store E) (w_items w))"

definition write_local :: "env \<Rightarrow> bytes \<Rightarrow> bool io" where
  "write_local E raw = (\<lambda>w. case writeLocalBlob (e_store E) raw (w_items w) of
     (b, items) \<Rightarrow> (Ret b, w\<lparr>w_items := items\<rparr>))"

lemma wp_read_local [wps]:
  "wp (read_local E) Q X B = (\<lambda>w. Q (readLocalBlob (e_store E) (w_items w)) w)"
  by (simp add: read_local_def wps)

lemma wp_write_local [wps]:
  "wp (write_local E raw) Q X B = (\<lambda>w. case writeLocalBlob (e_store E) raw (w_items w) of
     (b, items) \<Rightarrow> Q b (w\<lparr>w_items := items\<rparr>))"
  by (rule ext) (simp add: wp_def write_local_def split: prod.splits)

subsection \<open>The API backup\<close>

text \<open>A property read: it throws on \<open>null\<close> and \<open>undefined\<close>, and is \<open>undefined\<close> on other non-objects.\<close>

definition js_prop :: "js \<Rightarrow> string \<Rightarrow> js option" where
  "js_prop v k = (case v of JUndefined \<Rightarrow> None | JNull \<Rightarrow> None | JObject ps \<Rightarrow> Some (jget ps k) | _ \<Rightarrow> Some JUndefined)"

definition http_ok :: "http_response \<Rightarrow> bool" where
  "http_ok r \<longleftrightarrow> 200 \<le> h_status r \<and> h_status r \<le> 299"

text \<open>\<open>postJson\<close>: every failure is an \<open>Error\<close> the callers do not look into.\<close>

definition postJson :: "http_response option \<Rightarrow> js option" where
  "postJson res = (case res of None \<Rightarrow> None | Some r \<Rightarrow> if \<not> http_ok r then None else h_json r)"

definition nonempty_string :: "js option \<Rightarrow> string option" where
  "nonempty_string v = (case v of Some (JString s) \<Rightarrow> if s = '''' then None else Some s | _ \<Rightarrow> None)"

definition challenge_of :: "http_response option \<Rightarrow> exn + string \<times> string" where
  "challenge_of res =
     (case postJson res of
        None \<Rightarrow> Inl OtherErr
      | Some b \<Rightarrow>
     (case (nonempty_string (js_prop b ''challengeId''), nonempty_string (js_prop b ''challenge'')) of
        (Some i, Some c) \<Rightarrow> Inr (i, c)
      | _ \<Rightarrow> Inl OtherErr))"

definition issueBackupChallenge :: "env \<Rightarrow> (string \<times> string) io" where
  "issueBackupChallenge E =
     bindM (send ''/owner-wallet/blob/backup-challenge'' []) (\<lambda>_. await_or_throw E (\<lambda>r. challenge_of (r_http r)))"

definition issueRestoreChallenge :: "env \<Rightarrow> (string \<times> string) io" where
  "issueRestoreChallenge E =
     bindM (send ''/owner-wallet/blob/restore-challenge'' []) (\<lambda>_. await_or_throw E (\<lambda>r. challenge_of (r_http r)))"

text \<open>The encrypted blob of a restored wallet; no caller reads the public key beside it.\<close>

definition restored_of :: "http_response option \<Rightarrow> exn + string option" where
  "restored_of res =
     (case res of
        None \<Rightarrow> Inl OtherErr
      | Some r \<Rightarrow>
          if h_status r = 404 then Inr None
          else if \<not> http_ok r then Inl OtherErr
          else case Option.bind (h_json r) (\<lambda>b. nonempty_string (js_prop b ''encryptedWalletBlob'')) of
            None \<Rightarrow> Inl OtherErr
          | Some s \<Rightarrow> if length s > MAX_BLOB_BYTES * 2 then Inl OtherErr else Inr (Some s))"

definition restoreOwnerWalletBlob :: "env \<Rightarrow> string \<Rightarrow> js \<Rightarrow> string option io" where
  "restoreOwnerWalletBlob E challengeId assertion =
     bindM (send ''/owner-wallet/blob/restore'' [(''challengeId'', JString challengeId), (''assertion'', assertion)])
       (\<lambda>_. await_or_throw E (\<lambda>r. restored_of (r_http r)))"

definition expires_of :: "env \<Rightarrow> http_response option \<Rightarrow> exn + rat" where
  "expires_of E res =
     (case res of
        None \<Rightarrow> Inl OtherErr
      | Some r \<Rightarrow>
          if \<not> http_ok r then Inl OtherErr
          else case Option.bind (h_json r) (\<lambda>b. js_prop b ''expiresAt'') of
            None \<Rightarrow> Inl OtherErr
          | Some v \<Rightarrow> Inr (case e_Number E v of None \<Rightarrow> 0 | Some q \<Rightarrow> q))"

definition backupOwnerWalletBlob ::
  "env \<Rightarrow> string \<Rightarrow> string \<Rightarrow> string \<Rightarrow> string \<Rightarrow> string option \<Rightarrow> rat io" where
  "backupOwnerWalletBlob E blob pk challengeId signature attestation =
     bindM (send ''/owner-wallet/blob''
         ([(''encryptedWalletBlob'', JString blob), (''publicKey'', JString pk),
           (''challengeId'', JString challengeId), (''signature'', JString signature)] @
          (case attestation of Some a \<Rightarrow> if a = [] then [] else [(''webauthnAttestationObject'', JString a)] | None \<Rightarrow> [])))
       (\<lambda>_. await_or_throw E (\<lambda>r. expires_of E (r_http r)))"

subsection \<open>Passkey labels\<close>

definition USER_NAME_MIN :: nat where "USER_NAME_MIN = 3"
definition USER_NAME_MAX :: nat where "USER_NAME_MAX = 32"

definition user_name_char :: "char \<Rightarrow> bool" where
  "user_name_char c \<longleftrightarrow>
     (let n = of_char c :: nat in 97 \<le> n \<and> n \<le> 122 \<or> 65 \<le> n \<and> n \<le> 90 \<or> 48 \<le> n \<and> n \<le> 57) \<or>
     c \<in> {CHR ''.'', CHR ''_'', CHR ''-''}"

definition validateUserName :: "string \<Rightarrow> string + string" where
  "validateUserName raw =
     (let userName = trim raw in
      if length userName < USER_NAME_MIN then Inl (''Use at least '' @ nat_text USER_NAME_MIN @ '' characters.'')
      else if length userName > USER_NAME_MAX then Inl (''Use at most '' @ nat_text USER_NAME_MAX @ '' characters.'')
      else if \<not> (userName \<noteq> [] \<and> list_all user_name_char userName)
        then Inl ''Use letters, numbers, dots, underscores, or hyphens.''
      else Inr userName)"

subsection \<open>What is assumed of the cryptography\<close>

text \<open>Authenticated encryption: decryption inverts encryption, and the tag has 16 bytes.\<close>

definition aead_correct :: "env \<Rightarrow> bool" where
  "aead_correct E \<longleftrightarrow>
     (\<forall>k i p a. e_aesDecrypt E k i (e_aesEncrypt E k i p a) a = Some p \<and>
        length (e_aesEncrypt E k i p a) = length p + 16)"

text \<open>Every 32-byte seed has a public key (\<open>getPublicKey\<close> of noble takes any 32 bytes).\<close>

definition keypair_total :: "env \<Rightarrow> bool" where
  "keypair_total E \<longleftrightarrow> (\<forall>s. length s = 32 \<longrightarrow> ed25519PublicKey E s \<noteq> None)"

text \<open>
  What is documented of WebCrypto's AES-GCM and of noble, and all that the flows below rely on: a
  ciphertext is 16 bytes (the tag) longer than its plaintext, whatever the key and whatever bytes were
  given as the ciphertext, and every 32-byte seed has a public key.
\<close>

definition crypto_documented :: "env \<Rightarrow> bool" where
  "crypto_documented E \<longleftrightarrow>
     (\<forall>k i c a s. e_aesDecrypt E k i c a = Some s \<longrightarrow> length c = length s + 16) \<and> keypair_total E"

text \<open>The blob decoder takes ciphertexts of 48 bytes only, so what they decrypt to is a seed of 32 bytes.\<close>

lemma decoded_ciphertext_length: "decodeWalletBlob raw = Inr p \<Longrightarrow> length (ciphertext p) = 48"
  using decodeWalletBlob_was_encoded(2) [of raw p] by (simp add: encodeWalletBlob_Inr)

lemma parsed_ciphertext_length: "parseBlob raw = Inr p \<Longrightarrow> length (ciphertext p) = 48"
  by (rule decoded_ciphertext_length) (simp add: parseBlob_def split: sum.splits)

lemma local_ciphertext_length: "readLocalBlob store items = Some (raw, p) \<Longrightarrow> length (ciphertext p) = 48"
  by (auto simp: readLocalBlob_def Let_def intro: parsed_ciphertext_length split: option.splits if_splits sum.splits)

lemma decrypted_is_seed:
  assumes "crypto_documented E" "length (ciphertext p) = 48" "e_aesDecrypt E k i (ciphertext p) a = Some s"
  shows "\<exists>pk. ed25519PublicKey E s = Some pk"
proof -
  from assms have "length (ciphertext p) = length s + 16" unfolding crypto_documented_def by blast
  with assms(2) have "length s = 32" by simp
  with assms(1) show ?thesis by (auto simp: crypto_documented_def keypair_total_def)
qed

subsection \<open>Specifications of the service\<close>

text \<open>
  The two ways an unlock ends: with the key of the blob's public key as the only secret left, or with
  an error and no secret left.
\<close>

definition unlocked :: "env \<Rightarrow> world \<Rightarrow> parsed_wallet_blob \<Rightarrow> nat \<times> bytes \<Rightarrow> world \<Rightarrow> bool" where
  "unlocked E w p = (\<lambda>(ref, pk) w'. steady w w' \<and> isBusy (w_st w') \<and> w_items w' = w_items w \<and> pk = publicKey p \<and>
     (\<exists>bs sk. w_bufs w' = w_bufs w @ bs @ [(Seed, sk)] \<and> list_all zeroed bs \<and> ref = length (w_bufs w @ bs) \<and>
        ed25519PublicKey E sk = Some pk))"

definition locked :: "world \<Rightarrow> world \<Rightarrow> bool" where
  "locked w w' \<longleftrightarrow> steady w w' \<and> isBusy (w_st w') \<and> w_items w' = w_items w \<and>
     (\<exists>bs. w_bufs w' = w_bufs w @ bs \<and> list_all zeroed bs)"

lemma lockedI [intro]: "steady w w' \<Longrightarrow> isBusy (w_st w') \<Longrightarrow> w_items w' = w_items w \<Longrightarrow> w_bufs w' = w_bufs w \<Longrightarrow> locked w w'"
  by (simp add: locked_def)

lemma open_wallet_spec:
  assumes "crypto_documented E" "length (ciphertext p) = 48" and w: "steady w w2" "isBusy (w_st w2)" "w_bufs w2 = w_bufs w" "w_items w2 = w_items w"
  shows "wp (open_wallet E key p aad) (unlocked E w p) (\<lambda>_. locked w) (steady w) w2"
proof (cases "e_aesDecrypt E key (iv p) (ciphertext p) aad")
  case None
  with w show ?thesis by (auto simp: open_wallet_def wps)
next
  case (Some sk)
  then obtain pk where pk: "ed25519PublicKey E sk = Some pk" using decrypted_is_seed [OF assms(1,2)] by blast
  with Some w show ?thesis
    by (auto simp: open_wallet_def wps unlocked_def locked_def intro: exI [of _ "[]"])
qed

lemma unwrapWallet_spec:
  assumes "isBusy (w_st w)" "crypto_documented E" "length (ciphertext p) = 48"
  shows "wp (unwrapWallet E i p rp) (unlocked E w p) (\<lambda>_. locked w) (steady w) w"
  unfolding unwrapWallet_def wps
proof (rule await_steady [OF assms(1)])
  fix w1 assume w1: "steady w w1" "w_bufs w1 = w_bufs w" "w_items w1 = w_items w" "isBusy (w_st w1)"
  show "(case buildAad p rp of Inl e \<Rightarrow> locked w
      | Inr aad \<Rightarrow> wp (await E (\<lambda>_. ())) (\<lambda>_. wp (open_wallet E (deriveWrappingKey E (snd (w_bufs w ! i)) (kdfSalt p)) p aad)
          (unlocked E w p) (\<lambda>_. locked w) (steady w)) (\<lambda>_. locked w) (steady w)) w1"
  proof (cases "buildAad p rp")
    case (Inr aad)
    have "wp (await E (\<lambda>_. ())) (\<lambda>_. wp (open_wallet E (deriveWrappingKey E (snd (w_bufs w ! i)) (kdfSalt p)) p aad)
        (unlocked E w p) (\<lambda>_. locked w) (steady w)) (\<lambda>_. locked w) (steady w) w1"
      by (rule await_steady [OF w1(4)], rule open_wallet_spec [OF assms(2,3)])
        (use w1 in \<open>auto intro: steady_trans\<close>)
    with Inr show ?thesis by simp
  qed (use w1 in auto)
qed simp

lemma decryptWallet_spec:
  assumes "isBusy (w_st w)" "crypto_documented E" "length (ciphertext p) = 48"
  shows "wp (decryptWallet E rp p) (unlocked E w p) (\<lambda>_. locked w) (steady w) w"
  unfolding decryptWallet_def wps
proof (rule await_steady [OF assms(1)])
  fix r w1 assume w1: "steady w w1" "w_bufs w1 = w_bufs w" "w_items w1 = w_items w" "isBusy (w_st w1)"
  show "(case r_prf r of
         Inl e \<Rightarrow> wp (case Inl e of Inl x \<Rightarrow> throw (ServiceErr AUTHENTICATION_FAILED)
            | Inr prf \<Rightarrow> bindM (new_buf Prf prf) (\<lambda>i. finallyM (unwrapWallet E i p rp) (fill0_w i)))
            (unlocked E w p) (\<lambda>_. locked w) (steady w)
       | Inr x \<Rightarrow> wp (case Inr x of Inl x \<Rightarrow> throw (ServiceErr AUTHENTICATION_FAILED)
            | Inr prf \<Rightarrow> bindM (new_buf Prf prf) (\<lambda>i. finallyM (unwrapWallet E i p rp) (fill0_w i)))
            (unlocked E w p) (\<lambda>_. locked w) (steady w)) w1"
  proof (cases "r_prf r")
    case (Inr pr)
    let ?w2 = "w1\<lparr>w_bufs := w_bufs w1 @ [(Prf, pr)]\<rparr>"
    have "wp (unwrapWallet E (length (w_bufs w1)) p rp) (unlocked E ?w2 p) (\<lambda>_. locked ?w2) (steady ?w2) ?w2"
      using w1 assms(2,3) by (intro unwrapWallet_spec) simp_all
    then have "wp (unwrapWallet E (length (w_bufs w1)) p rp)
        (\<lambda>x w'. unlocked E w p x (fill0_w (length (w_bufs w1)) w'))
        (\<lambda>_ w'. locked w (fill0_w (length (w_bufs w1)) w')) (steady w) ?w2"
    proof (rule wp_mono)
      fix x w' assume "unlocked E ?w2 p x w'"
      moreover have "steady w ?w2" using w1 by simp
      ultimately show "unlocked E w p x (fill0_w (length (w_bufs w1)) w')"
        using w1 by (auto simp: unlocked_def nth_append intro: steady_trans)
    next
      fix e w' assume "locked ?w2 w'"
      moreover have "steady w ?w2" using w1 by simp
      ultimately show "locked w (fill0_w (length (w_bufs w1)) w')"
        using w1 by (auto simp: locked_def nth_append intro: steady_trans)
    next
      fix w' assume "steady ?w2 w'"
      with w1 show "steady w w'" by (auto intro: steady_trans)
    qed
    with Inr show ?thesis by (simp add: wps)
  qed (use w1 in \<open>auto simp: wps\<close>)
qed simp

text \<open>What a wrapped wallet is made of.\<close>

definition wrapped :: "env \<Rightarrow> bytes \<Rightarrow> bytes \<Rightarrow> string \<Rightarrow> bytes option \<Rightarrow> bytes \<Rightarrow> created_wallet \<Rightarrow> bool" where
  "wrapped E pr cred rp msg sk c \<longleftrightarrow>
     (\<exists>salt ivb aad. ed25519PublicKey E sk = Some (cw_publicKey c) \<and>
        buildAad (header (cw_publicKey c) cred salt) rp = Inr aad \<and>
        encodeWalletBlob \<lparr>publicKey = cw_publicKey c, credentialId = cred, kdfSalt = salt, iv = ivb,
          ciphertext = e_aesEncrypt E (deriveWrappingKey E pr salt) ivb sk aad\<rparr> = Inr (cw_blob c)) \<and>
     cw_signature c = Option.bind msg (\<lambda>m. e_edSign E m sk) \<and> (cw_signature c = None \<longleftrightarrow> msg = None)"

lemma wrap_seed_spec:
  assumes "isBusy (w_st w)"
  shows "wp (wrap_seed E i cred rp msg seed)
    (\<lambda>c w'. wrapped E (snd (w_bufs w ! i)) cred rp msg (snd (w_bufs w ! seed)) c \<and> locked w w' \<and> w_bufs w' = w_bufs w)
    (\<lambda>_ w'. locked w w' \<and> w_bufs w' = w_bufs w) (\<lambda>_. True) w"
    (is "wp _ ?Q ?X ?B w")
proof (cases "ed25519PublicKey E (snd (w_bufs w ! seed))")
  case None
  with assms show ?thesis by (auto simp: wrap_seed_def wps)
next
  case (Some pk)
  let ?salt = "map (w_tape w) [w_pos w..<w_pos w + KDF_SALT_BYTES]"
  let ?w0 = "w\<lparr>w_pos := w_pos w + KDF_SALT_BYTES + AES_GCM_IV_BYTES\<rparr>"
  let ?iv = "map (w_tape w) [w_pos w + KDF_SALT_BYTES..<w_pos w + KDF_SALT_BYTES + AES_GCM_IV_BYTES]"
  let ?f = "\<lambda>aad w1. \<lparr>publicKey = pk, credentialId = cred, kdfSalt = ?salt, iv = ?iv,
      ciphertext = e_aesEncrypt E (deriveWrappingKey E (snd (w_bufs w ! i)) ?salt) ?iv (snd (w_bufs w1 ! seed)) aad\<rparr>"
  show ?thesis
  proof (cases "buildAad (header pk cred ?salt) rp")
    case (Inl e)
    have "wp (await E (\<lambda>_. ())) (\<lambda>_. ?X OtherErr) ?X ?B ?w0"
      by (rule await_steady) (use assms in auto)
    with Some Inl show ?thesis by (simp add: wrap_seed_def wps add.assoc)
  next
    case (Inr aad)
    have "wp (await E (\<lambda>_. ())) (\<lambda>_ w1. wp (await E (\<lambda>_. ())) (\<lambda>_. wp (seal_wallet E (?f aad w1) msg seed) ?Q ?X ?B) ?X ?B w1)
        ?X ?B ?w0"
    proof (rule await_steady)
      show "isBusy (w_st ?w0)" using assms by simp
      fix w1 assume w1: "steady ?w0 w1" "w_bufs w1 = w_bufs ?w0" "w_items w1 = w_items ?w0" "isBusy (w_st w1)"
      show "wp (await E (\<lambda>_. ())) (\<lambda>_. wp (seal_wallet E (?f aad w1) msg seed) ?Q ?X ?B) ?X ?B w1"
      proof (rule await_steady [OF w1(4)])
        fix w2 assume "steady w1 w2" "w_bufs w2 = w_bufs w1" "w_items w2 = w_items w1" "isBusy (w_st w2)"
        with w1 have w2: "locked w w2" "w_bufs w2 = w_bufs w" by (auto intro: steady_trans)
        show "wp (seal_wallet E (?f aad w1) msg seed) ?Q ?X ?B w2"
          using Inr Some w1 w2 by (auto simp: seal_wallet_def wps wrapped_def split: sum.splits option.splits)
      qed simp
    qed simp
    with Some Inr show ?thesis by (simp add: wrap_seed_def wps add.assoc)
  qed
qed

lemma wrapNewSeed_spec:
  assumes "isBusy (w_st w)" "i < length (w_bufs w)"
  shows "wp (wrapNewSeed E i cred rp msg)
    (\<lambda>c w'. (\<exists>sk. length sk = 32 \<and> wrapped E (snd (w_bufs w ! i)) cred rp msg sk c) \<and> locked w w')
    (\<lambda>_. locked w) (\<lambda>_. True) w"
proof -
  let ?sk = "map (w_tape w) [w_pos w..<w_pos w + 32]"
  let ?w1 = "w\<lparr>w_pos := w_pos w + 32, w_bufs := w_bufs w @ [(Seed, ?sk)]\<rparr>"
  have "wp (wrap_seed E i cred rp msg (length (w_bufs w)))
    (\<lambda>c w'. wrapped E (snd (w_bufs ?w1 ! i)) cred rp msg (snd (w_bufs ?w1 ! length (w_bufs w))) c \<and> locked ?w1 w' \<and> w_bufs w' = w_bufs ?w1)
    (\<lambda>_ w'. locked ?w1 w' \<and> w_bufs w' = w_bufs ?w1) (\<lambda>_. True) ?w1"
    using assms(1) by (intro wrap_seed_spec) simp
  then have "wp (wrap_seed E i cred rp msg (length (w_bufs w)))
    (\<lambda>c w'. (\<exists>sk. length sk = 32 \<and> wrapped E (snd (w_bufs w ! i)) cred rp msg sk c) \<and> locked w (fill0_w (length (w_bufs w)) w'))
    (\<lambda>_ w'. locked w (fill0_w (length (w_bufs w)) w')) (\<lambda>_. True) ?w1"
    by (rule wp_mono) (use assms(2) in \<open>auto simp: locked_def nth_append intro!: exI [of _ ?sk]\<close>)
  then show ?thesis by (simp add: wrapNewSeed_def generateEd25519Seed_def wps)
qed

lemma enrollExistingCredential_spec:
  assumes "isBusy (w_st w)"
  shows "wp (enrollExistingCredential E rp cred msg)
    (\<lambda>c w'. (\<exists>pr sk. length sk = 32 \<and> wrapped E pr cred rp msg sk c) \<and> locked w w') (\<lambda>_. locked w) (\<lambda>_. True) w"
  unfolding enrollExistingCredential_def wps
proof (rule await_steady [OF assms(1)])
  fix r w1 assume w1: "steady w w1" "w_bufs w1 = w_bufs w" "w_items w1 = w_items w" "isBusy (w_st w1)"
  let ?Q = "\<lambda>c w'. (\<exists>pr sk. length sk = 32 \<and> wrapped E pr cred rp msg sk c) \<and> locked w (fill0_w (length (w_bufs w1)) w')"
  show "(case r_prf r of Inl e \<Rightarrow> locked w
      | Inr pr \<Rightarrow> \<lambda>wa. wp (wrapNewSeed E (length (w_bufs wa)) cred rp msg)
          (\<lambda>c w'. (\<exists>pr sk. length sk = 32 \<and> wrapped E pr cred rp msg sk c) \<and> locked w (fill0_w (length (w_bufs wa)) w'))
          (\<lambda>_ w'. locked w (fill0_w (length (w_bufs wa)) w')) (\<lambda>_. True) (wa\<lparr>w_bufs := w_bufs wa @ [(Prf, pr)]\<rparr>)) w1"
  proof (cases "r_prf r")
    case (Inr pr)
    let ?w2 = "w1\<lparr>w_bufs := w_bufs w1 @ [(Prf, pr)]\<rparr>"
    have "wp (wrapNewSeed E (length (w_bufs w1)) cred rp msg)
      (\<lambda>c w'. (\<exists>sk. length sk = 32 \<and> wrapped E (snd (w_bufs ?w2 ! length (w_bufs w1))) cred rp msg sk c) \<and> locked ?w2 w')
      (\<lambda>_. locked ?w2) (\<lambda>_. True) ?w2"
      using w1 by (intro wrapNewSeed_spec) simp_all
    then have "wp (wrapNewSeed E (length (w_bufs w1)) cred rp msg) ?Q
        (\<lambda>_ w'. locked w (fill0_w (length (w_bufs w1)) w')) (\<lambda>_. True) ?w2"
      by (rule wp_mono) (use w1 in \<open>auto simp: locked_def nth_append intro: steady_trans\<close>)
    with Inr show ?thesis by simp
  qed (use w1 in auto)
qed simp

subsection \<open>Round trips\<close>

definition parsed_of :: "wallet_blob_fields \<Rightarrow> parsed_wallet_blob" where
  "parsed_of f = \<lparr>publicKey = publicKey f, credentialId = credentialId f, kdfSalt = kdfSalt f, iv = iv f,
     ciphertext = ciphertext f, version = BLOB_VERSION\<rparr>"

lemma buildAad_parsed_of:
  "buildAad (parsed_of f) rp = buildAad (header (publicKey f) (credentialId f) (kdfSalt f)) rp"
  by (simp add: buildAad_def header_def parsed_of_def)

lemma decode_parsed_of: "encodeWalletBlob f = Inr b \<Longrightarrow> decodeWalletBlob b = Inr (parsed_of f)"
  by (rule decodeWalletBlob_encoded) (simp_all add: parsed_of_def encodeWalletBlob_def)

lemma unwrap_sealed:
  assumes "e_aesDecrypt E (deriveWrappingKey E (snd (w_bufs v ! j)) (kdfSalt p)) (iv p) (ciphertext p) aad = Some sk"
    and "buildAad p rp = Inr aad" and "ed25519PublicKey E sk = Some (publicKey p)" and "w_in v = r1 # r2 # rs"
  shows "\<exists>ref v'. unwrapWallet E j p rp v = (Ret (ref, publicKey p), v') \<and> snd (w_bufs v' ! ref) = sk"
proof -
  have "wp (unwrapWallet E j p rp) (\<lambda>(ref, pk) v'. pk = publicKey p \<and> snd (w_bufs v' ! ref) = sk)
      (\<lambda>_ _. False) (\<lambda>_. False) v"
    using assms by (simp add: unwrapWallet_def open_wallet_def wps wp_await)
  then show ?thesis by (auto simp: wp_def split: prod.splits res.splits)
qed

text \<open>
  C6: A wallet wrapped under a PRF output is unwrapped again under the same PRF output: its blob decodes
  to the public key that was returned and the credential it was made for, and unwrapping yields a
  secret key of exactly that public key; under authenticated encryption that decrypts what it
  encrypted.
\<close>
theorem wrapped_wallet_unwraps:
  assumes "aead_correct E" and "isBusy (w_st w)" and "i < length (w_bufs w)"
    and "wrapNewSeed E i cred rp msg w = (Ret c, w')"
    and "snd (w_bufs v ! j) = snd (w_bufs w ! i)" and "w_in v = r1 # r2 # rs"
  shows "\<exists>p ref v'. decodeWalletBlob (cw_blob c) = Inr p \<and> publicKey p = cw_publicKey c \<and> credentialId p = cred \<and>
    unwrapWallet E j p rp v = (Ret (ref, cw_publicKey c), v') \<and>
    ed25519PublicKey E (snd (w_bufs v' ! ref)) = Some (cw_publicKey c)"
proof -
  from wp_result [OF wrapNewSeed_spec [OF assms(2,3)] assms(4)] obtain sk
    where "wrapped E (snd (w_bufs w ! i)) cred rp msg sk c" by blast
  then obtain salt ivb aad where pk: "ed25519PublicKey E sk = Some (cw_publicKey c)"
    and aad: "buildAad (header (cw_publicKey c) cred salt) rp = Inr aad"
    and enc: "encodeWalletBlob \<lparr>publicKey = cw_publicKey c, credentialId = cred, kdfSalt = salt, iv = ivb,
          ciphertext = e_aesEncrypt E (deriveWrappingKey E (snd (w_bufs w ! i)) salt) ivb sk aad\<rparr> = Inr (cw_blob c)"
    by (auto simp: wrapped_def)
  let ?p = "parsed_of \<lparr>publicKey = cw_publicKey c, credentialId = cred, kdfSalt = salt, iv = ivb,
          ciphertext = e_aesEncrypt E (deriveWrappingKey E (snd (w_bufs w ! i)) salt) ivb sk aad\<rparr>"
  have dec: "decodeWalletBlob (cw_blob c) = Inr ?p" by (rule decode_parsed_of [OF enc])
  have "\<exists>ref v'. unwrapWallet E j ?p rp v = (Ret (ref, publicKey ?p), v') \<and> snd (w_bufs v' ! ref) = sk"
    using assms(1,5) pk aad
    by (intro unwrap_sealed [OF _ _ _ assms(6)])
      (simp_all add: buildAad_parsed_of, simp_all add: parsed_of_def aead_correct_def)
  with dec pk show ?thesis by (auto simp: parsed_of_def)
qed

definition sample_env :: env where
  "sample_env =
     \<lparr>e_kit = sample_kit, e_parentOrigin = ''https://app'', e_rpId = ''localhost'', e_numText = (\<lambda>_. ''0''),
      e_Number = (\<lambda>_. None), e_sha256 = (\<lambda>_. replicate 32 1), e_hkdf = (\<lambda>a b c. a),
      e_aesEncrypt = (\<lambda>k i p a. p @ replicate 16 0), e_aesDecrypt = (\<lambda>k i c a. if 16 \<le> length c then Some (take (length c - 16) c) else None),
      e_edPublicKey = (\<lambda>s. if length s = 32 then Some s else None), e_edSign = (\<lambda>m s. Some (replicate 64 3)),
      e_store = Some \<lparr>bs_getItem = (\<lambda>m k. Some (m k)), bs_setItem = (\<lambda>k v m. Some (m(k \<mapsto> v)))\<rparr>\<rparr>"

definition sample_response :: response where
  "sample_response =
     \<lparr>r_now = 0, r_arrivals = [], r_dismiss = False, r_confirm = True, r_retry = False, r_prf = Inr (replicate 32 5),
      r_enrol = Inl OtherErr, r_disc = Inl OtherErr, r_http = None, r_http2 = None\<rparr>"

definition sample_world :: "nat \<Rightarrow> world" where
  "sample_world n =
     \<lparr>w_st = newSignerState\<lparr>st_state := SIGN_PENDING\<rparr>, w_now = 0, w_items = (\<lambda>_. None), w_tape = (\<lambda>i. word_of_nat i),
      w_pos = 0, w_bufs = [(Prf, replicate 32 5)], w_flags = [], w_dismiss = None, w_posts = [], w_shown = [],
      w_sent = [], w_in = replicate n sample_response\<rparr>"

lemma sample_aead: "aead_correct sample_env"
  by (simp add: aead_correct_def sample_env_def)

lemma sample_keypair: "keypair_total sample_env"
  by (simp add: keypair_total_def ed25519PublicKey_def sample_env_def ED25519_PUBKEY_BYTES_def)

lemma sample_crypto: "crypto_documented sample_env"
  unfolding crypto_documented_def by (intro conjI sample_keypair) (auto simp: sample_env_def split: if_splits)

lemma encodeWalletBlob_total:
  assumes "length (publicKey f) = 32" "length (kdfSalt f) = 32" "length (iv f) = 12" "length (ciphertext f) = 48"
    "credentialId f \<noteq> []" "length (credentialId f) \<le> 256"
  shows "\<exists>b. encodeWalletBlob f = Inr b"
  using assms by (auto simp: encodeWalletBlob_Inr writeU16_Inr)

text \<open>Wrapping succeeds for every credential id of at most 256 bytes once the two waits are answered.\<close>

lemma wrapNewSeed_total:
  assumes "aead_correct E" "keypair_total E" "cred \<noteq> []" "length cred \<le> 256" "length (utf8ToBytes rp) \<le> 65535"
    and "w_in w = r1 # r2 # rs"
  shows "\<exists>c w'. wrapNewSeed E i cred rp None w = (Ret c, w')"
proof -
  let ?sk = "map (w_tape w) [w_pos w..<w_pos w + 32]"
  from assms(2) have "ed25519PublicKey E ?sk \<noteq> None" by (simp add: keypair_total_def)
  then obtain pk where pk: "ed25519PublicKey E ?sk = Some pk" by blast
  then have len: "length pk = 32"
    by (auto simp: ed25519PublicKey_def ED25519_PUBKEY_BYTES_def split: option.splits if_splits)
  have aad: "\<exists>aad. buildAad (header pk cred salt) rp = Inr aad" for salt
    using assms(4,5) by (intro buildAad_defined) (simp_all add: header_def)
  have enc: "\<exists>b. encodeWalletBlob \<lparr>publicKey = pk, credentialId = cred, kdfSalt = map g [a..<a + 32], iv = map h [a'..<a' + 12],
      ciphertext = e_aesEncrypt E k x ?sk aad\<rparr> = Inr b" for g h a a' k x aad
    using assms(1,3,4) len by (intro encodeWalletBlob_total) (simp_all add: aead_correct_def)
  obtain ad where ad: "buildAad (header pk cred (map (w_tape w) [w_pos w + 32..<w_pos w + 32 + 32])) rp = Inr ad"
    using aad by blast
  obtain b where b: "encodeWalletBlob \<lparr>publicKey = pk, credentialId = cred,
      kdfSalt = map (w_tape w) [w_pos w + 32..<w_pos w + 32 + 32],
      iv = map (w_tape w) [w_pos w + 64..<w_pos w + 64 + 12],
      ciphertext = e_aesEncrypt E (deriveWrappingKey E (snd ((w_bufs w @ [(Seed, ?sk)]) ! i))
        (map (w_tape w) [w_pos w + 32..<w_pos w + 32 + 32]))
        (map (w_tape w) [w_pos w + 64..<w_pos w + 64 + 12]) ?sk ad\<rparr> = Inr b"
    using enc by blast
  have "wp (wrapNewSeed E i cred rp None) (\<lambda>_ _. True) (\<lambda>_ _. False) (\<lambda>_. False) w"
    using pk ad b assms(6)
    by (simp add: wrapNewSeed_def generateEd25519Seed_def wrap_seed_def seal_wallet_def wps wp_await
        KDF_SALT_BYTES_def AES_GCM_IV_BYTES_def add.assoc)
  then show ?thesis by (auto simp: wp_def split: prod.splits res.splits)
qed

theorem wrapped_wallet_unwraps_witness:
  "\<exists>c w' p ref v'. wrapNewSeed sample_env 0 [1, 2] ''localhost'' None (sample_world 2) = (Ret c, w') \<and>
     decodeWalletBlob (cw_blob c) = Inr p \<and> credentialId p = [1, 2] \<and>
     unwrapWallet sample_env 0 p ''localhost'' (sample_world 2) = (Ret (ref, cw_publicKey c), v')"
proof -
  have inp: "w_in (sample_world 2) = [sample_response, sample_response]"
    by (simp add: sample_world_def numeral_2_eq_2)
  from wrapNewSeed_total [OF sample_aead sample_keypair _ _ _ inp, of "[1, 2]" "''localhost''" 0] obtain c w'
    where c: "wrapNewSeed sample_env 0 [1, 2] ''localhost'' None (sample_world 2) = (Ret c, w')"
    by (auto simp: utf8ToBytes_def utf8_char_def)
  have "isBusy (w_st (sample_world 2))" "0 < length (w_bufs (sample_world 2))"
    by (simp_all add: sample_world_def isBusy_def)
  from wrapped_wallet_unwraps [OF sample_aead this c refl inp] c show ?thesis by blast
qed

text \<open>
  C11: Unwrapping hands out a key only when it belongs to the wallet: on success the returned public key
  is the one in the blob and the returned buffer holds a secret key of it, and no other secret is
  left; on failure every key and PRF buffer is zeroed.  In both cases nothing but errors was posted.
  The blob may be any bytes the decoder takes, sealed by whoever: of the cryptography only its lengths
  are assumed.
\<close>
theorem decryptWallet_key_matches:
  assumes "isBusy (w_st w)" and "crypto_documented E" and "decodeWalletBlob raw = Inr p"
  shows "wp (decryptWallet E rp p)
    (\<lambda>(ref, pk) w'. pk = publicKey p \<and> steady w w' \<and>
       (\<exists>bs sk. w_bufs w' = w_bufs w @ bs @ [(Seed, sk)] \<and> list_all zeroed bs \<and> ref = length (w_bufs w @ bs) \<and>
          ed25519PublicKey E sk = Some pk))
    (\<lambda>_ w'. steady w w' \<and> (\<exists>bs. w_bufs w' = w_bufs w @ bs \<and> list_all zeroed bs)) (steady w) w"
  by (rule wp_mono [OF decryptWallet_spec [OF assms(1,2) decoded_ciphertext_length [OF assms(3)]]])
    (auto simp: unlocked_def locked_def)

text \<open>A wallet whose secret key the sample cryptography decrypts to 32 letters, and its blob.\<close>

definition cold_fields :: wallet_blob_fields where
  "cold_fields = \<lparr>publicKey = replicate 32 97, credentialId = [1, 2, 3], kdfSalt = replicate 32 9,
     iv = replicate 12 0, ciphertext = replicate 48 97\<rparr>"

theorem decryptWallet_key_matches_witness:
  "\<exists>raw p ref w'. encodeWalletBlob cold_fields = Inr raw \<and> decodeWalletBlob raw = Inr p \<and>
     decryptWallet sample_env ''localhost'' p (sample_world 3) = (Ret (ref, replicate 32 97), w') \<and>
     (\<exists>bs. w_bufs w' = w_bufs (sample_world 3) @ bs @ [(Seed, replicate 32 97)] \<and> list_all zeroed bs)"
proof -
  have "\<exists>b. encodeWalletBlob cold_fields = Inr b" by (rule encodeWalletBlob_total) (simp_all add: cold_fields_def)
  then obtain raw where raw: "encodeWalletBlob cold_fields = Inr raw" ..
  then have dec: "decodeWalletBlob raw = Inr (parsed_of cold_fields)" by (rule decode_parsed_of)
  obtain aad where aad: "buildAad (parsed_of cold_fields) ''localhost'' = Inr aad"
    using buildAad_defined [of "parsed_of cold_fields" "''localhost''"]
    by (auto simp: cold_fields_def parsed_of_def utf8ToBytes_def utf8_char_def)
  have "wp (decryptWallet sample_env ''localhost'' (parsed_of cold_fields)) (\<lambda>_ _. True) (\<lambda>_ _. False) (\<lambda>_. False) (sample_world 3)"
    using aad
    by (simp add: decryptWallet_def unwrapWallet_def open_wallet_def wps wp_await sample_world_def sample_response_def
        sample_env_def ed25519PublicKey_def ED25519_PUBKEY_BYTES_def parsed_of_def cold_fields_def numeral_3_eq_3)
  moreover have "wp (decryptWallet sample_env ''localhost'' (parsed_of cold_fields))
    (\<lambda>(ref, pk) w'. pk = publicKey (parsed_of cold_fields) \<and> steady (sample_world 3) w' \<and>
       (\<exists>bs sk. w_bufs w' = w_bufs (sample_world 3) @ bs @ [(Seed, sk)] \<and> list_all zeroed bs \<and>
          ref = length (w_bufs (sample_world 3) @ bs) \<and> ed25519PublicKey sample_env sk = Some pk))
    (\<lambda>_ w'. steady (sample_world 3) w' \<and> (\<exists>bs. w_bufs w' = w_bufs (sample_world 3) @ bs \<and> list_all zeroed bs))
    (steady (sample_world 3)) (sample_world 3)"
    by (rule decryptWallet_key_matches [OF _ sample_crypto dec]) (simp add: sample_world_def isBusy_def)
  moreover have "ed25519PublicKey sample_env sk = Some pk \<Longrightarrow> sk = pk" for sk pk
    by (auto simp: ed25519PublicKey_def sample_env_def split: if_splits option.splits)
  ultimately show ?thesis
    using raw dec
    by (auto simp: wp_def parsed_of_def cold_fields_def split: prod.splits res.splits)
qed

subsection \<open>The local blob\<close>

lemma binary_roundtrip: "binaryToBytes (bytesToBinary bs) = bs"
proof -
  have "word_of_nat (of_char (char_of (unat b) :: char)) AND 0xff = b" for b :: byte
  proof -
    have "(of_char (char_of (unat b) :: char) :: nat) = unat b"
      using unat_byte_lt [of b] by simp
    moreover have "b AND 0xff = b"
    proof -
      have m: "(0xff :: byte) = mask 8" by (simp add: mask_eq_exp_minus_1)
      show ?thesis unfolding m by (rule bit_word_eqI) (auto simp: bit_simps dest: byte_bits)
    qed
    ultimately show ?thesis by simp
  qed
  then show ?thesis by (simp add: binaryToBytes_def bytesToBinary_def map_idI)
qed

text \<open>
  When storing the encrypted wallet reports success, the wallet is there: reading the store back
  gives the same bytes and the same parsed blob, whatever the storage object does; and only a valid
  blob is ever stored.
\<close>
theorem writeLocalBlob_read_back:
  assumes "writeLocalBlob store raw items = (True, items')"
  shows "\<exists>p. decodeWalletBlob raw = Inr p \<and> readLocalBlob store items' = Some (raw, p)"
proof -
  from assms obtain st p where st: "store = Some st" and p: "parseBlob raw = Inr p"
    and get: "bs_getItem st items' LOCAL_BLOB_KEY = Some (Some (bytesToBinary raw))"
    by (auto simp: writeLocalBlob_def Let_def split: option.splits sum.splits)
  from p have dec: "decodeWalletBlob raw = Inr p" by (simp add: parseBlob_def split: sum.splits)
  then have len: "133 \<le> length raw" "length raw \<le> MAX_BLOB_BYTES"
    using encodeWalletBlob_length [OF decodeWalletBlob_was_encoded(2) [OF dec]]
    by (auto simp: decodeWalletBlob_def result_simps)
  then have "bytesToBinary raw \<noteq> ''''" by (auto simp: bytesToBinary_def)
  with st get p len dec show ?thesis by (simp add: readLocalBlob_def binary_roundtrip)
qed

theorem writeLocalBlob_read_back_witness:
  "\<exists>raw items' p. writeLocalBlob (e_store sample_env) raw (\<lambda>_. None) = (True, items') \<and>
     readLocalBlob (e_store sample_env) items' = Some (raw, p)"
proof -
  have "\<exists>b. encodeWalletBlob sample_fields = Inr b" by (rule encodeWalletBlob_total) (simp_all add: sample_fields_def)
  then obtain raw where "encodeWalletBlob sample_fields = Inr raw" ..
  then have "parseBlob raw = Inr (parsed_of sample_fields)" by (simp add: parseBlob_def decode_parsed_of)
  then obtain items' where "writeLocalBlob (e_store sample_env) raw (\<lambda>_. None) = (True, items')"
    by (simp add: writeLocalBlob_def sample_env_def)
  with writeLocalBlob_read_back [OF this] show ?thesis by blast
qed

end
