(* ===== verification/SignerMain.thy ===== *)
theory SignerMain
  imports WalletService
begin

text \<open>
  The signer's entry point, \<^verbatim>\<open>secure-signer/src/main.ts\<close>: the message listener, the dispatcher
  \<open>handle\<close> and the handlers for creating, unlocking, restoring and exporting a wallet and for signing
  a transaction.  Every handler is a program of \<open>SignerIO\<close>, with the source's awaits, error paths,
  dismissal checks and \<open>finally\<close> blocks in order.

  The handlers that call themselves on "try again" take fuel.  A retry consumes a response, so fuel
  above the number of responses left is never used up; \<open>handle\<close> provides that much.
\<close>

definition toBase58Pubkey :: "env \<Rightarrow> bytes \<Rightarrow> string io" where
  "toBase58Pubkey E bs = lift_opt OtherErr (k_addr_decode (e_kit E) bs)"

definition prefixedChallengeMessage :: "string \<Rightarrow> bytes \<Rightarrow> bytes" where
  "prefixedChallengeMessage prefix challengeBytes = utf8ToBytes prefix @ challengeBytes"

definition signChallenge :: "env \<Rightarrow> string \<Rightarrow> nat \<Rightarrow> string \<Rightarrow> string option io" where
  "signChallenge E challengeB64 seed prefix =
     bindM (read_buf seed) (\<lambda>sk. ret
       (if challengeB64 = '''' then None
        else case base64ToBytes challengeB64 64 Url of
          Inl _ \<Rightarrow> None
        | Inr challengeBytes \<Rightarrow>
            map_option (\<lambda>sig. bytesToBase64 sig Url)
              (e_edSign E (prefixedChallengeMessage prefix challengeBytes) sk)))"

definition codeOf :: "exn \<Rightarrow> error_code" where
  "codeOf e =
     (case e of
        ServiceErr c \<Rightarrow> c
      | WebAuthnUnsupported \<Rightarrow> UNSUPPORTED_CREDENTIAL
      | DomErr name \<Rightarrow> if name = ''NotAllowedError'' \<or> name = ''AbortError'' then USER_CANCELLED else INTERNAL_ERROR
      | OtherErr \<Rightarrow> INTERNAL_ERROR)"

definition blocked :: "'a io" where
  "blocked = (\<lambda>w. (Blocked, w))"

definition mintBackupChallenge :: "env \<Rightarrow> (string \<times> string) io" where
  "mintBackupChallenge E = catchM (issueBackupChallenge E) (\<lambda>_. throw (ServiceErr BLOB_UNAVAILABLE))"

definition pushBackup ::
  "env \<Rightarrow> string \<Rightarrow> string \<Rightarrow> string \<Rightarrow> string \<Rightarrow> string option \<Rightarrow> rat io" where
  "pushBackup E blob pk putChallengeId putSignature attestation =
     backupOwnerWalletBlob E blob pk putChallengeId putSignature attestation"

definition auth_result :: "string \<Rightarrow> bool \<Rightarrow> rat \<Rightarrow> (string \<times> js) list" where
  "auth_result pk created expiresAt =
     [(''publicKey'', JString pk), (''created'', JBool created), (''expiresAt'', JNumber expiresAt)]"

subsection \<open>Create\<close>

text \<open>The \<open>try\<close> block of \<open>handleCreate\<close>.\<close>

definition create_body :: "env \<Rightarrow> string \<Rightarrow> string \<Rightarrow> string \<Rightarrow> nat \<Rightarrow> unit io" where
  "create_body E rid credB64 att busy =
     bindM (mintBackupChallenge E) (\<lambda>(challengeId, challenge).
     case base64ToBytes challenge 64 Url of
       Inl _ \<Rightarrow> fail rid INVALID_MESSAGE
     | Inr challengeBytes \<Rightarrow>
       let messageToSign = prefixedChallengeMessage PUT_CHALLENGE_PREFIX challengeBytes in
       bindM (lift_sum (\<lambda>_. OtherErr) (base64ToBytes credB64 MAX_CREDENTIAL_ID_BYTES Url)) (\<lambda>credId.
       bindM (enrollExistingCredential E (e_rpId E) credId (Some messageToSign)) (\<lambda>created.
       bindM (wasDismissed busy) (\<lambda>dismissed.
       if dismissed then ret ()
       else case cw_signature created of
         None \<Rightarrow> fail rid INTERNAL_ERROR
       | Some sig \<Rightarrow>
         bindM (toBase58Pubkey E (cw_publicKey created)) (\<lambda>pk.
         bindM (attempt (pushBackup E (bytesToBase64 (cw_blob created) Url) pk challengeId
             (bytesToBase64 sig Url) (Some att))) (\<lambda>pushed.
         case pushed of
           Inl _ \<Rightarrow> fail rid BLOB_UNAVAILABLE
         | Inr expiresAt \<Rightarrow>
           bindM (write_local E (cw_blob created)) (\<lambda>written.
           if \<not> written then fail rid INTERNAL_ERROR
           else
             bindM (pause E) (\<lambda>_.
             bindM (wasDismissed busy) (\<lambda>dismissed.
             if dismissed then ret ()
             else ok rid (RESULT_TYPE AUTH_START) (auth_result pk True expiresAt))))))))))"

fun handleCreate :: "env \<Rightarrow> nat \<Rightarrow> string \<Rightarrow> string \<Rightarrow> string \<Rightarrow> unit io" where
  "handleCreate E 0 rid credB64 att = blocked"
| "handleCreate E (Suc n) rid credB64 att =
     bindM (await E r_confirm) (\<lambda>yes.
     if \<not> yes then fail rid USER_CANCELLED
     else
       bindM (beginBusy rid) (\<lambda>busy.
       finallyM
         (catchM (create_body E rid credB64 att busy) (\<lambda>e.
           bindM (wasDismissed busy) (\<lambda>dismissed.
           if dismissed then ret ()
           else if codeOf e = AUTHENTICATION_FAILED \<or> codeOf e = UNSUPPORTED_CREDENTIAL then
             bindM (await E r_retry) (\<lambda>again.
             if again then bindM (modify busy_clear) (\<lambda>_. handleCreate E n rid credB64 att)
             else fail rid USER_CANCELLED)
           else throw e)))
         busy_clear))"

subsection \<open>Unlock with the local ciphertext\<close>

definition local_unlock_body ::
  "env \<Rightarrow> string \<Rightarrow> string \<Rightarrow> bytes \<Rightarrow> parsed_wallet_blob \<Rightarrow> nat \<Rightarrow> unit io" where
  "local_unlock_body E rid rpId raw parsed busy =
     bindM (mintBackupChallenge E) (\<lambda>(challengeId, challenge).
     bindM (decryptWallet E rpId parsed) (\<lambda>(seed, pub).
     bindM (wasDismissed busy) (\<lambda>dismissed.
     if dismissed then fill0 seed
     else
       bindM (signChallenge E challenge seed PUT_CHALLENGE_PREFIX) (\<lambda>putSignature.
       case putSignature of
         None \<Rightarrow> bindM (fill0 seed) (\<lambda>_. fail rid INTERNAL_ERROR)
       | Some sig \<Rightarrow>
         bindM (toBase58Pubkey E pub) (\<lambda>pk.
         bindM (attempt (pushBackup E (bytesToBase64 raw Url) pk challengeId sig None)) (\<lambda>pushed.
         case pushed of
           Inl _ \<Rightarrow> bindM (fill0 seed) (\<lambda>_. fail rid BLOB_UNAVAILABLE)
         | Inr expiresAt \<Rightarrow>
           bindM (fill0 seed) (\<lambda>_.
           bindM (write_local E raw) (\<lambda>written.
           if \<not> written then fail rid INTERNAL_ERROR
           else
             bindM (pause E) (\<lambda>_.
             bindM (wasDismissed busy) (\<lambda>dismissed.
             if dismissed then ret ()
             else ok rid (RESULT_TYPE AUTH_START) (auth_result pk False expiresAt)))))))))))"

fun handleLocalUnlock ::
  "env \<Rightarrow> nat \<Rightarrow> string \<Rightarrow> string \<Rightarrow> bytes \<Rightarrow> parsed_wallet_blob \<Rightarrow> unit io" where
  "handleLocalUnlock E 0 rid rpId raw parsed = blocked"
| "handleLocalUnlock E (Suc n) rid rpId raw parsed =
     bindM (await E r_confirm) (\<lambda>yes.
     if \<not> yes then fail rid USER_CANCELLED
     else
       bindM (beginBusy rid) (\<lambda>busy.
       finallyM
         (catchM (local_unlock_body E rid rpId raw parsed busy) (\<lambda>e.
           bindM (wasDismissed busy) (\<lambda>dismissed.
           if dismissed then ret ()
           else if codeOf e = AUTHENTICATION_FAILED \<or> codeOf e = DECRYPTION_FAILED then
             bindM (await E r_retry) (\<lambda>again.
             if again then handleLocalUnlock E n rid rpId raw parsed
             else fail rid AUTHENTICATION_FAILED)
           else throw e)))
         busy_clear))"

subsection \<open>Unlock on a new device\<close>

text \<open>The last \<open>try\<close> block of \<open>handleRemoteUnlock\<close>: from the restored blob to the result.\<close>

definition remote_unlock_body ::
  "env \<Rightarrow> string \<Rightarrow> string \<Rightarrow> string \<times> string \<Rightarrow> discoverable \<Rightarrow> nat \<Rightarrow> string \<Rightarrow> nat \<Rightarrow> unit io" where
  "remote_unlock_body E rid rpId backup disc prfOutput blobB64 busy =
     bindM (lift_sum (\<lambda>_. OtherErr) (base64ToBytes blobB64 1024 Url)) (\<lambda>raw.
     bindM (lift_sum (\<lambda>e. e) (parseBlob raw)) (\<lambda>parsed.
     if \<not> bytesEqual (credentialId parsed) (d_credentialId disc) then
       bindM (fill0 prfOutput) (\<lambda>_. fail rid WALLET_MISMATCH)
     else
       bindM (unwrapWallet E prfOutput parsed rpId) (\<lambda>(seed, pub).
       bindM (fill0 prfOutput) (\<lambda>_.
       bindM (wasDismissed busy) (\<lambda>dismissed.
       if dismissed then fill0 seed
       else
         bindM (write_local E raw) (\<lambda>written.
         if \<not> written then bindM (fill0 seed) (\<lambda>_. fail rid INTERNAL_ERROR)
         else
           bindM (signChallenge E (snd backup) seed PUT_CHALLENGE_PREFIX) (\<lambda>putSignature.
           case putSignature of
             None \<Rightarrow> bindM (fill0 seed) (\<lambda>_. fail rid INTERNAL_ERROR)
           | Some sig \<Rightarrow>
             bindM (toBase58Pubkey E pub) (\<lambda>pk.
             bindM (fill0 seed) (\<lambda>_.
             bindM (attempt (pushBackup E (bytesToBase64 raw Url) pk (fst backup) sig None)) (\<lambda>pushed.
             case pushed of
               Inl _ \<Rightarrow> fail rid BLOB_UNAVAILABLE
             | Inr expiresAt \<Rightarrow>
               bindM (modify busy_clear) (\<lambda>_.
               bindM (pause E) (\<lambda>_.
               ok rid (RESULT_TYPE AUTH_START) (auth_result pk False expiresAt)))))))))))))"

text \<open>\<open>Promise.all\<close> of the two challenges: both requests are sent, and one wait gives both or fails.\<close>

definition issue_both_challenges :: "env \<Rightarrow> ((string \<times> string) \<times> (string \<times> string)) io" where
  "issue_both_challenges E =
     bindM (send ''/owner-wallet/blob/restore-challenge'' []) (\<lambda>_.
     bindM (send ''/owner-wallet/blob/backup-challenge'' []) (\<lambda>_.
     await_or_throw E (\<lambda>r. case (challenge_of (r_http r), challenge_of (r_http2 r)) of
         (Inr a, Inr b) \<Rightarrow> Inr (a, b) | _ \<Rightarrow> Inl OtherErr)))"

text \<open>
  The rest of \<open>handleRemoteUnlock\<close> from the restored blob on, and from the discoverable assertion on;
  \<open>again\<close> is the retry of the whole flow.
\<close>

definition remote_restore ::
  "env \<Rightarrow> unit io \<Rightarrow> string \<Rightarrow> string \<Rightarrow> string \<Rightarrow> string \<times> string \<Rightarrow> discoverable \<Rightarrow> nat \<Rightarrow> unit io" where
  "remote_restore E again rid rpId restoreId backup disc prfOutput =
     bindM (beginBusy rid) (\<lambda>busy.
     bindM (attempt (restoreOwnerWalletBlob E restoreId (d_assertion disc))) (\<lambda>restored.
     case restored of
       Inl _ \<Rightarrow>
         bindM (fill0 prfOutput) (\<lambda>_. bindM (modify busy_clear) (\<lambda>_. fail rid BLOB_UNAVAILABLE))
     | Inr None \<Rightarrow>
         bindM (fill0 prfOutput) (\<lambda>_.
         bindM (modify busy_clear) (\<lambda>_.
         bindM (await E r_retry) (\<lambda>yes. if yes then again else fail rid BLOB_UNAVAILABLE)))
     | Inr (Some blobB64) \<Rightarrow>
         finallyM
           (catchM (remote_unlock_body E rid rpId backup disc prfOutput blobB64 busy) (\<lambda>e.
             bindM (fill0 prfOutput) (\<lambda>_.
             bindM (wasDismissed busy) (\<lambda>dismissed.
             if dismissed then ret () else throw e))))
           busy_clear))"

definition remote_assert ::
  "env \<Rightarrow> unit io \<Rightarrow> string \<Rightarrow> string \<Rightarrow> string \<Rightarrow> string \<times> string \<Rightarrow> unit io" where
  "remote_assert E again rid rpId restoreId backup =
     bindM (beginBusy rid) (\<lambda>busy.
     bindM (attempt (await_or_throw E r_disc)) (\<lambda>got.
     case got of
       Inl _ \<Rightarrow>
         bindM (modify busy_clear) (\<lambda>_.
         bindM (wasDismissed busy) (\<lambda>dismissed.
         if dismissed then ret ()
         else bindM (await E r_retry) (\<lambda>yes. if yes then again else fail rid BLOB_UNAVAILABLE)))
     | Inr disc \<Rightarrow>
         bindM (new_buf Prf (d_prfOutput disc)) (\<lambda>prfOutput.
         bindM (wasDismissed busy) (\<lambda>dismissed.
         if dismissed then ret ()
         else
           bindM (modify busy_clear) (\<lambda>_.
           remote_restore E again rid rpId restoreId backup disc prfOutput)))))"

fun handleRemoteUnlock :: "env \<Rightarrow> nat \<Rightarrow> string \<Rightarrow> string \<Rightarrow> unit io" where
  "handleRemoteUnlock E 0 rid rpId = blocked"
| "handleRemoteUnlock E (Suc n) rid rpId =
     bindM (await E r_confirm) (\<lambda>yes.
     if \<not> yes then fail rid USER_CANCELLED
     else
       bindM (attempt (issue_both_challenges E)) (\<lambda>challenges.
       case challenges of
         Inl _ \<Rightarrow> fail rid BLOB_UNAVAILABLE
       | Inr (restore, backup) \<Rightarrow>
       (case base64ToBytes (snd restore) 64 Url of
         Inl _ \<Rightarrow> fail rid INVALID_MESSAGE
       | Inr fetchChallengeBytes \<Rightarrow>
         remote_assert E (handleRemoteUnlock E n rid rpId) rid rpId (fst restore) backup)))"

definition handleAuth ::
  "env \<Rightarrow> nat \<Rightarrow> string \<Rightarrow> string \<Rightarrow> auth_mode option \<Rightarrow> string option \<Rightarrow> string option \<Rightarrow> unit io" where
  "handleAuth E n rid rpId authMode credB64 att =
     (if authMode = Some Create then
        (case (credB64, att) of
           (Some c, Some a) \<Rightarrow>
             if c = '''' \<or> a = '''' then fail rid INVALID_MESSAGE else handleCreate E n rid c a
         | _ \<Rightarrow> fail rid INVALID_MESSAGE)
      else
        bindM (read_local E) (\<lambda>local.
        case local of
          Some (raw, parsed) \<Rightarrow> handleLocalUnlock E n rid rpId raw parsed
        | None \<Rightarrow> handleRemoteUnlock E n rid rpId))"

subsection \<open>Restoring for a signature or an export\<close>

datatype restored_seed = RFailed | RDismissed | RSeed bytes parsed_wallet_blob nat bytes

text \<open>
  \<open>restoreWalletSeed\<close> in pieces: opening the restored wallet, checking the restored blob, and the part
  of its \<open>try\<close> block after the discoverable assertion.
\<close>

definition restore_open ::
  "env \<Rightarrow> string \<Rightarrow> string \<Rightarrow> nat \<Rightarrow> bytes \<Rightarrow> parsed_wallet_blob \<Rightarrow> restored_seed io" where
  "restore_open E rid rpId prfOutput raw parsed =
     bindM (unwrapWallet E prfOutput parsed rpId) (\<lambda>(seed, pub).
     bindM (fill0 prfOutput) (\<lambda>_.
     bindM (write_local E raw) (\<lambda>written.
     if \<not> written then
       bindM (fill0 seed) (\<lambda>_. bindM (fail rid INTERNAL_ERROR) (\<lambda>_. ret RFailed))
     else ret (RSeed raw parsed seed pub))))"

definition restore_refuse :: "string \<Rightarrow> nat \<Rightarrow> error_code \<Rightarrow> restored_seed io" where
  "restore_refuse rid prfOutput code =
     bindM (fill0 prfOutput) (\<lambda>_. bindM (fail rid code) (\<lambda>_. ret RFailed))"

definition restore_blob ::
  "env \<Rightarrow> string \<Rightarrow> string \<Rightarrow> discoverable \<Rightarrow> nat \<Rightarrow> string \<Rightarrow> restored_seed io" where
  "restore_blob E rid rpId disc prfOutput blobB64 =
     bindM (lift_sum (\<lambda>_. OtherErr) (base64ToBytes blobB64 1024 Url)) (\<lambda>raw.
     bindM (lift_sum (\<lambda>e. e) (parseBlob raw)) (\<lambda>parsed.
     if \<not> bytesEqual (credentialId parsed) (d_credentialId disc) then
       restore_refuse rid prfOutput WALLET_MISMATCH
     else restore_open E rid rpId prfOutput raw parsed))"

definition restore_seed_body ::
  "env \<Rightarrow> string \<Rightarrow> string \<Rightarrow> string \<Rightarrow> discoverable \<Rightarrow> nat \<Rightarrow> restored_seed io" where
  "restore_seed_body E rid rpId restoreId disc prfOutput =
     bindM (attempt (restoreOwnerWalletBlob E restoreId (d_assertion disc))) (\<lambda>restored.
     case restored of
       Inl _ \<Rightarrow> restore_refuse rid prfOutput BLOB_UNAVAILABLE
     | Inr None \<Rightarrow> restore_refuse rid prfOutput BLOB_UNAVAILABLE
     | Inr (Some blobB64) \<Rightarrow> restore_blob E rid rpId disc prfOutput blobB64)"

definition restore_catch :: "string \<Rightarrow> nat \<Rightarrow> exn \<Rightarrow> restored_seed io" where
  "restore_catch rid busy e =
     bindM (wasDismissed busy) (\<lambda>dismissed.
     if dismissed then ret RDismissed
     else case e of
       ServiceErr c \<Rightarrow> bindM (fail rid c) (\<lambda>_. ret RFailed)
     | _ \<Rightarrow> throw e)"

text \<open>The \<open>try\<close> block of \<open>restoreWalletSeed\<close>.\<close>

definition restore_try :: "env \<Rightarrow> string \<Rightarrow> string \<Rightarrow> string \<Rightarrow> nat \<Rightarrow> restored_seed io" where
  "restore_try E rid rpId restoreId busy =
     bindM (attempt (await_or_throw E r_disc)) (\<lambda>got.
     case got of
       Inl e \<Rightarrow> restore_catch rid busy e
     | Inr disc \<Rightarrow>
         bindM (new_buf Prf (d_prfOutput disc)) (\<lambda>prfOutput.
         bindM (wasDismissed busy) (\<lambda>dismissed.
         if dismissed then ret RDismissed
         else
           catchM (restore_seed_body E rid rpId restoreId disc prfOutput) (\<lambda>e.
             bindM (fill0 prfOutput) (\<lambda>_. restore_catch rid busy e)))))"

definition restoreWalletSeed :: "env \<Rightarrow> string \<Rightarrow> string \<Rightarrow> restored_seed io" where
  "restoreWalletSeed E rid rpId =
     bindM (attempt (issueRestoreChallenge E)) (\<lambda>challenge.
     case challenge of
       Inl _ \<Rightarrow> bindM (fail rid BLOB_UNAVAILABLE) (\<lambda>_. ret RFailed)
     | Inr restore \<Rightarrow>
     (case base64ToBytes (snd restore) 64 Url of
       Inl _ \<Rightarrow> bindM (fail rid INVALID_MESSAGE) (\<lambda>_. ret RFailed)
     | Inr fetchChallengeBytes \<Rightarrow>
       bindM (beginBusy rid) (\<lambda>busy.
       finallyM (restore_try E rid rpId (fst restore) busy) busy_clear)))"

subsection \<open>Signing\<close>

definition confirmSignTransaction :: "env \<Rightarrow> transaction_summary \<Rightarrow> bool io" where
  "confirmSignTransaction E summary =
     bindM (modify (\<lambda>w. w\<lparr>w_shown := w_shown w @ [summary]\<rparr>)) (\<lambda>_. await E r_confirm)"

definition authorize_sign :: "string \<Rightarrow> bytes \<Rightarrow> string \<Rightarrow> unit io" where
  "authorize_sign rid pub digest =
     modify (\<lambda>w. w\<lparr>w_st := authorize
       \<lparr>auth_operation = SIGN_PENDING, auth_requestId = rid, auth_walletPublicKey = pub,
        auth_messageDigest = digest, auth_createdAt = w_now w\<rparr> (w_st w)\<rparr>)"

definition consume :: "operation_state \<Rightarrow> string \<Rightarrow> string \<Rightarrow> authorization option io" where
  "consume op rid digest =
     (\<lambda>w. case consumeAuthorization op rid digest (w_st w) of (a, st) \<Rightarrow> (Ret a, w\<lparr>w_st := st\<rparr>))"

text \<open>\<open>decryptWallet\<close> behind the busy screen, as \<open>handleSign\<close> and \<open>handleExportPrivateKey\<close> do it.\<close>

definition unlock_busy :: "env \<Rightarrow> string \<Rightarrow> string \<Rightarrow> parsed_wallet_blob \<Rightarrow> (nat \<times> bytes) option io" where
  "unlock_busy E rid rpId parsed =
     bindM (beginBusy rid) (\<lambda>busy.
     finallyM
       (catchM
         (bindM (decryptWallet E rpId parsed) (\<lambda>(seed, pub).
          bindM (wasDismissed busy) (\<lambda>dismissed.
          if dismissed then bindM (fill0 seed) (\<lambda>_. ret None) else ret (Some (seed, pub)))))
         (\<lambda>e. bindM (wasDismissed busy) (\<lambda>dismissed. if dismissed then ret None else throw e)))
       busy_clear)"

text \<open>The last \<open>try\<close> block of \<open>handleSign\<close>: consume the authorization, sign the frozen bytes, reply.\<close>

definition sign_frozen :: "env \<Rightarrow> string \<Rightarrow> bytes \<Rightarrow> nat \<Rightarrow> bytes \<Rightarrow> unit io" where
  "sign_frozen E rid frozen seed pub =
     catchM
       (bindM (pause E) (\<lambda>_.
        bindM (consume SIGN_PENDING rid (digestHex (e_sha256 E) frozen)) (\<lambda>auth.
        case auth of
          None \<Rightarrow> bindM (fill0 seed) (\<lambda>_. fail rid INTERNAL_ERROR)
        | Some _ \<Rightarrow>
            bindM (signAndScrub E frozen seed) (\<lambda>sig.
            bindM (toBase58Pubkey E pub) (\<lambda>pk.
            ok rid (RESULT_TYPE SIGN_TRANSACTION)
              [(''signature'', JString (bytesToBase64 sig Std)), (''publicKey'', JString pk)])))))
       (\<lambda>e. bindM (fill0 seed) (\<lambda>_. throw e))"

definition sign_local ::
  "env \<Rightarrow> string \<Rightarrow> string \<Rightarrow> decoded_transaction \<Rightarrow> string \<Rightarrow> parsed_wallet_blob \<Rightarrow> unit io" where
  "sign_local E rid rpId tx digest parsed =
     bindM (lift_opt OtherErr (evaluatePolicy (e_kit E) tx (publicKey parsed))) (\<lambda>policy.
     case policy of
       PFail code \<Rightarrow> fail rid code
     | POk summary \<Rightarrow>
       bindM (confirmSignTransaction E summary) (\<lambda>yes.
       if \<not> yes then fail rid USER_CANCELLED
       else
         bindM (authorize_sign rid (publicKey parsed) digest) (\<lambda>_.
         bindM (unlock_busy E rid rpId parsed) (\<lambda>unlocked.
         case unlocked of
           None \<Rightarrow> ret ()
         | Some (seed, pub) \<Rightarrow> sign_frozen E rid (dt_messageBytes tx) seed pub))))"

definition sign_cold :: "env \<Rightarrow> string \<Rightarrow> string \<Rightarrow> decoded_transaction \<Rightarrow> string \<Rightarrow> unit io" where
  "sign_cold E rid rpId tx digest =
     (case previewPolicy (e_kit E) tx of
       PFail code \<Rightarrow> fail rid code
     | POk preview \<Rightarrow>
       bindM (confirmSignTransaction E preview) (\<lambda>yes.
       if \<not> yes then fail rid USER_CANCELLED
       else
         bindM (restoreWalletSeed E rid rpId) (\<lambda>restored.
         case restored of
           RSeed raw parsed seed pub \<Rightarrow>
             bindM (lift_opt OtherErr (evaluatePolicy (e_kit E) tx pub)) (\<lambda>policy.
             case policy of
               PFail code \<Rightarrow> bindM (fill0 seed) (\<lambda>_. fail rid code)
             | POk _ \<Rightarrow>
                 bindM (authorize_sign rid pub digest) (\<lambda>_.
                 sign_frozen E rid (dt_messageBytes tx) seed pub))
         | _ \<Rightarrow> ret ())))"

definition handleSign :: "env \<Rightarrow> string \<Rightarrow> string \<Rightarrow> string \<Rightarrow> unit io" where
  "handleSign E rid rpId txB64 =
     bindM (lift_sum (\<lambda>_. OtherErr) (base64ToBytes txB64 MAX_TX_BYTES Std)) (\<lambda>txBytes.
     case decodeV1Transaction (e_kit E) txBytes of
       None \<Rightarrow> fail rid MALFORMED_TRANSACTION
     | Some tx \<Rightarrow>
       bindM (pause E) (\<lambda>_.
       let digest = digestHex (e_sha256 E) (dt_messageBytes tx) in
       bindM (read_local E) (\<lambda>local.
       case local of
         Some (raw, parsed) \<Rightarrow> sign_local E rid rpId tx digest parsed
       | None \<Rightarrow> sign_cold E rid rpId tx digest)))"

subsection \<open>Exporting the key\<close>

definition export_key :: "env \<Rightarrow> string \<Rightarrow> nat \<Rightarrow> bytes \<Rightarrow> unit io" where
  "export_key E rid seed pub =
     catchM
       (bindM (read_buf seed) (\<lambda>sk.
        bindM (lift_opt OtherErr (if length sk > 64 \<or> 32 + length pub > 64 then None
            else Some (set_at (set_at (replicate 64 0) 0 sk) 32 pub))) (\<lambda>secret_bytes.
        bindM (new_buf ExportedKey secret_bytes) (\<lambda>secret.
        let secretB58 = k_base58 (e_kit E) secret_bytes in
        bindM (fill0 seed) (\<lambda>_.
        bindM (fill0 secret) (\<lambda>_.
        bindM (toBase58Pubkey E pub) (\<lambda>pk.
        bindM (pause E) (\<lambda>_.
        ok rid (RESULT_TYPE EXPORT_PRIVATE_KEY) [(''completed'', JBool True)]))))))))
       (\<lambda>e. bindM (fill0 seed) (\<lambda>_. throw e))"

definition handleExportPrivateKey :: "env \<Rightarrow> string \<Rightarrow> string \<Rightarrow> unit io" where
  "handleExportPrivateKey E rid rpId =
     bindM (await E r_confirm) (\<lambda>yes.
     if \<not> yes then fail rid USER_CANCELLED
     else
       bindM (read_local E) (\<lambda>local.
       case local of
         Some (raw, parsed) \<Rightarrow>
           bindM (unlock_busy E rid rpId parsed) (\<lambda>unlocked.
           case unlocked of
             None \<Rightarrow> ret ()
           | Some (seed, pub) \<Rightarrow> export_key E rid seed pub)
       | None \<Rightarrow>
           bindM (restoreWalletSeed E rid rpId) (\<lambda>restored.
           case restored of
             RSeed raw parsed seed pub \<Rightarrow> export_key E rid seed pub
           | _ \<Rightarrow> ret ())))"

subsection \<open>The dispatcher\<close>

definition end_flow :: "world \<Rightarrow> world" where
  "end_flow w = w\<lparr>w_st := end_op (w_st w), w_dismiss := None\<rparr>"

definition route :: "env \<Rightarrow> nat \<Rightarrow> inbound_request \<Rightarrow> unit io" where
  "route E n request =
     (case body request of
        AuthStart m c a \<Rightarrow> handleAuth E n (requestId request) (e_rpId E) m c a
      | SignTransaction tx \<Rightarrow> handleSign E (requestId request) (e_rpId E) tx
      | ExportPrivateKey \<Rightarrow> handleExportPrivateKey E (requestId request) (e_rpId E))"

definition handle :: "env \<Rightarrow> inbound_request \<Rightarrow> unit io" where
  "handle E request =
     (\<lambda>w. case handle_begin request w of
        (False, w') \<Rightarrow> (Ret (), w')
      | (True, w') \<Rightarrow>
          finallyM
            (catchM (route E (Suc (length (w_in w'))) request) (\<lambda>e. fail (requestId request) (codeOf e)))
            end_flow w')"

text \<open>
  The listener.  \<open>handle\<close> never throws (\<open>handle_no_throw\<close>), so the \<open>catch\<close> the source attaches to it
  has nothing to do.
\<close>

definition on_message :: "env \<Rightarrow> message_event \<Rightarrow> unit io" where
  "on_message E ev =
     (\<lambda>w. case listen E ev w of
        (None, w') \<Rightarrow> (Ret (), w')
      | (Some request, w') \<Rightarrow> handle E request w')"

subsection \<open>Unlocking for a signature or an export\<close>

lemma wp_consume [wps]:
  "wp (consume op rid d) Q X B =
     (\<lambda>w. case consumeAuthorization op rid d (w_st w) of (a, st) \<Rightarrow> Q a (w\<lparr>w_st := st\<rparr>))"
  by (rule ext) (simp add: wp_def consume_def split: prod.splits)

lemma unlock_busy_spec:
  assumes "isBusy (w_st w)" "crypto_documented E" "length (ciphertext p) = 48"
  shows "wp (unlock_busy E rid rp p)
    (\<lambda>res w'. case res of None \<Rightarrow> locked w w' | Some x \<Rightarrow> unlocked E w p x w') (\<lambda>_. locked w) (steady w) w"
proof -
  let ?i = "length (w_flags w)"
  let ?w1 = "w\<lparr>w_flags := w_flags w @ [False], w_dismiss := Some (?i, rid)\<rparr>"
  have "wp (decryptWallet E rp p) (unlocked E ?w1 p) (\<lambda>_. locked ?w1) (steady ?w1) ?w1"
    using assms by (intro decryptWallet_spec) simp_all
  then show ?thesis
    unfolding unlock_busy_def wps
  proof (rule wp_mono, goal_cases)
    case (1 x w')
    then show ?case
      by (cases x) (auto simp: wps unlocked_def locked_def nth_append list_update_append)
  qed (auto simp: locked_def)
qed

definition locked_seeds :: "world \<Rightarrow> world \<Rightarrow> bool" where
  "locked_seeds w w' \<longleftrightarrow> steady w w' \<and> isBusy (w_st w') \<and>
     (\<exists>bs. w_bufs w' = w_bufs w @ bs \<and> list_all (\<lambda>b. fst b = Seed \<longrightarrow> zeroed b) bs)"

definition unlocked_seed :: "env \<Rightarrow> world \<Rightarrow> nat \<Rightarrow> bytes \<Rightarrow> world \<Rightarrow> bool" where
  "unlocked_seed E w seed pub w' \<longleftrightarrow> steady w w' \<and> isBusy (w_st w') \<and>
     (\<exists>bs sk. w_bufs w' = w_bufs w @ bs @ [(Seed, sk)] \<and> list_all zeroed bs \<and> seed = length (w_bufs w @ bs) \<and>
        ed25519PublicKey E sk = Some pub)"

lemma locked_locked_seeds: "locked w w' \<Longrightarrow> locked_seeds w w'"
  by (auto simp: locked_def locked_seeds_def list_all_iff)

lemma locked_seeds_updates [simp]:
  "locked_seeds w (busy_clear w') = locked_seeds w w'" "locked_seeds w (w'\<lparr>w_items := c\<rparr>) = locked_seeds w w'"
  by (simp_all add: locked_seeds_def)

lemma locked_seeds_fail: "locked_seeds w w' \<Longrightarrow> locked_seeds w (fail_w r c w')"
  by (auto simp: locked_seeds_def intro: steady_trans steady_fail)

lemma locked_seeds_fill0:
  "locked_seeds w w' \<Longrightarrow> length (w_bufs w) \<le> i \<Longrightarrow> locked_seeds w (fill0_w i w')"
proof -
  assume h: "locked_seeds w w'" "length (w_bufs w) \<le> i"
  then obtain bs where bs: "w_bufs w' = w_bufs w @ bs" "list_all (\<lambda>b. fst b = Seed \<longrightarrow> zeroed b) bs"
    by (auto simp: locked_seeds_def)
  let ?j = "i - length (w_bufs w)"
  have "list_all (\<lambda>b. fst b = Seed \<longrightarrow> zeroed b) (bs[?j := (k, replicate m 0)])" for k m
    using bs(2) by (auto simp: list_all_iff dest!: set_update_subset_insert [THEN subsetD])
  with h bs show ?thesis by (auto simp: locked_seeds_def list_update_append nth_append)
qed

definition restored_ok :: "env \<Rightarrow> world \<Rightarrow> restored_seed \<Rightarrow> world \<Rightarrow> bool" where
  "restored_ok E w res w' =
     (case res of RSeed raw p seed pub \<Rightarrow> unlocked_seed E w seed pub w' | _ \<Rightarrow> locked_seeds w w')"

lemma restored_ok_simps [simp]:
  "restored_ok E w RFailed w' = locked_seeds w w'" "restored_ok E w RDismissed w' = locked_seeds w w'"
  "restored_ok E w (RSeed raw p seed pub) w' = unlocked_seed E w seed pub w'"
  by (simp_all add: restored_ok_def)

text \<open>The state between the discoverable assertion and the unlock: one PRF buffer after those of \<open>w\<close>.\<close>

definition asserted :: "world \<Rightarrow> world \<Rightarrow> bool" where
  "asserted w w' \<longleftrightarrow> steady w w' \<and> isBusy (w_st w') \<and> (\<exists>pr. w_bufs w' = w_bufs w @ [(Prf, pr)])"

lemma asserted_locked: "asserted w w' \<Longrightarrow> locked_seeds w w'"
  by (auto simp: asserted_def locked_seeds_def)

lemma restore_refuse_spec:
  "asserted w w1 \<Longrightarrow> wp (restore_refuse rid (length (w_bufs w)) c) (restored_ok E w) (\<lambda>_. locked_seeds w) (steady w) w1"
  using locked_seeds_fail [OF locked_seeds_fill0 [OF asserted_locked]]
  by (simp add: restore_refuse_def wps)

lemma restore_open_spec:
  assumes "asserted w w1" "crypto_documented E" "length (ciphertext p) = 48"
  shows "wp (restore_open E rid rp (length (w_bufs w)) raw p) (restored_ok E w) (\<lambda>_. locked_seeds w) (steady w) w1"
proof -
  from assms(1) obtain pr where w1: "steady w w1" "isBusy (w_st w1)" "w_bufs w1 = w_bufs w @ [(Prf, pr)]"
    by (auto simp: asserted_def)
  show ?thesis
    unfolding restore_open_def wp_bindM [of "unwrapWallet _ _ _ _"]
    using unwrapWallet_spec [OF w1(2) assms(2,3)]
  proof (rule wp_mono)
    fix x w' assume x: "unlocked E w1 p x w'"
    then have "steady w w'" using w1(1) by (cases x) (auto simp: unlocked_def intro: steady_trans)
    with x w1 show "wp (case x of (seed, pub) \<Rightarrow> bindM (fill0 (length (w_bufs w))) (\<lambda>_. bindM (write_local E raw) (\<lambda>written.
         if \<not> written then bindM (fill0 seed) (\<lambda>_. bindM (fail rid INTERNAL_ERROR) (\<lambda>_. ret RFailed))
         else ret (RSeed raw p seed pub)))) (restored_ok E w) (\<lambda>_. locked_seeds w) (steady w) w'"
      by (cases x) (auto simp: wps unlocked_def unlocked_seed_def restored_ok_def nth_append list_all_iff
          list_update_append locked_seeds_def intro!: steady_trans [OF _ steady_fail] split: prod.splits)
  next
    fix w' assume "locked w1 w'"
    with w1 show "locked_seeds w w'" by (auto simp: locked_def locked_seeds_def list_all_iff intro: steady_trans)
  next
    fix w' assume "steady w1 w'"
    with w1 show "steady w w'" by (auto intro: steady_trans)
  qed
qed

lemma restore_blob_spec:
  assumes "asserted w w1" "crypto_documented E"
  shows "wp (restore_blob E rid rp disc (length (w_bufs w)) b) (restored_ok E w) (\<lambda>_. locked_seeds w) (steady w) w1"
  unfolding restore_blob_def wps
  using restore_open_spec [OF assms parsed_ciphertext_length] restore_refuse_spec [OF assms(1)] asserted_locked [OF assms(1)]
  by (simp split: sum.split)

lemma restore_seed_body_spec:
  assumes "asserted w w1" "crypto_documented E"
  shows "wp (restore_seed_body E rid rp ch disc (length (w_bufs w))) (restored_ok E w) (\<lambda>_. locked_seeds w) (steady w) w1"
  unfolding restore_seed_body_def restoreOwnerWalletBlob_def wps
proof (rule await_steady, goal_cases)
  case (2 r rs w2)
  then have "asserted w w2" using assms(1) by (auto simp: asserted_def intro: steady_trans)
  with restore_blob_spec [OF this assms(2)] restore_refuse_spec [OF this]
  show ?case by (simp split: sum.split option.split)
qed (use assms(1) in \<open>auto simp: asserted_def\<close>)

lemma restore_catch_spec:
  "locked_seeds w w' \<Longrightarrow> wp (restore_catch rid i e) (restored_ok E w) (\<lambda>_. locked_seeds w) B w'"
  by (auto simp: restore_catch_def restored_ok_def wps locked_seeds_fail split: exn.splits)

lemma restore_try_spec:
  assumes "isBusy (w_st w)" "crypto_documented E"
  shows "wp (restore_try E rid rp ch i) (restored_ok E w) (\<lambda>_. locked_seeds w) (steady w) w"
  unfolding restore_try_def wps
proof (rule await_steady [OF assms(1)], goal_cases)
  case (1 r rs w1)
  then have l: "locked_seeds w w1" by (auto simp: locked_seeds_def)
  show ?case
  proof (cases "r_disc r")
    case (Inl e)
    with restore_catch_spec [OF l] show ?thesis by simp
  next
    case (Inr disc)
    let ?w2 = "w1\<lparr>w_bufs := w_bufs w1 @ [(Prf, d_prfOutput disc)]\<rparr>"
    have a: "asserted w ?w2" using 1 by (auto simp: asserted_def)
    have "wp (restore_seed_body E rid rp ch disc (length (w_bufs w1))) (restored_ok E w)
        (\<lambda>e. wp (bindM (fill0 (length (w_bufs w1))) (\<lambda>_. restore_catch rid i e)) (restored_ok E w)
          (\<lambda>_. locked_seeds w) (steady w)) (steady w) ?w2"
    proof (rule wp_mono)
      show "wp (restore_seed_body E rid rp ch disc (length (w_bufs w1))) (restored_ok E w)
          (\<lambda>_. locked_seeds w) (steady w) ?w2"
        using restore_seed_body_spec [OF a assms(2)] 1 by simp
    qed (use 1 in \<open>auto simp: wps intro!: restore_catch_spec locked_seeds_fill0\<close>)
    then show ?thesis using Inr asserted_locked [OF a] by (simp add: wps restored_ok_def)
  qed
qed simp

lemma restored_ok_clear [simp]: "restored_ok E w r (busy_clear w') = restored_ok E w r w'"
  by (cases r) (simp_all add: restored_ok_def unlocked_seed_def)

lemma restoreWalletSeed_spec:
  assumes "isBusy (w_st w)" "crypto_documented E"
  shows "wp (restoreWalletSeed E rid rp) (restored_ok E w) (\<lambda>_. locked_seeds w) (steady w) w"
  unfolding restoreWalletSeed_def issueRestoreChallenge_def wps
proof (rule await_steady, goal_cases)
  case (2 r rs w1)
  then have l: "locked_seeds w w1" by (auto simp: locked_seeds_def)
  note f = locked_seeds_fail [OF l]
  have "wp (restore_try E rid rp ch i) (restored_ok E w) (\<lambda>_. locked_seeds w) (steady w) (w1\<lparr>w_flags := a, w_dismiss := b\<rparr>)"
    for ch i a b
  proof (rule wp_mono)
    show "wp (restore_try E rid rp ch i) (restored_ok E (w1\<lparr>w_flags := a, w_dismiss := b\<rparr>))
        (\<lambda>_. locked_seeds (w1\<lparr>w_flags := a, w_dismiss := b\<rparr>)) (steady (w1\<lparr>w_flags := a, w_dismiss := b\<rparr>))
        (w1\<lparr>w_flags := a, w_dismiss := b\<rparr>)"
      using 2 assms(2) by (intro restore_try_spec) simp_all
  next
    fix x w' assume "restored_ok E (w1\<lparr>w_flags := a, w_dismiss := b\<rparr>) x w'"
    with 2 show "restored_ok E w x w'"
      by (cases x) (auto simp: restored_ok_def unlocked_seed_def locked_seeds_def intro: steady_trans)
  next
    fix w' assume "locked_seeds (w1\<lparr>w_flags := a, w_dismiss := b\<rparr>) w'"
    with 2 show "locked_seeds w w'" by (auto simp: locked_seeds_def intro: steady_trans)
  next
    fix w' assume "steady (w1\<lparr>w_flags := a, w_dismiss := b\<rparr>) w'"
    with 2 show "steady w w'" by (auto intro: steady_trans)
  qed
  with f show ?case by (auto simp: wps split: sum.split)
qed (use assms in auto)

subsection \<open>Signing\<close>

definition erring :: "world \<Rightarrow> world \<Rightarrow> bool" where
  "erring w w' \<longleftrightarrow> (\<exists>errs. w_posts w' = w_posts w @ errs \<and> list_all is_error errs)"

definition seeds_gone :: "world \<Rightarrow> world \<Rightarrow> bool" where
  "seeds_gone w w' \<longleftrightarrow> (\<exists>bs. w_bufs w' = w_bufs w @ bs \<and> list_all (\<lambda>b. fst b = Seed \<longrightarrow> zeroed b) bs)"

definition sign_reply :: "string \<Rightarrow> bytes \<Rightarrow> address \<Rightarrow> (string \<times> js) list" where
  "sign_reply rid sig pk = ok_msg rid (RESULT_TYPE SIGN_TRANSACTION)
     [(''signature'', JString (bytesToBase64 sig Std)), (''publicKey'', JString pk)]"

lemma steady_erring: "steady w w' \<Longrightarrow> erring w w'"
  by (auto simp: steady_def erring_def)

lemma erring_trans: "erring a b \<Longrightarrow> erring b c \<Longrightarrow> erring a c"
  by (auto simp: erring_def)

lemma erring_fail: "erring w w' \<Longrightarrow> erring w (fail_w r c w')"
  by (auto simp: erring_def)

lemma locked_seeds_gone: "locked_seeds w w' \<Longrightarrow> seeds_gone w w'"
  by (auto simp: locked_seeds_def seeds_gone_def)

lemma seeds_gone_fail [simp]: "seeds_gone w (fail_w r c w') = seeds_gone w w'"
  by (simp add: seeds_gone_def)

definition authorized_for :: "env \<Rightarrow> string \<Rightarrow> bytes \<Rightarrow> world \<Rightarrow> bool" where
  "authorized_for E rid frozen w \<longleftrightarrow>
     (\<exists>a. st_authorization (w_st w) = Some a \<and> auth_operation a = SIGN_PENDING \<and> auth_requestId a = rid \<and>
        auth_messageDigest a = digestHex (e_sha256 E) frozen)"

lemma consume_authorized:
  "authorized_for E rid frozen w \<Longrightarrow>
     \<exists>a. consumeAuthorization SIGN_PENDING rid (digestHex (e_sha256 E) frozen) (w_st w) =
       (Some a, (w_st w)\<lparr>st_authorization := None\<rparr>)"
  by (auto simp: authorized_for_def consumeAuthorization_def)

text \<open>How \<open>sign_frozen\<close> ends: the reply for the frozen bytes, or an error and no reply; the key is gone.\<close>

lemma sign_frozen_spec:
  assumes "isBusy (w_st w)" "authorized_for E rid frozen w" "w_bufs w = bs @ [(Seed, sk)]" "seed = length bs"
  shows "wp (sign_frozen E rid frozen seed pub)
    (\<lambda>_ w'. (\<exists>sig pk errs. e_edSign E frozen sk = Some sig \<and> k_addr_decode (e_kit E) pub = Some pk \<and>
        w_posts w' = w_posts w @ errs @ [sign_reply rid sig pk] \<and> list_all is_error errs) \<and>
       w_shown w' = w_shown w \<and> w_bufs w' = bs @ [(Seed, replicate (length sk) 0)])
    (\<lambda>_ w'. erring w w' \<and> w_bufs w' = bs @ [(Seed, replicate (length sk) 0)]) (erring w) w"
  unfolding sign_frozen_def wps
proof (rule await_steady [OF assms(1)], goal_cases)
  case (1 r rs w1)
  then have "authorized_for E rid frozen w1" using assms(1,2) by (auto simp: authorized_for_def steady_def)
  from consume_authorized [OF this] 1 assms(3,4) show ?case
    by (auto simp: wps signAndScrub_def toBase58Pubkey_def sign_reply_def steady_def erring_def split: option.splits)
qed (simp add: erring_def)

text \<open>What signing one transaction may have done to the world.\<close>

definition tx_outcome :: "env \<Rightarrow> string \<Rightarrow> decoded_transaction \<Rightarrow> world \<Rightarrow> world \<Rightarrow> bool" where
  "tx_outcome E rid tx w w' \<longleftrightarrow> erring w w' \<or>
     (\<exists>errs summary seen sk pk sig pka. w_posts w' = w_posts w @ errs @ [sign_reply rid sig pka] \<and>
        list_all is_error errs \<and> evaluatePolicy (e_kit E) tx pk = Some (POk summary) \<and>
        ed25519PublicKey E sk = Some pk \<and> k_addr_decode (e_kit E) pk = Some pka \<and>
        e_edSign E (dt_messageBytes tx) sk = Some sig \<and> w_shown w' = w_shown w @ [seen] \<and>
        ts_instructions seen = ts_instructions summary \<and> (\<exists>r rs. w_in w = r # rs \<and> r_confirm r))"

lemma tx_outcome_erring [simp, intro]: "erring w w' \<Longrightarrow> tx_outcome E rid tx w w'"
  by (simp add: tx_outcome_def)

text \<open>The common end of the two paths: from the unlocked key to the reply.\<close>

lemma sign_tail:
  assumes w3: "isBusy (w_st w3)" "authorized_for E rid (dt_messageBytes tx) w3"
      "w_bufs w3 = w_bufs w @ bs @ [(Seed, sk)]" "seed = length (w_bufs w @ bs)"
      "list_all (\<lambda>b. fst b = Seed \<longrightarrow> zeroed b) bs"
    and w: "erring w w3" "w_shown w3 = w_shown w @ [seen]"
    and facts: "evaluatePolicy (e_kit E) tx pk = Some (POk summary)" "ed25519PublicKey E sk = Some pk"
      "ts_instructions seen = ts_instructions summary" "w_in w = r # rs" "r_confirm r"
  shows "wp (sign_frozen E rid (dt_messageBytes tx) seed pk) (\<lambda>_ w'. tx_outcome E rid tx w w' \<and> seeds_gone w w')
    (\<lambda>_ w'. tx_outcome E rid tx w w' \<and> seeds_gone w w') (erring w) w3"
proof -
  have "wp (sign_frozen E rid (dt_messageBytes tx) seed pk)
    (\<lambda>_ w'. (\<exists>sig pka errs. e_edSign E (dt_messageBytes tx) sk = Some sig \<and> k_addr_decode (e_kit E) pk = Some pka \<and>
        w_posts w' = w_posts w3 @ errs @ [sign_reply rid sig pka] \<and> list_all is_error errs) \<and>
       w_shown w' = w_shown w3 \<and> w_bufs w' = (w_bufs w @ bs) @ [(Seed, replicate (length sk) 0)])
    (\<lambda>_ w'. erring w3 w' \<and> w_bufs w' = (w_bufs w @ bs) @ [(Seed, replicate (length sk) 0)]) (erring w3) w3"
    using w3 by (intro sign_frozen_spec) simp_all
  then show ?thesis
  proof (rule wp_mono, goal_cases)
    case (1 u w')
    then obtain sig pka errs where o: "e_edSign E (dt_messageBytes tx) sk = Some sig" "k_addr_decode (e_kit E) pk = Some pka"
      "w_posts w' = w_posts w3 @ errs @ [sign_reply rid sig pka]" "list_all is_error errs" by blast
    from w(1) obtain errs0 where "w_posts w3 = w_posts w @ errs0" "list_all is_error errs0" by (auto simp: erring_def)
    with o have "w_posts w' = w_posts w @ (errs0 @ errs) @ [sign_reply rid sig pka]" "list_all is_error (errs0 @ errs)"
      by simp_all
    with o facts w(2) 1 have "tx_outcome E rid tx w w'" unfolding tx_outcome_def by metis
    moreover have "seeds_gone w w'" using 1 w3(5) by (auto simp: seeds_gone_def)
    ultimately show ?case ..
  next
    case (2 e w')
    then show ?case using w(1) w3(5) by (auto simp: seeds_gone_def intro: erring_trans)
  next
    case (3 w')
    then show ?case using w(1) by (rule erring_trans [rotated])
  qed
qed

lemma authorized_steady:
  "steady (w\<lparr>w_st := authorize a (w_st w)\<rparr>) w' \<Longrightarrow> isBusy (w_st w) \<Longrightarrow> st_authorization (w_st w') = Some a"
  by (simp add: steady_def authorize_def isBusy_def)

lemma sign_local_spec:
  assumes "isBusy (w_st w)" "crypto_documented E" "length (ciphertext p) = 48"
  shows "wp (sign_local E rid rp tx (digestHex (e_sha256 E) (dt_messageBytes tx)) p)
    (\<lambda>_ w'. tx_outcome E rid tx w w' \<and> seeds_gone w w') (\<lambda>_ w'. tx_outcome E rid tx w w' \<and> seeds_gone w w') (erring w) w"
    (is "wp _ ?Q ?X ?B w")
proof -
  have refl: "erring w w" "seeds_gone w w" by (simp_all add: erring_def seeds_gone_def)
  show ?thesis
  proof (cases "evaluatePolicy (e_kit E) tx (publicKey p)")
    case None
    with refl show ?thesis by (simp add: sign_local_def wps)
  next
    case (Some pol)
    show ?thesis
    proof (cases pol)
      case (PFail c)
      with Some refl show ?thesis by (simp add: sign_local_def wps erring_fail)
    next
      case (POk summary)
      with Some have ev: "evaluatePolicy (e_kit E) tx (publicKey p) = Some (POk summary)" by simp
      let ?w1 = "w\<lparr>w_shown := w_shown w @ [summary]\<rparr>"
      show ?thesis
        unfolding sign_local_def Some POk confirmSignTransaction_def authorize_sign_def option.case policy_result.case wps
      proof (rule await_steady, goal_cases)
        case (2 r rs w2)
        then have st: "steady ?w1 w2" and in_w: "w_in w = r # rs" and b2: "w_bufs w2 = w_bufs w" "isBusy (w_st w2)" by auto
        from st have e2: "erring w w2" and sh2: "w_shown w2 = w_shown w @ [summary]"
          by (auto simp: steady_def erring_def)
        let ?a = "\<lparr>auth_operation = SIGN_PENDING, auth_requestId = rid, auth_walletPublicKey = publicKey p,
          auth_messageDigest = digestHex (e_sha256 E) (dt_messageBytes tx), auth_createdAt = w_now w2\<rparr>"
        let ?w3 = "w2\<lparr>w_st := authorize ?a (w_st w2)\<rparr>"
        have b3: "isBusy (w_st ?w3)" using b2 by (simp add: authorize_def isBusy_def)
        have e3: "erring w ?w3" using e2 by (simp add: erring_def)
        have "wp (unlock_busy E rid rp p) (\<lambda>x. wp (case x of None \<Rightarrow> ret ()
            | Some (seed, pub) \<Rightarrow> sign_frozen E rid (dt_messageBytes tx) seed pub) ?Q ?X ?B) ?X ?B ?w3" if "r_confirm r"
          using unlock_busy_spec [OF b3 assms(2,3)]
        proof (rule wp_mono, goal_cases)
          case (1 x w4)
          show ?case
          proof (cases x)
            case None
            with 1 have "locked ?w3 w4" by simp
            then have "erring w w4" "seeds_gone w w4"
              using e3 b2 by (auto simp: locked_def seeds_gone_def list_all_iff intro: erring_trans steady_erring)
            with None show ?thesis by (simp add: wps)
          next
            case (Some sp)
            obtain seed pub where sp: "sp = (seed, pub)" by (cases sp)
            with Some 1 obtain bs sk where u: "steady ?w3 w4" "isBusy (w_st w4)" "pub = publicKey p"
              "w_bufs w4 = w_bufs w @ bs @ [(Seed, sk)]" "list_all zeroed bs" "seed = length (w_bufs w @ bs)"
              "ed25519PublicKey E sk = Some pub"
              using b2 by (auto simp: unlocked_def)
            have "authorized_for E rid (dt_messageBytes tx) w4"
              using authorized_steady [OF u(1) b2(2)] by (simp add: authorized_for_def)
            moreover have "erring w w4" using e3 steady_erring [OF u(1)] by (rule erring_trans)
            moreover have "w_shown w4 = w_shown w @ [summary]" using u(1) sh2 by (simp add: steady_def)
            moreover have "list_all (\<lambda>b. fst b = Seed \<longrightarrow> zeroed b) bs" using u(5) by (auto simp: list_all_iff)
            ultimately show ?thesis
              using sign_tail [where bs = bs and sk = sk and summary = summary and seen = summary and r = r and rs = rs,
                  OF u(2) _ u(4,6)] u(3,7) Some sp ev in_w that
              by simp
          qed
        next
          case (2 e w4)
          then show ?case
            using e3 b2 by (auto simp: locked_def seeds_gone_def list_all_iff intro!: tx_outcome_erring intro: erring_trans steady_erring)
        next
          case (3 w4)
          then show ?case using e3 by (auto intro: erring_trans steady_erring)
        qed
        then show ?case using e2 b2 by (auto simp: wps erring_fail seeds_gone_def)
      qed (use assms in \<open>auto simp: erring_def\<close>)
    qed
  qed
qed

lemma ed25519PublicKey_length: "ed25519PublicKey E s = Some pk \<Longrightarrow> length pk = 32"
  by (auto simp: ed25519PublicKey_def ED25519_PUBKEY_BYTES_def split: option.splits if_splits)

lemma evaluatePolicy_total:
  assumes "kit_addresses_ok k" "length pk = 32"
  shows "\<exists>r. evaluatePolicy k tx pk = Some r"
proof -
  from assms obtain a where "k_addr_decode k pk = Some a" unfolding kit_addresses_ok_def by blast
  then show ?thesis by (auto simp: evaluatePolicy_def split: policy_result.splits)
qed

lemma sign_cold_spec:
  assumes "isBusy (w_st w)" "crypto_documented E" "kit_addresses_ok (e_kit E)"
  shows "wp (sign_cold E rid rp tx (digestHex (e_sha256 E) (dt_messageBytes tx)))
    (\<lambda>_ w'. tx_outcome E rid tx w w' \<and> seeds_gone w w') (\<lambda>_ w'. tx_outcome E rid tx w w' \<and> seeds_gone w w') (erring w) w"
    (is "wp _ ?Q ?X ?B w")
proof (cases "previewPolicy (e_kit E) tx")
  case (PFail c)
  then show ?thesis by (simp add: sign_cold_def wps erring_fail erring_def seeds_gone_def)
next
  case (POk preview)
  let ?w1 = "w\<lparr>w_shown := w_shown w @ [preview]\<rparr>"
  show ?thesis
    unfolding sign_cold_def POk confirmSignTransaction_def policy_result.case wps
  proof (rule await_steady, goal_cases)
    case (2 r rs w2)
    then have st: "steady ?w1 w2" and in_w: "w_in w = r # rs" and b2: "w_bufs w2 = w_bufs w" "isBusy (w_st w2)" by auto
    from st have e2: "erring w w2" and sh2: "w_shown w2 = w_shown w @ [preview]"
      by (auto simp: steady_def erring_def)
    have "wp (restoreWalletSeed E rid rp) (\<lambda>x. wp (case x of RSeed raw parsed seed pub \<Rightarrow>
             bindM (lift_opt OtherErr (evaluatePolicy (e_kit E) tx pub)) (\<lambda>policy. case policy of
               POk _ \<Rightarrow> bindM (authorize_sign rid pub (digestHex (e_sha256 E) (dt_messageBytes tx))) (\<lambda>_.
                 sign_frozen E rid (dt_messageBytes tx) seed pub)
             | PFail code \<Rightarrow> bindM (fill0 seed) (\<lambda>_. fail rid code))
           | _ \<Rightarrow> ret ()) ?Q ?X ?B) ?X ?B w2" if "r_confirm r"
      using restoreWalletSeed_spec [OF b2(2) assms(2)]
    proof (rule wp_mono, goal_cases)
      case (1 x w4)
      show ?case
      proof (cases "\<exists>raw parsed seed pub. x = RSeed raw parsed seed pub")
        case False
        with 1 have "locked_seeds w2 w4" by (cases x) auto
        then have "erring w w4" "seeds_gone w w4"
          using e2 b2 by (auto simp: locked_seeds_def seeds_gone_def intro: erring_trans steady_erring)
        with False show ?thesis by (cases x) (auto simp: wps)
      next
        case True
        then obtain raw parsed seed pub where x: "x = RSeed raw parsed seed pub" by blast
        with 1 obtain bs sk where u: "steady w2 w4" "isBusy (w_st w4)"
          "w_bufs w4 = w_bufs w @ bs @ [(Seed, sk)]" "list_all zeroed bs" "seed = length (w_bufs w @ bs)"
          "ed25519PublicKey E sk = Some pub"
          using b2 by (auto simp: unlocked_seed_def)
        have e4: "erring w w4" using e2 steady_erring [OF u(1)] by (rule erring_trans)
        have sh4: "w_shown w4 = w_shown w @ [preview]" using u(1) sh2 by (simp add: steady_def)
        have z: "list_all (\<lambda>b. fst b = Seed \<longrightarrow> zeroed b) bs" using u(4) by (auto simp: list_all_iff)
        obtain pol where pol: "evaluatePolicy (e_kit E) tx pub = Some pol"
          using evaluatePolicy_total [OF assms(3) ed25519PublicKey_length [OF u(6)]] by blast
        show ?thesis
        proof (cases pol)
          case (PFail c)
          with pol x e4 u(3,5) z show ?thesis
            by (auto simp: wps seeds_gone_def erring_def nth_append list_update_append)
        next
          case (POk summary)
          then have ins: "ts_instructions preview = ts_instructions summary"
            using pol \<open>previewPolicy (e_kit E) tx = POk preview\<close> by (auto simp: evaluatePolicy_POk_iff)
          let ?w5 = "w4\<lparr>w_st := authorize \<lparr>auth_operation = SIGN_PENDING, auth_requestId = rid, auth_walletPublicKey = pub,
            auth_messageDigest = digestHex (e_sha256 E) (dt_messageBytes tx), auth_createdAt = w_now w4\<rparr> (w_st w4)\<rparr>"
          have "wp (sign_frozen E rid (dt_messageBytes tx) seed pub) ?Q ?X ?B ?w5"
          proof (rule sign_tail [where bs = bs and sk = sk and summary = summary and seen = preview and r = r and rs = rs])
            show "isBusy (w_st ?w5)" using u(2) by (simp add: authorize_def isBusy_def)
            show "authorized_for E rid (dt_messageBytes tx) ?w5" by (simp add: authorized_for_def authorize_def)
            show "erring w ?w5" using e4 by (simp add: erring_def)
          qed (use u z sh4 pol POk ins in_w that in simp_all)
          with pol POk x show ?thesis by (simp add: wps authorize_sign_def)
        qed
      qed
    next
      case (2 e w4)
      then show ?case
        using e2 b2 by (auto simp: locked_seeds_def seeds_gone_def intro!: tx_outcome_erring intro: erring_trans steady_erring)
    next
      case (3 w4)
      then show ?case using e2 by (auto intro: erring_trans steady_erring)
    qed
    then show ?case using e2 b2 by (auto simp: wps erring_fail seeds_gone_def)
  qed (use assms in \<open>auto simp: erring_def\<close>)
qed

text \<open>What \<open>handleSign\<close> may have done: the outcome for the transaction the request carries.\<close>

definition signed_as_confirmed :: "env \<Rightarrow> string \<Rightarrow> string \<Rightarrow> world \<Rightarrow> world \<Rightarrow> (string \<times> js) list \<Rightarrow> bool" where
  "signed_as_confirmed E rid txB64 w w' reply \<longleftrightarrow>
     (\<exists>txBytes tx pk sk summary seen sig pka.
        base64ToBytes txB64 MAX_TX_BYTES Std = Inr txBytes \<and> decodeV1Transaction (e_kit E) txBytes = Some tx \<and>
        evaluatePolicy (e_kit E) tx pk = Some (POk summary) \<and> ed25519PublicKey E sk = Some pk \<and>
        k_addr_decode (e_kit E) pk = Some pka \<and> e_edSign E (dt_messageBytes tx) sk = Some sig \<and>
        w_shown w' = w_shown w @ [seen] \<and> ts_instructions seen = ts_instructions summary \<and>
        (\<exists>r0 r rs. w_in w = r0 # r # rs \<and> r_confirm r) \<and> reply = sign_reply rid sig pka)"

definition sign_outcome :: "env \<Rightarrow> string \<Rightarrow> string \<Rightarrow> world \<Rightarrow> world \<Rightarrow> bool" where
  "sign_outcome E rid txB64 w w' \<longleftrightarrow>
     (\<exists>errs. list_all is_error errs \<and>
        (w_posts w' = w_posts w @ errs \<or>
         (\<exists>reply. w_posts w' = w_posts w @ errs @ [reply] \<and> signed_as_confirmed E rid txB64 w w' reply)))"

lemma sign_outcome_erring: "erring w w' \<Longrightarrow> sign_outcome E rid txB64 w w'"
  by (auto simp: sign_outcome_def erring_def)

lemma tx_outcome_sign_outcome:
  assumes "tx_outcome E rid tx w1 w'" "erring w w1" "w_shown w1 = w_shown w" "w_in w = r0 # w_in w1"
    and "base64ToBytes txB64 MAX_TX_BYTES Std = Inr txBytes" "decodeV1Transaction (e_kit E) txBytes = Some tx"
  shows "sign_outcome E rid txB64 w w'"
proof -
  from assms(2) obtain errs0 where 0: "w_posts w1 = w_posts w @ errs0" "list_all is_error errs0" by (auto simp: erring_def)
  show ?thesis
  proof (cases "erring w1 w'")
    case True
    with assms(2) show ?thesis by (auto intro: sign_outcome_erring erring_trans)
  next
    case False
    with assms(1) obtain errs summary seen sk pk sig pka r rs where
      "w_posts w' = w_posts w1 @ errs @ [sign_reply rid sig pka]" "list_all is_error errs"
      and f: "evaluatePolicy (e_kit E) tx pk = Some (POk summary)" "ed25519PublicKey E sk = Some pk"
      "k_addr_decode (e_kit E) pk = Some pka" "e_edSign E (dt_messageBytes tx) sk = Some sig"
      "w_shown w' = w_shown w1 @ [seen]" "ts_instructions seen = ts_instructions summary" "w_in w1 = r # rs" "r_confirm r"
      unfolding tx_outcome_def by blast
    with 0 have p: "w_posts w' = w_posts w @ (errs0 @ errs) @ [sign_reply rid sig pka]" "list_all is_error (errs0 @ errs)"
      by simp_all
    have "signed_as_confirmed E rid txB64 w w' (sign_reply rid sig pka)"
      unfolding signed_as_confirmed_def using f assms(3-6) by (metis (no_types, lifting))
    with p show ?thesis unfolding sign_outcome_def by blast
  qed
qed

lemma handleSign_spec:
  assumes "isBusy (w_st w)" "crypto_documented E" "kit_addresses_ok (e_kit E)"
  shows "wp (handleSign E rid rp txB64) (\<lambda>_ w'. sign_outcome E rid txB64 w w' \<and> seeds_gone w w')
    (\<lambda>_ w'. sign_outcome E rid txB64 w w' \<and> seeds_gone w w') (erring w) w"
    (is "wp _ ?Q ?X ?B w")
proof -
  have refl: "erring w w" "seeds_gone w w" by (simp_all add: erring_def seeds_gone_def)
  show ?thesis
  proof (cases "base64ToBytes txB64 MAX_TX_BYTES Std")
    case (Inl e)
    with refl show ?thesis by (simp add: handleSign_def wps sign_outcome_erring)
  next
    case (Inr txBytes)
    show ?thesis
    proof (cases "decodeV1Transaction (e_kit E) txBytes")
      case None
      with Inr refl show ?thesis by (simp add: handleSign_def wps sign_outcome_erring erring_fail)
    next
      case (Some tx)
      let ?d = "digestHex (e_sha256 E) (dt_messageBytes tx)"
      have "wp (await E (\<lambda>_. ())) (\<lambda>_ w1. wp (case readLocalBlob (e_store E) (w_items w1) of
            None \<Rightarrow> sign_cold E rid rp tx ?d | Some (raw, p) \<Rightarrow> sign_local E rid rp tx ?d p) ?Q ?X ?B w1) ?X ?B w"
      proof (rule await_steady [OF assms(1)], goal_cases)
        case (1 r rs w1)
        then have w1: "erring w w1" "w_shown w1 = w_shown w" "w_in w = r # w_in w1" "w_bufs w1 = w_bufs w" "isBusy (w_st w1)"
          by (auto simp: steady_def erring_def)
        have up: "tx_outcome E rid tx w1 w' \<and> seeds_gone w1 w' \<Longrightarrow> sign_outcome E rid txB64 w w' \<and> seeds_gone w w'" for w'
          using tx_outcome_sign_outcome [OF _ w1(1-3) Inr Some] w1(4) by (auto simp: seeds_gone_def)
        have "wp (sign_cold E rid rp tx ?d) ?Q ?X ?B w1"
          by (rule wp_mono [OF sign_cold_spec [OF w1(5) assms(2,3)]]) (use up w1(1) in \<open>auto intro: erring_trans\<close>)
        moreover have "wp (sign_local E rid rp tx ?d p) ?Q ?X ?B w1" if "readLocalBlob (e_store E) (w_items w1) = Some (raw, p)" for raw p
          by (rule wp_mono [OF sign_local_spec [OF w1(5) assms(2) local_ciphertext_length [OF that]]])
            (use up w1(1) in \<open>auto intro: erring_trans\<close>)
        ultimately show ?case by (auto split: option.split prod.split)
      qed (simp add: erring_def)
      then show ?thesis using Inr Some by (simp add: handleSign_def wps Let_def)
    qed
  qed
qed

subsection \<open>No secret key survives a flow\<close>

lemma seeds_gone_refl [simp]: "seeds_gone w w"
  by (simp add: seeds_gone_def)

lemma seeds_gone_updates [simp]:
  "seeds_gone w (w'\<lparr>w_items := a\<rparr>) = seeds_gone w w'" "seeds_gone w (busy_clear w') = seeds_gone w w'"
  "seeds_gone w (post_w m w') = seeds_gone w w'" "seeds_gone w (w'\<lparr>w_sent := c\<rparr>) = seeds_gone w w'"
  "seeds_gone w (w'\<lparr>w_in := d\<rparr>) = seeds_gone w w'" "seeds_gone w (meanwhile E r w') = seeds_gone w w'"
  by (simp_all add: seeds_gone_def)

lemma seeds_gone_eq: "w_bufs a = w_bufs b \<Longrightarrow> seeds_gone w a = seeds_gone w b"
  by (simp add: seeds_gone_def)

lemma seeds_gone_trans: "seeds_gone a b \<Longrightarrow> seeds_gone b c \<Longrightarrow> seeds_gone a c"
  by (auto simp: seeds_gone_def)

lemma export_key_spec:
  assumes "w_bufs w3 = w_bufs w @ bs @ [(Seed, sk)]" "seed = length (w_bufs w @ bs)"
    "list_all (\<lambda>b. fst b = Seed \<longrightarrow> zeroed b) bs"
  shows "wp (export_key E rid seed pub) (\<lambda>_. seeds_gone w) (\<lambda>_. seeds_gone w) (\<lambda>_. True) w3"
  using assms
  by (auto simp: export_key_def wps wp_await toBase58Pubkey_def seeds_gone_def nth_append list_update_append Let_def
      split: option.splits list.splits)

lemma handleExport_seeds:
  assumes "isBusy (w_st w)" "crypto_documented E"
  shows "wp (handleExportPrivateKey E rid rp) (\<lambda>_. seeds_gone w) (\<lambda>_. seeds_gone w) (\<lambda>_. True) w"
  unfolding handleExportPrivateKey_def wps
proof (rule await_steady [OF assms(1)], goal_cases)
  case (1 r rs w1)
  then have g: "seeds_gone w w1" by (simp add: seeds_gone_def)
  have cold: "wp (restoreWalletSeed E rid rp) (\<lambda>x. wp (case x of RSeed raw parsed seed pub \<Rightarrow> export_key E rid seed pub | _ \<Rightarrow> ret ())
      (\<lambda>_. seeds_gone w) (\<lambda>_. seeds_gone w) (\<lambda>_. True)) (\<lambda>_. seeds_gone w) (\<lambda>_. True) w1"
    using restoreWalletSeed_spec [OF 1(6) assms(2)]
  proof (rule wp_mono, goal_cases)
    case (1 x w')
    then show ?case
      using g by (cases x) (auto simp: wps restored_ok_def unlocked_seed_def seeds_gone_def list_all_iff
          intro!: export_key_spec dest!: locked_seeds_gone)
  qed (use g in \<open>auto dest!: locked_seeds_gone intro: seeds_gone_trans\<close>)
  have local: "wp (unlock_busy E rid rp p) (\<lambda>x. wp (case x of None \<Rightarrow> ret () | Some (seed, pub) \<Rightarrow> export_key E rid seed pub)
      (\<lambda>_. seeds_gone w) (\<lambda>_. seeds_gone w) (\<lambda>_. True)) (\<lambda>_. seeds_gone w) (\<lambda>_. True) w1"
    if "readLocalBlob (e_store E) (w_items w1) = Some (raw, p)" for raw p
    using unlock_busy_spec [OF 1(6) assms(2) local_ciphertext_length [OF that]]
  proof (rule wp_mono, goal_cases)
    case (1 x w')
    then show ?case
      using g by (cases x) (auto simp: wps unlocked_def seeds_gone_def list_all_iff
          intro!: export_key_spec dest!: locked_locked_seeds locked_seeds_gone)
  qed (use g in \<open>auto dest!: locked_locked_seeds locked_seeds_gone intro: seeds_gone_trans\<close>)
  from g cold local show ?case by (auto simp: wps split: option.split prod.split)
qed simp

definition seeds_gone_busy :: "world \<Rightarrow> world \<Rightarrow> bool" where
  "seeds_gone_busy w w' \<longleftrightarrow> seeds_gone w w' \<and> isBusy (w_st w')"

lemma locked_gone_busy: "locked w w' \<Longrightarrow> seeds_gone_busy w w'"
  by (auto simp: seeds_gone_busy_def locked_def seeds_gone_def list_all_iff)

lemma address_defined: "kit_addresses_ok k \<Longrightarrow> length pk = 32 \<Longrightarrow> \<exists>a. k_addr_decode k pk = Some a"
  unfolding kit_addresses_ok_def by blast

lemma local_unlock_body_seeds:
  assumes "isBusy (w_st w)" "crypto_documented E" "kit_addresses_ok (e_kit E)" "length (ciphertext p) = 48"
  shows "wp (local_unlock_body E rid rp raw p i) (\<lambda>_. seeds_gone w) (\<lambda>_. seeds_gone_busy w) (\<lambda>_. True) w"
  unfolding local_unlock_body_def mintBackupChallenge_def issueBackupChallenge_def wps
proof (rule await_steady, goal_cases)
  case (2 r rs w1)
  then have g: "seeds_gone_busy w w1" by (simp add: seeds_gone_def seeds_gone_busy_def)
  have bufs: "w_bufs w1 = w_bufs w" using 2 by simp
  have dec: "wp (decryptWallet E rp p) (\<lambda>x. wp (case x of (seed, pub) \<Rightarrow> bindM (wasDismissed i) (\<lambda>dismissed.
      if dismissed then fill0 seed
      else bindM (signChallenge E ch seed PUT_CHALLENGE_PREFIX) (\<lambda>putSignature.
       case putSignature of
         None \<Rightarrow> bindM (fill0 seed) (\<lambda>_. fail rid INTERNAL_ERROR)
       | Some sig \<Rightarrow>
         bindM (toBase58Pubkey E pub) (\<lambda>pk.
         bindM (attempt (pushBackup E (bytesToBase64 raw Url) pk cid sig None)) (\<lambda>pushed.
         case pushed of
           Inl _ \<Rightarrow> bindM (fill0 seed) (\<lambda>_. fail rid BLOB_UNAVAILABLE)
         | Inr expiresAt \<Rightarrow>
           bindM (fill0 seed) (\<lambda>_.
           bindM (write_local E raw) (\<lambda>written.
           if \<not> written then fail rid INTERNAL_ERROR
           else
             bindM (pause E) (\<lambda>_.
             bindM (wasDismissed i) (\<lambda>dismissed.
             if dismissed then ret ()
             else ok rid (RESULT_TYPE AUTH_START) (auth_result pk False expiresAt))))))))))
      (\<lambda>_. seeds_gone w) (\<lambda>_. seeds_gone_busy w) (\<lambda>_. True)) (\<lambda>_. seeds_gone_busy w) (\<lambda>_. True) w1" for ch cid
    using decryptWallet_spec [OF 2(6) assms(2,4)]
  proof (rule wp_mono, goal_cases)
    case (1 x w2)
    obtain seed pub where x: "x = (seed, pub)" by (cases x)
    with 1 obtain bs sk where u: "w_bufs w2 = w_bufs w @ bs @ [(Seed, sk)]" "list_all zeroed bs"
      "seed = length (w_bufs w @ bs)" "ed25519PublicKey E sk = Some pub"
      using bufs by (auto simp: unlocked_def)
    then have z: "list_all (\<lambda>b. fst b = Seed \<longrightarrow> zeroed b) bs" by (auto simp: list_all_iff)
    obtain a where a: "k_addr_decode (e_kit E) pub = Some a"
      using address_defined [OF assms(3) ed25519PublicKey_length [OF u(4)]] by blast
    show ?case
      using u z a x
      by (auto simp: wps wp_await signChallenge_def toBase58Pubkey_def pushBackup_def backupOwnerWalletBlob_def
          seeds_gone_def nth_append list_update_append split: option.splits list.splits sum.splits)
  qed (use g bufs in \<open>auto simp: seeds_gone_busy_def seeds_gone_def dest!: locked_gone_busy\<close>)
  from g dec show ?case by (auto simp: wps split: sum.split)
qed (use assms in auto)

text \<open>What the handlers do after their \<open>try\<close> block failed: report the dismissal, retry or throw.\<close>

lemma retry_seeds:
  assumes g: "seeds_gone_busy w w1"
    and rec: "\<And>w2. isBusy (w_st w2) \<Longrightarrow> wp again (\<lambda>_. seeds_gone w2) (\<lambda>_. seeds_gone_busy w2) (\<lambda>_. True) w2"
  shows "wp (bindM (await E r_retry) (\<lambda>yes. if yes then again else fail rid c)) (\<lambda>_. seeds_gone w) (\<lambda>_. seeds_gone_busy w) (\<lambda>_. True) w1"
  unfolding wps
proof (rule await_steady, goal_cases)
  case (2 r rs w2)
  then have g2: "seeds_gone w w2" using g by (simp add: seeds_gone_busy_def seeds_gone_def)
  from rec [OF 2(6)] have "wp again (\<lambda>_. seeds_gone w) (\<lambda>_. seeds_gone_busy w) (\<lambda>_. True) w2"
    by (rule wp_mono) (use g2 in \<open>auto simp: seeds_gone_busy_def intro: seeds_gone_trans\<close>)
  with g2 show ?case by simp
qed (use g in \<open>auto simp: seeds_gone_busy_def\<close>)

lemma seeds_gone_busy_updates [simp]:
  "seeds_gone_busy w (busy_clear w') = seeds_gone_busy w w'"
  by (simp add: seeds_gone_busy_def)

lemma busy_clear_seeds [simp]:
  "seeds_gone (busy_clear w) = seeds_gone w" "seeds_gone_busy (busy_clear w) = seeds_gone_busy w"
  by (rule ext, simp add: seeds_gone_def seeds_gone_busy_def)+

lemma busy_flow_seeds:
  assumes busy: "isBusy (w_st w)"
    and fbody: "\<And>w i. isBusy (w_st w) \<Longrightarrow> wp (flow i) (\<lambda>_. seeds_gone w) (\<lambda>_. seeds_gone_busy w) (\<lambda>_. True) w"
    and again: "\<And>w. isBusy (w_st w) \<Longrightarrow> wp again (\<lambda>_. seeds_gone w) (\<lambda>_. seeds_gone_busy w) (\<lambda>_. True) w"
  shows "wp (bindM (beginBusy rid) (\<lambda>i.
      finallyM
        (catchM (flow i) (\<lambda>e.
          bindM (wasDismissed i) (\<lambda>dismissed.
          if dismissed then ret ()
          else if retryable e then bindM (await E r_retry) (\<lambda>yes. if yes then again else fail rid c)
          else throw e)))
        busy_clear)) (\<lambda>_. seeds_gone w) (\<lambda>_. seeds_gone_busy w) (\<lambda>_. True) w"
  unfolding wp_bindM [of "beginBusy _"] wp_beginBusy wp_finallyM wp_catchM
proof (rule wp_mono [OF fbody], goal_cases)
  case 1
  then show ?case using busy by simp
next
  case (2 u w')
  then show ?case by (simp add: seeds_gone_def)
next
  case (3 e w')
  then have gb: "seeds_gone_busy w w'" by (simp add: seeds_gone_busy_def seeds_gone_def)
  then have g: "seeds_gone w w'" by (simp add: seeds_gone_busy_def)
  consider "w_flags w' ! length (w_flags w)" | "\<not> w_flags w' ! length (w_flags w)" "retryable e"
    | "\<not> w_flags w' ! length (w_flags w)" "\<not> retryable e"
    by blast
  then show ?case
  proof cases
    case 2
    then show ?thesis
      using retry_seeds [OF gb again, of E rid c] by (simp add: wp_bindM [of "wasDismissed _"] wp_wasDismissed)
  qed (use g gb in \<open>simp_all add: wps\<close>)
qed simp

lemma handleLocalUnlock_seeds:
  assumes "crypto_documented E" "kit_addresses_ok (e_kit E)" "length (ciphertext p) = 48"
  shows "isBusy (w_st w) \<Longrightarrow>
    wp (handleLocalUnlock E n rid rp raw p) (\<lambda>_. seeds_gone w) (\<lambda>_. seeds_gone_busy w) (\<lambda>_. True) w"
proof (induction n arbitrary: w)
  case 0
  then show ?case by (simp add: wp_def blocked_def)
next
  case (Suc n)
  show ?case
    unfolding handleLocalUnlock.simps wp_bindM [of "await _ _"]
  proof (rule await_steady [OF Suc.prems], goal_cases)
    case (1 r rs w1)
    then have g: "seeds_gone w = seeds_gone w1" "seeds_gone_busy w = seeds_gone_busy w1"
      by (auto simp: seeds_gone_def seeds_gone_busy_def)
    have flow: "wp (local_unlock_body E rid rp raw p i) (\<lambda>_. seeds_gone w) (\<lambda>_. seeds_gone_busy w) (\<lambda>_. True) w"
      if "isBusy (w_st w)" for w i
      using that assms by (rule local_unlock_body_seeds)
    show ?case
      using busy_flow_seeds [where retryable = "\<lambda>e. codeOf e = AUTHENTICATION_FAILED \<or> codeOf e = DECRYPTION_FAILED" and rid = rid and E = E and c = AUTHENTICATION_FAILED, OF 1(6) flow Suc.IH] assms
      by (simp add: g wp_fail)
  qed simp
qed

lemma create_body_seeds:
  assumes "isBusy (w_st w)" "kit_addresses_ok (e_kit E)"
  shows "wp (create_body E rid credB64 att i) (\<lambda>_. seeds_gone w) (\<lambda>_. seeds_gone_busy w) (\<lambda>_. True) w"
  unfolding create_body_def mintBackupChallenge_def issueBackupChallenge_def wps
proof (rule await_steady, goal_cases)
  case (2 r rs w1)
  then have g: "seeds_gone w w1" "seeds_gone_busy w w1" by (simp_all add: seeds_gone_def seeds_gone_busy_def)
  have enr: "wp (enrollExistingCredential E (e_rpId E) cid (Some m)) (\<lambda>x. wp (bindM (wasDismissed i) (\<lambda>dismissed.
       if dismissed then ret ()
       else case cw_signature x of
         None \<Rightarrow> fail rid INTERNAL_ERROR
       | Some sig \<Rightarrow>
         bindM (toBase58Pubkey E (cw_publicKey x)) (\<lambda>pk.
         bindM (attempt (pushBackup E (bytesToBase64 (cw_blob x) Url) pk ch (bytesToBase64 sig Url) (Some att))) (\<lambda>pushed.
         case pushed of
           Inl _ \<Rightarrow> fail rid BLOB_UNAVAILABLE
         | Inr expiresAt \<Rightarrow>
           bindM (write_local E (cw_blob x)) (\<lambda>written.
           if \<not> written then fail rid INTERNAL_ERROR
           else bindM (pause E) (\<lambda>_. bindM (wasDismissed i) (\<lambda>dismissed.
             if dismissed then ret ()
             else ok rid (RESULT_TYPE AUTH_START) (auth_result pk True expiresAt))))))))
      (\<lambda>_. seeds_gone w) (\<lambda>_. seeds_gone_busy w) (\<lambda>_. True)) (\<lambda>_. seeds_gone_busy w) (\<lambda>_. True) w1" for cid m ch
    using enrollExistingCredential_spec [OF 2(6)]
  proof (rule wp_mono, goal_cases)
    case (1 x w2)
    then have l: "seeds_gone w w2" using g(1) by (auto dest!: locked_gone_busy simp: seeds_gone_busy_def intro: seeds_gone_trans)
    from 1 obtain sk where "ed25519PublicKey E sk = Some (cw_publicKey x)" by (auto simp: wrapped_def)
    then obtain a where "k_addr_decode (e_kit E) (cw_publicKey x) = Some a"
      using address_defined [OF assms(2) ed25519PublicKey_length] by blast
    with l show ?case
      by (auto simp: wps wp_await toBase58Pubkey_def pushBackup_def backupOwnerWalletBlob_def
          split: option.splits list.splits sum.splits prod.splits)
  next
    case (2 e w2)
    then show ?case using g(1) by (auto dest!: locked_gone_busy simp: seeds_gone_busy_def intro: seeds_gone_trans)
  qed simp
  from g enr show ?case by (auto simp: wps Let_def split: sum.split split del: if_split)
qed (use assms in auto)

lemma handleCreate_seeds:
  assumes "kit_addresses_ok (e_kit E)"
  shows "isBusy (w_st w) \<Longrightarrow>
    wp (handleCreate E n rid credB64 att) (\<lambda>_. seeds_gone w) (\<lambda>_. seeds_gone_busy w) (\<lambda>_. True) w"
proof (induction n arbitrary: w)
  case 0
  then show ?case by (simp add: wp_def blocked_def)
next
  case (Suc n)
  have again: "wp (bindM (modify busy_clear) (\<lambda>_. handleCreate E n rid credB64 att)) (\<lambda>_. seeds_gone w) (\<lambda>_. seeds_gone_busy w) (\<lambda>_. True) w"
    if "isBusy (w_st w)" for w
    using Suc.IH [of "busy_clear w"] that by (simp add: wp_bindM wp_modify)
  show ?case
    unfolding handleCreate.simps wp_bindM [of "await _ _"]
  proof (rule await_steady [OF Suc.prems], goal_cases)
    case (1 r rs w1)
    then have g: "seeds_gone w = seeds_gone w1" "seeds_gone_busy w = seeds_gone_busy w1"
      by (auto simp: seeds_gone_def seeds_gone_busy_def)
    have flow: "wp (create_body E rid credB64 att i) (\<lambda>_. seeds_gone w) (\<lambda>_. seeds_gone_busy w) (\<lambda>_. True) w"
      if "isBusy (w_st w)" for w i
      using that assms by (rule create_body_seeds)
    show ?case
      using busy_flow_seeds [where retryable = "\<lambda>e. codeOf e = AUTHENTICATION_FAILED \<or> codeOf e = UNSUPPORTED_CREDENTIAL" and rid = rid and E = E and c = USER_CANCELLED, OF 1(6) flow again] assms
      by (simp add: g wp_fail)
  qed simp
qed

lemma seeds_gone_fill0:
  "seeds_gone w w' \<Longrightarrow> length (w_bufs w) \<le> i \<Longrightarrow> seeds_gone w (fill0_w i w')"
proof -
  assume h: "seeds_gone w w'" "length (w_bufs w) \<le> i"
  then obtain bs where bs: "w_bufs w' = w_bufs w @ bs" "list_all (\<lambda>b. fst b = Seed \<longrightarrow> zeroed b) bs"
    by (auto simp: seeds_gone_def)
  have "list_all (\<lambda>b. fst b = Seed \<longrightarrow> zeroed b) (bs[j := (k, replicate m 0)])" for j k m
    using bs(2) by (auto simp: list_all_iff dest!: set_update_subset_insert [THEN subsetD])
  with h bs show ?thesis by (auto simp: seeds_gone_def list_update_append nth_append)
qed

lemma asserted_gone: "asserted w w' \<Longrightarrow> seeds_gone w w'"
  by (auto simp: asserted_def seeds_gone_def)

lemma seeds_gone_busy_gone: "seeds_gone_busy w w' \<Longrightarrow> seeds_gone w w'"
  by (simp add: seeds_gone_busy_def)

lemma remote_unlock_body_seeds:
  assumes "asserted w w1" "crypto_documented E" "kit_addresses_ok (e_kit E)"
  shows "wp (remote_unlock_body E rid rp backup disc (length (w_bufs w)) b i)
    (\<lambda>_. seeds_gone w) (\<lambda>_. seeds_gone_busy w) (\<lambda>_. True) w1"
proof -
  from assms(1) obtain pr where w1: "isBusy (w_st w1)" "w_bufs w1 = w_bufs w @ [(Prf, pr)]"
    by (auto simp: asserted_def)
  have g: "seeds_gone_busy w w1" using w1 by (auto simp: seeds_gone_busy_def seeds_gone_def)
  have opened: "wp (bindM (unwrapWallet E (length (w_bufs w)) p rp) (\<lambda>(seed, pub).
       bindM (fill0 (length (w_bufs w))) (\<lambda>_.
       bindM (wasDismissed i) (\<lambda>dismissed.
       if dismissed then fill0 seed
       else
         bindM (write_local E raw) (\<lambda>written.
         if \<not> written then bindM (fill0 seed) (\<lambda>_. fail rid INTERNAL_ERROR)
         else
           bindM (signChallenge E (snd backup) seed PUT_CHALLENGE_PREFIX) (\<lambda>putSignature.
           case putSignature of
             None \<Rightarrow> bindM (fill0 seed) (\<lambda>_. fail rid INTERNAL_ERROR)
           | Some sig \<Rightarrow>
             bindM (toBase58Pubkey E pub) (\<lambda>pk.
             bindM (fill0 seed) (\<lambda>_.
             bindM (attempt (pushBackup E (bytesToBase64 raw Url) pk (fst backup) sig None)) (\<lambda>pushed.
             case pushed of
               Inl _ \<Rightarrow> fail rid BLOB_UNAVAILABLE
             | Inr expiresAt \<Rightarrow>
               bindM (modify busy_clear) (\<lambda>_.
               bindM (pause E) (\<lambda>_.
               ok rid (RESULT_TYPE AUTH_START) (auth_result pk False expiresAt))))))))))))
      (\<lambda>_. seeds_gone w) (\<lambda>_. seeds_gone_busy w) (\<lambda>_. True) w1" if "parseBlob raw = Inr p" for raw p
    unfolding wp_bindM [of "unwrapWallet _ _ _ _"]
    using unwrapWallet_spec [OF w1(1) assms(2) parsed_ciphertext_length [OF that]]
  proof (rule wp_mono, goal_cases)
    case (1 x w2)
    obtain seed pub where x: "x = (seed, pub)" by (cases x)
    with 1 w1 obtain bs sk where u: "w_bufs w2 = w_bufs w @ (Prf, pr) # bs @ [(Seed, sk)]" "list_all zeroed bs"
      "seed = length (w_bufs w @ (Prf, pr) # bs)" "ed25519PublicKey E sk = Some pub"
      by (auto simp: unlocked_def)
    then have z: "list_all (\<lambda>b. fst b = Seed \<longrightarrow> zeroed b) bs" by (auto simp: list_all_iff)
    obtain a where a: "k_addr_decode (e_kit E) pub = Some a"
      using address_defined [OF assms(3) ed25519PublicKey_length [OF u(4)]] by blast
    show ?case
      using u z a x
      by (auto simp: wps wp_await signChallenge_def toBase58Pubkey_def pushBackup_def backupOwnerWalletBlob_def
          seeds_gone_def nth_append list_update_append split: option.splits list.splits sum.splits)
  qed (use w1 in \<open>auto simp: seeds_gone_busy_def seeds_gone_def locked_def list_all_iff\<close>)
  have "seeds_gone w (fill0_w (length (w_bufs w)) w1)"
    using g by (intro seeds_gone_fill0) (simp_all add: seeds_gone_busy_def)
  with g opened show ?thesis
    unfolding remote_unlock_body_def
    by (simp add: wp_bindM [of "lift_sum _ _"] wp_lift_sum wp_bindM [of "fill0 (length (w_bufs w))" "\<lambda>_. fail rid WALLET_MISMATCH"]
        wp_fill0 wp_fail seeds_gone_busy_gone split: sum.split)
qed

lemma remote_restore_seeds:
  assumes "asserted w w1" "crypto_documented E" "kit_addresses_ok (e_kit E)"
    and again: "\<And>w. isBusy (w_st w) \<Longrightarrow> wp again (\<lambda>_. seeds_gone w) (\<lambda>_. seeds_gone_busy w) (\<lambda>_. True) w"
  shows "wp (remote_restore E again rid rp rs backup disc (length (w_bufs w)))
    (\<lambda>_. seeds_gone w) (\<lambda>_. seeds_gone_busy w) (\<lambda>_. True) w1"
  unfolding remote_restore_def restoreOwnerWalletBlob_def wp_bindM [of "beginBusy _"] wp_beginBusy
    wp_bindM [of "attempt _"] wp_attempt wp_bindM [of "send _ _"] wp_send wp_await_or_throw
proof (rule await_steady, goal_cases)
  case (2 r rs w2)
  then have a: "asserted w w2" using assms(1) by (auto simp: asserted_def intro: steady_trans)
  then have g: "seeds_gone w (fill0_w (length (w_bufs w)) w2)" by (intro seeds_gone_fill0 asserted_gone) simp_all
  then have gb: "seeds_gone_busy w (busy_clear (fill0_w (length (w_bufs w)) w2))"
    using a by (simp add: asserted_def seeds_gone_busy_def)
  have opened: "wp (remote_unlock_body E rid rp backup disc (length (w_bufs w)) b i)
      (\<lambda>_ w'. seeds_gone w (busy_clear w'))
      (\<lambda>e. wp (bindM (fill0 (length (w_bufs w))) (\<lambda>_. bindM (wasDismissed i) (\<lambda>dismissed.
             if dismissed then ret () else throw e)))
        (\<lambda>_ w'. seeds_gone w (busy_clear w')) (\<lambda>_ w'. seeds_gone_busy w (busy_clear w')) (\<lambda>_. True)) (\<lambda>_. True) w2" for b i
    by (rule wp_mono [OF remote_unlock_body_seeds [OF a assms(2,3)]])
      (auto simp: wps seeds_gone_busy_def intro: seeds_gone_fill0)
  have miss: "wp (bindM (fill0 (length (w_bufs w))) (\<lambda>_. bindM (modify busy_clear) (\<lambda>_.
      bindM (await E r_retry) (\<lambda>yes. if yes then again else fail rid BLOB_UNAVAILABLE))))
      (\<lambda>_. seeds_gone w) (\<lambda>_. seeds_gone_busy w) (\<lambda>_. True) w2"
    using retry_seeds [OF gb again, of E rid BLOB_UNAVAILABLE]
    by (simp add: wp_bindM [of "fill0 _"] wp_fill0 wp_bindM [of "modify _"] wp_modify)
  consider e where "restored_of (r_http r) = Inl e" | "restored_of (r_http r) = Inr None"
    | b where "restored_of (r_http r) = Inr (Some b)"
    by (metis sum.exhaust option.exhaust)
  then show ?case
    by cases (use g miss opened in \<open>simp_all add: wp_bindM [of "fill0 _"] wp_fill0 wp_bindM [of "modify _"] wp_modify
        wp_fail wp_finallyM wp_catchM\<close>)
qed (use assms(1) in \<open>auto simp: asserted_def\<close>)

lemma remote_assert_seeds:
  assumes "isBusy (w_st w)" "crypto_documented E" "kit_addresses_ok (e_kit E)"
    and again: "\<And>w. isBusy (w_st w) \<Longrightarrow> wp again (\<lambda>_. seeds_gone w) (\<lambda>_. seeds_gone_busy w) (\<lambda>_. True) w"
  shows "wp (remote_assert E again rid rp rs backup) (\<lambda>_. seeds_gone w) (\<lambda>_. seeds_gone_busy w) (\<lambda>_. True) w"
  unfolding remote_assert_def wp_bindM [of "beginBusy _"] wp_beginBusy
    wp_bindM [of "attempt _"] wp_attempt wp_await_or_throw
proof (rule await_steady, goal_cases)
  case (2 r rs w1)
  then have gb: "seeds_gone_busy w (busy_clear w1)" by (simp add: seeds_gone_busy_def seeds_gone_def)
  then have g: "seeds_gone w (busy_clear w1)" by (simp add: seeds_gone_busy_def)
  show ?case
  proof (cases "r_disc r")
    case (Inl e)
    then show ?thesis
      using g retry_seeds [OF gb again, of E rid BLOB_UNAVAILABLE]
      by (simp add: wp_bindM [of "modify _"] wp_modify wp_bindM [of "wasDismissed _"] wp_wasDismissed wp_ret)
  next
    case (Inr disc)
    let ?w2 = "w1\<lparr>w_bufs := w_bufs w1 @ [(Prf, d_prfOutput disc)]\<rparr>"
    have a: "asserted w (busy_clear ?w2)" and a': "asserted w ?w2"
      using 2 by (auto simp: asserted_def steady_def)
    show ?thesis
      using remote_restore_seeds [OF a assms(2,3) again, of rid rp] asserted_gone [OF a'] Inr 2
      by (simp add: wp_bindM [of "new_buf _ _"] wp_new_buf wp_bindM [of "modify _"] wp_modify
          wp_bindM [of "wasDismissed _"] wp_wasDismissed wp_ret)
  qed
qed (use assms in auto)

lemma handleRemoteUnlock_seeds:
  assumes "crypto_documented E" "kit_addresses_ok (e_kit E)"
  shows "isBusy (w_st w) \<Longrightarrow>
    wp (handleRemoteUnlock E n rid rp) (\<lambda>_. seeds_gone w) (\<lambda>_. seeds_gone_busy w) (\<lambda>_. True) w"
proof (induction n arbitrary: w)
  case 0
  then show ?case by (simp add: wp_def blocked_def)
next
  case (Suc n)
  have asked: "wp (bindM (attempt (issue_both_challenges E)) (\<lambda>challenges.
      case challenges of
        Inl _ \<Rightarrow> fail rid BLOB_UNAVAILABLE
      | Inr (restore, backup) \<Rightarrow>
      (case base64ToBytes (snd restore) 64 Url of
        Inl _ \<Rightarrow> fail rid INVALID_MESSAGE
      | Inr fetchChallengeBytes \<Rightarrow>
        remote_assert E (handleRemoteUnlock E n rid rp) rid rp (fst restore) backup)))
      (\<lambda>_. seeds_gone w) (\<lambda>_. seeds_gone_busy w) (\<lambda>_. True) w" if "isBusy (w_st w)" for w
    unfolding wp_bindM [of "attempt _"] wp_attempt issue_both_challenges_def wp_bindM [of "send _ _"] wp_send
      wp_await_or_throw
  proof (rule await_steady, goal_cases)
    case (2 r rs w1)
    then have g: "seeds_gone w = seeds_gone w1" "seeds_gone_busy w = seeds_gone_busy w1"
      by (auto simp: seeds_gone_def seeds_gone_busy_def)
    show ?case
      using remote_assert_seeds [OF 2(6) assms Suc.IH, of rid rp]
      by (simp add: g wp_fail split: sum.split prod.split)
  qed (use that in auto)
  show ?case
    unfolding handleRemoteUnlock.simps wp_bindM [of "await _ _"]
  proof (rule await_steady [OF Suc.prems], goal_cases)
    case (1 r rs w1)
    then have g: "seeds_gone w = seeds_gone w1" "seeds_gone_busy w = seeds_gone_busy w1"
      by (auto simp: seeds_gone_def seeds_gone_busy_def)
    show ?case using asked [OF 1(6)] by (simp add: g wp_fail)
  qed simp
qed

lemma wp_weaken:
  "wp m (\<lambda>_. P) (\<lambda>_. R) B w \<Longrightarrow> (\<And>w'. P w' \<Longrightarrow> P' w') \<Longrightarrow> (\<And>w'. R w' \<Longrightarrow> R' w') \<Longrightarrow> wp m (\<lambda>_. P') (\<lambda>_. R') B w"
  by (auto simp: wp_def split: res.splits)

lemma handleAuth_seeds:
  assumes "isBusy (w_st w)" "crypto_documented E" "kit_addresses_ok (e_kit E)"
  shows "wp (handleAuth E n rid rp m c a) (\<lambda>_. seeds_gone w) (\<lambda>_. seeds_gone w) (\<lambda>_. True) w"
  using wp_weaken [OF handleCreate_seeds [OF assms(3,1)] _ seeds_gone_busy_gone, where P' = "seeds_gone w"]
    wp_weaken [OF handleLocalUnlock_seeds [OF assms(2,3) local_ciphertext_length assms(1)] _ seeds_gone_busy_gone, where P' = "seeds_gone w"]
    wp_weaken [OF handleRemoteUnlock_seeds [OF assms(2,3,1)] _ seeds_gone_busy_gone, where P' = "seeds_gone w"]
  by (auto simp: handleAuth_def wps split: option.split prod.split)

lemma route_seeds:
  assumes "isBusy (w_st w)" "crypto_documented E" "kit_addresses_ok (e_kit E)"
  shows "wp (route E n request) (\<lambda>_. seeds_gone w) (\<lambda>_. seeds_gone w) (\<lambda>_. True) w"
  using handleAuth_seeds [OF assms] handleExport_seeds [OF assms(1,2)]
    wp_mono [OF handleSign_spec [OF assms], where Q' = "\<lambda>_. seeds_gone w" and X' = "\<lambda>_. seeds_gone w" and B' = "\<lambda>_. True"]
  by (simp add: route_def split: request_body.split)

lemma handle_begin_taken:
  "handle_begin request w = (True, w') \<Longrightarrow> isBusy (w_st w') \<and> w_bufs w' = w_bufs w \<and> w_in w' = w_in w"
  by (auto simp: handle_begin_def begin_op_def isBusy_def Let_def split: if_splits request_body.splits elim: op_for.elims)

lemma handle_begin_refused:
  "handle_begin request w = (False, w') \<Longrightarrow> w_bufs w' = w_bufs w"
  by (auto simp: handle_begin_def Let_def split: if_splits prod.splits)



end
