(* ===== verification/SignerFlows.thy ===== *)
theory SignerFlows
  imports SignerMain
begin

text \<open>
  Runs of the signer as a whole.  First, that a flow ends: a handler that has not returned is waiting
  for a response of its surroundings, so the number of retries the fuel allows is never what stops it.
  Then, with concrete runs, that a signature is posted only for what the user confirmed, and what a
  dismissal during the restore of the wallet does.
\<close>

subsection \<open>Flows end\<close>

text \<open>
  \<open>drains n m\<close>: with fewer than \<open>n\<close> responses to come, \<open>m\<close> takes from them, adds none, and blocks only
  when none is left.
\<close>

definition drains :: "nat \<Rightarrow> 'a io \<Rightarrow> bool" where
  "drains n m \<longleftrightarrow> (\<forall>w. length (w_in w) < n \<longrightarrow>
     wp m (\<lambda>_ w'. length (w_in w') \<le> length (w_in w)) (\<lambda>_ w'. length (w_in w') \<le> length (w_in w)) (\<lambda>w'. w_in w' = []) w)"

named_theorems drain \<open>programs that end or wait for a response\<close>

lemma drainsI:
  assumes "\<And>w. length (w_in w) < n \<Longrightarrow>
     wp m (\<lambda>_ w'. length (w_in w') \<le> length (w_in w)) (\<lambda>_ w'. length (w_in w') \<le> length (w_in w)) (\<lambda>w'. w_in w' = []) w"
  shows "drains n m"
  using assms by (simp add: drains_def)

lemma drainsD:
  assumes "drains n m" "length (w_in w) < n" "length (w_in w) \<le> k"
  shows "wp m (\<lambda>_ w'. length (w_in w') \<le> k) (\<lambda>_ w'. length (w_in w') \<le> k) (\<lambda>w'. w_in w' = []) w"
proof -
  have "wp m (\<lambda>_ w'. length (w_in w') \<le> length (w_in w)) (\<lambda>_ w'. length (w_in w') \<le> length (w_in w)) (\<lambda>w'. w_in w' = []) w"
    using assms(1,2) by (simp add: drains_def)
  then show ?thesis by (rule wp_mono) (use assms(3) in auto)
qed

lemma drains_zero [drain]: "drains 0 m"
  by (simp add: drains_def)

lemma drains_bind [drain]:
  assumes "drains n m" "\<And>x. drains n (f x)"
  shows "drains n (bindM m f)"
  by (rule drainsI, unfold wp_bindM) (rule wp_mono [OF drainsD [OF assms(1) _ order_refl]], auto intro: drainsD [OF assms(2)])

lemma drains_catch [drain]:
  assumes "drains n m" "\<And>e. drains n (h e)"
  shows "drains n (catchM m h)"
  by (rule drainsI, unfold wp_catchM) (rule wp_mono [OF drainsD [OF assms(1) _ order_refl]], auto intro: drainsD [OF assms(2)])

lemma drains_attempt [drain]: "drains n m \<Longrightarrow> drains n (attempt m)"
  by (rule drainsI, unfold wp_attempt) (rule drainsD, auto)

lemma drains_finally_busy [drain]: "drains n m \<Longrightarrow> drains n (finallyM m busy_clear)"
  by (rule drainsI, unfold wp_finallyM) (rule wp_mono [OF drainsD], auto)

text \<open>A wait takes a response, so what follows it may use less fuel.\<close>

lemma drains_await_then:
  assumes "\<And>x. drains n (k x)"
  shows "drains (Suc n) (bindM (await E f) k)"
proof (rule drainsI, unfold wp_bindM wp_await)
  fix w :: world assume "length (w_in w) < Suc n"
  then show "case w_in w of [] \<Rightarrow> w_in w = []
    | r # rs \<Rightarrow> wp (k (f r)) (\<lambda>_ w'. length (w_in w') \<le> length (w_in w)) (\<lambda>_ w'. length (w_in w') \<le> length (w_in w))
        (\<lambda>w'. w_in w' = []) (meanwhile E r (w\<lparr>w_in := rs\<rparr>))"
    by (auto split: list.split intro!: drainsD [OF assms])
qed

lemma drains_await [drain]: "drains n (await E f)"
  by (rule drainsI) (auto simp: wp_await split: list.split)

lemma drains_atoms [drain]:
  "drains n (ret x)" "drains n (throw e)" "drains n (lift_opt e v)" "drains n (lift_sum g s)" "drains n (fail rid c)"
  "drains n (ok rid t ex)" "drains n (beginBusy rid)" "drains n (wasDismissed i)" "drains n (modify busy_clear)"
  "drains n (new_buf k b)" "drains n (read_buf i)" "drains n (fill0 i)" "drains n (randomBytes j)" "drains n (send p q)"
  "drains n (read_local E)" "drains n (write_local E raw)" "drains n (consume op rid d)" "drains n (authorize_sign rid pub d)"
  "drains n (gets f)"
  by (rule drainsI, simp add: wps authorize_sign_def split: option.split sum.split prod.split)+

lemma drains_if [drain]: "(b \<Longrightarrow> drains n m) \<Longrightarrow> (\<not> b \<Longrightarrow> drains n m') \<Longrightarrow> drains n (if b then m else m')"
  by simp

lemma drains_pause [drain]: "drains n (pause E)"
  unfolding pause_def by (rule drain)

lemma drains_await_or_throw [drain]: "drains n (await_or_throw E f)"
  unfolding await_or_throw_def by (intro drain)

lemma drains_option [drain]: "drains n m \<Longrightarrow> (\<And>x. drains n (f x)) \<Longrightarrow> drains n (case v of None \<Rightarrow> m | Some x \<Rightarrow> f x)"
  by (cases v) auto

lemma drains_sum [drain]: "(\<And>x. drains n (f x)) \<Longrightarrow> (\<And>x. drains n (g x)) \<Longrightarrow> drains n (case s of Inl x \<Rightarrow> f x | Inr x \<Rightarrow> g x)"
  by (cases s) auto

lemma drains_prod [drain]: "(\<And>x y. drains n (f x y)) \<Longrightarrow> drains n (case p of (x, y) \<Rightarrow> f x y)"
  by (cases p) auto

lemma drains_policy [drain]: "(\<And>c. drains n (f c)) \<Longrightarrow> (\<And>s. drains n (g s)) \<Longrightarrow> drains n (case p of PFail c \<Rightarrow> f c | POk s \<Rightarrow> g s)"
  by (cases p) auto

lemma drains_restored [drain]:
  "drains n a \<Longrightarrow> drains n b \<Longrightarrow> (\<And>r p s k. drains n (f r p s k)) \<Longrightarrow>
    drains n (case x of RFailed \<Rightarrow> a | RDismissed \<Rightarrow> b | RSeed r p s k \<Rightarrow> f r p s k)"
  by (cases x) auto

lemma drains_exn [drain]:
  "(\<And>c. drains n (f c)) \<Longrightarrow> drains n a \<Longrightarrow> (\<And>s. drains n (g s)) \<Longrightarrow> drains n b \<Longrightarrow>
    drains n (case e of ServiceErr c \<Rightarrow> f c | WebAuthnUnsupported \<Rightarrow> a | DomErr s \<Rightarrow> g s | OtherErr \<Rightarrow> b)"
  by (cases e) auto

lemmas flow_parts =
  decryptWallet_def unwrapWallet_def enrollExistingCredential_def wrapNewSeed_def wrap_seed_def seal_wallet_def
  open_wallet_def generateEd25519Seed_def deriveWrappingKey_def signAndScrub_def signChallenge_def toBase58Pubkey_def

lemma drains_finally_fill [drain]: "drains n m \<Longrightarrow> drains n (finallyM m (fill0_w i))"
  by (rule drainsI, unfold wp_finallyM) (rule wp_mono [OF drainsD], auto)

lemma drains_service [drain]:
  "drains n (generateEd25519Seed)" "drains n (open_wallet E key p aad)" "drains n (seal_wallet E flds msg sd)"
  "drains n (wrap_seed E pr cid rp msg sd)" "drains n (signAndScrub E m sd)" "drains n (toBase58Pubkey E pk)"
  "drains n (signChallenge E c sd pre)"
  unfolding generateEd25519Seed_def open_wallet_def seal_wallet_def wrap_seed_def signAndScrub_def toBase58Pubkey_def
    signChallenge_def Let_def
  by (intro drain)+

lemma drains_wallet [drain]:
  "drains n (unwrapWallet E pr p rp)" "drains n (wrapNewSeed E pr cid rp msg)"
  unfolding unwrapWallet_def wrapNewSeed_def by (intro drain)+

lemma drains_unlock [drain]:
  "drains n (decryptWallet E rp p)" "drains n (enrollExistingCredential E rp cid msg)"
  "drains n (issueBackupChallenge E)" "drains n (issueRestoreChallenge E)" "drains n (mintBackupChallenge E)"
  "drains n (restoreOwnerWalletBlob E c a)" "drains n (backupOwnerWalletBlob E b pk c s att)"
  "drains n (pushBackup E b pk c s att)"
  unfolding decryptWallet_def enrollExistingCredential_def issueBackupChallenge_def issueRestoreChallenge_def
    mintBackupChallenge_def restoreOwnerWalletBlob_def backupOwnerWalletBlob_def pushBackup_def Let_def
  by (intro drain)+

lemma drains_bodies [drain]:
  "drains n (create_body E rid c att i)" "drains n (local_unlock_body E rid rp raw p i)"
  "drains n (remote_unlock_body E rid rp backup disc pr b i)" "drains n (issue_both_challenges E)"
  unfolding create_body_def local_unlock_body_def remote_unlock_body_def issue_both_challenges_def Let_def
  by (intro drain)+

lemma drains_handleCreate [drain]: "drains n (handleCreate E n rid c att)"
proof (induction n)
  case (Suc n)
  then show ?case unfolding handleCreate.simps by (intro drains_await_then drain)
qed (rule drain)

lemma drains_handleLocalUnlock [drain]: "drains n (handleLocalUnlock E n rid rp raw p)"
proof (induction n)
  case (Suc n)
  then show ?case unfolding handleLocalUnlock.simps by (intro drains_await_then drain)
qed (rule drain)

lemma drains_remote [drain]:
  assumes "drains n again"
  shows "drains n (remote_assert E again rid rp rs backup)"
  unfolding remote_assert_def remote_restore_def by (intro drain assms)

lemma drains_handleRemoteUnlock [drain]: "drains n (handleRemoteUnlock E n rid rp)"
proof (induction n)
  case (Suc n)
  then show ?case unfolding handleRemoteUnlock.simps by (intro drains_await_then drain)
qed (rule drain)

lemma drains_restore [drain]: "drains n (restoreWalletSeed E rid rp)"
  unfolding restoreWalletSeed_def restore_try_def restore_catch_def restore_seed_body_def restore_blob_def
    restore_refuse_def restore_open_def
  by (intro drain)

lemma drains_use [drain]:
  "drains n (unlock_busy E rid rp p)" "drains n (sign_frozen E rid m sd pk)" "drains n (export_key E rid sd pk)"
  unfolding unlock_busy_def sign_frozen_def export_key_def Let_def by (intro drain)+

lemma drains_shown [drain]: "drains n (confirmSignTransaction E s)"
  unfolding confirmSignTransaction_def
  by (rule drainsI, unfold wp_bindM wp_modify wp_await) (auto split: list.split)

lemma drains_route: "drains n (route E n request)"
  unfolding route_def handleAuth_def handleSign_def handleExportPrivateKey_def sign_local_def sign_cold_def Let_def
  by (cases "body request"; simp only: request_body.simps; intro drain)

lemma handle_begin_in: "handle_begin request w = (b, w') \<Longrightarrow> w_in w' = w_in w"
  by (auto simp: handle_begin_def Let_def split: if_splits prod.splits)

text \<open>
  C4: Every flow ends.  A handler that has not returned is waiting for its surroundings: it blocks only
  when no response is left, however often the user retried, and it never throws.  When it returns, the
  signer is idle and ready for the next request, or it was busy with another request before and refused
  this one without touching that request's operation.
\<close>
theorem handle_ends:
  "wp (handle E request)
     (\<lambda>_ w'. if isBusy (w_st w) then w_st w' = w_st w else w_st w' = end_op (w_st w') \<and> w_dismiss w' = None)
     (\<lambda>_ _. False) (\<lambda>w'. w_in w' = []) w"
proof (cases "handle_begin request w")
  case (Pair began w1)
  show ?thesis
  proof (cases began)
    case False
    with Pair have "isBusy (w_st w)" "w_st w1 = w_st w"
      by (auto simp: handle_begin_def begin_op_def isBusy_def Let_def split: if_splits)
    with False Pair show ?thesis by (simp add: wp_def handle_def)
  next
    case True
    with Pair have idle: "\<not> isBusy (w_st w)" by (auto simp: handle_begin_busy)
    have d: "drains (Suc (length (w_in w1))) (route E (Suc (length (w_in w1))) request)"
      by (rule drains_route)
    have "wp (finallyM (catchM (route E (Suc (length (w_in w1))) request) (\<lambda>e. fail (requestId request) (codeOf e))) end_flow)
        (\<lambda>_ w'. w_st w' = end_op (w_st w') \<and> w_dismiss w' = None) (\<lambda>_ _. False) (\<lambda>w'. w_in w' = []) w1"
      unfolding wps by (rule wp_mono [OF drainsD [OF d _ order_refl]]) (simp_all add: end_flow_def end_op_def)
    with True Pair idle show ?thesis by (simp add: wp_def handle_def)
  qed
qed

subsection \<open>Runs that sign\<close>

text \<open>
  The responses of a run with an empty store: the user confirms the summary, the challenge arrives,
  the passkey answers, the backup arrives (with \<open>dismissed\<close>, while the user dismisses the screen), and
  the rest are resolved promises of WebCrypto.
\<close>

definition cold_responses :: "bool \<Rightarrow> bytes \<Rightarrow> response list" where
  "cold_responses dismissed raw =
     [sample_response,
      sample_response\<lparr>r_http := Some \<lparr>h_status = 200,
        h_json = Some (JObject [(''challengeId'', JString ''c''), (''challenge'', JString ''AAAA'')])\<rparr>\<rparr>,
      sample_response\<lparr>r_disc := Inr \<lparr>d_credentialId = [1, 2, 3], d_prfOutput = replicate 32 5, d_assertion = JNull\<rparr>\<rparr>,
      sample_response\<lparr>r_dismiss := dismissed, r_http := Some \<lparr>h_status = 200,
        h_json = Some (JObject [(''encryptedWalletBlob'', JString (bytesToBase64 raw Url))])\<rparr>\<rparr>,
      sample_response, sample_response, sample_response]"

text \<open>A codec that takes the wire bytes \<open>[7]\<close> for the sample transaction.\<close>

definition sign_kit :: kit where
  "sign_kit = sample_kit\<lparr>
     k_tx_decode := (\<lambda>b. if b = [7] then Some (dt_transaction (sample_tx sample_owner)) else None),
     k_msg_read := (\<lambda>b. Some (\<lparr>cm_version = Version 1, cm_payload = b\<rparr>, length b)),
     k_decompile := (\<lambda>c. Some (dt_message (sample_tx sample_owner)))\<rparr>"

definition sign_env :: env where
  "sign_env = sample_env\<lparr>e_kit := sign_kit\<rparr>"

lemma sign_decoded: "decodeV1Transaction sign_kit [7] = Some (sample_tx sample_owner)"
  by (simp add: decodeV1Transaction_def sign_kit_def sample_tx_def MAX_TX_BYTES_def)

lemma sign_policy: "\<exists>s. evaluatePolicy sign_kit (sample_tx sample_owner) (replicate 32 97) = Some (POk s)"
  by (simp add: evaluatePolicy_def previewPolicy_def Let_def sample_tx_def clear_authority_ix_def
      sign_kit_def sample_kit_def parseInstruction_def parsePhygitalWalletInstruction_def
      identifyPhygitalWalletInstruction_def discriminators_def parser_defs parse_named_def
      discriminator_only_def summary_of_def account_of_def sample_owner_def)

lemma sign_env_ok: "crypto_documented sign_env" "kit_addresses_ok (e_kit sign_env)" "e_kit sign_env = sign_kit"
  using sample_crypto sample_kit_ok(2)
  by (simp_all add: sign_env_def sign_kit_def crypto_documented_def keypair_total_def ed25519PublicKey_def
      kit_addresses_ok_def)

lemma enc_core_length: "length (enc_core v bs) \<le> 2 * length bs"
  by (induction v bs rule: enc_core.induct) (auto simp: Let_def)

lemma enc_core_Nil: "enc_core v bs = [] \<longleftrightarrow> bs = []"
  by (induction v bs rule: enc_core.induct) (auto simp: Let_def)

lemma cold_run:
  assumes "encodeWalletBlob cold_fields = Inr raw"
  shows "wp (sign_cold sign_env ''request-1'' ''localhost'' (sample_tx sample_owner)
       (digestHex (e_sha256 sign_env) [1, 2, 3]))
       (\<lambda>_ w'. w_posts w' = (if d then [errorResponse (Some ''request-1'') USER_CANCELLED] else []) @
         [sign_reply ''request-1'' (replicate 64 3) sample_owner]) (\<lambda>_ _. False) (\<lambda>_. False)
       ((sample_world 0)\<lparr>w_in := cold_responses d raw\<rparr>)"
proof -
  have parse: "parseBlob raw = Inr (parsed_of cold_fields)" using assms by (simp add: parseBlob_def decode_parsed_of)
  have len: "length raw = 136" using encodeWalletBlob_length [OF assms] by (simp add: cold_fields_def)
  have str: "bytesToBase64 raw Url \<noteq> ''''" "length (bytesToBase64 raw Url) \<le> MAX_BLOB_BYTES * 2"
    using enc_core_length [of Url raw] len base64_roundtrip [of raw 136 Url]
    by (auto simp: bytesToBase64_core MAX_BLOB_BYTES_def b64_padding_def enc_core_Nil)
  have ch: "\<exists>c. base64ToBytes ''AAAA'' 64 Url = Inr c"
    using base64_roundtrip [of "[0, 0, 0]" 64 Url] by (simp add: enc_char_def alphabet_of_def B64_URL_def)
  obtain aad where aad: "buildAad (parsed_of cold_fields) ''localhost'' = Inr aad"
    using buildAad_defined [of "parsed_of cold_fields" "''localhost''"]
    by (auto simp: cold_fields_def parsed_of_def utf8ToBytes_def utf8_char_def)
  obtain pv where pv: "previewPolicy sign_kit (sample_tx sample_owner) = POk pv"
    using sign_policy by (auto simp: evaluatePolicy_POk_iff)
  obtain s where pol: "evaluatePolicy sign_kit (sample_tx sample_owner) (replicate 32 97) = Some (POk s)"
    using sign_policy by blast
  have msg: "dt_messageBytes (sample_tx sample_owner) = [1, 2, 3]" by (simp add: sample_tx_def)
  have ad: "k_addr_decode sign_kit (replicate 32 97) = Some sample_owner"
    by (simp add: sign_kit_def sample_kit_def sample_owner_def)
  show ?thesis
    using assms parse str ch aad len pol pv msg ad
    by (cases d) (clarsimp simp: wps wp_await sign_cold_def cold_responses_def sample_response_def meanwhile_def user_dismiss_def
       confirmSignTransaction_def sign_env_def sample_env_def restoreWalletSeed_def issueRestoreChallenge_def restore_try_def
       challenge_of_def postJson_def http_ok_def js_prop_def jget_def nonempty_string_def restore_seed_body_def
       restoreOwnerWalletBlob_def restored_of_def restore_blob_def parsed_of_def cold_fields_def restore_open_def
       unwrapWallet_def open_wallet_def ed25519PublicKey_def ED25519_PUBKEY_BYTES_def sample_world_def
       nth_append writeLocalBlob_def authorize_sign_def sign_frozen_def consumeAuthorization_def Let_def authorize_def
       signAndScrub_def toBase58Pubkey_def sign_reply_def)+
qed

lemma cold_blob: "\<exists>raw. encodeWalletBlob cold_fields = Inr raw"
  by (rule encodeWalletBlob_total) (simp_all add: cold_fields_def)

text \<open>
  C3: The signer posts a signature only for what the user confirmed.  Whatever messages arrive and
  whenever the user dismisses a screen, all \<open>handleSign\<close> posts are errors and at most one result; a
  result is for the transaction the request carries, decoded by the signer itself, accepted by the
  policy for the key that signs it, whose instructions are the ones shown to the user, who confirmed
  them; its signature is over exactly the decoded message bytes.
\<close>
theorem handleSign_signs_only_confirmed:
  assumes "isBusy (w_st w)" and "crypto_documented E" and "kit_addresses_ok (e_kit E)"
  shows "wp (handleSign E rid rp txB64) (\<lambda>_. sign_outcome E rid txB64 w) (\<lambda>_. sign_outcome E rid txB64 w) (erring w) w"
  by (rule wp_mono [OF handleSign_spec [OF assms]]) auto

text \<open>
  The hypotheses hold of a run that gets all the way: the request carries a transaction the codec
  decodes, the user confirms it, the wallet is restored, and the one message posted is the signature.
\<close>

theorem handleSign_signs_only_confirmed_witness:
  "\<exists>raw w w'. encodeWalletBlob cold_fields = Inr raw \<and>
     w = (sample_world 0)\<lparr>w_in := sample_response # cold_responses False raw\<rparr> \<and>
     handleSign sign_env ''request-1'' ''localhost'' (bytesToBase64 [7] Std) w = (Ret (), w') \<and>
     w_posts w' = [sign_reply ''request-1'' (replicate 64 3) sample_owner] \<and>
     sign_outcome sign_env ''request-1'' (bytesToBase64 [7] Std) w w'"
proof -
  define t where "t = bytesToBase64 [7] Std"
  obtain raw where raw: "encodeWalletBlob cold_fields = Inr raw" using cold_blob ..
  let ?w = "(sample_world 0)\<lparr>w_in := sample_response # cold_responses False raw\<rparr>"
  have b64: "base64ToBytes t MAX_TX_BYTES Std = Inr [7]" unfolding t_def by (rule base64_roundtrip) (simp add: MAX_TX_BYTES_def)
  have "meanwhile sign_env sample_response (?w\<lparr>w_in := cold_responses False raw\<rparr>) =
      (sample_world 0)\<lparr>w_in := cold_responses False raw\<rparr>"
    by (simp add: meanwhile_def sample_response_def sample_world_def)
  moreover have "readLocalBlob (e_store sign_env) (\<lambda>_. None) = None"
    by (simp add: readLocalBlob_def sign_env_def sample_env_def)
  moreover have "w_items (sample_world 0) = (\<lambda>_. None)" by (simp add: sample_world_def)
  moreover have "dt_messageBytes (sample_tx sample_owner) = [1, 2, 3]" by (simp add: sample_tx_def)
  ultimately have "wp (handleSign sign_env ''request-1'' ''localhost'' t)
      (\<lambda>_ w'. w_posts w' = [sign_reply ''request-1'' (replicate 64 3) sample_owner]) (\<lambda>_ _. False) (\<lambda>_. False) ?w"
    using b64 sign_decoded cold_run [OF raw, of False]
    by (simp add: handleSign_def wps wp_await Let_def sign_env_ok)
  moreover have "isBusy (w_st ?w)" by (simp add: sample_world_def isBusy_def)
  then have "wp (handleSign sign_env ''request-1'' ''localhost'' t)
      (\<lambda>_. sign_outcome sign_env ''request-1'' t ?w)
      (\<lambda>_. sign_outcome sign_env ''request-1'' t ?w) (erring ?w) ?w"
    by (rule handleSign_signs_only_confirmed [OF _ sign_env_ok(1,2)])
  ultimately show ?thesis unfolding t_def [symmetric] using raw by (auto simp: wp_def split: prod.splits res.splits)
qed

subsection \<open>A dismissal that does not stop the signature\<close>

text \<open>
  A dismissal is reported and then ignored.  There is a run of the first signature on a new device in
  which the user dismisses the busy screen while the backup is fetched: the signer posts
  \<open>USER_CANCELLED\<close> for the request and then, for the same request, the signature.
\<close>
theorem cancelled_restore_still_signs:
  "\<exists>raw w'. encodeWalletBlob cold_fields = Inr raw \<and>
     sign_cold sign_env ''request-1'' ''localhost'' (sample_tx sample_owner)
       (digestHex (e_sha256 sign_env) [1, 2, 3]) ((sample_world 0)\<lparr>w_in := cold_responses True raw\<rparr>) = (Ret (), w') \<and>
     w_posts w' = [errorResponse (Some ''request-1'') USER_CANCELLED,
       sign_reply ''request-1'' (replicate 64 3) sample_owner]"
  using cold_blob cold_run [where d = True] by (fastforce simp: wp_def split: prod.splits res.splits)

end
