(* ===== verification/WorkerCommon.thy ===== *)
theory WorkerCommon
  imports TxPolicy
begin

text \<open>
  What the two Cloudflare workers share (\<^verbatim>\<open>workers/shared\<close>): coded errors and their mapping to HTTP
  statuses (\<^verbatim>\<open>errors.ts\<close>), and the filter every log record passes (\<^verbatim>\<open>log.ts\<close>).  Writing to the console is
  not modelled; \<open>log_payload\<close> is the object that would be written.
\<close>

subsection \<open>Errors\<close>

record coded_error =
  ce_message :: string
  ce_code :: string
  ce_status :: "nat option"
  ce_details :: "(string \<times> js) list option"
  ce_soft :: "bool option"

text \<open>What a \<open>catch\<close> can see: a coded error, another \<open>Error\<close> with its message, or any other value.\<close>

datatype thrown = Coded coded_error | Uncoded string | NotAnError

definition coded :: "string \<Rightarrow> string \<Rightarrow> coded_error" where
  "coded message code =
     \<lparr>ce_message = message, ce_code = code, ce_status = None, ce_details = None, ce_soft = None\<rparr>"

definition isCodedError :: "thrown \<Rightarrow> bool" where
  "isCodedError err = (case err of Coded _ \<Rightarrow> True | _ \<Rightarrow> False)"

definition getErrorMessage :: "thrown \<Rightarrow> string \<Rightarrow> string" where
  "getErrorMessage err fallback =
     (case err of
        Coded e \<Rightarrow> if ce_message e \<noteq> '''' then ce_message e else fallback
      | Uncoded m \<Rightarrow> if m \<noteq> '''' then m else fallback
      | NotAnError \<Rightarrow> fallback)"

record normalized_error =
  ne_error :: string
  ne_code :: string
  ne_status :: nat
  ne_details :: "(string \<times> js) list option"
  ne_soft :: "bool option"

definition statusForCode :: "string \<Rightarrow> nat \<Rightarrow> nat" where
  "statusForCode code fallbackStatus =
     (if code = ''signer_misconfigured'' \<or> code = ''fee_misconfigured'' then 500
      else if code = ''fee_payer_mismatch'' \<or> code = ''insufficient_fee_balance'' then 403
      else if code = ''invalid_transaction'' \<or> code = ''unexpected_instruction'' \<or> code = ''token_mismatch'' then 400
      else fallbackStatus)"

record error_fallback =
  ef_message :: "string option"
  ef_code :: "string option"
  ef_status :: "nat option"

definition no_fallback :: error_fallback where
  "no_fallback = \<lparr>ef_message = None, ef_code = None, ef_status = None\<rparr>"

definition or_else :: "'a option \<Rightarrow> 'a \<Rightarrow> 'a" where
  "or_else x d = (case x of Some v \<Rightarrow> v | None \<Rightarrow> d)"

lemma or_else_simps [simp]: "or_else (Some v) d = v" "or_else None d = d"
  by (simp_all add: or_else_def)

definition normalizeError :: "thrown \<Rightarrow> error_fallback \<Rightarrow> normalized_error" where
  "normalizeError err fallback =
     (let message = getErrorMessage err (or_else (ef_message fallback) ''Request failed'');
          status = or_else (ef_status fallback) 400 in
      case err of
        Coded e \<Rightarrow>
          \<lparr>ne_error = message, ne_code = ce_code e,
           ne_status = or_else (ce_status e) (statusForCode (ce_code e) status),
           ne_details = ce_details e, ne_soft = ce_soft e\<rparr>
      | _ \<Rightarrow>
          (let code = or_else (ef_code fallback) ''invalid_transaction'' in
           \<lparr>ne_error = message, ne_code = code, ne_status = statusForCode code status,
            ne_details = None, ne_soft = None\<rparr>))"

subsection \<open>Log records\<close>

datatype log_level = Debug | Info | Warn | Error

fun RANK :: "log_level \<Rightarrow> nat" where
  "RANK Debug = 10" | "RANK Info = 20" | "RANK Warn = 30" | "RANK Error = 40"

definition to_lower :: "string \<Rightarrow> string" where
  "to_lower s = map lower_char s"

definition parseLevel :: "string option \<Rightarrow> log_level" where
  "parseLevel raw =
     (let v = to_lower (trim (or_else raw ''info'')) in
      if v = ''debug'' then Debug else if v = ''warn'' then Warn
      else if v = ''error'' then Error else Info)"

definition REDACT_KEYS :: "string list" where
  "REDACT_KEYS = [''assertion'', ''credential'', ''publickey'', ''public_key'', ''seed'', ''secret'',
     ''authorization'', ''cookie'', ''password'', ''fee_payer_secret_keys'']"

definition shouldRedact :: "string \<Rightarrow> bool" where
  "shouldRedact key =
     (let k = to_lower key in
      k \<in> set REDACT_KEYS \<or> includes_str ''secret'' k \<or> includes_str ''assertion'' k \<or>
      ends_with ''seed'' k \<or> includes_str ''private'' k)"

text \<open>One entry of \<open>sanitizeFields\<close> and the loop over the entries; arrays are passed on as they are.\<close>

fun sanitize_value :: "js \<Rightarrow> js" and sanitizeFields :: "(string \<times> js) list \<Rightarrow> (string \<times> js) list" where
  "sanitize_value (JObject ps) = JObject (sanitizeFields ps)"
| "sanitize_value v = v"
| "sanitizeFields [] = []"
| "sanitizeFields ((k, v) # ps) =
     (k, if shouldRedact k then (if v = JNull \<or> v = JUndefined then v else JString ''[redacted]'')
         else sanitize_value v) # sanitizeFields ps"

definition log_payload ::
  "string \<Rightarrow> string option \<Rightarrow> (string \<times> js) list \<Rightarrow> log_level \<Rightarrow> string \<Rightarrow> (string \<times> js) list \<Rightarrow>
   (string \<times> js) list option" where
  "log_payload service level baseFields lvl msg fs =
     (if RANK lvl < RANK (parseLevel level) then None
      else Some (spread (spread
        [(''level'', JString (case lvl of Debug \<Rightarrow> ''debug'' | Info \<Rightarrow> ''info'' | Warn \<Rightarrow> ''warn'' | Error \<Rightarrow> ''error'')),
         (''service'', JString service), (''msg'', JString msg)]
        (sanitizeFields baseFields)) (sanitizeFields fs)))"

text \<open>The value at a path of keys through nested objects.\<close>

fun at_path :: "(string \<times> js) list \<Rightarrow> string list \<Rightarrow> js option" where
  "at_path ps [] = None"
| "at_path ps [k] = map_of ps k"
| "at_path ps (k # ks) = (case map_of ps k of Some (JObject qs) \<Rightarrow> at_path qs ks | _ \<Rightarrow> None)"

lemma map_of_sanitize:
  "map_of (sanitizeFields ps) k =
     map_option (\<lambda>v. if shouldRedact k then (if v = JNull \<or> v = JUndefined then v else JString ''[redacted]'')
       else sanitize_value v) (map_of ps k)"
proof (induction ps)
  case (Cons p ps)
  obtain k' v' where "p = (k', v')" by force
  with Cons show ?case by simp
qed simp

lemma sanitize_value_object: "sanitize_value v = JObject qs \<longleftrightarrow> (\<exists>ps. v = JObject ps \<and> qs = sanitizeFields ps)"
  by (cases v) auto

lemma redacted_path_core:
  assumes "at_path (sanitizeFields fs) ks = Some v" "ks \<noteq> []" "shouldRedact (last ks)"
  shows "v = JNull \<or> v = JUndefined \<or> v = JString ''[redacted]''"
  using assms
proof (induction fs ks rule: at_path.induct)
  case (3 ps k k' ks)
  from 3(2) obtain qs where q: "map_of (sanitizeFields ps) k = Some (JObject qs)" "at_path qs (k' # ks) = Some v"
    by (auto split: option.splits js.splits)
  from q(1) obtain rs where "map_of ps k = Some (JObject rs)" "qs = sanitizeFields rs"
    by (auto simp: map_of_sanitize sanitize_value_object split: if_splits)
  with 3(1) [of "JObject rs"] 3(4) q(2) 3 show ?case
    by (metis (no_types, lifting) list.simps(3) last_ConsR)
qed (auto simp: map_of_sanitize split: if_splits)

end
