(* ===== verification/AuditLog.thy ===== *)
theory AuditLog
  imports WorkerCommon
begin

text \<open>
  The audit log of the API worker (\<^verbatim>\<open>workers/api/src/audit/audit-log.ts\<close>): the row of an entry and the
  statements of a call.  \<open>JSON.stringify\<close> is a parameter.  A call hands D1 the single statement, or
  batches of at most \<open>D1_BATCH_CHUNK\<close> statements that together are the entries in their order.
\<close>

datatype audit_event =
  AuditSign | FeeCredit | FeeDebit | AccessoryUnlock | OwnerBrowseEvent | WebhookReject | BlobGet | OwnerPolicy

datatype audit_actor = ActorAccessory | ActorOwner | ActorSystem

record audit_entry =
  ae_event :: audit_event
  ae_phygitalToken :: "string option"
  ae_actor :: "audit_actor option"
  ae_ok :: "bool option"
  ae_sessionId :: "string option"
  ae_intentHash :: "string option"
  ae_ts :: "nat option"
  ae_code :: "string option"
  ae_feePayer :: "string option"
  ae_origin :: "string option"
  ae_ms :: "nat option"
  ae_requestId :: "string option"
  ae_detail :: "(string \<times> js) list option"

definition audit_event_text :: "audit_event \<Rightarrow> string" where
  "audit_event_text e =
     (case e of AuditSign \<Rightarrow> ''sign'' | FeeCredit \<Rightarrow> ''fee_credit'' | FeeDebit \<Rightarrow> ''fee_debit''
      | AccessoryUnlock \<Rightarrow> ''accessory_unlock'' | OwnerBrowseEvent \<Rightarrow> ''owner_browse''
      | WebhookReject \<Rightarrow> ''webhook_reject'' | BlobGet \<Rightarrow> ''blob_get'' | OwnerPolicy \<Rightarrow> ''owner_policy'')"

definition audit_actor_text :: "audit_actor \<Rightarrow> string" where
  "audit_actor_text a =
     (case a of ActorAccessory \<Rightarrow> ''accessory'' | ActorOwner \<Rightarrow> ''owner'' | ActorSystem \<Rightarrow> ''system'')"

definition set_if :: "string \<Rightarrow> ('a \<Rightarrow> js) \<Rightarrow> 'a option \<Rightarrow> (string \<times> js) list \<Rightarrow> (string \<times> js) list" where
  "set_if k f v detail = (case v of None \<Rightarrow> detail | Some x \<Rightarrow> set_key k (f x) detail)"

definition detail_fields :: "audit_entry \<Rightarrow> (string \<times> js) list" where
  "detail_fields e =
     set_if ''requestId'' JString (ae_requestId e)
       (set_if ''ms'' (\<lambda>n. JNumber (of_nat n)) (ae_ms e)
         (set_if ''origin'' JString (ae_origin e)
           (set_if ''feePayer'' JString (ae_feePayer e)
             (set_if ''code'' JString (ae_code e) (spread [] (or_else (ae_detail e) []))))))"

definition buildDetail :: "((string \<times> js) list \<Rightarrow> string) \<Rightarrow> audit_entry \<Rightarrow> string option" where
  "buildDetail stringify e =
     (let detail = detail_fields e in if detail \<noteq> [] then Some (stringify detail) else None)"

text \<open>The eight values bound to the statement: NULL is \<open>None\<close>.\<close>

record audit_row =
  ar_ts :: nat
  ar_event :: string
  ar_token :: "string option"
  ar_actor :: "string option"
  ar_ok :: "nat option"
  ar_session :: "string option"
  ar_intent :: "string option"
  ar_detail :: "string option"

definition bind :: "((string \<times> js) list \<Rightarrow> string) \<Rightarrow> nat \<Rightarrow> audit_entry \<Rightarrow> audit_row" where
  "bind stringify now e =
     \<lparr>ar_ts = or_else (ae_ts e) now,
      ar_event = audit_event_text (ae_event e),
      ar_token = ae_phygitalToken e,
      ar_actor = map_option audit_actor_text (ae_actor e),
      ar_ok = map_option (\<lambda>ok. if ok then 1 else 0) (ae_ok e),
      ar_session = ae_sessionId e,
      ar_intent = ae_intentHash e,
      ar_detail = buildDetail stringify e\<rparr>"

definition D1_BATCH_CHUNK :: nat where "D1_BATCH_CHUNK = 100"

text \<open>\<open>for (let i = 0; i < xs.length; i += n)\<close> with \<open>xs.slice(i, i + n)\<close>.\<close>

function chunks :: "nat \<Rightarrow> 'a list \<Rightarrow> 'a list list" where
  "chunks n xs = (if xs = [] \<or> n = 0 then [] else take n xs # chunks n (drop n xs))"
  by pat_completeness auto
termination by (relation "measure (\<lambda>(n, xs). length xs)") auto

declare chunks.simps [simp del]

text \<open>The batches of rows written, when there is a database.\<close>

definition recordAudit :: "((string \<times> js) list \<Rightarrow> string) \<Rightarrow> nat \<Rightarrow> bool \<Rightarrow> audit_entry list \<Rightarrow> audit_row list list" where
  "recordAudit stringify now hasDb entries =
     (if entries = [] \<or> \<not> hasDb then []
      else
        let statements = map (bind stringify now) entries in
        if length statements = 1 then [statements] else chunks D1_BATCH_CHUNK statements)"

definition blank_entry :: "audit_event \<Rightarrow> audit_entry" where
  "blank_entry ev =
     \<lparr>ae_event = ev, ae_phygitalToken = None, ae_actor = None, ae_ok = None, ae_sessionId = None,
      ae_intentHash = None, ae_ts = None, ae_code = None, ae_feePayer = None, ae_origin = None, ae_ms = None,
      ae_requestId = None, ae_detail = None\<rparr>"

record audit_meta =
  mt_requestId :: "string option"
  mt_origin :: "string option"

definition auditMeta :: "string option \<Rightarrow> string option \<Rightarrow> string option \<Rightarrow> audit_meta" where
  "auditMeta cfRay xRequestId origin =
     \<lparr>mt_requestId = (case cfRay of Some r \<Rightarrow> Some r | None \<Rightarrow> xRequestId), mt_origin = origin\<rparr>"

lemma concat_chunks: "0 < n \<Longrightarrow> concat (chunks n xs) = xs"
  by (induction n xs rule: chunks.induct) (subst chunks.simps, auto)

lemma chunks_bounded: "xs \<in> set (chunks n ys) \<Longrightarrow> xs \<noteq> [] \<and> length xs \<le> n"
proof (induction n ys rule: chunks.induct)
  case (1 n ys)
  then show ?case by (subst (asm) chunks.simps) (auto split: if_splits)
qed

lemma recordAudit_rows:
  "concat (recordAudit f now True entries) = map (bind f now) entries"
  "batch \<in> set (recordAudit f now d entries) \<Longrightarrow> batch \<noteq> [] \<and> length batch \<le> D1_BATCH_CHUNK"
  using chunks_bounded [of batch D1_BATCH_CHUNK]
  by (auto simp: recordAudit_def concat_chunks D1_BATCH_CHUNK_def Let_def split: if_splits)

end
