(* ===== verification/ApiGate.thy ===== *)
theory ApiGate
  imports ApiSession AuditLog
begin

text \<open>
  The gate in front of the API worker: \<^verbatim>\<open>auth/require-app-access.ts\<close>, the CORS decision of
  \<^verbatim>\<open>shared/cors.ts\<close>, the session routes of \<^verbatim>\<open>auth/owner-session-routes.ts\<close> and the JSON replies of
  \<^verbatim>\<open>shared/http.ts\<close>.  \<open>URL\<close> is a parameter that gives the host name of an origin; the lookup of the
  authority on chain is an input of its handler.
\<close>

record reply =
  rp_status :: nat
  rp_body :: "(string \<times> js) list"
  rp_cookies :: "cookie_change list"
  rp_audit :: "audit_entry list"

definition json :: "(string \<times> js) list \<Rightarrow> nat \<Rightarrow> reply" where
  "json ps status = \<lparr>rp_status = status, rp_body = ps, rp_cookies = [], rp_audit = []\<rparr>"

definition with_cookies :: "cookie_change list \<Rightarrow> reply \<Rightarrow> reply" where
  "with_cookies cs r = r\<lparr>rp_cookies := cs @ rp_cookies r\<rparr>"

definition json_error :: "string \<Rightarrow> string \<Rightarrow> nat \<Rightarrow> reply" where
  "json_error message code status = json [(''error'', JString message), (''code'', JString code)] status"

subsection \<open>Paths\<close>

definition PUBLIC_ROUTES :: "(string \<times> string) list" where
  "PUBLIC_ROUTES =
     [(''GET'', ''/health''),
      (''POST'', ''/accessory/unlock/tap''),
      (''POST'', ''/accessory/unlock/challenge''),
      (''POST'', ''/accessory/unlock/webauthn''),
      (''GET'', ''/owner-session''),
      (''DELETE'', ''/owner-session''),
      (''POST'', ''/accessory/owner-browse''),
      (''GET'', ''/accessory/session''),
      (''GET'', ''/getFeePayer''),
      (''POST'', ''/sign''),
      (''POST'', ''/webhooks/transactions''),
      (''POST'', ''/owner-wallet/blob/backup-challenge''),
      (''POST'', ''/owner-wallet/blob/restore-challenge''),
      (''POST'', ''/owner-wallet/blob/restore''),
      (''PUT'', ''/owner-wallet/blob'')]"

definition normalizeApiPath :: "string \<Rightarrow> string" where
  "normalizeApiPath path =
     (if path = '''' then ''/''
      else
        let noQuery = hd (split_on CHR ''?'' path) in
        if length noQuery > 1 \<and> ends_with ''/'' noQuery then butlast noQuery
        else if noQuery = '''' then ''/'' else noQuery)"

text \<open>Methods are ASCII tokens.\<close>

definition to_upper :: "string \<Rightarrow> string" where
  "to_upper s = map (\<lambda>c. let n = of_char c :: nat in if 97 \<le> n \<and> n \<le> 122 then char_of (n - 32) else c) s"

definition isPublicApiPath :: "string \<Rightarrow> string \<Rightarrow> bool" where
  "isPublicApiPath meth path =
     (let m = to_upper meth; p = normalizeApiPath path in
      list_ex (\<lambda>r. fst r = m \<and> snd r = p) PUBLIC_ROUTES)"

definition isOpenCorsPath :: "string \<Rightarrow> string \<Rightarrow> bool" where
  "isOpenCorsPath meth path = (let p = normalizeApiPath path in p = ''/getFeePayer'' \<or> p = ''/sign'')"

definition extractPhygitalTokenFromRequest :: "string \<Rightarrow> string option \<Rightarrow> string option" where
  "extractPhygitalTokenFromRequest path queryToken =
     (case map_option trim queryToken of
        Some q \<Rightarrow> if q \<noteq> '''' then Some q else None
      | None \<Rightarrow> None)"

subsection \<open>The decision\<close>

datatype access = Allow | Deny | DenyTokenMismatch

record app_access_input =
  aa_method :: string
  aa_path :: string
  aa_queryToken :: "string option"
  aa_browseToken :: "string option"

definition evaluateAppAccess :: "app_access_input \<Rightarrow> access" where
  "evaluateAppAccess i =
     (if isPublicApiPath (aa_method i) (aa_path i) then Allow
      else
        case aa_browseToken i of
          None \<Rightarrow> Deny
        | Some browse \<Rightarrow>
            if browse = '''' then Deny
            else
              (case extractPhygitalTokenFromRequest (aa_path i) (aa_queryToken i) of
                 None \<Rightarrow> Allow
               | Some token \<Rightarrow> if browse \<noteq> token then DenyTokenMismatch else Allow))"

record api_request =
  rq_method :: string
  rq_path :: string
  rq_queryToken :: "string option"
  rq_cookies :: jar
  rq_url :: "(string \<times> string) option"

definition admit_token :: "api_kit \<Rightarrow> string option \<Rightarrow> jar \<Rightarrow> nat \<Rightarrow> string option" where
  "admit_token K secret cookies now =
     (case readBrowseUnlock K secret cookies now of
        Some b \<Rightarrow> Some (sp_head b)
      | None \<Rightarrow> map_option sp_head (readOwnerBrowse K secret cookies now))"

definition requireAppAccess :: "api_kit \<Rightarrow> string option \<Rightarrow> api_request \<Rightarrow> nat \<Rightarrow> reply option" where
  "requireAppAccess K secret r now =
     (case evaluateAppAccess
        \<lparr>aa_method = rq_method r, aa_path = rq_path r, aa_queryToken = rq_queryToken r,
         aa_browseToken = admit_token K secret (rq_cookies r) now\<rparr> of
        Allow \<Rightarrow> None
      | DenyTokenMismatch \<Rightarrow> Some (json_error ''Unlock this item again to continue.'' ''session_required'' 401)
      | Deny \<Rightarrow> Some (json_error ''Sign in or unlock this item to continue.'' ''session_required'' 401))"

text \<open>The middleware of \<^verbatim>\<open>index.ts\<close>: preflight requests skip the gate.\<close>

definition gate :: "api_kit \<Rightarrow> string option \<Rightarrow> api_request \<Rightarrow> nat \<Rightarrow> reply option" where
  "gate K secret r now = (if rq_method r = ''OPTIONS'' then None else requireAppAccess K secret r now)"

subsection \<open>CORS\<close>

definition APP_BROWSER_HOSTS :: "string list" where
  "APP_BROWSER_HOSTS = [''localhost'', ''127.0.0.1'', ''app.revibase.com'', ''signer.revibase.com'']"

type_synonym url_host = "string \<Rightarrow> string option"

definition isAppBrowserOrigin :: "url_host \<Rightarrow> string \<Rightarrow> bool" where
  "isAppBrowserOrigin host origin =
     (case host origin of None \<Rightarrow> False | Some h \<Rightarrow> to_lower h \<in> set APP_BROWSER_HOSTS)"

datatype cors_mode = OpenCors | Credentialed

definition corsModeForRequest :: "url_host \<Rightarrow> string \<Rightarrow> string \<Rightarrow> string option \<Rightarrow> cors_mode" where
  "corsModeForRequest host meth path origin =
     (if \<not> isOpenCorsPath meth (normalizeApiPath path) then Credentialed
      else case origin of
        Some origin' \<Rightarrow> if origin' \<noteq> '''' \<and> \<not> isAppBrowserOrigin host origin' then OpenCors else Credentialed
      | None \<Rightarrow> Credentialed)"

text \<open>The allowed origin and the credentials flag the two policies answer with.\<close>

definition appCredentialedCors :: "url_host \<Rightarrow> string \<Rightarrow> string option \<times> bool" where
  "appCredentialedCors host origin =
     (if origin = '''' then Some ''*'' else if isAppBrowserOrigin host origin then Some origin else None, True)"

definition openPublicCors :: "string \<Rightarrow> string option \<times> bool" where
  "openPublicCors origin = (Some (if origin = '''' then ''*'' else origin), False)"

definition appCors :: "url_host \<Rightarrow> string \<Rightarrow> string \<Rightarrow> string option \<Rightarrow> string option \<times> bool" where
  "appCors host meth path origin =
     (case corsModeForRequest host meth path origin of
        OpenCors \<Rightarrow> openPublicCors (or_else origin '''')
      | Credentialed \<Rightarrow> appCredentialedCors host (or_else origin ''''))"

subsection \<open>What passes the gate\<close>

lemma evaluateAppAccess_Allow:
  "evaluateAppAccess i = Allow \<longleftrightarrow>
     isPublicApiPath (aa_method i) (aa_path i) \<or>
     (\<exists>t. aa_browseToken i = Some t \<and> t \<noteq> '''' \<and>
        (case aa_queryToken i of None \<Rightarrow> True | Some q \<Rightarrow> trim q = '''' \<or> trim q = t))"
  by (auto simp: evaluateAppAccess_def extractPhygitalTokenFromRequest_def split: option.splits)

lemma requireAppAccess_None:
  "requireAppAccess K secret r now = None \<longleftrightarrow>
     isPublicApiPath (rq_method r) (rq_path r) \<or>
     (\<exists>t. admit_token K secret (rq_cookies r) now = Some t \<and> t \<noteq> '''' \<and>
        (case rq_queryToken r of None \<Rightarrow> True | Some q \<Rightarrow> trim q = '''' \<or> trim q = t))"
  by (simp add: requireAppAccess_def evaluateAppAccess_Allow [symmetric, of "\<lparr>aa_method = rq_method r, aa_path = rq_path r,
      aa_queryToken = rq_queryToken r, aa_browseToken = admit_token K secret (rq_cookies r) now\<rparr>", simplified]
      split: access.splits)

lemma parse_accepted_token:
  assumes "parseSignedSessionToken K secret now (jar name) = Some p"
  obtains token sec payload expText where "jar name = Some token" "requireSessionSecret secret = Inr sec"
    "base64UrlToBytes K (split_on CHR ''.'' token ! 1) = Some (hmacSha256 K sec payload)"
    "payload = sp_head p @ ''|'' @ expText @ ''|'' @ sp_jti p" "ak_number K expText = Some (sp_exp p)"
    "of_nat now < sp_exp p"
proof -
  from assms obtain token where token: "jar name = Some token"
    by (auto simp: parseSignedSessionToken_def split: option.splits)
  with assms have "parseSignedSessionToken K secret now (Some token) = Some p" by simp
  then obtain sec payload mac64 where sec: "requireSessionSecret secret = Inr sec"
    and mac: "base64UrlToBytes K mac64 = Some (hmacSha256 K sec payload)" "split_on CHR ''.'' token ! 1 = mac64"
    and parts: "payload_parts K now payload = Some p" by (rule parse_accepted)
  from parts obtain expText where "payload = sp_head p @ ''|'' @ expText @ ''|'' @ sp_jti p"
    "ak_number K expText = Some (sp_exp p)" "of_nat now < sp_exp p" by (rule payload_parts_Some)
  with token sec mac show ?thesis by (intro that) auto
qed

text \<open>
  C22: What the gate demands.  A request to a route that is not public passes only with a cookie under one
  of the two names of an admit session whose second part is the HMAC, under the configured secret, of a
  payload \<open>token|expiry|id\<close> with a readable expiry that lies in the future; and if the request names a token
  in its query, it is that one.
\<close>
theorem gate_requires_live_session:
  assumes "gate K secret r now = None" and "rq_method r \<noteq> ''OPTIONS''"
    and "\<not> isPublicApiPath (rq_method r) (rq_path r)"
  shows "\<exists>name cookie sec payload token expText e jti.
    (name = BROWSE_UNLOCK_COOKIE \<or> name = OWNER_BROWSE_COOKIE) \<and> rq_cookies r name = Some cookie \<and>
    requireSessionSecret secret = Inr sec \<and>
    base64UrlToBytes K (split_on CHR ''.'' cookie ! 1) = Some (hmacSha256 K sec payload) \<and>
    payload = token @ ''|'' @ expText @ ''|'' @ jti \<and> token \<noteq> '''' \<and>
    ak_number K expText = Some e \<and> of_nat now < e \<and>
    (case rq_queryToken r of None \<Rightarrow> True | Some q \<Rightarrow> trim q = '''' \<or> trim q = token)"
proof -
  from assms obtain t where t: "admit_token K secret (rq_cookies r) now = Some t" "t \<noteq> ''''"
    and q: "case rq_queryToken r of None \<Rightarrow> True | Some q \<Rightarrow> trim q = '''' \<or> trim q = t"
    by (auto simp: gate_def requireAppAccess_None)
  from t(1) obtain name p where p: "name = BROWSE_UNLOCK_COOKIE \<or> name = OWNER_BROWSE_COOKIE"
      "parseSignedSessionToken K secret now (rq_cookies r name) = Some p" "t = sp_head p"
    by (auto simp: admit_token_def readBrowseUnlock_def readOwnerBrowse_def read_session_def split: option.splits)
  from parse_accepted_token [of K secret now "rq_cookies r" name p, OF p(2)] obtain token sec payload expText
    where "rq_cookies r name = Some token" "requireSessionSecret secret = Inr sec"
      "base64UrlToBytes K (split_on CHR ''.'' token ! 1) = Some (hmacSha256 K sec payload)"
      "payload = sp_head p @ ''|'' @ expText @ ''|'' @ sp_jti p" "ak_number K expText = Some (sp_exp p)"
      "of_nat now < sp_exp p" by metis
  with p t(2) q show ?thesis by blast
qed

subsection \<open>Sessions that were issued\<close>

lemma issue_session_Inr:
  assumes "issue_session K secret name ttl url hd' now jti = Inr (e, change)"
  obtains sec where "requireSessionSecret secret = Inr sec" "e = now + ttl"
    "change = set_session name url (bytesToBase64Url K (utf8ToBytes (trim hd' @ ''|'' @ nat_text e @ ''|'' @ jti)) @ ''.'' @
       bytesToBase64Url K (hmacSha256 K sec (trim hd' @ ''|'' @ nat_text e @ ''|'' @ jti))) e now"
  using assms by (auto simp: issue_session_def mintSignedSessionToken_def result_simps Let_def)

lemma read_issued:
  assumes "api_kit_ok K" "issue_session K secret name ttl url hd' t0 jti = Inr (e, change)"
    and "CHR ''|'' \<notin> set jti" "jti \<noteq> ''''" "trim hd' \<noteq> ''''" "t0 + ttl \<le> 9007199254740991"
  shows "read_session K secret name (apply_change change j) t =
    (if t < t0 + ttl then Some \<lparr>sp_head = trim hd', sp_exp = of_nat (t0 + ttl), sp_jti = jti\<rparr> else None)"
proof -
  from assms(2) obtain sec where sec: "requireSessionSecret secret = Inr sec" and e: "e = t0 + ttl"
    and change: "change = set_session name url (bytesToBase64Url K (utf8ToBytes (trim hd' @ ''|'' @ nat_text e @ ''|'' @ jti)) @ ''.'' @
       bytesToBase64Url K (hmacSha256 K sec (trim hd' @ ''|'' @ nat_text e @ ''|'' @ jti))) e t0" by (rule issue_session_Inr)
  have "ak_number K (nat_text e) = Some (of_nat e)" using assms(1,6) e by (simp add: api_kit_ok_def)
  from payload_parts_minted [OF assms(3-5) this] parse_minted [OF assms(1) sec, of "trim hd' @ ''|'' @ nat_text e @ ''|'' @ jti" t] e
  show ?thesis by (simp add: read_session_def change set_session_def)
qed

lemma unlock_opens_core:
  assumes "api_kit_ok K"
    and "issueBrowseUnlockCookie K secret url token t0 jti = Inr (e, changes)"
    and "CHR ''|'' \<notin> set jti" and "jti \<noteq> ''''" and "trim token \<noteq> ''''" and "t0 + BROWSE_SESSION_TTL_MS \<le> 9007199254740991"
    and "rq_cookies r = fold apply_change changes j" and "rq_method r \<noteq> ''OPTIONS''"
    and "\<not> isPublicApiPath (rq_method r) (rq_path r)"
  shows "gate K secret r t = None \<longleftrightarrow>
    t < t0 + 30 * 60 * 1000 \<and> (case rq_queryToken r of None \<Rightarrow> True | Some q \<Rightarrow> trim q = '''' \<or> trim q = trim token)"
proof -
  from assms(2) obtain change where issued: "issue_session K secret BROWSE_UNLOCK_COOKIE BROWSE_SESSION_TTL_MS url token t0 jti = Inr (e, change)"
    and changes: "changes = [clear_session OWNER_BROWSE_COOKIE url, change]"
    by (auto simp: issueBrowseUnlockCookie_def result_simps)
  from issued obtain tok where "change = set_session BROWSE_UNLOCK_COOKIE url tok e t0" by (rule issue_session_Inr)
  with assms(7) changes have "rq_cookies r OWNER_BROWSE_COOKIE = None"
    by (simp add: set_session_def clear_session_def OWNER_BROWSE_COOKIE_def BROWSE_UNLOCK_COOKIE_def)
  then have "readOwnerBrowse K secret (rq_cookies r) t = None"
    by (simp add: readOwnerBrowse_def read_session_def parseSignedSessionToken_def)
  moreover have "readBrowseUnlock K secret (rq_cookies r) t =
      (if t < t0 + BROWSE_SESSION_TTL_MS then Some \<lparr>sp_head = trim token, sp_exp = of_nat (t0 + BROWSE_SESSION_TTL_MS), sp_jti = jti\<rparr> else None)"
    using read_issued [OF assms(1) issued assms(3-6)] assms(7) changes by (simp add: readBrowseUnlock_def)
  ultimately show ?thesis
    using assms(5,8,9) by (auto simp: gate_def requireAppAccess_None admit_token_def BROWSE_SESSION_TTL_MS_def split: option.splits)
qed

text \<open>
  An unlock opens the gate for its token and for its time.  After the reply of an unlock for a token,
  the browser's next requests to routes that are not public pass exactly until thirty minutes are over and
  only if they name no other token in the query, whatever sessions the browser held before.
\<close>
theorem unlock_opens_gate_until_expiry:
  assumes "api_kit_ok K"
    and "issueBrowseUnlockCookie K secret url token t0 jti = Inr (e, changes)"
    and "CHR ''|'' \<notin> set jti" and "jti \<noteq> ''''" and "trim token \<noteq> ''''" and "t0 + BROWSE_SESSION_TTL_MS \<le> 9007199254740991"
    and "rq_cookies r = fold apply_change changes j" and "rq_method r \<noteq> ''OPTIONS''"
    and "\<not> isPublicApiPath (rq_method r) (rq_path r)"
  shows "gate K secret r t = None \<longleftrightarrow>
    t < t0 + 30 * 60 * 1000 \<and> (case rq_queryToken r of None \<Rightarrow> True | Some q \<Rightarrow> trim q = '''' \<or> trim q = trim token)"
  using assms by (rule unlock_opens_core)

lemma issue_always:
  assumes "requireSessionSecret secret = Inr sec"
  shows "\<exists>e tok. issue_session K secret name ttl url hd' now jti = Inr (e, set_session name url tok e now)"
  using assms by (auto simp: issue_session_def mintSignedSessionToken_def Let_def)

definition sample_api_request :: "jar \<Rightarrow> string option \<Rightarrow> api_request" where
  "sample_api_request cookies q =
     \<lparr>rq_method = ''GET'', rq_path = ''/tokens/verified'', rq_queryToken = q, rq_cookies = cookies, rq_url = None\<rparr>"

lemma sample_unlock:
  obtains e changes where "issueBrowseUnlockCookie sample_api_kit (Some ''s3cret'') None ''Tok'' 1000 ''j1'' = Inr (e, changes)"
proof -
  have "requireSessionSecret (Some ''s3cret'') = Inr ''s3cret''" by code_simp
  from issue_always [OF this, of sample_api_kit BROWSE_UNLOCK_COOKIE BROWSE_SESSION_TTL_MS None "''Tok''" 1000 "''j1''"]
  show ?thesis by (auto simp: issueBrowseUnlockCookie_def intro: that)
qed

lemma sample_route_not_public: "\<not> isPublicApiPath ''GET'' ''/tokens/verified''"
  by code_simp

theorem unlock_opens_gate_until_expiry_witness:
  "\<exists>e changes. issueBrowseUnlockCookie sample_api_kit (Some ''s3cret'') None ''Tok'' 1000 ''j1'' = Inr (e, changes) \<and>
     gate sample_api_kit (Some ''s3cret'') (sample_api_request (fold apply_change changes Map.empty) None) 1800999 = None \<and>
     gate sample_api_kit (Some ''s3cret'') (sample_api_request (fold apply_change changes Map.empty) None) 1801000 \<noteq> None \<and>
     gate sample_api_kit (Some ''s3cret'') (sample_api_request (fold apply_change changes Map.empty) (Some ''Other'')) 5000 \<noteq> None"
proof -
  from sample_unlock obtain e changes where issued:
    "issueBrowseUnlockCookie sample_api_kit (Some ''s3cret'') None ''Tok'' 1000 ''j1'' = Inr (e, changes)" .
  have tok: "trim ''Tok'' = ''Tok''" "trim ''Other'' = ''Other''" by code_simp+
  have gate: "gate sample_api_kit (Some ''s3cret'') (sample_api_request (fold apply_change changes Map.empty) q) t = None \<longleftrightarrow>
      t < 1000 + 30 * 60 * 1000 \<and> (case q of None \<Rightarrow> True | Some q \<Rightarrow> trim q = '''' \<or> trim q = trim ''Tok'')" for q t
    using unlock_opens_gate_until_expiry [OF sample_api_kit_ok issued, of "sample_api_request (fold apply_change changes Map.empty) q" Map.empty t]
      sample_route_not_public
    by (simp add: sample_api_request_def tok BROWSE_SESSION_TTL_MS_def)
  show ?thesis
    by (rule exI [of _ e], rule exI [of _ changes]) (simp add: issued gate tok)
qed

lemma sample_unlock_passes:
  assumes "issueBrowseUnlockCookie sample_api_kit (Some ''s3cret'') None ''Tok'' 1000 ''j1'' = Inr (e, changes)"
  shows "gate sample_api_kit (Some ''s3cret'') (sample_api_request (fold apply_change changes Map.empty) None) 2000 = None"
proof -
  have "trim ''Tok'' = ''Tok''" by code_simp
  then show ?thesis
    using unlock_opens_core [OF sample_api_kit_ok assms, of "sample_api_request (fold apply_change changes Map.empty) None" Map.empty 2000]
      sample_route_not_public
    by (simp add: sample_api_request_def BROWSE_SESSION_TTL_MS_def)
qed

theorem gate_requires_live_session_witness:
  "\<exists>name cookie. (name = BROWSE_UNLOCK_COOKIE \<or> name = OWNER_BROWSE_COOKIE) \<and>
     (\<exists>e changes. issueBrowseUnlockCookie sample_api_kit (Some ''s3cret'') None ''Tok'' 1000 ''j1'' = Inr (e, changes) \<and>
        fold apply_change changes Map.empty name = Some cookie)"
proof -
  from sample_unlock obtain e changes where
    issued: "issueBrowseUnlockCookie sample_api_kit (Some ''s3cret'') None ''Tok'' 1000 ''j1'' = Inr (e, changes)" .
  from gate_requires_live_session [OF sample_unlock_passes [OF issued]] sample_route_not_public issued show ?thesis
    by (fastforce simp: sample_api_request_def)
qed

subsection \<open>What the gate does not look at\<close>

text \<open>A session token says nothing of its kind: the token of an owner session is accepted as an unlock.\<close>

lemma session_kinds_are_interchangeable:
  assumes "cookies BROWSE_UNLOCK_COOKIE = others OWNER_SESSION_COOKIE"
  shows "readBrowseUnlock K secret cookies t = readOwnerSession K secret others t"
  using assms by (simp add: readBrowseUnlock_def readOwnerSession_def read_session_def)

lemma owner_session_opens_gate:
  assumes "api_kit_ok K" and "issueOwnerSessionCookie K secret url pk t0 jti = Inr (e, change)"
    and "CHR ''|'' \<notin> set jti" and "jti \<noteq> ''''" and "trim pk \<noteq> ''''" and "t0 + OWNER_SESSION_TTL_MS \<le> 9007199254740991"
    and "rq_cookies r BROWSE_UNLOCK_COOKIE = apply_change change j OWNER_SESSION_COOKIE"
    and "rq_queryToken r = None" and "t < t0 + OWNER_SESSION_TTL_MS"
  shows "gate K secret r t = None"
proof -
  have "readOwnerSession K secret (apply_change change j) t =
      Some \<lparr>sp_head = trim pk, sp_exp = of_nat (t0 + OWNER_SESSION_TTL_MS), sp_jti = jti\<rparr>"
    using read_issued [OF assms(1) assms(2) [unfolded issueOwnerSessionCookie_def] assms(3-6)] assms(9)
    by (simp add: readOwnerSession_def)
  with session_kinds_are_interchangeable [where cookies = "rq_cookies r" and others = "apply_change change j", OF assms(7)] assms(5,8) show ?thesis
    by (simp add: gate_def requireAppAccess_None admit_token_def)
qed

text \<open>Two paths that are not public are treated alike, whatever token or address they name.\<close>

lemma gate_ignores_path:
  assumes "\<not> isPublicApiPath (rq_method r) (rq_path r)" "\<not> isPublicApiPath (rq_method r) p"
  shows "requireAppAccess K secret (r\<lparr>rq_path := p\<rparr>) now = requireAppAccess K secret r now"
proof -
  have "evaluateAppAccess (i\<lparr>aa_path := p\<rparr>) = evaluateAppAccess i"
    if "\<not> isPublicApiPath (aa_method i) (aa_path i)" "\<not> isPublicApiPath (aa_method i) p" for i
    using that by (auto simp: evaluateAppAccess_def extractPhygitalTokenFromRequest_def split: option.splits)
  from this [of "\<lparr>aa_method = rq_method r, aa_path = rq_path r, aa_queryToken = rq_queryToken r,
      aa_browseToken = admit_token K secret (rq_cookies r) now\<rparr>"] assms
  show ?thesis by (simp add: requireAppAccess_def)
qed

end
