(* ===== verification/TapCounter.thy ===== *)
theory TapCounter
  imports ApiGate SignerState
begin

text \<open>
  Taps of an accessory (\<^verbatim>\<open>workers/api/src/tap\<close>): the signed dynamic URL (\<^verbatim>\<open>verify-dynamic-url.ts\<close>) and
  the counter that makes it single-use (\<^verbatim>\<open>counter-session.ts\<close>, \<^verbatim>\<open>counter-store.ts\<close>).  A consumption is
  two database statements, and \<open>tap_step\<close> lets the statements of any number of requests interleave.  The
  P-256 functions and the encoder of the counter are parameters.
\<close>

subsection \<open>The counter\<close>

definition js_member :: "js \<Rightarrow> string \<Rightarrow> js option" where
  "js_member v k =
     (case v of JUndefined \<Rightarrow> None | JNull \<Rightarrow> None | JObject ps \<Rightarrow> Some (jget ps k) | _ \<Rightarrow> Some JUndefined)"

text \<open>\<open>None\<close> of \<open>jsonParse\<close> and of \<open>js_member\<close> is the exception the \<open>catch\<close> block handles.\<close>

definition parseCounterState ::
  "(string \<Rightarrow> js option) \<Rightarrow> (string \<Rightarrow> rat option) \<Rightarrow> string option \<Rightarrow> rat option" where
  "parseCounterState jsonParse number raw =
     (case raw of
        None \<Rightarrow> None
      | Some r \<Rightarrow>
          if r = '''' then None
          else case Option.bind (jsonParse r) (\<lambda>parsed. js_member parsed ''c'') of
            None \<Rightarrow> number r
          | Some (JNumber c) \<Rightarrow> Some c
          | Some (JString s) \<Rightarrow> number s
          | Some _ \<Rightarrow> None)"

datatype counter_verdict = NewTap | Replay

definition evaluateCounter :: "int option \<Rightarrow> int \<Rightarrow> counter_verdict" where
  "evaluateCounter state counter =
     (case state of None \<Rightarrow> NewTap | Some c \<Rightarrow> if counter > c then NewTap else Replay)"

record tap_row =
  tr_c :: int
  tr_updated_at :: nat

type_synonym tap_counters = "string \<rightharpoonup> tap_row"

definition select_counter :: "string \<Rightarrow> tap_counters \<Rightarrow> int option" where
  "select_counter identifier db = map_option tr_c (db identifier)"

text \<open>The upsert, with the number of rows it changed.\<close>

definition upsert_counter :: "string \<Rightarrow> int \<Rightarrow> nat \<Rightarrow> tap_counters \<Rightarrow> nat \<times> tap_counters" where
  "upsert_counter identifier counter now db =
     (case db identifier of
        None \<Rightarrow> (1, db(identifier \<mapsto> \<lparr>tr_c = counter, tr_updated_at = now\<rparr>))
      | Some old \<Rightarrow>
          if tr_c old < counter then (1, db(identifier \<mapsto> \<lparr>tr_c = counter, tr_updated_at = now\<rparr>)) else (0, db))"

text \<open>The two halves of \<open>consumeCounterSession\<close>, before and after the read has been answered.\<close>

definition consume_read :: "string \<Rightarrow> int \<Rightarrow> tap_counters \<Rightarrow> counter_verdict option" where
  "consume_read identifier counter db =
     (if evaluateCounter (select_counter identifier db) counter = Replay then Some Replay else None)"

definition consume_write :: "string \<Rightarrow> int \<Rightarrow> nat \<Rightarrow> tap_counters \<Rightarrow> counter_verdict \<times> tap_counters" where
  "consume_write identifier counter now db =
     (let (changes, db') = upsert_counter identifier counter now db in
      (if changes > 0 then NewTap else Replay, db'))"

definition consumeCounterSession ::
  "string \<Rightarrow> int \<Rightarrow> nat \<Rightarrow> tap_counters \<Rightarrow> counter_verdict \<times> tap_counters" where
  "consumeCounterSession identifier counter now db =
     (case consume_read identifier counter db of
        Some v \<Rightarrow> (v, db)
      | None \<Rightarrow> consume_write identifier counter now db)"

subsection \<open>Requests that interleave\<close>

text \<open>
  \<open>ts_waiting\<close> holds the requests whose read let them pass and that have not written yet, \<open>ts_accepted\<close> the
  taps accepted so far, oldest first.
\<close>

record tap_state =
  tp_db :: tap_counters
  tp_waiting :: "(string \<times> int) list"
  tp_accepted :: "(string \<times> int) list"

definition tap_start :: "tap_counters \<Rightarrow> tap_state" where
  "tap_start db = \<lparr>tp_db = db, tp_waiting = [], tp_accepted = []\<rparr>"

definition read_step :: "string \<Rightarrow> int \<Rightarrow> tap_state \<Rightarrow> tap_state" where
  "read_step i c s =
     (case consume_read i c (tp_db s) of Some _ \<Rightarrow> s | None \<Rightarrow> s\<lparr>tp_waiting := tp_waiting s @ [(i, c)]\<rparr>)"

definition write_step :: "nat \<Rightarrow> nat \<Rightarrow> tap_state \<Rightarrow> tap_state" where
  "write_step k now s =
     (let (i, c) = tp_waiting s ! k; (v, db) = consume_write i c now (tp_db s) in
      s\<lparr>tp_db := db, tp_waiting := take k (tp_waiting s) @ drop (Suc k) (tp_waiting s),
        tp_accepted := (if v = NewTap then tp_accepted s @ [(i, c)] else tp_accepted s)\<rparr>)"

inductive tap_step :: "tap_state \<Rightarrow> tap_state \<Rightarrow> bool" where
  tap_read: "tap_step s (read_step i c s)"
| tap_write: "k < length (tp_waiting s) \<Longrightarrow> tap_step s (write_step k now s)"

inductive tap_reaches :: "tap_counters \<Rightarrow> tap_state \<Rightarrow> bool" for db where
  start: "tap_reaches db (tap_start db)"
| step: "tap_reaches db s \<Longrightarrow> tap_step s s' \<Longrightarrow> tap_reaches db s'"

definition accepted_of :: "string \<Rightarrow> tap_state \<Rightarrow> int list" where
  "accepted_of i s = map snd (filter (\<lambda>t. fst t = i) (tp_accepted s))"

definition marks_ok :: "tap_counters \<Rightarrow> string \<Rightarrow> tap_state \<Rightarrow> bool" where
  "marks_ok db i s \<longleftrightarrow>
     sorted_wrt (<) (accepted_of i s) \<and>
     select_counter i (tp_db s) = (if accepted_of i s = [] then select_counter i db else Some (last (accepted_of i s))) \<and>
     (\<forall>m. select_counter i db = Some m \<longrightarrow> list_all (\<lambda>c. m < c) (accepted_of i s))"

lemma upsert_accepts:
  "consume_write i c now db = (NewTap, db') \<longleftrightarrow>
     (\<forall>m. select_counter i db = Some m \<longrightarrow> m < c) \<and> db' = db(i \<mapsto> \<lparr>tr_c = c, tr_updated_at = now\<rparr>)"
  "consume_write i c now db = (Replay, db') \<longleftrightarrow> (\<exists>m. select_counter i db = Some m \<and> c \<le> m) \<and> db' = db"
  by (auto simp: consume_write_def upsert_counter_def select_counter_def split: option.splits if_splits)

lemma sorted_wrt_snoc:
  fixes c :: int
  shows "sorted_wrt (<) (xs @ [c]) \<longleftrightarrow> sorted_wrt (<) xs \<and> (xs \<noteq> [] \<longrightarrow> last xs < c)"
  by (induction xs) (auto simp: sorted_wrt_append, metis last_in_set order.strict_trans)

lemma sorted_first:
  fixes m :: int
  shows "sorted_wrt (<) xs \<Longrightarrow> xs \<noteq> [] \<Longrightarrow> list_all (\<lambda>c. m < c) xs \<Longrightarrow> m < last xs"
  by (auto simp: list_all_iff)

lemma marks_ok_accept:
  assumes "marks_ok db i s" "\<forall>m. select_counter i (tp_db s) = Some m \<longrightarrow> m < c"
    "select_counter i (tp_db s') = Some c" "accepted_of i s' = accepted_of i s @ [c]"
  shows "marks_ok db i s'"
proof -
  have "m < c" if "select_counter i db = Some m" for m
    using assms(1,2) that sorted_first [of "accepted_of i s" m] by (force simp: marks_ok_def split: if_splits)
  with assms show ?thesis by (auto simp: marks_ok_def sorted_wrt_snoc split: if_splits)
qed

lemma marks_ok_step:
  assumes "tap_step s s'" "marks_ok db i s"
  shows "marks_ok db i s'"
  using assms
proof cases
  case (tap_read j c)
  have "tp_db (read_step j c s) = tp_db s" "tp_accepted (read_step j c s) = tp_accepted s"
    by (simp_all add: read_step_def split: option.splits)
  with assms(2) tap_read show ?thesis by (simp add: marks_ok_def accepted_of_def)
next
  case (tap_write k now)
  obtain j c where jc: "tp_waiting s ! k = (j, c)" by force
  obtain v db' where w: "consume_write j c now (tp_db s) = (v, db')" by force
  have s': "tp_db s' = db'" "tp_accepted s' = (if v = NewTap then tp_accepted s @ [(j, c)] else tp_accepted s)"
    using tap_write(1) by (simp_all add: write_step_def jc w)
  show ?thesis
  proof (cases "v = NewTap \<and> j = i")
    case True
    with w s' show ?thesis
      by (intro marks_ok_accept [OF assms(2)]) (auto simp: upsert_accepts accepted_of_def select_counter_def)
  next
    case False
    with w s' have "accepted_of i s' = accepted_of i s" "select_counter i (tp_db s') = select_counter i (tp_db s)"
      by (cases v; auto simp: upsert_accepts accepted_of_def select_counter_def)+
    with assms(2) show ?thesis by (simp add: marks_ok_def)
  qed
qed

lemma marks_ok_reaches: "tap_reaches db s \<Longrightarrow> marks_ok db i s"
proof (induction rule: tap_reaches.induct)
  case start
  show ?case by (simp add: marks_ok_def accepted_of_def tap_start_def)
next
  case (step s s')
  show ?case by (rule marks_ok_step [OF step.hyps(2) step.IH])
qed

text \<open>
  C20: Taps cannot be replayed, however the requests interleave.  In every state that any interleaving of
  the reads and writes of any number of requests can reach, the counters accepted for an accessory are
  strictly increasing in the order of their acceptance, so none is accepted twice; all of them are above
  the mark the run started from; and the stored mark is the last one accepted.
\<close>
theorem taps_never_replayed:
  assumes "tap_reaches db s"
  shows "sorted_wrt (<) (accepted_of i s) \<and> distinct (accepted_of i s) \<and>
    select_counter i (tp_db s) = (if accepted_of i s = [] then select_counter i db else Some (last (accepted_of i s))) \<and>
    (\<forall>m. select_counter i db = Some m \<longrightarrow> list_all (\<lambda>c. m < c) (accepted_of i s))"
  using marks_ok_reaches [OF assms, of i] by (auto simp: marks_ok_def strict_sorted_iff)

text \<open>Two requests with the same tap both pass the read; only the first write is accepted.\<close>

definition racing_taps :: tap_state where
  "racing_taps =
     write_step 0 20 (write_step 0 10 (read_step ''chip'' 7 (read_step ''chip'' 7 (tap_start [''chip'' \<mapsto> \<lparr>tr_c = 6, tr_updated_at = 0\<rparr>]))))"

lemma racing_taps_values: "accepted_of ''chip'' racing_taps = [7]" "tp_waiting racing_taps = []"
  by (simp_all add: racing_taps_def accepted_of_def tap_start_def read_step_def write_step_def consume_read_def
      consume_write_def upsert_counter_def select_counter_def evaluateCounter_def)

theorem taps_never_replayed_witness:
  "tap_reaches [''chip'' \<mapsto> \<lparr>tr_c = 6, tr_updated_at = 0\<rparr>] racing_taps \<and> accepted_of ''chip'' racing_taps = [7] \<and>
     select_counter ''chip'' (tp_db racing_taps) = Some 7"
proof -
  let ?db = "[''chip'' \<mapsto> \<lparr>tr_c = 6, tr_updated_at = 0\<rparr>]"
  let ?s1 = "read_step ''chip'' 7 (tap_start ?db)" and ?s2 = "read_step ''chip'' 7 (read_step ''chip'' 7 (tap_start ?db))"
  have "length (tp_waiting ?s2) = 2"
    by (simp add: tap_start_def read_step_def consume_read_def select_counter_def evaluateCounter_def)
  moreover have "length (tp_waiting (write_step 0 10 ?s2)) = 1"
    by (simp add: tap_start_def read_step_def write_step_def consume_read_def consume_write_def upsert_counter_def
        select_counter_def evaluateCounter_def)
  ultimately have reach: "tap_reaches ?db racing_taps"
    unfolding racing_taps_def
    by (intro tap_reaches.step [OF _ tap_write] tap_reaches.step [OF _ tap_read] tap_reaches.start) simp_all
  from taps_never_replayed [OF this, of "''chip''"] reach racing_taps_values show ?thesis by simp
qed

subsection \<open>The dynamic URL\<close>

record tap_kit =
  tk_api :: api_kit
  tk_curve_n :: int
  tk_p256_verify :: "bytes \<Rightarrow> bytes \<Rightarrow> bytes \<Rightarrow> bool option"
  tk_u32_be :: "int \<Rightarrow> bytes"
  tk_js_string :: "js \<Rightarrow> string"
  tk_failure :: "string \<Rightarrow> string"

definition uint8ArrayToHex :: "bytes \<Rightarrow> string" where
  "uint8ArrayToHex bs = concat (map hex_byte bs)"

definition hex_val :: "char \<Rightarrow> int option" where
  "hex_val c =
     (let n = of_char c :: int in
      if 48 \<le> n \<and> n \<le> 57 then Some (n - 48)
      else if 97 \<le> n \<and> n \<le> 102 then Some (n - 87)
      else if 65 \<le> n \<and> n \<le> 70 then Some (n - 55)
      else None)"

text \<open>The value of the longest prefix of digits, \<open>None\<close> (\<open>NaN\<close>) when there is none.\<close>

definition digits_prefix :: "(char \<Rightarrow> int option) \<Rightarrow> int \<Rightarrow> string \<Rightarrow> int option" where
  "digits_prefix digit radix s =
     (let ds = takeWhile (\<lambda>c. digit c \<noteq> None) s in
      if ds = '''' then None else Some (foldl (\<lambda>n c. radix * n + the (digit c)) 0 ds))"

text \<open>\<open>Number.parseInt\<close> with radix 10 or 16: leading blanks, a sign, for radix 16 a prefix \<open>0x\<close>.\<close>

definition parse_int :: "(char \<Rightarrow> int option) \<Rightarrow> int \<Rightarrow> string \<Rightarrow> int option" where
  "parse_int digit radix s =
     (let t = dropWhile is_space s;
          neg = starts_with ''-'' t;
          u = (if neg \<or> starts_with ''+'' t then tl t else t);
          v = (if radix = 16 \<and> (starts_with ''0x'' u \<or> starts_with ''0X'' u) then drop 2 u else u) in
      map_option (\<lambda>n. if neg then - n else n) (digits_prefix digit radix v))"

definition dec_val :: "char \<Rightarrow> int option" where
  "dec_val c = (if is_digit c then Some (int (digit_val c)) else None)"

text \<open>An element of a \<open>Uint8Array\<close> takes a number modulo 256, and 0 for \<open>NaN\<close>.\<close>

definition hexToUint8Array :: "string \<Rightarrow> bytes" where
  "hexToUint8Array hex =
     map (\<lambda>i. case parse_int hex_val 16 (take 2 (drop (i * 2) hex)) of None \<Rightarrow> 0 | Some n \<Rightarrow> word_of_int n)
       [0 ..< length hex div 2]"

fun hex_text :: "nat \<Rightarrow> string" where
  "hex_text n = (if n < 16 then [hex_digit n] else hex_text (n div 16) @ [hex_digit (n mod 16)])"

declare hex_text.simps [simp del]

definition int_hex_text :: "int \<Rightarrow> string" where
  "int_hex_text i = (if i < 0 then ''-'' @ hex_text (nat (- i)) else hex_text (nat i))"

definition hex_int :: "string \<Rightarrow> int" where
  "hex_int s = foldl (\<lambda>n c. 16 * n + (case hex_val c of Some d \<Rightarrow> d | None \<Rightarrow> 0)) 0 s"

definition normalizeSignatureToLowS :: "tap_kit \<Rightarrow> bytes \<Rightarrow> thrown + bytes" where
  "normalizeSignatureToLowS K signature =
     (if length signature \<noteq> 64 then
        Inl (Uncoded (''expected 64-byte raw r||s signature, got '' @ nat_text (length signature) @ '' bytes''))
      else
        let order = tk_curve_n K;
            halfOrder = order div 2;
            sBig = hex_int (uint8ArrayToHex (drop 32 signature)) in
        if sBig \<le> halfOrder then Inr signature
        else
          let sPad = hexToUint8Array (padStart 64 CHR ''0'' (int_hex_text (order - sBig))) in
          Inr (set_at (set_at (replicate 64 0) 0 (take 32 signature)) 32 sPad))"

record verify_dynamic_url_result =
  vd_isVerified :: bool
  vd_identifier :: string
  vd_counter :: int

definition tap_call :: "tap_kit \<Rightarrow> string \<Rightarrow> 'a option \<Rightarrow> thrown + 'a" where
  "tap_call K which r = (case r of Some x \<Rightarrow> Inr x | None \<Rightarrow> Inl (Uncoded (tk_failure K which)))"

text \<open>The four parameters are empty when they are missing.\<close>

definition verifyDynamicUrlWithoutCounterCheck ::
  "tap_kit \<Rightarrow> string \<Rightarrow> string \<Rightarrow> string \<Rightarrow> string \<Rightarrow> thrown + verify_dynamic_url_result" where
  "verifyDynamicUrlWithoutCounterCheck K identifier signature counter nonce =
     err_if (identifier = '''' \<or> signature = '''' \<or> counter = '''' \<or> nonce = '''') (Uncoded ''Missing tap parameters'')
     (obind (tap_call K ''pk'' (base64UrlToBytes (tk_api K) identifier)) (\<lambda>compressedPk.
      err_if (length compressedPk \<noteq> 33)
        (Uncoded (''pk must be 33-byte compressed P-256 key, got '' @ nat_text (length compressedPk) @ '' bytes''))
     (obind (tap_call K ''n'' (base64UrlToBytes (tk_api K) nonce)) (\<lambda>randomBytes.
      err_if (length randomBytes \<noteq> 8) (Uncoded (''n must be 8 bytes, got '' @ nat_text (length randomBytes) @ '' bytes''))
     (obind (tap_call K ''s'' (base64UrlToBytes (tk_api K) signature)) (\<lambda>rawSig.
      err_if (length rawSig \<noteq> 64)
        (Uncoded (''s must be 64-byte raw ECDSA signature, got '' @ nat_text (length rawSig) @ '' bytes''))
     (case parse_int dec_val 10 counter of
        None \<Rightarrow> Inl (Uncoded ''counter out of uint32 range: NaN'')
      | Some currentCounter \<Rightarrow>
          err_if (currentCounter < 0 \<or> currentCounter > 0xffffffff)
            (Uncoded (''counter out of uint32 range: '' @ int_text currentCounter))
         (let message = set_at (set_at (replicate 12 0) 0 (tk_u32_be K currentCounter)) 4 randomBytes in
          obind (normalizeSignatureToLowS K rawSig) (\<lambda>normalizedSig.
          obind (tap_call K ''verify'' (tk_p256_verify K normalizedSig message compressedPk)) (\<lambda>isVerified.
            Inr \<lparr>vd_isVerified = isVerified, vd_identifier = identifier, vd_counter = currentCounter\<rparr>))))))))))"

lemma verified_counter_range:
  "verifyDynamicUrlWithoutCounterCheck K i s c n = Inr r \<Longrightarrow>
     vd_identifier r = i \<and> 0 \<le> vd_counter r \<and> vd_counter r \<le> 0xffffffff \<and> parse_int dec_val 10 c = Some (vd_counter r)"
  by (auto simp: verifyDynamicUrlWithoutCounterCheck_def result_simps Let_def split: option.splits)

end
