(* ===== verification/KvChallenge.thy ===== *)
theory KvChallenge
  imports ApiGate
begin

text \<open>
  Challenges in the key-value store (\<^verbatim>\<open>workers/api/src/shared/kv-challenge.ts\<close>, \<^verbatim>\<open>owner-wallet/challenge.ts\<close>,
  \<^verbatim>\<open>auth/unlock-challenge.ts\<close>).  The store of the platform is a parameter; \<open>kv_ok\<close> says that a stored value
  is read until its time to live is over or it is deleted.  That holds where the store answers its own writes;
  reads elsewhere may lag behind, which can only make the guarantees here weaker, never stronger.

  Consuming a challenge reads and then deletes it.  The lemmas show when a challenge is accepted, that one
  request after the other is accepted once only, and that two requests whose reads come first are both accepted.
\<close>

record 's kv_api =
  kv_get :: "'s \<Rightarrow> nat \<Rightarrow> string \<Rightarrow> string option"
  kv_put :: "'s \<Rightarrow> nat \<Rightarrow> string \<Rightarrow> string \<Rightarrow> nat \<Rightarrow> 's"
  kv_delete :: "'s \<Rightarrow> nat \<Rightarrow> string \<Rightarrow> 's"

definition kv_ok :: "'s kv_api \<Rightarrow> bool" where
  "kv_ok V \<longleftrightarrow>
     (\<forall>s now k v ttl t k'. now \<le> t \<longrightarrow>
        kv_get V (kv_put V s now k v ttl) t k' =
          (if k' = k then (if t < now + 1000 * ttl then Some v else None) else kv_get V s t k')) \<and>
     (\<forall>s now k t k'. now \<le> t \<longrightarrow>
        kv_get V (kv_delete V s now k) t k' = (if k' = k then None else kv_get V s t k'))"

type_synonym sample_kv = "string \<rightharpoonup> string \<times> nat"

definition sample_kv_api :: "sample_kv kv_api" where
  "sample_kv_api =
     \<lparr>kv_get = \<lambda>s t k. (case s k of Some (v, until) \<Rightarrow> if t < until then Some v else None | None \<Rightarrow> None),
      kv_put = \<lambda>s now k v ttl. s(k \<mapsto> (v, now + 1000 * ttl)),
      kv_delete = \<lambda>s now k. s(k := None)\<rparr>"

lemma sample_kv_ok: "kv_ok sample_kv_api"
  by (simp add: kv_ok_def sample_kv_api_def)

subsection \<open>A kind of challenge\<close>

record kv_challenge =
  kc_kvPrefix :: string
  kc_ttlSec :: nat
  kc_messagePrefix :: "string option"

definition challengeKey :: "kv_challenge \<Rightarrow> string \<Rightarrow> string" where
  "challengeKey C challengeId = kc_kvPrefix C @ challengeId"

text \<open>The random id and the 32 random bytes are arguments.\<close>

definition issue_challenge ::
  "api_kit \<Rightarrow> 's kv_api \<Rightarrow> kv_challenge \<Rightarrow> nat \<Rightarrow> string \<Rightarrow> bytes \<Rightarrow> 's \<Rightarrow> (string \<times> string) \<times> 's" where
  "issue_challenge K V C now challengeId randomBytes s =
     (let challenge = bytesToBase64Url K randomBytes in
      ((challengeId, challenge), kv_put V s now (challengeKey C challengeId) challenge (kc_ttlSec C)))"

definition consume_get :: "'s kv_api \<Rightarrow> kv_challenge \<Rightarrow> nat \<Rightarrow> string \<Rightarrow> 's \<Rightarrow> string option" where
  "consume_get V C now challengeId s =
     (case kv_get V s now (challengeKey C challengeId) of
        Some stored \<Rightarrow> if stored = '''' then None else Some stored
      | None \<Rightarrow> None)"

definition consume_delete :: "'s kv_api \<Rightarrow> kv_challenge \<Rightarrow> nat \<Rightarrow> string \<Rightarrow> 's \<Rightarrow> 's" where
  "consume_delete V C now challengeId s = kv_delete V s now (challengeKey C challengeId)"

definition consume_challenge ::
  "'s kv_api \<Rightarrow> kv_challenge \<Rightarrow> nat \<Rightarrow> string \<Rightarrow> 's \<Rightarrow> string option \<times> 's" where
  "consume_challenge V C now challengeId s =
     (case consume_get V C now challengeId s of
        None \<Rightarrow> (None, s)
      | Some stored \<Rightarrow> (Some stored, consume_delete V C now challengeId s))"

definition challengeMessage :: "kv_challenge \<Rightarrow> bytes \<Rightarrow> thrown + bytes" where
  "challengeMessage C challengeBytes =
     (case kc_messagePrefix C of
        None \<Rightarrow> Inl (Uncoded ''challengeMessage requires messagePrefix'')
      | Some p \<Rightarrow>
          if p = '''' then Inl (Uncoded ''challengeMessage requires messagePrefix'')
          else
            let pre = utf8ToBytes p in
            Inr (set_at (set_at (replicate (length pre + length challengeBytes) 0) 0 pre) (length pre) challengeBytes))"

subsection \<open>The three kinds\<close>

definition unlock_challenge :: kv_challenge where
  "unlock_challenge = \<lparr>kc_kvPrefix = ''accessory:unlock:challenge:'', kc_ttlSec = 60, kc_messagePrefix = None\<rparr>"

definition WORKER_PUT_CHALLENGE_PREFIX :: string where
  "WORKER_PUT_CHALLENGE_PREFIX = ''revibase.owner-wallet.put.v1''"

definition backup_challenge :: kv_challenge where
  "backup_challenge =
     \<lparr>kc_kvPrefix = ''owner-wallet:backup:challenge:'', kc_ttlSec = 120, kc_messagePrefix = Some WORKER_PUT_CHALLENGE_PREFIX\<rparr>"

definition restore_challenge :: kv_challenge where
  "restore_challenge = \<lparr>kc_kvPrefix = ''owner-wallet:restore:challenge:'', kc_ttlSec = 60, kc_messagePrefix = None\<rparr>"

subsection \<open>Lemmas\<close>

lemma challengeKey_inj: "challengeKey C a = challengeKey C b \<longleftrightarrow> a = b"
  by (simp add: challengeKey_def)

lemma kinds_do_not_mix:
  "challengeKey unlock_challenge a \<noteq> challengeKey backup_challenge b"
  "challengeKey unlock_challenge a \<noteq> challengeKey restore_challenge b"
  "challengeKey backup_challenge a \<noteq> challengeKey restore_challenge b"
  by (simp_all add: challengeKey_def unlock_challenge_def backup_challenge_def restore_challenge_def)

lemma consume_get_issued:
  assumes "kv_ok V" "api_kit_ok K" "bs \<noteq> []" "t0 \<le> t"
  shows "consume_get V C t cid (snd (issue_challenge K V C t0 cid bs s)) =
           (if t < t0 + 1000 * kc_ttlSec C then Some (bytesToBase64 bs Url) else None)"
  using assms bytesToBase64_nonempty [of bs Url]
  by (auto simp: consume_get_def issue_challenge_def Let_def kv_ok_def bytesToBase64Url_eq)

lemma consume_get_deleted:
  assumes "kv_ok V" "t1 \<le> t"
  shows "consume_get V C t cid (consume_delete V C t1 cid s) = None"
  using assms by (simp add: consume_get_def consume_delete_def kv_ok_def)

lemma set_at_prefix: "set_at (set_at (replicate (length p + length c) 0) 0 p) (length p) c = p @ c"
  by (simp add: set_at_def)

lemma challengeMessage_backup:
  "challengeMessage backup_challenge bs = Inr (utf8ToBytes PUT_CHALLENGE_PREFIX @ bs)"
  by (simp add: challengeMessage_def backup_challenge_def WORKER_PUT_CHALLENGE_PREFIX_def PUT_CHALLENGE_PREFIX_def
      set_at_prefix Let_def)

text \<open>
  A challenge is accepted at most once only if the requests come one after the other.  A challenge of
  any kind is read back exactly until its time to live is over; after one request has consumed it, no later
  request is given it.  But the code reads and deletes in two steps: two requests that both read before
  either deletes are both given the challenge.
\<close>
theorem challenges_single_use_in_sequence:
  assumes "kv_ok V" and "api_kit_ok K" and "bs \<noteq> []" and "t0 \<le> t1" and "t1 \<le> t2"
  shows "let s0 = snd (issue_challenge K V C t0 cid bs s);
             (first, s1) = consume_challenge V C t1 cid s0;
             (second, s2) = consume_challenge V C t2 cid s1 in
         first = (if t1 < t0 + 1000 * kc_ttlSec C then Some (bytesToBase64Url K bs) else None) \<and>
         second = None \<and>
         (t2 < t0 + 1000 * kc_ttlSec C \<longrightarrow>
            consume_get V C t1 cid s0 = consume_get V C t2 cid s0 \<and> consume_get V C t2 cid s0 \<noteq> None)"
proof -
  note issued = consume_get_issued [OF assms(1,2,3), where C = C and cid = cid and s = s and ?t0.0 = t0]
  have "t0 \<le> t2" using assms(4,5) by simp
  from issued [OF assms(4)] issued [OF this] assms show ?thesis
    by (simp add: consume_challenge_def Let_def consume_get_deleted bytesToBase64Url_eq)
qed

theorem challenges_single_use_in_sequence_witness:
  "fst (consume_challenge sample_kv_api restore_challenge 2000 ''id''
     (snd (issue_challenge sample_api_kit sample_kv_api restore_challenge 1000 ''id'' [1, 2, 3] Map.empty))) = Some ''AQID''"
proof -
  have "bytesToBase64Url sample_api_kit [1, 2, 3] = ''AQID''" by code_simp
  with challenges_single_use_in_sequence [OF sample_kv_ok sample_api_kit_ok, of "[1, 2, 3]" 1000 2000 2000
      restore_challenge "''id''" Map.empty] show ?thesis
    by (simp add: Let_def case_prod_beta restore_challenge_def)
qed

end
