(* ===== verification/AccessoryRoutes.thy ===== *)
theory AccessoryRoutes
  imports TapCounter KvChallenge
begin

text \<open>
  The routes that give a browser its sessions: \<^verbatim>\<open>auth/accessory-unlock-routes.ts\<close> (tap and WebAuthn
  unlock), \<^verbatim>\<open>auth/accessory-verify.ts\<close> and \<^verbatim>\<open>auth/owner-session-routes.ts\<close>.  A handler gives its reply, with
  the cookies it sets and the audit entries it records, or the exception it lets through.  Lookups on chain,
  the WebAuthn verification of \<open>phygital-token-sdk\<close> and \<open>@solana/kit\<close>'s \<open>address\<close> are parameters; failures
  of the database and of the key-value store are not modelled.
\<close>

record accessory_assertion =
  av_isVerified :: bool
  av_publicKey :: "string option"

record route_env =
  re_tap :: tap_kit
  re_secret :: "string option"
  re_host :: url_host
  re_isAddress :: "string \<Rightarrow> bool"
  re_resolveIdentifier :: "string \<Rightarrow> string option"
  re_verifyResponse :: "string \<Rightarrow> js \<Rightarrow> thrown + accessory_assertion"
  re_findTokenPda :: "string \<Rightarrow> string"
  re_authorityOf :: "string \<Rightarrow> thrown + string option"

abbreviation re_api :: "route_env \<Rightarrow> api_kit" where
  "re_api E \<equiv> tk_api (re_tap E)"

record request_meta =
  rm_request :: api_request
  rm_meta :: audit_meta
  rm_now :: nat
  rm_jti :: string

definition jnat :: "nat \<Rightarrow> js" where "jnat n = JNumber (of_nat n)"

definition unverified :: "string \<Rightarrow> nat \<Rightarrow> reply" where
  "unverified message status = json [(''isVerified'', JBool False), (''error'', JString message)] status"

definition unlock_audit :: "string \<Rightarrow> string \<Rightarrow> audit_meta \<Rightarrow> audit_entry" where
  "unlock_audit token meth m =
     (blank_entry AccessoryUnlock)\<lparr>ae_phygitalToken := Some token, ae_ok := Some True, ae_actor := Some ActorAccessory,
       ae_origin := mt_origin m, ae_requestId := mt_requestId m, ae_detail := Some [(''method'', JString meth)]\<rparr>"

subsection \<open>Unlock by tap\<close>

text \<open>\<open>None\<close> in the middle: a parameter is missing; \<open>Inl\<close>: the body is \<open>null\<close>, whose property access throws.\<close>

definition tap_param :: "tap_kit \<Rightarrow> js \<Rightarrow> string \<Rightarrow> thrown + string option" where
  "tap_param T bdy k =
     (case js_member bdy k of
        None \<Rightarrow> Inl NotAnError
      | Some v \<Rightarrow> if v = JUndefined \<or> v = JNull \<or> v = JString '''' then Inr None else Inr (Some (tk_js_string T v)))"

fun tap_params :: "tap_kit \<Rightarrow> js \<Rightarrow> string list \<Rightarrow> thrown + string list option" where
  "tap_params T bdy [] = Inr (Some [])"
| "tap_params T bdy (k # ks) =
     obind (tap_param T bdy k) (\<lambda>p.
       case p of
         None \<Rightarrow> Inr None
       | Some v \<Rightarrow> obind (tap_params T bdy ks) (\<lambda>vs. Inr (map_option (Cons v) vs)))"

definition unlock_reply :: "request_meta \<Rightarrow> int \<Rightarrow> string option \<Rightarrow> (nat \<times> cookie_change list) option \<Rightarrow> reply" where
  "unlock_reply r counter token unlock =
     (json ([(''isVerified'', JBool True), (''counter'', JNumber (of_int counter))] @
        (case token of Some t \<Rightarrow> if t \<noteq> '''' then [(''phygitalToken'', JString t)] else [] | None \<Rightarrow> []) @
        (case unlock of Some (e, _) \<Rightarrow> [(''expiresAt'', jnat e)] | None \<Rightarrow> [])) 200)
      \<lparr>rp_cookies := (case unlock of Some (_, cs) \<Rightarrow> cs | None \<Rightarrow> []),
       rp_audit := (case (unlock, token) of (Some _, Some t) \<Rightarrow> [unlock_audit t ''tap'' (rm_meta r)] | _ \<Rightarrow> [])\<rparr>"

text \<open>The \<open>try\<close> block, with the four parameters.\<close>

definition tap_try ::
  "route_env \<Rightarrow> request_meta \<Rightarrow> string list \<Rightarrow> tap_counters \<Rightarrow> (thrown + reply) \<times> tap_counters" where
  "tap_try E r params db =
     (case verifyDynamicUrlWithoutCounterCheck (re_tap E) (params ! 0) (params ! 1) (params ! 2) (params ! 3) of
        Inl e \<Rightarrow> (Inl e, db)
      | Inr v \<Rightarrow>
          if \<not> vd_isVerified v then (Inr (unverified ''Invalid signature'' 400), db)
          else
            (case consumeCounterSession (vd_identifier v) (vd_counter v) (rm_now r) db of
               (Replay, db') \<Rightarrow>
                 (Inr (unverified ''This tap timed out. Hold your accessory again to verify.'' 409), db')
             | (NewTap, db') \<Rightarrow>
                 let token = re_resolveIdentifier E (vd_identifier v) in
                 (if token = None \<or> token = Some '''' then (Inr (unlock_reply r (vd_counter v) token None), db')
                  else
                    (obind (issueBrowseUnlockCookie (re_api E) (re_secret E) (rq_url (rm_request r)) (the token)
                        (rm_now r) (rm_jti r)) (\<lambda>unlock. Inr (unlock_reply r (vd_counter v) token (Some unlock))), db'))))"

definition unlock_tap ::
  "route_env \<Rightarrow> request_meta \<Rightarrow> js option \<Rightarrow> tap_counters \<Rightarrow> (thrown + reply) \<times> tap_counters" where
  "unlock_tap E r bdy db =
     (case bdy of
        None \<Rightarrow> (Inr (unverified ''Invalid JSON'' 400), db)
      | Some b \<Rightarrow>
          (case tap_params (re_tap E) b [''pk'', ''s'', ''c'', ''n''] of
             Inl e \<Rightarrow> (Inl e, db)
           | Inr None \<Rightarrow> (Inr (unverified ''Missing tap parameters'' 400), db)
           | Inr (Some params) \<Rightarrow>
               (case tap_try E r params db of
                  (Inl e, db') \<Rightarrow>
                    (Inr (unverified (getErrorMessage e ''Hold your accessory when prompted and try again.'') 400), db')
                | ok \<Rightarrow> ok)))"

subsection \<open>Unlock by passkey\<close>

definition verifyAccessoryWebauthn :: "route_env \<Rightarrow> string \<Rightarrow> js \<Rightarrow> (string \<times> nat) + string" where
  "verifyAccessoryWebauthn E expectedMessage response =
     (case re_verifyResponse E expectedMessage response of
        Inl e \<Rightarrow>
          Inl ((case e of Coded c \<Rightarrow> ce_message c | Uncoded m \<Rightarrow> m | NotAnError \<Rightarrow> ''Passkey verification failed''), 400)
      | Inr a \<Rightarrow>
          if \<not> av_isVerified a \<or> av_publicKey a = None \<or> av_publicKey a = Some ''''
          then Inl (''Couldn'' @ [apostrophe] @ ''t verify this accessory'', 403)
          else Inr (re_findTokenPda E (the (av_publicKey a))))"

definition issue_unlock_challenge ::
  "route_env \<Rightarrow> 's kv_api \<Rightarrow> nat \<Rightarrow> string \<Rightarrow> bytes \<Rightarrow> 's \<Rightarrow> reply \<times> 's" where
  "issue_unlock_challenge E V now uuid randomBytes s =
     (let ((challengeId, challenge), s') = issue_challenge (re_api E) V unlock_challenge now uuid randomBytes s in
      (json [(''challengeId'', JString challengeId), (''challenge'', JString challenge)] 200, s'))"

text \<open>\<open>!v\<close> of a JSON value.\<close>

definition falsy :: "js \<Rightarrow> bool" where
  "falsy v = (case v of JUndefined \<Rightarrow> True | JNull \<Rightarrow> True | JBool b \<Rightarrow> \<not> b | JNumber n \<Rightarrow> n = 0
     | JNonFinite \<Rightarrow> False | JBigInt i \<Rightarrow> i = 0 | JString s \<Rightarrow> s = '''' | _ \<Rightarrow> False)"

definition webauthn_verified ::
  "route_env \<Rightarrow> request_meta \<Rightarrow> string \<Rightarrow> thrown + reply" where
  "webauthn_verified E r token =
     obind (issueBrowseUnlockCookie (re_api E) (re_secret E) (rq_url (rm_request r)) token (rm_now r) (rm_jti r))
       (\<lambda>(expiresAt, cs).
         Inr ((json [(''isVerified'', JBool True), (''phygitalToken'', JString token), (''expiresAt'', jnat expiresAt)] 200)
           \<lparr>rp_cookies := cs, rp_audit := [unlock_audit token ''webauthn'' (rm_meta r)]\<rparr>))"

text \<open>\<open>body.challengeId?.trim()\<close> throws for a value that is neither a string nor missing.\<close>

definition unlock_webauthn ::
  "route_env \<Rightarrow> 's kv_api \<Rightarrow> request_meta \<Rightarrow> js option \<Rightarrow> 's \<Rightarrow> (thrown + reply) \<times> 's" where
  "unlock_webauthn E V r bdy s =
     (case bdy of
        None \<Rightarrow> (Inr (unverified ''Invalid JSON'' 400), s)
      | Some b \<Rightarrow>
     (case (js_member b ''challengeId'', js_member b ''response'') of
        (Some cidv, Some response) \<Rightarrow>
          (let readable = (case cidv of JString _ \<Rightarrow> True | JUndefined \<Rightarrow> True | JNull \<Rightarrow> True | _ \<Rightarrow> False);
               challengeId = (case cidv of JString t \<Rightarrow> trim t | _ \<Rightarrow> '''') in
          if \<not> readable then (Inl NotAnError, s)
          else if challengeId = '''' \<or> falsy response
          then (Inr (unverified ''challengeId and response required'' 400), s)
          else
            (case consume_challenge V unlock_challenge (rm_now r) challengeId s of
               (None, s1) \<Rightarrow>
                 (Inr (json [(''isVerified'', JBool False), (''error'', JString ''This unlock request expired. Try again.''),
                    (''code'', JString ''challenge_invalid'')] 409), s1)
             | (Some expectedMessage, s1) \<Rightarrow>
                 (case verifyAccessoryWebauthn E expectedMessage response of
                    Inl (message, status) \<Rightarrow> (Inr (unverified message status), s1)
                  | Inr token \<Rightarrow> (webauthn_verified E r token, s1))))
      | _ \<Rightarrow> (Inl NotAnError, s)))"

subsection \<open>Owner sessions\<close>

definition get_owner_session :: "route_env \<Rightarrow> request_meta \<Rightarrow> reply" where
  "get_owner_session E r =
     (case readOwnerSession (re_api E) (re_secret E) (rq_cookies (rm_request r)) (rm_now r) of
        None \<Rightarrow> json [(''publicKey'', JNull), (''expiresAt'', JNull)] 200
      | Some p \<Rightarrow> json [(''publicKey'', JString (sp_head p)), (''expiresAt'', JNumber (sp_exp p))] 200)"

definition delete_owner_session :: "request_meta \<Rightarrow> reply" where
  "delete_owner_session r =
     (let url = rq_url (rm_request r) in
      (json [(''ok'', JBool True)] 200)
        \<lparr>rp_cookies := [clear_session OWNER_SESSION_COOKIE url, clear_session OWNER_BROWSE_COOKIE url]\<rparr>)"

definition tryParseAddress :: "(string \<Rightarrow> bool) \<Rightarrow> string \<Rightarrow> string option" where
  "tryParseAddress isAddress v =
     (if trim v = '''' then None else if isAddress (trim v) then Some (trim v) else None)"

definition owner_admitted :: "string \<Rightarrow> rat \<Rightarrow> reply" where
  "owner_admitted token expiresAt =
     json [(''ok'', JBool True), (''mode'', JString ''owner''), (''phygitalToken'', JString token),
       (''expiresAt'', JNumber expiresAt)] 200"

definition owner_audit :: "string \<Rightarrow> audit_meta \<Rightarrow> audit_entry" where
  "owner_audit token m =
     (blank_entry OwnerBrowseEvent)\<lparr>ae_phygitalToken := Some token, ae_ok := Some True, ae_actor := Some ActorOwner,
       ae_origin := mt_origin m, ae_requestId := mt_requestId m\<rparr>"

text \<open>The check of the authority on chain: \<open>Inl\<close> is the refusal.\<close>

definition authority_check :: "route_env \<Rightarrow> string \<Rightarrow> string \<Rightarrow> reply + unit" where
  "authority_check E token pk =
     (case re_authorityOf E token of
        Inl e \<Rightarrow> Inl (json_error (getErrorMessage e ''Could not verify ownership'') ''authority_lookup_failed'' 502)
      | Inr None \<Rightarrow> Inl (json_error ''This accessory has not been claimed yet.'' ''not_claimed'' 403)
      | Inr (Some onChainAuthority) \<Rightarrow>
          if onChainAuthority \<noteq> pk
          then Inl (json_error ''You are not the owner of this accessory.'' ''not_authority'' 403)
          else Inr ())"

definition owner_browse_for :: "route_env \<Rightarrow> request_meta \<Rightarrow> session_payload \<Rightarrow> string \<Rightarrow> thrown + reply" where
  "owner_browse_for E r session token =
     (let url = rq_url (rm_request r);
          existing = readOwnerBrowse (re_api E) (re_secret E) (rq_cookies (rm_request r)) (rm_now r);
          cleared = clear_session BROWSE_UNLOCK_COOKIE url in
      if map_option sp_head existing = Some token
      then Inr ((owner_admitted token (sp_exp (the existing)))\<lparr>rp_cookies := [cleared]\<rparr>)
      else
        (case authority_check E token (sp_head session) of
           Inl refusal \<Rightarrow> Inr refusal
         | Inr _ \<Rightarrow>
             obind (issueOwnerBrowseCookie (re_api E) (re_secret E) url token (rm_now r) (rm_jti r))
               (\<lambda>(expiresAt, change).
                 Inr ((owner_admitted token (of_nat expiresAt))
                   \<lparr>rp_cookies := [cleared, change], rp_audit := [owner_audit token (rm_meta r)]\<rparr>))))"

definition post_owner_browse :: "route_env \<Rightarrow> request_meta \<Rightarrow> js option \<Rightarrow> thrown + reply" where
  "post_owner_browse E r bdy =
     (case readOwnerSession (re_api E) (re_secret E) (rq_cookies (rm_request r)) (rm_now r) of
        None \<Rightarrow>
          Inr (json_error ''Sign in on this phone to open accessories from Home.'' ''owner_session_required'' 401)
      | Some session \<Rightarrow>
          (case bdy of
             Some (JObject ps) \<Rightarrow>
               (case jget ps ''phygitalToken'' of
                  JString raw \<Rightarrow>
                    if tryParseAddress (re_isAddress E) raw = None
                    then Inr (json_error ''phygitalToken must be a valid Solana address'' ''invalid_phygital_token'' 400)
                    else owner_browse_for E r session (trim raw)
                | _ \<Rightarrow> Inr (json_error ''phygitalToken must be a valid Solana address'' ''invalid_phygital_token'' 400))
           | _ \<Rightarrow> Inr (json [(''error'', JString ''Invalid JSON body'')] 400)))"

definition get_accessory_session :: "route_env \<Rightarrow> request_meta \<Rightarrow> reply" where
  "get_accessory_session E r =
     (let live = (\<lambda>mode p. json [(''mode'', JString mode), (''phygitalToken'', JString (sp_head p)),
            (''expiresAt'', JNumber (sp_exp p))] 200) in
      case readBrowseUnlock (re_api E) (re_secret E) (rq_cookies (rm_request r)) (rm_now r) of
        Some b \<Rightarrow> live ''accessory'' b
      | None \<Rightarrow>
          (case readOwnerBrowse (re_api E) (re_secret E) (rq_cookies (rm_request r)) (rm_now r) of
             Some b \<Rightarrow> live ''owner'' b
           | None \<Rightarrow> json [(''mode'', JNull), (''phygitalToken'', JNull)] 200))"

subsection \<open>Admission\<close>

datatype admit_route = ByTap | ByPasskey | ByOwner

text \<open>The three routes that issue an admit cookie, as the router of \<^verbatim>\<open>index.ts\<close> reaches them.\<close>

definition admit ::
  "route_env \<Rightarrow> 's kv_api \<Rightarrow> request_meta \<Rightarrow> admit_route \<Rightarrow> js option \<Rightarrow> 's \<times> tap_counters \<Rightarrow>
   (thrown + reply) \<times> 's \<times> tap_counters" where
  "admit E V r route bdy st =
     (case (route, st) of
        (ByTap, (s, db)) \<Rightarrow> (case unlock_tap E r bdy db of (rep, db') \<Rightarrow> (rep, s, db'))
      | (ByPasskey, (s, db)) \<Rightarrow> (case unlock_webauthn E V r bdy s of (rep, s') \<Rightarrow> (rep, s', db))
      | (ByOwner, (s, db)) \<Rightarrow> (post_owner_browse E r bdy, s, db))"

text \<open>What each of them has established when it admits a browser to a token.\<close>

definition tap_proof :: "route_env \<Rightarrow> js option \<Rightarrow> tap_counters \<Rightarrow> tap_counters \<Rightarrow> string \<Rightarrow> bool" where
  "tap_proof E bdy db db' token \<longleftrightarrow>
     (\<exists>b params v. bdy = Some b \<and> tap_params (re_tap E) b [''pk'', ''s'', ''c'', ''n''] = Inr (Some params) \<and>
        verifyDynamicUrlWithoutCounterCheck (re_tap E) (params ! 0) (params ! 1) (params ! 2) (params ! 3) = Inr v \<and>
        vd_isVerified v \<and>
        (\<forall>m. select_counter (vd_identifier v) db = Some m \<longrightarrow> m < vd_counter v) \<and>
        select_counter (vd_identifier v) db' = Some (vd_counter v) \<and>
        re_resolveIdentifier E (vd_identifier v) = Some token)"

definition passkey_proof :: "route_env \<Rightarrow> 's kv_api \<Rightarrow> nat \<Rightarrow> js option \<Rightarrow> 's \<Rightarrow> 's \<Rightarrow> string \<Rightarrow> bool" where
  "passkey_proof E V now bdy s s' token \<longleftrightarrow>
     (\<exists>b cid response challenge a pk. bdy = Some b \<and> js_member b ''response'' = Some response \<and>
        consume_challenge V unlock_challenge now cid s = (Some challenge, s') \<and>
        re_verifyResponse E challenge response = Inr a \<and> av_isVerified a \<and> av_publicKey a = Some pk \<and>
        token = re_findTokenPda E pk)"

definition owner_proof :: "route_env \<Rightarrow> request_meta \<Rightarrow> string \<Rightarrow> bool" where
  "owner_proof E r token \<longleftrightarrow>
     (\<exists>session. readOwnerSession (re_api E) (re_secret E) (rq_cookies (rm_request r)) (rm_now r) = Some session \<and>
        re_authorityOf E token = Inr (Some (sp_head session)))"

lemma issueBrowseUnlock_sets:
  assumes "issueBrowseUnlockCookie K secret url token now jti = Inr (e, cs)" "SetCookie n tk m a \<in> set cs"
  shows "n = BROWSE_UNLOCK_COOKIE"
  using assms by (auto simp: issueBrowseUnlockCookie_def result_simps clear_session_def set_session_def elim!: issue_session_Inr)

lemma no_cookies [simp]:
  "rp_cookies (json ps st) = []" "rp_cookies (json_error m c st) = []" "rp_cookies (unverified m st) = []"
  by (simp_all add: json_def json_error_def unverified_def)

lemma tap_try_core:
  assumes "tap_try E r params db = (Inr rep, db')" "c \<in> set (rp_cookies rep)"
  shows "\<exists>v token e cs. verifyDynamicUrlWithoutCounterCheck (re_tap E) (params ! 0) (params ! 1) (params ! 2) (params ! 3) = Inr v \<and>
    vd_isVerified v \<and> consumeCounterSession (vd_identifier v) (vd_counter v) (rm_now r) db = (NewTap, db') \<and>
    re_resolveIdentifier E (vd_identifier v) = Some token \<and>
    issueBrowseUnlockCookie (re_api E) (re_secret E) (rq_url (rm_request r)) token (rm_now r) (rm_jti r) = Inr (e, cs) \<and>
    rp_cookies rep = cs"
  using assms
  by (auto simp: tap_try_def unlock_reply_def result_simps Let_def obind_Inr_iff
      split: sum.splits if_splits prod.splits counter_verdict.splits)

lemma consume_accepts:
  "consumeCounterSession i c now db = (NewTap, db') \<Longrightarrow>
     (\<forall>m. select_counter i db = Some m \<longrightarrow> m < c) \<and> select_counter i db' = Some c"
  by (auto simp: consumeCounterSession_def consume_read_def upsert_accepts(1) select_counter_def split: option.splits if_splits)

lemma unlock_tap_core:
  assumes "unlock_tap E r bdy db = (Inr rep, db')" "c \<in> set (rp_cookies rep)"
  shows "\<exists>token e cs. tap_proof E bdy db db' token \<and>
    issueBrowseUnlockCookie (re_api E) (re_secret E) (rq_url (rm_request r)) token (rm_now r) (rm_jti r) = Inr (e, cs) \<and>
    rp_cookies rep = cs"
proof -
  from assms obtain b params where b: "bdy = Some b" "tap_params (re_tap E) b [''pk'', ''s'', ''c'', ''n''] = Inr (Some params)"
    and tried: "tap_try E r params db = (Inr rep, db')"
    by (auto simp: unlock_tap_def split: option.splits sum.splits prod.splits)
  from tap_try_core [OF tried assms(2)] b show ?thesis
    unfolding tap_proof_def by (metis consume_accepts)
qed

lemma unlock_webauthn_core:
  assumes "unlock_webauthn E V r bdy s = (Inr rep, s')" "c \<in> set (rp_cookies rep)"
  shows "\<exists>token e cs. passkey_proof E V (rm_now r) bdy s s' token \<and>
    issueBrowseUnlockCookie (re_api E) (re_secret E) (rq_url (rm_request r)) token (rm_now r) (rm_jti r) = Inr (e, cs) \<and>
    rp_cookies rep = cs"
proof -
  from assms obtain b response cid challenge token where
    b: "bdy = Some b" "js_member b ''response'' = Some response"
    and cons: "consume_challenge V unlock_challenge (rm_now r) cid s = (Some challenge, s')"
    and ver: "verifyAccessoryWebauthn E challenge response = Inr token" and rep: "webauthn_verified E r token = Inr rep"
    by (auto simp: unlock_webauthn_def Let_def split: option.splits if_splits prod.splits sum.splits)
  from ver obtain a pk where "re_verifyResponse E challenge response = Inr a" "av_isVerified a" "av_publicKey a = Some pk"
      "token = re_findTokenPda E pk"
    by (auto simp: verifyAccessoryWebauthn_def split: sum.splits if_splits)
  with b cons have "passkey_proof E V (rm_now r) bdy s s' token" unfolding passkey_proof_def by blast
  moreover from rep obtain e cs where
    "issueBrowseUnlockCookie (re_api E) (re_secret E) (rq_url (rm_request r)) token (rm_now r) (rm_jti r) = Inr (e, cs)"
    "rp_cookies rep = cs"
    by (auto simp: webauthn_verified_def result_simps)
  ultimately show ?thesis by blast
qed

lemma post_owner_browse_core:
  assumes "post_owner_browse E r bdy = Inr rep" "SetCookie n tk m a \<in> set (rp_cookies rep)"
  shows "\<exists>token e. owner_proof E r token \<and>
    issueOwnerBrowseCookie (re_api E) (re_secret E) (rq_url (rm_request r)) token (rm_now r) (rm_jti r) = Inr (e, SetCookie n tk m a)"
proof -
  from assms obtain session raw where
    session: "readOwnerSession (re_api E) (re_secret E) (rq_cookies (rm_request r)) (rm_now r) = Some session"
    and rep: "owner_browse_for E r session (trim raw) = Inr rep"
    by (auto simp: post_owner_browse_def split: option.splits js.splits if_splits)
  from rep assms(2) have "re_authorityOf E (trim raw) = Inr (Some (sp_head session)) \<and>
    (\<exists>e. issueOwnerBrowseCookie (re_api E) (re_secret E) (rq_url (rm_request r)) (trim raw) (rm_now r) (rm_jti r) =
       Inr (e, SetCookie n tk m a))"
    by (auto simp: owner_browse_for_def authority_check_def owner_admitted_def result_simps clear_session_def Let_def
        split: if_splits sum.splits option.splits)
  with session show ?thesis unfolding owner_proof_def by blast
qed

text \<open>
  C21: A browser is admitted to an accessory only on proof.  Whenever one of the three routes sets a cookie,
  the cookie is the one issued for a token for which the route has just established control: a tap whose
  signature verifies, whose counter is above every counter accepted before and is now the stored mark, and
  whose chip resolves to the token; or a passkey assertion over a challenge that this request consumed, by
  the key the token is derived from; or a live owner session whose key is the token's authority on chain.
\<close>
theorem admission_needs_proof:
  assumes "admit E V r route bdy (s, db) = (Inr rep, s', db')" and "SetCookie n tk m a \<in> set (rp_cookies rep)"
  shows "\<exists>token e.
    (n = BROWSE_UNLOCK_COOKIE \<and> (tap_proof E bdy db db' token \<or> passkey_proof E V (rm_now r) bdy s s' token) \<and>
      (\<exists>cs. issueBrowseUnlockCookie (re_api E) (re_secret E) (rq_url (rm_request r)) token (rm_now r) (rm_jti r) = Inr (e, cs) \<and>
         SetCookie n tk m a \<in> set cs)) \<or>
    (n = OWNER_BROWSE_COOKIE \<and> owner_proof E r token \<and>
      issueOwnerBrowseCookie (re_api E) (re_secret E) (rq_url (rm_request r)) token (rm_now r) (rm_jti r) = Inr (e, SetCookie n tk m a))"
proof (cases route)
  case ByTap
  with assms(1) have "unlock_tap E r bdy db = (Inr rep, db')" by (auto simp: admit_def split: prod.splits)
  from unlock_tap_core [OF this assms(2)] assms(2) show ?thesis by (metis issueBrowseUnlock_sets)
next
  case ByPasskey
  with assms(1) have "unlock_webauthn E V r bdy s = (Inr rep, s')" by (auto simp: admit_def split: prod.splits)
  from unlock_webauthn_core [OF this assms(2)] assms(2) show ?thesis by (metis issueBrowseUnlock_sets)
next
  case ByOwner
  with assms(1) have "post_owner_browse E r bdy = Inr rep" by (auto simp: admit_def)
  from post_owner_browse_core [OF this assms(2)] obtain token e where
    "owner_proof E r token" and issued: "issueOwnerBrowseCookie (re_api E) (re_secret E) (rq_url (rm_request r)) token (rm_now r) (rm_jti r) =
      Inr (e, SetCookie n tk m a)" by blast
  moreover from issued have "n = OWNER_BROWSE_COOKIE"
    by (auto simp: issueOwnerBrowseCookie_def set_session_def elim!: issue_session_Inr)
  ultimately show ?thesis by blast
qed

subsection \<open>A passkey unlock\<close>

definition sample_route_env :: route_env where
  "sample_route_env =
     \<lparr>re_tap = \<lparr>tk_api = sample_api_kit, tk_curve_n = 1000, tk_p256_verify = \<lambda>sig m pk. Some True,
        tk_u32_be = \<lambda>n. [0, 0, 0, word_of_int n], tk_js_string = \<lambda>v. (case v of JString t \<Rightarrow> t | _ \<Rightarrow> ''''),
        tk_failure = \<lambda>w. w\<rparr>,
      re_secret = Some ''s3cret'', re_host = \<lambda>_. None, re_isAddress = \<lambda>_. True,
      re_resolveIdentifier = \<lambda>_. Some ''Tok'',
      re_verifyResponse = \<lambda>c v. Inr \<lparr>av_isVerified = (c = ''AQID''), av_publicKey = Some ''Key''\<rparr>,
      re_findTokenPda = \<lambda>k. k, re_authorityOf = \<lambda>_. Inr None\<rparr>"

definition sample_meta :: request_meta where
  "sample_meta =
     \<lparr>rm_request = sample_api_request Map.empty None, rm_meta = \<lparr>mt_requestId = None, mt_origin = None\<rparr>,
      rm_now = 1000, rm_jti = ''j1''\<rparr>"

definition sample_passkey_body :: js where
  "sample_passkey_body = JObject [(''challengeId'', JString ''id''), (''response'', JObject [])]"

definition sample_kv_state :: sample_kv where
  "sample_kv_state = [''accessory:unlock:challenge:id'' \<mapsto> (''AQID'', 5000)]"

lemma sample_passkey_unlock:
  "\<exists>e tok rep. issue_session sample_api_kit (Some ''s3cret'') BROWSE_UNLOCK_COOKIE BROWSE_SESSION_TTL_MS None ''Key'' 1000 ''j1'' =
     Inr (e, set_session BROWSE_UNLOCK_COOKIE None tok e 1000) \<and>
   unlock_webauthn sample_route_env sample_kv_api sample_meta (Some sample_passkey_body) sample_kv_state = (Inr rep, Map.empty) \<and>
   set_session BROWSE_UNLOCK_COOKIE None tok e 1000 \<in> set (rp_cookies rep)"
proof -
  have "requireSessionSecret (Some ''s3cret'') = Inr ''s3cret''" by code_simp
  from issue_always [OF this, of sample_api_kit BROWSE_UNLOCK_COOKIE BROWSE_SESSION_TTL_MS None "''Key''" 1000 "''j1''"]
  obtain e tok where issued: "issue_session sample_api_kit (Some ''s3cret'') BROWSE_UNLOCK_COOKIE BROWSE_SESSION_TTL_MS None ''Key'' 1000 ''j1'' =
      Inr (e, set_session BROWSE_UNLOCK_COOKIE None tok e 1000)" by blast
  have "trim ''id'' = ''id''" by code_simp
  with issued show ?thesis
    by (simp add: unlock_webauthn_def sample_passkey_body_def js_member_def jget_def falsy_def consume_challenge_def
        consume_get_def consume_delete_def sample_kv_api_def sample_kv_state_def sample_meta_def unlock_challenge_def challengeKey_def
        verifyAccessoryWebauthn_def sample_route_env_def webauthn_verified_def issueBrowseUnlockCookie_def
        sample_api_request_def) blast
qed

theorem admission_needs_proof_witness:
  "\<exists>rep s' db' token. admit sample_route_env sample_kv_api sample_meta ByPasskey (Some sample_passkey_body) (sample_kv_state, Map.empty) =
       (Inr rep, s', db') \<and>
     (tap_proof sample_route_env (Some sample_passkey_body) Map.empty db' token \<or>
      passkey_proof sample_route_env sample_kv_api 1000 (Some sample_passkey_body) sample_kv_state s' token)"
proof -
  from sample_passkey_unlock obtain e tok rep where
    run: "unlock_webauthn sample_route_env sample_kv_api sample_meta (Some sample_passkey_body) sample_kv_state = (Inr rep, Map.empty)"
    and cookie: "SetCookie BROWSE_UNLOCK_COOKIE tok (max 1 ((e - 1000) div 1000)) (sessionCookieAttrsForRequest None) \<in> set (rp_cookies rep)"
    by (auto simp: set_session_def)
  from run have admitted: "admit sample_route_env sample_kv_api sample_meta ByPasskey (Some sample_passkey_body) (sample_kv_state, Map.empty) =
      (Inr rep, Map.empty, Map.empty)" by (simp add: admit_def)
  from admission_needs_proof [OF admitted cookie] admitted show ?thesis
    by (auto simp: BROWSE_UNLOCK_COOKIE_def OWNER_BROWSE_COOKIE_def sample_meta_def)
qed

end
