(* ===== verification/AppRoutes.thy ===== *)
theory AppRoutes
  imports AccessoryRoutes
begin

text \<open>
  The paths of the application: \<^verbatim>\<open>app/src/lib/wallet/token-routes.ts\<close>, which builds and parses them, and
  \<^verbatim>\<open>claim-return.ts\<close>, which keeps one of them over a sign-in.  \<open>encodeURIComponent\<close>, \<open>decodeURIComponent\<close>
  and the URL parser are written out as far as the code uses them: the parser is given a reference that starts
  with a slash and holds no control character and no backslash, against a base without a path.  A code unit
  above 255 that a decoded text would hold is the control code 0x80.  The check of base58 addresses is a
  parameter.  The lemmas show that what the parser returns is a wallet path of the application for an
  address, that parsing it again changes nothing, and that every path the application builds is parsed.
\<close>

subsection \<open>Percent encoding\<close>

definition is_alnum :: "char \<Rightarrow> bool" where
  "is_alnum c \<longleftrightarrow> (let n = of_char c :: nat in 48 \<le> n \<and> n \<le> 57 \<or> 65 \<le> n \<and> n \<le> 90 \<or> 97 \<le> n \<and> n \<le> 122)"

definition upper_hex :: "nat \<Rightarrow> char" where
  "upper_hex n = ''0123456789ABCDEF'' ! n"

definition percent :: "byte \<Rightarrow> string" where
  "percent b = [CHR ''%'', upper_hex (unat b div 16), upper_hex (unat b mod 16)]"

definition percent_char :: "char \<Rightarrow> string" where
  "percent_char c = concat (map percent (utf8_char c))"

definition encodeURIComponent :: "string \<Rightarrow> string" where
  "encodeURIComponent s =
     concat (map (\<lambda>c. if is_alnum c \<or> c \<in> set ''-_.!~*()'' \<or> c = CHR 0x27 then [c] else percent_char c) s)"

definition hex_value :: "char \<Rightarrow> nat option" where
  "hex_value c =
     (let n = of_char c :: nat in
      if 48 \<le> n \<and> n \<le> 57 then Some (n - 48)
      else if 65 \<le> n \<and> n \<le> 70 then Some (n - 55)
      else if 97 \<le> n \<and> n \<le> 102 then Some (n - 87)
      else None)"

fun escape_at :: "string \<Rightarrow> nat option" where
  "escape_at (p # a # b # s) =
     (if p = CHR ''%'' then (case (hex_value a, hex_value b) of (Some x, Some y) \<Rightarrow> Some (16 * x + y) | _ \<Rightarrow> None)
      else None)"
| "escape_at _ = None"

text \<open>The number of bytes a first byte announces; 0 for a byte that cannot be one.\<close>

definition announced :: "nat \<Rightarrow> nat" where
  "announced b = (if b < 128 then 1 else if b < 192 then 0 else if b < 224 then 2 else if b < 240 then 3
     else if b < 248 then 4 else 0)"

fun continuation :: "nat \<Rightarrow> nat \<Rightarrow> string \<Rightarrow> nat option" where
  "continuation 0 v s = Some v"
| "continuation (Suc k) v s =
     (case escape_at s of
        Some b \<Rightarrow> if 128 \<le> b \<and> b < 192 then continuation k (v * 64 + (b - 128)) (drop 3 s) else None
      | None \<Rightarrow> None)"

definition least_point :: "nat \<Rightarrow> nat" where
  "least_point k = (if k = 2 then 0x80 else if k = 3 then 0x800 else if k = 4 then 0x10000 else 0)"

text \<open>The code point at the front of a text that starts with an escape, and the number of its bytes.\<close>

definition escaped_point :: "string \<Rightarrow> (nat \<times> nat) option" where
  "escaped_point s =
     (case escape_at s of
        None \<Rightarrow> None
      | Some b \<Rightarrow>
          (let k = announced b in
           if k = 0 then None
           else
             (case continuation (k - 1) (if k = 1 then b else b mod 2 ^ (7 - k)) (drop 3 s) of
                None \<Rightarrow> None
              | Some v \<Rightarrow>
                  if v < least_point k \<or> 0xD800 \<le> v \<and> v < 0xE000 \<or> 0x10FFFF < v then None else Some (v, k))))"

definition units_of :: "nat \<Rightarrow> string" where
  "units_of v = (if v < 256 then [char_of v] else replicate (if v < 0x10000 then 1 else 2) CHR 0x80)"

function decodeURIComponent :: "string \<Rightarrow> string option" where
  "decodeURIComponent [] = Some []"
| "decodeURIComponent (c # s) =
     (if c \<noteq> CHR ''%'' then map_option (Cons c) (decodeURIComponent s)
      else
        (case escaped_point (c # s) of
           None \<Rightarrow> None
         | Some (v, k) \<Rightarrow> map_option ((@) (units_of v)) (decodeURIComponent (drop (3 * k - 1) s))))"
  by pat_completeness auto
termination by (relation "measure length") auto

subsection \<open>The URL parser\<close>

text \<open>A reference is cut at the first hash sign and before it at the first question mark.\<close>

definition url_fragment :: "string \<Rightarrow> string" where
  "url_fragment raw = tl (dropWhile (\<lambda>c. c \<noteq> CHR ''#'') raw)"

definition url_query :: "string \<Rightarrow> string" where
  "url_query raw = tl (dropWhile (\<lambda>c. c \<noteq> CHR ''?'') (takeWhile (\<lambda>c. c \<noteq> CHR ''#'') raw))"

definition url_raw_path :: "string \<Rightarrow> string" where
  "url_raw_path raw = takeWhile (\<lambda>c. c \<noteq> CHR ''#'' \<and> c \<noteq> CHR ''?'') raw"

definition path_encode :: "string \<Rightarrow> string" where
  "path_encode s =
     concat (map (\<lambda>c. let n = of_char c :: nat in
       if n \<le> 32 \<or> 126 < n \<or> n = 34 \<or> c \<in> set ''#<>?`{}^'' then percent_char c else [c]) s)"

definition double_dot :: "string \<Rightarrow> bool" where
  "double_dot s \<longleftrightarrow> to_lower s \<in> {''..'', ''.%2e'', ''%2e.'', ''%2e%2e''}"

definition single_dot :: "string \<Rightarrow> bool" where
  "single_dot s \<longleftrightarrow> to_lower s \<in> {''.'', ''%2e''}"

fun url_segments :: "string list \<Rightarrow> string list \<Rightarrow> string list" where
  "url_segments acc [] = acc"
| "url_segments acc [s] =
     (if double_dot s then butlast acc @ [''''] else if single_dot s then acc @ [''''] else acc @ [s])"
| "url_segments acc (s # t # rest) =
     url_segments (if double_dot s then butlast acc else if single_dot s then acc else acc @ [s]) (t # rest)"

text \<open>The segments of \<open>pathname\<close>; the pathname is a slash before each of them.\<close>

definition path_segments :: "string \<Rightarrow> string list" where
  "path_segments raw = url_segments [] (map path_encode (split_on CHR ''/'' (tl (url_raw_path raw))))"

subsection \<open>Building paths\<close>

datatype settings_target = RpcConnection | FeeBalance | WalletPolicy

definition SETTINGS_TO_SEGMENT :: "(settings_target \<times> string) list" where
  "SETTINGS_TO_SEGMENT = [(RpcConnection, ''rpc''), (FeeBalance, ''fee-balance''), (WalletPolicy, ''policy'')]"

definition WALLET_LEAF_SEGMENTS :: "string list" where
  "WALLET_LEAF_SEGMENTS = [''send'', ''tokens'', ''activity'', ''claim'']"

definition settingsSegment :: "settings_target \<Rightarrow> string" where
  "settingsSegment target = (case map_of SETTINGS_TO_SEGMENT target of Some s \<Rightarrow> s | None \<Rightarrow> '''')"

definition settingsFromSegment :: "string option \<Rightarrow> settings_target option" where
  "settingsFromSegment segment =
     (case segment of
        None \<Rightarrow> None
      | Some s \<Rightarrow> if s = '''' then None else map_of (map (\<lambda>(k, v). (v, k)) SETTINGS_TO_SEGMENT) s)"

definition tokenHref :: "string \<Rightarrow> string" where
  "tokenHref phygitalToken = ''/token/'' @ encodeURIComponent phygitalToken"

definition tokenUnlockHref :: "string \<Rightarrow> string" where
  "tokenUnlockHref phygitalToken = tokenHref phygitalToken @ ''/unlock''"

definition walletHref :: "string \<Rightarrow> string list \<Rightarrow> string" where
  "walletHref phygitalToken segments =
     (let base = tokenHref phygitalToken @ ''/wallet'' in
      if segments = [] then base else base @ ''/'' @ join ''/'' (map encodeURIComponent segments))"

definition walletSettingsHref :: "string \<Rightarrow> settings_target option \<Rightarrow> string" where
  "walletSettingsHref phygitalToken target =
     (case target of
        None \<Rightarrow> walletHref phygitalToken [''settings'']
      | Some t \<Rightarrow> walletHref phygitalToken [''settings'', settingsSegment t])"

definition walletClaimHref :: "string \<Rightarrow> string" where
  "walletClaimHref phygitalToken = walletHref phygitalToken [''claim'']"

definition settingsFromDenyCode :: "string option \<Rightarrow> settings_target option" where
  "settingsFromDenyCode code =
     (if code = Some ''insufficient_fee_balance'' then Some FeeBalance
      else if code \<in> Some ` {''spend_limit'', ''mint_not_allowed'', ''program_not_allowed'', ''instruction_not_allowed'',
        ''unexpected_instruction''} then Some WalletPolicy
      else None)"

text \<open>The serialisation of \<open>URLSearchParams\<close>.\<close>

definition form_encode :: "string \<Rightarrow> string" where
  "form_encode s =
     concat (map (\<lambda>c. if is_alnum c \<or> c \<in> set ''*-._'' then [c] else if c = CHR '' '' then ''+'' else percent_char c) s)"

definition walletSendHref :: "string \<Rightarrow> (string \<times> bool option) option \<Rightarrow> string" where
  "walletSendHref phygitalToken asset =
     (let base = walletHref phygitalToken [''send''] in
      case asset of
        None \<Rightarrow> base
      | Some (mint, collectible) \<Rightarrow>
          base @ ''?'' @ (if collectible = Some True then ''collectible='' else ''mint='') @ form_encode mint)"

subsection \<open>Parsing paths\<close>

definition opt_address :: "(string \<Rightarrow> bool) \<Rightarrow> string option \<Rightarrow> string option" where
  "opt_address isAddress v = Option.bind v (tryParseAddress isAddress)"

definition parseSendSearchParams ::
  "(string \<Rightarrow> bool) \<Rightarrow> (string \<Rightarrow> string option) \<Rightarrow> string option \<times> string option" where
  "parseSendSearchParams isAddress params =
     (opt_address isAddress (params ''mint''), opt_address isAddress (params ''collectible''))"

text \<open>The scheme of an absolute URL: a letter, then letters, digits, plus, dot and minus up to a colon.\<close>

definition has_scheme :: "string \<Rightarrow> bool" where
  "has_scheme raw \<longleftrightarrow>
     (case dropWhile (\<lambda>c. is_alnum c \<or> c \<in> set ''+.-'') raw of
        c # _ \<Rightarrow> c = CHR '':'' \<and> raw \<noteq> [] \<and> is_alnum (hd raw) \<and> \<not> is_digit (hd raw)
      | [] \<Rightarrow> False)"

definition rejectUnsafeReturn :: "string \<Rightarrow> bool" where
  "rejectUnsafeReturn raw \<longleftrightarrow>
     (if \<not> starts_with ''/token'' raw then True
      else if starts_with ''//'' raw then True
      else if list_ex (\<lambda>c. (of_char c :: nat) \<le> 31 \<or> c = CHR 0x5C) raw then True
      else if has_scheme raw then True
      else includes_str ''..'' raw)"

datatype parsed_token_path =
  TokenPath (pt_token: string) (pt_path: string)
| WalletPath (pt_token: string) (pt_segments: "string list") (pt_path: string)

definition wallet_path :: "string \<Rightarrow> string list \<Rightarrow> parsed_token_path" where
  "wallet_path token segments = WalletPath token segments (walletHref token segments)"

text \<open>The part below \<open>/wallet\<close>.\<close>

definition parse_leaf :: "(string \<Rightarrow> bool) \<Rightarrow> string \<Rightarrow> string list \<Rightarrow> parsed_token_path option" where
  "parse_leaf isAddress token rest =
     (if rest = [] then Some (wallet_path token [])
      else if hd rest = ''receive'' \<and> length rest = 1 then Some (wallet_path token rest)
      else if hd rest = ''receive'' \<and> nth_opt rest 1 = Some ''nearby'' \<and> length rest = 2 then Some (wallet_path token rest)
      else if hd rest = ''collectibles'' \<and> length rest = 1 then Some (wallet_path token rest)
      else if hd rest = ''collectibles'' \<and> length rest = 2 then
        (case opt_address isAddress (nth_opt rest 1) of
           None \<Rightarrow> None
         | Some mint \<Rightarrow> Some (wallet_path token [''collectibles'', mint]))
      else if hd rest = ''settings'' \<and> length rest = 1 then Some (wallet_path token rest)
      else if hd rest = ''settings'' \<and> length rest = 2 then
        (case settingsFromSegment (nth_opt rest 1) of
           None \<Rightarrow> None
         | Some target \<Rightarrow> Some (WalletPath token [''settings'', settingsSegment target] (walletSettingsHref token (Some target))))
      else if length rest = 1 \<and> hd rest \<in> set WALLET_LEAF_SEGMENTS then Some (wallet_path token rest)
      else None)"

fun decode_all :: "string list \<Rightarrow> string list option" where
  "decode_all [] = Some []"
| "decode_all (p # ps) =
     (case decodeURIComponent p of None \<Rightarrow> None | Some q \<Rightarrow> map_option (Cons q) (decode_all ps))"

definition parse_parts :: "(string \<Rightarrow> bool) \<Rightarrow> string list \<Rightarrow> parsed_token_path option" where
  "parse_parts isAddress parts =
     (if nth_opt parts 0 \<noteq> Some ''token'' \<or> length parts < 2 then None
      else
        (case decodeURIComponent (parts ! 1) of
           None \<Rightarrow> None
         | Some addressRaw \<Rightarrow>
             if includes_str ''/'' addressRaw \<or> includes_str ''..'' addressRaw then None
             else
               (case tryParseAddress isAddress addressRaw of
                  None \<Rightarrow> None
                | Some token \<Rightarrow>
                    if length parts = 2 then Some (TokenPath token (walletHref token []))
                    else if parts ! 2 \<noteq> ''wallet'' then None
                    else
                      (case decode_all (drop 3 parts) of
                         None \<Rightarrow> None
                       | Some rest \<Rightarrow>
                           if list_ex (\<lambda>p. includes_str ''..'' p \<or> p = '''') rest then None
                           else parse_leaf isAddress token rest))))"

definition parseTokenWalletPath :: "(string \<Rightarrow> bool) \<Rightarrow> string option \<Rightarrow> parsed_token_path option" where
  "parseTokenWalletPath isAddress raw =
     (case raw of
        None \<Rightarrow> None
      | Some r \<Rightarrow>
          if r = '''' then None
          else
            (let trimmed = trim r in
             if rejectUnsafeReturn trimmed then None
             else if url_query trimmed \<noteq> '''' \<or> url_fragment trimmed \<noteq> '''' then None
             else parse_parts isAddress (filter (\<lambda>p. p \<noteq> '''') (path_segments trimmed))))"

definition settingsTargetFromPathname :: "(string \<Rightarrow> bool) \<Rightarrow> string \<Rightarrow> settings_target option" where
  "settingsTargetFromPathname isAddress pathname =
     (case parseTokenWalletPath isAddress (Some pathname) of
        Some (WalletPath _ segments _) \<Rightarrow>
          if nth_opt segments 0 \<noteq> Some ''settings'' then None
          else if length segments = 1 then None
          else settingsFromSegment (Some (or_else (nth_opt segments 1) ''''))
      | _ \<Rightarrow> None)"

subsection \<open>The pending return\<close>

text \<open>
  The value under the key in the session storage; \<open>up\<close> says whether a call of the storage works, and for
  the consumption whether reading and removing do.
\<close>

definition setPendingReturn :: "(string \<Rightarrow> bool) \<Rightarrow> bool \<Rightarrow> string \<Rightarrow> string option \<Rightarrow> string option" where
  "setPendingReturn isAddress up path stored =
     (if parseTokenWalletPath isAddress (Some path) = None then stored else if up then Some path else stored)"

definition consumePendingReturn ::
  "(string \<Rightarrow> bool) \<Rightarrow> bool \<Rightarrow> bool \<Rightarrow> string option \<Rightarrow> string option \<times> string option" where
  "consumePendingReturn isAddress readable removable stored =
     (if \<not> readable then (None, stored)
      else if or_else stored '''' \<noteq> '''' \<and> \<not> removable then (None, stored)
      else
        (map_option pt_path (parseTokenWalletPath isAddress stored),
         if or_else stored '''' \<noteq> '''' then None else stored))"

subsection \<open>Paths of plain segments\<close>

definition plain_text :: "string \<Rightarrow> bool" where
  "plain_text s \<longleftrightarrow> s \<noteq> '''' \<and> list_all (\<lambda>c. is_alnum c \<or> c = CHR ''-'') s"

text \<open>Addresses are base58 texts.\<close>

definition address_texts_ok :: "(string \<Rightarrow> bool) \<Rightarrow> bool" where
  "address_texts_ok isAddress \<longleftrightarrow> (\<forall>s. isAddress s \<longrightarrow> s \<noteq> '''' \<and> list_all is_alnum s)"

definition slashed :: "string list \<Rightarrow> string" where
  "slashed parts = concat (map (Cons CHR ''/'') parts)"

lemma plain_char:
  assumes "is_alnum c \<or> c = CHR ''-''"
  shows "c \<noteq> CHR ''/''" "c \<noteq> CHR ''%''" "c \<noteq> CHR ''#''" "c \<noteq> CHR ''?''" "c \<noteq> CHR ''.''" "c \<noteq> CHR 0x5C"
    "\<not> is_space c" "31 < (of_char c :: nat)"
  using assms by (auto simp: is_alnum_def Let_def is_space_def)

lemma plain_address: "address_texts_ok isAddress \<Longrightarrow> isAddress s \<Longrightarrow> plain_text s"
  by (auto simp: address_texts_ok_def plain_text_def list_all_iff)

lemma encode_plain: "plain_text s \<Longrightarrow> encodeURIComponent s = s"
proof -
  have "concat (map (\<lambda>c. if is_alnum c \<or> c \<in> set ''-_.!~*()'' \<or> c = CHR 0x27 then [c] else percent_char c) s) = s"
    if "list_all (\<lambda>c. is_alnum c \<or> c = CHR ''-'') s" for s
    using that by (induction s) auto
  then show "plain_text s \<Longrightarrow> ?thesis" by (simp add: encodeURIComponent_def plain_text_def)
qed

lemma decode_plain: "plain_text s \<Longrightarrow> decodeURIComponent s = Some s"
proof -
  have "decodeURIComponent s = Some s" if "CHR ''%'' \<notin> set s" for s
    using that by (induction s) auto
  then show "plain_text s \<Longrightarrow> ?thesis"
    using plain_char(2) by (fastforce simp: plain_text_def list_all_iff)
qed

lemma decode_all_plain: "list_all plain_text ps \<Longrightarrow> decode_all ps = Some ps"
  by (induction ps) (auto simp: decode_plain)

lemma path_encode_plain: "plain_text s \<Longrightarrow> path_encode s = s"
proof -
  have "path_encode s = s" if "list_all (\<lambda>c. is_alnum c \<or> c = CHR ''-'') s" for s
    using that by (induction s) (auto simp: path_encode_def is_alnum_def Let_def)
  then show "plain_text s \<Longrightarrow> ?thesis" by (simp add: plain_text_def)
qed

lemma includes_none: "x \<notin> set s \<Longrightarrow> \<not> includes_str (x # p) s"
  by (induction s) (auto simp: starts_with_Cons)

lemma no_dot_plain: "plain_text s \<Longrightarrow> \<not> includes_str ''..'' s"
  using plain_char(5) by (intro includes_none) (fastforce simp: plain_text_def list_all_iff)

lemma no_slash_plain: "plain_text s \<Longrightarrow> \<not> includes_str ''/'' s"
  using plain_char(1) by (intro includes_none) (fastforce simp: plain_text_def list_all_iff)

lemma lower_plain: "is_alnum c \<or> c = CHR ''-'' \<Longrightarrow> is_alnum (lower_char c) \<or> lower_char c = CHR ''-''"
  by (auto simp: lower_char_def is_alnum_def Let_def)

lemma dots_not_plain:
  assumes "plain_text s"
  shows "\<not> double_dot s" "\<not> single_dot s"
proof -
  have "lower_char c \<noteq> CHR ''.'' \<and> lower_char c \<noteq> CHR ''%''" if "c \<in> set s" for c
    using that assms lower_plain [of c] plain_char(2,5) by (auto simp: plain_text_def list_all_iff)
  then have "CHR ''.'' \<notin> set (to_lower s) \<and> CHR ''%'' \<notin> set (to_lower s)"
    by (auto simp: to_lower_def) metis+
  then show "\<not> double_dot s" "\<not> single_dot s" by (auto simp: double_dot_def single_dot_def)
qed

lemma url_segments_plain:
  "list_all plain_text parts \<Longrightarrow> url_segments acc parts = acc @ parts"
  by (induction acc parts rule: url_segments.induct) (simp_all add: dots_not_plain)

lemma split_slashed:
  "list_all plain_text parts \<Longrightarrow> parts \<noteq> [] \<Longrightarrow> split_on CHR ''/'' (tl (slashed parts)) = parts"
proof (induction parts)
  case (Cons p parts)
  have p: "CHR ''/'' \<notin> set p" using Cons.prems plain_char(1) by (fastforce simp: plain_text_def list_all_iff)
  have split: "split_on CHR ''/'' (p @ CHR ''/'' # s) = p # split_on CHR ''/'' s" for s
    using p by (induction p) auto
  show ?case
  proof (cases parts)
    case Nil
    then show ?thesis using split_on_none [OF p] by (simp add: slashed_def)
  next
    case (Cons q qs)
    then show ?thesis using Cons.IH Cons.prems split by (simp add: slashed_def)
  qed
qed simp

lemma set_slashed: "c \<in> set (slashed parts) \<Longrightarrow> list_all plain_text parts \<Longrightarrow> c = CHR ''/'' \<or> is_alnum c \<or> c = CHR ''-''"
  unfolding slashed_def list_all_iff plain_text_def by (cases "parts = []") auto

lemma slashed_cut:
  assumes "list_all plain_text parts"
  shows "url_raw_path (slashed parts) = slashed parts" "url_query (slashed parts) = ''''" "url_fragment (slashed parts) = ''''"
proof -
  have c: "c \<noteq> CHR ''#''" "c \<noteq> CHR ''?''" if "c \<in> set (slashed parts)" for c
    using set_slashed [OF that assms] plain_char(3,4) by auto
  then have "takeWhile (\<lambda>c. c \<noteq> CHR ''#'') (slashed parts) = slashed parts"
    "dropWhile (\<lambda>c. c \<noteq> CHR ''#'') (slashed parts) = []" "dropWhile (\<lambda>c. c \<noteq> CHR ''?'') (slashed parts) = []"
    by (auto simp: takeWhile_eq_all_conv dropWhile_eq_Nil_conv)
  then show "url_query (slashed parts) = ''''" "url_fragment (slashed parts) = ''''"
    unfolding url_query_def url_fragment_def by (simp_all only: list.sel(2))
  show "url_raw_path (slashed parts) = slashed parts"
    unfolding url_raw_path_def takeWhile_eq_all_conv using c by blast
qed

lemma path_segments_slashed:
  "list_all plain_text parts \<Longrightarrow> parts \<noteq> [] \<Longrightarrow> path_segments (slashed parts) = parts"
proof -
  assume h: "list_all plain_text parts" "parts \<noteq> []"
  then have "map path_encode parts = parts" by (auto simp: list_all_iff path_encode_plain intro!: map_idI)
  with h show ?thesis by (simp add: path_segments_def slashed_cut split_slashed url_segments_plain)
qed

lemma slashed_accepted:
  assumes "list_all plain_text parts" "parts \<noteq> []" "hd parts = ''token''"
  shows "trim (slashed parts) = slashed parts" "\<not> rejectUnsafeReturn (slashed parts)"
proof -
  obtain rest where parts: "parts = ''token'' # rest" using assms by (cases parts) auto
  have last: "last (slashed parts) \<noteq> CHR ''/'' \<and> last (slashed parts) \<in> set (slashed parts)"
  proof -
    have "slashed parts \<noteq> []" by (simp add: parts slashed_def)
    moreover have "last (slashed parts) = last (last parts)"
      using assms(1,2)
    proof (induction parts)
      case (Cons p ps)
      then show ?case by (cases "ps = []") (simp_all add: slashed_def plain_text_def)
    qed simp
    moreover have "plain_text (last parts)" using assms(1,2) by (auto simp: list_all_iff)
    then have "last (last parts) \<in> set (last parts)" "\<forall>c \<in> set (last parts). is_alnum c \<or> c = CHR ''-''"
      by (simp_all add: plain_text_def list_all_iff)
    then have "last (last parts) \<noteq> CHR ''/''" using plain_char(1) by blast
    ultimately show ?thesis using last_in_set [of "slashed parts"] by simp
  qed
  then have "\<not> is_space (last (slashed parts))" using set_slashed [OF _ assms(1)] plain_char(7) by blast
  moreover have "\<not> is_space (hd (slashed parts))" by (simp add: parts slashed_def is_space_def)
  ultimately show "trim (slashed parts) = slashed parts" by (intro trim_id) auto
  have c: "\<not> (of_char c :: nat) \<le> 31" "c \<noteq> CHR 0x5C" "c \<noteq> CHR ''.''" if "c \<in> set (slashed parts)" for c
    using set_slashed [OF that assms(1)] plain_char(5,6,8) [of c] by auto
  then have "\<not> includes_str ''..'' (slashed parts)" by (intro includes_none) blast
  moreover have "\<not> list_ex (\<lambda>c. (of_char c :: nat) \<le> 31 \<or> c = CHR 0x5C) (slashed parts)"
    using c by (auto simp: list_ex_iff)
  moreover have "\<not> has_scheme (slashed parts)" by (simp add: parts slashed_def has_scheme_def is_alnum_def)
  moreover have "starts_with ''/token'' (slashed parts)" "\<not> starts_with ''//'' (slashed parts)"
    by (simp_all add: parts slashed_def starts_with_Cons)
  ultimately show "\<not> rejectUnsafeReturn (slashed parts)" unfolding rejectUnsafeReturn_def by simp
qed

subsection \<open>The pages of a wallet\<close>

definition wallet_page :: "(string \<Rightarrow> bool) \<Rightarrow> string list \<Rightarrow> bool" where
  "wallet_page isAddress segments \<longleftrightarrow>
     segments \<in> {[], [''receive''], [''receive'', ''nearby''], [''collectibles''], [''settings''], [''send''],
       [''tokens''], [''activity''], [''claim'']} \<or>
     (\<exists>mint. isAddress mint \<and> segments = [''collectibles'', mint]) \<or>
     (\<exists>target. segments = [''settings'', settingsSegment target])"

lemma settingsSegment_simps [simp]:
  "settingsSegment RpcConnection = ''rpc''" "settingsSegment FeeBalance = ''fee-balance''"
  "settingsSegment WalletPolicy = ''policy''"
  by (simp_all add: settingsSegment_def SETTINGS_TO_SEGMENT_def)

lemma settings_roundtrip: "settingsFromSegment (Some (settingsSegment t)) = Some t"
  by (cases t) (simp_all add: settingsFromSegment_def SETTINGS_TO_SEGMENT_def)

lemma settings_Some: "settingsFromSegment s = Some t \<Longrightarrow> s = Some (settingsSegment t)"
  by (auto simp: settingsFromSegment_def SETTINGS_TO_SEGMENT_def split: option.splits if_splits)

lemma tryParse_Some: "tryParseAddress isAddress v = Some a \<longleftrightarrow> a = trim v \<and> a \<noteq> '''' \<and> isAddress a"
  by (auto simp: tryParseAddress_def)

lemma plain_trim: "plain_text s \<Longrightarrow> trim s = s"
proof -
  assume h: "plain_text s"
  then have "hd s \<in> set s" "last s \<in> set s" by (simp_all add: plain_text_def)
  with h have "\<not> is_space (hd s) \<and> \<not> is_space (last s)"
    using plain_char(7) unfolding plain_text_def list_all_iff by blast
  then show ?thesis by (intro trim_id) simp
qed

lemma wallet_page_plain: "address_texts_ok isAddress \<Longrightarrow> wallet_page isAddress segs \<Longrightarrow> list_all plain_text segs"
proof -
  assume h: "address_texts_ok isAddress" "wallet_page isAddress segs"
  have lits: "plain_text ''receive''" "plain_text ''nearby''" "plain_text ''collectibles''" "plain_text ''settings''"
    "plain_text ''send''" "plain_text ''tokens''" "plain_text ''activity''" "plain_text ''claim''" "plain_text ''rpc''"
    "plain_text ''fee-balance''" "plain_text ''policy''"
    by (simp_all add: plain_text_def is_alnum_def)
  have t: "plain_text (settingsSegment t)" for t by (cases t) (simp_all add: lits)
  from h show ?thesis by (auto simp: wallet_page_def lits t plain_address)
qed

lemma walletHref_plain:
  "plain_text t \<Longrightarrow> list_all plain_text segs \<Longrightarrow> walletHref t segs = slashed (''token'' # t # ''wallet'' # segs)"
proof -
  assume h: "plain_text t" "list_all plain_text segs"
  have m: "map encodeURIComponent segs = segs" using h(2) by (auto simp: list_all_iff encode_plain intro!: map_idI)
  have j: "CHR ''/'' # join ''/'' segs = slashed segs" if "segs \<noteq> []" for segs
    using that
  proof (induction segs)
    case (Cons p ps)
    then show ?case by (cases ps) (auto simp: slashed_def)
  qed simp
  show ?thesis
  proof (cases "segs = []")
    case True
    then show ?thesis by (simp add: walletHref_def tokenHref_def encode_plain [OF h(1)] slashed_def)
  next
    case False
    with j [OF this] m show ?thesis
      by (simp add: walletHref_def Let_def tokenHref_def encode_plain [OF h(1)] slashed_def)
  qed
qed

text \<open>The parser of the part below \<open>/wallet\<close>, by the number of its segments.\<close>

lemma parse_leaf_none [simp]: "parse_leaf isAddress token [] = Some (wallet_path token [])"
  by (simp add: parse_leaf_def)

lemma parse_leaf_one [simp]:
  "parse_leaf isAddress token [s] =
     (if s \<in> set ([''receive'', ''collectibles'', ''settings''] @ WALLET_LEAF_SEGMENTS) then Some (wallet_path token [s]) else None)"
  unfolding parse_leaf_def by simp

lemma parse_leaf_two [simp]:
  "parse_leaf isAddress token [s, v] =
     (if s = ''receive'' \<and> v = ''nearby'' then Some (wallet_path token [s, v])
      else if s = ''collectibles'' then
        map_option (\<lambda>mint. wallet_path token [''collectibles'', mint]) (tryParseAddress isAddress v)
      else if s = ''settings'' then
        map_option (\<lambda>target. wallet_path token [''settings'', settingsSegment target]) (settingsFromSegment (Some v))
      else None)"
  unfolding parse_leaf_def
  by (simp add: nth_opt_def opt_address_def wallet_path_def walletSettingsHref_def split: option.splits)

lemma parse_leaf_more: "3 \<le> length rest \<Longrightarrow> parse_leaf isAddress token rest = None"
  unfolding parse_leaf_def by auto

lemma parse_leaf_page:
  assumes "address_texts_ok isAddress" "wallet_page isAddress segs"
  shows "parse_leaf isAddress token segs = Some (WalletPath token segs (walletHref token segs))"
proof -
  have addr: "tryParseAddress isAddress m = Some m" if "isAddress m" for m
    using that plain_trim [OF plain_address [OF assms(1) that]] assms(1)
    by (auto simp: tryParseAddress_def address_texts_ok_def)
  from assms(2) consider "segs = []" | s where "segs = [s]" "s \<in> set ([''receive'', ''collectibles'', ''settings''] @ WALLET_LEAF_SEGMENTS)"
    | "segs = [''receive'', ''nearby'']" | m where "isAddress m" "segs = [''collectibles'', m]"
    | t where "segs = [''settings'', settingsSegment t]"
    unfolding wallet_page_def WALLET_LEAF_SEGMENTS_def by force
  then show ?thesis
    by cases (simp_all add: wallet_path_def addr settings_roundtrip del: settingsSegment_simps)
qed

lemma parse_leaf_Some:
  assumes "parse_leaf isAddress token rest = Some p"
  shows "\<exists>segs. wallet_page isAddress segs \<and> p = WalletPath token segs (walletHref token segs)"
proof -
  consider (one) s where "rest = [s]" | (two) s t where "rest = [s, t]" | (none) "rest = []" | (more) "3 \<le> length rest"
    by (cases rest; cases "tl rest"; cases "tl (tl rest)") auto
  then show ?thesis
  proof cases
    case one
    with assms have "s \<in> set ([''receive'', ''collectibles'', ''settings''] @ WALLET_LEAF_SEGMENTS)" "p = wallet_path token [s]"
      by (simp_all split: if_splits)
    then show ?thesis by (intro exI [of _ "[s]"]) (auto simp: wallet_page_def WALLET_LEAF_SEGMENTS_def wallet_path_def)
  next
    case (two s v)
    with assms consider "p = wallet_path token [''receive'', ''nearby'']"
      | m where "tryParseAddress isAddress v = Some m" "p = wallet_path token [''collectibles'', m]"
      | t where "p = wallet_path token [''settings'', settingsSegment t]"
      by (fastforce split: if_splits)
    then show ?thesis
    proof cases
      case (2 m)
      then show ?thesis by (intro exI [of _ "[''collectibles'', m]"]) (auto simp: wallet_page_def wallet_path_def tryParse_Some)
    qed (auto simp: wallet_page_def wallet_path_def simp del: settingsSegment_simps)
  next
    case none
    with assms show ?thesis by (intro exI [of _ "[]"]) (simp add: wallet_page_def wallet_path_def)
  qed (use assms parse_leaf_more [of rest isAddress token] in simp)
qed

lemma parse_page:
  assumes ok: "address_texts_ok isAddress" and t: "isAddress t" and page: "wallet_page isAddress segs"
  shows "parseTokenWalletPath isAddress (Some (walletHref t segs)) = Some (WalletPath t segs (walletHref t segs))"
proof -
  let ?parts = "''token'' # t # ''wallet'' # segs"
  note pt = plain_address [OF ok t] and ps = wallet_page_plain [OF ok page]
  have parts: "list_all plain_text ?parts" using pt ps by (simp add: plain_text_def is_alnum_def)
  have href: "walletHref t segs = slashed ?parts" by (rule walletHref_plain [OF pt ps])
  have acc: "trim (slashed ?parts) = slashed ?parts" "\<not> rejectUnsafeReturn (slashed ?parts)"
    by (rule slashed_accepted [OF parts]; simp)+
  have ne: "filter (\<lambda>p. p \<noteq> '''') ?parts = ?parts"
    using parts by (auto simp: filter_id_conv list_all_iff plain_text_def)
  have leafs: "\<not> list_ex (\<lambda>p. includes_str ''..'' p \<or> p = '''') segs"
    using ps no_dot_plain by (auto simp: list_ex_iff list_all_iff plain_text_def)
  have t': "tryParseAddress isAddress t = Some t"
    using plain_trim [OF pt] t pt by (simp add: tryParseAddress_def plain_text_def)
  have "parse_parts isAddress ?parts = Some (WalletPath t segs (walletHref t segs))"
    using parse_leaf_page [OF ok page] leafs t' no_dot_plain [OF pt] no_slash_plain [OF pt]
    by (simp add: parse_parts_def nth_opt_def decode_plain [OF pt] decode_all_plain [OF ps])
  moreover have "slashed ?parts \<noteq> ''''" by (simp add: slashed_def)
  ultimately show ?thesis
    using acc slashed_cut [OF parts] path_segments_slashed [OF parts] ne
    unfolding parseTokenWalletPath_def href by (simp add: Let_def)
qed

lemma parse_Some:
  assumes "parseTokenWalletPath isAddress raw = Some p"
  shows "isAddress (pt_token p) \<and> (\<exists>segs. wallet_page isAddress segs \<and> pt_path p = walletHref (pt_token p) segs)"
proof -
  from assms obtain parts where "parse_parts isAddress parts = Some p"
    by (auto simp: parseTokenWalletPath_def Let_def split: option.splits if_splits)
  then obtain raw' token where t: "tryParseAddress isAddress raw' = Some token"
    and p: "p = TokenPath token (walletHref token []) \<or> (\<exists>rest. parse_leaf isAddress token rest = Some p)"
    by (fastforce simp: parse_parts_def split: option.splits if_splits)
  from t have token: "isAddress token" by (auto simp: tryParse_Some)
  have "wallet_page isAddress []" by (simp add: wallet_page_def)
  with p token parse_leaf_Some [of isAddress token] show ?thesis by fastforce
qed

text \<open>
  What the application returns to after a sign-in.  The paths that reading the pending return can give,
  whatever text is in the storage, are exactly the wallet pages of a valid address in their canonical form:
  never another origin, another part of the application, or a page outside the list.  A path of a wallet page
  that is stored is given back as it was, once.
\<close>
theorem pending_return_is_wallet_page:
  assumes ok: "address_texts_ok isAddress"
  shows "((\<exists>stored readable removable rest.
      consumePendingReturn isAddress readable removable stored = (Some path, rest)) \<longleftrightarrow>
      (\<exists>t segs. isAddress t \<and> wallet_page isAddress segs \<and> path = walletHref t segs)) \<and>
    ((\<exists>t segs. isAddress t \<and> wallet_page isAddress segs \<and> path = walletHref t segs) \<longrightarrow>
      consumePendingReturn isAddress True True (setPendingReturn isAddress True path stored) = (Some path, None) \<and>
      consumePendingReturn isAddress True True None = (None, None))"
proof -
  have page: "parseTokenWalletPath isAddress (Some path) = Some (WalletPath t segs path) \<and> path \<noteq> ''''"
    if "isAddress t" "wallet_page isAddress segs" "path = walletHref t segs" for t segs
    using parse_page [OF ok that(1,2)] that(3)
    by (simp add: walletHref_plain [OF plain_address [OF ok that(1)] wallet_page_plain [OF ok that(2)]] slashed_def)
  have again: "consumePendingReturn isAddress True True (setPendingReturn isAddress True path stored) = (Some path, None)"
    if "isAddress t" "wallet_page isAddress segs" "path = walletHref t segs" for t segs stored
    using page [OF that] by (simp add: consumePendingReturn_def setPendingReturn_def)
  have only: "\<exists>t segs. isAddress t \<and> wallet_page isAddress segs \<and> path = walletHref t segs"
    if "consumePendingReturn isAddress a b st = (Some path, rest)" for a b st rest
    using that parse_Some [of isAddress st] by (auto simp: consumePendingReturn_def split: if_splits)
  have none: "consumePendingReturn isAddress True True None = (None, None)"
    by (simp add: consumePendingReturn_def parseTokenWalletPath_def)
  show ?thesis using again only none by blast
qed

theorem pending_return_is_wallet_page_witness:
  "consumePendingReturn (\<lambda>s. s = ''Tok1'') True True
     (setPendingReturn (\<lambda>s. s = ''Tok1'') True ''/token/Tok1/wallet/claim'' None) =
   (Some ''/token/Tok1/wallet/claim'', None)"
proof -
  have ok: "address_texts_ok (\<lambda>s. s = ''Tok1'')" by (simp add: address_texts_ok_def is_alnum_def)
  have "plain_text ''Tok1''" "plain_text ''claim''" by (simp_all add: plain_text_def is_alnum_def)
  then have "''/token/Tok1/wallet/claim'' = walletHref ''Tok1'' [''claim'']"
    by (simp add: walletHref_plain slashed_def)
  moreover have "wallet_page (\<lambda>s. s = ''Tok1'') [''claim'']" by (simp add: wallet_page_def)
  ultimately show ?thesis
    using pending_return_is_wallet_page [OF ok, of "''/token/Tok1/wallet/claim''" None] by blast
qed

end
