(* ===== verification/OwnerBlob.thy ===== *)
theory OwnerBlob
  imports AccessoryRoutes
begin

text \<open>
  The wallet blob as the API worker reads it (\<^verbatim>\<open>owner-wallet/blob-format.ts\<close>) and the table it is kept in
  (\<^verbatim>\<open>owner-wallet/blob-store.ts\<close>).  The header parser is written apart from the signer's decoder; they are
  shown to accept the same byte strings and to read the same fields.
\<close>

unbundle bit_operations_syntax

definition MAX_OWNER_BLOB_BYTES :: nat where "MAX_OWNER_BLOB_BYTES = 1024"
definition OWNER_MAX_CREDENTIAL_ID_BYTES :: nat where "OWNER_MAX_CREDENTIAL_ID_BYTES = 256"
definition EXPECTED_CT :: nat where "EXPECTED_CT = 48"
definition MAGIC :: bytes where "MAGIC = [0x53, 0x53, 0x57, 0x31]"

datatype owner_blob_error = OwnerBlobParseError string

record owner_blob_header =
  oh_version :: byte
  oh_publicKey :: bytes
  oh_credentialId :: bytes
  oh_raw :: bytes

text \<open>\<open>b[o]\<close> in a bitwise expression: a missing element counts as 0.\<close>

definition at_or_0 :: "bytes \<Rightarrow> nat \<Rightarrow> byte" where
  "at_or_0 b k = or_else (nth_opt b k) 0"

definition u16 :: "bytes \<Rightarrow> nat \<Rightarrow> nat" where
  "u16 b k = unat (push_bit 8 (ucast (at_or_0 b k)) OR ucast (at_or_0 b (k + 1)) :: 32 word)"

definition owner_base64UrlToBytes :: "api_kit \<Rightarrow> string \<Rightarrow> nat \<Rightarrow> owner_blob_error + bytes" where
  "owner_base64UrlToBytes K input maxBytes =
     err_if (input = '''') (OwnerBlobParseError ''empty'')
     (case base64UrlToBytes K input of
        None \<Rightarrow> Inl (OwnerBlobParseError ''bad_base64'')
      | Some bs \<Rightarrow> err_if (length bs > maxBytes) (OwnerBlobParseError ''too_large'') (Inr bs))"

text \<open>\<open>raw.subarray(a, b)\<close>\<close>

definition subarray :: "bytes \<Rightarrow> nat \<Rightarrow> nat \<Rightarrow> bytes" where
  "subarray b from to = take (to - from) (drop from b)"

definition parseOwnerBlobHeader :: "bytes \<Rightarrow> owner_blob_error + owner_blob_header" where
  "parseOwnerBlobHeader raw =
     err_if (length raw < 4 + 1 + 32 + 2 + 1 + 32 + 12 + 2 + EXPECTED_CT \<or> length raw > MAX_OWNER_BLOB_BYTES)
       (OwnerBlobParseError ''size'')
     (err_if (list_ex (\<lambda>i. nth_opt raw i \<noteq> nth_opt MAGIC i) [0 ..< 4]) (OwnerBlobParseError ''magic'')
     (let ver = at_or_0 raw 4 in
      err_if (ver \<noteq> 1) (OwnerBlobParseError ''version'')
     (let pk = subarray raw 5 37; credLen = u16 raw 37 in
      err_if (credLen < 1 \<or> credLen > OWNER_MAX_CREDENTIAL_ID_BYTES) (OwnerBlobParseError ''cred_len'')
     (let cred = subarray raw 39 (39 + credLen); k = 39 + credLen + 32 + 12 in
      err_if (k + 2 > length raw) (OwnerBlobParseError ''truncated'')
     (let ctLen = u16 raw k; k' = k + 2 in
      err_if (ctLen \<noteq> EXPECTED_CT \<or> k' + ctLen \<noteq> length raw) (OwnerBlobParseError ''ciphertext'')
     (Inr \<lparr>oh_version = ver, oh_publicKey = pk, oh_credentialId = cred, oh_raw = raw\<rparr>))))))"

definition isCredentialIdHash :: "string \<Rightarrow> bool" where
  "isCredentialIdHash v \<longleftrightarrow>
     length v = 64 \<and> list_all (\<lambda>c. let n = of_char c :: nat in 97 \<le> n \<and> n \<le> 102 \<or> 48 \<le> n \<and> n \<le> 57) v"

subsection \<open>The two readers agree\<close>

lemma u16_eq: "u16 b k = nat (u16_of (at_or_0 b k) (at_or_0 b (k + 1)))"
proof -
  let ?w = "push_bit 8 (ucast (at_or_0 b k)) OR ucast (at_or_0 b (k + 1)) :: 32 word"
  have "sint ?w = 256 * uint (at_or_0 b k) + uint (at_or_0 b (k + 1))"
    using u16_of_eq by (simp add: u16_of_def)
  moreover have "0 \<le> 256 * uint (at_or_0 b k) + uint (at_or_0 b (k + 1))"
      "256 * uint (at_or_0 b k) + uint (at_or_0 b (k + 1)) < 4294967296"
    using byte_uint_bounds [of "at_or_0 b k"] byte_uint_bounds [of "at_or_0 b (k + 1)"] by linarith+
  ultimately have "uint ?w = sint ?w" by (simp add: uint_sint take_bit_int_eq_self)
  then show ?thesis unfolding u16_def u16_of_def by (metis nat_uint_eq)
qed

lemma u16_written:
  assumes "writeU16 n = Inr w" "drop k b = w @ rest"
  shows "u16 b k = n"
proof -
  from assms(1) have w: "w = [word_of_nat (n div 256), word_of_nat n]" "n \<le> 65535" by (simp_all add: writeU16_Inr)
  with assms(2) have "drop k b = word_of_nat (n div 256) # word_of_nat n # rest" by simp
  then have "k + 1 < length b" "b ! k = word_of_nat (n div 256)" "b ! (k + 1) = word_of_nat n"
    by (metis Suc_eq_plus1 drop_all drop_Suc_tl leI list.distinct(1) list.sel(3), metis nth_via_drop,
        metis Suc_eq_plus1 drop_Suc_tl list.sel(3) nth_via_drop)
  then have "at_or_0 b k = word_of_nat (n div 256)" "at_or_0 b (k + 1) = word_of_nat n"
    by (simp_all add: at_or_0_def nth_opt_def)
  then show ?thesis using writeU16_u16_of [OF w(2)] by (simp add: u16_eq)
qed

lemma u16_was_written:
  assumes "k + 1 < length b"
  shows "writeU16 (u16 b k) = Inr (take 2 (drop k b))"
proof -
  let ?hi = "b ! k" and ?lo = "b ! (k + 1)"
  have "take 2 (drop k b) = [?hi, ?lo]"
    using assms by (simp add: Cons_nth_drop_Suc [symmetric] numeral_2_eq_2)
  moreover have at: "at_or_0 b k = ?hi" "at_or_0 b (k + 1) = ?lo" using assms by (simp_all add: at_or_0_def nth_opt_def)
  moreover have "nat (u16_of ?hi ?lo) \<le> 65535"
    using byte_uint_bounds [of ?hi] byte_uint_bounds [of ?lo] by (simp add: u16_of_eq)
  ultimately show ?thesis using u16_bytes_inverse [of ?hi ?lo] by (simp add: writeU16_Inr u16_eq)
qed

lemma header_of_encoded:
  assumes "encodeWalletBlob f = Inr b"
  shows "parseOwnerBlobHeader b =
    Inr \<lparr>oh_version = 1, oh_publicKey = publicKey f, oh_credentialId = credentialId f, oh_raw = b\<rparr>"
proof -
  let ?n = "length (credentialId f)"
  from assms obtain cl xl where len: "length (publicKey f) = 32" "length (kdfSalt f) = 32" "length (iv f) = 12"
      "length (ciphertext f) = 48" "credentialId f \<noteq> []" "?n \<le> 256"
    and cl: "writeU16 ?n = Inr cl" and xl: "writeU16 48 = Inr xl"
    and b: "b = BLOB_MAGIC @ BLOB_VERSION # publicKey f @ cl @ credentialId f @ kdfSalt f @ iv f @ xl @ ciphertext f"
    by (auto simp: encodeWalletBlob_Inr)
  have two: "length cl = 2" "length xl = 2" using cl xl by (auto simp: writeU16_Inr)
  have size: "length b = 133 + ?n" using assms by (rule encodeWalletBlob_length)
  have n: "0 < ?n" using len(5) by simp
  have magic: "\<not> list_ex (\<lambda>i. nth_opt b i \<noteq> nth_opt MAGIC i) [0 ..< 4]"
    by (simp add: b BLOB_MAGIC_def MAGIC_def upt_rec)
  have ver: "at_or_0 b 4 = 1" by (simp add: b at_or_0_def nth_opt_def nth_append BLOB_VERSION_def)
  have pk: "subarray b 5 37 = publicKey f" using len(1) by (simp add: subarray_def b)
  have "drop 37 b = cl @ credentialId f @ kdfSalt f @ iv f @ xl @ ciphertext f" using len(1) by (simp add: b)
  from u16_written [OF cl this] have credLen: "u16 b 37 = ?n" .
  have cred: "subarray b 39 (39 + ?n) = credentialId f" using len(1) two by (simp add: subarray_def b)
  have "drop (length pre) (pre @ rest) = rest" for pre rest :: bytes by simp
  from this [of "BLOB_MAGIC @ BLOB_VERSION # publicKey f @ cl @ credentialId f @ kdfSalt f @ iv f" "xl @ ciphertext f"]
  have "drop (39 + ?n + 32 + 12) b = xl @ ciphertext f"
    using len two unfolding b by (simp only: length_append list.size length_BLOB_MAGIC append_assoc append_Cons) (simp add: add.commute add.left_commute)
  from u16_written [OF xl this] have ctLen: "u16 b (39 + ?n + 32 + 12) = 48" .
  show ?thesis
    using n len(6) size ctLen
    by (simp add: parseOwnerBlobHeader_def Let_def magic ver pk credLen cred ctLen err_if_def EXPECTED_CT_def
        MAX_OWNER_BLOB_BYTES_def OWNER_MAX_CREDENTIAL_ID_BYTES_def del: One_nat_def)
qed

lemma header_was_encoded:
  assumes "parseOwnerBlobHeader raw = Inr h"
  shows "\<exists>p. version p = BLOB_VERSION \<and> encodeWalletBlob (p :: parsed_wallet_blob) = Inr raw"
proof -
  let ?n = "u16 raw 37"
  from assms have size: "length raw = 39 + ?n + 32 + 12 + 2 + 48" and n: "1 \<le> ?n" "?n \<le> 256"
    and ct: "u16 raw (39 + ?n + 32 + 12) = 48" and ver: "at_or_0 raw 4 = 1"
    and magic: "\<not> list_ex (\<lambda>i. nth_opt raw i \<noteq> nth_opt MAGIC i) [0 ..< 4]"
    by (auto simp: parseOwnerBlobHeader_def Let_def result_simps EXPECTED_CT_def OWNER_MAX_CREDENTIAL_ID_BYTES_def not_less)
  define p :: parsed_wallet_blob where "p = \<lparr>publicKey = subarray raw 5 37, credentialId = subarray raw 39 (39 + ?n),
    kdfSalt = take 32 (drop (39 + ?n) raw), iv = take 12 (drop (39 + ?n + 32) raw),
    ciphertext = drop (39 + ?n + 32 + 12 + 2) raw, version = 1\<rparr>"
  have split: "drop k raw = take m (drop k raw) @ drop (k + m) raw" for k m
    by (metis add.commute append_take_drop_id drop_drop)
  have "raw = take 4 raw @ drop 4 raw" by simp
  also have "drop 4 raw = take 1 (drop 4 raw) @ drop 5 raw" using split [of 4 1] by simp
  also have "drop 5 raw = take 32 (drop 5 raw) @ drop 37 raw" using split [of 5 32] by simp
  also have "drop 37 raw = take 2 (drop 37 raw) @ drop 39 raw" using split [of 37 2] by simp
  also have "drop 39 raw = take ?n (drop 39 raw) @ drop (39 + ?n) raw" by (rule split)
  also have "drop (39 + ?n) raw = take 32 (drop (39 + ?n) raw) @ drop (39 + ?n + 32) raw" by (rule split)
  also have "drop (39 + ?n + 32) raw = take 12 (drop (39 + ?n + 32) raw) @ drop (39 + ?n + 32 + 12) raw" by (rule split)
  also have "drop (39 + ?n + 32 + 12) raw = take 2 (drop (39 + ?n + 32 + 12) raw) @ drop (39 + ?n + 32 + 12 + 2) raw" by (rule split)
  finally have raw: "raw = take 4 raw @ take 1 (drop 4 raw) @ publicKey p @ take 2 (drop 37 raw) @ credentialId p @ kdfSalt p @
      iv p @ take 2 (drop (39 + ?n + 32 + 12) raw) @ ciphertext p"
    by (simp add: p_def subarray_def)
  have "take 4 raw = BLOB_MAGIC"
    using magic size by (auto simp: list_eq_iff_nth_eq BLOB_MAGIC_def MAGIC_def nth_opt_def upt_rec less_Suc_eq numeral_eq_Suc
        split: if_splits)
  moreover have "take 1 (drop 4 raw) = [BLOB_VERSION]"
    using ver size by (cases "drop 4 raw") (auto simp: at_or_0_def nth_opt_def BLOB_VERSION_def nth_via_drop)
  moreover have "writeU16 ?n = Inr (take 2 (drop 37 raw))" using size by (intro u16_was_written) simp
  moreover have "writeU16 48 = Inr (take 2 (drop (39 + ?n + 32 + 12) raw))"
    using size u16_was_written [of "39 + ?n + 32 + 12" raw] ct by simp
  moreover have "length (publicKey p) = 32" "length (kdfSalt p) = 32" "length (iv p) = 12" "length (ciphertext p) = 48"
      "length (credentialId p) = ?n"
    using size n by (auto simp: p_def subarray_def)
  ultimately have "encodeWalletBlob p = Inr raw"
    using raw n by (auto simp: encodeWalletBlob_Inr)
  then show ?thesis by (intro exI [of _ p]) (simp add: p_def BLOB_VERSION_def)
qed

lemma header_agrees_core:
  "parseOwnerBlobHeader raw = Inr h \<longleftrightarrow>
     (\<exists>p. decodeWalletBlob raw = Inr p \<and>
        h = \<lparr>oh_version = version p, oh_publicKey = publicKey p, oh_credentialId = credentialId p, oh_raw = raw\<rparr>)"
proof
  assume h: "parseOwnerBlobHeader raw = Inr h"
  then obtain p :: parsed_wallet_blob where p: "version p = BLOB_VERSION" "encodeWalletBlob p = Inr raw"
    using header_was_encoded by blast
  with decodeWalletBlob_encoded [OF p(2,1)] header_of_encoded [OF p(2)] h
  show "\<exists>p. decodeWalletBlob raw = Inr p \<and>
      h = \<lparr>oh_version = version p, oh_publicKey = publicKey p, oh_credentialId = credentialId p, oh_raw = raw\<rparr>"
    by (auto simp: BLOB_VERSION_def)
next
  assume "\<exists>p. decodeWalletBlob raw = Inr p \<and>
      h = \<lparr>oh_version = version p, oh_publicKey = publicKey p, oh_credentialId = credentialId p, oh_raw = raw\<rparr>"
  then obtain p where p: "decodeWalletBlob raw = Inr p"
    "h = \<lparr>oh_version = version p, oh_publicKey = publicKey p, oh_credentialId = credentialId p, oh_raw = raw\<rparr>" by blast
  from decodeWalletBlob_was_encoded [OF p(1)] header_of_encoded [of p raw] p(2)
  show "parseOwnerBlobHeader raw = Inr h" by (simp add: BLOB_VERSION_def)
qed

text \<open>
  The two ends of a backup read the same wallet.  The worker's parser accepts a byte string exactly when
  the signer's strict decoder does, and then the version, the public key and the credential id it goes by
  are those the signer decodes.
\<close>
theorem header_agrees_with_decoder:
  "parseOwnerBlobHeader raw = Inr h \<longleftrightarrow>
     (\<exists>p. decodeWalletBlob raw = Inr p \<and>
        h = \<lparr>oh_version = version p, oh_publicKey = publicKey p, oh_credentialId = credentialId p, oh_raw = raw\<rparr>)"
  by (rule header_agrees_core)

subsection \<open>The table of backups\<close>

record owner_row =
  or_publicKey :: string
  or_encryptedBlob :: string
  or_blobVersion :: nat
  or_updatedAt :: nat
  or_webauthn :: "string option"

type_synonym owner_table = "string \<rightharpoonup> owner_row"

text \<open>A row without a passkey key does not count; the key is read without the blanks around it.\<close>

definition mapRow :: "owner_row \<Rightarrow> owner_row option" where
  "mapRow r =
     (case map_option trim (or_webauthn r) of
        None \<Rightarrow> None
      | Some key \<Rightarrow> if key = '''' then None else Some (r\<lparr>or_webauthn := Some key\<rparr>))"

definition getOwnerWalletBlob :: "string \<Rightarrow> owner_table \<Rightarrow> owner_row option" where
  "getOwnerWalletBlob credentialIdHash db = Option.bind (db credentialIdHash) mapRow"

record put_params =
  pp_credentialIdHash :: string
  pp_publicKey :: string
  pp_encryptedBlob :: string
  pp_blobVersion :: nat
  pp_webauthn :: "string option"

datatype put_result = Created | Updated | Conflict | WebauthnRequired

text \<open>The DELETE of incomplete rows: SQLite's \<open>TRIM\<close> removes spaces only.\<close>

definition drop_incomplete :: "string \<Rightarrow> owner_table \<Rightarrow> owner_table" where
  "drop_incomplete h db =
     (case db h of
        Some r \<Rightarrow>
          if or_webauthn r = None \<or> list_all (\<lambda>c. c = CHR '' '') (or_else (or_webauthn r) '''') then db(h := None) else db
      | None \<Rightarrow> db)"

definition insert_row :: "put_params \<Rightarrow> string \<Rightarrow> nat \<Rightarrow> owner_row" where
  "insert_row p key now =
     \<lparr>or_publicKey = pp_publicKey p, or_encryptedBlob = pp_encryptedBlob p, or_blobVersion = pp_blobVersion p,
      or_updatedAt = now, or_webauthn = Some key\<rparr>"

text \<open>\<open>None\<close>: the INSERT meets a row that is still there and throws.\<close>

definition putOwnerWalletBlob :: "put_params \<Rightarrow> nat \<Rightarrow> owner_table \<Rightarrow> put_result option \<times> owner_table" where
  "putOwnerWalletBlob p now db =
     (let h = pp_credentialIdHash p;
          incomingKey = (case map_option trim (pp_webauthn p) of Some k \<Rightarrow> if k = '''' then None else Some k | None \<Rightarrow> None) in
      case getOwnerWalletBlob h db of
        Some existing \<Rightarrow>
          if or_publicKey existing \<noteq> pp_publicKey p then (Some Conflict, db)
          else if or_encryptedBlob existing = pp_encryptedBlob p \<and>
              (incomingKey = None \<or> or_webauthn existing = incomingKey)
          then (Some Updated, db)
          else
            (Some Updated,
             db(h := map_option (\<lambda>r. r\<lparr>or_encryptedBlob := pp_encryptedBlob p, or_blobVersion := pp_blobVersion p,
               or_updatedAt := now\<rparr>) (db h)))
      | None \<Rightarrow>
          (let db1 = drop_incomplete h db in
           case incomingKey of
             None \<Rightarrow> (Some WebauthnRequired, db1)
           | Some key \<Rightarrow>
               if db1 h \<noteq> None then (None, db1) else (Some Created, db1(h \<mapsto> insert_row p key now))))"

end
