(* ===== verification/OwnerRoutes.thy ===== *)
theory OwnerRoutes
  imports OwnerBlob
begin

text \<open>
  The backup of owner wallets at the API worker: \<^verbatim>\<open>owner-wallet/routes.ts\<close>, \<^verbatim>\<open>auth/possession-proof.ts\<close> and
  \<^verbatim>\<open>owner-wallet/verify-webauthn-assertion.ts\<close>.  Ed25519, SHA-256, the address decoder of \<open>@solana/kit\<close> and
  the functions of \<open>@simplewebauthn/server\<close> are parameters; \<open>None\<close> is an exception of theirs.
\<close>

record attested =
  at_publicKey :: "bytes option"
  at_credentialID :: "bytes option"
  at_rpIdHash :: bytes
  at_up :: bool
  at_at :: bool

record owner_kit =
  ok_env :: route_env
  ok_addressDecode :: "bytes \<Rightarrow> string option"
  ok_ed25519_verify :: "bytes \<Rightarrow> bytes \<Rightarrow> bytes \<Rightarrow> bool option"
  ok_sha256 :: "bytes \<Rightarrow> bytes"
  ok_attestation :: "string \<Rightarrow> attested option"
  ok_verifyAssertion :: "js \<Rightarrow> string \<Rightarrow> string \<Rightarrow> string \<Rightarrow> bytes \<Rightarrow> bool option"
  ok_insert_failure :: string

abbreviation ok_api :: "owner_kit \<Rightarrow> api_kit" where
  "ok_api W \<equiv> re_api (ok_env W)"

definition sha256Hex :: "owner_kit \<Rightarrow> bytes \<Rightarrow> string" where
  "sha256Hex W bs = digestHex (ok_sha256 W) bs"

subsection \<open>Origins and passkeys\<close>

definition resolveWebAuthnRpId :: "string \<Rightarrow> string" where
  "resolveWebAuthnRpId hostname =
     (if hostname = ''localhost'' \<or> hostname = ''127.0.0.1'' then ''localhost''
      else if hostname = ''revibase.com'' \<or> ends_with ''.revibase.com'' hostname then ''revibase.com''
      else hostname)"

definition origin_required :: reply where
  "origin_required = json_error ''App origin required'' ''origin_required'' 403"

definition requireAppOrigin :: "owner_kit \<Rightarrow> request_meta \<Rightarrow> reply + string" where
  "requireAppOrigin W r =
     (let origin = trim (or_else (mt_origin (rm_meta r)) '''') in
      if origin = '''' \<or> \<not> isAppBrowserOrigin (re_host (ok_env W)) origin then Inl origin_required else Inr origin)"

definition extractCredentialFromAttestationObject :: "owner_kit \<Rightarrow> string \<Rightarrow> string \<Rightarrow> (bytes \<times> bytes) option" where
  "extractCredentialFromAttestationObject W attestationObject expectedRpId =
     (case ok_attestation W attestationObject of
        None \<Rightarrow> None
      | Some a \<Rightarrow>
          (case (at_publicKey a, at_credentialID a) of
             (Some pk, Some cred) \<Rightarrow>
               if cred = [] then None
               else if \<not> bytesEqual (at_rpIdHash a) (ok_sha256 W (utf8ToBytes expectedRpId)) then None
               else if \<not> at_up a \<or> \<not> at_at a then None
               else Some (pk, cred)
           | _ \<Rightarrow> None))"

text \<open>\<open>Inl\<close>: the attestation does not check out; \<open>Inr None\<close>: there is none.\<close>

definition resolvePutWebauthnKey ::
  "owner_kit \<Rightarrow> (string \<times> js) list \<Rightarrow> string \<Rightarrow> unit + (string \<times> bytes) option" where
  "resolvePutWebauthnKey W ps expectedRpId =
     (let attestation = (case jget ps ''webauthnAttestationObject'' of JString t \<Rightarrow> trim t | _ \<Rightarrow> '''') in
      if attestation = '''' then Inr None
      else case extractCredentialFromAttestationObject W attestation expectedRpId of
        None \<Rightarrow> Inl ()
      | Some (pk, cred) \<Rightarrow> Inr (Some (bytesToBase64Url (ok_api W) pk, cred)))"

definition isAuthenticationResponseJSON :: "js \<Rightarrow> bool" where
  "isAuthenticationResponseJSON v =
     (case v of
        JObject ps \<Rightarrow>
          (case (jget ps ''id'', jget ps ''rawId'') of
             (JString _, JString _) \<Rightarrow>
               jget ps ''type'' = JString ''public-key'' \<and>
               (case jget ps ''response'' of
                  JObject rs \<Rightarrow>
                    list_all (\<lambda>k. case jget rs k of JString _ \<Rightarrow> True | _ \<Rightarrow> False)
                      [''clientDataJSON'', ''authenticatorData'', ''signature'']
                | _ \<Rightarrow> False)
           | _ \<Rightarrow> False)
      | _ \<Rightarrow> False)"

text \<open>\<open>Inl\<close>: error, code and status.\<close>

definition verifyOwnerWalletAssertion ::
  "owner_kit \<Rightarrow> js \<Rightarrow> string \<Rightarrow> string \<Rightarrow> bytes \<Rightarrow> (string \<times> string \<times> nat) + unit" where
  "verifyOwnerWalletAssertion W assertion expectedChallenge origin storedKey =
     (if origin = '''' \<or> \<not> isAppBrowserOrigin (re_host (ok_env W)) origin
      then Inl (''App origin required'', ''origin_required'', 403)
      else case re_host (ok_env W) origin of
        None \<Rightarrow> Inl (''App origin required'', ''origin_required'', 403)
      | Some hostname \<Rightarrow>
          if ok_verifyAssertion W assertion expectedChallenge origin (resolveWebAuthnRpId hostname) storedKey = Some True
          then Inr ()
          else Inl (''WebAuthn assertion verification failed'', ''webauthn_invalid'', 401))"

subsection \<open>Proof of possession\<close>

text \<open>Outer \<open>Inl\<close>: an exception that is let through; inner \<open>Inl\<close>: error, code and status.\<close>

definition possession_verdict ::
  "owner_kit \<Rightarrow> string option \<Rightarrow> string \<Rightarrow> bytes \<Rightarrow> (bytes \<Rightarrow> thrown + bytes) \<Rightarrow> string option \<Rightarrow>
   thrown + (string \<times> string \<times> nat) + unit" where
  "possession_verdict W expected signatureB64 publicKeyBytes buildMessage expiredError =
     (case expected of
        None \<Rightarrow> Inr (Inl (or_else expiredError ''This request expired. Try again.'', ''challenge_invalid'', 409))
      | Some expectedChallenge \<Rightarrow>
          (case (base64UrlToBytes (ok_api W) expectedChallenge, base64UrlToBytes (ok_api W) signatureB64) of
             (Some challengeBytes, Some signature) \<Rightarrow>
               if length signature \<noteq> 64 \<or> length publicKeyBytes \<noteq> 32
               then Inr (Inl (''Invalid signature'', ''invalid_proof'', 400))
               else
                 obind (buildMessage challengeBytes) (\<lambda>message.
                   if ok_ed25519_verify W signature message publicKeyBytes = Some True then Inr (Inr ())
                   else Inr (Inl (''Wallet proof failed'', ''invalid_proof'', 403)))
           | _ \<Rightarrow> Inr (Inl (''Invalid proof'', ''invalid_proof'', 400))))"

definition verifyConsumedChallengeProof ::
  "owner_kit \<Rightarrow> 's kv_api \<Rightarrow> kv_challenge \<Rightarrow> nat \<Rightarrow> string \<Rightarrow> string \<Rightarrow> bytes \<Rightarrow> string option \<Rightarrow> 's \<Rightarrow>
   (thrown + (string \<times> string \<times> nat) + unit) \<times> 's" where
  "verifyConsumedChallengeProof W V C now challengeId signatureB64 publicKeyBytes expiredError s =
     (let (expected, s') = consume_challenge V C now challengeId s in
      (possession_verdict W expected signatureB64 publicKeyBytes (challengeMessage C) expiredError, s'))"

subsection \<open>The handlers\<close>

type_synonym 's owner_state = "'s \<times> owner_table"

definition post_backup_challenge ::
  "owner_kit \<Rightarrow> 's kv_api \<Rightarrow> kv_challenge \<Rightarrow> request_meta \<Rightarrow> string \<Rightarrow> bytes \<Rightarrow> 's \<Rightarrow> reply \<times> 's" where
  "post_backup_challenge W V C r uuid randomBytes s =
     (case requireAppOrigin W r of
        Inl refusal \<Rightarrow> (refusal, s)
      | Inr _ \<Rightarrow>
          (let ((challengeId, challenge), s') = issue_challenge (ok_api W) V C (rm_now r) uuid randomBytes s in
           (json [(''challengeId'', JString challengeId), (''challenge'', JString challenge)] 200, s')))"

definition string_field :: "(string \<times> js) list \<Rightarrow> string \<Rightarrow> string" where
  "string_field ps k = (case jget ps k of JString t \<Rightarrow> trim t | _ \<Rightarrow> '''')"

definition blob_audit :: "bool \<Rightarrow> string option \<Rightarrow> (string \<times> js) list option \<Rightarrow> audit_meta \<Rightarrow> audit_entry" where
  "blob_audit succeeded code detail m =
     (blank_entry BlobGet)\<lparr>ae_ok := Some succeeded, ae_actor := Some ActorSystem, ae_code := code,
       ae_origin := mt_origin m, ae_requestId := mt_requestId m, ae_detail := detail\<rparr>"

definition audited :: "audit_entry \<Rightarrow> reply \<Rightarrow> reply" where
  "audited e rep = rep\<lparr>rp_audit := rp_audit rep @ [e]\<rparr>"

text \<open>The last part of the restore route: the row, the assertion, the reply.\<close>

definition restore_row :: "owner_kit \<Rightarrow> request_meta \<Rightarrow> string \<Rightarrow> js \<Rightarrow> string \<Rightarrow> string \<Rightarrow> owner_table \<Rightarrow> reply" where
  "restore_row W r origin assertion expectedChallenge h db =
     (case getOwnerWalletBlob h db of
        None \<Rightarrow> json_error ''No wallet backup found'' ''not_found'' 404
      | Some rw \<Rightarrow>
          (case owner_base64UrlToBytes (ok_api W) (the (or_webauthn rw)) 1024 of
             Inl (OwnerBlobParseError m) \<Rightarrow>
               json [(''error'', JString (getErrorMessage (Uncoded m) ''Failed to load wallet backup''))] 502
           | Inr storedKey \<Rightarrow>
               (case verifyOwnerWalletAssertion W assertion expectedChallenge origin storedKey of
                  Inl (message, code, status) \<Rightarrow>
                    audited (blob_audit False (Some code) (Some [(''hashPrefix'', JString (take 8 h))]) (rm_meta r))
                      (json_error message code status)
                | Inr _ \<Rightarrow>
                    audited (blob_audit True None (Some [(''hashPrefix'', JString (take 8 h))]) (rm_meta r))
                      (json [(''encryptedWalletBlob'', JString (or_encryptedBlob rw)),
                         (''publicKey'', JString (or_publicKey rw)), (''blobVersion'', jnat (or_blobVersion rw)),
                         (''updatedAt'', jnat (or_updatedAt rw))] 200))))"

definition post_restore ::
  "owner_kit \<Rightarrow> 's kv_api \<Rightarrow> request_meta \<Rightarrow> js option \<Rightarrow> 's owner_state \<Rightarrow> reply \<times> 's owner_state" where
  "post_restore W V r bdy st =
     (case requireAppOrigin W r of
        Inl refusal \<Rightarrow> (audited (blob_audit False (Some ''origin_required'') None (rm_meta r)) refusal, st)
      | Inr origin \<Rightarrow>
     (case bdy of
        Some (JObject ps) \<Rightarrow>
          (let challengeId = string_field ps ''challengeId''; assertion = jget ps ''assertion'' in
           if challengeId = '''' then (json_error ''challengeId is required'' ''challenge_required'' 400, st)
           else if \<not> isAuthenticationResponseJSON assertion
           then (json_error ''assertion must be a WebAuthn AuthenticationResponseJSON'' ''invalid_assertion'' 400, st)
           else
             (case consume_challenge V restore_challenge (rm_now r) challengeId (fst st) of
                (None, s1) \<Rightarrow>
                  (audited (blob_audit False (Some ''challenge_invalid'') None (rm_meta r))
                     (json_error ''Restore challenge expired or invalid. Try again.'' ''challenge_invalid'' 409), (s1, snd st))
              | (Some expectedChallenge, s1) \<Rightarrow>
                  (case owner_base64UrlToBytes (ok_api W)
                      (case js_member assertion ''rawId'' of Some (JString t) \<Rightarrow> t | _ \<Rightarrow> '''') OWNER_MAX_CREDENTIAL_ID_BYTES of
                     Inl _ \<Rightarrow> (json_error ''Invalid assertion rawId'' ''invalid_assertion'' 400, (s1, snd st))
                   | Inr rawId \<Rightarrow>
                       (restore_row W r origin assertion expectedChallenge (sha256Hex W rawId) (snd st), (s1, snd st)))))
      | _ \<Rightarrow> (json [(''error'', JString ''Invalid JSON body'')] 400, st)))"

text \<open>The \<open>try\<close> block at the end of the PUT: store, then sign the browser in.\<close>

definition store_backup ::
  "owner_kit \<Rightarrow> request_meta \<Rightarrow> string \<Rightarrow> owner_blob_header \<Rightarrow> string option \<Rightarrow> owner_table \<Rightarrow> reply \<times> owner_table" where
  "store_backup W r pk hdr key db =
     (let h = sha256Hex W (oh_credentialId hdr);
          failed = (\<lambda>e. json [(''error'', JString (getErrorMessage e ''Failed to store wallet backup''))] 502) in
      case putOwnerWalletBlob
          \<lparr>pp_credentialIdHash = h, pp_publicKey = pk, pp_encryptedBlob = bytesToBase64Url (ok_api W) (oh_raw hdr),
           pp_blobVersion = unat (oh_version hdr), pp_webauthn = key\<rparr> (rm_now r) db of
        (None, db') \<Rightarrow> (failed (Uncoded (ok_insert_failure W)), db')
      | (Some Conflict, db') \<Rightarrow>
          (json_error ''A different wallet is already stored for this passkey'' ''wallet_conflict'' 409, db')
      | (Some WebauthnRequired, db') \<Rightarrow>
          (json_error ''webauthnAttestationObject is required on first backup'' ''webauthn_required'' 400, db')
      | (Some result, db') \<Rightarrow>
          (case issueOwnerSessionCookie (ok_api W) (re_secret (ok_env W)) (rq_url (rm_request r)) pk (rm_now r) (rm_jti r) of
             Inl e \<Rightarrow> (failed e, db')
           | Inr (expiresAt, change) \<Rightarrow>
               ((json [(''ok'', JBool True), (''credentialIdHash'', JString h), (''created'', JBool (result = Created)),
                  (''expiresAt'', jnat expiresAt)] 200)\<lparr>rp_cookies := [change]\<rparr>, db')))"

text \<open>The checks of the PUT that need no state: the public key, the header and the attestation.\<close>

definition put_checks ::
  "owner_kit \<Rightarrow> string \<Rightarrow> (string \<times> js) list \<Rightarrow> reply + string \<times> owner_blob_header \<times> string option" where
  "put_checks W rpId ps =
     (case jget ps ''encryptedWalletBlob'' of
        JString blob \<Rightarrow>
          if blob = '''' then Inl (json_error ''encryptedWalletBlob is required'' ''invalid_wallet_blob'' 400)
          else
     (case jget ps ''publicKey'' of
        JString raw \<Rightarrow>
          if tryParseAddress (re_isAddress (ok_env W)) raw = None
          then Inl (json_error ''publicKey must be a valid Solana address'' ''invalid_public_key'' 400)
          else
     (case resolvePutWebauthnKey W ps rpId of
        Inl _ \<Rightarrow> Inl (json_error ''Invalid webauthnAttestationObject'' ''invalid_webauthn_key'' 400)
      | Inr attestation \<Rightarrow>
     (case obind (owner_base64UrlToBytes (ok_api W) blob MAX_OWNER_BLOB_BYTES) parseOwnerBlobHeader of
        Inl _ \<Rightarrow> Inl (json_error ''Invalid encrypted wallet blob or proof'' ''invalid_wallet_blob'' 400)
      | Inr hdr \<Rightarrow>
          if ok_addressDecode W (oh_publicKey hdr) \<noteq> Some (trim raw)
          then Inl (json_error ''publicKey does not match the wallet blob'' ''wallet_mismatch'' 400)
          else if attestation \<noteq> None \<and> \<not> timingSafeEqual (snd (the attestation)) (oh_credentialId hdr)
          then Inl (json_error ''WebAuthn credential does not match the wallet blob'' ''webauthn_credential_mismatch'' 400)
          else Inr (trim raw, hdr, map_option fst attestation)))
      | _ \<Rightarrow> Inl (json_error ''publicKey must be a valid Solana address'' ''invalid_public_key'' 400))
      | _ \<Rightarrow> Inl (json_error ''encryptedWalletBlob is required'' ''invalid_wallet_blob'' 400))"

definition put_backup ::
  "owner_kit \<Rightarrow> 's kv_api \<Rightarrow> request_meta \<Rightarrow> js option \<Rightarrow> 's owner_state \<Rightarrow> (thrown + reply) \<times> 's owner_state" where
  "put_backup W V r bdy st =
     (case requireAppOrigin W r of
        Inl refusal \<Rightarrow> (Inr refusal, st)
      | Inr origin \<Rightarrow>
     (case re_host (ok_env W) origin of
        None \<Rightarrow> (Inr origin_required, st)
      | Some hostname \<Rightarrow>
     (case bdy of
        Some (JObject ps) \<Rightarrow>
          (let challengeId = string_field ps ''challengeId''; signatureB64 = string_field ps ''signature'' in
           if challengeId = '''' \<or> signatureB64 = ''''
           then (Inr (json_error ''challengeId and signature are required'' ''proof_required'' 401), st)
           else
             (case put_checks W (resolveWebAuthnRpId hostname) ps of
                Inl refusal \<Rightarrow> (Inr refusal, st)
              | Inr (pk, hdr, key) \<Rightarrow>
                  (case verifyConsumedChallengeProof W V backup_challenge (rm_now r) challengeId signatureB64
                      (oh_publicKey hdr) (Some ''This backup request expired. Try again.'') (fst st) of
                     (Inl e, s1) \<Rightarrow> (Inl e, (s1, snd st))
                   | (Inr (Inl (message, code, status)), s1) \<Rightarrow> (Inr (json_error message code status), (s1, snd st))
                   | (Inr (Inr _), s1) \<Rightarrow>
                       (let (rep, db') = store_backup W r pk hdr key (snd st) in (Inr rep, (s1, db'))))))
      | _ \<Rightarrow> (Inr (json [(''error'', JString ''Invalid JSON body'')] 400), st))))"

subsection \<open>Keys without blanks around them\<close>

lemma trim_spaces: "list_all (\<lambda>c. c = CHR '' '') s \<Longrightarrow> trim s = ''''"
proof -
  assume "list_all (\<lambda>c. c = CHR '' '') s"
  then have "\<forall>c \<in> set s. is_space c" by (auto simp: list_all_iff is_space_def)
  then have "dropWhile is_space s = []" by simp
  then show ?thesis unfolding trim_def by (simp only: rev.simps dropWhile.simps)
qed

subsection \<open>The table\<close>

definition keyed :: "owner_row \<Rightarrow> bool" where
  "keyed rw \<longleftrightarrow> (\<exists>k. or_webauthn rw = Some k \<and> k \<noteq> '''' \<and> trim k = k)"

definition same_binding :: "owner_row \<Rightarrow> owner_row \<Rightarrow> bool" where
  "same_binding rw rw' \<longleftrightarrow> or_publicKey rw' = or_publicKey rw \<and> or_webauthn rw' = or_webauthn rw"

lemma mapRow_keyed: "keyed rw \<Longrightarrow> mapRow rw = Some rw"
  by (auto simp: keyed_def mapRow_def)

lemma drop_incomplete_keyed: "db h = Some rw \<Longrightarrow> keyed rw \<Longrightarrow> drop_incomplete h' db h = Some rw"
  using trim_spaces by (fastforce simp: drop_incomplete_def keyed_def split: option.splits)

fun put_outcome :: "put_params \<Rightarrow> nat \<Rightarrow> owner_table \<Rightarrow> owner_table \<Rightarrow> put_result option \<Rightarrow> bool" where
  "put_outcome p now db db' (Some Created) \<longleftrightarrow>
     db (pp_credentialIdHash p) = None \<and>
     (\<exists>k. k \<noteq> '''' \<and> trim k = k \<and> map_option trim (pp_webauthn p) = Some k \<and>
          db' (pp_credentialIdHash p) = Some (insert_row p k now))"
| "put_outcome p now db db' (Some Updated) \<longleftrightarrow>
     (\<exists>rw rw'. db (pp_credentialIdHash p) = Some rw \<and> db' (pp_credentialIdHash p) = Some rw' \<and>
        or_publicKey rw = pp_publicKey p \<and> same_binding rw rw' \<and> or_encryptedBlob rw' = pp_encryptedBlob p \<and>
        (or_blobVersion rw' = pp_blobVersion p \<or> or_blobVersion rw' = or_blobVersion rw))"
| "put_outcome p now db db' _ \<longleftrightarrow> db' = db"

lemma put_row:
  assumes "putOwnerWalletBlob p now db = (res, db')" "\<And>h rw. db h = Some rw \<Longrightarrow> keyed rw"
  shows "(\<forall>h. h \<noteq> pp_credentialIdHash p \<longrightarrow> db' h = db h) \<and> put_outcome p now db db' res"
proof (cases "db (pp_credentialIdHash p)")
  case (Some rw)
  with assms(2) have "getOwnerWalletBlob (pp_credentialIdHash p) db = Some rw"
    by (simp add: getOwnerWalletBlob_def mapRow_keyed)
  with assms(1) Some show ?thesis
    by (auto simp: putOwnerWalletBlob_def Let_def same_binding_def split: if_splits)
next
  case None
  then have "getOwnerWalletBlob (pp_credentialIdHash p) db = None" "drop_incomplete (pp_credentialIdHash p) db = db"
    by (simp_all add: getOwnerWalletBlob_def drop_incomplete_def)
  with assms(1) None show ?thesis
    by (auto simp: putOwnerWalletBlob_def Let_def split: option.splits if_splits)
qed

subsection \<open>What a PUT has checked\<close>

lemma put_checks_Inr:
  assumes "put_checks W rpId ps = Inr (pk, hdr, key)"
  obtains blob raw where "jget ps ''encryptedWalletBlob'' = JString blob" "base64UrlToBytes (ok_api W) blob = Some raw"
    "parseOwnerBlobHeader raw = Inr hdr" "ok_addressDecode W (oh_publicKey hdr) = Some pk" "oh_raw hdr = raw"
    "string_field ps ''publicKey'' = pk"
    "\<And>k. key = Some k \<Longrightarrow> \<exists>cose. k = bytesToBase64Url (ok_api W) cose"
proof -
  obtain blob where blob: "jget ps ''encryptedWalletBlob'' = JString blob" "blob \<noteq> ''''"
    using assms by (cases "jget ps ''encryptedWalletBlob''") (simp_all add: put_checks_def split: if_splits)
  obtain raw where raw: "jget ps ''publicKey'' = JString raw" "tryParseAddress (re_isAddress (ok_env W)) raw \<noteq> None"
    using assms blob by (cases "jget ps ''publicKey''") (simp_all add: put_checks_def split: if_splits)
  obtain att where att: "resolvePutWebauthnKey W ps rpId = Inr att"
    using assms blob raw by (cases "resolvePutWebauthnKey W ps rpId") (simp_all add: put_checks_def)
  obtain hd' where parsed: "obind (owner_base64UrlToBytes (ok_api W) blob MAX_OWNER_BLOB_BYTES) parseOwnerBlobHeader = Inr hd'"
    using assms blob raw att
    by (cases "obind (owner_base64UrlToBytes (ok_api W) blob MAX_OWNER_BLOB_BYTES) parseOwnerBlobHeader") (simp_all add: put_checks_def)
  from assms have addr: "ok_addressDecode W (oh_publicKey hdr) = Some pk" and hdr: "hd' = hdr" and key: "key = map_option fst att"
    and pk: "pk = trim raw"
    by (simp_all add: put_checks_def blob raw att parsed split: if_splits)
  from parsed hdr obtain b where b: "base64UrlToBytes (ok_api W) blob = Some b" "parseOwnerBlobHeader b = Inr hdr"
    by (auto simp: result_simps owner_base64UrlToBytes_def split: option.splits)
  from b(2) have "oh_raw hdr = b" by (auto simp: header_agrees_core)
  moreover have "\<exists>cose. k = bytesToBase64Url (ok_api W) cose" if "key = Some k" for k
    using att key that by (auto simp: resolvePutWebauthnKey_def Let_def split: if_splits option.splits)
  moreover have "string_field ps ''publicKey'' = pk" by (simp add: string_field_def raw(1) pk)
  ultimately show ?thesis using blob(1) b addr that by blast
qed

lemma possession_verdict_proven:
  "possession_verdict W expected sig64 pk build e = Inr (Inr u) \<longleftrightarrow>
     (\<exists>c ch sig m. expected = Some c \<and> base64UrlToBytes (ok_api W) c = Some ch \<and>
        base64UrlToBytes (ok_api W) sig64 = Some sig \<and> length sig = 64 \<and> length pk = 32 \<and>
        build ch = Inr m \<and> ok_ed25519_verify W sig m pk = Some True)"
  by (auto simp: possession_verdict_def result_simps split: option.splits)

text \<open>What has been established, of the fields of the body, when a PUT goes on to the table.\<close>

definition possession_proven ::
  "owner_kit \<Rightarrow> 's kv_api \<Rightarrow> nat \<Rightarrow> (string \<times> js) list \<Rightarrow> string \<Rightarrow> owner_blob_header \<Rightarrow> 's \<Rightarrow> 's \<Rightarrow> bool" where
  "possession_proven W V now ps pk hdr s s' \<longleftrightarrow>
     string_field ps ''publicKey'' = pk \<and> ok_addressDecode W (oh_publicKey hdr) = Some pk \<and>
     (\<exists>c ch sig. consume_challenge V backup_challenge now (string_field ps ''challengeId'') s = (Some c, s') \<and>
        base64UrlToBytes (ok_api W) c = Some ch \<and>
        base64UrlToBytes (ok_api W) (string_field ps ''signature'') = Some sig \<and> length sig = 64 \<and>
        ok_ed25519_verify W sig (utf8ToBytes PUT_CHALLENGE_PREFIX @ ch) (oh_publicKey hdr) = Some True)"

lemma put_backup_cases:
  assumes "put_backup W V r bdy (s, db) = (Inr rep, (s', db'))"
  obtains (refused) "db' = db" "rp_cookies rep = []" "rp_status rep \<noteq> 200"
  | (stored) ps blob pk hdr key where "bdy = Some (JObject ps)" "jget ps ''encryptedWalletBlob'' = JString blob"
      "base64UrlToBytes (ok_api W) blob = Some (oh_raw hdr)" "parseOwnerBlobHeader (oh_raw hdr) = Inr hdr"
      "possession_proven W V (rm_now r) ps pk hdr s s'" "store_backup W r pk hdr key db = (rep, db')"
proof -
  consider (origin) refusal where "requireAppOrigin W r = Inl refusal"
    | (host) origin where "requireAppOrigin W r = Inr origin" "re_host (ok_env W) origin = None"
    | (json) origin hostname where "requireAppOrigin W r = Inr origin" "re_host (ok_env W) origin = Some hostname"
        "\<nexists>ps. bdy = Some (JObject ps)"
    | (ok) origin hostname ps where "requireAppOrigin W r = Inr origin" "re_host (ok_env W) origin = Some hostname"
        "bdy = Some (JObject ps)"
    by (metis not_Some_eq old.sum.exhaust)
  then show ?thesis
  proof cases
    case origin
    then have "refusal = origin_required" by (auto simp: requireAppOrigin_def Let_def split: if_splits)
    with origin assms show ?thesis
      by (intro refused) (auto simp: put_backup_def origin_required_def json_error_def json_def)
  next
    case host
    with assms show ?thesis
      by (intro refused) (auto simp: put_backup_def origin_required_def json_error_def json_def)
  next
    case json
    then have "put_backup W V r bdy (s, db) = (Inr (ApiGate.json [(''error'', JString ''Invalid JSON body'')] 400), (s, db))"
      by (auto simp: put_backup_def split: option.splits js.splits)
    with assms show ?thesis by (intro refused) (auto simp: json_def)
  next
    case ok
    let ?cid = "string_field ps ''challengeId''" and ?sig = "string_field ps ''signature''"
    show ?thesis
    proof (cases "?cid = '''' \<or> ?sig = ''''")
      case True
      with ok assms show ?thesis by (intro refused) (auto simp: put_backup_def json_error_def json_def)
    next
      case False
      show ?thesis
      proof (cases "put_checks W (resolveWebAuthnRpId hostname) ps")
        case (Inl refusal)
        have "refusal = json_error m c st \<Longrightarrow> st \<noteq> 200 \<Longrightarrow> rp_cookies refusal = [] \<and> rp_status refusal \<noteq> 200" for m c st
          by (simp add: json_error_def json_def)
        moreover have "\<exists>m c. refusal = json_error m c 400"
          using Inl by (auto simp: put_checks_def split: js.splits if_splits sum.splits)
        ultimately have "rp_cookies refusal = [] \<and> rp_status refusal \<noteq> 200" by fastforce
        with ok False Inl assms show ?thesis by (intro refused) (auto simp: put_backup_def)
      next
        case (Inr checked)
        then obtain pk hdr key where checks: "put_checks W (resolveWebAuthnRpId hostname) ps = Inr (pk, hdr, key)"
          by (cases checked) auto
        obtain verdict s1 where v: "verifyConsumedChallengeProof W V backup_challenge (rm_now r) ?cid ?sig (oh_publicKey hdr)
            (Some ''This backup request expired. Try again.'') s = (verdict, s1)" by force
        have put: "put_backup W V r bdy (s, db) =
          (case verdict of
             Inl e \<Rightarrow> (Inl e, (s1, db))
           | Inr (Inl (message, code, status)) \<Rightarrow> (Inr (json_error message code status), (s1, db))
           | Inr (Inr _) \<Rightarrow> (let (rep, db') = store_backup W r pk hdr key db in (Inr rep, (s1, db'))))"
          using False by (simp add: put_backup_def ok checks v Let_def split: sum.split prod.split)
        show ?thesis
        proof (cases verdict)
          case (Inl e)
          with put assms show ?thesis by simp
        next
          case (Inr res)
          show ?thesis
          proof (cases res)
            case (Inl refusal)
            obtain message code status where ref: "refusal = (message, code, status)" by (cases refusal) auto
            from v Inr Inl ref have "status \<noteq> 200"
              by (auto simp: verifyConsumedChallengeProof_def possession_verdict_def obind_Inr_iff Let_def
                  split: prod.splits option.splits if_splits)
            with put Inr Inl ref assms show ?thesis by (intro refused) (auto simp: json_error_def json_def)
          next
            case (Inr u)
            with \<open>verdict = Inr res\<close> put assms have "store_backup W r pk hdr key db = (rep, db')" "s' = s1"
              by (auto split: prod.splits)
            moreover from v \<open>verdict = Inr res\<close> Inr \<open>s' = s1\<close> checks have "possession_proven W V (rm_now r) ps pk hdr s s'"
              by (auto simp: verifyConsumedChallengeProof_def possession_verdict_proven challengeMessage_backup
                  possession_proven_def Let_def elim!: put_checks_Inr split: prod.splits)
            moreover from checks obtain blob where "jget ps ''encryptedWalletBlob'' = JString blob"
                "base64UrlToBytes (ok_api W) blob = Some (oh_raw hdr)" "parseOwnerBlobHeader (oh_raw hdr) = Inr hdr"
              by (elim put_checks_Inr) auto
            ultimately show ?thesis using ok by (intro stored) auto
          qed
        qed
      qed
    qed
  qed
qed

subsection \<open>All histories of the table\<close>

text \<open>
  PUT requests one after the other, with any change of the key-value store between them (the challenge
  routes, expiry, other components); the other routes leave the table alone.
\<close>

inductive backup_reaches :: "owner_kit \<Rightarrow> 's kv_api \<Rightarrow> 's owner_state \<Rightarrow> bool" for W V where
  empty: "backup_reaches W V (s, Map.empty)"
| put: "backup_reaches W V st \<Longrightarrow> put_backup W V r bdy st = (res, st') \<Longrightarrow> backup_reaches W V st'"
| elsewhere: "backup_reaches W V (s, db) \<Longrightarrow> backup_reaches W V (s', db)"

text \<open>A stored backup is a wallet blob of its own owner, filed under its own passkey, with a passkey key.\<close>

definition backup_ok :: "owner_kit \<Rightarrow> string \<Rightarrow> owner_row \<Rightarrow> bool" where
  "backup_ok W h rw \<longleftrightarrow>
     keyed rw \<and> or_blobVersion rw = 1 \<and>
     (\<exists>raw p. or_encryptedBlob rw = bytesToBase64Url (ok_api W) raw \<and> decodeWalletBlob raw = Inr p \<and>
        ok_addressDecode W (publicKey p) = Some (or_publicKey rw) \<and> h = sha256Hex W (credentialId p))"

lemma put_backup_returns: "\<exists>rep. fst (put_backup W V r bdy st) = Inr rep"
proof -
  obtain s db where st: "st = (s, db)" by (cases st)
  have "verifyConsumedChallengeProof W V backup_challenge now cid sig pk e s \<noteq> (Inl x, y)" for now cid sig pk e x y
    by (cases "consume_challenge V backup_challenge now cid s")
      (simp add: verifyConsumedChallengeProof_def possession_verdict_def challengeMessage_backup split: option.split)
  then have "\<exists>rep. fst (put_backup W V r (Some (JObject ps)) (s, db)) = Inr rep" for ps
    by (auto simp: put_backup_def Let_def split: sum.split option.split prod.split)
  moreover have "\<exists>rep. fst (put_backup W V r bdy (s, db)) = Inr rep" if "\<nexists>ps. bdy = Some (JObject ps)"
    using that by (auto simp: put_backup_def split: sum.split option.split js.split)
  ultimately show ?thesis unfolding st by blast
qed

lemma store_backup_table:
  assumes "store_backup W r pk hdr key db = (rep, db')"
  obtains res where "putOwnerWalletBlob \<lparr>pp_credentialIdHash = sha256Hex W (oh_credentialId hdr), pp_publicKey = pk,
      pp_encryptedBlob = bytesToBase64Url (ok_api W) (oh_raw hdr), pp_blobVersion = unat (oh_version hdr),
      pp_webauthn = key\<rparr> (rm_now r) db = (res, db')"
    "rp_cookies rep \<noteq> [] \<Longrightarrow> (res = Some Created \<or> res = Some Updated) \<and> (\<exists>e change.
       issueOwnerSessionCookie (ok_api W) (re_secret (ok_env W)) (rq_url (rm_request r)) pk (rm_now r) (rm_jti r) = Inr (e, change) \<and>
       rp_cookies rep = [change])"
    "rp_status rep = 200 \<Longrightarrow> res = Some Created \<or> res = Some Updated"
  using assms
  by (auto simp: store_backup_def Let_def json_def json_error_def split: prod.splits option.splits put_result.splits sum.splits)

lemma store_backup_keeps:
  assumes "store_backup W r pk hdr key db = (rep, db')" "parseOwnerBlobHeader (oh_raw hdr) = Inr hdr"
    and "ok_addressDecode W (oh_publicKey hdr) = Some pk" and ok: "\<And>h rw. db h = Some rw \<Longrightarrow> backup_ok W h rw"
  shows "(\<forall>h rw. db' h = Some rw \<longrightarrow> backup_ok W h rw) \<and>
    (\<forall>h rw. db h = Some rw \<longrightarrow> (\<exists>rw'. db' h = Some rw' \<and> same_binding rw rw'))"
proof -
  let ?h = "sha256Hex W (oh_credentialId hdr)"
  let ?p = "\<lparr>pp_credentialIdHash = ?h, pp_publicKey = pk, pp_encryptedBlob = bytesToBase64Url (ok_api W) (oh_raw hdr),
    pp_blobVersion = unat (oh_version hdr), pp_webauthn = key\<rparr>"
  from assms(2) obtain p where p: "decodeWalletBlob (oh_raw hdr) = Inr p" "oh_publicKey hdr = publicKey p"
      "oh_credentialId hdr = credentialId p" "oh_version hdr = version p"
    by (metis header_agrees_core owner_blob_header.select_convs(1,2,3))
  from decodeWalletBlob_was_encoded [OF p(1)] p(4) have ver: "unat (oh_version hdr) = 1" by (simp add: BLOB_VERSION_def)
  have new: "backup_ok W ?h rw" if "keyed rw" "or_blobVersion rw = 1" "or_encryptedBlob rw = pp_encryptedBlob ?p" "or_publicKey rw = pk" for rw
    unfolding backup_ok_def using that p(1-3) assms(3) by auto
  have keyed: "keyed rw" if "db h = Some rw" for h rw using ok [OF that] by (simp add: backup_ok_def)
  from assms(1) obtain res where "putOwnerWalletBlob ?p (rm_now r) db = (res, db')" by (rule store_backup_table)
  from put_row [OF this keyed] have other: "\<And>h. h \<noteq> ?h \<Longrightarrow> db' h = db h"
    and row: "put_outcome ?p (rm_now r) db db' res"
    by simp_all
  show ?thesis
  proof (cases "res = Some Created \<or> res = Some Updated")
    case False
    with row have "db' = db" by (cases "(?p, rm_now r, db, db', res)" rule: put_outcome.cases) auto
    with ok show ?thesis by (auto simp: same_binding_def)
  next
    case True
    then show ?thesis
    proof
      assume "res = Some Created"
      with row obtain k where k: "db ?h = None" "k \<noteq> ''''" "trim k = k" "db' ?h = Some (insert_row ?p k (rm_now r))" by auto
      have "backup_ok W ?h (insert_row ?p k (rm_now r))"
        using k(2,3) by (intro new) (simp_all add: insert_row_def keyed_def ver)
      with k ok other show ?thesis by (metis option.distinct(1) option.inject same_binding_def)
    next
      assume "res = Some Updated"
      with row obtain rw rw' where u: "db ?h = Some rw" "db' ?h = Some rw'" "or_publicKey rw = pk" "same_binding rw rw'"
          "or_encryptedBlob rw' = pp_encryptedBlob ?p"
          "or_blobVersion rw' = unat (oh_version hdr) \<or> or_blobVersion rw' = or_blobVersion rw" by auto
      from ok [OF u(1)] have "keyed rw" "or_blobVersion rw = 1" by (simp_all add: backup_ok_def)
      with u have "backup_ok W ?h rw'" by (intro new) (auto simp: keyed_def ver same_binding_def)
      with u ok other show ?thesis by (metis option.inject same_binding_def)
    qed
  qed
qed

lemma put_backup_keeps:
  assumes "put_backup W V r bdy (s, db) = (res, (s', db'))" "\<And>h rw. db h = Some rw \<Longrightarrow> backup_ok W h rw"
  shows "(\<forall>h rw. db' h = Some rw \<longrightarrow> backup_ok W h rw) \<and>
    (\<forall>h rw. db h = Some rw \<longrightarrow> (\<exists>rw'. db' h = Some rw' \<and> same_binding rw rw'))"
proof -
  from put_backup_returns [of W V r bdy "(s, db)"] assms(1) obtain rep where
    "put_backup W V r bdy (s, db) = (Inr rep, (s', db'))" by auto
  then show ?thesis
  proof (cases rule: put_backup_cases)
    case refused
    with assms(2) show ?thesis by (auto simp: same_binding_def)
  next
    case (stored ps blob pk hdr key)
    from stored(5) have "ok_addressDecode W (oh_publicKey hdr) = Some pk" by (simp add: possession_proven_def)
    from store_backup_keeps [OF stored(6,4) this assms(2)] show ?thesis .
  qed
qed

lemma backups_ok: "backup_reaches W V st \<Longrightarrow> snd st h = Some rw \<Longrightarrow> backup_ok W h rw"
proof (induction arbitrary: h rw rule: backup_reaches.induct)
  case (put st r bdy res st')
  obtain s db s' db' where st: "st = (s, db)" "st' = (s', db')" by (cases st; cases st')
  with put.hyps(2) have "put_backup W V r bdy (s, db) = (res, (s', db'))" by simp
  from put_backup_keeps [OF this] put.IH put.prems st show ?case by fastforce
qed auto

text \<open>
  C14: Backups stay bound to their wallet and their passkey.  In every state the PUT requests can reach from
  an empty table, each row holds, in base64url, a byte string the signer's decoder accepts, whose public key
  is the address in the row and whose credential id hashes to the key of the row, and a passkey key; and
  no further request, whatever it sends, removes a row or changes its address or its passkey key.
\<close>
theorem stored_backups_stay_bound:
  assumes "backup_reaches W V (s, db)" and "db h = Some rw"
  shows "(\<exists>raw p k. or_encryptedBlob rw = bytesToBase64Url (ok_api W) raw \<and> decodeWalletBlob raw = Inr p \<and>
      ok_addressDecode W (publicKey p) = Some (or_publicKey rw) \<and> h = sha256Hex W (credentialId p) \<and>
      or_blobVersion rw = 1 \<and> or_webauthn rw = Some k \<and> trim k = k \<and> k \<noteq> '''') \<and>
    (\<forall>r bdy res s' db'. put_backup W V r bdy (s, db) = (res, (s', db')) \<longrightarrow>
      (\<exists>rw'. db' h = Some rw' \<and> or_publicKey rw' = or_publicKey rw \<and> or_webauthn rw' = or_webauthn rw))"
proof -
  have ok: "backup_ok W h rw" if "db h = Some rw" for h rw using backups_ok [OF assms(1)] that by simp
  have "\<exists>rw'. db' h = Some rw' \<and> or_publicKey rw' = or_publicKey rw \<and> or_webauthn rw' = or_webauthn rw"
    if "put_backup W V r bdy (s, db) = (res, (s', db'))" for r bdy res s' db'
    using put_backup_keeps [OF that ok] assms(2) by (auto simp: same_binding_def)
  moreover from ok [OF assms(2)] show ?thesis
    using calculation unfolding backup_ok_def keyed_def by metis
qed

subsection \<open>Nothing is stored or handed out without its proof\<close>

lemma put_other: "putOwnerWalletBlob p now db = (res, db') \<Longrightarrow> h \<noteq> pp_credentialIdHash p \<Longrightarrow> db' h = db h"
  by (auto simp: putOwnerWalletBlob_def drop_incomplete_def Let_def split: option.splits if_splits)

text \<open>
  C13: A backup is written, and a browser signed in, only by the holder of the wallet.  If a PUT request
  changes the table or sets a cookie, then the blob in its body decodes (as the signer decodes it) to a
  wallet whose address is the public key in its body; it has consumed the challenge of the backup kind that
  its body names; and the signature in its body is, under the public key inside that blob, an Ed25519
  signature of the domain prefix followed by the bytes of that challenge.  Only the row of that blob's
  passkey can change, and the only cookie is the owner session of that wallet's address.
\<close>
theorem put_needs_possession:
  assumes "put_backup W V r bdy (s, db) = (Inr rep, (s', db'))" and "db' \<noteq> db \<or> rp_cookies rep \<noteq> []"
  shows "\<exists>ps blob raw p c ch sig.
    bdy = Some (JObject ps) \<and> jget ps ''encryptedWalletBlob'' = JString blob \<and>
    base64UrlToBytes (ok_api W) blob = Some raw \<and> decodeWalletBlob raw = Inr p \<and>
    ok_addressDecode W (publicKey p) = Some (string_field ps ''publicKey'') \<and>
    consume_challenge V backup_challenge (rm_now r) (string_field ps ''challengeId'') s = (Some c, s') \<and>
    base64UrlToBytes (ok_api W) c = Some ch \<and>
    base64UrlToBytes (ok_api W) (string_field ps ''signature'') = Some sig \<and> length sig = 64 \<and>
    ok_ed25519_verify W sig (utf8ToBytes PUT_CHALLENGE_PREFIX @ ch) (publicKey p) = Some True \<and>
    (\<forall>h. h \<noteq> sha256Hex W (credentialId p) \<longrightarrow> db' h = db h) \<and>
    (rp_cookies rep = [] \<or>
     (\<exists>e change. issueOwnerSessionCookie (ok_api W) (re_secret (ok_env W)) (rq_url (rm_request r))
          (string_field ps ''publicKey'') (rm_now r) (rm_jti r) = Inr (e, change) \<and> rp_cookies rep = [change]))"
  using assms(1)
proof (cases rule: put_backup_cases)
  case refused
  with assms(2) show ?thesis by simp
next
  case (stored ps blob pk hdr key)
  from stored(4) obtain p where p: "decodeWalletBlob (oh_raw hdr) = Inr p" "oh_publicKey hdr = publicKey p"
      "oh_credentialId hdr = credentialId p"
    by (metis header_agrees_core owner_blob_header.select_convs(2,3))
  from stored(5) obtain c ch sig where proven: "string_field ps ''publicKey'' = pk" "ok_addressDecode W (oh_publicKey hdr) = Some pk"
      "consume_challenge V backup_challenge (rm_now r) (string_field ps ''challengeId'') s = (Some c, s')"
      "base64UrlToBytes (ok_api W) c = Some ch" "base64UrlToBytes (ok_api W) (string_field ps ''signature'') = Some sig"
      "length sig = 64" "ok_ed25519_verify W sig (utf8ToBytes PUT_CHALLENGE_PREFIX @ ch) (oh_publicKey hdr) = Some True"
    by (auto simp: possession_proven_def)
  from stored(6) obtain res where res: "putOwnerWalletBlob \<lparr>pp_credentialIdHash = sha256Hex W (oh_credentialId hdr), pp_publicKey = pk,
      pp_encryptedBlob = bytesToBase64Url (ok_api W) (oh_raw hdr), pp_blobVersion = unat (oh_version hdr),
      pp_webauthn = key\<rparr> (rm_now r) db = (res, db')"
    and cookies: "rp_cookies rep \<noteq> [] \<Longrightarrow> (\<exists>e change.
       issueOwnerSessionCookie (ok_api W) (re_secret (ok_env W)) (rq_url (rm_request r)) pk (rm_now r) (rm_jti r) = Inr (e, change) \<and>
       rp_cookies rep = [change])" by (elim store_backup_table) blast
  have other: "\<forall>h. h \<noteq> sha256Hex W (credentialId p) \<longrightarrow> db' h = db h" using put_other [OF res] p(3) by simp
  show ?thesis
    by (rule exI [of _ ps], rule exI [of _ blob], rule exI [of _ "oh_raw hdr"], rule exI [of _ p], rule exI [of _ c],
        rule exI [of _ ch], rule exI [of _ sig]) (use stored(1-3) p proven other cookies in auto)
qed

lemma verified_assertion:
  "verifyOwnerWalletAssertion W assertion c origin key = Inr u \<longleftrightarrow>
     origin \<noteq> '''' \<and> isAppBrowserOrigin (re_host (ok_env W)) origin \<and>
     (\<exists>hostname. re_host (ok_env W) origin = Some hostname \<and>
        ok_verifyAssertion W assertion c origin (resolveWebAuthnRpId hostname) key = Some True)"
  by (auto simp: verifyOwnerWalletAssertion_def split: option.splits)

lemma error_body [simp]:
  "jget (rp_body (json_error m c st)) ''encryptedWalletBlob'' = JUndefined"
  "jget (rp_body (json [(''error'', x)] st)) ''encryptedWalletBlob'' = JUndefined"
  "rp_body (audited e rep) = rp_body rep" "rp_status (audited e rep) = rp_status rep"
  "rp_cookies (audited e rep) = rp_cookies rep"
  by (simp_all add: json_error_def json_def jget_def audited_def)

lemma restore_row_gives:
  assumes "jget (rp_body (restore_row W r origin assertion c h db)) ''encryptedWalletBlob'' \<noteq> JUndefined"
  shows "\<exists>rw key. getOwnerWalletBlob h db = Some rw \<and> base64UrlToBytes (ok_api W) (the (or_webauthn rw)) = Some key \<and>
    verifyOwnerWalletAssertion W assertion c origin key = Inr () \<and>
    jget (rp_body (restore_row W r origin assertion c h db)) ''encryptedWalletBlob'' = JString (or_encryptedBlob rw)"
proof -
  obtain rw where rw: "getOwnerWalletBlob h db = Some rw"
    using assms by (cases "getOwnerWalletBlob h db") (simp_all add: restore_row_def)
  obtain key where key: "owner_base64UrlToBytes (ok_api W) (the (or_webauthn rw)) 1024 = Inr key"
    using assms rw by (cases "owner_base64UrlToBytes (ok_api W) (the (or_webauthn rw)) 1024")
      (auto simp: restore_row_def split: owner_blob_error.splits)
  obtain u where v: "verifyOwnerWalletAssertion W assertion c origin key = Inr u"
    using assms rw key by (cases "verifyOwnerWalletAssertion W assertion c origin key")
      (auto simp: restore_row_def split: prod.splits)
  from key have "base64UrlToBytes (ok_api W) (the (or_webauthn rw)) = Some key"
    by (auto simp: owner_base64UrlToBytes_def result_simps split: option.splits)
  moreover have "jget (rp_body (restore_row W r origin assertion c h db)) ''encryptedWalletBlob'' = JString (or_encryptedBlob rw)"
    by (simp add: restore_row_def rw key v json_def jget_def)
  ultimately show ?thesis using rw v by auto
qed

lemma post_restore_cases:
  assumes "post_restore W V r bdy (s, db) = (rep, (s', db'))"
  obtains (refused) "db' = db" "jget (rp_body rep) ''encryptedWalletBlob'' = JUndefined"
  | (looked_up) ps origin cid c rawId text64 where "requireAppOrigin W r = Inr origin" "bdy = Some (JObject ps)"
      "isAuthenticationResponseJSON (jget ps ''assertion'')"
      "consume_challenge V restore_challenge (rm_now r) cid s = (Some c, s')"
      "js_member (jget ps ''assertion'') ''rawId'' = Some (JString text64)" "base64UrlToBytes (ok_api W) text64 = Some rawId"
      "rep = restore_row W r origin (jget ps ''assertion'') c (sha256Hex W rawId) db" "db' = db"
proof (cases "\<exists>origin ps. requireAppOrigin W r = Inr origin \<and> bdy = Some (JObject ps)")
  case False
  have "db' = db \<and> jget (rp_body rep) ''encryptedWalletBlob'' = JUndefined"
  proof (cases "requireAppOrigin W r")
    case (Inl refusal)
    then have "refusal = origin_required" by (auto simp: requireAppOrigin_def Let_def split: if_splits)
    with Inl assms show ?thesis by (auto simp: post_restore_def origin_required_def)
  next
    case (Inr origin)
    with False assms show ?thesis by (auto simp: post_restore_def split: option.splits js.splits)
  qed
  then show ?thesis using refused by blast
next
  case True
  then obtain origin ps where o: "requireAppOrigin W r = Inr origin" "bdy = Some (JObject ps)" by blast
  let ?a = "jget ps ''assertion''" and ?cid = "string_field ps ''challengeId''"
  show ?thesis
  proof (cases "?cid = '''' \<or> \<not> isAuthenticationResponseJSON ?a")
    case True
    with o assms show ?thesis by (intro refused) (auto simp: post_restore_def Let_def split: if_splits)
  next
    case False
    obtain got s1 where got: "consume_challenge V restore_challenge (rm_now r) ?cid s = (got, s1)" by force
    show ?thesis
    proof (cases got)
      case None
      with o False got assms show ?thesis by (intro refused) (auto simp: post_restore_def Let_def)
    next
      case (Some c)
      from False obtain text64 where t: "js_member ?a ''rawId'' = Some (JString text64)"
        by (auto simp: isAuthenticationResponseJSON_def js_member_def split: js.splits)
      show ?thesis
      proof (cases "owner_base64UrlToBytes (ok_api W) text64 OWNER_MAX_CREDENTIAL_ID_BYTES")
        case (Inl e)
        with o False got Some t assms show ?thesis by (intro refused) (auto simp: post_restore_def Let_def)
      next
        case (Inr rawId)
        then have "base64UrlToBytes (ok_api W) text64 = Some rawId"
          by (auto simp: owner_base64UrlToBytes_def result_simps split: option.splits)
        with o False got Some t Inr assms show ?thesis by (intro looked_up) (auto simp: post_restore_def Let_def)
      qed
    qed
  qed
qed

text \<open>
  C12: The ciphertext of a wallet leaves the service only for its passkey.  A restore whose reply carries a
  blob has consumed a challenge of the restore kind, has looked up the row under the hash of the assertion's
  credential id, and WebAuthn verification has accepted the assertion for that challenge, for an origin of
  the application and its RP ID, under the key stored with the row; the blob is the row's, and the table is
  unchanged.
\<close>
theorem restore_needs_passkey:
  assumes "post_restore W V r bdy (s, db) = (rep, (s', db'))"
    and "jget (rp_body rep) ''encryptedWalletBlob'' = JString blob"
  shows "\<exists>ps cid c rawId text64 rw key origin hostname.
    bdy = Some (JObject ps) \<and> consume_challenge V restore_challenge (rm_now r) cid s = (Some c, s') \<and>
    js_member (jget ps ''assertion'') ''rawId'' = Some (JString text64) \<and> base64UrlToBytes (ok_api W) text64 = Some rawId \<and>
    getOwnerWalletBlob (sha256Hex W rawId) db = Some rw \<and> or_encryptedBlob rw = blob \<and>
    base64UrlToBytes (ok_api W) (the (or_webauthn rw)) = Some key \<and>
    isAppBrowserOrigin (re_host (ok_env W)) origin \<and> re_host (ok_env W) origin = Some hostname \<and>
    ok_verifyAssertion W (jget ps ''assertion'') c origin (resolveWebAuthnRpId hostname) key = Some True \<and> db' = db"
  using assms(1)
proof (cases rule: post_restore_cases)
  case refused
  with assms(2) show ?thesis by simp
next
  case (looked_up ps origin cid c rawId text64)
  with assms(2) have "jget (rp_body (restore_row W r origin (jget ps ''assertion'') c (sha256Hex W rawId) db)) ''encryptedWalletBlob'' \<noteq> JUndefined"
    by simp
  from restore_row_gives [OF this] looked_up assms(2) show ?thesis
    by (auto simp: verified_assertion) blast
qed

subsection \<open>A backup that was accepted is given back\<close>

lemma put_accepted:
  assumes "put_backup W V r bdy (s, db) = (Inr rep, (s', db'))" "rp_status rep = 200" "backup_reaches W V (s, db)"
  shows "\<exists>ps blob raw p rw. bdy = Some (JObject ps) \<and> jget ps ''encryptedWalletBlob'' = JString blob \<and>
    base64UrlToBytes (ok_api W) blob = Some raw \<and> decodeWalletBlob raw = Inr p \<and>
    db' (sha256Hex W (credentialId p)) = Some rw \<and> or_encryptedBlob rw = bytesToBase64Url (ok_api W) raw \<and>
    ok_addressDecode W (publicKey p) = Some (or_publicKey rw) \<and> keyed rw"
  using assms(1)
proof (cases rule: put_backup_cases)
  case refused
  with assms(2) show ?thesis by simp
next
  case (stored ps blob pk hdr key)
  from stored(4) obtain p where p: "decodeWalletBlob (oh_raw hdr) = Inr p" "oh_publicKey hdr = publicKey p"
      "oh_credentialId hdr = credentialId p"
    by (metis header_agrees_core owner_blob_header.select_convs(2,3))
  let ?p = "\<lparr>pp_credentialIdHash = sha256Hex W (oh_credentialId hdr), pp_publicKey = pk,
      pp_encryptedBlob = bytesToBase64Url (ok_api W) (oh_raw hdr), pp_blobVersion = unat (oh_version hdr), pp_webauthn = key\<rparr>"
  from stored(6) obtain res where res: "putOwnerWalletBlob ?p (rm_now r) db = (res, db')"
    and ok: "res = Some Created \<or> res = Some Updated" using assms(2) by (elim store_backup_table) blast
  have rows: "keyed rw" if "db h = Some rw" for h rw
    using backups_ok [OF assms(3)] that by (simp add: backup_ok_def)
  from put_row [OF res] rows have "put_outcome ?p (rm_now r) db db' res" by blast
  with ok obtain rw where rw: "db' (sha256Hex W (oh_credentialId hdr)) = Some rw"
      "or_encryptedBlob rw = bytesToBase64Url (ok_api W) (oh_raw hdr)" "or_publicKey rw = pk" "keyed rw"
  proof (elim disjE)
    assume "res = Some Updated" "put_outcome ?p (rm_now r) db db' res"
    then show ?thesis using rows that by (auto simp: same_binding_def keyed_def)
  next
    assume "res = Some Created" "put_outcome ?p (rm_now r) db db' res"
    then show ?thesis using that by (auto simp: insert_row_def keyed_def)
  qed
  from stored(5) have "ok_addressDecode W (oh_publicKey hdr) = Some pk" by (simp add: possession_proven_def)
  with stored(1-3) p rw show ?thesis by metis
qed

lemma owner_base64_Inr:
  "api_kit_ok K \<Longrightarrow> bs \<noteq> [] \<Longrightarrow> length bs \<le> n \<Longrightarrow> owner_base64UrlToBytes K (bytesToBase64 bs Url) n = Inr bs"
  using bytesToBase64_nonempty [of bs Url] by (simp add: owner_base64UrlToBytes_def base64UrlToBytes_inverse err_if_def)

text \<open>
  C15: A backup can be restored exactly if its passkey key is at most 1024 bytes long.  After a PUT that was
  answered with success, a restore by the passkey of the same wallet (its challenge is live, its assertion
  names the credential id in the blob and verifies under the stored key) gives back, in base64url, the very
  bytes that were sent, under the wallet's address, if the key the PUT has stored is at most 1024 bytes
  long.  The PUT takes keys of any length; for a longer one every such restore fails with status 502 and
  gives nothing out.
\<close>
theorem backup_then_restore:
  assumes "api_kit_ok (ok_api W)" and "backup_reaches W V (s, db)"
    and "put_backup W V r (Some (JObject ps)) (s, db) = (Inr rep, (s1, db1))" and "rp_status rep = 200"
    and "jget ps ''encryptedWalletBlob'' = JString blob" and "base64UrlToBytes (ok_api W) blob = Some raw"
    and "decodeWalletBlob raw = Inr p" and "db1 (sha256Hex W (credentialId p)) = Some rw"
    and "base64UrlToBytes (ok_api W) (the (or_webauthn rw)) = Some key"
    and "requireAppOrigin W r' = Inr origin"
    and "string_field ps' ''challengeId'' = cid" and "cid \<noteq> ''''" and "isAuthenticationResponseJSON (jget ps' ''assertion'')"
    and "consume_challenge V restore_challenge (rm_now r') cid t = (Some c, t')"
    and "js_member (jget ps' ''assertion'') ''rawId'' = Some (JString (bytesToBase64 (credentialId p) Url))"
    and "verifyOwnerWalletAssertion W (jget ps' ''assertion'') c origin key = Inr ()"
  shows "let rep2 = fst (post_restore W V r' (Some (JObject ps')) (t, db1)) in
    if length key \<le> 1024 then
      rp_status rep2 = 200 \<and>
      jget (rp_body rep2) ''encryptedWalletBlob'' = JString (bytesToBase64 raw Url) \<and>
      base64UrlToBytes (ok_api W) (bytesToBase64 raw Url) = Some raw \<and>
      (\<exists>pk. ok_addressDecode W (publicKey p) = Some pk \<and> jget (rp_body rep2) ''publicKey'' = JString pk)
    else rp_status rep2 = 502 \<and> jget (rp_body rep2) ''encryptedWalletBlob'' = JUndefined"
proof -
  from put_accepted [OF assms(3,4,2)] assms(5-8) have rw: "or_encryptedBlob rw = bytesToBase64Url (ok_api W) raw"
      "ok_addressDecode W (publicKey p) = Some (or_publicKey rw)" "keyed rw" by auto
  from decodeWalletBlob_was_encoded [OF assms(7)] have "credentialId p \<noteq> []" "length (credentialId p) \<le> 256"
    by (auto simp: encodeWalletBlob_Inr)
  from owner_base64_Inr [OF assms(1) this(1), of 256] this(2)
  have rawId: "owner_base64UrlToBytes (ok_api W) (bytesToBase64 (credentialId p) Url) OWNER_MAX_CREDENTIAL_ID_BYTES = Inr (credentialId p)"
    by (simp add: OWNER_MAX_CREDENTIAL_ID_BYTES_def)
  have get: "getOwnerWalletBlob (sha256Hex W (credentialId p)) db1 = Some rw"
    using assms(8) rw(3) by (simp add: getOwnerWalletBlob_def mapRow_keyed)
  have run: "fst (post_restore W V r' (Some (JObject ps')) (t, db1)) =
      restore_row W r' origin (jget ps' ''assertion'') c (sha256Hex W (credentialId p)) db1"
    using assms(10-15) rawId by (simp add: post_restore_def)
  show ?thesis
  proof (cases "length key \<le> 1024")
    case True
    have "owner_base64UrlToBytes (ok_api W) (the (or_webauthn rw)) 1024 = Inr key"
      using rw(3) assms(9) True by (auto simp: owner_base64UrlToBytes_def keyed_def err_if_def)
    with True run show ?thesis
      using assms(1) rw get assms(16)
      by (simp add: restore_row_def json_def jget_def bytesToBase64Url_eq base64UrlToBytes_inverse)
  next
    case False
    obtain e where "owner_base64UrlToBytes (ok_api W) (the (or_webauthn rw)) 1024 = Inl e"
      using rw(3) assms(9) False by (auto simp: owner_base64UrlToBytes_def keyed_def err_if_def)
    with False run show ?thesis
      using get by (cases e) (simp add: restore_row_def json_def jget_def)
  qed
qed

subsection \<open>A backup and its restore\<close>

declare bytesToBase64.simps [simp del]

lemma trim_base64 [simp]: "trim (bytesToBase64 bs Url) = bytesToBase64 bs Url"
proof (cases "bytesToBase64 bs Url = ''''")
  case False
  have "\<not> is_space c" if "c \<in> set (bytesToBase64 bs Url)" for c
    using that set_enc_core [of Url bs]
    by (auto simp: bytesToBase64_core b64_padding_def alphabet_of_def B64_URL_def is_space_def)
  with False show ?thesis by (intro trim_id) (metis hd_in_set last_in_set)
qed (simp add: trim_def)

definition sample_key_kit :: "bytes \<Rightarrow> owner_kit" where
  "sample_key_kit k =
     \<lparr>ok_env = sample_route_env\<lparr>re_host := \<lambda>_. Some ''localhost''\<rparr>,
      ok_addressDecode = \<lambda>_. Some ''Addr'',
      ok_ed25519_verify = \<lambda>sig m pk. Some True,
      ok_sha256 = \<lambda>_. [1],
      ok_attestation = \<lambda>_. Some \<lparr>at_publicKey = Some k, at_credentialID = Some [1, 2, 3], at_rpIdHash = [1], at_up = True, at_at = True\<rparr>,
      ok_verifyAssertion = \<lambda>a c origin rp key. Some True,
      ok_insert_failure = ''constraint''\<rparr>"

definition sample_owner_kit :: owner_kit where
  "sample_owner_kit = sample_key_kit [9]"

definition sample_blob_fields :: parsed_wallet_blob where
  "sample_blob_fields =
     \<lparr>publicKey = replicate 32 7, credentialId = [1, 2, 3], kdfSalt = replicate 32 9, iv = replicate 12 0,
      ciphertext = replicate 48 5, version = 1\<rparr>"

definition sample_raw :: bytes where
  "sample_raw = (case encodeWalletBlob sample_blob_fields of Inr b \<Rightarrow> b | Inl _ \<Rightarrow> [])"

lemma sample_raw_decodes: "decodeWalletBlob sample_raw = Inr sample_blob_fields" "sample_raw \<noteq> []" "length sample_raw \<le> 1024"
proof -
  obtain b where b: "encodeWalletBlob sample_blob_fields = Inr b"
    by (auto simp: encodeWalletBlob_Inr sample_blob_fields_def writeU16_Inr)
  then have "sample_raw = b" by (simp add: sample_raw_def)
  moreover from b have "decodeWalletBlob b = Inr sample_blob_fields"
    by (rule decodeWalletBlob_encoded) (simp add: sample_blob_fields_def BLOB_VERSION_def)
  moreover from encodeWalletBlob_length [OF b] have "length b = 136" by (simp add: sample_blob_fields_def)
  ultimately show "decodeWalletBlob sample_raw = Inr sample_blob_fields" "sample_raw \<noteq> []" "length sample_raw \<le> 1024" by auto
qed

definition sample_put_fields :: "(string \<times> js) list" where
  "sample_put_fields =
     [(''challengeId'', JString ''cid''), (''signature'', JString (bytesToBase64 (replicate 64 0) Url)),
      (''encryptedWalletBlob'', JString (bytesToBase64 sample_raw Url)), (''publicKey'', JString ''Addr''),
      (''webauthnAttestationObject'', JString ''att'')]"

definition sample_restore_fields :: "(string \<times> js) list" where
  "sample_restore_fields =
     [(''challengeId'', JString ''rid''),
      (''assertion'', JObject [(''id'', JString ''AQID''), (''rawId'', JString (bytesToBase64 [1, 2, 3] Url)),
        (''type'', JString ''public-key''),
        (''response'', JObject [(''clientDataJSON'', JString ''''), (''authenticatorData'', JString ''''), (''signature'', JString '''')])])]"

definition sample_owner_meta :: request_meta where
  "sample_owner_meta = sample_meta\<lparr>rm_meta := \<lparr>mt_requestId = None, mt_origin = Some ''http://localhost''\<rparr>\<rparr>"

definition sample_challenges :: sample_kv where
  "sample_challenges =
     [''owner-wallet:backup:challenge:cid'' \<mapsto> (bytesToBase64 [4, 5, 6] Url, 5000),
      ''owner-wallet:restore:challenge:rid'' \<mapsto> (''AAAA'', 5000)]"

lemma sample_texts:
  "trim ''cid'' = ''cid''" "trim ''rid'' = ''rid''" "trim ''Addr'' = ''Addr''" "trim ''att'' = ''att''"
  "trim ''http://localhost'' = ''http://localhost''" "to_lower ''localhost'' = ''localhost''" "trim ''s3cret'' = ''s3cret''"
  by code_simp+

lemma sample_fits:
  "ok_api (sample_key_kit k) = sample_api_kit" "re_secret (ok_env (sample_key_kit k)) = Some ''s3cret''"
  "re_isAddress (ok_env (sample_key_kit k)) = (\<lambda>_. True)" "re_host (ok_env (sample_key_kit k)) = (\<lambda>_. Some ''localhost'')"
  "ok_addressDecode (sample_key_kit k) = (\<lambda>_. Some ''Addr'')" "ok_ed25519_verify (sample_key_kit k) = (\<lambda>_ _ _. Some True)"
  "ok_verifyAssertion (sample_key_kit k) = (\<lambda>_ _ _ _ _. Some True)"
  by (simp_all add: sample_key_kit_def sample_route_env_def fun_eq_iff)

lemma sample_gets:
  "jget sample_put_fields ''encryptedWalletBlob'' = JString (bytesToBase64 sample_raw Url)"
  "jget sample_put_fields ''publicKey'' = JString ''Addr''"
  by (simp_all add: sample_put_fields_def jget_def)

lemma sample_checks:
  "put_checks (sample_key_kit k) ''localhost'' sample_put_fields =
     Inr (''Addr'', \<lparr>oh_version = 1, oh_publicKey = replicate 32 7, oh_credentialId = [1, 2, 3], oh_raw = sample_raw\<rparr>,
       Some (bytesToBase64 k Url))"
proof -
  have parsed: "obind (owner_base64UrlToBytes sample_api_kit (bytesToBase64 sample_raw Url) MAX_OWNER_BLOB_BYTES) parseOwnerBlobHeader =
      Inr \<lparr>oh_version = 1, oh_publicKey = replicate 32 7, oh_credentialId = [1, 2, 3], oh_raw = sample_raw\<rparr>"
    using sample_raw_decodes sample_api_kit_ok owner_base64_Inr [of sample_api_kit sample_raw 1024]
    by (simp add: MAX_OWNER_BLOB_BYTES_def header_agrees_core sample_blob_fields_def)
  have att: "resolvePutWebauthnKey (sample_key_kit k) sample_put_fields ''localhost'' = Inr (Some (bytesToBase64 k Url, [1, 2, 3]))"
    using bytesToBase64Url_eq [OF sample_api_kit_ok]
    by (simp add: resolvePutWebauthnKey_def sample_put_fields_def jget_def sample_texts
        extractCredentialFromAttestationObject_def sample_key_kit_def sample_route_env_def)
  show ?thesis
    using bytesToBase64_nonempty [OF sample_raw_decodes(2), of Url]
    by (simp add: put_checks_def sample_gets att sample_fits parsed tryParseAddress_def sample_texts)
qed

lemma sample_put_key:
  assumes "k \<noteq> []"
  shows "\<exists>rep s1 db1. put_backup (sample_key_kit k) sample_kv_api sample_owner_meta (Some (JObject sample_put_fields)) (sample_challenges, Map.empty) =
     (Inr rep, (s1, db1)) \<and> rp_status rep = 200 \<and> rp_cookies rep \<noteq> [] \<and>
     db1 (sha256Hex (sample_key_kit k) [1, 2, 3]) =
       Some \<lparr>or_publicKey = ''Addr'', or_encryptedBlob = bytesToBase64 sample_raw Url, or_blobVersion = 1, or_updatedAt = 1000,
         or_webauthn = Some (bytesToBase64 k Url)\<rparr>"
proof -
  let ?W = "sample_key_kit k" and ?r = sample_owner_meta
  let ?hdr = "\<lparr>oh_version = 1, oh_publicKey = replicate 32 7, oh_credentialId = [1, 2, 3], oh_raw = sample_raw\<rparr>"
  have origin: "requireAppOrigin ?W ?r = Inr ''http://localhost''"
    by (simp add: requireAppOrigin_def sample_owner_meta_def sample_texts isAppBrowserOrigin_def sample_fits APP_BROWSER_HOSTS_def)
  have rp: "resolveWebAuthnRpId ''localhost'' = ''localhost''" by (simp add: resolveWebAuthnRpId_def)
  have inputs: "string_field sample_put_fields ''challengeId'' = ''cid''"
      "string_field sample_put_fields ''signature'' = bytesToBase64 (replicate 64 0) Url"
    by (simp_all add: string_field_def sample_put_fields_def jget_def sample_texts)
  have sig: "bytesToBase64 (replicate 64 0) Url \<noteq> ''''" by (rule bytesToBase64_nonempty) simp
  obtain s1 where proven: "verifyConsumedChallengeProof ?W sample_kv_api backup_challenge 1000 ''cid'' (bytesToBase64 (replicate 64 0) Url)
      (replicate 32 7) (Some ''This backup request expired. Try again.'') sample_challenges = (Inr (Inr ()), s1)"
    using bytesToBase64_nonempty [of "[4, 5, 6]" Url]
    by (simp add: verifyConsumedChallengeProof_def consume_challenge_def consume_get_def consume_delete_def sample_kv_api_def
        sample_challenges_def backup_challenge_def challengeKey_def possession_verdict_def sample_fits
        base64UrlToBytes_inverse [OF sample_api_kit_ok] challengeMessage_backup [unfolded backup_challenge_def])
  obtain e tok where cookie: "issue_session sample_api_kit (Some ''s3cret'') OWNER_SESSION_COOKIE OWNER_SESSION_TTL_MS None ''Addr'' 1000 ''j1'' =
      Inr (e, set_session OWNER_SESSION_COOKIE None tok e 1000)"
    using issue_always [of "Some ''s3cret''" "''s3cret''" sample_api_kit OWNER_SESSION_COOKIE OWNER_SESSION_TTL_MS None "''Addr''" 1000 "''j1''"]
    by (auto simp: requireSessionSecret_def sample_texts)
  have now: "rm_now ?r = 1000" "rm_jti ?r = ''j1''" "rq_url (rm_request ?r) = None"
    by (simp_all add: sample_owner_meta_def sample_meta_def sample_api_request_def)
  show ?thesis
    using bytesToBase64_nonempty [OF assms, of Url] sig
    by (simp add: put_backup_def origin sample_fits rp inputs sample_checks now proven store_backup_def putOwnerWalletBlob_def
        getOwnerWalletBlob_def drop_incomplete_def insert_row_def Let_def issueOwnerSessionCookie_def cookie json_def
        bytesToBase64Url_eq [OF sample_api_kit_ok])
qed

lemma sample_put:
  "\<exists>rep s1 db1. put_backup sample_owner_kit sample_kv_api sample_owner_meta (Some (JObject sample_put_fields)) (sample_challenges, Map.empty) =
     (Inr rep, (s1, db1)) \<and> rp_status rep = 200 \<and> rp_cookies rep \<noteq> [] \<and>
     db1 (sha256Hex sample_owner_kit [1, 2, 3]) =
       Some \<lparr>or_publicKey = ''Addr'', or_encryptedBlob = bytesToBase64 sample_raw Url, or_blobVersion = 1, or_updatedAt = 1000,
         or_webauthn = Some (bytesToBase64 [9] Url)\<rparr>"
  using sample_put_key [of "[9]"] by (simp add: sample_owner_kit_def)

theorem stored_backups_stay_bound_witness:
  "\<exists>s1 db1 rw raw. backup_reaches sample_owner_kit sample_kv_api (s1, db1) \<and>
     db1 (sha256Hex sample_owner_kit [1, 2, 3]) = Some rw \<and> or_publicKey rw = ''Addr'' \<and>
     or_encryptedBlob rw = bytesToBase64Url (ok_api sample_owner_kit) raw"
proof -
  from sample_put obtain rep s1 db1 where put: "put_backup sample_owner_kit sample_kv_api sample_owner_meta
      (Some (JObject sample_put_fields)) (sample_challenges, Map.empty) = (Inr rep, (s1, db1))"
    and rw: "db1 (sha256Hex sample_owner_kit [1, 2, 3]) = Some \<lparr>or_publicKey = ''Addr'',
      or_encryptedBlob = bytesToBase64 sample_raw Url, or_blobVersion = 1, or_updatedAt = 1000, or_webauthn = Some (bytesToBase64 [9] Url)\<rparr>"
    by blast
  have reach: "backup_reaches sample_owner_kit sample_kv_api (s1, db1)" by (rule backup_reaches.put [OF backup_reaches.empty put])
  from stored_backups_stay_bound [OF this rw] obtain raw where
    "bytesToBase64 sample_raw Url = bytesToBase64Url (ok_api sample_owner_kit) raw" by auto
  with reach rw show ?thesis by (metis owner_row.select_convs(1,2))
qed

theorem put_needs_possession_witness:
  "\<exists>c s1 ch sig. consume_challenge sample_kv_api backup_challenge 1000 ''cid'' sample_challenges = (Some c, s1) \<and>
     base64UrlToBytes sample_api_kit (bytesToBase64 (replicate 64 0) Url) = Some sig \<and>
     ok_ed25519_verify sample_owner_kit sig (utf8ToBytes PUT_CHALLENGE_PREFIX @ ch) (publicKey sample_blob_fields) = Some True"
proof -
  from sample_put obtain rep s1 db1 where put: "put_backup sample_owner_kit sample_kv_api sample_owner_meta
      (Some (JObject sample_put_fields)) (sample_challenges, Map.empty) = (Inr rep, (s1, db1))"
    and cookies: "rp_cookies rep \<noteq> []" by blast
  have now: "rm_now sample_owner_meta = 1000" by (simp add: sample_owner_meta_def sample_meta_def)
  have api: "ok_api sample_owner_kit = sample_api_kit" by (simp add: sample_owner_kit_def sample_fits)
  have inputs: "string_field sample_put_fields ''challengeId'' = ''cid''"
      "string_field sample_put_fields ''signature'' = bytesToBase64 (replicate 64 0) Url"
    by (simp_all add: string_field_def sample_put_fields_def jget_def sample_texts)
  from put_needs_possession [OF put disjI2 [OF cookies]] obtain ps blob raw p c ch sig where
    w: "Some (JObject sample_put_fields) = Some (JObject ps)" "jget ps ''encryptedWalletBlob'' = JString blob"
      "base64UrlToBytes sample_api_kit blob = Some raw" "decodeWalletBlob raw = Inr p"
      "consume_challenge sample_kv_api backup_challenge 1000 (string_field ps ''challengeId'') sample_challenges = (Some c, s1)"
      "base64UrlToBytes sample_api_kit (string_field ps ''signature'') = Some sig"
      "ok_ed25519_verify sample_owner_kit sig (utf8ToBytes PUT_CHALLENGE_PREFIX @ ch) (publicKey p) = Some True"
    unfolding now api by (elim exE conjE) (rule that; assumption)
  from w(1) have ps: "ps = sample_put_fields" by simp
  then have "blob = bytesToBase64 sample_raw Url" using w(2) by (simp add: sample_gets)
  then have "raw = sample_raw" using w(3) by (simp add: base64UrlToBytes_inverse [OF sample_api_kit_ok])
  with w(4) have "p = sample_blob_fields" by (simp add: sample_raw_decodes)
  with w(5-7) show ?thesis unfolding ps inputs by blast
qed

lemma sample_restore_facts:
  "requireAppOrigin sample_owner_kit sample_owner_meta = Inr ''http://localhost''"
  "string_field sample_restore_fields ''challengeId'' = ''rid''"
  "isAuthenticationResponseJSON (jget sample_restore_fields ''assertion'')"
  "consume_challenge sample_kv_api restore_challenge 1000 ''rid'' sample_challenges =
     (Some ''AAAA'', sample_challenges(''owner-wallet:restore:challenge:rid'' := None))"
  "js_member (jget sample_restore_fields ''assertion'') ''rawId'' = Some (JString (bytesToBase64 [1, 2, 3] Url))"
  "verifyOwnerWalletAssertion sample_owner_kit v c ''http://localhost'' key = Inr ()"
  "base64UrlToBytes sample_api_kit (bytesToBase64 [9] Url) = Some [9]"
  by (simp_all add: requireAppOrigin_def sample_owner_meta_def sample_texts isAppBrowserOrigin_def sample_fits [of "[9]", folded sample_owner_kit_def] APP_BROWSER_HOSTS_def
      string_field_def sample_restore_fields_def jget_def isAuthenticationResponseJSON_def js_member_def consume_challenge_def
      consume_get_def consume_delete_def sample_kv_api_def restore_challenge_def challengeKey_def sample_challenges_def
      verified_assertion base64UrlToBytes_inverse [OF sample_api_kit_ok])

text \<open>The restore of the sample wallet, from the table its backup left.\<close>

lemma sample_restore:
  assumes "db1 (sha256Hex sample_owner_kit [1, 2, 3]) = Some \<lparr>or_publicKey = ''Addr'',
      or_encryptedBlob = bytesToBase64 sample_raw Url, or_blobVersion = 1, or_updatedAt = 1000, or_webauthn = Some (bytesToBase64 [9] Url)\<rparr>"
  shows "\<exists>rep2 s2. post_restore sample_owner_kit sample_kv_api sample_owner_meta (Some (JObject sample_restore_fields))
      (sample_challenges, db1) = (rep2, (s2, db1)) \<and>
    jget (rp_body rep2) ''encryptedWalletBlob'' = JString (bytesToBase64 sample_raw Url)"
proof -
  have now: "rm_now sample_owner_meta = 1000" by (simp add: sample_owner_meta_def sample_meta_def)
  have id: "owner_base64UrlToBytes sample_api_kit (bytesToBase64 [1, 2, 3] Url) OWNER_MAX_CREDENTIAL_ID_BYTES = Inr [1, 2, 3]"
    by (rule owner_base64_Inr [OF sample_api_kit_ok]) (simp_all add: OWNER_MAX_CREDENTIAL_ID_BYTES_def)
  have key: "owner_base64UrlToBytes sample_api_kit (bytesToBase64 [9] Url) 1024 = Inr [9]"
    by (rule owner_base64_Inr [OF sample_api_kit_ok]) simp_all
  have "getOwnerWalletBlob (sha256Hex sample_owner_kit [1, 2, 3]) db1 = Some \<lparr>or_publicKey = ''Addr'',
      or_encryptedBlob = bytesToBase64 sample_raw Url, or_blobVersion = 1, or_updatedAt = 1000, or_webauthn = Some (bytesToBase64 [9] Url)\<rparr>"
    using assms bytesToBase64_nonempty [of "[9]" Url] by (simp add: getOwnerWalletBlob_def mapRow_def)
  then show ?thesis
    by (simp add: post_restore_def sample_restore_facts now sample_fits [of "[9]", folded sample_owner_kit_def] id restore_row_def key) (simp add: json_def jget_def)
qed

theorem restore_needs_passkey_witness:
  "\<exists>db1 rw key. getOwnerWalletBlob (sha256Hex sample_owner_kit [1, 2, 3]) db1 = Some rw \<and>
     or_encryptedBlob rw = bytesToBase64 sample_raw Url \<and>
     base64UrlToBytes (ok_api sample_owner_kit) (the (or_webauthn rw)) = Some key"
proof -
  from sample_put obtain db1 where "db1 (sha256Hex sample_owner_kit [1, 2, 3]) = Some \<lparr>or_publicKey = ''Addr'',
      or_encryptedBlob = bytesToBase64 sample_raw Url, or_blobVersion = 1, or_updatedAt = 1000, or_webauthn = Some (bytesToBase64 [9] Url)\<rparr>"
    by blast
  from sample_restore [of db1, OF this] obtain rep2 s2 where
    "post_restore sample_owner_kit sample_kv_api sample_owner_meta (Some (JObject sample_restore_fields)) (sample_challenges, db1) = (rep2, (s2, db1))"
    "jget (rp_body rep2) ''encryptedWalletBlob'' = JString (bytesToBase64 sample_raw Url)" by blast
  from restore_needs_passkey [OF this] show ?thesis
    by (auto simp: sample_fits [of "[9]", folded sample_owner_kit_def] sample_restore_facts base64UrlToBytes_inverse [OF sample_api_kit_ok])
qed

theorem backup_then_restore_witness:
  "\<exists>db1 rep2. jget (rp_body rep2) ''encryptedWalletBlob'' = JString (bytesToBase64 sample_raw Url) \<and> rp_status rep2 = 200 \<and>
     rep2 = fst (post_restore sample_owner_kit sample_kv_api sample_owner_meta (Some (JObject sample_restore_fields)) (sample_challenges, db1))"
proof -
  from sample_put obtain rep s1 db1 where put: "put_backup sample_owner_kit sample_kv_api sample_owner_meta
      (Some (JObject sample_put_fields)) (sample_challenges, Map.empty) = (Inr rep, (s1, db1))" "rp_status rep = 200"
    and rw: "db1 (sha256Hex sample_owner_kit [1, 2, 3]) = Some \<lparr>or_publicKey = ''Addr'',
      or_encryptedBlob = bytesToBase64 sample_raw Url, or_blobVersion = 1, or_updatedAt = 1000, or_webauthn = Some (bytesToBase64 [9] Url)\<rparr>"
    by blast
  have now: "rm_now sample_owner_meta = 1000" by (simp add: sample_owner_meta_def sample_meta_def)
  have facts: "ok_api sample_owner_kit = sample_api_kit" "credentialId sample_blob_fields = [1, 2, 3]"
      "jget sample_put_fields ''encryptedWalletBlob'' = JString (bytesToBase64 sample_raw Url)"
    by (simp_all add: sample_fits [of "[9]", folded sample_owner_kit_def] sample_blob_fields_def sample_put_fields_def jget_def)
  have "let rep2 = fst (post_restore sample_owner_kit sample_kv_api sample_owner_meta (Some (JObject sample_restore_fields)) (sample_challenges, db1)) in
      if length [9 :: byte] \<le> 1024 then
        rp_status rep2 = 200 \<and> jget (rp_body rep2) ''encryptedWalletBlob'' = JString (bytesToBase64 sample_raw Url) \<and>
        base64UrlToBytes (ok_api sample_owner_kit) (bytesToBase64 sample_raw Url) = Some sample_raw \<and>
        (\<exists>pk. ok_addressDecode sample_owner_kit (publicKey sample_blob_fields) = Some pk \<and> jget (rp_body rep2) ''publicKey'' = JString pk)
      else rp_status rep2 = 502 \<and> jget (rp_body rep2) ''encryptedWalletBlob'' = JUndefined"
    by (rule backup_then_restore [where rw = "\<lparr>or_publicKey = ''Addr'', or_encryptedBlob = bytesToBase64 sample_raw Url, or_blobVersion = 1, or_updatedAt = 1000,
          or_webauthn = Some (bytesToBase64 [9] Url)\<rparr>" and origin = "''http://localhost''" and key = "[9]" and cid = "''rid''" and c = "''AAAA''",
          OF _ backup_reaches.empty put facts(3) _ sample_raw_decodes(1)])
      (simp_all add: rw now sample_fits [of "[9]", folded sample_owner_kit_def] sample_api_kit_ok facts sample_restore_facts base64UrlToBytes_inverse [OF sample_api_kit_ok])
  then have "rp_status (fst (post_restore sample_owner_kit sample_kv_api sample_owner_meta (Some (JObject sample_restore_fields)) (sample_challenges, db1))) = 200 \<and>
      jget (rp_body (fst (post_restore sample_owner_kit sample_kv_api sample_owner_meta (Some (JObject sample_restore_fields)) (sample_challenges, db1))))
        ''encryptedWalletBlob'' = JString (bytesToBase64 sample_raw Url)"
    by (simp add: Let_def)
  then show ?thesis by blast
qed

text \<open>A passkey key of 1025 bytes: the backup is taken, and its restore fails although the passkey verifies.\<close>

theorem large_key_is_never_restored:
  assumes "k = replicate 1025 9"
  shows "\<exists>rep s1 db1 rep2. put_backup (sample_key_kit k) sample_kv_api sample_owner_meta
      (Some (JObject sample_put_fields)) (sample_challenges, Map.empty) = (Inr rep, (s1, db1)) \<and> rp_status rep = 200 \<and>
    rep2 = fst (post_restore (sample_key_kit k) sample_kv_api sample_owner_meta (Some (JObject sample_restore_fields)) (sample_challenges, db1)) \<and>
    rp_status rep2 = 502"
proof -
  let ?rw = "\<lparr>or_publicKey = ''Addr'', or_encryptedBlob = bytesToBase64 sample_raw Url, or_blobVersion = 1, or_updatedAt = 1000,
    or_webauthn = Some (bytesToBase64 k Url)\<rparr>"
  have "k \<noteq> []" by (simp add: assms)
  note ne = bytesToBase64_nonempty [OF this, of Url]
  from sample_put_key [OF \<open>k \<noteq> []\<close>] obtain rep s1 db1 where put: "put_backup (sample_key_kit k) sample_kv_api sample_owner_meta
      (Some (JObject sample_put_fields)) (sample_challenges, Map.empty) = (Inr rep, (s1, db1))" "rp_status rep = 200"
    and rw: "db1 (sha256Hex (sample_key_kit k) [1, 2, 3]) = Some ?rw" by blast
  have now: "rm_now sample_owner_meta = 1000" by (simp add: sample_owner_meta_def sample_meta_def)
  have len: "length k = 1025" by (simp add: assms)
  have id: "owner_base64UrlToBytes sample_api_kit (bytesToBase64 [1, 2, 3] Url) OWNER_MAX_CREDENTIAL_ID_BYTES = Inr [1, 2, 3]"
    by (rule owner_base64_Inr [OF sample_api_kit_ok]) (simp_all add: OWNER_MAX_CREDENTIAL_ID_BYTES_def)
  have get: "getOwnerWalletBlob (sha256Hex (sample_key_kit k) [1, 2, 3]) db1 = Some ?rw"
    using rw ne by (simp add: getOwnerWalletBlob_def mapRow_def)
  obtain m where big: "owner_base64UrlToBytes sample_api_kit (bytesToBase64 k Url) 1024 = Inl (OwnerBlobParseError m)"
    using ne len by (auto simp: owner_base64UrlToBytes_def base64UrlToBytes_inverse [OF sample_api_kit_ok] err_if_def)
  have "requireAppOrigin (sample_key_kit k) sample_owner_meta = Inr ''http://localhost''"
    by (simp add: requireAppOrigin_def sample_owner_meta_def sample_texts isAppBrowserOrigin_def sample_fits APP_BROWSER_HOSTS_def)
  then have "rp_status (fst (post_restore (sample_key_kit k) sample_kv_api sample_owner_meta
      (Some (JObject sample_restore_fields)) (sample_challenges, db1))) = 502"
    by (simp add: post_restore_def sample_restore_facts(2-5) now sample_fits id restore_row_def get big) (simp add: json_def)
  with put show ?thesis by blast
qed

end
