(* ===== verification/AppEdge.thy ===== *)
theory AppEdge
  imports AppRoutes OwnerRoutes
begin

text \<open>
  The edge of the application: \<^verbatim>\<open>app/src/lib/auth/session-cookies.ts\<close>, its own check of the admit cookies,
  \<^verbatim>\<open>lib/wallet/tap-unlock-middleware.ts\<close>, the cold start at \<^verbatim>\<open>/token\<close>, and \<^verbatim>\<open>middleware.ts\<close>, which decides
  for every page of an accessory.  A request is its path name, its query parameters and its cookies; all
  clock readings of a request are one.  The call of the API worker is a parameter.  The lemmas show that
  for every browser that got its cookies from the routes of the API worker the decision about a page and the
  API worker's decision about a request for the same accessory agree.
\<close>

subsection \<open>The cookies\<close>

text \<open>The checks on the parts of a payload, and the parser, as the application has them.\<close>

definition edge_parts :: "api_kit \<Rightarrow> nat \<Rightarrow> string \<Rightarrow> session_payload option" where
  "edge_parts K now payload =
     (let parts = split_on CHR ''|'' payload; n = length parts in
      if n < 3 then None
      else
        let jti = parts ! (n - 1); e = ak_number K (parts ! (n - 2)); head = join ''|'' (take (n - 2) parts) in
        if head = '''' \<or> jti = '''' \<or> e = None \<or> the e \<le> of_nat now then None
        else Some \<lparr>sp_head = head, sp_exp = the e, sp_jti = jti\<rparr>)"

definition parseSignedPayload :: "api_kit \<Rightarrow> string option \<Rightarrow> string \<Rightarrow> nat \<Rightarrow> session_payload option" where
  "parseSignedPayload K token secret now =
     (if or_else token '''' = '''' \<or> secret = '''' then None
      else
        (case split_on CHR ''.'' (the token) of
           payloadB64 # macB64 # _ \<Rightarrow>
             if payloadB64 = '''' \<or> macB64 = '''' then None
             else
               (case base64UrlToBytes K payloadB64 of
                  None \<Rightarrow> None
                | Some payloadBytes \<Rightarrow>
                    let payload = ak_textDecode K payloadBytes; expectedMac = hmacSha256 K secret payload in
                    (case base64UrlToBytes K macB64 of
                       None \<Rightarrow> None
                     | Some actualMac \<Rightarrow>
                         if \<not> timingSafeEqual expectedMac actualMac then None else edge_parts K now payload))
         | _ \<Rightarrow> None))"

definition verifyBrowseUnlockCookie :: "api_kit \<Rightarrow> string option \<Rightarrow> string \<Rightarrow> nat \<Rightarrow> session_payload option" where
  "verifyBrowseUnlockCookie K token secret now = parseSignedPayload K token secret now"

definition verifyOwnerSessionCookie :: "api_kit \<Rightarrow> string option \<Rightarrow> string \<Rightarrow> nat \<Rightarrow> session_payload option" where
  "verifyOwnerSessionCookie K token secret now = parseSignedPayload K token secret now"

definition canAccessPhygitalToken ::
  "api_kit \<Rightarrow> string \<Rightarrow> string option \<Rightarrow> string option \<Rightarrow> string \<Rightarrow> nat \<Rightarrow> bool" where
  "canAccessPhygitalToken K phygitalToken browseUnlockCookie ownerBrowseCookie secret now =
     (let browse = verifyBrowseUnlockCookie K browseUnlockCookie secret now in
      if map_option sp_head browse = Some phygitalToken then True
      else map_option sp_head (verifyBrowseUnlockCookie K ownerBrowseCookie secret now) = Some phygitalToken)"

subsection \<open>The cold start\<close>

type_synonym search_params = "string \<Rightarrow> string option"

record tap_query =
  tq_pk :: string
  tq_s :: string
  tq_c :: string
  tq_n :: string

definition readTapParams :: "search_params \<Rightarrow> tap_query option" where
  "readTapParams params =
     (let get = (\<lambda>k. trim (or_else (params k) ''''));
          q = \<lparr>tq_pk = get ''pk'', tq_s = get ''s'', tq_c = get ''c'', tq_n = get ''n''\<rparr> in
      if tq_pk q = '''' \<or> tq_s q = '''' \<or> tq_c q = '''' \<or> tq_n q = '''' then None else Some q)"

text \<open>The response of the API worker: \<open>None\<close> for a body that is not JSON, which counts as \<open>{}\<close>.\<close>

record api_response =
  pr_ok :: bool
  pr_body :: "js option"
  pr_setCookies :: "string list"

text \<open>The answer of the middleware; a redirect carries the headers it sets and the flag of a failed tap.\<close>

datatype edge_answer = PassOn | RedirectTo string "string list" bool

definition tapErrorRedirect :: edge_answer where
  "tapErrorRedirect = RedirectTo ''/token'' [] True"

text \<open>The address in the body; \<open>Inl\<close> when reading it throws.\<close>

definition body_pda :: "(string \<Rightarrow> bool) \<Rightarrow> js \<Rightarrow> thrown + string option" where
  "body_pda isAddress bdy =
     (case js_member bdy ''phygitalToken'' of
        None \<Rightarrow> Inl NotAnError
      | Some (JString t) \<Rightarrow> Inr (if t = '''' then None else tryParseAddress isAddress t)
      | Some v \<Rightarrow> if falsy v then Inr None else Inl NotAnError)"

definition tap_answer :: "(string \<Rightarrow> bool) \<Rightarrow> api_response option \<Rightarrow> edge_answer" where
  "tap_answer isAddress res =
     (case res of
        None \<Rightarrow> tapErrorRedirect
      | Some r \<Rightarrow>
          (let bdy = or_else (pr_body r) (JObject []) in
           case body_pda isAddress bdy of
             Inr (Some pda) \<Rightarrow>
               if \<not> pr_ok r \<or> falsy (or_else (js_member bdy ''isVerified'') JUndefined) then tapErrorRedirect
               else RedirectTo (walletHref pda []) (pr_setCookies r) False
           | _ \<Rightarrow> tapErrorRedirect))"

definition handleTokenColdStart ::
  "(string \<Rightarrow> bool) \<Rightarrow> (tap_query \<Rightarrow> api_response option) \<Rightarrow> string \<Rightarrow> search_params \<Rightarrow> edge_answer option" where
  "handleTokenColdStart isAddress unlock pathname params =
     (if pathname \<noteq> ''/token'' then None
      else
        (case readTapParams params of
           Some tap \<Rightarrow> Some (tap_answer isAddress (unlock tap))
         | None \<Rightarrow>
             (let addressRaw = trim (or_else (params ''address'') '''') in
              if addressRaw = '''' then None
              else map_option (\<lambda>a. RedirectTo (walletHref a []) [] False) (tryParseAddress isAddress addressRaw))))"

subsection \<open>The middleware\<close>

text \<open>The match of the path: the segment after \<open>/token/\<close> and what follows the next slash.\<close>

definition page_match :: "string \<Rightarrow> (string \<times> string) option" where
  "page_match pathname =
     (if \<not> starts_with ''/token/'' pathname then None
      else
        (let r = drop 7 pathname; seg = takeWhile (\<lambda>c. c \<noteq> CHR ''/'') r; after = drop (length seg) r in
         if seg = '''' then None
         else if list_ex (\<lambda>c. c = CHR 0x0A \<or> c = CHR 0x0D) (tl after) then None
         else Some (seg, tl after)))"

definition drop_slash :: "string \<Rightarrow> string" where
  "drop_slash s = (if ends_with ''/'' s then butlast s else s)"

record edge_env =
  ee_api :: api_kit
  ee_secret :: "string option"
  ee_isAddress :: "string \<Rightarrow> bool"
  ee_unlock :: "tap_query \<Rightarrow> api_response option"

definition page_answer :: "edge_env \<Rightarrow> nat \<Rightarrow> jar \<Rightarrow> string \<Rightarrow> string \<Rightarrow> edge_answer" where
  "page_answer A now cookies phygitalToken rest =
     (let secret = trim (or_else (ee_secret A) '''');
          unlocked = (secret \<noteq> '''' \<and> canAccessPhygitalToken (ee_api A) phygitalToken (cookies BROWSE_UNLOCK_COOKIE)
            (cookies OWNER_BROWSE_COOKIE) secret now) in
      if rest = ''unlock'' then if unlocked then RedirectTo (walletHref phygitalToken []) [] False else PassOn
      else if unlocked then PassOn
      else if secret \<noteq> '''' \<and> verifyOwnerSessionCookie (ee_api A) (cookies OWNER_SESSION_COOKIE) secret now \<noteq> None
      then RedirectTo ''/'' [] False
      else RedirectTo (tokenUnlockHref phygitalToken) [] False)"

definition middleware ::
  "edge_env \<Rightarrow> nat \<Rightarrow> string \<Rightarrow> search_params \<Rightarrow> jar \<Rightarrow> thrown + edge_answer" where
  "middleware A now pathname params cookies =
     (case handleTokenColdStart (ee_isAddress A) (ee_unlock A) pathname params of
        Some answer \<Rightarrow> Inr answer
      | None \<Rightarrow>
          (case page_match pathname of
             None \<Rightarrow> Inr PassOn
           | Some (seg, rest) \<Rightarrow>
               (case decodeURIComponent seg of
                  None \<Rightarrow> Inl (Uncoded ''URI malformed'')
                | Some phygitalToken \<Rightarrow> Inr (page_answer A now cookies phygitalToken (drop_slash rest)))))"

subsection \<open>The same tokens as the API worker\<close>

lemma edge_parts_same: "edge_parts K now payload = payload_parts K now payload"
  by (auto simp: edge_parts_def payload_parts_def Let_def split: option.splits)

lemma parse_same:
  "parseSignedPayload K token (trim (or_else secret '''')) now = parseSignedSessionToken K secret now token"
proof (cases token)
  case None
  then show ?thesis by (simp add: parseSignedPayload_def parseSignedSessionToken_def)
next
  case (Some t)
  show ?thesis
  proof (cases "t = '''' \<or> trim (or_else secret '''') = ''''")
    case True
    then show ?thesis
      by (auto simp: Some parseSignedPayload_def parseSignedSessionToken_def requireSessionSecret_def Let_def
          split: list.splits option.splits)
  next
    case False
    then have "requireSessionSecret secret = Inr (trim (or_else secret ''''))" by (simp add: requireSessionSecret_def)
    with False show ?thesis
      by (auto simp: Some parseSignedPayload_def parseSignedSessionToken_def Let_def edge_parts_same
          split: list.splits option.splits)
  qed
qed

lemma parse_empty_secret: "trim (or_else secret '''') = '''' \<Longrightarrow> parseSignedSessionToken K secret now token = None"
  using parse_same [of K token secret now] by (simp add: parseSignedPayload_def)

lemma page_unlocked:
  assumes "rest \<noteq> ''unlock''"
  shows "page_answer A now cookies t rest = PassOn \<longleftrightarrow>
    map_option sp_head (readBrowseUnlock (ee_api A) (ee_secret A) cookies now) = Some t \<or>
    map_option sp_head (readOwnerBrowse (ee_api A) (ee_secret A) cookies now) = Some t"
  using assms parse_empty_secret [of "ee_secret A"]
  by (auto simp: page_answer_def canAccessPhygitalToken_def verifyBrowseUnlockCookie_def parse_same Let_def
      readBrowseUnlock_def readOwnerBrowse_def read_session_def)

subsection \<open>Browsers that got their cookies from the API worker\<close>

text \<open>
  The cookies a browser can hold: those the replies of the admitting routes, of a sign-out and of a backup
  have left, to requests with whatever cookies, less those that have expired.
\<close>

inductive browser_jar :: "route_env \<Rightarrow> owner_kit \<Rightarrow> 's kv_api \<Rightarrow> jar \<Rightarrow> bool" for E W V where
  no_cookie: "browser_jar E W V Map.empty"
| admitted: "browser_jar E W V j \<Longrightarrow> admit E V r route bdy st = (Inr rep, st') \<Longrightarrow>
    browser_jar E W V (fold apply_change (rp_cookies rep) j)"
| signed_out: "browser_jar E W V j \<Longrightarrow> browser_jar E W V (fold apply_change (rp_cookies (delete_owner_session r)) j)"
| backed_up: "browser_jar E W V j \<Longrightarrow> put_backup W V r bdy (s, db) = (Inr rep, (s', db')) \<Longrightarrow>
    browser_jar E W V (fold apply_change (rp_cookies rep) j)"
| expired: "browser_jar E W V j \<Longrightarrow> browser_jar E W V (j(n := None))"

definition one_admit :: "jar \<Rightarrow> bool" where
  "one_admit j \<longleftrightarrow> j BROWSE_UNLOCK_COOKIE = None \<or> j OWNER_BROWSE_COOKIE = None"

lemma cookie_names [simp]:
  "BROWSE_UNLOCK_COOKIE \<noteq> OWNER_BROWSE_COOKIE" "OWNER_BROWSE_COOKIE \<noteq> BROWSE_UNLOCK_COOKIE"
  "OWNER_SESSION_COOKIE \<noteq> OWNER_BROWSE_COOKIE" "OWNER_SESSION_COOKIE \<noteq> BROWSE_UNLOCK_COOKIE"
  "OWNER_BROWSE_COOKIE \<noteq> OWNER_SESSION_COOKIE" "BROWSE_UNLOCK_COOKIE \<noteq> OWNER_SESSION_COOKIE"
  by (simp_all add: BROWSE_UNLOCK_COOKIE_def OWNER_BROWSE_COOKIE_def OWNER_SESSION_COOKIE_def)

lemma issue_change:
  assumes "issue_session K secret name ttl url hd' now jti = Inr (e, change)"
  obtains tok m a where "change = SetCookie name tok m a"
  using assms by (auto simp: set_session_def elim!: issue_session_Inr)

lemma unlock_changes:
  assumes "issueBrowseUnlockCookie K secret url token now jti = Inr (e, cs)"
  shows "one_admit (fold apply_change cs j)"
proof -
  from assms obtain change where "issue_session K secret BROWSE_UNLOCK_COOKIE BROWSE_SESSION_TTL_MS url token now jti = Inr (e, change)"
    and cs: "cs = [clear_session OWNER_BROWSE_COOKIE url, change]"
    by (auto simp: issueBrowseUnlockCookie_def result_simps)
  then obtain tok m a where "change = SetCookie BROWSE_UNLOCK_COOKIE tok m a" by (elim issue_change)
  then show ?thesis by (simp add: cs clear_session_def one_admit_def)
qed

lemma owner_changes:
  assumes "post_owner_browse E r bdy = Inr rep"
  shows "rp_cookies rep = [] \<or> one_admit (fold apply_change (rp_cookies rep) j)"
proof -
  consider "rp_cookies rep = []" | session raw where "owner_browse_for E r session raw = Inr rep"
    using assms by (auto simp: post_owner_browse_def split: option.splits js.splits if_splits)
  then show ?thesis
  proof cases
    case (2 session raw)
    let ?clear = "clear_session BROWSE_UNLOCK_COOKIE (rq_url (rm_request r))"
    from 2 consider "rp_cookies rep = [?clear]" | "rp_cookies rep = []"
      | e change where "issueOwnerBrowseCookie (re_api E) (re_secret E) (rq_url (rm_request r)) raw (rm_now r) (rm_jti r) = Inr (e, change)"
          "rp_cookies rep = [?clear, change]"
      by (auto simp: owner_browse_for_def authority_check_def owner_admitted_def result_simps Let_def
          split: if_splits sum.splits option.splits)
    then show ?thesis
    proof cases
      case (3 e change)
      then obtain tok m a where "change = SetCookie OWNER_BROWSE_COOKIE tok m a"
        unfolding issueOwnerBrowseCookie_def by (elim issue_change)
      with 3 show ?thesis by (simp add: clear_session_def one_admit_def)
    qed (simp_all add: clear_session_def one_admit_def)
  qed simp
qed

lemma admit_changes:
  assumes "admit E V r route bdy st = (Inr rep, st')"
  shows "rp_cookies rep = [] \<or> one_admit (fold apply_change (rp_cookies rep) j)"
proof (cases "rp_cookies rep")
  case (Cons c cs)
  obtain s db where st: "st = (s, db)" by (cases st)
  have "\<exists>e K secret url token now jti. issueBrowseUnlockCookie K secret url token now jti = Inr (e, rp_cookies rep)"
    if "route \<noteq> ByOwner"
  proof (cases route)
    case ByTap
    with assms st obtain db' where "unlock_tap E r bdy db = (Inr rep, db')" by (auto simp: admit_def split: prod.splits)
    from unlock_tap_core [OF this, of c] Cons obtain token e where
      "issueBrowseUnlockCookie (re_api E) (re_secret E) (rq_url (rm_request r)) token (rm_now r) (rm_jti r) = Inr (e, rp_cookies rep)"
      by auto
    then show ?thesis by blast
  next
    case ByPasskey
    with assms st obtain s' where "unlock_webauthn E V r bdy s = (Inr rep, s')" by (auto simp: admit_def split: prod.splits)
    from unlock_webauthn_core [OF this, of c] Cons obtain token e where
      "issueBrowseUnlockCookie (re_api E) (re_secret E) (rq_url (rm_request r)) token (rm_now r) (rm_jti r) = Inr (e, rp_cookies rep)"
      by auto
    then show ?thesis by blast
  qed (use that in simp)
  then show ?thesis
    using owner_changes [of E r bdy rep j] assms st unlock_changes by (cases route) (fastforce simp: admit_def)+
qed simp

lemma backup_changes:
  assumes "put_backup W V r bdy (s, db) = (Inr rep, (s', db'))" and "one_admit j"
  shows "one_admit (fold apply_change (rp_cookies rep) j)"
  using assms(1)
proof (cases rule: put_backup_cases)
  case (stored ps blob pk hdr key)
  show ?thesis
  proof (cases "rp_cookies rep = []")
    case False
    with stored(6) obtain e change where "rp_cookies rep = [change]"
      "issueOwnerSessionCookie (ok_api W) (re_secret (ok_env W)) (rq_url (rm_request r)) pk (rm_now r) (rm_jti r) = Inr (e, change)"
      by (elim store_backup_table) blast
    moreover from this(2) obtain tok m a where "change = SetCookie OWNER_SESSION_COOKIE tok m a"
      unfolding issueOwnerSessionCookie_def by (elim issue_change)
    ultimately show ?thesis using assms(2) by (simp add: one_admit_def)
  qed (simp add: assms(2))
qed (simp add: assms(2))

lemma browser_one_admit: "browser_jar E W V j \<Longrightarrow> one_admit j"
proof (induction rule: browser_jar.induct)
  case (admitted j r route bdy st rep st')
  then show ?case using admit_changes [of E V r route bdy st rep st' j] by auto
next
  case (signed_out j r)
  then show ?case by (simp add: delete_owner_session_def clear_session_def one_admit_def Let_def)
next
  case (backed_up j r bdy s db rep s' db')
  then show ?case by (intro backup_changes)
qed (auto simp: one_admit_def)

text \<open>
  C30: The application shows a page exactly when the API worker would serve it.  For a browser whose cookies
  come from the API worker's replies, in whatever order and whenever they expired, the middleware lets a page
  of an accessory pass exactly when the gate of the API worker lets pass a request of the same browser, at the
  same time, that names the accessory; so no page is shown whose data is refused, and none is refused whose
  data would be given.
\<close>
theorem pages_agree_with_api_gate:
  assumes jar: "browser_jar E W V jar"
    and path: "page_match pathname = Some (seg, rest)" "decodeURIComponent seg = Some token" "drop_slash rest \<noteq> ''unlock''"
    and token: "trim token = token" "token \<noteq> ''''"
    and r: "rq_cookies r = jar" "rq_queryToken r = Some token" "rq_method r \<noteq> ''OPTIONS''"
      "\<not> isPublicApiPath (rq_method r) (rq_path r)"
  shows "middleware A now pathname params jar = Inr PassOn \<longleftrightarrow> gate (ee_api A) (ee_secret A) r now = None"
proof -
  have "pathname \<noteq> ''/token''"
  proof
    assume "pathname = ''/token''"
    with path(1) show False by (simp add: page_match_def starts_with_def)
  qed
  then have m: "middleware A now pathname params jar = Inr (page_answer A now jar token (drop_slash rest))"
    by (simp add: middleware_def handleTokenColdStart_def path)
  have none: "jar n = None \<Longrightarrow> read_session K s n jar now = None" for K s n
    by (simp add: read_session_def parseSignedSessionToken_def)
  from browser_one_admit [OF jar] consider "readBrowseUnlock (ee_api A) (ee_secret A) jar now = None"
    | "readOwnerBrowse (ee_api A) (ee_secret A) jar now = None"
    by (auto simp: one_admit_def readBrowseUnlock_def readOwnerBrowse_def none)
  then have "(map_option sp_head (readBrowseUnlock (ee_api A) (ee_secret A) jar now) = Some token \<or>
      map_option sp_head (readOwnerBrowse (ee_api A) (ee_secret A) jar now) = Some token) \<longleftrightarrow>
      admit_token (ee_api A) (ee_secret A) jar now = Some token"
    by cases (auto simp: admit_token_def split: option.splits)
  moreover have "gate (ee_api A) (ee_secret A) r now = None \<longleftrightarrow> admit_token (ee_api A) (ee_secret A) jar now = Some token"
    using r token by (auto simp: gate_def requireAppAccess_None)
  ultimately show ?thesis by (simp add: m page_unlocked [OF path(3)])
qed

text \<open>A browser that has just unlocked an accessory with its passkey sees its page for half an hour.\<close>

definition sample_edge :: edge_env where
  "sample_edge = \<lparr>ee_api = sample_api_kit, ee_secret = Some ''s3cret'', ee_isAddress = (\<lambda>s. s = ''Key''), ee_unlock = \<lambda>_. None\<rparr>"

theorem pages_agree_with_api_gate_witness:
  "\<exists>jar. browser_jar sample_route_env sample_owner_kit sample_kv_api jar \<and>
     middleware sample_edge 2000 ''/token/Key/wallet'' Map.empty jar = Inr PassOn \<and>
     middleware sample_edge 1801000 ''/token/Key/wallet'' Map.empty jar \<noteq> Inr PassOn"
proof -
  from sample_passkey_unlock obtain c rep where
    run: "unlock_webauthn sample_route_env sample_kv_api sample_meta (Some sample_passkey_body) sample_kv_state = (Inr rep, Map.empty)"
    and c: "c \<in> set (rp_cookies rep)" by blast
  from unlock_webauthn_core [OF run c] obtain token e where
    proven: "passkey_proof sample_route_env sample_kv_api (rm_now sample_meta) (Some sample_passkey_body) sample_kv_state Map.empty token"
    and issued: "issueBrowseUnlockCookie sample_api_kit (Some ''s3cret'') None token 1000 ''j1'' = Inr (e, rp_cookies rep)"
    by (auto simp: sample_route_env_def sample_meta_def sample_api_request_def)
  from proven have token: "token = ''Key''" by (auto simp: passkey_proof_def sample_route_env_def)
  define jar where "jar = fold apply_change (rp_cookies rep) Map.empty"
  have "admit sample_route_env sample_kv_api sample_meta ByPasskey (Some sample_passkey_body) (sample_kv_state, Map.empty) =
      (Inr rep, Map.empty, Map.empty)" using run by (simp add: admit_def)
  from browser_jar.admitted [OF browser_jar.no_cookie this]
  have jar: "browser_jar sample_route_env sample_owner_kit sample_kv_api jar" by (simp add: jar_def)
  have key: "trim ''Key'' = ''Key''" "page_match ''/token/Key/wallet'' = Some (''Key'', ''wallet'')"
    "decodeURIComponent ''Key'' = Some ''Key''" "drop_slash ''wallet'' \<noteq> ''unlock''" by code_simp+
  have gate: "gate sample_api_kit (Some ''s3cret'') (sample_api_request jar (Some ''Key'')) t = None \<longleftrightarrow> t < 1801000" for t
    using unlock_opens_core [OF sample_api_kit_ok issued, of "sample_api_request jar (Some ''Key'')" Map.empty t]
      sample_route_not_public
    by (simp add: sample_api_request_def token key BROWSE_SESSION_TTL_MS_def jar_def)
  have "middleware sample_edge t ''/token/Key/wallet'' Map.empty jar = Inr PassOn \<longleftrightarrow>
      gate (ee_api sample_edge) (ee_secret sample_edge) (sample_api_request jar (Some ''Key'')) t = None" for t
    using sample_route_not_public
    by (intro pages_agree_with_api_gate [OF jar key(2,3,4,1)]) (simp_all add: sample_api_request_def)
  then show ?thesis using jar gate by (intro exI [of _ jar]) (simp add: sample_edge_def)
qed

end
