(* ===== verification/SignerClient.thy ===== *)
theory SignerClient
  imports ApiSession
begin

text \<open>
  The application's side of the signer iframe (\<^verbatim>\<open>app/src/lib/wallet/secure-signer-client.ts\<close>) and the two
  signers built on it (\<^verbatim>\<open>secure-signer-signer.ts\<close>).  The client is a state with its sheet, the iframe, the
  promises for the iframe's readiness and one entry per call; a step is an event of its surroundings (the host
  mounts, a message arrives, a timer fires) or the continuation of a call whose promise is settled.  Any
  order of the steps is allowed, which includes every order of the microtasks.  The lemmas show which message
  can end a call with a result, and that the signer's validator accepts the messages the client posts.
\<close>

subsection \<open>State\<close>

datatype promise = Waiting | Fulfilled | Rejected

type_synonym outcome = "string + (string \<times> js) list"

text \<open>What a call of \<open>request\<close> waits for; \<open>Inl\<close> is the code of a \<open>SecureSignerError\<close>.\<close>

datatype call_phase =
  NeedShell promise
| NeedFrame promise
| ViaReady nat
| AwaitReady nat
| AwaitRetry nat
| AwaitResult string "outcome option"
| Ended outcome

record signer_call =
  sc_type :: string
  sc_resultType :: string
  sc_payload :: "(string \<times> js) list"
  sc_phase :: call_phase

text \<open>
  \<open>cl_arms\<close> are the promises of \<open>waitForReady\<close> so far with their frames, \<open>cl_ready\<close> the current one;
  \<open>cl_pending\<close> maps a request id to the result type and the number of the call; \<open>cl_posted\<close> are the messages
  posted with the call they belong to.
\<close>

record client =
  cl_shell :: bool
  cl_open :: bool
  cl_frame :: "nat option"
  cl_ready :: "nat option"
  cl_arms :: "(nat \<times> promise) list"
  cl_pending :: "(string \<times> string \<times> nat) list"
  cl_calls :: "signer_call list"
  cl_posted :: "(nat \<times> (string \<times> js) list) list"

definition new_client :: client where
  "new_client = \<lparr>cl_shell = False, cl_open = False, cl_frame = None, cl_ready = None, cl_arms = [], cl_pending = [],
     cl_calls = [], cl_posted = []\<rparr>"

definition set_phase :: "nat \<Rightarrow> call_phase \<Rightarrow> client \<Rightarrow> client" where
  "set_phase i p c = c\<lparr>cl_calls := (cl_calls c)[i := (cl_calls c ! i)\<lparr>sc_phase := p\<rparr>]\<rparr>"

definition map_phases :: "(call_phase \<Rightarrow> call_phase) \<Rightarrow> client \<Rightarrow> client" where
  "map_phases f c = c\<lparr>cl_calls := map (\<lambda>k. k\<lparr>sc_phase := f (sc_phase k)\<rparr>) (cl_calls c)\<rparr>"

definition settle_arm :: "nat \<Rightarrow> promise \<Rightarrow> client \<Rightarrow> client" where
  "settle_arm k p c =
     (case nth_opt (cl_arms c) k of
        Some (f, Waiting) \<Rightarrow> c\<lparr>cl_arms := (cl_arms c)[k := (f, p)]\<rparr>
      | _ \<Rightarrow> c)"

definition hide :: "client \<Rightarrow> client" where
  "hide c = (if cl_shell c then c\<lparr>cl_open := False\<rparr> else c)"

definition abortReady :: "client \<Rightarrow> client" where
  "abortReady c = (case cl_ready c of None \<Rightarrow> c | Some k \<Rightarrow> settle_arm k Rejected c)"

subsection \<open>The host\<close>

text \<open>A waiter that is settled stays settled; an attached iframe takes over the waiters for one.\<close>

definition attachShell :: "client \<Rightarrow> client" where
  "attachShell c =
     map_phases (\<lambda>p. if p = NeedShell Waiting then NeedShell Fulfilled else p) (c\<lparr>cl_shell := True\<rparr>)"

definition rejectIframeWaiters :: "client \<Rightarrow> client" where
  "rejectIframeWaiters = map_phases (\<lambda>p. if p = NeedFrame Waiting then NeedFrame Rejected else p)"

definition detachShell :: "client \<Rightarrow> client" where
  "detachShell c =
     (rejectIframeWaiters (abortReady c))\<lparr>cl_shell := False, cl_frame := None, cl_ready := None\<rparr>"

definition armReady :: "nat \<Rightarrow> client \<Rightarrow> client" where
  "armReady f c =
     (let c = abortReady c in c\<lparr>cl_ready := Some (length (cl_arms c)), cl_arms := cl_arms c @ [(f, Waiting)]\<rparr>)"

definition attachIframe :: "nat \<Rightarrow> client \<Rightarrow> client" where
  "attachIframe f c =
     (let c = armReady f (c\<lparr>cl_frame := Some f\<rparr>) in
      map_phases (\<lambda>p. if p = NeedFrame Waiting then ViaReady (length (cl_arms c) - 1) else p) c)"

definition detachIframe :: "nat option \<Rightarrow> client \<Rightarrow> client" where
  "detachIframe f c =
     (if f \<noteq> None \<and> cl_frame c \<noteq> f then c
      else (rejectIframeWaiters (abortReady c))\<lparr>cl_frame := None, cl_ready := None\<rparr>)"

subsection \<open>Messages\<close>

definition SECURE_SIGNER_ORIGIN :: "string option \<Rightarrow> string" where
  "SECURE_SIGNER_ORIGIN env =
     (let v = trim (case env of Some e \<Rightarrow> e | None \<Rightarrow> '''') in if v = '''' then ''https://signer.revibase.com'' else v)"

definition settle_call :: "nat \<Rightarrow> outcome \<Rightarrow> client \<Rightarrow> client" where
  "settle_call i out c =
     (case nth_opt (cl_calls c) i of
        Some k \<Rightarrow> (case sc_phase k of AwaitResult rid None \<Rightarrow> set_phase i (AwaitResult rid (Some out)) c | _ \<Rightarrow> c)
      | None \<Rightarrow> c)"

definition cancelAllPending :: "string \<Rightarrow> client \<Rightarrow> client" where
  "cancelAllPending code c =
     (fold (\<lambda>(rid, rt, i). settle_call i (Inl code)) (cl_pending c) c)\<lparr>cl_pending := []\<rparr>"

text \<open>\<open>String(data["code"] ?? "INTERNAL_ERROR")\<close>; \<open>js_string\<close> is \<open>String\<close>.\<close>

definition error_of :: "(js \<Rightarrow> string) \<Rightarrow> (string \<times> js) list \<Rightarrow> string" where
  "error_of js_string data =
     (let code = jget data ''code'' in if code = JUndefined \<or> code = JNull then ''INTERNAL_ERROR'' else js_string code)"

definition onMessage ::
  "string \<Rightarrow> (js \<Rightarrow> string) \<Rightarrow> string \<Rightarrow> nat \<Rightarrow> (string \<times> js) list \<Rightarrow> client \<Rightarrow> client" where
  "onMessage signer js_string origin source data c =
     (if origin \<noteq> signer then c
      else if cl_frame c \<noteq> Some source then c
      else
        (case jget data ''requestId'' of
           JString rid \<Rightarrow>
             (case map_of (cl_pending c) rid of
                None \<Rightarrow> c
              | Some (resultType, i) \<Rightarrow>
                  (let c = c\<lparr>cl_pending := filter (\<lambda>e. fst e \<noteq> rid) (cl_pending c)\<rparr> in
                   if jget data ''type'' = JString ''ERROR'' then settle_call i (Inl (error_of js_string data)) c
                   else if jget data ''type'' = JString resultType then settle_call i (Inr data) c
                   else settle_call i (Inl ''INTERNAL_ERROR'') c))
         | _ \<Rightarrow> c))"

text \<open>The listeners of \<open>waitForReady\<close>, each bound to its frame.\<close>

definition onReady :: "string \<Rightarrow> string \<Rightarrow> nat \<Rightarrow> (string \<times> js) list \<Rightarrow> client \<Rightarrow> client" where
  "onReady signer origin source data c =
     (if origin = signer \<and> jget data ''type'' = JString ''SIGNER_READY''
      then c\<lparr>cl_arms := map (\<lambda>(f, p). (f, if p = Waiting \<and> f = source then Fulfilled else p)) (cl_arms c)\<rparr>
      else c)"

subsection \<open>Calls\<close>

definition fail_call :: "nat \<Rightarrow> client \<Rightarrow> client" where
  "fail_call i c = set_phase i (Ended (Inl ''INTERNAL_ERROR'')) (hide c)"

definition with_ready :: "nat \<Rightarrow> client \<Rightarrow> client" where
  "with_ready i c =
     (case (cl_frame c, cl_ready c) of
        (Some _, Some k) \<Rightarrow> set_phase i (AwaitReady k) c
      | _ \<Rightarrow> fail_call i c)"

text \<open>\<open>ensureReady\<close> once there is a shell: the sheet opens, then the call waits for an iframe unless there is one.\<close>

definition with_shell :: "nat \<Rightarrow> client \<Rightarrow> client" where
  "with_shell i c =
     (let c = c\<lparr>cl_open := True\<rparr> in
      if cl_frame c \<noteq> None \<and> cl_ready c \<noteq> None then with_ready i c
      else set_phase i (NeedFrame Waiting) c)"

text \<open>The client has a protocol version of its own, which has to be the signer's.\<close>

definition CLIENT_PROTOCOL_VERSION :: nat where "CLIENT_PROTOCOL_VERSION = 1"

lemma versions_agree: "CLIENT_PROTOCOL_VERSION = PROTOCOL_VERSION"
  by (simp add: CLIENT_PROTOCOL_VERSION_def PROTOCOL_VERSION_def)

definition message_of :: "signer_call \<Rightarrow> string \<Rightarrow> rat \<Rightarrow> (string \<times> js) list" where
  "message_of k rid now =
     [(''type'', JString (sc_type k)), (''protocolVersion'', JNumber (of_nat CLIENT_PROTOCOL_VERSION)),
      (''requestId'', JString rid), (''timestamp'', JNumber now)] @ sc_payload k"

definition post :: "nat \<Rightarrow> string \<Rightarrow> rat \<Rightarrow> client \<Rightarrow> client" where
  "post i rid now c =
     (if cl_frame c = None then fail_call i c
      else
        set_phase i (AwaitResult rid None)
          (c\<lparr>cl_pending := set_key rid (sc_resultType (cl_calls c ! i), i) (cl_pending c),
             cl_posted := cl_posted c @ [(i, message_of (cl_calls c ! i) rid now)]\<rparr>))"

definition arm_state :: "client \<Rightarrow> nat \<Rightarrow> promise" where
  "arm_state c k = (case nth_opt (cl_arms c) k of Some (_, p) \<Rightarrow> p | None \<Rightarrow> Waiting)"

text \<open>The continuation of a call whose promise is settled; \<open>rid\<close> and \<open>now\<close> are only used if it posts.\<close>

definition resume :: "nat \<Rightarrow> string \<Rightarrow> rat \<Rightarrow> client \<Rightarrow> client" where
  "resume i rid now c =
     (case map_option sc_phase (nth_opt (cl_calls c) i) of
        Some (NeedShell Fulfilled) \<Rightarrow> if cl_shell c then with_shell i c else fail_call i c
      | Some (NeedShell Rejected) \<Rightarrow> fail_call i c
      | Some (NeedFrame Fulfilled) \<Rightarrow> with_ready i c
      | Some (NeedFrame Rejected) \<Rightarrow> fail_call i c
      | Some (ViaReady k) \<Rightarrow>
          (case arm_state c k of Fulfilled \<Rightarrow> with_ready i c | Rejected \<Rightarrow> fail_call i c | Waiting \<Rightarrow> c)
      | Some (AwaitReady k) \<Rightarrow>
          (case arm_state c k of
             Fulfilled \<Rightarrow> post i rid now c
           | Rejected \<Rightarrow>
               (case cl_frame c of
                  None \<Rightarrow> fail_call i c
                | Some f \<Rightarrow> let c = armReady f c in set_phase i (AwaitRetry (length (cl_arms c) - 1)) c)
           | Waiting \<Rightarrow> c)
      | Some (AwaitRetry k) \<Rightarrow>
          (case arm_state c k of Fulfilled \<Rightarrow> post i rid now c | Rejected \<Rightarrow> fail_call i c | Waiting \<Rightarrow> c)
      | Some (AwaitResult _ (Some out)) \<Rightarrow> set_phase i (Ended out) (hide c)
      | _ \<Rightarrow> c)"

definition start_call :: "string \<Rightarrow> string \<Rightarrow> (string \<times> js) list \<Rightarrow> client \<Rightarrow> client" where
  "start_call ty resultType payload c =
     (let c' = c\<lparr>cl_calls := cl_calls c @ [\<lparr>sc_type = ty, sc_resultType = resultType, sc_payload = payload,
              sc_phase = NeedShell Waiting\<rparr>]\<rparr> in
      if cl_shell c then with_shell (length (cl_calls c)) c' else c')"

text \<open>The timers: of a waiter for the shell or the iframe, of a readiness promise, of a posted request.\<close>

definition wait_timeout :: "nat \<Rightarrow> client \<Rightarrow> client" where
  "wait_timeout i c =
     (case map_option sc_phase (nth_opt (cl_calls c) i) of
        Some (NeedShell Waiting) \<Rightarrow> set_phase i (NeedShell Rejected) c
      | Some (NeedFrame Waiting) \<Rightarrow> set_phase i (NeedFrame Rejected) c
      | Some (ViaReady _) \<Rightarrow> set_phase i (NeedFrame Rejected) c
      | _ \<Rightarrow> c)"

definition request_timeout :: "nat \<Rightarrow> client \<Rightarrow> client" where
  "request_timeout i c =
     (case map_option sc_phase (nth_opt (cl_calls c) i) of
        Some (AwaitResult rid None) \<Rightarrow>
          settle_call i (Inl ''INTERNAL_ERROR'') (c\<lparr>cl_pending := filter (\<lambda>e. fst e \<noteq> rid) (cl_pending c)\<rparr>)
      | _ \<Rightarrow> c)"

datatype client_event =
  StartCall string string "(string \<times> js) list"
| AttachShell | DetachShell | AttachIframe nat | DetachIframe "nat option" | CancelFromHost
| MessageFrom string nat "(string \<times> js) list"
| WaitTimeout nat | ReadyTimeout nat | RequestTimeout nat
| Resume nat string rat

fun client_step :: "string \<Rightarrow> (js \<Rightarrow> string) \<Rightarrow> client_event \<Rightarrow> client \<Rightarrow> client" where
  "client_step signer js_string (StartCall ty rt payload) c = start_call ty rt payload c"
| "client_step signer js_string AttachShell c = attachShell c"
| "client_step signer js_string DetachShell c = detachShell c"
| "client_step signer js_string (AttachIframe f) c = attachIframe f c"
| "client_step signer js_string (DetachIframe f) c = detachIframe f c"
| "client_step signer js_string CancelFromHost c = cancelAllPending ''USER_CANCELLED'' c"
| "client_step signer js_string (MessageFrom origin source data) c =
     onReady signer origin source data (onMessage signer js_string origin source data c)"
| "client_step signer js_string (WaitTimeout i) c = wait_timeout i c"
| "client_step signer js_string (ReadyTimeout k) c = settle_arm k Rejected c"
| "client_step signer js_string (RequestTimeout i) c = request_timeout i c"
| "client_step signer js_string (Resume i rid now) c = resume i rid now c"

definition client_run :: "string \<Rightarrow> (js \<Rightarrow> string) \<Rightarrow> client_event list \<Rightarrow> client" where
  "client_run signer js_string es = fold (client_step signer js_string) es new_client"

subsection \<open>The operations\<close>

definition randomRequestId :: "bytes \<Rightarrow> string" where
  "randomRequestId bs = concat (map (\<lambda>b. [hex_digit (unat b div 16), hex_digit (unat b mod 16)]) bs)"

text \<open>A field of the payload is left out when its value is missing or empty.\<close>

definition optional_field :: "string \<Rightarrow> string option \<Rightarrow> (string \<times> js) list" where
  "optional_field k v = (if or_else v '''' = '''' then [] else [(k, JString (the v))])"

definition authenticate_call :: "auth_mode option \<Rightarrow> string option \<Rightarrow> string option \<Rightarrow> client_event" where
  "authenticate_call mode cred attestation =
     StartCall ''AUTH_START'' ''AUTH_COMPLETE''
       ([(''authMode'', JString (if mode = Some Create then ''create'' else ''unlock''))] @
        optional_field ''credentialId'' cred @ optional_field ''webauthnAttestationObject'' attestation)"

definition signTransaction_call :: "api_kit \<Rightarrow> bytes \<Rightarrow> client_event" where
  "signTransaction_call K txBytes =
     StartCall ''SIGN_TRANSACTION'' ''SIGN_TRANSACTION_RESULT'' [(''transaction'', JString (ak_base64Decode K txBytes))]"

definition exportPrivateKey_call :: client_event where
  "exportPrivateKey_call = StartCall ''EXPORT_PRIVATE_KEY'' ''EXPORT_PRIVATE_KEY_RESULT'' []"

text \<open>What \<open>authenticate\<close> makes of the result; \<open>number\<close> is \<open>Number(x) || 0\<close>.\<close>

definition auth_result :: "(js \<Rightarrow> rat) \<Rightarrow> (string \<times> js) list \<Rightarrow> string + string \<times> rat" where
  "auth_result number r =
     (case jget r ''publicKey'' of
        JString pk \<Rightarrow> Inr (pk, number (jget r ''expiresAt''))
      | _ \<Rightarrow> Inl ''INTERNAL_ERROR'')"

definition signature_of_result :: "(js \<Rightarrow> string) \<Rightarrow> (string \<times> js) list \<Rightarrow> string \<times> string" where
  "signature_of_result js_string r = (js_string (jget r ''signature''), js_string (jget r ''publicKey''))"

text \<open>One transaction of \<open>signTransactions\<close>: the signature the signer gave, if it has 64 bytes.\<close>

definition signed_entry :: "string \<Rightarrow> bytes \<Rightarrow> string + (string \<times> bytes) list" where
  "signed_entry owner signature =
     (if length signature \<noteq> 64 then Inl ''secure-signer returned an invalid signature'' else Inr [(owner, signature)])"

subsection \<open>Which message ends a call\<close>

abbreviation phase_of :: "client \<Rightarrow> nat \<Rightarrow> call_phase" where
  "phase_of c i \<equiv> sc_phase (cl_calls c ! i)"

text \<open>The data a call was given.\<close>

definition given :: "call_phase \<Rightarrow> (string \<times> js) list option" where
  "given p = (case p of AwaitResult _ (Some (Inr d)) \<Rightarrow> Some d | Ended (Inr d) \<Rightarrow> Some d | _ \<Rightarrow> None)"

text \<open>An entry of \<open>pending\<close> is of a call that waits under this id for this type; what a call waits for was posted.\<close>

definition client_ok :: "client \<Rightarrow> bool" where
  "client_ok c \<longleftrightarrow>
     (\<forall>rid rt i. map_of (cl_pending c) rid = Some (rt, i) \<longrightarrow>
        i < length (cl_calls c) \<and> phase_of c i = AwaitResult rid None \<and> rt = sc_resultType (cl_calls c ! i)) \<and>
     (\<forall>i < length (cl_calls c). \<forall>rid out. phase_of c i = AwaitResult rid out \<longrightarrow>
        (\<exists>now. (i, message_of (cl_calls c ! i) rid now) \<in> set (cl_posted c)))"

text \<open>
  The steps that touch the calls do so one call at a time or by a map on the phases that leaves alone the
  calls that were posted.
\<close>

lemma set_phase_simps [simp]:
  "cl_pending (set_phase i p c) = cl_pending c" "cl_posted (set_phase i p c) = cl_posted c"
  "cl_frame (set_phase i p c) = cl_frame c" "cl_shell (set_phase i p c) = cl_shell c"
  "cl_arms (set_phase i p c) = cl_arms c" "cl_ready (set_phase i p c) = cl_ready c" "cl_open (set_phase i p c) = cl_open c"
  "length (cl_calls (set_phase i p c)) = length (cl_calls c)"
  by (simp_all add: set_phase_def)

lemma set_phase_nth:
  "j < length (cl_calls c) \<Longrightarrow> cl_calls (set_phase i p c) ! j = (if j = i then (cl_calls c ! i)\<lparr>sc_phase := p\<rparr> else cl_calls c ! j)"
  by (simp add: set_phase_def nth_list_update)

lemma map_phases_simps [simp]:
  "cl_pending (map_phases f c) = cl_pending c" "cl_posted (map_phases f c) = cl_posted c"
  "cl_frame (map_phases f c) = cl_frame c" "length (cl_calls (map_phases f c)) = length (cl_calls c)"
  "j < length (cl_calls c) \<Longrightarrow> cl_calls (map_phases f c) ! j = (cl_calls c ! j)\<lparr>sc_phase := f (sc_phase (cl_calls c ! j))\<rparr>"
  by (simp_all add: map_phases_def)

lemma message_of_phase [simp]: "message_of (k\<lparr>sc_phase := p\<rparr>) = message_of k"
  by (simp add: message_of_def fun_eq_iff)

text \<open>Two clients with the same calls, pending requests and posted messages.\<close>

definition same_calls :: "client \<Rightarrow> client \<Rightarrow> bool" where
  "same_calls c d \<longleftrightarrow> cl_calls d = cl_calls c \<and> cl_pending d = cl_pending c \<and> cl_posted d = cl_posted c"

lemma same_calls_ok: "same_calls c d \<Longrightarrow> client_ok d = client_ok c"
  by (simp add: same_calls_def client_ok_def)

lemma same_calls_steps [simp]:
  "same_calls c (settle_arm k p c)" "same_calls c (hide c)" "same_calls c (abortReady c)" "same_calls c (armReady f c)"
  "same_calls c (onReady s o' src d c)" "same_calls c (c\<lparr>cl_open := b\<rparr>)" "same_calls c (c\<lparr>cl_frame := g\<rparr>)"
  "same_calls c (c\<lparr>cl_shell := b\<rparr>)" "same_calls c (c\<lparr>cl_ready := r\<rparr>)"
  by (auto simp: same_calls_def settle_arm_def hide_def abortReady_def armReady_def onReady_def Let_def
      split: option.splits prod.splits promise.splits)

text \<open>What one step may do to the call \<open>i\<close>: the call keeps its type, and is given data only by the message.\<close>

definition calls_move :: "client \<Rightarrow> client \<Rightarrow> bool" where
  "calls_move c d \<longleftrightarrow> length (cl_calls c) \<le> length (cl_calls d) \<and> set (cl_posted c) \<subseteq> set (cl_posted d) \<and>
     (\<forall>i < length (cl_calls c). cl_calls d ! i = (cl_calls c ! i)\<lparr>sc_phase := phase_of d i\<rparr>)"

definition nothing_given :: "client \<Rightarrow> client \<Rightarrow> bool" where
  "nothing_given c d \<longleftrightarrow>
     (\<forall>i < length (cl_calls d). given (phase_of d i) \<noteq> None \<longrightarrow> i < length (cl_calls c) \<and> given (phase_of c i) = given (phase_of d i))"

lemma calls_move_refl [simp]: "calls_move c c" "nothing_given c c"
  by (simp_all add: calls_move_def nothing_given_def)

lemma calls_move_trans: "calls_move c d \<Longrightarrow> calls_move d e \<Longrightarrow> calls_move c e"
  unfolding calls_move_def by (auto intro: order_trans) (metis order_less_le_trans signer_call.surjective signer_call.update_convs(4))

lemma nothing_given_trans: "nothing_given c d \<Longrightarrow> nothing_given d e \<Longrightarrow> nothing_given c e"
  unfolding nothing_given_def by metis

lemma same_calls_move: "same_calls c d \<Longrightarrow> calls_move c d \<and> nothing_given c d"
  by (simp add: same_calls_def calls_move_def nothing_given_def)

definition quiet :: "client \<Rightarrow> client \<Rightarrow> bool" where
  "quiet c d \<longleftrightarrow> (client_ok c \<longrightarrow> client_ok d) \<and> calls_move c d \<and> nothing_given c d"

lemma quiet_refl [simp]: "quiet c c"
  by (simp add: quiet_def)

lemma quiet_trans [trans]: "quiet c d \<Longrightarrow> quiet d e \<Longrightarrow> quiet c e"
  unfolding quiet_def using calls_move_trans nothing_given_trans by blast

lemma quiet_same: "same_calls c d \<Longrightarrow> quiet c d"
  by (simp add: quiet_def same_calls_ok same_calls_move)

definition in_flight :: "call_phase \<Rightarrow> bool" where
  "in_flight p \<longleftrightarrow> (\<exists>rid. p = AwaitResult rid None)"

definition posted_phase :: "call_phase \<Rightarrow> bool" where
  "posted_phase p \<longleftrightarrow> (\<exists>rid out. p = AwaitResult rid out)"

lemma quiet_phase:
  assumes "\<not> in_flight (phase_of c i)" "\<not> posted_phase p" "given p = None \<or> given p = given (phase_of c i)"
  shows "quiet c (set_phase i p c)"
proof (cases "i < length (cl_calls c)")
  case True
  have "client_ok (set_phase i p c)" if ok: "client_ok c"
    using ok assms(1,2) unfolding client_ok_def in_flight_def posted_phase_def
    by (auto simp: set_phase_nth split: if_splits)
  moreover have "calls_move c (set_phase i p c)" by (auto simp: calls_move_def set_phase_nth)
  moreover have "nothing_given c (set_phase i p c)" using assms(3) by (auto simp: nothing_given_def set_phase_nth)
  ultimately show ?thesis by (simp add: quiet_def)
next
  case False
  then have "set_phase i p c = c" by (cases c) (simp add: set_phase_def list_update_beyond)
  then show ?thesis by simp
qed

lemma quiet_map:
  assumes "\<And>p. given (f p) = given p" "\<And>p. posted_phase p \<Longrightarrow> f p = p" "\<And>p. \<not> posted_phase p \<Longrightarrow> \<not> posted_phase (f p)"
  shows "quiet c (map_phases f c)"
proof -
  have fl: "f (AwaitResult rid out) = AwaitResult rid out" for rid out using assms(2) by (simp add: posted_phase_def)
  have lf: "f p = AwaitResult rid out \<Longrightarrow> p = AwaitResult rid out" for p rid out
    using assms(2,3) [of p] by (cases "posted_phase p") (auto simp: posted_phase_def)
  have "client_ok (map_phases f c)" if "client_ok c"
    using that unfolding client_ok_def by (auto simp: fl dest!: lf)
  then show ?thesis using assms(1) by (auto simp: quiet_def calls_move_def nothing_given_def)
qed

lemma quiet_fail: "\<not> in_flight (phase_of c i) \<Longrightarrow> quiet c (fail_call i c)"
proof -
  assume h: "\<not> in_flight (phase_of c i)"
  have "same_calls c (hide c)" by simp
  then have "phase_of (hide c) i = phase_of c i" by (simp add: same_calls_def)
  with h have "quiet (hide c) (fail_call i c)"
    unfolding fail_call_def by (intro quiet_phase) (simp_all add: posted_phase_def given_def)
  with quiet_same [of c "hide c"] show ?thesis using quiet_trans by simp
qed

lemma quiet_with_ready: "\<not> in_flight (phase_of c i) \<Longrightarrow> quiet c (with_ready i c)"
  using quiet_fail [of c i] quiet_phase [of c i]
  by (auto simp: with_ready_def posted_phase_def given_def split: option.splits)

lemma quiet_with_shell: "\<not> in_flight (phase_of c i) \<Longrightarrow> quiet c (with_shell i c)"
proof -
  assume h: "\<not> in_flight (phase_of c i)"
  let ?c = "c\<lparr>cl_open := True\<rparr>"
  have "quiet c ?c" by (intro quiet_same) simp
  moreover from h have "quiet ?c (with_shell i c)"
    unfolding with_shell_def Let_def
    by (auto intro!: quiet_with_ready quiet_phase simp: posted_phase_def given_def)
  ultimately show ?thesis by (rule quiet_trans)
qed

lemma quiet_post:
  assumes "i < length (cl_calls c)" "\<not> posted_phase (phase_of c i)"
  shows "quiet c (post i rid now c)"
proof (cases "cl_frame c")
  case None
  with assms show ?thesis by (auto simp: post_def in_flight_def posted_phase_def intro: quiet_fail)
next
  case (Some f)
  let ?d = "post i rid now c"
  have calls: "cl_calls ?d ! j = (if j = i then (cl_calls c ! i)\<lparr>sc_phase := AwaitResult rid None\<rparr> else cl_calls c ! j)"
    if "j < length (cl_calls c)" for j
    using that Some by (simp add: post_def set_phase_def nth_list_update)
  have len: "length (cl_calls ?d) = length (cl_calls c)" by (simp add: post_def Some)
  have pend: "cl_pending ?d = set_key rid (sc_resultType (cl_calls c ! i), i) (cl_pending c)"
    and posted: "cl_posted ?d = cl_posted c @ [(i, message_of (cl_calls c ! i) rid now)]"
    by (simp_all add: post_def Some)
  have "client_ok ?d" if ok: "client_ok c"
  proof -
    have "i' < length (cl_calls ?d) \<and> phase_of ?d i' = AwaitResult r None \<and> rt = sc_resultType (cl_calls ?d ! i')"
      if "map_of (cl_pending ?d) r = Some (rt, i')" for r rt i'
    proof (cases "r = rid")
      case True
      with that have "sc_resultType (cl_calls c ! i) = rt \<and> i = i'" by (auto simp: pend map_of_set_key)
      then have "i' = i" "rt = sc_resultType (cl_calls c ! i)" by auto
      with True show ?thesis using assms(1) calls [OF assms(1)] by (simp add: len)
    next
      case False
      with that have "map_of (cl_pending c) r = Some (rt, i')" by (simp add: pend map_of_set_key)
      with ok have h: "i' < length (cl_calls c)" "phase_of c i' = AwaitResult r None" "rt = sc_resultType (cl_calls c ! i')"
        unfolding client_ok_def by blast+
      with assms(2) have "i' \<noteq> i" by (auto simp: posted_phase_def)
      with h show ?thesis by (simp add: len calls)
    qed
    moreover have "\<exists>n. (j, message_of (cl_calls ?d ! j) r n) \<in> set (cl_posted ?d)"
      if "j < length (cl_calls c)" "phase_of ?d j = AwaitResult r out" for j r out
    proof (cases "j = i")
      case True
      with that calls [OF assms(1)] have "r = rid" by simp
      with True calls [OF assms(1)] show ?thesis by (intro exI [of _ now]) (simp add: posted)
    next
      case False
      with that ok obtain n where "(j, message_of (cl_calls c ! j) r n) \<in> set (cl_posted c)"
        by (fastforce simp: calls client_ok_def)
      with False that show ?thesis by (auto simp: calls posted)
    qed
    ultimately show ?thesis unfolding client_ok_def len by blast
  qed
  moreover have "calls_move c ?d" by (auto simp: calls_move_def len calls posted)
  moreover have "nothing_given c ?d" by (auto simp: nothing_given_def len calls given_def split: if_splits)
  ultimately show ?thesis by (simp add: quiet_def)
qed

lemma quiet_start: "quiet c (start_call ty rt payload c)"
proof -
  let ?k = "\<lparr>sc_type = ty, sc_resultType = rt, sc_payload = payload, sc_phase = NeedShell Waiting\<rparr>"
  let ?d = "c\<lparr>cl_calls := cl_calls c @ [?k]\<rparr>"
  have "client_ok ?d" if "client_ok c"
    using that unfolding client_ok_def by (auto simp: nth_append) (metis less_SucI)+
  then have d: "quiet c ?d" by (auto simp: quiet_def calls_move_def nothing_given_def nth_append given_def split: if_splits)
  moreover have "\<not> in_flight (phase_of ?d (length (cl_calls c)))" by (simp add: in_flight_def)
  then have "quiet ?d (with_shell (length (cl_calls c)) ?d)" by (rule quiet_with_shell)
  ultimately show ?thesis unfolding start_call_def Let_def using quiet_trans by auto
qed

text \<open>What a settlement does: the calls in flight, and only they, get an outcome.\<close>

lemma settle_call_cases:
  obtains rid where "i < length (cl_calls c)" "phase_of c i = AwaitResult rid None"
      "settle_call i out c = set_phase i (AwaitResult rid (Some out)) c"
  | "settle_call i out c = c" "\<not> (i < length (cl_calls c) \<and> in_flight (phase_of c i))"
proof (cases "i < length (cl_calls c)")
  case True
  show ?thesis
  proof (cases "phase_of c i")
    case (AwaitResult rid out')
    with True that show ?thesis by (cases out') (auto simp: settle_call_def nth_opt_def in_flight_def)
  qed (use True that in \<open>auto simp: settle_call_def nth_opt_def in_flight_def\<close>)
qed (use that in \<open>auto simp: settle_call_def nth_opt_def\<close>)

lemma settle_move:
  "calls_move c (settle_call i out c) \<and>
   (\<forall>j < length (cl_calls c). given (phase_of (settle_call i out c) j) = given (phase_of c j) \<or>
      (j = i \<and> in_flight (phase_of c i) \<and> given (phase_of (settle_call i out c) j) = (case out of Inl _ \<Rightarrow> None | Inr d \<Rightarrow> Some d))) \<and>
   length (cl_calls (settle_call i out c)) = length (cl_calls c) \<and> cl_pending (settle_call i out c) = cl_pending c"
  by (cases rule: settle_call_cases [of i c out])
    (auto simp: calls_move_def set_phase_nth given_def in_flight_def split: sum.splits)

text \<open>Without an entry for the call the invariant survives its settlement.\<close>

lemma settle_ok:
  assumes "client_ok c" "\<And>rid rt. map_of (cl_pending c) rid \<noteq> Some (rt, i)"
  shows "client_ok (settle_call i out c)"
proof (cases rule: settle_call_cases [of i c out])
  case (1 rid)
  from assms(1) 1(1,2) obtain now where "(i, message_of (cl_calls c ! i) rid now) \<in> set (cl_posted c)"
    unfolding client_ok_def by blast
  with assms 1 show ?thesis
    unfolding client_ok_def by (auto simp: set_phase_nth split: if_splits)
qed (simp add: assms(1))

lemma quiet_cancel: "quiet c (cancelAllPending code c)"
proof -
  let ?f = "\<lambda>ps d. fold (\<lambda>(rid, rt, i). settle_call i (Inl code)) ps (d\<lparr>cl_pending := []\<rparr>)"
  have settle_pending: "settle_call i out (d\<lparr>cl_pending := q\<rparr>) = (settle_call i out d)\<lparr>cl_pending := q\<rparr>" for i out d q
    by (simp add: settle_call_def set_phase_def split: option.splits call_phase.splits)
  have eq: "(fold (\<lambda>(rid, rt, i). settle_call i (Inl code)) ps d)\<lparr>cl_pending := []\<rparr> = ?f ps d" for ps d
    by (induction ps arbitrary: d) (auto simp: settle_pending)
  have step: "quiet d (settle_call i (Inl code) d)" if "cl_pending d = []" for d i
    using settle_move [of d i "Inl code"] settle_ok [of d i "Inl code"] that
    by (force simp: quiet_def nothing_given_def)
  have "quiet d (fold (\<lambda>(rid, rt, i). settle_call i (Inl code)) ps d)" if "cl_pending d = []" for ps d
    using that
  proof (induction ps arbitrary: d)
    case (Cons x ps)
    obtain rid rt i where x: "x = (rid, rt, i)" by (metis prod_cases3)
    have "cl_pending (settle_call i (Inl code) d) = []" using settle_move [of d i "Inl code"] Cons.prems by simp
    from Cons.IH [OF this] step [OF Cons.prems, of i] show ?case by (simp add: x quiet_trans)
  qed simp
  note all = this
  have none: "quiet c (c\<lparr>cl_pending := []\<rparr>)"
    by (auto simp: quiet_def client_ok_def calls_move_def nothing_given_def)
  show ?thesis unfolding cancelAllPending_def eq by (rule quiet_trans [OF none all]) simp
qed

text \<open>A message: quiet, or it gives its data to the call whose request it answers.\<close>

definition answers :: "string \<Rightarrow> client_event \<Rightarrow> client \<Rightarrow> nat \<Rightarrow> (string \<times> js) list \<Rightarrow> bool" where
  "answers signer e c i d \<longleftrightarrow>
     (\<exists>source rid now. e = MessageFrom signer source d \<and> cl_frame c = Some source \<and> jget d ''requestId'' = JString rid \<and>
        jget d ''type'' = JString (sc_resultType (cl_calls c ! i)) \<and> phase_of c i = AwaitResult rid None \<and>
        (i, message_of (cl_calls c ! i) rid now) \<in> set (cl_posted c))"

definition step_fine :: "string \<Rightarrow> client_event \<Rightarrow> client \<Rightarrow> client \<Rightarrow> bool" where
  "step_fine signer e c c' \<longleftrightarrow> client_ok c' \<and> calls_move c c' \<and>
     (\<forall>i < length (cl_calls c'). \<forall>d. given (phase_of c' i) = Some d \<longrightarrow>
        i < length (cl_calls c) \<and> (given (phase_of c i) = Some d \<or> answers signer e c i d))"

lemma quiet_fine: "client_ok c \<Longrightarrow> quiet c c' \<Longrightarrow> step_fine signer e c c'"
  unfolding quiet_def step_fine_def nothing_given_def by (metis option.distinct(1))

lemma fine_quiet: "step_fine signer e c c' \<Longrightarrow> quiet c' c'' \<Longrightarrow> step_fine signer e c c''"
proof -
  assume f: "step_fine signer e c c'" and q: "quiet c' c''"
  have "i < length (cl_calls c') \<and> given (phase_of c' i) = Some d"
    if "i < length (cl_calls c'')" "given (phase_of c'' i) = Some d" for i d
    using q that by (auto simp: quiet_def nothing_given_def)
  moreover have "client_ok c''" "calls_move c c''"
    using f q calls_move_trans by (auto simp: step_fine_def quiet_def)
  ultimately show ?thesis using f unfolding step_fine_def by blast
qed

lemma map_of_filter_out: "map_of (filter (\<lambda>e. fst e \<noteq> k) m) r = (if r = k then None else map_of m r)"
  by (induction m) auto

lemma settle_fine:
  assumes ok: "client_ok c" and entry: "map_of (cl_pending c) rid = Some (rt, i)"
    and answer: "\<And>d. out = Inr d \<Longrightarrow> answers signer e c i d"
  shows "step_fine signer e c (settle_call i out (c\<lparr>cl_pending := filter (\<lambda>e. fst e \<noteq> rid) (cl_pending c)\<rparr>))"
proof -
  let ?c = "c\<lparr>cl_pending := filter (\<lambda>e. fst e \<noteq> rid) (cl_pending c)\<rparr>"
  have m: "map_of (cl_pending ?c) r = (if r = rid then None else map_of (cl_pending c) r)" for r
    by (simp add: map_of_filter_out)
  have q: "quiet c ?c"
    using m by (auto simp: quiet_def client_ok_def calls_move_def nothing_given_def)
  have i: "phase_of c i = AwaitResult rid None" using ok entry unfolding client_ok_def by blast
  have "map_of (cl_pending ?c) r \<noteq> Some (rt', i)" for r rt'
  proof
    assume h: "map_of (cl_pending ?c) r = Some (rt', i)"
    with m have "r \<noteq> rid" "map_of (cl_pending c) r = Some (rt', i)" by (auto split: if_splits)
    with ok i show False unfolding client_ok_def by fastforce
  qed
  then have "client_ok (settle_call i out ?c)" using q ok by (intro settle_ok) (auto simp: quiet_def)
  then show ?thesis
    using settle_move [of ?c i out] answer calls_move_trans [of c ?c] q
    unfolding step_fine_def quiet_def by (fastforce split: sum.splits)
qed

lemma message_fine:
  assumes ok: "client_ok c"
  shows "step_fine signer (MessageFrom origin source data) c (onMessage signer js_string origin source data c)"
proof (cases "\<exists>rid rt i. origin = signer \<and> cl_frame c = Some source \<and> jget data ''requestId'' = JString rid \<and>
    map_of (cl_pending c) rid = Some (rt, i)")
  case False
  then have "onMessage signer js_string origin source data c = c"
    by (auto simp: onMessage_def split: js.splits option.splits)
  with ok show ?thesis by (simp add: quiet_fine)
next
  case True
  then obtain rid rt i where h: "origin = signer" "cl_frame c = Some source" "jget data ''requestId'' = JString rid"
    "map_of (cl_pending c) rid = Some (rt, i)" by blast
  from ok h(4) have i: "i < length (cl_calls c)" "phase_of c i = AwaitResult rid None" "rt = sc_resultType (cl_calls c ! i)"
    unfolding client_ok_def by blast+
  with ok obtain now where "(i, message_of (cl_calls c ! i) rid now) \<in> set (cl_posted c)"
    unfolding client_ok_def by blast
  with h i have "answers signer (MessageFrom origin source data) c i data" if "jget data ''type'' = JString rt"
    using that unfolding answers_def by blast
  moreover obtain out where "onMessage signer js_string origin source data c =
      settle_call i out (c\<lparr>cl_pending := filter (\<lambda>e. fst e \<noteq> rid) (cl_pending c)\<rparr>)"
    "\<And>d. out = Inr d \<Longrightarrow> d = data \<and> jget data ''type'' = JString rt"
  proof -
    let ?out = "if jget data ''type'' = JString ''ERROR'' then Inl (error_of js_string data)
      else if jget data ''type'' = JString rt then Inr data else Inl ''INTERNAL_ERROR''"
    have "onMessage signer js_string origin source data c =
      settle_call i ?out (c\<lparr>cl_pending := filter (\<lambda>e. fst e \<noteq> rid) (cl_pending c)\<rparr>)"
      by (simp add: onMessage_def h Let_def)
    then show ?thesis by (rule that) (simp split: if_splits)
  qed
  ultimately show ?thesis using settle_fine [OF ok h(4)] by metis
qed

lemma resume_quiet: "quiet c (resume i rid now c)"
proof (cases "nth_opt (cl_calls c) i")
  case None
  have "resume i rid now c = c" unfolding resume_def None by simp
  then show ?thesis by simp
next
  case (Some k)
  then have i: "i < length (cl_calls c)" "phase_of c i = sc_phase k" by (auto simp: nth_opt_def split: if_splits)
  have ph: "map_option sc_phase (nth_opt (cl_calls c) i) = Some (sc_phase k)" by (simp add: Some)
  have arm: "quiet c (set_phase i (AwaitRetry n) (armReady f c))" if "\<not> posted_phase (sc_phase k)" for f n
  proof -
    have s: "same_calls c (armReady f c)" by simp
    then have "phase_of (armReady f c) i = sc_phase k" using i by (simp add: same_calls_def)
    with that have "quiet (armReady f c) (set_phase i (AwaitRetry n) (armReady f c))"
      by (intro quiet_phase) (auto simp: in_flight_def posted_phase_def given_def)
    with quiet_same [OF s] show ?thesis by (rule quiet_trans)
  qed
  have over: "quiet c (set_phase i (Ended out) (hide c))" if "sc_phase k = AwaitResult r (Some out)" for r out
  proof -
    have s: "same_calls c (hide c)" by simp
    then have "phase_of (hide c) i = sc_phase k" using i by (simp add: same_calls_def)
    with that have "quiet (hide c) (set_phase i (Ended out) (hide c))"
      by (intro quiet_phase) (auto simp: in_flight_def posted_phase_def given_def split: sum.splits)
    with quiet_same [OF s] show ?thesis by (rule quiet_trans)
  qed
  show ?thesis
  proof (cases "sc_phase k")
    case (NeedShell p)
    then show ?thesis unfolding resume_def ph using i
      by (cases p) (auto simp: in_flight_def intro!: quiet_with_shell quiet_fail)
  next
    case (NeedFrame p)
    then show ?thesis unfolding resume_def ph using i
      by (cases p) (auto simp: in_flight_def intro!: quiet_with_ready quiet_fail)
  next
    case (ViaReady a)
    then show ?thesis unfolding resume_def ph using i
      by (auto simp: in_flight_def intro!: quiet_with_ready quiet_fail split: promise.splits)
  next
    case (AwaitReady a)
    then show ?thesis unfolding resume_def ph using i arm
      by (auto simp: in_flight_def posted_phase_def Let_def intro!: quiet_post quiet_fail split: promise.splits option.splits)
  next
    case (AwaitRetry a)
    then show ?thesis unfolding resume_def ph using i
      by (auto simp: in_flight_def posted_phase_def intro!: quiet_post quiet_fail split: promise.splits)
  next
    case (AwaitResult r out)
    then show ?thesis unfolding resume_def ph using over by (cases out) auto
  next
    case (Ended out)
    then show ?thesis unfolding resume_def ph by simp
  qed
qed

lemma timeout_fine: "client_ok c \<Longrightarrow> step_fine signer e c (request_timeout i c)"
proof (cases "\<exists>rid. i < length (cl_calls c) \<and> phase_of c i = AwaitResult rid None")
  case False
  then have "request_timeout i c = c"
    by (auto simp: request_timeout_def nth_opt_def split: option.splits call_phase.splits)
  then show "client_ok c \<Longrightarrow> ?thesis" by (simp add: quiet_fine)
next
  case True
  assume ok: "client_ok c"
  from True obtain rid where i: "i < length (cl_calls c)" "phase_of c i = AwaitResult rid None" by blast
  let ?c = "c\<lparr>cl_pending := filter (\<lambda>e. fst e \<noteq> rid) (cl_pending c)\<rparr>"
  have eq: "request_timeout i c = settle_call i (Inl ''INTERNAL_ERROR'') ?c"
    using i by (simp add: request_timeout_def nth_opt_def)
  have q: "quiet c ?c" by (auto simp: quiet_def client_ok_def calls_move_def nothing_given_def map_of_filter_out split: if_splits)
  have "map_of (cl_pending ?c) r \<noteq> Some (rt, i)" for r rt
  proof
    assume "map_of (cl_pending ?c) r = Some (rt, i)"
    then have "r \<noteq> rid" "map_of (cl_pending c) r = Some (rt, i)" by (auto simp: map_of_filter_out split: if_splits)
    with ok i show False unfolding client_ok_def by fastforce
  qed
  then have "client_ok (settle_call i (Inl ''INTERNAL_ERROR'') ?c)" using q ok by (intro settle_ok) (auto simp: quiet_def)
  then have "quiet ?c (settle_call i (Inl ''INTERNAL_ERROR'') ?c)"
    using settle_move [of ?c i "Inl ''INTERNAL_ERROR''"] by (force simp: quiet_def nothing_given_def)
  with q ok show ?thesis unfolding eq by (intro quiet_fine quiet_trans [OF q])
qed

lemma quiet_with_same: "same_calls c d \<Longrightarrow> quiet d e \<Longrightarrow> quiet c e"
  using quiet_same quiet_trans by blast

lemma quiet_waiters: "quiet c (rejectIframeWaiters c)"
  unfolding rejectIframeWaiters_def by (rule quiet_map) (auto simp: given_def posted_phase_def)

lemma same_calls_wrap [simp]:
  "same_calls c (d\<lparr>cl_shell := a, cl_frame := f, cl_ready := r\<rparr>) = same_calls c d"
  "same_calls c (d\<lparr>cl_frame := f, cl_ready := r\<rparr>) = same_calls c d"
  by (simp_all add: same_calls_def)

lemma step_fine_all: "client_ok c \<Longrightarrow> step_fine signer e c (client_step signer js_string e c)"
proof (cases e)
  case (MessageFrom origin source data)
  assume "client_ok c"
  from message_fine [OF this, of signer origin source data js_string] show ?thesis
    unfolding MessageFrom client_step.simps by (rule fine_quiet) (simp add: quiet_same)
next
  case (RequestTimeout i)
  then show "client_ok c \<Longrightarrow> ?thesis" by (simp add: timeout_fine)
next
  case DetachShell
  have a: "quiet c (abortReady c)" by (simp add: quiet_same)
  have b: "quiet (rejectIframeWaiters (abortReady c)) (detachShell c)" unfolding detachShell_def by (simp add: quiet_same same_calls_def)
  show "client_ok c \<Longrightarrow> ?thesis" using quiet_trans [OF a quiet_trans [OF quiet_waiters b]] by (simp add: DetachShell quiet_fine)
next
  case (DetachIframe f)
  have a: "quiet c (abortReady c)" by (simp add: quiet_same)
  have b: "quiet (rejectIframeWaiters (abortReady c)) (detachIframe f c) \<or> detachIframe f c = c"
    unfolding detachIframe_def by (simp add: quiet_same same_calls_def)
  show "client_ok c \<Longrightarrow> ?thesis"
    using b quiet_trans [OF a quiet_trans [OF quiet_waiters]] by (auto simp: DetachIframe intro: quiet_fine)
next
  case (AttachIframe f)
  let ?d = "armReady f (c\<lparr>cl_frame := Some f\<rparr>)"
  have a: "quiet c (c\<lparr>cl_frame := Some f\<rparr>)" "quiet (c\<lparr>cl_frame := Some f\<rparr>) ?d" by (simp_all add: quiet_same)
  have "quiet ?d (attachIframe f c)"
    unfolding attachIframe_def Let_def by (rule quiet_map) (auto simp: given_def posted_phase_def)
  with quiet_trans [OF a] show "client_ok c \<Longrightarrow> ?thesis" by (simp add: AttachIframe quiet_fine quiet_trans)
next
  case AttachShell
  have "quiet (c\<lparr>cl_shell := True\<rparr>) (attachShell c)"
    unfolding attachShell_def by (rule quiet_map) (auto simp: given_def posted_phase_def)
  then have "quiet c (attachShell c)" by (rule quiet_with_same [rotated]) simp
  then show "client_ok c \<Longrightarrow> ?thesis" by (simp add: AttachShell quiet_fine)
next
  case (WaitTimeout i)
  have "quiet c (wait_timeout i c)"
    unfolding wait_timeout_def
    by (auto simp: nth_opt_def in_flight_def posted_phase_def given_def split: option.splits call_phase.splits promise.splits
        intro!: quiet_phase)
  then show "client_ok c \<Longrightarrow> ?thesis" by (simp add: WaitTimeout quiet_fine)
qed (simp_all add: quiet_fine quiet_start quiet_cancel resume_quiet quiet_same)

lemma new_client_ok: "client_ok new_client"
  by (simp add: client_ok_def new_client_def)

lemma run_ok: "client_ok (client_run signer js_string es)"
proof (induction es rule: rev_induct)
  case (snoc e es)
  then show ?case using step_fine_all [of "client_run signer js_string es" signer e js_string]
    by (simp add: client_run_def step_fine_def)
qed (simp add: client_run_def new_client_ok)

text \<open>
  C2: A result comes from the signer.  In every run of the client, whatever messages arrive and in whatever
  order calls, timers and the host's events come, a call ends with data only if at some step a message with
  that data arrived from the signer's origin and from the window of the iframe attached at that moment, with the
  request id of a message the client had posted for this very call, which was still waiting, and with the
  result type the call asked for.
\<close>
theorem results_come_from_signer:
  assumes "i < length (cl_calls (client_run signer js_string es))"
    and "phase_of (client_run signer js_string es) i = Ended (Inr data)"
  shows "\<exists>es1 es2 source rid now. es = es1 @ MessageFrom signer source data # es2 \<and>
    (let c = client_run signer js_string es1 in
      cl_frame c = Some source \<and> i < length (cl_calls c) \<and> phase_of c i = AwaitResult rid None \<and>
      (i, message_of (cl_calls c ! i) rid now) \<in> set (cl_posted c) \<and> jget data ''requestId'' = JString rid \<and>
      jget data ''type'' = JString (sc_resultType (cl_calls c ! i)))"
proof -
  have "\<exists>es1 es2 e. es = es1 @ e # es2 \<and> i < length (cl_calls (client_run signer js_string es1)) \<and>
      answers signer e (client_run signer js_string es1) i data"
    if "i < length (cl_calls (client_run signer js_string es))" "given (phase_of (client_run signer js_string es) i) = Some data"
    using that
  proof (induction es rule: rev_induct)
    case Nil
    then show ?case by (simp add: client_run_def new_client_def)
  next
    case (snoc e es)
    let ?c = "client_run signer js_string es"
    have "client_run signer js_string (es @ [e]) = client_step signer js_string e ?c" by (simp add: client_run_def)
    with snoc.prems step_fine_all [OF run_ok, of signer e signer js_string es js_string]
    have i: "i < length (cl_calls ?c)" and d: "given (phase_of ?c i) = Some data \<or> answers signer e ?c i data"
      unfolding step_fine_def by auto
    show ?case
    proof (cases "given (phase_of ?c i) = Some data")
      case True
      from snoc.IH [OF i True] obtain es1 es2 e' where "es = es1 @ e' # es2" "i < length (cl_calls (client_run signer js_string es1))"
        "answers signer e' (client_run signer js_string es1) i data" by blast
      then show ?thesis by (intro exI [of _ es1] exI [of _ "es2 @ [e]"] exI [of _ e']) simp
    next
      case False
      with d i show ?thesis by blast
    qed
  qed
  with assms obtain es1 es2 e where "es = es1 @ e # es2" "i < length (cl_calls (client_run signer js_string es1))"
    "answers signer e (client_run signer js_string es1) i data" by (auto simp: given_def)
  then show ?thesis unfolding answers_def Let_def by blast
qed

definition sample_result :: "(string \<times> js) list" where
  "sample_result = [(''type'', JString ''EXPORT_PRIVATE_KEY_RESULT''), (''requestId'', JString ''req-0001''), (''completed'', JBool True)]"

definition sample_client_run :: "client_event list" where
  "sample_client_run =
     [exportPrivateKey_call, AttachShell, Resume 0 '''' 0, AttachIframe 7,
      MessageFrom ''https://signer.revibase.com'' 7 [(''type'', JString ''SIGNER_READY'')], Resume 0 '''' 0,
      Resume 0 ''req-0001'' 5, MessageFrom ''https://evil.example'' 7 sample_result,
      MessageFrom ''https://signer.revibase.com'' 7 sample_result, Resume 0 '''' 0]"

definition js_text :: "js \<Rightarrow> string" where
  "js_text v = (case v of JString s \<Rightarrow> s | _ \<Rightarrow> ''undefined'')"

lemma sample_client_end:
  "cl_calls (client_run ''https://signer.revibase.com'' js_text sample_client_run) =
     [\<lparr>sc_type = ''EXPORT_PRIVATE_KEY'', sc_resultType = ''EXPORT_PRIVATE_KEY_RESULT'', sc_payload = [],
       sc_phase = Ended (Inr sample_result)\<rparr>]"
  by code_simp

theorem results_come_from_signer_witness:
  "\<exists>es1 es2. sample_client_run = es1 @ MessageFrom ''https://signer.revibase.com'' 7 sample_result # es2 \<and>
     cl_frame (client_run ''https://signer.revibase.com'' js_text es1) = Some 7"
proof -
  let ?s = "''https://signer.revibase.com''"
  have e: "0 < length (cl_calls (client_run ?s js_text sample_client_run))"
    "phase_of (client_run ?s js_text sample_client_run) 0 = Ended (Inr sample_result)"
    by (simp_all only: sample_client_end) simp_all
  from results_come_from_signer [OF e] obtain es1 es2 source where
    es: "sample_client_run = es1 @ MessageFrom ?s source sample_result # es2"
    and frame: "cl_frame (client_run ?s js_text es1) = Some source" by (auto simp: Let_def)
  have "MessageFrom ?s source sample_result \<in> set sample_client_run" by (subst es) simp
  then have "source = 7" by (auto simp: sample_client_run_def sample_result_def exportPrivateKey_call_def)
  with es frame show ?thesis by blast
qed

subsection \<open>Two calls at once\<close>

text \<open>
  The end of a call closes the sheet, also when another call is still waiting for its answer: here the
  signer refuses the second of two requests as busy, and the sheet with the iframe of the first one closes.
\<close>

definition sample_two_calls :: "client_event list" where
  "sample_two_calls =
     [AttachShell, exportPrivateKey_call, exportPrivateKey_call, AttachIframe 7,
      MessageFrom ''https://signer.revibase.com'' 7 [(''type'', JString ''SIGNER_READY'')], Resume 0 '''' 0, Resume 1 '''' 0,
      Resume 0 ''req-0001'' 5, Resume 1 ''req-0002'' 5,
      MessageFrom ''https://signer.revibase.com'' 7
        [(''type'', JString ''ERROR''), (''requestId'', JString ''req-0002''), (''code'', JString ''INTERNAL_ERROR'')],
      Resume 1 '''' 0]"

lemma second_call_closes_first:
  "(let c = client_run ''https://signer.revibase.com'' js_text sample_two_calls in
    phase_of c 0 = AwaitResult ''req-0001'' None \<and> phase_of c 1 = Ended (Inl ''INTERNAL_ERROR'') \<and> \<not> cl_open c)"
  by code_simp

subsection \<open>The signer accepts what the client posts\<close>

definition plain_json :: "string \<Rightarrow> bool" where
  "plain_json s \<longleftrightarrow> list_all (\<lambda>c. 32 \<le> (of_char c :: nat) \<and> (of_char c :: nat) \<le> 126 \<and> c \<noteq> CHR 0x22 \<and> c \<noteq> CHR 0x5C) s"

lemma json_plain: "plain_json s \<Longrightarrow> json_string s = [CHR 0x22] @ s @ [CHR 0x22]"
proof -
  have "concat (map json_char s) = s" if "plain_json s" for s
    using that by (induction s) (auto simp: plain_json_def json_char_def)
  then show "plain_json s \<Longrightarrow> ?thesis" by (simp add: json_string_def)
qed

lemma json_string_length: "length (json_string s) \<le> 6 * length s + 2"
proof -
  have "length (concat (map json_char s)) \<le> 6 * length s"
    by (induction s) (auto simp: json_char_def)
  then show ?thesis by (simp add: json_string_def)
qed

lemma utf8_length: "length (utf8ToBytes s) \<le> 2 * length s"
  by (induction s) (auto simp: utf8ToBytes_def utf8_char_def Let_def)

lemma base64_plain: "plain_json (bytesToBase64 bs Std)"
proof -
  have "plain_json (''='' @ B64_STD)" by code_simp
  moreover have "set (bytesToBase64 bs Std) \<subseteq> set (''='' @ B64_STD)"
    using set_enc_core [of Std bs] by (auto simp: bytesToBase64_core alphabet_of_def)
  ultimately show ?thesis unfolding plain_json_def list_all_iff by blast
qed

lemma base64_length: "length (bytesToBase64 bs Std) \<le> b64Cap (length bs)"
  by (simp add: bytesToBase64_core length_enc_core b64_padding_def b64Cap_def)

lemma request_id_ok: "length bs = 16 \<Longrightarrow> REQUEST_ID_RE (randomRequestId bs) \<and> length (randomRequestId bs) = 32 \<and> plain_json (randomRequestId bs)"
proof -
  assume len: "length bs = 16"
  have "list_all (\<lambda>n. request_id_char (hex_digit n) \<and> plain_json [hex_digit n]) [0 ..< 16]" by code_simp
  then have digit: "request_id_char (hex_digit n) \<and> plain_json [hex_digit n]" if "n < 16" for n
    using that by (simp add: list_all_iff)
  have byte: "unat b div 16 < 16" for b :: byte using unat_byte_lt [of b] by simp
  have "length (randomRequestId bs) = 2 * length bs"
    by (induction bs) (simp_all add: randomRequestId_def)
  moreover have "list_all request_id_char (randomRequestId bs) \<and> plain_json (randomRequestId bs)"
    using digit byte by (induction bs) (auto simp: randomRequestId_def plain_json_def)
  ultimately show ?thesis using len by (simp add: REQUEST_ID_RE_def)
qed

text \<open>
  The events the application makes: a call of one of the three operations, with the texts of a passkey
  and a transaction within the signer's limits, and continuations with random request ids.
\<close>

definition short_plain :: "nat \<Rightarrow> string \<Rightarrow> bool" where
  "short_plain n s \<longleftrightarrow> length s \<le> n \<and> plain_json s"

definition from_app :: "api_kit \<Rightarrow> client_event \<Rightarrow> bool" where
  "from_app K e \<longleftrightarrow>
     (case e of
        StartCall _ _ _ \<Rightarrow>
          (\<exists>mode cred att. e = authenticate_call mode cred att \<and>
             pred_option (short_plain (b64Cap MAX_CREDENTIAL_ID_BYTES)) cred \<and> pred_option (short_plain (b64Cap MAX_BLOB_BYTES)) att) \<or>
          (\<exists>tx. e = signTransaction_call K tx \<and> tx \<noteq> [] \<and> length tx \<le> MAX_TX_BYTES) \<or>
          e = exportPrivateKey_call
      | Resume _ rid _ \<Rightarrow> (\<exists>bs. length bs = 16 \<and> rid = randomRequestId bs)
      | _ \<Rightarrow> True)"

text \<open>Messages are posted by continuations only, calls come from \<open>StartCall\<close> only.\<close>

lemma small_steps [simp]:
  "cl_posted (settle_call i out c) = cl_posted c" "length (cl_calls (settle_call i out c)) = length (cl_calls c)"
  "cl_posted (settle_arm k p c) = cl_posted c" "cl_calls (settle_arm k p c) = cl_calls c"
  "cl_posted (hide c) = cl_posted c" "cl_calls (hide c) = cl_calls c"
  "cl_posted (abortReady c) = cl_posted c" "cl_calls (abortReady c) = cl_calls c"
  "cl_posted (armReady f c) = cl_posted c" "cl_calls (armReady f c) = cl_calls c"
  "cl_posted (onReady s o' src d c) = cl_posted c" "cl_calls (onReady s o' src d c) = cl_calls c"
  using same_calls_steps [of c] settle_move [of c i out] unfolding same_calls_def
  by (auto simp: settle_call_def split: option.splits call_phase.splits)

lemma with_shell_frame [simp]:
  "cl_posted (fail_call i c) = cl_posted c" "length (cl_calls (fail_call i c)) = length (cl_calls c)"
  "cl_posted (with_ready i c) = cl_posted c" "length (cl_calls (with_ready i c)) = length (cl_calls c)"
  "cl_posted (with_shell i c) = cl_posted c" "length (cl_calls (with_shell i c)) = length (cl_calls c)"
proof -
  show f: "cl_posted (fail_call i c) = cl_posted c" "length (cl_calls (fail_call i c)) = length (cl_calls c)" for c
    by (simp_all add: fail_call_def)
  show r: "cl_posted (with_ready i c) = cl_posted c" "length (cl_calls (with_ready i c)) = length (cl_calls c)" for c
    by (simp_all add: with_ready_def f split: option.splits)
  show "cl_posted (with_shell i c) = cl_posted c" "length (cl_calls (with_shell i c)) = length (cl_calls c)"
    by (simp_all add: with_shell_def Let_def r)
qed

lemma cancel_frame [simp]:
  "cl_posted (cancelAllPending code c) = cl_posted c" "length (cl_calls (cancelAllPending code c)) = length (cl_calls c)"
proof -
  have "cl_posted (fold (\<lambda>(rid, rt, i). settle_call i (Inl code)) ps c) = cl_posted c \<and>
      length (cl_calls (fold (\<lambda>(rid, rt, i). settle_call i (Inl code)) ps c)) = length (cl_calls c)" for ps :: "(string \<times> string \<times> nat) list"
    by (induction ps arbitrary: c) auto
  then show "cl_posted (cancelAllPending code c) = cl_posted c" "length (cl_calls (cancelAllPending code c)) = length (cl_calls c)"
    by (simp_all add: cancelAllPending_def)
qed

lemma resume_posts:
  "length (cl_calls (resume i rid now c)) = length (cl_calls c) \<and>
   (cl_posted (resume i rid now c) = cl_posted c \<or>
    i < length (cl_calls c) \<and> cl_posted (resume i rid now c) = cl_posted c @ [(i, message_of (cl_calls c ! i) rid now)])"
proof (cases "nth_opt (cl_calls c) i")
  case None
  then have "resume i rid now c = c" unfolding resume_def None by simp
  then show ?thesis by simp
next
  case (Some k)
  then have i: "i < length (cl_calls c)" by (auto simp: nth_opt_def split: if_splits)
  have ph: "map_option sc_phase (nth_opt (cl_calls c) i) = Some (sc_phase k)" by (simp add: Some)
  have post: "length (cl_calls (post i rid now c)) = length (cl_calls c) \<and> (cl_posted (post i rid now c) = cl_posted c \<or>
      cl_posted (post i rid now c) = cl_posted c @ [(i, message_of (cl_calls c ! i) rid now)])"
    by (simp add: post_def)
  show ?thesis
    unfolding resume_def ph using i post
    by (auto simp: Let_def split: call_phase.splits promise.splits option.splits)
qed

lemma step_posts:
  "cl_posted (client_step signer js_string e c) = cl_posted c \<or>
   (\<exists>i rid now. e = Resume i rid now \<and> i < length (cl_calls c) \<and>
      cl_posted (client_step signer js_string e c) = cl_posted c @ [(i, message_of (cl_calls c ! i) rid now)])"
proof (cases e)
  case (Resume i rid now)
  then show ?thesis using resume_posts [of i rid now c] by auto
qed (auto simp: start_call_def attachShell_def detachShell_def rejectIframeWaiters_def attachIframe_def detachIframe_def
    onMessage_def wait_timeout_def request_timeout_def Let_def split: option.splits js.splits call_phase.splits promise.splits)

lemma step_calls:
  "length (cl_calls (client_step signer js_string e c)) = length (cl_calls c) \<or>
   (\<exists>ty rt payload. e = StartCall ty rt payload)"
proof (cases e)
  case (Resume i rid now)
  then show ?thesis using resume_posts [of i rid now c] by auto
qed (auto simp: attachShell_def detachShell_def rejectIframeWaiters_def attachIframe_def detachIframe_def
    onMessage_def wait_timeout_def request_timeout_def Let_def split: option.splits js.splits call_phase.splits promise.splits)

lemma start_calls:
  "\<exists>p. cl_calls (start_call ty rt payload c) ! length (cl_calls c) =
     \<lparr>sc_type = ty, sc_resultType = rt, sc_payload = payload, sc_phase = p\<rparr>"
  "length (cl_calls (start_call ty rt payload c)) = Suc (length (cl_calls c))"
proof -
  let ?k = "\<lparr>sc_type = ty, sc_resultType = rt, sc_payload = payload, sc_phase = NeedShell Waiting\<rparr>"
  let ?d = "c\<lparr>cl_calls := cl_calls c @ [?k]\<rparr>"
  have "calls_move ?d (with_shell (length (cl_calls c)) ?d)"
    using quiet_with_shell [of ?d "length (cl_calls c)"] by (simp add: in_flight_def quiet_def)
  then have "cl_calls (with_shell (length (cl_calls c)) ?d) ! length (cl_calls c) =
      ?k\<lparr>sc_phase := phase_of (with_shell (length (cl_calls c)) ?d) (length (cl_calls c))\<rparr>"
    unfolding calls_move_def by (elim conjE allE [of _ "length (cl_calls c)"]) simp
  then show "\<exists>p. cl_calls (start_call ty rt payload c) ! length (cl_calls c) =
     \<lparr>sc_type = ty, sc_resultType = rt, sc_payload = payload, sc_phase = p\<rparr>"
    by (auto simp: start_call_def Let_def)
  show "length (cl_calls (start_call ty rt payload c)) = Suc (length (cl_calls c))"
    by (simp add: start_call_def Let_def)
qed

lemma posted_of_run:
  fixes signer :: string and js_string :: "js \<Rightarrow> string"
  assumes "\<forall>e \<in> set es. from_app K e"
  defines "c \<equiv> client_run signer js_string es"
  shows "(\<forall>i < length (cl_calls c). StartCall (sc_type (cl_calls c ! i)) (sc_resultType (cl_calls c ! i)) (sc_payload (cl_calls c ! i)) \<in> set es) \<and>
    (\<forall>(i, m) \<in> set (cl_posted c). i < length (cl_calls c) \<and>
      (\<exists>bs now. length bs = 16 \<and> m = message_of (cl_calls c ! i) (randomRequestId bs) now))"
  using assms(1) unfolding c_def
proof (induction es rule: rev_induct)
  case Nil
  then show ?case by (simp add: client_run_def new_client_def)
next
  case (snoc e es)
  let ?c = "client_run signer js_string es" and ?d = "client_run signer js_string (es @ [e])"
  have d: "?d = client_step signer js_string e ?c" by (simp add: client_run_def)
  have ih1: "StartCall (sc_type (cl_calls ?c ! i)) (sc_resultType (cl_calls ?c ! i)) (sc_payload (cl_calls ?c ! i)) \<in> set es"
    if "i < length (cl_calls ?c)" for i using snoc that by simp
  have ih2: "i < length (cl_calls ?c) \<and> (\<exists>bs now. length bs = 16 \<and> m = message_of (cl_calls ?c ! i) (randomRequestId bs) now)"
    if "(i, m) \<in> set (cl_posted ?c)" for i m using snoc that by fastforce
  have move: "calls_move ?c ?d" using step_fine_all [OF run_ok, of signer e signer js_string es js_string]
    by (simp add: step_fine_def d)
  then have len: "length (cl_calls ?c) \<le> length (cl_calls ?d)"
    and same: "cl_calls ?d ! i = (cl_calls ?c ! i)\<lparr>sc_phase := phase_of ?d i\<rparr>" if "i < length (cl_calls ?c)" for i
    using that by (simp_all add: calls_move_def)
  have same': "sc_type (cl_calls ?d ! i) = sc_type (cl_calls ?c ! i) \<and> sc_resultType (cl_calls ?d ! i) = sc_resultType (cl_calls ?c ! i) \<and>
      sc_payload (cl_calls ?d ! i) = sc_payload (cl_calls ?c ! i)" if "i < length (cl_calls ?c)" for i
    by (subst (1 2 3) same [OF that]) simp
  have msg: "message_of (cl_calls ?d ! i) = message_of (cl_calls ?c ! i)" if "i < length (cl_calls ?c)" for i
    using same' [OF that] by (simp add: message_of_def fun_eq_iff)
  have "StartCall (sc_type (cl_calls ?d ! i)) (sc_resultType (cl_calls ?d ! i)) (sc_payload (cl_calls ?d ! i)) \<in> set (es @ [e])"
    if "i < length (cl_calls ?d)" for i
  proof (cases "i < length (cl_calls ?c)")
    case True
    then show ?thesis using ih1 [OF True] same' [OF True] by simp
  next
    case False
    with that step_calls [of signer js_string e ?c] obtain ty rt payload where e: "e = StartCall ty rt payload"
      unfolding d by auto
    have dd: "?d = start_call ty rt payload ?c" using d e by simp
    have "i = length (cl_calls ?c)" using False that start_calls(2) [of ty rt payload ?c] unfolding dd by linarith
    with start_calls(1) [of ty rt payload ?c] obtain q where
      "cl_calls ?d ! i = \<lparr>sc_type = ty, sc_resultType = rt, sc_payload = payload, sc_phase = q\<rparr>" unfolding dd by auto
    then have "StartCall (sc_type (cl_calls ?d ! i)) (sc_resultType (cl_calls ?d ! i)) (sc_payload (cl_calls ?d ! i)) = e"
      by (simp add: e)
    then show ?thesis by simp
  qed
  moreover have "i < length (cl_calls ?d) \<and> (\<exists>bs now. length bs = 16 \<and> m = message_of (cl_calls ?d ! i) (randomRequestId bs) now)"
    if m: "(i, m) \<in> set (cl_posted ?d)" for i m
  proof -
    have "i < length (cl_calls ?c) \<and> (\<exists>bs now. length bs = 16 \<and> m = message_of (cl_calls ?c ! i) (randomRequestId bs) now)"
    proof (cases "(i, m) \<in> set (cl_posted ?c)")
      case True
      then show ?thesis by (rule ih2)
    next
      case False
      with m step_posts [of signer js_string e ?c] obtain rid now where "e = Resume i rid now" "i < length (cl_calls ?c)"
        "m = message_of (cl_calls ?c ! i) rid now" unfolding d by auto
      with snoc.prems show ?thesis by (auto simp: from_app_def)
    qed
    with msg move show ?thesis by (auto simp: calls_move_def)
  qed
  ultimately show ?case by auto
qed

text \<open>The size of a message of texts and numbers.\<close>

fun value_length :: "(rat \<Rightarrow> string) \<Rightarrow> js \<Rightarrow> nat" where
  "value_length num (JString s) = length s + 2"
| "value_length num (JNumber q) = length (num q)"
| "value_length num _ = 0"

definition plain_value :: "js \<Rightarrow> bool" where
  "plain_value v \<longleftrightarrow> (\<exists>s. v = JString s \<and> plain_json s) \<or> (\<exists>q. v = JNumber q)"

definition member_lengths :: "(rat \<Rightarrow> string) \<Rightarrow> (string \<times> js) list \<Rightarrow> nat" where
  "member_lengths num ps = sum_list (map (\<lambda>(k, v). 6 * length k + 4 + value_length num v) ps)"

lemma members_length:
  "list_all (\<lambda>(k, v). plain_value v) ps \<Longrightarrow>
     \<exists>ts. json_members num ps = Some ts \<and> length (join '','' ts) \<le> member_lengths num ps"
proof (induction ps)
  case (Cons p ps)
  obtain k v where p: "p = (k, v)" by force
  from Cons obtain ts where ts: "json_members num ps = Some ts" "length (join '','' ts) \<le> member_lengths num ps" by auto
  from Cons.prems p obtain t where t: "json_text num v = Some (Some t)" "length t = value_length num v"
    by (auto simp: plain_value_def json_plain)
  have "length (join '','' ((json_string k @ '':'' @ t) # ts)) \<le> length (json_string k) + 2 + length t + length (join '','' ts)"
    by (cases ts) simp_all
  with ts t json_string_length [of k] show ?case by (simp add: p member_lengths_def)
qed (simp add: member_lengths_def)

lemma message_length:
  assumes "list_all (\<lambda>(k, v). plain_value v) ps" "member_lengths num ps \<le> 8000"
  shows "\<exists>sz. messageByteLength num (JObject ps) = Some sz \<and> sz \<le> MAX_MESSAGE_BYTES"
proof -
  from members_length [OF assms(1)] obtain ts where ts: "json_members num ps = Some ts"
    "length (join '','' ts) \<le> member_lengths num ps" by blast
  have "length (utf8ToBytes (''{'' @ join '','' ts @ ''}'')) \<le> 2 * length (''{'' @ join '','' ts @ ''}'')"
    by (rule utf8_length)
  with ts assms(2) show ?thesis by (simp add: messageByteLength_def MAX_MESSAGE_BYTES_def)
qed

lemma accepted_message:
  assumes "serialises m r" "wf_request r" "list_all (\<lambda>(k, v). plain_value v) m" "member_lengths num m \<le> 8000"
  shows "validateInbound num (JObject m) = VOk r"
  using message_length [OF assms(3,4)] assms(1,2) by (auto simp: validateInbound_VOk_iff)

lemma caps: "b64Cap MAX_TX_BYTES = 5466" "b64Cap MAX_CREDENTIAL_ID_BYTES = 346" "b64Cap MAX_BLOB_BYTES = 1370"
  by (simp_all add: b64Cap_def MAX_TX_BYTES_def MAX_CREDENTIAL_ID_BYTES_def MAX_BLOB_BYTES_def)

definition kept :: "string option \<Rightarrow> string option" where
  "kept v = (if or_else v '''' = '''' then None else v)"

lemma auth_accepted:
  assumes "REQUEST_ID_RE rid" "length rid = 32" "plain_json rid" "\<And>q. length (num q) \<le> 100"
    "pred_option (short_plain (b64Cap MAX_CREDENTIAL_ID_BYTES)) cred" "pred_option (short_plain (b64Cap MAX_BLOB_BYTES)) att"
    and k: "authenticate_call mode cred att = StartCall (sc_type k) rt (sc_payload k)"
  shows "\<exists>r. validateInbound num (JObject (message_of k rid now)) = VOk r \<and> RESULT_TYPE (type_of_body (body r)) = rt \<and>
    body r = AuthStart (Some (if mode = Some Create then Create else Unlock)) (kept cred) (kept att)"
proof -
  let ?m = "if mode = Some Create then Create else Unlock"
  let ?r = "\<lparr>protocolVersion = PROTOCOL_VERSION, requestId = rid, timestamp = now, body = AuthStart (Some ?m) (kept cred) (kept att)\<rparr>"
  from k have k': "sc_type k = ''AUTH_START''" "rt = ''AUTH_COMPLETE''"
    "sc_payload k = [(''authMode'', JString (if mode = Some Create then ''create'' else ''unlock''))] @
        optional_field ''credentialId'' cred @ optional_field ''webauthnAttestationObject'' att"
    by (simp_all add: authenticate_call_def)
  note defs = message_of_def versions_agree k' optional_field_def kept_def
  have modes: "plain_json ''create''" "plain_json ''unlock''" "plain_json ''AUTH_START''" by code_simp+
  have "serialises (message_of k rid now) ?r"
    by (cases cred; cases att) (auto simp: defs serialises_def request_fields_def jget_def mode_js_def opt_js_def)
  moreover have "wf_request ?r"
    using assms(1,5,6) by (cases cred; cases att) (auto simp: wf_request_def kept_def short_plain_def short_string_def)
  moreover have "list_all (\<lambda>(k, v). plain_value v) (message_of k rid now)"
    using assms(3,5,6) modes by (cases cred; cases att) (auto simp: defs plain_value_def short_plain_def)
  moreover have "member_lengths num (message_of k rid now) \<le> 8000"
    using assms(2,5,6) assms(4) [of now] assms(4) [of "of_nat PROTOCOL_VERSION"]
    by (cases cred; cases att) (auto simp: defs member_lengths_def short_plain_def caps)
  ultimately show ?thesis using k' by (intro exI [of _ ?r]) (simp add: accepted_message)
qed

lemma sign_accepted:
  assumes "REQUEST_ID_RE rid" "length rid = 32" "plain_json rid" "\<And>q. length (num q) \<le> 100"
    "api_kit_ok K" "tx \<noteq> []" "length tx \<le> MAX_TX_BYTES"
    and k: "signTransaction_call K tx = StartCall (sc_type k) rt (sc_payload k)"
  shows "\<exists>r. validateInbound num (JObject (message_of k rid now)) = VOk r \<and> RESULT_TYPE (type_of_body (body r)) = rt \<and>
    body r = SignTransaction (bytesToBase64 tx Std)"
proof -
  let ?t = "bytesToBase64 tx Std"
  let ?r = "\<lparr>protocolVersion = PROTOCOL_VERSION, requestId = rid, timestamp = now, body = SignTransaction ?t\<rparr>"
  from k assms(5) have k': "sc_type k = ''SIGN_TRANSACTION''" "rt = ''SIGN_TRANSACTION_RESULT''"
    "sc_payload k = [(''transaction'', JString ?t)]"
    by (simp_all add: signTransaction_call_def api_kit_ok_def)
  note defs = message_of_def versions_agree k'
  have cap: "length ?t \<le> 5466"
    using base64_length [of tx] assms(7) caps(1) by (simp add: b64Cap_def MAX_TX_BYTES_def)
  have ne: "?t \<noteq> ''''" by (rule bytesToBase64_nonempty [OF assms(6)])
  have ty: "plain_json ''SIGN_TRANSACTION''" by code_simp
  have "serialises (message_of k rid now) ?r"
    by (auto simp: defs serialises_def request_fields_def jget_def)
  moreover have "wf_request ?r" using assms(1) cap ne by (simp add: wf_request_def short_string_def caps)
  moreover have "list_all (\<lambda>(k, v). plain_value v) (message_of k rid now)"
    using assms(3) base64_plain ty by (simp add: defs plain_value_def)
  moreover have "member_lengths num (message_of k rid now) \<le> 8000"
    using assms(2) cap assms(4) [of now] assms(4) [of "of_nat PROTOCOL_VERSION"] by (simp add: defs member_lengths_def)
  ultimately show ?thesis using k' by (intro exI [of _ ?r]) (simp add: accepted_message)
qed

lemma export_accepted:
  assumes "REQUEST_ID_RE rid" "length rid = 32" "plain_json rid" "\<And>q. length (num q) \<le> 100"
    and k: "exportPrivateKey_call = StartCall (sc_type k) rt (sc_payload k)"
  shows "\<exists>r. validateInbound num (JObject (message_of k rid now)) = VOk r \<and> RESULT_TYPE (type_of_body (body r)) = rt \<and>
    body r = ExportPrivateKey"
proof -
  let ?r = "\<lparr>protocolVersion = PROTOCOL_VERSION, requestId = rid, timestamp = now, body = ExportPrivateKey\<rparr>"
  from k have k': "sc_type k = ''EXPORT_PRIVATE_KEY''" "rt = ''EXPORT_PRIVATE_KEY_RESULT''" "sc_payload k = []"
    by (simp_all add: exportPrivateKey_call_def)
  note defs = message_of_def versions_agree k'
  have ty: "plain_json ''EXPORT_PRIVATE_KEY''" by code_simp
  have "serialises (message_of k rid now) ?r"
    by (auto simp: defs serialises_def request_fields_def jget_def)
  moreover have "wf_request ?r" using assms(1) by (simp add: wf_request_def)
  moreover have "list_all (\<lambda>(k, v). plain_value v) (message_of k rid now)"
    using assms(3) ty by (simp add: defs plain_value_def)
  moreover have "member_lengths num (message_of k rid now) \<le> 8000"
    using assms(2) assms(4) [of now] assms(4) [of "of_nat PROTOCOL_VERSION"] by (simp add: defs member_lengths_def)
  ultimately show ?thesis using k' by (intro exI [of _ ?r]) (simp add: accepted_message)
qed

text \<open>
  C5: The client and the signer speak the same protocol.  Whatever the application calls, with the texts of
  its passkeys and transactions within the signer's limits, and whatever happens meanwhile: each message the client
  posts is accepted by the signer's validator as a well-formed request, the result the client waits for is
  the one the signer answers that request with, and a transaction the signer reads out of the message is, byte for byte,
  one the application gave to the client.
\<close>
theorem requests_are_accepted:
  assumes K: "api_kit_ok K" and num: "\<forall>q. length (num q) \<le> 100" and app: "\<forall>e \<in> set es. from_app K e"
    and m: "(i, m) \<in> set (cl_posted (client_run signer js_string es))"
  shows "\<exists>r. validateInbound num (JObject m) = VOk r \<and>
    RESULT_TYPE (type_of_body (body r)) = sc_resultType (cl_calls (client_run signer js_string es) ! i) \<and>
    (\<forall>s. body r = SignTransaction s \<longrightarrow>
       (\<exists>tx. signTransaction_call K tx \<in> set es \<and> base64ToBytes s MAX_TX_BYTES Std = Inr tx))"
proof -
  let ?k = "cl_calls (client_run signer js_string es) ! i"
  from posted_of_run [OF app, of signer js_string] m obtain bs now where
    start: "StartCall (sc_type ?k) (sc_resultType ?k) (sc_payload ?k) \<in> set es"
    and bs: "length bs = 16" "m = message_of ?k (randomRequestId bs) now" by fastforce
  note rid = request_id_ok [OF bs(1)]
  from app start have "from_app K (StartCall (sc_type ?k) (sc_resultType ?k) (sc_payload ?k))" by blast
  then consider (auth) mode cred att where "authenticate_call mode cred att = StartCall (sc_type ?k) (sc_resultType ?k) (sc_payload ?k)"
      "pred_option (short_plain (b64Cap MAX_CREDENTIAL_ID_BYTES)) cred" "pred_option (short_plain (b64Cap MAX_BLOB_BYTES)) att"
    | (sign) tx where "signTransaction_call K tx = StartCall (sc_type ?k) (sc_resultType ?k) (sc_payload ?k)" "tx \<noteq> []"
      "length tx \<le> MAX_TX_BYTES"
    | (export) "exportPrivateKey_call = StartCall (sc_type ?k) (sc_resultType ?k) (sc_payload ?k)"
    unfolding from_app_def by auto
  then show ?thesis
  proof cases
    case auth
    from auth_accepted [OF _ _ _ _ auth(2,3,1), of "randomRequestId bs" num now] rid num bs(2) show ?thesis by auto
  next
    case sign
    from sign_accepted [OF _ _ _ _ K sign(2,3,1), of "randomRequestId bs" num now] rid num obtain r where
      "validateInbound num (JObject m) = VOk r" "RESULT_TYPE (type_of_body (body r)) = sc_resultType ?k"
      "body r = SignTransaction (bytesToBase64 tx Std)" unfolding bs(2) by auto
    moreover have "signTransaction_call K tx \<in> set es" using start sign(1) by simp
    moreover have "base64ToBytes (bytesToBase64 tx Std) MAX_TX_BYTES Std = Inr tx" by (rule base64_roundtrip [OF sign(3)])
    ultimately show ?thesis by auto
  next
    case export
    from export_accepted [OF _ _ _ _ export, of "randomRequestId bs" num now] rid num bs(2) show ?thesis by auto
  qed
qed


definition sample_sign_run :: "client_event list" where
  "sample_sign_run =
     [signTransaction_call sample_api_kit [1, 2, 3], AttachShell, Resume 0 (randomRequestId (replicate 16 7)) 0, AttachIframe 7,
      MessageFrom ''https://signer.revibase.com'' 7 [(''type'', JString ''SIGNER_READY'')],
      Resume 0 (randomRequestId (replicate 16 7)) 0, Resume 0 (randomRequestId (replicate 16 7)) 5]"

definition sample_posted :: "(string \<times> js) list" where
  "sample_posted = message_of \<lparr>sc_type = ''SIGN_TRANSACTION'', sc_resultType = ''SIGN_TRANSACTION_RESULT'',
     sc_payload = [(''transaction'', JString ''AQID'')], sc_phase = NeedShell Waiting\<rparr> (randomRequestId (replicate 16 7)) 5"

lemma sample_sign_end:
  "map (\<lambda>k. (sc_type k, sc_resultType k)) (cl_calls (client_run ''https://signer.revibase.com'' js_text sample_sign_run)) =
     [(''SIGN_TRANSACTION'', ''SIGN_TRANSACTION_RESULT'')]"
  "cl_posted (client_run ''https://signer.revibase.com'' js_text sample_sign_run) = [(0, sample_posted)]"
  by code_simp+

lemma from_app_resume: "length bs = 16 \<Longrightarrow> from_app K (Resume i (randomRequestId bs) now)"
  by (auto simp: from_app_def)

theorem requests_are_accepted_witness:
  "\<exists>r. validateInbound (\<lambda>_. ''1'') (JObject sample_posted) = VOk r \<and> RESULT_TYPE (type_of_body (body r)) = ''SIGN_TRANSACTION_RESULT''"
proof -
  let ?c = "client_run ''https://signer.revibase.com'' js_text sample_sign_run"
  have app: "\<forall>e \<in> set sample_sign_run. from_app sample_api_kit e"
    by (auto simp: sample_sign_run_def from_app_resume MAX_TX_BYTES_def) (auto simp: from_app_def signTransaction_call_def MAX_TX_BYTES_def)
  have m: "(0, sample_posted) \<in> set (cl_posted ?c)" by (simp add: sample_sign_end(2))
  from sample_sign_end(1) have "sc_resultType (cl_calls ?c ! 0) = ''SIGN_TRANSACTION_RESULT''"
    by (cases "cl_calls ?c") auto
  with requests_are_accepted [OF sample_api_kit_ok _ app m, of "\<lambda>_. ''1''"] show ?thesis by auto
qed

end
