(* ===== verification/Compile.thy ===== *)
theory Compile
  imports TxPolicy "HOL-Library.Sublist"
begin

text \<open>
  The compact form of wallet transactions (\<open>wallet/compile.ts\<close> of the SDK): the instructions a wallet
  executes refer to a table of accounts by index, in which each address occurs once with the union of
  the privileges its uses need.  The address of the token program comes from a package outside the
  repository and is a parameter.
\<close>

subsection \<open>The table of remaining accounts\<close>

text \<open>The list \<open>remainingAccounts\<close> and the map \<open>indexByAddress\<close>.\<close>

record account_table =
  tb_accounts :: "account_meta list"
  tb_index :: "address \<rightharpoonup> nat"

definition empty_table :: account_table where
  "empty_table = \<lparr>tb_accounts = [], tb_index = (\<lambda>_. None)\<rparr>"

definition getOrInsertRemainingAccount :: "kit \<Rightarrow> account_table \<Rightarrow> account_meta \<Rightarrow> account_table \<times> nat" where
  "getOrInsertRemainingAccount k tb meta =
     (case tb_index tb (am_address meta) of
        Some existing \<Rightarrow>
          (let current = tb_accounts tb ! existing;
               merged = k_mergeRoles k (am_role current) (am_role meta) in
           (if merged \<noteq> am_role current
            then tb\<lparr>tb_accounts := (tb_accounts tb)[existing := \<lparr>am_address = am_address current, am_role = merged\<rparr>]\<rparr>
            else tb, existing))
      | None \<Rightarrow>
          (let index = length (tb_accounts tb) in
           (\<lparr>tb_accounts = tb_accounts tb @ [meta], tb_index = (tb_index tb)(am_address meta \<mapsto> index)\<rparr>, index)))"

definition downgradeWalletSignerRole :: "kit \<Rightarrow> account_meta \<Rightarrow> address \<Rightarrow> account_meta" where
  "downgradeWalletSignerRole k meta walletPda =
     (if am_address meta \<noteq> walletPda \<or> \<not> k_isSignerRole k (am_role meta) then meta
      else \<lparr>am_address = am_address meta, am_role = k_downgradeToNonSigner k (am_role meta)\<rparr>)"

definition elevateRemainingForExecuteChallenge ::
  "kit \<Rightarrow> account_meta list \<Rightarrow> address list \<Rightarrow> address list \<Rightarrow> account_meta list" where
  "elevateRemainingForExecuteChallenge k remaining writables signers =
     (if writables = [] \<and> signers = [] then remaining
      else map (\<lambda>meta.
        let r = am_role meta;
            r = (if am_address meta \<in> set signers then k_upgradeToSigner k r else r);
            r = (if am_address meta \<in> set writables then k_upgradeToWritable k r else r) in
        if r = am_role meta then meta else \<lparr>am_address = am_address meta, am_role = r\<rparr>) remaining)"

subsection \<open>Compiling\<close>

definition DENIED_PROGRAMS :: "address \<Rightarrow> address list" where
  "DENIED_PROGRAMS tokenProgram = [PHYGITAL_WALLET_PROGRAM_ADDRESS, tokenProgram]"

text \<open>The loop over the accounts of one instruction.  \<open>Uint8Array.from\<close> keeps an index modulo 256.\<close>

fun compile_accounts :: "kit \<Rightarrow> address \<Rightarrow> account_table \<Rightarrow> account_meta list \<Rightarrow> account_table \<times> nat list" where
  "compile_accounts k walletPda tb [] = (tb, [])"
| "compile_accounts k walletPda tb (account # rest) =
     (let (tb, i) = getOrInsertRemainingAccount k tb (downgradeWalletSignerRole k account walletPda);
          (tb, is) = compile_accounts k walletPda tb rest in
      (tb, i # is))"

definition uint8 :: "nat \<Rightarrow> nat" where
  "uint8 n = unat (word_of_nat n :: byte)"

fun compile_loop ::
  "kit \<Rightarrow> address \<Rightarrow> address \<Rightarrow> account_table \<Rightarrow> kit_instruction list \<Rightarrow>
   (account_table \<times> compact_instruction list) option" where
  "compile_loop k tokenProgram walletPda tb [] = Some (tb, [])"
| "compile_loop k tokenProgram walletPda tb (ix # rest) =
     (if ix_program ix \<in> set (DENIED_PROGRAMS tokenProgram) then None
      else
        let (tb, programIndex) = getOrInsertRemainingAccount k tb \<lparr>am_address = ix_program ix, am_role = READONLY\<rparr>;
            (tb, accountIndexes) = compile_accounts k walletPda tb
              (case ix_accounts ix of Some as \<Rightarrow> as | None \<Rightarrow> []) in
        map_option (\<lambda>(tb, cs).
          (tb, \<lparr>ci_program = programIndex, ci_accounts = map uint8 accountIndexes,
                ci_data = (case ix_data ix of Some d \<Rightarrow> d | None \<Rightarrow> [])\<rparr> # cs))
          (compile_loop k tokenProgram walletPda tb rest))"

definition compileWalletInstructions ::
  "kit \<Rightarrow> address \<Rightarrow> kit_instruction list \<Rightarrow> address \<Rightarrow> (account_meta list \<times> compact_instruction list) option" where
  "compileWalletInstructions k tokenProgram ixs walletPda =
     (if ixs = [] then None
      else map_option (\<lambda>(tb, cs). (elevateRemainingForExecuteChallenge k (tb_accounts tb) [walletPda] [], cs))
        (compile_loop k tokenProgram walletPda empty_table ixs))"

subsection \<open>The table invariant\<close>

definition table_addrs :: "account_table \<Rightarrow> address list" where
  "table_addrs tb = map am_address (tb_accounts tb)"

text \<open>The privileges the uses \<open>ms\<close> of an address need together.\<close>

definition needs_signer :: "account_meta list \<Rightarrow> address \<Rightarrow> bool" where
  "needs_signer ms a \<longleftrightarrow> (\<exists>m \<in> set ms. am_address m = a \<and> is_signer (am_role m))"

definition needs_writable :: "account_meta list \<Rightarrow> address \<Rightarrow> bool" where
  "needs_writable ms a \<longleftrightarrow> (\<exists>m \<in> set ms. am_address m = a \<and> is_writable (am_role m))"

lemma needs_append [simp]:
  "needs_signer (ms @ ns) a \<longleftrightarrow> needs_signer ms a \<or> needs_signer ns a"
  "needs_writable (ms @ ns) a \<longleftrightarrow> needs_writable ms a \<or> needs_writable ns a"
  by (auto simp: needs_signer_def needs_writable_def)

lemma needs_single [simp]:
  "needs_signer [m] a \<longleftrightarrow> am_address m = a \<and> is_signer (am_role m)"
  "needs_writable [m] a \<longleftrightarrow> am_address m = a \<and> is_writable (am_role m)"
  "\<not> needs_signer [] a" "\<not> needs_writable [] a"
  by (auto simp: needs_signer_def needs_writable_def)

text \<open>
  The index agrees with the positions in the table, the table holds the addresses used, and each entry
  has exactly the privileges its uses need.
\<close>

definition table_ok :: "account_table \<Rightarrow> account_meta list \<Rightarrow> bool" where
  "table_ok tb ms \<longleftrightarrow>
     (\<forall>a i. tb_index tb a = Some i \<longleftrightarrow> i < length (tb_accounts tb) \<and> am_address (tb_accounts tb ! i) = a) \<and>
     set (table_addrs tb) = am_address ` set ms \<and>
     (\<forall>i < length (tb_accounts tb). am_role (tb_accounts tb ! i) =
        role_of (needs_signer ms (am_address (tb_accounts tb ! i))) (needs_writable ms (am_address (tb_accounts tb ! i))))"

lemma table_ok_empty [simp]: "table_ok empty_table []"
  by (simp add: table_ok_def empty_table_def table_addrs_def)

lemma table_ok_distinct: "table_ok tb ms \<Longrightarrow> distinct (table_addrs tb)"
  unfolding table_ok_def table_addrs_def distinct_conv_nth by (auto, metis option.inject)

lemma needs_not_used:
  "a \<notin> am_address ` set ms \<Longrightarrow> \<not> needs_signer ms a \<and> \<not> needs_writable ms a"
  by (auto simp: needs_signer_def needs_writable_def)

lemma account_meta_eta [simp]: "\<lparr>am_address = am_address m, am_role = am_role m\<rparr> = m"
  by (cases m) simp

lemma getOrInsert_ok:
  assumes tb: "table_ok tb ms" and k: "kit_roles_ok k" and r: "getOrInsertRemainingAccount k tb m = (tb', i)"
  shows "table_ok tb' (ms @ [m])" "prefix (table_addrs tb) (table_addrs tb')"
    "i < length (table_addrs tb')" "table_addrs tb' ! i = am_address m"
proof -
  have all: "table_ok tb' (ms @ [m]) \<and> prefix (table_addrs tb) (table_addrs tb') \<and>
      i < length (table_addrs tb') \<and> table_addrs tb' ! i = am_address m"
  proof (cases "tb_index tb (am_address m)")
    case (Some e)
    let ?cur = "tb_accounts tb ! e"
    let ?new = "\<lparr>am_address = am_address ?cur, am_role = role_of (is_signer (am_role ?cur) \<or> is_signer (am_role m))
      (is_writable (am_role ?cur) \<or> is_writable (am_role m))\<rparr>"
    from tb Some have e: "e < length (tb_accounts tb)" "am_address ?cur = am_address m"
      by (auto simp: table_ok_def)
    have tb': "tb' = tb\<lparr>tb_accounts := (tb_accounts tb)[e := ?new]\<rparr>" and i: "i = e"
      using r k Some list_update_id [of "tb_accounts tb" e]
      by (auto simp: getOrInsertRemainingAccount_def Let_def kit_roles_ok_def split: if_splits)
    have addrs: "table_addrs tb' = table_addrs tb"
      using e(1) by (simp add: tb' table_addrs_def list_eq_iff_nth_eq nth_list_update)
    have role: "am_role ((tb_accounts tb)[e := ?new] ! j) =
        role_of (needs_signer (ms @ [m]) (am_address ((tb_accounts tb)[e := ?new] ! j)))
          (needs_writable (ms @ [m]) (am_address ((tb_accounts tb)[e := ?new] ! j)))"
      if j: "j < length (tb_accounts tb)" for j
    proof (cases "j = e")
      case True
      with tb e show ?thesis by (auto simp: table_ok_def)
    next
      case False
      with tb e Some j have "am_address (tb_accounts tb ! j) \<noteq> am_address m"
        by (auto simp: table_ok_def) (metis option.inject)
      with tb j False show ?thesis by (auto simp: table_ok_def)
    qed
    have idx: "tb_index tb' a = Some j \<longleftrightarrow> j < length (tb_accounts tb') \<and> am_address (tb_accounts tb' ! j) = a" for a j
    proof -
      have "am_address ((tb_accounts tb)[e := ?new] ! j) = am_address (tb_accounts tb ! j)"
        using e(1) by (cases "j = e") simp_all
      with tb show ?thesis by (auto simp: table_ok_def tb')
    qed
    have used: "am_address m \<in> am_address ` set ms" using tb e by (metis nth_mem table_addrs_def table_ok_def image_eqI set_map)
    have "table_ok tb' (ms @ [m])"
      unfolding table_ok_def
    proof (intro conjI allI impI)
      show "set (table_addrs tb') = am_address ` set (ms @ [m])"
        using addrs tb used by (simp add: table_ok_def insert_absorb)
    qed (use idx role in \<open>simp_all add: tb'\<close>)
    moreover have "table_addrs tb ! e = am_address m" "e < length (table_addrs tb)"
      using e by (simp_all add: table_addrs_def)
    ultimately show ?thesis by (simp add: addrs i)
  next
    case None
    let ?n = "length (tb_accounts tb)"
    have tb': "tb' = \<lparr>tb_accounts = tb_accounts tb @ [m], tb_index = (tb_index tb)(am_address m \<mapsto> ?n)\<rparr>" and i: "i = ?n"
      using r None by (auto simp: getOrInsertRemainingAccount_def Let_def)
    have new: "j < ?n \<Longrightarrow> am_address (tb_accounts tb ! j) \<noteq> am_address m" for j
      using tb None by (auto simp: table_ok_def) (metis option.distinct(1))
    then have "am_address m \<notin> set (table_addrs tb)" by (auto simp: table_addrs_def in_set_conv_nth) metis
    with tb have fresh: "\<not> needs_signer ms (am_address m)" "\<not> needs_writable ms (am_address m)"
      by (auto simp: table_ok_def dest!: needs_not_used)
    have idx: "tb_index tb' a = Some j \<longleftrightarrow> j < length (tb_accounts tb') \<and> am_address (tb_accounts tb' ! j) = a" for a j
      using tb new [of j] by (auto simp: table_ok_def tb' nth_append less_Suc_eq)
    have "am_role (tb_accounts tb' ! j) = role_of (needs_signer (ms @ [m]) (am_address (tb_accounts tb' ! j)))
        (needs_writable (ms @ [m]) (am_address (tb_accounts tb' ! j)))" if "j < length (tb_accounts tb')" for j
      using that tb new [of j] fresh by (cases "j = ?n") (auto simp: table_ok_def tb' nth_append)
    with tb idx show ?thesis
      by (auto simp: table_ok_def) (simp_all add: tb' table_addrs_def nth_append i)
  qed
  then show "table_ok tb' (ms @ [m])" "prefix (table_addrs tb) (table_addrs tb')"
    "i < length (table_addrs tb')" "table_addrs tb' ! i = am_address m" by blast+
qed

subsection \<open>What the loops do\<close>

text \<open>The accounts the code looks up or inserts for an instruction, in order.\<close>

definition ix_metas :: "kit_instruction \<Rightarrow> account_meta list" where
  "ix_metas ix = (case ix_accounts ix of Some as \<Rightarrow> as | None \<Rightarrow> [])"

definition ix_bytes :: "kit_instruction \<Rightarrow> bytes" where
  "ix_bytes ix = (case ix_data ix of Some d \<Rightarrow> d | None \<Rightarrow> [])"

definition uses_of :: "kit \<Rightarrow> address \<Rightarrow> kit_instruction \<Rightarrow> account_meta list" where
  "uses_of k walletPda ix =
     \<lparr>am_address = ix_program ix, am_role = READONLY\<rparr> #
     map (\<lambda>m. downgradeWalletSignerRole k m walletPda) (ix_metas ix)"

lemma downgrade_address [simp]: "am_address (downgradeWalletSignerRole k m p) = am_address m"
  by (simp add: downgradeWalletSignerRole_def)

lemma prefix_nth: "prefix xs ys \<Longrightarrow> i < length xs \<Longrightarrow> ys ! i = xs ! i"
  by (auto simp: prefix_def nth_append)

lemma compile_accounts_ok:
  assumes "kit_roles_ok k"
  shows "table_ok tb ms \<Longrightarrow> compile_accounts k p tb as = (tb', is) \<Longrightarrow>
    table_ok tb' (ms @ map (\<lambda>m. downgradeWalletSignerRole k m p) as) \<and> prefix (table_addrs tb) (table_addrs tb') \<and>
    (\<forall>i \<in> set is. i < length (table_addrs tb')) \<and> map ((!) (table_addrs tb')) is = map am_address as"
proof (induction as arbitrary: tb ms tb' "is")
  case (Cons a rest)
  obtain tb1 i where 1: "getOrInsertRemainingAccount k tb (downgradeWalletSignerRole k a p) = (tb1, i)"
    by (metis surj_pair)
  obtain tb2 js where 2: "compile_accounts k p tb1 rest = (tb2, js)" by (metis surj_pair)
  from Cons.prems 1 2 have res: "tb' = tb2" "is = i # js" by simp_all
  note ins = getOrInsert_ok [OF Cons.prems(1) assms 1]
  from Cons.IH [OF ins(1) 2] have rest: "table_ok tb2 ((ms @ [downgradeWalletSignerRole k a p]) @ map (\<lambda>m. downgradeWalletSignerRole k m p) rest)"
    "prefix (table_addrs tb1) (table_addrs tb2)" "\<forall>i \<in> set js. i < length (table_addrs tb2)"
    "map ((!) (table_addrs tb2)) js = map am_address rest"
    by simp_all
  moreover have "i < length (table_addrs tb2)" using ins(3) rest(2) by (auto dest: prefix_length_le)
  moreover have "table_addrs tb2 ! i = am_address a" using prefix_nth [OF rest(2) ins(3)] ins(4) by simp
  moreover have "prefix (table_addrs tb) (table_addrs tb2)" using ins(2) rest(2) by (rule prefix_order.trans)
  ultimately show ?case by (simp add: res)
qed simp

text \<open>What a compact instruction says of the one it was compiled from, over the addresses of a table.\<close>

definition compiled :: "address list \<Rightarrow> kit_instruction \<Rightarrow> compact_instruction \<Rightarrow> bool" where
  "compiled addrs ix c \<longleftrightarrow>
     ci_program c < length addrs \<and> addrs ! ci_program c = ix_program ix \<and> ci_data c = ix_bytes ix \<and>
     (\<exists>is. ci_accounts c = map uint8 is \<and> (\<forall>i \<in> set is. i < length addrs) \<and>
        map ((!) addrs) is = map am_address (ix_metas ix))"

lemma compiled_mono: "compiled xs ix c \<Longrightarrow> prefix xs ys \<Longrightarrow> compiled ys ix c"
proof -
  assume c: "compiled xs ix c" and p: "prefix xs ys"
  then obtain "is" where i: "ci_accounts c = map uint8 is" "\<forall>i \<in> set is. i < length xs"
    "map ((!) xs) is = map am_address (ix_metas ix)"
    by (auto simp: compiled_def)
  have le: "length xs \<le> length ys" using p by (rule prefix_length_le)
  have eq: "map ((!) ys) is = map ((!) xs) is" using i(2) p by (simp add: prefix_nth)
  show ?thesis
    unfolding compiled_def
  proof (intro conjI exI [of _ "is"])
    show "\<forall>i \<in> set is. i < length ys" using i(2) le by auto
    show "map ((!) ys) is = map am_address (ix_metas ix)" using i(3) eq by simp
  qed (use c p i(1) le in \<open>auto simp: compiled_def prefix_nth\<close>)
qed

lemma compile_loop_ok:
  assumes "kit_roles_ok k"
  shows "table_ok tb ms \<Longrightarrow> compile_loop k tp p tb ixs = Some (tb', cs) \<Longrightarrow>
    table_ok tb' (ms @ concat (map (uses_of k p) ixs)) \<and> prefix (table_addrs tb) (table_addrs tb') \<and>
    list_all2 (compiled (table_addrs tb')) ixs cs \<and> (\<forall>ix \<in> set ixs. ix_program ix \<notin> set (DENIED_PROGRAMS tp))"
proof (induction ixs arbitrary: tb ms tb' cs)
  case (Cons ix rest)
  obtain tb1 pi where 1: "getOrInsertRemainingAccount k tb \<lparr>am_address = ix_program ix, am_role = READONLY\<rparr> = (tb1, pi)"
    by (metis surj_pair)
  obtain tb2 ais where 2: "compile_accounts k p tb1 (ix_metas ix) = (tb2, ais)" by (metis surj_pair)
  from Cons.prems 1 2 obtain cs' where 3: "compile_loop k tp p tb2 rest = Some (tb', cs')"
    and cs: "cs = \<lparr>ci_program = pi, ci_accounts = map uint8 ais, ci_data = ix_bytes ix\<rparr> # cs'"
    and denied: "ix_program ix \<notin> set (DENIED_PROGRAMS tp)"
    by (auto simp: ix_metas_def ix_bytes_def split: if_splits)
  note ins = getOrInsert_ok [OF Cons.prems(1) assms 1]
  note accs = compile_accounts_ok [OF assms ins(1) 2]
  then have p2: "prefix (table_addrs tb) (table_addrs tb2)" using ins(2) prefix_order.trans by blast
  have rest: "table_ok tb' (ms @ concat (map (uses_of k p) (ix # rest)))" "prefix (table_addrs tb2) (table_addrs tb')"
    "list_all2 (compiled (table_addrs tb')) rest cs'" "\<forall>ix \<in> set rest. ix_program ix \<notin> set (DENIED_PROGRAMS tp)"
    using Cons.IH [OF conjunct1 [OF accs] 3] by (auto simp add: uses_of_def [of k p ix])
  have "compiled (table_addrs tb2) ix \<lparr>ci_program = pi, ci_accounts = map uint8 ais, ci_data = ix_bytes ix\<rparr>"
    using accs ins(3,4) by (auto simp: compiled_def prefix_nth dest: prefix_length_le)
  from compiled_mono [OF this rest(2)] rest p2 denied show ?case
    by (auto simp: cs intro: prefix_order.trans)
qed simp

subsection \<open>The compiled transaction\<close>

lemma elevate_is_map:
  assumes "kit_roles_ok k"
  shows "elevateRemainingForExecuteChallenge k rem ws ss =
    map (\<lambda>m. \<lparr>am_address = am_address m, am_role = role_of (is_signer (am_role m) \<or> am_address m \<in> set ss)
      (is_writable (am_role m) \<or> am_address m \<in> set ws)\<rparr>) rem"
  using assms
  by (auto simp: elevateRemainingForExecuteChallenge_def Let_def kit_roles_ok_def intro!: map_idI [symmetric])

lemma elevate_addresses:
  "kit_roles_ok k \<Longrightarrow> map am_address (elevateRemainingForExecuteChallenge k rem ws ss) = map am_address rem"
  by (simp add: elevate_is_map)

text \<open>The privileges asked for by the instructions of a wallet: its own signature is never asked for.\<close>

definition asks_signer :: "kit_instruction list \<Rightarrow> address \<Rightarrow> address \<Rightarrow> bool" where
  "asks_signer ixs walletPda a \<longleftrightarrow> a \<noteq> walletPda \<and> (\<exists>ix \<in> set ixs. needs_signer (ix_metas ix) a)"

definition asks_writable :: "kit_instruction list \<Rightarrow> address \<Rightarrow> address \<Rightarrow> bool" where
  "asks_writable ixs walletPda a \<longleftrightarrow> a = walletPda \<or> (\<exists>ix \<in> set ixs. needs_writable (ix_metas ix) a)"

lemma needs_uses:
  assumes "kit_roles_ok k"
  shows "needs_signer (concat (map (uses_of k p) ixs)) a \<longleftrightarrow> asks_signer ixs p a"
    "needs_writable (concat (map (uses_of k p) ixs)) a \<longleftrightarrow> (\<exists>ix \<in> set ixs. needs_writable (ix_metas ix) a)"
proof -
  have roles: "is_signer READONLY = False" "is_writable READONLY = False"
    by (simp_all add: is_signer_def is_writable_def)
  have down: "is_signer (am_role (downgradeWalletSignerRole k m p)) \<longleftrightarrow> am_address m \<noteq> p \<and> is_signer (am_role m)"
    "is_writable (am_role (downgradeWalletSignerRole k m p)) = is_writable (am_role m)" for m
    using assms by (auto simp: downgradeWalletSignerRole_def kit_roles_ok_def)
  have "needs_signer (uses_of k p ix) a \<longleftrightarrow> a \<noteq> p \<and> needs_signer (ix_metas ix) a" for ix
    by (auto simp: uses_of_def needs_signer_def roles down)
  moreover have "needs_writable (uses_of k p ix) a \<longleftrightarrow> needs_writable (ix_metas ix) a" for ix
    by (auto simp: uses_of_def needs_writable_def roles down)
  ultimately show "needs_signer (concat (map (uses_of k p) ixs)) a \<longleftrightarrow> asks_signer ixs p a"
    "needs_writable (concat (map (uses_of k p) ixs)) a \<longleftrightarrow> (\<exists>ix \<in> set ixs. needs_writable (ix_metas ix) a)"
    by (induction ixs) (auto simp: asks_signer_def)
qed

lemma compile_table:
  assumes "kit_roles_ok k" "compileWalletInstructions k tp ixs p = Some (rem, cs)"
  obtains tb where "table_ok tb (concat (map (uses_of k p) ixs))" "list_all2 (compiled (table_addrs tb)) ixs cs"
    "\<forall>ix \<in> set ixs. ix_program ix \<notin> set (DENIED_PROGRAMS tp)"
    "rem = elevateRemainingForExecuteChallenge k (tb_accounts tb) [p] []" "map am_address rem = table_addrs tb"
proof -
  from assms(2) obtain tb where loop: "compile_loop k tp p empty_table ixs = Some (tb, cs)"
    and rem: "rem = elevateRemainingForExecuteChallenge k (tb_accounts tb) [p] []"
    by (auto simp: compileWalletInstructions_def split: if_splits)
  have "map am_address rem = table_addrs tb" by (simp add: rem elevate_addresses [OF assms(1)] table_addrs_def)
  with compile_loop_ok [OF assms(1) table_ok_empty loop] rem show thesis by (intro that [of tb]) simp_all
qed

lemma lookup_accounts_nth:
  "\<forall>i \<in> set is. i < length rem \<Longrightarrow> lookup_accounts rem is = Some (map (\<lambda>i. am_address (rem ! i)) is)"
  by (induction "is") (auto simp: nth_opt_def)

lemma uint8_id: "n < 256 \<Longrightarrow> uint8 n = n"
  by (simp add: uint8_def unat_of_nat)

lemma compiled_lookup:
  assumes "compiled (map am_address rem) ix c" "length rem \<le> 256"
  shows "map_option am_address (nth_opt rem (ci_program c)) = Some (ix_program ix)"
    "lookup_accounts rem (ci_accounts c) = Some (map am_address (ix_metas ix))" "ci_data c = ix_bytes ix"
proof -
  from assms(1) obtain "is" where i: "ci_accounts c = map uint8 is" "\<forall>i \<in> set is. i < length rem"
    "map ((!) (map am_address rem)) is = map am_address (ix_metas ix)"
    by (auto simp: compiled_def)
  from i(2) assms(2) have "map uint8 is = is" by (intro map_idI uint8_id) (auto intro: less_le_trans)
  moreover from i(2) have "map (\<lambda>i. am_address (rem ! i)) is = map ((!) (map am_address rem)) is" by auto
  ultimately show "lookup_accounts rem (ci_accounts c) = Some (map am_address (ix_metas ix))"
    using i lookup_accounts_nth [of "is" rem] by simp
qed (use assms(1) in \<open>auto simp: compiled_def nth_opt_def\<close>)

text \<open>
  C23: Compiling a wallet transaction loses nothing: as long as it touches at most 256 accounts, looking
  up the indices of each compact instruction in the table of remaining accounts gives back the program,
  the accounts in their order and the data of the instruction it was compiled from.
\<close>
theorem compile_roundtrip:
  assumes "kit_roles_ok k" "compileWalletInstructions k tokenProgram ixs walletPda = Some (remaining, compacts)"
    and "length remaining \<le> 256"
  shows "list_all2 (\<lambda>ix c. map_option am_address (nth_opt remaining (ci_program c)) = Some (ix_program ix) \<and>
      lookup_accounts remaining (ci_accounts c) = Some (map am_address (ix_metas ix)) \<and> ci_data c = ix_bytes ix)
    ixs compacts"
  using compiled_lookup [OF _ assms(3)]
  by (rule_tac compile_table [OF assms(1,2)]) (auto elim!: list_all2_mono)

text \<open>
  C25: A compiled wallet transaction asks for the least privileges.  Every account occurs once in the
  table; it is a signer exactly if some instruction needs it to sign and it is not the wallet, whose
  signature the program supplies itself; it is writable exactly if some instruction writes it or it is
  the wallet.  No instruction calls the wallet program or the token program.
\<close>
theorem compile_least_privilege:
  assumes "kit_roles_ok k" "compileWalletInstructions k tokenProgram ixs walletPda = Some (remaining, compacts)"
  shows "distinct (map am_address remaining) \<and>
    am_address ` set remaining = (\<Union>ix \<in> set ixs. insert (ix_program ix) (am_address ` set (ix_metas ix))) \<and>
    (\<forall>m \<in> set remaining. is_signer (am_role m) = asks_signer ixs walletPda (am_address m) \<and>
      is_writable (am_role m) = asks_writable ixs walletPda (am_address m)) \<and>
    (\<forall>ix \<in> set ixs. ix_program ix \<noteq> PHYGITAL_WALLET_PROGRAM_ADDRESS \<and> ix_program ix \<noteq> tokenProgram)"
proof (intro conjI)
  from compile_table [OF assms] obtain tb where tb: "table_ok tb (concat (map (uses_of k walletPda) ixs))"
    and rem: "remaining = elevateRemainingForExecuteChallenge k (tb_accounts tb) [walletPda] []" "map am_address remaining = table_addrs tb"
    and denied: "\<forall>ix \<in> set ixs. ix_program ix \<notin> set (DENIED_PROGRAMS tokenProgram)"
    by metis
  show "distinct (map am_address remaining)" using table_ok_distinct [OF tb] by (simp add: rem(2))
  have "am_address ` set remaining = set (table_addrs tb)" by (simp add: rem(2) [symmetric])
  also have "\<dots> = am_address ` set (concat (map (uses_of k walletPda) ixs))" using tb by (simp add: table_ok_def)
  also have "\<dots> = (\<Union>ix \<in> set ixs. insert (ix_program ix) (am_address ` set (ix_metas ix)))"
    by (auto simp: uses_of_def image_image image_UN)
  finally show "am_address ` set remaining = (\<Union>ix \<in> set ixs. insert (ix_program ix) (am_address ` set (ix_metas ix)))" .
  have "am_role m = role_of (asks_signer ixs walletPda (am_address m)) (\<exists>ix \<in> set ixs. needs_writable (ix_metas ix) (am_address m))"
    if "m \<in> set (tb_accounts tb)" for m
    using that tb by (auto simp: in_set_conv_nth table_ok_def needs_uses [OF assms(1)])
  then show "\<forall>m \<in> set remaining. is_signer (am_role m) = asks_signer ixs walletPda (am_address m) \<and>
      is_writable (am_role m) = asks_writable ixs walletPda (am_address m)"
    by (auto simp: rem(1) elevate_is_map [OF assms(1)] asks_writable_def)
  show "\<forall>ix \<in> set ixs. ix_program ix \<noteq> PHYGITAL_WALLET_PROGRAM_ADDRESS \<and> ix_program ix \<noteq> tokenProgram"
    using denied by (simp add: DENIED_PROGRAMS_def)
qed

definition sample_instructions :: "kit_instruction list" where
  "sample_instructions =
     [\<lparr>ix_program = ''prog1'', ix_accounts = Some [\<lparr>am_address = ''wallet'', am_role = WRITABLE_SIGNER\<rparr>,
         \<lparr>am_address = ''dest'', am_role = READONLY\<rparr>], ix_data = Some [1, 2]\<rparr>,
      \<lparr>ix_program = ''prog2'', ix_accounts = Some [\<lparr>am_address = ''dest'', am_role = WRITABLE\<rparr>], ix_data = None\<rparr>]"

definition sample_table :: "account_meta list" where
  "sample_table = [\<lparr>am_address = ''prog1'', am_role = READONLY\<rparr>, \<lparr>am_address = ''wallet'', am_role = WRITABLE\<rparr>,
     \<lparr>am_address = ''dest'', am_role = WRITABLE\<rparr>, \<lparr>am_address = ''prog2'', am_role = READONLY\<rparr>]"

definition sample_compacts :: "compact_instruction list" where
  "sample_compacts = [\<lparr>ci_program = 0, ci_accounts = [1, 2], ci_data = [1, 2]\<rparr>,
     \<lparr>ci_program = 3, ci_accounts = [2], ci_data = []\<rparr>]"

lemma sample_compiled:
  "compileWalletInstructions sample_kit ''token'' sample_instructions ''wallet'' = Some (sample_table, sample_compacts)"
  by (simp add: compileWalletInstructions_def sample_instructions_def DENIED_PROGRAMS_def
      PHYGITAL_WALLET_PROGRAM_ADDRESS_def getOrInsertRemainingAccount_def empty_table_def downgradeWalletSignerRole_def
      sample_kit_def role_of_def is_signer_def is_writable_def uint8_id elevateRemainingForExecuteChallenge_def
      sample_table_def sample_compacts_def numeral_2_eq_2 numeral_3_eq_3)

theorem compile_roundtrip_witness:
  "list_all2 (\<lambda>ix c. map_option am_address (nth_opt sample_table (ci_program c)) = Some (ix_program ix) \<and>
      lookup_accounts sample_table (ci_accounts c) = Some (map am_address (ix_metas ix)) \<and> ci_data c = ix_bytes ix)
    sample_instructions sample_compacts"
  by (rule compile_roundtrip [OF sample_kit_ok(1) sample_compiled]) (simp add: sample_table_def)

theorem compile_least_privilege_witness:
  "distinct (map am_address sample_table) \<and>
    list_all (\<lambda>m. is_signer (am_role m) = asks_signer sample_instructions ''wallet'' (am_address m)) sample_table"
  using compile_least_privilege [OF sample_kit_ok(1) sample_compiled] by (simp add: list_all_iff)

text \<open>The row the signer shows for an instruction, without any detour through the compact form.\<close>

definition shown_as :: "kit \<Rightarrow> kit_instruction \<Rightarrow> inner_summary" where
  "shown_as k ix =
     (let accounts = map am_address (ix_metas ix);
          cleared = describeInnerInstruction (k_text_decode k) (ix_program ix) accounts (ix_bytes ix) in
      \<lparr>is_programAddress = ix_program ix, is_accounts = accounts, is_dataLength = length (ix_bytes ix),
       is_title = title cleared, is_details = details cleared\<rparr>)"

lemma summarize_compiled:
  assumes "list_all2 (compiled (map am_address rem)) ixs cs" "length rem \<le> 256"
  shows "summarizeInner k cs rem = Some (map (shown_as k) ixs)"
  using assms(1)
proof (induction ixs cs rule: list_all2_induct)
  case (Cons ix ixs c cs)
  note look = compiled_lookup [OF Cons(1) assms(2)]
  from look(1) obtain m where "nth_opt rem (ci_program c) = Some m" "am_address m = ix_program ix" by auto
  with look(2,3) Cons(3) show ?case by (simp add: shown_as_def Let_def del: nth_opt_Some_iff)
qed simp

text \<open>
  The owner sees the transaction the wallet application built.  The signer, which only receives the
  compact form, displays for each inner instruction exactly the program, accounts, data length and
  description of the instruction that was compiled, in the same order, nothing added or left out.
\<close>
theorem signer_shows_compiled:
  assumes "kit_roles_ok k" "compileWalletInstructions k tokenProgram ixs walletPda = Some (remaining, compacts)"
    and "length remaining \<le> 256"
  shows "summarizeInner k compacts remaining = Some (map (shown_as k) ixs)"
  using compile_table [OF assms(1,2)] summarize_compiled [OF _ assms(3)] by metis

theorem signer_shows_compiled_witness:
  "summarizeInner sample_kit sample_compacts sample_table = Some (map (shown_as sample_kit) sample_instructions)"
  by (rule signer_shows_compiled [OF sample_kit_ok(1) sample_compiled]) (simp add: sample_table_def)

end
