(* ===== verification/Codecs.thy ===== *)
theory Codecs
  imports Compile
begin

text \<open>
  The codecs the generated client of the wallet program composes (\<^verbatim>\<open>generated/types\<close>, \<^verbatim>\<open>generated/instructions\<close>).
  The functions of \<^verbatim>\<open>@solana/kit\<close> that make a codec of parts (\<open>getStructEncoder\<close>, \<open>getArrayEncoder\<close> and so on) are the
  constructors of \<open>layout\<close>; what a codec so composed does is not part of the repository, so \<open>encode\<close> and \<open>decode\<close>
  are parameters, in the record \<open>codec_kit\<close>.  Their documented behaviour is \<open>codecs_ok\<close>: decoding what was
  encoded gives the value back, and a struct starts with its first field.  A concrete codec at the end has both.
\<close>

subsection \<open>Layouts and values\<close>

datatype layout =
    U8 | U16 | U32 | U64 | I64
  | AddressL | BooleanL | UnitL
  | FixedBytes nat
  | SizedBytes layout
  | EnumL nat
  | OptionL layout
  | ArrayL layout
  | TupleL "layout list"
  | StructL "(string \<times> layout) list"
  | UnionL "(string \<times> layout) list"

datatype val =
    VNum int | VAddress string | VBool bool | VUnit | VBytes bytes
  | VNone | VSome val
  | VArray "val list"
  | VTuple "val list"
  | VStruct "(string \<times> val) list"
  | VUnion string val

text \<open>The values a layout can encode; \<open>A\<close> tells which texts are addresses.\<close>

definition num_in :: "int \<Rightarrow> int \<Rightarrow> val \<Rightarrow> bool" where
  "num_in lo hi v \<longleftrightarrow> (case v of VNum n \<Rightarrow> lo \<le> n \<and> n < hi | _ \<Rightarrow> False)"

fun fits :: "(string \<Rightarrow> bool) \<Rightarrow> layout \<Rightarrow> val \<Rightarrow> bool"
  and fits_all :: "(string \<Rightarrow> bool) \<Rightarrow> layout list \<Rightarrow> val list \<Rightarrow> bool"
  and fits_fields :: "(string \<Rightarrow> bool) \<Rightarrow> (string \<times> layout) list \<Rightarrow> (string \<times> val) list \<Rightarrow> bool"
  and fits_variant :: "(string \<Rightarrow> bool) \<Rightarrow> (string \<times> layout) list \<Rightarrow> string \<Rightarrow> val \<Rightarrow> bool" where
  "fits A U8 v = num_in 0 (2 ^ 8) v"
| "fits A U16 v = num_in 0 (2 ^ 16) v"
| "fits A U32 v = num_in 0 (2 ^ 32) v"
| "fits A U64 v = num_in 0 (2 ^ 64) v"
| "fits A I64 v = num_in (- (2 ^ 63)) (2 ^ 63) v"
| "fits A AddressL v = (case v of VAddress a \<Rightarrow> A a | _ \<Rightarrow> False)"
| "fits A BooleanL v = (case v of VBool b \<Rightarrow> True | _ \<Rightarrow> False)"
| "fits A UnitL v \<longleftrightarrow> v = VUnit"
| "fits A (FixedBytes k) v = (case v of VBytes b \<Rightarrow> length b = k | _ \<Rightarrow> False)"
| "fits A (SizedBytes l) v = (case v of VBytes b \<Rightarrow> l = U32 \<and> length b < 2 ^ 32 | _ \<Rightarrow> False)"
| "fits A (EnumL k) v \<longleftrightarrow> k \<le> 256 \<and> num_in 0 (int k) v"
| "fits A (OptionL l) v = (case v of VNone \<Rightarrow> True | VSome w \<Rightarrow> fits A l w | _ \<Rightarrow> False)"
| "fits A (ArrayL l) v = (case v of VArray vs \<Rightarrow> length vs < 2 ^ 32 \<and> list_all (fits A l) vs | _ \<Rightarrow> False)"
| "fits A (TupleL ls) v = (case v of VTuple vs \<Rightarrow> fits_all A ls vs | _ \<Rightarrow> False)"
| "fits A (StructL fs) v = (case v of VStruct ps \<Rightarrow> fits_fields A fs ps | _ \<Rightarrow> False)"
| "fits A (UnionL fs) v =
     (case v of VUnion k w \<Rightarrow> length fs \<le> 256 \<and> distinct (map fst fs) \<and> fits_variant A fs k w | _ \<Rightarrow> False)"
| "fits_all A [] vs \<longleftrightarrow> vs = []"
| "fits_all A (l # ls) vs = (case vs of [] \<Rightarrow> False | v # ws \<Rightarrow> fits A l v \<and> fits_all A ls ws)"
| "fits_fields A [] ps \<longleftrightarrow> ps = []"
| "fits_fields A ((n, l) # fs) ps =
     (case ps of [] \<Rightarrow> False | (m, v) # qs \<Rightarrow> n = m \<and> fits A l v \<and> fits_fields A fs qs)"
| "fits_variant A [] k v = False"
| "fits_variant A ((n, l) # fs) k v = (if n = k then fits A l v else fits_variant A fs k v)"

record codec_kit =
  ck_encode :: "layout \<Rightarrow> val \<Rightarrow> bytes option"
  ck_decode :: "layout \<Rightarrow> bytes \<Rightarrow> val option"
  ck_isAddress :: "string \<Rightarrow> bool"

definition codecs_ok :: "codec_kit \<Rightarrow> bool" where
  "codecs_ok C \<longleftrightarrow>
     (\<forall>l v. fits (ck_isAddress C) l v \<longrightarrow> (\<exists>b. ck_encode C l v = Some b \<and> ck_decode C l b = Some v)) \<and>
     (\<forall>n k fs d ps b. ck_encode C (StructL ((n, FixedBytes k) # fs)) (VStruct ((n, VBytes d) # ps)) = Some b \<longrightarrow>
        length d = k \<longrightarrow> take k b = d)"

lemma codecs_okD:
  assumes "codecs_ok C"
  shows "fits (ck_isAddress C) l v \<Longrightarrow> \<exists>b. ck_encode C l v = Some b \<and> ck_decode C l b = Some v"
    and "ck_encode C (StructL ((n, FixedBytes (length d)) # fs)) (VStruct ((n, VBytes d) # ps)) = Some b \<Longrightarrow>
      take (length d) b = d"
  using assms unfolding codecs_ok_def by blast+

subsection \<open>A codec that has the documented behaviour\<close>

text \<open>Little-endian numbers, a byte before options and unions, a length of four bytes before arrays and texts.\<close>

definition addr_bytes :: "string \<Rightarrow> bytes" where
  "addr_bytes a = map (\<lambda>c. word_of_nat (of_char c)) a"

definition addr_text :: "bytes \<Rightarrow> string" where
  "addr_text b = map (\<lambda>x. char_of (unat x)) b"

definition read_num :: "nat \<Rightarrow> bytes \<Rightarrow> (int \<times> bytes) option" where
  "read_num k bs = (if length bs < k then None else Some (le_int (take k bs), drop k bs))"

definition read_bytes :: "nat \<Rightarrow> bytes \<Rightarrow> (bytes \<times> bytes) option" where
  "read_bytes k bs = (if length bs < k then None else Some (take k bs, drop k bs))"

definition num_of :: "val \<Rightarrow> int" where
  "num_of v = (case v of VNum n \<Rightarrow> n | _ \<Rightarrow> 0)"

definition bytes_of :: "val \<Rightarrow> bytes" where
  "bytes_of v = (case v of VBytes b \<Rightarrow> b | _ \<Rightarrow> [])"

fun wire :: "layout \<Rightarrow> val \<Rightarrow> bytes"
  and wire_all :: "layout list \<Rightarrow> val list \<Rightarrow> bytes"
  and wire_fields :: "(string \<times> layout) list \<Rightarrow> (string \<times> val) list \<Rightarrow> bytes"
  and wire_variant :: "nat \<Rightarrow> (string \<times> layout) list \<Rightarrow> string \<Rightarrow> val \<Rightarrow> bytes" where
  "wire U8 v = le_bytes 1 (num_of v)"
| "wire U16 v = le_bytes 2 (num_of v)"
| "wire U32 v = le_bytes 4 (num_of v)"
| "wire U64 v = le_bytes 8 (num_of v)"
| "wire I64 v = le_bytes 8 (num_of v mod 2 ^ 64)"
| "wire AddressL v = (case v of VAddress a \<Rightarrow> addr_bytes a | _ \<Rightarrow> [])"
| "wire BooleanL v = [if v = VBool True then 1 else 0]"
| "wire UnitL v = []"
| "wire (FixedBytes k) v = bytes_of v"
| "wire (SizedBytes l) v = le_bytes 4 (int (length (bytes_of v))) @ bytes_of v"
| "wire (EnumL k) v = le_bytes 1 (num_of v)"
| "wire (OptionL l) v = (case v of VSome w \<Rightarrow> 1 # wire l w | _ \<Rightarrow> [0])"
| "wire (ArrayL l) v =
     (case v of VArray vs \<Rightarrow> le_bytes 4 (int (length vs)) @ concat (map (wire l) vs) | _ \<Rightarrow> [])"
| "wire (TupleL ls) v = (case v of VTuple vs \<Rightarrow> wire_all ls vs | _ \<Rightarrow> [])"
| "wire (StructL fs) v = (case v of VStruct ps \<Rightarrow> wire_fields fs ps | _ \<Rightarrow> [])"
| "wire (UnionL fs) v = (case v of VUnion k w \<Rightarrow> wire_variant 0 fs k w | _ \<Rightarrow> [])"
| "wire_all [] vs = []"
| "wire_all (l # ls) vs = (case vs of [] \<Rightarrow> [] | v # ws \<Rightarrow> wire l v @ wire_all ls ws)"
| "wire_fields [] ps = []"
| "wire_fields ((n, l) # fs) ps = (case ps of [] \<Rightarrow> [] | (m, v) # qs \<Rightarrow> wire l v @ wire_fields fs qs)"
| "wire_variant i [] k v = []"
| "wire_variant i ((n, l) # fs) k v =
     (if n = k then le_bytes 1 (int i) @ wire l v else wire_variant (Suc i) fs k v)"

primrec read_many :: "nat \<Rightarrow> (bytes \<Rightarrow> (val \<times> bytes) option) \<Rightarrow> bytes \<Rightarrow> (val list \<times> bytes) option" where
  "read_many 0 f bs = Some ([], bs)"
| "read_many (Suc n) f bs =
     Option.bind (f bs) (\<lambda>(v, r). map_option (\<lambda>(vs, r'). (v # vs, r')) (read_many n f r))"

text \<open>Reading back: what follows the encoding is left over.\<close>

fun read_wire :: "layout \<Rightarrow> bytes \<Rightarrow> (val \<times> bytes) option"
  and read_all :: "layout list \<Rightarrow> bytes \<Rightarrow> (val list \<times> bytes) option"
  and read_fields :: "(string \<times> layout) list \<Rightarrow> bytes \<Rightarrow> ((string \<times> val) list \<times> bytes) option"
  and read_variant :: "nat \<Rightarrow> (string \<times> layout) list \<Rightarrow> bytes \<Rightarrow> (val \<times> bytes) option" where
  "read_wire U8 bs = map_option (\<lambda>(n, r). (VNum n, r)) (read_num 1 bs)"
| "read_wire U16 bs = map_option (\<lambda>(n, r). (VNum n, r)) (read_num 2 bs)"
| "read_wire U32 bs = map_option (\<lambda>(n, r). (VNum n, r)) (read_num 4 bs)"
| "read_wire U64 bs = map_option (\<lambda>(n, r). (VNum n, r)) (read_num 8 bs)"
| "read_wire I64 bs = map_option (\<lambda>(n, r). (VNum (if n < 2 ^ 63 then n else n - 2 ^ 64), r)) (read_num 8 bs)"
| "read_wire AddressL bs = map_option (\<lambda>(b, r). (VAddress (addr_text b), r)) (read_bytes 32 bs)"
| "read_wire BooleanL bs = map_option (\<lambda>(n, r). (VBool (n = 1), r)) (read_num 1 bs)"
| "read_wire UnitL bs = Some (VUnit, bs)"
| "read_wire (FixedBytes k) bs = map_option (\<lambda>(b, r). (VBytes b, r)) (read_bytes k bs)"
| "read_wire (SizedBytes l) bs =
     Option.bind (read_num 4 bs) (\<lambda>(n, r). map_option (\<lambda>(b, r'). (VBytes b, r')) (read_bytes (nat n) r))"
| "read_wire (EnumL k) bs = map_option (\<lambda>(n, r). (VNum n, r)) (read_num 1 bs)"
| "read_wire (OptionL l) bs =
     Option.bind (read_num 1 bs) (\<lambda>(n, r).
       if n = 0 then Some (VNone, r) else map_option (\<lambda>(v, r'). (VSome v, r')) (read_wire l r))"
| "read_wire (ArrayL l) bs =
     Option.bind (read_num 4 bs) (\<lambda>(n, r). map_option (\<lambda>(vs, r'). (VArray vs, r')) (read_many (nat n) (read_wire l) r))"
| "read_wire (TupleL ls) bs = map_option (\<lambda>(vs, r). (VTuple vs, r)) (read_all ls bs)"
| "read_wire (StructL fs) bs = map_option (\<lambda>(ps, r). (VStruct ps, r)) (read_fields fs bs)"
| "read_wire (UnionL fs) bs = Option.bind (read_num 1 bs) (\<lambda>(n, r). read_variant (nat n) fs r)"
| "read_all [] bs = Some ([], bs)"
| "read_all (l # ls) bs =
     Option.bind (read_wire l bs) (\<lambda>(v, r). map_option (\<lambda>(vs, r'). (v # vs, r')) (read_all ls r))"
| "read_fields [] bs = Some ([], bs)"
| "read_fields ((n, l) # fs) bs =
     Option.bind (read_wire l bs) (\<lambda>(v, r). map_option (\<lambda>(ps, r'). ((n, v) # ps, r')) (read_fields fs r))"
| "read_variant i [] bs = None"
| "read_variant i ((n, l) # fs) bs =
     (case i of 0 \<Rightarrow> map_option (\<lambda>(v, r). (VUnion n v, r)) (read_wire l bs) | Suc j \<Rightarrow> read_variant j fs bs)"

lemma read_num_le_bytes: "0 \<le> n \<Longrightarrow> n < 256 ^ k \<Longrightarrow> read_num k (le_bytes k n @ r) = Some (n, r)"
  by (simp add: read_num_def le_int_le_bytes)

lemma read_byte: "read_num 1 (b # r) = Some (uint b, r)"
  by (simp add: read_num_def)

lemma read_bytes_append: "length b = k \<Longrightarrow> read_bytes k (b @ r) = Some (b, r)"
  by (auto simp: read_bytes_def)

lemma read_many_wire:
  "(\<And>v r. v \<in> set vs \<Longrightarrow> f (g v @ r) = Some (v, r)) \<Longrightarrow> read_many (length vs) f (concat (map g vs) @ r) = Some (vs, r)"
  by (induction vs arbitrary: r) simp_all

lemma addr_roundtrip: "addr_text (addr_bytes a) = a"
  by (simp add: addr_text_def addr_bytes_def o_def unat_of_nat take_bit_eq_mod map_idI)


abbreviation wire_address :: "string \<Rightarrow> bool" where
  "wire_address \<equiv> \<lambda>a. length a = 32"

lemma num_in_VNum: "num_in lo hi v \<longleftrightarrow> (\<exists>n. v = VNum n \<and> lo \<le> n \<and> n < hi)"
  by (simp add: num_in_def split: val.split)

lemma length_addr_bytes [simp]: "length (addr_bytes a) = length a"
  by (simp add: addr_bytes_def)

lemma uint_byte: "0 \<le> n \<Longrightarrow> n < 256 \<Longrightarrow> uint (word_of_int n :: byte) = n"
  by (simp add: uint_word_of_int)

lemma signed_mod:
  fixes n :: int
  assumes "- (2 ^ 63) \<le> n" "n < 2 ^ 63"
  shows "(if n mod 2 ^ 64 < 2 ^ 63 then n mod 2 ^ 64 else n mod 2 ^ 64 - 2 ^ 64) = n"
proof (cases "0 \<le> n")
  case True
  with assms(2) show ?thesis by simp
next
  case False
  have "n mod 2 ^ 64 = (n + 2 ^ 64) mod 2 ^ 64" by simp
  also have "\<dots> = n + 2 ^ 64" using False assms(1) by (intro mod_pos_pos_trivial) simp_all
  finally have "n mod 2 ^ 64 = n + 2 ^ 64" .
  with False assms(1) show ?thesis by simp
qed

lemma wire_read:
  "A = wire_address \<Longrightarrow> fits A l v \<Longrightarrow> \<forall>r. read_wire l (wire l v @ r) = Some (v, r)"
  "A = wire_address \<Longrightarrow> fits_all A ls vs \<Longrightarrow> \<forall>r. read_all ls (wire_all ls vs @ r) = Some (vs, r)"
  "A = wire_address \<Longrightarrow> fits_fields A fs ps \<Longrightarrow> \<forall>r. read_fields fs (wire_fields fs ps @ r) = Some (ps, r)"
  "A = wire_address \<Longrightarrow> fits_variant A us k w \<Longrightarrow>
     \<forall>i r. i + length us \<le> 256 \<longrightarrow> (\<exists>j < length us. \<exists>t. wire_variant i us k w @ r = le_bytes 1 (int (i + j)) @ t \<and>
       read_variant j us t = Some (VUnion k w, r))"
proof (induction A l v and A ls vs and A fs ps and A us k w rule: fits_fits_all_fits_fields_fits_variant.induct)
  case (12 A l v)
  then show ?case
    by (auto simp: read_byte [unfolded One_nat_def] split: val.splits)
next
  case (13 A l v)
  then obtain vs where v: "v = VArray vs" "length vs < 2 ^ 32" "\<forall>w \<in> set vs. fits A l w"
    by (auto simp: list_all_iff split: val.splits)
  have "read_many (length vs) (read_wire l) (concat (map (wire l) vs) @ r) = Some (vs, r)" for r
    by (rule read_many_wire) (use 13 v in \<open>auto\<close>)
  moreover have "read_num 4 (le_bytes 4 (int (length vs)) @ t) = Some (int (length vs), t)" for t
    by (rule read_num_le_bytes) (use v(2) in simp_all)
  ultimately show ?case using v(1) by simp
next
  case (16 A fs v)
  then obtain k w where v: "v = VUnion k w" "length fs \<le> 256" "fits_variant A fs k w"
    by (auto split: val.splits)
  show ?case
  proof
    fix r
    from 16(1) [OF v(1) 16(2) v(3), rule_format, of 0 r] v(2) obtain j t where jt: "j < length fs" "wire_variant 0 fs k w @ r = le_bytes 1 (int (0 + j)) @ t"
      "read_variant j fs t = Some (VUnion k w, r)" by (auto simp del: of_nat_add)
    have "read_num 1 (le_bytes 1 (int j) @ t) = Some (int j, t)"
      by (rule read_num_le_bytes) (use jt(1) v(2) in simp_all)
    with jt v(1) show "read_wire (UnionL fs) (wire (UnionL fs) v @ r) = Some (v, r)" by simp
  qed
next
  case (22 A n l fs k v)
  show ?case
  proof (intro allI impI)
    fix i r assume i: "i + length ((n, l) # fs) \<le> 256"
    show "\<exists>j < length ((n, l) # fs). \<exists>t. wire_variant i ((n, l) # fs) k v @ r = le_bytes 1 (int (i + j)) @ t \<and>
        read_variant j ((n, l) # fs) t = Some (VUnion k v, r)"
    proof (cases "n = k")
      case True
      with 22(4) have "fits A l v" by simp
      from 22(1) [OF True 22(3) this] have "read_wire l (wire l v @ r) = Some (v, r)" by blast
      with True show ?thesis by (intro exI [of _ 0] conjI exI [of _ "wire l v @ r"]) simp_all
    next
      case False
      with 22(4) have "fits_variant A fs k v" by simp
      from 22(2) [OF False 22(3) this, rule_format, of "Suc i" r] i obtain j t where "j < length fs" "wire_variant (Suc i) fs k v @ r = le_bytes 1 (int (Suc i + j)) @ t"
        "read_variant j fs t = Some (VUnion k v, r)" by (auto simp del: of_nat_add of_nat_Suc)
      with False show ?thesis by (intro exI [of _ "Suc j"]) (simp add: add.commute add.left_commute)
    qed
  qed
next
  case (5 A v)
  then obtain n where v: "v = VNum n" "- (2 ^ 63) \<le> n" "n < 2 ^ 63" by (auto simp: num_in_VNum)
  have "read_num 8 (le_bytes 8 (n mod 2 ^ 64) @ r) = Some (n mod 2 ^ 64, r)" for r
    by (rule read_num_le_bytes) simp_all
  then show ?case using signed_mod [OF v(2,3)] v(1) by (simp add: num_of_def split: if_split_asm)
next
  case (6 A v)
  then show ?case
    using addr_roundtrip by (auto simp: read_bytes_append length_addr_bytes split: val.splits)
qed (auto simp: num_in_VNum read_num_le_bytes read_bytes_append bytes_of_def num_of_def
      read_byte [unfolded One_nat_def] uint_byte split: val.splits list.splits)

definition wire_kit :: codec_kit where
  "wire_kit =
     \<lparr>ck_encode = \<lambda>l v. Some (wire l v), ck_decode = \<lambda>l b. map_option fst (read_wire l b), ck_isAddress = wire_address\<rparr>"

lemma wire_kit_ok: "codecs_ok wire_kit"
proof -
  have "map_option fst (read_wire l (wire l v)) = Some v" if "fits wire_address l v" for l v
    using wire_read(1) [OF refl that] append_Nil2 [of "wire l v"] by (metis option.simps(9) fst_conv)
  then show ?thesis by (auto simp: codecs_ok_def wire_kit_def bytes_of_def)
qed

end
