(* ===== verification/Challenges.thy ===== *)
theory Challenges
  imports Compile
begin

text \<open>
  The passkey challenges of the SDK (\<open>utils/challenges.ts\<close>): the packed form of the compact
  instructions, the hash of the referenced accounts with their privileges, and the two challenges.
  SHA-256 and the address encoder are fields of \<open>kit\<close>.  What the binding properties show holds up to a
  collision of the hash function, which they would exhibit.
\<close>

definition EXECUTE_CHALLENGE_PREFIX :: bytes where
  "EXECUTE_CHALLENGE_PREFIX = utf8ToBytes ''phygital_wallet:execute:v3''"

definition SET_AUTHORITY_CHALLENGE_PREFIX :: bytes where
  "SET_AUTHORITY_CHALLENGE_PREFIX = utf8ToBytes ''phygital_wallet:set_authority:v1''"

record slot_entry =
  sl_slotNumber :: nat
  sl_slotHash :: bytes

text \<open>
  \<open>fetchLatestSlotHash\<close> after the request: \<open>None\<close> when the account has no data; the little-endian
  slot number and the hash from the 40 bytes of the slice.
\<close>

fun u64_le :: "bytes \<Rightarrow> nat" where
  "u64_le [] = 0"
| "u64_le (b # bs) = unat b + 256 * u64_le bs"

definition fetchLatestSlotHash :: "bytes option \<Rightarrow> slot_entry option" where
  "fetchLatestSlotHash dat =
     (case dat of
        None \<Rightarrow> None
      | Some bs \<Rightarrow>
          if length bs < 8 then None
          else Some \<lparr>sl_slotNumber = u64_le (take 8 bs), sl_slotHash = take 32 (drop 8 bs)\<rparr>)"

subsection \<open>Packing\<close>

text \<open>Stores into a \<open>Uint8Array\<close> keep the value modulo 256.\<close>

fun pack_each :: "compact_instruction list \<Rightarrow> bytes" where
  "pack_each [] = []"
| "pack_each (ix # rest) =
     [word_of_nat (ci_program ix), word_of_nat (length (ci_accounts ix))] @
     map word_of_nat (ci_accounts ix) @
     [word_of_nat (length (ci_data ix) mod 256), word_of_nat (length (ci_data ix) div 256 mod 256)] @
     ci_data ix @ pack_each rest"

definition pack_checks :: "compact_instruction \<Rightarrow> bool" where
  "pack_checks ix \<longleftrightarrow> length (ci_accounts ix) \<le> 255 \<and> length (ci_data ix) \<le> 0xffff"

definition packCompactInstructions :: "compact_instruction list \<Rightarrow> bytes option" where
  "packCompactInstructions ixs =
     (if length ixs > 255 then None
      else if \<not> list_all pack_checks ixs then None
      else Some (word_of_nat (length ixs) # pack_each ixs))"

subsection \<open>The accounts hash\<close>

record challenge_account =
  ca_address :: address
  ca_isSigner :: bool
  ca_isWritable :: bool

definition privilegeByte :: "bool \<Rightarrow> bool \<Rightarrow> byte" where
  "privilegeByte isSigner isWritable = (if isSigner then 1 else 0) OR (if isWritable then 2 else 0)"

definition toChallengeAccount :: "kit \<Rightarrow> account_meta \<Rightarrow> challenge_account" where
  "toChallengeAccount k a =
     \<lparr>ca_address = am_address a, ca_isSigner = k_isSignerRole k (am_role a),
      ca_isWritable = k_isWritableRole k (am_role a)\<rparr>"

text \<open>The accounts an instruction refers to: its program, then its accounts; \<open>None\<close> for an invalid index.\<close>

fun pick_accounts :: "'a list \<Rightarrow> nat list \<Rightarrow> 'a list option" where
  "pick_accounts accounts [] = Some []"
| "pick_accounts accounts (i # rest) =
     (case nth_opt accounts i of
        None \<Rightarrow> None
      | Some a \<Rightarrow> map_option (\<lambda>as. a # as) (pick_accounts accounts rest))"

fun referenced :: "'a list \<Rightarrow> compact_instruction list \<Rightarrow> 'a list option" where
  "referenced accounts [] = Some []"
| "referenced accounts (ix # rest) =
     Option.bind (pick_accounts accounts (ci_program ix # ci_accounts ix)) (\<lambda>as.
       map_option (\<lambda>bs. as @ bs) (referenced accounts rest))"

fun account_bytes :: "kit \<Rightarrow> challenge_account list \<Rightarrow> bytes option" where
  "account_bytes k [] = Some []"
| "account_bytes k (a # rest) =
     Option.bind (k_addr_encode k (ca_address a)) (\<lambda>key.
       map_option (\<lambda>bs. key @ privilegeByte (ca_isSigner a) (ca_isWritable a) # bs) (account_bytes k rest))"

definition hashReferencedAccounts :: "kit \<Rightarrow> account_meta list \<Rightarrow> compact_instruction list \<Rightarrow> bytes option" where
  "hashReferencedAccounts k remaining ixs =
     Option.bind (referenced (map (toChallengeAccount k) remaining) ixs) (\<lambda>as.
       map_option (k_sha256 k) (account_bytes k as))"

subsection \<open>The challenges\<close>

text \<open>The slot hash fills the 32 bytes reserved for it in the preimage.\<close>

definition slot_field :: "bytes \<Rightarrow> bytes" where
  "slot_field slotHash = take 32 (slotHash @ replicate 32 0)"

definition hashExecuteChallenge ::
  "kit \<Rightarrow> bytes \<Rightarrow> compact_instruction list \<Rightarrow> account_meta list \<Rightarrow> bytes option" where
  "hashExecuteChallenge k slotHash ixs remaining =
     Option.bind (packCompactInstructions ixs) (\<lambda>packed.
       map_option (\<lambda>accountsHash.
         k_sha256 k (EXECUTE_CHALLENGE_PREFIX @ slot_field slotHash @ k_sha256 k packed @ accountsHash))
       (hashReferencedAccounts k remaining ixs))"

definition buildExecuteChallengeFromSlot ::
  "kit \<Rightarrow> slot_entry \<Rightarrow> compact_instruction list \<Rightarrow> account_meta list \<Rightarrow> (nat \<times> bytes) option" where
  "buildExecuteChallengeFromSlot k slot ixs remaining =
     map_option (\<lambda>h. (sl_slotNumber slot, h)) (hashExecuteChallenge k (sl_slotHash slot) ixs remaining)"

definition hashSetAuthorityChallenge :: "kit \<Rightarrow> bytes \<Rightarrow> address \<Rightarrow> address \<Rightarrow> bytes option" where
  "hashSetAuthorityChallenge k slotHash phygitalToken authority =
     Option.bind (k_addr_encode k phygitalToken) (\<lambda>tokenBytes.
       map_option (\<lambda>authorityBytes.
         k_sha256 k (SET_AUTHORITY_CHALLENGE_PREFIX @ slot_field slotHash @ tokenBytes @ authorityBytes))
       (k_addr_encode k authority))"

definition buildSetAuthorityChallenge ::
  "kit \<Rightarrow> bytes option \<Rightarrow> address \<Rightarrow> address \<Rightarrow> (nat \<times> bytes) option" where
  "buildSetAuthorityChallenge k dat phygitalToken authority =
     Option.bind (fetchLatestSlotHash dat) (\<lambda>slot.
       map_option (\<lambda>h. (sl_slotNumber slot, h))
         (hashSetAuthorityChallenge k (sl_slotHash slot) phygitalToken authority))"

subsection \<open>Packing is injective\<close>

text \<open>Indices that fit a byte, as the compiler makes them (\<open>compiled_packs\<close> below).\<close>

definition byte_indices :: "compact_instruction \<Rightarrow> bool" where
  "byte_indices ix \<longleftrightarrow> ci_program ix < 256 \<and> (\<forall>i \<in> set (ci_accounts ix). i < 256)"

lemma byte_of_nat_inj: "m < 256 \<Longrightarrow> n < 256 \<Longrightarrow> word_of_nat m = (word_of_nat n :: byte) \<longleftrightarrow> m = n"
  by (metis uint8_def uint8_id)

lemma map_byte_inj:
  "\<forall>i \<in> set xs. i < 256 \<Longrightarrow> \<forall>i \<in> set ys. i < 256 \<Longrightarrow>
    map word_of_nat xs = (map word_of_nat ys :: bytes) \<Longrightarrow> xs = ys"
  by (induction xs ys rule: list_induct2') (auto simp: byte_of_nat_inj)

lemma length_field_inj:
  assumes "m \<le> 0xffff" "n \<le> 0xffff"
    and "word_of_nat (m mod 256) = (word_of_nat (n mod 256) :: byte)"
    and "word_of_nat (m div 256 mod 256) = (word_of_nat (n div 256 mod 256) :: byte)"
  shows "m = n"
proof -
  from assms(3,4) have "m mod 256 = n mod 256" "m div 256 mod 256 = n div 256 mod 256"
    by (simp_all add: byte_of_nat_inj)
  moreover have "m div 256 mod 256 = m div 256" "n div 256 mod 256 = n div 256" using assms(1,2) by simp_all
  ultimately show ?thesis by (metis div_mult_mod_eq)
qed

lemma pack_each_inj:
  assumes "length ixs = length jxs" "list_all pack_checks ixs" "list_all pack_checks jxs"
    "list_all byte_indices ixs" "list_all byte_indices jxs" "pack_each ixs @ r = pack_each jxs @ s"
  shows "ixs = jxs \<and> r = s"
  using assms
proof (induction ixs jxs rule: list_induct2)
  case (Cons x xs y ys)
  note ok = Cons.prems(1-4)
  from Cons.prems have eq: "ci_program x = ci_program y"
    "word_of_nat (length (ci_accounts x)) = (word_of_nat (length (ci_accounts y)) :: byte)"
    by (simp_all add: byte_indices_def byte_of_nat_inj)
  from eq(2) ok have len: "length (ci_accounts x) = length (ci_accounts y)"
    by (simp add: pack_checks_def byte_of_nat_inj)
  with Cons.prems(5) have accs: "map word_of_nat (ci_accounts x) = (map word_of_nat (ci_accounts y) :: bytes)"
    and rest: "word_of_nat (length (ci_data x) mod 256) # word_of_nat (length (ci_data x) div 256 mod 256) # ci_data x @ pack_each xs @ r =
      word_of_nat (length (ci_data y) mod 256) # word_of_nat (length (ci_data y) div 256 mod 256) # ci_data y @ pack_each ys @ s"
    by (simp_all add: append_eq_append_conv)
  from accs ok have "ci_accounts x = ci_accounts y" by (intro map_byte_inj) (simp_all add: byte_indices_def)
  moreover from rest ok have "length (ci_data x) = length (ci_data y)"
    by (intro length_field_inj) (simp_all add: pack_checks_def)
  with rest have "ci_data x = ci_data y" "pack_each xs @ r = pack_each ys @ s" by simp_all
  moreover from this Cons ok have "xs = ys \<and> r = s" by simp
  ultimately show ?case using eq(1) by (simp add: compact_instruction.equality)
qed simp

lemma pack_inj:
  assumes "packCompactInstructions ixs = Some b" "packCompactInstructions jxs = Some b"
    and "list_all byte_indices ixs" "list_all byte_indices jxs"
  shows "ixs = jxs"
proof -
  from assms(1,2) have "word_of_nat (length ixs) = (word_of_nat (length jxs) :: byte)" "length ixs \<le> 255" "length jxs \<le> 255"
    and "list_all pack_checks ixs" "list_all pack_checks jxs" "pack_each ixs @ [] = pack_each jxs @ []"
    by (auto simp: packCompactInstructions_def split: if_splits)
  then show ?thesis using assms(3,4) pack_each_inj [of ixs jxs "[]" "[]"] by (simp add: byte_of_nat_inj)
qed

subsection \<open>The accounts hash is injective up to collisions\<close>

lemma privilegeByte_inj: "privilegeByte s w = privilegeByte s' w' \<longleftrightarrow> s = s' \<and> w = w'"
  by (cases s; cases w; cases s'; cases w') (simp_all add: privilegeByte_def)

lemma account_bytes_inj:
  assumes "kit_hashing_ok k"
  shows "account_bytes k as = Some b \<Longrightarrow> account_bytes k bs = Some b \<Longrightarrow> as = bs"
proof (induction as arbitrary: bs b)
  case Nil
  then show ?case by (cases bs) (auto simp: bind_eq_Some_conv)
next
  case (Cons x xs)
  from Cons.prems(1) obtain kx t where x: "k_addr_encode k (ca_address x) = Some kx" "account_bytes k xs = Some t"
    "b = kx @ privilegeByte (ca_isSigner x) (ca_isWritable x) # t"
    by (auto simp: bind_eq_Some_conv)
  with Cons.prems(2) obtain y ys ky u where y: "bs = y # ys" "k_addr_encode k (ca_address y) = Some ky"
    "account_bytes k ys = Some u" "b = ky @ privilegeByte (ca_isSigner y) (ca_isWritable y) # u"
    by (cases bs) (auto simp: bind_eq_Some_conv)
  have "length kx = length ky" using assms x(1) y(2) by (simp add: kit_hashing_ok_def)
  with x(3) y(4) have "kx = ky" "t = u" "ca_isSigner x = ca_isSigner y" "ca_isWritable x = ca_isWritable y"
    by (simp_all add: privilegeByte_inj)
  moreover from this x y assms have "ca_address x = ca_address y" by (metis kit_hashing_ok_def)
  moreover have "xs = ys" using Cons.IH x(2) y(3) \<open>t = u\<close> by blast
  ultimately show ?case by (simp add: y(1))
qed

subsection \<open>What a challenge binds\<close>

definition collides :: "kit \<Rightarrow> bytes \<Rightarrow> bytes \<Rightarrow> bool" where
  "collides k x y \<longleftrightarrow> x \<noteq> y \<and> k_sha256 k x = k_sha256 k y"

text \<open>The three byte strings that are hashed for an execute challenge.\<close>

definition execute_preimages ::
  "kit \<Rightarrow> bytes \<Rightarrow> compact_instruction list \<Rightarrow> account_meta list \<Rightarrow> bytes set" where
  "execute_preimages k slotHash ixs remaining =
     {x. \<exists>packed as acc. packCompactInstructions ixs = Some packed \<and>
        referenced (map (toChallengeAccount k) remaining) ixs = Some as \<and> account_bytes k as = Some acc \<and>
        (x = packed \<or> x = acc \<or>
         x = EXECUTE_CHALLENGE_PREFIX @ slot_field slotHash @ k_sha256 k packed @ k_sha256 k acc)}"

lemma execute_preimages:
  assumes "hashExecuteChallenge k slotHash ixs remaining = Some h"
  obtains packed as acc where "packCompactInstructions ixs = Some packed"
    "referenced (map (toChallengeAccount k) remaining) ixs = Some as" "account_bytes k as = Some acc"
    "h = k_sha256 k (EXECUTE_CHALLENGE_PREFIX @ slot_field slotHash @ k_sha256 k packed @ k_sha256 k acc)"
    "execute_preimages k slotHash ixs remaining =
       {packed, acc, EXECUTE_CHALLENGE_PREFIX @ slot_field slotHash @ k_sha256 k packed @ k_sha256 k acc}"
  using assms
  by (auto simp: hashExecuteChallenge_def hashReferencedAccounts_def bind_eq_Some_conv execute_preimages_def)

lemma slot_field_length [simp]: "length (slot_field s) = 32"
  by (simp add: slot_field_def)

lemma slot_field_id: "length s = 32 \<Longrightarrow> slot_field s = s"
  by (simp add: slot_field_def)

lemma execute_challenge_binds_core:
  assumes k: "kit_hashing_ok k" and len: "length slot = 32" "length slot' = 32"
    and idx: "list_all byte_indices ixs" "list_all byte_indices ixs'"
    and h: "hashExecuteChallenge k slot ixs rem = Some h" "hashExecuteChallenge k slot' ixs' rem' = Some h"
  shows "slot = slot' \<and> ixs = ixs' \<and>
      referenced (map (toChallengeAccount k) rem) ixs = referenced (map (toChallengeAccount k) rem') ixs' \<or>
    (\<exists>x \<in> execute_preimages k slot ixs rem. \<exists>y \<in> execute_preimages k slot' ixs' rem'. collides k x y)"
proof -
  obtain p as acc where 1: "packCompactInstructions ixs = Some p"
    "referenced (map (toChallengeAccount k) rem) ixs = Some as" "account_bytes k as = Some acc"
    "h = k_sha256 k (EXECUTE_CHALLENGE_PREFIX @ slot_field slot @ k_sha256 k p @ k_sha256 k acc)"
    and pre: "execute_preimages k slot ixs rem =
       {p, acc, EXECUTE_CHALLENGE_PREFIX @ slot_field slot @ k_sha256 k p @ k_sha256 k acc}"
    using execute_preimages [OF h(1)] by metis
  obtain p' as' acc' where 2: "packCompactInstructions ixs' = Some p'"
    "referenced (map (toChallengeAccount k) rem') ixs' = Some as'" "account_bytes k as' = Some acc'"
    "h = k_sha256 k (EXECUTE_CHALLENGE_PREFIX @ slot_field slot' @ k_sha256 k p' @ k_sha256 k acc')"
    and pre': "execute_preimages k slot' ixs' rem' =
       {p', acc', EXECUTE_CHALLENGE_PREFIX @ slot_field slot' @ k_sha256 k p' @ k_sha256 k acc'}"
    using execute_preimages [OF h(2)] by metis
  show ?thesis
  proof (cases "\<exists>x \<in> execute_preimages k slot ixs rem. \<exists>y \<in> execute_preimages k slot' ixs' rem'. collides k x y")
    case False
    then have no: "k_sha256 k x = k_sha256 k y \<Longrightarrow> x = y" if "x \<in> execute_preimages k slot ixs rem"
      "y \<in> execute_preimages k slot' ixs' rem'" for x y
      using that by (auto simp: collides_def)
    have sha: "length (k_sha256 k x) = 32" for x using k by (simp add: kit_hashing_ok_def)
    have "EXECUTE_CHALLENGE_PREFIX @ slot_field slot @ k_sha256 k p @ k_sha256 k acc =
        EXECUTE_CHALLENGE_PREFIX @ slot_field slot' @ k_sha256 k p' @ k_sha256 k acc'"
      by (rule no) (use 1(4) 2(4) in \<open>simp_all add: pre pre'\<close>)
    then have "slot = slot'" and eq: "k_sha256 k p = k_sha256 k p'" "k_sha256 k acc = k_sha256 k acc'"
      using sha len by (simp_all add: append_eq_append_conv slot_field_id)
    moreover have "p = p'" "acc = acc'" using eq by (auto intro!: no simp: pre pre')
    moreover from this 1 2 idx have "ixs = ixs'" "as = as'"
      by (auto intro: pack_inj account_bytes_inj [OF k])
    ultimately show ?thesis using 1(2) 2(2) by simp
  qed simp
qed

text \<open>
  An execute challenge is bound to one payload.  If two challenges are the same bytes, then the slot
  hash, the compact instructions, and the address and privileges of every account they refer to are the
  same, or two of the byte strings hashed for them are a collision of SHA-256.
\<close>
theorem execute_challenge_binds:
  assumes "kit_hashing_ok k" and "length slot = 32" "length slot' = 32"
    and "list_all byte_indices ixs" "list_all byte_indices ixs'"
    and "hashExecuteChallenge k slot ixs remaining = Some h" "hashExecuteChallenge k slot' ixs' remaining' = Some h"
  shows "slot = slot' \<and> ixs = ixs' \<and>
      referenced (map (toChallengeAccount k) remaining) ixs = referenced (map (toChallengeAccount k) remaining') ixs' \<or>
    (\<exists>x \<in> execute_preimages k slot ixs remaining. \<exists>y \<in> execute_preimages k slot' ixs' remaining'. collides k x y)"
  using assms by (rule execute_challenge_binds_core)

definition sample_addr :: "char \<Rightarrow> address" where
  "sample_addr c = replicate 32 c"

definition sample_wide_table :: "account_meta list" where
  "sample_wide_table = [\<lparr>am_address = sample_addr CHR ''p'', am_role = READONLY\<rparr>,
     \<lparr>am_address = sample_addr CHR ''w'', am_role = WRITABLE\<rparr>]"

definition sample_wide_compacts :: "compact_instruction list" where
  "sample_wide_compacts = [\<lparr>ci_program = 0, ci_accounts = [1], ci_data = [9]\<rparr>]"

lemma sample_challenge:
  "\<exists>h. hashExecuteChallenge sample_kit (replicate 32 1) sample_wide_compacts sample_wide_table = Some h"
  by (simp add: hashExecuteChallenge_def hashReferencedAccounts_def packCompactInstructions_def pack_checks_def
      sample_wide_compacts_def sample_wide_table_def toChallengeAccount_def sample_addr_def sample_kit_def)

theorem execute_challenge_binds_witness:
  "\<exists>h. hashExecuteChallenge sample_kit (replicate 32 1) sample_wide_compacts sample_wide_table = Some h \<and>
    ((replicate 32 1 :: bytes) = replicate 32 1 \<or>
     (\<exists>x \<in> execute_preimages sample_kit (replicate 32 1) sample_wide_compacts sample_wide_table.
      \<exists>y \<in> execute_preimages sample_kit (replicate 32 1) sample_wide_compacts sample_wide_table. collides sample_kit x y))"
proof -
  obtain h where h: "hashExecuteChallenge sample_kit (replicate 32 1) sample_wide_compacts sample_wide_table = Some h"
    using sample_challenge by blast
  have "list_all byte_indices sample_wide_compacts" by (simp add: sample_wide_compacts_def byte_indices_def)
  from execute_challenge_binds [OF sample_kit_hashing _ _ this this h h] h show ?thesis by auto
qed

subsection \<open>The challenge of a compiled transaction\<close>

lemma uint8_less: "uint8 n < 256"
  using unat_byte_lt by (simp add: uint8_def)

lemma compiled_packs:
  "compiled addrs ix c \<Longrightarrow> length addrs \<le> 256 \<Longrightarrow> byte_indices c"
  by (auto simp: compiled_def byte_indices_def uint8_less)

lemma compile_compiled:
  assumes "kit_roles_ok k" "compileWalletInstructions k tp ixs p = Some (rem, cs)"
  shows "list_all2 (compiled (map am_address rem)) ixs cs"
proof -
  obtain tb where "list_all2 (compiled (table_addrs tb)) ixs cs" "map am_address rem = table_addrs tb"
    using compile_table [OF assms] .
  then show ?thesis by simp
qed

lemma compiled_packs_all:
  "list_all2 (compiled addrs) ixs cs \<Longrightarrow> length addrs \<le> 256 \<Longrightarrow> list_all byte_indices cs"
  by (induction rule: list_all2_induct) (simp_all add: compiled_packs)

lemma pick_accounts_length: "pick_accounts xs is = Some as \<Longrightarrow> length as = length is"
  by (induction "is" arbitrary: as) (auto split: option.splits)

lemma referenced_each:
  assumes "referenced A cs = Some as" "referenced B cs = Some as" "c \<in> set cs"
  shows "pick_accounts A (ci_program c # ci_accounts c) = pick_accounts B (ci_program c # ci_accounts c)"
  using assms
proof (induction cs arbitrary: as)
  case (Cons d cs)
  from Cons.prems(1) obtain x xs where 1: "pick_accounts A (ci_program d # ci_accounts d) = Some x" "referenced A cs = Some xs" "as = x @ xs"
    by (auto simp only: referenced.simps bind_eq_Some_conv map_option_eq_Some)
  from Cons.prems(2) obtain y ys where 2: "pick_accounts B (ci_program d # ci_accounts d) = Some y" "referenced B cs = Some ys" "as = y @ ys"
    by (auto simp only: referenced.simps bind_eq_Some_conv map_option_eq_Some)
  have "length x = length y" using pick_accounts_length [OF 1(1)] pick_accounts_length [OF 2(1)] by simp
  with 1(3) 2(3) have "x = y" "xs = ys" by simp_all
  with 1 2 Cons show ?case by auto
qed simp

lemma pick_lookup:
  "map_option (map ca_address) (pick_accounts (map (toChallengeAccount k) rem) is) = lookup_accounts rem is"
proof (induction "is")
  case (Cons i "is")
  then show ?case
    by (cases "nth_opt rem i")
      (auto simp: nth_opt_map toChallengeAccount_def option.map_comp comp_def simp flip: Cons
        simp del: nth_opt_Some_iff nth_opt_None_iff)
qed simp

definition essence :: "kit_instruction \<Rightarrow> address \<times> address list \<times> bytes" where
  "essence ix = (ix_program ix, map am_address (ix_metas ix), ix_bytes ix)"

definition essence_of :: "account_meta list \<Rightarrow> compact_instruction \<Rightarrow> (address list \<times> bytes) option" where
  "essence_of rem c = map_option (\<lambda>as. (as, ci_data c)) (lookup_accounts rem (ci_program c # ci_accounts c))"

lemma lookup_accounts_cong:
  "map am_address rem = map am_address rem' \<Longrightarrow> lookup_accounts rem is = lookup_accounts rem' is"
proof (induction "is")
  case (Cons i "is")
  have eq: "map_option am_address (nth_opt rem i) = map_option am_address (nth_opt rem' i)"
    using Cons.prems by (simp flip: nth_opt_map)
  with Cons show ?case
    by (cases "nth_opt rem i"; cases "nth_opt rem' i") (simp_all del: nth_opt_Some_iff nth_opt_None_iff)
qed simp

lemma essence_of_compiled:
  assumes "compiled (map am_address rem) ix c" "length rem \<le> 256"
  shows "essence_of rem c = Some (fst (essence ix) # fst (snd (essence ix)), snd (snd (essence ix)))"
proof -
  note look = compiled_lookup [OF assms]
  from look(1) obtain m where "nth_opt rem (ci_program c) = Some m" "am_address m = ix_program ix" by auto
  with look(2,3) show ?thesis by (simp add: essence_of_def essence_def del: nth_opt_Some_iff)
qed

lemma compiled_essences:
  assumes "list_all2 (compiled (map am_address rem)) ixs cs" "length rem \<le> 256"
  shows "map (essence_of rem) cs = map (\<lambda>ix. Some (fst (essence ix) # fst (snd (essence ix)), snd (snd (essence ix)))) ixs"
  using assms(1) by (induction rule: list_all2_induct) (simp_all add: essence_of_compiled [OF _ assms(2)])

text \<open>
  C36: A passkey tap authorises one transaction.  If the challenges of two compiled wallet transactions
  (with whatever further privileges the outer instruction adds to the account tables) are the same
  bytes, then both run the same programs with the same accounts and data in the same order, or two of
  the byte strings hashed for them are a collision of SHA-256.
\<close>
theorem passkey_authorises_one_transaction:
  assumes "kit_roles_ok k" "kit_hashing_ok k" and "length slot = 32" "length slot' = 32"
    and "compileWalletInstructions k tp ixs wallet = Some (rem, cs)" "length rem \<le> 256"
    and "compileWalletInstructions k tp ixs' wallet' = Some (rem', cs')" "length rem' \<le> 256"
    and "hashExecuteChallenge k slot cs (elevateRemainingForExecuteChallenge k rem ws ss) = Some h"
    and "hashExecuteChallenge k slot' cs' (elevateRemainingForExecuteChallenge k rem' ws' ss') = Some h"
  shows "map essence ixs = map essence ixs' \<or>
    (\<exists>x \<in> execute_preimages k slot cs (elevateRemainingForExecuteChallenge k rem ws ss).
     \<exists>y \<in> execute_preimages k slot' cs' (elevateRemainingForExecuteChallenge k rem' ws' ss'). collides k x y)"
proof -
  let ?r = "elevateRemainingForExecuteChallenge k rem ws ss" and ?r' = "elevateRemainingForExecuteChallenge k rem' ws' ss'"
  have c: "list_all2 (compiled (map am_address rem)) ixs cs" "list_all2 (compiled (map am_address rem')) ixs' cs'"
    by (rule compile_compiled [OF assms(1,5)], rule compile_compiled [OF assms(1,7)])
  have idx: "list_all byte_indices cs" "list_all byte_indices cs'"
    using compiled_packs_all [OF c(1)] compiled_packs_all [OF c(2)] assms(6,8) by simp_all
  have "cs = cs' \<and> referenced (map (toChallengeAccount k) ?r) cs = referenced (map (toChallengeAccount k) ?r') cs' \<longrightarrow>
      map essence ixs = map essence ixs'"
  proof
    assume eq: "cs = cs' \<and> referenced (map (toChallengeAccount k) ?r) cs = referenced (map (toChallengeAccount k) ?r') cs'"
    obtain as where ref: "referenced (map (toChallengeAccount k) ?r) cs = Some as"
      using execute_preimages [OF assms(9)] by metis
    have "essence_of rem d = essence_of rem' d" if "d \<in> set cs" for d
    proof -
      have "pick_accounts (map (toChallengeAccount k) ?r) (ci_program d # ci_accounts d) =
          pick_accounts (map (toChallengeAccount k) ?r') (ci_program d # ci_accounts d)"
        using referenced_each [OF ref _ that] eq ref by simp
      then have "lookup_accounts ?r (ci_program d # ci_accounts d) = lookup_accounts ?r' (ci_program d # ci_accounts d)"
        by (metis pick_lookup)
      then show ?thesis
        using lookup_accounts_cong [OF elevate_addresses [OF assms(1)]] by (simp only: essence_of_def)
    qed
    then have "map (essence_of rem) cs = map (essence_of rem') cs'" using eq by simp
    then have eqs: "map (\<lambda>e. Some (fst e # fst (snd e), snd (snd e))) (map essence ixs) =
        map (\<lambda>e. Some (fst e # fst (snd e), snd (snd e))) (map essence ixs')"
      using compiled_essences [OF c(1) assms(6)] compiled_essences [OF c(2) assms(8)] by (simp add: comp_def)
    have inj: "inj (\<lambda>e :: address \<times> address list \<times> bytes. Some (fst e # fst (snd e), snd (snd e)))"
      by (intro injI) (simp add: prod_eq_iff)
    show "map essence ixs = map essence ixs'" by (rule inj_map_eq_map [OF inj, THEN iffD1, OF eqs])
  qed
  then show ?thesis
    using execute_challenge_binds_core [OF assms(2-4) idx assms(9,10)] by blast
qed

definition sample_wide_instructions :: "kit_instruction list" where
  "sample_wide_instructions = [\<lparr>ix_program = sample_addr CHR ''p'',
     ix_accounts = Some [\<lparr>am_address = sample_addr CHR ''w'', am_role = WRITABLE_SIGNER\<rparr>], ix_data = Some [9]\<rparr>]"

lemma replicate_neq: "length s \<noteq> n \<Longrightarrow> replicate n c \<noteq> s"
  by auto

lemma sample_wide_compiled:
  "compileWalletInstructions sample_kit ''token'' sample_wide_instructions (sample_addr CHR ''w'') =
     Some (sample_wide_table, sample_wide_compacts)"
  by (simp add: compileWalletInstructions_def sample_wide_instructions_def DENIED_PROGRAMS_def sample_addr_def
      PHYGITAL_WALLET_PROGRAM_ADDRESS_def getOrInsertRemainingAccount_def empty_table_def downgradeWalletSignerRole_def
      sample_kit_def role_of_def is_signer_def is_writable_def uint8_id elevateRemainingForExecuteChallenge_def
      sample_wide_table_def sample_wide_compacts_def replicate_neq replicate_eq_replicate)

theorem passkey_authorises_one_transaction_witness:
  "\<exists>h. hashExecuteChallenge sample_kit (replicate 32 1) sample_wide_compacts
      (elevateRemainingForExecuteChallenge sample_kit sample_wide_table [] []) = Some h \<and>
    (map essence sample_wide_instructions = map essence sample_wide_instructions \<or>
     (\<exists>x \<in> execute_preimages sample_kit (replicate 32 1) sample_wide_compacts (elevateRemainingForExecuteChallenge sample_kit sample_wide_table [] []).
      \<exists>y \<in> execute_preimages sample_kit (replicate 32 1) sample_wide_compacts (elevateRemainingForExecuteChallenge sample_kit sample_wide_table [] []).
        collides sample_kit x y))"
proof -
  have id: "elevateRemainingForExecuteChallenge sample_kit sample_wide_table [] [] = sample_wide_table"
    by (simp add: elevateRemainingForExecuteChallenge_def)
  obtain h where h: "hashExecuteChallenge sample_kit (replicate 32 1) sample_wide_compacts
      (elevateRemainingForExecuteChallenge sample_kit sample_wide_table [] []) = Some h"
    using sample_challenge by (auto simp: id)
  have len: "length sample_wide_table \<le> 256" by (simp add: sample_wide_table_def)
  from passkey_authorises_one_transaction [OF sample_kit_ok(1) sample_kit_hashing _ _
      sample_wide_compiled len sample_wide_compiled len h h] h
  show ?thesis by auto
qed

text \<open>
  A passkey tap that approves a transaction never approves a new owner: an execute challenge and a
  set-authority challenge with the same bytes are a collision of SHA-256, because what is hashed for
  them differs in the prefix.
\<close>
theorem challenge_kinds_are_separate:
  assumes "hashExecuteChallenge k slot ixs remaining = Some h" "hashSetAuthorityChallenge k slot' token authority = Some h"
  shows "\<exists>x \<in> execute_preimages k slot ixs remaining. \<exists>tokenBytes authorityBytes.
    collides k x (SET_AUTHORITY_CHALLENGE_PREFIX @ slot_field slot' @ tokenBytes @ authorityBytes)"
proof -
  obtain p as acc where 1: "h = k_sha256 k (EXECUTE_CHALLENGE_PREFIX @ slot_field slot @ k_sha256 k p @ k_sha256 k acc)"
    "execute_preimages k slot ixs remaining =
       {p, acc, EXECUTE_CHALLENGE_PREFIX @ slot_field slot @ k_sha256 k p @ k_sha256 k acc}"
    using execute_preimages [OF assms(1)] by metis
  from assms(2) obtain t a where 2: "h = k_sha256 k (SET_AUTHORITY_CHALLENGE_PREFIX @ slot_field slot' @ t @ a)"
    by (auto simp: hashSetAuthorityChallenge_def bind_eq_Some_conv)
  have e: "(EXECUTE_CHALLENGE_PREFIX @ u) ! 16 = 101" for u
    by (simp add: EXECUTE_CHALLENGE_PREFIX_def utf8ToBytes_def utf8_char_def)
  have s: "(SET_AUTHORITY_CHALLENGE_PREFIX @ u) ! 16 = 115" for u
    by (simp add: SET_AUTHORITY_CHALLENGE_PREFIX_def utf8ToBytes_def utf8_char_def)
  have "EXECUTE_CHALLENGE_PREFIX @ u \<noteq> SET_AUTHORITY_CHALLENGE_PREFIX @ v" for u v
    using e [of u] s [of v] by auto
  with 1(1) 2 have "collides k (EXECUTE_CHALLENGE_PREFIX @ slot_field slot @ k_sha256 k p @ k_sha256 k acc)
      (SET_AUTHORITY_CHALLENGE_PREFIX @ slot_field slot' @ t @ a)"
    by (simp add: collides_def)
  then show ?thesis unfolding 1(2) by blast
qed

theorem challenge_kinds_are_separate_witness:
  "\<exists>h. hashExecuteChallenge (sample_kit\<lparr>k_sha256 := \<lambda>_. replicate 32 0\<rparr>) (replicate 32 1) sample_wide_compacts sample_wide_table = Some h \<and>
    hashSetAuthorityChallenge (sample_kit\<lparr>k_sha256 := \<lambda>_. replicate 32 0\<rparr>) (replicate 32 1) (sample_addr CHR ''t'') (sample_addr CHR ''a'') = Some h \<and>
    (\<exists>x \<in> execute_preimages (sample_kit\<lparr>k_sha256 := \<lambda>_. replicate 32 0\<rparr>) (replicate 32 1) sample_wide_compacts sample_wide_table.
      \<exists>t a. collides (sample_kit\<lparr>k_sha256 := \<lambda>_. replicate 32 0\<rparr>) x (SET_AUTHORITY_CHALLENGE_PREFIX @ slot_field (replicate 32 1) @ t @ a))"
proof -
  let ?k = "sample_kit\<lparr>k_sha256 := \<lambda>_. replicate 32 0\<rparr>"
  have e: "hashExecuteChallenge ?k (replicate 32 1) sample_wide_compacts sample_wide_table = Some (replicate 32 0)"
    by (simp add: hashExecuteChallenge_def hashReferencedAccounts_def packCompactInstructions_def pack_checks_def
        sample_wide_compacts_def sample_wide_table_def toChallengeAccount_def sample_addr_def sample_kit_def)
  have s: "hashSetAuthorityChallenge ?k (replicate 32 1) (sample_addr CHR ''t'') (sample_addr CHR ''a'') = Some (replicate 32 0)"
    by (simp add: hashSetAuthorityChallenge_def sample_addr_def sample_kit_def)
  from challenge_kinds_are_separate [OF e s] e s show ?thesis by blast
qed

end
