(* ===== verification/WrapMessage.thy ===== *)
theory WrapMessage
  imports Challenges "HOL-Library.Multiset"
begin

text \<open>
  The messages of the wrap pipeline (\<open>wallet/wrap-transaction.ts\<close> of the SDK, the functions without
  effects): upgrading a decompiled message to version 1, taking out compute-budget instructions, the
  two outer instructions, fees, limits, life time and fee payer.  The message setters and
  \<open>compileTransaction\<close> of \<open>@solana/kit\<close>, the data encoders of the two instructions and the addresses
  defined in other packages are fields of \<open>tx_kit\<close>.
\<close>

subsection \<open>Messages\<close>

record alt_account =
  aa_address :: address
  aa_role :: account_role
  aa_lookup :: "(address \<times> nat) option"

record alt_instruction =
  ai_program :: address
  ai_accounts :: "alt_account list option"
  ai_data :: "bytes option"

datatype lifetime = Blockhash string nat | Nonce string

record tx_config =
  tc_unitLimit :: "nat option"
  tc_priorityFee :: "nat option"
  tc_dataSize :: "nat option"

record decompiled_message =
  dm_version :: tx_version
  dm_feePayer :: address
  dm_instructions :: "alt_instruction list"
  dm_lifetime :: "lifetime option"
  dm_config :: tx_config

text \<open>A message of version 1: static accounts only.\<close>

record v1_message =
  vm_feePayer :: address
  vm_instructions :: "kit_instruction list"
  vm_lifetime :: "lifetime option"
  vm_config :: tx_config

definition no_config :: tx_config where
  "no_config = \<lparr>tc_unitLimit = None, tc_priorityFee = None, tc_dataSize = None\<rparr>"

record secp_args =
  sa_verifyArgsRelativeIndex :: nat
  sa_signedMessageIndex :: nat
  sa_clientDataJson :: bytes

record signed_transaction = kit_transaction +
  sg_lifetime :: "lifetime option"

record tx_kit =
  tk_kit :: kit
  tk_tokenProgram :: address
  tk_computeBudget :: address
  tk_executeData :: "compact_instruction list \<Rightarrow> secp_args \<Rightarrow> nat \<Rightarrow> bytes option"
  tk_policiesData :: "compact_instruction list \<Rightarrow> bytes option"
  tk_setUnitLimit :: "nat \<Rightarrow> v1_message \<Rightarrow> v1_message"
  tk_setPriorityFee :: "nat \<Rightarrow> v1_message \<Rightarrow> v1_message"
  tk_setDataSize :: "nat \<Rightarrow> v1_message \<Rightarrow> v1_message"
  tk_setFeePayer :: "address \<Rightarrow> v1_message \<Rightarrow> v1_message"
  tk_setBlockhash :: "string \<Rightarrow> nat \<Rightarrow> v1_message \<Rightarrow> v1_message"
  tk_compile :: "v1_message \<Rightarrow> kit_transaction option"

text \<open>Each setter sets its field of the message and nothing else.\<close>

definition tx_kit_ok :: "tx_kit \<Rightarrow> bool" where
  "tx_kit_ok T \<longleftrightarrow>
     tk_setUnitLimit T = (\<lambda>n m. m\<lparr>vm_config := (vm_config m)\<lparr>tc_unitLimit := Some n\<rparr>\<rparr>) \<and>
     tk_setPriorityFee T = (\<lambda>n m. m\<lparr>vm_config := (vm_config m)\<lparr>tc_priorityFee := Some n\<rparr>\<rparr>) \<and>
     tk_setDataSize T = (\<lambda>n m. m\<lparr>vm_config := (vm_config m)\<lparr>tc_dataSize := Some n\<rparr>\<rparr>) \<and>
     tk_setFeePayer T = (\<lambda>a m. m\<lparr>vm_feePayer := a\<rparr>) \<and>
     tk_setBlockhash T = (\<lambda>b n m. m\<lparr>vm_lifetime := Some (Blockhash b n)\<rparr>)"

subsection \<open>Constants\<close>

definition MEMO_PROGRAM_ADDRESS :: address where
  "MEMO_PROGRAM_ADDRESS = ''MemoSq4gqABAXKb96qnH8TysNcWxMyWCqXgDLGmfcHr''"

definition LOADED_ACCOUNTS_PAGE_BYTES :: nat where "LOADED_ACCOUNTS_PAGE_BYTES = 32 * 1024"
definition PREVIEW_COMPUTE_UNIT_LIMIT :: nat where "PREVIEW_COMPUTE_UNIT_LIMIT = 1400000"
definition PREVIEW_LOADED_ACCOUNTS_DATA_SIZE_LIMIT :: nat where
  "PREVIEW_LOADED_ACCOUNTS_DATA_SIZE_LIMIT = 64 * 1024 * 1024"
definition MIN_BLOCKHASH_REMAINING_SLOTS :: nat where "MIN_BLOCKHASH_REMAINING_SLOTS = 64"
definition DEFAULT_PRIORITY_FEE_MICRO_LAMPORTS :: nat where "DEFAULT_PRIORITY_FEE_MICRO_LAMPORTS = 10000"

text \<open>\<open>COMPUTE_UNIT_ESTIMATE_MARGIN\<close> is 1.1; the code only uses it as a number of tenths.\<close>

definition COMPUTE_UNIT_ESTIMATE_MARGIN_TENTHS :: nat where "COMPUTE_UNIT_ESTIMATE_MARGIN_TENTHS = 11"

definition PLACEHOLDER_SECP_ARGS :: secp_args where
  "PLACEHOLDER_SECP_ARGS = \<lparr>sa_verifyArgsRelativeIndex = 0, sa_signedMessageIndex = 0, sa_clientDataJson = []\<rparr>"

subsection \<open>Upgrading and stripping\<close>

definition stripComputeBudgetInstructions :: "tx_kit \<Rightarrow> kit_instruction list \<Rightarrow> kit_instruction list" where
  "stripComputeBudgetInstructions T ixs = filter (\<lambda>ix. ix_program ix \<noteq> tk_computeBudget T) ixs"

definition toStaticAccountMeta :: "alt_account \<Rightarrow> account_meta" where
  "toStaticAccountMeta a = \<lparr>am_address = aa_address a, am_role = aa_role a\<rparr>"

definition toStaticInstruction :: "alt_instruction \<Rightarrow> kit_instruction" where
  "toStaticInstruction ix =
     \<lparr>ix_program = ai_program ix, ix_accounts = map_option (map toStaticAccountMeta) (ai_accounts ix),
      ix_data = ai_data ix\<rparr>"

definition asV1TransactionMessage :: "decompiled_message \<Rightarrow> v1_message" where
  "asV1TransactionMessage m =
     \<lparr>vm_feePayer = dm_feePayer m, vm_instructions = map toStaticInstruction (dm_instructions m),
      vm_lifetime = dm_lifetime m, vm_config = no_config\<rparr>"

text \<open>A version 1 message given to a function of arbitrary decompiled messages.\<close>

definition as_decompiled :: "v1_message \<Rightarrow> decompiled_message" where
  "as_decompiled m =
     \<lparr>dm_version = Version 1, dm_feePayer = vm_feePayer m,
      dm_instructions = map (\<lambda>ix. \<lparr>ai_program = ix_program ix,
          ai_accounts = map_option (map (\<lambda>a. \<lparr>aa_address = am_address a, aa_role = am_role a, aa_lookup = None\<rparr>)) (ix_accounts ix),
          ai_data = ix_data ix\<rparr>) (vm_instructions m),
      dm_lifetime = vm_lifetime m, dm_config = vm_config m\<rparr>"

definition stripBudgetAndEnsureV1 :: "tx_kit \<Rightarrow> v1_message \<Rightarrow> v1_message" where
  "stripBudgetAndEnsureV1 T m =
     (let v1 = asV1TransactionMessage (as_decompiled m) in
      v1\<lparr>vm_instructions := stripComputeBudgetInstructions T (vm_instructions v1)\<rparr>)"

definition withRemainingAccounts :: "kit_instruction \<Rightarrow> account_meta list \<Rightarrow> kit_instruction" where
  "withRemainingAccounts ix remaining = ix\<lparr>ix_accounts := Some (ix_metas ix @ remaining)\<rparr>"

subsection \<open>Fees and limits\<close>

definition pickPriorityFeeMicroLamports :: "nat list \<Rightarrow> nat" where
  "pickPriorityFeeMicroLamports fees =
     (let sorted = sort (filter (\<lambda>f. f > 0) fees) in
      if sorted = [] then DEFAULT_PRIORITY_FEE_MICRO_LAMPORTS
      else sorted ! min (length sorted - 1) (length sorted div 2))"

definition withMargin :: "nat \<Rightarrow> nat" where
  "withMargin unitsConsumed =
     min 1400000 (max 1 ((unitsConsumed * COMPUTE_UNIT_ESTIMATE_MARGIN_TENTHS + 9) div 10))"

definition roundUpLoadedAccountsDataSize :: "nat \<Rightarrow> nat" where
  "roundUpLoadedAccountsDataSize n =
     (if n = 0 then LOADED_ACCOUNTS_PAGE_BYTES
      else (n + LOADED_ACCOUNTS_PAGE_BYTES - 1) div LOADED_ACCOUNTS_PAGE_BYTES * LOADED_ACCOUNTS_PAGE_BYTES)"

definition priorityFeeLamportsFromMicroLamports :: "nat \<Rightarrow> nat \<Rightarrow> nat" where
  "priorityFeeLamportsFromMicroLamports microLamportsPerCu unitLimit = microLamportsPerCu * unitLimit div 1000000"

text \<open>A JavaScript \<open>Set\<close> keeps the order of first insertion.\<close>

definition set_add :: "'a \<Rightarrow> 'a list \<Rightarrow> 'a list" where
  "set_add x xs = (if x \<in> set xs then xs else xs @ [x])"

definition collectWritableAddresses :: "tx_kit \<Rightarrow> v1_message \<Rightarrow> address list" where
  "collectWritableAddresses T m =
     foldl (\<lambda>w a. if k_isWritableRole (tk_kit T) (am_role a) then set_add (am_address a) w else w)
       (set_add (vm_feePayer m) []) (concat (map ix_metas (vm_instructions m)))"

definition applyPlaceholderResourceLimits :: "tx_kit \<Rightarrow> v1_message \<Rightarrow> v1_message" where
  "applyPlaceholderResourceLimits T m =
     tk_setDataSize T PREVIEW_LOADED_ACCOUNTS_DATA_SIZE_LIMIT
       (tk_setPriorityFee T 0 (tk_setUnitLimit T PREVIEW_COMPUTE_UNIT_LIMIT (stripBudgetAndEnsureV1 T m)))"

definition applyResourceLimits :: "tx_kit \<Rightarrow> v1_message \<Rightarrow> nat \<Rightarrow> nat \<Rightarrow> nat option \<Rightarrow> v1_message" where
  "applyResourceLimits T m unitLimit unitPrice loaded =
     (let next = tk_setUnitLimit T unitLimit (stripBudgetAndEnsureV1 T m);
          next = tk_setPriorityFee T (priorityFeeLamportsFromMicroLamports unitPrice unitLimit) next;
          dataSize = (case loaded of Some n \<Rightarrow> n | None \<Rightarrow> LOADED_ACCOUNTS_PAGE_BYTES) in
      tk_setDataSize T (roundUpLoadedAccountsDataSize dataSize) next)"

definition applyBlockhashIfNeeded :: "tx_kit \<Rightarrow> v1_message \<Rightarrow> string \<Rightarrow> nat \<Rightarrow> v1_message" where
  "applyBlockhashIfNeeded T m blockhash lastValid =
     (case vm_lifetime m of
        Some (Blockhash b n) \<Rightarrow>
          if n > lastValid + MIN_BLOCKHASH_REMAINING_SLOTS then m
          else tk_setBlockhash T blockhash lastValid m
      | _ \<Rightarrow> m)"

definition withLifetimeConstraint :: "kit_transaction \<Rightarrow> v1_message \<Rightarrow> signed_transaction" where
  "withLifetimeConstraint tx m =
     \<lparr>kt_messageBytes = kt_messageBytes tx, kt_signatures = kt_signatures tx, sg_lifetime = vm_lifetime m\<rparr>"

definition withFeePayerIfWallet :: "tx_kit \<Rightarrow> v1_message \<Rightarrow> address \<Rightarrow> address \<Rightarrow> v1_message" where
  "withFeePayerIfWallet T m walletPda feePayer =
     (if vm_feePayer m \<noteq> walletPda then m else tk_setFeePayer T feePayer m)"

subsection \<open>The outer instructions\<close>

record execute_accounts =
  xa_authority :: address
  xa_feePayer :: address
  xa_authorityAccount :: address
  xa_wallet :: address
  xa_phygitalToken :: address

definition SLOT_HASHES_SYSVAR :: address where "SLOT_HASHES_SYSVAR = ''SysvarS1otHashes111111111111111111111111111''"
definition INSTRUCTIONS_SYSVAR :: address where "INSTRUCTIONS_SYSVAR = ''Sysvar1nstructions1111111111111111111111111''"
definition DEFAULT_TOKEN_PROGRAM :: address where "DEFAULT_TOKEN_PROGRAM = ''DuPpckdjjgVAnYok2aTMAt264ZPBXqq3JSazJjCUzTJQ''"

definition meta :: "account_role \<Rightarrow> address \<Rightarrow> account_meta" where
  "meta r a = \<lparr>am_address = a, am_role = r\<rparr>"

text \<open>The generated builders, with the optional accounts left at their defaults as the callers do.\<close>

definition getExecuteInstruction ::
  "tx_kit \<Rightarrow> execute_accounts \<Rightarrow> compact_instruction list \<Rightarrow> secp_args \<Rightarrow> nat \<Rightarrow> kit_instruction option" where
  "getExecuteInstruction T xa cs args slotNumber =
     map_option (\<lambda>d.
       \<lparr>ix_program = PHYGITAL_WALLET_PROGRAM_ADDRESS,
        ix_accounts = Some [meta WRITABLE (xa_phygitalToken xa), meta WRITABLE (xa_wallet xa),
          meta WRITABLE (xa_authorityAccount xa), meta READONLY SLOT_HASHES_SYSVAR,
          meta READONLY INSTRUCTIONS_SYSVAR, meta READONLY DEFAULT_TOKEN_PROGRAM],
        ix_data = Some d\<rparr>)
     (tk_executeData T cs args slotNumber)"

definition getExecuteWithAuthorityUsingPoliciesInstruction ::
  "tx_kit \<Rightarrow> execute_accounts \<Rightarrow> compact_instruction list \<Rightarrow> kit_instruction option" where
  "getExecuteWithAuthorityUsingPoliciesInstruction T xa cs =
     map_option (\<lambda>d.
       \<lparr>ix_program = PHYGITAL_WALLET_PROGRAM_ADDRESS,
        ix_accounts = Some [meta READONLY_SIGNER (xa_authority xa), meta READONLY (xa_phygitalToken xa),
          meta WRITABLE (xa_authorityAccount xa), meta WRITABLE (xa_wallet xa), meta READONLY INSTRUCTIONS_SYSVAR],
        ix_data = Some d\<rparr>)
     (tk_policiesData T cs)"

subsection \<open>Preparing and wrapping\<close>

record prepared_wrap =
  pw_decompiled :: v1_message
  pw_body :: "kit_instruction list"
  pw_memo :: "kit_instruction list"

record pending_wrap =
  pd_prepared :: prepared_wrap
  pd_compacts :: "compact_instruction list"
  pd_remaining :: "account_meta list"
  pd_slotNumber :: nat
  pd_messageHash :: bytes

text \<open>The loop of \<open>prepareWrappedWalletTransaction\<close>: body and memo instructions.\<close>

fun split_instructions :: "tx_kit \<Rightarrow> kit_instruction list \<Rightarrow> kit_instruction list \<times> kit_instruction list" where
  "split_instructions T [] = ([], [])"
| "split_instructions T (ix # rest) =
     (let (bodies, memos) = split_instructions T rest in
      if ix_program ix = tk_computeBudget T then (bodies, memos)
      else if ix_program ix = MEMO_PROGRAM_ADDRESS then (bodies, ix # memos)
      else (ix # bodies, memos))"

text \<open>The part after decompiling; \<open>None\<close>: nothing to wrap.\<close>

definition prepareWrapped :: "tx_kit \<Rightarrow> decompiled_message \<Rightarrow> prepared_wrap option" where
  "prepareWrapped T dm =
     (let v1 = asV1TransactionMessage dm;
          (bodies, memos) = split_instructions T (vm_instructions v1) in
      if bodies = [] then None
      else Some \<lparr>pw_decompiled = v1, pw_body = bodies, pw_memo = memos\<rparr>)"

definition elevateForExecuteAccounts :: "tx_kit \<Rightarrow> account_meta list \<Rightarrow> execute_accounts \<Rightarrow> account_meta list" where
  "elevateForExecuteAccounts T remaining xa =
     elevateRemainingForExecuteChallenge (tk_kit T) remaining
       [xa_wallet xa, xa_phygitalToken xa, xa_authorityAccount xa] [xa_feePayer xa]"

definition buildPendingWalletWrap ::
  "tx_kit \<Rightarrow> prepared_wrap \<Rightarrow> slot_entry \<Rightarrow> compact_instruction list \<Rightarrow> account_meta list \<Rightarrow> pending_wrap option" where
  "buildPendingWalletWrap T prepared slot compacts remaining =
     map_option (\<lambda>(slotNumber, messageHash).
       \<lparr>pd_prepared = prepared, pd_compacts = compacts, pd_remaining = remaining, pd_slotNumber = slotNumber,
        pd_messageHash = messageHash\<rparr>)
     (buildExecuteChallengeFromSlot (tk_kit T) slot compacts remaining)"

definition buildWrappedBaseMessage ::
  "tx_kit \<Rightarrow> pending_wrap \<Rightarrow> execute_accounts \<Rightarrow> (kit_instruction \<times> secp_args) option \<Rightarrow> v1_message option" where
  "buildWrappedBaseMessage T pending xa secp =
     map_option (\<lambda>executeIx.
       let executeWithRemaining = withRemainingAccounts executeIx (pd_remaining pending);
           instructions = (case secp of Some (verifyIx, _) \<Rightarrow> [verifyIx] | None \<Rightarrow> []) @
             [executeWithRemaining] @ pw_memo (pd_prepared pending);
           base = asV1TransactionMessage (as_decompiled ((pw_decompiled (pd_prepared pending))\<lparr>vm_instructions := instructions\<rparr>)) in
       withFeePayerIfWallet T base (xa_wallet xa) (xa_feePayer xa))
     (getExecuteInstruction T xa (pd_compacts pending)
       (case secp of Some (_, args) \<Rightarrow> args | None \<Rightarrow> PLACEHOLDER_SECP_ARGS) (pd_slotNumber pending))"

definition buildPolicyPreviewMessage ::
  "tx_kit \<Rightarrow> prepared_wrap \<Rightarrow> compact_instruction list \<Rightarrow> account_meta list \<Rightarrow> execute_accounts \<Rightarrow> v1_message option" where
  "buildPolicyPreviewMessage T prepared compacts remaining xa =
     map_option (\<lambda>previewIx.
       let instructions = withRemainingAccounts previewIx remaining # pw_memo prepared;
           base = asV1TransactionMessage (as_decompiled ((pw_decompiled prepared)\<lparr>vm_instructions := instructions\<rparr>)) in
       applyPlaceholderResourceLimits T (withFeePayerIfWallet T base (xa_wallet xa) (xa_feePayer xa)))
     (getExecuteWithAuthorityUsingPoliciesInstruction T xa compacts)"

type_synonym signatures = "(address \<times> bytes option) list"

definition applyFeePayerSignature ::
  "signed_transaction \<Rightarrow> address \<Rightarrow> signatures \<Rightarrow> signatures \<Rightarrow> signed_transaction" where
  "applyFeePayerSignature tx walletPda prior feePayerSignatures =
     tx\<lparr>kt_signatures := spread (filter (\<lambda>(k, _). k \<noteq> walletPda) prior) feePayerSignatures\<rparr>"

subsection \<open>Messages compose as the comments say\<close>

lemma static_of_decompiled [simp]:
  "asV1TransactionMessage (as_decompiled m) = m\<lparr>vm_config := no_config\<rparr>"
proof -
  have "map toStaticAccountMeta (map (\<lambda>a. \<lparr>aa_address = am_address a, aa_role = am_role a, aa_lookup = None\<rparr>) as) = as" for as
    by (simp add: toStaticAccountMeta_def comp_def)
  then have "toStaticInstruction \<lparr>ai_program = ix_program ix,
      ai_accounts = map_option (map (\<lambda>a. \<lparr>aa_address = am_address a, aa_role = am_role a, aa_lookup = None\<rparr>)) (ix_accounts ix),
      ai_data = ix_data ix\<rparr> = ix" for ix
    by (cases ix) (simp add: toStaticInstruction_def option.map_comp comp_def option.map_ident)
  then show ?thesis
    by (simp add: asV1TransactionMessage_def as_decompiled_def comp_def)
qed

lemma wrapped_message:
  assumes "tx_kit_ok T" "buildWrappedBaseMessage T pending xa secp = Some m"
  obtains d where
    "vm_instructions m = (case secp of Some (verifyIx, _) \<Rightarrow> [verifyIx] | None \<Rightarrow> []) @
       [\<lparr>ix_program = PHYGITAL_WALLET_PROGRAM_ADDRESS,
         ix_accounts = Some ([meta WRITABLE (xa_phygitalToken xa), meta WRITABLE (xa_wallet xa),
           meta WRITABLE (xa_authorityAccount xa), meta READONLY SLOT_HASHES_SYSVAR,
           meta READONLY INSTRUCTIONS_SYSVAR, meta READONLY DEFAULT_TOKEN_PROGRAM] @ pd_remaining pending),
         ix_data = Some d\<rparr>] @ pw_memo (pd_prepared pending)"
    "vm_feePayer m = (if vm_feePayer (pw_decompiled (pd_prepared pending)) = xa_wallet xa then xa_feePayer xa
       else vm_feePayer (pw_decompiled (pd_prepared pending)))"
    "vm_lifetime m = vm_lifetime (pw_decompiled (pd_prepared pending))" "vm_config m = no_config"
proof -
  from assms(2) obtain executeIx where e: "getExecuteInstruction T xa (pd_compacts pending)
      (case secp of Some (_, args) \<Rightarrow> args | None \<Rightarrow> PLACEHOLDER_SECP_ARGS) (pd_slotNumber pending) = Some executeIx"
    and m: "m = withFeePayerIfWallet T ((pw_decompiled (pd_prepared pending))\<lparr>vm_instructions :=
        (case secp of Some (verifyIx, _) \<Rightarrow> [verifyIx] | None \<Rightarrow> []) @
        [withRemainingAccounts executeIx (pd_remaining pending)] @ pw_memo (pd_prepared pending),
        vm_config := no_config\<rparr>) (xa_wallet xa) (xa_feePayer xa)"
    by (auto simp: buildWrappedBaseMessage_def Let_def)
  from e obtain d where "executeIx = \<lparr>ix_program = PHYGITAL_WALLET_PROGRAM_ADDRESS,
        ix_accounts = Some [meta WRITABLE (xa_phygitalToken xa), meta WRITABLE (xa_wallet xa),
          meta WRITABLE (xa_authorityAccount xa), meta READONLY SLOT_HASHES_SYSVAR,
          meta READONLY INSTRUCTIONS_SYSVAR, meta READONLY DEFAULT_TOKEN_PROGRAM], ix_data = Some d\<rparr>"
    by (auto simp: getExecuteInstruction_def)
  with m assms(1) show thesis
    by (intro that [of d]) (auto simp: withFeePayerIfWallet_def withRemainingAccounts_def ix_metas_def tx_kit_ok_def)
qed

subsection \<open>The privileges in the message and in the challenge\<close>

text \<open>
  In a message every use of an account adds its privileges, and the fee payer is a writable signer; the
  program sees the union, whichever instruction asked for it.
\<close>

definition message_uses :: "v1_message \<Rightarrow> account_meta list" where
  "message_uses m =
     meta WRITABLE_SIGNER (vm_feePayer m) #
     concat (map (\<lambda>ix. meta READONLY (ix_program ix) # ix_metas ix) (vm_instructions m))"

definition message_role :: "v1_message \<Rightarrow> address \<Rightarrow> account_role" where
  "message_role m a = role_of (needs_signer (message_uses m) a) (needs_writable (message_uses m) a)"

lemma role_flags [simp]:
  "\<not> is_signer READONLY" "\<not> is_signer WRITABLE" "is_signer READONLY_SIGNER" "is_signer WRITABLE_SIGNER"
  "\<not> is_writable READONLY" "is_writable WRITABLE" "\<not> is_writable READONLY_SIGNER" "is_writable WRITABLE_SIGNER"
  by (simp_all add: is_signer_def is_writable_def)

lemma needs_Cons:
  "needs_signer (m # ms) a \<longleftrightarrow> am_address m = a \<and> is_signer (am_role m) \<or> needs_signer ms a"
  "needs_writable (m # ms) a \<longleftrightarrow> am_address m = a \<and> is_writable (am_role m) \<or> needs_writable ms a"
  by (auto simp: needs_signer_def needs_writable_def)

lemma meta_simps [simp]: "am_address (meta r a) = a" "am_role (meta r a) = r"
  by (simp_all add: meta_def)

text \<open>What the memo instructions of a message ask for.\<close>

definition memo_metas :: "pending_wrap \<Rightarrow> account_meta list" where
  "memo_metas pending = concat (map ix_metas (pw_memo (pd_prepared pending)))"

lemma ix_metas_record [simp]: "ix_metas \<lparr>ix_program = p, ix_accounts = Some as, ix_data = d\<rparr> = as"
  by (simp add: ix_metas_def)

lemma needs_concat_programs:
  "needs_signer (concat (map (\<lambda>ix. meta READONLY (p ix) # ix_metas ix) ixs)) a \<longleftrightarrow> needs_signer (concat (map ix_metas ixs)) a"
  "needs_writable (concat (map (\<lambda>ix. meta READONLY (p ix) # ix_metas ix) ixs)) a \<longleftrightarrow> needs_writable (concat (map ix_metas ixs)) a"
  by (induction ixs) (simp_all add: needs_Cons)

lemma needs_distinct:
  assumes "distinct (map am_address ms)" "m \<in> set ms"
  shows "needs_signer ms (am_address m) \<longleftrightarrow> is_signer (am_role m)"
    "needs_writable ms (am_address m) \<longleftrightarrow> is_writable (am_role m)"
  using assms by (auto simp: needs_signer_def needs_writable_def distinct_map dest: inj_onD)

lemma compile_distinct:
  assumes "kit_roles_ok k" "compileWalletInstructions k tp ixs p = Some (rem, cs)"
  shows "distinct (map am_address rem)"
  using compile_table [OF assms] table_ok_distinct by metis

lemma message_flags_core:
  assumes T: "tx_kit_ok T" "kit_roles_ok (tk_kit T)"
    and c: "compileWalletInstructions (tk_kit T) (tk_tokenProgram T) ixs (xa_wallet xa) = Some (rem0, cs)"
    and rem: "pd_remaining pending = elevateForExecuteAccounts T rem0 xa"
    and m: "buildWrappedBaseMessage T pending xa (Some (verifyIx, args)) = Some m"
    and verify: "ix_metas verifyIx = []" and r: "r \<in> set (pd_remaining pending)"
  shows "message_role m (am_address r) = role_of
      (is_signer (am_role r) \<or> needs_signer (memo_metas pending) (am_address r) \<or> am_address r = vm_feePayer m)
      (is_writable (am_role r) \<or> needs_writable (memo_metas pending) (am_address r) \<or> am_address r = vm_feePayer m)"
proof -
  let ?a = "am_address r"
  have d: "distinct (map am_address (pd_remaining pending))"
    using compile_distinct [OF T(2) c] by (simp add: rem elevateForExecuteAccounts_def elevate_addresses [OF T(2)])
  have w: "?a \<in> {xa_wallet xa, xa_phygitalToken xa, xa_authorityAccount xa} \<Longrightarrow> is_writable (am_role r)"
    using r by (auto simp: rem elevateForExecuteAccounts_def elevate_is_map [OF T(2)])
  obtain dt where ixs: "vm_instructions m = [verifyIx] @
       [\<lparr>ix_program = PHYGITAL_WALLET_PROGRAM_ADDRESS,
         ix_accounts = Some ([meta WRITABLE (xa_phygitalToken xa), meta WRITABLE (xa_wallet xa),
           meta WRITABLE (xa_authorityAccount xa), meta READONLY SLOT_HASHES_SYSVAR,
           meta READONLY INSTRUCTIONS_SYSVAR, meta READONLY DEFAULT_TOKEN_PROGRAM] @ pd_remaining pending),
         ix_data = Some dt\<rparr>] @ pw_memo (pd_prepared pending)"
    by (rule wrapped_message [OF T(1) m]) simp
  have uses: "message_uses m = [meta WRITABLE_SIGNER (vm_feePayer m), meta READONLY (ix_program verifyIx),
      meta READONLY PHYGITAL_WALLET_PROGRAM_ADDRESS, meta WRITABLE (xa_phygitalToken xa), meta WRITABLE (xa_wallet xa),
      meta WRITABLE (xa_authorityAccount xa), meta READONLY SLOT_HASHES_SYSVAR, meta READONLY INSTRUCTIONS_SYSVAR,
      meta READONLY DEFAULT_TOKEN_PROGRAM] @ pd_remaining pending @
      concat (map (\<lambda>ix. meta READONLY (ix_program ix) # ix_metas ix) (pw_memo (pd_prepared pending)))"
    using verify by (simp add: message_uses_def ixs)
  have "needs_signer (message_uses m) ?a \<longleftrightarrow>
      is_signer (am_role r) \<or> needs_signer (memo_metas pending) ?a \<or> ?a = vm_feePayer m"
    using needs_distinct(1) [OF d r] by (auto simp: uses needs_Cons needs_concat_programs memo_metas_def)
  moreover have "needs_writable (message_uses m) ?a \<longleftrightarrow>
      is_writable (am_role r) \<or> needs_writable (memo_metas pending) ?a \<or> ?a = vm_feePayer m"
    using needs_distinct(2) [OF d r] w by (auto simp: uses needs_Cons needs_concat_programs memo_metas_def)
  ultimately show ?thesis by (simp add: message_role_def)
qed

text \<open>
  When the privileges the passkey signs are the ones the program sees.  The role the challenge
  records for a remaining account is its role in the wrapped message exactly if no memo instruction asks
  for more and, should it be the fee payer of the message, the challenge already records a writable
  signer.  Everything else the outer instruction adds (the wallet, the token and the authority account
  are writable, the configured fee payer signs) has been added to the challenge before.
\<close>
theorem challenge_flags_match:
  assumes "tx_kit_ok T" "kit_roles_ok (tk_kit T)"
    and "compileWalletInstructions (tk_kit T) (tk_tokenProgram T) ixs (xa_wallet xa) = Some (rem0, cs)"
    and "pd_remaining pending = elevateForExecuteAccounts T rem0 xa"
    and "buildWrappedBaseMessage T pending xa (Some (verifyIx, args)) = Some m"
    and "ix_metas verifyIx = []" and "r \<in> set (pd_remaining pending)"
  shows "message_role m (am_address r) = am_role r \<longleftrightarrow>
    (needs_signer (memo_metas pending) (am_address r) \<longrightarrow> is_signer (am_role r)) \<and>
    (needs_writable (memo_metas pending) (am_address r) \<longrightarrow> is_writable (am_role r)) \<and>
    (am_address r = vm_feePayer m \<longrightarrow> am_role r = WRITABLE_SIGNER)"
  unfolding message_flags_core [OF assms]
  by (cases "am_role r") (auto simp: role_of_def)

definition sample_tx_kit :: tx_kit where
  "sample_tx_kit =
     \<lparr>tk_kit = sample_kit, tk_tokenProgram = ''token'', tk_computeBudget = ''budget'',
      tk_executeData = (\<lambda>cs a n. Some [1]), tk_policiesData = (\<lambda>cs. Some [2]),
      tk_setUnitLimit = (\<lambda>n m. m\<lparr>vm_config := (vm_config m)\<lparr>tc_unitLimit := Some n\<rparr>\<rparr>),
      tk_setPriorityFee = (\<lambda>n m. m\<lparr>vm_config := (vm_config m)\<lparr>tc_priorityFee := Some n\<rparr>\<rparr>),
      tk_setDataSize = (\<lambda>n m. m\<lparr>vm_config := (vm_config m)\<lparr>tc_dataSize := Some n\<rparr>\<rparr>),
      tk_setFeePayer = (\<lambda>a m. m\<lparr>vm_feePayer := a\<rparr>),
      tk_setBlockhash = (\<lambda>b n m. m\<lparr>vm_lifetime := Some (Blockhash b n)\<rparr>),
      tk_compile = (\<lambda>m. Some \<lparr>kt_messageBytes = [7], kt_signatures = [(vm_feePayer m, None)]\<rparr>)\<rparr>"

lemma sample_tx_kit_ok: "tx_kit_ok sample_tx_kit" "tk_kit sample_tx_kit = sample_kit"
  by (simp_all add: tx_kit_ok_def sample_tx_kit_def)

definition sample_accounts :: execute_accounts where
  "sample_accounts = \<lparr>xa_authority = ''owner'', xa_feePayer = ''fee'', xa_authorityAccount = ''authacct'',
     xa_wallet = ''wallet'', xa_phygitalToken = ''nft''\<rparr>"

text \<open>A wallet transaction that only reads the fee payer's account.\<close>

definition sample_message :: v1_message where
  "sample_message = \<lparr>vm_feePayer = ''wallet'',
     vm_instructions = [\<lparr>ix_program = ''prog1'', ix_accounts = Some [meta READONLY ''fee''], ix_data = Some [1]\<rparr>],
     vm_lifetime = Some (Blockhash ''old'' 100), vm_config = no_config\<rparr>"

definition sample_pending :: pending_wrap where
  "sample_pending =
     \<lparr>pd_prepared = \<lparr>pw_decompiled = sample_message, pw_body = vm_instructions sample_message, pw_memo = []\<rparr>,
      pd_compacts = [\<lparr>ci_program = 0, ci_accounts = [1], ci_data = [1]\<rparr>],
      pd_remaining = [meta READONLY ''prog1'', meta READONLY_SIGNER ''fee''], pd_slotNumber = 5, pd_messageHash = []\<rparr>"

theorem challenge_flags_match_witness:
  "\<exists>m r. buildWrappedBaseMessage sample_tx_kit sample_pending sample_accounts
      (Some (\<lparr>ix_program = ''secp'', ix_accounts = None, ix_data = None\<rparr>, PLACEHOLDER_SECP_ARGS)) = Some m \<and>
    r \<in> set (pd_remaining sample_pending) \<and> am_address r = ''fee'' \<and> message_role m (am_address r) \<noteq> am_role r"
proof -
  let ?v = "\<lparr>ix_program = ''secp'', ix_accounts = None, ix_data = None\<rparr>"
  have c: "compileWalletInstructions (tk_kit sample_tx_kit) (tk_tokenProgram sample_tx_kit) (vm_instructions sample_message)
      (xa_wallet sample_accounts) = Some ([meta READONLY ''prog1'', meta READONLY ''fee''], [\<lparr>ci_program = 0, ci_accounts = [1], ci_data = [1]\<rparr>])"
    by (simp add: compileWalletInstructions_def sample_message_def sample_accounts_def DENIED_PROGRAMS_def meta_def
        PHYGITAL_WALLET_PROGRAM_ADDRESS_def getOrInsertRemainingAccount_def empty_table_def downgradeWalletSignerRole_def
        sample_tx_kit_def sample_kit_def uint8_id elevateRemainingForExecuteChallenge_def)
  have rem: "pd_remaining sample_pending = elevateForExecuteAccounts sample_tx_kit [meta READONLY ''prog1'', meta READONLY ''fee''] sample_accounts"
    by (simp add: sample_pending_def elevateForExecuteAccounts_def elevateRemainingForExecuteChallenge_def sample_accounts_def
        sample_tx_kit_def sample_kit_def meta_def role_of_def)
  obtain m where m: "buildWrappedBaseMessage sample_tx_kit sample_pending sample_accounts (Some (?v, PLACEHOLDER_SECP_ARGS)) = Some m"
    by (simp add: buildWrappedBaseMessage_def getExecuteInstruction_def sample_tx_kit_def)
  have fee: "vm_feePayer m = ''fee''"
    by (rule wrapped_message [OF sample_tx_kit_ok(1) m]) (simp add: sample_pending_def sample_message_def sample_accounts_def)
  have "meta READONLY_SIGNER ''fee'' \<in> set (pd_remaining sample_pending)" by (simp add: sample_pending_def)
  from challenge_flags_match [OF sample_tx_kit_ok(1) _ c rem m _ this] fee m this sample_kit_ok(1)
  show ?thesis by (intro exI [of _ m] exI [of _ "meta READONLY_SIGNER ''fee''"]) (auto simp: sample_tx_kit_ok ix_metas_def)
qed

subsection \<open>Limits, fees and life time\<close>

lemma withMargin_bounds:
  "1 \<le> withMargin u" "withMargin u \<le> 1400000" "min u 1400000 \<le> withMargin u" "u * 11 div 10 \<le> 1399999 \<Longrightarrow> 10 * withMargin u \<ge> 11 * u"
  by (auto simp: withMargin_def COMPUTE_UNIT_ESTIMATE_MARGIN_TENTHS_def)

lemma roundUp_bounds:
  "n \<le> roundUpLoadedAccountsDataSize n" "roundUpLoadedAccountsDataSize n mod LOADED_ACCOUNTS_PAGE_BYTES = 0"
  "0 < roundUpLoadedAccountsDataSize n" "roundUpLoadedAccountsDataSize n < n + LOADED_ACCOUNTS_PAGE_BYTES \<or> n = 0"
proof -
  have p: "LOADED_ACCOUNTS_PAGE_BYTES = 32768" by (simp add: LOADED_ACCOUNTS_PAGE_BYTES_def)
  let ?q = "(n + 32767) div 32768 * 32768"
  have b: "n \<le> ?q" "?q < n + 32768"
    using div_mult_mod_eq [of "n + 32767" 32768] mod_less_divisor [of 32768 "n + 32767"] by linarith+
  have r: "roundUpLoadedAccountsDataSize n = (if n = 0 then 32768 else ?q)"
    by (simp add: roundUpLoadedAccountsDataSize_def p add.commute)
  show "n \<le> roundUpLoadedAccountsDataSize n" "roundUpLoadedAccountsDataSize n mod LOADED_ACCOUNTS_PAGE_BYTES = 0"
    "0 < roundUpLoadedAccountsDataSize n" "roundUpLoadedAccountsDataSize n < n + LOADED_ACCOUNTS_PAGE_BYTES \<or> n = 0"
    unfolding r using b by (cases "n = 0"; simp add: p)+
qed

text \<open>
  The limits of a wrapped transaction.  For any simulation result the unit limit lies between 1 and
  the network's maximum and is never below the units consumed (up to that maximum); the data size limit
  is the next full page; the priority fee is the price times the limit, rounded down; compute-budget
  instructions are gone, every other instruction, the fee payer and the life time are kept.
\<close>
theorem applyResourceLimits_bounds:
  assumes "tx_kit_ok T" "applyResourceLimits T m (withMargin units) price loaded = m'"
  shows "\<exists>limit fee size. vm_config m' = \<lparr>tc_unitLimit = Some limit, tc_priorityFee = Some fee, tc_dataSize = Some size\<rparr> \<and>
    1 \<le> limit \<and> limit \<le> 1400000 \<and> min units 1400000 \<le> limit \<and>
    1000000 * fee \<le> price * limit \<and> price * limit < 1000000 * (fee + 1) \<and>
    size mod 32768 = 0 \<and> 0 < size \<and> (case loaded of Some n \<Rightarrow> n | None \<Rightarrow> 32768) \<le> size \<and>
    vm_instructions m' = filter (\<lambda>ix. ix_program ix \<noteq> tk_computeBudget T) (vm_instructions m) \<and>
    vm_feePayer m' = vm_feePayer m \<and> vm_lifetime m' = vm_lifetime m"
proof -
  have p: "LOADED_ACCOUNTS_PAGE_BYTES = 32768" by (simp add: LOADED_ACCOUNTS_PAGE_BYTES_def)
  let ?n = "case loaded of Some n \<Rightarrow> n | None \<Rightarrow> 32768"
  let ?limit = "withMargin units" and ?size = "roundUpLoadedAccountsDataSize ?n"
  let ?fee = "price * ?limit div 1000000"
  have m': "vm_config m' = \<lparr>tc_unitLimit = Some ?limit, tc_priorityFee = Some ?fee, tc_dataSize = Some ?size\<rparr>"
    "vm_instructions m' = filter (\<lambda>ix. ix_program ix \<noteq> tk_computeBudget T) (vm_instructions m)"
    "vm_feePayer m' = vm_feePayer m" "vm_lifetime m' = vm_lifetime m"
    using assms
    by (auto split: option.split simp: applyResourceLimits_def Let_def tx_kit_ok_def stripBudgetAndEnsureV1_def p no_config_def
        stripComputeBudgetInstructions_def priorityFeeLamportsFromMicroLamports_def)
  have fee: "1000000 * ?fee \<le> price * ?limit" by (rule times_div_less_eq_dividend)
  have fee': "price * ?limit < 1000000 * (?fee + 1)" using dividend_less_times_div [of 1000000 "price * ?limit"] by simp
  have "?size mod 32768 = 0" "0 < ?size" "?n \<le> ?size"
    using roundUp_bounds [of ?n] by (simp_all add: p)
  with m' fee fee' withMargin_bounds [of units] show ?thesis
    by (intro exI [of _ ?limit] exI [of _ ?fee] exI [of _ ?size]) simp
qed

theorem applyResourceLimits_bounds_witness:
  "\<exists>limit fee size. vm_config (applyResourceLimits sample_tx_kit sample_message (withMargin 100000) 10000 None) =
     \<lparr>tc_unitLimit = Some limit, tc_priorityFee = Some fee, tc_dataSize = Some size\<rparr> \<and> 100000 \<le> limit"
  using applyResourceLimits_bounds [OF sample_tx_kit_ok(1) refl, of sample_message 100000 10000 None]
  by (elim exE conjE) (intro exI conjI, assumption, simp)

text \<open>
  The life time of a wrapped transaction never ends before that of the latest block, and a
  transaction is left with its own block hash only if that one outlives the latest block hash by more
  than 64 slots.  As no block hash outlives the latest one, the block hash is in fact always replaced.
\<close>
theorem applyBlockhash_always_fresh:
  assumes "tx_kit_ok T" "vm_lifetime m = Some (Blockhash old oldLast)"
  shows "\<exists>b n. vm_lifetime (applyBlockhashIfNeeded T m latest lastValid) = Some (Blockhash b n) \<and> lastValid \<le> n \<and>
    (oldLast \<le> lastValid + 64 \<longrightarrow> b = latest \<and> n = lastValid)"
  using assms by (auto simp: applyBlockhashIfNeeded_def tx_kit_ok_def MIN_BLOCKHASH_REMAINING_SLOTS_def)

theorem applyBlockhash_always_fresh_witness:
  "\<exists>b n. vm_lifetime (applyBlockhashIfNeeded sample_tx_kit sample_message ''new'' 150) = Some (Blockhash b n) \<and>
    b = ''new'' \<and> n = 150"
  using applyBlockhash_always_fresh [OF sample_tx_kit_ok(1), of sample_message "''old''" 100 "''new''" 150]
  by (simp add: sample_message_def)

lemma sorted_nth_counts:
  assumes "sorted xs" "k < length xs"
  shows "length (filter (\<lambda>x. x < xs ! k) xs) \<le> k" "length (filter (\<lambda>x. x > xs ! k) xs) \<le> length xs - Suc k"
proof -
  have split: "take k xs @ xs ! k # drop (Suc k) xs = xs" using assms(2) by (rule id_take_nth_drop [symmetric])
  have eq: "filter P xs = filter P (take k xs) @ filter P (xs ! k # drop (Suc k) xs)" for P
    unfolding filter_append [symmetric] split ..
  have le: "\<forall>x \<in> set (drop (Suc k) xs). xs ! k \<le> x" "\<forall>x \<in> set (take k xs). x \<le> xs ! k"
    using assms by (auto simp: set_conv_nth sorted_iff_nth_mono)
  from le(1) have "filter (\<lambda>x. x < xs ! k) (xs ! k # drop (Suc k) xs) = []"
    by (auto simp: filter_empty_conv not_less)
  then show "length (filter (\<lambda>x. x < xs ! k) xs) \<le> k"
    using eq [of "\<lambda>x. x < xs ! k"] length_filter_le [of "\<lambda>x. x < xs ! k" "take k xs"] assms(2) by simp
  from le(2) have "filter (\<lambda>x. x > xs ! k) (take k xs) = []"
    by (auto simp: filter_empty_conv not_less)
  then show "length (filter (\<lambda>x. x > xs ! k) xs) \<le> length xs - Suc k"
    using eq [of "\<lambda>x. x > xs ! k"] length_filter_le [of "\<lambda>x. x > xs ! k" "drop (Suc k) xs"] by simp
qed

lemma pickPriorityFee_is_median:
  fixes fees :: "nat list"
  defines "positive \<equiv> filter (\<lambda>f. f > 0) fees"
  assumes "positive \<noteq> []"
  shows "pickPriorityFeeMicroLamports fees \<in> set positive"
    "length (filter (\<lambda>f. f < pickPriorityFeeMicroLamports fees) positive) \<le> length positive div 2"
    "length (filter (\<lambda>f. f > pickPriorityFeeMicroLamports fees) positive) \<le> length positive div 2"
proof -
  let ?s = "sort positive" and ?k = "length positive div 2"
  have k: "?k < length ?s" using assms(2) by (cases positive) simp_all
  then have "min (length ?s - 1) ?k = ?k" by simp
  then have p: "pickPriorityFeeMicroLamports fees = ?s ! ?k"
    using assms(2) by (simp add: pickPriorityFeeMicroLamports_def Let_def flip: positive_def)
      (metis length_sort list.size(3) neq0_conv length_0_conv)
  show "pickPriorityFeeMicroLamports fees \<in> set positive" using k p by (metis nth_mem set_sort)
  have same: "length (filter P positive) = length (filter P ?s)" for P
    by (metis mset_filter mset_sort size_mset)
  note c = sorted_nth_counts [OF sorted_sort k]
  show "length (filter (\<lambda>f. f < pickPriorityFeeMicroLamports fees) positive) \<le> ?k"
    using c(1) by (simp add: same p)
  show "length (filter (\<lambda>f. f > pickPriorityFeeMicroLamports fees) positive) \<le> ?k"
    using c(2) by (simp add: same p)
qed

end
