(* ===== verification/WrapPipeline.thy ===== *)
theory WrapPipeline
  imports WrapMessage
begin

text \<open>
  The wrap pipeline of the SDK with its effects (\<open>modifyAndWrapWalletTransaction\<close> in
  \<open>wallet/wrap-transaction.ts\<close>), the policy denials (\<open>wallet/preview.ts\<close>), the HTTP fee payer
  (\<open>wallet/fee-payer.ts\<close>) and the modifying signer (\<open>wallet/signer.ts\<close>).  What the RPC node, the
  authenticator and the fee payer answer is a record of functions; the calls that the user or another
  party can see are recorded in order.
\<close>

subsection \<open>Policy denials\<close>

datatype wrap_error =
    PolicyDenied string string bool
  | SimulationFailed
  | NothingToWrap
  | NotCompilable
  | ChallengeFailed
  | RpcFailed
  | PasskeyFailed
  | Aborted
  | FeePayerFailed string
  | Unsupported string

datatype transaction_error = CustomError nat | OtherTransactionError

definition POLICY_SOFT_DENY_BY_CODE :: "nat \<rightharpoonup> string \<times> string" where
  "POLICY_SOFT_DENY_BY_CODE =
     [0x1780 \<mapsto> (''mint_not_allowed'', ''Mint has no configured spend cap''),
      0x1781 \<mapsto> (''spend_limit'', ''Transfer exceeds the configured spending limit''),
      0x1786 \<mapsto> (''program_not_allowed'',
        ''Passkey execute may only invoke allow-listed programs while a policy is active''),
      0x1788 \<mapsto> (''instruction_not_allowed'', ''Instruction does not satisfy the configured program rules'')]"

definition policyDeniedErrorFromSolanaError :: "transaction_error \<Rightarrow> wrap_error option" where
  "policyDeniedErrorFromSolanaError e =
     (case e of
        OtherTransactionError \<Rightarrow> None
      | CustomError c \<Rightarrow> map_option (\<lambda>(code, message). PolicyDenied code message True) (POLICY_SOFT_DENY_BY_CODE c))"

subsection \<open>The surroundings\<close>

text \<open>\<open>None\<close>: the call is rejected.  The tap of the passkey is whatever \<open>buildSecp256r1VerifyInstruction\<close> takes.\<close>

record wrap_io =
  wi_decompile :: "bytes \<Rightarrow> nat option \<Rightarrow> decompiled_message option"
  wi_simulate :: "kit_transaction \<Rightarrow> transaction_error option option"
  wi_fees :: "address list \<Rightarrow> nat list option"
  wi_slotHashes :: "bytes option option"
  wi_latestBlockhash :: "(string \<times> nat) option"
  wi_abortBeforePasskey :: bool
  wi_authenticate :: "bytes \<Rightarrow> bytes option"
  wi_buildSecp :: "bytes \<Rightarrow> (kit_instruction \<times> secp_args) option"
  wi_estimate :: "v1_message \<Rightarrow> (nat \<times> nat option) option"
  wi_abortBeforeFeePayer :: bool
  wi_feePayer :: "signed_transaction \<Rightarrow> wrap_error + signatures"

datatype wrap_event = Previewing | AskPasskey bytes | AskFeePayer signed_transaction

definition require :: "'e \<Rightarrow> 'a option \<Rightarrow> 'e + 'a" where
  "require e v = (case v of None \<Rightarrow> Inl e | Some x \<Rightarrow> Inr x)"

lemma require_Inr [result_simps]: "require e v = Inr x \<longleftrightarrow> v = Some x"
  by (simp add: require_def split: option.splits)

lemma map_sum_Inr [result_simps]: "map_sum f g s = Inr y \<longleftrightarrow> (\<exists>x. s = Inr x \<and> y = g x)"
  by (cases s) auto

subsection \<open>The steps\<close>

definition prepareWrappedWalletTransaction ::
  "tx_kit \<Rightarrow> wrap_io \<Rightarrow> signed_transaction \<Rightarrow> wrap_error + prepared_wrap" where
  "prepareWrappedWalletTransaction T W tx =
     (let decompileConfig = (case sg_lifetime tx of Some (Blockhash _ n) \<Rightarrow> Some n | _ \<Rightarrow> None) in
      obind (require RpcFailed (wi_decompile W (kt_messageBytes tx) decompileConfig)) (\<lambda>dm.
      require NothingToWrap (prepareWrapped T dm)))"

definition assertPolicyPreviewSucceeds :: "tx_kit \<Rightarrow> wrap_io \<Rightarrow> v1_message \<Rightarrow> wrap_error + unit" where
  "assertPolicyPreviewSucceeds T W m =
     obind (require NotCompilable (tk_compile T m)) (\<lambda>tx.
     obind (require RpcFailed (wi_simulate W tx)) (\<lambda>err.
     case err of
       None \<Rightarrow> Inr ()
     | Some e \<Rightarrow> Inl (case policyDeniedErrorFromSolanaError e of Some denial \<Rightarrow> denial | None \<Rightarrow> SimulationFailed)))"

definition fetchPriorityFeeMicroLamports ::
  "tx_kit \<Rightarrow> wrap_io \<Rightarrow> prepared_wrap \<Rightarrow> compact_instruction list \<Rightarrow> account_meta list \<Rightarrow> execute_accounts \<Rightarrow>
   wrap_error + nat" where
  "fetchPriorityFeeMicroLamports T W prepared compacts remaining xa =
     (let pending = \<lparr>pd_prepared = prepared, pd_compacts = compacts, pd_remaining = remaining,
            pd_slotNumber = 0, pd_messageHash = replicate 32 0\<rparr> in
      obind (require NotCompilable (buildWrappedBaseMessage T pending xa None)) (\<lambda>m.
      map_sum (\<lambda>e. e) pickPriorityFeeMicroLamports
        (require RpcFailed (wi_fees W (collectWritableAddresses T m)))))"

definition finalizeWrappedWalletTransaction ::
  "tx_kit \<Rightarrow> wrap_io \<Rightarrow> pending_wrap \<Rightarrow> execute_accounts \<Rightarrow> bytes \<Rightarrow> nat \<Rightarrow> string \<times> nat \<Rightarrow>
   wrap_error + signed_transaction" where
  "finalizeWrappedWalletTransaction T W pending xa tap unitPrice block =
     obind (require PasskeyFailed (wi_buildSecp W tap)) (\<lambda>secp.
     obind (require NotCompilable (buildWrappedBaseMessage T pending xa (Some secp))) (\<lambda>base.
     obind (require RpcFailed (wi_estimate W base)) (\<lambda>(units, loaded).
     let m = applyResourceLimits T base (withMargin units) unitPrice loaded;
         m = applyBlockhashIfNeeded T m (fst block) (snd block) in
     map_sum (\<lambda>e. e) (\<lambda>tx. withLifetimeConstraint tx m) (require NotCompilable (tk_compile T m)))))"

text \<open>
  The four calls of \<open>Promise.all\<close>.  When several fail, the one that fails first wins; the model takes
  the order of the list.
\<close>

definition prefetch ::
  "tx_kit \<Rightarrow> wrap_io \<Rightarrow> prepared_wrap \<Rightarrow> compact_instruction list \<Rightarrow> account_meta list \<Rightarrow> execute_accounts \<Rightarrow>
   v1_message \<Rightarrow> wrap_error + nat \<times> slot_entry \<times> string \<times> nat" where
  "prefetch T W prepared compacts remaining xa previewMessage =
     obind (assertPolicyPreviewSucceeds T W previewMessage) (\<lambda>_.
     obind (fetchPriorityFeeMicroLamports T W prepared compacts remaining xa) (\<lambda>unitPrice.
     obind (require RpcFailed (wi_slotHashes W)) (\<lambda>dat.
     obind (require RpcFailed (fetchLatestSlotHash dat)) (\<lambda>slot.
     obind (require RpcFailed (wi_latestBlockhash W)) (\<lambda>block.
     Inr (unitPrice, slot, block))))))"

text \<open>The end of the pipeline: passkey, final transaction, fee payer.\<close>

definition tap_and_finalize ::
  "tx_kit \<Rightarrow> wrap_io \<Rightarrow> signed_transaction \<Rightarrow> address \<Rightarrow> execute_accounts \<Rightarrow> pending_wrap \<Rightarrow> nat \<Rightarrow>
   string \<times> nat \<Rightarrow> wrap_event list \<times> (wrap_error + signed_transaction)" where
  "tap_and_finalize T W tx walletPda xa pending unitPrice block =
     (if wi_abortBeforePasskey W then ([], Inl Aborted)
      else
        let asked = AskPasskey (pd_messageHash pending) in
        case wi_authenticate W (pd_messageHash pending) of
          None \<Rightarrow> ([asked], Inl PasskeyFailed)
        | Some tap \<Rightarrow>
        (case finalizeWrappedWalletTransaction T W pending xa tap unitPrice block of
          Inl e \<Rightarrow> ([asked], Inl e)
        | Inr wrapped \<Rightarrow>
            if wi_abortBeforeFeePayer W then ([asked], Inl Aborted)
            else ([asked, AskFeePayer wrapped],
              map_sum (\<lambda>e. e) (applyFeePayerSignature wrapped walletPda (kt_signatures tx)) (wi_feePayer W wrapped))))"

definition modifyAndWrapWalletTransaction ::
  "tx_kit \<Rightarrow> wrap_io \<Rightarrow> signed_transaction \<Rightarrow> address \<Rightarrow> execute_accounts \<Rightarrow>
   wrap_event list \<times> (wrap_error + signed_transaction)" where
  "modifyAndWrapWalletTransaction T W tx walletPda xa =
     (case prepareWrappedWalletTransaction T W tx of
        Inl e \<Rightarrow> ([], Inl e)
      | Inr prepared \<Rightarrow>
     (case compileWalletInstructions (tk_kit T) (tk_tokenProgram T) (pw_body prepared) walletPda of
        None \<Rightarrow> ([], Inl NotCompilable)
      | Some (remaining0, compacts) \<Rightarrow>
          let remaining = elevateForExecuteAccounts T remaining0 xa in
          (case buildPolicyPreviewMessage T prepared compacts remaining xa of
             None \<Rightarrow> ([Previewing], Inl NotCompilable)
           | Some previewMessage \<Rightarrow>
          (case prefetch T W prepared compacts remaining xa previewMessage of
             Inl e \<Rightarrow> ([Previewing], Inl e)
           | Inr (unitPrice, slot, block) \<Rightarrow>
          (case buildPendingWalletWrap T prepared slot compacts remaining of
             None \<Rightarrow> ([Previewing], Inl ChallengeFailed)
           | Some pending \<Rightarrow>
               map_prod (\<lambda>evs. Previewing # evs) (\<lambda>r. r)
                 (tap_and_finalize T W tx walletPda xa pending unitPrice block))))))"

subsection \<open>The signer\<close>

datatype sign_phase = Preparing | PreviewingPhase | AwaitingPasskey | Building | FeePaying | Complete

text \<open>The phases the callback of \<open>modifyAndSignTransactions\<close> sees for the events of one wrap.\<close>

fun phases_of :: "wrap_event list \<Rightarrow> bool \<Rightarrow> sign_phase list" where
  "phases_of [] tapped = []"
| "phases_of (Previewing # evs) tapped = PreviewingPhase # phases_of evs tapped"
| "phases_of (AskPasskey _ # evs) tapped = AwaitingPasskey # (if tapped then [Building] else []) @ phases_of evs tapped"
| "phases_of (AskFeePayer _ # evs) tapped = FeePaying # phases_of evs tapped"

definition modifyAndSignTransactions ::
  "tx_kit \<Rightarrow> wrap_io \<Rightarrow> bool \<Rightarrow> execute_accounts \<Rightarrow> signed_transaction list \<Rightarrow>
   sign_phase list \<times> wrap_event list \<times> (wrap_error + signed_transaction list)" where
  "modifyAndSignTransactions T W abortedBefore xa txs =
     (if abortedBefore then ([], [], Inl Aborted)
      else case txs of
        [tx] \<Rightarrow>
          (case sg_lifetime tx of
             None \<Rightarrow> ([], [], Inl (Unsupported ''requires transactions with a lifetime constraint''))
           | Some (Nonce _) \<Rightarrow> ([], [], Inl (Unsupported ''does not support durable nonce transactions''))
           | Some (Blockhash _ _) \<Rightarrow>
               (let (evs, r) = modifyAndWrapWalletTransaction T W tx (xa_wallet xa) xa;
                    tapped = (\<exists>h. AskPasskey h \<in> set evs \<and> wi_authenticate W h \<noteq> None) in
                (Preparing # phases_of evs tapped @ (case r of Inl _ \<Rightarrow> [] | Inr _ \<Rightarrow> [Complete]), evs,
                 map_sum (\<lambda>e. e) (\<lambda>wrapped. [wrapped]) r)))
      | _ \<Rightarrow> ([], [], Inl (Unsupported ''accepts exactly one transaction per sign'')))"

subsection \<open>The HTTP fee payer\<close>

record fee_answer =
  fa_status :: nat
  fa_signatures :: "string list option"
  fa_error :: "string option"
  fa_code :: "string option"

definition fee_failed_text :: "nat \<Rightarrow> string" where
  "fee_failed_text status = ''Sign request failed ('' @ nat_text status @ '')''"

definition fee_signature :: "(string \<Rightarrow> bytes) \<Rightarrow> address \<Rightarrow> string \<Rightarrow> wrap_error + signatures" where
  "fee_signature decode64 feePayer s =
     (let signatureBytes = decode64 s in
      if length signatureBytes \<noteq> 64 then Inl (FeePayerFailed ''Fee payer signature must be 64 bytes'')
      else Inr [(feePayer, Some signatureBytes)])"

fun fee_signatures :: "(string \<Rightarrow> bytes) \<Rightarrow> address \<Rightarrow> string list \<Rightarrow> wrap_error + signatures list" where
  "fee_signatures decode64 feePayer [] = Inr []"
| "fee_signatures decode64 feePayer (s # rest) =
     obind (fee_signature decode64 feePayer s) (\<lambda>d.
       map_sum (\<lambda>e. e) (\<lambda>ds. d # ds) (fee_signatures decode64 feePayer rest))"

text \<open>\<open>signTransactions\<close> of \<open>createDefaultFeePayer\<close>; \<open>None\<close>: the request itself was rejected.\<close>

definition feePayerSignTransactions ::
  "(string \<Rightarrow> bytes) \<Rightarrow> address \<Rightarrow> bool \<Rightarrow> kit_transaction list \<Rightarrow> fee_answer option \<Rightarrow> wrap_error + signatures list" where
  "feePayerSignTransactions decode64 feePayer aborted txs response =
     (if aborted then Inl Aborted
      else case response of
        None \<Rightarrow> Inl RpcFailed
      | Some a \<Rightarrow>
          if \<not> (200 \<le> fa_status a \<and> fa_status a \<le> 299) then
            (let text = (case fa_error a of Some e \<Rightarrow> e | None \<Rightarrow> fee_failed_text (fa_status a)) in
             case fa_code a of
               Some code \<Rightarrow> if code \<noteq> '''' then Inl (PolicyDenied code text False) else Inl (FeePayerFailed text)
             | None \<Rightarrow> Inl (FeePayerFailed text))
          else case fa_signatures a of
            None \<Rightarrow> Inl (FeePayerFailed ''Fee payer sign response missing signatures'')
          | Some ss \<Rightarrow>
              if length ss \<noteq> length txs then Inl (FeePayerFailed ''Fee payer sign response missing signatures'')
              else fee_signatures decode64 feePayer ss)"

subsection \<open>Who is asked when\<close>

text \<open>The wrap a run of the pipeline has planned when it has passed its first checks.\<close>

definition wrap_plan ::
  "tx_kit \<Rightarrow> wrap_io \<Rightarrow> signed_transaction \<Rightarrow> address \<Rightarrow> execute_accounts \<Rightarrow> v1_message \<Rightarrow> pending_wrap \<Rightarrow> bool" where
  "wrap_plan T W tx walletPda xa previewMessage pending \<longleftrightarrow>
     (\<exists>remaining0 (slot :: slot_entry).
        prepareWrappedWalletTransaction T W tx = Inr (pd_prepared pending) \<and>
        compileWalletInstructions (tk_kit T) (tk_tokenProgram T) (pw_body (pd_prepared pending)) walletPda =
          Some (remaining0, pd_compacts pending) \<and>
        pd_remaining pending = elevateForExecuteAccounts T remaining0 xa \<and>
        buildPolicyPreviewMessage T (pd_prepared pending) (pd_compacts pending) (pd_remaining pending) xa = Some previewMessage \<and>
        hashExecuteChallenge (tk_kit T) (sl_slotHash slot) (pd_compacts pending) (pd_remaining pending) = Some (pd_messageHash pending) \<and>
        pd_slotNumber pending = sl_slotNumber slot)"

lemma buildPending_Some:
  "buildPendingWalletWrap T prepared slot cs rem = Some pending \<longleftrightarrow>
     (\<exists>h. hashExecuteChallenge (tk_kit T) (sl_slotHash slot) cs rem = Some h \<and>
       pending = \<lparr>pd_prepared = prepared, pd_compacts = cs, pd_remaining = rem, pd_slotNumber = sl_slotNumber slot, pd_messageHash = h\<rparr>)"
  by (auto simp: buildPendingWalletWrap_def buildExecuteChallengeFromSlot_def)

lemma prefetch_Inr:
  "prefetch T W prepared cs rem xa pm = Inr (price, slot, block) \<Longrightarrow>
     \<exists>sim. tk_compile T pm = Some sim \<and> wi_simulate W sim = Some None"
  by (auto simp: prefetch_def assertPolicyPreviewSucceeds_def result_simps split: option.splits)

text \<open>A run either stops before the passkey is asked, or it reaches \<open>tap_and_finalize\<close> with a plan.\<close>

lemma wrap_run:
  assumes "modifyAndWrapWalletTransaction T W tx walletPda xa = (evs, r)"
  obtains (stopped) e where "r = Inl e" "evs = [] \<or> evs = [Previewing]"
  | (planned) pending previewMessage sim unitPrice block evs' where
      "wrap_plan T W tx walletPda xa previewMessage pending" "tk_compile T previewMessage = Some sim"
      "wi_simulate W sim = Some None" "evs = Previewing # evs'"
      "tap_and_finalize T W tx walletPda xa pending unitPrice block = (evs', r)"
proof (cases "prepareWrappedWalletTransaction T W tx")
  case (Inl e)
  with assms show thesis by (intro stopped [of e]) (simp_all add: modifyAndWrapWalletTransaction_def)
next
  case (Inr prepared)
  note prep = this
  show thesis
  proof (cases "compileWalletInstructions (tk_kit T) (tk_tokenProgram T) (pw_body prepared) walletPda")
    case None
    with assms prep show thesis by (intro stopped [of NotCompilable]) (simp_all add: modifyAndWrapWalletTransaction_def)
  next
    case (Some c)
    obtain rem0 cs where c: "c = (rem0, cs)" by force
    let ?rem = "elevateForExecuteAccounts T rem0 xa"
    show thesis
    proof (cases "buildPolicyPreviewMessage T prepared cs ?rem xa")
      case None
      with assms prep Some c show thesis
        by (intro stopped [of NotCompilable]) (simp_all add: modifyAndWrapWalletTransaction_def Let_def)
    next
      case preview: (Some pm)
      show thesis
      proof (cases "prefetch T W prepared cs ?rem xa pm")
        case (Inl e)
        with assms prep Some c preview show thesis
          by (intro stopped [of e]) (simp_all add: modifyAndWrapWalletTransaction_def Let_def)
      next
        case (Inr p)
        obtain price slot block where p: "p = (price, slot, block)" by (metis prod_cases3)
        obtain sim where sim: "tk_compile T pm = Some sim" "wi_simulate W sim = Some None"
          using prefetch_Inr [of T W prepared cs ?rem xa pm price slot block] Inr p by auto
        show thesis
        proof (cases "buildPendingWalletWrap T prepared slot cs ?rem")
          case None
          with assms prep Some c preview Inr p show thesis
            by (intro stopped [of ChallengeFailed]) (simp_all add: modifyAndWrapWalletTransaction_def Let_def)
        next
          case pend: (Some pending)
          from assms prep Some c preview Inr p pend obtain evs' where
            "evs = Previewing # evs'" "tap_and_finalize T W tx walletPda xa pending price block = (evs', r)"
            by (cases "tap_and_finalize T W tx walletPda xa pending price block")
              (simp add: modifyAndWrapWalletTransaction_def Let_def)
          moreover from pend prep Some c preview have "wrap_plan T W tx walletPda xa pm pending"
            by (auto simp: wrap_plan_def buildPending_Some)
          ultimately show thesis using sim by (intro planned)
        qed
      qed
    qed
  qed
qed

text \<open>
  C33: The passkey and the fee payer are asked only for what has been checked.  If a run asks for a
  passkey tap, then the transaction was compiled from the instructions to wrap, its policy preview was
  simulated without an error, and the tap is asked for the challenge of exactly that payload.  If it
  then asks the fee payer, the tap was given and the transaction it is asked to sign is the one
  finalized from that same plan.
\<close>
theorem consent_before_signature:
  assumes "modifyAndWrapWalletTransaction T W tx walletPda xa = (evs, r)" "AskPasskey h \<in> set evs"
  shows "\<exists>previewMessage pending sim. wrap_plan T W tx walletPda xa previewMessage pending \<and> h = pd_messageHash pending \<and>
    tk_compile T previewMessage = Some sim \<and> wi_simulate W sim = Some None \<and>
    (\<forall>wrapped. AskFeePayer wrapped \<in> set evs \<longrightarrow>
      (\<exists>tap unitPrice block. wi_authenticate W h = Some tap \<and>
         finalizeWrappedWalletTransaction T W pending xa tap unitPrice block = Inr wrapped))"
  using assms
proof (cases rule: wrap_run [OF assms(1)])
  case (2 pending pm sim price block evs')
  then have "h = pd_messageHash pending" "\<forall>wrapped. AskFeePayer wrapped \<in> set evs \<longrightarrow>
      (\<exists>tap unitPrice block. wi_authenticate W h = Some tap \<and>
         finalizeWrappedWalletTransaction T W pending xa tap unitPrice block = Inr wrapped)"
    using assms(2)
    by (cases block; auto simp: tap_and_finalize_def Let_def split: if_splits option.splits sum.splits)+
  with 2 show ?thesis by blast
qed auto

definition sample_io :: wrap_io where
  "sample_io =
     \<lparr>wi_decompile = (\<lambda>_ _. Some (as_decompiled sample_message)), wi_simulate = (\<lambda>_. Some None),
      wi_fees = (\<lambda>_. Some []), wi_slotHashes = Some (Some (replicate 40 1)), wi_latestBlockhash = Some (''new'', 150),
      wi_abortBeforePasskey = False, wi_authenticate = (\<lambda>_. Some [1]),
      wi_buildSecp = (\<lambda>_. Some (\<lparr>ix_program = ''secp'', ix_accounts = None, ix_data = None\<rparr>, PLACEHOLDER_SECP_ARGS)),
      wi_estimate = (\<lambda>_. Some (1000, None)), wi_abortBeforeFeePayer = False,
      wi_feePayer = (\<lambda>_. Inr [(''fee'', Some (replicate 64 2))])\<rparr>"

definition sample_signed :: signed_transaction where
  "sample_signed = \<lparr>kt_messageBytes = [1], kt_signatures = [(''wallet'', None)], sg_lifetime = Some (Blockhash ''old'' 100)\<rparr>"

text \<open>The sample kit with an encoder for the sample's short addresses.\<close>

definition wide_tx_kit :: tx_kit where
  "wide_tx_kit = sample_tx_kit\<lparr>tk_kit := sample_kit\<lparr>k_addr_encode := \<lambda>a. Some (replicate 32 0)\<rparr>\<rparr>"

lemma sample_wrap:
  "\<exists>h wrapped signed. modifyAndWrapWalletTransaction wide_tx_kit sample_io sample_signed ''wallet'' sample_accounts =
     ([Previewing, AskPasskey h, AskFeePayer wrapped], Inr signed)"
  by (simp add: modifyAndWrapWalletTransaction_def prepareWrappedWalletTransaction_def sample_io_def require_def
      prepareWrapped_def Let_def sample_message_def wide_tx_kit_def sample_tx_kit_def MEMO_PROGRAM_ADDRESS_def
      compileWalletInstructions_def DENIED_PROGRAMS_def PHYGITAL_WALLET_PROGRAM_ADDRESS_def meta_def
      getOrInsertRemainingAccount_def empty_table_def downgradeWalletSignerRole_def sample_kit_def uint8_id
      elevateRemainingForExecuteChallenge_def sample_accounts_def elevateForExecuteAccounts_def role_of_def
      buildPolicyPreviewMessage_def getExecuteWithAuthorityUsingPoliciesInstruction_def prefetch_def
      assertPolicyPreviewSucceeds_def fetchPriorityFeeMicroLamports_def buildWrappedBaseMessage_def
      getExecuteInstruction_def fetchLatestSlotHash_def buildPendingWalletWrap_def buildExecuteChallengeFromSlot_def
      hashExecuteChallenge_def hashReferencedAccounts_def packCompactInstructions_def pack_checks_def
      toChallengeAccount_def tap_and_finalize_def finalizeWrappedWalletTransaction_def sample_signed_def)

theorem consent_before_signature_witness:
  "\<exists>previewMessage pending h. wrap_plan wide_tx_kit sample_io sample_signed ''wallet'' sample_accounts previewMessage pending \<and>
     h = pd_messageHash pending \<and> wi_authenticate sample_io h = Some [1]"
proof -
  obtain h wrapped signed where run: "modifyAndWrapWalletTransaction wide_tx_kit sample_io sample_signed ''wallet'' sample_accounts =
     ([Previewing, AskPasskey h, AskFeePayer wrapped], Inr signed)"
    using sample_wrap by blast
  have "AskPasskey h \<in> set [Previewing, AskPasskey h, AskFeePayer wrapped]" by simp
  from consent_before_signature [OF run this] show ?thesis by (auto simp: sample_io_def)
qed

lemma split_instructions_filters:
  "split_instructions T l =
     (filter (\<lambda>ix. ix_program ix \<noteq> MEMO_PROGRAM_ADDRESS) (filter (\<lambda>ix. ix_program ix \<noteq> tk_computeBudget T) l),
      filter (\<lambda>ix. ix_program ix = MEMO_PROGRAM_ADDRESS) (filter (\<lambda>ix. ix_program ix \<noteq> tk_computeBudget T) l))"
  by (induction l) auto

lemma prepareWrapped_parts:
  "prepareWrapped T dm = Some p \<Longrightarrow>
    (let kept = filter (\<lambda>ix. ix_program ix \<noteq> tk_computeBudget T) (vm_instructions (pw_decompiled p)) in
     pw_body p = filter (\<lambda>ix. ix_program ix \<noteq> MEMO_PROGRAM_ADDRESS) kept \<and>
     pw_memo p = filter (\<lambda>ix. ix_program ix = MEMO_PROGRAM_ADDRESS) kept)"
  by (auto simp: prepareWrapped_def split_instructions_filters Let_def split: if_splits)

text \<open>
  The two instructions in front of the memos are not compute-budget instructions, so
  \<open>applyResourceLimits\<close> does not take them out: the compute-budget program is another program than the
  wallet's, and the verify instruction goes to the native secp256r1 program.
\<close>

definition budget_apart :: "tx_kit \<Rightarrow> wrap_io \<Rightarrow> bool" where
  "budget_apart T W \<longleftrightarrow> tk_computeBudget T \<noteq> PHYGITAL_WALLET_PROGRAM_ADDRESS \<and>
     (\<forall>tap verifyIx args. wi_buildSecp W tap = Some (verifyIx, args) \<longrightarrow> ix_program verifyIx \<noteq> tk_computeBudget T)"

text \<open>The execute instruction of a wrap: its accounts are the named six and the table.\<close>

definition execute_ix :: "execute_accounts \<Rightarrow> account_meta list \<Rightarrow> bytes \<Rightarrow> kit_instruction" where
  "execute_ix xa remaining d =
     \<lparr>ix_program = PHYGITAL_WALLET_PROGRAM_ADDRESS,
      ix_accounts = Some ([meta WRITABLE (xa_phygitalToken xa), meta WRITABLE (xa_wallet xa),
        meta WRITABLE (xa_authorityAccount xa), meta READONLY SLOT_HASHES_SYSVAR,
        meta READONLY INSTRUCTIONS_SYSVAR, meta READONLY DEFAULT_TOKEN_PROGRAM] @ remaining),
      ix_data = Some d\<rparr>"

text \<open>The compact instruction, looked up in the table, is the instruction.\<close>

definition expands_to :: "account_meta list \<Rightarrow> compact_instruction \<Rightarrow> kit_instruction \<Rightarrow> bool" where
  "expands_to remaining c ix \<longleftrightarrow>
     map_option am_address (nth_opt remaining (ci_program c)) = Some (ix_program ix) \<and>
     lookup_accounts remaining (ci_accounts c) = Some (map am_address (ix_metas ix)) \<and> ci_data c = ix_bytes ix"

lemma prepareWrapped_decompiled: "prepareWrapped T dm = Some p \<Longrightarrow> pw_decompiled p = asV1TransactionMessage dm"
  by (auto simp: prepareWrapped_def Let_def split: prod.splits if_splits)

lemma base_message:
  assumes "tx_kit_ok T" "buildWrappedBaseMessage T pending xa (Some (verifyIx, args)) = Some m"
  shows "\<exists>d. tk_executeData T (pd_compacts pending) args (pd_slotNumber pending) = Some d \<and>
    vm_instructions m = [verifyIx, execute_ix xa (pd_remaining pending) d] @ pw_memo (pd_prepared pending) \<and>
    vm_feePayer m = (if vm_feePayer (pw_decompiled (pd_prepared pending)) = xa_wallet xa then xa_feePayer xa
      else vm_feePayer (pw_decompiled (pd_prepared pending)))"
  using assms
  by (auto simp: buildWrappedBaseMessage_def getExecuteInstruction_def Let_def execute_ix_def withRemainingAccounts_def
      withFeePayerIfWallet_def ix_metas_def tx_kit_ok_def)

lemma limited_message:
  assumes "tx_kit_ok T"
  shows "vm_instructions (applyBlockhashIfNeeded T (applyResourceLimits T m units price loaded) b n) =
      filter (\<lambda>ix. ix_program ix \<noteq> tk_computeBudget T) (vm_instructions m)"
    "vm_feePayer (applyBlockhashIfNeeded T (applyResourceLimits T m units price loaded) b n) = vm_feePayer m"
  using assms
  by (auto simp: applyBlockhashIfNeeded_def applyResourceLimits_def Let_def tx_kit_ok_def stripBudgetAndEnsureV1_def
      stripComputeBudgetInstructions_def split: option.split lifetime.split)

lemma finalized_message:
  assumes "tx_kit_ok T" "budget_apart T W" "prepareWrapped T dm = Some (pd_prepared pending)"
    and "finalizeWrappedWalletTransaction T W pending xa tap price block = Inr wrapped"
  shows "\<exists>verifyIx args d m compiledTx. wi_buildSecp W tap = Some (verifyIx, args) \<and>
    tk_executeData T (pd_compacts pending) args (pd_slotNumber pending) = Some d \<and>
    vm_instructions m = [verifyIx, execute_ix xa (pd_remaining pending) d] @ pw_memo (pd_prepared pending) \<and>
    vm_feePayer m = (if vm_feePayer (pw_decompiled (pd_prepared pending)) = xa_wallet xa then xa_feePayer xa
      else vm_feePayer (pw_decompiled (pd_prepared pending))) \<and>
    tk_compile T m = Some compiledTx \<and> wrapped = withLifetimeConstraint compiledTx m"
proof -
  from assms(4) obtain verifyIx args base units loaded compiledTx where
    secp: "wi_buildSecp W tap = Some (verifyIx, args)"
    and base: "buildWrappedBaseMessage T pending xa (Some (verifyIx, args)) = Some base"
    and fin: "tk_compile T (applyBlockhashIfNeeded T (applyResourceLimits T base (withMargin units) price loaded) (fst block) (snd block)) = Some compiledTx"
      "wrapped = withLifetimeConstraint compiledTx
        (applyBlockhashIfNeeded T (applyResourceLimits T base (withMargin units) price loaded) (fst block) (snd block))"
    by (auto simp: finalizeWrappedWalletTransaction_def result_simps Let_def)
  let ?m = "applyBlockhashIfNeeded T (applyResourceLimits T base (withMargin units) price loaded) (fst block) (snd block)"
  obtain d where d: "tk_executeData T (pd_compacts pending) args (pd_slotNumber pending) = Some d"
    "vm_instructions base = [verifyIx, execute_ix xa (pd_remaining pending) d] @ pw_memo (pd_prepared pending)"
    "vm_feePayer base = (if vm_feePayer (pw_decompiled (pd_prepared pending)) = xa_wallet xa then xa_feePayer xa
      else vm_feePayer (pw_decompiled (pd_prepared pending)))"
    using base_message [OF assms(1) base] by blast
  have "filter (\<lambda>ix. ix_program ix \<noteq> tk_computeBudget T) (pw_memo (pd_prepared pending)) = pw_memo (pd_prepared pending)"
    using prepareWrapped_parts [OF assms(3)] by (auto simp: Let_def intro!: filter_cong)
  moreover have "ix_program verifyIx \<noteq> tk_computeBudget T" "PHYGITAL_WALLET_PROGRAM_ADDRESS \<noteq> tk_computeBudget T"
    using assms(2) secp by (auto simp: budget_apart_def)
  ultimately have "vm_instructions ?m = [verifyIx, execute_ix xa (pd_remaining pending) d] @ pw_memo (pd_prepared pending)"
    by (simp add: limited_message [OF assms(1)] d(2) execute_ix_def)
  with secp d fin show ?thesis by (metis limited_message(2) [OF assms(1)])
qed

lemma planned_expands:
  assumes "kit_roles_ok (tk_kit T)" "wrap_plan T W tx walletPda xa previewMessage pending" "length (pd_remaining pending) \<le> 256"
  shows "list_all2 (expands_to (pd_remaining pending)) (pd_compacts pending) (pw_body (pd_prepared pending))"
proof -
  from assms(2) obtain rem0 where c: "compileWalletInstructions (tk_kit T) (tk_tokenProgram T) (pw_body (pd_prepared pending)) walletPda =
      Some (rem0, pd_compacts pending)" and rem: "pd_remaining pending = elevateForExecuteAccounts T rem0 xa"
    by (auto simp: wrap_plan_def)
  have addrs: "map am_address (pd_remaining pending) = map am_address rem0"
    by (simp add: rem elevateForExecuteAccounts_def elevate_addresses [OF assms(1)])
  have "list_all2 (compiled (map am_address (pd_remaining pending))) (pw_body (pd_prepared pending)) (pd_compacts pending)"
    using compile_compiled [OF assms(1) c] by (simp add: addrs)
  then have "list_all2 (\<lambda>ix c. expands_to (pd_remaining pending) c ix) (pw_body (pd_prepared pending)) (pd_compacts pending)"
    by (rule list_all2_mono) (use compiled_lookup [OF _ assms(3)] in \<open>auto simp: expands_to_def\<close>)
  then show ?thesis by (simp add: list_all2_conv_all_nth)
qed

text \<open>
  C35: The transaction the fee payer is asked to sign is the one the application built.  Whenever a run
  asks for its signature, the transaction is compiled from a message whose instructions are: the verify
  instruction of the tap that was given for this plan's challenge, the execute instruction, and the memo
  instructions of the original transaction.  The data of the execute instruction are encoded from the
  compact instructions of the plan; these, looked up in the account table the instruction carries after
  its six named accounts, are exactly the remaining instructions of the original transaction, in their
  order, the compute-budget ones left out (for a table of at most 256 accounts, as the indices are
  bytes).  The fee payer of the message is the original one, or the configured one if the wallet was to
  pay.
\<close>
theorem wrap_keeps_instructions:
  assumes "tx_kit_ok T" "kit_roles_ok (tk_kit T)" "budget_apart T W"
    and "modifyAndWrapWalletTransaction T W tx walletPda xa = (evs, r)" "AskFeePayer wrapped \<in> set evs"
  shows "\<exists>previewMessage pending config dm tap verifyIx args d m compiledTx.
      wrap_plan T W tx walletPda xa previewMessage pending \<and> AskPasskey (pd_messageHash pending) \<in> set evs \<and>
      wi_authenticate W (pd_messageHash pending) = Some tap \<and> wi_buildSecp W tap = Some (verifyIx, args) \<and>
      wi_decompile W (kt_messageBytes tx) config = Some dm \<and>
      (let kept = filter (\<lambda>ix. ix_program ix \<noteq> tk_computeBudget T) (vm_instructions (asV1TransactionMessage dm));
           memos = filter (\<lambda>ix. ix_program ix = MEMO_PROGRAM_ADDRESS) kept;
           to_wrap = filter (\<lambda>ix. ix_program ix \<noteq> MEMO_PROGRAM_ADDRESS) kept in
       vm_instructions m = [verifyIx, execute_ix xa (pd_remaining pending) d] @ memos \<and>
       tk_executeData T (pd_compacts pending) args (pd_slotNumber pending) = Some d \<and>
       (length (pd_remaining pending) \<le> 256 \<longrightarrow> list_all2 (expands_to (pd_remaining pending)) (pd_compacts pending) to_wrap)) \<and>
      vm_feePayer m = (if dm_feePayer dm = xa_wallet xa then xa_feePayer xa else dm_feePayer dm) \<and>
      tk_compile T m = Some compiledTx \<and> wrapped = withLifetimeConstraint compiledTx m"
  using assms(5)
proof (cases rule: wrap_run [OF assms(4)])
  case (2 pending pm sim price block evs')
  then obtain tap where tap: "wi_authenticate W (pd_messageHash pending) = Some tap"
    and fin: "finalizeWrappedWalletTransaction T W pending xa tap price block = Inr wrapped"
    and asked: "AskPasskey (pd_messageHash pending) \<in> set evs"
    using assms(5) by (auto simp: tap_and_finalize_def Let_def split: if_splits option.splits sum.splits)
  from 2(1) obtain config dm where dm: "wi_decompile W (kt_messageBytes tx) config = Some dm"
    and prep: "prepareWrapped T dm = Some (pd_prepared pending)"
    by (auto simp: wrap_plan_def prepareWrappedWalletTransaction_def result_simps Let_def)
  have "pw_decompiled (pd_prepared pending) = asV1TransactionMessage dm"
    by (rule prepareWrapped_decompiled [OF prep])
  moreover have "vm_feePayer (asV1TransactionMessage dm) = dm_feePayer dm" by (simp add: asV1TransactionMessage_def)
  ultimately show ?thesis
    using finalized_message [OF assms(1,3) prep fin] prepareWrapped_parts [OF prep] planned_expands [OF assms(2) 2(1)]
      2(1) asked tap dm unfolding Let_def by (metis (no_types, lifting))
qed auto

lemma sample_budget_apart: "budget_apart wide_tx_kit sample_io"
  by (simp add: budget_apart_def wide_tx_kit_def sample_tx_kit_def sample_io_def PHYGITAL_WALLET_PROGRAM_ADDRESS_def)

theorem wrap_keeps_instructions_witness:
  "\<exists>h wrapped signed (pending :: pending_wrap) m verifyIx d. modifyAndWrapWalletTransaction wide_tx_kit sample_io sample_signed ''wallet'' sample_accounts =
     ([Previewing, AskPasskey h, AskFeePayer wrapped], Inr signed) \<and>
     vm_instructions m = [verifyIx, execute_ix sample_accounts (pd_remaining pending) d] \<and>
     tk_compile wide_tx_kit m = Some \<lparr>kt_messageBytes = kt_messageBytes wrapped, kt_signatures = kt_signatures wrapped\<rparr>"
proof -
  obtain h wrapped signed where run: "modifyAndWrapWalletTransaction wide_tx_kit sample_io sample_signed ''wallet'' sample_accounts =
     ([Previewing, AskPasskey h, AskFeePayer wrapped], Inr signed)"
    using sample_wrap by blast
  have T: "tx_kit_ok wide_tx_kit" using sample_tx_kit_ok(1) by (simp add: tx_kit_ok_def wide_tx_kit_def)
  have K: "kit_roles_ok (tk_kit wide_tx_kit)" using sample_kit_ok(1) by (simp add: kit_roles_ok_def wide_tx_kit_def)
  have "AskFeePayer wrapped \<in> set [Previewing, AskPasskey h, AskFeePayer wrapped]" by simp
  from wrap_keeps_instructions [OF T K sample_budget_apart run this]
  obtain pending :: pending_wrap and dm verifyIx d m compiledTx config where
    w: "wi_decompile sample_io (kt_messageBytes sample_signed) config = Some dm"
    "vm_instructions m = [verifyIx, execute_ix sample_accounts (pd_remaining pending) d] @
       filter (\<lambda>ix. ix_program ix = MEMO_PROGRAM_ADDRESS)
         (filter (\<lambda>ix. ix_program ix \<noteq> tk_computeBudget wide_tx_kit) (vm_instructions (asV1TransactionMessage dm)))"
    "tk_compile wide_tx_kit m = Some compiledTx" "wrapped = withLifetimeConstraint compiledTx m"
    unfolding Let_def by (elim exE conjE) (rule that; assumption)
  have "dm = as_decompiled sample_message" using w(1) by (simp add: sample_io_def)
  then have "vm_instructions m = [verifyIx, execute_ix sample_accounts (pd_remaining pending) d]"
    using w(2) by (simp add: sample_message_def MEMO_PROGRAM_ADDRESS_def)
  moreover have "compiledTx = \<lparr>kt_messageBytes = kt_messageBytes wrapped, kt_signatures = kt_signatures wrapped\<rparr>"
    by (simp add: w(4) withLifetimeConstraint_def)
  ultimately show ?thesis using run w(3) by blast
qed

text \<open>
  Signing completes or stops at its first failure.  A request yields a signed transaction exactly if
  the host saw all six phases in order, ending with \<open>complete\<close>; that transaction carries the
  signatures of the request without the wallet's own entry, overridden by those of the fee payer.
\<close>
theorem signing_phases:
  assumes "modifyAndSignTransactions T W aborted xa txs = (phases, evs, r)"
  shows "((\<exists>signed. r = Inr signed) \<longleftrightarrow>
      phases = [Preparing, PreviewingPhase, AwaitingPasskey, Building, FeePaying, Complete]) \<and>
    (\<forall>signed. r = Inr signed \<longrightarrow> (\<exists>tx wrapped sigs. txs = [tx] \<and> wi_feePayer W wrapped = Inr sigs \<and>
      AskFeePayer wrapped \<in> set evs \<and> signed = [applyFeePayerSignature wrapped (xa_wallet xa) (kt_signatures tx) sigs] \<and>
      (distinct (map fst sigs) \<longrightarrow>
        map_of (kt_signatures (hd signed)) = (map_of (kt_signatures tx))(xa_wallet xa := None) ++ map_of sigs)))"
proof (cases "\<exists>tx b n. txs = [tx] \<and> \<not> aborted \<and> sg_lifetime tx = Some (Blockhash b n)")
  case False
  with assms show ?thesis
    by (auto simp: modifyAndSignTransactions_def split: if_splits list.splits option.splits lifetime.splits)
next
  case True
  then obtain tx b n where tx: "txs = [tx]" "\<not> aborted" "sg_lifetime tx = Some (Blockhash b n)" by blast
  obtain evs0 r0 where run: "modifyAndWrapWalletTransaction T W tx (xa_wallet xa) xa = (evs0, r0)" by force
  let ?tapped = "\<exists>h. AskPasskey h \<in> set evs0 \<and> wi_authenticate W h \<noteq> None"
  have res: "evs = evs0" "r = map_sum (\<lambda>e. e) (\<lambda>w. [w]) r0"
    "phases = Preparing # phases_of evs0 ?tapped @ (case r0 of Inl _ \<Rightarrow> [] | Inr _ \<Rightarrow> [Complete])"
    using assms tx run by (auto simp: modifyAndSignTransactions_def Let_def)
  have merge: "map_of (kt_signatures (applyFeePayerSignature wr a prior sigs)) = (map_of prior)(a := None) ++ map_of sigs"
    if "distinct (map fst sigs)" for wr a prior sigs
  proof -
    have "map_of (filter (\<lambda>(k, _). k \<noteq> a) prior) = (map_of prior)(a := None)"
      by (induction prior) (auto simp: fun_eq_iff)
    with that show ?thesis by (simp add: applyFeePayerSignature_def map_of_spread)
  qed
  show ?thesis
  proof (cases rule: wrap_run [OF run])
    case (1 e)
    then show ?thesis by (auto simp: res)
  next
    case (2 pending pm sim price block evs')
    obtain b1 b2 where block: "block = (b1, b2)" by force
    show ?thesis
      using 2(4,5) merge unfolding res block
      by (auto simp: tap_and_finalize_def Let_def tx(1) map_sum_Inr split: if_splits option.splits sum.splits)
  qed
qed

theorem signing_phases_witness:
  "\<exists>signed. modifyAndSignTransactions wide_tx_kit sample_io False sample_accounts [sample_signed] =
    ([Preparing, PreviewingPhase, AwaitingPasskey, Building, FeePaying, Complete],
     fst (modifyAndWrapWalletTransaction wide_tx_kit sample_io sample_signed ''wallet'' sample_accounts), Inr signed)"
proof -
  obtain phases evs r where run: "modifyAndSignTransactions wide_tx_kit sample_io False sample_accounts [sample_signed] = (phases, evs, r)"
    by (metis prod_cases3)
  obtain h wrapped signed where w: "modifyAndWrapWalletTransaction wide_tx_kit sample_io sample_signed ''wallet'' sample_accounts =
     ([Previewing, AskPasskey h, AskFeePayer wrapped], Inr signed)"
    using sample_wrap by blast
  have "xa_wallet sample_accounts = ''wallet''" by (simp add: sample_accounts_def)
  with w run have "r = Inr [signed]" "evs = [Previewing, AskPasskey h, AskFeePayer wrapped]"
    by (auto simp: modifyAndSignTransactions_def sample_signed_def Let_def)
  with signing_phases [OF run] run w show ?thesis by auto
qed

end
