(* ===== verification/WalletStandard.thy ===== *)
theory WalletStandard
  imports WrapPipeline
begin

text \<open>
  The Wallet Standard wallet of the SDK (\<open>wallet-standard/wallet.ts\<close>, \<open>session.ts\<close>, \<open>account.ts\<close>,
  \<open>register.ts\<close>, \<open>generated/pdas/wallet.ts\<close>).  The methods of the wallet are asynchronous and share its fields,
  so a run is a sequence of steps: each step starts a method, or continues one after an \<open>await\<close>, and runs to the
  next \<open>await\<close>.  A signer is named by the token it was built for.

  Shown are the round trip of a stored session, and that a wallet whose calls do not overlap signs for
  an account only with the signer of that account's token; two runs show what overlapping calls do.
\<close>

subsection \<open>The stored session\<close>

record std_kit =
  sw_pda :: "string \<Rightarrow> bytes list \<Rightarrow> string"
  sw_addressEncode :: "string \<Rightarrow> bytes"
  sw_isAddress :: "string \<Rightarrow> bool"
  sw_jsonParse :: "string \<Rightarrow> js option"
  sw_jsonText :: "js \<Rightarrow> string"
  sw_decode :: "bytes \<Rightarrow> signed_transaction option"
  sw_encode :: "signed_transaction \<Rightarrow> bytes"

record stored_session =
  ss_token :: string
  ss_wallet :: string

text \<open>
  \<open>localStorage\<close>: it may be missing, and each kind of access may throw.
\<close>

record browser_storage =
  bs_present :: bool
  bs_reads :: bool
  bs_writes :: bool
  bs_removes :: bool
  bs_item :: "string option"

definition findWalletPda :: "std_kit \<Rightarrow> string \<Rightarrow> string" where
  "findWalletPda K token =
     sw_pda K ''Fjbi9JrRAmSBdxQxbkcxYDp6JUwnLbFhU2GsieWQBLSg''
       [[112, 114, 111, 103, 114, 97, 109, 95, 119, 97, 108, 108, 101, 116], sw_addressEncode K token]"

definition clearPhygitalWalletSession :: "browser_storage \<Rightarrow> browser_storage" where
  "clearPhygitalWalletSession st = (if bs_present st \<and> bs_removes st then st\<lparr>bs_item := None\<rparr> else st)"

text \<open>Whatever goes wrong with the stored text, it is removed and there is no session.\<close>

definition parsed_session :: "std_kit \<Rightarrow> js \<Rightarrow> stored_session option" where
  "parsed_session K v =
     (case v of
        JObject ps \<Rightarrow>
          (case (jget ps ''phygitalTokenPda'', jget ps ''walletPda'') of
             (JString t, JString w) \<Rightarrow>
               if t = '''' \<or> w = '''' \<or> \<not> sw_isAddress K t \<or> \<not> sw_isAddress K w then None
               else Some \<lparr>ss_token = t, ss_wallet = w\<rparr>
           | _ \<Rightarrow> None)
      | _ \<Rightarrow> None)"

definition loadPhygitalWalletSession :: "std_kit \<Rightarrow> browser_storage \<Rightarrow> stored_session option \<times> browser_storage" where
  "loadPhygitalWalletSession K st =
     (if \<not> bs_present st then (None, st)
      else if \<not> bs_reads st then (None, clearPhygitalWalletSession st)
      else if bs_item st = None \<or> bs_item st = Some '''' then (None, st)
      else
        (case Option.bind (sw_jsonParse K (the (bs_item st))) (parsed_session K) of
           None \<Rightarrow> (None, clearPhygitalWalletSession st)
         | Some s \<Rightarrow> (Some s, st)))"

definition stored_payload :: "stored_session \<Rightarrow> js" where
  "stored_payload s = JObject [(''phygitalTokenPda'', JString (ss_token s)), (''walletPda'', JString (ss_wallet s))]"

definition savePhygitalWalletSession :: "std_kit \<Rightarrow> stored_session \<Rightarrow> browser_storage \<Rightarrow> browser_storage" where
  "savePhygitalWalletSession K s st =
     (if bs_present st \<and> bs_writes st then st\<lparr>bs_item := Some (sw_jsonText K (stored_payload s))\<rparr> else st)"

lemma load_after_save:
  assumes "bs_present st" "bs_reads st" "bs_writes st"
    and "sw_jsonParse K (sw_jsonText K (stored_payload s)) = Some (stored_payload s)" "sw_jsonText K (stored_payload s) \<noteq> ''''"
    and "sw_isAddress K (ss_token s)" "sw_isAddress K (ss_wallet s)" "ss_token s \<noteq> ''''" "ss_wallet s \<noteq> ''''"
  shows "fst (loadPhygitalWalletSession K (savePhygitalWalletSession K s st)) = Some s"
  using assms
  by (simp add: loadPhygitalWalletSession_def savePhygitalWalletSession_def parsed_session_def stored_payload_def jget_def)

lemma parsed_session_valid:
  "parsed_session K v = Some s \<Longrightarrow> sw_isAddress K (ss_token s) \<and> sw_isAddress K (ss_wallet s)"
  by (auto simp: parsed_session_def split: if_split_asm js.split_asm)

lemma loaded_session_valid:
  "fst (loadPhygitalWalletSession K st) = Some s \<Longrightarrow> sw_isAddress K (ss_token s) \<and> sw_isAddress K (ss_wallet s)"
  by (auto simp: loadPhygitalWalletSession_def bind_eq_Some_conv dest: parsed_session_valid split: if_split_asm option.split_asm)

subsection \<open>Account and wallet\<close>

record wallet_account =
  wa_address :: string
  wa_publicKey :: bytes
  wa_chains :: "string list"
  wa_features :: "string list"
  wa_label :: string

definition PHYGITAL_WALLET_CHAINS :: "string list" where
  "PHYGITAL_WALLET_CHAINS = [''solana:mainnet'']"

definition createPhygitalWalletAccount :: "std_kit \<Rightarrow> string \<Rightarrow> string list \<Rightarrow> wallet_account" where
  "createPhygitalWalletAccount K walletPda chs =
     \<lparr>wa_address = walletPda, wa_publicKey = sw_addressEncode K walletPda, wa_chains = chs,
      wa_features = [''solana:signAndSendTransaction'', ''solana:signTransaction'', ''solana:signMessage''],
      wa_label = ''Revibase''\<rparr>"

text \<open>
  What an \<open>await\<close> of \<open>ensureSigner\<close> waits for: a load of a signer, a signer that is there, or the
  error that there is none.
\<close>

datatype awaited = OnLoad nat | Got string | NotConnected

datatype load_phase = Loading | Loaded | LoadFailed

record signer_load =
  ld_session :: stored_session
  ld_phase :: load_phase

datatype connect_phase =
    AwaitSigner awaited
  | AwaitRestore awaited
  | Tapping
  | Building stored_session
  | Connected "wallet_account list"
  | ConnectFailed string

record connect_task =
  ct_silent :: bool
  ct_phase :: connect_phase

record sign_input =
  si_account :: string
  si_chain :: "string option"
  si_transaction :: bytes

datatype signing_phase =
    SigAwait awaited signed_transaction
  | Signing string
  | Sending signed_transaction
  | SignEnd "string + bytes list"

record sign_task =
  st_send :: bool
  st_inputs :: "sign_input list"
  st_outputs :: "bytes list"
  st_phase :: signing_phase

text \<open>\<open>sw_handed\<close> records each transaction handed to a signer: the account asked for, the signer's token.\<close>

record std_wallet =
  sw_chains :: "string list"
  sw_store :: browser_storage
  sw_session :: "stored_session option"
  sw_account :: "wallet_account option"
  sw_signer :: "string option"
  sw_promise :: "awaited option"
  sw_loads :: "signer_load list"
  sw_connects :: "connect_task list"
  sw_signs :: "sign_task list"
  sw_listeners :: "nat list"
  sw_heard :: "(nat \<times> wallet_account list) list"
  sw_handed :: "(string \<times> string \<times> signed_transaction) list"

definition accounts :: "std_wallet \<Rightarrow> wallet_account list" where
  "accounts w = (case sw_account w of Some a \<Rightarrow> [a] | None \<Rightarrow> [])"

definition on_change :: "nat \<Rightarrow> std_wallet \<Rightarrow> std_wallet" where
  "on_change l w = w\<lparr>sw_listeners := sw_listeners w @ [l]\<rparr>"

definition off_change :: "nat \<Rightarrow> std_wallet \<Rightarrow> std_wallet" where
  "off_change l w = w\<lparr>sw_listeners := filter (\<lambda>l'. l \<noteq> l') (sw_listeners w)\<rparr>"

definition emit_change :: "std_wallet \<Rightarrow> std_wallet" where
  "emit_change w = w\<lparr>sw_heard := sw_heard w @ map (\<lambda>l. (l, accounts w)) (sw_listeners w)\<rparr>"

definition adoptSession :: "std_kit \<Rightarrow> stored_session \<Rightarrow> std_wallet \<Rightarrow> std_wallet" where
  "adoptSession K s w =
     w\<lparr>sw_session := Some s, sw_account := Some (createPhygitalWalletAccount K (ss_wallet s) (sw_chains w))\<rparr>"

definition clearMemorySession :: "std_wallet \<Rightarrow> std_wallet" where
  "clearMemorySession w = w\<lparr>sw_session := None, sw_account := None, sw_signer := None, sw_promise := None\<rparr>"

definition drop_session :: "std_wallet \<Rightarrow> std_wallet" where
  "drop_session w = emit_change (clearMemorySession (w\<lparr>sw_store := clearPhygitalWalletSession (sw_store w)\<rparr>))"

text \<open>\<open>this.#signerPromise = this.#loadSigner(session)\<close>.\<close>

definition start_load :: "stored_session \<Rightarrow> std_wallet \<Rightarrow> std_wallet" where
  "start_load s w =
     w\<lparr>sw_loads := sw_loads w @ [\<lparr>ld_session = s, ld_phase = Loading\<rparr>], sw_promise := Some (OnLoad (length (sw_loads w)))\<rparr>"

definition ensureSigner :: "std_wallet \<Rightarrow> awaited" where
  "ensureSigner w =
     (case sw_signer w of Some t \<Rightarrow> Got t | None \<Rightarrow> (case sw_promise w of Some a \<Rightarrow> a | None \<Rightarrow> NotConnected))"

text \<open>A promise as its awaiting method finds it: the signer, a rejection, or not settled yet.\<close>

definition settled :: "std_wallet \<Rightarrow> awaited \<Rightarrow> string option option" where
  "settled w a =
     (case a of
        Got t \<Rightarrow> Some (Some t)
      | NotConnected \<Rightarrow> Some None
      | OnLoad k \<Rightarrow>
          (case nth_opt (sw_loads w) k of
             Some l \<Rightarrow> (case ld_phase l of Loading \<Rightarrow> None | Loaded \<Rightarrow> Some (Some (ss_token (ld_session l))) | LoadFailed \<Rightarrow> Some None)
           | None \<Rightarrow> None))"

definition new_std_wallet :: "std_kit \<Rightarrow> string list option \<Rightarrow> browser_storage \<Rightarrow> std_wallet" where
  "new_std_wallet K chs st =
     (let (session, st') = loadPhygitalWalletSession K st;
          w = \<lparr>sw_chains = (case chs of Some cs \<Rightarrow> cs | None \<Rightarrow> PHYGITAL_WALLET_CHAINS), sw_store = st',
               sw_session = None, sw_account = None, sw_signer = None, sw_promise = None, sw_loads = [],
               sw_connects = [], sw_signs = [], sw_listeners = [], sw_heard = [], sw_handed = []\<rparr>
      in case session of None \<Rightarrow> w | Some s \<Rightarrow> start_load s (adoptSession K s w))"

text \<open>
  The load of a signer settles: \<open>assertSessionPda\<close>, then whether \<open>buildSigner\<close> succeeded.
\<close>

definition settle_load :: "std_kit \<Rightarrow> nat \<Rightarrow> bool \<Rightarrow> std_wallet \<Rightarrow> std_wallet" where
  "settle_load K k built w =
     (case nth_opt (sw_loads w) k of
        None \<Rightarrow> w
      | Some l \<Rightarrow>
          if ld_phase l \<noteq> Loading then w
          else if findWalletPda K (ss_token (ld_session l)) = ss_wallet (ld_session l) \<and> built then
            w\<lparr>sw_session := Some (ld_session l), sw_signer := Some (ss_token (ld_session l)),
              sw_loads := (sw_loads w)[k := l\<lparr>ld_phase := Loaded\<rparr>]\<rparr>
          else drop_session (w\<lparr>sw_loads := (sw_loads w)[k := l\<lparr>ld_phase := LoadFailed\<rparr>]\<rparr>))"

subsection \<open>Connecting\<close>

definition set_connect :: "nat \<Rightarrow> connect_phase \<Rightarrow> std_wallet \<Rightarrow> std_wallet" where
  "set_connect i p w = w\<lparr>sw_connects := (sw_connects w)[i := (sw_connects w ! i)\<lparr>ct_phase := p\<rparr>]\<rparr>"

definition return_accounts :: "nat \<Rightarrow> std_wallet \<Rightarrow> std_wallet" where
  "return_accounts i w = set_connect i (Connected (accounts w)) w"

definition restoreSession :: "std_kit \<Rightarrow> stored_session \<Rightarrow> std_wallet \<Rightarrow> std_wallet" where
  "restoreSession K s w = start_load s ((adoptSession K s w)\<lparr>sw_signer := None\<rparr>)"

definition connect_stored :: "std_kit \<Rightarrow> nat \<Rightarrow> std_wallet \<Rightarrow> std_wallet" where
  "connect_stored K i w =
     (let (session, st) = loadPhygitalWalletSession K (sw_store w); w = w\<lparr>sw_store := st\<rparr> in
      case session of
        Some s \<Rightarrow> (let w = restoreSession K s w in set_connect i (AwaitRestore (ensureSigner w)) w)
      | None \<Rightarrow> if ct_silent (sw_connects w ! i) then return_accounts i w else set_connect i Tapping w)"

definition start_connect :: "std_kit \<Rightarrow> bool \<Rightarrow> std_wallet \<Rightarrow> std_wallet" where
  "start_connect K silent w =
     (let i = length (sw_connects w);
          w = w\<lparr>sw_connects := sw_connects w @ [\<lparr>ct_silent = silent, ct_phase = Tapping\<rparr>]\<rparr>
      in if sw_session w \<noteq> None then set_connect i (AwaitSigner (ensureSigner w)) w else connect_stored K i w)"

definition resume_connect :: "std_kit \<Rightarrow> nat \<Rightarrow> std_wallet \<Rightarrow> std_wallet" where
  "resume_connect K i w =
     (case nth_opt (sw_connects w) i of
        None \<Rightarrow> w
      | Some t \<Rightarrow>
          (case ct_phase t of
             AwaitSigner a \<Rightarrow>
               (case settled w a of
                  None \<Rightarrow> w
                | Some (Some _) \<Rightarrow> return_accounts i w
                | Some None \<Rightarrow> if ct_silent t then return_accounts i w else connect_stored K i w)
           | AwaitRestore a \<Rightarrow>
               (case settled w a of
                  None \<Rightarrow> w
                | Some (Some _) \<Rightarrow> return_accounts i (emit_change w)
                | Some None \<Rightarrow> if ct_silent t then return_accounts i w else set_connect i Tapping w)
           | _ \<Rightarrow> w))"

text \<open>\<open>tapped\<close> is the token of a verified tap.\<close>

definition tap_result :: "std_kit \<Rightarrow> nat \<Rightarrow> string option \<Rightarrow> std_wallet \<Rightarrow> std_wallet" where
  "tap_result K i tapped w =
     (case nth_opt (sw_connects w) i of
        None \<Rightarrow> w
      | Some t \<Rightarrow>
          if ct_phase t \<noteq> Tapping then w
          else
            (case tapped of
               None \<Rightarrow> set_connect i (ConnectFailed ''Could not verify this phygital accessory'') w
             | Some token \<Rightarrow>
                 (let s = \<lparr>ss_token = token, ss_wallet = findWalletPda K token\<rparr> in
                  set_connect i (Building s) (adoptSession K s w))))"

definition build_result :: "std_kit \<Rightarrow> nat \<Rightarrow> bool \<Rightarrow> std_wallet \<Rightarrow> std_wallet" where
  "build_result K i built w =
     (case map_option ct_phase (nth_opt (sw_connects w) i) of
        Some (Building s) \<Rightarrow>
          if \<not> built then set_connect i (ConnectFailed ''signer'') w
          else return_accounts i (emit_change
            (w\<lparr>sw_signer := Some (ss_token s), sw_promise := Some (Got (ss_token s)),
               sw_store := savePhygitalWalletSession K s (sw_store w)\<rparr>))
      | _ \<Rightarrow> w)"


definition disconnect :: "std_wallet \<Rightarrow> std_wallet" where
  "disconnect w = drop_session w"

subsection \<open>Signing\<close>

text \<open>
  A rejected promise ends a call with its error; the errors of code outside the repository (decoder, signer, RPC node,
  the load of a signer) are texts of the model.
\<close>

definition requireAccount :: "std_wallet \<Rightarrow> string \<Rightarrow> string + unit" where
  "requireAccount w a =
     (if map_option wa_address (sw_account w) \<noteq> Some a then Inl ''Account not connected to Revibase wallet'' else Inr ())"

definition require_chain :: "std_wallet \<Rightarrow> bool \<Rightarrow> string option \<Rightarrow> string + unit" where
  "require_chain w send chain =
     (case chain of
        None \<Rightarrow> if send then Inl ''Unsupported chain: undefined'' else Inr ()
      | Some c \<Rightarrow>
          if (send \<or> c \<noteq> '''') \<and> c \<notin> set (sw_chains w) then Inl (''Unsupported chain: '' @ c) else Inr ())"

definition decode_wire :: "std_kit \<Rightarrow> bytes \<Rightarrow> string + signed_transaction" where
  "decode_wire K bs =
     (case sw_decode K bs of
        None \<Rightarrow> Inl ''decode''
      | Some tx \<Rightarrow>
          if sg_lifetime tx = None then Inl ''Revibase wallet requires transactions with a lifetime constraint'' else Inr tx)"

definition check_input :: "std_kit \<Rightarrow> std_wallet \<Rightarrow> bool \<Rightarrow> sign_input \<Rightarrow> string + signed_transaction" where
  "check_input K w send inp =
     obind (requireAccount w (si_account inp)) (\<lambda>_.
     obind (require_chain w send (si_chain inp)) (\<lambda>_. decode_wire K (si_transaction inp)))"

definition set_sign :: "nat \<Rightarrow> sign_task \<Rightarrow> std_wallet \<Rightarrow> std_wallet" where
  "set_sign i t w = w\<lparr>sw_signs := (sw_signs w)[i := t]\<rparr>"

text \<open>The loop over the inputs up to its next \<open>await\<close>; the head of \<open>st_inputs\<close> is the input at hand.\<close>

definition next_input :: "std_kit \<Rightarrow> std_wallet \<Rightarrow> sign_task \<Rightarrow> sign_task" where
  "next_input K w t =
     t\<lparr>st_phase :=
        (case st_inputs t of
           [] \<Rightarrow> SignEnd (Inr (st_outputs t))
         | inp # _ \<Rightarrow>
             (case check_input K w (st_send t) inp of
                Inl e \<Rightarrow> SignEnd (Inl e)
              | Inr tx \<Rightarrow> SigAwait (ensureSigner w) tx))\<rparr>"

definition start_sign :: "std_kit \<Rightarrow> bool \<Rightarrow> sign_input list \<Rightarrow> std_wallet \<Rightarrow> std_wallet" where
  "start_sign K send inputs w =
     w\<lparr>sw_signs := sw_signs w @ [next_input K w
        \<lparr>st_send = send, st_inputs = inputs, st_outputs = [], st_phase = SignEnd (Inl '''')\<rparr>]\<rparr>"

definition resume_sign :: "nat \<Rightarrow> std_wallet \<Rightarrow> std_wallet" where
  "resume_sign i w =
     (case nth_opt (sw_signs w) i of
        None \<Rightarrow> w
      | Some t \<Rightarrow>
          (case st_phase t of
             SigAwait a tx \<Rightarrow>
               (case settled w a of
                  None \<Rightarrow> w
                | Some None \<Rightarrow> set_sign i (t\<lparr>st_phase := SignEnd (Inl ''Revibase wallet is not connected'')\<rparr>) w
                | Some (Some token) \<Rightarrow>
                    set_sign i (t\<lparr>st_phase := Signing token\<rparr>)
                      (w\<lparr>sw_handed := sw_handed w @ [(si_account (hd (st_inputs t)), token, tx)]\<rparr>))
           | _ \<Rightarrow> w))"

definition push_output :: "std_kit \<Rightarrow> nat \<Rightarrow> sign_task \<Rightarrow> bytes \<Rightarrow> std_wallet \<Rightarrow> std_wallet" where
  "push_output K i t b w =
     set_sign i (next_input K w (t\<lparr>st_inputs := tl (st_inputs t), st_outputs := st_outputs t @ [b]\<rparr>)) w"

text \<open>\<open>res\<close>: the first transaction the signer returned, if it did not throw.\<close>

definition signed_result :: "std_kit \<Rightarrow> nat \<Rightarrow> signed_transaction option option \<Rightarrow> std_wallet \<Rightarrow> std_wallet" where
  "signed_result K i res w =
     (case nth_opt (sw_signs w) i of
        None \<Rightarrow> w
      | Some t \<Rightarrow>
          (case st_phase t of
             Signing token \<Rightarrow>
               (case res of
                  None \<Rightarrow> set_sign i (t\<lparr>st_phase := SignEnd (Inl ''signer'')\<rparr>) w
                | Some None \<Rightarrow> set_sign i (t\<lparr>st_phase := SignEnd (Inl ''Revibase wallet failed to sign transaction'')\<rparr>) w
                | Some (Some tx) \<Rightarrow>
                    if sg_lifetime tx = None
                    then set_sign i (t\<lparr>st_phase := SignEnd (Inl ''Revibase wallet failed to sign transaction'')\<rparr>) w
                    else if st_send t then set_sign i (t\<lparr>st_phase := Sending tx\<rparr>) w
                    else push_output K i t (sw_encode K tx) w)
           | _ \<Rightarrow> w))"

text \<open>\<open>getSignatureFromTransaction\<close>: the first signature, which must be there.\<close>

definition getSignatureFromTransaction :: "signed_transaction \<Rightarrow> bytes option" where
  "getSignatureFromTransaction tx = (case kt_signatures tx of [] \<Rightarrow> None | (_, sig) # _ \<Rightarrow> sig)"

definition send_result :: "std_kit \<Rightarrow> nat \<Rightarrow> bool \<Rightarrow> std_wallet \<Rightarrow> std_wallet" where
  "send_result K i sent w =
     (case nth_opt (sw_signs w) i of
        None \<Rightarrow> w
      | Some t \<Rightarrow>
          (case st_phase t of
             Sending tx \<Rightarrow>
               (if \<not> sent then set_sign i (t\<lparr>st_phase := SignEnd (Inl ''send'')\<rparr>) w
                else
                  (case getSignatureFromTransaction tx of
                     None \<Rightarrow> set_sign i (t\<lparr>st_phase := SignEnd (Inl ''signature'')\<rparr>) w
                   | Some sig \<Rightarrow> push_output K i t sig w))
           | _ \<Rightarrow> w))"

record send_options =
  so_preflightCommitment :: "string option"
  so_skipPreflight :: "bool option"
  so_maxRetries :: "nat option"
  so_minContextSlot :: "nat option"

definition sendConfig :: "send_options option \<Rightarrow> (string \<times> js) list" where
  "sendConfig opts =
     (case opts of
        None \<Rightarrow> []
      | Some p \<Rightarrow>
          (case so_preflightCommitment p of Some c \<Rightarrow> if c = '''' then [] else [(''commitment'', JString c)] | None \<Rightarrow> []) @
          (case so_skipPreflight p of Some b \<Rightarrow> [(''skipPreflight'', JBool b)] | None \<Rightarrow> []) @
          (case so_maxRetries p of Some n \<Rightarrow> [(''maxRetries'', JNumber (of_nat n))] | None \<Rightarrow> []) @
          (case so_minContextSlot p of Some n \<Rightarrow> [(''minContextSlot'', JNumber (of_nat n))] | None \<Rightarrow> []))"

definition signMessage :: "std_wallet \<Rightarrow> string list \<Rightarrow> string" where
  "signMessage w as =
     (if \<forall>a \<in> set as. requireAccount w a = Inr () then ''solana:signMessage unsupported''
      else ''Account not connected to Revibase wallet'')"

subsection \<open>Runs\<close>

datatype std_event =
    StartConnect bool
  | ResumeConnect nat
  | TapResult nat "string option"
  | BuildResult nat bool
  | SettleLoad nat bool
  | Disconnect
  | StartSign bool "sign_input list"
  | ResumeSign nat
  | SignedResult nat "signed_transaction option option"
  | SendResult nat bool
  | OnChange nat
  | OffChange nat

fun std_step :: "std_kit \<Rightarrow> std_event \<Rightarrow> std_wallet \<Rightarrow> std_wallet" where
  "std_step K (StartConnect silent) w = start_connect K silent w"
| "std_step K (ResumeConnect i) w = resume_connect K i w"
| "std_step K (TapResult i t) w = tap_result K i t w"
| "std_step K (BuildResult i b) w = build_result K i b w"
| "std_step K (SettleLoad k b) w = settle_load K k b w"
| "std_step K Disconnect w = disconnect w"
| "std_step K (StartSign send inputs) w = start_sign K send inputs w"
| "std_step K (ResumeSign i) w = resume_sign i w"
| "std_step K (SignedResult i r) w = signed_result K i r w"
| "std_step K (SendResult i b) w = send_result K i b w"
| "std_step K (OnChange l) w = on_change l w"
| "std_step K (OffChange l) w = off_change l w"

definition std_run :: "std_kit \<Rightarrow> std_event list \<Rightarrow> std_wallet \<Rightarrow> std_wallet" where
  "std_run K es w = fold (std_step K) es w"

text \<open>
  Calls do not overlap: a connection starts when the connections before have ended, and the wallet is
  disconnected only then and while no signer is loading.  Signing may overlap with everything.
\<close>

fun ended :: "connect_phase \<Rightarrow> bool" where
  "ended (Connected _) = True"
| "ended (ConnectFailed _) = True"
| "ended _ = False"

definition all_ended :: "std_wallet \<Rightarrow> bool" where
  "all_ended w = list_all (\<lambda>t. ended (ct_phase t)) (sw_connects w)"

fun calm_event :: "std_event \<Rightarrow> std_wallet \<Rightarrow> bool" where
  "calm_event (StartConnect _) w = all_ended w"
| "calm_event Disconnect w \<longleftrightarrow> all_ended w \<and> list_all (\<lambda>l. ld_phase l \<noteq> Loading) (sw_loads w)"
| "calm_event _ w = True"

fun calm_run :: "std_kit \<Rightarrow> std_event list \<Rightarrow> std_wallet \<Rightarrow> bool" where
  "calm_run K [] w = True"
| "calm_run K (e # es) w \<longleftrightarrow> calm_event e w \<and> calm_run K es (std_step K e w)"


subsection \<open>The invariant of calm runs\<close>

text \<open>The fields of the session agree with each other, and a load that is not settled is the current one.\<close>

definition fields_ok :: "std_kit \<Rightarrow> std_wallet \<Rightarrow> bool" where
  "fields_ok K w \<longleftrightarrow>
     map_option wa_address (sw_account w) = map_option ss_wallet (sw_session w) \<and>
     (\<forall>t. sw_signer w = Some t \<longrightarrow>
        (\<exists>s. sw_session w = Some s \<and> ss_token s = t \<and> findWalletPda K t = ss_wallet s)) \<and>
     (\<forall>k. sw_promise w = Some (OnLoad k) \<longrightarrow>
        k < length (sw_loads w) \<and> sw_session w = Some (ld_session (sw_loads w ! k)) \<and>
        ld_phase (sw_loads w ! k) \<noteq> LoadFailed \<and> (ld_phase (sw_loads w ! k) = Loaded \<longrightarrow> sw_signer w \<noteq> None)) \<and>
     (\<forall>t. sw_promise w = Some (Got t) \<longrightarrow> sw_signer w = Some t) \<and>
     sw_promise w \<noteq> Some NotConnected \<and>
     (\<forall>k < length (sw_loads w).
        (ld_phase (sw_loads w ! k) = Loading \<longrightarrow> sw_promise w = Some (OnLoad k) \<and> sw_signer w = None) \<and>
        (ld_phase (sw_loads w ! k) = Loaded \<longrightarrow>
           findWalletPda K (ss_token (ld_session (sw_loads w ! k))) = ss_wallet (ld_session (sw_loads w ! k))))"

text \<open>What a connection in progress may rely on when it goes on.\<close>

definition awaiting_ok :: "std_wallet \<Rightarrow> awaited \<Rightarrow> bool" where
  "awaiting_ok w a \<longleftrightarrow>
     (case a of
        Got t \<Rightarrow> sw_signer w = Some t
      | NotConnected \<Rightarrow> sw_signer w = None \<and> sw_promise w = None
      | OnLoad k \<Rightarrow>
          k < length (sw_loads w) \<and>
          (ld_phase (sw_loads w ! k) = Loaded \<longrightarrow> sw_signer w \<noteq> None) \<and>
          (ld_phase (sw_loads w ! k) = LoadFailed \<longrightarrow> sw_signer w = None \<and> sw_promise w = None))"

definition connect_ok :: "std_kit \<Rightarrow> std_wallet \<Rightarrow> connect_task \<Rightarrow> bool" where
  "connect_ok K w t \<longleftrightarrow>
     (case ct_phase t of
        AwaitSigner a \<Rightarrow> awaiting_ok w a
      | AwaitRestore a \<Rightarrow> awaiting_ok w a
      | Tapping \<Rightarrow> sw_signer w = None \<and> sw_promise w = None \<and> \<not> ct_silent t
      | Building s \<Rightarrow> sw_signer w = None \<and> sw_promise w = None \<and> sw_session w = Some s \<and>
          ss_wallet s = findWalletPda K (ss_token s)
      | Connected as \<Rightarrow> ct_silent t \<or> as \<noteq> []
      | ConnectFailed _ \<Rightarrow> True)"

definition one_connects :: "std_wallet \<Rightarrow> bool" where
  "one_connects w \<longleftrightarrow>
     (\<forall>i < length (sw_connects w). \<forall>j < length (sw_connects w).
        \<not> ended (ct_phase (sw_connects w ! i)) \<longrightarrow> \<not> ended (ct_phase (sw_connects w ! j)) \<longrightarrow> i = j)"

text \<open>A signing method waits for the signer of the account it was asked for.\<close>

definition sign_ok :: "std_kit \<Rightarrow> std_wallet \<Rightarrow> sign_task \<Rightarrow> bool" where
  "sign_ok K w t \<longleftrightarrow>
     (case st_phase t of
        SigAwait a tx \<Rightarrow> st_inputs t \<noteq> [] \<and>
          (case a of
             Got token \<Rightarrow> findWalletPda K token = si_account (hd (st_inputs t))
           | OnLoad k \<Rightarrow> k < length (sw_loads w) \<and> ss_wallet (ld_session (sw_loads w ! k)) = si_account (hd (st_inputs t))
           | NotConnected \<Rightarrow> True)
      | _ \<Rightarrow> True)"

definition calm_ok :: "std_kit \<Rightarrow> std_wallet \<Rightarrow> bool" where
  "calm_ok K w \<longleftrightarrow>
     fields_ok K w \<and> one_connects w \<and>
     (\<forall>t \<in> set (sw_connects w). connect_ok K w t) \<and>
     (\<forall>t \<in> set (sw_signs w). sign_ok K w t) \<and>
     (\<forall>(a, token, tx) \<in> set (sw_handed w). findWalletPda K token = a)"

lemma fields_okD:
  assumes "fields_ok K w"
  shows "map_option wa_address (sw_account w) = map_option ss_wallet (sw_session w)"
    and "sw_signer w = Some t \<Longrightarrow> \<exists>s. sw_session w = Some s \<and> ss_token s = t \<and> findWalletPda K t = ss_wallet s"
    and "sw_promise w = Some (OnLoad k) \<Longrightarrow> k < length (sw_loads w) \<and> sw_session w = Some (ld_session (sw_loads w ! k)) \<and>
      ld_phase (sw_loads w ! k) \<noteq> LoadFailed \<and> (ld_phase (sw_loads w ! k) = Loaded \<longrightarrow> sw_signer w \<noteq> None)"
    and "sw_promise w = Some (Got t) \<Longrightarrow> sw_signer w = Some t"
    and "sw_promise w \<noteq> Some NotConnected"
    and "k < length (sw_loads w) \<Longrightarrow> ld_phase (sw_loads w ! k) = Loading \<Longrightarrow> sw_promise w = Some (OnLoad k) \<and> sw_signer w = None"
    and "k < length (sw_loads w) \<Longrightarrow> ld_phase (sw_loads w ! k) = Loaded \<Longrightarrow>
      findWalletPda K (ss_token (ld_session (sw_loads w ! k))) = ss_wallet (ld_session (sw_loads w ! k))"
  by (insert assms, unfold fields_ok_def) (elim conjE, blast)+

lemma no_session:
  "fields_ok K w \<Longrightarrow> sw_session w = None \<Longrightarrow> sw_signer w = None \<and> sw_promise w = None"
proof -
  assume f: "fields_ok K w" and n: "sw_session w = None"
  then have s: "sw_signer w = None" using fields_okD(2) [OF f] by (cases "sw_signer w") auto
  have "sw_promise w \<noteq> Some a" for a
    using fields_okD(3) [OF f] fields_okD(4) [OF f] fields_okD(5) [OF f] n s by (cases a) auto
  with s show ?thesis by (cases "sw_promise w") auto
qed

text \<open>Without a promise no load is running; then nothing is in the fields of the signer that could be wrong.\<close>

lemma no_signer_ok:
  assumes "sw_signer w = None" "sw_promise w = None" "map_option wa_address (sw_account w) = map_option ss_wallet (sw_session w)"
    "\<forall>k < length (sw_loads w). ld_phase (sw_loads w ! k) \<noteq> Loading"
    "\<forall>k < length (sw_loads w). ld_phase (sw_loads w ! k) = Loaded \<longrightarrow>
       findWalletPda K (ss_token (ld_session (sw_loads w ! k))) = ss_wallet (ld_session (sw_loads w ! k))"
  shows "fields_ok K w"
  using assms unfolding fields_ok_def by simp

lemma none_loading:
  "fields_ok K w \<Longrightarrow> sw_promise w = None \<Longrightarrow> k < length (sw_loads w) \<Longrightarrow> ld_phase (sw_loads w ! k) \<noteq> Loading"
  using fields_okD(6) by fastforce

lemma ensureSigner_awaiting: "fields_ok K w \<Longrightarrow> awaiting_ok w (ensureSigner w)"
  using fields_okD(3-5) [of K w] unfolding ensureSigner_def awaiting_ok_def
  by (cases "sw_signer w"; cases "sw_promise w") (force split: awaited.splits)+

lemma ensureSigner_sign:
  assumes "fields_ok K w" "map_option wa_address (sw_account w) = Some a"
  shows "case ensureSigner w of
           Got token \<Rightarrow> findWalletPda K token = a
         | OnLoad k \<Rightarrow> k < length (sw_loads w) \<and> ss_wallet (ld_session (sw_loads w ! k)) = a
         | NotConnected \<Rightarrow> True"
proof -
  from assms fields_okD(1) [OF assms(1)] obtain s where s: "sw_session w = Some s" "ss_wallet s = a"
    by (cases "sw_session w") auto
  show ?thesis
    using s fields_okD(2-5) [OF assms(1)] unfolding ensureSigner_def
    by (cases "sw_signer w"; cases "sw_promise w") (force split: awaited.splits)+
qed


subsection \<open>Every calm step keeps it\<close>

text \<open>The invariant but for connection \<open>i\<close>, while the others have ended.\<close>

definition rest_ok :: "std_kit \<Rightarrow> nat \<Rightarrow> std_wallet \<Rightarrow> bool" where
  "rest_ok K i w \<longleftrightarrow>
     fields_ok K w \<and> i < length (sw_connects w) \<and>
     (\<forall>j < length (sw_connects w). j \<noteq> i \<longrightarrow>
        ended (ct_phase (sw_connects w ! j)) \<and> connect_ok K w (sw_connects w ! j)) \<and>
     (\<forall>t \<in> set (sw_signs w). sign_ok K w t) \<and>
     (\<forall>(a, token, tx) \<in> set (sw_handed w). findWalletPda K token = a)"

lemma rest_of_calm:
  assumes "calm_ok K w" "i < length (sw_connects w)" "\<not> ended (ct_phase (sw_connects w ! i))"
  shows "rest_ok K i w"
  using assms unfolding calm_ok_def rest_ok_def one_connects_def by auto

lemma connect_ok_ended: "ended (ct_phase t) \<Longrightarrow> connect_ok K w t \<longleftrightarrow> connect_ok K w' t"
  by (cases "ct_phase t") (auto simp: connect_ok_def)

lemma calm_of_rest:
  assumes "rest_ok K i w" "connect_ok K w ((sw_connects w ! i)\<lparr>ct_phase := p\<rparr>)"
  shows "calm_ok K (set_connect i p w)"
proof -
  let ?w = "set_connect i p w"
  have same: "fields_ok K ?w = fields_ok K w" "sign_ok K ?w = sign_ok K w" "connect_ok K ?w = connect_ok K w"
    by (simp_all add: fun_eq_iff set_connect_def fields_ok_def sign_ok_def connect_ok_def awaiting_ok_def cong: awaited.case_cong connect_phase.case_cong signing_phase.case_cong)
  have "\<forall>t \<in> set (sw_connects ?w). connect_ok K ?w t"
    using assms unfolding same by (auto simp: set_connect_def rest_ok_def in_set_conv_nth nth_list_update)
  moreover have "one_connects ?w"
    using assms by (auto simp: one_connects_def set_connect_def rest_ok_def nth_list_update)
  ultimately show ?thesis
    using assms(1) unfolding calm_ok_def rest_ok_def same by (simp add: set_connect_def)
qed

text \<open>The loads of \<open>w'\<close> are those of \<open>w\<close> and new ones, for the same sessions.\<close>

definition loads_grow :: "std_wallet \<Rightarrow> std_wallet \<Rightarrow> bool" where
  "loads_grow w w' \<longleftrightarrow>
     length (sw_loads w) \<le> length (sw_loads w') \<and>
     (\<forall>k < length (sw_loads w). ld_session (sw_loads w' ! k) = ld_session (sw_loads w ! k))"

lemma sign_ok_grow: "sign_ok K w t \<Longrightarrow> loads_grow w w' \<Longrightarrow> sign_ok K w' t"
  unfolding sign_ok_def loads_grow_def by (auto split: signing_phase.splits awaited.splits)

lemma rest_move:
  assumes "rest_ok K i w" "fields_ok K w'" "loads_grow w w'" "sw_connects w' = sw_connects w" "sw_signs w' = sw_signs w"
    "sw_handed w' = sw_handed w"
  shows "rest_ok K i w'"
  using assms connect_ok_ended [of _ K w w'] sign_ok_grow [of K w _ w'] unfolding rest_ok_def by auto

lemma fields_other [simp]:
  "fields_ok K (w\<lparr>sw_store := st\<rparr>) = fields_ok K w"
  "fields_ok K (w\<lparr>sw_connects := cs\<rparr>) = fields_ok K w"
  "fields_ok K (w\<lparr>sw_signs := ts\<rparr>) = fields_ok K w"
  "fields_ok K (w\<lparr>sw_heard := hs\<rparr>) = fields_ok K w"
  "fields_ok K (w\<lparr>sw_handed := ds\<rparr>) = fields_ok K w"
  "fields_ok K (w\<lparr>sw_listeners := ls\<rparr>) = fields_ok K w"
  by (simp_all add: fields_ok_def)

lemma loads_grow_refl [simp]: "sw_loads w' = sw_loads w \<Longrightarrow> loads_grow w w'"
  by (simp add: loads_grow_def)

lemma adopt_account:
  "map_option wa_address (sw_account (adoptSession K s w)) = map_option ss_wallet (sw_session (adoptSession K s w))"
  by (simp add: adoptSession_def createPhygitalWalletAccount_def)

lemma restore_fields:
  assumes "fields_ok K w" "sw_promise w = None"
  shows "fields_ok K (restoreSession K s w)" "loads_grow w (restoreSession K s w)"
    "ensureSigner (restoreSession K s w) = OnLoad (length (sw_loads w))"
  using none_loading [OF assms] fields_okD(7) [OF assms(1)] assms(2)
  by (auto simp: fields_ok_def restoreSession_def start_load_def adoptSession_def createPhygitalWalletAccount_def
      nth_append less_Suc_eq loads_grow_def ensureSigner_def)

lemma connect_stored_ok:
  assumes "rest_ok K i w" "sw_signer w = None" "sw_promise w = None"
  shows "calm_ok K (connect_stored K i w)"
proof -
  obtain session st where ld: "loadPhygitalWalletSession K (sw_store w) = (session, st)" by force
  let ?w = "w\<lparr>sw_store := st\<rparr>"
  have rest: "rest_ok K i ?w" by (rule rest_move [OF assms(1)]) (use assms(1) in \<open>simp_all add: rest_ok_def\<close>)
  show ?thesis
  proof (cases session)
    case None
    show ?thesis
    proof (cases "ct_silent (sw_connects w ! i)")
      case True
      with rest ld None show ?thesis
        by (simp add: connect_stored_def return_accounts_def calm_of_rest connect_ok_def Let_def)
    next
      case False
      with rest ld None assms(2,3) show ?thesis by (simp add: connect_stored_def calm_of_rest connect_ok_def)
    qed
  next
    case (Some s)
    let ?r = "restoreSession K s ?w"
    have f: "fields_ok K ?w" using rest by (simp add: rest_ok_def)
    note r = restore_fields [OF f, of s]
    have "rest_ok K i ?r" by (rule rest_move [OF rest]) (use r assms(3) in \<open>simp_all add: restoreSession_def start_load_def adoptSession_def\<close>)
    moreover have "awaiting_ok ?r (ensureSigner ?r)" by (rule ensureSigner_awaiting) (use r assms(3) in simp)
    ultimately show ?thesis using ld Some by (simp add: connect_stored_def calm_of_rest connect_ok_def Let_def)
  qed
qed

lemma rest_append:
  assumes "calm_ok K w" "all_ended w"
  shows "rest_ok K (length (sw_connects w)) (w\<lparr>sw_connects := sw_connects w @ [t]\<rparr>)"
proof -
  let ?w = "w\<lparr>sw_connects := sw_connects w @ [t]\<rparr>"
  have "connect_ok K ?w (sw_connects w ! j)" if "j < length (sw_connects w)" for j
    using assms that connect_ok_ended [of "sw_connects w ! j" K w ?w] by (simp add: calm_ok_def all_ended_def list_all_length)
  moreover have "fields_ok K ?w" using assms(1) by (simp add: calm_ok_def)
  moreover have "\<forall>t \<in> set (sw_signs w). sign_ok K ?w t"
    using assms(1) sign_ok_grow [of K w _ ?w] unfolding calm_ok_def by simp
  moreover have "\<forall>j < length (sw_connects w). ended (ct_phase (sw_connects w ! j))"
    using assms(2) by (simp add: all_ended_def list_all_length)
  moreover have "\<forall>(a, token, tx) \<in> set (sw_handed w). findWalletPda K token = a" using assms(1) by (simp add: calm_ok_def)
  ultimately show ?thesis by (simp add: rest_ok_def nth_append less_Suc_eq)
qed

lemma start_connect_ok:
  assumes "calm_ok K w" "all_ended w"
  shows "calm_ok K (start_connect K silent w)"
proof -
  let ?w = "w\<lparr>sw_connects := sw_connects w @ [\<lparr>ct_silent = silent, ct_phase = Tapping\<rparr>]\<rparr>"
  note rest = rest_append [OF assms, of "\<lparr>ct_silent = silent, ct_phase = Tapping\<rparr>"]
  then have f: "fields_ok K ?w" by (simp add: rest_ok_def)
  show ?thesis
  proof (cases "sw_session w")
    case None
    with no_session [OF f] have "sw_signer w = None" "sw_promise w = None" by simp_all
    with None rest show ?thesis by (simp add: start_connect_def connect_stored_ok)
  next
    case (Some s)
    with calm_of_rest [OF rest] ensureSigner_awaiting [OF f] show ?thesis
      by (simp add: start_connect_def connect_ok_def Let_def)
  qed
qed


text \<open>The invariant of tasks depends on the session, the signer, its promise and the loads only.\<close>

definition same_core :: "std_wallet \<Rightarrow> std_wallet \<Rightarrow> bool" where
  "same_core w w' \<longleftrightarrow>
     sw_account w' = sw_account w \<and> sw_session w' = sw_session w \<and> sw_signer w' = sw_signer w \<and>
     sw_promise w' = sw_promise w \<and> sw_loads w' = sw_loads w"

lemma same_core_ok:
  assumes "same_core w w'"
  shows "fields_ok K w' = fields_ok K w" "connect_ok K w' t = connect_ok K w t" "sign_ok K w' d = sign_ok K w d"
proof -
  note eqs = assms [unfolded same_core_def]
  show "fields_ok K w' = fields_ok K w" using eqs by (simp add: fields_ok_def)
  have "awaiting_ok w' a = awaiting_ok w a" for a using eqs by (cases a) (simp_all add: awaiting_ok_def)
  then show "connect_ok K w' t = connect_ok K w t" using eqs by (cases "ct_phase t") (simp_all add: connect_ok_def)
  show "sign_ok K w' d = sign_ok K w d" using eqs by (auto simp: sign_ok_def split: signing_phase.split awaited.split)
qed

lemma calm_same:
  assumes "same_core w w'" "sw_connects w' = sw_connects w" "sw_signs w' = sw_signs w" "sw_handed w' = sw_handed w"
  shows "calm_ok K w' = calm_ok K w"
  using assms by (simp add: calm_ok_def same_core_ok one_connects_def)

lemma rest_same:
  assumes "same_core w w'" "sw_connects w' = sw_connects w" "sw_signs w' = sw_signs w" "sw_handed w' = sw_handed w"
  shows "rest_ok K i w' = rest_ok K i w"
  using assms by (simp add: rest_ok_def same_core_ok)

lemma emit_rest: "rest_ok K i (emit_change w) = rest_ok K i w"
  by (rule rest_same) (simp_all add: emit_change_def same_core_def)

lemma return_accounts_ok:
  "rest_ok K i w \<Longrightarrow> ct_silent (sw_connects w ! i) \<or> sw_signer w \<noteq> None \<Longrightarrow> calm_ok K (return_accounts i w)"
proof -
  assume r: "rest_ok K i w" and s: "ct_silent (sw_connects w ! i) \<or> sw_signer w \<noteq> None"
  from r have f: "fields_ok K w" by (simp add: rest_ok_def)
  have "sw_account w \<noteq> None" if "sw_signer w \<noteq> None"
    using that fields_okD(1,2) [OF f] by (cases "sw_account w") auto
  with s calm_of_rest [OF r] show ?thesis by (auto simp: return_accounts_def connect_ok_def accounts_def)
qed

lemma emit_return_ok:
  "rest_ok K i w \<Longrightarrow> sw_signer w \<noteq> None \<Longrightarrow> calm_ok K (return_accounts i (emit_change w))"
  by (rule return_accounts_ok) (simp_all only: emit_rest, simp add: emit_change_def)

lemma settled_awaiting:
  assumes "awaiting_ok w a"
  shows "settled w a = Some (Some t) \<Longrightarrow> sw_signer w \<noteq> None"
    and "settled w a = Some None \<Longrightarrow> sw_signer w = None \<and> sw_promise w = None"
  using assms by (cases a; auto simp: settled_def awaiting_ok_def split: option.splits load_phase.splits)+

lemma resume_connect_ok:
  assumes "calm_ok K w"
  shows "calm_ok K (resume_connect K i w)"
proof (cases "nth_opt (sw_connects w) i")
  case (Some t)
  then have i: "i < length (sw_connects w)" and t: "sw_connects w ! i = t" by auto
  then have c: "connect_ok K w t" using assms by (auto simp: calm_ok_def)
  show ?thesis
  proof (cases "ct_phase t")
    case (AwaitSigner a)
    with c i t rest_of_calm [OF assms i] settled_awaiting [of w a] Some assms show ?thesis
      by (auto simp: resume_connect_def connect_ok_def connect_stored_ok return_accounts_ok split: option.splits)
  next
    case (AwaitRestore a)
    with c have a: "awaiting_ok w a" by (simp add: connect_ok_def)
    have r: "rest_ok K i w" using rest_of_calm [OF assms i] AwaitRestore t by simp
    from settled_awaiting [OF a] calm_of_rest [OF r, of Tapping] Some assms AwaitRestore t r show ?thesis
      by (auto simp: resume_connect_def connect_ok_def return_accounts_ok emit_return_ok split: option.splits)
  qed (use i t assms in \<open>simp_all add: resume_connect_def nth_opt_def\<close>)
qed (use assms in \<open>auto simp: resume_connect_def nth_opt_def split: if_splits\<close>)

lemma tap_result_ok:
  assumes "calm_ok K w"
  shows "calm_ok K (tap_result K i tapped w)"
proof (cases "map_option ct_phase (nth_opt (sw_connects w) i) = Some Tapping")
  case True
  then have i: "i < length (sw_connects w)" and t: "ct_phase (sw_connects w ! i) = Tapping" by auto
  have r: "rest_ok K i w" using rest_of_calm [OF assms i] t by simp
  have c: "sw_signer w = None" "sw_promise w = None"
    using assms i t by (auto simp: calm_ok_def connect_ok_def dest!: bspec [OF _ nth_mem])
  show ?thesis
  proof (cases tapped)
    case None
    with calm_of_rest [OF r] i t show ?thesis by (simp add: tap_result_def connect_ok_def nth_opt_def)
  next
    case (Some token)
    let ?s = "\<lparr>ss_token = token, ss_wallet = findWalletPda K token\<rparr>"
    let ?a = "adoptSession K ?s w"
    have f: "fields_ok K w" using r by (simp add: rest_ok_def)
    have "fields_ok K ?a"
      using none_loading [OF f c(2)] fields_okD(7) [OF f] c
      by (intro no_signer_ok) (simp_all add: adoptSession_def createPhygitalWalletAccount_def)
    then have "rest_ok K i ?a" by (rule rest_move [OF r]) (simp_all add: adoptSession_def)
    from calm_of_rest [OF this, of "Building ?s"] c i t Some show ?thesis
      by (simp add: tap_result_def connect_ok_def adoptSession_def Let_def nth_opt_def)
  qed
qed (use assms in \<open>auto simp: tap_result_def split: option.splits\<close>)

lemma build_result_ok:
  assumes "calm_ok K w"
  shows "calm_ok K (build_result K i built w)"
proof (cases "\<exists>s. map_option ct_phase (nth_opt (sw_connects w) i) = Some (Building s)")
  case True
  then obtain s where i: "i < length (sw_connects w)" and t: "ct_phase (sw_connects w ! i) = Building s" by auto
  have r: "rest_ok K i w" using rest_of_calm [OF assms i] t by simp
  have c: "sw_signer w = None" "sw_promise w = None" "sw_session w = Some s" "ss_wallet s = findWalletPda K (ss_token s)"
    using assms i t by (auto simp: calm_ok_def connect_ok_def dest!: bspec [OF _ nth_mem])
  let ?w = "w\<lparr>sw_signer := Some (ss_token s), sw_promise := Some (Got (ss_token s)),
               sw_store := savePhygitalWalletSession K s (sw_store w)\<rparr>"
  have f: "fields_ok K w" using r by (simp add: rest_ok_def)
  have "fields_ok K ?w"
    using none_loading [OF f c(2)] fields_okD(1,7) [OF f] c by (simp add: fields_ok_def)
  then have "rest_ok K i ?w" by (rule rest_move [OF r]) simp_all
  then have "calm_ok K (return_accounts i (emit_change ?w))" by (rule emit_return_ok) simp
  with calm_of_rest [OF r] i t show ?thesis by (simp add: build_result_def connect_ok_def nth_opt_def)
next
  case False
  with assms show ?thesis by (auto simp: build_result_def split: option.splits connect_phase.splits)
qed


lemma settle_load_ok:
  assumes "calm_ok K w"
  shows "calm_ok K (settle_load K k built w)"
proof (cases "\<exists>l. nth_opt (sw_loads w) k = Some l \<and> ld_phase l = Loading")
  case True
  then have k: "k < length (sw_loads w)" and ph: "ld_phase (sw_loads w ! k) = Loading" by auto
  define l where "l = sw_loads w ! k"
  from assms have f: "fields_ok K w" by (simp add: calm_ok_def)
  from fields_okD(6) [OF f k ph] have p: "sw_promise w = Some (OnLoad k)" and sg: "sw_signer w = None" by simp_all
  from fields_okD(3) [OF f p] have s: "sw_session w = Some (ld_session l)" by (simp add: l_def)
  have other: "ld_phase (sw_loads w ! j) \<noteq> Loading" if "j < length (sw_loads w)" "j \<noteq> k" for j
    using fields_okD(6) [OF f that(1)] that(2) p by auto
  have on_k: "a = OnLoad k" if "awaiting_ok w a" for a
    using that p sg other by (cases a) (auto simp: awaiting_ok_def intro: load_phase.exhaust)
  have task: "ct_phase t = AwaitSigner (OnLoad k) \<or> ct_phase t = AwaitRestore (OnLoad k) \<or> ended (ct_phase t)"
    if "t \<in> set (sw_connects w)" for t
    using that assms p on_k by (cases "ct_phase t") (auto simp: calm_ok_def connect_ok_def)
  have conn: "\<forall>t \<in> set (sw_connects w). connect_ok K w' t"
    if "awaiting_ok w' (OnLoad k)" for w' :: std_wallet
  proof
    fix t assume t: "t \<in> set (sw_connects w)"
    then have "connect_ok K w t" using assms by (simp add: calm_ok_def)
    with task [OF t] connect_ok_ended [of t K w w'] that show "connect_ok K w' t" by (auto simp: connect_ok_def)
  qed
  have signs: "\<forall>t \<in> set (sw_signs w). sign_ok K w' t" if "loads_grow w w'" for w'
    using assms sign_ok_grow [OF _ that] by (simp add: calm_ok_def)
  have same: "one_connects w" "\<forall>(a, token, tx) \<in> set (sw_handed w). findWalletPda K token = a"
    using assms by (simp_all add: calm_ok_def)
  show ?thesis
  proof (cases "findWalletPda K (ss_token (ld_session l)) = ss_wallet (ld_session l) \<and> built")
    case True
    let ?w = "w\<lparr>sw_session := Some (ld_session l), sw_signer := Some (ss_token (ld_session l)),
        sw_loads := (sw_loads w)[k := l\<lparr>ld_phase := Loaded\<rparr>]\<rparr>"
    have "fields_ok K ?w"
      using fields_okD(1,7) [OF f] other True p s k by (auto simp: fields_ok_def nth_list_update)
    moreover have "loads_grow w ?w" using k by (simp add: loads_grow_def nth_list_update l_def)
    moreover have "awaiting_ok ?w (OnLoad k)" using k by (simp add: awaiting_ok_def)
    ultimately have "calm_ok K ?w" using conn [of ?w] signs [of ?w] same by (simp add: calm_ok_def one_connects_def)
    with True k ph show ?thesis by (simp add: settle_load_def nth_opt_def l_def)
  next
    case False
    let ?w = "clearMemorySession (w\<lparr>sw_loads := (sw_loads w)[k := l\<lparr>ld_phase := LoadFailed\<rparr>],
        sw_store := clearPhygitalWalletSession (sw_store w)\<rparr>)"
    have "fields_ok K ?w"
      using fields_okD(7) [OF f] other k by (intro no_signer_ok) (auto simp: clearMemorySession_def nth_list_update)
    moreover have "loads_grow w ?w" using k by (simp add: loads_grow_def nth_list_update l_def clearMemorySession_def)
    moreover have "awaiting_ok ?w (OnLoad k)" using k by (simp add: awaiting_ok_def clearMemorySession_def)
    ultimately have "calm_ok K ?w"
      using conn [of ?w] signs [of ?w] same by (simp add: calm_ok_def one_connects_def clearMemorySession_def)
    then have "calm_ok K (emit_change ?w)"
      by (subst calm_same) (simp_all add: emit_change_def same_core_def)
    with False k ph show ?thesis by (auto simp: settle_load_def nth_opt_def l_def drop_session_def)
  qed
qed (use assms in \<open>auto simp: settle_load_def split: option.splits\<close>)


lemma disconnect_ok:
  assumes "calm_ok K w" "calm_event Disconnect w"
  shows "calm_ok K (disconnect w)"
proof -
  let ?w = "clearMemorySession (w\<lparr>sw_store := clearPhygitalWalletSession (sw_store w)\<rparr>)"
  from assms(1) have f: "fields_ok K w" by (simp add: calm_ok_def)
  have "fields_ok K ?w"
    using fields_okD(7) [OF f] assms(2)
    by (intro no_signer_ok) (auto simp: clearMemorySession_def list_all_length)
  moreover have "\<forall>t \<in> set (sw_connects w). connect_ok K ?w t"
  proof
    fix t assume "t \<in> set (sw_connects w)"
    with assms connect_ok_ended [of t K w ?w] show "connect_ok K ?w t" by (simp add: calm_ok_def all_ended_def list_all_iff)
  qed
  moreover have "\<forall>t \<in> set (sw_signs w). sign_ok K ?w t"
    using assms(1) sign_ok_grow [of K w _ ?w] by (simp add: calm_ok_def clearMemorySession_def)
  ultimately have "calm_ok K ?w" using assms(1) by (simp add: calm_ok_def one_connects_def clearMemorySession_def)
  then have "calm_ok K (emit_change ?w)" by (subst calm_same) (simp_all add: emit_change_def same_core_def)
  then show ?thesis by (simp add: disconnect_def drop_session_def)
qed

lemma next_input_ok:
  assumes "fields_ok K w"
  shows "sign_ok K w (next_input K w t)"
proof (cases "st_inputs t")
  case (Cons inp inps)
  have "map_option wa_address (sw_account w) = Some (si_account inp)" if "check_input K w (st_send t) inp = Inr tx" for tx
    using that by (auto simp: check_input_def requireAccount_def split: if_splits)
  with ensureSigner_sign [OF assms, of "si_account inp"] Cons show ?thesis
    by (cases "ensureSigner w") (auto simp: next_input_def sign_ok_def split: sum.split)
qed (simp add: next_input_def sign_ok_def)

lemma calm_set_sign:
  assumes "calm_ok K w" "sign_ok K w t"
  shows "calm_ok K (set_sign i t w)"
proof -
  have c: "same_core w (set_sign i t w)" by (simp add: same_core_def set_sign_def)
  have "\<forall>d \<in> set ((sw_signs w)[i := t]). sign_ok K w d"
    using assms set_update_subset_insert [of "sw_signs w" i t] by (auto simp: calm_ok_def)
  with assms(1) show ?thesis by (simp add: calm_ok_def same_core_ok [OF c]) (simp add: set_sign_def one_connects_def)
qed

lemma start_sign_ok:
  assumes "calm_ok K w"
  shows "calm_ok K (start_sign K send inputs w)"
proof -
  have c: "same_core w (start_sign K send inputs w)" by (simp add: same_core_def start_sign_def)
  from assms have "fields_ok K w" by (simp add: calm_ok_def)
  with assms next_input_ok [of K w] show ?thesis
    by (simp add: calm_ok_def same_core_ok [OF c]) (simp add: start_sign_def one_connects_def)
qed

lemma settled_signer:
  assumes "calm_ok K w" "t \<in> set (sw_signs w)" "st_phase t = SigAwait a tx" "settled w a = Some (Some token)"
  shows "findWalletPda K token = si_account (hd (st_inputs t))"
proof -
  from assms have f: "fields_ok K w" and "sign_ok K w t" by (simp_all add: calm_ok_def)
  with assms(3,4) fields_okD(7) [OF f] show ?thesis
    by (cases a) (auto simp: sign_ok_def settled_def nth_opt_def split: load_phase.splits if_splits)
qed

lemma resume_sign_ok:
  assumes "calm_ok K w"
  shows "calm_ok K (resume_sign i w)"
proof (cases "nth_opt (sw_signs w) i")
  case (Some t)
  then have i: "i < length (sw_signs w)" "sw_signs w ! i = t" and t: "t \<in> set (sw_signs w)" by auto
  show ?thesis
  proof (cases "st_phase t")
    case (SigAwait a tx)
    show ?thesis
    proof (cases "settled w a")
      case None
      with i SigAwait assms show ?thesis by (simp add: resume_sign_def nth_opt_def)
    next
      case s: (Some r)
      show ?thesis
      proof (cases r)
        case None
        with i SigAwait s None assms show ?thesis by (simp add: resume_sign_def nth_opt_def calm_set_sign sign_ok_def)
      next
        case (Some token)
        let ?h = "(si_account (hd (st_inputs t)), token, tx)"
        let ?w = "w\<lparr>sw_handed := sw_handed w @ [?h]\<rparr>"
        have c: "same_core w ?w" by (simp add: same_core_def)
        have "findWalletPda K token = si_account (hd (st_inputs t))" using settled_signer [OF assms t SigAwait] s Some by simp
        then have "calm_ok K ?w" using assms by (simp add: calm_ok_def same_core_ok [OF c]) (simp add: one_connects_def)
        then have "calm_ok K (set_sign i (t\<lparr>st_phase := Signing token\<rparr>) ?w)" by (rule calm_set_sign) (simp add: sign_ok_def)
        with i SigAwait s Some show ?thesis by (simp add: resume_sign_def nth_opt_def)
      qed
    qed
  qed (use i assms in \<open>simp_all add: resume_sign_def nth_opt_def\<close>)
qed (use assms in \<open>auto simp: resume_sign_def nth_opt_def split: if_splits\<close>)

lemma push_output_ok: "calm_ok K w \<Longrightarrow> calm_ok K (push_output K i t b w)"
  unfolding push_output_def by (rule calm_set_sign) (auto simp: calm_ok_def next_input_ok)

lemma end_sign_ok: "calm_ok K w \<Longrightarrow> calm_ok K (set_sign i (t\<lparr>st_phase := SignEnd r\<rparr>) w)"
  by (rule calm_set_sign) (simp_all add: sign_ok_def)

lemma signed_result_ok: "calm_ok K w \<Longrightarrow> calm_ok K (signed_result K i res w)"
  using calm_set_sign [of K w "t\<lparr>st_phase := Sending tx\<rparr>" i for t tx]
  by (auto simp: signed_result_def push_output_ok end_sign_ok sign_ok_def split: option.split signing_phase.split)

lemma send_result_ok: "calm_ok K w \<Longrightarrow> calm_ok K (send_result K i sent w)"
  by (auto simp: send_result_def push_output_ok end_sign_ok split: option.split signing_phase.split)

lemma std_step_ok:
  assumes "calm_ok K w" "calm_event e w"
  shows "calm_ok K (std_step K e w)"
proof (cases e)
  case (OnChange l)
  with assms calm_same [of w "on_change l w"] show ?thesis by (simp add: on_change_def same_core_def)
next
  case (OffChange l)
  with assms calm_same [of w "off_change l w"] show ?thesis by (simp add: off_change_def same_core_def)
qed (use assms in \<open>simp_all add: start_connect_ok resume_connect_ok tap_result_ok build_result_ok settle_load_ok
    disconnect_ok start_sign_ok resume_sign_ok signed_result_ok send_result_ok\<close>)

lemma new_wallet_ok: "calm_ok K (new_std_wallet K chs st)"
  by (auto simp: new_std_wallet_def Let_def calm_ok_def one_connects_def fields_ok_def start_load_def adoptSession_def
      createPhygitalWalletAccount_def split: prod.split option.split)

lemma calm_run_ok: "calm_run K es w \<Longrightarrow> calm_ok K w \<Longrightarrow> calm_ok K (std_run K es w)"
  by (induction es arbitrary: w) (auto simp: std_run_def std_step_ok)


text \<open>
  C26: A connected wallet signs for the right accessory.  If connections do not overlap, and the wallet is not
  disconnected while a connection or the load of a signer is under way, then, whatever taps, loads, signing calls and
  failures happen in which order, also at page loads with a stored session of any content: each transaction is handed
  to the signer of the token whose wallet is the account the caller asked for, and a connection that asks the
  user returns an account when it returns.
\<close>
theorem calm_wallet_signs_for_account:
  assumes "calm_run K es (new_std_wallet K chs st)"
  defines "w \<equiv> std_run K es (new_std_wallet K chs st)"
  shows "(\<forall>(a, token, tx) \<in> set (sw_handed w). findWalletPda K token = a) \<and>
    (\<forall>t \<in> set (sw_connects w). \<forall>accs. ct_phase t = Connected accs \<longrightarrow> ct_silent t \<or> accs \<noteq> [])"
proof -
  have ok: "calm_ok K w" unfolding w_def using assms(1) by (rule calm_run_ok) (rule new_wallet_ok)
  have "ct_silent t \<or> accs \<noteq> []" if "t \<in> set (sw_connects w)" "ct_phase t = Connected accs" for t accs
    using ok that unfolding calm_ok_def connect_ok_def by fastforce
  with ok show ?thesis unfolding calm_ok_def by blast
qed

definition sample_std_kit :: std_kit where
  "sample_std_kit =
     \<lparr>sw_pda = (\<lambda>program seeds. if last seeds = [1] then ''WalletA'' else ''WalletB''),
      sw_addressEncode = (\<lambda>a. if a = ''TokenA'' then [1] else [2]), sw_isAddress = (\<lambda>_. True),
      sw_jsonParse = (\<lambda>_. Some (stored_payload \<lparr>ss_token = ''TokenA'', ss_wallet = ''WalletA''\<rparr>)),
      sw_jsonText = (\<lambda>_. ''{}''),
      sw_decode = (\<lambda>bs. Some \<lparr>kt_messageBytes = bs, kt_signatures = [], sg_lifetime = Some (Blockhash ''hash'' 0)\<rparr>),
      sw_encode = kt_messageBytes\<rparr>"

definition sample_storage :: "string option \<Rightarrow> browser_storage" where
  "sample_storage item = \<lparr>bs_present = True, bs_reads = True, bs_writes = True, bs_removes = True, bs_item = item\<rparr>"

definition sample_sign_input :: sign_input where
  "sample_sign_input = \<lparr>si_account = ''WalletB'', si_chain = None, si_transaction = [1]\<rparr>"

definition sample_calm_events :: "std_event list" where
  "sample_calm_events =
     [StartConnect False, TapResult 0 (Some ''TokenB''), BuildResult 0 True, StartSign False [sample_sign_input], ResumeSign 0]"

theorem calm_wallet_signs_for_account_witness:
  "map (\<lambda>(a, token, tx). (a, token)) (sw_handed (std_run sample_std_kit sample_calm_events (new_std_wallet sample_std_kit None (sample_storage None))))
     = [(''WalletB'', ''TokenB'')] \<and>
   findWalletPda sample_std_kit ''TokenB'' = ''WalletB''"
proof -
  let ?w = "new_std_wallet sample_std_kit None (sample_storage None)"
  have calm: "calm_run sample_std_kit sample_calm_events ?w" by code_simp
  have h: "map (\<lambda>(a, token, tx). (a, token)) (sw_handed (std_run sample_std_kit sample_calm_events ?w)) = [(''WalletB'', ''TokenB'')]"
    by code_simp
  with calm_wallet_signs_for_account [OF calm] show ?thesis by auto
qed

subsection \<open>Calls that overlap\<close>

text \<open>
  The load of the stored session still runs when the user disconnects and connects another accessory: it
  then installs its own signer and session under the account of the new accessory, which signs with it.
\<close>

definition late_load_events :: "std_event list" where
  "late_load_events =
     [Disconnect, StartConnect False, TapResult 0 (Some ''TokenB''), BuildResult 0 True, SettleLoad 0 True,
      StartSign False [sample_sign_input], ResumeSign 0]"

lemma late_load_takes_over:
  "map (\<lambda>(a, token, tx). (a, token)) (sw_handed (std_run sample_std_kit late_load_events
     (new_std_wallet sample_std_kit None (sample_storage (Some ''{}''))))) = [(''WalletB'', ''TokenA'')]"
  by code_simp

text \<open>
  After a disconnection during the load, the late load leaves a signer without account: connecting then
  returns no account and never asks for a tap.
\<close>

lemma late_load_blocks_connect:
  "map ct_phase (sw_connects (std_run sample_std_kit [Disconnect, SettleLoad 0 True, StartConnect False, ResumeConnect 0]
     (new_std_wallet sample_std_kit None (sample_storage (Some ''{}''))))) = [Connected []]"
  by code_simp

subsection \<open>Registration\<close>

text \<open>One wallet is registered for each RPC object.\<close>

definition registerPhygitalWallet ::
  "std_kit \<Rightarrow> nat \<Rightarrow> string list option \<Rightarrow> browser_storage \<Rightarrow> nat list \<times> std_wallet list \<Rightarrow> nat list \<times> std_wallet list" where
  "registerPhygitalWallet K rpc chs st r =
     (if rpc \<in> set (fst r) then r else (fst r @ [rpc], snd r @ [new_std_wallet K chs st]))"

lemma register_once:
  "length (fst r) = length (snd r) \<Longrightarrow> distinct (fst r) \<Longrightarrow>
     (let r' = registerPhygitalWallet K rpc chs st r in
      length (fst r') = length (snd r') \<and> distinct (fst r') \<and> rpc \<in> set (fst r') \<and>
      registerPhygitalWallet K rpc chs' st' r' = r')"
  by (auto simp: registerPhygitalWallet_def)

end
