(* ===== verification/ProgramClient.thy ===== *)
theory ProgramClient
  imports Codecs WalletStandard
begin

text \<open>
  The generated client of the wallet program as a whole: the encoders and decoders of its types
  (\<^verbatim>\<open>generated/types\<close>), accounts and instructions, and the functions that build instructions
  (\<^verbatim>\<open>generated/instructions\<close>), next to the parsers of WalletProgram.  Shown is that every instruction built is
  parsed back to what it was built from.
\<close>

subsection \<open>Encoders and decoders\<close>

definition getAuthorityHeaderEncoder :: layout where
  "getAuthorityHeaderEncoder =
     StructL [(''authority'', AddressL), (''phygitalToken'', AddressL), (''payer'', AddressL), (''bump'', U8),
        (''walletBump'', U8), (''version'', U8), (''policyVersion'', U8), (''padding'', FixedBytes 4)]"

definition getSpendCapEncoder :: layout where
  "getSpendCapEncoder =
     StructL [(''cap'', U64), (''remaining'', U64), (''lastReset'', I64), (''windowSeconds'', I64)]"

definition getMintCapEncoder :: layout where
  "getMintCapEncoder =
     StructL [(''mint'', AddressL), (''cap'', getSpendCapEncoder)]"

definition getAccountKeyConstraintEncoder :: layout where
  "getAccountKeyConstraintEncoder =
     UnionL [(''Any'', UnitL), (''Address'', (StructL [(''fields'', (TupleL [AddressL]))])), (''Wallet'', UnitL)]"

definition getNumericWidthEncoder :: layout where
  "getNumericWidthEncoder =
     EnumL 4"

definition getComparisonEncoder :: layout where
  "getComparisonEncoder =
     EnumL 6"

definition getDataPredicateEncoder :: layout where
  "getDataPredicateEncoder =
     UnionL [(''BytesEqual'', (StructL [(''fields'', (TupleL [SizedBytes U32]))])), (''Unsigned'',
        (StructL [(''width'', getNumericWidthEncoder), (''comparison'', getComparisonEncoder), (''value'', U64)]))]"

definition getDataConstraintEncoder :: layout where
  "getDataConstraintEncoder =
     StructL [(''offset'', U16), (''predicate'', getDataPredicateEncoder)]"

definition getAccountConstraintEncoder :: layout where
  "getAccountConstraintEncoder =
     StructL [(''index'', U8), (''key'', getAccountKeyConstraintEncoder), (''owner'', (OptionL AddressL)),
        (''isSigner'', (OptionL BooleanL)), (''isWritable'', (OptionL BooleanL)), (''data'',
        (ArrayL getDataConstraintEncoder))]"

definition getInstructionRuleEncoder :: layout where
  "getInstructionRuleEncoder =
     StructL [(''selector'', SizedBytes U32), (''dataLength'', (OptionL U16)), (''accountCount'', (OptionL U8)),
        (''accounts'', (ArrayL getAccountConstraintEncoder)), (''arguments'', (ArrayL getDataConstraintEncoder))]"

definition getProgramAccessEncoder :: layout where
  "getProgramAccessEncoder =
     UnionL [(''Denied'', UnitL), (''AllInstructions'', UnitL), (''Restricted'', (StructL [(''fields'',
        (TupleL [(ArrayL getInstructionRuleEncoder)]))]))]"

definition getProgramPermissionEncoder :: layout where
  "getProgramPermissionEncoder =
     StructL [(''programId'', AddressL), (''access'', getProgramAccessEncoder)]"

definition getAuthorityEncoder :: layout where
  "getAuthorityEncoder =
     StructL [(''discriminator'', FixedBytes 8), (''header'', getAuthorityHeaderEncoder), (''solCap'',
        getSpendCapEncoder), (''policyPadding'', U32), (''mintCaps'', (ArrayL getMintCapEncoder)),
        (''programPermissions'', (ArrayL getProgramPermissionEncoder))]"

definition getAuthorityHeaderDecoder :: layout where
  "getAuthorityHeaderDecoder =
     StructL [(''authority'', AddressL), (''phygitalToken'', AddressL), (''payer'', AddressL), (''bump'', U8),
        (''walletBump'', U8), (''version'', U8), (''policyVersion'', U8), (''padding'', FixedBytes 4)]"

definition getSpendCapDecoder :: layout where
  "getSpendCapDecoder =
     StructL [(''cap'', U64), (''remaining'', U64), (''lastReset'', I64), (''windowSeconds'', I64)]"

definition getMintCapDecoder :: layout where
  "getMintCapDecoder =
     StructL [(''mint'', AddressL), (''cap'', getSpendCapDecoder)]"

definition getAccountKeyConstraintDecoder :: layout where
  "getAccountKeyConstraintDecoder =
     UnionL [(''Any'', UnitL), (''Address'', (StructL [(''fields'', (TupleL [AddressL]))])), (''Wallet'', UnitL)]"

definition getNumericWidthDecoder :: layout where
  "getNumericWidthDecoder =
     EnumL 4"

definition getComparisonDecoder :: layout where
  "getComparisonDecoder =
     EnumL 6"

definition getDataPredicateDecoder :: layout where
  "getDataPredicateDecoder =
     UnionL [(''BytesEqual'', (StructL [(''fields'', (TupleL [SizedBytes U32]))])), (''Unsigned'',
        (StructL [(''width'', getNumericWidthDecoder), (''comparison'', getComparisonDecoder), (''value'', U64)]))]"

definition getDataConstraintDecoder :: layout where
  "getDataConstraintDecoder =
     StructL [(''offset'', U16), (''predicate'', getDataPredicateDecoder)]"

definition getAccountConstraintDecoder :: layout where
  "getAccountConstraintDecoder =
     StructL [(''index'', U8), (''key'', getAccountKeyConstraintDecoder), (''owner'', (OptionL AddressL)),
        (''isSigner'', (OptionL BooleanL)), (''isWritable'', (OptionL BooleanL)), (''data'',
        (ArrayL getDataConstraintDecoder))]"

definition getInstructionRuleDecoder :: layout where
  "getInstructionRuleDecoder =
     StructL [(''selector'', SizedBytes U32), (''dataLength'', (OptionL U16)), (''accountCount'', (OptionL U8)),
        (''accounts'', (ArrayL getAccountConstraintDecoder)), (''arguments'', (ArrayL getDataConstraintDecoder))]"

definition getProgramAccessDecoder :: layout where
  "getProgramAccessDecoder =
     UnionL [(''Denied'', UnitL), (''AllInstructions'', UnitL), (''Restricted'', (StructL [(''fields'',
        (TupleL [(ArrayL getInstructionRuleDecoder)]))]))]"

definition getProgramPermissionDecoder :: layout where
  "getProgramPermissionDecoder =
     StructL [(''programId'', AddressL), (''access'', getProgramAccessDecoder)]"

definition getAuthorityDecoder :: layout where
  "getAuthorityDecoder =
     StructL [(''discriminator'', FixedBytes 8), (''header'', getAuthorityHeaderDecoder), (''solCap'',
        getSpendCapDecoder), (''policyPadding'', U32), (''mintCaps'', (ArrayL getMintCapDecoder)),
        (''programPermissions'', (ArrayL getProgramPermissionDecoder))]"

definition getClearAuthorityInstructionDataEncoder :: layout where
  "getClearAuthorityInstructionDataEncoder =
     StructL [(''discriminator'', FixedBytes 8)]"

definition getClearAuthorityInstructionDataDecoder :: layout where
  "getClearAuthorityInstructionDataDecoder =
     StructL [(''discriminator'', FixedBytes 8)]"

definition getClearWalletPolicyInstructionDataEncoder :: layout where
  "getClearWalletPolicyInstructionDataEncoder =
     StructL [(''discriminator'', FixedBytes 8)]"

definition getClearWalletPolicyInstructionDataDecoder :: layout where
  "getClearWalletPolicyInstructionDataDecoder =
     StructL [(''discriminator'', FixedBytes 8)]"

definition getCompactInstructionEncoder :: layout where
  "getCompactInstructionEncoder =
     StructL [(''programIdIndex'', U8), (''accountIndexes'', SizedBytes U32), (''data'', SizedBytes U32)]"

definition getSecp256r1VerifyArgsEncoder :: layout where
  "getSecp256r1VerifyArgsEncoder =
     StructL [(''verifyArgsRelativeIndex'', I64), (''signedMessageIndex'', U8), (''clientDataJson'', SizedBytes U32)]"

definition getExecuteInstructionDataEncoder :: layout where
  "getExecuteInstructionDataEncoder =
     StructL [(''discriminator'', FixedBytes 8), (''compactInstructions'', (ArrayL getCompactInstructionEncoder)),
        (''secp256r1VerifyArgs'', getSecp256r1VerifyArgsEncoder), (''slotNumber'', U64)]"

definition getCompactInstructionDecoder :: layout where
  "getCompactInstructionDecoder =
     StructL [(''programIdIndex'', U8), (''accountIndexes'', SizedBytes U32), (''data'', SizedBytes U32)]"

definition getSecp256r1VerifyArgsDecoder :: layout where
  "getSecp256r1VerifyArgsDecoder =
     StructL [(''verifyArgsRelativeIndex'', I64), (''signedMessageIndex'', U8), (''clientDataJson'', SizedBytes U32)]"

definition getExecuteInstructionDataDecoder :: layout where
  "getExecuteInstructionDataDecoder =
     StructL [(''discriminator'', FixedBytes 8), (''compactInstructions'', (ArrayL getCompactInstructionDecoder)),
        (''secp256r1VerifyArgs'', getSecp256r1VerifyArgsDecoder), (''slotNumber'', U64)]"

definition getExecuteWithAuthorityInstructionDataEncoder :: layout where
  "getExecuteWithAuthorityInstructionDataEncoder =
     StructL [(''discriminator'', FixedBytes 8), (''compactInstructions'', (ArrayL getCompactInstructionEncoder))]"

definition getExecuteWithAuthorityInstructionDataDecoder :: layout where
  "getExecuteWithAuthorityInstructionDataDecoder =
     StructL [(''discriminator'', FixedBytes 8), (''compactInstructions'', (ArrayL getCompactInstructionDecoder))]"

definition getExecuteWithAuthorityUsingPoliciesInstructionDataEncoder :: layout where
  "getExecuteWithAuthorityUsingPoliciesInstructionDataEncoder =
     StructL [(''discriminator'', FixedBytes 8), (''compactInstructions'', (ArrayL getCompactInstructionEncoder))]"

definition getExecuteWithAuthorityUsingPoliciesInstructionDataDecoder :: layout where
  "getExecuteWithAuthorityUsingPoliciesInstructionDataDecoder =
     StructL [(''discriminator'', FixedBytes 8), (''compactInstructions'', (ArrayL getCompactInstructionDecoder))]"

definition getSetAuthorityInstructionDataEncoder :: layout where
  "getSetAuthorityInstructionDataEncoder =
     StructL [(''discriminator'', FixedBytes 8), (''authority'', AddressL), (''secp256r1VerifyArgs'',
        getSecp256r1VerifyArgsEncoder), (''slotNumber'', U64)]"

definition getSetAuthorityInstructionDataDecoder :: layout where
  "getSetAuthorityInstructionDataDecoder =
     StructL [(''discriminator'', FixedBytes 8), (''authority'', AddressL), (''secp256r1VerifyArgs'',
        getSecp256r1VerifyArgsDecoder), (''slotNumber'', U64)]"

definition getSolCapArgEncoder :: layout where
  "getSolCapArgEncoder =
     StructL [(''cap'', U64), (''windowSeconds'', I64)]"

definition getMintCapArgEncoder :: layout where
  "getMintCapArgEncoder =
     StructL [(''mint'', AddressL), (''cap'', U64), (''windowSeconds'', I64)]"

definition getSetWalletPolicyInstructionDataEncoder :: layout where
  "getSetWalletPolicyInstructionDataEncoder =
     StructL [(''discriminator'', FixedBytes 8), (''solCap'', (OptionL getSolCapArgEncoder)), (''mintCaps'',
        (ArrayL getMintCapArgEncoder)), (''programPermissions'', (ArrayL getProgramPermissionEncoder))]"

definition getSolCapArgDecoder :: layout where
  "getSolCapArgDecoder =
     StructL [(''cap'', U64), (''windowSeconds'', I64)]"

definition getMintCapArgDecoder :: layout where
  "getMintCapArgDecoder =
     StructL [(''mint'', AddressL), (''cap'', U64), (''windowSeconds'', I64)]"

definition getSetWalletPolicyInstructionDataDecoder :: layout where
  "getSetWalletPolicyInstructionDataDecoder =
     StructL [(''discriminator'', FixedBytes 8), (''solCap'', (OptionL getSolCapArgDecoder)), (''mintCaps'',
        (ArrayL getMintCapArgDecoder)), (''programPermissions'', (ArrayL getProgramPermissionDecoder))]"

text \<open>What the generated code writes twice agrees.\<close>

lemma decoders_match:
  "getAuthorityHeaderDecoder = getAuthorityHeaderEncoder"
  "getSpendCapDecoder = getSpendCapEncoder"
  "getMintCapDecoder = getMintCapEncoder"
  "getAccountKeyConstraintDecoder = getAccountKeyConstraintEncoder"
  "getNumericWidthDecoder = getNumericWidthEncoder"
  "getComparisonDecoder = getComparisonEncoder"
  "getDataPredicateDecoder = getDataPredicateEncoder"
  "getDataConstraintDecoder = getDataConstraintEncoder"
  "getAccountConstraintDecoder = getAccountConstraintEncoder"
  "getInstructionRuleDecoder = getInstructionRuleEncoder"
  "getProgramAccessDecoder = getProgramAccessEncoder"
  "getProgramPermissionDecoder = getProgramPermissionEncoder"
  "getAuthorityDecoder = getAuthorityEncoder"
  "getClearAuthorityInstructionDataDecoder = getClearAuthorityInstructionDataEncoder"
  "getClearWalletPolicyInstructionDataDecoder = getClearWalletPolicyInstructionDataEncoder"
  "getCompactInstructionDecoder = getCompactInstructionEncoder"
  "getSecp256r1VerifyArgsDecoder = getSecp256r1VerifyArgsEncoder"
  "getExecuteInstructionDataDecoder = getExecuteInstructionDataEncoder"
  "getExecuteWithAuthorityInstructionDataDecoder = getExecuteWithAuthorityInstructionDataEncoder"
  "getExecuteWithAuthorityUsingPoliciesInstructionDataDecoder = getExecuteWithAuthorityUsingPoliciesInstructionDataEncoder"
  "getSetAuthorityInstructionDataDecoder = getSetAuthorityInstructionDataEncoder"
  "getSolCapArgDecoder = getSolCapArgEncoder"
  "getMintCapArgDecoder = getMintCapArgEncoder"
  "getSetWalletPolicyInstructionDataDecoder = getSetWalletPolicyInstructionDataEncoder"
  by (simp_all add: getAuthorityHeaderEncoder_def getSpendCapEncoder_def getMintCapEncoder_def 
      getAccountKeyConstraintEncoder_def getNumericWidthEncoder_def getComparisonEncoder_def 
      getDataPredicateEncoder_def getDataConstraintEncoder_def getAccountConstraintEncoder_def 
      getInstructionRuleEncoder_def getProgramAccessEncoder_def getProgramPermissionEncoder_def 
      getAuthorityEncoder_def getAuthorityHeaderDecoder_def getSpendCapDecoder_def getMintCapDecoder_def 
      getAccountKeyConstraintDecoder_def getNumericWidthDecoder_def getComparisonDecoder_def 
      getDataPredicateDecoder_def getDataConstraintDecoder_def getAccountConstraintDecoder_def 
      getInstructionRuleDecoder_def getProgramAccessDecoder_def getProgramPermissionDecoder_def 
      getAuthorityDecoder_def getClearAuthorityInstructionDataEncoder_def 
      getClearAuthorityInstructionDataDecoder_def getClearWalletPolicyInstructionDataEncoder_def 
      getClearWalletPolicyInstructionDataDecoder_def getCompactInstructionEncoder_def 
      getSecp256r1VerifyArgsEncoder_def getExecuteInstructionDataEncoder_def 
      getCompactInstructionDecoder_def getSecp256r1VerifyArgsDecoder_def 
      getExecuteInstructionDataDecoder_def getExecuteWithAuthorityInstructionDataEncoder_def 
      getExecuteWithAuthorityInstructionDataDecoder_def 
      getExecuteWithAuthorityUsingPoliciesInstructionDataEncoder_def 
      getExecuteWithAuthorityUsingPoliciesInstructionDataDecoder_def 
      getSetAuthorityInstructionDataEncoder_def getSetAuthorityInstructionDataDecoder_def 
      getSolCapArgEncoder_def getMintCapArgEncoder_def getSetWalletPolicyInstructionDataEncoder_def 
      getSolCapArgDecoder_def getMintCapArgDecoder_def getSetWalletPolicyInstructionDataDecoder_def)


subsection \<open>Values\<close>

definition field_of :: "val \<Rightarrow> string \<Rightarrow> val" where
  "field_of v n = (case v of VStruct ps \<Rightarrow> (case map_of ps n of Some w \<Rightarrow> w | None \<Rightarrow> VUnit) | _ \<Rightarrow> VUnit)"

definition list_of :: "val \<Rightarrow> val list" where
  "list_of v = (case v of VArray vs \<Rightarrow> vs | _ \<Rightarrow> [])"

definition address_of :: "val \<Rightarrow> string" where
  "address_of v = (case v of VAddress a \<Rightarrow> a | _ \<Rightarrow> '''')"

definition option_of :: "val \<Rightarrow> val option" where
  "option_of v = (case v of VSome w \<Rightarrow> Some w | _ \<Rightarrow> None)"

definition compact_value :: "compact_instruction \<Rightarrow> val" where
  "compact_value c =
     VStruct [(''programIdIndex'', VNum (int (ci_program c))), (''accountIndexes'', VBytes (map word_of_nat (ci_accounts c))),
       (''data'', VBytes (ci_data c))]"

definition compact_of_value :: "val \<Rightarrow> compact_instruction" where
  "compact_of_value v =
     \<lparr>ci_program = nat (num_of (field_of v ''programIdIndex'')),
      ci_accounts = map unat (bytes_of (field_of v ''accountIndexes'')), ci_data = bytes_of (field_of v ''data'')\<rparr>"

definition verify_value :: "verify_args \<Rightarrow> val" where
  "verify_value a =
     VStruct [(''verifyArgsRelativeIndex'', VNum (va_relativeIndex a)), (''signedMessageIndex'', VNum (int (va_messageIndex a))),
       (''clientDataJson'', VBytes (va_clientDataJson a))]"

definition verify_of_value :: "val \<Rightarrow> verify_args" where
  "verify_of_value v =
     \<lparr>va_relativeIndex = num_of (field_of v ''verifyArgsRelativeIndex''),
      va_messageIndex = nat (num_of (field_of v ''signedMessageIndex'')),
      va_clientDataJson = bytes_of (field_of v ''clientDataJson'')\<rparr>"

definition sol_cap_value :: "sol_cap_arg \<Rightarrow> val" where
  "sol_cap_value c = VStruct [(''cap'', VNum (sc_cap c)), (''windowSeconds'', VNum (sc_window c))]"

definition sol_cap_of_value :: "val \<Rightarrow> sol_cap_arg" where
  "sol_cap_of_value v = \<lparr>sc_cap = num_of (field_of v ''cap''), sc_window = num_of (field_of v ''windowSeconds'')\<rparr>"

definition mint_cap_value :: "mint_cap_arg \<Rightarrow> val" where
  "mint_cap_value c =
     VStruct [(''mint'', VAddress (mc_mint c)), (''cap'', VNum (mc_cap c)), (''windowSeconds'', VNum (mc_window c))]"

definition mint_cap_of_value :: "val \<Rightarrow> mint_cap_arg" where
  "mint_cap_of_value v =
     \<lparr>mc_mint = address_of (field_of v ''mint''), mc_cap = num_of (field_of v ''cap''),
      mc_window = num_of (field_of v ''windowSeconds'')\<rparr>"

text \<open>The access of a permission; a rule is a value of \<open>getInstructionRuleEncoder\<close>, and its bytes once it is parsed.\<close>

datatype access_arg = ArgDenied | ArgAllInstructions | ArgRestricted "val list"

record permission_arg =
  pa_programId :: address
  pa_access :: access_arg

definition access_value :: "access_arg \<Rightarrow> val" where
  "access_value a =
     (case a of
        ArgDenied \<Rightarrow> VUnion ''Denied'' VUnit
      | ArgAllInstructions \<Rightarrow> VUnion ''AllInstructions'' VUnit
      | ArgRestricted rules \<Rightarrow> VUnion ''Restricted'' (VStruct [(''fields'', VTuple [VArray rules])]))"

definition rule_bytes :: "codec_kit \<Rightarrow> val \<Rightarrow> bytes" where
  "rule_bytes C v = (case ck_encode C getInstructionRuleEncoder v of Some b \<Rightarrow> b | None \<Rightarrow> [])"

definition access_of_value :: "codec_kit \<Rightarrow> val \<Rightarrow> program_access" where
  "access_of_value C v =
     (case v of
        VUnion k w \<Rightarrow>
          if k = ''Denied'' then Denied
          else if k = ''AllInstructions'' then AllInstructions
          else (case field_of w ''fields'' of VTuple (rules # _) \<Rightarrow> Restricted (map (rule_bytes C) (list_of rules)) | _ \<Rightarrow> Restricted [])
      | _ \<Rightarrow> Denied)"

definition parsed_access :: "codec_kit \<Rightarrow> access_arg \<Rightarrow> program_access" where
  "parsed_access C a =
     (case a of ArgDenied \<Rightarrow> Denied | ArgAllInstructions \<Rightarrow> AllInstructions | ArgRestricted rules \<Rightarrow> Restricted (map (rule_bytes C) rules))"

definition permission_value :: "permission_arg \<Rightarrow> val" where
  "permission_value p = VStruct [(''programId'', VAddress (pa_programId p)), (''access'', access_value (pa_access p))]"

definition permission_of_value :: "codec_kit \<Rightarrow> val \<Rightarrow> program_permission" where
  "permission_of_value C v =
     \<lparr>pp_programId = address_of (field_of v ''programId''), pp_access = access_of_value C (field_of v ''access'')\<rparr>"

definition policy_of_value :: "codec_kit \<Rightarrow> val \<Rightarrow> wallet_policy_data" where
  "policy_of_value C v =
     \<lparr>solCap = map_option sol_cap_of_value (option_of (field_of v ''solCap'')),
      mintCaps = map mint_cap_of_value (list_of (field_of v ''mintCaps'')),
      programPermissions = map (permission_of_value C) (list_of (field_of v ''programPermissions''))\<rparr>"

named_theorems value_simps \<open>reading values back\<close>

declare field_of_def [value_simps] list_of_def [value_simps] address_of_def [value_simps] option_of_def [value_simps]
  num_of_def [value_simps] bytes_of_def [value_simps]

lemma compact_back: "list_all (\<lambda>i. i < 256) (ci_accounts c) \<Longrightarrow> compact_of_value (compact_value c) = c"
  by (simp add: compact_of_value_def compact_value_def value_simps list_all_iff unat_of_nat o_def take_bit_eq_mod map_idI)

lemma verify_back [simp]: "verify_of_value (verify_value a) = a"
  by (simp add: verify_of_value_def verify_value_def value_simps)

lemma sol_cap_back [simp]: "sol_cap_of_value (sol_cap_value c) = c"
  by (simp add: sol_cap_of_value_def sol_cap_value_def value_simps)

lemma mint_cap_back [simp]: "mint_cap_of_value (mint_cap_value c) = c"
  by (simp add: mint_cap_of_value_def mint_cap_value_def value_simps)

lemma permission_back [simp]:
  "permission_of_value C (permission_value p) = \<lparr>pp_programId = pa_programId p, pp_access = parsed_access C (pa_access p)\<rparr>"
  by (cases "pa_access p") (simp_all add: permission_of_value_def permission_value_def access_of_value_def access_value_def
      parsed_access_def value_simps)

text \<open>The generated decoders, in the place of the parameters of the parsers.\<close>

definition client_kit :: "codec_kit \<Rightarrow> kit \<Rightarrow> kit" where
  "client_kit C k = k
     \<lparr>k_execute_data := \<lambda>b. map_option (\<lambda>v. (map compact_of_value (list_of (field_of v ''compactInstructions'')),
          verify_of_value (field_of v ''secp256r1VerifyArgs''), num_of (field_of v ''slotNumber'')))
        (ck_decode C getExecuteInstructionDataDecoder b),
      k_compact_data := \<lambda>b. map_option (\<lambda>v. map compact_of_value (list_of (field_of v ''compactInstructions'')))
        (ck_decode C getExecuteWithAuthorityInstructionDataDecoder b),
      k_set_authority_data := \<lambda>b. map_option (\<lambda>v. (address_of (field_of v ''authority''),
          verify_of_value (field_of v ''secp256r1VerifyArgs''), num_of (field_of v ''slotNumber'')))
        (ck_decode C getSetAuthorityInstructionDataDecoder b),
      k_policy_data := \<lambda>b. map_option (policy_of_value C) (ck_decode C getSetWalletPolicyInstructionDataDecoder b)\<rparr>"

subsection \<open>Building instructions\<close>

text \<open>
  An account is given as an address or as a signer; \<open>getAccountMetaFactory\<close> of \<^verbatim>\<open>@solana/kit\<close> makes its role,
  and is a parameter.  An account with a default may be left out.  The fields of the input the struct encoder does
  not read, which are the accounts, are left out of the encoded value.
\<close>

datatype account_input = Plain address | Signer address

record program_kit =
  pk_codecs :: codec_kit
  pk_meta :: "account_input \<Rightarrow> bool \<Rightarrow> account_meta"

definition metas_ok :: "program_kit \<Rightarrow> bool" where
  "metas_ok P \<longleftrightarrow>
     (\<forall>a w. pk_meta P (Plain a) w = \<lparr>am_address = a, am_role = role_of False w\<rparr> \<and>
       pk_meta P (Signer a) w = \<lparr>am_address = a, am_role = role_of True w\<rparr>)"

definition default_to :: "address \<Rightarrow> address option \<Rightarrow> account_input" where
  "default_to d a = Plain (case a of Some x \<Rightarrow> if x = '''' then d else x | None \<Rightarrow> d)"

definition discriminator :: "wallet_instruction \<Rightarrow> val" where
  "discriminator kind = VBytes (the (map_of discriminators kind))"

definition built :: "program_kit \<Rightarrow> (account_input \<times> bool) list \<Rightarrow> layout \<Rightarrow> val \<Rightarrow> kit_instruction option" where
  "built P accts encoder v =
     map_option (\<lambda>d. \<lparr>ix_program = PHYGITAL_WALLET_PROGRAM_ADDRESS,
         ix_accounts = Some (map (\<lambda>(a, w). pk_meta P a w) accts), ix_data = Some d\<rparr>)
       (ck_encode (pk_codecs P) encoder v)"

definition getClearAuthorityInstruction ::
  "program_kit \<Rightarrow> address \<Rightarrow> address \<Rightarrow> address \<Rightarrow> address \<Rightarrow> address option \<Rightarrow> kit_instruction option" where
  "getClearAuthorityInstruction P authority phygitalToken rentReceiver authorityAccount sysvar =
     built P [(Signer authority, False), (Plain phygitalToken, False), (Plain rentReceiver, True),
         (Plain authorityAccount, True), (default_to INSTRUCTIONS_SYSVAR sysvar, False)]
       getClearAuthorityInstructionDataEncoder (VStruct [(''discriminator'', discriminator ClearAuthority)])"

definition getClearWalletPolicyInstruction ::
  "program_kit \<Rightarrow> address \<Rightarrow> address \<Rightarrow> address \<Rightarrow> address \<Rightarrow> address option \<Rightarrow> kit_instruction option" where
  "getClearWalletPolicyInstruction P authority rentReceiver phygitalToken authorityAccount sysvar =
     built P [(Signer authority, False), (Plain rentReceiver, True), (Plain phygitalToken, False),
         (Plain authorityAccount, True), (default_to INSTRUCTIONS_SYSVAR sysvar, False)]
       getClearWalletPolicyInstructionDataEncoder (VStruct [(''discriminator'', discriminator ClearWalletPolicy)])"

definition execute_value :: "compact_instruction list \<Rightarrow> verify_args \<Rightarrow> int \<Rightarrow> val" where
  "execute_value cs args slot =
     VStruct [(''discriminator'', discriminator Execute), (''compactInstructions'', VArray (map compact_value cs)),
       (''secp256r1VerifyArgs'', verify_value args), (''slotNumber'', VNum slot)]"

definition build_execute ::
  "program_kit \<Rightarrow> address \<Rightarrow> address \<Rightarrow> address \<Rightarrow> address option \<Rightarrow> address option \<Rightarrow> address option \<Rightarrow>
     compact_instruction list \<Rightarrow> verify_args \<Rightarrow> int \<Rightarrow> kit_instruction option" where
  "build_execute P phygitalToken wallet authorityAccount slotHashes sysvar tokenProgram cs args slot =
     built P [(Plain phygitalToken, True), (Plain wallet, True), (Plain authorityAccount, True),
         (default_to SLOT_HASHES_SYSVAR slotHashes, False), (default_to INSTRUCTIONS_SYSVAR sysvar, False),
         (default_to DEFAULT_TOKEN_PROGRAM tokenProgram, False)]
       getExecuteInstructionDataEncoder (execute_value cs args slot)"

definition spend_value :: "wallet_instruction \<Rightarrow> compact_instruction list \<Rightarrow> val" where
  "spend_value kind cs =
     VStruct [(''discriminator'', discriminator kind), (''compactInstructions'', VArray (map compact_value cs))]"

definition getExecuteWithAuthorityInstruction ::
  "program_kit \<Rightarrow> address \<Rightarrow> address \<Rightarrow> address \<Rightarrow> address \<Rightarrow> address option \<Rightarrow> compact_instruction list \<Rightarrow>
     kit_instruction option" where
  "getExecuteWithAuthorityInstruction P authority phygitalToken authorityAccount wallet sysvar cs =
     built P [(Signer authority, False), (Plain phygitalToken, False), (Plain authorityAccount, False),
         (Plain wallet, True), (default_to INSTRUCTIONS_SYSVAR sysvar, False)]
       getExecuteWithAuthorityInstructionDataEncoder (spend_value ExecuteWithAuthority cs)"

definition build_execute_policies ::
  "program_kit \<Rightarrow> address \<Rightarrow> address \<Rightarrow> address \<Rightarrow> address \<Rightarrow> address option \<Rightarrow> compact_instruction list \<Rightarrow>
     kit_instruction option" where
  "build_execute_policies P authority phygitalToken authorityAccount wallet sysvar cs =
     built P [(Signer authority, False), (Plain phygitalToken, False), (Plain authorityAccount, True),
         (Plain wallet, True), (default_to INSTRUCTIONS_SYSVAR sysvar, False)]
       getExecuteWithAuthorityUsingPoliciesInstructionDataEncoder (spend_value ExecuteWithAuthorityUsingPolicies cs)"

definition set_authority_value :: "address \<Rightarrow> verify_args \<Rightarrow> int \<Rightarrow> val" where
  "set_authority_value authority args slot =
     VStruct [(''discriminator'', discriminator SetAuthority), (''authority'', VAddress authority),
       (''secp256r1VerifyArgs'', verify_value args), (''slotNumber'', VNum slot)]"

definition getSetAuthorityInstruction ::
  "program_kit \<Rightarrow> address \<Rightarrow> address \<Rightarrow> address \<Rightarrow> address \<Rightarrow> address option \<Rightarrow> address option \<Rightarrow> address option \<Rightarrow>
     address option \<Rightarrow> address \<Rightarrow> verify_args \<Rightarrow> int \<Rightarrow> kit_instruction option" where
  "getSetAuthorityInstruction P payer phygitalToken wallet authorityAccount slotHashes sysvar tokenProgram systemProgram
       authority args slot =
     built P [(Signer payer, True), (Plain phygitalToken, True), (Plain wallet, False), (Plain authorityAccount, True),
         (default_to SLOT_HASHES_SYSVAR slotHashes, False), (default_to INSTRUCTIONS_SYSVAR sysvar, False),
         (default_to DEFAULT_TOKEN_PROGRAM tokenProgram, False), (default_to SYSTEM systemProgram, False)]
       getSetAuthorityInstructionDataEncoder (set_authority_value authority args slot)"

definition findAuthorityAccountPda :: "std_kit \<Rightarrow> address \<Rightarrow> address" where
  "findAuthorityAccountPda K token =
     sw_pda K PHYGITAL_WALLET_PROGRAM_ADDRESS
       [[97, 117, 116, 104, 111, 114, 105, 116, 121, 58, 118, 49], sw_addressEncode K token]"

text \<open>With the derived addresses as further defaults.\<close>

definition or_derived :: "address \<Rightarrow> address option \<Rightarrow> address" where
  "or_derived d a = (case a of Some x \<Rightarrow> if x = '''' then d else x | None \<Rightarrow> d)"

definition getSetAuthorityInstructionAsync ::
  "std_kit \<Rightarrow> program_kit \<Rightarrow> address \<Rightarrow> address \<Rightarrow> address option \<Rightarrow> address option \<Rightarrow> address option \<Rightarrow>
     address option \<Rightarrow> address option \<Rightarrow> address option \<Rightarrow> address \<Rightarrow> verify_args \<Rightarrow> int \<Rightarrow> kit_instruction option" where
  "getSetAuthorityInstructionAsync K P payer phygitalToken wallet authorityAccount slotHashes sysvar tokenProgram systemProgram
       authority args slot =
     getSetAuthorityInstruction P payer phygitalToken (or_derived (findWalletPda K phygitalToken) wallet)
       (or_derived (findAuthorityAccountPda K phygitalToken) authorityAccount) slotHashes sysvar tokenProgram systemProgram
       authority args slot"

definition policy_value :: "sol_cap_arg option \<Rightarrow> mint_cap_arg list \<Rightarrow> permission_arg list \<Rightarrow> val" where
  "policy_value sol mints perms =
     VStruct [(''discriminator'', discriminator SetWalletPolicy),
       (''solCap'', case sol of None \<Rightarrow> VNone | Some c \<Rightarrow> VSome (sol_cap_value c)),
       (''mintCaps'', VArray (map mint_cap_value mints)), (''programPermissions'', VArray (map permission_value perms))]"

definition getSetWalletPolicyInstruction ::
  "program_kit \<Rightarrow> address \<Rightarrow> address \<Rightarrow> address \<Rightarrow> address \<Rightarrow> address \<Rightarrow> address option \<Rightarrow> address option \<Rightarrow>
     sol_cap_arg option \<Rightarrow> mint_cap_arg list \<Rightarrow> permission_arg list \<Rightarrow> kit_instruction option" where
  "getSetWalletPolicyInstruction P authority payer rentReceiver phygitalToken authorityAccount sysvar systemProgram sol mints perms =
     built P [(Signer authority, False), (Signer payer, True), (Plain rentReceiver, True), (Plain phygitalToken, False),
         (Plain authorityAccount, True), (default_to INSTRUCTIONS_SYSVAR sysvar, False), (default_to SYSTEM systemProgram, False)]
       getSetWalletPolicyInstructionDataEncoder (policy_value sol mints perms)"


text \<open>
  The wrap pipeline has its own copies of two builders, whose data codec is a parameter; with the codecs above
  they are the builders here.
\<close>

definition verify_of_secp :: "secp_args \<Rightarrow> verify_args" where
  "verify_of_secp a = \<lparr>va_relativeIndex = sa_verifyArgsRelativeIndex a, va_messageIndex = sa_signedMessageIndex a,
     va_clientDataJson = sa_clientDataJson a\<rparr>"

definition client_tx_kit :: "program_kit \<Rightarrow> tx_kit \<Rightarrow> tx_kit" where
  "client_tx_kit P T = T
     \<lparr>tk_executeData := \<lambda>cs args slot. ck_encode (pk_codecs P) getExecuteInstructionDataEncoder
        (execute_value cs (verify_of_secp args) (int slot)),
      tk_policiesData := \<lambda>cs. ck_encode (pk_codecs P) getExecuteWithAuthorityUsingPoliciesInstructionDataEncoder
        (spend_value ExecuteWithAuthorityUsingPolicies cs)\<rparr>"

lemma wrap_uses_client:
  assumes "metas_ok P"
  shows "getExecuteInstruction (client_tx_kit P T) xa cs args slot =
      build_execute P (xa_phygitalToken xa) (xa_wallet xa) (xa_authorityAccount xa) None None None cs (verify_of_secp args) (int slot)"
    and "getExecuteWithAuthorityUsingPoliciesInstruction (client_tx_kit P T) xa cs =
      build_execute_policies P (xa_authority xa) (xa_phygitalToken xa) (xa_authorityAccount xa) (xa_wallet xa) None cs"
  using assms
  by (simp_all add: getExecuteInstruction_def getExecuteWithAuthorityUsingPoliciesInstruction_def client_tx_kit_def
      build_execute_def build_execute_policies_def built_def metas_ok_def default_to_def meta_def role_of_def)

subsection \<open>Every instruction is parsed back\<close>

text \<open>A call of one of the seven functions, with its arguments; defaults are those of the generated code.\<close>

datatype wallet_call =
    CallClearAuthority address address address address
  | CallClearWalletPolicy address address address address
  | CallExecute address address address "compact_instruction list" verify_args int
  | CallExecuteWithAuthority address address address address "compact_instruction list"
  | CallExecuteUsingPolicies address address address address "compact_instruction list"
  | CallSetAuthority address address address address address verify_args int
  | CallSetWalletPolicy address address address address address "sol_cap_arg option" "mint_cap_arg list" "permission_arg list"

fun build_call :: "program_kit \<Rightarrow> wallet_call \<Rightarrow> kit_instruction option" where
  "build_call P (CallClearAuthority a t r acc) = getClearAuthorityInstruction P a t r acc None"
| "build_call P (CallClearWalletPolicy a r t acc) = getClearWalletPolicyInstruction P a r t acc None"
| "build_call P (CallExecute t w acc cs args slot) = build_execute P t w acc None None None cs args slot"
| "build_call P (CallExecuteWithAuthority a t acc w cs) = getExecuteWithAuthorityInstruction P a t acc w None cs"
| "build_call P (CallExecuteUsingPolicies a t acc w cs) = build_execute_policies P a t acc w None cs"
| "build_call P (CallSetAuthority p t w acc a args slot) = getSetAuthorityInstruction P p t w acc None None None None a args slot"
| "build_call P (CallSetWalletPolicy a p r t acc sol mints perms) = getSetWalletPolicyInstruction P a p r t acc None None sol mints perms"

text \<open>The values the codecs must be able to encode: numbers in range, valid addresses, texts that are not too long.\<close>

definition small_indexes :: "compact_instruction list \<Rightarrow> bool" where
  "small_indexes cs = list_all (\<lambda>c. list_all (\<lambda>i. i < 256) (ci_accounts c)) cs"

fun encodable :: "codec_kit \<Rightarrow> wallet_call \<Rightarrow> bool" where
  "encodable C (CallClearAuthority a t r acc) = True"
| "encodable C (CallClearWalletPolicy a r t acc) = True"
| "encodable C (CallExecute t w acc cs args slot) \<longleftrightarrow>
     small_indexes cs \<and> fits (ck_isAddress C) getExecuteInstructionDataEncoder (execute_value cs args slot)"
| "encodable C (CallExecuteWithAuthority a t acc w cs) \<longleftrightarrow>
     small_indexes cs \<and> fits (ck_isAddress C) getExecuteWithAuthorityInstructionDataEncoder (spend_value ExecuteWithAuthority cs)"
| "encodable C (CallExecuteUsingPolicies a t acc w cs) \<longleftrightarrow>
     small_indexes cs \<and> fits (ck_isAddress C) getExecuteWithAuthorityUsingPoliciesInstructionDataEncoder
       (spend_value ExecuteWithAuthorityUsingPolicies cs)"
| "encodable C (CallSetAuthority p t w acc a args slot) =
     fits (ck_isAddress C) getSetAuthorityInstructionDataEncoder (set_authority_value a args slot)"
| "encodable C (CallSetWalletPolicy a p r t acc sol mints perms) =
     fits (ck_isAddress C) getSetWalletPolicyInstructionDataEncoder (policy_value sol mints perms)"

definition acc_in :: "string \<Rightarrow> address \<Rightarrow> bool \<Rightarrow> bool \<Rightarrow> string \<times> account_meta" where
  "acc_in name a signer writable = (name, \<lparr>am_address = a, am_role = role_of signer writable\<rparr>)"

definition parsed_as :: "wallet_instruction \<Rightarrow> (string \<times> account_meta) list \<Rightarrow> parsed_data \<Rightarrow> parsed_instruction" where
  "parsed_as kind accts d =
     \<lparr>pi_type = kind, pi_program = PHYGITAL_WALLET_PROGRAM_ADDRESS, pi_accounts = accts, pi_data = d\<rparr>"

fun call_parsed :: "codec_kit \<Rightarrow> wallet_call \<Rightarrow> parsed_instruction" where
  "call_parsed C (CallClearAuthority a t r acc) = parsed_as ClearAuthority
     [acc_in ''authority'' a True False, acc_in ''phygitalToken'' t False False, acc_in ''rentReceiver'' r False True,
      acc_in ''authorityAccount'' acc False True, acc_in ''instructionsSysvar'' INSTRUCTIONS_SYSVAR False False] NoData"
| "call_parsed C (CallClearWalletPolicy a r t acc) = parsed_as ClearWalletPolicy
     [acc_in ''authority'' a True False, acc_in ''rentReceiver'' r False True, acc_in ''phygitalToken'' t False False,
      acc_in ''authorityAccount'' acc False True, acc_in ''instructionsSysvar'' INSTRUCTIONS_SYSVAR False False] NoData"
| "call_parsed C (CallExecute t w acc cs args slot) = parsed_as Execute
     [acc_in ''phygitalToken'' t False True, acc_in ''wallet'' w False True, acc_in ''authorityAccount'' acc False True,
      acc_in ''slotHashes'' SLOT_HASHES_SYSVAR False False, acc_in ''instructionsSysvar'' INSTRUCTIONS_SYSVAR False False,
      acc_in ''phygitalTokenProgram'' DEFAULT_TOKEN_PROGRAM False False] (ExecuteData cs args slot)"
| "call_parsed C (CallExecuteWithAuthority a t acc w cs) = parsed_as ExecuteWithAuthority
     [acc_in ''authority'' a True False, acc_in ''phygitalToken'' t False False, acc_in ''authorityAccount'' acc False False,
      acc_in ''wallet'' w False True, acc_in ''instructionsSysvar'' INSTRUCTIONS_SYSVAR False False] (CompactData cs)"
| "call_parsed C (CallExecuteUsingPolicies a t acc w cs) = parsed_as ExecuteWithAuthorityUsingPolicies
     [acc_in ''authority'' a True False, acc_in ''phygitalToken'' t False False, acc_in ''authorityAccount'' acc False True,
      acc_in ''wallet'' w False True, acc_in ''instructionsSysvar'' INSTRUCTIONS_SYSVAR False False] (CompactData cs)"
| "call_parsed C (CallSetAuthority p t w acc a args slot) = parsed_as SetAuthority
     [acc_in ''payer'' p True True, acc_in ''phygitalToken'' t False True, acc_in ''wallet'' w False False,
      acc_in ''authorityAccount'' acc False True, acc_in ''slotHashes'' SLOT_HASHES_SYSVAR False False,
      acc_in ''instructionsSysvar'' INSTRUCTIONS_SYSVAR False False,
      acc_in ''phygitalTokenProgram'' DEFAULT_TOKEN_PROGRAM False False, acc_in ''systemProgram'' SYSTEM False False]
     (SetAuthorityData a args slot)"
| "call_parsed C (CallSetWalletPolicy a p r t acc sol mints perms) = parsed_as SetWalletPolicy
     [acc_in ''authority'' a True False, acc_in ''payer'' p True True, acc_in ''rentReceiver'' r False True,
      acc_in ''phygitalToken'' t False False, acc_in ''authorityAccount'' acc False True,
      acc_in ''instructionsSysvar'' INSTRUCTIONS_SYSVAR False False, acc_in ''systemProgram'' SYSTEM False False]
     (PolicyData \<lparr>solCap = sol, mintCaps = mints,
        programPermissions = map (\<lambda>p. \<lparr>pp_programId = pa_programId p, pp_access = parsed_access C (pa_access p)\<rparr>) perms\<rparr>)"

definition contains_ok :: "kit \<Rightarrow> bool" where
  "contains_ok k \<longleftrightarrow> (\<forall>d b. k_containsBytes k d b 0 \<longleftrightarrow> take (length b) d = b)"

lemma identify_built:
  assumes "contains_ok k" "take 8 d = the (map_of discriminators kind)"
  shows "identifyPhygitalWalletInstruction k d = Some kind"
proof -
  have "k_containsBytes k d b 0 \<longleftrightarrow> take 8 d = b" if "length b = 8" for b
    using assms(1) that by (simp add: contains_ok_def)
  with assms(2) show ?thesis
    by (cases kind) (simp_all add: identifyPhygitalWalletInstruction_def discriminators_def)
qed

lemma length_discriminator: "length (the (map_of discriminators kind)) = 8"
  by (cases kind) (simp_all add: discriminators_def)

lemma identify_client [simp]: "identifyPhygitalWalletInstruction (client_kit C k) = identifyPhygitalWalletInstruction k"
  by (simp add: identifyPhygitalWalletInstruction_def client_kit_def fun_eq_iff)

text \<open>The data of a built instruction: it decodes to the value, and starts with the discriminator.\<close>

lemma encoded_data:
  assumes "codecs_ok C" "encoder = StructL ((''discriminator'', FixedBytes 8) # fs)"
    "v = VStruct ((''discriminator'', discriminator kind) # ps)" "fits (ck_isAddress C) encoder v"
  shows "\<exists>d. ck_encode C encoder v = Some d \<and> ck_decode C encoder d = Some v \<and> take 8 d = the (map_of discriminators kind)"
proof -
  from codecs_okD(1) [OF assms(1,4)] obtain d where d: "ck_encode C encoder v = Some d" "ck_decode C encoder d = Some v" by blast
  with codecs_okD(2) [OF assms(1), of "''discriminator''" "the (map_of discriminators kind)" fs ps d] assms(2,3) show ?thesis
    by (auto simp: discriminator_def length_discriminator)
qed


definition parser_of :: "kit \<Rightarrow> wallet_instruction \<Rightarrow> kit_instruction \<Rightarrow> parsed_instruction option" where
  "parser_of K kind =
    (case kind of
       ClearAuthority \<Rightarrow> parseClearAuthorityInstruction
     | ClearWalletPolicy \<Rightarrow> parseClearWalletPolicyInstruction
     | Execute \<Rightarrow> parseExecuteInstruction K
     | ExecuteWithAuthority \<Rightarrow> parseExecuteWithAuthorityInstruction K
     | ExecuteWithAuthorityUsingPolicies \<Rightarrow> parseExecuteWithAuthorityUsingPoliciesInstruction K
     | SetAuthority \<Rightarrow> parseSetAuthorityInstruction K
     | SetWalletPolicy \<Rightarrow> parseSetWalletPolicyInstruction K)"

lemma parse_by_kind:
  "ix_data ix = Some d \<Longrightarrow> identifyPhygitalWalletInstruction k d = Some kind \<Longrightarrow>
   parsePhygitalWalletInstruction (client_kit C k) ix = parser_of (client_kit C k) kind ix"
  by (cases kind) (simp_all add: parsePhygitalWalletInstruction_def parser_of_def)

lemma client_fields:
  "k_execute_data (client_kit C k) b = map_option (\<lambda>v. (map compact_of_value (list_of (field_of v ''compactInstructions'')),
     verify_of_value (field_of v ''secp256r1VerifyArgs''), num_of (field_of v ''slotNumber'')))
     (ck_decode C getExecuteInstructionDataEncoder b)"
  "k_compact_data (client_kit C k) b = map_option (\<lambda>v. map compact_of_value (list_of (field_of v ''compactInstructions'')))
     (ck_decode C getExecuteWithAuthorityInstructionDataEncoder b)"
  "k_set_authority_data (client_kit C k) b = map_option (\<lambda>v. (address_of (field_of v ''authority''),
     verify_of_value (field_of v ''secp256r1VerifyArgs''), num_of (field_of v ''slotNumber'')))
     (ck_decode C getSetAuthorityInstructionDataEncoder b)"
  "k_policy_data (client_kit C k) b = map_option (policy_of_value C) (ck_decode C getSetWalletPolicyInstructionDataEncoder b)"
  by (simp_all add: client_kit_def decoders_match)

lemma built_parsed:
  assumes "codecs_ok C" "contains_ok k" "encoder = StructL ((''discriminator'', FixedBytes 8) # fs)"
    and "v = VStruct ((''discriminator'', discriminator kind) # ps)" "fits (ck_isAddress C) encoder v" "C = pk_codecs P"
    and parser: "parser_of (client_kit C k) kind = parse_named kind names decode"
    and "length names = length accts" and decode: "\<And>d. ck_decode C encoder d = Some v \<Longrightarrow> 8 \<le> length d \<Longrightarrow> decode d = Some res"
  shows "\<exists>ix. built P accts encoder v = Some ix \<and>
    parsePhygitalWalletInstruction (client_kit C k) ix =
      Some (parsed_as kind (zip names (map (\<lambda>(a, w). pk_meta P a w) accts)) res)"
proof -
  from encoded_data [OF assms(1,3,4,5)] obtain d where
    d: "ck_encode C encoder v = Some d" "ck_decode C encoder d = Some v" "take 8 d = the (map_of discriminators kind)" by blast
  have "8 \<le> length d" using arg_cong [OF d(3), of length] length_discriminator [of kind] by simp
  from decode [OF d(2) this] parser identify_built [OF assms(2) d(3)] d(1) assms(6,8) show ?thesis
    by (simp add: built_def parse_by_kind parse_named_def parsed_as_def)
qed

lemmas built_by =
  getClearAuthorityInstruction_def getClearWalletPolicyInstruction_def build_execute_def
  getExecuteWithAuthorityInstruction_def build_execute_policies_def
  getSetAuthorityInstruction_def getSetWalletPolicyInstruction_def

lemmas instruction_values = execute_value_def spend_value_def set_authority_value_def policy_value_def

lemma compacts_back: "small_indexes cs \<Longrightarrow> map (compact_of_value \<circ> compact_value) cs = cs"
  by (simp add: small_indexes_def list_all_iff compact_back map_idI)

lemma same_spend_layout:
  "getExecuteWithAuthorityUsingPoliciesInstructionDataEncoder = getExecuteWithAuthorityInstructionDataEncoder"
  by (simp add: getExecuteWithAuthorityInstructionDataEncoder_def getExecuteWithAuthorityUsingPoliciesInstructionDataEncoder_def)

lemmas call_simps = built_by acc_in_def metas_ok_def default_to_def instruction_values

lemma clear_authority_parsed:
  assumes "codecs_ok (pk_codecs P)" "metas_ok P" "contains_ok k" "encodable (pk_codecs P) (CallClearAuthority a t r acc)"
  shows "\<exists>ix. build_call P (CallClearAuthority a t r acc) = Some ix \<and>
    parsePhygitalWalletInstruction (client_kit (pk_codecs P) k) ix = Some (call_parsed (pk_codecs P) (CallClearAuthority a t r acc))"
proof -
  let ?accts = "[(Signer a, False), (Plain t, False), (Plain r, True), (Plain acc, True), (default_to INSTRUCTIONS_SYSVAR None,
      False)]"
  let ?names = "[''authority'', ''phygitalToken'', ''rentReceiver'', ''authorityAccount'', ''instructionsSysvar'']"
  have "\<exists>ix. built P ?accts getClearAuthorityInstructionDataEncoder (VStruct [(''discriminator'', discriminator ClearAuthority)]) = Some ix \<and>
    parsePhygitalWalletInstruction (client_kit (pk_codecs P) k) ix =
      Some (parsed_as ClearAuthority (zip ?names (map (\<lambda>(a, w). pk_meta P a w) ?accts)) (NoData))"
    by (rule built_parsed [OF assms(1,3) getClearAuthorityInstructionDataEncoder_def, where decode = "discriminator_only"])
      (use assms(4) in \<open>simp_all add: instruction_values parser_of_def parser_defs client_fields value_simps
        compacts_back discriminator_only_def discriminator_def length_discriminator
        getClearAuthorityInstructionDataEncoder_def\<close>)
  then show ?thesis using assms(2) by (simp add: call_simps)
qed

lemma clear_policy_parsed:
  assumes "codecs_ok (pk_codecs P)" "metas_ok P" "contains_ok k" "encodable (pk_codecs P) (CallClearWalletPolicy a r t acc)"
  shows "\<exists>ix. build_call P (CallClearWalletPolicy a r t acc) = Some ix \<and>
    parsePhygitalWalletInstruction (client_kit (pk_codecs P) k) ix = Some (call_parsed (pk_codecs P) (CallClearWalletPolicy a r t acc))"
proof -
  let ?accts = "[(Signer a, False), (Plain r, True), (Plain t, False), (Plain acc, True), (default_to INSTRUCTIONS_SYSVAR None,
      False)]"
  let ?names = "[''authority'', ''rentReceiver'', ''phygitalToken'', ''authorityAccount'', ''instructionsSysvar'']"
  have "\<exists>ix. built P ?accts getClearWalletPolicyInstructionDataEncoder (VStruct [(''discriminator'', discriminator ClearWalletPolicy)]) = Some ix \<and>
    parsePhygitalWalletInstruction (client_kit (pk_codecs P) k) ix =
      Some (parsed_as ClearWalletPolicy (zip ?names (map (\<lambda>(a, w). pk_meta P a w) ?accts)) (NoData))"
    by (rule built_parsed [OF assms(1,3) getClearWalletPolicyInstructionDataEncoder_def, where decode = "discriminator_only"])
      (use assms(4) in \<open>simp_all add: instruction_values parser_of_def parser_defs client_fields value_simps
        compacts_back discriminator_only_def discriminator_def length_discriminator
        getClearWalletPolicyInstructionDataEncoder_def\<close>)
  then show ?thesis using assms(2) by (simp add: call_simps)
qed

lemma execute_parsed:
  assumes "codecs_ok (pk_codecs P)" "metas_ok P" "contains_ok k" "encodable (pk_codecs P) (CallExecute t w acc cs args slot)"
  shows "\<exists>ix. build_call P (CallExecute t w acc cs args slot) = Some ix \<and>
    parsePhygitalWalletInstruction (client_kit (pk_codecs P) k) ix = Some (call_parsed (pk_codecs P) (CallExecute t w acc cs args slot))"
proof -
  let ?accts = "[(Plain t, True), (Plain w, True), (Plain acc, True), (default_to SLOT_HASHES_SYSVAR None, False), (default_to
      INSTRUCTIONS_SYSVAR None, False), (default_to DEFAULT_TOKEN_PROGRAM None, False)]"
  let ?names = "[''phygitalToken'', ''wallet'', ''authorityAccount'', ''slotHashes'', ''instructionsSysvar'',
      ''phygitalTokenProgram'']"
  have "\<exists>ix. built P ?accts getExecuteInstructionDataEncoder (execute_value cs args slot) = Some ix \<and>
    parsePhygitalWalletInstruction (client_kit (pk_codecs P) k) ix =
      Some (parsed_as Execute (zip ?names (map (\<lambda>(a, w). pk_meta P a w) ?accts)) (ExecuteData cs args slot))"
    by (rule built_parsed [OF assms(1,3) getExecuteInstructionDataEncoder_def, where decode = "\<lambda>d. map_option (\<lambda>(c, v, s). ExecuteData c v s) (k_execute_data (client_kit (pk_codecs P) k) d)"])
      (use assms(4) in \<open>simp_all add: instruction_values parser_of_def parser_defs client_fields value_simps
        compacts_back discriminator_only_def\<close>)
  then show ?thesis using assms(2) by (simp add: call_simps)
qed

lemma execute_with_authority_parsed:
  assumes "codecs_ok (pk_codecs P)" "metas_ok P" "contains_ok k" "encodable (pk_codecs P) (CallExecuteWithAuthority a t acc w cs)"
  shows "\<exists>ix. build_call P (CallExecuteWithAuthority a t acc w cs) = Some ix \<and>
    parsePhygitalWalletInstruction (client_kit (pk_codecs P) k) ix = Some (call_parsed (pk_codecs P) (CallExecuteWithAuthority a t acc w cs))"
proof -
  let ?accts = "[(Signer a, False), (Plain t, False), (Plain acc, False), (Plain w, True), (default_to INSTRUCTIONS_SYSVAR None,
      False)]"
  let ?names = "[''authority'', ''phygitalToken'', ''authorityAccount'', ''wallet'', ''instructionsSysvar'']"
  have "\<exists>ix. built P ?accts getExecuteWithAuthorityInstructionDataEncoder (spend_value ExecuteWithAuthority cs) = Some ix \<and>
    parsePhygitalWalletInstruction (client_kit (pk_codecs P) k) ix =
      Some (parsed_as ExecuteWithAuthority (zip ?names (map (\<lambda>(a, w). pk_meta P a w) ?accts)) (CompactData cs))"
    by (rule built_parsed [OF assms(1,3) getExecuteWithAuthorityInstructionDataEncoder_def, where decode = "\<lambda>d. map_option CompactData (k_compact_data (client_kit (pk_codecs P) k) d)"])
      (use assms(4) in \<open>simp_all add: instruction_values parser_of_def parser_defs client_fields value_simps
        compacts_back discriminator_only_def\<close>)
  then show ?thesis using assms(2) by (simp add: call_simps)
qed

lemma execute_using_policies_parsed:
  assumes "codecs_ok (pk_codecs P)" "metas_ok P" "contains_ok k" "encodable (pk_codecs P) (CallExecuteUsingPolicies a t acc w cs)"
  shows "\<exists>ix. build_call P (CallExecuteUsingPolicies a t acc w cs) = Some ix \<and>
    parsePhygitalWalletInstruction (client_kit (pk_codecs P) k) ix = Some (call_parsed (pk_codecs P) (CallExecuteUsingPolicies a t acc w cs))"
proof -
  let ?accts = "[(Signer a, False), (Plain t, False), (Plain acc, True), (Plain w, True), (default_to INSTRUCTIONS_SYSVAR None,
      False)]"
  let ?names = "[''authority'', ''phygitalToken'', ''authorityAccount'', ''wallet'', ''instructionsSysvar'']"
  have "\<exists>ix. built P ?accts getExecuteWithAuthorityUsingPoliciesInstructionDataEncoder (spend_value ExecuteWithAuthorityUsingPolicies cs) = Some ix \<and>
    parsePhygitalWalletInstruction (client_kit (pk_codecs P) k) ix =
      Some (parsed_as ExecuteWithAuthorityUsingPolicies (zip ?names (map (\<lambda>(a, w). pk_meta P a w) ?accts)) (CompactData cs))"
    by (rule built_parsed [OF assms(1,3) getExecuteWithAuthorityUsingPoliciesInstructionDataEncoder_def, where decode = "\<lambda>d. map_option CompactData (k_compact_data (client_kit (pk_codecs P) k) d)"])
      (use assms(4) in \<open>simp_all add: instruction_values parser_of_def parser_defs client_fields value_simps
        compacts_back discriminator_only_def same_spend_layout\<close>)
  then show ?thesis using assms(2) by (simp add: call_simps)
qed

lemma set_authority_parsed:
  assumes "codecs_ok (pk_codecs P)" "metas_ok P" "contains_ok k" "encodable (pk_codecs P) (CallSetAuthority p t w acc a args slot)"
  shows "\<exists>ix. build_call P (CallSetAuthority p t w acc a args slot) = Some ix \<and>
    parsePhygitalWalletInstruction (client_kit (pk_codecs P) k) ix = Some (call_parsed (pk_codecs P) (CallSetAuthority p t w acc a args slot))"
proof -
  let ?accts = "[(Signer p, True), (Plain t, True), (Plain w, False), (Plain acc, True), (default_to SLOT_HASHES_SYSVAR None, False),
      (default_to INSTRUCTIONS_SYSVAR None, False), (default_to DEFAULT_TOKEN_PROGRAM None, False), (default_to SYSTEM
      None, False)]"
  let ?names = "[''payer'', ''phygitalToken'', ''wallet'', ''authorityAccount'', ''slotHashes'', ''instructionsSysvar'',
      ''phygitalTokenProgram'', ''systemProgram'']"
  have "\<exists>ix. built P ?accts getSetAuthorityInstructionDataEncoder (set_authority_value a args slot) = Some ix \<and>
    parsePhygitalWalletInstruction (client_kit (pk_codecs P) k) ix =
      Some (parsed_as SetAuthority (zip ?names (map (\<lambda>(a, w). pk_meta P a w) ?accts)) (SetAuthorityData a args slot))"
    by (rule built_parsed [OF assms(1,3) getSetAuthorityInstructionDataEncoder_def, where decode = "\<lambda>d. map_option (\<lambda>(a, v, s). SetAuthorityData a v s) (k_set_authority_data (client_kit (pk_codecs P) k) d)"])
      (use assms(4) in \<open>simp_all add: instruction_values parser_of_def parser_defs client_fields value_simps
        compacts_back discriminator_only_def\<close>)
  then show ?thesis using assms(2) by (simp add: call_simps)
qed

lemma set_policy_parsed:
  assumes "codecs_ok (pk_codecs P)" "metas_ok P" "contains_ok k" "encodable (pk_codecs P) (CallSetWalletPolicy a p r t acc sol mints perms)"
  shows "\<exists>ix. build_call P (CallSetWalletPolicy a p r t acc sol mints perms) = Some ix \<and>
    parsePhygitalWalletInstruction (client_kit (pk_codecs P) k) ix = Some (call_parsed (pk_codecs P) (CallSetWalletPolicy a p r t acc sol mints perms))"
proof -
  let ?accts = "[(Signer a, False), (Signer p, True), (Plain r, True), (Plain t, False), (Plain acc, True), (default_to
      INSTRUCTIONS_SYSVAR None, False), (default_to SYSTEM None, False)]"
  let ?names = "[''authority'', ''payer'', ''rentReceiver'', ''phygitalToken'', ''authorityAccount'', ''instructionsSysvar'',
      ''systemProgram'']"
  have "\<exists>ix. built P ?accts getSetWalletPolicyInstructionDataEncoder (policy_value sol mints perms) = Some ix \<and>
    parsePhygitalWalletInstruction (client_kit (pk_codecs P) k) ix =
      Some (parsed_as SetWalletPolicy (zip ?names (map (\<lambda>(a, w). pk_meta P a w) ?accts)) (PolicyData \<lparr>solCap = sol, mintCaps = mints, programPermissions = map (\<lambda>p. \<lparr>pp_programId = pa_programId p, pp_access = parsed_access (pk_codecs P) (pa_access p)\<rparr>) perms\<rparr>))"
    by (rule built_parsed [OF assms(1,3) getSetWalletPolicyInstructionDataEncoder_def, where decode = "\<lambda>d. map_option PolicyData (k_policy_data (client_kit (pk_codecs P) k) d)"])
      (use assms(4) in \<open>simp_all add: instruction_values parser_of_def parser_defs client_fields value_simps
        compacts_back discriminator_only_def policy_of_value_def o_def split: option.split\<close>)
  then show ?thesis using assms(2) by (simp add: call_simps)
qed

text \<open>
  C19: The client reads back what it writes.  Each of the seven functions that build an instruction of the wallet
  program, given values its codecs can encode, succeeds, and the instruction is identified as the one intended and
  parsed to exactly the accounts, with exactly the privileges, and the arguments it was built from.
\<close>
theorem built_is_parsed:
  assumes "codecs_ok (pk_codecs P)" "metas_ok P" "contains_ok k" "encodable (pk_codecs P) c"
  shows "\<exists>ix. build_call P c = Some ix \<and>
    parsePhygitalWalletInstruction (client_kit (pk_codecs P) k) ix = Some (call_parsed (pk_codecs P) c)"
proof (cases c)
  case (CallClearAuthority a t r acc)
  with assms show ?thesis using clear_authority_parsed [OF assms(1-3)] by simp
next
  case (CallClearWalletPolicy a r t acc)
  with assms show ?thesis using clear_policy_parsed [OF assms(1-3)] by simp
next
  case (CallExecute t w acc cs args slot)
  with assms show ?thesis using execute_parsed [OF assms(1-3)] by simp
next
  case (CallExecuteWithAuthority a t acc w cs)
  with assms show ?thesis using execute_with_authority_parsed [OF assms(1-3)] by simp
next
  case (CallExecuteUsingPolicies a t acc w cs)
  with assms show ?thesis using execute_using_policies_parsed [OF assms(1-3)] by simp
next
  case (CallSetAuthority p t w acc a args slot)
  with assms show ?thesis using set_authority_parsed [OF assms(1-3)] by simp
next
  case (CallSetWalletPolicy a p r t acc sol mints perms)
  with assms show ?thesis using set_policy_parsed [OF assms(1-3)] by simp
qed


definition sample_program :: program_kit where
  "sample_program =
     \<lparr>pk_codecs = wire_kit,
      pk_meta = \<lambda>a w. (case a of Plain x \<Rightarrow> \<lparr>am_address = x, am_role = role_of False w\<rparr>
        | Signer x \<Rightarrow> \<lparr>am_address = x, am_role = role_of True w\<rparr>)\<rparr>"

lemma sample_program_ok: "codecs_ok (pk_codecs sample_program)" "metas_ok sample_program"
  by (simp_all add: sample_program_def wire_kit_ok metas_ok_def)

lemma sample_contains: "contains_ok sample_kit"
  by (simp add: contains_ok_def sample_kit_def)

definition sample_rule :: val where
  "sample_rule = VStruct [(''selector'', VBytes [2, 0, 0, 0]), (''dataLength'', VSome (VNum 12)), (''accountCount'', VNone),
     (''accounts'', VArray [VStruct [(''index'', VNum 1), (''key'', VUnion ''Wallet'' VUnit), (''owner'', VNone),
        (''isSigner'', VSome (VBool False)), (''isWritable'', VNone), (''data'', VArray [])]]),
     (''arguments'', VArray [VStruct [(''offset'', VNum 4),
        (''predicate'', VUnion ''Unsigned'' (VStruct [(''width'', VNum 3), (''comparison'', VNum 3), (''value'', VNum 5)]))]])]"

definition sample_policy_call :: wallet_call where
  "sample_policy_call = CallSetWalletPolicy ''owner'' ''payer'' ''rent'' ''token'' ''authority''
     (Some \<lparr>sc_cap = 500000000, sc_window = 604800\<rparr>) [\<lparr>mc_mint = SYSTEM, mc_cap = 5, mc_window = -1\<rparr>]
     [\<lparr>pa_programId = SYSTEM, pa_access = ArgRestricted [sample_rule]\<rparr>, \<lparr>pa_programId = SYSTEM, pa_access = ArgDenied\<rparr>]"

theorem built_is_parsed_witness:
  "\<exists>ix. build_call sample_program sample_policy_call = Some ix \<and>
     parsePhygitalWalletInstruction (client_kit wire_kit sample_kit) ix = Some (call_parsed wire_kit sample_policy_call)"
proof -
  have "encodable (pk_codecs sample_program) sample_policy_call"
    by (simp add: sample_policy_call_def sample_program_def wire_kit_def policy_value_def discriminator_def length_discriminator
        getSetWalletPolicyInstructionDataEncoder_def getSolCapArgEncoder_def getMintCapArgEncoder_def
        getProgramPermissionEncoder_def getProgramAccessEncoder_def permission_value_def access_value_def sample_rule_def
        getInstructionRuleEncoder_def getAccountConstraintEncoder_def getAccountKeyConstraintEncoder_def
        getDataConstraintEncoder_def getDataPredicateEncoder_def getNumericWidthEncoder_def getComparisonEncoder_def
        num_in_def sol_cap_value_def mint_cap_value_def SYSTEM_def)
  from built_is_parsed [OF sample_program_ok sample_contains this] show ?thesis by (simp add: sample_program_def)
qed

end
