(* ===== verification/AppTx.thy ===== *)
theory AppTx
  imports ProgramClient
begin

text \<open>
  Building, sending and confirming a transaction in the web application (\<open>app/src/lib/solana/tx.ts\<close>).
  What the RPC node answers, what the signers of the message do and how \<open>@solana/kit\<close> puts estimated
  limits into a message are the fields of \<open>app_rpc\<close>, a parameter.  The polling loop is a recursion
  over the answers the node gives until the abort signal fires.
\<close>

subsection \<open>Messages and limits\<close>

record app_message = v1_message +
  apm_version :: nat

datatype tx_failure = NodeFailed | SigningFailed | NoBlockhashLifetime | Rejected

record app_rpc =
  ar_latestBlockhash :: "(string \<times> nat) option"
  ar_estimate :: "app_message \<Rightarrow> (nat \<times> nat option) option"
  ar_setLimits :: "app_message \<Rightarrow> nat \<Rightarrow> nat option \<Rightarrow> app_message"
  ar_sign :: "app_message \<Rightarrow> signed_transaction option"
  ar_accepts :: "signed_transaction \<Rightarrow> bool"
  ar_signatureOf :: "signed_transaction \<Rightarrow> string"

definition MAX_COMPUTE_UNIT_LIMIT :: nat where "MAX_COMPUTE_UNIT_LIMIT = 1400000"
definition TRANSACTION_VERSION :: nat where "TRANSACTION_VERSION = 1"

definition PROVISIONAL_BLOCKHASH :: "string \<times> nat" where
  "PROVISIONAL_BLOCKHASH = (''11111111111111111111111111111111'', 0)"

definition withComputeMargin :: "nat \<Rightarrow> nat" where
  "withComputeMargin unitsConsumed =
     min MAX_COMPUTE_UNIT_LIMIT (max 1 ((unitsConsumed * COMPUTE_UNIT_ESTIMATE_MARGIN_TENTHS + 9) div 10))"

definition roundUpDataSize :: "nat \<Rightarrow> nat" where
  "roundUpDataSize bs =
     (if bs \<le> 0 then LOADED_ACCOUNTS_PAGE_BYTES
      else (bs + LOADED_ACCOUNTS_PAGE_BYTES - 1) div LOADED_ACCOUNTS_PAGE_BYTES * LOADED_ACCOUNTS_PAGE_BYTES)"

definition estimateAndSetResourceLimits :: "app_rpc \<Rightarrow> app_message \<Rightarrow> tx_failure + app_message" where
  "estimateAndSetResourceLimits R m =
     obind (require NodeFailed (ar_estimate R m)) (\<lambda>(units, loaded).
     Inr (ar_setLimits R m (withComputeMargin units) (map_option roundUpDataSize loaded)))"

subsection \<open>Sending\<close>

definition buildUnsignedTransaction ::
  "app_rpc \<Rightarrow> kit_instruction list \<Rightarrow> address \<Rightarrow> bool option \<Rightarrow> tx_failure + app_message" where
  "buildUnsignedTransaction R instructions feePayer fetchBlockhash =
     obind (if fetchBlockhash = Some False then Inr PROVISIONAL_BLOCKHASH else require NodeFailed (ar_latestBlockhash R))
       (\<lambda>(hash, height).
        Inr \<lparr>vm_feePayer = feePayer, vm_instructions = instructions, vm_lifetime = Some (Blockhash hash height),
             vm_config = no_config, apm_version = (if fetchBlockhash = Some True then TRANSACTION_VERSION else 0)\<rparr>)"

record sent_transaction =
  st_signature :: string
  st_transaction :: signed_transaction

definition signAndSendTransaction :: "app_rpc \<Rightarrow> app_message \<Rightarrow> tx_failure + sent_transaction" where
  "signAndSendTransaction R m =
     obind (require SigningFailed (ar_sign R m)) (\<lambda>tx.
     case sg_lifetime tx of
       Some (Blockhash _ _) \<Rightarrow>
         if ar_accepts R tx then Inr \<lparr>st_signature = ar_signatureOf R tx, st_transaction = tx\<rparr> else Inl Rejected
     | _ \<Rightarrow> Inl NoBlockhashLifetime)"

definition sendTransaction ::
  "app_rpc \<Rightarrow> kit_instruction list \<Rightarrow> address \<Rightarrow> bool option \<Rightarrow> tx_failure + sent_transaction" where
  "sendTransaction R instructions feePayer fetchBlockhash =
     obind (buildUnsignedTransaction R instructions feePayer fetchBlockhash) (\<lambda>unsigned.
     obind (if fetchBlockhash = Some True then estimateAndSetResourceLimits R unsigned else Inr unsigned)
       (signAndSendTransaction R))"

subsection \<open>Confirming\<close>

datatype confirmation = Processed | Confirmed | Finalized

record signature_status =
  ss_err :: bool
  ss_confirmation :: "confirmation option"

text \<open>One pass of the loop: the answers of the node, and the answer to the last check when the block height has expired.\<close>

datatype poll = PollFails | Poll "signature_status option" nat "signature_status option option"

datatype confirm_error = OnChainError | Expired | TimedOut | StatusUnavailable

definition status_ok :: "signature_status option \<Rightarrow> bool" where
  "status_ok s \<longleftrightarrow>
     (case s of None \<Rightarrow> False | Some st \<Rightarrow> ss_confirmation st = Some Confirmed \<or> ss_confirmation st = Some Finalized)"

definition status_failed :: "signature_status option \<Rightarrow> bool" where
  "status_failed s \<longleftrightarrow> (case s of None \<Rightarrow> False | Some st \<Rightarrow> ss_err st)"

text \<open>The end of the list is the moment the abort signal fires.\<close>

fun confirmSignatureByPolling :: "nat \<Rightarrow> poll list \<Rightarrow> confirm_error + unit" where
  "confirmSignatureByPolling lastValidBlockHeight [] = Inl TimedOut"
| "confirmSignatureByPolling lastValidBlockHeight (PollFails # polls) = Inl StatusUnavailable"
| "confirmSignatureByPolling lastValidBlockHeight (Poll status blockHeight again # polls) =
     (if status_failed status then Inl OnChainError
      else if status_ok status then Inr ()
      else if lastValidBlockHeight < blockHeight then
        (case again of
           None \<Rightarrow> Inl StatusUnavailable
         | Some latest \<Rightarrow>
             if status_failed latest then Inl OnChainError else if status_ok latest then Inr () else Inl Expired)
      else confirmSignatureByPolling lastValidBlockHeight polls)"

definition confirmRecentTransaction :: "nat \<Rightarrow> poll list \<Rightarrow> signature_status option option \<Rightarrow> confirm_error + unit" where
  "confirmRecentTransaction lastValidBlockHeight polls net =
     (case confirmSignatureByPolling lastValidBlockHeight polls of
        Inr u \<Rightarrow> Inr u
      | Inl e \<Rightarrow>
          (case net of
             None \<Rightarrow> Inl StatusUnavailable
           | Some status \<Rightarrow>
               if status_failed status then Inl OnChainError else if status_ok status then Inr () else Inl e))"

subsection \<open>Limits and versions\<close>

lemma withComputeMargin_is_withMargin: "withComputeMargin u = withMargin u"
  by (simp add: withComputeMargin_def withMargin_def MAX_COMPUTE_UNIT_LIMIT_def COMPUTE_UNIT_ESTIMATE_MARGIN_TENTHS_def)

lemma roundUpDataSize_is_sdk: "roundUpDataSize b = roundUpLoadedAccountsDataSize b"
  by (simp add: roundUpDataSize_def roundUpLoadedAccountsDataSize_def)

text \<open>Left out, \<open>fetchBlockhash\<close> fetches a blockhash, as documented, but builds a version 0 message without limits.\<close>

lemma default_is_version_0:
  "ar_latestBlockhash R = Some b \<Longrightarrow>
   \<exists>m. buildUnsignedTransaction R ixs payer None = Inr m \<and> apm_version m = 0 \<and> vm_config m = no_config \<and>
     vm_lifetime m = Some (Blockhash (fst b) (snd b)) \<and> sendTransaction R ixs payer None = signAndSendTransaction R m"
  by (cases b) (simp add: buildUnsignedTransaction_def sendTransaction_def require_def)

text \<open>An answer of the node that fails ends the confirmation, although the transaction may still land.\<close>

lemma hiccup_rejects: "confirmRecentTransaction h (PollFails # polls) (Some None) = Inl StatusUnavailable"
  by (simp add: confirmRecentTransaction_def status_ok_def status_failed_def)

lemma polling_result:
  "(case confirmSignatureByPolling h polls of
      Inr _ \<Rightarrow> \<exists>s b a. Poll s b a \<in> set polls \<and> (status_ok s \<or> h < b \<and> (\<exists>l. a = Some l \<and> status_ok l \<and> \<not> status_failed l))
    | Inl Expired \<Rightarrow> \<exists>s b l. Poll s b (Some l) \<in> set polls \<and> h < b \<and> \<not> status_ok s \<and> \<not> status_ok l
    | Inl OnChainError \<Rightarrow> \<exists>s b a. Poll s b a \<in> set polls \<and> (status_failed s \<or> (\<exists>l. a = Some l \<and> status_failed l))
    | Inl _ \<Rightarrow> True)"
proof (induction h polls rule: confirmSignatureByPolling.induct)
  case (3 h status b again polls)
  show ?case
  proof (cases "status_failed status \<or> status_ok status \<or> h < b")
    case True
    then show ?thesis by (auto split: option.splits)
  next
    case False
    with 3 show ?thesis
      by (auto split: sum.splits confirm_error.splits)
  qed
qed simp_all

end
