(* ===== verification/Amounts.thy ===== *)
theory Amounts
  imports ClearSign ApiSession
begin

text \<open>
  The amounts of the web application (\<open>app/src/lib/tokens/amount.ts\<close>): what a person types is
  sanitised, turned into base units and printed back.  The parts of JavaScript's \<open>Number(text)\<close> and
  \<open>BigInt(text)\<close> the code relies on are written out: which texts are numeric literals, what they
  denote, and that a double rounds a value of at most \<open>2 ^ -1075\<close> to zero.
\<close>

subsection \<open>Numeric literals of JavaScript\<close>

definition decimal_digits :: "string \<Rightarrow> nat option" where
  "decimal_digits s = (if s \<noteq> [] \<and> list_all is_digit s then Some (digits_val s) else None)"

definition alnum_val :: "char \<Rightarrow> nat" where
  "alnum_val c =
     (let n = of_char c :: nat in
      if is_digit c then digit_val c
      else if 65 \<le> n \<and> n \<le> 70 then n - 55
      else if 97 \<le> n \<and> n \<le> 102 then n - 87 else 99)"

definition radix_digits :: "nat \<Rightarrow> string \<Rightarrow> nat option" where
  "radix_digits b s =
     (if s \<noteq> [] \<and> list_all (\<lambda>c. alnum_val c < b) s then Some (foldl (\<lambda>n c. b * n + alnum_val c) 0 s) else None)"

definition radix_literal :: "string \<Rightarrow> nat option" where
  "radix_literal s =
     (case s of
        z # x # rest \<Rightarrow>
          if z \<noteq> CHR ''0'' then None
          else if x = CHR ''x'' \<or> x = CHR ''X'' then radix_digits 16 rest
          else if x = CHR ''o'' \<or> x = CHR ''O'' then radix_digits 8 rest
          else if x = CHR ''b'' \<or> x = CHR ''B'' then radix_digits 2 rest
          else None
      | _ \<Rightarrow> None)"

text \<open>\<open>BigInt(text)\<close>; \<open>None\<close>: it throws a \<open>SyntaxError\<close>.\<close>

definition BigInt :: "string \<Rightarrow> int option" where
  "BigInt s =
     (let t = trim s in
      if t = '''' then Some 0
      else case radix_literal t of
        Some n \<Rightarrow> Some (int n)
      | None \<Rightarrow>
          if hd t = CHR ''-'' then map_option (\<lambda>n. - int n) (decimal_digits (tl t))
          else if hd t = CHR ''+'' then map_option int (decimal_digits (tl t))
          else map_option int (decimal_digits t))"

definition mantissa :: "string \<Rightarrow> rat option" where
  "mantissa s =
     (case split_on CHR ''.'' s of
        [w] \<Rightarrow> map_option of_nat (decimal_digits w)
      | [w, f] \<Rightarrow>
          if (w = '''' \<and> f = '''') \<or> \<not> list_all is_digit w \<or> \<not> list_all is_digit f then None
          else Some (of_nat (digits_val w) + of_nat (digits_val f) / 10 ^ length f)
      | _ \<Rightarrow> None)"

definition exponent :: "string \<Rightarrow> int option" where
  "exponent s =
     (case s of
        [] \<Rightarrow> None
      | c # r \<Rightarrow>
          if c = CHR ''-'' then map_option (\<lambda>n. - int n) (decimal_digits r)
          else if c = CHR ''+'' then map_option int (decimal_digits r)
          else map_option int (decimal_digits s))"

definition unsigned_literal :: "string \<Rightarrow> rat option" where
  "unsigned_literal s =
     (let m = takeWhile (\<lambda>c. c \<noteq> CHR ''e'' \<and> c \<noteq> CHR ''E'') s in
      if m = s then mantissa s
      else case (mantissa m, exponent (drop (length m + 1) s)) of
        (Some v, Some e) \<Rightarrow> Some (if 0 \<le> e then v * 10 ^ nat e else v / 10 ^ nat (- e))
      | _ \<Rightarrow> None)"

definition ROUNDS_TO_ZERO :: rat where
  "ROUNDS_TO_ZERO = 1 / 2 ^ 1075"

text \<open>\<open>Number(text) <= 0\<close> for a trimmed text; \<open>NaN <= 0\<close> is false.\<close>

definition number_le_zero :: "string \<Rightarrow> bool" where
  "number_le_zero t =
     (if t = '''' then True
      else case radix_literal t of
        Some n \<Rightarrow> n = 0
      | None \<Rightarrow>
          if hd t = CHR ''-'' then tl t = ''Infinity'' \<or> unsigned_literal (tl t) \<noteq> None
          else (case unsigned_literal (if hd t = CHR ''+'' then tl t else t) of
                  None \<Rightarrow> False
                | Some v \<Rightarrow> v \<le> ROUNDS_TO_ZERO))"

subsection \<open>amount.ts\<close>

datatype amount_error = EnterAmount | TooManyDecimals nat | NotAnInteger

definition formatAmount :: "int \<Rightarrow> nat \<Rightarrow> string" where
  "formatAmount raw decimals =
     (if raw = 0 then ''0''
      else
        let negative = raw < 0;
            abs = (if negative then - raw else raw);
            base = 10 ^ decimals;
            whole = abs div base;
            frac = strip_trailing CHR ''0'' (padStart decimals CHR ''0'' (int_text (abs mod base)));
            formatted = (if 0 < length frac then int_text whole @ ''.'' @ frac else int_text whole)
        in if negative then ''-'' @ formatted else formatted)"

definition sanitizeDecimalInput :: "string \<Rightarrow> string" where
  "sanitizeDecimalInput raw =
     (let cleaned = filter (\<lambda>c. is_digit c \<or> c = CHR ''.'') raw;
          dot = length (takeWhile (\<lambda>c. c \<noteq> CHR ''.'') cleaned) in
      if CHR ''.'' \<notin> set cleaned then cleaned
      else take (dot + 1) cleaned @ filter (\<lambda>c. c \<noteq> CHR ''.'') (drop (dot + 1) cleaned))"

text \<open>\<open>replace(/^0+(?=\d)/, "")\<close>\<close>

fun strip_leading_zeros :: "string \<Rightarrow> string" where
  "strip_leading_zeros (c # d # s) = (if c = CHR ''0'' \<and> is_digit d then strip_leading_zeros (d # s) else c # d # s)"
| "strip_leading_zeros s = s"

definition or_zero :: "string \<Rightarrow> string" where
  "or_zero s = (if s = '''' then ''0'' else s)"

definition uiAmountToRaw :: "string \<Rightarrow> nat \<Rightarrow> amount_error + int" where
  "uiAmountToRaw uiAmount decimals =
     (let trimmed = trim uiAmount; parts = split_on CHR ''.'' trimmed in
      if trimmed = '''' \<or> number_le_zero trimmed \<or> 2 < length parts then Inl EnterAmount
      else
        let whole = hd parts; frac = (case tl parts of f # _ \<Rightarrow> f | [] \<Rightarrow> '''') in
        if decimals < length frac then Inl (TooManyDecimals decimals)
        else
          let padded = frac @ replicate (decimals - length frac) CHR ''0'' in
          case (BigInt (or_zero (strip_leading_zeros whole)), BigInt (or_zero padded)) of
            (Some wholePart, Some fracPart) \<Rightarrow> Inr (wholePart * 10 ^ decimals + fracPart)
          | _ \<Rightarrow> Inl NotAnInteger)"

subsection \<open>Plain decimal texts\<close>

text \<open>The text of a decimal: digits, and a dot with digits behind it when there is a fraction.\<close>

definition amount_text :: "string \<Rightarrow> string option \<Rightarrow> string" where
  "amount_text w f = (case f of None \<Rightarrow> w | Some g \<Rightarrow> w @ CHR ''.'' # g)"

definition plain_ok :: "string \<Rightarrow> string option \<Rightarrow> bool" where
  "plain_ok w f \<longleftrightarrow> list_all is_digit w \<and> pred_option (list_all is_digit) f"

definition plain_frac :: "string option \<Rightarrow> string" where
  "plain_frac f = (case f of None \<Rightarrow> '''' | Some g \<Rightarrow> g)"

lemma digit_not_special:
  "is_digit c \<Longrightarrow> c \<noteq> CHR ''.'' \<and> c \<noteq> CHR ''-'' \<and> c \<noteq> CHR ''+'' \<and> c \<noteq> CHR ''e'' \<and> c \<noteq> CHR ''E'' \<and> \<not> is_space c"
  by (auto simp: is_digit_def is_space_def)

lemma digit_not_radix: "is_digit c \<Longrightarrow> c \<notin> {CHR ''x'', CHR ''X'', CHR ''o'', CHR ''O'', CHR ''b'', CHR ''B''}"
  by (auto simp: is_digit_def)

lemma plain_chars:
  assumes "plain_ok w f" "c \<in> set (amount_text w f)"
  shows "is_digit c \<or> c = CHR ''.''"
  using assms by (auto simp: plain_ok_def amount_text_def list_all_iff split: option.splits)

lemma trim_spaceless: "(\<forall>c \<in> set s. \<not> is_space c) \<Longrightarrow> trim s = s"
  by (cases "s = []") (auto intro: trim_id)

lemma trim_plain [simp]: "plain_ok w f \<Longrightarrow> trim (amount_text w f) = amount_text w f"
  by (rule trim_spaceless) (auto dest!: plain_chars dest: digit_not_special simp: is_space_def)

lemma trim_digits [simp]: "list_all is_digit w \<Longrightarrow> trim w = w"
  using trim_plain [of w None] by (simp add: plain_ok_def amount_text_def)

lemma no_dot_digits: "list_all is_digit w \<Longrightarrow> CHR ''.'' \<notin> set w"
  by (auto simp: list_all_iff is_digit_def)

lemma split_plain: "plain_ok w f \<Longrightarrow>
    split_on CHR ''.'' (amount_text w f) = (case f of None \<Rightarrow> [w] | Some g \<Rightarrow> [w, g])"
  using split_on_append [of "CHR ''.''" "the f" w]
  by (auto simp: plain_ok_def amount_text_def split_on_none no_dot_digits split: option.splits)

lemma radix_literal_plain: "plain_ok w f \<Longrightarrow> radix_literal (amount_text w f) = None"
proof -
  assume "plain_ok w f"
  then have "\<forall>c \<in> set (amount_text w f). c \<notin> {CHR ''x'', CHR ''X'', CHR ''o'', CHR ''O'', CHR ''b'', CHR ''B''}"
    by (auto dest!: plain_chars dest: digit_not_radix)
  then show ?thesis by (auto simp: radix_literal_def split: list.splits)
qed

definition plain_val :: "string \<Rightarrow> string option \<Rightarrow> rat" where
  "plain_val w f = of_nat (digits_val w) + of_nat (digits_val (plain_frac f)) / 10 ^ length (plain_frac f)"

lemma decimal_value_plain: "plain_ok w f \<Longrightarrow> decimal_value (amount_text w f) = plain_val w f"
proof -
  assume ok: "plain_ok w f"
  show ?thesis
  proof (cases "w = []")
    case True
    then show ?thesis
      by (cases f) (simp_all add: amount_text_def plain_val_def plain_frac_def decimal_value_def Let_def digits_val_simps(1))
  next
    case False
    with ok show ?thesis
      by (cases f) (simp_all add: plain_ok_def amount_text_def plain_val_def plain_frac_def decimal_value_whole
        decimal_value_frac digits_val_simps(1))
  qed
qed

lemma mantissa_plain:
  "plain_ok w f \<Longrightarrow> mantissa (amount_text w f) = (if w = '''' \<and> plain_frac f = '''' then None else Some (plain_val w f))"
  by (cases f) (auto simp: mantissa_def split_plain plain_ok_def decimal_digits_def plain_val_def plain_frac_def)

lemma unsigned_plain: "plain_ok w f \<Longrightarrow> unsigned_literal (amount_text w f) = mantissa (amount_text w f)"
proof -
  assume "plain_ok w f"
  then have "takeWhile (\<lambda>c. c \<noteq> CHR ''e'' \<and> c \<noteq> CHR ''E'') (amount_text w f) = amount_text w f"
    by (intro takeWhile_eq_all_conv [THEN iffD2] ballI) (auto dest!: plain_chars dest: digit_not_special)
  then show ?thesis by (simp add: unsigned_literal_def)
qed

lemma number_plain:
  assumes "plain_ok w f" "amount_text w f \<noteq> ''''"
  shows "number_le_zero (amount_text w f) \<longleftrightarrow> (w \<noteq> '''' \<or> plain_frac f \<noteq> '''') \<and> plain_val w f \<le> ROUNDS_TO_ZERO"
proof -
  have "hd (amount_text w f) \<in> set (amount_text w f)" using assms(2) by simp
  from plain_chars [OF assms(1) this] have "hd (amount_text w f) \<noteq> CHR ''-''" "hd (amount_text w f) \<noteq> CHR ''+''"
    by (auto dest: digit_not_special)
  with assms show ?thesis
    by (simp add: number_le_zero_def radix_literal_plain unsigned_plain mantissa_plain)
qed

lemma BigInt_digits: "list_all is_digit s \<Longrightarrow> BigInt s = Some (int (digits_val s))"
proof -
  assume s: "list_all is_digit s"
  have "hd s \<noteq> CHR ''-'' \<and> hd s \<noteq> CHR ''+''" if "s \<noteq> ''''" using s that by (cases s) (auto dest: digit_not_special)
  with s radix_literal_plain [of s None] show ?thesis
    by (auto simp: BigInt_def Let_def plain_ok_def amount_text_def decimal_digits_def)
qed

lemma strip_leading_zeros_digits: "list_all is_digit s \<Longrightarrow> list_all is_digit (strip_leading_zeros s) \<and> digits_val (strip_leading_zeros s) = digits_val s"
  by (induction s rule: strip_leading_zeros.induct) (auto simp: digits_val_def digit_val_def)

lemma digits_val_pad: "digits_val (f @ replicate k CHR ''0'') = digits_val f * 10 ^ k"
  by (simp add: digits_val_append digits_val_zeros)

lemma BigInt_or_zero: "list_all is_digit s \<Longrightarrow> BigInt (or_zero s) = Some (int (digits_val s))"
  by (cases "s = ''''") (simp_all add: or_zero_def BigInt_digits is_digit_def digits_val_def digit_val_def)

lemma raw_plain:
  assumes "plain_ok w f" "amount_text w f \<noteq> ''''"
  shows "uiAmountToRaw (amount_text w f) d =
    (if number_le_zero (amount_text w f) then Inl EnterAmount
     else if d < length (plain_frac f) then Inl (TooManyDecimals d)
     else Inr (int (digits_val w * 10 ^ d + digits_val (plain_frac f) * 10 ^ (d - length (plain_frac f)))))"
proof -
  have digits: "list_all is_digit w" "list_all is_digit (plain_frac f @ replicate k CHR ''0'')" for k
    using assms(1) by (auto simp: plain_ok_def plain_frac_def list_all_iff is_digit_def split: option.splits)
  have whole: "BigInt (or_zero (strip_leading_zeros w)) = Some (int (digits_val w))"
    using strip_leading_zeros_digits [OF digits(1)] BigInt_or_zero by simp
  have frac: "BigInt (or_zero (plain_frac f @ replicate k CHR ''0'')) = Some (int (digits_val (plain_frac f) * 10 ^ k))" for k
    unfolding BigInt_or_zero [OF digits(2)] by (simp add: digits_val_pad)
  have parts: "hd (split_on CHR ''.'' (amount_text w f)) = w"
    "(case tl (split_on CHR ''.'' (amount_text w f)) of g # _ \<Rightarrow> g | [] \<Rightarrow> '''') = plain_frac f"
    "length (split_on CHR ''.'' (amount_text w f)) \<le> 2"
    by (simp_all add: split_plain [OF assms(1)] plain_frac_def split: option.splits)
  show ?thesis
    unfolding uiAmountToRaw_def Let_def trim_plain [OF assms(1)] parts(1,2) whole frac using parts(3) assms(2) by simp
qed

lemma in_set_tl: "x \<in> set (tl xs) \<Longrightarrow> x \<in> set xs"
  by (cases xs) auto

lemma sanitize_plain: "\<exists>w f. plain_ok w f \<and> sanitizeDecimalInput s = amount_text w f"
proof -
  define c where "c = filter (\<lambda>x. is_digit x \<or> x = CHR ''.'') s"
  let ?w = "takeWhile (\<lambda>x. x \<noteq> CHR ''.'') c" and ?r = "dropWhile (\<lambda>x. x \<noteq> CHR ''.'') c"
  let ?g = "filter (\<lambda>x. x \<noteq> CHR ''.'') (tl ?r)"
  have chars: "\<forall>x \<in> set c. is_digit x \<or> x = CHR ''.''" by (simp add: c_def)
  have w: "list_all is_digit ?w"
    unfolding list_all_iff
  proof
    fix x assume "x \<in> set ?w"
    then have "x \<in> set c \<and> x \<noteq> CHR ''.''" by (rule set_takeWhileD)
    with chars show "is_digit x" by blast
  qed
  have "x \<in> set c" if "x \<in> set (tl ?r)" for x
    using set_dropWhileD [OF in_set_tl [OF that]] .
  with chars have g: "list_all is_digit ?g" unfolding list_all_iff set_filter by blast
  show ?thesis
  proof (cases "CHR ''.'' \<in> set c")
    case True
    then have "?r \<noteq> []" by (auto simp: dropWhile_eq_Nil_conv)
    moreover have "hd ?r = CHR ''.''" using hd_dropWhile [OF calculation] by simp
    ultimately have r: "?r = CHR ''.'' # tl ?r" by (metis list.collapse)
    have split: "c = (?w @ [CHR ''.'']) @ tl ?r" using takeWhile_dropWhile_id [of "\<lambda>x. x \<noteq> CHR ''.''" c] r by simp
    then have "take (length ?w + 1) c = ?w @ [CHR ''.'']" "drop (length ?w + 1) c = tl ?r"
      using append_eq_conv_conj [of "?w @ [CHR ''.'']" "tl ?r" c] by simp_all
    with True have "sanitizeDecimalInput s = amount_text ?w (Some ?g)"
      by (simp add: sanitizeDecimalInput_def Let_def amount_text_def flip: c_def)
    with w g show ?thesis by (intro exI [of _ ?w] exI [of _ "Some ?g"]) (simp add: plain_ok_def)
  next
    case False
    then have "sanitizeDecimalInput s = amount_text c None" by (simp add: sanitizeDecimalInput_def Let_def amount_text_def flip: c_def)
    moreover have "plain_ok c None" using False chars by (auto simp: plain_ok_def list_all_iff)
    ultimately show ?thesis by blast
  qed
qed

lemma ROUNDS_TO_ZERO_pos: "0 < ROUNDS_TO_ZERO"
  by (simp only: ROUNDS_TO_ZERO_def) simp

lemma ROUNDS_TO_ZERO_less: "d \<le> 323 \<Longrightarrow> ROUNDS_TO_ZERO < 1 / 10 ^ d"
proof -
  assume "d \<le> 323"
  then have "(10::rat) ^ d \<le> 10 ^ 323" by (intro power_increasing) simp_all
  also have "\<dots> < 2 ^ 1075" by simp
  finally show ?thesis unfolding ROUNDS_TO_ZERO_def by (intro divide_strict_left_mono) simp_all
qed

lemma plain_scaled:
  assumes "length (plain_frac f) \<le> d"
  shows "rat_of_nat (digits_val w * 10 ^ d + digits_val (plain_frac f) * 10 ^ (d - length (plain_frac f))) = plain_val w f * 10 ^ d"
proof -
  have "(10::rat) ^ d = 10 ^ (d - length (plain_frac f)) * 10 ^ length (plain_frac f)"
    using assms by (simp flip: power_add)
  then show ?thesis by (simp add: plain_val_def distrib_right)
qed

text \<open>A plain text with few enough decimals is refused exactly when it denotes zero.\<close>

lemma number_small:
  assumes "plain_ok w f" "amount_text w f \<noteq> ''''" "length (plain_frac f) \<le> d" "d \<le> 323"
  shows "number_le_zero (amount_text w f) \<longleftrightarrow> amount_text w f \<noteq> ''.'' \<and> plain_val w f = 0"
proof -
  have big: "ROUNDS_TO_ZERO < plain_val w f" if "plain_val w f \<noteq> 0"
  proof -
    let ?n = "digits_val w * 10 ^ d + digits_val (plain_frac f) * 10 ^ (d - length (plain_frac f))"
    have "rat_of_nat ?n = plain_val w f * 10 ^ d" by (rule plain_scaled [OF assms(3)])
    with that have "rat_of_nat ?n \<noteq> 0" by simp
    then have "1 \<le> ?n" using of_nat_eq_0_iff by (metis less_one linorder_not_less)
    then have "(1::rat) \<le> of_nat ?n" by (metis of_nat_1 of_nat_le_iff)
    with \<open>rat_of_nat ?n = plain_val w f * 10 ^ d\<close> have "1 / 10 ^ d \<le> plain_val w f" by (simp add: divide_le_eq)
    moreover note ROUNDS_TO_ZERO_less [OF assms(4)]
    ultimately show ?thesis by linarith
  qed
  have dot: "w = '''' \<and> plain_frac f = '''' \<longleftrightarrow> amount_text w f = ''.''"
    using assms(1,2) by (cases f) (auto simp: amount_text_def plain_frac_def plain_ok_def is_digit_def append_eq_Cons_conv)
  show ?thesis
  proof (cases "plain_val w f = 0")
    case True
    with ROUNDS_TO_ZERO_pos dot show ?thesis by (simp add: number_plain [OF assms(1,2)]) blast
  next
    case False
    with big show ?thesis by (simp add: number_plain [OF assms(1,2)])
  qed
qed

lemma raw_exact_core:
  assumes "d \<le> 323" "uiAmountToRaw (sanitizeDecimalInput s) d = Inr r"
  shows "of_int r = decimal_value (sanitizeDecimalInput s) * 10 ^ d \<and> 0 \<le> r \<and> (r = 0 \<longleftrightarrow> sanitizeDecimalInput s = ''.'')"
proof -
  obtain w f where t: "plain_ok w f" "sanitizeDecimalInput s = amount_text w f" using sanitize_plain by metis
  have ne: "amount_text w f \<noteq> ''''" using assms(2) t(2) by (auto simp: uiAmountToRaw_def trim_def)
  note raw = assms(2) [unfolded t(2) raw_plain [OF t(1) ne]]
  then have len: "length (plain_frac f) \<le> d" and num: "\<not> number_le_zero (amount_text w f)"
    and r: "r = int (digits_val w * 10 ^ d + digits_val (plain_frac f) * 10 ^ (d - length (plain_frac f)))"
    by (simp_all split: if_splits)
  have v: "of_int r = plain_val w f * 10 ^ d" using plain_scaled [OF len, of w] r by simp
  moreover have "r = 0 \<longleftrightarrow> plain_val w f = 0" using v by (metis mult_eq_0_iff of_int_eq_0_iff power_not_zero zero_neq_numeral)
  moreover have "plain_val w f = 0" if "amount_text w f = ''.''"
    using that t(1) by (cases f) (auto simp: amount_text_def plain_val_def plain_frac_def plain_ok_def append_eq_Cons_conv
      digits_val_def is_digit_def)
  ultimately show ?thesis
    using num number_small [OF t(1) ne len assms(1)] r decimal_value_plain [OF t(1)] t(2) by auto
qed

text \<open>The web application and the signer print an amount the same way.\<close>

lemma formatAmount_is_formatUnits: "formatAmount raw d = formatUnits raw d"
proof -
  have "digit_char 0 = CHR ''0''" by code_simp
  then have zero: "int_text 0 = ''0''" by (simp add: int_text_def nat_text.simps [of 0])
  have "strip_trailing CHR ''0'' (padStart d CHR ''0'' ''0'') = ''''" for d
    by (simp add: strip_trailing_def padStart_def)
  with zero show ?thesis by (auto simp: formatAmount_def formatUnits_def Let_def int_text_def)
qed

lemma strip_trailing_digits: "list_all is_digit s \<Longrightarrow> list_all is_digit (strip_trailing c s) \<and> length (strip_trailing c s) \<le> length s"
  using strip_trailing_split [of s c] by (metis le_add1 length_append list_all_append)

text \<open>What is printed for a positive amount is a plain text with at most the decimals of the token.\<close>

lemma formatAmount_plain:
  assumes "0 < n"
  obtains w f where "formatAmount n d = amount_text w f" "plain_ok w f" "length (plain_frac f) \<le> d" "w \<noteq> ''''"
proof -
  let ?w = "nat_text (nat (n div 10 ^ d))"
  let ?g = "strip_trailing CHR ''0'' (padStart d CHR ''0'' (nat_text (nat (n mod 10 ^ d))))"
  have g: "list_all is_digit (padStart d CHR ''0'' (nat_text (nat (n mod 10 ^ d))))"
    using nat_text_digits [of "nat (n mod 10 ^ d)"] digits_val_zeros by (auto simp: padStart_def list_all_iff is_digit_def)
  have eq: "formatAmount n d = amount_text ?w (if ?g = '''' then None else Some ?g)"
    using assms by (simp add: formatAmount_def Let_def amount_text_def int_text_nonneg pos_imp_zdiv_nonneg_iff)
  have len: "length ?g \<le> d"
  proof (cases "d = 0")
    case True
    have "digit_char 0 = CHR ''0''" by code_simp
    with True show ?thesis by (simp add: strip_trailing_def padStart_def nat_text.simps [of 0])
  next
    case False
    have "nat (n mod 10 ^ d) < 10 ^ d" by (simp add: nat_less_iff)
    from nat_text_length [OF this] False have "length (nat_text (nat (n mod 10 ^ d))) \<le> d" by simp
    then show ?thesis using strip_trailing_digits [OF g, of "CHR ''0''"] by (simp add: padStart_def)
  qed
  show thesis
    by (rule that [OF eq])
      (use len strip_trailing_digits [OF g, of "CHR ''0''"] nat_text_digits in \<open>auto simp: plain_ok_def plain_frac_def\<close>)
qed

lemma raw_format_core:
  assumes "0 < n" "d \<le> 323"
  shows "uiAmountToRaw (formatAmount n d) d = Inr n"
proof -
  obtain w f where t: "formatAmount n d = amount_text w f" "plain_ok w f" "length (plain_frac f) \<le> d" "w \<noteq> ''''"
    using formatAmount_plain [OF assms(1)] by metis
  have ne: "amount_text w f \<noteq> ''''" using t(4) by (cases f) (simp_all add: amount_text_def)
  have v: "plain_val w f = of_int n / 10 ^ d"
    using decimal_value_plain [OF t(2)] t(1) formatUnits_value [of n d] by (simp add: formatAmount_is_formatUnits)
  with number_small [OF t(2) ne t(3) assms(2)] assms(1) have "\<not> number_le_zero (amount_text w f)" by simp
  moreover from v plain_scaled [OF t(3), of w] have
    "(of_int n :: rat) = of_nat (digits_val w * 10 ^ d + digits_val (plain_frac f) * 10 ^ (d - length (plain_frac f)))" by simp
  then have "n = int (digits_val w * 10 ^ d + digits_val (plain_frac f) * 10 ^ (d - length (plain_frac f)))"
    by (metis of_int_eq_iff of_int_of_nat_eq)
  ultimately show ?thesis using raw_plain [OF t(2) ne, of d] t(1,3) by simp
qed

text \<open>
  C29: An amount is what was typed.  Whatever is typed into the amount field, an accepted amount in base
  units is exactly the value of the text on screen times ten to the decimals of the token; it is never
  negative, and it is zero exactly for the text that is a lone dot.  Every positive amount can be
  entered: the text the application prints for it is accepted as that amount.
\<close>
theorem typed_amounts_are_exact:
  assumes "d < 256"
  shows "(case uiAmountToRaw (sanitizeDecimalInput s) d of
      Inl e \<Rightarrow> e \<noteq> NotAnInteger
    | Inr r \<Rightarrow> of_int r = decimal_value (sanitizeDecimalInput s) * 10 ^ d \<and> 0 \<le> r \<and>
        (r = 0 \<longleftrightarrow> sanitizeDecimalInput s = ''.'')) \<and>
    uiAmountToRaw (formatAmount (1 + int n) d) d = Inr (1 + int n)"
proof (intro conjI)
  show "uiAmountToRaw (formatAmount (1 + int n) d) d = Inr (1 + int n)" using assms by (intro raw_format_core) auto
  obtain w f where t: "plain_ok w f" "sanitizeDecimalInput s = amount_text w f" using sanitize_plain by metis
  have "uiAmountToRaw (sanitizeDecimalInput s) d \<noteq> Inl NotAnInteger"
    by (cases "amount_text w f = ''''") (simp add: t(2) uiAmountToRaw_def trim_def, simp add: t(2) raw_plain [OF t(1)])
  with raw_exact_core [of d s] assms show "case uiAmountToRaw (sanitizeDecimalInput s) d of
      Inl e \<Rightarrow> e \<noteq> NotAnInteger
    | Inr r \<Rightarrow> of_int r = decimal_value (sanitizeDecimalInput s) * 10 ^ d \<and> 0 \<le> r \<and>
        (r = 0 \<longleftrightarrow> sanitizeDecimalInput s = ''.'')"
    by (auto split: sum.splits)
qed

theorem typed_amounts_are_exact_witness:
  "uiAmountToRaw (formatAmount 1050000000 9) 9 = Inr 1050000000"
  using typed_amounts_are_exact [of 9 "''.''" 1049999999] by simp

text \<open>A lone dot is an accepted amount; a text that was not sanitised may be read in another base.\<close>

lemma lone_dot_is_zero: "uiAmountToRaw ''.'' d = Inr 0"
proof -
  have dot: "amount_text '''' (Some '''') = ''.''" "plain_ok '''' (Some '''')" by (simp_all add: amount_text_def plain_ok_def)
  with number_plain [OF dot(2)] raw_plain [OF dot(2), of d] show ?thesis
    by (simp add: plain_frac_def digits_val_def)
qed

lemma hexadecimal_amount: "uiAmountToRaw ''0x10'' 0 = Inr 16"
proof -
  have "trim ''0x10'' = ''0x10''" "radix_literal ''0x10'' = Some 16" "split_on CHR ''.'' ''0x10'' = [''0x10'']"
    "BigInt (or_zero (strip_leading_zeros ''0x10'')) = Some 16" "BigInt (or_zero '''') = Some 0" by code_simp+
  then show ?thesis by (simp add: uiAmountToRaw_def number_le_zero_def)
qed

end
