(* ===== verification/AppSend.thy ===== *)
theory AppSend
  imports AppTx Amounts
begin

text \<open>
  How the web application sends an asset (\<open>app/src/lib/wallet/send-asset.ts\<close>, \<open>send-asset-ref.ts\<close>,
  \<open>transfers/\<close>, \<open>send-via-authority.ts\<close>, \<open>recipient-ata-funding.ts\<close>, \<open>top-up-fee-balance.ts\<close> and
  \<open>tokens/payment-token.ts\<close>).  The instruction builders of the third-party program clients, the
  derived addresses of their accounts and the answers of the RPC node are the fields of \<open>send_kit\<close>,
  a parameter; an \<open>option\<close> is a call that can throw.  The theorem at the end follows a transfer from the
  amount that is typed to the row the signer displays.
\<close>

subsection \<open>Assets\<close>

datatype send_kind = Native | Fungible | Nft | Pnft | Cnft | Core

definition NATIVE_SOL_TOKEN_PROGRAM :: string where "NATIVE_SOL_TOKEN_PROGRAM = ''native''"
definition APP_SOL_MINT :: string where "APP_SOL_MINT = ''So11111111111111111111111111111111111111112''"

record send_asset =
  sa_kind :: send_kind
  sa_mint :: string
  sa_decimals :: nat
  sa_tokenProgram :: "string option"

record holding =
  ho_mint :: string
  ho_symbol :: string
  ho_name :: string
  ho_icon :: "string option"
  ho_decimals :: nat
  ho_tokenProgram :: "string option"
  ho_balanceRaw :: string
  ho_balanceUi :: string
  ho_price :: "rat option"
  ho_valueUsd :: "rat option"

record collectible =
  co_mint :: string
  co_name :: string
  co_image :: "string option"
  co_collectionName :: "string option"
  co_interface :: string
  co_compressed :: bool
  co_tokenProgram :: "string option"

record send_asset_ref = send_asset +
  sr_symbol :: string
  sr_name :: string
  sr_icon :: "string option"

definition isCollectibleSendKind :: "send_kind \<Rightarrow> bool" where
  "isCollectibleSendKind k \<longleftrightarrow> k = Nft \<or> k = Pnft \<or> k = Cnft \<or> k = Core"

definition holdingToSendKind :: "string option \<Rightarrow> send_kind" where
  "holdingToSendKind program = (if program = Some NATIVE_SOL_TOKEN_PROGRAM then Native else Fungible)"

definition collectibleToSendKind :: "string \<Rightarrow> bool \<Rightarrow> send_kind" where
  "collectibleToSendKind interface compressed =
     (if compressed then Cnft
      else if interface = ''ProgrammableNFT'' then Pnft
      else if interface = ''MplCoreAsset'' then Core
      else Nft)"

definition holdingToSendAsset :: "holding \<Rightarrow> send_asset_ref" where
  "holdingToSendAsset h =
     \<lparr>sa_kind = holdingToSendKind (ho_tokenProgram h), sa_mint = ho_mint h, sa_decimals = ho_decimals h,
      sa_tokenProgram = ho_tokenProgram h, sr_symbol = ho_symbol h, sr_name = ho_name h, sr_icon = ho_icon h\<rparr>"

definition collectibleToSendAsset :: "collectible \<Rightarrow> send_asset_ref" where
  "collectibleToSendAsset c =
     \<lparr>sa_kind = collectibleToSendKind (co_interface c) (co_compressed c), sa_mint = co_mint c, sa_decimals = 0,
      sa_tokenProgram = co_tokenProgram c, sr_symbol = co_name c, sr_name = co_name c, sr_icon = co_image c\<rparr>"

definition collectibleInterfaceLabel :: "string \<Rightarrow> bool \<Rightarrow> string" where
  "collectibleInterfaceLabel interface compressed =
     (case collectibleToSendKind interface compressed of
        Cnft \<Rightarrow> ''cNFT'' | Pnft \<Rightarrow> ''pNFT'' | Core \<Rightarrow> ''Core'' | _ \<Rightarrow> ''NFT'')"

subsection \<open>Token programs\<close>

definition isNativeSolHolding :: "holding \<Rightarrow> bool" where
  "isNativeSolHolding h \<longleftrightarrow> ho_tokenProgram h = Some NATIVE_SOL_TOKEN_PROGRAM"

definition nativeSolHolding :: "int \<Rightarrow> string \<Rightarrow> rat option \<Rightarrow> rat option \<Rightarrow> holding" where
  "nativeSolHolding balanceRaw balanceUi price usd =
     \<lparr>ho_mint = APP_SOL_MINT, ho_symbol = ''SOL'', ho_name = ''Solana'', ho_icon = Some ''/tokens/sol.png'',
      ho_decimals = 9, ho_tokenProgram = Some NATIVE_SOL_TOKEN_PROGRAM, ho_balanceRaw = int_text balanceRaw,
      ho_balanceUi = balanceUi, ho_price = price, ho_valueUsd = usd\<rparr>"

text \<open>\<open>usdcMint\<close> is the mint \<open>getUsdcMint()\<close> gives.\<close>

definition resolveTokenIconSrc :: "string \<Rightarrow> string \<Rightarrow> string option \<Rightarrow> string option" where
  "resolveTokenIconSrc usdcMint mint icon =
     (if mint = APP_SOL_MINT then Some ''/tokens/sol.png''
      else if mint = usdcMint then Some ''/tokens/usdc.png''
      else case icon of None \<Rightarrow> None | Some i \<Rightarrow> if trim i = '''' then None else Some (trim i))"

definition is_classic_program :: "string option \<Rightarrow> bool" where
  "is_classic_program program \<longleftrightarrow> program = Some TOKEN"

definition isToken2022Program :: "string option \<Rightarrow> bool" where
  "isToken2022Program program \<longleftrightarrow> program = Some TOKEN_2022"

definition isSupportedTokenProgram :: "string option \<Rightarrow> bool" where
  "isSupportedTokenProgram program \<longleftrightarrow> is_classic_program program \<or> isToken2022Program program"

datatype send_error =
    InvalidAddress
  | BadAmount amount_error
  | MissingTokenProgram
  | NoMetadata
  | UnexpectedEncoding
  | NotCompressed
  | EmptyProof
  | NotOwned
  | MissingLeafId
  | MissingHashes
  | NoAsset
  | BuilderFailed
  | RpcUnavailable
  | NotConfigured
  | NotPositive
  | NotLinked
  | NotCompiled
  | NoFeePayer
  | NoAuthorityAccount
  | TapFailed
  | AccessoryMismatch
  | TxFailed tx_failure

definition requireSupportedTokenProgram :: "string option \<Rightarrow> send_error + address" where
  "requireSupportedTokenProgram program =
     (if isToken2022Program program then Inr TOKEN_2022
      else if is_classic_program program then Inr TOKEN
      else Inl MissingTokenProgram)"

subsection \<open>What is not part of the repository\<close>

record das_asset =
  da_id :: "string option"
  da_compressed :: "bool option"
  da_leaf_id :: "nat option"
  da_data_hash :: "string option"
  da_creator_hash :: "string option"
  da_owner :: "string option"
  da_delegate :: "string option"
  da_grouping :: "(string \<times> string option) list"

record das_proof =
  dp_root :: string
  dp_tree_id :: string
  dp_proof :: "string list"

text \<open>The data of an account in an answer of the RPC node: a text, a pair that starts with one, or something else.\<close>

datatype account_text = TextOnly string | Tagged "string option" | Structured

datatype programmable_config = ConfigV1 "address option" | OtherConfig

record pnft_transfer =
  pn_mint :: address
  pn_tokenOwner :: address
  pn_destinationOwner :: address
  pn_token :: address
  pn_destinationToken :: address
  pn_metadata :: address
  pn_edition :: address
  pn_tokenRecord :: address
  pn_destinationTokenRecord :: address
  pn_authority :: address
  pn_payer :: address
  pn_splTokenProgram :: address
  pn_amount :: int
  pn_rulesProgram :: address
  pn_rules :: "address option"

record cnft_transfer =
  cn_leafOwner :: address
  cn_leafDelegate :: address
  cn_newLeafOwner :: address
  cn_merkleTree :: address
  cn_root :: bytes
  cn_dataHash :: bytes
  cn_creatorHash :: bytes
  cn_nonce :: nat
  cn_index :: nat

text \<open>The Bubblegum transfer the client builds: three named accounts, then the others.\<close>

record cnft_base =
  cb_program :: address
  cb_data :: bytes
  cb_treeAuthority :: account_meta
  cb_leafOwner :: account_meta
  cb_leafDelegate :: account_meta
  cb_rest :: "account_meta list"

record core_transfer =
  ct_asset :: address
  ct_collection :: "address option"
  ct_payer :: address
  ct_authority :: address
  ct_newOwner :: address
  ct_systemProgram :: address
  ct_logWrapper :: address

record send_kit =
  sk_transferSol :: "address \<Rightarrow> address \<Rightarrow> int \<Rightarrow> kit_instruction option"
  sk_findAta :: "address \<Rightarrow> address \<Rightarrow> address \<Rightarrow> address"
  sk_createAta :: "address \<Rightarrow> address \<Rightarrow> address \<Rightarrow> address \<Rightarrow> address \<Rightarrow> kit_instruction"
  sk_transferChecked :: "address \<Rightarrow> address \<Rightarrow> address \<Rightarrow> address \<Rightarrow> int \<Rightarrow> nat \<Rightarrow> kit_instruction option"
  sk_transferChecked2022 :: "address \<Rightarrow> address \<Rightarrow> address \<Rightarrow> address \<Rightarrow> int \<Rightarrow> nat \<Rightarrow> kit_instruction option"
  sk_metadataPda :: "address \<Rightarrow> address"
  sk_masterEditionPda :: "address \<Rightarrow> address"
  sk_tokenRecordPda :: "address \<Rightarrow> address \<Rightarrow> address"
  sk_accountInfo :: "address \<Rightarrow> account_text option option"
  sk_metadata :: "string \<Rightarrow> programmable_config option option"
  sk_transferPnft :: "pnft_transfer \<Rightarrow> kit_instruction option"
  sk_batch :: "string \<Rightarrow> (das_asset option \<times> das_proof option) option"
  sk_transferCnft :: "cnft_transfer \<Rightarrow> cnft_base option"
  sk_asset :: "string \<Rightarrow> string + das_asset option"
  sk_transferCore :: "core_transfer \<Rightarrow> kit_instruction option"
  sk_rentFor :: "nat \<Rightarrow> int option"
  sk_accountExists :: "address \<Rightarrow> bool option"

subsection \<open>The transfers\<close>

text \<open>\<open>address(text)\<close>\<close>

definition to_address :: "std_kit \<Rightarrow> string \<Rightarrow> send_error + address" where
  "to_address K a = (if sw_isAddress K a then Inr a else Inl InvalidAddress)"

definition raw_amount :: "string \<Rightarrow> nat \<Rightarrow> send_error + int" where
  "raw_amount text decimals = map_sum BadAmount (\<lambda>r. r) (uiAmountToRaw text decimals)"

definition buildSplTransfer ::
  "std_kit \<Rightarrow> send_kit \<Rightarrow> string \<Rightarrow> nat \<Rightarrow> string option \<Rightarrow> string \<Rightarrow> address \<Rightarrow> address \<Rightarrow> send_error + kit_instruction list" where
  "buildSplTransfer K S mintText decimals program amountUi walletPda recipient =
     obind (to_address K mintText) (\<lambda>mint.
     obind (raw_amount amountUi decimals) (\<lambda>raw.
     obind (requireSupportedTokenProgram program) (\<lambda>tokenProgram.
       let sourceAta = sk_findAta S mint walletPda tokenProgram;
           destAta = sk_findAta S mint recipient tokenProgram;
           createAta = sk_createAta S walletPda destAta recipient mint tokenProgram;
           transfer = (if isToken2022Program (Some tokenProgram) then sk_transferChecked2022 S else sk_transferChecked S)
       in obind (require BuilderFailed (transfer sourceAta mint destAta walletPda raw decimals)) (\<lambda>t.
          Inr [createAta, t]))))"

definition AUTH_RULES_PROGRAM :: address where "AUTH_RULES_PROGRAM = ''auth9SigNpDKz4sJJ1DfCTuZrZNSAgh9sFD3rboVmgg''"

definition metadata_text :: "account_text option \<Rightarrow> send_error + string" where
  "metadata_text a =
     (case a of
        None \<Rightarrow> Inl NoMetadata
      | Some (TextOnly t) \<Rightarrow> if t = '''' then Inl NoMetadata else Inr t
      | Some (Tagged (Some t)) \<Rightarrow> Inr t
      | Some (Tagged None) \<Rightarrow> Inl UnexpectedEncoding
      | Some Structured \<Rightarrow> Inl UnexpectedEncoding)"

definition buildPnftTransferInstructions ::
  "send_kit \<Rightarrow> address \<Rightarrow> address \<Rightarrow> address \<Rightarrow> address \<Rightarrow> address \<Rightarrow> send_error + kit_instruction list" where
  "buildPnftTransferInstructions S mint owner authority recipient tokenProgram =
     (let ownerAta = sk_findAta S mint owner tokenProgram;
          recipientAta = sk_findAta S mint recipient tokenProgram;
          metadataPda = sk_metadataPda S mint in
      obind (require RpcUnavailable (sk_accountInfo S metadataPda)) (\<lambda>info.
      obind (metadata_text info) (\<lambda>raw.
      obind (require BuilderFailed (sk_metadata S raw)) (\<lambda>config.
      let rules = (case config of Some (ConfigV1 ruleSet) \<Rightarrow> ruleSet | _ \<Rightarrow> None);
          createAta = sk_createAta S authority recipientAta recipient mint tokenProgram in
      obind (require BuilderFailed (sk_transferPnft S
        \<lparr>pn_mint = mint, pn_tokenOwner = owner, pn_destinationOwner = recipient, pn_token = ownerAta,
         pn_destinationToken = recipientAta, pn_metadata = metadataPda, pn_edition = sk_masterEditionPda S mint,
         pn_tokenRecord = sk_tokenRecordPda S mint ownerAta, pn_destinationTokenRecord = sk_tokenRecordPda S mint recipientAta,
         pn_authority = authority, pn_payer = authority, pn_splTokenProgram = tokenProgram, pn_amount = 1,
         pn_rulesProgram = AUTH_RULES_PROGRAM, pn_rules = rules\<rparr>)) (\<lambda>t.
      Inr [createAta, t])))))"

text \<open>\<open>getAsset\<close> and its proof in one round trip (\<open>solana/das-rpc.ts\<close>).\<close>

definition dasGetAssetWithProof :: "send_kit \<Rightarrow> string \<Rightarrow> send_error + das_asset \<times> das_proof" where
  "dasGetAssetWithProof S assetId =
     obind (require RpcUnavailable (sk_batch S assetId)) (\<lambda>(asset, prf).
     case asset of
       None \<Rightarrow> Inl NoAsset
     | Some a \<Rightarrow>
         if da_id a = None \<or> da_id a = Some '''' then Inl NoAsset
         else (case prf of None \<Rightarrow> Inl NoAsset | Some p \<Rightarrow> Inr (a, p)))"

definition dasGetAsset :: "send_kit \<Rightarrow> string \<Rightarrow> send_error + das_asset option" where
  "dasGetAsset S assetId =
     (case sk_asset S assetId of
        Inr asset \<Rightarrow> Inr asset
      | Inl message \<Rightarrow>
          if includes_str ''not found'' (map lower_char message) then Inr None else Inl RpcUnavailable)"

definition hash32FromBase58 :: "std_kit \<Rightarrow> string \<Rightarrow> send_error + bytes" where
  "hash32FromBase58 K t = map_sum (\<lambda>e. e) (sw_addressEncode K) (to_address K (trim t))"

definition trimmed_text :: "string option \<Rightarrow> string" where
  "trimmed_text t = (case t of None \<Rightarrow> '''' | Some x \<Rightarrow> trim x)"

definition truthy :: "string option \<Rightarrow> bool" where
  "truthy t \<longleftrightarrow> t \<noteq> None \<and> t \<noteq> Some ''''"

definition all_addresses :: "std_kit \<Rightarrow> string list \<Rightarrow> send_error + address list" where
  "all_addresses K ts = (if list_all (sw_isAddress K) ts then Inr ts else Inl InvalidAddress)"

definition buildCnftTransferInstructions ::
  "std_kit \<Rightarrow> send_kit \<Rightarrow> string \<Rightarrow> address \<Rightarrow> address \<Rightarrow> address \<Rightarrow> send_error + kit_instruction list" where
  "buildCnftTransferInstructions K S assetId owner leafOwnerSigner newLeafOwner =
     obind (dasGetAssetWithProof S assetId) (\<lambda>(asset, assetProof).
     if da_compressed asset \<noteq> Some True then Inl NotCompressed
     else if dp_proof assetProof = [] then Inl EmptyProof
     else if truthy (da_owner asset) \<and> da_owner asset \<noteq> Some owner then Inl NotOwned
     else obind (require MissingLeafId (da_leaf_id asset)) (\<lambda>leafNonce.
     let dataHash = trimmed_text (da_data_hash asset); creatorHash = trimmed_text (da_creator_hash asset) in
     if dataHash = '''' \<or> creatorHash = '''' then Inl MissingHashes
     else obind (to_address K (if truthy (da_delegate asset) then the (da_delegate asset)
            else case da_owner asset of Some a \<Rightarrow> a | None \<Rightarrow> owner)) (\<lambda>leafDelegate.
     obind (to_address K (dp_tree_id assetProof)) (\<lambda>tree.
     obind (hash32FromBase58 K (dp_root assetProof)) (\<lambda>root.
     obind (hash32FromBase58 K dataHash) (\<lambda>dat.
     obind (hash32FromBase58 K creatorHash) (\<lambda>creator.
     obind (require BuilderFailed (sk_transferCnft S
       \<lparr>cn_leafOwner = leafOwnerSigner, cn_leafDelegate = leafDelegate, cn_newLeafOwner = newLeafOwner, cn_merkleTree = tree,
        cn_root = root, cn_dataHash = dat, cn_creatorHash = creator, cn_nonce = leafNonce, cn_index = leafNonce\<rparr>)) (\<lambda>base.
     obind (all_addresses K (dp_proof assetProof)) (\<lambda>proofPath.
     Inr [\<lparr>ix_program = cb_program base,
           ix_accounts = Some ([cb_treeAuthority base, \<lparr>am_address = leafOwnerSigner, am_role = READONLY_SIGNER\<rparr>,
             cb_leafDelegate base] @ cb_rest base @ map (\<lambda>node. \<lparr>am_address = node, am_role = READONLY\<rparr>) proofPath),
           ix_data = Some (cb_data base)\<rparr>])))))))))"

definition SPL_NOOP_PROGRAM_ID :: address where "SPL_NOOP_PROGRAM_ID = ''noopb9bkMVfRPU8AsbpTUg8AQkHtKwMYZiFUjNRtMmV''"

definition buildCoreTransferInstructions ::
  "std_kit \<Rightarrow> send_kit \<Rightarrow> address \<Rightarrow> address \<Rightarrow> address \<Rightarrow> send_error + kit_instruction list" where
  "buildCoreTransferInstructions K S asset authority newOwner =
     obind (dasGetAsset S asset) (\<lambda>das.
     case das of
       None \<Rightarrow> Inl NoAsset
     | Some a \<Rightarrow>
         if \<not> truthy (da_id a) then Inl NoAsset
         else
           let collection = Option.bind (find (\<lambda>(key, _). key = ''collection'') (da_grouping a)) snd in
           obind (if truthy collection then map_sum (\<lambda>e. e) Some (to_address K (the collection)) else Inr None) (\<lambda>coll.
           obind (require BuilderFailed (sk_transferCore S
             \<lparr>ct_asset = asset, ct_collection = coll, ct_payer = authority, ct_authority = authority, ct_newOwner = newOwner,
              ct_systemProgram = SYSTEM, ct_logWrapper = SPL_NOOP_PROGRAM_ID\<rparr>)) (\<lambda>t.
           Inr [t])))"

subsection \<open>Sending\<close>

definition buildSendInstructions ::
  "std_kit \<Rightarrow> send_kit \<Rightarrow> send_asset \<Rightarrow> string \<Rightarrow> address \<Rightarrow> address \<Rightarrow> send_error + kit_instruction list" where
  "buildSendInstructions K S asset amountUi walletPda recipient =
     (case sa_kind asset of
        Native \<Rightarrow>
          obind (raw_amount amountUi 9) (\<lambda>amount.
          obind (require BuilderFailed (sk_transferSol S walletPda recipient amount)) (\<lambda>t. Inr [t]))
      | Fungible \<Rightarrow>
          buildSplTransfer K S (sa_mint asset) (sa_decimals asset) (sa_tokenProgram asset) amountUi walletPda recipient
      | Nft \<Rightarrow>
          buildSplTransfer K S (sa_mint asset) 0 (sa_tokenProgram asset) ''1'' walletPda recipient
      | Pnft \<Rightarrow>
          obind (to_address K (sa_mint asset)) (\<lambda>mint.
          obind (requireSupportedTokenProgram (sa_tokenProgram asset)) (\<lambda>tokenProgram.
          buildPnftTransferInstructions S mint walletPda walletPda recipient tokenProgram))
      | Cnft \<Rightarrow> buildCnftTransferInstructions K S (sa_mint asset) walletPda walletPda recipient
      | Core \<Rightarrow>
          obind (to_address K (sa_mint asset)) (\<lambda>a. buildCoreTransferInstructions K S a walletPda recipient))"

definition walletPdaForToken :: "std_kit \<Rightarrow> string \<Rightarrow> send_error + address" where
  "walletPdaForToken K token = map_sum (\<lambda>e. e) (findWalletPda K) (to_address K token)"

definition buildSendAssetInstructions ::
  "std_kit \<Rightarrow> send_kit \<Rightarrow> string \<Rightarrow> string \<Rightarrow> string \<Rightarrow> send_asset \<Rightarrow> send_error + address \<times> kit_instruction list" where
  "buildSendAssetInstructions K S token recipientText amountUi asset =
     obind (to_address K token) (\<lambda>tokenPda.
     obind (to_address K recipientText) (\<lambda>recipient.
     obind (walletPdaForToken K tokenPda) (\<lambda>walletPda.
     obind (buildSendInstructions K S asset amountUi walletPda recipient) (\<lambda>ixs.
     Inr (walletPda, ixs)))))"

text \<open>
  The passkey path: the fee payer is the signer of the SDK at the wallet address, which wraps the message
  when it is signed; \<open>signerReady\<close> tells whether it can be made for a token.
\<close>

definition sendAssetFromWallet ::
  "std_kit \<Rightarrow> send_kit \<Rightarrow> app_rpc \<Rightarrow> (address \<Rightarrow> bool) \<Rightarrow> string \<Rightarrow> string \<Rightarrow> string \<Rightarrow> send_asset \<Rightarrow> send_error + sent_transaction" where
  "sendAssetFromWallet K S R signerReady token recipientText amountUi asset =
     obind (to_address K token) (\<lambda>tokenPda.
     obind (to_address K recipientText) (\<lambda>recipient.
     if \<not> signerReady tokenPda then Inl NoFeePayer
     else
       let walletPda = findWalletPda K tokenPda in
       obind (buildSendInstructions K S asset amountUi walletPda recipient) (\<lambda>ixs.
       map_sum TxFailed (\<lambda>s. s) (sendTransaction R ixs walletPda (Some False)))))"

definition receiveAssetFromNearbyPayer ::
  "std_kit \<Rightarrow> send_kit \<Rightarrow> app_rpc \<Rightarrow> (address \<Rightarrow> bool) \<Rightarrow> string \<Rightarrow> string \<Rightarrow> string \<Rightarrow> string \<Rightarrow> send_asset \<Rightarrow>
     send_error + sent_transaction" where
  "receiveAssetFromNearbyPayer K S R signerReady payerText expectedPayerWallet recipientWallet amountUi asset =
     obind (to_address K payerText) (\<lambda>payerToken.
     obind (walletPdaForToken K payerToken) (\<lambda>walletPda.
     if walletPda \<noteq> expectedPayerWallet then Inl NotLinked
     else sendAssetFromWallet K S R signerReady payerToken recipientWallet amountUi asset))"

definition getTopUpAccumulator :: "std_kit \<Rightarrow> string option \<Rightarrow> send_error + address" where
  "getTopUpAccumulator K env = (if trimmed_text env = '''' then Inl NotConfigured else to_address K (trimmed_text env))"

definition buildTopUpInstructions ::
  "std_kit \<Rightarrow> send_kit \<Rightarrow> string option \<Rightarrow> string \<Rightarrow> string \<Rightarrow> send_error + address \<times> kit_instruction list" where
  "buildTopUpInstructions K S env token amountUi =
     obind (to_address K token) (\<lambda>tokenPda.
     obind (walletPdaForToken K tokenPda) (\<lambda>walletPda.
     obind (raw_amount amountUi 9) (\<lambda>lamports.
     if lamports \<le> 0 then Inl NotPositive
     else obind (getTopUpAccumulator K env) (\<lambda>accumulator.
       obind (require BuilderFailed (sk_transferSol S walletPda accumulator lamports)) (\<lambda>t. Inr (walletPda, [t]))))))"

definition BASE_TOKEN_ACCOUNT_SIZE :: nat where "BASE_TOKEN_ACCOUNT_SIZE = 165"

text \<open>Whether the recipient's token account has to be created, and the rent the payer needs for it.\<close>

definition resolveRecipientAtaFunding ::
  "std_kit \<Rightarrow> send_kit \<Rightarrow> send_kind \<Rightarrow> string \<Rightarrow> string option \<Rightarrow> string \<Rightarrow> send_error + bool \<times> int" where
  "resolveRecipientAtaFunding K S kind mintText program recipientWallet =
     (if kind = Native \<or> kind = Cnft \<or> kind = Core then Inr (False, 0)
      else obind (requireSupportedTokenProgram program) (\<lambda>tokenProgram.
        obind (to_address K mintText) (\<lambda>mint.
        obind (to_address K recipientWallet) (\<lambda>owner.
        obind (require RpcUnavailable (sk_accountExists S (sk_findAta S mint owner tokenProgram))) (\<lambda>found.
        if found then Inr (False, 0)
        else map_sum (\<lambda>e. e) (\<lambda>rent. (True, rent)) (require RpcUnavailable (sk_rentFor S BASE_TOKEN_ACCOUNT_SIZE)))))))"


subsection \<open>Transactions of the owner\<close>

definition authority_execute ::
  "std_kit \<Rightarrow> tx_kit \<Rightarrow> program_kit \<Rightarrow> address \<Rightarrow> address \<Rightarrow> address \<Rightarrow> kit_instruction list \<Rightarrow> send_error + kit_instruction" where
  "authority_execute K T P phygitalToken walletPda authority instructions =
     obind (require NotCompiled (compileWalletInstructions (tk_kit T) (tk_tokenProgram T) instructions walletPda)) (\<lambda>(remaining, compacts).
     obind (require BuilderFailed (getExecuteWithAuthorityInstruction P authority phygitalToken
       (findAuthorityAccountPda K phygitalToken) walletPda None compacts)) (\<lambda>ix.
     Inr (withRemainingAccounts ix remaining)))"

definition sendViaAuthority ::
  "std_kit \<Rightarrow> tx_kit \<Rightarrow> program_kit \<Rightarrow> app_rpc \<Rightarrow> address option \<Rightarrow> string \<Rightarrow> address \<Rightarrow> kit_instruction list \<Rightarrow>
     send_error + sent_transaction" where
  "sendViaAuthority K T P R feePayer token authority instructions =
     obind (to_address K token) (\<lambda>phygitalToken.
     obind (walletPdaForToken K phygitalToken) (\<lambda>walletPda.
     obind (require NoFeePayer feePayer) (\<lambda>payer.
     obind (authority_execute K T P phygitalToken walletPda authority instructions) (\<lambda>executeIx.
     map_sum TxFailed (\<lambda>s. s) (sendTransaction R [executeIx] payer (Some True))))))"

record owner_context =
  oc_authoritySigner :: address
  oc_feePayer :: address
  oc_phygitalToken :: address
  oc_authorityPda :: address
  oc_rentReceiver :: address

text \<open>\<open>fetchPayer\<close> stands for \<open>fetchAuthority\<close> and the payer in the header of the account it reads.\<close>

definition sendOwnerAuthorityTransaction ::
  "std_kit \<Rightarrow> app_rpc \<Rightarrow> (address \<Rightarrow> address option) \<Rightarrow> address option \<Rightarrow> string \<Rightarrow> address \<Rightarrow>
     (owner_context \<Rightarrow> kit_instruction option) \<Rightarrow> send_error + sent_transaction" where
  "sendOwnerAuthorityTransaction K R fetchPayer feePayer token authority build =
     obind (to_address K token) (\<lambda>phygitalToken.
     let authorityPda = findAuthorityAccountPda K phygitalToken in
     obind (require NoAuthorityAccount (fetchPayer authorityPda)) (\<lambda>rentReceiver.
     obind (require NoFeePayer feePayer) (\<lambda>payer.
     obind (require BuilderFailed (build
       \<lparr>oc_authoritySigner = authority, oc_feePayer = payer, oc_phygitalToken = phygitalToken,
        oc_authorityPda = authorityPda, oc_rentReceiver = rentReceiver\<rparr>)) (\<lambda>ix.
     map_sum TxFailed (\<lambda>s. s) (sendTransaction R [ix] payer (Some True))))))"

text \<open>\<open>None\<close> of an optional argument of \<open>setWalletPolicy\<close> is a missing property.\<close>

definition setWalletPolicy_instruction ::
  "std_kit \<Rightarrow> program_kit \<Rightarrow> sol_cap_arg option \<Rightarrow> mint_cap_arg list option \<Rightarrow> permission_arg list option \<Rightarrow>
     owner_context \<Rightarrow> kit_instruction option" where
  "setWalletPolicy_instruction K P sol mintCapList permissions ctx =
     (let mints = (case mintCapList of Some ms \<Rightarrow> ms | None \<Rightarrow> []) in
      if \<not> list_all (\<lambda>m. sw_isAddress K (mc_mint m)) mints then None
      else getSetWalletPolicyInstruction P (oc_authoritySigner ctx) (oc_feePayer ctx) (oc_rentReceiver ctx)
        (oc_phygitalToken ctx) (oc_authorityPda ctx) None None sol mints
        (case permissions of Some ps \<Rightarrow> ps | None \<Rightarrow> []))"

definition clearWalletPolicy_instruction :: "program_kit \<Rightarrow> owner_context \<Rightarrow> kit_instruction option" where
  "clearWalletPolicy_instruction P ctx =
     getClearWalletPolicyInstruction P (oc_authoritySigner ctx) (oc_rentReceiver ctx) (oc_phygitalToken ctx)
       (oc_authorityPda ctx) None"

definition unlinkAccessory_instruction :: "program_kit \<Rightarrow> owner_context \<Rightarrow> kit_instruction option" where
  "unlinkAccessory_instruction P ctx =
     getClearAuthorityInstruction P (oc_authoritySigner ctx) (oc_phygitalToken ctx) (oc_rentReceiver ctx)
       (oc_authorityPda ctx) None"

subsection \<open>Claiming an accessory\<close>

record prepared_claim =
  pc_phygitalToken :: address
  pc_owner :: address
  pc_slotNumber :: nat
  pc_messageHash :: bytes

definition prepareClaimAccessory ::
  "std_kit \<Rightarrow> kit \<Rightarrow> bytes option \<Rightarrow> string \<Rightarrow> string \<Rightarrow> send_error + prepared_claim" where
  "prepareClaimAccessory K k slotHashes token ownerText =
     obind (to_address K token) (\<lambda>phygitalToken.
     obind (to_address K ownerText) (\<lambda>owner.
     map_sum (\<lambda>e. e) (\<lambda>(slot, hash).
         \<lparr>pc_phygitalToken = phygitalToken, pc_owner = owner, pc_slotNumber = slot, pc_messageHash = hash\<rparr>)
       (require RpcUnavailable (buildSetAuthorityChallenge k slotHashes phygitalToken owner))))"

text \<open>
  \<open>tap\<close> is the passkey ceremony over the message hash together with \<open>buildSecp256r1VerifyInstruction\<close>: the
  verify instruction, its arguments and the token of the accessory that was tapped.
\<close>

definition claimAccessory ::
  "std_kit \<Rightarrow> program_kit \<Rightarrow> app_rpc \<Rightarrow> (bytes \<Rightarrow> (kit_instruction \<times> verify_args \<times> address) option) \<Rightarrow> address option \<Rightarrow>
     prepared_claim \<Rightarrow> send_error + sent_transaction" where
  "claimAccessory K P R tap feePayer prepared =
     obind (require TapFailed (tap (pc_messageHash prepared))) (\<lambda>(verifyIx, args, tappedToken).
     if tappedToken \<noteq> pc_phygitalToken prepared then Inl AccessoryMismatch
     else obind (require NoFeePayer feePayer) (\<lambda>payer.
       obind (require BuilderFailed (getSetAuthorityInstructionAsync K P payer (pc_phygitalToken prepared) None None None None
         None None (pc_owner prepared) args (int (pc_slotNumber prepared)))) (\<lambda>ix.
       map_sum TxFailed (\<lambda>s. s) (sendTransaction R [verifyIx, ix] payer (Some True)))))"

subsection \<open>What the signer shows for a transaction of the owner\<close>

text \<open>Few enough accounts for one-byte indices, and lengths that fit their prefixes.\<close>

definition few_accounts :: "kit_instruction list \<Rightarrow> bool" where
  "few_accounts ixs \<longleftrightarrow> sum_list (map (\<lambda>ix. Suc (length (ix_metas ix))) ixs) \<le> 256 \<and> (\<forall>ix \<in> set ixs. length (ix_bytes ix) < 2 ^ 32)"

lemma length_uses: "length (concat (map (uses_of k p) ixs)) = sum_list (map (\<lambda>ix. Suc (length (ix_metas ix))) ixs)"
  by (induction ixs) (simp_all add: uses_of_def)

lemma compiled_remaining_length:
  assumes "kit_roles_ok k" "compileWalletInstructions k tp ixs p = Some (rem, cs)"
  shows "length rem \<le> sum_list (map (\<lambda>ix. Suc (length (ix_metas ix))) ixs)"
proof -
  obtain tb where tb: "table_ok tb (concat (map (uses_of k p) ixs))" "map am_address rem = table_addrs tb"
    using compile_table [OF assms] by metis
  have "length rem = length (table_addrs tb)" using tb(2) by (metis length_map)
  also have "\<dots> = card (set (table_addrs tb))" using table_ok_distinct [OF tb(1)] by (simp add: distinct_card)
  also have "\<dots> \<le> length (concat (map (uses_of k p) ixs))"
    using tb(1) card_length [of "map am_address (concat (map (uses_of k p) ixs))"] by (simp add: table_ok_def)
  finally show ?thesis by (simp add: length_uses)
qed

lemma ix_length_le: "ix \<in> set ixs \<Longrightarrow> length (ix_metas ix) \<le> sum_list (map (\<lambda>ix. Suc (length (ix_metas ix))) ixs)"
  by (induction ixs) auto

lemma length_le_sum: "length ixs \<le> sum_list (map (\<lambda>ix. Suc (length (ix_metas ix))) ixs)"
  by (induction ixs) auto

lemma compiled_fits:
  assumes "compiled addrs ix c" "length addrs \<le> 256" "length (ix_metas ix) \<le> 256" "length (ix_bytes ix) < 2 ^ 32"
  shows "list_all (\<lambda>i. i < 256) (ci_accounts c)" "fits A getCompactInstructionEncoder (compact_value c)"
proof -
  obtain "is" where i: "ci_accounts c = map uint8 is" "map ((!) addrs) is = map am_address (ix_metas ix)"
    and c: "ci_program c < length addrs" "ci_data c = ix_bytes ix"
    using assms(1) by (auto simp: compiled_def)
  show "list_all (\<lambda>i. i < 256) (ci_accounts c)"
    using unat_byte_lt by (simp add: i(1) list_all_iff uint8_def)
  have "length (ci_accounts c) = length (ix_metas ix)" using arg_cong [OF i(2), of length] i(1) by simp
  with assms c show "fits A getCompactInstructionEncoder (compact_value c)"
    by (simp add: getCompactInstructionEncoder_def compact_value_def num_in_def)
qed

lemma compiled_encodable:
  assumes "kit_roles_ok k" "compileWalletInstructions k tp ixs p = Some (rem, cs)" "few_accounts ixs"
  shows "encodable C (CallExecuteWithAuthority a t acc w cs)"
proof -
  obtain tb where tb: "list_all2 (compiled (table_addrs tb)) ixs cs" "map am_address rem = table_addrs tb"
    using compile_table [OF assms(1,2)] by metis
  have n: "length (table_addrs tb) \<le> 256"
    using compiled_remaining_length [OF assms(1,2)] assms(3) tb(2) by (metis few_accounts_def le_trans length_map)
  have each: "list_all (\<lambda>i. i < 256) (ci_accounts c) \<and> fits A getCompactInstructionEncoder (compact_value c)"
    if "c \<in> set cs" for c A
  proof -
    from that obtain i where i: "i < length cs" "c = cs ! i" by (metis in_set_conv_nth)
    with tb(1) have len: "i < length ixs" and comp: "compiled (table_addrs tb) (ixs ! i) c"
      by (simp_all add: list_all2_conv_all_nth)
    have "length (ix_metas (ixs ! i)) \<le> 256" "length (ix_bytes (ixs ! i)) < 2 ^ 32"
      using ix_length_le [OF nth_mem [OF len]] assms(3) nth_mem [OF len] by (auto simp: few_accounts_def)
    from compiled_fits [OF comp n this] show ?thesis by blast
  qed
  have len: "length cs < 2 ^ 32"
    using length_le_sum [of ixs] assms(3) tb(1) by (simp add: few_accounts_def list_all2_lengthD)
  show ?thesis
    unfolding encodable.simps small_indexes_def
  proof (intro conjI)
    show "list_all (\<lambda>c. list_all (\<lambda>i. i < 256) (ci_accounts c)) cs" using each by (simp add: list_all_iff)
    show "fits (ck_isAddress C) getExecuteWithAuthorityInstructionDataEncoder (spend_value ExecuteWithAuthority cs)"
      using each len
      by (simp add: getExecuteWithAuthorityInstructionDataEncoder_def spend_value_def discriminator_def length_discriminator
        list_all_iff)
  qed
qed

lemma parse_with_more:
  assumes "parsePhygitalWalletInstruction k ix = Some p"
  shows "parsePhygitalWalletInstruction k (withRemainingAccounts ix rest) = Some p"
proof -
  have data: "ix_data (withRemainingAccounts ix rest) = ix_data ix"
    "ix_program (withRemainingAccounts ix rest) = ix_program ix" by (simp_all add: withRemainingAccounts_def)
  have one: "parse_named kind names decode (withRemainingAccounts ix rest) = Some q"
    if "parse_named kind names decode ix = Some q" for kind names decode q
  proof -
    from that obtain accts where a: "ix_accounts ix = Some accts" "length names \<le> length accts"
      by (auto simp: parse_named_Some)
    then have "ix_accounts (withRemainingAccounts ix rest) = Some (accts @ rest)" "zip names (accts @ rest) = zip names accts"
      by (simp_all add: withRemainingAccounts_def ix_metas_def zip_append1 zip_append2 min_def)
    with that a show ?thesis by (auto simp: parse_named_Some data)
  qed
  from assms show ?thesis
    unfolding parsePhygitalWalletInstruction_def data
    by (auto simp: parser_defs one split: option.splits wallet_instruction.splits)
qed

lemma shown_client [simp]: "shown_as (client_kit C k) = shown_as k"
  by (simp add: shown_as_def client_kit_def fun_eq_iff)

lemma authority_execute_shown:
  assumes "codecs_ok (pk_codecs P)" "metas_ok P" "contains_ok (tk_kit T)" "kit_roles_ok (tk_kit T)" "few_accounts ixs"
    and "authority_execute K T P token walletPda authority ixs = Inr ix"
  shows "parseInstruction (client_kit (pk_codecs P) (tk_kit T)) ix = Some
    \<lparr>su_kind = ExecuteWithAuthority, su_authority = Some authority, su_phygitalToken = Some token,
     su_inner = Some (map (shown_as (tk_kit T)) ixs), su_details = []\<rparr>"
proof -
  let ?C = "pk_codecs P" and ?k = "client_kit (pk_codecs P) (tk_kit T)" and ?acc = "findAuthorityAccountPda K token"
  let ?call = "CallExecuteWithAuthority authority token ?acc walletPda"
  from assms(6) obtain remaining cs built where
    comp: "compileWalletInstructions (tk_kit T) (tk_tokenProgram T) ixs walletPda = Some (remaining, cs)"
    and b: "getExecuteWithAuthorityInstruction P authority token ?acc walletPda None cs = Some built"
    and ix: "ix = withRemainingAccounts built remaining"
    by (auto simp: authority_execute_def result_simps)
  from execute_with_authority_parsed [OF assms(1-3) compiled_encodable [OF assms(4) comp assms(5)], of authority token ?acc walletPda] b
  have parsed: "parsePhygitalWalletInstruction ?k built = Some (call_parsed ?C (?call cs))" by simp
  from b obtain accts where accts: "ix_accounts built = Some accts" "length accts = 5"
    by (auto simp: getExecuteWithAuthorityInstruction_def built_def)
  have full: "ix = \<lparr>ix_program = ix_program ix, ix_accounts = Some (accts @ remaining),
      ix_data = Some (case ix_data ix of Some d \<Rightarrow> d | None \<Rightarrow> [])\<rparr>"
    using accts(1) b by (auto simp: ix withRemainingAccounts_def ix_metas_def getExecuteWithAuthorityInstruction_def built_def)
  then have more: "ix_accounts ix = Some (accts @ remaining)" by (cases ix) simp
  from parse_with_more [OF parsed, of remaining] have
    "parsePhygitalWalletInstruction ?k \<lparr>ix_program = ix_program ix, ix_accounts = Some (accts @ remaining),
       ix_data = Some (case ix_data ix of Some d \<Rightarrow> d | None \<Rightarrow> [])\<rparr> = Some (call_parsed ?C (?call cs))"
    using full ix by metis
  moreover have "summarizeInner ?k cs remaining = Some (map (shown_as ?k) ixs)"
  proof -
    obtain tb where "list_all2 (compiled (table_addrs tb)) ixs cs" "map am_address remaining = table_addrs tb"
      using compile_table [OF assms(4) comp] by metis
    moreover have "length remaining \<le> 256"
      using compiled_remaining_length [OF assms(4) comp] assms(5) by (simp add: few_accounts_def)
    ultimately show ?thesis using summarize_compiled by metis
  qed
  ultimately show ?thesis
    by (simp add: parseInstruction_def more sliceExecuteRemainingAccounts_def EXECUTE_WITH_AUTHORITY_NAMED_ACCOUNT_COUNT_def
        accts(2) parsed_as_def compact_of_def summary_of_def account_of_def acc_in_def)
qed

lemma acct_label_second: "acct_label [a, b] (Suc 0) = acct_label [b] 0" "acct_label (a # b # xs) 0 = acct_label [a] 0"
  by (simp_all add: acct_label_def)

text \<open>The documented behaviour of the builder of the System program's client: a transfer of 64 bits, or it throws.\<close>

definition sol_builder_ok :: "send_kit \<Rightarrow> bool" where
  "sol_builder_ok S \<longleftrightarrow>
     (\<forall>src dst n. sk_transferSol S src dst n =
        (if 0 \<le> n \<and> n < 2 ^ 64 then
           Some \<lparr>ix_program = SYSTEM, ix_accounts = Some [\<lparr>am_address = src, am_role = WRITABLE_SIGNER\<rparr>,
             \<lparr>am_address = dst, am_role = WRITABLE\<rparr>], ix_data = Some (sol_transfer_data (word_of_int n))\<rparr>
         else None))"

text \<open>
  C7: The owner sees the transfer that was typed.  For every asset the application sends through the owner,
  the signer reads the instruction it gets as a spend by that owner from that token's wallet, and lists
  exactly the instructions the application built, in order.  For SOL the one row says how much is sent:
  a number with the value of the text in the amount field, from the wallet, to the recipient entered.
\<close>
theorem owner_sees_what_was_typed:
  assumes "codecs_ok (pk_codecs P)" "metas_ok P" "contains_ok (tk_kit T)" "kit_roles_ok (tk_kit T)" "sol_builder_ok S"
    and "buildSendAssetInstructions K S token recipient (sanitizeDecimalInput typed) asset = Inr (walletPda, ixs)"
    and "few_accounts ixs" "authority_execute K T P token walletPda authority ixs = Inr ix"
  shows "\<exists>rows amount. parseInstruction (client_kit (pk_codecs P) (tk_kit T)) ix = Some
      \<lparr>su_kind = ExecuteWithAuthority, su_authority = Some authority, su_phygitalToken = Some token,
       su_inner = Some rows, su_details = []\<rparr> \<and>
    rows = map (shown_as (tk_kit T)) ixs \<and> walletPda = findWalletPda K token \<and>
    decimal_value amount = decimal_value (sanitizeDecimalInput typed) \<and>
    (sa_kind asset = Native \<longrightarrow> length rows = 1 \<and> is_programAddress (hd rows) = SYSTEM \<and>
       is_accounts (hd rows) = [walletPda, recipient] \<and> is_title (hd rows) = ''Send '' @ amount @ '' SOL'' \<and>
       is_details (hd rows) = [row ''From'' (acct_label [walletPda] 0), row ''To'' (acct_label [recipient] 0)])"
proof -
  note shown = authority_execute_shown [OF assms(1-4,7,8)]
  from assms(6) have w: "walletPda = findWalletPda K token"
    and ixs: "buildSendInstructions K S asset (sanitizeDecimalInput typed) walletPda recipient = Inr ixs"
    by (auto simp: buildSendAssetInstructions_def walletPdaForToken_def to_address_def result_simps split: if_splits)
  show ?thesis
  proof (cases "sa_kind asset = Native")
    case True
    with ixs obtain n t where n: "uiAmountToRaw (sanitizeDecimalInput typed) 9 = Inr n"
      and t: "sk_transferSol S walletPda recipient n = Some t" "ixs = [t]"
      by (auto simp: buildSendInstructions_def raw_amount_def result_simps)
    from t(1) assms(5) have range: "0 \<le> n" "n < 2 ^ 64" and t': "t = \<lparr>ix_program = SYSTEM, ix_accounts = Some
        [\<lparr>am_address = walletPda, am_role = WRITABLE_SIGNER\<rparr>, \<lparr>am_address = recipient, am_role = WRITABLE\<rparr>],
        ix_data = Some (sol_transfer_data (word_of_int n))\<rparr>"
      by (auto simp: sol_builder_ok_def split: if_splits)
    have "uint (word_of_int n :: 64 word) = n" using range by (simp add: uint_word_of_int_eq take_bit_int_eq_self)
    then have row: "shown_as (tk_kit T) t = \<lparr>is_programAddress = SYSTEM, is_accounts = [walletPda, recipient],
        is_dataLength = 12, is_title = ''Send '' @ formatUnits n 9 @ '' SOL'',
        is_details = [row ''From'' (acct_label [walletPda] 0), row ''To'' (acct_label [recipient] 0)]\<rparr>"
      by (simp add: shown_as_def t' ix_metas_def ix_bytes_def describe_sol_transfer acct_label_second sol_transfer_data_def
          [symmetric] Let_def) (simp add: sol_transfer_data_def)
    have "decimal_value (formatUnits n 9) = decimal_value (sanitizeDecimalInput typed)"
      using raw_exact_core [of 9, OF _ n] by (simp add: formatUnits_value)
    with shown w row t(2) show ?thesis
      by (intro exI [of _ "map (shown_as (tk_kit T)) ixs"] exI [of _ "formatUnits n 9"]) simp
  qed (use shown w in auto)
qed

definition sample_send_kit :: send_kit where
  "sample_send_kit =
     \<lparr>sk_transferSol = (\<lambda>src dst n. if 0 \<le> n \<and> n < 2 ^ 64 then
           Some \<lparr>ix_program = SYSTEM, ix_accounts = Some [\<lparr>am_address = src, am_role = WRITABLE_SIGNER\<rparr>,
             \<lparr>am_address = dst, am_role = WRITABLE\<rparr>], ix_data = Some (sol_transfer_data (word_of_int n))\<rparr>
         else None),
      sk_findAta = (\<lambda>mint owner program. mint @ owner),
      sk_createAta = (\<lambda>payer ata owner mint program. \<lparr>ix_program = ATA, ix_accounts = None, ix_data = None\<rparr>),
      sk_transferChecked = (\<lambda>_ _ _ _ _ _. None), sk_transferChecked2022 = (\<lambda>_ _ _ _ _ _. None),
      sk_metadataPda = id, sk_masterEditionPda = id, sk_tokenRecordPda = (@), sk_accountInfo = (\<lambda>_. None),
      sk_metadata = (\<lambda>_. None), sk_transferPnft = (\<lambda>_. None), sk_batch = (\<lambda>_. None), sk_transferCnft = (\<lambda>_. None),
      sk_asset = (\<lambda>_. Inr None), sk_transferCore = (\<lambda>_. None), sk_rentFor = (\<lambda>_. None), sk_accountExists = (\<lambda>_. None)\<rparr>"

lemma sample_send_kit_ok: "sol_builder_ok sample_send_kit"
  by (simp add: sol_builder_ok_def sample_send_kit_def)

definition sample_sol :: send_asset where
  "sample_sol = \<lparr>sa_kind = Native, sa_mint = APP_SOL_MINT, sa_decimals = 9, sa_tokenProgram = Some NATIVE_SOL_TOKEN_PROGRAM\<rparr>"

definition sample_transfer :: kit_instruction where
  "sample_transfer = \<lparr>ix_program = SYSTEM, ix_accounts = Some [\<lparr>am_address = ''WalletA'', am_role = WRITABLE_SIGNER\<rparr>,
     \<lparr>am_address = ''friend'', am_role = WRITABLE\<rparr>], ix_data = Some (sol_transfer_data 500000000)\<rparr>"

lemma sample_typed: "sanitizeDecimalInput ''0.5 SOL'' = ''0.5''" "uiAmountToRaw ''0.5'' 9 = Inr 500000000"
proof -
  show "sanitizeDecimalInput ''0.5 SOL'' = ''0.5''" by code_simp
  have ok: "plain_ok ''0'' (Some ''5'')" and half: "amount_text ''0'' (Some ''5'') = ''0.5''"
    by (simp_all add: plain_ok_def amount_text_def is_digit_def)
  have v: "plain_val ''0'' (Some ''5'') \<noteq> 0"
    by (simp add: plain_val_def plain_frac_def digits_val_def digit_val_def)
  have "\<not> number_le_zero ''0.5''"
    using number_small [OF ok, of 9] v by (simp add: half plain_frac_def)
  with raw_plain [OF ok, of 9] show "uiAmountToRaw ''0.5'' 9 = Inr 500000000"
    by (simp add: half plain_frac_def digits_val_def digit_val_def)
qed

lemma sample_send:
  "buildSendAssetInstructions sample_std_kit sample_send_kit ''TokenA'' ''friend'' (sanitizeDecimalInput ''0.5 SOL'') sample_sol =
     Inr (''WalletA'', [sample_transfer])"
  by (simp add: buildSendAssetInstructions_def to_address_def walletPdaForToken_def buildSendInstructions_def raw_amount_def
      sample_typed sample_sol_def sample_std_kit_def findWalletPda_def sample_send_kit_def sample_transfer_def require_def)

lemma sample_few: "few_accounts [sample_transfer]"
  by (simp add: few_accounts_def sample_transfer_def ix_metas_def ix_bytes_def sol_transfer_data_def)

lemma sample_authority_execute:
  "\<exists>ix. authority_execute sample_std_kit sample_tx_kit sample_program ''TokenA'' ''WalletA'' ''owner'' [sample_transfer] = Inr ix"
proof -
  have comp: "\<exists>r. compileWalletInstructions sample_kit (tk_tokenProgram sample_tx_kit) [sample_transfer] ''WalletA'' = Some r"
    by (simp add: compileWalletInstructions_def sample_transfer_def DENIED_PROGRAMS_def sample_tx_kit_def known_programs
      PHYGITAL_WALLET_PROGRAM_ADDRESS_def split: prod.splits)
  then obtain remaining cs where
    c: "compileWalletInstructions sample_kit (tk_tokenProgram sample_tx_kit) [sample_transfer] ''WalletA'' = Some (remaining, cs)"
    by auto
  from execute_with_authority_parsed [OF sample_program_ok sample_contains
      compiled_encodable [OF sample_kit_ok(1) c sample_few], of "''owner''" "''TokenA''"
      "findAuthorityAccountPda sample_std_kit ''TokenA''" "''WalletA''"] c
  show ?thesis by (auto simp: authority_execute_def sample_tx_kit_ok require_def)
qed

theorem owner_sees_what_was_typed_witness:
  "\<exists>ix rows amount. authority_execute sample_std_kit sample_tx_kit sample_program ''TokenA'' ''WalletA'' ''owner'' [sample_transfer] = Inr ix \<and>
     parseInstruction (client_kit wire_kit sample_kit) ix = Some \<lparr>su_kind = ExecuteWithAuthority,
       su_authority = Some ''owner'', su_phygitalToken = Some ''TokenA'', su_inner = Some rows, su_details = []\<rparr> \<and>
     decimal_value amount = 1 / 2 \<and> is_title (hd rows) = ''Send '' @ amount @ '' SOL'' \<and>
     is_accounts (hd rows) = [''WalletA'', ''friend'']"
proof -
  obtain ix where ix: "authority_execute sample_std_kit sample_tx_kit sample_program ''TokenA'' ''WalletA'' ''owner''
      [sample_transfer] = Inr ix" using sample_authority_execute by blast
  have kit: "contains_ok (tk_kit sample_tx_kit)" "kit_roles_ok (tk_kit sample_tx_kit)"
    by (simp_all add: sample_tx_kit_ok sample_contains sample_kit_ok)
  have "decimal_value ''0.5'' = 1 / 2" by code_simp
  with owner_sees_what_was_typed [OF sample_program_ok kit sample_send_kit_ok sample_send sample_few ix] show ?thesis
    using ix by (auto simp: sample_tx_kit_ok sample_program_def sample_sol_def sample_typed)
qed

end
