(* ===== verification/WalletTx.thy ===== *)
theory WalletTx
  imports AppSend
begin

text \<open>
  The flow every sending mutation of the web application shares (\<open>app/src/lib/wallet/wallet-transaction.ts\<close>
  and the hook \<open>hooks/wallet/use-wallet-transaction.ts\<close>): a policy-first send, the owner's approval of a
  denied one, the optimistic update of the cache and its rollback.  The state \<open>'c\<close> the optimistic
  operations work on and their snapshot \<open>'s\<close> are parameters, as they are in the code; what happens is
  recorded as a list of events.
\<close>

subsection \<open>wallet-transaction.ts\<close>

datatype tx_mode = ByPolicy | ByAuthority

text \<open>What a send can be rejected with: a policy denial with its code, or any other error.\<close>

datatype send_failure = Denied string | OtherFailure nat

datatype denial_decision = UseAuthority | Refuse

datatype tx_event =
    TrySend tx_mode
  | Applied string
  | Notified string tx_mode
  | AskedOwner send_failure
  | FundingDenied send_failure
  | ReportedError send_failure

datatype send_outcome = WasSent string tx_mode | WasRejected send_failure | WasAborted | WasError send_failure

text \<open>\<open>ta_apply\<close> may throw, with the changes it made so far; so may \<open>ta_onSent\<close>.\<close>

record ('c, 's) tx_args =
  ta_send :: "tx_mode \<Rightarrow> send_failure + string"
  ta_apply :: "string \<Rightarrow> 'c \<Rightarrow> (send_failure + 's) \<times> 'c"
  ta_confirm :: "'s \<Rightarrow> 'c \<Rightarrow> 'c"
  ta_rollback :: "'s \<Rightarrow> 'c \<Rightarrow> 'c"
  ta_onSent :: "string \<Rightarrow> tx_mode \<Rightarrow> send_failure option"
  ta_decide :: "send_failure \<Rightarrow> denial_decision"
  ta_isAbort :: "send_failure \<Rightarrow> bool"

text \<open>Where a run has come to: its events, the state, and the snapshot whose confirmation is awaited.\<close>

record ('c, 's) tx_run =
  tr_events :: "tx_event list"
  tr_state :: 'c
  tr_watched :: "'s option"

definition FUNDING_DENIAL_CODES :: "string list" where "FUNDING_DENIAL_CODES = [''insufficient_fee_balance'']"

definition isFundingDenial :: "string \<Rightarrow> bool" where
  "isFundingDenial code \<longleftrightarrow> code \<in> set FUNDING_DENIAL_CODES"

definition log_event :: "tx_event \<Rightarrow> ('c, 's) tx_run \<Rightarrow> ('c, 's) tx_run" where
  "log_event e r = r\<lparr>tr_events := tr_events r @ [e]\<rparr>"

definition applyOptimistic ::
  "('c, 's) tx_args \<Rightarrow> string \<Rightarrow> tx_mode \<Rightarrow> ('c, 's) tx_run \<Rightarrow> (send_failure + unit) \<times> ('c, 's) tx_run" where
  "applyOptimistic A signature mode r =
     (let (snap, c) = ta_apply A signature (tr_state r); r = r\<lparr>tr_state := c\<rparr> in
      case snap of
        Inl e \<Rightarrow> (Inl e, r)
      | Inr snapshot \<Rightarrow>
          let r = log_event (Applied signature) r in
          (case ta_onSent A signature mode of
             Some e \<Rightarrow> (Inl e, r)
           | None \<Rightarrow> (Inr (), (log_event (Notified signature mode) r)\<lparr>tr_watched := Some snapshot\<rparr>)))"

definition sendAndApply ::
  "('c, 's) tx_args \<Rightarrow> tx_mode \<Rightarrow> ('c, 's) tx_run \<Rightarrow> (send_failure + send_outcome) \<times> ('c, 's) tx_run" where
  "sendAndApply A mode r =
     (let r = log_event (TrySend mode) r in
      case ta_send A mode of
        Inl e \<Rightarrow> (Inl e, r)
      | Inr signature \<Rightarrow>
          (case applyOptimistic A signature mode r of
             (Inl e, r) \<Rightarrow> (Inl e, r)
           | (Inr _, r) \<Rightarrow> (Inr (WasSent signature mode), r)))"

text \<open>The \<open>catch\<close> of a send by the authority.\<close>

definition authority_send :: "('c, 's) tx_args \<Rightarrow> ('c, 's) tx_run \<Rightarrow> send_outcome \<times> ('c, 's) tx_run" where
  "authority_send A r =
     (case sendAndApply A ByAuthority r of
        (Inr out, r) \<Rightarrow> (out, r)
      | (Inl e, r) \<Rightarrow> if ta_isAbort A e then (WasAborted, r) else (WasError e, log_event (ReportedError e) r))"

definition runWalletTransaction ::
  "('c, 's) tx_args \<Rightarrow> tx_mode option \<Rightarrow> 'c \<Rightarrow> send_outcome \<times> ('c, 's) tx_run" where
  "runWalletTransaction A preferredMode c =
     (let r = \<lparr>tr_events = [], tr_state = c, tr_watched = None\<rparr>;
          preferred = (case preferredMode of Some m \<Rightarrow> m | None \<Rightarrow> ByPolicy) in
      if preferred = ByAuthority then authority_send A r
      else case sendAndApply A ByPolicy r of
        (Inr out, r) \<Rightarrow> (out, r)
      | (Inl e, r) \<Rightarrow>
          if ta_isAbort A e then (WasAborted, r)
          else case e of
            Denied code \<Rightarrow>
              if isFundingDenial code then (WasRejected e, log_event (FundingDenied e) r)
              else
                let r = log_event (AskedOwner e) r in
                (case ta_decide A e of
                   Refuse \<Rightarrow> (WasRejected e, r)
                 | UseAuthority \<Rightarrow> authority_send A r)
          | OtherFailure _ \<Rightarrow> (WasError e, log_event (ReportedError e) r))"

text \<open>The confirmation of a transaction that was sent settles later.\<close>

definition settle_confirmation :: "('c, 's) tx_args \<Rightarrow> bool \<Rightarrow> 's \<Rightarrow> 'c \<Rightarrow> 'c" where
  "settle_confirmation A landed snapshot c = (if landed then ta_confirm A snapshot c else ta_rollback A snapshot c)"

subsection \<open>use-wallet-transaction.ts\<close>

text \<open>The connected owner wallet, the authority of the token, and the mode of the session.\<close>

record live_owner =
  lo_address :: "string option"
  lo_signer :: bool
  lo_authority :: "string option"
  lo_ownerBrowse :: bool

datatype approval_mode = OwnerSheet | BlockedSheet

definition approval_mode_of :: "live_owner \<Rightarrow> approval_mode" where
  "approval_mode_of live =
     (if truthy (lo_address live) \<and> lo_authority live = lo_address live then OwnerSheet else BlockedSheet)"

text \<open>The sheet for anyone but the owner has no button that approves.\<close>

definition resolvePolicyDenial :: "live_owner \<Rightarrow> denial_decision \<Rightarrow> denial_decision" where
  "resolvePolicyDenial live answer = (if approval_mode_of live = OwnerSheet then answer else Refuse)"

definition signed_in :: "live_owner \<Rightarrow> bool" where
  "signed_in live \<longleftrightarrow> truthy (lo_address live) \<and> lo_signer live"

definition sendWithAuthority :: "live_owner \<Rightarrow> send_failure + string \<Rightarrow> send_failure + string" where
  "sendWithAuthority live attempt = (if signed_in live then attempt else Inl (OtherFailure 0))"

text \<open>\<open>login\<close>: the owner's state after signing in, or \<open>None\<close> when that fails.\<close>

definition hook_run ::
  "('c, 's) tx_args \<Rightarrow> tx_mode option \<Rightarrow> live_owner \<Rightarrow> live_owner option \<Rightarrow> 'c \<Rightarrow> send_outcome \<times> ('c, 's) tx_run" where
  "hook_run A requested live login c =
     (let nothing = (WasAborted, \<lparr>tr_events = [], tr_state = c, tr_watched = None\<rparr>);
          preferred = (case requested of Some m \<Rightarrow> m | None \<Rightarrow> if lo_ownerBrowse live then ByAuthority else ByPolicy) in
      if preferred = ByAuthority then
        (case (if signed_in live then Some live else login) of
           None \<Rightarrow> nothing
         | Some now \<Rightarrow>
             if \<not> signed_in now then nothing
             else if truthy (lo_authority now) \<and> lo_authority now \<noteq> lo_address now then nothing
             else runWalletTransaction A (Some ByAuthority) c)
      else runWalletTransaction A (Some ByPolicy) c)"

text \<open>
  The arguments as the call sites make them: the authority's send goes through the hook, and so does the
  decision.  Both read the owner's state of their own moment.
\<close>

definition hook_args :: "('c, 's) tx_args \<Rightarrow> live_owner \<Rightarrow> live_owner \<Rightarrow> denial_decision \<Rightarrow> ('c, 's) tx_args" where
  "hook_args A at_send at_denial answer =
     A\<lparr>ta_send := (\<lambda>mode. if mode = ByAuthority then sendWithAuthority at_send (ta_send A mode) else ta_send A mode),
       ta_decide := (\<lambda>e. resolvePolicyDenial at_denial answer)\<rparr>"

subsection \<open>What a run does\<close>

definition callbacks_quiet :: "('c, 's) tx_args \<Rightarrow> bool" where
  "callbacks_quiet A \<longleftrightarrow> (\<forall>s c. \<exists>snap c'. ta_apply A s c = (Inr snap, c')) \<and> (\<forall>s m. ta_onSent A s m = None)"

lemmas run_defs = applyOptimistic_def sendAndApply_def authority_send_def runWalletTransaction_def log_event_def Let_def

text \<open>One attempt: with callbacks that do not throw it changes the state exactly when the transaction was accepted.\<close>

lemma sendAndApply_cases:
  assumes "callbacks_quiet A"
  shows "(\<exists>e. ta_send A m = Inl e \<and> sendAndApply A m r = (Inl e, log_event (TrySend m) r)) \<or>
    (\<exists>s snap c. ta_send A m = Inr s \<and> ta_apply A s (tr_state r) = (Inr snap, c) \<and>
       sendAndApply A m r = (Inr (WasSent s m),
         r\<lparr>tr_events := tr_events r @ [TrySend m, Applied s, Notified s m], tr_state := c, tr_watched := Some snap\<rparr>))"
proof (cases "ta_send A m")
  case (Inr s)
  from assms obtain snap c where "ta_apply A s (tr_state r) = (Inr snap, c)" unfolding callbacks_quiet_def by meson
  with Inr assms show ?thesis by (simp add: run_defs callbacks_quiet_def)
qed (simp add: run_defs)

lemma authority_send_cases:
  assumes "callbacks_quiet A"
  shows "(\<exists>e. ta_send A ByAuthority = Inl e \<and>
      (ta_isAbort A e \<and> authority_send A r = (WasAborted, log_event (TrySend ByAuthority) r) \<or>
       \<not> ta_isAbort A e \<and> authority_send A r = (WasError e, log_event (ReportedError e) (log_event (TrySend ByAuthority) r)))) \<or>
    (\<exists>s snap c. ta_send A ByAuthority = Inr s \<and> ta_apply A s (tr_state r) = (Inr snap, c) \<and>
       authority_send A r = (WasSent s ByAuthority, r\<lparr>tr_events := tr_events r @ [TrySend ByAuthority, Applied s, Notified s ByAuthority],
         tr_state := c, tr_watched := Some snap\<rparr>))"
  using sendAndApply_cases [OF assms, of ByAuthority r] by (auto simp: authority_send_def)

text \<open>A throw of a callback after the broadcast is reported as if nothing had been sent, and nothing watches the transaction.\<close>

lemma callback_throw_is_error:
  assumes "ta_send A ByPolicy = Inr s" "ta_apply A s c = (Inr snap, c')" "ta_onSent A s ByPolicy = Some (OtherFailure n)"
    and "\<not> ta_isAbort A (OtherFailure n)"
  shows "fst (runWalletTransaction A None c) = WasError (OtherFailure n) \<and>
    tr_state (snd (runWalletTransaction A None c)) = c' \<and> tr_watched (snd (runWalletTransaction A None c)) = None"
  using assms by (simp add: run_defs)

definition sent_of :: "send_outcome \<Rightarrow> (string \<times> tx_mode) option" where
  "sent_of out = (case out of WasSent s m \<Rightarrow> Some (s, m) | _ \<Rightarrow> None)"

definition applied_in :: "tx_event list \<Rightarrow> string list" where
  "applied_in evs = concat (map (\<lambda>e. case e of Applied s \<Rightarrow> [s] | _ \<Rightarrow> []) evs)"

definition tried_in :: "tx_event list \<Rightarrow> tx_mode list" where
  "tried_in evs = concat (map (\<lambda>e. case e of TrySend m \<Rightarrow> [m] | _ \<Rightarrow> []) evs)"

text \<open>Everything a run can do, by the answers it gets.\<close>

definition run_spec :: "('c, 's) tx_args \<Rightarrow> 'c \<Rightarrow> send_outcome \<Rightarrow> ('c, 's) tx_run \<Rightarrow> tx_mode list \<Rightarrow> bool" where
  "run_spec A c out r modes \<longleftrightarrow>
     tried_in (tr_events r) = modes \<and>
     (case sent_of out of
        Some (s, m) \<Rightarrow> ta_send A m = Inr s \<and> last modes = m \<and> applied_in (tr_events r) = [s] \<and>
          (\<exists>snap. tr_watched r = Some snap \<and> ta_apply A s c = (Inr snap, tr_state r))
      | None \<Rightarrow> applied_in (tr_events r) = [] \<and> tr_state r = c \<and> tr_watched r = None)"

lemma not_UseAuthority [simp]: "d \<noteq> UseAuthority \<longleftrightarrow> d = Refuse"
  by (cases d) simp_all

lemma run_spec_holds:
  assumes "callbacks_quiet A" "runWalletTransaction A preferred c = (out, r)"
  shows "run_spec A c out r [ByAuthority] \<and> preferred = Some ByAuthority \<or>
    run_spec A c out r [ByPolicy] \<and> preferred \<noteq> Some ByAuthority \<or>
    (\<exists>code. run_spec A c out r [ByPolicy, ByAuthority] \<and> preferred \<noteq> Some ByAuthority \<and>
       ta_send A ByPolicy = Inl (Denied code) \<and> \<not> isFundingDenial code \<and> ta_decide A (Denied code) = UseAuthority)"
proof -
  let ?r = "\<lparr>tr_events = [], tr_state = c, tr_watched = None :: 's option\<rparr>"
  note specs = run_spec_def sent_of_def applied_in_def tried_in_def log_event_def
  show ?thesis
  proof (cases "preferred = Some ByAuthority")
    case True
    with assms(2) have "authority_send A ?r = (out, r)" by (simp add: runWalletTransaction_def)
    with True authority_send_cases [OF assms(1), of ?r] show ?thesis by (auto simp: specs)
  next
    case False
    then have pol: "(case preferred of Some m \<Rightarrow> m | None \<Rightarrow> ByPolicy) = ByPolicy"
      by (cases preferred; cases "the preferred") auto
    show ?thesis
      using sendAndApply_cases [OF assms(1), of ByPolicy ?r]
    proof (elim disjE exE conjE)
      fix s snap c'
      assume "ta_send A ByPolicy = Inr s" "ta_apply A s (tr_state ?r) = (Inr snap, c')"
        "sendAndApply A ByPolicy ?r = (Inr (WasSent s ByPolicy),
           ?r\<lparr>tr_events := tr_events ?r @ [TrySend ByPolicy, Applied s, Notified s ByPolicy], tr_state := c', tr_watched := Some snap\<rparr>)"
      with False assms(2) pol show ?thesis by (auto simp: runWalletTransaction_def specs)
    next
      fix e
      assume e: "ta_send A ByPolicy = Inl e" "sendAndApply A ByPolicy ?r = (Inl e, log_event (TrySend ByPolicy) ?r)"
      show ?thesis
      proof (cases "\<exists>code. e = Denied code \<and> \<not> ta_isAbort A e \<and> \<not> isFundingDenial code \<and> ta_decide A e = UseAuthority")
        case True
        then obtain code where code: "e = Denied code" "\<not> ta_isAbort A e" "\<not> isFundingDenial code" "ta_decide A e = UseAuthority"
          by blast
        let ?q = "log_event (AskedOwner e) (log_event (TrySend ByPolicy) ?r)"
        from assms(2) pol e code have "authority_send A ?q = (out, r)" by (simp add: runWalletTransaction_def Let_def)
        with authority_send_cases [OF assms(1), of ?q] have "run_spec A c out r [ByPolicy, ByAuthority]" by (auto simp: specs)
        with False e(1) code show ?thesis by blast
      next
        case other: False
        with assms(2) pol e have "run_spec A c out r [ByPolicy]"
          by (cases e) (auto simp: runWalletTransaction_def specs Let_def split: if_splits)
        with False show ?thesis by blast
      qed
    qed
  qed
qed


lemma hook_args_simps [simp]:
  "ta_apply (hook_args A a d answer) = ta_apply A" "ta_onSent (hook_args A a d answer) = ta_onSent A"
  "ta_send (hook_args A a d answer) ByPolicy = ta_send A ByPolicy"
  "ta_send (hook_args A a d answer) ByAuthority = sendWithAuthority a (ta_send A ByAuthority)"
  "ta_decide (hook_args A a d answer) e = resolvePolicyDenial d answer"
  "callbacks_quiet (hook_args A a d answer) = callbacks_quiet A"
  by (simp_all add: hook_args_def callbacks_quiet_def)

lemma sendWithAuthority_Inr [simp]: "sendWithAuthority live x = Inr s \<longleftrightarrow> signed_in live \<and> x = Inr s"
  by (simp add: sendWithAuthority_def)

subsection \<open>Runs with callbacks that throw\<close>

text \<open>
  What comes out of the callbacks after the broadcast, if they throw; the error of the attempt by the policy, from
  the send or from the callbacks; the sends that were accepted among the ones tried; what they make of
  the state; and that after each of them a callback threw.
\<close>

definition callback_failure :: "('c, 's) tx_args \<Rightarrow> string \<Rightarrow> tx_mode \<Rightarrow> 'c \<Rightarrow> send_failure option" where
  "callback_failure A s m c = (case fst (ta_apply A s c) of Inl e \<Rightarrow> Some e | Inr _ \<Rightarrow> ta_onSent A s m)"

definition policy_failure :: "('c, 's) tx_args \<Rightarrow> 'c \<Rightarrow> send_failure option" where
  "policy_failure A c = (case ta_send A ByPolicy of Inl e \<Rightarrow> Some e | Inr s \<Rightarrow> callback_failure A s ByPolicy c)"

definition accepted :: "('c, 's) tx_args \<Rightarrow> tx_mode list \<Rightarrow> (string \<times> tx_mode) list" where
  "accepted A modes = concat (map (\<lambda>m. case ta_send A m of Inl _ \<Rightarrow> [] | Inr s \<Rightarrow> [(s, m)]) modes)"

definition effects :: "('c, 's) tx_args \<Rightarrow> (string \<times> tx_mode) list \<Rightarrow> 'c \<Rightarrow> 'c" where
  "effects A sent c = foldl (\<lambda>c (s, m). snd (ta_apply A s c)) c sent"

fun all_threw :: "('c, 's) tx_args \<Rightarrow> (string \<times> tx_mode) list \<Rightarrow> 'c \<Rightarrow> bool" where
  "all_threw A [] c \<longleftrightarrow> True"
| "all_threw A ((s, m) # sent) c \<longleftrightarrow> callback_failure A s m c \<noteq> None \<and> all_threw A sent (snd (ta_apply A s c))"

lemma effects_simps [simp]:
  "effects A [] c = c" "effects A ((s, m) # sent) c = effects A sent (snd (ta_apply A s c))"
  "effects A (xs @ ys) c = effects A ys (effects A xs c)"
  by (simp_all add: effects_def)

lemma all_threw_append [simp]: "all_threw A (xs @ ys) c \<longleftrightarrow> all_threw A xs c \<and> all_threw A ys (effects A xs c)"
  by (induction A xs c rule: all_threw.induct) auto

lemma accepted_append [simp]: "accepted A (ms @ ns) = accepted A ms @ accepted A ns"
  by (simp add: accepted_def)

lemma tried_simps [simp]:
  "tried_in (evs @ evs') = tried_in evs @ tried_in evs'" "tried_in [] = []"
  "tried_in (TrySend m # evs) = m # tried_in evs" "tried_in (Applied s # evs) = tried_in evs"
  "tried_in (Notified s m # evs) = tried_in evs" "tried_in (AskedOwner e # evs) = tried_in evs"
  "tried_in (FundingDenied e # evs) = tried_in evs" "tried_in (ReportedError e # evs) = tried_in evs"
  by (simp_all add: tried_in_def)

text \<open>A run so far, in which no attempt has come to its end.\<close>

definition unsettled :: "('c, 's) tx_args \<Rightarrow> 'c \<Rightarrow> ('c, 's) tx_run \<Rightarrow> tx_mode list \<Rightarrow> bool" where
  "unsettled A c r modes \<longleftrightarrow> tried_in (tr_events r) = modes \<and> tr_state r = effects A (accepted A modes) c \<and>
     all_threw A (accepted A modes) c \<and> tr_watched r = None"

definition run_reports :: "('c, 's) tx_args \<Rightarrow> 'c \<Rightarrow> send_outcome \<Rightarrow> ('c, 's) tx_run \<Rightarrow> tx_mode list \<Rightarrow> bool" where
  "run_reports A c out r modes \<longleftrightarrow> tried_in (tr_events r) = modes \<and> tr_state r = effects A (accepted A modes) c \<and>
     (case sent_of out of
        None \<Rightarrow> all_threw A (accepted A modes) c \<and> tr_watched r = None
      | Some (s, m) \<Rightarrow> \<exists>before snap. accepted A modes = before @ [(s, m)] \<and> all_threw A before c \<and>
          fst (ta_apply A s (effects A before c)) = Inr snap \<and> ta_onSent A s m = None \<and> tr_watched r = Some snap)"

lemma unsettled_log:
  "unsettled A c r modes \<Longrightarrow> unsettled A c (log_event (AskedOwner e) r) modes"
  "unsettled A c r modes \<Longrightarrow> unsettled A c (log_event (FundingDenied e) r) modes"
  "unsettled A c r modes \<Longrightarrow> unsettled A c (log_event (ReportedError e) r) modes"
  by (simp_all add: unsettled_def log_event_def)

lemma unsettled_reports: "unsettled A c r modes \<Longrightarrow> sent_of out = None \<Longrightarrow> run_reports A c out r modes"
  by (simp add: unsettled_def run_reports_def)

lemma sendAndApply_general:
  assumes "unsettled A c r modes" "sendAndApply A m r = (res, r')"
  shows "case res of
      Inl e \<Rightarrow> unsettled A c r' (modes @ [m]) \<and>
        (case ta_send A m of Inl e' \<Rightarrow> e' = e | Inr s \<Rightarrow> callback_failure A s m (tr_state r) = Some e)
    | Inr out \<Rightarrow> run_reports A c out r' (modes @ [m]) \<and> sent_of out \<noteq> None"
proof (cases "ta_send A m")
  case (Inl e)
  with assms show ?thesis by (auto simp: sendAndApply_def unsettled_def accepted_def log_event_def)
next
  case (Inr s)
  obtain res0 c' where ap: "ta_apply A s (tr_state r) = (res0, c')" by force
  show ?thesis
  proof (cases res0)
    case (Inl e)
    with Inr ap assms show ?thesis
      by (auto simp: run_defs unsettled_def accepted_def callback_failure_def)
  next
    case snap: (Inr snap)
    show ?thesis
    proof (cases "ta_onSent A s m")
      case None
      with snap Inr ap assms show ?thesis
        by (auto simp: run_defs unsettled_def run_reports_def accepted_def callback_failure_def sent_of_def)
    next
      case (Some e)
      with snap Inr ap assms show ?thesis
        by (auto simp: run_defs unsettled_def accepted_def callback_failure_def)
    qed
  qed
qed

lemma authority_send_general:
  assumes "unsettled A c r modes" "authority_send A r = (out, r')"
  shows "run_reports A c out r' (modes @ [ByAuthority])"
proof -
  obtain res r1 where s: "sendAndApply A ByAuthority r = (res, r1)" by force
  from sendAndApply_general [OF assms(1) s] assms(2) show ?thesis
    by (cases res) (auto simp: authority_send_def s sent_of_def intro!: unsettled_reports unsettled_log split: if_splits)
qed

lemma run_general:
  assumes "runWalletTransaction A preferred c = (out, r)"
  shows "run_reports A c out r [ByAuthority] \<and> preferred = Some ByAuthority \<or>
    run_reports A c out r [ByPolicy] \<and> preferred \<noteq> Some ByAuthority \<or>
    (\<exists>code. run_reports A c out r [ByPolicy, ByAuthority] \<and> preferred \<noteq> Some ByAuthority \<and>
       policy_failure A c = Some (Denied code) \<and> \<not> isFundingDenial code \<and> ta_decide A (Denied code) = UseAuthority)"
proof -
  let ?r = "\<lparr>tr_events = [], tr_state = c, tr_watched = None\<rparr>"
  have start: "unsettled A c ?r []" by (simp add: unsettled_def accepted_def)
  show ?thesis
  proof (cases "preferred = Some ByAuthority")
    case True
    with assms have "authority_send A ?r = (out, r)" by (simp add: runWalletTransaction_def)
    from authority_send_general [OF start this] True show ?thesis by simp
  next
    case False
    then have pol: "(case preferred of Some m \<Rightarrow> m | None \<Rightarrow> ByPolicy) = ByPolicy"
      by (cases preferred; cases "the preferred") auto
    obtain res r1 where s: "sendAndApply A ByPolicy ?r = (res, r1)" by force
    note g = sendAndApply_general [OF start s]
    show ?thesis
    proof (cases res)
      case (Inr out')
      with g s pol assms False show ?thesis by (simp add: runWalletTransaction_def)
    next
      case (Inl e)
      with g have u: "unsettled A c r1 [ByPolicy]" and pf: "policy_failure A c = Some e"
        by (auto simp: policy_failure_def split: sum.splits)
      show ?thesis
      proof (cases "\<exists>code. e = Denied code \<and> \<not> ta_isAbort A e \<and> \<not> isFundingDenial code \<and> ta_decide A e = UseAuthority")
        case True
        then obtain code where code: "e = Denied code" "\<not> ta_isAbort A e" "\<not> isFundingDenial code" "ta_decide A e = UseAuthority"
          by blast
        from assms pol s Inl code have "authority_send A (log_event (AskedOwner e) r1) = (out, r)"
          by (simp add: runWalletTransaction_def Let_def)
        from authority_send_general [OF unsettled_log(1) [OF u] this] False pf code show ?thesis by auto
      next
        case other: False
        with assms pol s Inl u have "run_reports A c out r [ByPolicy]"
          by (cases e) (auto simp: runWalletTransaction_def Let_def sent_of_def intro!: unsettled_reports unsettled_log split: if_splits)
        with False show ?thesis by blast
      qed
    qed
  qed
qed

lemma hook_failure [simp]:
  "callback_failure (hook_args A a d answer) = callback_failure A" "effects (hook_args A a d answer) = effects A"
  "policy_failure (hook_args A a d answer) c = policy_failure A c"
  by (auto simp: callback_failure_def effects_def policy_failure_def fun_eq_iff split: sum.splits)

lemma hook_threw [simp]: "all_threw (hook_args A a d answer) sent c = all_threw A sent c"
  by (induction A sent c rule: all_threw.induct) auto

lemma hook_accepted:
  "(s, m) \<in> set (accepted (hook_args A at_send d answer) modes) \<Longrightarrow> ta_send A m = Inr s \<and> (m = ByAuthority \<longrightarrow> signed_in at_send)"
proof -
  assume "(s, m) \<in> set (accepted (hook_args A at_send d answer) modes)"
  then have "ta_send (hook_args A at_send d answer) m = Inr s" by (auto simp: accepted_def split: sum.splits)
  then show ?thesis by (cases m) auto
qed

text \<open>
  C27: Spending needs consent, and the screen follows the chain.  The authority of a token is only asked to
  sign in two cases.  Either the call site asked for it or the session is the owner's (browsing), and the wallet is
  signed in and is not another than the token's authority; a call site that asks for it needs no session
  of the owner.  Or the attempt by the policy ended in a denial (not for lack of fees) and the owner
  approved in the sheet only the owner gets.  A send by the authority is accepted only from a signed-in
  wallet.  The state is what the updates for the accepted sends, in their order, make of it.  If the run
  reports a signature, it is the last accepted one, neither of its callbacks threw, and exactly then a
  confirmation is awaited, for its snapshot; after every other accepted send a callback threw.  So a run
  that reports no signature has changed nothing, unless a callback threw after the broadcast: then the
  transaction is out and nothing awaits it.
\<close>
theorem spending_needs_consent:
  assumes "hook_run (hook_args A at_send at_denial answer) requested live login c = (out, r)"
  shows "(ByAuthority \<in> set (tried_in (tr_events r)) \<longrightarrow>
      (requested = Some ByAuthority \<or> requested = None \<and> lo_ownerBrowse live) \<and>
        (\<exists>now. (now = live \<or> login = Some now) \<and> signed_in now \<and>
           (truthy (lo_authority now) \<longrightarrow> lo_authority now = lo_address now)) \<or>
      (\<exists>code. policy_failure A c = Some (Denied code) \<and> \<not> isFundingDenial code) \<and> answer = UseAuthority \<and>
        approval_mode_of at_denial = OwnerSheet) \<and>
    (\<exists>sent. sent = accepted (hook_args A at_send at_denial answer) (tried_in (tr_events r)) \<and>
       (\<forall>(s, m) \<in> set sent. ta_send A m = Inr s \<and> (m = ByAuthority \<longrightarrow> signed_in at_send)) \<and>
       tr_state r = effects A sent c \<and>
       (case sent_of out of
          Some (s, m) \<Rightarrow> \<exists>before snap. sent = before @ [(s, m)] \<and> all_threw A before c \<and>
            fst (ta_apply A s (effects A before c)) = Inr snap \<and> ta_onSent A s m = None \<and> tr_watched r = Some snap
        | None \<Rightarrow> all_threw A sent c \<and> tr_watched r = None))"
proof -
  let ?A = "hook_args A at_send at_denial answer"
  let ?auth = "requested = Some ByAuthority \<or> requested = None \<and> lo_ownerBrowse live"
  have pref: "(case requested of Some m \<Rightarrow> m | None \<Rightarrow> if lo_ownerBrowse live then ByAuthority else ByPolicy) = ByAuthority \<longleftrightarrow> ?auth"
    by (auto split: option.splits)
  have spec: "\<exists>sent. sent = accepted ?A (tried_in (tr_events r)) \<and>
       (\<forall>(s, m) \<in> set sent. ta_send A m = Inr s \<and> (m = ByAuthority \<longrightarrow> signed_in at_send)) \<and>
       tr_state r = effects A sent c \<and>
       (case sent_of out of
          Some (s, m) \<Rightarrow> \<exists>before snap. sent = before @ [(s, m)] \<and> all_threw A before c \<and>
            fst (ta_apply A s (effects A before c)) = Inr snap \<and> ta_onSent A s m = None \<and> tr_watched r = Some snap
        | None \<Rightarrow> all_threw A sent c \<and> tr_watched r = None)"
    if "run_reports ?A c out r modes" for modes
  proof -
    have "\<forall>(s, m) \<in> set (accepted ?A modes). ta_send A m = Inr s \<and> (m = ByAuthority \<longrightarrow> signed_in at_send)"
      using hook_accepted by blast
    with that show ?thesis by (cases "sent_of out"; cases "the (sent_of out)") (simp_all add: run_reports_def)
  qed
  show ?thesis
  proof (cases ?auth)
    case True
    show ?thesis
    proof (cases "tr_events r = [] \<and> tr_state r = c \<and> tr_watched r = None \<and> out = WasAborted")
      case nothing: True
      then show ?thesis by (simp add: accepted_def sent_of_def)
    next
      case False
      with assms True pref obtain now where now: "now = live \<or> login = Some now" "signed_in now"
        "truthy (lo_authority now) \<longrightarrow> lo_authority now = lo_address now"
        and run: "runWalletTransaction ?A (Some ByAuthority) c = (out, r)"
        by (auto simp: hook_run_def Let_def split: if_splits option.splits)
      have "run_reports ?A c out r [ByAuthority]" using run_general [OF run] by simp
      from spec [OF this] now True show ?thesis by blast
    qed
  next
    case False
    with assms pref have run: "runWalletTransaction ?A (Some ByPolicy) c = (out, r)" by (simp add: hook_run_def)
    have tried: "tried_in (tr_events r) = modes" if "run_reports ?A c out r modes" for modes using that by (simp add: run_reports_def)
    from run_general [OF run] consider (one) "run_reports ?A c out r [ByPolicy]"
      | (two) code where "run_reports ?A c out r [ByPolicy, ByAuthority]" "policy_failure A c = Some (Denied code)"
          "\<not> isFundingDenial code" "resolvePolicyDenial at_denial answer = UseAuthority" by auto
    then show ?thesis
    proof cases
      case one
      with spec [OF one] tried [OF one] show ?thesis by simp
    next
      case two
      from two(4) have "answer = UseAuthority \<and> approval_mode_of at_denial = OwnerSheet"
        by (simp add: resolvePolicyDenial_def split: if_splits)
      with two(2,3) spec [OF two(1)] show ?thesis by blast
    qed
  qed
qed

definition sample_tx_args :: "(string list, string) tx_args" where
  "sample_tx_args =
     \<lparr>ta_send = (\<lambda>m. if m = ByPolicy then Inl (Denied ''spend_limit'') else Inr ''sig''),
      ta_apply = (\<lambda>s c. (Inr s, s # c)), ta_confirm = (\<lambda>s c. c), ta_rollback = (\<lambda>s c. removeAll s c),
      ta_onSent = (\<lambda>s m. None), ta_decide = (\<lambda>e. Refuse), ta_isAbort = (\<lambda>e. False)\<rparr>"

definition sample_live :: live_owner where
  "sample_live = \<lparr>lo_address = Some ''owner'', lo_signer = True, lo_authority = Some ''owner'', lo_ownerBrowse = False\<rparr>"

theorem spending_needs_consent_witness:
  "\<exists>r before. hook_run (hook_args sample_tx_args sample_live sample_live UseAuthority) None sample_live None [] = (WasSent ''sig'' ByAuthority, r) \<and>
     accepted (hook_args sample_tx_args sample_live sample_live UseAuthority) (tried_in (tr_events r)) = before @ [(''sig'', ByAuthority)] \<and>
     tr_watched r = Some ''sig''"
proof -
  let ?r = "snd (hook_run (hook_args sample_tx_args sample_live sample_live UseAuthority) None sample_live None [])"
  have run: "hook_run (hook_args sample_tx_args sample_live sample_live UseAuthority) None sample_live None [] =
      (WasSent ''sig'' ByAuthority, ?r)" by code_simp
  have out: "sent_of (WasSent ''sig'' ByAuthority) = Some (''sig'', ByAuthority)" by (simp add: sent_of_def)
  from spending_needs_consent [OF run] obtain before snap where
    "accepted (hook_args sample_tx_args sample_live sample_live UseAuthority) (tried_in (tr_events ?r)) = before @ [(''sig'', ByAuthority)]"
    "fst (ta_apply sample_tx_args ''sig'' (effects sample_tx_args before [])) = Inr snap" "tr_watched ?r = Some snap"
    by (auto simp: out)
  then show ?thesis using run by (auto simp: sample_tx_args_def)
qed

end
