(* ===== verification/PolicyEditor.thy ===== *)
theory PolicyEditor
  imports AppSend
begin

text \<open>
  The spending limits of an accessory in the web application: how the policy account is read
  (\<open>app/src/hooks/token/use-wallet-policy.ts\<close>), what the cache holds after a change
  (\<open>lib/queries/mutations.ts\<close>), the presets (\<open>lib/wallet/policy-presets.ts\<close>, \<open>policy-format.ts\<close>) and
  the editor (\<open>components/wallet/policy-limit-editor.tsx\<close>) as a state machine over what its user does.
\<close>

subsection \<open>The policy as it is shown\<close>

record spend_cap =
  cv_cap :: int
  cv_remaining :: int
  cv_lastReset :: int
  cv_window :: int

datatype access_kind = AllowAll | DenyAll | CustomRules

record permission_view =
  pv_programId :: string
  pv_kind :: access_kind
  pv_access :: access_arg

datatype policy_status = NoAuthority | OpenPolicy | StandardPolicy | LimitedPolicy

record policy_view =
  wv_status :: policy_status
  wv_hasLimits :: bool
  wv_solCap :: "spend_cap option"
  wv_mintCaps :: "(string \<times> spend_cap) list"
  wv_permissions :: "permission_view list"

definition accessKind :: "access_arg \<Rightarrow> access_kind" where
  "accessKind a = (case a of ArgAllInstructions \<Rightarrow> AllowAll | ArgDenied \<Rightarrow> DenyAll | ArgRestricted _ \<Rightarrow> CustomRules)"

text \<open>The decoded authority account, as far as its policy is concerned.\<close>

record authority_account =
  au_policyVersion :: nat
  au_solCap :: spend_cap
  au_mintCaps :: "(string \<times> spend_cap) list"
  au_permissions :: "(string \<times> access_arg) list"

definition NONE_POLICY_VIEW :: policy_view where
  "NONE_POLICY_VIEW =
     \<lparr>wv_status = NoAuthority, wv_hasLimits = False, wv_solCap = None, wv_mintCaps = [], wv_permissions = []\<rparr>"

definition STANDARD_POLICY_VIEW :: policy_view where
  "STANDARD_POLICY_VIEW = NONE_POLICY_VIEW\<lparr>wv_status := StandardPolicy\<rparr>"

definition OPEN_POLICY_VIEW :: policy_view where
  "OPEN_POLICY_VIEW = NONE_POLICY_VIEW\<lparr>wv_status := OpenPolicy\<rparr>"

definition wallet_policy_view :: "authority_account option \<Rightarrow> policy_view" where
  "wallet_policy_view account =
     (case account of
        None \<Rightarrow> NONE_POLICY_VIEW
      | Some a \<Rightarrow>
          let solActive = cv_cap (au_solCap a) \<noteq> 0;
              activeMintCaps = filter (\<lambda>m. cv_cap (snd m) \<noteq> 0) (au_mintCaps a);
              permissions = map (\<lambda>(p, x). \<lparr>pv_programId = p, pv_kind = accessKind x, pv_access = x\<rparr>) (au_permissions a);
              hasLimits = (solActive \<or> 0 < length activeMintCaps \<or> 0 < length permissions) in
          \<lparr>wv_status = (if au_policyVersion a = 0 then OpenPolicy else if hasLimits then LimitedPolicy else StandardPolicy),
           wv_hasLimits = hasLimits, wv_solCap = (if solActive then Some (au_solCap a) else None),
           wv_mintCaps = activeMintCaps, wv_permissions = permissions\<rparr>)"

text \<open>A change of the policy; the access of a permission is missing when a draft has none to keep.\<close>

record submission =
  sb_solCap :: "(int \<times> int) option"
  sb_mintCaps :: "(string \<times> int \<times> int) list"
  sb_permissions :: "(string \<times> access_arg) list"

definition optimisticCapView :: "int \<times> int \<Rightarrow> spend_cap option \<Rightarrow> int \<Rightarrow> spend_cap" where
  "optimisticCapView next previous nowSeconds =
     (let fresh = \<lparr>cv_cap = fst next, cv_remaining = fst next, cv_lastReset = nowSeconds, cv_window = snd next\<rparr> in
      case previous of
        None \<Rightarrow> fresh
      | Some p \<Rightarrow> if cv_cap p = fst next \<and> cv_window p = snd next then p else fresh)"

definition buildOptimisticWalletPolicyView :: "submission \<Rightarrow> policy_view option \<Rightarrow> int \<Rightarrow> policy_view" where
  "buildOptimisticWalletPolicyView input previous nowSeconds =
     (let previousByMint = map_of (rev (case previous of Some v \<Rightarrow> wv_mintCaps v | None \<Rightarrow> []));
          sol = map_option (\<lambda>c. optimisticCapView c (Option.bind previous wv_solCap) nowSeconds) (sb_solCap input);
          mints = map (\<lambda>(m, c). (m, optimisticCapView c (previousByMint m) nowSeconds)) (sb_mintCaps input);
          permissions = map (\<lambda>(p, x). \<lparr>pv_programId = p, pv_kind = accessKind x, pv_access = x\<rparr>) (sb_permissions input);
          hasLimits = (sol \<noteq> None \<or> 0 < length mints \<or> 0 < length permissions) in
      \<lparr>wv_status = (if hasLimits then LimitedPolicy else StandardPolicy), wv_hasLimits = hasLimits,
       wv_solCap = sol, wv_mintCaps = mints, wv_permissions = permissions\<rparr>)"

subsection \<open>Formats and presets\<close>

definition SOL_DECIMALS :: nat where "SOL_DECIMALS = 9"
definition WSOL_MINT_2022 :: string where "WSOL_MINT_2022 = ''9pan9bMn5HatX4EJdBwg9VgCa7Uz5HL8N1m5D3NdXejP''"

definition isSolLikeMint :: "string \<Rightarrow> bool" where
  "isSolLikeMint mint \<longleftrightarrow> mint = APP_SOL_MINT \<or> mint = WSOL_MINT_2022"

definition POLICY_WINDOW_PRESETS :: "(int \<times> string) list" where
  "POLICY_WINDOW_PRESETS = [(86400, ''Every day''), (604800, ''Every week''), (2592000, ''Every month''), (0, ''One-time'')]"

definition windowLabel :: "int \<Rightarrow> string" where
  "windowLabel w = (case map_of POLICY_WINDOW_PRESETS w of Some l \<Rightarrow> l | None \<Rightarrow> ''One-time'')"

definition lamportsToSol :: "int \<Rightarrow> string" where
  "lamportsToSol lamports = formatAmount lamports SOL_DECIMALS"

record policy_preset =
  po_id :: string
  po_solCap :: "(int \<times> int) option"
  po_mintCaps :: "(string \<times> int \<times> int) list"

definition POLICY_PRESET_WINDOW :: int where "POLICY_PRESET_WINDOW = 604800"

text \<open>\<open>getUsdcMint()\<close> of the application: an override, or the mint of the cluster.\<close>

definition app_getUsdcMint :: "std_kit \<Rightarrow> string option \<Rightarrow> bool \<Rightarrow> send_error + address" where
  "app_getUsdcMint K override mainnet =
     (if trimmed_text override \<noteq> '''' then to_address K (trimmed_text override)
      else Inr (if mainnet then ''EPjFWdd5AufqSSqeM2qN1xzybapC8G4wEGGkZwyTDt1v''
                else ''4zMMC9srt5Ri5X14GAgXhaHii3GnPAEERYPJgZJDnm3''))"

definition policyPresets :: "string \<Rightarrow> amount_error + policy_preset list" where
  "policyPresets usdc =
     (let week = POLICY_PRESET_WINDOW in
      obind (uiAmountToRaw ''0.5'' SOL_DECIMALS) (\<lambda>half.
      obind (uiAmountToRaw ''50'' 6) (\<lambda>fifty.
      Inr [\<lparr>po_id = ''sol'', po_solCap = Some (half, week), po_mintCaps = []\<rparr>,
           \<lparr>po_id = ''usdc'', po_solCap = None, po_mintCaps = [(usdc, fifty, week)]\<rparr>,
           \<lparr>po_id = ''sol_usdc'', po_solCap = Some (half, week), po_mintCaps = [(usdc, fifty, week)]\<rparr>])))"

subsection \<open>The editor\<close>

record cap_draft =
  cd_mint :: string
  cd_symbol :: string
  cd_decimals :: "nat option"
  cd_amount :: string
  cd_window :: int
  cd_raw :: int

record token_info =
  ti_mint :: string
  ti_symbol :: string
  ti_decimals :: nat

record program_draft =
  dr_programId :: string
  dr_kind :: access_kind
  dr_access :: "access_arg option"

definition MAX_MINT_CAPS :: nat where "MAX_MINT_CAPS = 8"
definition DEFAULT_POLICY_WINDOW :: int where "DEFAULT_POLICY_WINDOW = 604800"

definition SOL_TOKEN :: token_info where
  "SOL_TOKEN = \<lparr>ti_mint = APP_SOL_MINT, ti_symbol = ''SOL'', ti_decimals = SOL_DECIMALS\<rparr>"

definition assetCatalog :: "token_info list \<Rightarrow> token_info list" where
  "assetCatalog tokens =
     (let withoutWrappedSol = filter (\<lambda>t. \<not> (isSolLikeMint (ti_mint t) \<and> ti_mint t \<noteq> APP_SOL_MINT)) tokens in
      if \<exists>t \<in> set withoutWrappedSol. ti_mint t = APP_SOL_MINT then withoutWrappedSol
      else SOL_TOKEN # withoutWrappedSol)"

text \<open>\<open>new Map(tokens.map(...))\<close>: the last token of a mint wins.\<close>

definition indexByMint :: "token_info list \<Rightarrow> string \<Rightarrow> token_info option" where
  "indexByMint tokens = map_of (rev (map (\<lambda>t. (ti_mint t, t)) tokens))"

text \<open>\<open>shortAddress\<close> is only a label and a parameter.\<close>

definition mint_draft :: "(string \<Rightarrow> string) \<Rightarrow> token_info option \<Rightarrow> string \<times> int \<times> int \<Rightarrow> cap_draft" where
  "mint_draft shortAddress token m =
     (case m of (mint, cap, window) \<Rightarrow>
        \<lparr>cd_mint = mint, cd_symbol = (case token of Some t \<Rightarrow> ti_symbol t | None \<Rightarrow> shortAddress mint),
         cd_decimals = map_option ti_decimals token,
         cd_amount = (case token of Some t \<Rightarrow> formatAmount cap (ti_decimals t) | None \<Rightarrow> ''''),
         cd_window = window, cd_raw = cap\<rparr>)"

definition sol_draft :: "int \<times> int \<Rightarrow> cap_draft" where
  "sol_draft c =
     \<lparr>cd_mint = APP_SOL_MINT, cd_symbol = ''SOL'', cd_decimals = Some SOL_DECIMALS, cd_amount = lamportsToSol (fst c),
      cd_window = snd c, cd_raw = fst c\<rparr>"

definition initialDrafts :: "(string \<Rightarrow> string) \<Rightarrow> spend_cap option \<Rightarrow> (string \<times> spend_cap) list \<Rightarrow> (string \<Rightarrow> token_info option) \<Rightarrow> cap_draft list" where
  "initialDrafts shortAddress sol mints byMint =
     (case sol of Some c \<Rightarrow> [sol_draft (cv_cap c, cv_window c)] | None \<Rightarrow> []) @
     map (\<lambda>(m, c). mint_draft shortAddress (byMint m) (m, cv_cap c, cv_window c)) mints"

definition draftsFromPreset :: "policy_preset \<Rightarrow> (string \<Rightarrow> token_info option) \<Rightarrow> cap_draft list" where
  "draftsFromPreset preset byMint =
     (case po_solCap preset of Some c \<Rightarrow> [sol_draft c] | None \<Rightarrow> []) @
     map (\<lambda>(mint, cap, window).
       let decimals = (case byMint mint of Some t \<Rightarrow> ti_decimals t | None \<Rightarrow> 6) in
       \<lparr>cd_mint = mint, cd_symbol = (case byMint mint of Some t \<Rightarrow> ti_symbol t | None \<Rightarrow> ''USDC''),
        cd_decimals = Some decimals, cd_amount = formatAmount cap decimals, cd_window = window, cd_raw = cap\<rparr>)
       (po_mintCaps preset)"

definition programAccessArg :: "program_draft \<Rightarrow> access_arg option" where
  "programAccessArg d =
     (case dr_kind d of AllowAll \<Rightarrow> Some ArgAllInstructions | DenyAll \<Rightarrow> Some ArgDenied | CustomRules \<Rightarrow> dr_access d)"

datatype allow_confirm = SwitchTo string | SaveAnyway

datatype editor_error = AmountError amount_error | ProgramInvalid | ProgramDuplicate

record editor =
  ed_catalog :: "token_info list"
  ed_hadLimits :: bool
  ed_drafts :: "cap_draft list"
  ed_programs :: "program_draft list"
  ed_newProgram :: string
  ed_errors :: "(string \<times> editor_error) list"
  ed_confirm :: "allow_confirm option"
  ed_submitted :: "submission list"

definition new_editor :: "(string \<Rightarrow> string) \<Rightarrow> token_info list \<Rightarrow> policy_view \<Rightarrow> editor" where
  "new_editor shortAddress tokens v =
     (let catalog = assetCatalog tokens in
      \<lparr>ed_catalog = catalog, ed_hadLimits = (wv_solCap v \<noteq> None \<or> wv_mintCaps v \<noteq> []),
       ed_drafts = initialDrafts shortAddress (wv_solCap v) (wv_mintCaps v) (indexByMint catalog),
       ed_programs = map (\<lambda>p. \<lparr>dr_programId = pv_programId p, dr_kind = pv_kind p, dr_access = Some (pv_access p)\<rparr>) (wv_permissions v),
       ed_newProgram = '''', ed_errors = [], ed_confirm = None, ed_submitted = []\<rparr>)"

definition mintDraftCount :: "cap_draft list \<Rightarrow> nat" where
  "mintDraftCount drafts = length (filter (\<lambda>d. cd_mint d \<noteq> APP_SOL_MINT) drafts)"

definition addable :: "editor \<Rightarrow> token_info list" where
  "addable s =
     filter (\<lambda>t.
       \<not> ti_mint t \<in> set (map cd_mint (ed_drafts s)) \<and>
       \<not> (isSolLikeMint (ti_mint t) \<and> ti_mint t \<noteq> APP_SOL_MINT) \<and>
       \<not> (ti_mint t \<noteq> APP_SOL_MINT \<and> MAX_MINT_CAPS \<le> mintDraftCount (ed_drafts s))) (ed_catalog s)"

definition updateDraft :: "string \<Rightarrow> (cap_draft \<Rightarrow> cap_draft) \<Rightarrow> editor \<Rightarrow> editor" where
  "updateDraft mint patch s = s\<lparr>ed_drafts := map (\<lambda>d. if cd_mint d = mint then patch d else d) (ed_drafts s)\<rparr>"

definition removeDraft :: "string \<Rightarrow> editor \<Rightarrow> editor" where
  "removeDraft mint s =
     s\<lparr>ed_drafts := filter (\<lambda>d. cd_mint d \<noteq> mint) (ed_drafts s), ed_errors := filter (\<lambda>(k, _). k \<noteq> mint) (ed_errors s)\<rparr>"

definition addToken :: "token_info \<Rightarrow> editor \<Rightarrow> editor" where
  "addToken token s =
     s\<lparr>ed_drafts := ed_drafts s @
       [\<lparr>cd_mint = ti_mint token, cd_symbol = ti_symbol token, cd_decimals = Some (ti_decimals token), cd_amount = '''',
         cd_window = DEFAULT_POLICY_WINDOW, cd_raw = 0\<rparr>]\<rparr>"

definition applyPreset :: "policy_preset \<Rightarrow> editor \<Rightarrow> editor" where
  "applyPreset preset s = s\<lparr>ed_drafts := draftsFromPreset preset (indexByMint (ed_catalog s))\<rparr>"

definition addProgram :: "std_kit \<Rightarrow> editor \<Rightarrow> editor" where
  "addProgram K s =
     (let pid = trim (ed_newProgram s); others = filter (\<lambda>(k, _). k \<noteq> ''newProgram'') (ed_errors s) in
      if pid = '''' \<or> \<not> sw_isAddress K pid then s\<lparr>ed_errors := (''newProgram'', ProgramInvalid) # others\<rparr>
      else if \<exists>p \<in> set (ed_programs s). dr_programId p = pid then s\<lparr>ed_errors := (''newProgram'', ProgramDuplicate) # others\<rparr>
      else s\<lparr>ed_programs := ed_programs s @ [\<lparr>dr_programId = pid, dr_kind = DenyAll, dr_access = None\<rparr>],
             ed_newProgram := '''', ed_errors := others\<rparr>)"

definition set_kind :: "string \<Rightarrow> access_kind \<Rightarrow> editor \<Rightarrow> editor" where
  "set_kind programId kind s =
     s\<lparr>ed_programs := map (\<lambda>p. if dr_programId p = programId then p\<lparr>dr_kind := kind\<rparr> else p) (ed_programs s)\<rparr>"

definition setProgramKind :: "string \<Rightarrow> access_kind \<Rightarrow> editor \<Rightarrow> editor" where
  "setProgramKind programId kind s =
     (if kind = AllowAll then s\<lparr>ed_confirm := Some (SwitchTo programId)\<rparr> else set_kind programId kind s)"

definition removeProgram :: "string \<Rightarrow> editor \<Rightarrow> editor" where
  "removeProgram programId s = s\<lparr>ed_programs := filter (\<lambda>p. dr_programId p \<noteq> programId) (ed_programs s)\<rparr>"

text \<open>What a draft says: the cap it sets, or why it cannot be read.\<close>

definition draft_cap :: "cap_draft \<Rightarrow> amount_error + int" where
  "draft_cap d =
     (if cd_mint d = APP_SOL_MINT then uiAmountToRaw (cd_amount d) SOL_DECIMALS
      else case cd_decimals d of None \<Rightarrow> Inr (cd_raw d) | Some k \<Rightarrow> uiAmountToRaw (cd_amount d) k)"

definition draft_error :: "cap_draft \<Rightarrow> (string \<times> editor_error) list" where
  "draft_error d = (case draft_cap d of Inl e \<Rightarrow> [(cd_mint d, AmountError e)] | Inr _ \<Rightarrow> [])"

definition draft_entry :: "cap_draft \<Rightarrow> (string \<times> int \<times> int) list" where
  "draft_entry d = (case draft_cap d of Inl _ \<Rightarrow> [] | Inr cap \<Rightarrow> [(cd_mint d, cap, cd_window d)])"

text \<open>The loop over the drafts; the last SOL draft that can be read sets the SOL cap.\<close>

definition submission_of :: "cap_draft list \<Rightarrow> (string \<times> access_arg) list \<Rightarrow> submission" where
  "submission_of drafts permissions =
     \<lparr>sb_solCap = (case rev (concat (map draft_entry (filter (\<lambda>d. cd_mint d = APP_SOL_MINT) drafts))) of
          [] \<Rightarrow> None | (_, c) # _ \<Rightarrow> Some c),
      sb_mintCaps = concat (map draft_entry (filter (\<lambda>d. cd_mint d \<noteq> APP_SOL_MINT) drafts)),
      sb_permissions = permissions\<rparr>"

text \<open>
  \<open>toAddress\<close> throws for a program that is no address.  A custom row without an access, which no step makes,
  would submit \<open>null\<close>; it is left out here.
\<close>

definition commitSave :: "std_kit \<Rightarrow> editor \<Rightarrow> editor" where
  "commitSave K s =
     (let errors = concat (map draft_error (ed_drafts s));
          permissions = concat (map (\<lambda>p. case programAccessArg p of Some a \<Rightarrow> [(dr_programId p, a)] | None \<Rightarrow> []) (ed_programs s)) in
      if \<not> list_all (\<lambda>p. sw_isAddress K (dr_programId p)) (ed_programs s) then s
      else if errors \<noteq> [] then s\<lparr>ed_errors := errors\<rparr>
      else s\<lparr>ed_errors := [], ed_submitted := ed_submitted s @ [submission_of (ed_drafts s) permissions]\<rparr>)"

definition save :: "std_kit \<Rightarrow> editor \<Rightarrow> editor" where
  "save K s =
     (if \<exists>p \<in> set (ed_programs s). dr_kind p = AllowAll then s\<lparr>ed_confirm := Some SaveAnyway\<rparr> else commitSave K s)"

definition confirmAllowDanger :: "std_kit \<Rightarrow> editor \<Rightarrow> editor" where
  "confirmAllowDanger K s =
     (case ed_confirm s of
        None \<Rightarrow> s
      | Some (SwitchTo programId) \<Rightarrow> (set_kind programId AllowAll s)\<lparr>ed_confirm := None\<rparr>
      | Some SaveAnyway \<Rightarrow> commitSave K (s\<lparr>ed_confirm := None\<rparr>))"

text \<open>
  What the user can do.  A token can only be picked while the picker offers it, a preset while the presets
  are shown, an amount and a kind changed where a control for them is.
\<close>

datatype editor_event =
    TypeAmount string string
  | PickWindow string int
  | RemoveDraft string
  | PickToken token_info
  | PickPreset policy_preset
  | TypeProgram string
  | AddProgram
  | PickKind string access_kind
  | RemoveProgram string
  | Save
  | CancelAllow
  | ConfirmAllow

definition editable :: "cap_draft \<Rightarrow> bool" where
  "editable d \<longleftrightarrow> cd_decimals d \<noteq> None \<or> cd_mint d = APP_SOL_MINT"

fun editor_step :: "std_kit \<Rightarrow> string \<Rightarrow> editor_event \<Rightarrow> editor \<Rightarrow> editor" where
  "editor_step K usdc (TypeAmount mint typed) s =
     updateDraft mint (\<lambda>d. if editable d then d\<lparr>cd_amount := sanitizeDecimalInput typed\<rparr> else d) s"
| "editor_step K usdc (PickWindow mint w) s =
     (if w \<in> set (map fst POLICY_WINDOW_PRESETS) then updateDraft mint (\<lambda>d. d\<lparr>cd_window := w\<rparr>) s else s)"
| "editor_step K usdc (RemoveDraft mint) s = removeDraft mint s"
| "editor_step K usdc (PickToken token) s = (if token \<in> set (addable s) then addToken token s else s)"
| "editor_step K usdc (PickPreset preset) s =
     (case policyPresets usdc of
        Inl _ \<Rightarrow> s
      | Inr presets \<Rightarrow>
          if \<not> ed_hadLimits s \<and> ed_drafts s = [] \<and> preset \<in> set presets then applyPreset preset s else s)"
| "editor_step K usdc (TypeProgram t) s = s\<lparr>ed_newProgram := trim t\<rparr>"
| "editor_step K usdc AddProgram s = addProgram K s"
| "editor_step K usdc (PickKind programId kind) s =
     (if kind \<noteq> CustomRules \<and> (\<exists>p \<in> set (ed_programs s). dr_programId p = programId \<and> dr_kind p \<noteq> CustomRules)
      then setProgramKind programId kind s else s)"
| "editor_step K usdc (RemoveProgram programId) s = removeProgram programId s"
| "editor_step K usdc Save s = save K s"
| "editor_step K usdc CancelAllow s = s\<lparr>ed_confirm := None\<rparr>"
| "editor_step K usdc ConfirmAllow s = confirmAllowDanger K s"

definition editor_run :: "std_kit \<Rightarrow> string \<Rightarrow> editor_event list \<Rightarrow> editor \<Rightarrow> editor" where
  "editor_run K usdc evs s = foldl (\<lambda>s e. editor_step K usdc e s) s evs"


subsection \<open>Saving without a change\<close>

lemma accessKind_arg:
  "programAccessArg \<lparr>dr_programId = p, dr_kind = accessKind x, dr_access = Some x\<rparr> = Some x"
  by (cases x) (simp_all add: programAccessArg_def accessKind_def)

lemma sol_draft_cap: "0 < c \<Longrightarrow> draft_cap (sol_draft (c, w)) = Inr c"
  by (simp add: draft_cap_def sol_draft_def lamportsToSol_def raw_format_core SOL_DECIMALS_def)

lemma mint_draft_cap:
  assumes "0 < c" "m \<noteq> APP_SOL_MINT" "\<And>t. token = Some t \<Longrightarrow> ti_decimals t < 256"
  shows "draft_cap (mint_draft sh token (m, c, w)) = Inr c"
  using assms by (cases token) (simp_all add: draft_cap_def mint_draft_def raw_format_core)

lemma mint_draft_fields [simp]:
  "cd_mint (mint_draft sh token m) = fst m" "cd_window (mint_draft sh token m) = snd (snd m)"
  "cd_mint (sol_draft c) = APP_SOL_MINT" "cd_window (sol_draft c) = snd c"
  by (simp_all add: mint_draft_def sol_draft_def split: prod.splits)

lemma catalog_decimals:
  assumes "\<forall>t \<in> set tokens. ti_decimals t < 256" "indexByMint (assetCatalog tokens) m = Some t"
  shows "ti_decimals t < 256"
proof -
  from assms(2) have "t \<in> set (assetCatalog tokens)"
    by (auto simp: indexByMint_def dest!: map_of_SomeD)
  with assms(1) show ?thesis
    by (auto simp: assetCatalog_def Let_def SOL_TOKEN_def SOL_DECIMALS_def split: if_splits)
qed

text \<open>A view as the program stores it: positive caps of distinct mints, none of them SOL.\<close>

definition view_ok :: "policy_view \<Rightarrow> bool" where
  "view_ok v \<longleftrightarrow>
     (\<forall>c. wv_solCap v = Some c \<longrightarrow> 0 < cv_cap c) \<and> (\<forall>(m, c) \<in> set (wv_mintCaps v). 0 < cv_cap c \<and> \<not> isSolLikeMint m) \<and>
     distinct (map fst (wv_mintCaps v)) \<and> length (wv_mintCaps v) \<le> MAX_MINT_CAPS \<and>
     distinct (map pv_programId (wv_permissions v)) \<and> (\<forall>p \<in> set (wv_permissions v). pv_kind p = accessKind (pv_access p))"

definition kept_submission :: "policy_view \<Rightarrow> submission" where
  "kept_submission v =
     \<lparr>sb_solCap = map_option (\<lambda>c. (cv_cap c, cv_window c)) (wv_solCap v),
      sb_mintCaps = map (\<lambda>(m, c). (m, cv_cap c, cv_window c)) (wv_mintCaps v),
      sb_permissions = map (\<lambda>p. (pv_programId p, pv_access p)) (wv_permissions v)\<rparr>"

lemma concat_singles: "(\<And>x. x \<in> set xs \<Longrightarrow> f x = [g x]) \<Longrightarrow> concat (map f xs) = map g xs"
  by (induction xs) auto

lemma untouched_save:
  assumes v: "view_ok v" and tokens: "\<forall>t \<in> set tokens. ti_decimals t < 256"
    and addrs: "\<forall>p \<in> set (wv_permissions v). sw_isAddress K (pv_programId p)"
    and s: "s = new_editor sh tokens v" "s' = s \<or> s' = s\<lparr>ed_confirm := None\<rparr>"
  shows "ed_submitted (commitSave K s') = [kept_submission v] \<and> ed_confirm (commitSave K s') = ed_confirm s'"
proof -
  let ?byMint = "indexByMint (assetCatalog tokens)"
  let ?sol = "case wv_solCap v of Some c \<Rightarrow> [sol_draft (cv_cap c, cv_window c)] | None \<Rightarrow> []"
  let ?mints = "map (\<lambda>(m, c). mint_draft sh (?byMint m) (m, cv_cap c, cv_window c)) (wv_mintCaps v)"
  have drafts: "ed_drafts s' = ?sol @ ?mints" using s by (auto simp: new_editor_def initialDrafts_def Let_def)
  have solcap: "draft_cap d = Inr (cd_raw d)" if "d \<in> set ?sol" for d
    using that v sol_draft_cap by (auto simp: view_ok_def sol_draft_def split: option.splits)
  have mintcap: "draft_cap (mint_draft sh (?byMint m) (m, cv_cap c, cv_window c)) = Inr (cv_cap c)" and
    mint: "m \<noteq> APP_SOL_MINT" if "(m, c) \<in> set (wv_mintCaps v)" for m c
  proof -
    from v that have mc: "0 < cv_cap c" "m \<noteq> APP_SOL_MINT" by (auto simp: view_ok_def isSolLikeMint_def)
    then show "m \<noteq> APP_SOL_MINT" by simp
    show "draft_cap (mint_draft sh (?byMint m) (m, cv_cap c, cv_window c)) = Inr (cv_cap c)"
      using mint_draft_cap [OF mc] catalog_decimals [OF tokens] by blast
  qed
  have no_errors: "concat (map draft_error (ed_drafts s')) = []"
    using solcap mintcap by (auto simp: drafts draft_error_def)
  have split: "filter (\<lambda>d. cd_mint d = APP_SOL_MINT) (ed_drafts s') = ?sol"
    "filter (\<lambda>d. cd_mint d \<noteq> APP_SOL_MINT) (ed_drafts s') = ?mints"
    using mint by (auto simp: drafts filter_empty_conv intro!: filter_True split: option.splits)
  have sub_mints: "concat (map draft_entry ?mints) = map (\<lambda>(m, c). (m, cv_cap c, cv_window c)) (wv_mintCaps v)"
    unfolding map_map by (rule concat_singles) (use mintcap in \<open>auto simp: draft_entry_def\<close>)
  have sub_sol: "(case rev (concat (map draft_entry ?sol)) of [] \<Rightarrow> None | (_, c) # _ \<Rightarrow> Some c) =
      map_option (\<lambda>c. (cv_cap c, cv_window c)) (wv_solCap v)"
    using v by (auto simp: view_ok_def draft_entry_def sol_draft_cap split: option.splits)
  have perms: "concat (map (\<lambda>p. case programAccessArg p of Some a \<Rightarrow> [(dr_programId p, a)] | None \<Rightarrow> []) (ed_programs s')) =
      map (\<lambda>p. (pv_programId p, pv_access p)) (wv_permissions v)"
  proof -
    have "ed_programs s' = map (\<lambda>p. \<lparr>dr_programId = pv_programId p, dr_kind = pv_kind p, dr_access = Some (pv_access p)\<rparr>) (wv_permissions v)"
      using s by (auto simp: new_editor_def Let_def)
    then show ?thesis
      using v by (simp add: comp_def) (intro concat_singles, auto simp: view_ok_def accessKind_arg)
  qed
  have "list_all (\<lambda>p. sw_isAddress K (dr_programId p)) (ed_programs s')" "ed_submitted s' = []"
    using s addrs by (auto simp: new_editor_def Let_def list_all_iff)
  with no_errors show ?thesis
    by (simp add: commitSave_def Let_def perms submission_of_def split sub_mints sub_sol kept_submission_def del: map_map)
qed

lemma kept_view:
  assumes "view_ok v" "wv_status v = (if wv_hasLimits v then LimitedPolicy else StandardPolicy)"
    and "wv_hasLimits v \<longleftrightarrow> wv_solCap v \<noteq> None \<or> wv_mintCaps v \<noteq> [] \<or> wv_permissions v \<noteq> []"
  shows "buildOptimisticWalletPolicyView (kept_submission v) (Some v) now = v"
proof -
  have sol: "map_option (\<lambda>c. optimisticCapView c (wv_solCap v) now) (map_option (\<lambda>c. (cv_cap c, cv_window c)) (wv_solCap v)) = wv_solCap v"
    by (cases "wv_solCap v") (simp_all add: optimisticCapView_def)
  have "map_of (rev (wv_mintCaps v)) m = Some c" if "(m, c) \<in> set (wv_mintCaps v)" for m c
    using assms(1) that by (intro map_of_is_SomeI) (simp_all add: view_ok_def flip: rev_map)
  then have mints: "map (\<lambda>(m, c). (m, optimisticCapView c (map_of (rev (wv_mintCaps v)) m) now))
      (map (\<lambda>(m, c). (m, cv_cap c, cv_window c)) (wv_mintCaps v)) = wv_mintCaps v"
    by (auto simp: optimisticCapView_def intro!: map_idI)
  have perms: "map (\<lambda>(p, x). \<lparr>pv_programId = p, pv_kind = accessKind x, pv_access = x\<rparr>)
      (map (\<lambda>p. (pv_programId p, pv_access p)) (wv_permissions v)) = wv_permissions v"
    using assms(1) by (auto simp: view_ok_def intro!: map_idI)
  show ?thesis
    unfolding buildOptimisticWalletPolicyView_def kept_submission_def Let_def submission.simps option.case bind.simps sol mints perms
    using assms(2,3) by (intro policy_view.equality) auto
qed


subsection \<open>What the editor submits\<close>

text \<open>
  The limits on caps and the permissions' distinctness, as the program has them.  The program has more, which the
  editor does not look at: no cap of zero, at most sixteen permissions, none for the wallet's program itself
  or the accessory's.
\<close>

definition submission_ok :: "submission \<Rightarrow> bool" where
  "submission_ok sub \<longleftrightarrow>
     distinct (map fst (sb_mintCaps sub)) \<and> length (sb_mintCaps sub) \<le> MAX_MINT_CAPS \<and>
     (\<forall>m \<in> set (map fst (sb_mintCaps sub)). \<not> isSolLikeMint m) \<and> distinct (map fst (sb_permissions sub))"

definition granted :: "program_draft list \<Rightarrow> (string \<times> access_arg) list" where
  "granted ps = concat (map (\<lambda>p. case programAccessArg p of Some a \<Rightarrow> [(dr_programId p, a)] | None \<Rightarrow> []) ps)"

definition drafts_ok :: "cap_draft list \<Rightarrow> bool" where
  "drafts_ok ds \<longleftrightarrow> distinct (map cd_mint ds) \<and> mintDraftCount ds \<le> MAX_MINT_CAPS \<and> WSOL_MINT_2022 \<notin> set (map cd_mint ds)"

definition programs_ok :: "program_draft list \<Rightarrow> bool" where
  "programs_ok ps \<longleftrightarrow>
     distinct (map dr_programId ps) \<and> (\<forall>p \<in> set ps. dr_kind p = CustomRules \<longrightarrow> dr_access p \<noteq> Some ArgAllInstructions)"

definition editor_ok :: "editor \<Rightarrow> bool" where
  "editor_ok s \<longleftrightarrow> drafts_ok (ed_drafts s) \<and> programs_ok (ed_programs s)"

lemma draft_entries_mints: "map fst (concat (map draft_entry ds)) = map cd_mint (filter (\<lambda>d. draft_entry d \<noteq> []) ds)"
  by (induction ds) (auto simp: draft_entry_def split: sum.splits)

lemma granted_subset: "set (map fst (granted ps)) \<subseteq> set (map dr_programId ps)"
  by (auto simp: granted_def split: option.splits)

lemma permissions_programs: "distinct (map dr_programId ps) \<Longrightarrow> distinct (map fst (granted ps))"
proof (induction ps)
  case (Cons p ps)
  have "granted (p # ps) = (case programAccessArg p of Some a \<Rightarrow> [(dr_programId p, a)] | None \<Rightarrow> []) @ granted ps"
    by (simp add: granted_def)
  with Cons granted_subset [of ps] show ?case by (auto split: option.splits)
qed (simp add: granted_def)

lemma granted_iff: "(pid, a) \<in> set (granted ps) \<longleftrightarrow> (\<exists>p \<in> set ps. dr_programId p = pid \<and> programAccessArg p = Some a)"
  unfolding granted_def by (induction ps) (auto split: option.splits)

lemma granted_all:
  assumes "programs_ok ps"
  shows "(pid, ArgAllInstructions) \<in> set (granted ps) \<longleftrightarrow> (\<exists>p \<in> set ps. dr_programId p = pid \<and> dr_kind p = AllowAll)"
proof -
  have "programAccessArg p = Some ArgAllInstructions \<longleftrightarrow> dr_kind p = AllowAll" if "p \<in> set ps" for p
    using assms that by (cases "dr_kind p") (auto simp: programAccessArg_def programs_ok_def)
  then show ?thesis by (auto simp: granted_iff)
qed

lemma draft_entry_length: "length (concat (map draft_entry ds)) \<le> length ds"
  by (induction ds) (auto simp: draft_entry_def split: sum.splits)

lemma submission_of_ok:
  assumes "drafts_ok ds" "distinct (map fst perms)"
  shows "submission_ok (submission_of ds perms)"
proof -
  let ?mints = "filter (\<lambda>d. cd_mint d \<noteq> APP_SOL_MINT) ds"
  have "distinct (map cd_mint (filter P ds))" for P
    using assms(1) by (simp add: drafts_ok_def distinct_map_filter)
  then have "distinct (map fst (concat (map draft_entry ?mints)))"
    by (simp add: draft_entries_mints flip: filter_filter) (simp add: filter_filter)
  moreover have "length (concat (map draft_entry ?mints)) \<le> MAX_MINT_CAPS"
    using draft_entry_length [of ?mints] assms(1) by (simp add: drafts_ok_def mintDraftCount_def)
  moreover have "\<not> isSolLikeMint m" if "m \<in> set (map fst (concat (map draft_entry ?mints)))" for m
  proof -
    from that obtain d where "d \<in> set ds" "cd_mint d \<noteq> APP_SOL_MINT" "cd_mint d = m" by (auto simp only: draft_entries_mints) auto
    with assms(1) show ?thesis unfolding isSolLikeMint_def drafts_ok_def by (metis in_set_conv_nth length_map nth_map)
  qed
  ultimately show ?thesis using assms(2) by (simp add: submission_ok_def submission_of_def)
qed

lemma commitSave_keeps [simp]:
  "ed_drafts (commitSave K s) = ed_drafts s" "ed_programs (commitSave K s) = ed_programs s"
  "ed_confirm (commitSave K s) = ed_confirm s"
  by (simp_all add: commitSave_def Let_def)

lemma set_kind_ok: "programs_ok (ed_programs s) \<Longrightarrow> kind \<noteq> CustomRules \<Longrightarrow> programs_ok (ed_programs (set_kind pid kind s))"
proof -
  have ids: "map dr_programId (map (\<lambda>p. if dr_programId p = pid then p\<lparr>dr_kind := kind\<rparr> else p) ps) = map dr_programId ps" for ps
    by (induction ps) auto
  show "programs_ok (ed_programs s) \<Longrightarrow> kind \<noteq> CustomRules \<Longrightarrow> programs_ok (ed_programs (set_kind pid kind s))"
    by (simp add: programs_ok_def set_kind_def ids del: map_map) auto
qed

lemma updateDraft_ok:
  assumes "drafts_ok (ed_drafts s)" "\<And>d. cd_mint (patch d) = cd_mint d"
  shows "drafts_ok (ed_drafts (updateDraft mint patch s))"
proof -
  have mints: "map cd_mint (map (\<lambda>d. if cd_mint d = mint then patch d else d) ds) = map cd_mint ds" for ds
    by (induction ds) (auto simp: assms(2))
  have "mintDraftCount (map (\<lambda>d. if cd_mint d = mint then patch d else d) ds) = mintDraftCount ds" for ds
    by (induction ds) (auto simp: mintDraftCount_def assms(2))
  with assms(1) show ?thesis by (simp add: drafts_ok_def updateDraft_def mints del: map_map set_map)
qed

lemma addToken_ok:
  assumes "drafts_ok (ed_drafts s)" "t \<in> set (addable s)"
  shows "drafts_ok (ed_drafts (addToken t s))"
  using assms
  by (auto simp: drafts_ok_def addToken_def addable_def mintDraftCount_def isSolLikeMint_def WSOL_MINT_2022_def APP_SOL_MINT_def)

lemma removeDraft_ok: "drafts_ok (ed_drafts s) \<Longrightarrow> drafts_ok (ed_drafts (removeDraft mint s))"
proof -
  have "mintDraftCount (filter P ds) \<le> mintDraftCount ds" for P ds
    by (induction ds) (auto simp: mintDraftCount_def)
  then show "drafts_ok (ed_drafts s) \<Longrightarrow> drafts_ok (ed_drafts (removeDraft mint s))"
    by (auto simp: drafts_ok_def removeDraft_def distinct_map_filter intro: order.trans)
qed

lemma applyPreset_ok:
  assumes "policyPresets usdc = Inr presets" "preset \<in> set presets" "\<not> isSolLikeMint usdc"
  shows "drafts_ok (ed_drafts (applyPreset preset s))"
  using assms
  by (auto simp: policyPresets_def Let_def result_simps applyPreset_def draftsFromPreset_def drafts_ok_def isSolLikeMint_def
      mintDraftCount_def MAX_MINT_CAPS_def sol_draft_def APP_SOL_MINT_def WSOL_MINT_2022_def)

lemma editor_step_ok:
  assumes "editor_ok s" "\<not> isSolLikeMint usdc"
  shows "editor_ok (editor_step K usdc e s)"
proof (cases e)
  case (TypeAmount mint typed)
  with assms(1) updateDraft_ok [of s "\<lambda>d. if editable d then d\<lparr>cd_amount := sanitizeDecimalInput typed\<rparr> else d"]
  show ?thesis by (simp add: editor_ok_def) (simp add: updateDraft_def)
next
  case (PickWindow mint w)
  with assms(1) updateDraft_ok [of s "\<lambda>d. d\<lparr>cd_window := w\<rparr>"] show ?thesis
    by (simp add: editor_ok_def) (simp add: updateDraft_def)
next
  case (RemoveDraft mint)
  with assms(1) removeDraft_ok show ?thesis by (simp add: editor_ok_def) (simp add: removeDraft_def)
next
  case (PickToken t)
  with assms(1) addToken_ok [of s t] show ?thesis by (simp add: editor_ok_def) (simp add: addToken_def)
next
  case (PickPreset preset)
  with assms(1,2) applyPreset_ok [of usdc _ preset s] show ?thesis
    by (auto simp: editor_ok_def applyPreset_def split: sum.splits)
next
  case AddProgram
  with assms(1) show ?thesis by (auto simp: editor_ok_def addProgram_def Let_def programs_ok_def)
next
  case (PickKind pid kind)
  with assms(1) set_kind_ok [of s kind pid] show ?thesis
    by (auto simp: editor_ok_def setProgramKind_def) (auto simp: set_kind_def)
next
  case (RemoveProgram pid)
  with assms(1) show ?thesis by (auto simp: editor_ok_def removeProgram_def programs_ok_def distinct_map_filter)
next
  case Save
  with assms(1) show ?thesis by (simp add: save_def editor_ok_def)
next
  case ConfirmAllow
  with assms(1) set_kind_ok [of s AllowAll] show ?thesis
    by (auto simp: confirmAllowDanger_def editor_ok_def split: option.splits allow_confirm.splits) (auto simp: set_kind_def)
qed (use assms(1) in \<open>simp_all add: editor_ok_def\<close>)

lemma new_editor_ok: "view_ok v \<Longrightarrow> editor_ok (new_editor sh tokens v)"
proof -
  assume v: "view_ok v"
  let ?mints = "map (\<lambda>(m, c). mint_draft sh (indexByMint (assetCatalog tokens) m) (m, cv_cap c, cv_window c)) (wv_mintCaps v)"
  have m: "map cd_mint ?mints = map fst (wv_mintCaps v)" by (auto simp: case_prod_unfold)
  have n: "\<not> isSolLikeMint x" if "x \<in> set (map fst (wv_mintCaps v))" for x using that v by (auto simp: view_ok_def)
  have d: "drafts_ok (ed_drafts (new_editor sh tokens v))"
    using v m n [unfolded isSolLikeMint_def]
    by (auto simp: drafts_ok_def new_editor_def initialDrafts_def Let_def view_ok_def mintDraftCount_def APP_SOL_MINT_def
        WSOL_MINT_2022_def distinct_map comp_def case_prod_unfold intro: le_trans [OF length_filter_le] split: option.splits)
  have "programs_ok (ed_programs (new_editor sh tokens v))"
    using v by (auto simp: programs_ok_def new_editor_def Let_def view_ok_def accessKind_def comp_def split: access_arg.splits)
  with d show ?thesis by (simp add: editor_ok_def)
qed

lemma editor_run_snoc [simp]: "editor_run K usdc (evs @ [e]) s = editor_step K usdc e (editor_run K usdc evs s)"
  "editor_run K usdc [] s = s"
  by (simp_all add: editor_run_def)

lemma editor_run_ok: "editor_ok s \<Longrightarrow> \<not> isSolLikeMint usdc \<Longrightarrow> editor_ok (editor_run K usdc evs s)"
  by (induction evs rule: rev_induct) (simp_all add: editor_step_ok)

text \<open>A step submits nothing, or the drafts and programs of its moment.\<close>

definition submits_now :: "std_kit \<Rightarrow> editor_event \<Rightarrow> editor \<Rightarrow> submission \<Rightarrow> bool" where
  "submits_now K e s sub \<longleftrightarrow>
     sub = submission_of (ed_drafts s) (granted (ed_programs s)) \<and> concat (map draft_error (ed_drafts s)) = [] \<and>
     list_all (\<lambda>p. sw_isAddress K (dr_programId p)) (ed_programs s) \<and>
     (e = Save \<and> (\<forall>p \<in> set (ed_programs s). dr_kind p \<noteq> AllowAll) \<or> e = ConfirmAllow \<and> ed_confirm s = Some SaveAnyway)"

lemma commitSave_submits:
  "ed_submitted (commitSave K s) = ed_submitted s \<or>
   ed_submitted (commitSave K s) = ed_submitted s @ [submission_of (ed_drafts s) (granted (ed_programs s))] \<and>
   concat (map draft_error (ed_drafts s)) = [] \<and> list_all (\<lambda>p. sw_isAddress K (dr_programId p)) (ed_programs s)"
  by (simp add: commitSave_def Let_def granted_def)

lemma editor_step_submits:
  "ed_submitted (editor_step K usdc e s) = ed_submitted s \<or>
   (\<exists>sub. ed_submitted (editor_step K usdc e s) = ed_submitted s @ [sub] \<and> submits_now K e s sub)"
proof (cases e)
  case Save
  then show ?thesis using commitSave_submits [of K s] by (auto simp: save_def submits_now_def)
next
  case ConfirmAllow
  then show ?thesis using commitSave_submits [of K "s\<lparr>ed_confirm := None\<rparr>"]
    by (auto simp: confirmAllowDanger_def set_kind_def submits_now_def split: option.splits allow_confirm.splits)
qed (auto simp: updateDraft_def removeDraft_def addToken_def applyPreset_def addProgram_def setProgramKind_def set_kind_def
    removeProgram_def Let_def split: sum.splits)

text \<open>A program becomes unrestricted only by the confirmation of the warning for it.\<close>

definition unrestricted :: "string \<Rightarrow> editor \<Rightarrow> bool" where
  "unrestricted pid s \<longleftrightarrow> (\<exists>p \<in> set (ed_programs s). dr_programId p = pid \<and> dr_kind p = AllowAll)"

definition switched :: "std_kit \<Rightarrow> string \<Rightarrow> editor_event list \<Rightarrow> editor \<Rightarrow> string \<Rightarrow> bool" where
  "switched K usdc evs s pid \<longleftrightarrow>
     (\<exists>before after. evs = before @ ConfirmAllow # after \<and> ed_confirm (editor_run K usdc before s) = Some (SwitchTo pid))"

lemma editor_step_unrestricted:
  assumes "unrestricted pid (editor_step K usdc e s)"
  shows "unrestricted pid s \<or> e = ConfirmAllow \<and> ed_confirm s = Some (SwitchTo pid)"
  using assms
  by (cases e) (auto simp: unrestricted_def updateDraft_def removeDraft_def addToken_def applyPreset_def addProgram_def setProgramKind_def
      set_kind_def removeProgram_def save_def confirmAllowDanger_def Let_def split: sum.splits if_splits option.splits allow_confirm.splits)

lemma editor_run_unrestricted:
  "unrestricted pid (editor_run K usdc evs s) \<Longrightarrow> unrestricted pid s \<or> switched K usdc evs s pid"
proof (induction evs rule: rev_induct)
  case (snoc e evs)
  have more_events: "switched K usdc (evs @ [e]) s pid" if "switched K usdc evs s pid"
    using that unfolding switched_def by fastforce
  from snoc editor_step_unrestricted [of pid K usdc e "editor_run K usdc evs s"] more_events show ?case
    by (auto simp: switched_def)
qed simp

lemma editor_run_submits:
  "sub \<in> set (ed_submitted (editor_run K usdc evs s)) \<Longrightarrow> ed_submitted s = [] \<Longrightarrow>
   \<exists>before e after. evs = before @ e # after \<and> submits_now K e (editor_run K usdc before s) sub"
proof (induction evs rule: rev_induct)
  case (snoc e evs)
  show ?case
  proof (cases "sub \<in> set (ed_submitted (editor_run K usdc evs s))")
    case True
    with snoc obtain before e' after where "evs = before @ e' # after" "submits_now K e' (editor_run K usdc before s) sub" by blast
    then show ?thesis by (intro exI [of _ before] exI [of _ e'] exI [of _ "after @ [e]"]) simp
  next
    case False
    with snoc.prems(1) editor_step_submits [of K usdc e "editor_run K usdc evs s"] have "submits_now K e (editor_run K usdc evs s) sub"
      by auto
    then show ?thesis by blast
  qed
qed simp

text \<open>
  What led to a submission: the step at which it was made, of what, and the warnings that were confirmed for
  what it lifts.
\<close>

definition submitted_by :: "std_kit \<Rightarrow> string \<Rightarrow> editor_event list \<Rightarrow> editor \<Rightarrow> submission \<Rightarrow> bool" where
  "submitted_by K usdc evs s0 sub \<longleftrightarrow>
     (\<exists>before e after. evs = before @ e # after \<and> submits_now K e (editor_run K usdc before s0) sub \<and>
        (ArgAllInstructions \<in> set (map snd (sb_permissions sub)) \<longrightarrow>
           e = ConfirmAllow \<and> ed_confirm (editor_run K usdc before s0) = Some SaveAnyway) \<and>
        (\<forall>pid. (pid, ArgAllInstructions) \<in> set (sb_permissions sub) \<longrightarrow> unrestricted pid s0 \<or> switched K usdc before s0 pid))"

text \<open>
  C32: What the editor submits keeps the limits on caps, and its unrestricted programs are confirmed.  Whatever
  the user does in it, in whatever order, every submitted change has at most eight mint caps, of distinct mints,
  none for SOL or a wrapped SOL (the SOL cap meters those), and at most one permission per program.  It is
  made of the drafts and the programs of the moment of one press of the save button or of the confirmation,
  all of which can be read.  If it lifts all limits of a program, that moment is the confirmation of the
  warning that saving asks for; and each such program was unrestricted when the editor was opened or
  its own warning was confirmed before.  The program refuses more than this: a cap of zero, more than sixteen
  permissions, and permissions for the wallet's own program and the accessory's; the editor checks none of these.
\<close>
theorem editor_submits_valid_policies:
  assumes "view_ok v" "\<not> isSolLikeMint usdc" "sub \<in> set (ed_submitted (editor_run K usdc evs (new_editor sh tokens v)))"
  shows "submission_ok sub \<and> submitted_by K usdc evs (new_editor sh tokens v) sub"
proof -
  let ?start = "new_editor sh tokens v"
  have "ed_submitted ?start = []" by (simp add: new_editor_def Let_def)
  with editor_run_submits [OF assms(3)] obtain before e after where at: "evs = before @ e # after"
    "submits_now K e (editor_run K usdc before ?start) sub" by blast
  let ?s = "editor_run K usdc before ?start"
  have ok: "drafts_ok (ed_drafts ?s)" "programs_ok (ed_programs ?s)"
    using editor_run_ok [OF new_editor_ok [OF assms(1)] assms(2)] by (auto simp: editor_ok_def)
  have sub: "sub = submission_of (ed_drafts ?s) (granted (ed_programs ?s))" using at(2) by (simp add: submits_now_def)
  have ok_sub: "submission_ok sub"
    unfolding sub using ok permissions_programs by (intro submission_of_ok) (auto simp: programs_ok_def)
  have perms: "sb_permissions sub = granted (ed_programs ?s)" by (simp add: sub submission_of_def)
  have all: "unrestricted pid ?s" if "(pid, ArgAllInstructions) \<in> set (sb_permissions sub)" for pid
    using that granted_all [OF ok(2)] by (auto simp: perms unrestricted_def)
  have saved: "e = ConfirmAllow \<and> ed_confirm ?s = Some SaveAnyway" if "ArgAllInstructions \<in> set (map snd (sb_permissions sub))"
  proof -
    from that obtain pid where "(pid, ArgAllInstructions) \<in> set (sb_permissions sub)" by auto
    from all [OF this] at(2) show ?thesis by (auto simp: submits_now_def unrestricted_def)
  qed
  have history: "unrestricted pid ?start \<or> switched K usdc before ?start pid" if "(pid, ArgAllInstructions) \<in> set (sb_permissions sub)" for pid
    by (rule editor_run_unrestricted [OF all [OF that]])
  have "submitted_by K usdc evs ?start sub"
    unfolding submitted_by_def
    by (rule exI [of _ before], rule exI [of _ e], rule exI [of _ after], intro conjI allI impI at saved history)
      (simp_all add: saved)
  with ok_sub show ?thesis ..
qed

definition sample_cap :: "int \<Rightarrow> spend_cap" where
  "sample_cap n = \<lparr>cv_cap = n, cv_remaining = 1, cv_lastReset = 100, cv_window = 604800\<rparr>"

definition sample_view :: policy_view where
  "sample_view = \<lparr>wv_status = LimitedPolicy, wv_hasLimits = True, wv_solCap = Some (sample_cap 5),
     wv_mintCaps = [(''mint'', sample_cap 7)], wv_permissions = [\<lparr>pv_programId = ''prog'', pv_kind = AllowAll, pv_access = ArgAllInstructions\<rparr>]\<rparr>"

definition sample_editor_events :: "editor_event list" where
  "sample_editor_events = [RemoveDraft APP_SOL_MINT, TypeProgram '' other '', AddProgram, TypeProgram ''other'', AddProgram,
     PickToken \<lparr>ti_mint = WSOL_MINT_2022, ti_symbol = ''WSOL'', ti_decimals = 9\<rparr>, PickKind ''other'' AllowAll, ConfirmAllow,
     Save, ConfirmAllow]"

lemma sample_view_ok: "view_ok sample_view"
  by (simp add: view_ok_def sample_view_def sample_cap_def isSolLikeMint_def APP_SOL_MINT_def WSOL_MINT_2022_def
      MAX_MINT_CAPS_def accessKind_def)

theorem editor_submits_valid_policies_witness:
  "ed_submitted (editor_run sample_std_kit ''usdc'' sample_editor_events (new_editor (take 4) [] sample_view)) =
     [\<lparr>sb_solCap = None, sb_mintCaps = [(''mint'', 7, 604800)],
       sb_permissions = [(''prog'', ArgAllInstructions), (''other'', ArgAllInstructions)]\<rparr>] \<and>
   submitted_by sample_std_kit ''usdc'' sample_editor_events (new_editor (take 4) [] sample_view)
     \<lparr>sb_solCap = None, sb_mintCaps = [(''mint'', 7, 604800)],
       sb_permissions = [(''prog'', ArgAllInstructions), (''other'', ArgAllInstructions)]\<rparr>"
proof -
  have sub: "ed_submitted (editor_run sample_std_kit ''usdc'' sample_editor_events (new_editor (take 4) [] sample_view)) =
     [\<lparr>sb_solCap = None, sb_mintCaps = [(''mint'', 7, 604800)],
       sb_permissions = [(''prog'', ArgAllInstructions), (''other'', ArgAllInstructions)]\<rparr>]" by code_simp
  moreover have "\<not> isSolLikeMint ''usdc''" by code_simp
  ultimately show ?thesis using editor_submits_valid_policies [OF sample_view_ok] by (metis list.set_intros(1))
qed

text \<open>
  What the program refuses and the editor submits all the same: any number of permissions, where the program
  takes sixteen; and one for the wallet's own program.
\<close>

lemma editor_run_Cons [simp]: "editor_run K usdc (e # evs) s = editor_run K usdc evs (editor_step K usdc e s)"
  by (simp add: editor_run_def)

lemma editor_run_append [simp]: "editor_run K usdc (evs @ evs') s = editor_run K usdc evs' (editor_run K usdc evs s)"
  by (simp add: editor_run_def)

lemma add_programs:
  assumes "distinct (map dr_programId (ed_programs s) @ ps)" "\<forall>p \<in> set ps. trim p = p \<and> p \<noteq> '''' \<and> sw_isAddress K p"
  shows "\<exists>s'. editor_run K usdc (concat (map (\<lambda>p. [TypeProgram p, AddProgram]) ps)) s = s' \<and>
    ed_programs s' = ed_programs s @ map (\<lambda>p. \<lparr>dr_programId = p, dr_kind = DenyAll, dr_access = None\<rparr>) ps \<and>
    ed_drafts s' = ed_drafts s \<and> ed_submitted s' = ed_submitted s"
  using assms
proof (induction ps arbitrary: s)
  case (Cons p ps)
  let ?s = "addProgram K (s\<lparr>ed_newProgram := p\<rparr>)"
  from Cons.prems have new: "ed_programs ?s = ed_programs s @ [\<lparr>dr_programId = p, dr_kind = DenyAll, dr_access = None\<rparr>]"
    "ed_drafts ?s = ed_drafts s" "ed_submitted ?s = ed_submitted s"
    by (auto simp: addProgram_def Let_def)
  have "distinct (map dr_programId (ed_programs ?s) @ ps)" using Cons.prems(1) by (auto simp: new)
  from Cons.IH [OF this] Cons.prems(2) new show ?case by simp
qed simp

theorem too_many_permissions_submitted:
  assumes "distinct ps" "\<forall>p \<in> set ps. trim p = p \<and> p \<noteq> '''' \<and> sw_isAddress K p"
  shows "ed_submitted (editor_run K usdc (concat (map (\<lambda>p. [TypeProgram p, AddProgram]) ps) @ [Save]) (new_editor sh tokens NONE_POLICY_VIEW)) =
    [\<lparr>sb_solCap = None, sb_mintCaps = [], sb_permissions = map (\<lambda>p. (p, ArgDenied)) ps\<rparr>]"
proof -
  let ?start = "new_editor sh tokens NONE_POLICY_VIEW"
  have s0: "ed_programs ?start = []" "ed_drafts ?start = []" "ed_submitted ?start = []"
    by (simp_all add: new_editor_def Let_def NONE_POLICY_VIEW_def initialDrafts_def)
  obtain s' where s': "editor_run K usdc (concat (map (\<lambda>p. [TypeProgram p, AddProgram]) ps)) ?start = s'"
    "ed_programs s' = map (\<lambda>p. \<lparr>dr_programId = p, dr_kind = DenyAll, dr_access = None\<rparr>) ps" "ed_drafts s' = []" "ed_submitted s' = []"
    using add_programs [of ?start ps K usdc] assms s0 by auto
  have "concat (map (\<lambda>p. case programAccessArg p of Some a \<Rightarrow> [(dr_programId p, a)] | None \<Rightarrow> []) (ed_programs s')) =
      map (\<lambda>p. (p, ArgDenied)) ps"
    by (simp add: s'(2) comp_def programAccessArg_def)
  moreover have "list_all (\<lambda>p. sw_isAddress K (dr_programId p)) (ed_programs s')" using assms(2) by (simp add: s'(2) list_all_iff)
  moreover have "\<not> (\<exists>p \<in> set (ed_programs s'). dr_kind p = AllowAll)" by (simp add: s'(2))
  ultimately show ?thesis using s' by (simp add: save_def commitSave_def Let_def submission_of_def)
qed

theorem own_program_submitted:
  "map sb_permissions (ed_submitted (editor_run sample_std_kit ''usdc''
     [TypeProgram ''Fjbi9JrRAmSBdxQxbkcxYDp6JUwnLbFhU2GsieWQBLSg'', AddProgram, Save] (new_editor (take 4) [] NONE_POLICY_VIEW))) =
   [[(''Fjbi9JrRAmSBdxQxbkcxYDp6JUwnLbFhU2GsieWQBLSg'', ArgDenied)]]"
  by code_simp

text \<open>An authority account as the program writes it.\<close>

definition account_ok :: "authority_account \<Rightarrow> bool" where
  "account_ok a \<longleftrightarrow>
     0 < au_policyVersion a \<and> 0 \<le> cv_cap (au_solCap a) \<and> (\<forall>(m, c) \<in> set (au_mintCaps a). 0 \<le> cv_cap c \<and> \<not> isSolLikeMint m) \<and>
     distinct (map fst (au_mintCaps a)) \<and> length (au_mintCaps a) \<le> MAX_MINT_CAPS \<and> distinct (map fst (au_permissions a))"

lemma account_view_ok:
  assumes "account_ok a"
  shows "view_ok (wallet_policy_view (Some a))"
  using assms
  by (auto simp: view_ok_def account_ok_def wallet_policy_view_def Let_def distinct_map_filter comp_def case_prod_unfold
      intro: le_trans [OF length_filter_le] split: if_splits)

text \<open>
  C34: Opening the editor and saving changes nothing.  For an active policy read from the chain, saving (and
  confirming, where a program is unrestricted) submits exactly the caps, windows and permissions of the
  account, also for tokens the catalog does not know; and the view the application then shows is the one
  it showed before, with the remaining budgets and the times of their last reset.
\<close>
theorem untouched_limits_are_kept:
  assumes "account_ok a" "\<forall>t \<in> set tokens. ti_decimals t < 256" "\<forall>p \<in> set (map fst (au_permissions a)). sw_isAddress K p"
  shows "ed_submitted (editor_run K usdc [Save, ConfirmAllow] (new_editor sh tokens (wallet_policy_view (Some a)))) =
      [kept_submission (wallet_policy_view (Some a))] \<and>
    buildOptimisticWalletPolicyView (kept_submission (wallet_policy_view (Some a))) (Some (wallet_policy_view (Some a))) now =
      wallet_policy_view (Some a)"
proof -
  let ?v = "wallet_policy_view (Some a)"
  let ?s = "new_editor sh tokens ?v"
  note v = account_view_ok [OF assms(1)]
  have addrs: "\<forall>p \<in> set (wv_permissions ?v). sw_isAddress K (pv_programId p)"
    using assms(3) by (auto simp: wallet_policy_view_def Let_def)
  note saved = untouched_save [OF v assms(2) addrs refl, where sh = sh]
  have none: "ed_confirm ?s = None" by (simp add: new_editor_def Let_def)
  have "ed_submitted (editor_run K usdc [Save, ConfirmAllow] ?s) = [kept_submission ?v]"
  proof (cases "\<exists>p \<in> set (ed_programs ?s). dr_kind p = AllowAll")
    case True
    have "(?s\<lparr>ed_confirm := Some SaveAnyway\<rparr>)\<lparr>ed_confirm := None\<rparr> = ?s\<lparr>ed_confirm := None\<rparr>" by simp
    with True saved [of "?s\<lparr>ed_confirm := None\<rparr>"] show ?thesis
      by (simp add: editor_run_def save_def confirmAllowDanger_def)
  next
    case False
    with saved [of ?s] none show ?thesis by (simp add: editor_run_def save_def confirmAllowDanger_def)
  qed
  moreover have "buildOptimisticWalletPolicyView (kept_submission ?v) (Some ?v) now = ?v"
    using assms(1) by (intro kept_view [OF v]) (auto simp: wallet_policy_view_def Let_def account_ok_def)
  ultimately show ?thesis by blast
qed

definition sample_account :: authority_account where
  "sample_account = \<lparr>au_policyVersion = 1, au_solCap = sample_cap 5, au_mintCaps = [(''mint'', sample_cap 7), (''old'', sample_cap 0)],
     au_permissions = [(''prog'', ArgAllInstructions)]\<rparr>"

theorem untouched_limits_are_kept_witness:
  "ed_submitted (editor_run sample_std_kit ''usdc'' [Save, ConfirmAllow] (new_editor (take 4) [] sample_view)) =
     [\<lparr>sb_solCap = Some (5, 604800), sb_mintCaps = [(''mint'', 7, 604800)], sb_permissions = [(''prog'', ArgAllInstructions)]\<rparr>]"
proof -
  have "account_ok sample_account" by code_simp
  moreover have "wallet_policy_view (Some sample_account) = sample_view" by code_simp
  moreover have "kept_submission sample_view =
    \<lparr>sb_solCap = Some (5, 604800), sb_mintCaps = [(''mint'', 7, 604800)], sb_permissions = [(''prog'', ArgAllInstructions)]\<rparr>"
    by code_simp
  ultimately show ?thesis
    using untouched_limits_are_kept [of sample_account "[]" sample_std_kit "''usdc''" "take 4"] by (simp add: sample_std_kit_def)
qed

text \<open>A cap of zero can be submitted by typing a dot, and then no longer be saved.\<close>

lemma zero_cap_submitted:
  "draft_cap \<lparr>cd_mint = ''mint'', cd_symbol = name, cd_decimals = Some d, cd_amount = sanitizeDecimalInput ''.'', cd_window = w, cd_raw = r\<rparr> = Inr 0"
proof -
  have "sanitizeDecimalInput ''.'' = ''.''" by code_simp
  then show ?thesis by (simp add: draft_cap_def APP_SOL_MINT_def lone_dot_is_zero)
qed

end
