(* ===== verification/SubscribeResult.thy ===== *)
theory SubscribeResult
  imports WorkerCommon
begin

text \<open>
  The transaction notification of the webhook as the worker reads it: the types of
  \<^verbatim>\<open>workers/api/src/webhooks/wallet-activity.ts\<close> and \<^verbatim>\<open>fees/subscribe-fee-tx.ts\<close> in one set of records, a
  field that may be missing being an option.  The payload is taken to have its declared types.
  Lamports and slots are integers, token amounts rationals.
\<close>

datatype account_key = KeyText string | KeyObject "string option"

record compiled_ix =
  cx_program :: "int option"
  cx_accounts :: "int list option"
  cx_data :: "string option"

record token_balance =
  tb_mint :: "string option"
  tb_owner :: "string option"
  tb_uiAmount :: "rat option"
  tb_uiAmountString :: "string option"
  tb_decimals :: "int option"
  tb_amount :: "string option"

record tx_meta =
  tm_err :: js
  tm_fee :: "int option"
  tm_pre :: "int list option"
  tm_post :: "int list option"
  tm_preTokens :: "token_balance list option"
  tm_postTokens :: "token_balance list option"
  tm_writable :: "string list option"
  tm_readonly :: "string list option"
  tm_inner :: "compiled_ix list option list option"

record confirmed_tx =
  ct_meta :: "tx_meta option"
  ct_signatures :: "string list option"
  ct_accountKeys :: "account_key list option"
  ct_instructions :: "compiled_ix list option"

record subscribe_result =
  sr_signature :: "string option"
  sr_slot :: "int option"
  sr_blockTime :: "int option"
  sr_transaction :: "confirmed_tx option"

text \<open>\<open>xs?.[i]\<close>\<close>

definition opt_at :: "'a list option \<Rightarrow> int \<Rightarrow> 'a option" where
  "opt_at xs i = (if i < 0 then None else Option.bind xs (\<lambda>l. nth_opt l (nat i)))"

definition accountPubkey :: "account_key option \<Rightarrow> string option" where
  "accountPubkey key = (case key of Some (KeyText k) \<Rightarrow> Some k | Some (KeyObject p) \<Rightarrow> p | None \<Rightarrow> None)"

definition meta_of :: "(tx_meta \<Rightarrow> 'a option) \<Rightarrow> confirmed_tx \<Rightarrow> 'a option" where
  "meta_of f c = Option.bind (ct_meta c) f"

definition tx_failed :: "confirmed_tx \<Rightarrow> bool" where
  "tx_failed c \<longleftrightarrow> (case ct_meta c of Some m \<Rightarrow> tm_err m \<notin> {JUndefined, JNull, JBool False} | None \<Rightarrow> False)"

text \<open>\<open>a?.trim() || b?.[0]?.trim() || ""\<close>\<close>

definition result_signature :: "subscribe_result \<Rightarrow> confirmed_tx \<Rightarrow> string" where
  "result_signature r c =
     (let own = trim (or_else (sr_signature r) '''') in
      if own \<noteq> '''' then own else trim (or_else (opt_at (ct_signatures c) 0) ''''))"

lemma opt_at_simps [simp]: "opt_at None i = None" "opt_at (Some xs) 0 = nth_opt xs 0"
  by (simp_all add: opt_at_def)

lemma opt_at_Some: "opt_at (Some xs) (int i) = nth_opt xs i"
  by (simp add: opt_at_def)

end
