(* ===== verification/TokenStore.thy ===== *)
theory TokenStore
  imports WorkerCommon SignerState
begin

text \<open>
  The ledger of prepaid fees of one token (\<^verbatim>\<open>workers/api-signer/src/token-store.ts\<close> and
  \<^verbatim>\<open>fees/constants.ts\<close>): the four tables of the SQLite store as a record, each statement as an update
  of it.  A table with a primary key is a list of rows in the order of insertion; an insert with a key
  that is taken throws.  \<open>Date.now()\<close> is an argument.  Amounts and times are integers; the code keeps
  them in doubles, which are exact below \<open>2\<^sup>5\<^sup>3\<close>.
\<close>

definition MIN_ATTEMPT_FEE_LAMPORTS :: int where "MIN_ATTEMPT_FEE_LAMPORTS = 100000"
definition STARTER_FEE_BALANCE_LAMPORTS :: int where "STARTER_FEE_BALANCE_LAMPORTS = 1000000"
definition MAX_CONCURRENT_FEE_RESERVES :: nat where "MAX_CONCURRENT_FEE_RESERVES = 4"
definition FEE_RESERVE_TTL_MS :: int where "FEE_RESERVE_TTL_MS = 90000"

subsection \<open>The tables\<close>

datatype fee_kind = Credit | Debit

record fee_event =
  fe_signature :: string
  fe_kind :: fee_kind
  fe_lamports :: int

record fee_event_row = fee_event +
  fe_created :: int

record fee_reserve =
  fr_id :: string
  fr_lamports :: int
  fr_created :: int
  fr_expires :: int

record token_db =
  td_meta :: "string \<rightharpoonup> string"
  td_balance :: "(int \<times> int) option"
  td_events :: "fee_event_row list"
  td_reserves :: "fee_reserve list"

definition initTokenSchema :: token_db where
  "initTokenSchema = \<lparr>td_meta = (\<lambda>_. None), td_balance = None, td_events = [], td_reserves = []\<rparr>"

definition constraint_failed :: thrown where
  "constraint_failed = Uncoded ''UNIQUE constraint failed''"

definition insert_meta :: "string \<Rightarrow> string \<Rightarrow> token_db \<Rightarrow> (thrown + unit) \<times> token_db" where
  "insert_meta k v db =
     (if td_meta db k \<noteq> None then (Inl constraint_failed, db)
      else (Inr (), db\<lparr>td_meta := (td_meta db)(k \<mapsto> v)\<rparr>))"

text \<open>\<open>INSERT ... ON CONFLICT(id) DO UPDATE\<close> of the one row of the balance table.\<close>

definition upsert_balance :: "int \<Rightarrow> int \<Rightarrow> token_db \<Rightarrow> token_db" where
  "upsert_balance b now db = db\<lparr>td_balance := Some (b, now)\<rparr>"

subsection \<open>The operations\<close>

definition ensureToken :: "string \<Rightarrow> int \<Rightarrow> token_db \<Rightarrow> (thrown + unit) \<times> token_db" where
  "ensureToken token now db =
     (case td_meta db ''phygital_token'' of
        Some existing \<Rightarrow>
          if existing \<noteq> token then (Inl (Coded (coded ''TokenSigner DO token mismatch'' ''token_mismatch'')), db)
          else (Inr (), db)
      | None \<Rightarrow>
          (case insert_meta ''phygital_token'' token db of
             (Inl e, db1) \<Rightarrow> (Inl e, db1)
           | (Inr _, db1) \<Rightarrow>
               if td_balance db1 \<noteq> None then (Inl constraint_failed, db1)
               else insert_meta ''starter_granted'' ''0'' (upsert_balance 0 now db1)))"

definition getFeeBalanceLamports :: "token_db \<Rightarrow> int" where
  "getFeeBalanceLamports db = (case td_balance db of Some (b, _) \<Rightarrow> b | None \<Rightarrow> 0)"

definition grantStarterIfNeeded :: "int \<Rightarrow> token_db \<Rightarrow> bool \<times> token_db" where
  "grantStarterIfNeeded now db =
     (if td_meta db ''starter_granted'' \<noteq> Some ''0'' then (False, db)
      else
        let db1 = db\<lparr>td_meta := (td_meta db)(''starter_granted'' \<mapsto> ''1'')\<rparr> in
        if getFeeBalanceLamports db1 > 0 then (False, db1)
        else (True, upsert_balance STARTER_FEE_BALANCE_LAMPORTS now db1))"

definition open_reserves :: "int \<Rightarrow> token_db \<Rightarrow> fee_reserve list" where
  "open_reserves now db = filter (\<lambda>r. fr_expires r > now) (td_reserves db)"

definition getOpenReserveCount :: "int \<Rightarrow> token_db \<Rightarrow> nat" where
  "getOpenReserveCount now db = length (open_reserves now db)"

definition getReservedLamports :: "int \<Rightarrow> token_db \<Rightarrow> int" where
  "getReservedLamports now db = sum_list (map fr_lamports (open_reserves now db))"

definition getAvailableLamports :: "int \<Rightarrow> token_db \<Rightarrow> int" where
  "getAvailableLamports now db = max 0 (getFeeBalanceLamports db - getReservedLamports now db)"

definition find_reserve :: "string \<Rightarrow> token_db \<Rightarrow> fee_reserve option" where
  "find_reserve i db = find (\<lambda>r. fr_id r = i) (td_reserves db)"

definition delete_reserve :: "string \<Rightarrow> token_db \<Rightarrow> token_db" where
  "delete_reserve i db = db\<lparr>td_reserves := filter (\<lambda>r. fr_id r \<noteq> i) (td_reserves db)\<rparr>"

definition insert_reserve :: "fee_reserve \<Rightarrow> token_db \<Rightarrow> token_db" where
  "insert_reserve r db = db\<lparr>td_reserves := td_reserves db @ [r]\<rparr>"

definition reserve :: "string \<Rightarrow> int \<Rightarrow> int \<Rightarrow> int \<Rightarrow> token_db \<Rightarrow> bool \<times> token_db" where
  "reserve i lamports ttlMs now db =
     (if lamports \<le> 0 \<or> i = '''' then (False, db)
      else
        let existing = find_reserve i db in
        if (case existing of Some r \<Rightarrow> fr_expires r > now | None \<Rightarrow> False) then (True, db)
        else
          let db1 = (if existing \<noteq> None then delete_reserve i db else db) in
          if getOpenReserveCount now db1 \<ge> MAX_CONCURRENT_FEE_RESERVES then (False, db1)
          else if getAvailableLamports now db1 < lamports then (False, db1)
          else (True, insert_reserve
            \<lparr>fr_id = i, fr_lamports = lamports, fr_created = now, fr_expires = now + ttlMs\<rparr> db1))"

definition release :: "string \<Rightarrow> token_db \<Rightarrow> token_db" where
  "release i db = delete_reserve i db"

text \<open>The number of rows it returns only enters a log line.\<close>

definition expireReserves :: "int \<Rightarrow> token_db \<Rightarrow> token_db" where
  "expireReserves now db = db\<lparr>td_reserves := filter (\<lambda>r. \<not> fr_expires r \<le> now) (td_reserves db)\<rparr>"

definition nextReserveExpiry :: "int \<Rightarrow> token_db \<Rightarrow> int option" where
  "nextReserveExpiry now db =
     (case sort (map fr_expires (open_reserves now db)) of [] \<Rightarrow> None | e # _ \<Rightarrow> Some e)"

definition applyFeeEvent :: "fee_event \<Rightarrow> int \<Rightarrow> token_db \<Rightarrow> bool \<times> token_db" where
  "applyFeeEvent ev now db =
     (if fe_lamports ev \<le> 0 then (False, db)
      else if fe_signature ev \<in> set (map fe_signature (td_events db)) then (False, db)
      else
        let db1 = db\<lparr>td_events := td_events db @
              [\<lparr>fe_signature = fe_signature ev, fe_kind = fe_kind ev, fe_lamports = fe_lamports ev, fe_created = now\<rparr>]\<rparr>;
            current = getFeeBalanceLamports db1;
            next_balance = (if fe_kind ev = Credit then current + fe_lamports ev
              else max 0 (current - fe_lamports ev)) in
        (True, upsert_balance next_balance now db1))"

text \<open>\<open>replace(/:debit$/, "")\<close>\<close>

definition strip_debit :: "string \<Rightarrow> string" where
  "strip_debit s = (if ends_with '':debit'' s then take (length s - 6) s else s)"

definition settleDebit :: "fee_event \<Rightarrow> int \<Rightarrow> token_db \<Rightarrow> bool \<times> token_db" where
  "settleDebit ev now db =
     (if fe_kind ev \<noteq> Debit then applyFeeEvent ev now db
      else
        let db1 = expireReserves now db;
            sig = strip_debit (fe_signature ev);
            db2 = db1\<lparr>td_reserves := filter (\<lambda>r. \<not> (fr_id r = sig \<and> fr_expires r > now)) (td_reserves db1)\<rparr> in
        applyFeeEvent ev now db2)"

definition rebindReserve :: "string \<Rightarrow> string \<Rightarrow> int \<Rightarrow> token_db \<Rightarrow> bool \<times> token_db" where
  "rebindReserve fromId toId now db =
     (if fromId = '''' \<or> toId = '''' \<or> fromId = toId then (False, db)
      else case find_reserve fromId db of
        None \<Rightarrow> (False, db)
      | Some r \<Rightarrow>
          if fr_expires r \<le> now then (False, db)
          else
            let db1 = delete_reserve fromId db in
            if find_reserve toId db1 \<noteq> None then (True, db1)
            else (True, insert_reserve (r\<lparr>fr_id := toId\<rparr>) db1))"

subsection \<open>Open reserves\<close>

text \<open>The pool of reserves at a time: the ids that are held, and the amounts.\<close>

definition held :: "int \<Rightarrow> token_db \<Rightarrow> string \<Rightarrow> bool" where
  "held now db i \<longleftrightarrow> (\<exists>r \<in> set (open_reserves now db). fr_id r = i)"

lemma held_iff: "held now db i \<longleftrightarrow> (\<exists>r \<in> set (td_reserves db). fr_id r = i \<and> now < fr_expires r)"
  by (auto simp: held_def open_reserves_def)

definition reserves_ok :: "int \<Rightarrow> token_db \<Rightarrow> bool" where
  "reserves_ok now db \<longleftrightarrow>
     distinct (map fr_id (td_reserves db)) \<and> (\<forall>r \<in> set (td_reserves db). 0 < fr_lamports r) \<and>
     getOpenReserveCount now db \<le> MAX_CONCURRENT_FEE_RESERVES"

lemma find_reserve_None: "find_reserve i db = None \<longleftrightarrow> i \<notin> fr_id ` set (td_reserves db)"
  by (auto simp: find_reserve_def find_None_iff)

lemma find_reserve_Some:
  assumes "distinct (map fr_id (td_reserves db))"
  shows "find_reserve i db = Some r \<longleftrightarrow> r \<in> set (td_reserves db) \<and> fr_id r = i"
proof
  assume "find_reserve i db = Some r"
  then show "r \<in> set (td_reserves db) \<and> fr_id r = i"
    by (auto simp: find_reserve_def find_Some_iff)
next
  assume r: "r \<in> set (td_reserves db) \<and> fr_id r = i"
  then have "find_reserve i db \<noteq> None" by (auto simp: find_reserve_None)
  then obtain q where q: "find_reserve i db = Some q" by auto
  then have "q \<in> set (td_reserves db)" "fr_id q = i" by (auto simp: find_reserve_def find_Some_iff)
  with r assms have "q = r" by (auto simp: distinct_map dest: inj_onD)
  with q show "find_reserve i db = Some r" by simp
qed

lemma distinct_delete: "distinct (map fr_id rs) \<Longrightarrow> distinct (map fr_id (filter P rs))"
  by (induction rs) auto

lemma count_mono: "t \<le> t' \<Longrightarrow> getOpenReserveCount t' db \<le> getOpenReserveCount t db"
proof -
  assume "t \<le> t'"
  then have "open_reserves t' db = filter (\<lambda>r. fr_expires r > t') (open_reserves t db)"
    by (auto simp: open_reserves_def intro: filter_cong)
  then show ?thesis by (simp add: getOpenReserveCount_def)
qed

lemma reserves_ok_mono: "reserves_ok t db \<Longrightarrow> t \<le> t' \<Longrightarrow> reserves_ok t' db"
  by (auto simp: reserves_ok_def dest: count_mono [of t t' db])

text \<open>Whatever only removes rows keeps the table in order.\<close>

lemma count_filter:
  assumes "td_reserves db' = filter P (td_reserves db)"
  shows "getOpenReserveCount now db' \<le> getOpenReserveCount now db"
proof -
  have "open_reserves now db' = filter P (open_reserves now db)"
    by (simp add: open_reserves_def assms conj_commute)
  then show ?thesis by (simp add: getOpenReserveCount_def)
qed

lemma reserves_ok_filter:
  assumes "reserves_ok now db" "td_reserves db' = filter P (td_reserves db)"
  shows "reserves_ok now db'"
  using assms count_filter [OF assms(2), of now] by (auto simp: reserves_ok_def distinct_delete)

lemma reserves_ok_same: "td_reserves db' = td_reserves db \<Longrightarrow> reserves_ok now db' = reserves_ok now db"
  by (simp add: reserves_ok_def getOpenReserveCount_def open_reserves_def)

lemma delete_reserve_reserves [simp]:
  "td_reserves (delete_reserve i db) = filter (\<lambda>r. fr_id r \<noteq> i) (td_reserves db)"
  "td_balance (delete_reserve i db) = td_balance db" "td_events (delete_reserve i db) = td_events db"
  "td_meta (delete_reserve i db) = td_meta db"
  by (simp_all add: delete_reserve_def)

lemma insert_reserve_reserves [simp]:
  "td_reserves (insert_reserve r db) = td_reserves db @ [r]"
  "td_balance (insert_reserve r db) = td_balance db" "td_events (insert_reserve r db) = td_events db"
  "td_meta (insert_reserve r db) = td_meta db"
  by (simp_all add: insert_reserve_def)

lemma reserves_ok_insert:
  assumes "reserves_ok now db" "fr_id r \<notin> fr_id ` set (td_reserves db)" "0 < fr_lamports r"
    "getOpenReserveCount now db < MAX_CONCURRENT_FEE_RESERVES"
  shows "reserves_ok now (insert_reserve r db)"
  using assms by (auto simp: reserves_ok_def getOpenReserveCount_def open_reserves_def)

lemma held_delete: "held now (delete_reserve i db) j \<longleftrightarrow> held now db j \<and> j \<noteq> i"
  by (auto simp: held_iff)

lemma held_insert: "held now (insert_reserve r db) j \<longleftrightarrow> held now db j \<or> j = fr_id r \<and> now < fr_expires r"
  by (auto simp: held_iff)

lemma existing_held:
  assumes "distinct (map fr_id (td_reserves db))"
  shows "(case find_reserve i db of Some r \<Rightarrow> fr_expires r > now | None \<Rightarrow> False) \<longleftrightarrow> held now db i"
proof (cases "find_reserve i db")
  case None
  then have "i \<notin> fr_id ` set (td_reserves db)" by (simp add: find_reserve_None)
  with None show ?thesis by (auto simp: held_iff)
next
  case (Some r)
  with assms have r: "r \<in> set (td_reserves db)" "fr_id r = i" by (simp_all add: find_reserve_Some)
  have only: "q = r" if "q \<in> set (td_reserves db)" "fr_id q = i" for q
    using that r assms by (auto simp: distinct_map dest: inj_onD)
  have "held now db i \<longleftrightarrow> now < fr_expires r"
    unfolding held_iff using r only by blast
  with Some show ?thesis by simp
qed

text \<open>A reservation, without the row of an expired one with the same id.\<close>

lemma reserve_unfold:
  assumes "reserves_ok now db"
  shows "reserve i lamports ttl now db =
    (if lamports \<le> 0 \<or> i = '''' then (False, db)
     else if held now db i then (True, db)
     else if getOpenReserveCount now db \<ge> MAX_CONCURRENT_FEE_RESERVES \<or> getAvailableLamports now db < lamports
       then (False, delete_reserve i db)
     else (True, insert_reserve \<lparr>fr_id = i, fr_lamports = lamports, fr_created = now, fr_expires = now + ttl\<rparr>
       (delete_reserve i db)))"
proof -
  have d: "distinct (map fr_id (td_reserves db))" using assms by (simp add: reserves_ok_def)
  have none: "delete_reserve i db = db" if "find_reserve i db = None"
  proof -
    from that have "filter (\<lambda>r. fr_id r \<noteq> i) (td_reserves db) = td_reserves db"
      by (auto simp: find_reserve_None filter_id_conv)
    then show ?thesis by (simp add: delete_reserve_def)
  qed
  have same: "open_reserves now (delete_reserve i db) = open_reserves now db" if "\<not> held now db i"
    using that by (auto simp: held_iff open_reserves_def filter_filter intro!: filter_cong)
  show ?thesis
    using none same
    by (auto simp: reserve_def Let_def existing_held [OF d] getOpenReserveCount_def getAvailableLamports_def
        getReservedLamports_def getFeeBalanceLamports_def)
qed

subsection \<open>The pool of reservations\<close>

text \<open>
  What the handler of a signing request relies on: taking a reservation adds at most its own id, giving
  ids back removes exactly them, and renaming one moves it.
\<close>

locale reservation_pool =
  fixes ok :: "'s \<Rightarrow> bool"
    and holds :: "'s \<Rightarrow> string \<Rightarrow> bool"
    and acquire :: "string \<Rightarrow> 's \<Rightarrow> bool \<times> 's"
    and give_back :: "string \<Rightarrow> 's \<Rightarrow> 's"
    and rename_to :: "string \<Rightarrow> string \<Rightarrow> 's \<Rightarrow> 's"
  assumes ok_acquire: "ok s \<Longrightarrow> ok (snd (acquire i s))"
    and ok_give_back: "ok s \<Longrightarrow> ok (give_back i s)"
    and ok_rename: "ok s \<Longrightarrow> ok (rename_to i j s)"
    and holds_acquire: "ok s \<Longrightarrow> holds (snd (acquire i s)) j \<longleftrightarrow> holds s j \<or> (j = i \<and> fst (acquire i s))"
    and holds_give_back: "ok s \<Longrightarrow> holds (give_back i s) j \<longleftrightarrow> holds s j \<and> j \<noteq> i"
    and holds_rename: "ok s \<Longrightarrow> holds s i \<Longrightarrow> i \<noteq> '''' \<Longrightarrow> j \<noteq> '''' \<Longrightarrow> i \<noteq> j \<Longrightarrow>
      holds (rename_to i j s) x \<longleftrightarrow> x = j \<or> (holds s x \<and> x \<noteq> i)"
begin

definition give_back_all :: "string list \<Rightarrow> 's \<Rightarrow> 's" where
  "give_back_all = fold give_back"

lemma ok_give_back_all: "ok s \<Longrightarrow> ok (give_back_all is s)"
  by (induction "is" arbitrary: s) (auto simp: give_back_all_def ok_give_back)

lemma holds_give_back_all: "ok s \<Longrightarrow> holds (give_back_all is s) j \<longleftrightarrow> holds s j \<and> j \<notin> set is"
  by (induction "is" arbitrary: s) (auto simp: give_back_all_def ok_give_back holds_give_back)

text \<open>Nothing is held that was not held before, but for a set of tracked ids: the steps of a batch keep this.\<close>

definition adds_only :: "string set \<Rightarrow> 's \<Rightarrow> 's \<Rightarrow> bool" where
  "adds_only T s s' \<longleftrightarrow> (\<forall>j. holds s' j \<longrightarrow> holds s j \<or> j \<in> T)"

lemma adds_only_refl: "adds_only T s s"
  by (simp add: adds_only_def)

lemma adds_only_acquire:
  "ok s' \<Longrightarrow> adds_only T s s' \<Longrightarrow> adds_only (insert i T) s (snd (acquire i s'))"
  by (auto simp: adds_only_def holds_acquire)

lemma adds_only_refused:
  "ok s' \<Longrightarrow> adds_only T s s' \<Longrightarrow> \<not> fst (acquire i s') \<Longrightarrow> adds_only T s (snd (acquire i s'))"
  by (auto simp: adds_only_def holds_acquire)

text \<open>Taking a reservation under one id and binding it to another leaves only the other one behind.\<close>

lemma adds_only_rename:
  assumes "ok s'" "adds_only T s s'" "fst (acquire i s')" "i \<noteq> ''''" "j \<noteq> ''''" "i \<noteq> j"
  shows "adds_only (insert j T) s (rename_to i j (snd (acquire i s')))"
    "holds (rename_to i j (snd (acquire i s'))) j"
    "holds s' x \<Longrightarrow> x \<noteq> i \<Longrightarrow> holds (rename_to i j (snd (acquire i s'))) x"
proof -
  have "ok (snd (acquire i s'))" "holds (snd (acquire i s')) i"
    using assms by (auto simp: ok_acquire holds_acquire)
  with assms show "adds_only (insert j T) s (rename_to i j (snd (acquire i s')))"
    "holds (rename_to i j (snd (acquire i s'))) j"
    "holds s' x \<Longrightarrow> x \<noteq> i \<Longrightarrow> holds (rename_to i j (snd (acquire i s'))) x"
    by (auto simp: adds_only_def holds_rename holds_acquire)
qed

lemma rolled_back: "ok s' \<Longrightarrow> adds_only (set is) s s' \<Longrightarrow> adds_only {} s (give_back_all is s')"
  by (auto simp: adds_only_def holds_give_back_all)

end

lemma reserves_ok_reserve: "reserves_ok now db \<Longrightarrow> reserves_ok now (snd (reserve i lamports ttl now db))"
proof -
  assume ok: "reserves_ok now db"
  have del: "reserves_ok now (delete_reserve i db)" using ok by (rule reserves_ok_filter) simp
  have count: "getOpenReserveCount now (delete_reserve i db) \<le> getOpenReserveCount now db"
    by (rule count_filter) simp
  show ?thesis
    using ok del count by (auto simp: reserve_unfold [OF ok] intro!: reserves_ok_insert)
qed

text \<open>The table right after \<open>expireReserves\<close>, as long as the clock stands still.\<close>

definition pool_ok :: "int \<Rightarrow> token_db \<Rightarrow> bool" where
  "pool_ok now db \<longleftrightarrow> reserves_ok now db \<and> (\<forall>r \<in> set (td_reserves db). now < fr_expires r)"

definition take_reserve :: "int \<Rightarrow> string \<Rightarrow> token_db \<Rightarrow> bool \<times> token_db" where
  "take_reserve now i = reserve i MIN_ATTEMPT_FEE_LAMPORTS FEE_RESERVE_TTL_MS now"

definition rebind :: "int \<Rightarrow> string \<Rightarrow> string \<Rightarrow> token_db \<Rightarrow> token_db" where
  "rebind now i j db = snd (rebindReserve i j now db)"

lemma pool_ok_expire: "reserves_ok now db \<Longrightarrow> pool_ok now (expireReserves now db)"
  unfolding pool_ok_def by (rule conjI, erule reserves_ok_filter) (auto simp: expireReserves_def)

lemma held_expire [simp]: "held now (expireReserves now db) j = held now db j"
  by (auto simp: held_iff expireReserves_def)

lemma rebind_unfold:
  assumes "pool_ok now db" "held now db i" "i \<noteq> ''''" "j \<noteq> ''''" "i \<noteq> j"
  obtains r where "r \<in> set (td_reserves db)" "fr_id r = i" "now < fr_expires r"
    "rebind now i j db =
       (if held now db j then delete_reserve i db else insert_reserve (r\<lparr>fr_id := j\<rparr>) (delete_reserve i db))"
proof -
  have d: "distinct (map fr_id (td_reserves db))" using assms(1) by (simp add: pool_ok_def reserves_ok_def)
  from assms(2) obtain r where r: "r \<in> set (td_reserves db)" "fr_id r = i" "now < fr_expires r"
    by (auto simp: held_iff)
  with d have f: "find_reserve i db = Some r" by (simp add: find_reserve_Some)
  have "find_reserve j (delete_reserve i db) \<noteq> None \<longleftrightarrow> held now db j"
    using assms(1,5) by (auto simp: find_reserve_None held_iff pool_ok_def image_iff)
  with f r assms(3-5) that [OF r] show thesis by (simp add: rebind_def rebindReserve_def Let_def)
qed

lemma pool_ok_rebind:
  assumes ok: "pool_ok now db"
  shows "pool_ok now (rebind now i j db)"
proof (cases "held now db i \<and> i \<noteq> '''' \<and> j \<noteq> '''' \<and> i \<noteq> j")
  case True
  then have h: "held now db i" "i \<noteq> ''''" "j \<noteq> ''''" "i \<noteq> j" by simp_all
  obtain r where r: "r \<in> set (td_reserves db)" "fr_id r = i" "now < fr_expires r"
    "rebind now i j db =
       (if held now db j then delete_reserve i db else insert_reserve (r\<lparr>fr_id := j\<rparr>) (delete_reserve i db))"
    by (rule rebind_unfold [OF ok h])
  have del: "reserves_ok now (delete_reserve i db)"
    by (rule reserves_ok_filter [of now db _ "\<lambda>r. fr_id r \<noteq> i"]) (use ok in \<open>simp_all add: pool_ok_def\<close>)
  have "r \<in> set (open_reserves now db)" using r by (simp add: open_reserves_def)
  then have "getOpenReserveCount now (delete_reserve i db) < getOpenReserveCount now db"
    using r(2) length_filter_less [of r "open_reserves now db" "\<lambda>r. fr_id r \<noteq> i"]
    by (simp add: getOpenReserveCount_def open_reserves_def conj_commute)
  then have "reserves_ok now (insert_reserve (r\<lparr>fr_id := j\<rparr>) (delete_reserve i db))" if "\<not> held now db j"
    using that ok r del by (intro reserves_ok_insert) (auto simp: pool_ok_def reserves_ok_def held_iff)
  with del r(3,4) ok show ?thesis by (auto simp: pool_ok_def)
next
  case False
  have d: "distinct (map fr_id (td_reserves db))" using ok by (simp add: pool_ok_def reserves_ok_def)
  from False have "i = '''' \<or> j = '''' \<or> i = j \<or> find_reserve i db = None"
    using ok by (auto simp: held_iff find_reserve_None pool_ok_def)
  then have "rebind now i j db = db" by (auto simp: rebind_def rebindReserve_def)
  with ok show ?thesis by simp
qed

lemma pool_ok_take: "pool_ok now db \<Longrightarrow> pool_ok now (snd (take_reserve now i db))"
  unfolding pool_ok_def take_reserve_def
  by (rule conjI, simp add: reserves_ok_reserve)
    (auto simp: reserve_unfold FEE_RESERVE_TTL_MS_def split: if_splits)

interpretation pool: reservation_pool "pool_ok now" "held now" "take_reserve now" release "rebind now" for now
proof
  fix s i j x
  assume ok: "pool_ok now s"
  then have rok: "reserves_ok now s" by (simp add: pool_ok_def)
  show "pool_ok now (snd (take_reserve now i s))" by (rule pool_ok_take [OF ok])
  have "reserves_ok now (release i s)" using rok by (rule reserves_ok_filter) (simp add: release_def)
  with ok show "pool_ok now (release i s)" by (simp add: pool_ok_def release_def)
  show "pool_ok now (rebind now i j s)" by (rule pool_ok_rebind [OF ok])
  show "held now (snd (take_reserve now i s)) j \<longleftrightarrow> held now s j \<or> (j = i \<and> fst (take_reserve now i s))"
    by (auto simp: take_reserve_def reserve_unfold [OF rok] held_delete held_insert FEE_RESERVE_TTL_MS_def)
  show "held now (release i s) j \<longleftrightarrow> held now s j \<and> j \<noteq> i" by (simp add: release_def held_delete)
  assume h: "held now s i" "i \<noteq> ''''" "j \<noteq> ''''" "i \<noteq> j"
  obtain r where "fr_id r = i" "now < fr_expires r" "rebind now i j s =
       (if held now s j then delete_reserve i s else insert_reserve (r\<lparr>fr_id := j\<rparr>) (delete_reserve i s))"
    by (rule rebind_unfold [OF ok h])
  with h show "held now (rebind now i j s) x \<longleftrightarrow> x = j \<or> held now s x \<and> x \<noteq> i"
    by (auto simp: held_delete held_insert)
qed

subsection \<open>The ledger\<close>

definition total :: "fee_kind \<Rightarrow> token_db \<Rightarrow> int" where
  "total k db = sum_list (map fe_lamports (filter (\<lambda>e. fe_kind e = k) (td_events db)))"

definition starter_credit :: "token_db \<Rightarrow> int" where
  "starter_credit db = (if td_meta db ''starter_granted'' = Some ''1'' then STARTER_FEE_BALANCE_LAMPORTS else 0)"

definition money_ok :: "token_db \<Rightarrow> bool" where
  "money_ok db \<longleftrightarrow>
     distinct (map fe_signature (td_events db)) \<and> (\<forall>e \<in> set (td_events db). 0 < fe_lamports e) \<and>
     0 \<le> getFeeBalanceLamports db \<and>
     getFeeBalanceLamports db \<le> starter_credit db + total Credit db \<and>
     total Credit db - total Debit db \<le> getFeeBalanceLamports db"

datatype ledger_op =
  EnsureToken string | GrantStarter | Reserve string int int | Release string | Expire
| SettleDebit fee_event | ApplyFeeEvent fee_event | Rebind string string

fun ledger_apply :: "ledger_op \<Rightarrow> int \<Rightarrow> token_db \<Rightarrow> token_db" where
  "ledger_apply (EnsureToken t) now db = snd (ensureToken t now db)"
| "ledger_apply GrantStarter now db = snd (grantStarterIfNeeded now db)"
| "ledger_apply (Reserve i n ttl) now db = snd (reserve i n ttl now db)"
| "ledger_apply (Release i) now db = release i db"
| "ledger_apply Expire now db = expireReserves now db"
| "ledger_apply (SettleDebit ev) now db = snd (settleDebit ev now db)"
| "ledger_apply (ApplyFeeEvent ev) now db = snd (applyFeeEvent ev now db)"
| "ledger_apply (Rebind i j) now db = snd (rebindReserve i j now db)"

text \<open>Any sequence of operations on a new store, the clock never going back.\<close>

inductive ledger_reachable :: "int \<Rightarrow> token_db \<Rightarrow> bool" where
  new_store: "ledger_reachable now initTokenSchema"
| wait: "ledger_reachable t db \<Longrightarrow> t \<le> now \<Longrightarrow> ledger_reachable now db"
| operation: "ledger_reachable t db \<Longrightarrow> t \<le> now \<Longrightarrow> ledger_reachable now (ledger_apply op now db)"

text \<open>Which part of the store an operation touches.\<close>

lemma same_money: "td_meta db' = td_meta db \<Longrightarrow> td_balance db' = td_balance db \<Longrightarrow> td_events db' = td_events db \<Longrightarrow>
    money_ok db' = money_ok db"
  by (simp add: money_ok_def getFeeBalanceLamports_def starter_credit_def total_def)

lemma reserve_keeps:
  "td_meta (snd (reserve i n ttl now db)) = td_meta db" "td_balance (snd (reserve i n ttl now db)) = td_balance db"
  "td_events (snd (reserve i n ttl now db)) = td_events db"
  by (simp_all add: reserve_def Let_def split: option.splits)

lemma rebindReserve_keeps:
  "td_meta (snd (rebindReserve i j now db)) = td_meta db" "td_balance (snd (rebindReserve i j now db)) = td_balance db"
  "td_events (snd (rebindReserve i j now db)) = td_events db"
  by (simp_all add: rebindReserve_def Let_def split: option.splits)

lemma release_keeps [simp]:
  "td_meta (release i db) = td_meta db" "td_balance (release i db) = td_balance db" "td_events (release i db) = td_events db"
  by (simp_all add: release_def)

lemma expire_keeps [simp]:
  "td_meta (expireReserves now db) = td_meta db" "td_balance (expireReserves now db) = td_balance db"
  "td_events (expireReserves now db) = td_events db"
  by (simp_all add: expireReserves_def)

lemma money_ok_reserves [simp]: "money_ok (db\<lparr>td_reserves := rs\<rparr>) = money_ok db"
  by (rule same_money) simp_all

lemma money_ok_expire [simp]: "money_ok (expireReserves now db) = money_ok db"
  by (simp add: expireReserves_def)

lemma applyFeeEvent_reserves [simp]: "td_reserves (snd (applyFeeEvent ev now db)) = td_reserves db"
  by (simp add: applyFeeEvent_def upsert_balance_def Let_def)

lemma money_ok_apply: "money_ok db \<Longrightarrow> money_ok (snd (applyFeeEvent ev now db))"
  by (cases "fe_kind ev")
    (auto simp: money_ok_def applyFeeEvent_def Let_def upsert_balance_def getFeeBalanceLamports_def
      starter_credit_def total_def split: option.splits)

lemma money_ok_settle: "money_ok db \<Longrightarrow> money_ok (snd (settleDebit ev now db))"
  by (simp add: settleDebit_def Let_def money_ok_apply)

lemma total_nonneg: "money_ok db \<Longrightarrow> 0 \<le> total k db"
  unfolding money_ok_def total_def by (intro sum_list_nonneg) (auto dest: less_imp_le)

lemma money_ok_grant: "money_ok db \<Longrightarrow> money_ok (snd (grantStarterIfNeeded now db))"
  using total_nonneg [of db Credit]
  by (auto simp: money_ok_def grantStarterIfNeeded_def Let_def upsert_balance_def getFeeBalanceLamports_def
      starter_credit_def total_def STARTER_FEE_BALANCE_LAMPORTS_def split: option.splits)

lemma money_ok_ensure: "money_ok db \<Longrightarrow> money_ok (snd (ensureToken token now db))"
  using total_nonneg [of db Credit]
  by (auto simp: money_ok_def ensureToken_def insert_meta_def Let_def upsert_balance_def getFeeBalanceLamports_def
      starter_credit_def total_def STARTER_FEE_BALANCE_LAMPORTS_def split: option.splits)

lemma reserves_ok_rebind:
  assumes ok: "reserves_ok now db"
  shows "reserves_ok now (snd (rebindReserve i j now db))"
proof (cases "find_reserve i db")
  case (Some r)
  have d: "distinct (map fr_id (td_reserves db))" using ok by (simp add: reserves_ok_def)
  with Some have r: "r \<in> set (td_reserves db)" "fr_id r = i" by (simp_all add: find_reserve_Some)
  have del: "reserves_ok now (delete_reserve i db)"
    by (rule reserves_ok_filter [OF ok, of _ "\<lambda>r. fr_id r \<noteq> i"]) simp
  have "reserves_ok now (insert_reserve (r\<lparr>fr_id := j\<rparr>) (delete_reserve i db))"
    if "now < fr_expires r" "find_reserve j (delete_reserve i db) = None"
  proof (rule reserves_ok_insert [OF del])
    show "fr_id (r\<lparr>fr_id := j\<rparr>) \<notin> fr_id ` set (td_reserves (delete_reserve i db))"
      using that(2) by (simp only: find_reserve_None) simp
    show "0 < fr_lamports (r\<lparr>fr_id := j\<rparr>)" using ok r by (simp add: reserves_ok_def)
    have "r \<in> set (open_reserves now db)" using r that by (simp add: open_reserves_def)
    then have "getOpenReserveCount now (delete_reserve i db) < getOpenReserveCount now db"
      using r(2) length_filter_less [of r "open_reserves now db" "\<lambda>r. fr_id r \<noteq> i"]
      by (simp add: getOpenReserveCount_def open_reserves_def conj_commute)
    with ok show "getOpenReserveCount now (delete_reserve i db) < MAX_CONCURRENT_FEE_RESERVES"
      by (simp add: reserves_ok_def)
  qed
  with Some ok del show ?thesis by (auto simp: rebindReserve_def Let_def)
qed (simp add: rebindReserve_def ok)

lemma ensureToken_reserves [simp]: "td_reserves (snd (ensureToken t now db)) = td_reserves db"
  by (auto simp: ensureToken_def insert_meta_def upsert_balance_def split: option.splits)

lemma grantStarter_reserves [simp]: "td_reserves (snd (grantStarterIfNeeded now db)) = td_reserves db"
  by (auto simp: grantStarterIfNeeded_def upsert_balance_def Let_def)

lemma settleDebit_reserves:
  "td_reserves (snd (settleDebit ev now db)) =
     (if fe_kind ev = Debit then filter (\<lambda>r. now < fr_expires r \<and> fr_id r \<noteq> strip_debit (fe_signature ev)) (td_reserves db)
      else td_reserves db)"
  by (auto simp: settleDebit_def Let_def expireReserves_def intro!: filter_cong)

text \<open>Each operation that does not touch a part keeps its invariant.\<close>

lemma reserves_ok_frames [simp]:
  "reserves_ok t (snd (ensureToken token now db)) = reserves_ok t db"
  "reserves_ok t (snd (grantStarterIfNeeded now db)) = reserves_ok t db"
  "reserves_ok t (snd (applyFeeEvent ev now db)) = reserves_ok t db"
  by (rule reserves_ok_same, simp)+

lemma money_ok_frames [simp]:
  "money_ok (snd (reserve i n ttl now db)) = money_ok db"
  "money_ok (snd (rebindReserve i j now db)) = money_ok db"
  "money_ok (release i db) = money_ok db"
  by (rule same_money; simp add: reserve_keeps rebindReserve_keeps)+

lemma reserves_ok_release: "reserves_ok now db \<Longrightarrow> reserves_ok now (release i db)"
  by (erule reserves_ok_filter) (simp add: release_def)

lemma reserves_ok_expire: "reserves_ok now db \<Longrightarrow> reserves_ok now (expireReserves now db)"
  by (erule reserves_ok_filter) (simp add: expireReserves_def)

lemma reserves_ok_settle:
  assumes ok: "reserves_ok now db"
  shows "reserves_ok now (snd (settleDebit ev now db))"
proof (cases "fe_kind ev = Debit")
  case True
  then show ?thesis by (intro reserves_ok_filter [OF ok]) (simp add: settleDebit_reserves)
next
  case False
  with ok show ?thesis by (simp add: settleDebit_def)
qed

lemma reserves_ok_apply: "reserves_ok now db \<Longrightarrow> reserves_ok now (ledger_apply op now db)"
  by (cases op)
    (simp_all add: reserves_ok_reserve reserves_ok_rebind reserves_ok_release reserves_ok_expire reserves_ok_settle)

lemma money_ok_op: "money_ok db \<Longrightarrow> money_ok (ledger_apply op now db)"
  by (cases op) (simp_all add: money_ok_ensure money_ok_grant money_ok_settle money_ok_apply)

lemma ledger_ok_core: "ledger_reachable now db \<Longrightarrow> reserves_ok now db \<and> money_ok db"
proof (induction rule: ledger_reachable.induct)
  case (new_store now)
  show ?case
    by (simp add: reserves_ok_def money_ok_def initTokenSchema_def getFeeBalanceLamports_def starter_credit_def
        total_def getOpenReserveCount_def open_reserves_def)
next
  case (wait t db now)
  then show ?case by (blast intro: reserves_ok_mono)
next
  case (operation t db now op)
  then have "reserves_ok now db" by (blast intro: reserves_ok_mono)
  with operation show ?case by (simp add: reserves_ok_apply money_ok_op)
qed

subsection \<open>What the balance is made of\<close>

text \<open>The balance after a booked event: a debit takes what is there, at most its amount.\<close>

definition after_event :: "int \<Rightarrow> fee_event_row \<Rightarrow> int" where
  "after_event b e = (case fe_kind e of Credit \<Rightarrow> b + fe_lamports e | Debit \<Rightarrow> max 0 (b - fe_lamports e))"

definition replayed :: "int \<Rightarrow> fee_event_row list \<Rightarrow> int" where
  "replayed b es = foldl after_event b es"

definition starter_given :: "token_db \<Rightarrow> bool" where
  "starter_given db \<longleftrightarrow> td_meta db ''starter_granted'' = Some ''1''"

text \<open>The starter credit fills an empty balance; a balance that is there already is left alone.\<close>

definition starter_added :: "int \<Rightarrow> int" where
  "starter_added b = (if b > 0 then b else STARTER_FEE_BALANCE_LAMPORTS)"

text \<open>
  The balance \<open>b'\<close> is what the events make of the balance \<open>b\<close>, in order.  The starter credit entered the
  account at one point if it was given since (\<open>given'\<close> and not \<open>given\<close>), and at none if it had been given
  before or has not been; once given it stays given.
\<close>

definition accounted :: "bool \<Rightarrow> int \<Rightarrow> bool \<Rightarrow> int \<Rightarrow> fee_event_row list \<Rightarrow> bool" where
  "accounted given b given' b' events \<longleftrightarrow>
     (if given then given' \<and> b' = replayed b events
      else if given' then \<exists>before since. events = before @ since \<and> b' = replayed (starter_added (replayed b before)) since
      else b' = replayed b events)"

text \<open>How the ledger \<open>db\<close> came from the ledger \<open>d\<close>: events were only appended, and they account for the balance.\<close>

definition ledger_grew :: "token_db \<Rightarrow> token_db \<Rightarrow> bool" where
  "ledger_grew d db \<longleftrightarrow>
     (\<exists>booked_since. td_events db = td_events d @ booked_since \<and>
        accounted (starter_given d) (getFeeBalanceLamports d) (starter_given db) (getFeeBalanceLamports db) booked_since)"

lemma replayed_append [simp]: "replayed b (es @ [e]) = after_event (replayed b es) e"
  by (simp add: replayed_def)

lemma replayed_Nil [simp]: "replayed b [] = b"
  by (simp add: replayed_def)

lemma accounted_event: "accounted g b g' b' es \<Longrightarrow> accounted g b g' (after_event b' e) (es @ [e])"
proof (cases "g \<or> \<not> g'")
  case False
  assume "accounted g b g' b' es"
  with False obtain before since where "es = before @ since" "b' = replayed (starter_added (replayed b before)) since"
    by (auto simp: accounted_def)
  then have "es @ [e] = before @ (since @ [e])"
    "after_event b' e = replayed (starter_added (replayed b before)) (since @ [e])" by simp_all
  with False show ?thesis unfolding accounted_def by metis
qed (auto simp: accounted_def)

lemma accounted_starter: "accounted g b False b' es \<Longrightarrow> accounted g b True (starter_added b') es"
proof -
  assume "accounted g b False b' es"
  then have "\<not> g" "b' = replayed b es" by (auto simp: accounted_def split: if_splits)
  then have "\<exists>before since. es = before @ since \<and> starter_added b' = replayed (starter_added (replayed b before)) since"
    by (intro exI [of _ es] exI [of _ "[]"]) simp
  with \<open>\<not> g\<close> show ?thesis by (simp add: accounted_def)
qed

lemma ledger_grew_refl: "ledger_grew d d"
  by (auto simp: ledger_grew_def accounted_def intro!: exI [of _ "[]"])

lemma ledger_grew_same:
  "ledger_grew d db \<Longrightarrow> td_events db' = td_events db \<Longrightarrow> getFeeBalanceLamports db' = getFeeBalanceLamports db \<Longrightarrow>
    starter_given db' = starter_given db \<Longrightarrow> ledger_grew d db'"
  unfolding ledger_grew_def by simp

lemma ledger_grew_event:
  assumes "ledger_grew d db" "td_events db' = td_events db @ [e]" "starter_given db' = starter_given db"
    "getFeeBalanceLamports db' = after_event (getFeeBalanceLamports db) e"
  shows "ledger_grew d db'"
proof -
  from assms(1) obtain new where new: "td_events db = td_events d @ new"
    "accounted (starter_given d) (getFeeBalanceLamports d) (starter_given db) (getFeeBalanceLamports db) new"
    by (auto simp: ledger_grew_def)
  with accounted_event [OF new(2), of e] assms(2-4) show ?thesis
    unfolding ledger_grew_def by (intro exI [of _ "new @ [e]"]) simp
qed

lemma ledger_grew_starter:
  assumes "ledger_grew d db" "\<not> starter_given db" "td_events db' = td_events db" "starter_given db'"
    "getFeeBalanceLamports db' = starter_added (getFeeBalanceLamports db)"
  shows "ledger_grew d db'"
  using assms(1-3) accounted_starter by (auto simp: ledger_grew_def assms(4,5))

lemma ledger_grew_apply:
  assumes "ledger_grew d db"
  shows "ledger_grew d (snd (applyFeeEvent ev now db))"
proof (cases "fe_lamports ev \<le> 0 \<or> fe_signature ev \<in> set (map fe_signature (td_events db))")
  case True
  with assms show ?thesis by (auto simp: applyFeeEvent_def)
next
  case False
  let ?e = "\<lparr>fe_signature = fe_signature ev, fe_kind = fe_kind ev, fe_lamports = fe_lamports ev, fe_created = now\<rparr>"
  show ?thesis
    by (rule ledger_grew_event [OF assms, of _ ?e])
      (use False in \<open>auto simp: applyFeeEvent_def Let_def starter_given_def getFeeBalanceLamports_def upsert_balance_def
        after_event_def split: fee_kind.split\<close>)
qed

lemma ledger_grew_settle: "ledger_grew d db \<Longrightarrow> ledger_grew d (snd (settleDebit ev now db))"
proof -
  assume g: "ledger_grew d db"
  have "ledger_grew d ((expireReserves now db)\<lparr>td_reserves := rs\<rparr>)" for rs
    by (rule ledger_grew_same [OF g]) (simp_all add: getFeeBalanceLamports_def starter_given_def)
  with g show ?thesis by (simp add: settleDebit_def Let_def ledger_grew_apply)
qed

lemma ledger_grew_grant:
  assumes "ledger_grew d db"
  shows "ledger_grew d (snd (grantStarterIfNeeded now db))"
proof (cases "td_meta db ''starter_granted'' = Some ''0''")
  case True
  then show ?thesis
    by (intro ledger_grew_starter [OF assms])
      (auto simp: grantStarterIfNeeded_def Let_def getFeeBalanceLamports_def starter_given_def upsert_balance_def starter_added_def)
qed (use assms in \<open>simp add: grantStarterIfNeeded_def\<close>)

lemma ledger_grew_ensure: "ledger_grew d db \<Longrightarrow> ledger_grew d (snd (ensureToken t now db))"
  by (erule ledger_grew_same)
    (auto simp: ensureToken_def insert_meta_def getFeeBalanceLamports_def starter_given_def upsert_balance_def split: option.splits)

lemma ledger_grew_op: "ledger_grew d db \<Longrightarrow> ledger_grew d (ledger_apply op now db)"
proof (cases op)
  case (Reserve i n ttl)
  then show "ledger_grew d db \<Longrightarrow> ?thesis"
    by (elim ledger_grew_same) (simp_all add: getFeeBalanceLamports_def starter_given_def reserve_keeps)
next
  case (Rebind i j)
  then show "ledger_grew d db \<Longrightarrow> ?thesis"
    by (elim ledger_grew_same) (simp_all add: getFeeBalanceLamports_def starter_given_def rebindReserve_keeps)
next
  case (Release i)
  then show "ledger_grew d db \<Longrightarrow> ?thesis"
    by (elim ledger_grew_same) (simp_all add: getFeeBalanceLamports_def starter_given_def)
next
  case Expire
  then show "ledger_grew d db \<Longrightarrow> ?thesis"
    by (elim ledger_grew_same) (simp_all add: getFeeBalanceLamports_def starter_given_def)
qed (simp_all add: ledger_grew_ensure ledger_grew_grant ledger_grew_settle ledger_grew_apply)

text \<open>The ledgers a sequence of operations makes of the ledger \<open>d\<close>, the clock never going back.\<close>

inductive ledger_from :: "token_db \<Rightarrow> int \<Rightarrow> token_db \<Rightarrow> bool" for d where
  as_it_was: "ledger_from d now d"
| later: "ledger_from d t db \<Longrightarrow> t \<le> now \<Longrightarrow> ledger_from d now db"
| next_operation: "ledger_from d t db \<Longrightarrow> t \<le> now \<Longrightarrow> ledger_from d now (ledger_apply op now db)"

lemma ledger_from_grew: "ledger_from d now db \<Longrightarrow> ledger_grew d db"
  by (induction rule: ledger_from.induct) (auto intro: ledger_grew_refl ledger_grew_op)

lemma ledger_from_new: "ledger_from initTokenSchema now db \<Longrightarrow> ledger_reachable now db"
  by (induction rule: ledger_from.induct) (auto intro: ledger_reachable.intros)

subsection \<open>What the ledger promises\<close>

lemma ledger_bounds:
  assumes "ledger_reachable now db"
  shows "0 \<le> getFeeBalanceLamports db \<and>
    getFeeBalanceLamports db \<le> starter_credit db + total Credit db \<and>
    total Credit db - total Debit db \<le> getFeeBalanceLamports db \<and>
    distinct (map fe_signature (td_events db)) \<and>
    getOpenReserveCount now db \<le> 4 \<and> distinct (map fr_id (td_reserves db))"
  using ledger_ok_core [OF assms]
  by (simp add: money_ok_def reserves_ok_def MAX_CONCURRENT_FEE_RESERVES_def)

definition sample_credit :: fee_event where
  "sample_credit = \<lparr>fe_signature = ''sigA'', fe_kind = Credit, fe_lamports = 300000\<rparr>"

definition sample_debit :: fee_event where
  "sample_debit = \<lparr>fe_signature = ''sigB:debit'', fe_kind = Debit, fe_lamports = 500000\<rparr>"

definition sample_ledger :: token_db where
  "sample_ledger =
     ledger_apply (ApplyFeeEvent sample_credit) 30 (ledger_apply (Reserve ''sigB'' 100000 90000) 20
       (ledger_apply GrantStarter 10 (ledger_apply (EnsureToken ''token'') 5 initTokenSchema)))"

lemma sample_ledger_reachable: "ledger_reachable 30 sample_ledger"
  unfolding sample_ledger_def
  by (rule ledger_reachable.operation [where t = 20], rule ledger_reachable.operation [where t = 10],
      rule ledger_reachable.operation [where t = 5], rule ledger_reachable.operation [where t = 0],
      rule ledger_reachable.new_store) simp_all

lemmas ledger_eval =
  ensureToken_def insert_meta_def upsert_balance_def grantStarterIfNeeded_def getFeeBalanceLamports_def
  reserve_def find_reserve_def getOpenReserveCount_def open_reserves_def getAvailableLamports_def
  getReservedLamports_def insert_reserve_def delete_reserve_def applyFeeEvent_def initTokenSchema_def
  STARTER_FEE_BALANCE_LAMPORTS_def MIN_ATTEMPT_FEE_LAMPORTS_def MAX_CONCURRENT_FEE_RESERVES_def Let_def

lemma sample_ledger_eval:
  "getFeeBalanceLamports sample_ledger = 1300000"
  "map fr_id (td_reserves sample_ledger) = [''sigB'']" "map fr_expires (td_reserves sample_ledger) = [90020]"
  "map fr_lamports (td_reserves sample_ledger) = [100000]"
  by (simp_all add: sample_ledger_def sample_credit_def ledger_eval)

text \<open>
  When a fee is reserved.  In every reachable ledger a positive amount is reserved under an id
  exactly if the id already has an open reserve (then nothing changes), or it is not empty, fewer than
  four reserves are open and the balance covers all open reserves and the new one.  After a grant the
  open reserves are still covered if they were before, and asking again changes nothing.
\<close>
theorem reserve_granted_iff_covered:
  assumes "ledger_reachable now db" "0 < lamports" "0 < ttl"
  shows "(fst (reserve i lamports ttl now db) \<longleftrightarrow>
      i \<noteq> '''' \<and> (held now db i \<or>
        getOpenReserveCount now db < 4 \<and> getReservedLamports now db + lamports \<le> getFeeBalanceLamports db)) \<and>
    (i \<noteq> '''' \<and> held now db i \<longrightarrow> snd (reserve i lamports ttl now db) = db) \<and>
    (getReservedLamports now db \<le> getFeeBalanceLamports db \<longrightarrow>
      getReservedLamports now (snd (reserve i lamports ttl now db)) \<le>
        getFeeBalanceLamports (snd (reserve i lamports ttl now db))) \<and>
    (fst (reserve i lamports ttl now db) \<longrightarrow>
      reserve i n ttl' now (snd (reserve i lamports ttl now db)) =
        (0 < n, snd (reserve i lamports ttl now db)))"
proof -
  have ok: "reserves_ok now db" using ledger_ok_core [OF assms(1)] by simp
  let ?r = "reserve i lamports ttl now db"
  have ok': "reserves_ok now (snd ?r)" by (rule reserves_ok_reserve [OF ok])
  have u: "?r = (if i = '''' then (False, db) else if held now db i then (True, db)
     else if getOpenReserveCount now db \<ge> 4 \<or> getFeeBalanceLamports db < getReservedLamports now db + lamports
       then (False, delete_reserve i db)
     else (True, insert_reserve \<lparr>fr_id = i, fr_lamports = lamports, fr_created = now, fr_expires = now + ttl\<rparr>
       (delete_reserve i db)))"
    using assms(2) by (auto simp: reserve_unfold [OF ok] getAvailableLamports_def MAX_CONCURRENT_FEE_RESERVES_def)
  have same: "open_reserves now (delete_reserve i db) = open_reserves now db" if "\<not> held now db i"
    using that by (auto simp: held_iff open_reserves_def filter_filter intro!: filter_cong)
  have same_bal: "getFeeBalanceLamports (delete_reserve i db) = getFeeBalanceLamports db"
    "getFeeBalanceLamports (insert_reserve r db) = getFeeBalanceLamports db" for r db
    by (simp_all add: getFeeBalanceLamports_def)
  have again: "reserve i n ttl' now db' = (0 < n, db')" if "reserves_ok now db'" "held now db' i" "i \<noteq> ''''" for db'
    using that by (simp add: reserve_unfold)
  have h: "held now (snd ?r) i \<and> i \<noteq> ''''" if "fst ?r"
    using that assms(3) by (auto simp: u held_insert split: if_splits)
  have covered: "getReservedLamports now (snd ?r) \<le> getFeeBalanceLamports (snd ?r)"
    if "getReservedLamports now db \<le> getFeeBalanceLamports db"
    using that same assms(3) by (auto simp: u getReservedLamports_def same_bal open_reserves_def)
  show ?thesis
    using h again [OF ok'] covered by (auto simp: u)
qed

theorem reserve_granted_iff_covered_witness:
  "fst (reserve ''sigC'' 100000 90000 30 sample_ledger) \<and>
   \<not> fst (reserve ''sigC'' 1250000 90000 30 sample_ledger)"
proof -
  have o: "map fr_lamports (open_reserves 30 sample_ledger) = [100000]"
    using sample_ledger_eval(3,4) by (auto simp: open_reserves_def map_eq_Cons_conv)
  have l: "length (open_reserves 30 sample_ledger) = 1"
    using arg_cong [OF o, of length] by simp
  have h: "\<not> held 30 sample_ledger ''sigC''"
    using sample_ledger_eval(2) by (auto simp: held_iff map_eq_Cons_conv)
  show ?thesis
    using reserve_granted_iff_covered [OF sample_ledger_reachable, of 100000 90000 "''sigC''"]
      reserve_granted_iff_covered [OF sample_ledger_reachable, of 1250000 90000 "''sigC''"]
    by (simp add: sample_ledger_eval(1) h getOpenReserveCount_def l getReservedLamports_def o)
qed

end
