(* ===== verification/SignDecode.thy ===== *)
theory SignDecode
  imports TokenStore
begin

text \<open>
  What the fee payer service makes of a transaction sent to it
  (\<^verbatim>\<open>workers/api-signer/src/transactions/decode-tx.ts\<close>) and the keys it signs with
  (\<^verbatim>\<open>backend/secrets.ts\<close>).  The decoders of \<open>@solana/kit\<close> and the signatures of \<open>@noble/curves\<close> are
  parameters; \<open>sk_failure\<close> gives the message of the exception a call of theirs throws.
\<close>

record sign_kit =
  sk_kit :: kit
  sk_base64Encode :: "string \<Rightarrow> bytes option"
  sk_base64Decode :: "bytes \<Rightarrow> string"
  sk_base58Encode :: "string \<Rightarrow> bytes option"
  sk_staticAccounts :: "compiled_message \<Rightarrow> address list"
  sk_instructions :: "compiled_message \<Rightarrow> kit_instruction list option"
  sk_getPublicKey :: "bytes \<Rightarrow> bytes"
  sk_sign :: "bytes \<Rightarrow> bytes \<Rightarrow> bytes"
  sk_jsonParse :: "string \<Rightarrow> js option"
  sk_toNumber :: "js \<Rightarrow> int"
  sk_sha256 :: "bytes \<Rightarrow> bytes"
  sk_failure :: "string \<Rightarrow> string"

definition kit_call :: "sign_kit \<Rightarrow> string \<Rightarrow> 'a option \<Rightarrow> thrown + 'a" where
  "kit_call K which r = (case r of Some x \<Rightarrow> Inr x | None \<Rightarrow> Inl (Uncoded (sk_failure K which)))"

definition throw_coded :: "string \<Rightarrow> string \<Rightarrow> thrown + 'a" where
  "throw_coded message code = Inl (Coded (coded message code))"

lemma kit_call_Inr [simp]: "kit_call K w r = Inr x \<longleftrightarrow> r = Some x"
  by (simp add: kit_call_def split: option.splits)

lemma throw_coded_Inr [simp]: "throw_coded m c \<noteq> Inr x"
  by (simp add: throw_coded_def)

subsection \<open>Top-level instructions\<close>

definition SYSTEM_PROGRAM_ADDRESS :: address where
  "SYSTEM_PROGRAM_ADDRESS = ''11111111111111111111111111111111''"

definition SECP256R1_PROGRAM :: address where
  "SECP256R1_PROGRAM = ''Secp256r1SigVerify1111111111111111111111111''"

definition TOP_LEVEL_OK :: "address list" where
  "TOP_LEVEL_OK = [SECP256R1_PROGRAM, PHYGITAL_WALLET_PROGRAM_ADDRESS]"

definition assertTopLevelInstructionAllowed :: "kit_instruction \<Rightarrow> thrown + unit" where
  "assertTopLevelInstructionAllowed ix =
     (if ix_program ix \<notin> set TOP_LEVEL_OK
      then throw_coded (''Unexpected top-level program '' @ ix_program ix) ''unexpected_instruction''
      else Inr ())"

definition asWalletInstruction :: "kit_instruction \<Rightarrow> thrown + kit_instruction" where
  "asWalletInstruction ix =
     (if ix_data ix = None \<or> ix_data ix = Some []
      then throw_coded ''Phygital-wallet instruction missing data'' ''invalid_transaction''
      else if ix_accounts ix = None
      then throw_coded ''Phygital-wallet instruction missing accounts'' ''invalid_transaction''
      else Inr ix)"

subsection \<open>Top-ups\<close>

text \<open>The body of the loop of \<open>isFeeBalanceTopUpIntent\<close>: \<open>accounts[1]\<close> and \<open>data[0]\<close> may be missing.\<close>

definition is_top_up_transfer :: "address \<Rightarrow> kit_instruction \<Rightarrow> bool" where
  "is_top_up_transfer accumulator ix =
     (if ix_program ix \<noteq> SYSTEM_PROGRAM_ADDRESS then False
      else if Option.bind (ix_data ix) (\<lambda>d. nth_opt d 0) \<noteq> Some 2 then False
      else
        (case Option.bind (ix_accounts ix) (\<lambda>as. map_option am_address (nth_opt as 1)) of
           None \<Rightarrow> False
         | Some dest \<Rightarrow> dest \<noteq> '''' \<and> dest = accumulator))"

definition isFeeBalanceTopUpIntent :: "kit_instruction list \<Rightarrow> address \<Rightarrow> bool" where
  "isFeeBalanceTopUpIntent ixs accumulator =
     (if accumulator = '''' \<or> ixs = [] then False else list_all (is_top_up_transfer accumulator) ixs)"

definition expand_account :: "address list \<Rightarrow> nat \<Rightarrow> thrown + account_meta" where
  "expand_account addresses idx =
     (case nth_opt addresses idx of
        Some a \<Rightarrow> if a = '''' then throw_coded ''Compact instruction account index out of range'' ''invalid_transaction''
          else Inr \<lparr>am_address = a, am_role = READONLY\<rparr>
      | None \<Rightarrow> throw_coded ''Compact instruction account index out of range'' ''invalid_transaction'')"

fun map_result :: "('a \<Rightarrow> 'e + 'b) \<Rightarrow> 'a list \<Rightarrow> 'e + 'b list" where
  "map_result f [] = Inr []"
| "map_result f (x # xs) = obind (f x) (\<lambda>y. obind (map_result f xs) (\<lambda>ys. Inr (y # ys)))"

definition expand_compact :: "address list \<Rightarrow> compact_instruction \<Rightarrow> thrown + kit_instruction" where
  "expand_compact addresses ci =
     (case nth_opt addresses (ci_program ci) of
        None \<Rightarrow> throw_coded ''Compact instruction program index out of range'' ''invalid_transaction''
      | Some p \<Rightarrow>
          if p = '''' then throw_coded ''Compact instruction program index out of range'' ''invalid_transaction''
          else obind (map_result (expand_account addresses) (ci_accounts ci)) (\<lambda>as.
            Inr \<lparr>ix_program = p, ix_accounts = Some as, ix_data = Some (ci_data ci)\<rparr>))"

definition expandCompactInstructions :: "compact_instruction list \<Rightarrow> address list \<Rightarrow> thrown + kit_instruction list" where
  "expandCompactInstructions compacts remainingAddresses = map_result (expand_compact remainingAddresses) compacts"

subsection \<open>Decoding\<close>

record resolved_wallet =
  rw_phygitalToken :: address
  rw_isFeePaying :: bool

text \<open>The two execute cases; the others only read the token.\<close>

definition resolve_execute ::
  "sign_kit \<Rightarrow> wallet_instruction \<Rightarrow> compact_instruction list \<Rightarrow> parsed_instruction \<Rightarrow> kit_instruction \<Rightarrow> address \<Rightarrow>
   thrown + resolved_wallet" where
  "resolve_execute K ixType compacts parsed walletIx accumulator =
     obind (kit_call K ''slice'' (sliceExecuteRemainingAccounts ixType
       (case ix_accounts walletIx of Some as \<Rightarrow> as | None \<Rightarrow> []))) (\<lambda>remaining.
     obind (expandCompactInstructions compacts (map am_address remaining)) (\<lambda>inner.
     Inr \<lparr>rw_phygitalToken = account_of parsed ''phygitalToken'',
          rw_isFeePaying = isFeeBalanceTopUpIntent inner accumulator\<rparr>))"

definition resolve_plain :: "sign_kit \<Rightarrow> parsed_instruction option \<Rightarrow> thrown + resolved_wallet" where
  "resolve_plain K parsed =
     obind (kit_call K ''parse'' parsed) (\<lambda>expanded.
       Inr \<lparr>rw_phygitalToken = account_of expanded ''phygitalToken'', rw_isFeePaying = False\<rparr>)"

definition compacts_of :: "parsed_instruction \<Rightarrow> compact_instruction list" where
  "compacts_of p = (case pi_data p of ExecuteData cs _ _ \<Rightarrow> cs | CompactData cs \<Rightarrow> cs | _ \<Rightarrow> [])"

definition resolveWalletInstruction ::
  "sign_kit \<Rightarrow> kit_instruction \<Rightarrow> wallet_instruction \<Rightarrow> address \<Rightarrow> thrown + resolved_wallet" where
  "resolveWalletInstruction K walletIx ixType accumulator =
     (case ixType of
        Execute \<Rightarrow>
          obind (kit_call K ''parse'' (parseExecuteInstruction (sk_kit K) walletIx)) (\<lambda>parsed.
            resolve_execute K Execute (compacts_of parsed) parsed walletIx accumulator)
      | ExecuteWithAuthority \<Rightarrow>
          obind (kit_call K ''parse'' (parseExecuteWithAuthorityInstruction (sk_kit K) walletIx)) (\<lambda>parsed.
            resolve_execute K ExecuteWithAuthority (compacts_of parsed) parsed walletIx accumulator)
      | SetAuthority \<Rightarrow> resolve_plain K (parseSetAuthorityInstruction (sk_kit K) walletIx)
      | SetWalletPolicy \<Rightarrow> resolve_plain K (parseSetWalletPolicyInstruction (sk_kit K) walletIx)
      | ClearAuthority \<Rightarrow> resolve_plain K (parseClearAuthorityInstruction walletIx)
      | ClearWalletPolicy \<Rightarrow> resolve_plain K (parseClearWalletPolicyInstruction walletIx)
      | ExecuteWithAuthorityUsingPolicies \<Rightarrow>
          throw_coded ''executeWithAuthorityUsingPolicies is not fee-sponsored'' ''unexpected_instruction'')"

record decoded_sign_tx =
  ds_messageBytes :: bytes
  ds_feePayer :: address
  ds_phygitalToken :: address
  ds_isFeePaying :: bool

text \<open>The loop over the top-level instructions, with what was resolved so far.\<close>

fun resolve_loop ::
  "sign_kit \<Rightarrow> address \<Rightarrow> resolved_wallet option \<Rightarrow> kit_instruction list \<Rightarrow> thrown + resolved_wallet option" where
  "resolve_loop K accumulator resolved [] = Inr resolved"
| "resolve_loop K accumulator resolved (ix # rest) =
     obind (assertTopLevelInstructionAllowed ix) (\<lambda>_.
     if ix_program ix \<noteq> PHYGITAL_WALLET_PROGRAM_ADDRESS then resolve_loop K accumulator resolved rest
     else if resolved \<noteq> None
       then throw_coded ''Transaction mixes multiple phygital-wallet instructions'' ''unexpected_instruction''
     else
       obind (asWalletInstruction ix) (\<lambda>walletIx.
       obind (kit_call K ''identify''
         (Option.bind (ix_data walletIx) (identifyPhygitalWalletInstruction (sk_kit K)))) (\<lambda>ixType.
       obind (resolveWalletInstruction K walletIx ixType accumulator) (\<lambda>r.
       resolve_loop K accumulator (Some r) rest))))"

definition decodeWireTransaction :: "sign_kit \<Rightarrow> string \<Rightarrow> address \<Rightarrow> thrown + decoded_sign_tx" where
  "decodeWireTransaction K base64Tx accumulator =
     obind (kit_call K ''base64'' (sk_base64Encode K base64Tx)) (\<lambda>bs.
     obind (kit_call K ''transaction'' (k_tx_decode (sk_kit K) bs)) (\<lambda>tx.
     obind (kit_call K ''message'' (map_option fst (k_msg_read (sk_kit K) (kt_messageBytes tx)))) (\<lambda>compiled.
     case nth_opt (sk_staticAccounts K compiled) 0 of
       None \<Rightarrow> throw_coded ''Transaction has no fee payer'' ''invalid_transaction''
     | Some feePayer \<Rightarrow>
         if feePayer = '''' then throw_coded ''Transaction has no fee payer'' ''invalid_transaction''
         else
           obind (kit_call K ''instructions'' (sk_instructions K compiled)) (\<lambda>topLevel.
           obind (resolve_loop K accumulator None topLevel) (\<lambda>resolved.
           case resolved of
             None \<Rightarrow> throw_coded ''Transaction missing a phygital-wallet instruction'' ''unexpected_instruction''
           | Some r \<Rightarrow>
               Inr \<lparr>ds_messageBytes = kt_messageBytes tx, ds_feePayer = feePayer,
                    ds_phygitalToken = rw_phygitalToken r, ds_isFeePaying = rw_isFeePaying r\<rparr>)))))"

subsection \<open>What is sponsored\<close>

lemma resolve_loop_Some:
  "resolve_loop K acc (Some r) ixs = Inr q \<longleftrightarrow>
     (\<forall>ix \<in> set ixs. ix_program ix = SECP256R1_PROGRAM) \<and> q = Some r"
proof (induction ixs)
  case (Cons ix ixs)
  have "SECP256R1_PROGRAM \<noteq> PHYGITAL_WALLET_PROGRAM_ADDRESS"
    by (simp add: SECP256R1_PROGRAM_def PHYGITAL_WALLET_PROGRAM_ADDRESS_def)
  with Cons show ?case by (auto simp: result_simps assertTopLevelInstructionAllowed_def TOP_LEVEL_OK_def)
qed auto

text \<open>The one wallet instruction of a decoded transaction, as the generated parser reads it.\<close>

definition resolves_to :: "sign_kit \<Rightarrow> address \<Rightarrow> kit_instruction \<Rightarrow> parsed_instruction \<Rightarrow> resolved_wallet \<Rightarrow> bool" where
  "resolves_to K acc ix p r \<longleftrightarrow>
     parsePhygitalWalletInstruction (sk_kit K) ix = Some p \<and>
     pi_type p \<noteq> ExecuteWithAuthorityUsingPolicies \<and>
     rw_phygitalToken r = account_of p ''phygitalToken'' \<and>
     (rw_isFeePaying r \<longleftrightarrow>
       (\<exists>remaining inner. (pi_type p = Execute \<or> pi_type p = ExecuteWithAuthority) \<and>
          Option.bind (ix_accounts ix) (sliceExecuteRemainingAccounts (pi_type p)) = Some remaining \<and>
          expandCompactInstructions (compacts_of p) (map am_address remaining) = Inr inner \<and>
          isFeeBalanceTopUpIntent inner acc))"

lemma parse_type: "parseExecuteInstruction k ix = Some p \<Longrightarrow> pi_type p = Execute"
  "parseExecuteWithAuthorityInstruction k ix = Some p \<Longrightarrow> pi_type p = ExecuteWithAuthority"
  "parseSetAuthorityInstruction k ix = Some p \<Longrightarrow> pi_type p = SetAuthority"
  "parseSetWalletPolicyInstruction k ix = Some p \<Longrightarrow> pi_type p = SetWalletPolicy"
  "parseClearAuthorityInstruction ix = Some p \<Longrightarrow> pi_type p = ClearAuthority"
  "parseClearWalletPolicyInstruction ix = Some p \<Longrightarrow> pi_type p = ClearWalletPolicy"
  by (auto simp: parser_defs parse_named_Some)

lemma resolve_execute_Inr:
  assumes "resolve_execute K t (compacts_of p) p ix acc = Inr r" "ix_accounts ix = Some as"
  shows "rw_phygitalToken r = account_of p ''phygitalToken'' \<and>
    (\<exists>remaining inner. sliceExecuteRemainingAccounts t as = Some remaining \<and>
       expandCompactInstructions (compacts_of p) (map am_address remaining) = Inr inner \<and>
       rw_isFeePaying r = isFeeBalanceTopUpIntent inner acc)"
  using assms by (auto simp: resolve_execute_def result_simps)

lemma resolve_plain_Inr:
  "resolve_plain K q = Inr r \<longleftrightarrow>
     (\<exists>p. q = Some p \<and> r = \<lparr>rw_phygitalToken = account_of p ''phygitalToken'', rw_isFeePaying = False\<rparr>)"
  by (auto simp: resolve_plain_def result_simps)

lemma resolveWalletInstruction_core:
  assumes "Option.bind (ix_data ix) (identifyPhygitalWalletInstruction (sk_kit K)) = Some t"
    "ix_accounts ix = Some as" "resolveWalletInstruction K ix t acc = Inr r"
  shows "\<exists>p. resolves_to K acc ix p r"
proof (cases t)
  case Execute
  with assms(3) obtain p where p: "parseExecuteInstruction (sk_kit K) ix = Some p"
      "resolve_execute K Execute (compacts_of p) p ix acc = Inr r"
    by (auto simp: resolveWalletInstruction_def result_simps)
  with resolve_execute_Inr [OF p(2) assms(2)] Execute assms(1,2) parse_type(1) [OF p(1)]
  have "resolves_to K acc ix p r" by (auto simp: resolves_to_def parsePhygitalWalletInstruction_def)
  then show ?thesis ..
next
  case ExecuteWithAuthority
  with assms(3) obtain p where p: "parseExecuteWithAuthorityInstruction (sk_kit K) ix = Some p"
      "resolve_execute K ExecuteWithAuthority (compacts_of p) p ix acc = Inr r"
    by (auto simp: resolveWalletInstruction_def result_simps)
  with resolve_execute_Inr [OF p(2) assms(2)] ExecuteWithAuthority assms(1,2) parse_type(2) [OF p(1)]
  have "resolves_to K acc ix p r" by (auto simp: resolves_to_def parsePhygitalWalletInstruction_def)
  then show ?thesis ..
qed (use assms parse_type(3-) in \<open>auto simp: resolveWalletInstruction_def resolve_plain_Inr resolves_to_def
    parsePhygitalWalletInstruction_def\<close>)

lemma resolve_loop_core:
  assumes "resolve_loop K acc None ixs = Inr (Some r)"
  shows "\<exists>ix p. filter (\<lambda>i. ix_program i = PHYGITAL_WALLET_PROGRAM_ADDRESS) ixs = [ix] \<and>
    set (map ix_program ixs) \<subseteq> {SECP256R1_PROGRAM, PHYGITAL_WALLET_PROGRAM_ADDRESS} \<and> resolves_to K acc ix p r"
  using assms
proof (induction ixs)
  case (Cons ix ixs)
  have ne: "SECP256R1_PROGRAM \<noteq> PHYGITAL_WALLET_PROGRAM_ADDRESS"
    by (simp add: SECP256R1_PROGRAM_def PHYGITAL_WALLET_PROGRAM_ADDRESS_def)
  show ?case
  proof (cases "ix_program ix = PHYGITAL_WALLET_PROGRAM_ADDRESS")
    case False
    with Cons.prems have top: "ix_program ix = SECP256R1_PROGRAM" and rest: "resolve_loop K acc None ixs = Inr (Some r)"
      by (auto simp: result_simps assertTopLevelInstructionAllowed_def TOP_LEVEL_OK_def split: if_splits)
    from Cons.IH [OF rest] ne top show ?thesis by simp
  next
    case True
    with Cons.prems obtain t q where t: "asWalletInstruction ix = Inr ix"
        "Option.bind (ix_data ix) (identifyPhygitalWalletInstruction (sk_kit K)) = Some t"
        "resolveWalletInstruction K ix t acc = Inr q" "resolve_loop K acc (Some q) ixs = Inr (Some r)"
      by (auto simp: result_simps asWalletInstruction_def split: if_splits)
    from t(1) obtain as where "ix_accounts ix = Some as"
      by (auto simp: asWalletInstruction_def split: if_splits)
    with resolveWalletInstruction_core [OF t(2) _ t(3)] obtain p where "resolves_to K acc ix p q" by auto
    with t(4) True ne show ?thesis
      by (auto simp: resolve_loop_Some filter_empty_conv)
  qed
qed simp

lemma decode_core:
  assumes "decodeWireTransaction K wire acc = Inr d"
  obtains bs tx compiled n topLevel r where
    "sk_base64Encode K wire = Some bs" "k_tx_decode (sk_kit K) bs = Some tx"
    "k_msg_read (sk_kit K) (kt_messageBytes tx) = Some (compiled, n)"
    "sk_instructions K compiled = Some topLevel" "ds_messageBytes d = kt_messageBytes tx"
    "nth_opt (sk_staticAccounts K compiled) 0 = Some (ds_feePayer d)"
    "resolve_loop K acc None topLevel = Inr (Some r)"
    "ds_phygitalToken d = rw_phygitalToken r" "ds_isFeePaying d = rw_isFeePaying r"
  using assms
  by (auto simp: decodeWireTransaction_def result_simps split: option.splits if_splits)

text \<open>
  What the service pays for.  A transaction that is accepted for signing has, besides signature
  checks of the secp256r1 program, exactly one top-level instruction: one of the wallet program, not the
  simulation-only variant, whose token is the token that is charged.  It is exempt from the fee exactly
  if it is one of the two execute variants, an accumulator is configured, and its compact instructions
  expand to at least one instruction, all of them system program instructions that start with byte 2
  and name the accumulator as second account; the amount plays no part.
\<close>
theorem sponsored_transaction_shape:
  assumes "decodeWireTransaction K wire acc = Inr d"
  shows "\<exists>bs tx compiled n topLevel ix p.
    sk_base64Encode K wire = Some bs \<and> k_tx_decode (sk_kit K) bs = Some tx \<and>
    k_msg_read (sk_kit K) (kt_messageBytes tx) = Some (compiled, n) \<and>
    sk_instructions K compiled = Some topLevel \<and>
    ds_messageBytes d = kt_messageBytes tx \<and>
    nth_opt (sk_staticAccounts K compiled) 0 = Some (ds_feePayer d) \<and>
    filter (\<lambda>i. ix_program i = PHYGITAL_WALLET_PROGRAM_ADDRESS) topLevel = [ix] \<and>
    set (map ix_program topLevel) \<subseteq> {SECP256R1_PROGRAM, PHYGITAL_WALLET_PROGRAM_ADDRESS} \<and>
    parsePhygitalWalletInstruction (sk_kit K) ix = Some p \<and>
    pi_type p \<noteq> ExecuteWithAuthorityUsingPolicies \<and>
    ds_phygitalToken d = account_of p ''phygitalToken'' \<and>
    (ds_isFeePaying d \<longleftrightarrow>
      acc \<noteq> '''' \<and> (pi_type p = Execute \<or> pi_type p = ExecuteWithAuthority) \<and>
      (\<exists>remaining inner. Option.bind (ix_accounts ix) (sliceExecuteRemainingAccounts (pi_type p)) = Some remaining \<and>
        expandCompactInstructions (compacts_of p) (map am_address remaining) = Inr inner \<and> inner \<noteq> [] \<and>
        list_all (\<lambda>i. ix_program i = SYSTEM_PROGRAM_ADDRESS \<and>
          Option.bind (ix_data i) (\<lambda>b. nth_opt b 0) = Some 2 \<and>
          Option.bind (ix_accounts i) (\<lambda>as. map_option am_address (nth_opt as 1)) = Some acc) inner))"
proof -
  obtain bs tx compiled n topLevel r where d:
    "sk_base64Encode K wire = Some bs" "k_tx_decode (sk_kit K) bs = Some tx"
    "k_msg_read (sk_kit K) (kt_messageBytes tx) = Some (compiled, n)"
    "sk_instructions K compiled = Some topLevel" "ds_messageBytes d = kt_messageBytes tx"
    "nth_opt (sk_staticAccounts K compiled) 0 = Some (ds_feePayer d)"
    and r: "resolve_loop K acc None topLevel = Inr (Some r)"
    "ds_phygitalToken d = rw_phygitalToken r" "ds_isFeePaying d = rw_isFeePaying r"
    by (rule decode_core [OF assms])
  from resolve_loop_core [OF r(1)] obtain ix p where w:
    "filter (\<lambda>i. ix_program i = PHYGITAL_WALLET_PROGRAM_ADDRESS) topLevel = [ix]"
    "set (map ix_program topLevel) \<subseteq> {SECP256R1_PROGRAM, PHYGITAL_WALLET_PROGRAM_ADDRESS}"
    "resolves_to K acc ix p r" by blast
  have top_up: "isFeeBalanceTopUpIntent inner acc \<longleftrightarrow> acc \<noteq> '''' \<and> inner \<noteq> [] \<and>
      list_all (\<lambda>i. ix_program i = SYSTEM_PROGRAM_ADDRESS \<and>
          Option.bind (ix_data i) (\<lambda>b. nth_opt b 0) = Some 2 \<and>
          Option.bind (ix_accounts i) (\<lambda>as. map_option am_address (nth_opt as 1)) = Some acc) inner" for inner
    by (auto simp: isFeeBalanceTopUpIntent_def is_top_up_transfer_def list_all_iff split: option.splits)
  show ?thesis
    by (intro exI [of _ bs] exI [of _ tx] exI [of _ compiled] exI [of _ n] exI [of _ topLevel] exI [of _ ix] exI [of _ p])
      (use d w r(2,3) in \<open>auto simp: resolves_to_def top_up simp del: nth_opt_Some_iff\<close>)
qed

text \<open>A top-up of nothing: a transfer of zero lamports to the accumulator, wrapped and sponsored for free.\<close>

definition zero_transfer :: compact_instruction where
  "zero_transfer = \<lparr>ci_program = 0, ci_accounts = [1, 2], ci_data = [2, 0, 0, 0, 0, 0, 0, 0, 0, 0, 0, 0]\<rparr>"

definition zero_top_up :: kit_instruction where
  "zero_top_up =
     \<lparr>ix_program = PHYGITAL_WALLET_PROGRAM_ADDRESS,
      ix_accounts = Some (map (\<lambda>a. \<lparr>am_address = a, am_role = READONLY\<rparr>)
        [''owner'', ''token'', ''authority'', ''wallet'', ''sysvar'', SYSTEM_PROGRAM_ADDRESS, ''wallet'', ''pool'']),
      ix_data = Some [249, 39, 107, 35, 244, 181, 161, 142]\<rparr>"

definition sample_sign_kit :: sign_kit where
  "sample_sign_kit =
     \<lparr>sk_kit = sample_kit\<lparr>k_tx_decode := \<lambda>b. Some \<lparr>kt_messageBytes = b, kt_signatures = []\<rparr>,
        k_msg_read := \<lambda>b. Some (\<lparr>cm_version = Legacy, cm_payload = b\<rparr>, 0),
        k_compact_data := \<lambda>_. Some [zero_transfer]\<rparr>,
      sk_base64Encode = \<lambda>s. if s = ''bad'' then None else Some [1, 2, 3],
      sk_base64Decode = \<lambda>b. bytesToBase64 b Std,
      sk_base58Encode = \<lambda>s. Some (replicate 32 7),
      sk_staticAccounts = \<lambda>_. [''payer''],
      sk_instructions = \<lambda>_. Some [zero_top_up],
      sk_getPublicKey = \<lambda>seed. [112, 97, 121, 101, 114], sk_sign = \<lambda>m seed. replicate 64 5,
      sk_jsonParse = \<lambda>_. Some (JObject [(''payer'', JString ''seed'')]), sk_toNumber = \<lambda>_. 0, sk_sha256 = \<lambda>b. replicate 32 9, sk_failure = \<lambda>w. w\<rparr>"

lemma sample_sign_kit_simps [simp]:
  "sk_base64Encode sample_sign_kit ''wire'' = Some [1, 2, 3]"
  "k_tx_decode (sk_kit sample_sign_kit) b = Some \<lparr>kt_messageBytes = b, kt_signatures = []\<rparr>"
  "k_msg_read (sk_kit sample_sign_kit) b = Some (\<lparr>cm_version = Legacy, cm_payload = b\<rparr>, 0)"
  "k_compact_data (sk_kit sample_sign_kit) b = Some [zero_transfer]"
  "k_containsBytes (sk_kit sample_sign_kit) a b off = (take (length b) (drop off a) = b)"
  "sk_staticAccounts sample_sign_kit c = [''payer'']" "sk_instructions sample_sign_kit c = Some [zero_top_up]"
  by (simp_all add: sample_sign_kit_def sample_kit_def)

lemma zero_top_up_decoded:
  "decodeWireTransaction sample_sign_kit ''wire'' acc =
     Inr \<lparr>ds_messageBytes = [1, 2, 3], ds_feePayer = ''payer'', ds_phygitalToken = ''token'',
          ds_isFeePaying = (acc = ''pool'')\<rparr>"
proof -
  let ?inner = "[\<lparr>ix_program = SYSTEM_PROGRAM_ADDRESS,
        ix_accounts = Some [\<lparr>am_address = ''wallet'', am_role = READONLY\<rparr>, \<lparr>am_address = ''pool'', am_role = READONLY\<rparr>],
        ix_data = Some [2, 0, 0, 0, 0, 0, 0, 0, 0, 0, 0, 0]\<rparr>]"
  have expanded: "expandCompactInstructions [zero_transfer] [SYSTEM_PROGRAM_ADDRESS, ''wallet'', ''pool''] = Inr ?inner"
    by (simp add: expandCompactInstructions_def expand_compact_def expand_account_def zero_transfer_def nth_opt_def
        SYSTEM_PROGRAM_ADDRESS_def)
  have top: "isFeeBalanceTopUpIntent ?inner acc = (acc = ''pool'')"
    by (auto simp: isFeeBalanceTopUpIntent_def is_top_up_transfer_def nth_opt_def)
  have id: "Option.bind (ix_data zero_top_up) (identifyPhygitalWalletInstruction (sk_kit sample_sign_kit)) =
      Some ExecuteWithAuthority"
    by (simp add: identifyPhygitalWalletInstruction_def discriminators_def zero_top_up_def)
  have res: "resolveWalletInstruction sample_sign_kit zero_top_up ExecuteWithAuthority acc =
      Inr \<lparr>rw_phygitalToken = ''token'', rw_isFeePaying = (acc = ''pool'')\<rparr>"
    by (simp add: resolveWalletInstruction_def parser_defs parse_named_def zero_top_up_def kit_call_def compacts_of_def
        resolve_execute_def sliceExecuteRemainingAccounts_def EXECUTE_WITH_AUTHORITY_NAMED_ACCOUNT_COUNT_def
        expanded top account_of_def)
  have prog: "ix_program zero_top_up = PHYGITAL_WALLET_PROGRAM_ADDRESS" "asWalletInstruction zero_top_up = Inr zero_top_up"
    by (simp_all add: zero_top_up_def asWalletInstruction_def)
  have "resolve_loop sample_sign_kit acc None [zero_top_up] =
      Inr (Some \<lparr>rw_phygitalToken = ''token'', rw_isFeePaying = (acc = ''pool'')\<rparr>)"
    by (simp add: assertTopLevelInstructionAllowed_def TOP_LEVEL_OK_def prog id res kit_call_def)
  then show ?thesis
    by (simp add: decodeWireTransaction_def kit_call_def nth_opt_def)
qed

theorem sponsored_transaction_shape_witness:
  "\<exists>p. parsePhygitalWalletInstruction (sk_kit sample_sign_kit) zero_top_up = Some p \<and>
     pi_type p \<noteq> ExecuteWithAuthorityUsingPolicies \<and> account_of p ''phygitalToken'' = ''token''"
proof -
  have "ix_program zero_top_up = PHYGITAL_WALLET_PROGRAM_ADDRESS" by (simp add: zero_top_up_def)
  then show ?thesis using sponsored_transaction_shape [OF zero_top_up_decoded [of "''pool''"]] by auto
qed

subsection \<open>The keys\<close>

definition MAX_FEE_PAYER_KEYS :: nat where "MAX_FEE_PAYER_KEYS = 8"

definition misconfigured :: "string \<Rightarrow> thrown + 'a" where
  "misconfigured message = throw_coded message ''signer_misconfigured''"

text \<open>An element of \<open>Uint8Array.from\<close>: the number, cut off and modulo 256.\<close>

definition to_uint8 :: "sign_kit \<Rightarrow> js \<Rightarrow> byte" where
  "to_uint8 K v =
     (case v of
        JNumber q \<Rightarrow> word_of_int (if 0 \<le> q then floor q else ceiling q)
      | JBool b \<Rightarrow> (if b then 1 else 0)
      | JNull \<Rightarrow> 0
      | _ \<Rightarrow> word_of_int (sk_toNumber K v))"

definition parseSeed :: "sign_kit \<Rightarrow> string \<Rightarrow> thrown + bytes" where
  "parseSeed K raw =
     obind (if starts_with ''['' (trim raw)
            then obind (kit_call K ''JSON'' (sk_jsonParse K raw)) (\<lambda>v. Inr (case v of JArray xs \<Rightarrow> map (to_uint8 K) xs | _ \<Rightarrow> []))
            else kit_call K ''base58'' (sk_base58Encode K (trim raw)))
     (\<lambda>secretKey.
        let seed = (if length secretKey \<ge> 64 then take 32 secretKey else secretKey) in
        if length seed \<noteq> 32 then misconfigured ''Fee-payer secret must be a 32-byte seed or 64-byte keypair''
        else Inr seed)"

type_synonym fee_payer_signer = "(string \<times> bytes) list"

text \<open>The loop of the constructor.\<close>

fun load_keys :: "sign_kit \<Rightarrow> fee_payer_signer \<Rightarrow> (string \<times> js) list \<Rightarrow> thrown + fee_payer_signer" where
  "load_keys K byPubkey [] = Inr byPubkey"
| "load_keys K byPubkey ((pubkey, value) # rest) =
     (case value of
        JString v \<Rightarrow>
          if trim v = '''' then misconfigured (''FEE_PAYER_SECRET_KEYS entry for '' @ pubkey @ '' must be a string'')
          else
            obind (parseSeed K v) (\<lambda>seed.
            let derived = k_base58 (sk_kit K) (sk_getPublicKey K seed) in
            if derived \<noteq> pubkey
            then misconfigured (''FEE_PAYER_SECRET_KEYS pubkey mismatch: map key '' @ pubkey @ '' != derived '' @ derived)
            else load_keys K (set_key pubkey seed byPubkey) rest)
      | _ \<Rightarrow> misconfigured (''FEE_PAYER_SECRET_KEYS entry for '' @ pubkey @ '' must be a string''))"

definition createFeePayerSigner :: "sign_kit \<Rightarrow> string option \<Rightarrow> thrown + fee_payer_signer" where
  "createFeePayerSigner K secretKeysJson =
     (let text_json = or_else secretKeysJson '''' in
      if trim text_json = '''' then misconfigured ''FEE_PAYER_SECRET_KEYS is not configured''
      else case sk_jsonParse K text_json of
        None \<Rightarrow> misconfigured ''FEE_PAYER_SECRET_KEYS must be valid JSON''
      | Some (JObject entries) \<Rightarrow>
          if entries = [] then misconfigured ''FEE_PAYER_SECRET_KEYS must include at least one key''
          else if length entries > MAX_FEE_PAYER_KEYS
            then misconfigured ''FEE_PAYER_SECRET_KEYS supports at most 8 keys''
          else load_keys K [] entries
      | Some _ \<Rightarrow> misconfigured ''FEE_PAYER_SECRET_KEYS must be a JSON object map'')"

definition canSign :: "fee_payer_signer \<Rightarrow> string \<Rightarrow> bool" where
  "canSign b feePayer \<longleftrightarrow> map_of b feePayer \<noteq> None"

definition sign_with :: "sign_kit \<Rightarrow> fee_payer_signer \<Rightarrow> string \<Rightarrow> bytes \<Rightarrow> thrown + string" where
  "sign_with K b feePayer messageBytes =
     (case map_of b feePayer of
        None \<Rightarrow> Inl (Coded ((coded ''Transaction fee payer does not match this signing service'' ''fee_payer_mismatch'')
          \<lparr>ce_details := Some [(''expected'', JArray (map (\<lambda>(k, _). JString k) b)), (''got'', JString feePayer)]\<rparr>))
      | Some seed \<Rightarrow> Inr (sk_base64Decode K (sk_sign K messageBytes seed)))"

text \<open>Every loaded key is a seed of 32 bytes stored under the address it derives.\<close>

definition keys_ok :: "sign_kit \<Rightarrow> fee_payer_signer \<Rightarrow> bool" where
  "keys_ok K b \<longleftrightarrow> (\<forall>(pubkey, seed) \<in> set b. length seed = 32 \<and> k_base58 (sk_kit K) (sk_getPublicKey K seed) = pubkey)"

lemma parseSeed_length: "parseSeed K raw = Inr seed \<Longrightarrow> length seed = 32"
  by (auto simp: parseSeed_def result_simps Let_def misconfigured_def split: if_splits)

lemma set_set_key: "set (set_key k v m) \<subseteq> insert (k, v) (set m)"
  by (induction k v m rule: set_key.induct) auto

lemma length_set_key: "length (set_key k v m) \<le> Suc (length m)"
  by (induction k v m rule: set_key.induct) auto

lemma load_keys_ok:
  "load_keys K b es = Inr b' \<Longrightarrow> keys_ok K b \<Longrightarrow> keys_ok K b' \<and> length b' \<le> length b + length es"
proof (induction K b es rule: load_keys.induct)
  case (2 K b pubkey v0 rest)
  then obtain v seed where v: "v0 = JString v" "trim v \<noteq> ''''" "parseSeed K v = Inr seed"
      "k_base58 (sk_kit K) (sk_getPublicKey K seed) = pubkey" "load_keys K (set_key pubkey seed b) rest = Inr b'"
    by (auto simp: result_simps Let_def misconfigured_def split: js.splits if_splits)
  have "keys_ok K (set_key pubkey seed b)"
    using 2(3) v(4) parseSeed_length [OF v(3)] set_set_key [of pubkey seed b] by (auto simp: keys_ok_def)
  with 2(1) [OF v(1,2) refl _ v(5)] v(4) length_set_key [of pubkey seed b] show ?case by force
qed simp

lemma createFeePayerSigner_ok:
  "createFeePayerSigner K json = Inr b \<Longrightarrow> keys_ok K b \<and> length b \<le> MAX_FEE_PAYER_KEYS"
  by (auto simp: createFeePayerSigner_def Let_def misconfigured_def keys_ok_def split: option.splits js.splits if_splits
      dest!: load_keys_ok)

end
