(* ===== verification/TokenSigner.thy ===== *)
theory TokenSigner
  imports SignDecode
begin

text \<open>
  The Durable Object of a token (\<^verbatim>\<open>workers/api-signer/src/token-signer.ts\<close>): its memoised fields, its
  store and its alarm as a record, and its handlers.  A handler runs to its end before the next one, and
  reads one time \<open>now\<close>: inside a Durable Object the clock stands still between I/O.  Logging is left out.
\<close>

record signer_env =
  se_secretKeys :: "string option"
  se_accumulator :: "string option"

record token_signer =
  ts_name :: "string option"
  ts_storeMade :: bool
  ts_backend :: "fee_payer_signer option"
  ts_token :: "string option"
  ts_db :: token_db
  ts_alarm :: "int option"

type_synonym 'a handler = "token_signer \<Rightarrow> (thrown + 'a) \<times> token_signer"

definition and_then :: "'a handler \<Rightarrow> ('a \<Rightarrow> 'b handler) \<Rightarrow> 'b handler" where
  "and_then m f s = (case m s of (Inl e, s1) \<Rightarrow> (Inl e, s1) | (Inr x, s1) \<Rightarrow> f x s1)"

definition done_with :: "'a \<Rightarrow> 'a handler" where
  "done_with x s = (Inr x, s)"

definition new_signer :: "string option \<Rightarrow> token_signer" where
  "new_signer name =
     \<lparr>ts_name = name, ts_storeMade = False, ts_backend = None, ts_token = None, ts_db = initTokenSchema, ts_alarm = None\<rparr>"

subsection \<open>Memoised fields\<close>

definition tokenFromName :: "string option \<Rightarrow> thrown + string" where
  "tokenFromName name =
     (if trim (or_else name '''') = '''' then throw_coded ''TokenSigner requires idFromName(phygitalToken)'' ''signer_misconfigured''
      else Inr (trim (or_else name '''')))"

definition messageReserveId :: "sign_kit \<Rightarrow> bytes \<Rightarrow> string" where
  "messageReserveId K messageBytes = digestHex (sk_sha256 K) messageBytes"

definition memo_token :: "token_signer \<Rightarrow> string option" where
  "memo_token s = (if ts_token s = Some '''' then None else ts_token s)"

definition getToken :: "string handler" where
  "getToken s =
     (case memo_token s of
        Some t \<Rightarrow> (Inr t, s)
      | None \<Rightarrow>
          (case tokenFromName (ts_name s) of
             Inl e \<Rightarrow> (Inl e, s)
           | Inr t \<Rightarrow> (Inr t, s\<lparr>ts_token := Some t\<rparr>)))"

definition ensure_in_store :: "string \<Rightarrow> int \<Rightarrow> unit handler" where
  "ensure_in_store t now s = (let (r, db) = ensureToken t now (ts_db s) in (r, s\<lparr>ts_db := db\<rparr>))"

text \<open>The field is set before \<open>ensureToken\<close> runs.\<close>

definition getStore :: "int \<Rightarrow> unit handler" where
  "getStore now s =
     (if ts_storeMade s then (Inr (), s)
      else and_then getToken (\<lambda>t s1. ensure_in_store t now (s1\<lparr>ts_storeMade := True\<rparr>)) s)"

definition bindToken :: "string \<Rightarrow> int \<Rightarrow> unit handler" where
  "bindToken token now s =
     (let trimmed = trim token in
      if memo_token s \<noteq> None \<and> memo_token s \<noteq> Some trimmed
      then (throw_coded ''TokenSigner DO token mismatch'' ''token_mismatch'', s)
      else and_then (getStore now) (\<lambda>_. ensure_in_store trimmed now) (s\<lparr>ts_token := Some trimmed\<rparr>))"

definition getBackend :: "sign_kit \<Rightarrow> signer_env \<Rightarrow> fee_payer_signer handler" where
  "getBackend K E s =
     (case ts_backend s of
        Some b \<Rightarrow> (Inr b, s)
      | None \<Rightarrow>
          (case createFeePayerSigner K (se_secretKeys E) of
             Inl e \<Rightarrow> (Inl e, s)
           | Inr b \<Rightarrow> (Inr b, s\<lparr>ts_backend := Some b\<rparr>)))"

definition scheduleReserveAlarm :: "int \<Rightarrow> unit handler" where
  "scheduleReserveAlarm now =
     and_then (getStore now) (\<lambda>_ s.
       case nextReserveExpiry now (ts_db s) of
         None \<Rightarrow> (Inr (), s)
       | Some t \<Rightarrow> (Inr (), s\<lparr>ts_alarm := Some t\<rparr>))"

definition on_db :: "(token_db \<Rightarrow> token_db) \<Rightarrow> unit handler" where
  "on_db f s = (Inr (), s\<lparr>ts_db := f (ts_db s)\<rparr>)"

subsection \<open>Alarm, balance, events\<close>

definition alarm :: "int \<Rightarrow> unit handler" where
  "alarm now =
     and_then (getStore now) (\<lambda>_.
     and_then (on_db (expireReserves now)) (\<lambda>_. scheduleReserveAlarm now))"

definition getFeeBalance :: "int \<Rightarrow> (int \<times> int \<times> int) handler" where
  "getFeeBalance now =
     and_then getToken (\<lambda>_.
     and_then (getStore now) (\<lambda>_.
     and_then (on_db (expireReserves now)) (\<lambda>_.
     and_then (on_db (\<lambda>db. snd (grantStarterIfNeeded now db))) (\<lambda>_ s.
       let balance = getFeeBalanceLamports (ts_db s);
           reserved = getReservedLamports now (ts_db s) in
       (Inr (balance, reserved, max 0 (balance - reserved)), s)))))"

definition apply_one_event :: "fee_event \<Rightarrow> int \<Rightarrow> bool handler" where
  "apply_one_event ev now =
     and_then (getStore now) (\<lambda>_ s.
       let (applied, db) = (if fe_kind ev = Debit then settleDebit ev now (ts_db s) else applyFeeEvent ev now (ts_db s)) in
       (Inr applied, s\<lparr>ts_db := db\<rparr>))"

fun apply_events :: "int \<Rightarrow> string list \<Rightarrow> fee_event list \<Rightarrow> string list handler" where
  "apply_events now appliedSignatures [] = done_with appliedSignatures"
| "apply_events now appliedSignatures (ev # rest) =
     and_then (apply_one_event ev now) (\<lambda>applied.
       apply_events now (if applied then appliedSignatures @ [fe_signature ev] else appliedSignatures) rest)"

definition applyFeeEvents :: "fee_event list \<Rightarrow> int \<Rightarrow> (nat \<times> string list) handler" where
  "applyFeeEvents events now =
     and_then getToken (\<lambda>_.
     and_then (apply_events now [] events) (\<lambda>appliedSignatures.
     and_then (scheduleReserveAlarm now) (\<lambda>_.
     done_with (length appliedSignatures, appliedSignatures))))"

subsection \<open>Signing\<close>

record refusal =
  rf_status :: nat
  rf_error :: string
  rf_code :: string
  rf_details :: "(string \<times> js) list option"
  rf_soft :: "bool option"

datatype sign_result = SignOk "string list" "(string \<times> nat \<times> nat) option" | SignRefused refusal

definition transactions_required :: refusal where
  "transactions_required =
     \<lparr>rf_status = 400, rf_error = ''transactions required'', rf_code = ''invalid_transaction'', rf_details = None,
      rf_soft = Some False\<rparr>"

definition fee_payer_refusal :: "decoded_sign_tx \<Rightarrow> refusal" where
  "fee_payer_refusal d =
     \<lparr>rf_status = 403, rf_error = ''Transaction fee payer is not sponsored by this service'',
      rf_code = ''fee_payer_mismatch'',
      rf_details = Some [(''got'', JString (ds_feePayer d)), (''phygitalToken'', JString (ds_phygitalToken d))],
      rf_soft = None\<rparr>"

definition balance_refusal :: "decoded_sign_tx \<Rightarrow> int \<Rightarrow> refusal" where
  "balance_refusal d available =
     \<lparr>rf_status = 403, rf_error = ''Fee balance is too low for this transaction'', rf_code = ''insufficient_fee_balance'',
      rf_details = Some [(''availableLamports'', JNumber (of_int available)),
        (''requiredLamports'', JNumber (of_int MIN_ATTEMPT_FEE_LAMPORTS)), (''phygitalToken'', JString (ds_phygitalToken d))],
      rf_soft = None\<rparr>"

definition releaseReserves :: "string list \<Rightarrow> token_signer \<Rightarrow> token_signer" where
  "releaseReserves ids s = s\<lparr>ts_db := fold release ids (ts_db s)\<rparr>"

datatype loop_result =
  LoopDone "string list" "string list" "string option"
| LoopRefused refusal
| LoopThrown thrown "string list"

datatype step_result =
  Signed "string list" string string
| StepRefused refusal
| StepThrown thrown "string list"

text \<open>One turn of the loop: \<open>reservedIds\<close> afterwards, the signature and the fee payer.\<close>

definition sign_one ::
  "sign_kit \<Rightarrow> address \<Rightarrow> fee_payer_signer \<Rightarrow> int \<Rightarrow> string list \<Rightarrow> string \<Rightarrow> token_signer \<Rightarrow> step_result \<times> token_signer" where
  "sign_one K acc backend now reservedIds wire s =
     (case decodeWireTransaction K wire acc of
        Inl e \<Rightarrow> (StepThrown e reservedIds, s)
      | Inr d \<Rightarrow>
     (case bindToken (ds_phygitalToken d) now s of
        (Inl e, s1) \<Rightarrow> (StepThrown e reservedIds, s1)
      | (Inr _, s1) \<Rightarrow>
          if \<not> canSign backend (ds_feePayer d)
          then (StepRefused (fee_payer_refusal d), releaseReserves reservedIds s1)
          else if \<not> ds_isFeePaying d then
            (let reserveId = messageReserveId K (ds_messageBytes d) in
             case reserve reserveId MIN_ATTEMPT_FEE_LAMPORTS FEE_RESERVE_TTL_MS now (ts_db s1) of
               (False, db) \<Rightarrow>
                 (let s2 = releaseReserves reservedIds (s1\<lparr>ts_db := db\<rparr>) in
                  (StepRefused (balance_refusal d (getAvailableLamports now (ts_db s2))), s2))
             | (True, db) \<Rightarrow>
                 (case sign_with K backend (ds_feePayer d) (ds_messageBytes d) of
                    Inl e \<Rightarrow> (StepThrown e (reservedIds @ [reserveId]), s1\<lparr>ts_db := db\<rparr>)
                  | Inr signature \<Rightarrow>
                      (Signed (reservedIds @ [signature]) signature (ds_feePayer d),
                       s1\<lparr>ts_db := snd (rebindReserve reserveId signature now db)\<rparr>)))
          else
            (case sign_with K backend (ds_feePayer d) (ds_messageBytes d) of
               Inl e \<Rightarrow> (StepThrown e reservedIds, s1)
             | Inr signature \<Rightarrow> (Signed reservedIds signature (ds_feePayer d), s1))))"

text \<open>The loop, with \<open>reservedIds\<close>, \<open>signatures\<close> and \<open>feePayerSeen\<close>.\<close>

fun sign_loop ::
  "sign_kit \<Rightarrow> address \<Rightarrow> fee_payer_signer \<Rightarrow> int \<Rightarrow> string list \<Rightarrow> string list \<Rightarrow> string option \<Rightarrow> string list \<Rightarrow>
   token_signer \<Rightarrow> loop_result \<times> token_signer" where
  "sign_loop K acc backend now reservedIds sigs seen [] s = (LoopDone reservedIds sigs seen, s)"
| "sign_loop K acc backend now reservedIds sigs seen (wire # rest) s =
     (case sign_one K acc backend now reservedIds wire s of
        (Signed ids signature feePayer, s1) \<Rightarrow>
          sign_loop K acc backend now ids (sigs @ [signature]) (Some feePayer) rest s1
      | (StepRefused r, s1) \<Rightarrow> (LoopRefused r, s1)
      | (StepThrown e ids, s1) \<Rightarrow> (LoopThrown e ids, s1))"

text \<open>The \<open>try\<close> block after the check of the argument, up to the alarm.\<close>

definition sign_try :: "sign_kit \<Rightarrow> signer_env \<Rightarrow> string list \<Rightarrow> int \<Rightarrow> token_signer \<Rightarrow> loop_result \<times> token_signer" where
  "sign_try K E wires now s =
     (case getBackend K E s of
        (Inl e, s1) \<Rightarrow> (LoopThrown e [], s1)
      | (Inr backend, s1) \<Rightarrow>
     (case and_then (getStore now) (\<lambda>_. on_db (expireReserves now)) s1 of
        (Inl e, s2) \<Rightarrow> (LoopThrown e [], s2)
      | (Inr _, s2) \<Rightarrow>
     (case sign_loop K (trim (or_else (se_accumulator E) '''')) backend now [] [] None wires s2 of
        (LoopDone reservedIds sigs seen, s3) \<Rightarrow>
          (case scheduleReserveAlarm now s3 of
             (Inl e, s4) \<Rightarrow> (LoopThrown e reservedIds, s4)
           | (Inr _, s4) \<Rightarrow> (LoopDone reservedIds sigs seen, s4))
      | r \<Rightarrow> r)))"

definition signer_error :: error_fallback where
  "signer_error = \<lparr>ef_message = None, ef_code = Some ''signer_error'', ef_status = Some 500\<rparr>"

definition caught :: "thrown \<Rightarrow> refusal" where
  "caught e =
     (let n = normalizeError e signer_error in
      \<lparr>rf_status = ne_status n, rf_error = ne_error n, rf_code = ne_code n, rf_details = ne_details n, rf_soft = ne_soft n\<rparr>)"

definition signTransactions :: "sign_kit \<Rightarrow> signer_env \<Rightarrow> string list option \<Rightarrow> int \<Rightarrow> sign_result handler" where
  "signTransactions K E wires now =
     and_then getToken (\<lambda>_ s.
       case wires of
         None \<Rightarrow> (Inr (SignRefused transactions_required), s)
       | Some ws \<Rightarrow>
           if ws = [] then (Inr (SignRefused transactions_required), s)
           else case sign_try K E ws now s of
             (LoopDone reservedIds sigs seen, s1) \<Rightarrow>
               (Inr (SignOk sigs (map_option (\<lambda>p. (p, length sigs, length reservedIds))
                  (if seen = Some '''' then None else seen))), s1)
           | (LoopRefused r, s1) \<Rightarrow> (Inr (SignRefused r), s1)
           | (LoopThrown e reservedIds, s1) \<Rightarrow>
               and_then (getStore now) (\<lambda>_ s2. (Inr (SignRefused (caught e)), releaseReserves reservedIds s2)) s1)"

subsection \<open>What the helpers leave alone\<close>

definition same_ledger :: "token_db \<Rightarrow> token_db \<Rightarrow> bool" where
  "same_ledger db db' \<longleftrightarrow>
     td_reserves db' = td_reserves db \<and> td_events db' = td_events db \<and>
     getFeeBalanceLamports db' = getFeeBalanceLamports db"

lemma same_ledger_refl [simp]: "same_ledger db db"
  by (simp add: same_ledger_def)

lemma same_ledger_trans: "same_ledger a b \<Longrightarrow> same_ledger b c \<Longrightarrow> same_ledger a c"
  by (simp add: same_ledger_def)

lemma same_ledger_held: "same_ledger db db' \<Longrightarrow> held now db' = held now db"
  by (auto simp: same_ledger_def held_iff fun_eq_iff)

lemma same_ledger_ok: "same_ledger db db' \<Longrightarrow> pool_ok now db' = pool_ok now db"
  by (simp add: same_ledger_def pool_ok_def reserves_ok_def getOpenReserveCount_def open_reserves_def)

lemma same_ledger_amounts: "same_ledger db db' \<Longrightarrow> getReservedLamports now db' = getReservedLamports now db"
  by (simp add: same_ledger_def getReservedLamports_def open_reserves_def)

lemma and_then_Inr [result_simps]:
  "and_then m f s = (Inr y, s') \<longleftrightarrow> (\<exists>x s1. m s = (Inr x, s1) \<and> f x s1 = (Inr y, s'))"
  by (auto simp: and_then_def split: prod.splits sum.splits)

lemma ensureToken_frame: "ensureToken t now db = (r, db') \<Longrightarrow> same_ledger db db'"
  by (auto simp: ensureToken_def insert_meta_def upsert_balance_def same_ledger_def getFeeBalanceLamports_def
      split: option.splits if_splits)

lemma ensure_in_store_frame: "ensure_in_store t now s = (r, s') \<Longrightarrow> same_ledger (ts_db s) (ts_db s')"
  by (auto simp: ensure_in_store_def dest: ensureToken_frame split: prod.splits)

lemma getToken_frame: "getToken s = (r, s') \<Longrightarrow> ts_db s' = ts_db s"
  by (auto simp: getToken_def split: option.splits sum.splits)

lemma getStore_frame:
  assumes "getStore now s = (r, s')"
  shows "same_ledger (ts_db s) (ts_db s')"
proof (cases "getToken s")
  case (Pair t s1)
  with getToken_frame [OF Pair] assms show ?thesis
    by (cases t) (auto simp: getStore_def and_then_def dest: ensure_in_store_frame split: if_splits)
qed

lemma bindToken_frame:
  assumes "bindToken t now s = (r, s')"
  shows "same_ledger (ts_db s) (ts_db s')"
proof (cases "getStore now (s\<lparr>ts_token := Some (trim t)\<rparr>)")
  case (Pair u s1)
  with getStore_frame [OF Pair] assms show ?thesis
    by (cases u)
      (auto simp: bindToken_def and_then_def Let_def dest: ensure_in_store_frame intro: same_ledger_trans split: if_splits)
qed

lemma getBackend_frame: "getBackend K E s = (r, s') \<Longrightarrow> ts_db s' = ts_db s"
  by (auto simp: getBackend_def split: option.splits sum.splits)

lemma scheduleReserveAlarm_frame:
  assumes "scheduleReserveAlarm now s = (r, s')"
  shows "same_ledger (ts_db s) (ts_db s')"
proof (cases "getStore now s")
  case (Pair u s1)
  with getStore_frame [OF Pair] assms show ?thesis
    by (cases u) (auto simp: scheduleReserveAlarm_def and_then_def split: option.splits)
qed

subsection \<open>The ids of reserves\<close>

text \<open>
  Documented behaviour of the libraries: SHA-256 digests have 32 bytes, Ed25519 signatures 64, and the
  base64 decoder of \<open>@solana/kit\<close> writes the standard padded form.
\<close>

definition sign_kit_ok :: "sign_kit \<Rightarrow> bool" where
  "sign_kit_ok K \<longleftrightarrow>
     (\<forall>b. length (sk_sha256 K b) = 32) \<and> (\<forall>m seed. length (sk_sign K m seed) = 64) \<and>
     sk_base64Decode K = (\<lambda>b. bytesToBase64 b Std)"

lemma sample_sign_kit_ok: "sign_kit_ok sample_sign_kit"
  by (simp add: sign_kit_ok_def sample_sign_kit_def)

lemma messageReserveId_length: "sign_kit_ok K \<Longrightarrow> length (messageReserveId K m) = 64"
proof -
  have "length (concat (map hex_byte bs)) = 2 * length bs" for bs
    by (induction bs) (simp_all add: hex_byte_def)
  moreover assume "sign_kit_ok K"
  ultimately show ?thesis by (simp add: messageReserveId_def digestHex_def sign_kit_ok_def)
qed

lemma signature_text: "length b = 64 \<Longrightarrow> CHR ''='' \<in> set (bytesToBase64 b Std) \<and> length (bytesToBase64 b Std) = 88"
  by (simp add: bytesToBase64_core b64_padding_def length_enc_core)

lemma sign_with_text:
  "sign_kit_ok K \<Longrightarrow> sign_with K b feePayer m = Inr sig \<Longrightarrow> CHR ''='' \<in> set sig \<and> length sig = 88"
  by (auto simp: sign_with_def sign_kit_ok_def signature_text split: option.splits)

subsection \<open>What a turn of the loop does to the ledger\<close>

definition charged :: "int \<Rightarrow> token_db \<Rightarrow> token_db \<Rightarrow> bool" where
  "charged now db db' \<longleftrightarrow>
     td_events db' = td_events db \<and> getFeeBalanceLamports db' = getFeeBalanceLamports db \<and>
     (getReservedLamports now db \<le> getFeeBalanceLamports db \<longrightarrow>
        getReservedLamports now db' \<le> getFeeBalanceLamports db')"

lemma charged_refl [simp]: "charged now db db"
  by (simp add: charged_def)

lemma charged_trans: "charged now a b \<Longrightarrow> charged now b c \<Longrightarrow> charged now a c"
  by (auto simp: charged_def)

lemma charged_same: "same_ledger db db' \<Longrightarrow> charged now db db'"
  by (frule same_ledger_amounts [where now = now]) (simp add: charged_def same_ledger_def)

lemma reserved_filter:
  assumes "\<forall>r \<in> set (td_reserves db). 0 < fr_lamports r" "td_reserves db' = filter P (td_reserves db)"
  shows "getReservedLamports now db' \<le> getReservedLamports now db"
proof -
  have "sum_list (map fr_lamports (filter P rs)) \<le> sum_list (map fr_lamports rs)"
    if "\<forall>r \<in> set rs. 0 < fr_lamports r" for rs :: "fee_reserve list"
    using that by (induction rs) auto
  moreover have "open_reserves now db' = filter P (open_reserves now db)"
    by (simp add: open_reserves_def assms(2) conj_commute)
  moreover have "\<forall>r \<in> set (open_reserves now db). 0 < fr_lamports r" using assms(1) by (simp add: open_reserves_def)
  ultimately show ?thesis by (simp add: getReservedLamports_def)
qed

lemma charged_release: "pool_ok now db \<Longrightarrow> charged now db (release i db)"
  using reserved_filter [of db "release i db" "\<lambda>r. fr_id r \<noteq> i" now]
  by (auto simp: charged_def release_def pool_ok_def reserves_ok_def getFeeBalanceLamports_def)

lemma charged_release_all:
  "pool_ok now db \<Longrightarrow> charged now db (fold release is db) \<and> pool_ok now (fold release is db)"
proof (induction "is" arbitrary: db)
  case (Cons i "is")
  then show ?case
    using charged_release [OF Cons(2), of i] pool.ok_give_back [OF Cons(2), of i] by (auto intro: charged_trans)
qed simp

lemma charged_take:
  assumes "pool_ok now db"
  shows "charged now db (snd (take_reserve now i db))"
proof -
  have rok: "reserves_ok now db" using assms by (simp add: pool_ok_def)
  have same: "open_reserves now (delete_reserve i db) = open_reserves now db" if "\<not> held now db i"
    using that by (auto simp: held_iff open_reserves_def filter_filter intro!: filter_cong)
  show ?thesis
    using same
    by (auto simp: take_reserve_def reserve_unfold [OF rok] charged_def getFeeBalanceLamports_def
        getReservedLamports_def open_reserves_def getAvailableLamports_def)
qed

lemma sum_delete:
  "distinct (map fr_id rs) \<Longrightarrow> r \<in> set rs \<Longrightarrow>
     sum_list (map fr_lamports (filter (\<lambda>q. fr_id q \<noteq> fr_id r) rs)) + fr_lamports r = sum_list (map fr_lamports rs)"
proof (induction rs)
  case (Cons q rs)
  show ?case
  proof (cases "q = r")
    case True
    with Cons(2) have "filter (\<lambda>q. fr_id q \<noteq> fr_id r) rs = rs" by (auto simp: filter_id_conv image_iff)
    with True show ?thesis by simp
  next
    case False
    with Cons have "r \<in> set rs" "fr_id q \<noteq> fr_id r" by (auto simp: image_iff)
    with Cons show ?thesis by simp
  qed
qed simp

lemma charged_rebind:
  assumes ok: "pool_ok now db" and h: "held now db i" "i \<noteq> ''''" "j \<noteq> ''''" "i \<noteq> j"
  shows "charged now db (rebind now i j db)"
proof -
  obtain r where r: "r \<in> set (td_reserves db)" "fr_id r = i" "now < fr_expires r"
    "rebind now i j db =
       (if held now db j then delete_reserve i db else insert_reserve (r\<lparr>fr_id := j\<rparr>) (delete_reserve i db))"
    by (rule rebind_unfold [OF ok h])
  have opn: "open_reserves now (delete_reserve i db) = filter (\<lambda>q. fr_id q \<noteq> fr_id r) (open_reserves now db)"
    using r(2) by (simp add: open_reserves_def conj_commute)
  have "getReservedLamports now (delete_reserve i db) + fr_lamports r = getReservedLamports now db"
    unfolding getReservedLamports_def opn using ok r
    by (intro sum_delete) (auto simp: pool_ok_def reserves_ok_def open_reserves_def distinct_delete)
  moreover have "getReservedLamports now (insert_reserve (r\<lparr>fr_id := j\<rparr>) (delete_reserve i db)) =
      getReservedLamports now (delete_reserve i db) + fr_lamports r"
    using r(3) by (simp add: getReservedLamports_def open_reserves_def)
  moreover have "0 < fr_lamports r" using ok r(1) by (simp add: pool_ok_def reserves_ok_def)
  moreover have "td_events (rebind now i j db) = td_events db"
    "getFeeBalanceLamports (rebind now i j db) = getFeeBalanceLamports db"
    by (simp_all add: r(4) getFeeBalanceLamports_def)
  ultimately show ?thesis using r(4) by (auto simp: charged_def)
qed

text \<open>What a signature that was handed out stands for.\<close>

definition signed_for ::
  "sign_kit \<Rightarrow> address \<Rightarrow> fee_payer_signer \<Rightarrow> int \<Rightarrow> token_db \<Rightarrow> string \<Rightarrow> string \<Rightarrow> bool" where
  "signed_for K acc backend now db wire sig \<longleftrightarrow>
     (\<exists>d. decodeWireTransaction K wire acc = Inr d \<and> canSign backend (ds_feePayer d) \<and>
        sign_with K backend (ds_feePayer d) (ds_messageBytes d) = Inr sig \<and>
        (ds_isFeePaying d \<or> held now db sig))"

definition step_outcome ::
  "sign_kit \<Rightarrow> address \<Rightarrow> fee_payer_signer \<Rightarrow> int \<Rightarrow> string \<Rightarrow> token_db \<Rightarrow> token_db \<Rightarrow> token_db \<Rightarrow> step_result \<Rightarrow> bool" where
  "step_outcome K acc backend now wire db0 db db' res =
     (case res of
        Signed ids sig _ \<Rightarrow>
          pool.adds_only now (set ids) db0 db' \<and> signed_for K acc backend now db' wire sig \<and>
          (\<forall>x. held now db x \<and> length x \<noteq> 64 \<longrightarrow> held now db' x)
      | StepRefused _ \<Rightarrow> pool.adds_only now {} db0 db'
      | StepThrown _ ids \<Rightarrow> pool.adds_only now (set ids) db0 db')"

lemma adds_only_same: "same_ledger db db' \<Longrightarrow> pool.adds_only now T db0 db' = pool.adds_only now T db0 db"
  by (simp add: pool.adds_only_def same_ledger_held)

lemma released:
  assumes "pool_ok now db" "pool.adds_only now (set ids) db0 db"
  shows "pool.adds_only now {} db0 (fold release ids db)"
  using pool.rolled_back [OF assms] by (simp add: pool.give_back_all_def)

lemma sign_one_step:
  assumes K: "sign_kit_ok K" and ok: "pool_ok now (ts_db s)"
    and adds: "pool.adds_only now (set reservedIds) db0 (ts_db s)"
    and res: "sign_one K acc backend now reservedIds wire s = (res, s')"
  shows "pool_ok now (ts_db s') \<and> charged now (ts_db s) (ts_db s') \<and>
    step_outcome K acc backend now wire db0 (ts_db s) (ts_db s') res"
proof (cases "decodeWireTransaction K wire acc")
  case (Inl e)
  with ok adds res show ?thesis by (auto simp: sign_one_def step_outcome_def)
next
  case (Inr d)
  obtain b s1 where b: "bindToken (ds_phygitalToken d) now s = (b, s1)" by force
  note same = bindToken_frame [OF b]
  have ok1: "pool_ok now (ts_db s1)" and adds1: "pool.adds_only now (set reservedIds) db0 (ts_db s1)"
    and charged1: "charged now (ts_db s) (ts_db s1)" and held1: "held now (ts_db s1) = held now (ts_db s)"
    using ok adds same by (simp_all add: same_ledger_ok adds_only_same charged_same same_ledger_held)
  let ?id = "messageReserveId K (ds_messageBytes d)"
  let ?t = "take_reserve now ?id (ts_db s1)"
  have t: "pool_ok now (snd ?t)" "charged now (ts_db s1) (snd ?t)"
    using pool_ok_take [OF ok1] charged_take [OF ok1] by auto
  consider (thrown) e where "b = Inl e"
    | (payer) "b = Inr ()" "\<not> canSign backend (ds_feePayer d)"
    | (top_up) "b = Inr ()" "canSign backend (ds_feePayer d)" "ds_isFeePaying d"
    | (poor) "b = Inr ()" "canSign backend (ds_feePayer d)" "\<not> ds_isFeePaying d" "\<not> fst ?t"
    | (pays) "b = Inr ()" "canSign backend (ds_feePayer d)" "\<not> ds_isFeePaying d" "fst ?t"
    by (cases b) auto
  then show ?thesis
  proof cases
    case thrown
    with res Inr b ok1 adds1 charged1 show ?thesis by (auto simp: sign_one_def step_outcome_def)
  next
    case payer
    with res Inr b charged_release_all [OF ok1, of reservedIds] charged1 released [OF ok1 adds1] show ?thesis
      by (auto simp: sign_one_def step_outcome_def releaseReserves_def intro: charged_trans)
  next
    case top_up
    with res Inr b ok1 adds1 charged1 held1 show ?thesis
      by (auto simp: sign_one_def step_outcome_def signed_for_def split: sum.splits)
  next
    case poor
    have "pool.adds_only now (set reservedIds) db0 (snd ?t)"
      by (rule pool.adds_only_refused [OF ok1 adds1 poor(4)])
    then have "pool.adds_only now {} db0 (fold release reservedIds (snd ?t))"
      by (rule released [OF t(1)])
    with poor res Inr b charged_release_all [OF t(1), of reservedIds] charged1 t(2) show ?thesis
      by (auto simp: sign_one_def step_outcome_def releaseReserves_def take_reserve_def Let_def
          intro: charged_trans split: prod.splits bool.splits)
  next
    case pays
    from pays(2) obtain sig where sig: "sign_with K backend (ds_feePayer d) (ds_messageBytes d) = Inr sig"
      by (auto simp: canSign_def sign_with_def)
    have ids: "length ?id = 64" "length sig = 88" using messageReserveId_length [OF K] sign_with_text [OF K sig] by auto
    then have ne: "?id \<noteq> ''''" "sig \<noteq> ''''" "?id \<noteq> sig" by auto
    have held_id: "held now (snd ?t) ?id" using pool.holds_acquire [OF ok1, of ?id ?id] pays(4) by simp
    let ?db = "rebind now ?id sig (snd ?t)"
    note moved = pool.adds_only_rename [OF ok1 adds1 pays(4) ne]
    have "charged now (ts_db s) ?db"
      using charged1 t(2) charged_rebind [OF t(1) held_id ne] by (blast intro: charged_trans)
    moreover have "pool_ok now ?db" by (rule pool_ok_rebind [OF t(1)])
    moreover have "step_outcome K acc backend now wire db0 (ts_db s) ?db (Signed (reservedIds @ [sig]) sig (ds_feePayer d))"
      using moved ids Inr pays(2) sig held1 by (auto simp: step_outcome_def signed_for_def)
    moreover have "(res, s') = (Signed (reservedIds @ [sig]) sig (ds_feePayer d), s1\<lparr>ts_db := ?db\<rparr>)"
      using res Inr b pays sig
      by (auto simp: sign_one_def Let_def take_reserve_def rebind_def split: prod.splits bool.splits)
    ultimately show ?thesis by simp
  qed
qed

definition loop_outcome ::
  "sign_kit \<Rightarrow> address \<Rightarrow> fee_payer_signer \<Rightarrow> int \<Rightarrow> string list \<Rightarrow> string list \<Rightarrow> token_db \<Rightarrow> token_db \<Rightarrow>
   loop_result \<Rightarrow> bool" where
  "loop_outcome K acc backend now sigs wires db0 db' res =
     (case res of
        LoopDone ids sigs' _ \<Rightarrow>
          pool.adds_only now (set ids) db0 db' \<and>
          (\<exists>new. sigs' = sigs @ new \<and> list_all2 (signed_for K acc backend now db') wires new)
      | LoopRefused _ \<Rightarrow> pool.adds_only now {} db0 db'
      | LoopThrown _ ids \<Rightarrow> pool.adds_only now (set ids) db0 db')"

lemma sign_loop_steps:
  assumes K: "sign_kit_ok K" and ok: "pool_ok now (ts_db s)"
    and adds: "pool.adds_only now (set reservedIds) db0 (ts_db s)"
    and res: "sign_loop K acc backend now reservedIds sigs seen wires s = (res, s')"
  shows "pool_ok now (ts_db s') \<and> charged now (ts_db s) (ts_db s') \<and>
    loop_outcome K acc backend now sigs wires db0 (ts_db s') res \<and>
    ((\<exists>ids sigs' p. res = LoopDone ids sigs' p) \<longrightarrow>
       (\<forall>x. held now (ts_db s) x \<and> length x \<noteq> 64 \<longrightarrow> held now (ts_db s') x))"
  using ok adds res
proof (induction wires arbitrary: reservedIds sigs seen s)
  case Nil
  then show ?case by (auto simp: loop_outcome_def)
next
  case (Cons wire rest)
  obtain step s1 where one: "sign_one K acc backend now reservedIds wire s = (step, s1)" by force
  note st = sign_one_step [OF K Cons.prems(1,2) one]
  show ?case
  proof (cases step)
    case (Signed ids sig p)
    from Cons.prems(3) one Signed
    have loop: "sign_loop K acc backend now ids (sigs @ [sig]) (Some p) rest s1 = (res, s')" by simp
    have sf: "signed_for K acc backend now (ts_db s1) wire sig" using st Signed by (simp add: step_outcome_def)
    then have len: "length sig = 88" using sign_with_text [OF K] by (auto simp: signed_for_def)
    have adds1: "pool.adds_only now (set ids) db0 (ts_db s1)" using st Signed by (simp add: step_outcome_def)
    note IH = Cons.IH [OF conjunct1 [OF st] adds1 loop]
    have "signed_for K acc backend now (ts_db s') wire sig" if "\<exists>ids sigs' p. res = LoopDone ids sigs' p"
      using IH that sf len by (auto simp: signed_for_def)
    with IH st Signed show ?thesis
      by (auto simp: loop_outcome_def step_outcome_def intro: charged_trans split: loop_result.splits)
  next
    case (StepRefused r)
    with Cons.prems(3) one st show ?thesis by (auto simp: loop_outcome_def step_outcome_def)
  next
    case (StepThrown e ids)
    with Cons.prems(3) one st show ?thesis by (auto simp: loop_outcome_def step_outcome_def)
  qed
qed

lemma charged_expire:
  assumes "reserves_ok now db"
  shows "charged now db (expireReserves now db)"
  using reserved_filter [of db "expireReserves now db" "\<lambda>r. \<not> fr_expires r \<le> now" now] assms
  by (auto simp: charged_def expireReserves_def reserves_ok_def getFeeBalanceLamports_def)

lemma same_ledger_reserves_ok: "same_ledger db db' \<Longrightarrow> reserves_ok now db' = reserves_ok now db"
  by (rule reserves_ok_same) (simp add: same_ledger_def)

text \<open>The whole \<open>try\<close> block: the keys it used and what it did to the ledger.\<close>

lemma sign_try_steps:
  assumes K: "sign_kit_ok K" and ok: "reserves_ok now (ts_db s)"
    and res: "sign_try K E wires now s = (res, s')"
  obtains backend where "reserves_ok now (ts_db s')" "charged now (ts_db s) (ts_db s')"
    "case res of LoopThrown _ ids \<Rightarrow> ids = [] \<or> pool_ok now (ts_db s') | _ \<Rightarrow> True"
    "loop_outcome K (trim (or_else (se_accumulator E) '''')) backend now [] wires (ts_db s) (ts_db s') res"
proof (cases "getBackend K E s")
  case (Pair b s1)
  note db1 = getBackend_frame [OF Pair]
  show ?thesis
  proof (cases b)
    case (Inl e)
    with Pair res ok db1 show ?thesis
      by (intro that) (auto simp: sign_try_def loop_outcome_def pool.adds_only_refl)
  next
    case (Inr backend)
    obtain g s2 where g: "getStore now s1 = (g, s2)" by force
    note same2 = getStore_frame [OF g]
    have ok2: "reserves_ok now (ts_db s2)" and c2: "charged now (ts_db s) (ts_db s2)"
      using ok same2 db1 same_ledger_reserves_ok [OF same2] by (auto intro: charged_same)
    show ?thesis
    proof (cases g)
      case (Inl e)
      with Pair Inr g res ok2 c2 same2 db1 show ?thesis
        by (intro that) (auto simp: sign_try_def and_then_def loop_outcome_def adds_only_same pool.adds_only_refl)
    next
      case gr: (Inr u)
      let ?s3 = "s2\<lparr>ts_db := expireReserves now (ts_db s2)\<rparr>"
      let ?acc = "trim (or_else (se_accumulator E) '''')"
      obtain lres s4 where loop: "sign_loop K ?acc backend now [] [] None wires ?s3 = (lres, s4)" by force
      have pok: "pool_ok now (ts_db ?s3)" using pool_ok_expire [OF ok2] by simp
      have adds: "pool.adds_only now (set []) (ts_db s) (ts_db ?s3)"
        using same2 db1 by (simp add: pool.adds_only_def same_ledger_held)
      note L = sign_loop_steps [OF K pok adds loop]
      have c4: "charged now (ts_db s) (ts_db s4)"
        using charged_trans [OF charged_trans [OF c2 charged_expire [OF ok2]]] L by auto
      have ok4: "reserves_ok now (ts_db s4)" using L by (simp add: pool_ok_def)
      show ?thesis
      proof (cases lres)
        case (LoopDone ids sigs p)
        obtain a s5 where a: "scheduleReserveAlarm now s4 = (a, s5)" by force
        note same5 = scheduleReserveAlarm_frame [OF a]
        have f: "reserves_ok now (ts_db s5)" "charged now (ts_db s) (ts_db s5)" "pool_ok now (ts_db s5)"
          "signed_for K ?acc backend now (ts_db s5) = signed_for K ?acc backend now (ts_db s4)"
          using same5 same_ledger_reserves_ok [OF same5] ok4 L charged_trans [OF c4 charged_same [OF same5]]
          by (auto simp: same_ledger_ok signed_for_def same_ledger_held fun_eq_iff)
        show ?thesis
        proof (cases a)
          case (Inl e)
          with LoopDone Pair \<open>b = Inr backend\<close> g gr loop a res f L same5 show ?thesis
            by (intro that [of backend]) (auto simp: sign_try_def and_then_def on_db_def loop_outcome_def adds_only_same)
        next
          case (Inr v)
          with LoopDone Pair \<open>b = Inr backend\<close> g gr loop a res f L same5 show ?thesis
            by (intro that [of backend]) (auto simp: sign_try_def and_then_def on_db_def loop_outcome_def adds_only_same)
        qed
      next
        case (LoopRefused r)
        with Pair Inr g gr loop res ok4 c4 L show ?thesis
          by (intro that [of backend]) (auto simp: sign_try_def and_then_def on_db_def loop_outcome_def)
      next
        case (LoopThrown e ids)
        with Pair Inr g gr loop res ok4 c4 L show ?thesis
          by (intro that [of backend]) (auto simp: sign_try_def and_then_def on_db_def loop_outcome_def)
      qed
    qed
  qed
qed

subsection \<open>Signing requests\<close>

lemma releaseReserves_db [simp]: "ts_db (releaseReserves ids s) = fold release ids (ts_db s)"
  by (simp add: releaseReserves_def)

lemma reserves_ok_release_all: "reserves_ok now db \<Longrightarrow> reserves_ok now (fold release is db)"
  by (induction "is" arbitrary: db) (auto simp: reserves_ok_release)

text \<open>The two ways a request ends.\<close>

lemma signTransactions_cases:
  assumes K: "sign_kit_ok K" and ok: "reserves_ok now (ts_db s)"
    and run: "signTransactions K E wires now s = (Inr res, s')"
  shows "charged now (ts_db s) (ts_db s') \<and> reserves_ok now (ts_db s') \<and>
    (case res of
       SignOk sigs _ \<Rightarrow> \<exists>ws backend. wires = Some ws \<and>
         list_all2 (signed_for K (trim (or_else (se_accumulator E) '''')) backend now (ts_db s')) ws sigs
     | SignRefused _ \<Rightarrow> pool.adds_only now {} (ts_db s) (ts_db s'))"
proof -
  from run obtain u s1 where t: "getToken s = (Inr u, s1)"
    by (auto simp: signTransactions_def result_simps)
  note db1 = getToken_frame [OF t]
  show ?thesis
  proof (cases "wires = None \<or> wires = Some []")
    case True
    with run t db1 ok show ?thesis
      by (auto simp: signTransactions_def and_then_def pool.adds_only_refl)
  next
    case False
    then obtain ws where ws: "wires = Some ws" "ws \<noteq> []" by auto
    obtain lres s2 where tr: "sign_try K E ws now s1 = (lres, s2)" by force
    have "reserves_ok now (ts_db s1)" using ok db1 by simp
    then obtain backend where b: "reserves_ok now (ts_db s2)" "charged now (ts_db s1) (ts_db s2)"
      "case lres of LoopThrown _ ids \<Rightarrow> ids = [] \<or> pool_ok now (ts_db s2) | _ \<Rightarrow> True"
      "loop_outcome K (trim (or_else (se_accumulator E) '''')) backend now [] ws (ts_db s1) (ts_db s2) lres"
      by (rule sign_try_steps [OF K _ tr])
    show ?thesis
    proof (cases lres)
      case (LoopThrown e ids)
      with run t ws tr obtain v s3 where g: "getStore now s2 = (Inr v, s3)"
        and r: "res = SignRefused (caught e)" "s' = releaseReserves ids s3"
        by (auto simp: signTransactions_def result_simps)
      note same = getStore_frame [OF g]
      have a3: "pool.adds_only now (set ids) (ts_db s) (ts_db s3)"
        using b(4) LoopThrown same db1 by (simp add: loop_outcome_def adds_only_same)
      have c3: "charged now (ts_db s) (ts_db s3)" using b(2) db1 charged_trans [OF _ charged_same [OF same]] by auto
      have o3: "reserves_ok now (ts_db s3)" using b(1) same_ledger_reserves_ok [OF same] by simp
      show ?thesis
      proof (cases "ids = []")
        case True
        with r a3 c3 o3 show ?thesis by simp
      next
        case False
        with b(3) LoopThrown same have p3: "pool_ok now (ts_db s3)" by (simp add: same_ledger_ok)
        from released [OF p3 a3] charged_trans [OF c3] charged_release_all [OF p3] o3 reserves_ok_release_all r
        show ?thesis by auto
      qed
    qed (use run t ws tr b db1 in \<open>auto simp: signTransactions_def and_then_def loop_outcome_def\<close>)
  qed
qed

lemma reachable_ok: "ledger_reachable t db \<Longrightarrow> t \<le> now \<Longrightarrow> reserves_ok now db"
  by (blast dest: ledger_ok_core intro: reserves_ok_mono)

text \<open>
  C16: Every signature is paid for.  When a signing request succeeds, each of its transactions was decoded,
  names a fee payer the service has the key of, and is signed with that key; unless it is a top-up, a
  reserve is open under its signature.  The balance and the booked events are unchanged, at most four
  reserves are open, and the open reserves are covered by the balance if they were before.
\<close>
theorem signatures_are_reserved_for:
  assumes "sign_kit_ok K" "ledger_reachable t (ts_db s)" "t \<le> now"
    and "signTransactions K E wires now s = (Inr (SignOk sigs audit), s')"
  shows "(\<exists>ws backend. wires = Some ws \<and> list_all2 (\<lambda>wire sig.
        \<exists>d. decodeWireTransaction K wire (trim (or_else (se_accumulator E) '''')) = Inr d \<and>
          canSign backend (ds_feePayer d) \<and>
          sign_with K backend (ds_feePayer d) (ds_messageBytes d) = Inr sig \<and>
          (ds_isFeePaying d \<or> held now (ts_db s') sig)) ws sigs) \<and>
    getFeeBalanceLamports (ts_db s') = getFeeBalanceLamports (ts_db s) \<and>
    td_events (ts_db s') = td_events (ts_db s) \<and>
    getOpenReserveCount now (ts_db s') \<le> 4 \<and>
    (getReservedLamports now (ts_db s) \<le> getFeeBalanceLamports (ts_db s) \<longrightarrow>
      getReservedLamports now (ts_db s') \<le> getFeeBalanceLamports (ts_db s'))"
  using signTransactions_cases [OF assms(1) reachable_ok [OF assms(2,3)] assms(4)]
  by (auto simp: signed_for_def [abs_def] charged_def reserves_ok_def MAX_CONCURRENT_FEE_RESERVES_def)

text \<open>
  C17: A refused request reserves nothing.  Whatever makes a signing request fail (a transaction that
  does not decode, a foreign fee payer or token, no balance, a configuration error), afterwards no
  reserve is open that was not open before, and balance and events are unchanged.
\<close>
theorem refused_request_reserves_nothing:
  assumes "sign_kit_ok K" "ledger_reachable t (ts_db s)" "t \<le> now"
    and "signTransactions K E wires now s = (Inr (SignRefused r), s')"
  shows "(\<forall>i. held now (ts_db s') i \<longrightarrow> held now (ts_db s) i) \<and>
    getFeeBalanceLamports (ts_db s') = getFeeBalanceLamports (ts_db s) \<and>
    td_events (ts_db s') = td_events (ts_db s)"
  using signTransactions_cases [OF assms(1) reachable_ok [OF assms(2,3)] assms(4)]
  by (auto simp: charged_def pool.adds_only_def)

definition sample_env_keys :: "string option \<Rightarrow> signer_env" where
  "sample_env_keys acc = \<lparr>se_secretKeys = Some ''keys'', se_accumulator = acc\<rparr>"

definition sample_signer :: token_signer where
  "sample_signer = (new_signer (Some ''token''))\<lparr>ts_db := sample_ledger\<rparr>"

lemma sample_request:
  "fst (signTransactions sample_sign_kit (sample_env_keys None) (Some [''wire'']) 30 sample_signer) =
     Inr (SignOk [bytesToBase64 (replicate 64 5) Std] (Some (''payer'', 1, 1)))"
  by code_simp

theorem signatures_are_reserved_for_witness:
  "held 30 (ts_db (snd (signTransactions sample_sign_kit (sample_env_keys None) (Some [''wire'']) 30 sample_signer)))
     (bytesToBase64 (replicate 64 5) Std)"
proof -
  let ?run = "signTransactions sample_sign_kit (sample_env_keys None) (Some [''wire'']) 30 sample_signer"
  have "?run = (Inr (SignOk [bytesToBase64 (replicate 64 5) Std] (Some (''payer'', 1, 1))), snd ?run)"
    using sample_request by (metis prod.collapse)
  moreover have "ledger_reachable 30 (ts_db sample_signer)"
    using sample_ledger_reachable by (simp add: sample_signer_def)
  ultimately show ?thesis
    using signatures_are_reserved_for [of sample_sign_kit 30 sample_signer 30 "sample_env_keys None" "Some [''wire'']"]
    by (fastforce simp: sample_sign_kit_ok zero_top_up_decoded sample_env_keys_def trim_def)
qed

lemma sample_refusal:
  "fst (signTransactions sample_sign_kit (sample_env_keys None) (Some [''wire'', ''bad'']) 30 sample_signer) =
     Inr (SignRefused (caught (Uncoded ''base64'')))"
  by code_simp

theorem refused_request_reserves_nothing_witness:
  "\<not> held 30 (ts_db (snd (signTransactions sample_sign_kit (sample_env_keys None) (Some [''wire'', ''bad'']) 30 sample_signer)))
     ''sigX''"
proof -
  let ?run = "signTransactions sample_sign_kit (sample_env_keys None) (Some [''wire'', ''bad'']) 30 sample_signer"
  have run: "?run = (Inr (SignRefused (caught (Uncoded ''base64''))), snd ?run)"
    using sample_refusal by (metis prod.collapse)
  have reach: "ledger_reachable 30 (ts_db sample_signer)"
    using sample_ledger_reachable by (simp add: sample_signer_def)
  have "\<not> held 30 (ts_db sample_signer) ''sigX''"
    using sample_ledger_eval(2) by (auto simp: held_iff map_eq_Cons_conv sample_signer_def)
  with refused_request_reserves_nothing [OF sample_sign_kit_ok reach order_refl run] show ?thesis by blast
qed

subsection \<open>Two ways around the reserve\<close>

lemma sign_loop_append:
  "sign_loop K acc backend now ids sigs seen (ws @ ws') s =
     (case sign_loop K acc backend now ids sigs seen ws s of
        (LoopDone ids1 sigs1 seen1, s1) \<Rightarrow> sign_loop K acc backend now ids1 sigs1 seen1 ws' s1
      | r \<Rightarrow> r)"
  by (induction K acc backend now ids sigs seen ws s rule: sign_loop.induct)
    (auto split: prod.splits step_result.splits loop_result.splits)

text \<open>Every charged signature of a batch is tracked for the roll-back.\<close>

lemma sign_loop_tracks:
  assumes "sign_loop K acc backend now ids sigs seen ws s = (LoopDone ids1 sigs1 seen1, s1)"
  shows "set ids \<subseteq> set ids1 \<and> (\<exists>new. sigs1 = sigs @ new \<and> list_all2 (\<lambda>wire sig.
    \<forall>d. decodeWireTransaction K wire acc = Inr d \<and> \<not> ds_isFeePaying d \<longrightarrow> sig \<in> set ids1) ws new)"
  using assms
proof (induction ws arbitrary: ids sigs seen s)
  case (Cons w ws)
  obtain step s2 where one: "sign_one K acc backend now ids w s = (step, s2)" by force
  with Cons.prems obtain ids2 sig p where st: "step = Signed ids2 sig p"
    by (cases step) auto
  with Cons.prems one have "sign_loop K acc backend now ids2 (sigs @ [sig]) (Some p) ws s2 = (LoopDone ids1 sigs1 seen1, s1)"
    by simp
  note IH = Cons.IH [OF this]
  have "set ids \<subseteq> set ids2 \<and> (\<forall>d. decodeWireTransaction K w acc = Inr d \<and> \<not> ds_isFeePaying d \<longrightarrow> sig \<in> set ids2)"
    using one st
    by (auto simp: sign_one_def Let_def split: sum.splits prod.splits bool.splits if_splits)
  with IH show ?case by force
qed simp

lemma sign_try_done:
  "sign_try K E ws now s = (LoopDone ids sigs seen, s') \<longleftrightarrow>
     (\<exists>backend s1 s2 s3. getBackend K E s = (Inr backend, s1) \<and>
        and_then (getStore now) (\<lambda>_. on_db (expireReserves now)) s1 = (Inr (), s2) \<and>
        sign_loop K (trim (or_else (se_accumulator E) '''')) backend now [] [] None ws s2 = (LoopDone ids sigs seen, s3) \<and>
        scheduleReserveAlarm now s3 = (Inr (), s'))"
  by (auto simp: sign_try_def split: prod.splits sum.splits loop_result.splits)

text \<open>
  A failing batch gives back reserves of signatures that are out.  If the service would sign a list
  of transactions, then the same list with one more transaction that does not decode is refused, and
  afterwards no reserve is open for any of the charged ones, although their signatures, which only
  depend on the message, were or still can be obtained by the first request; the balance is untouched.
\<close>
theorem failed_batch_frees_signed_reserves:
  assumes K: "sign_kit_ok K" and reach: "ledger_reachable t (ts_db s)" "t \<le> now"
    and signed: "signTransactions K E (Some ws) now s = (Inr (SignOk sigs audit), s1)"
    and bad: "decodeWireTransaction K bad (trim (or_else (se_accumulator E) '''')) = Inl e"
    and run: "signTransactions K E (Some (ws @ [bad])) now s = (res, s2)"
  shows "(\<exists>r. res = Inr (SignRefused r)) \<and> getFeeBalanceLamports (ts_db s2) = getFeeBalanceLamports (ts_db s) \<and>
    list_all2 (\<lambda>wire sig. \<forall>d. decodeWireTransaction K wire (trim (or_else (se_accumulator E) '''')) = Inr d \<and>
      \<not> ds_isFeePaying d \<longrightarrow> \<not> held now (ts_db s2) sig) ws sigs"
proof -
  let ?acc = "trim (or_else (se_accumulator E) '''')"
  from signed obtain u s0 ids seen where t: "getToken s = (Inr u, s0)" and ws: "ws \<noteq> []"
    and tr: "sign_try K E ws now s0 = (LoopDone ids sigs seen, s1)"
    by (auto simp: signTransactions_def and_then_def split: prod.splits sum.splits if_splits loop_result.splits)
  from tr obtain backend sb sc sd where d: "getBackend K E s0 = (Inr backend, sb)"
      "and_then (getStore now) (\<lambda>_. on_db (expireReserves now)) sb = (Inr (), sc)"
      "sign_loop K ?acc backend now [] [] None ws sc = (LoopDone ids sigs seen, sd)"
      "scheduleReserveAlarm now sd = (Inr (), s1)"
    by (auto simp: sign_try_done)
  have "sign_loop K ?acc backend now [] [] None (ws @ [bad]) sc = (LoopThrown e ids, sd)"
    using d(3) bad by (simp add: sign_loop_append sign_one_def)
  then have tr2: "sign_try K E (ws @ [bad]) now s0 = (LoopThrown e ids, sd)"
    using d(1,2) by (simp add: sign_try_def)
  from d(4) obtain s3 where g: "getStore now sd = (Inr (), s3)"
    by (auto simp: scheduleReserveAlarm_def and_then_def split: prod.splits sum.splits)
  have res: "res = Inr (SignRefused (caught e))" "s2 = releaseReserves ids s3"
    using run t ws tr2 g by (auto simp: signTransactions_def and_then_def)
  have "reserves_ok now (ts_db s)" by (rule reachable_ok [OF reach])
  then have "reserves_ok now (ts_db sb)"
    using getToken_frame [OF t] getBackend_frame [OF d(1)] by simp
  moreover from d(2) obtain sg where "getStore now sb = (Inr (), sg)" "ts_db sc = expireReserves now (ts_db sg)"
    by (auto simp: and_then_def on_db_def split: prod.splits sum.splits)
  ultimately have pc: "pool_ok now (ts_db sc)"
    using getStore_frame same_ledger_reserves_ok pool_ok_expire by metis
  have "pool.adds_only now (set []) (ts_db sc) (ts_db sc)" by (simp add: pool.adds_only_refl)
  from sign_loop_steps [OF K pc this d(3)] have "pool_ok now (ts_db s3)"
    using same_ledger_ok [OF getStore_frame [OF g]] by simp
  then have gone: "\<not> held now (ts_db s2) i" if "i \<in> set ids" for i
    using pool.holds_give_back_all [of now "ts_db s3" ids i] that res(2) by (simp add: pool.give_back_all_def)
  have bal: "getFeeBalanceLamports (ts_db s2) = getFeeBalanceLamports (ts_db s)"
    using signTransactions_cases [OF K reachable_ok [OF reach] run [unfolded res(1)]] by (simp add: charged_def)
  show ?thesis
    using res bal gone sign_loop_tracks [OF d(3)] by (auto elim!: list_all2_mono)
qed

theorem failed_batch_frees_signed_reserves_witness:
  "\<not> held 30 (ts_db (snd (signTransactions sample_sign_kit (sample_env_keys None) (Some ([''wire''] @ [''bad''])) 30 sample_signer)))
     (bytesToBase64 (replicate 64 5) Std)"
proof -
  let ?one = "signTransactions sample_sign_kit (sample_env_keys None) (Some [''wire'']) 30 sample_signer"
  let ?two = "signTransactions sample_sign_kit (sample_env_keys None) (Some ([''wire''] @ [''bad''])) 30 sample_signer"
  have one: "?one = (Inr (SignOk [bytesToBase64 (replicate 64 5) Std] (Some (''payer'', 1, 1))), snd ?one)"
    using sample_request by (metis prod.collapse)
  have two: "?two = (fst ?two, snd ?two)" by simp
  have reach: "ledger_reachable 30 (ts_db sample_signer)"
    using sample_ledger_reachable by (simp add: sample_signer_def)
  have bad: "decodeWireTransaction sample_sign_kit ''bad'' (trim (or_else (se_accumulator (sample_env_keys None)) '''')) =
      Inl (Uncoded ''base64'')"
    by (simp add: decodeWireTransaction_def sample_sign_kit_def kit_call_def)
  show ?thesis
    using failed_batch_frees_signed_reserves [OF sample_sign_kit_ok reach order_refl one bad two]
    by (simp add: zero_top_up_decoded sample_env_keys_def trim_def)
qed

text \<open>
  A debit never settles the reserve of its transaction.  The reserve of a signed transaction is kept
  under the base64 text of the signature, which for 64 bytes contains the padding character; the events
  booked for confirmed transactions carry the base58 text, which does not.  So booking any such debit
  leaves the reserve open: it is only closed when its time runs out.
\<close>
theorem debit_leaves_reserve_open:
  assumes "sign_kit_ok K" "sign_with K backend feePayer message = Inr sig" "held now db sig"
    and "CHR ''='' \<notin> set (fe_signature ev)"
  shows "held now (snd (settleDebit ev now db)) sig"
proof -
  have "CHR ''='' \<in> set sig" using sign_with_text [OF assms(1,2)] by simp
  moreover have "set (strip_debit (fe_signature ev)) \<subseteq> set (fe_signature ev)"
    by (auto simp: strip_debit_def dest: in_set_takeD)
  ultimately have "strip_debit (fe_signature ev) \<noteq> sig" using assms(4) by auto
  with assms(3) show ?thesis by (auto simp: held_iff settleDebit_reserves)
qed

theorem debit_leaves_reserve_open_witness:
  "held 30 (snd (settleDebit \<lparr>fe_signature = ''5VERYLONGbase58:debit'', fe_kind = Debit, fe_lamports = 5000\<rparr> 30
      (snd (take_reserve 30 (bytesToBase64 (replicate 64 5) Std) sample_ledger)))) (bytesToBase64 (replicate 64 5) Std)"
proof (rule debit_leaves_reserve_open [OF sample_sign_kit_ok])
  show "sign_with sample_sign_kit [(''payer'', [])] ''payer'' [] = Inr (bytesToBase64 (replicate 64 5) Std)"
    by (simp add: sign_with_def sample_sign_kit_def)
  show "held 30 (snd (take_reserve 30 (bytesToBase64 (replicate 64 5) Std) sample_ledger)) (bytesToBase64 (replicate 64 5) Std)"
    by code_simp
qed simp

subsection \<open>Events\<close>

definition booked :: "fee_event \<Rightarrow> token_db \<Rightarrow> bool" where
  "booked ev db \<longleftrightarrow> fe_lamports ev \<le> 0 \<or> fe_signature ev \<in> set (map fe_signature (td_events db))"

lemma applyFeeEvent_booked:
  "booked ev (snd (applyFeeEvent ev now db))"
  "booked e db \<Longrightarrow> booked e (snd (applyFeeEvent ev now db))"
  "booked ev db \<Longrightarrow> applyFeeEvent ev now db = (False, db)"
  by (auto simp: booked_def applyFeeEvent_def Let_def upsert_balance_def)

lemma booked_same: "td_events db' = td_events db \<Longrightarrow> booked e db' = booked e db"
  by (simp add: booked_def)

definition same_money_as :: "token_db \<Rightarrow> token_db \<Rightarrow> bool" where
  "same_money_as db db' \<longleftrightarrow>
     td_events db' = td_events db \<and> getFeeBalanceLamports db' = getFeeBalanceLamports db"

lemma settleDebit_money:
  obtains db2 where "same_money_as db db2" "settleDebit ev now db = applyFeeEvent ev now db2"
  by (rule that [of "if fe_kind ev \<noteq> Debit then db else (expireReserves now db)\<lparr>td_reserves :=
       filter (\<lambda>r. \<not> (fr_id r = strip_debit (fe_signature ev) \<and> fr_expires r > now)) (td_reserves (expireReserves now db))\<rparr>"])
    (auto simp: settleDebit_def same_money_as_def getFeeBalanceLamports_def Let_def)

lemma same_ledger_money: "same_ledger db db' \<Longrightarrow> same_money_as db db'"
  by (simp add: same_ledger_def same_money_as_def)

lemma apply_one_event_money:
  assumes "apply_one_event ev now s = (Inr applied, s')"
  obtains db where "same_money_as (ts_db s) db" "(applied, ts_db s') = applyFeeEvent ev now db"
proof -
  from assms obtain u s1 where g: "getStore now s = (Inr u, s1)"
    and h: "(case (if fe_kind ev = Debit then settleDebit ev now (ts_db s1) else applyFeeEvent ev now (ts_db s1)) of
       (a, db) \<Rightarrow> (Inr a :: thrown + bool, s1\<lparr>ts_db := db\<rparr>)) = (Inr applied, s')"
    unfolding apply_one_event_def and_then_Inr Let_def by blast
  obtain a db where p: "(if fe_kind ev = Debit then settleDebit ev now (ts_db s1) else applyFeeEvent ev now (ts_db s1)) = (a, db)"
    by force
  with h have r: "(applied, ts_db s') = (if fe_kind ev = Debit then settleDebit ev now (ts_db s1) else applyFeeEvent ev now (ts_db s1))"
    unfolding p by auto
  note m = same_ledger_money [OF getStore_frame [OF g]]
  obtain db2 where "same_money_as (ts_db s1) db2" "settleDebit ev now (ts_db s1) = applyFeeEvent ev now db2"
    by (rule settleDebit_money)
  with r m that show thesis by (cases "fe_kind ev = Debit") (auto simp: same_money_as_def)
qed

lemma applyFeeEvent_money:
  assumes "(applied, db') = applyFeeEvent ev now db"
  shows "booked ev db'" "booked e db \<Longrightarrow> booked e db'" "booked ev db \<Longrightarrow> \<not> applied \<and> db' = db"
proof -
  have db': "db' = snd (applyFeeEvent ev now db)" using assms by (cases "applyFeeEvent ev now db") simp
  show "booked ev db'" unfolding db' by (rule applyFeeEvent_booked)
  show "booked e db \<Longrightarrow> booked e db'" unfolding db' by (rule applyFeeEvent_booked)
  assume "booked ev db"
  then have "applyFeeEvent ev now db = (False, db)" by (rule applyFeeEvent_booked)
  with assms have "(applied, db') = (False, db)" by (rule trans)
  then show "\<not> applied \<and> db' = db" by simp
qed

lemma same_money_booked: "same_money_as db db' \<Longrightarrow> booked e db' = booked e db"
  by (rule booked_same) (simp add: same_money_as_def)

lemma apply_events_book:
  assumes "apply_events now sigs evs s = (Inr r, s')"
  shows "(\<forall>ev \<in> set evs. booked ev (ts_db s')) \<and> (\<forall>e. booked e (ts_db s) \<longrightarrow> booked e (ts_db s'))"
  using assms
proof (induction evs arbitrary: sigs s)
  case (Cons ev evs)
  from Cons.prems obtain applied s1 where one: "apply_one_event ev now s = (Inr applied, s1)"
    and rest: "apply_events now (if applied then sigs @ [fe_signature ev] else sigs) evs s1 = (Inr r, s')"
    by (auto simp: result_simps)
  obtain db where db: "same_money_as (ts_db s) db" "(applied, ts_db s1) = applyFeeEvent ev now db"
    by (rule apply_one_event_money [OF one])
  with Cons.IH [OF rest] applyFeeEvent_money [OF db(2)] show ?case by (auto simp: same_money_booked [OF db(1)])
qed (simp add: done_with_def)

lemma apply_events_again:
  assumes "apply_events now sigs evs s = (Inr r, s')" "\<forall>ev \<in> set evs. booked ev (ts_db s)"
  shows "r = sigs \<and> same_money_as (ts_db s) (ts_db s')"
  using assms
proof (induction evs arbitrary: sigs s)
  case (Cons ev evs)
  from Cons.prems obtain applied s1 where one: "apply_one_event ev now s = (Inr applied, s1)"
    and rest: "apply_events now (if applied then sigs @ [fe_signature ev] else sigs) evs s1 = (Inr r, s')"
    by (auto simp: result_simps)
  obtain db where db: "same_money_as (ts_db s) db" "(applied, ts_db s1) = applyFeeEvent ev now db"
    by (rule apply_one_event_money [OF one])
  have "booked ev db" using Cons.prems(2) by (simp add: same_money_booked [OF db(1)])
  with applyFeeEvent_money(3) [OF db(2)] db(1) have s1: "\<not> applied" "same_money_as (ts_db s) (ts_db s1)" by auto
  have "\<forall>e \<in> set evs. booked e (ts_db s1)" using Cons.prems(2) by (simp add: same_money_booked [OF s1(2)])
  with Cons.IH [OF rest] s1 show ?case by (simp add: same_money_as_def)
qed (simp add: done_with_def same_money_as_def)

lemma applyFeeEvents_Inr:
  assumes "applyFeeEvents evs now s = (Inr r, s')"
  obtains sigs s1 s2 where "ts_db s1 = ts_db s" "apply_events now [] evs s1 = (Inr sigs, s2)"
    "same_ledger (ts_db s2) (ts_db s')" "r = (length sigs, sigs)"
proof -
  from assms obtain u s1 sigs s2 v s3 where h: "getToken s = (Inr u, s1)" "apply_events now [] evs s1 = (Inr sigs, s2)"
      "scheduleReserveAlarm now s2 = (Inr v, s3)" "done_with (length sigs, sigs) s3 = (Inr r, s')"
    unfolding applyFeeEvents_def and_then_Inr by blast
  from h(4) have "s3 = s'" "r = (length sigs, sigs)" by (auto simp: done_with_def)
  with scheduleReserveAlarm_frame [OF h(3)] show thesis
    by (intro that [OF getToken_frame [OF h(1)] h(2)]) simp_all
qed

text \<open>
  Redelivered events change nothing.  When the same list of fee events arrives a second time, at any
  later time and in any state the first delivery led to, no event is reported as applied again, and the
  balance and the booked events stay as they are.
\<close>
theorem redelivery_is_harmless:
  assumes "applyFeeEvents evs now s = (Inr r, s1)" "applyFeeEvents evs now' s1 = (Inr r', s2)"
  shows "r' = (0, []) \<and> getFeeBalanceLamports (ts_db s2) = getFeeBalanceLamports (ts_db s1) \<and>
    td_events (ts_db s2) = td_events (ts_db s1)"
proof -
  obtain sigs sa sb where a: "ts_db sa = ts_db s" "apply_events now [] evs sa = (Inr sigs, sb)"
      "same_ledger (ts_db sb) (ts_db s1)" "r = (length sigs, sigs)"
    by (rule applyFeeEvents_Inr [OF assms(1)])
  obtain sigs' sc sd where b: "ts_db sc = ts_db s1" "apply_events now' [] evs sc = (Inr sigs', sd)"
      "same_ledger (ts_db sd) (ts_db s2)" "r' = (length sigs', sigs')"
    by (rule applyFeeEvents_Inr [OF assms(2)])
  have "\<forall>ev \<in> set evs. booked ev (ts_db sc)"
    using apply_events_book [OF a(2)] same_money_booked [OF same_ledger_money [OF a(3)]] b(1) by simp
  from apply_events_again [OF b(2) this] b show ?thesis
    by (simp add: same_money_as_def same_ledger_def)
qed

lemma sample_events:
  "fst (applyFeeEvents [sample_debit, sample_credit] 40 sample_signer) = Inr (1, [''sigB:debit''])"
  by code_simp

lemma sample_events_again:
  "fst (applyFeeEvents [sample_debit, sample_credit] 50 (snd (applyFeeEvents [sample_debit, sample_credit] 40 sample_signer))) =
     Inr (0, [])"
  by code_simp

theorem redelivery_is_harmless_witness:
  "getFeeBalanceLamports (ts_db (snd (applyFeeEvents [sample_debit, sample_credit] 50
      (snd (applyFeeEvents [sample_debit, sample_credit] 40 sample_signer))))) =
   getFeeBalanceLamports (ts_db (snd (applyFeeEvents [sample_debit, sample_credit] 40 sample_signer)))"
proof -
  let ?one = "applyFeeEvents [sample_debit, sample_credit] 40 sample_signer"
  let ?two = "applyFeeEvents [sample_debit, sample_credit] 50 (snd ?one)"
  have "?one = (Inr (1, [''sigB:debit'']), snd ?one)" using sample_events by (metis prod.collapse)
  moreover have "?two = (Inr (0, []), snd ?two)" using sample_events_again by (metis prod.collapse)
  ultimately show ?thesis using redelivery_is_harmless by blast
qed

subsection \<open>The handlers only use the operations of the ledger\<close>

text \<open>
  What any sequence of requests, alarms and events, the clock never going back, makes of an object in
  the state \<open>s0\<close> at the time \<open>t0\<close>; and the states of an object, from its creation.
\<close>

inductive signer_run :: "sign_kit \<Rightarrow> signer_env \<Rightarrow> int \<Rightarrow> token_signer \<Rightarrow> int \<Rightarrow> token_signer \<Rightarrow> bool" for K E t0 s0 where
  run_start: "signer_run K E t0 s0 t0 s0"
| run_alarm: "signer_run K E t0 s0 t s \<Longrightarrow> t \<le> now \<Longrightarrow> signer_run K E t0 s0 now (snd (alarm now s))"
| run_balance: "signer_run K E t0 s0 t s \<Longrightarrow> t \<le> now \<Longrightarrow> signer_run K E t0 s0 now (snd (getFeeBalance now s))"
| run_events: "signer_run K E t0 s0 t s \<Longrightarrow> t \<le> now \<Longrightarrow> signer_run K E t0 s0 now (snd (applyFeeEvents evs now s))"
| run_sign: "signer_run K E t0 s0 t s \<Longrightarrow> t \<le> now \<Longrightarrow> signer_run K E t0 s0 now (snd (signTransactions K E wires now s))"

inductive signer_reachable :: "sign_kit \<Rightarrow> signer_env \<Rightarrow> int \<Rightarrow> token_signer \<Rightarrow> bool" for K E where
  fresh: "signer_reachable K E now (new_signer name)"
| on_alarm: "signer_reachable K E t s \<Longrightarrow> t \<le> now \<Longrightarrow> signer_reachable K E now (snd (alarm now s))"
| on_balance: "signer_reachable K E t s \<Longrightarrow> t \<le> now \<Longrightarrow> signer_reachable K E now (snd (getFeeBalance now s))"
| on_events: "signer_reachable K E t s \<Longrightarrow> t \<le> now \<Longrightarrow> signer_reachable K E now (snd (applyFeeEvents evs now s))"
| on_sign: "signer_reachable K E t s \<Longrightarrow> t \<le> now \<Longrightarrow> signer_reachable K E now (snd (signTransactions K E wires now s))"

definition keeps_ledger :: "token_db \<Rightarrow> int \<Rightarrow> (token_signer \<Rightarrow> 'r \<times> token_signer) \<Rightarrow> bool" where
  "keeps_ledger d now m \<longleftrightarrow>
     (\<forall>s. ledger_from d now (ts_db s) \<longrightarrow> ledger_from d now (ts_db (snd (m s))))"

named_theorems keeps \<open>handlers whose database changes are ledger operations\<close>

lemma keepsI: "(\<And>s. ledger_from d now (ts_db s) \<Longrightarrow> ledger_from d now (ts_db (snd (m s)))) \<Longrightarrow> keeps_ledger d now m"
  by (simp add: keeps_ledger_def)

lemma keepsD: "keeps_ledger d now m \<Longrightarrow> ledger_from d now (ts_db s) \<Longrightarrow> m s = (r, s') \<Longrightarrow> ledger_from d now (ts_db s')"
  by (metis keeps_ledger_def snd_conv)

lemma keeps_and_then [keeps]:
  assumes "keeps_ledger d now m" "\<And>x. keeps_ledger d now (f x)"
  shows "keeps_ledger d now (and_then m f)"
proof (rule keepsI)
  fix s :: token_signer assume r: "ledger_from d now (ts_db s)"
  obtain x s1 where m: "m s = (x, s1)" by force
  note r1 = keepsD [OF assms(1) r m]
  show "ledger_from d now (ts_db (snd (and_then m f s)))"
  proof (cases x)
    case (Inr y)
    with m assms(2) [of y] r1 show ?thesis by (simp add: and_then_def keeps_ledger_def)
  qed (simp add: and_then_def m r1)
qed

lemma reach_op: "ledger_from d now db \<Longrightarrow> ledger_from d now (ledger_apply op now db)"
  by (rule ledger_from.next_operation [OF _ order_refl])

lemma keeps_getToken [keeps]: "keeps_ledger d now getToken"
proof (rule keepsI)
  fix s :: token_signer assume r: "ledger_from d now (ts_db s)"
  obtain x s1 where "getToken s = (x, s1)" by force
  with getToken_frame [OF this] r show "ledger_from d now (ts_db (snd (getToken s)))" by simp
qed

lemma keeps_ensure [keeps]: "keeps_ledger d now (ensure_in_store t now)"
  by (rule keepsI) (use reach_op [of _ now _ "EnsureToken t"] in \<open>simp add: ensure_in_store_def Let_def case_prod_beta\<close>)

lemma keeps_getStore [keeps]: "keeps_ledger d now (getStore now)"
proof (rule keepsI)
  fix s :: token_signer assume r: "ledger_from d now (ts_db s)"
  have "keeps_ledger d now (\<lambda>s1. ensure_in_store t now (s1\<lparr>ts_storeMade := True\<rparr>))" for t
    using keeps_ensure [of d now t] by (simp add: keeps_ledger_def)
  then have "keeps_ledger d now (and_then getToken (\<lambda>t s1. ensure_in_store t now (s1\<lparr>ts_storeMade := True\<rparr>)))"
    by (intro keeps)
  with r show "ledger_from d now (ts_db (snd (getStore now s)))" by (simp add: getStore_def keeps_ledger_def)
qed

lemma keeps_bindToken: "keeps_ledger d now (bindToken t now)"
proof (rule keepsI)
  fix s :: token_signer assume r: "ledger_from d now (ts_db s)"
  have "keeps_ledger d now (and_then (getStore now) (\<lambda>_. ensure_in_store (trim t) now))" by (intro keeps)
  then have "ledger_from d now (ts_db (snd (and_then (getStore now) (\<lambda>_. ensure_in_store (trim t) now) (s\<lparr>ts_token := Some (trim t)\<rparr>))))"
    using r by (simp add: keeps_ledger_def)
  with r show "ledger_from d now (ts_db (snd (bindToken t now s)))" by (simp add: bindToken_def Let_def)
qed

lemma keeps_schedule [keeps]: "keeps_ledger d now (scheduleReserveAlarm now)"
  unfolding scheduleReserveAlarm_def
  by (intro keeps keepsI) (simp split: option.splits)

lemma keeps_on_db: "(\<And>db. ledger_from d now db \<Longrightarrow> ledger_from d now (f db)) \<Longrightarrow> keeps_ledger d now (on_db f)"
  by (rule keepsI) (simp add: on_db_def)

lemma keeps_expire [keeps]: "keeps_ledger d now (on_db (expireReserves now))"
  by (rule keeps_on_db) (use reach_op [of _ now _ Expire] in simp)

lemma keeps_grant [keeps]: "keeps_ledger d now (on_db (\<lambda>db. snd (grantStarterIfNeeded now db)))"
  by (rule keeps_on_db) (use reach_op [of _ now _ GrantStarter] in simp)

lemma keeps_event [keeps]: "keeps_ledger d now (apply_one_event ev now)"
  unfolding apply_one_event_def
  by (intro keeps keepsI)
    (use reach_op [of _ now _ "SettleDebit ev"] reach_op [of _ now _ "ApplyFeeEvent ev"] in \<open>auto simp: Let_def case_prod_beta\<close>)

lemma keeps_done [keeps]: "keeps_ledger d now (done_with x)"
  by (rule keepsI) (simp add: done_with_def)

lemma keeps_events [keeps]: "keeps_ledger d now (apply_events now sigs evs)"
  by (induction evs arbitrary: sigs) (auto intro!: keeps)

lemma reach_release_all: "ledger_from d now db \<Longrightarrow> ledger_from d now (fold release is db)"
  by (induction "is" arbitrary: db) (use reach_op [of _ now _ "Release _"] in auto)

lemma keeps_sign_one: "keeps_ledger d now (sign_one K acc backend now ids wire)"
proof (rule keepsI)
  fix s :: token_signer assume r: "ledger_from d now (ts_db s)"
  show "ledger_from d now (ts_db (snd (sign_one K acc backend now ids wire s)))"
  proof (cases "decodeWireTransaction K wire acc")
    case (Inl e)
    with r show ?thesis by (simp add: sign_one_def)
  next
    case (Inr w)
    obtain b s1 where b: "bindToken (ds_phygitalToken w) now s = (b, s1)" by force
    note r1 = keepsD [OF keeps_bindToken r b]
    let ?id = "messageReserveId K (ds_messageBytes w)"
    have r2: "ledger_from d now db" if "reserve ?id MIN_ATTEMPT_FEE_LAMPORTS FEE_RESERVE_TTL_MS now (ts_db s1) = (g, db)" for g db
      using that reach_op [OF r1, of "Reserve ?id MIN_ATTEMPT_FEE_LAMPORTS FEE_RESERVE_TTL_MS"] by simp
    have r3: "ledger_from d now (snd (rebindReserve i j now db))" if "ledger_from d now db" for i j db
      using that reach_op [of _ now db "Rebind i j"] by simp
    show ?thesis
      using Inr b r1 by (cases b)
        (auto simp: sign_one_def Let_def reach_release_all r2 intro!: r3 split: sum.splits prod.splits bool.splits)
  qed
qed

lemma keeps_sign_loop: "keeps_ledger d now (sign_loop K acc backend now ids sigs seen ws)"
proof (induction ws arbitrary: ids sigs seen)
  case Nil
  show ?case by (rule keepsI) simp
next
  case (Cons w ws)
  show ?case
  proof (rule keepsI)
    fix s :: token_signer assume r: "ledger_from d now (ts_db s)"
    obtain step s1 where one: "sign_one K acc backend now ids w s = (step, s1)" by force
    note r1 = keepsD [OF keeps_sign_one r one]
    show "ledger_from d now (ts_db (snd (sign_loop K acc backend now ids sigs seen (w # ws) s)))"
      using Cons.IH r1 one by (cases step) (auto simp: keeps_ledger_def)
  qed
qed

lemma keeps_sign_try: "keeps_ledger d now (sign_try K E ws now)"
proof (rule keepsI)
  fix s :: token_signer assume r: "ledger_from d now (ts_db s)"
  obtain b s1 where b: "getBackend K E s = (b, s1)" by force
  have r1: "ledger_from d now (ts_db s1)" using r getBackend_frame [OF b] by simp
  obtain u s2 where u: "and_then (getStore now) (\<lambda>_. on_db (expireReserves now)) s1 = (u, s2)" by force
  have k: "keeps_ledger d now (and_then (getStore now) (\<lambda>_. on_db (expireReserves now)))" by (intro keeps)
  have r2: "ledger_from d now (ts_db s2)" by (rule keepsD [OF k r1 u])
  have r3: "ledger_from d now (ts_db s3)"
    if "sign_loop K acc backend now [] [] None ws s2 = (x, s3)" for acc backend x s3
    by (rule keepsD [OF keeps_sign_loop r2 that])
  have r4: "ledger_from d now (ts_db s4)" if "scheduleReserveAlarm now s3 = (x, s4)" "ledger_from d now (ts_db s3)" for s3 x s4
    by (rule keepsD [OF keeps_schedule that(2,1)])
  show "ledger_from d now (ts_db (snd (sign_try K E ws now s)))"
    using b u r1 r2
    by (cases b; cases u) (auto simp: sign_try_def dest: r3 intro: r4 [OF _ r3] split: prod.splits sum.splits loop_result.splits)
qed

lemma keeps_signTransactions: "keeps_ledger d now (signTransactions K E wires now)"
  unfolding signTransactions_def
proof (intro keeps keepsI)
  fix s :: token_signer assume r: "ledger_from d now (ts_db s)"
  let ?rest = "\<lambda>ws. case sign_try K E ws now s of
             (LoopDone reservedIds sigs seen, s1) \<Rightarrow>
               (Inr (SignOk sigs (map_option (\<lambda>p. (p, length sigs, length reservedIds))
                  (if seen = Some '''' then None else seen))), s1)
           | (LoopRefused r, s1) \<Rightarrow> (Inr (SignRefused r), s1)
           | (LoopThrown e reservedIds, s1) \<Rightarrow>
               and_then (getStore now) (\<lambda>_ s2. (Inr (SignRefused (caught e)), releaseReserves reservedIds s2)) s1"
  have "keeps_ledger d now (and_then (getStore now) (\<lambda>_ s2. (Inr (SignRefused (caught e)), releaseReserves ids s2)))" for e ids
    by (intro keeps keepsI) (simp add: reach_release_all)
  then have "ledger_from d now (ts_db (snd (?rest ws)))" for ws
    using keepsD [OF keeps_sign_try r, of K E ws]
    by (auto simp: keeps_ledger_def split: prod.splits loop_result.splits)
  then show "ledger_from d now (ts_db (snd (case wires of None \<Rightarrow> (Inr (SignRefused transactions_required), s)
       | Some ws \<Rightarrow> if ws = [] then (Inr (SignRefused transactions_required), s) else ?rest ws)))"
    using r by (simp split: option.splits)
qed

text \<open>Every handler, and so every run, is a sequence of ledger operations.\<close>

lemma keeps_alarm: "keeps_ledger d now (alarm now)"
  unfolding alarm_def by (intro keeps)

lemma keeps_balance: "keeps_ledger d now (getFeeBalance now)"
  unfolding getFeeBalance_def by (intro keeps keepsI) (simp add: Let_def)

lemma keeps_apply_events: "keeps_ledger d now (applyFeeEvents evs now)"
  unfolding applyFeeEvents_def by (intro keeps)

lemmas keeps_handlers = keeps_alarm keeps_balance keeps_apply_events keeps_signTransactions

lemma keeps_step: "keeps_ledger d now m \<Longrightarrow> ledger_from d t (ts_db s) \<Longrightarrow> t \<le> now \<Longrightarrow> ledger_from d now (ts_db (snd (m s)))"
  using ledger_from.later [of d t "ts_db s" now] by (simp add: keeps_ledger_def)

lemma signer_run_ledger: "signer_run K E t0 s0 now s \<Longrightarrow> ledger_from (ts_db s0) now (ts_db s)"
  by (induction rule: signer_run.induct) (auto intro: ledger_from.as_it_was keeps_step keeps_handlers)

lemma signer_reaches_ledger: "signer_reachable K E now s \<Longrightarrow> ledger_reachable now (ts_db s)"
proof -
  assume "signer_reachable K E now s"
  then have "ledger_from initTokenSchema now (ts_db s)"
    by (induction rule: signer_reachable.induct)
      (auto simp: new_signer_def intro: ledger_from.as_it_was keeps_step keeps_handlers)
  then show ?thesis by (rule ledger_from_new)
qed

lemma signer_run_reachable: "signer_run K E t0 s0 now s \<Longrightarrow> signer_reachable K E t0 s0 \<Longrightarrow> signer_reachable K E now s"
  by (induction rule: signer_run.induct) (auto intro: signer_reachable.intros)

text \<open>
  C18: No money from nothing, and none lost.  Take the object of a token in any state \<open>s\<close> that balance
  reads, fee events, signing requests and alarms lead to, and any further such sequence that ends in
  \<open>s'\<close>, at any times in order.  Then the booked events of \<open>s\<close> are a prefix of those of \<open>s'\<close>, and the
  balance of \<open>s'\<close> is exactly the balance of \<open>s\<close> with the new events booked in order: a credit adds its
  amount, a debit takes its amount or what is left.  The starter credit enters this account at one
  single point, and only when it had not been given before, even if the balance has run dry since.  In
  particular the balance is not negative and within the totals of the credits and debits; no
  transaction signature was booked twice; and at most four reserves are open, no two with the same id.
\<close>
theorem ledger_never_invents_money:
  assumes "signer_reachable K E t s" and "signer_run K E t s now s'"
  shows "ledger_grew (ts_db s) (ts_db s') \<and>
    0 \<le> getFeeBalanceLamports (ts_db s') \<and>
    getFeeBalanceLamports (ts_db s') \<le> starter_credit (ts_db s') + total Credit (ts_db s') \<and>
    total Credit (ts_db s') - total Debit (ts_db s') \<le> getFeeBalanceLamports (ts_db s') \<and>
    distinct (map fe_signature (td_events (ts_db s'))) \<and>
    getOpenReserveCount now (ts_db s') \<le> 4 \<and> distinct (map fr_id (td_reserves (ts_db s')))"
  using ledger_bounds [OF signer_reaches_ledger [OF signer_run_reachable [OF assms(2,1)]]]
    ledger_from_grew [OF signer_run_ledger [OF assms(2)]] by blast

text \<open>After the starter credit was given, a history of a signature, a credit and a debit.\<close>

definition sample_start :: token_signer where
  "sample_start = snd (getFeeBalance 20 (new_signer (Some ''token'')))"

definition sample_history :: token_signer where
  "sample_history =
     snd (getFeeBalance 50 (snd (applyFeeEvents [sample_credit, sample_debit] 40
       (snd (signTransactions sample_sign_kit (sample_env_keys None) (Some [''wire'']) 30 sample_start)))))"

lemma sample_start_reachable: "signer_reachable sample_sign_kit (sample_env_keys None) 20 sample_start"
  unfolding sample_start_def by (rule signer_reachable.on_balance [where t = 10], rule signer_reachable.fresh) simp

lemma sample_history_run: "signer_run sample_sign_kit (sample_env_keys None) 20 sample_start 50 sample_history"
  unfolding sample_history_def
  by (rule signer_run.run_balance [where t = 40], rule signer_run.run_events [where t = 30],
      rule signer_run.run_sign [where t = 20], rule signer_run.run_start) simp_all

lemma sample_history_eval:
  "getFeeBalanceLamports (ts_db sample_history) = 800000" "getOpenReserveCount 50 (ts_db sample_history) = 1"
  "starter_given (ts_db sample_start)" "getFeeBalanceLamports (ts_db sample_start) = 1000000"
  by code_simp+

theorem ledger_never_invents_money_witness:
  "\<exists>booked_since. td_events (ts_db sample_history) = td_events (ts_db sample_start) @ booked_since \<and>
     replayed 1000000 booked_since = 800000 \<and> getOpenReserveCount 50 (ts_db sample_history) = 1"
  using ledger_never_invents_money [OF sample_start_reachable sample_history_run]
  by (auto simp: ledger_grew_def accounted_def sample_history_eval)

end
