(* ===== verification/FeeEvents.thy ===== *)
theory FeeEvents
  imports SubscribeResult TokenSigner AuditLog AccessoryRoutes
begin

text \<open>
  Fees booked from confirmed transactions (\<^verbatim>\<open>workers/api/src/fees/subscribe-fee-tx.ts\<close>), the default fee
  payers (\<^verbatim>\<open>fees/default-feePayer.ts\<close>) and the stub of the token signer
  (\<^verbatim>\<open>transactions/token-signer.ts\<close>), over the model of the token signers themselves.  The memo of the parsed
  fee payers and the debug line of the stub are left out.  A call of a signer may get lost on either way.
\<close>

record fee_kit =
  fk_kit :: kit
  fk_base58 :: "string \<Rightarrow> bytes option"
  fk_base64 :: "string \<Rightarrow> bytes option"
  fk_isAddress :: "string \<Rightarrow> bool"
  fk_jsonParse :: "string \<Rightarrow> js option"

record fee_env =
  fv_accumulator :: "string option"
  fv_feePayers :: "string option"

subsection \<open>Default fee payers\<close>

fun payer_entries :: "js list \<Rightarrow> thrown + string list" where
  "payer_entries [] = Inr []"
| "payer_entries (JString s # rest) =
     (if trim s = '''' then throw_coded ''DEFAULT_FEE_PAYER_PUBKEYS entries must be non-empty strings'' ''fee_misconfigured''
      else obind (payer_entries rest) (\<lambda>ks. Inr (trim s # ks)))"
| "payer_entries (_ # rest) =
     throw_coded ''DEFAULT_FEE_PAYER_PUBKEYS entries must be non-empty strings'' ''fee_misconfigured''"

definition parseFeePayerPubkeys :: "(string \<Rightarrow> js option) \<Rightarrow> string option \<Rightarrow> thrown + string list" where
  "parseFeePayerPubkeys parse raw =
     (if trim (or_else raw '''') = '''' then throw_coded ''DEFAULT_FEE_PAYER_PUBKEYS is not configured'' ''fee_misconfigured''
      else case parse (or_else raw '''') of
        None \<Rightarrow> throw_coded ''DEFAULT_FEE_PAYER_PUBKEYS must be valid JSON'' ''fee_misconfigured''
      | Some (JArray items) \<Rightarrow>
          obind (payer_entries items) (\<lambda>ks.
            if ks = [] then throw_coded ''DEFAULT_FEE_PAYER_PUBKEYS must include at least one pubkey'' ''fee_misconfigured''
            else Inr ks)
      | Some _ \<Rightarrow> throw_coded ''DEFAULT_FEE_PAYER_PUBKEYS must be a JSON array of base58 pubkeys'' ''fee_misconfigured'')"

definition isDefaultFeePayer :: "fee_kit \<Rightarrow> fee_env \<Rightarrow> string \<Rightarrow> thrown + bool" where
  "isDefaultFeePayer K E feePayer =
     obind (parseFeePayerPubkeys (fk_jsonParse K) (fv_feePayers E)) (\<lambda>ks. Inr (feePayer \<in> set ks))"

subsection \<open>Keys and instructions of a transaction\<close>

definition nonempty :: "string list \<Rightarrow> string list" where
  "nonempty = filter (\<lambda>k. k \<noteq> '''')"

definition resolveAccountKeys :: "confirmed_tx \<Rightarrow> string list" where
  "resolveAccountKeys c =
     nonempty (List.map_filter (\<lambda>k. accountPubkey (Some k)) (or_else (ct_accountKeys c) [])) @
     nonempty (or_else (meta_of tm_writable c) []) @ nonempty (or_else (meta_of tm_readonly c) [])"

fun index_of :: "'a list \<Rightarrow> 'a \<Rightarrow> nat option" where
  "index_of [] a = None"
| "index_of (x # xs) a = (if x = a then Some 0 else map_option Suc (index_of xs a))"

definition nativeChange :: "string list \<Rightarrow> confirmed_tx \<Rightarrow> string \<Rightarrow> int" where
  "nativeChange keys c account =
     (case index_of keys account of
        None \<Rightarrow> 0
      | Some i \<Rightarrow>
          (case (opt_at (meta_of tm_pre c) (int i), opt_at (meta_of tm_post c) (int i)) of
             (Some pre, Some post) \<Rightarrow> post - pre
           | _ \<Rightarrow> 0))"

definition decodeIxData :: "fee_kit \<Rightarrow> string option \<Rightarrow> bytes option" where
  "decodeIxData K raw =
     (let trimmed = trim (or_else raw '''') in
      if trimmed = '''' then None
      else case fk_base58 K trimmed of Some b \<Rightarrow> Some b | None \<Rightarrow> fk_base64 K trimmed)"

definition compiledToKitIx :: "fee_kit \<Rightarrow> compiled_ix \<Rightarrow> string list \<Rightarrow> kit_instruction option" where
  "compiledToKitIx K ix keys =
     (case cx_program ix of
        None \<Rightarrow> None
      | Some i \<Rightarrow>
     (case opt_at (Some keys) i of
        None \<Rightarrow> None
      | Some programId \<Rightarrow>
          if programId = '''' then None
          else map_option (\<lambda>d.
            \<lparr>ix_program = programId,
             ix_accounts = Some (map (\<lambda>a. \<lparr>am_address = a, am_role = READONLY\<rparr>)
               (nonempty (List.map_filter (opt_at (Some keys)) (or_else (cx_accounts ix) [])))),
             ix_data = Some d\<rparr>) (decodeIxData K (cx_data ix))))"

definition allCompiledIxs :: "confirmed_tx \<Rightarrow> compiled_ix list" where
  "allCompiledIxs c =
     or_else (ct_instructions c) [] @ concat (map (\<lambda>g. or_else g []) (or_else (meta_of tm_inner c) []))"

text \<open>The body of the loop of \<open>findExecuteAccounts\<close>: what it returns, if it does not go on.\<close>

definition execute_token :: "fee_kit \<Rightarrow> string list \<Rightarrow> compiled_ix \<Rightarrow> string option" where
  "execute_token K keys ix =
     (case compiledToKitIx K ix keys of
        None \<Rightarrow> None
      | Some kitIx \<Rightarrow>
          if ix_program kitIx \<noteq> PHYGITAL_WALLET_PROGRAM_ADDRESS then None
          else
            (case Option.bind (ix_data kitIx) (identifyPhygitalWalletInstruction (fk_kit K)) of
               Some Execute \<Rightarrow>
                 Option.bind (parseExecuteInstruction (fk_kit K) kitIx) (\<lambda>p.
                   let t = account_of p ''phygitalToken'' in
                   if tryParseAddress (fk_isAddress K) t = None then None else Some t)
             | Some ExecuteWithAuthority \<Rightarrow>
                 Option.bind (parseExecuteWithAuthorityInstruction (fk_kit K) kitIx) (\<lambda>p.
                   let t = account_of p ''phygitalToken'' in
                   if tryParseAddress (fk_isAddress K) t = None then None else Some t)
             | _ \<Rightarrow> None))"

fun first_some :: "('a \<Rightarrow> 'b option) \<Rightarrow> 'a list \<Rightarrow> 'b option" where
  "first_some f [] = None"
| "first_some f (x # xs) = (case f x of Some y \<Rightarrow> Some y | None \<Rightarrow> first_some f xs)"

definition findExecuteAccounts :: "fee_kit \<Rightarrow> confirmed_tx \<Rightarrow> string list \<Rightarrow> string option" where
  "findExecuteAccounts K c keys = first_some (execute_token K keys) (allCompiledIxs c)"

subsection \<open>The events of a transaction\<close>

definition credit_events :: "string \<Rightarrow> string list \<Rightarrow> confirmed_tx \<Rightarrow> string \<Rightarrow> string option \<Rightarrow> (string \<times> fee_event) list" where
  "credit_events accumulator keys c signature execute =
     (if accumulator = '''' then []
      else
        let change = nativeChange keys c accumulator in
        case execute of
          Some token \<Rightarrow>
            if 0 < change \<and> token \<noteq> ''''
            then [(token, \<lparr>fe_signature = signature @ '':credit'', fe_kind = Credit, fe_lamports = change\<rparr>)]
            else []
        | None \<Rightarrow> [])"

definition debit_events ::
  "fee_kit \<Rightarrow> fee_env \<Rightarrow> string list \<Rightarrow> confirmed_tx \<Rightarrow> string \<Rightarrow> string option \<Rightarrow> thrown + (string \<times> fee_event) list" where
  "debit_events K E keys c signature execute =
     (case execute of
        None \<Rightarrow> Inr []
      | Some token \<Rightarrow>
          obind (isDefaultFeePayer K E (hd keys)) (\<lambda>isDefault.
            let change = nativeChange keys c (hd keys) in
            Inr (if isDefault \<and> change < 0
              then [(token, \<lparr>fe_signature = signature @ '':debit'', fe_kind = Debit, fe_lamports = - change\<rparr>)]
              else [])))"

definition fee_events_of :: "fee_kit \<Rightarrow> fee_env \<Rightarrow> subscribe_result \<Rightarrow> thrown + (string \<times> fee_event) list" where
  "fee_events_of K E result =
     (case sr_transaction result of
        None \<Rightarrow> Inr []
      | Some c \<Rightarrow>
          if tx_failed c then Inr []
          else
            let signature = result_signature result c;
                keys = resolveAccountKeys c in
            if signature = '''' then Inr []
            else if keys = [] then Inr []
            else
              let accumulator = trim (or_else (fv_accumulator E) '''');
                  execute = findExecuteAccounts K c keys in
              obind (debit_events K E keys c signature execute) (\<lambda>debits.
                Inr (credit_events accumulator keys c signature execute @ debits)))"

text \<open>The map from tokens to their events, in the order of insertion.\<close>

definition by_token :: "(string \<times> fee_event) list \<Rightarrow> (string \<times> fee_event list) list" where
  "by_token events =
     foldl (\<lambda>m (token, event). set_key token (or_else (map_of m token) [] @ [event]) m) [] events"

subsection \<open>Calling the signer of a token\<close>

datatype signer_link = Delivered | LostBefore | LostAfter

type_synonym signers = "string \<Rightarrow> token_signer"

definition network_error :: thrown where "network_error = Uncoded ''Network connection lost.''"

definition new_signers :: signers where
  "new_signers t = new_signer (Some t)"

definition call_signer :: "signer_link \<Rightarrow> string \<Rightarrow> 'a handler \<Rightarrow> signers \<Rightarrow> (thrown + 'a) \<times> signers" where
  "call_signer link phygitalToken m S =
     (let token = trim phygitalToken in
      if token = '''' then (Inl (Uncoded ''phygitalToken required''), S)
      else case link of
        LostBefore \<Rightarrow> (Inl network_error, S)
      | LostAfter \<Rightarrow> (Inl network_error, S(token := snd (m (S token))))
      | Delivered \<Rightarrow> (fst (m (S token)), S(token := snd (m (S token)))))"

definition fee_audit :: "string \<Rightarrow> string \<Rightarrow> fee_event \<Rightarrow> audit_entry" where
  "fee_audit token signature ev =
     (blank_entry (if fe_kind ev = Credit then FeeCredit else FeeDebit))
       \<lparr>ae_phygitalToken := Some token, ae_ok := Some True, ae_actor := Some ActorSystem,
        ae_detail := Some [(''signature'', JString signature), (''lamports'', JNumber (of_int (fe_lamports ev)))]\<rparr>"

record fee_outcome =
  fo_credited :: bool
  fo_debited :: bool
  fo_audits :: "audit_entry list"

definition nothing_booked :: fee_outcome where
  "nothing_booked = \<lparr>fo_credited = False, fo_debited = False, fo_audits = []\<rparr>"

definition add_batch :: "string \<Rightarrow> string \<Rightarrow> fee_event list \<Rightarrow> string list \<Rightarrow> fee_outcome \<Rightarrow> fee_outcome" where
  "add_batch token signature batch appliedSignatures res =
     (let hits = filter (\<lambda>ev. fe_signature ev \<in> set appliedSignatures) batch in
      \<lparr>fo_credited = (fo_credited res \<or> (\<exists>ev \<in> set hits. fe_kind ev = Credit)),
       fo_debited = (fo_debited res \<or> (\<exists>ev \<in> set hits. fe_kind ev \<noteq> Credit)),
       fo_audits = fo_audits res @ map (fee_audit token signature) hits\<rparr>)"

text \<open>The loop over the tokens; the links tell what becomes of each call.\<close>

fun apply_batches ::
  "signer_link list \<Rightarrow> int \<Rightarrow> string \<Rightarrow> (string \<times> fee_event list) list \<Rightarrow> fee_outcome \<Rightarrow> signers \<Rightarrow>
   (thrown + fee_outcome) \<times> signers" where
  "apply_batches links now signature [] res S = (Inr res, S)"
| "apply_batches links now signature ((token, batch) # rest) res S =
     (case call_signer (case links of l # _ \<Rightarrow> l | [] \<Rightarrow> Delivered) token (applyFeeEvents batch now) S of
        (Inl e, S1) \<Rightarrow> (Inl e, S1)
      | (Inr (_, appliedSignatures), S1) \<Rightarrow>
          apply_batches (tl links) now signature rest (add_batch token signature batch appliedSignatures res) S1)"

definition processSubscribeFeeTx ::
  "fee_kit \<Rightarrow> fee_env \<Rightarrow> signer_link list \<Rightarrow> int \<Rightarrow> subscribe_result \<Rightarrow> signers \<Rightarrow> (thrown + fee_outcome) \<times> signers" where
  "processSubscribeFeeTx K E links now result S =
     (case fee_events_of K E result of
        Inl e \<Rightarrow> (Inl e, S)
      | Inr events \<Rightarrow>
          (case sr_transaction result of
             None \<Rightarrow> (Inr nothing_booked, S)
           | Some c \<Rightarrow> apply_batches links now (result_signature result c) (by_token events) nothing_booked S))"

subsection \<open>One token per transaction\<close>

definition event_text :: "fee_kind \<Rightarrow> string" where
  "event_text k = (if k = Credit then '':credit'' else '':debit'')"

lemma first_some_Some: "first_some f xs = Some y \<Longrightarrow> \<exists>x \<in> set xs. f x = Some y"
  by (induction xs) (auto split: option.splits)

lemma execute_token_trimmed: "execute_token K keys ix = Some t \<Longrightarrow> trim t \<noteq> ''''"
  by (auto simp: execute_token_def tryParseAddress_def Let_def split: option.splits wallet_instruction.splits if_splits
      bind_splits)

lemma findExecuteAccounts_trimmed: "findExecuteAccounts K c keys = Some t \<Longrightarrow> trim t \<noteq> ''''"
  by (auto simp: findExecuteAccounts_def dest!: first_some_Some execute_token_trimmed)

text \<open>All events of a transaction go to one token, carry its signature and a positive amount.\<close>

lemma fee_events_shape:
  assumes "fee_events_of K E r = Inr events" "events \<noteq> []"
  obtains c t evs where "sr_transaction r = Some c" "\<not> tx_failed c" "trim t \<noteq> ''''" "events = map (Pair t) evs"
    "\<forall>ev \<in> set evs. fe_signature ev = result_signature r c @ event_text (fe_kind ev) \<and> 0 < fe_lamports ev"
    "inj_on fe_kind (set evs)"
proof -
  from assms obtain c where c: "sr_transaction r = Some c" "\<not> tx_failed c"
    by (auto simp: fee_events_of_def split: option.splits if_splits)
  let ?sig = "result_signature r c"
  let ?keys = "resolveAccountKeys c"
  let ?ex = "findExecuteAccounts K c ?keys"
  let ?cr = "credit_events (trim (or_else (fv_accumulator E) '''')) ?keys c ?sig ?ex"
  from assms c obtain debits where d: "debit_events K E ?keys c ?sig ?ex = Inr debits" "events = ?cr @ debits"
    by (auto simp: fee_events_of_def Let_def result_simps split: if_splits)
  with assms(2) obtain t where t: "?ex = Some t"
    by (cases ?ex) (auto simp: credit_events_def debit_events_def Let_def split: if_splits)
  define cr where "cr = \<lparr>fe_signature = ?sig @ '':credit'', fe_kind = Credit,
    fe_lamports = nativeChange ?keys c (trim (or_else (fv_accumulator E) ''''))\<rparr>"
  define db where "db = \<lparr>fe_signature = ?sig @ '':debit'', fe_kind = Debit, fe_lamports = - nativeChange ?keys c (hd ?keys)\<rparr>"
  have a: "?cr = [] \<or> ?cr = [(t, cr)] \<and> 0 < fe_lamports cr"
    by (simp add: credit_events_def t Let_def cr_def)
  have b: "debits = [] \<or> debits = [(t, db)] \<and> 0 < fe_lamports db"
    using d(1) by (auto simp: debit_events_def t Let_def db_def result_simps split: if_splits)
  show thesis
    by (rule that [of c t "map snd events"])
      (use c findExecuteAccounts_trimmed [OF t] a b d(2) in \<open>auto simp: event_text_def cr_def db_def inj_on_def\<close>)
qed

lemma by_token_one: "by_token (map (Pair t) evs) = (if evs = [] then [] else [(t, evs)])"
proof -
  have steps: "foldl (\<lambda>m (token, event). set_key token (or_else (map_of m token) [] @ [event]) m) [(t, pre)] (map (Pair t) es) =
      [(t, pre @ es)]" for pre es :: "fee_event list"
    by (induction es arbitrary: pre) auto
  show ?thesis using steps [of "[hd evs]" "tl evs"] by (cases evs) (simp_all add: by_token_def)
qed

subsection \<open>What reaches a ledger\<close>

definition booking :: "fee_event \<Rightarrow> string \<times> fee_kind \<times> int" where
  "booking ev = (fe_signature ev, fe_kind ev, fe_lamports ev)"

definition bookings :: "token_db \<Rightarrow> (string \<times> fee_kind \<times> int) list" where
  "bookings db = map (\<lambda>e. (fe_signature e, fe_kind e, fe_lamports e)) (td_events db)"

definition book :: "fee_event \<Rightarrow> (string \<times> fee_kind \<times> int) list \<Rightarrow> (string \<times> fee_kind \<times> int) list" where
  "book ev rs = (if fe_lamports ev \<le> 0 \<or> fe_signature ev \<in> fst ` set rs then rs else rs @ [booking ev])"

text \<open>The balance the bookings lead to: a debit takes what is there.\<close>

definition replay :: "(string \<times> fee_kind \<times> int) list \<Rightarrow> int" where
  "replay rs = foldl (\<lambda>b (_, k, n). if k = Credit then b + n else max 0 (b - n)) 0 rs"

lemma applyFeeEvent_replay:
  "getFeeBalanceLamports db = replay (bookings db) \<Longrightarrow>
     getFeeBalanceLamports (snd (applyFeeEvent ev now db)) = replay (bookings (snd (applyFeeEvent ev now db)))"
  by (auto simp: applyFeeEvent_def bookings_def replay_def Let_def upsert_balance_def getFeeBalanceLamports_def
      split: option.splits)

lemma applyFeeEvent_book: "bookings (snd (applyFeeEvent ev now db)) = book ev (bookings db)"
  by (auto simp: applyFeeEvent_def bookings_def book_def booking_def Let_def upsert_balance_def image_image)

lemma bookings_same: "same_money_as db db' \<Longrightarrow> bookings db' = bookings db"
  by (simp add: same_money_as_def bookings_def)

text \<open>The signer of a token that has only been asked about its own token.\<close>

definition signer_of :: "string \<Rightarrow> token_signer \<Rightarrow> bool" where
  "signer_of t s \<longleftrightarrow>
     trim t = t \<and> t \<noteq> '''' \<and> ts_name s = Some t \<and> (ts_token s = None \<or> ts_token s = Some t) \<and>
     getFeeBalanceLamports (ts_db s) = replay (bookings (ts_db s)) \<and>
     (td_meta (ts_db s) ''phygital_token'' = Some t \<or>
      \<not> ts_storeMade s \<and> td_meta (ts_db s) = (\<lambda>_. None) \<and> td_balance (ts_db s) = None)"

lemma signer_of_new: "trim t = t \<Longrightarrow> t \<noteq> '''' \<Longrightarrow> signer_of t (new_signers t)"
  by (simp add: signer_of_def new_signers_def new_signer_def initTokenSchema_def getFeeBalanceLamports_def bookings_def
      replay_def)

lemma signer_of_token: "signer_of t s \<Longrightarrow> \<exists>s'. getToken s = (Inr t, s') \<and> signer_of t s' \<and> ts_db s' = ts_db s"
  by (auto simp: signer_of_def getToken_def memo_token_def tokenFromName_def)

lemma signer_of_store: "signer_of t s \<Longrightarrow> \<exists>s'. getStore now s = (Inr (), s') \<and> signer_of t s' \<and>
    td_meta (ts_db s') ''phygital_token'' = Some t \<and> same_money_as (ts_db s) (ts_db s')"
  by (cases "ts_storeMade s")
    (auto simp: signer_of_def getStore_def and_then_def getToken_def memo_token_def tokenFromName_def ensure_in_store_def
      ensureToken_def insert_meta_def upsert_balance_def same_money_as_def getFeeBalanceLamports_def bookings_def)

lemma signer_of_one_event:
  assumes "signer_of t s"
  shows "\<exists>applied s'. apply_one_event ev now s = (Inr applied, s') \<and> signer_of t s' \<and>
    bookings (ts_db s') = book ev (bookings (ts_db s))"
proof -
  obtain s1 where s1: "getStore now s = (Inr (), s1)" "signer_of t s1"
      "td_meta (ts_db s1) ''phygital_token'' = Some t" "same_money_as (ts_db s) (ts_db s1)"
    using signer_of_store [OF assms] by blast
  let ?r = "if fe_kind ev = Debit then settleDebit ev now (ts_db s1) else applyFeeEvent ev now (ts_db s1)"
  have meta: "td_meta (snd (applyFeeEvent ev now db)) = td_meta db" "td_meta (snd (settleDebit ev now db)) = td_meta db" for db
    by (simp_all add: settleDebit_def applyFeeEvent_def upsert_balance_def expireReserves_def Let_def)
  have one: "apply_one_event ev now s = (Inr (fst ?r), s1\<lparr>ts_db := snd ?r\<rparr>)"
    by (simp add: apply_one_event_def and_then_def s1(1) case_prod_beta Let_def)
  obtain db2 where db2: "same_money_as (ts_db s1) db2" "settleDebit ev now (ts_db s1) = applyFeeEvent ev now db2"
    by (rule settleDebit_money)
  have "bookings (snd ?r) = book ev (bookings (ts_db s))"
    using db2 by (simp add: applyFeeEvent_book bookings_same [OF db2(1)] bookings_same [OF s1(4)])
  moreover have "getFeeBalanceLamports (snd ?r) = replay (bookings (snd ?r))"
    using s1(2) db2 applyFeeEvent_replay [of "ts_db s1"] applyFeeEvent_replay [of db2]
    by (simp add: signer_of_def bookings_same [OF db2(1)] same_money_as_def)
  then have "signer_of t (s1\<lparr>ts_db := snd ?r\<rparr>)"
    using s1(2,3) by (simp add: signer_of_def meta)
  ultimately show ?thesis using one by simp
qed

lemma signer_of_events:
  assumes "signer_of t s"
  shows "\<exists>sigs' s'. apply_events now sigs evs s = (Inr sigs', s') \<and> signer_of t s' \<and>
    bookings (ts_db s') = fold book evs (bookings (ts_db s))"
  using assms
proof (induction evs arbitrary: sigs s)
  case (Cons ev evs)
  from signer_of_one_event [OF Cons.prems] obtain applied s1 where one: "apply_one_event ev now s = (Inr applied, s1)"
      "signer_of t s1" "bookings (ts_db s1) = book ev (bookings (ts_db s))" by blast
  from Cons.IH [OF one(2)] show ?case using one by (simp add: and_then_def)
qed (simp add: done_with_def)

lemma signer_of_apply:
  assumes "signer_of t s"
  shows "\<exists>sigs s'. applyFeeEvents evs now s = (Inr (length sigs, sigs), s') \<and> signer_of t s' \<and>
    bookings (ts_db s') = fold book evs (bookings (ts_db s))"
proof -
  obtain s1 where s1: "getToken s = (Inr t, s1)" "signer_of t s1" "ts_db s1 = ts_db s"
    using signer_of_token [OF assms] by blast
  obtain sigs s2 where s2: "apply_events now [] evs s1 = (Inr sigs, s2)" "signer_of t s2"
      "bookings (ts_db s2) = fold book evs (bookings (ts_db s1))"
    using signer_of_events [OF s1(2)] by blast
  obtain s3 where s3: "getStore now s2 = (Inr (), s3)" "signer_of t s3" "same_money_as (ts_db s2) (ts_db s3)"
    using signer_of_store [OF s2(2)] by blast
  have "\<exists>s4. scheduleReserveAlarm now s2 = (Inr (), s4) \<and> signer_of t s4 \<and> ts_db s4 = ts_db s3"
    using s3(2) by (auto simp: scheduleReserveAlarm_def and_then_def s3(1) signer_of_def split: option.splits)
  then show ?thesis
    using s1 s2 bookings_same [OF s3(3)] by (auto simp: applyFeeEvents_def and_then_def done_with_def)
qed

subsection \<open>Runs of deliveries\<close>

record delivery =
  dl_link :: signer_link
  dl_now :: int
  dl_result :: subscribe_result

fun deliver_all :: "fee_kit \<Rightarrow> fee_env \<Rightarrow> delivery list \<Rightarrow> signers \<Rightarrow> signers" where
  "deliver_all K E [] S = S"
| "deliver_all K E (d # ds) S =
     deliver_all K E ds (snd (processSubscribeFeeTx K E [dl_link d] (dl_now d) (dl_result d) S))"

text \<open>What a delivery has to book for the token \<open>t\<close>.\<close>

definition due :: "fee_kit \<Rightarrow> fee_env \<Rightarrow> string \<Rightarrow> subscribe_result \<Rightarrow> fee_event list" where
  "due K E t r =
     (case fee_events_of K E r of Inl _ \<Rightarrow> [] | Inr events \<Rightarrow> map snd (filter (\<lambda>(token, _). trim token = t) events))"

definition due_of :: "fee_kit \<Rightarrow> fee_env \<Rightarrow> string \<Rightarrow> signer_link \<Rightarrow> subscribe_result \<Rightarrow> fee_event list" where
  "due_of K E t l r = (if l = LostBefore then [] else due K E t r)"

definition own_signers :: "signers \<Rightarrow> bool" where
  "own_signers S \<longleftrightarrow> (\<forall>t. trim t = t \<longrightarrow> t \<noteq> '''' \<longrightarrow> signer_of t (S t))"

lemma own_signers_new: "own_signers new_signers"
  by (simp add: own_signers_def signer_of_new)

lemma process_step:
  assumes "own_signers S"
  shows "\<exists>r S'. processSubscribeFeeTx K E [l] now result S = (r, S') \<and> own_signers S' \<and>
    (\<forall>t. trim t = t \<longrightarrow> t \<noteq> '''' \<longrightarrow>
       bookings (ts_db (S' t)) = fold book (due_of K E t l result) (bookings (ts_db (S t)))) \<and>
    (is_ok r \<longleftrightarrow> is_ok (fee_events_of K E result) \<and> (l = Delivered \<or> fee_events_of K E result = Inr []))"
proof (cases "fee_events_of K E result")
  case (Inl e)
  then show ?thesis using assms by (simp add: processSubscribeFeeTx_def due_of_def due_def)
next
  case (Inr events)
  show ?thesis
  proof (cases "events = []")
    case True
    with Inr assms show ?thesis
      by (simp add: processSubscribeFeeTx_def due_of_def due_def by_token_def split: option.split)
  next
    case False
    obtain c t evs where ev: "sr_transaction result = Some c" "trim t \<noteq> ''''" "events = map (Pair t) evs"
      by (rule fee_events_shape [OF Inr False])
    with False have ne: "evs \<noteq> []" by auto
    have own: "signer_of (trim t) (S (trim t))" using assms ev(2) by (simp add: own_signers_def)
    obtain sigs s' where s': "applyFeeEvents evs now (S (trim t)) = (Inr (length sigs, sigs), s')" "signer_of (trim t) s'"
        "bookings (ts_db s') = fold book evs (bookings (ts_db (S (trim t))))"
      using signer_of_apply [OF own] by blast
    have due: "due K E u result = (if trim t = u then evs else [])" for u
      by (simp add: due_def Inr ev(3) filter_map comp_def)
    have own': "own_signers (S(trim t := s'))" using assms s'(2) by (simp add: own_signers_def)
    show ?thesis
      using ev(1,2) ne s' own' assms Inr
      by (cases l) (auto simp: processSubscribeFeeTx_def ev(3) by_token_one call_signer_def due due_of_def)
  qed
qed

lemma deliver_all_bookings:
  assumes "own_signers S"
  shows "own_signers (deliver_all K E ds S) \<and>
    (\<forall>t. trim t = t \<longrightarrow> t \<noteq> '''' \<longrightarrow>
      bookings (ts_db (deliver_all K E ds S t)) = fold book (concat (map (\<lambda>d. due_of K E t (dl_link d) (dl_result d)) ds)) (bookings (ts_db (S t))))"
  using assms
proof (induction ds arbitrary: S)
  case (Cons d ds)
  obtain r S' where p: "processSubscribeFeeTx K E [dl_link d] (dl_now d) (dl_result d) S = (r, S')" "own_signers S'"
      "\<forall>t. trim t = t \<longrightarrow> t \<noteq> '''' \<longrightarrow> bookings (ts_db (S' t)) = fold book (due_of K E t (dl_link d) (dl_result d)) (bookings (ts_db (S t)))"
    using process_step [OF Cons.prems, of K E "dl_link d" "dl_now d" "dl_result d"] by blast
  from Cons.IH [OF p(2)] p show ?case by simp
qed simp

text \<open>When a signature names one event, the ledger is the set of the events.\<close>

lemma fold_book_set:
  assumes "\<forall>e \<in> set es \<union> set fs. \<forall>e' \<in> set es \<union> set fs. fe_signature e = fe_signature e' \<longrightarrow> e = e'"
    and "\<forall>e \<in> set es \<union> set fs. 0 < fe_lamports e" and "set rs = booking ` set fs" and "distinct (map fst rs)"
  shows "set (fold book es rs) = booking ` (set es \<union> set fs) \<and> distinct (map fst (fold book es rs))"
  using assms
proof (induction es arbitrary: fs rs)
  case (Cons e es)
  have r: "set (book e rs) = booking ` set (e # fs) \<and> distinct (map fst (book e rs))"
  proof (cases "fe_signature e \<in> fst ` set rs")
    case True
    then obtain f where "f \<in> set fs" "fe_signature f = fe_signature e"
      by (auto simp: Cons.prems(3) booking_def)
    then have "e \<in> set fs" using Cons.prems(1) by (metis Un_iff list.set_intros(1))
    with True Cons.prems show ?thesis by (auto simp: book_def)
  qed (use Cons.prems in \<open>auto simp: book_def booking_def\<close>)
  have "set (fold book es (book e rs)) = booking ` (set es \<union> set (e # fs)) \<and>
      distinct (map fst (fold book es (book e rs)))"
    by (rule Cons.IH) (use Cons.prems(1,2) r in auto)
  then show ?case by auto
qed simp

definition result_key :: "subscribe_result \<Rightarrow> string" where
  "result_key r = (case sr_transaction r of Some c \<Rightarrow> result_signature r c | None \<Rightarrow> '''')"

lemma due_shape:
  assumes "ev \<in> set (due K E t r)"
  shows "fe_signature ev = result_key r @ event_text (fe_kind ev) \<and> 0 < fe_lamports ev \<and>
    (\<forall>e \<in> set (due K E t r). fe_kind e = fe_kind ev \<longrightarrow> e = ev)"
proof (cases "fee_events_of K E r")
  case (Inr events)
  with assms have ne: "events \<noteq> []" by (auto simp: due_def)
  obtain c u evs where c: "sr_transaction r = Some c" "events = map (Pair u) evs"
      "\<forall>ev \<in> set evs. fe_signature ev = result_signature r c @ event_text (fe_kind ev) \<and> 0 < fe_lamports ev"
      "inj_on fe_kind (set evs)"
    by (rule fee_events_shape [OF Inr ne])
  with assms Inr show ?thesis by (auto simp: due_def result_key_def dest: inj_onD)
qed (use assms in \<open>simp add: due_def\<close>)

lemma event_text_inj: "a @ event_text k = b @ event_text l \<Longrightarrow> a = b \<and> k = l"
proof -
  assume h: "a @ event_text k = b @ event_text l"
  then have "rev (a @ event_text k) ! 2 = rev (b @ event_text l) ! 2" by (rule arg_cong)
  then have "k = l" by (cases k; cases l) (auto simp: event_text_def numeral_2_eq_2)
  with h show ?thesis by simp
qed

text \<open>
  C8: What is booked.  Let any list of notifications be delivered, in any order, any number of times each,
  with calls of a token's signer lost before or after they took effect, and let notifications with the
  same signature call for the same events.  Then every ledger holds exactly the events of the deliveries
  that reached it, each once: a transaction delivered again books nothing, one whose answer was lost is
  booked, and no ledger holds an event of another token.  The balance is what these bookings lead to.
\<close>
theorem ledgers_hold_each_event_once:
  assumes "\<And>d d'. d \<in> set ds \<Longrightarrow> d' \<in> set ds \<Longrightarrow> result_key (dl_result d) = result_key (dl_result d') \<Longrightarrow>
      fee_events_of K E (dl_result d) = fee_events_of K E (dl_result d')"
    and "trim t = t" "t \<noteq> ''''"
  shows "let db = ts_db (deliver_all K E ds new_signers t) in
    set (bookings db) = booking ` (\<Union>d \<in> {d \<in> set ds. dl_link d \<noteq> LostBefore}. set (due K E t (dl_result d))) \<and>
    distinct (map fst (bookings db)) \<and> getFeeBalanceLamports db = replay (bookings db)"
proof -
  let ?es = "concat (map (\<lambda>d. due_of K E t (dl_link d) (dl_result d)) ds)"
  let ?S = "deliver_all K E ds new_signers"
  have run: "bookings (ts_db (?S t)) = fold book ?es []" "signer_of t (?S t)"
    using deliver_all_bookings [OF own_signers_new, of K E ds] assms(2,3)
    by (simp_all add: own_signers_def new_signers_def new_signer_def initTokenSchema_def bookings_def)
  have src: "\<exists>d \<in> set ds. e \<in> set (due K E t (dl_result d))" if "e \<in> set ?es" for e
    using that by (auto simp: due_of_def split: if_splits)
  have one: "e = e'" if "e \<in> set ?es" "e' \<in> set ?es" "fe_signature e = fe_signature e'" for e e'
  proof -
    note h = that
    obtain d d' where d: "d \<in> set ds" "e \<in> set (due K E t (dl_result d))" "d' \<in> set ds" "e' \<in> set (due K E t (dl_result d'))"
      using src h(1,2) by blast
    note s = due_shape [OF d(2)] due_shape [OF d(4)]
    with h(3) have k: "result_key (dl_result d) = result_key (dl_result d')" "fe_kind e = fe_kind e'"
      using event_text_inj by metis+
    have "due K E t (dl_result d) = due K E t (dl_result d')" using assms(1) [OF d(1,3) k(1)] by (simp add: due_def)
    with s(1) d(4) k(2) show ?thesis by simp
  qed
  have pos: "\<forall>e \<in> set ?es. 0 < fe_lamports e" using src due_shape by blast
  have "set (fold book ?es []) = booking ` (set ?es \<union> set []) \<and> distinct (map fst (fold book ?es []))"
    by (rule fold_book_set) (use one pos in auto)
  moreover have "set ?es = (\<Union>d \<in> {d \<in> set ds. dl_link d \<noteq> LostBefore}. set (due K E t (dl_result d)))"
    by (auto simp: due_of_def)
  ultimately show ?thesis using run by (simp add: signer_of_def)
qed

definition sample_fee_kit :: fee_kit where
  "sample_fee_kit =
     \<lparr>fk_kit = sample_kit\<lparr>k_compact_data := \<lambda>_. Some []\<rparr>,
      fk_base58 = (\<lambda>_. Some [249, 39, 107, 35, 244, 181, 161, 142, 0, 0, 0, 0]), fk_base64 = (\<lambda>_. None),
      fk_isAddress = (\<lambda>_. True), fk_jsonParse = (\<lambda>_. Some (JArray [JString ''payer'']))\<rparr>"

definition sample_fee_env :: fee_env where
  "sample_fee_env = \<lparr>fv_accumulator = Some ''acc'', fv_feePayers = Some ''json''\<rparr>"

text \<open>A top-up that the sponsor paid 500 lamports for: the accumulator got 900.\<close>

definition sample_top_up :: subscribe_result where
  "sample_top_up =
     \<lparr>sr_signature = Some ''sig'', sr_slot = None, sr_blockTime = None,
      sr_transaction = Some
        \<lparr>ct_meta = Some
           \<lparr>tm_err = JNull, tm_fee = Some 500, tm_pre = Some [5000, 0, 100], tm_post = Some [4500, 0, 1000],
            tm_preTokens = None, tm_postTokens = None, tm_writable = None, tm_readonly = None, tm_inner = None\<rparr>,
         ct_signatures = None,
         ct_accountKeys = Some [KeyText ''payer'', KeyText ''token'', KeyObject (Some ''acc''),
           KeyText PHYGITAL_WALLET_PROGRAM_ADDRESS],
         ct_instructions = Some [\<lparr>cx_program = Some 3, cx_accounts = Some [0, 1, 0, 0, 0], cx_data = Some ''data''\<rparr>]\<rparr>\<rparr>"

lemma sample_top_up_due:
  "due sample_fee_kit sample_fee_env ''token'' sample_top_up =
     [\<lparr>fe_signature = ''sig:credit'', fe_kind = Credit, fe_lamports = 900\<rparr>,
      \<lparr>fe_signature = ''sig:debit'', fe_kind = Debit, fe_lamports = 500\<rparr>]"
  by code_simp

definition sample_deliveries :: "delivery list" where
  "sample_deliveries =
     [\<lparr>dl_link = LostBefore, dl_now = 1, dl_result = sample_top_up\<rparr>,
      \<lparr>dl_link = LostAfter, dl_now = 2, dl_result = sample_top_up\<rparr>,
      \<lparr>dl_link = Delivered, dl_now = 3, dl_result = sample_top_up\<rparr>]"

theorem ledgers_hold_each_event_once_witness:
  "set (bookings (ts_db (deliver_all sample_fee_kit sample_fee_env sample_deliveries new_signers ''token''))) =
     {(''sig:credit'', Credit, 900), (''sig:debit'', Debit, 500)}"
proof -
  have "{d \<in> set sample_deliveries. dl_link d \<noteq> LostBefore} = set (tl sample_deliveries)"
    by (auto simp: sample_deliveries_def)
  then have u: "(\<Union>d \<in> {d \<in> set sample_deliveries. dl_link d \<noteq> LostBefore}. set (due sample_fee_kit sample_fee_env ''token'' (dl_result d))) =
      set (due sample_fee_kit sample_fee_env ''token'' sample_top_up)"
    by (simp add: sample_deliveries_def)
  have same: "dl_result d = sample_top_up" if "d \<in> set sample_deliveries" for d
    using that by (auto simp: sample_deliveries_def)
  have t: "trim ''token'' = ''token''" by (simp add: trim_id is_space_def)
  from ledgers_hold_each_event_once [of sample_deliveries sample_fee_kit sample_fee_env, OF _ t]
  have "set (bookings (ts_db (deliver_all sample_fee_kit sample_fee_env sample_deliveries new_signers ''token''))) =
      booking ` set (due sample_fee_kit sample_fee_env ''token'' sample_top_up)"
    unfolding Let_def u by (simp add: same)
  then show ?thesis by (simp add: sample_top_up_due booking_def)
qed

end
