(* ===== verification/WalletActivity.thy ===== *)
theory WalletActivity
  imports SubscribeResult Decimal
begin

text \<open>
  The rows of a wallet's history that a transaction gives
  (\<^verbatim>\<open>workers/api/src/webhooks/wallet-activity.ts\<close>).  Amounts are rationals, so \<open>Number.isFinite\<close> only
  shows where a text is read: \<open>number\<close> is ECMAScript's \<open>Number\<close> on texts, \<open>None\<close> when it is not finite.
  \<open>toFixed\<close> is written out for numbers below \<open>10\<^sup>2\<^sup>1\<close>, where it does not switch to exponents.
\<close>

definition NATIVE_SOL_MINT :: string where
  "NATIVE_SOL_MINT = ''So11111111111111111111111111111111111111112''"

datatype activity_kind = ActSent | ActReceived | ActApproved | ActTopUp | ActFailed | ActOther

datatype delta_direction = DeltaIn | DeltaOut

record activity_delta =
  da_mint :: string
  da_direction :: delta_direction
  da_amountUi :: string

definition WALLET_ACTIVITY_PARSER_VERSION :: nat where "WALLET_ACTIVITY_PARSER_VERSION = 1"

record activity_row =
  aw_walletAddress :: string
  aw_signature :: string
  aw_slot :: "int option"
  aw_blockTime :: int
  aw_kind :: activity_kind
  aw_title :: string
  aw_amountLabel :: "string option"
  aw_statusLabel :: "string option"
  aw_mint :: "string option"
  aw_balanceDeltas :: "activity_delta list"
  aw_failed :: bool
  aw_feeLamports :: "int option"
  aw_parserVersion :: nat

subsection \<open>Amounts\<close>

text \<open>\<open>x.toFixed(f)\<close> of \<open>x\<close> at least 0: the nearest multiple of \<open>10\<^sup>-\<^sup>f\<close>, the larger one of two.\<close>

definition to_fixed :: "nat \<Rightarrow> rat \<Rightarrow> string" where
  "to_fixed f x =
     (let n = nat \<lfloor>x * 10 ^ f + 1 / 2\<rfloor> in
      nat_text (n div 10 ^ f) @ (if f = 0 then '''' else ''.'' @ padStart f CHR ''0'' (nat_text (n mod 10 ^ f))))"

text \<open>\<open>replace(/\.?0+$/, "")\<close>\<close>

definition strip_zeros :: "string \<Rightarrow> string" where
  "strip_zeros s =
     (let t = strip_trailing CHR ''0'' s in if t \<noteq> s \<and> ends_with ''.'' t then butlast t else t)"

definition formatUiAmount :: "rat \<Rightarrow> string" where
  "formatUiAmount amount =
     (let t = strip_zeros (to_fixed 6 \<bar>amount\<bar>) in if t = '''' then ''0'' else t)"

definition symbolForMint :: "string \<Rightarrow> string" where
  "symbolForMint mint =
     (if mint = NATIVE_SOL_MINT then ''SOL''
      else if length mint \<le> 8 then mint
      else take 4 mint @ [ellipsis] @ drop (length mint - 4) mint)"

definition scale_down :: "rat \<Rightarrow> int \<Rightarrow> rat" where
  "scale_down x d = (if 0 \<le> d then x / 10 ^ nat d else x * 10 ^ nat (- d))"

definition uiAmountFromToken :: "(string \<Rightarrow> rat option) \<Rightarrow> token_balance \<Rightarrow> rat" where
  "uiAmountFromToken number e =
     (case tb_uiAmount e of
        Some ui \<Rightarrow> ui
      | None \<Rightarrow>
     (case (if or_else (tb_uiAmountString e) '''' = '''' then None else number (or_else (tb_uiAmountString e) '''')) of
        Some n \<Rightarrow> n
      | None \<Rightarrow>
     (case (tb_decimals e, or_else (tb_amount e) '''') of
        (Some decimals, amount) \<Rightarrow>
          if amount = '''' then 0
          else (case number amount of Some n \<Rightarrow> scale_down n decimals | None \<Rightarrow> 0)
      | _ \<Rightarrow> 0)))"

text \<open>The entries of a wallet that name a mint, and the map from mints to amounts.\<close>

definition entries_of :: "token_balance list option \<Rightarrow> string \<Rightarrow> (string \<times> token_balance) list" where
  "entries_of entries w =
     List.map_filter (\<lambda>e. if tb_owner e \<noteq> Some w \<or> or_else (tb_mint e) '''' = '''' then None else Some (the (tb_mint e), e))
       (or_else entries [])"

definition tokenAmountsByMint ::
  "(string \<Rightarrow> rat option) \<Rightarrow> token_balance list option \<Rightarrow> string \<Rightarrow> (string \<times> rat) list" where
  "tokenAmountsByMint number entries w =
     foldl (\<lambda>byMint (mint, e). set_key mint (or_else (map_of byMint mint) 0 + uiAmountFromToken number e) byMint) []
       (entries_of entries w)"

definition delta_of :: "string \<Rightarrow> rat \<Rightarrow> activity_delta" where
  "delta_of mint signedUi =
     \<lparr>da_mint = mint, da_direction = (if 0 < signedUi then DeltaIn else DeltaOut), da_amountUi = formatUiAmount signedUi\<rparr>"

definition pushDelta :: "activity_delta list \<Rightarrow> string \<Rightarrow> rat \<Rightarrow> activity_delta list" where
  "pushDelta deltas mint signedUi = (if signedUi = 0 then deltas else deltas @ [delta_of mint signedUi])"

subsection \<open>Wallets\<close>

text \<open>\<open>Set.add\<close> on a list without repetitions.\<close>

definition set_add :: "'a \<Rightarrow> 'a list \<Rightarrow> 'a list" where
  "set_add x xs = (if x \<in> set xs then xs else xs @ [x])"

definition add_owner :: "string list \<Rightarrow> token_balance \<Rightarrow> string list" where
  "add_owner wallets e = (let w = or_else (tb_owner e) '''' in if w = '''' then wallets else set_add w wallets)"

definition add_changed :: "confirmed_tx \<Rightarrow> account_key list \<Rightarrow> string list \<Rightarrow> nat \<Rightarrow> string list" where
  "add_changed c keys wallets i =
     (if opt_at (meta_of tm_pre c) (int i) \<noteq> opt_at (meta_of tm_post c) (int i)
      then
        let k = or_else (accountPubkey (nth_opt keys i)) '''' in
        if k = '''' then wallets else set_add k wallets
      else wallets)"

definition affectedWallets :: "confirmed_tx \<Rightarrow> string list" where
  "affectedWallets c =
     (let keys = or_else (ct_accountKeys c) [];
          w1 = foldl add_owner [] (or_else (meta_of tm_preTokens c) []);
          w2 = foldl add_owner w1 (or_else (meta_of tm_postTokens c) []) in
      foldl (add_changed c keys) w2 [0 ..< length keys])"

fun find_index :: "('a \<Rightarrow> bool) \<Rightarrow> 'a list \<Rightarrow> nat option" where
  "find_index P [] = None"
| "find_index P (x # xs) = (if P x then Some 0 else map_option Suc (find_index P xs))"

definition fee_payer_of :: "confirmed_tx \<Rightarrow> string option" where
  "fee_payer_of c = accountPubkey (nth_opt (or_else (ct_accountKeys c) []) 0)"

text \<open>The lamports of the wallet's own account, the fee put back when it paid it.\<close>

definition sol_change :: "string \<Rightarrow> confirmed_tx \<Rightarrow> int" where
  "sol_change w c =
     (case find_index (\<lambda>k. accountPubkey (Some k) = Some w) (or_else (ct_accountKeys c) []) of
        None \<Rightarrow> 0
      | Some i \<Rightarrow>
          (case (opt_at (meta_of tm_pre c) (int i), opt_at (meta_of tm_post c) (int i)) of
             (Some pre, Some post) \<Rightarrow>
               let fee = or_else (meta_of tm_fee c) 0 in
               post - pre + (if fee_payer_of c = Some w \<and> fee > 0 then fee else 0)
           | _ \<Rightarrow> 0))"

definition token_deltas :: "(string \<Rightarrow> rat option) \<Rightarrow> string \<Rightarrow> confirmed_tx \<Rightarrow> activity_delta list" where
  "token_deltas number w c =
     (let preTokens = tokenAmountsByMint number (meta_of tm_preTokens c) w;
          postTokens = tokenAmountsByMint number (meta_of tm_postTokens c) w;
          mints = foldl (\<lambda>s m. set_add m s) [] (map fst preTokens @ map fst postTokens) in
      foldl (\<lambda>deltas mint. pushDelta deltas mint (or_else (map_of postTokens mint) 0 - or_else (map_of preTokens mint) 0))
        [] mints)"

definition balance_deltas :: "(string \<Rightarrow> rat option) \<Rightarrow> string \<Rightarrow> confirmed_tx \<Rightarrow> activity_delta list" where
  "balance_deltas number w c =
     (let lamports = sol_change w c; deltas = token_deltas number w c in
      if lamports \<noteq> 0 then pushDelta deltas NATIVE_SOL_MINT (of_int lamports / 1000000000) else deltas)"

definition activity_kind_of :: "bool \<Rightarrow> activity_delta list \<Rightarrow> activity_kind" where
  "activity_kind_of failed deltas =
     (let hasIn = (\<exists>d \<in> set deltas. da_direction d = DeltaIn); hasOut = (\<exists>d \<in> set deltas. da_direction d \<noteq> DeltaIn) in
      if failed then ActFailed
      else if hasOut \<and> \<not> hasIn then ActSent
      else if hasIn \<and> \<not> hasOut then ActReceived
      else ActOther)"

definition activity_title :: "bool \<Rightarrow> activity_kind \<Rightarrow> string option \<Rightarrow> string" where
  "activity_title failed kind asset =
     (let named = (\<lambda>verb. if or_else asset '''' = '''' then verb else verb @ '' '' @ or_else asset '''') in
      if failed then ''Failed''
      else if kind = ActSent then named ''Sent''
      else if kind = ActReceived then named ''Received''
      else ''Transaction'')"

definition mapWalletActivity ::
  "(string \<Rightarrow> rat option) \<Rightarrow> string \<Rightarrow> confirmed_tx \<Rightarrow> string \<Rightarrow> int option \<Rightarrow> int \<Rightarrow> activity_row option" where
  "mapWalletActivity number w c signature slot blockTime =
     (let deltas = balance_deltas number w c; failed = tx_failed c; payer = (fee_payer_of c = Some w) in
      if deltas = [] \<and> \<not> (failed \<and> payer) then None
      else
        let kind = activity_kind_of failed deltas;
            primary = nth_opt deltas 0 in
        Some
          \<lparr>aw_walletAddress = w, aw_signature = signature, aw_slot = slot, aw_blockTime = blockTime, aw_kind = kind,
           aw_title = activity_title failed kind (map_option (\<lambda>p. symbolForMint (da_mint p)) primary),
           aw_amountLabel = map_option (\<lambda>p. (if da_direction p = DeltaIn then ''+'' else ''-'') @ da_amountUi p) primary,
           aw_statusLabel = (if failed then Some ''Failed'' else None), aw_mint = map_option da_mint primary,
           aw_balanceDeltas = deltas, aw_failed = failed,
           aw_feeLamports = (if payer then meta_of tm_fee c else None),
           aw_parserVersion = WALLET_ACTIVITY_PARSER_VERSION\<rparr>)"

text \<open>\<open>receivedAt\<close> is a time in seconds, taken down to an integer.\<close>

definition activityRowsFromResult :: "(string \<Rightarrow> rat option) \<Rightarrow> subscribe_result \<Rightarrow> rat \<Rightarrow> activity_row list" where
  "activityRowsFromResult number result receivedAt =
     (case sr_transaction result of
        None \<Rightarrow> []
      | Some c \<Rightarrow>
          let signature = result_signature result c in
          if signature = '''' then []
          else List.map_filter
            (\<lambda>w. mapWalletActivity number w c signature (sr_slot result) (or_else (sr_blockTime result) \<lfloor>receivedAt\<rfloor>))
            (affectedWallets c))"

subsection \<open>Amounts on display\<close>

lemma decimal_value_zeros:
  assumes "list_all is_digit w" "w \<noteq> []"
  shows "decimal_value (w @ CHR ''.'' # f @ replicate k CHR ''0'') = decimal_value (w @ CHR ''.'' # f)"
  by (simp add: decimal_value_frac [OF assms] digits_val_append digits_val_zeros power_add)

lemma strip_zeros_value:
  assumes w: "list_all is_digit w" "w \<noteq> []" and f: "f \<noteq> []" "CHR ''.'' \<notin> set f"
  shows "decimal_value (strip_zeros (w @ CHR ''.'' # f)) = decimal_value (w @ CHR ''.'' # f)"
    "strip_zeros (w @ CHR ''.'' # f) \<noteq> []"
proof -
  let ?s = "w @ CHR ''.'' # f"
  let ?t = "strip_trailing CHR ''0'' ?s"
  obtain k where k: "?s = ?t @ replicate k CHR ''0''" using strip_trailing_split by blast
  have "\<exists>f'. f = f' @ replicate k CHR ''0'' \<and> ?t = w @ CHR ''.'' # f'"
  proof -
    from k obtain us where us: "w = ?t @ us \<and> us @ CHR ''.'' # f = replicate k CHR ''0'' \<or>
        w @ us = ?t \<and> CHR ''.'' # f = us @ replicate k CHR ''0''"
      unfolding append_eq_append_conv2 by blast
    have no: "CHR ''.'' \<notin> set (replicate k CHR ''0'')" by simp
    from us show ?thesis
    proof
      assume "w = ?t @ us \<and> us @ CHR ''.'' # f = replicate k CHR ''0''"
      then have "CHR ''.'' \<in> set (replicate k CHR ''0'')" by (metis in_set_conv_decomp)
      with no show ?thesis by simp
    next
      assume r: "w @ us = ?t \<and> CHR ''.'' # f = us @ replicate k CHR ''0''"
      show ?thesis
      proof (cases us)
        case Nil
        with r have "CHR ''.'' \<in> set (replicate k CHR ''0'')" by (metis append_Nil list.set_intros(1))
        with no show ?thesis by simp
      qed (use r in auto)
    qed
  qed
  then obtain f' where f': "f = f' @ replicate k CHR ''0''" "?t = w @ CHR ''.'' # f'" by blast
  have k0: "?t \<noteq> ?s \<longleftrightarrow> 0 < k" using f' by auto
  have dot: "ends_with ''.'' ?t \<longleftrightarrow> f' = []"
    using f' f(2) by (cases f' rule: rev_cases) (auto simp: f'(2) ends_with_def)
  have "strip_zeros ?s = (if f' = [] then w else w @ CHR ''.'' # f')"
  proof -
    have "strip_zeros ?s = (if 0 < k \<and> f' = [] then butlast ?t else ?t)"
      by (simp only: strip_zeros_def Let_def k0 dot)
    also have "\<dots> = (if f' = [] then w else w @ CHR ''.'' # f')"
      using f(1) f'(1) unfolding f'(2) by auto
    finally show ?thesis .
  qed
  then show "decimal_value (strip_zeros ?s) = decimal_value ?s" "strip_zeros ?s \<noteq> []"
    using w f'(1) decimal_value_zeros [OF w, of f' k] decimal_value_zeros [OF w, of "[]" 0]
    by (auto simp: decimal_value_whole decimal_value_frac digits_val_zeros)
qed

lemma digits_padded: "list_all is_digit s \<Longrightarrow> list_all is_digit (padStart k CHR ''0'' s)"
  by (simp add: padStart_def list_all_length nth_append is_digit_def)

lemma to_fixed_shape:
  assumes "0 < f"
  shows "\<exists>w fr. to_fixed f x = w @ CHR ''.'' # fr \<and> list_all is_digit w \<and> w \<noteq> [] \<and> fr \<noteq> [] \<and> CHR ''.'' \<notin> set fr \<and>
    decimal_value (to_fixed f x) = of_nat (nat \<lfloor>x * 10 ^ f + 1 / 2\<rfloor>) / 10 ^ f"
proof -
  define n where "n = nat \<lfloor>x * 10 ^ f + 1 / 2\<rfloor>"
  let ?w = "nat_text (n div 10 ^ f)"
  let ?fr = "padStart f CHR ''0'' (nat_text (n mod 10 ^ f))"
  have len: "length ?fr = f"
    using nat_text_length [of "n mod 10 ^ f" f] assms by (simp add: padStart_def)
  have dots: "CHR ''.'' \<notin> set ?fr"
    using digits_padded [OF nat_text_digits, of f] by (auto simp: list_all_iff dest: is_digit_not)
  have "decimal_value (?w @ CHR ''.'' # ?fr) = of_nat (n div 10 ^ f) + of_nat (n mod 10 ^ f) / 10 ^ f"
    by (simp add: decimal_value_frac nat_text_digits len)
  also have "\<dots> = (of_nat (n div 10 ^ f) * 10 ^ f + of_nat (n mod 10 ^ f)) / (10 ^ f :: rat)"
    by (simp add: add_divide_distrib)
  also have "of_nat (n div 10 ^ f) * 10 ^ f + of_nat (n mod 10 ^ f) = (of_nat n :: rat)"
    using arg_cong [OF div_mult_mod_eq [of n "10 ^ f"], of "of_nat :: nat \<Rightarrow> rat"]
    unfolding of_nat_add of_nat_mult of_nat_power of_nat_numeral .
  finally have "decimal_value (?w @ CHR ''.'' # ?fr) = of_nat n / 10 ^ f" by simp
  moreover have "to_fixed f x = ?w @ CHR ''.'' # ?fr" using assms by (simp add: to_fixed_def n_def Let_def)
  ultimately show ?thesis
    using len dots assms nat_text_digits by (intro exI [of _ ?w] exI [of _ ?fr]) (auto simp: n_def)
qed

lemma fixed_value:
  assumes "0 < f"
  shows "decimal_value (strip_zeros (to_fixed f x)) = of_nat (nat \<lfloor>x * 10 ^ f + 1 / 2\<rfloor>) / 10 ^ f"
    "strip_zeros (to_fixed f x) \<noteq> []"
proof -
  from to_fixed_shape [OF assms, of x] obtain w fr where s: "to_fixed f x = w @ CHR ''.'' # fr" "list_all is_digit w"
      "w \<noteq> []" "fr \<noteq> []" "CHR ''.'' \<notin> set fr"
      "decimal_value (to_fixed f x) = of_nat (nat \<lfloor>x * 10 ^ f + 1 / 2\<rfloor>) / 10 ^ f" by blast
  with strip_zeros_value [OF s(2-5)]
  show "decimal_value (strip_zeros (to_fixed f x)) = of_nat (nat \<lfloor>x * 10 ^ f + 1 / 2\<rfloor>) / 10 ^ f"
    "strip_zeros (to_fixed f x) \<noteq> []" by simp_all
qed

lemma rounding: "0 \<le> (x :: rat) \<Longrightarrow> \<bar>of_nat (nat \<lfloor>x * 10 ^ f + 1 / 2\<rfloor>) / 10 ^ f - x\<bar> \<le> 1 / (2 * 10 ^ f)"
proof -
  assume x: "0 \<le> x"
  define m where "m = \<lfloor>x * 10 ^ f + 1 / 2\<rfloor>"
  have "0 \<le> x * 10 ^ f" using x by simp
  then have m: "0 \<le> m" unfolding m_def by simp
  have "of_int m \<le> x * 10 ^ f + 1 / 2" "x * 10 ^ f + 1 / 2 < of_int m + 1"
    unfolding m_def by linarith+
  then have "\<bar>of_int m - x * 10 ^ f\<bar> \<le> 1 / 2" unfolding abs_le_iff by linarith
  then have "\<bar>of_int m - x * 10 ^ f\<bar> / 10 ^ f \<le> 1 / 2 / 10 ^ f" by (intro divide_right_mono) simp_all
  moreover have "of_int m / 10 ^ f - x = (of_int m - x * 10 ^ f) / 10 ^ f"
    by (simp add: field_simps)
  then have "\<bar>of_int m - x * 10 ^ f\<bar> / 10 ^ f = \<bar>of_int m / 10 ^ f - x\<bar>" by simp
  ultimately show ?thesis using m by (simp add: m_def [symmetric])
qed

lemma formatUiAmount_close: "\<bar>decimal_value (formatUiAmount a) - \<bar>a\<bar>\<bar> \<le> 1 / 2000000"
proof -
  have v: "decimal_value (formatUiAmount a) = of_nat (nat \<lfloor>\<bar>a\<bar> * 10 ^ 6 + 1 / 2\<rfloor>) / 10 ^ 6"
    using fixed_value [of 6 "\<bar>a\<bar>"] by (simp only: formatUiAmount_def Let_def if_False zero_less_numeral)
  show ?thesis unfolding v using rounding [of "\<bar>a\<bar>" 6] by simp
qed

subsection \<open>Rows\<close>

text \<open>What the wallet holds of a mint before or after, and what changes.\<close>

definition token_amount :: "(string \<Rightarrow> rat option) \<Rightarrow> token_balance list option \<Rightarrow> string \<Rightarrow> string \<Rightarrow> rat" where
  "token_amount number entries w m =
     sum_list (map (uiAmountFromToken number)
       (filter (\<lambda>e. tb_owner e = Some w \<and> tb_mint e = Some m \<and> m \<noteq> '''') (or_else entries [])))"

definition token_change :: "(string \<Rightarrow> rat option) \<Rightarrow> confirmed_tx \<Rightarrow> string \<Rightarrow> string \<Rightarrow> rat" where
  "token_change number c w m =
     token_amount number (meta_of tm_postTokens c) w m - token_amount number (meta_of tm_preTokens c) w m"

lemma sum_by_key:
  "map_of (foldl (\<lambda>by (k, x). set_key k (or_else (map_of by k) 0 + g x) by) b xs) m =
     (if m \<in> fst ` set xs \<or> map_of b m \<noteq> None
      then Some (or_else (map_of b m) 0 + sum_list (map (\<lambda>(_, x). g x) (filter (\<lambda>(k, _). k = m) xs))) else (None :: rat option))"
proof (induction xs arbitrary: b)
  case (Cons p xs)
  obtain k x where p: "p = (k, x)" by force
  show ?case by (auto simp: p Cons.IH map_of_set_key)
qed (auto split: option.split)

lemma entries_amount:
  "sum_list (map (\<lambda>(_, e). uiAmountFromToken number e) (filter (\<lambda>(k, _). k = m) (entries_of entries w))) =
     token_amount number entries w m"
proof -
  have "sum_list (map (\<lambda>(_, e). uiAmountFromToken number e) (filter (\<lambda>(k, _). k = m)
      (List.map_filter (\<lambda>e. if tb_owner e \<noteq> Some w \<or> or_else (tb_mint e) '''' = '''' then None else Some (the (tb_mint e), e)) es))) =
    sum_list (map (uiAmountFromToken number) (filter (\<lambda>e. tb_owner e = Some w \<and> tb_mint e = Some m \<and> m \<noteq> '''') es))" for es
  proof (induction es)
    case (Cons e es)
    then show ?case by (cases "tb_mint e") auto
  qed (simp add: List.map_filter_simps)
  then show ?thesis by (simp add: token_amount_def entries_of_def)
qed

lemma entries_mints: "m \<notin> fst ` set (entries_of entries w) \<Longrightarrow> token_amount number entries w m = 0"
proof -
  assume "m \<notin> fst ` set (entries_of entries w)"
  then have "filter (\<lambda>(k, _). k = m) (entries_of entries w) = []" by (force simp: filter_empty_conv)
  then show ?thesis using entries_amount [of number m entries w] by simp
qed

lemma amounts_map:
  "or_else (map_of (tokenAmountsByMint number entries w) m) 0 = token_amount number entries w m"
  "m \<in> fst ` set (tokenAmountsByMint number entries w) \<longleftrightarrow> m \<in> fst ` set (entries_of entries w)"
proof -
  have s: "map_of (tokenAmountsByMint number entries w) m =
      (if m \<in> fst ` set (entries_of entries w) then Some (token_amount number entries w m) else None)"
    by (simp add: tokenAmountsByMint_def sum_by_key entries_amount)
  then show "or_else (map_of (tokenAmountsByMint number entries w) m) 0 = token_amount number entries w m"
    by (simp add: entries_mints)
  show "m \<in> fst ` set (tokenAmountsByMint number entries w) \<longleftrightarrow> m \<in> fst ` set (entries_of entries w)"
    using s by (metis domIff dom_map_of_conv_image_fst option.distinct(1))
qed

lemma set_add_all: "distinct s \<Longrightarrow> distinct (foldl (\<lambda>s m. set_add m s) s xs) \<and> set (foldl (\<lambda>s m. set_add m s) s xs) = set s \<union> set xs"
  by (induction xs arbitrary: s) (auto simp: set_add_def)

lemma push_all:
  "foldl (\<lambda>deltas m. pushDelta deltas m (g m)) ds ms = ds @ map (\<lambda>m. delta_of m (g m)) (filter (\<lambda>m. g m \<noteq> 0) ms)"
  by (induction ms arbitrary: ds) (simp_all add: pushDelta_def)

lemma token_deltas_of:
  obtains ms where "distinct ms" "set ms = {m. token_change number c w m \<noteq> 0}"
    "token_deltas number w c = map (\<lambda>m. delta_of m (token_change number c w m)) ms"
proof -
  let ?pre = "tokenAmountsByMint number (meta_of tm_preTokens c) w"
  let ?post = "tokenAmountsByMint number (meta_of tm_postTokens c) w"
  let ?mints = "foldl (\<lambda>s m. set_add m s) [] (map fst ?pre @ map fst ?post)"
  have m: "distinct ?mints" "set ?mints = fst ` set ?pre \<union> fst ` set ?post"
    using set_add_all [of "[]" "map fst ?pre @ map fst ?post"] by simp_all
  have out: "token_change number c w x = 0" if "x \<notin> set ?mints" for x
    using that unfolding m(2) by (simp add: amounts_map(2) entries_mints token_change_def)
  have "set (filter (\<lambda>m. token_change number c w m \<noteq> 0) ?mints) = {m. token_change number c w m \<noteq> 0}"
    using out by auto
  moreover have "token_deltas number w c =
      map (\<lambda>m. delta_of m (token_change number c w m)) (filter (\<lambda>m. token_change number c w m \<noteq> 0) ?mints)"
    by (simp add: token_deltas_def Let_def push_all amounts_map(1) token_change_def)
  ultimately show thesis using that [of "filter (\<lambda>m. token_change number c w m \<noteq> 0) ?mints"] m(1) by simp
qed

lemma delta_direction: "a \<noteq> 0 \<Longrightarrow> da_direction (delta_of m a) = DeltaIn \<longleftrightarrow> 0 < a"
  by (simp add: delta_of_def)

text \<open>The signed changes of a wallet: tokens in some order, then the native coin.\<close>

definition changes_of :: "(string \<Rightarrow> rat option) \<Rightarrow> confirmed_tx \<Rightarrow> string \<Rightarrow> string list \<Rightarrow> (string \<times> rat) list" where
  "changes_of number c w ms =
     map (\<lambda>m. (m, token_change number c w m)) ms @
     (if sol_change w c = 0 then [] else [(NATIVE_SOL_MINT, of_int (sol_change w c) / 1000000000)])"

text \<open>
  What a row of the history says.  The mints a wallet has a token change in, each once, followed by the
  native coin if its lamports change (a fee it paid put back), are the deltas of its row, in the direction
  of the change and with an amount at most half a millionth off.  A wallet without a change has no row,
  unless it paid for a failed transaction.  A row is labelled sent or received exactly if the transaction
  succeeded and every change goes that way; its label shows the first change.
\<close>
theorem row_reports_changes:
  "\<exists>ms. distinct ms \<and> set ms = {m. token_change number c w m \<noteq> 0} \<and>
    (let cs = changes_of number c w ms in
      (case mapWalletActivity number w c sig slot t of
        None \<Rightarrow> cs = [] \<and> \<not> (tx_failed c \<and> fee_payer_of c = Some w)
      | Some r \<Rightarrow> (0 < length cs \<or> tx_failed c \<and> fee_payer_of c = Some w) \<and>
          aw_walletAddress r = w \<and> aw_signature r = sig \<and> aw_blockTime r = t \<and>
          aw_balanceDeltas r = map (\<lambda>(m, a). delta_of m a) cs \<and>
          (aw_kind r = ActSent \<longleftrightarrow> \<not> tx_failed c \<and> list_all (\<lambda>(m, a). a < 0) cs) \<and>
          (aw_kind r = ActReceived \<longleftrightarrow> \<not> tx_failed c \<and> list_all (\<lambda>(m, a). 0 < a) cs) \<and>
          (aw_kind r = ActFailed \<longleftrightarrow> tx_failed c) \<and>
          aw_amountLabel r = (case cs of [] \<Rightarrow> None
            | (m, a) # _ \<Rightarrow> Some ((if 0 < a then ''+'' else ''-'') @ formatUiAmount a)))) \<and>
    (\<forall>m a. \<bar>decimal_value (da_amountUi (delta_of m a)) - \<bar>a\<bar>\<bar> \<le> 1 / 2000000)"
proof -
  obtain ms where ms: "distinct ms" "set ms = {m. token_change number c w m \<noteq> 0}"
      "token_deltas number w c = map (\<lambda>m. delta_of m (token_change number c w m)) ms"
    by (rule token_deltas_of)
  let ?cs = "changes_of number c w ms"
  have d: "balance_deltas number w c = map (\<lambda>(m, a). delta_of m a) ?cs"
    by (auto simp: balance_deltas_def changes_of_def ms(3) pushDelta_def Let_def)
  have nz: "\<forall>(m, a) \<in> set ?cs. a \<noteq> 0" using ms(2) by (auto simp: changes_of_def)
  then have ins: "(\<exists>x \<in> set (map (\<lambda>(m, a). delta_of m a) ?cs). da_direction x = DeltaIn) \<longleftrightarrow> (\<exists>(m, a) \<in> set ?cs. 0 < a)"
    and outs: "(\<exists>x \<in> set (map (\<lambda>(m, a). delta_of m a) ?cs). da_direction x \<noteq> DeltaIn) \<longleftrightarrow> (\<exists>(m, a) \<in> set ?cs. a < 0)"
    by (force simp: delta_direction)+
  have sent: "(\<exists>(m, a) \<in> set ?cs. a < 0) \<and> \<not> (\<exists>(m, a) \<in> set ?cs. 0 < a) \<longleftrightarrow> ?cs \<noteq> [] \<and> list_all (\<lambda>(m, a). a < 0) ?cs"
    and received: "(\<exists>(m, a) \<in> set ?cs. 0 < a) \<and> \<not> (\<exists>(m, a) \<in> set ?cs. a < 0) \<longleftrightarrow> ?cs \<noteq> [] \<and> list_all (\<lambda>(m, a). 0 < a) ?cs"
    using nz by (cases ?cs; fastforce simp: list_all_iff)+
  have close: "\<forall>m a. \<bar>decimal_value (da_amountUi (delta_of m a)) - \<bar>a\<bar>\<bar> \<le> 1 / 2000000"
    using formatUiAmount_close by (simp add: delta_of_def)
  have kind: "activity_kind_of (tx_failed c) (map (\<lambda>(m, a). delta_of m a) ?cs) =
      (if tx_failed c then ActFailed
       else if ?cs \<noteq> [] \<and> list_all (\<lambda>(m, a). a < 0) ?cs then ActSent
       else if ?cs \<noteq> [] \<and> list_all (\<lambda>(m, a). 0 < a) ?cs then ActReceived else ActOther)"
    unfolding activity_kind_of_def Let_def ins outs sent received by simp
  have both: "\<not> (list_all (\<lambda>(m, a). a < 0) ?cs \<and> list_all (\<lambda>(m, a). 0 < a) ?cs)" if "?cs \<noteq> []"
    using that by (cases ?cs) auto
  have label: "map_option (\<lambda>p. (if da_direction p = DeltaIn then ''+'' else ''-'') @ da_amountUi p)
      (nth_opt (map (\<lambda>(m, a). delta_of m a) ?cs) 0) =
      (case ?cs of [] \<Rightarrow> None | (m, a) # _ \<Rightarrow> Some ((if 0 < a then ''+'' else ''-'') @ formatUiAmount a))"
    by (cases ?cs) (auto simp: delta_of_def split: if_splits)
  have row: "mapWalletActivity number w c sig slot t =
      (if ?cs = [] \<and> \<not> (tx_failed c \<and> fee_payer_of c = Some w) then None
       else mapWalletActivity number w c sig slot t)"
    by (simp add: mapWalletActivity_def Let_def d)
  show ?thesis
  proof (cases "?cs = [] \<and> \<not> (tx_failed c \<and> fee_payer_of c = Some w)")
    case True
    then show ?thesis using ms(1,2) close row by (intro exI [of _ ms]) simp
  next
    case False
    then obtain r where r: "mapWalletActivity number w c sig slot t = Some r" "aw_walletAddress r = w" "aw_signature r = sig"
        "aw_blockTime r = t" "aw_balanceDeltas r = map (\<lambda>(m, a). delta_of m a) ?cs"
        "aw_kind r = activity_kind_of (tx_failed c) (map (\<lambda>(m, a). delta_of m a) ?cs)"
        "aw_amountLabel r = map_option (\<lambda>p. (if da_direction p = DeltaIn then ''+'' else ''-'') @ da_amountUi p)
           (nth_opt (map (\<lambda>(m, a). delta_of m a) ?cs) 0)"
      by (auto simp: mapWalletActivity_def Let_def d)
    have kinds: "aw_kind r = ActSent \<longleftrightarrow> \<not> tx_failed c \<and> list_all (\<lambda>(m, a). a < 0) ?cs"
      "aw_kind r = ActReceived \<longleftrightarrow> \<not> tx_failed c \<and> list_all (\<lambda>(m, a). 0 < a) ?cs"
      "aw_kind r = ActFailed \<longleftrightarrow> tx_failed c"
      using False both unfolding r(6) kind by auto
    show ?thesis
      using ms(1,2) close False kinds r(2-5) r(7)
      by (intro exI [of _ ms]) (simp add: r(1) label Let_def)
  qed
qed

end
