(* ===== verification/ActivityStore.thy ===== *)
theory ActivityStore
  imports WalletActivity AuditLog ApiSession "HOL-Library.Product_Lexorder"
begin

text \<open>
  The table of wallet activity and its pages (\<^verbatim>\<open>workers/api/src/webhooks/wallet-activity-store.ts\<close>, schema
  in \<^verbatim>\<open>d1/migrations/0002_wallet_activity.sql\<close>).  The table is the list of its rows in the order of
  insertion; \<open>INSERT OR IGNORE\<close> drops a row whose wallet and signature are taken.  \<open>JSON.stringify\<close>,
  \<open>JSON.parse\<close> and \<open>Number\<close> on texts are parameters.
\<close>

record store_kit =
  st_stringify :: "js \<Rightarrow> string"
  st_parse :: "string \<Rightarrow> js option"
  st_number :: "string \<Rightarrow> rat option"

record activity_db_row =
  ad_id :: int
  ad_wallet :: string
  ad_signature :: string
  ad_slot :: "int option"
  ad_blockTime :: int
  ad_kind :: string
  ad_title :: string
  ad_amountLabel :: "string option"
  ad_statusLabel :: "string option"
  ad_mint :: "string option"
  ad_deltas :: string
  ad_failed :: int
  ad_detail :: "string option"
  ad_parserVersion :: nat
  ad_createdAt :: int

record activity_table =
  at_rows :: "activity_db_row list"
  at_next :: int

definition empty_activity :: activity_table where
  "empty_activity = \<lparr>at_rows = [], at_next = 1\<rparr>"

subsection \<open>Writing\<close>

definition kind_text :: "activity_kind \<Rightarrow> string" where
  "kind_text k =
     (case k of ActSent \<Rightarrow> ''sent'' | ActReceived \<Rightarrow> ''received'' | ActApproved \<Rightarrow> ''approved'' | ActTopUp \<Rightarrow> ''topUp''
      | ActFailed \<Rightarrow> ''failed'' | ActOther \<Rightarrow> ''other'')"

definition delta_js :: "activity_delta \<Rightarrow> js" where
  "delta_js d =
     JObject [(''mint'', JString (da_mint d)),
       (''direction'', JString (if da_direction d = DeltaIn then ''in'' else ''out'')), (''amountUi'', JString (da_amountUi d))]"

definition detail_js :: "activity_row \<Rightarrow> js option" where
  "detail_js r = map_option (\<lambda>fee. JObject [(''feeLamports'', JNumber (of_int fee))]) (aw_feeLamports r)"

text \<open>The values bound to the statement; the id is given by the table.\<close>

definition activity_binding :: "store_kit \<Rightarrow> int \<Rightarrow> int \<Rightarrow> activity_row \<Rightarrow> activity_db_row" where
  "activity_binding K now i r =
     \<lparr>ad_id = i, ad_wallet = aw_walletAddress r, ad_signature = aw_signature r, ad_slot = aw_slot r,
      ad_blockTime = aw_blockTime r, ad_kind = kind_text (aw_kind r), ad_title = aw_title r,
      ad_amountLabel = aw_amountLabel r, ad_statusLabel = aw_statusLabel r, ad_mint = aw_mint r,
      ad_deltas = st_stringify K (JArray (map delta_js (aw_balanceDeltas r))), ad_failed = (if aw_failed r then 1 else 0),
      ad_detail = map_option (st_stringify K) (detail_js r), ad_parserVersion = aw_parserVersion r, ad_createdAt = now\<rparr>"

definition insert_or_ignore :: "store_kit \<Rightarrow> int \<Rightarrow> activity_row \<Rightarrow> activity_table \<Rightarrow> activity_table" where
  "insert_or_ignore K now r t =
     (if \<exists>q \<in> set (at_rows t). ad_wallet q = aw_walletAddress r \<and> ad_signature q = aw_signature r then t
      else \<lparr>at_rows = at_rows t @ [activity_binding K now (at_next t) r], at_next = at_next t + 1\<rparr>)"

text \<open>The batches; a batch is one transaction, \<open>up\<close> says how many of them the database still takes.\<close>

fun run_batches :: "store_kit \<Rightarrow> int \<Rightarrow> nat \<Rightarrow> activity_row list list \<Rightarrow> activity_table \<Rightarrow> bool \<times> activity_table" where
  "run_batches K now up [] t = (True, t)"
| "run_batches K now up (b # bs) t =
     (case up of
        0 \<Rightarrow> (False, t)
      | Suc up' \<Rightarrow> run_batches K now up' bs (fold (insert_or_ignore K now) b t))"

definition storeWalletActivities ::
  "store_kit \<Rightarrow> int \<Rightarrow> nat \<Rightarrow> activity_row list \<Rightarrow> activity_table \<Rightarrow> bool \<times> activity_table" where
  "storeWalletActivities K now up rs t =
     (if rs = [] then (True, t) else run_batches K now up (chunks D1_BATCH_CHUNK rs) t)"

subsection \<open>Reading\<close>

definition encodeCursor :: "activity_db_row \<Rightarrow> string" where
  "encodeCursor r = int_text (ad_blockTime r) @ '':'' @ int_text (ad_id r)"

text \<open>\<open>Number(undefined)\<close> is not a number; the empty text is no cursor.\<close>

definition decodeCursor :: "store_kit \<Rightarrow> string option \<Rightarrow> (rat \<times> rat) option" where
  "decodeCursor K cursor =
     (if or_else cursor '''' = '''' then None
      else
        let parts = split_on CHR '':'' (or_else cursor '''') in
        case (Option.bind (nth_opt parts 0) (st_number K), Option.bind (nth_opt parts 1) (st_number K)) of
          (Some t, Some i) \<Rightarrow> Some (t, i)
        | _ \<Rightarrow> None)"

definition parseJson :: "store_kit \<Rightarrow> string option \<Rightarrow> js \<Rightarrow> js" where
  "parseJson K raw fallback = (if or_else raw '''' = '''' then fallback else or_else (st_parse K (or_else raw '''')) fallback)"

record activity_item =
  ai_id :: string
  ai_walletAddress :: string
  ai_kind :: string
  ai_title :: string
  ai_amountLabel :: "string option"
  ai_balanceDeltas :: "js list"
  ai_statusLabel :: "string option"
  ai_timestamp :: int
  ai_mint :: "string option"
  ai_detail :: js

definition toItem :: "store_kit \<Rightarrow> activity_db_row \<Rightarrow> activity_item" where
  "toItem K r =
     \<lparr>ai_id = ad_signature r, ai_walletAddress = ad_wallet r, ai_kind = ad_kind r, ai_title = ad_title r,
      ai_amountLabel = ad_amountLabel r,
      ai_balanceDeltas = (case parseJson K (Some (ad_deltas r)) (JArray []) of JArray ds \<Rightarrow> ds | _ \<Rightarrow> []),
      ai_statusLabel = ad_statusLabel r, ai_timestamp = ad_blockTime r, ai_mint = ad_mint r,
      ai_detail = parseJson K (ad_detail r) JNull\<rparr>"

text \<open>\<open>ORDER BY block_time DESC, id DESC\<close>\<close>

definition newest_first :: "activity_db_row list \<Rightarrow> activity_db_row list" where
  "newest_first rs = rev (sort_key (\<lambda>r. (ad_blockTime r, ad_id r)) rs)"

definition after_cursor :: "(rat \<times> rat) option \<Rightarrow> activity_db_row \<Rightarrow> bool" where
  "after_cursor cur r =
     (case cur of
        None \<Rightarrow> True
      | Some (t, i) \<Rightarrow> of_int (ad_blockTime r) < t \<or> of_int (ad_blockTime r) = t \<and> of_int (ad_id r) < i)"

definition clamp_limit :: "rat \<Rightarrow> rat" where
  "clamp_limit limit = min 50 (max 1 limit)"

text \<open>The statement; \<open>None\<close> is the error of the database for a limit that is not an integer.\<close>

definition select_page :: "rat \<Rightarrow> (rat \<times> rat) option \<Rightarrow> string \<Rightarrow> activity_table \<Rightarrow> activity_db_row list option" where
  "select_page limit cur w t =
     (if of_int \<lfloor>limit\<rfloor> \<noteq> limit then None
      else Some (take (nat \<lfloor>limit + 1\<rfloor>)
        (newest_first (filter (\<lambda>r. ad_wallet r = w \<and> after_cursor cur r) (at_rows t)))))"

definition page_rows ::
  "store_kit \<Rightarrow> activity_table \<Rightarrow> string \<Rightarrow> rat \<Rightarrow> string option \<Rightarrow> (activity_db_row list \<times> string option) option" where
  "page_rows K t w limitArg cursor =
     (let limit = clamp_limit limitArg; after = decodeCursor K cursor in
      map_option (\<lambda>rs.
        let hasMore = of_nat (length rs) > limit;
            page = (if hasMore then take (nat \<lfloor>limit\<rfloor>) rs else rs) in
        (page, if hasMore then Some (encodeCursor (last page)) else None)) (select_page limit after w t))"

definition readWalletActivity ::
  "store_kit \<Rightarrow> activity_table \<Rightarrow> string \<Rightarrow> rat \<Rightarrow> string option \<Rightarrow> (activity_item list \<times> string option) option" where
  "readWalletActivity K t w limit cursor =
     map_option (\<lambda>(page, next_cursor). (map (toItem K) page, next_cursor)) (page_rows K t w limit cursor)"

subsection \<open>The table\<close>

definition table_ok :: "activity_table \<Rightarrow> bool" where
  "table_ok t \<longleftrightarrow> distinct (map ad_id (at_rows t)) \<and> (\<forall>r \<in> set (at_rows t). ad_id r < at_next t) \<and>
     distinct (map (\<lambda>r. (ad_wallet r, ad_signature r)) (at_rows t))"

definition extends :: "activity_table \<Rightarrow> activity_table \<Rightarrow> bool" where
  "extends t t' \<longleftrightarrow> set (at_rows t) \<subseteq> set (at_rows t')"

lemma insert_ok: "table_ok t \<Longrightarrow> table_ok (insert_or_ignore K now r t) \<and> extends t (insert_or_ignore K now r t)"
  by (auto simp: table_ok_def extends_def insert_or_ignore_def activity_binding_def)

lemma insert_all_ok: "table_ok t \<Longrightarrow> table_ok (fold (insert_or_ignore K now) b t) \<and> extends t (fold (insert_or_ignore K now) b t)"
proof (induction b arbitrary: t)
  case (Cons r b)
  note i = insert_ok [OF Cons.prems, of K now r]
  with Cons.IH [of "insert_or_ignore K now r t"] show ?case by (auto simp: extends_def)
qed (simp add: extends_def)

lemma empty_ok: "table_ok empty_activity"
  by (simp add: table_ok_def empty_activity_def)

text \<open>The states of the table at a series of requests, rows being added before each.\<close>

fun states_after :: "store_kit \<Rightarrow> activity_table \<Rightarrow> (int \<times> activity_row list) list \<Rightarrow> activity_table list" where
  "states_after K t [] = []"
| "states_after K t ((now, b) # bs) =
     (let t' = fold (insert_or_ignore K now) b t in t' # states_after K t' bs)"

lemma states_ok:
  "table_ok t \<Longrightarrow> (\<forall>s \<in> set (states_after K t bs). table_ok s \<and> extends t s) \<and> sorted_wrt extends (states_after K t bs)"
proof (induction bs arbitrary: t)
  case (Cons b bs)
  obtain now rs where b: "b = (now, rs)" by force
  note i = insert_all_ok [OF Cons.prems, of K now rs]
  with Cons.IH [of "fold (insert_or_ignore K now) rs t"] show ?case by (auto simp: b Let_def extends_def)
qed simp

subsection \<open>Pages\<close>

definition row_key :: "activity_db_row \<Rightarrow> int \<times> int" where
  "row_key r = (ad_blockTime r, ad_id r)"

definition older :: "activity_db_row option \<Rightarrow> activity_db_row \<Rightarrow> bool" where
  "older cur r \<longleftrightarrow> (case cur of None \<Rightarrow> True | Some p \<Rightarrow> row_key r < row_key p)"

abbreviation newer_than :: "activity_db_row \<Rightarrow> activity_db_row \<Rightarrow> bool" where
  "newer_than p q \<equiv> row_key q < row_key p"

text \<open>
  \<open>Number\<close> reads the decimal text of an integer, as a rational.  The real one is exact up to 2 to the power 53, which is
  beyond every block time and row number there can be.
\<close>

definition reads_ints :: "store_kit \<Rightarrow> bool" where
  "reads_ints K \<longleftrightarrow> (\<forall>i. st_number K (int_text i) = Some (of_int i))"

lemma int_text_no_colon: "CHR '':'' \<notin> set (int_text i)"
proof -
  have "CHR '':'' \<notin> set (nat_text n)" for n
    using nat_text_digits [of n] by (auto simp: list_all_iff is_digit_def)
  then show ?thesis by (simp add: int_text_def)
qed

lemma decode_encode:
  assumes "reads_ints K"
  shows "decodeCursor K (Some (encodeCursor r)) = Some (of_int (ad_blockTime r), of_int (ad_id r))"
proof -
  have "split_on CHR '':'' (encodeCursor r) = [int_text (ad_blockTime r), int_text (ad_id r)]"
    by (simp add: encodeCursor_def split_on_append int_text_no_colon split_on_none)
  moreover have "encodeCursor r \<noteq> ''''" by (simp add: encodeCursor_def)
  ultimately show ?thesis using assms by (simp add: decodeCursor_def reads_ints_def)
qed

lemma after_decoded:
  "reads_ints K \<Longrightarrow> after_cursor (decodeCursor K (map_option encodeCursor cur)) = older cur"
  by (cases cur; rule ext)
    (auto simp: after_cursor_def older_def decode_encode row_key_def decodeCursor_def [of K None] simp flip: of_int_eq_iff)

lemma newest_first_sorted:
  assumes "distinct (map ad_id rs)"
  shows "sorted_wrt newer_than (newest_first rs)" "set (newest_first rs) = set rs" "distinct (newest_first rs)"
proof -
  let ?s = "sort_key row_key rs"
  have nf: "newest_first rs = rev ?s" by (simp add: newest_first_def row_key_def [abs_def])
  have "inj_on row_key (set rs)" using assms by (auto simp: inj_on_def row_key_def distinct_map)
  moreover have "distinct rs" using assms by (simp add: distinct_map)
  ultimately have "distinct (map row_key ?s)" by (simp add: distinct_map)
  then have "sorted_wrt (<) (map row_key ?s)" by (simp add: strict_sorted_iff)
  then show "sorted_wrt newer_than (newest_first rs)" by (simp add: nf sorted_wrt_rev sorted_wrt_map)
  show "set (newest_first rs) = set rs" "distinct (newest_first rs)" using \<open>distinct rs\<close> by (simp_all add: nf)
qed

text \<open>What is left of the history of a wallet after a row.\<close>

definition rest_of :: "activity_table \<Rightarrow> string \<Rightarrow> activity_db_row option \<Rightarrow> activity_db_row list" where
  "rest_of t w cur = newest_first (filter (\<lambda>r. ad_wallet r = w \<and> older cur r) (at_rows t))"

lemma rest_of_props:
  assumes "table_ok t"
  shows "sorted_wrt newer_than (rest_of t w cur)"
    "set (rest_of t w cur) = {r \<in> set (at_rows t). ad_wallet r = w \<and> older cur r}"
  using newest_first_sorted [of "filter (\<lambda>r. ad_wallet r = w \<and> older cur r) (at_rows t)"] assms
  by (auto simp: rest_of_def table_ok_def distinct_map_filter)

lemma clamp_range: "1 \<le> clamp_limit l" "clamp_limit l \<le> 50"
  by (auto simp: clamp_limit_def)

lemma page_rows_rest:
  assumes "reads_ints K" "of_int \<lfloor>clamp_limit l\<rfloor> = clamp_limit l"
  defines "n \<equiv> nat \<lfloor>clamp_limit l\<rfloor>"
  shows "page_rows K t w l (map_option encodeCursor cur) =
    (let rs = rest_of t w cur in
     Some (take n rs, if n < length rs then Some (encodeCursor (last (take n rs))) else None))"
proof -
  have n: "clamp_limit l = of_nat n" "0 < n"
    using assms(2) clamp_range(1) [of l] unfolding n_def by linarith+
  have m: "nat (\<lfloor>clamp_limit l\<rfloor> + 1) = Suc n" using clamp_range(1) [of l] unfolding n_def by linarith
  have sel: "select_page (clamp_limit l) (decodeCursor K (map_option encodeCursor cur)) w t = Some (take (Suc n) (rest_of t w cur))"
    using assms(2) by (simp add: select_page_def m after_decoded [OF assms(1)] rest_of_def)
  have more: "of_nat (length (take (Suc n) rs)) > clamp_limit l \<longleftrightarrow> n < length rs" for rs :: "activity_db_row list"
    by (simp add: n(1) min_def)
  show ?thesis
    by (simp add: page_rows_def Let_def sel more take_take min_def n_def [symmetric] del: length_take)
qed

fun walk ::
  "store_kit \<Rightarrow> string \<Rightarrow> rat \<Rightarrow> activity_table list \<Rightarrow> string option \<Rightarrow> (activity_db_row list \<times> bool) option" where
  "walk K w l [] cursor = Some ([], False)"
| "walk K w l (t # ts) cursor =
     (case page_rows K t w l cursor of
        None \<Rightarrow> None
      | Some (page, None) \<Rightarrow> Some (page, True)
      | Some (page, Some c) \<Rightarrow> map_option (\<lambda>(rest, fin). (page @ rest, fin)) (walk K w l ts (Some c)))"

lemma walk_covers:
  assumes K: "reads_ints K" "of_int \<lfloor>clamp_limit l\<rfloor> = clamp_limit l"
    and "\<forall>t \<in> set ts. table_ok t" "sorted_wrt extends ts"
  shows "\<exists>rows fin. walk K w l ts (map_option encodeCursor cur) = Some (rows, fin) \<and>
    sorted_wrt newer_than rows \<and>
    (\<forall>r \<in> set rows. older cur r \<and> ad_wallet r = w \<and> (\<exists>t \<in> set ts. r \<in> set (at_rows t))) \<and>
    (fin \<longrightarrow> (\<forall>r \<in> set (at_rows (hd ts)). ad_wallet r = w \<longrightarrow> older cur r \<longrightarrow> r \<in> set rows)) \<and>
    (\<not> fin \<longrightarrow> length ts \<le> length rows)"
  using assms(3,4)
proof (induction ts arbitrary: cur)
  case (Cons t ts)
  define n where "n = nat \<lfloor>clamp_limit l\<rfloor>"
  let ?rs = "rest_of t w cur"
  have n0: "0 < n" using clamp_range(1) [of l] unfolding n_def by linarith
  note rp = rest_of_props [of t w cur]
  have ok: "table_ok t" using Cons.prems(1) by simp
  have page: "page_rows K t w l (map_option encodeCursor cur) =
      Some (take n ?rs, if n < length ?rs then Some (encodeCursor (last (take n ?rs))) else None)"
    using page_rows_rest [OF K, of t w cur] by (simp add: n_def Let_def)
  show ?case
  proof (cases "n < length ?rs")
    case False
    then show ?thesis using page rp [OF ok] by auto
  next
    case True
    define p where "p = last (take n ?rs)"
    have ne: "take n ?rs \<noteq> []" using True n0 by auto
    from Cons.IH [of "Some p"] Cons.prems obtain rows fin where w:
        "walk K w l ts (Some (encodeCursor p)) = Some (rows, fin)" "sorted_wrt newer_than rows"
        "\<forall>r \<in> set rows. older (Some p) r \<and> ad_wallet r = w \<and> (\<exists>t \<in> set ts. r \<in> set (at_rows t))"
        "fin \<longrightarrow> (\<forall>r \<in> set (at_rows (hd ts)). ad_wallet r = w \<longrightarrow> older (Some p) r \<longrightarrow> r \<in> set rows)"
        "\<not> fin \<longrightarrow> length ts \<le> length rows"
      by auto
    have pg: "butlast (take n ?rs) @ [p] = take n ?rs" using ne by (simp add: p_def)
    have order: "sorted_wrt newer_than ((butlast (take n ?rs) @ [p]) @ drop n ?rs)"
      using rp(1) [OF ok] by (simp only: pg append_take_drop_id)
    have above: "\<forall>q \<in> set (take n ?rs). row_key p \<le> row_key q"
      using order by (subst pg [symmetric]) (auto simp: sorted_wrt_append less_imp_le)
    have below: "\<forall>q \<in> set (drop n ?rs). older (Some p) q"
      using order by (auto simp: sorted_wrt_append older_def)
    have pin: "p \<in> set ?rs" using ne by (metis p_def last_in_set in_set_takeD)
    have trans: "older cur r" if "older (Some p) r" for r
    proof (cases cur)
      case (Some q)
      have "older cur p" using pin unfolding rp(2) [OF ok] by simp
      then have "row_key p < row_key q" by (simp add: older_def Some)
      moreover have "row_key r < row_key p" using that by (simp add: older_def)
      ultimately show ?thesis unfolding older_def Some option.case by (rule order.strict_trans [rotated])
    qed (simp add: older_def)
    have all: "r \<in> set (take n ?rs @ rows)" if "fin" "r \<in> set (at_rows t)" "ad_wallet r = w" "older cur r" for r
    proof (cases "r \<in> set (take n ?rs)")
      case False
      have "r \<in> set ?rs" using that rp(2) [OF ok] by simp
      with False below have o: "older (Some p) r" by (metis Un_iff append_take_drop_id set_append)
      have "ts \<noteq> []" using w(1) that(1) by auto
      then have "hd ts \<in> set ts" by simp
      then have "r \<in> set (at_rows (hd ts))" using Cons.prems(2) that(2) by (auto simp: extends_def)
      with w(4) that o show ?thesis by simp
    qed simp
    have sorted: "sorted_wrt newer_than (take n ?rs @ rows)"
    proof -
      have "sorted_wrt newer_than (take n ?rs)" using rp(1) [OF ok] by (rule sorted_wrt_take)
      moreover have "\<forall>q \<in> set (take n ?rs). \<forall>r \<in> set rows. newer_than q r"
        using above w(3) by (auto simp: older_def dest: order.strict_trans2)
      ultimately show ?thesis using w(2) by (simp add: sorted_wrt_append)
    qed
    have "walk K w l (t # ts) (map_option encodeCursor cur) = Some (take n ?rs @ rows, fin)"
      using w(1) True by (simp add: page p_def)
    moreover have "\<forall>r \<in> set (take n ?rs @ rows). older cur r \<and> ad_wallet r = w \<and> (\<exists>t \<in> set (t # ts). r \<in> set (at_rows t))"
      using w(3) trans rp(2) [OF ok] by (auto dest: in_set_takeD)
    moreover have "\<not> fin \<longrightarrow> length (t # ts) \<le> length (take n ?rs @ rows)"
      using w(5) True n0 by auto
    ultimately show ?thesis using sorted all by auto
  qed
next
  case Nil
  show ?case by (intro exI [of _ "[]"] exI [of _ False]) simp
qed

text \<open>
  C40: Pages cover the history.  A client that follows \<open>nextCursor\<close> from the first page, with a limit that
  is an integer after clamping, while rows are added between its requests, gets the rows of the wallet
  strictly from new to old, so none twice, and when it reaches a page without a cursor it has every row
  that was stored when it started.  It gets there within as many requests as there are rows, plus one.
\<close>
theorem pages_cover_history:
  assumes "reads_ints K" "of_int \<lfloor>clamp_limit l\<rfloor> = clamp_limit l" "batches \<noteq> []"
  shows "let ts = states_after K empty_activity batches; stored = (\<lambda>t. filter (\<lambda>r. ad_wallet r = w) (at_rows t)) in
    \<exists>rows fin. walk K w l ts None = Some (rows, fin) \<and> sorted_wrt newer_than rows \<and> distinct rows \<and>
      set rows \<subseteq> set (stored (last ts)) \<and> (fin \<longrightarrow> set (stored (hd ts)) \<subseteq> set rows) \<and>
      (length (stored (last ts)) < length ts \<longrightarrow> fin)"
proof -
  let ?ts = "states_after K empty_activity batches"
  note ok = states_ok [OF empty_ok, of K batches]
  have ne: "?ts \<noteq> []" using assms(3) by (cases batches) (auto simp: Let_def)
  obtain rows fin where w: "walk K w l ?ts None = Some (rows, fin)" "sorted_wrt newer_than rows"
      "\<forall>r \<in> set rows. ad_wallet r = w \<and> (\<exists>t \<in> set ?ts. r \<in> set (at_rows t))"
      "fin \<longrightarrow> (\<forall>r \<in> set (at_rows (hd ?ts)). ad_wallet r = w \<longrightarrow> r \<in> set rows)" "\<not> fin \<longrightarrow> length ?ts \<le> length rows"
    using walk_covers [OF assms(1,2), of ?ts w None] ok by (auto simp: older_def)
  have last: "set (at_rows t) \<subseteq> set (at_rows (last ?ts))" if "t \<in> set ?ts" for t
  proof -
    have "sorted_wrt extends (butlast ?ts @ [last ?ts])" "t \<in> set (butlast ?ts @ [last ?ts])" using ok ne that by simp_all
    then show ?thesis by (auto simp: sorted_wrt_append extends_def)
  qed
  have dist: "distinct rows" using w(2) by (induction rows) auto
  have sub: "set rows \<subseteq> set (filter (\<lambda>r. ad_wallet r = w) (at_rows (last ?ts)))" using w(3) last by auto
  have "length rows \<le> length (filter (\<lambda>r. ad_wallet r = w) (at_rows (last ?ts)))"
    using card_mono [OF _ sub] card_length [of "filter (\<lambda>r. ad_wallet r = w) (at_rows (last ?ts))"]
    by (simp add: distinct_card [OF dist, symmetric])
  with w(5) have fin: "fin" if "length (filter (\<lambda>r. ad_wallet r = w) (at_rows (last ?ts))) < length ?ts"
    using that by fastforce
  have first: "fin \<longrightarrow> set (filter (\<lambda>r. ad_wallet r = w) (at_rows (hd ?ts))) \<subseteq> set rows" using w(4) by auto
  have ends: "length (filter (\<lambda>r. ad_wallet r = w) (at_rows (last ?ts))) < length ?ts \<longrightarrow> fin" using fin by blast
  show ?thesis unfolding Let_def using w(1) w(2) dist sub first ends by blast
qed

definition sample_activity :: "string \<Rightarrow> int \<Rightarrow> activity_row" where
  "sample_activity sig t =
     \<lparr>aw_walletAddress = ''wallet'', aw_signature = sig, aw_slot = None, aw_blockTime = t, aw_kind = ActOther,
      aw_title = ''Transaction'', aw_amountLabel = None, aw_statusLabel = None, aw_mint = None, aw_balanceDeltas = [],
      aw_failed = False, aw_feeLamports = None, aw_parserVersion = 1\<rparr>"

definition sample_store_kit :: store_kit where
  "sample_store_kit =
     \<lparr>st_stringify = (\<lambda>_. ''json''), st_parse = (\<lambda>_. None), st_number = (\<lambda>s. Some (decimal_value s))\<rparr>"

lemma sample_reads_ints: "reads_ints sample_store_kit"
  by (simp add: reads_ints_def sample_store_kit_def decimal_value_int_text)

text \<open>Three rows, of which two are stored at first, in pages of one row.\<close>

definition sample_batches :: "(int \<times> activity_row list) list" where
  "sample_batches =
     [(1, [sample_activity ''a'' 5, sample_activity ''b'' 7]), (2, [sample_activity ''c'' 6]), (3, []), (4, [])]"

theorem pages_cover_history_witness:
  "\<exists>rows. walk sample_store_kit ''wallet'' 1 (states_after sample_store_kit empty_activity sample_batches) None = Some (rows, True) \<and>
     set (map ad_signature rows) \<supseteq> {''a'', ''b''} \<and> sorted_wrt newer_than rows"
proof -
  let ?ts = "states_after sample_store_kit empty_activity sample_batches"
  have l: "of_int \<lfloor>clamp_limit 1\<rfloor> = clamp_limit 1" by (simp add: clamp_limit_def)
  have ts: "length (filter (\<lambda>r. ad_wallet r = ''wallet'') (at_rows (last ?ts))) = 3" "length ?ts = 4"
      "ad_signature ` set (filter (\<lambda>r. ad_wallet r = ''wallet'') (at_rows (hd ?ts))) = {''a'', ''b''}"
    by code_simp+
  have b: "sample_batches \<noteq> []" by (simp add: sample_batches_def)
  note h = pages_cover_history [OF sample_reads_ints l b, of "''wallet''", unfolded Let_def ts(1,2)]
  obtain rows fin where
      r: "walk sample_store_kit ''wallet'' 1 ?ts None = Some (rows, fin)" "sorted_wrt newer_than rows"
      "fin \<longrightarrow> set (filter (\<lambda>r. ad_wallet r = ''wallet'') (at_rows (hd ?ts))) \<subseteq> set rows" "fin"
    using h by auto
  have "ad_signature ` set (filter (\<lambda>r. ad_wallet r = ''wallet'') (at_rows (hd ?ts))) \<subseteq> ad_signature ` set rows"
    using r(3,4) by (intro image_mono) simp
  then show ?thesis using r unfolding ts(3) by (intro exI [of _ rows]) simp
qed

end
