(* ===== verification/WalletQueue.thy ===== *)
theory WalletQueue
  imports FeeEvents ActivityStore "HOL-Library.Multiset"
begin

text \<open>
  The webhook that takes in transactions, the queue behind it and the route that serves the history
  (\<^verbatim>\<open>workers/api/src/webhooks/transactions.ts\<close>, \<^verbatim>\<open>wallet-tx-queue.ts\<close>), over the table of activity and
  the token signers.  \<open>wk_read\<close> reads a payload at its declared type; it gives \<open>None\<close> where the code
  throws on it.  The queue itself retries and gives up as \<^verbatim>\<open>workers/api/wrangler.jsonc\<close> configures it.  \<open>wk_walletPda\<close> is the address \<open>findWalletPda\<close> derives.  Log lines are left out.
\<close>

record webhook_kit =
  wk_api :: api_kit
  wk_parse :: "string \<Rightarrow> js option"
  wk_read :: "js \<Rightarrow> subscribe_result option"
  wk_isAddress :: "string \<Rightarrow> bool"
  wk_walletPda :: "string \<Rightarrow> string option"
  wk_store :: store_kit
  wk_fees :: fee_kit

record webhook_env =
  we_secret :: "string option"
  we_session :: "string option"
  we_fees :: fee_env

subsection \<open>The signature of a delivery\<close>

definition MAX_SKEW_SECONDS :: rat where "MAX_SKEW_SECONDS = 300"

fun hex_pairs :: "string \<Rightarrow> bytes option" where
  "hex_pairs (a # b # rest) =
     (case parse_int hex_val 16 [a, b] of
        None \<Rightarrow> None
      | Some n \<Rightarrow> map_option (\<lambda>bs. word_of_int n # bs) (hex_pairs rest))"
| "hex_pairs _ = Some []"

definition hexToBytes :: "string \<Rightarrow> bytes option" where
  "hexToBytes hex =
     (let clean = to_lower (trim hex) in
      if length clean = 0 \<or> length clean mod 2 \<noteq> 0 then None else hex_pairs clean)"

definition verifySignature ::
  "api_kit \<Rightarrow> string option \<Rightarrow> nat \<Rightarrow> string \<Rightarrow> string option \<Rightarrow> string option \<Rightarrow> bool" where
  "verifySignature K webhookSecret now rawBody stamp supplied =
     (let secret = trim (or_else webhookSecret ''''); t = or_else stamp ''''; s = or_else supplied '''' in
      if secret = '''' \<or> t = '''' \<or> s = '''' then False
      else case ak_number K t of
        None \<Rightarrow> False
      | Some ts \<Rightarrow>
          if \<bar>of_nat now / 1000 - ts\<bar> > MAX_SKEW_SECONDS then False
          else case hexToBytes (if starts_with ''sha256='' s then drop 7 s else s) of
            None \<Rightarrow> False
          | Some suppliedBytes \<Rightarrow> timingSafeEqual (hmacSha256 K secret (t @ ''.'' @ rawBody)) suppliedBytes)"

subsection \<open>The webhook\<close>

record webhook_request =
  wr_body :: string
  wr_timestamp :: "string option"
  wr_signature :: "string option"
  wr_idempotencyKey :: "string option"

record wallet_tx_message =
  wm_id :: js
  wm_signature :: string
  wm_slot :: js
  wm_receivedAt :: rat
  wm_result :: js

definition webhook_reject :: "webhook_env \<Rightarrow> webhook_request \<Rightarrow> audit_entry" where
  "webhook_reject E r =
     (blank_entry WebhookReject)
       \<lparr>ae_ok := Some False, ae_actor := Some ActorSystem, ae_code := Some ''invalid_signature'',
        ae_detail := Some [(''hasTimestamp'', JBool (or_else (wr_timestamp r) '''' \<noteq> '''')),
          (''hasSignature'', JBool (or_else (wr_signature r) '''' \<noteq> '''')),
          (''secretConfigured'', JBool (trim (or_else (we_secret E) '''') \<noteq> ''''))]\<rparr>"

definition text_or_empty :: "js \<Rightarrow> string" where
  "text_or_empty v = (case v of JString s \<Rightarrow> s | _ \<Rightarrow> '''')"

definition webhook_message :: "webhook_request \<Rightarrow> nat \<Rightarrow> (string \<times> js) list \<Rightarrow> wallet_tx_message" where
  "webhook_message r now ps =
     (let signature = text_or_empty (jget ps ''signature'') in
      \<lparr>wm_id = (case wr_idempotencyKey r of
         Some k \<Rightarrow> JString k
       | None \<Rightarrow> if jget ps ''id'' \<in> {JUndefined, JNull} then JString signature else jget ps ''id''),
       wm_signature = signature,
       wm_slot = (case jget ps ''slot'' of JNumber n \<Rightarrow> JNumber n | _ \<Rightarrow> JNull),
       wm_receivedAt = (case jget ps ''receivedAt'' of JNumber n \<Rightarrow> n | _ \<Rightarrow> of_nat now / 1000),
       wm_result = jget ps ''result''\<rparr>)"

text \<open>The reply and the message put on the queue; \<open>sent\<close> tells whether the queue takes it.\<close>

definition post_webhook ::
  "webhook_kit \<Rightarrow> webhook_env \<Rightarrow> bool \<Rightarrow> nat \<Rightarrow> webhook_request \<Rightarrow> reply \<times> wallet_tx_message option" where
  "post_webhook K E sent now r =
     (if \<not> verifySignature (wk_api K) (we_secret E) now (wr_body r) (wr_timestamp r) (wr_signature r)
      then ((json [(''error'', JString ''Unauthorized'')] 401)\<lparr>rp_audit := [webhook_reject E r]\<rparr>, None)
      else case wk_parse K (wr_body r) of
        None \<Rightarrow> (json [(''error'', JString ''Invalid JSON'')] 400, None)
      | Some (JObject ps) \<Rightarrow>
          if falsy (jget ps ''result'') then (json [(''ok'', JBool True), (''enqueued'', JBool False)] 200, None)
          else if \<not> sent then (json [(''error'', JString ''Enqueue failed'')] 500, None)
          else (json [(''ok'', JBool True), (''enqueued'', JBool True)] 200, Some (webhook_message r now ps))
      | Some _ \<Rightarrow> (json [(''ok'', JBool True), (''enqueued'', JBool False)] 200, None))"

subsection \<open>The consumer of the queue\<close>

definition is_object :: "js \<Rightarrow> bool" where
  "is_object v = (case v of JObject _ \<Rightarrow> True | JArray _ \<Rightarrow> True | _ \<Rightarrow> False)"

text \<open>A message is well-formed or dropped; a well-formed one is taken unless reading it throws.\<close>

definition take_message :: "webhook_kit \<Rightarrow> nat \<Rightarrow> js \<Rightarrow> (activity_row list \<times> subscribe_result) option" where
  "take_message K now bdy =
     (case bdy of
        JObject ps \<Rightarrow>
          if \<not> is_object (jget ps ''result'') then None
          else
            let receivedAt = (case jget ps ''receivedAt'' of JNumber n \<Rightarrow> n | _ \<Rightarrow> of_nat now / 1000) in
            map_option (\<lambda>result. (activityRowsFromResult (st_number (wk_store K)) result receivedAt, result))
              (wk_read K (jget ps ''result''))
      | _ \<Rightarrow> None)"

record wallet_world =
  ww_table :: activity_table
  ww_signers :: signers

text \<open>What goes wrong in one attempt: how many batches the database takes, and the links to the signers.\<close>

record attempt =
  at_now :: nat
  at_db :: nat
  at_links :: "signer_link list"

fun process_fees ::
  "fee_kit \<Rightarrow> fee_env \<Rightarrow> signer_link list \<Rightarrow> int \<Rightarrow> subscribe_result list \<Rightarrow> signers \<Rightarrow> bool \<times> signers" where
  "process_fees K E links now [] S = (True, S)"
| "process_fees K E links now (r # rs) S =
     (case processSubscribeFeeTx K E [case links of l # _ \<Rightarrow> l | [] \<Rightarrow> Delivered] now r S of
        (Inl _, S1) \<Rightarrow> (False, S1)
      | (Inr _, S1) \<Rightarrow> process_fees K E (tl links) now rs S1)"

datatype batch_end = AckAll | RetryAll

text \<open>One run of the consumer: how it ends and the bodies it has acknowledged as unusable.\<close>

definition processWalletTxBatch ::
  "webhook_kit \<Rightarrow> webhook_env \<Rightarrow> attempt \<Rightarrow> js list \<Rightarrow> wallet_world \<Rightarrow> batch_end \<times> js list \<times> wallet_world" where
  "processWalletTxBatch K E a bodies W =
     (let dropped = filter (\<lambda>b. take_message K (at_now a) b = None) bodies;
          taken = List.map_filter (take_message K (at_now a)) bodies;
          rows = concat (map fst taken);
          feeResults = map snd taken in
      if rows = [] \<and> feeResults = [] then (AckAll, dropped, W)
      else
        case storeWalletActivities (wk_store K) (int (at_now a)) (at_db a) rows (ww_table W) of
          (False, t1) \<Rightarrow> (RetryAll, dropped, W\<lparr>ww_table := t1\<rparr>)
        | (True, t1) \<Rightarrow>
            (case process_fees (wk_fees K) (we_fees E) (at_links a) (int (at_now a)) feeResults (ww_signers W) of
               (fees_ok, S1) \<Rightarrow>
                 (if fees_ok then AckAll else RetryAll, dropped, \<lparr>ww_table = t1, ww_signers = S1\<rparr>)))"

text \<open>The bodies the queue delivers again.\<close>

definition redelivered :: "batch_end \<times> js list \<times> wallet_world \<Rightarrow> js list \<Rightarrow> js list" where
  "redelivered res bodies =
     (case res of (AckAll, _, _) \<Rightarrow> [] | (RetryAll, dropped, _) \<Rightarrow> filter (\<lambda>b. b \<notin> set dropped) bodies)"

subsection \<open>The history of a wallet\<close>

record history_request =
  hr_address :: string
  hr_cookies :: jar
  hr_limit :: "string option"
  hr_cursor :: "string option"

definition item_js :: "activity_item \<Rightarrow> js" where
  "item_js i =
     (let text_js = (\<lambda>v. case v of Some s \<Rightarrow> JString s | None \<Rightarrow> JNull) in
      JObject [(''id'', JString (ai_id i)), (''walletAddress'', JString (ai_walletAddress i)), (''kind'', JString (ai_kind i)),
        (''title'', JString (ai_title i)), (''subtitle'', JNull), (''amountLabel'', text_js (ai_amountLabel i)),
        (''balanceDeltas'', JArray (ai_balanceDeltas i)), (''statusLabel'', text_js (ai_statusLabel i)),
        (''timestamp'', JNumber (of_int (ai_timestamp i))), (''signature'', JString (ai_id i)), (''mint'', text_js (ai_mint i)),
        (''detail'', ai_detail i), (''source'', JString ''local'')])"

text \<open>\<open>Number(undefined)\<close> is not a number.  The error of the database, for a fractional limit, is \<open>None\<close>.\<close>

definition get_activity :: "webhook_kit \<Rightarrow> webhook_env \<Rightarrow> nat \<Rightarrow> history_request \<Rightarrow> activity_table \<Rightarrow> reply option" where
  "get_activity K E now r t =
     (case tryParseAddress (wk_isAddress K) (hr_address r) of
        None \<Rightarrow> Some (json [(''error'', JString ''Invalid wallet address'')] 400)
      | Some wallet \<Rightarrow>
     (case admit_token (wk_api K) (we_session E) (hr_cookies r) now of
        None \<Rightarrow> Some (json_error ''Sign in or unlock this item to continue.'' ''session_required'' 401)
      | Some admitToken \<Rightarrow>
          if admitToken = '''' then Some (json_error ''Sign in or unlock this item to continue.'' ''session_required'' 401)
          else
     (case wk_walletPda K admitToken of
        None \<Rightarrow> Some (json_error ''Could not resolve wallet for this session'' ''wallet_resolve_failed'' 502)
      | Some expectedWallet \<Rightarrow>
          if expectedWallet \<noteq> wallet
          then Some (json_error ''Unlock this item again to view its activity.'' ''session_required'' 403)
          else
            let limitParam = Option.bind (hr_limit r) (ak_number (wk_api K));
                limit = (case limitParam of Some n \<Rightarrow> if n > 0 then n else 20 | None \<Rightarrow> 20) in
            map_option (\<lambda>(items, nextCursor).
              json [(''items'', JArray (map item_js items)),
                (''nextCursor'', case nextCursor of Some c \<Rightarrow> JString c | None \<Rightarrow> JNull)] 200)
              (readWalletActivity (wk_store K) t wallet limit (hr_cursor r)))))"

subsection \<open>Rows of a message\<close>

text \<open>What a row is stored under.\<close>

definition row_of :: "activity_row \<Rightarrow> string \<times> string" where
  "row_of r = (aw_walletAddress r, aw_signature r)"

definition stored :: "activity_table \<Rightarrow> (string \<times> string) set" where
  "stored t = (\<lambda>r. (ad_wallet r, ad_signature r)) ` set (at_rows t)"

lemma mapWalletActivity_time:
  "map_option row_of (mapWalletActivity N w c sig slot t) = map_option row_of (mapWalletActivity N w c sig slot t')"
  by (simp add: mapWalletActivity_def Let_def row_of_def)

lemma map_filter_cong_option:
  "(\<And>x. map_option f (g x) = map_option f (h x)) \<Longrightarrow> map f (List.map_filter g xs) = map f (List.map_filter h xs)"
proof (induction xs)
  case (Cons x xs)
  from Cons.prems [of x] Cons.IH [OF Cons.prems] show ?case
    by (cases "g x"; cases "h x") (auto simp: List.map_filter_simps)
qed (simp add: List.map_filter_simps)

lemma rows_time:
  "map row_of (activityRowsFromResult N r a) = map row_of (activityRowsFromResult N r b)"
  by (auto simp: activityRowsFromResult_def Let_def mapWalletActivity_time split: option.split
      intro!: map_filter_cong_option)

text \<open>The rows and events a message stands for; neither depends on when it is read.\<close>

definition message_result :: "webhook_kit \<Rightarrow> js \<Rightarrow> subscribe_result option" where
  "message_result K b = map_option snd (take_message K 0 b)"

definition message_rows :: "webhook_kit \<Rightarrow> js \<Rightarrow> (string \<times> string) list" where
  "message_rows K b = (case take_message K 0 b of Some (rs, _) \<Rightarrow> map row_of rs | None \<Rightarrow> [])"

lemma take_message_time:
  "map_option (\<lambda>(rs, r). (map row_of rs, r)) (take_message K now b) =
     map_option (\<lambda>(rs, r). (map row_of rs, r)) (take_message K 0 b)"
proof (cases b)
  case (JObject ps)
  show ?thesis
    by (cases "wk_read K (jget ps ''result'')")
      (simp_all add: JObject take_message_def Let_def rows_time [of _ _ "case jget ps ''receivedAt'' of JNumber n \<Rightarrow> n | _ \<Rightarrow> of_nat now / 1000"
        "case jget ps ''receivedAt'' of JNumber n \<Rightarrow> n | _ \<Rightarrow> of_nat 0 / 1000"])
qed (simp_all add: take_message_def)

lemma take_message_parts:
  "take_message K now b = None \<longleftrightarrow> message_result K b = None"
  "take_message K now b = Some (rs, r) \<Longrightarrow> message_result K b = Some r \<and> message_rows K b = map row_of rs"
  using take_message_time [of K now b]
  by (cases "take_message K 0 b"; force simp: message_result_def message_rows_def)+

subsection \<open>Writing rows\<close>

lemma insert_stored: "stored (insert_or_ignore K now r t) = insert (row_of r) (stored t)"
  by (force simp: stored_def insert_or_ignore_def row_of_def activity_binding_def)

lemma insert_all_stored: "stored (fold (insert_or_ignore K now) rs t) = row_of ` set rs \<union> stored t"
  by (induction rs arbitrary: t) (auto simp: insert_stored)

lemma run_batches_props:
  assumes "run_batches K now up bs t = (fin, t')" "table_ok t"
  shows "table_ok t' \<and> stored t \<subseteq> stored t' \<and> (fin \<longrightarrow> row_of ` set (concat bs) \<subseteq> stored t')"
  using assms
proof (induction bs arbitrary: up t)
  case (Cons b bs)
  show ?case
  proof (cases up)
    case (Suc up')
    with Cons.prems have "run_batches K now up' bs (fold (insert_or_ignore K now) b t) = (fin, t')" by simp
    from Cons.IH [OF this] insert_all_ok [OF Cons.prems(2), of K now b] insert_all_stored [of K now b t]
    show ?thesis by (simp add: image_Un del: set_concat)
  qed (use Cons.prems in auto)
qed auto

lemma store_props:
  assumes "storeWalletActivities K now up rs t = (fin, t')" "table_ok t"
  shows "table_ok t' \<and> stored t \<subseteq> stored t' \<and> (fin \<longrightarrow> row_of ` set rs \<subseteq> stored t')"
  using assms run_batches_props [of K now up "chunks D1_BATCH_CHUNK rs" t fin t']
  by (auto simp: storeWalletActivities_def concat_chunks D1_BATCH_CHUNK_def split: if_splits)

lemma run_batches_done: "length bs \<le> up \<Longrightarrow> fst (run_batches K now up bs t)"
  by (induction bs arbitrary: up t) (auto split: nat.split)

subsection \<open>Booking events\<close>

definition in_ledger :: "signers \<Rightarrow> string \<Rightarrow> fee_event \<Rightarrow> bool" where
  "in_ledger S t ev \<longleftrightarrow> fe_signature ev \<in> fst ` set (bookings (ts_db (S t)))"

lemma book_grows: "fst ` set rs \<subseteq> fst ` set (fold book es rs)"
proof (induction es arbitrary: rs)
  case (Cons e es)
  have "fst ` set rs \<subseteq> fst ` set (book e rs)" by (auto simp: book_def)
  with Cons.IH [of "book e rs"] show ?case by auto
qed simp

lemma book_holds: "e \<in> set es \<Longrightarrow> 0 < fe_lamports e \<Longrightarrow> fe_signature e \<in> fst ` set (fold book es rs)"
proof (induction es arbitrary: rs)
  case (Cons f es)
  have "fe_signature f \<in> fst ` set (book f rs)" if "0 < fe_lamports f" using that by (auto simp: book_def booking_def)
  with Cons book_grows [of "book f rs" es] show ?case by (cases "e = f") auto
qed simp

abbreviation real_token :: "string \<Rightarrow> bool" where
  "real_token t \<equiv> trim t = t \<and> t \<noteq> ''''"

lemma process_fees_props:
  assumes "process_fees K E links now rs S = (ok, S')" "own_signers S"
  shows "own_signers S' \<and> (\<forall>t ev. real_token t \<longrightarrow> in_ledger S t ev \<longrightarrow> in_ledger S' t ev) \<and>
    (ok \<longrightarrow> (\<forall>r \<in> set rs. \<forall>t. real_token t \<longrightarrow> (\<forall>ev \<in> set (due K E t r). in_ledger S' t ev)))"
  using assms
proof (induction rs arbitrary: links S)
  case (Cons r rs)
  define l where "l = (case links of l # _ \<Rightarrow> l | [] \<Rightarrow> Delivered)"
  obtain res S1 where p: "processSubscribeFeeTx K E [l] now r S = (res, S1)" "own_signers S1"
      "\<forall>t. trim t = t \<longrightarrow> t \<noteq> '''' \<longrightarrow> bookings (ts_db (S1 t)) = fold book (due_of K E t l r) (bookings (ts_db (S t)))"
      "is_ok res \<longleftrightarrow> is_ok (fee_events_of K E r) \<and> (l = Delivered \<or> fee_events_of K E r = Inr [])"
    using process_step [OF Cons.prems(2), of K E l now r] by blast
  have mono: "\<forall>t ev. real_token t \<longrightarrow> in_ledger S t ev \<longrightarrow> in_ledger S1 t ev"
    using p(3) book_grows by (force simp: in_ledger_def)
  show ?case
  proof (cases res)
    case (Inl e)
    with Cons.prems(1) p(1) have "S' = S1" "\<not> ok" by (auto simp: l_def)
    with mono p(2) show ?thesis by simp
  next
    case (Inr out)
    have "process_fees K E (tl links) now rs S1 = (ok, S')" using Cons.prems(1) p(1) Inr by (simp add: l_def)
    note rest = Cons.IH [OF this p(2)]
    have "in_ledger S1 t ev" if "real_token t" "ev \<in> set (due K E t r)" for t ev
    proof -
      have "due_of K E t l r = due K E t r" using p(4) Inr by (auto simp: due_of_def due_def)
      with p(3) that have "bookings (ts_db (S1 t)) = fold book (due K E t r) (bookings (ts_db (S t)))" by simp
      with book_holds [OF that(2)] due_shape [OF that(2)] show ?thesis by (simp add: in_ledger_def)
    qed
    with rest mono show ?thesis by auto
  qed
qed simp

lemma process_fees_clean:
  "own_signers S \<Longrightarrow> \<forall>r \<in> set rs. is_ok (fee_events_of K E r) \<Longrightarrow> fst (process_fees K E [] now rs S)"
proof (induction rs arbitrary: S)
  case (Cons r rs)
  obtain res S1 where p: "processSubscribeFeeTx K E [Delivered] now r S = (res, S1)" "own_signers S1"
      "is_ok res \<longleftrightarrow> is_ok (fee_events_of K E r)"
    using process_step [OF Cons.prems(1), of K E Delivered now r] by auto
  then show ?case using Cons.IH [OF p(2)] Cons.prems(2) by (cases res) auto
qed simp

subsection \<open>Attempts at a batch\<close>

text \<open>
  The queue of \<^verbatim>\<open>workers/api/wrangler.jsonc\<close>: the messages that wait, each with the number of its failed
  deliveries, and the dead letter queue a message goes to when the retries are used up.  A delivery
  hands any of the waiting messages to the consumer (which ones is the queue's choice), and what the
  consumer has not acknowledged has failed once more.
\<close>

definition MAX_RETRIES :: nat where "MAX_RETRIES = 5"

record tx_queue =
  tq_waiting :: "(js \<times> nat) list"
  tq_dead :: "(js \<times> nat) list"
  tq_world :: wallet_world

definition deliver :: "webhook_kit \<Rightarrow> webhook_env \<Rightarrow> attempt \<Rightarrow> nat list \<Rightarrow> tx_queue \<Rightarrow> tx_queue" where
  "deliver K E a positions Q =
     (let batch = nths (tq_waiting Q) (set positions);
          res = processWalletTxBatch K E a (map fst batch) (tq_world Q);
          failed = map (apsnd Suc) (filter (\<lambda>m. fst m \<in> set (redelivered res (map fst batch))) batch) in
      \<lparr>tq_waiting = nths (tq_waiting Q) (- set positions) @ filter (\<lambda>m. snd m \<le> MAX_RETRIES) failed,
       tq_dead = tq_dead Q @ filter (\<lambda>m. \<not> snd m \<le> MAX_RETRIES) failed,
       tq_world = snd (snd res)\<rparr>)"

datatype queue_event = Sent js | Batch attempt "nat list"

fun queue_step :: "webhook_kit \<Rightarrow> webhook_env \<Rightarrow> queue_event \<Rightarrow> tx_queue \<Rightarrow> tx_queue" where
  "queue_step K E (Sent b) Q = Q\<lparr>tq_waiting := tq_waiting Q @ [(b, 0)]\<rparr>"
| "queue_step K E (Batch a positions) Q = deliver K E a positions Q"

definition queue_run :: "webhook_kit \<Rightarrow> webhook_env \<Rightarrow> queue_event list \<Rightarrow> tx_queue \<Rightarrow> tx_queue" where
  "queue_run K E evs Q = fold (queue_step K E) evs Q"

fun sent_bodies :: "queue_event list \<Rightarrow> js list" where
  "sent_bodies [] = []"
| "sent_bodies (Sent b # evs) = b # sent_bodies evs"
| "sent_bodies (Batch a positions # evs) = sent_bodies evs"

definition world_ok :: "wallet_world \<Rightarrow> bool" where
  "world_ok W \<longleftrightarrow> table_ok (ww_table W) \<and> own_signers (ww_signers W)"

definition grown :: "wallet_world \<Rightarrow> wallet_world \<Rightarrow> bool" where
  "grown W W' \<longleftrightarrow> stored (ww_table W) \<subseteq> stored (ww_table W') \<and>
     (\<forall>t ev. real_token t \<longrightarrow> in_ledger (ww_signers W) t ev \<longrightarrow> in_ledger (ww_signers W') t ev)"

text \<open>All rows of the message are stored and all events it calls for are booked.\<close>

definition indexed :: "webhook_kit \<Rightarrow> webhook_env \<Rightarrow> js \<Rightarrow> wallet_world \<Rightarrow> bool" where
  "indexed K E b W \<longleftrightarrow> set (message_rows K b) \<subseteq> stored (ww_table W) \<and>
     (\<forall>r t. message_result K b = Some r \<longrightarrow> real_token t \<longrightarrow>
        (\<forall>ev \<in> set (due (wk_fees K) (we_fees E) t r). in_ledger (ww_signers W) t ev))"

lemma indexed_grown: "indexed K E b W \<Longrightarrow> grown W W' \<Longrightarrow> indexed K E b W'"
  unfolding indexed_def grown_def by blast

lemma grown_trans: "grown W W1 \<Longrightarrow> grown W1 W2 \<Longrightarrow> grown W W2"
  unfolding grown_def by blast

lemma grown_refl [simp]: "grown W W"
  by (simp add: grown_def)

lemma unusable_indexed: "message_result K b = None \<Longrightarrow> indexed K E b W"
  by (auto simp: indexed_def message_result_def message_rows_def split: option.splits)

lemma attempt_props:
  assumes "processWalletTxBatch K E a bodies W = (e, dropped, W')" "world_ok W"
  shows "world_ok W' \<and> grown W W' \<and> set dropped = {b \<in> set bodies. message_result K b = None} \<and>
    (e = AckAll \<longrightarrow> (\<forall>b \<in> set bodies. indexed K E b W'))"
proof -
  let ?taken = "List.map_filter (take_message K (at_now a)) bodies"
  let ?rows = "concat (map fst ?taken)"
  have taken: "(rs, r) \<in> set ?taken \<longleftrightarrow> (\<exists>b \<in> set bodies. take_message K (at_now a) b = Some (rs, r))" for rs r
    by (force simp: List.map_filter_def image_iff)
  have dropped: "dropped = filter (\<lambda>b. take_message K (at_now a) b = None) bodies"
    using assms(1) by (auto simp: processWalletTxBatch_def Let_def split: prod.splits if_splits bool.splits)
  have d: "set dropped = {b \<in> set bodies. message_result K b = None}"
    by (simp add: dropped take_message_parts(1))
  show ?thesis
  proof (cases "?rows = [] \<and> map snd ?taken = []")
    case True
    then have "message_result K b = None" if "b \<in> set bodies" for b
      using that taken by (metis empty_iff list.map_disc_iff list.set(1) option.exhaust surj_pair take_message_parts(1))
    with True assms d show ?thesis by (auto simp: processWalletTxBatch_def Let_def unusable_indexed)
  next
    case False
    obtain done1 t1 where st: "storeWalletActivities (wk_store K) (int (at_now a)) (at_db a) ?rows (ww_table W) = (done1, t1)"
      by force
    obtain done2 S1 where fees: "process_fees (wk_fees K) (we_fees E) (at_links a) (int (at_now a)) (map snd ?taken) (ww_signers W) = (done2, S1)"
      by force
    have W: "table_ok (ww_table W)" "own_signers (ww_signers W)" using assms(2) by (simp_all add: world_ok_def)
    note sp = store_props [OF st W(1)] and fp = process_fees_props [OF fees W(2)]
    have res: "(e, W') = (if \<not> done1 then (RetryAll, W\<lparr>ww_table := t1\<rparr>)
        else (if done2 then AckAll else RetryAll, \<lparr>ww_table = t1, ww_signers = S1\<rparr>))"
      using assms(1) False by (auto simp: processWalletTxBatch_def Let_def st fees split: if_splits)
    have all: "indexed K E b \<lparr>ww_table = t1, ww_signers = S1\<rparr>" if "done1" "done2" "b \<in> set bodies" for b
    proof (cases "take_message K (at_now a) b")
      case (Some p)
      obtain rs r where p: "take_message K (at_now a) b = Some (rs, r)" using Some by (cases p) simp
      then have m: "(rs, r) \<in> set ?taken" using taken that(3) by blast
      then have "set rs \<subseteq> set ?rows" "r \<in> set (map snd ?taken)" by (auto intro: rev_bexI rev_image_eqI)
      moreover have "row_of ` set ?rows \<subseteq> stored t1" using sp that(1) by simp
      ultimately have "row_of ` set rs \<subseteq> stored t1" by (meson image_mono order_trans)
      moreover have "\<forall>t. real_token t \<longrightarrow> (\<forall>ev \<in> set (due (wk_fees K) (we_fees E) t r). in_ledger S1 t ev)"
        using fp that(2) \<open>r \<in> set (map snd ?taken)\<close> by blast
      ultimately show ?thesis using take_message_parts(2) [OF p] by (simp add: indexed_def)
    qed (auto simp: take_message_parts(1) intro: unusable_indexed)
    show ?thesis
      using res sp fp W d all by (auto simp: world_ok_def grown_def split: if_splits)
  qed
qed

lemma redelivered_set:
  "set (redelivered (e, dropped, W) bodies) = (if e = AckAll then {} else set bodies - set dropped)"
  by (cases e) (auto simp: redelivered_def)

lemma nths_split: "mset (nths xs A) + mset (nths xs (- A)) = mset xs"
proof (induction xs arbitrary: A)
  case (Cons x xs)
  have "{j. Suc j \<in> - A} = - {j. Suc j \<in> A}" by auto
  with Cons.IH [of "{j. Suc j \<in> A}"] show ?case by (auto simp: nths_Cons)
qed simp

lemma nths_set: "m \<in> set (nths xs A) \<Longrightarrow> m \<in> set xs"
  by (auto dest: in_set_nthsD)

text \<open>What holds of the queue after any events: every message sent is somewhere.\<close>

definition queue_inv :: "webhook_kit \<Rightarrow> webhook_env \<Rightarrow> js list \<Rightarrow> tx_queue \<Rightarrow> bool" where
  "queue_inv K E sent Q \<longleftrightarrow> world_ok (tq_world Q) \<and>
     (\<forall>m \<in> set (tq_waiting Q). snd m \<le> MAX_RETRIES) \<and> (\<forall>m \<in> set (tq_dead Q). snd m = Suc MAX_RETRIES) \<and>
     (\<exists>handled. mset sent = mset (map fst (tq_waiting Q)) + mset (map fst (tq_dead Q)) + mset handled \<and>
        (\<forall>b \<in> set handled. indexed K E b (tq_world Q)))"

lemma deliver_inv:
  assumes "queue_inv K E sent Q"
  shows "queue_inv K E sent (deliver K E a ps Q)"
proof -
  let ?W = "tq_world Q" and ?w = "tq_waiting Q"
  define batch where "batch = nths ?w (set ps)"
  obtain e dropped W' where p: "processWalletTxBatch K E a (map fst batch) ?W = (e, dropped, W')" by (metis prod_cases3)
  define again where "again = filter (\<lambda>m. fst m \<in> set (redelivered (e, dropped, W') (map fst batch))) batch"
  define failed where "failed = map (apsnd Suc) again"
  define acked where "acked = filter (\<lambda>m. fst m \<notin> set (redelivered (e, dropped, W') (map fst batch))) batch"
  from assms obtain handled where inv: "world_ok ?W" "\<forall>m \<in> set ?w. snd m \<le> MAX_RETRIES"
      "\<forall>m \<in> set (tq_dead Q). snd m = Suc MAX_RETRIES"
      "mset sent = mset (map fst ?w) + mset (map fst (tq_dead Q)) + mset handled"
      "\<forall>b \<in> set handled. indexed K E b ?W"
    by (auto simp: queue_inv_def)
  note ap = attempt_props [OF p inv(1)]
  have d: "deliver K E a ps Q = \<lparr>tq_waiting = nths ?w (- set ps) @ filter (\<lambda>m. snd m \<le> MAX_RETRIES) failed,
       tq_dead = tq_dead Q @ filter (\<lambda>m. \<not> snd m \<le> MAX_RETRIES) failed, tq_world = W'\<rparr>"
    by (simp add: deliver_def Let_def p failed_def again_def flip: batch_def)
  have small: "\<forall>m \<in> set failed. snd m \<le> Suc MAX_RETRIES"
    using inv(2) nths_set by (fastforce simp: failed_def again_def batch_def)
  have idx: "indexed K E b W'" if "b \<in> set (map fst acked @ handled)" for b
  proof (cases "b \<in> set handled")
    case True
    then show ?thesis using inv(5) ap indexed_grown by blast
  next
    case False
    then have b: "b \<in> set (map fst batch)" "b \<notin> set (redelivered (e, dropped, W') (map fst batch))"
      using that by (auto simp: acked_def)
    then show ?thesis
      using ap unusable_indexed by (cases e) (auto simp: redelivered_set)
  qed
  have "mset ?w = mset (nths ?w (- set ps)) + (mset again + mset acked)"
  proof -
    have "mset batch = mset again + mset acked"
      unfolding again_def acked_def mset_filter by (rule multiset_partition)
    with nths_split [of ?w "set ps"] show ?thesis by (simp add: batch_def ac_simps)
  qed
  then have "mset (map fst ?w) = mset (map fst (nths ?w (- set ps))) + (mset (map fst again) + mset (map fst acked))"
    by (metis image_mset_union mset_map)
  moreover have "map fst failed = map fst again" by (simp add: failed_def)
  moreover have "mset (map fst failed) = mset (map fst (filter (\<lambda>m. snd m \<le> MAX_RETRIES) failed)) +
      mset (map fst (filter (\<lambda>m. \<not> snd m \<le> MAX_RETRIES) failed))"
    by (induction failed) auto
  ultimately have total: "mset sent = mset (map fst (tq_waiting (deliver K E a ps Q))) +
      mset (map fst (tq_dead (deliver K E a ps Q))) + mset (map fst acked @ handled)"
    by (simp add: inv(4) d)
  show ?thesis
    unfolding queue_inv_def
  proof (intro conjI exI [of _ "map fst acked @ handled"] total)
    show "world_ok (tq_world (deliver K E a ps Q))" using ap by (simp add: d)
    show "\<forall>m \<in> set (tq_waiting (deliver K E a ps Q)). snd m \<le> MAX_RETRIES"
      using inv(2) by (auto simp: d dest: nths_set)
    show "\<forall>m \<in> set (tq_dead (deliver K E a ps Q)). snd m = Suc MAX_RETRIES"
      using inv(3) small by (auto simp: d)
    show "\<forall>b \<in> set (map fst acked @ handled). indexed K E b (tq_world (deliver K E a ps Q))" using idx by (simp add: d)
  qed
qed

lemma queue_run_inv: "queue_inv K E sent Q \<Longrightarrow> queue_inv K E (sent @ sent_bodies evs) (queue_run K E evs Q)"
proof (induction evs arbitrary: sent Q)
  case (Cons ev evs)
  show ?case
  proof (cases ev)
    case (Sent b)
    have "queue_inv K E (sent @ [b]) (queue_step K E ev Q)"
      using Cons.prems by (auto simp: queue_inv_def Sent)
    from Cons.IH [OF this] show ?thesis by (simp add: queue_run_def Sent)
  next
    case (Batch a ps)
    from Cons.IH [OF deliver_inv [OF Cons.prems]] show ?thesis by (simp add: queue_run_def Batch)
  qed
qed (simp add: queue_run_def)

text \<open>Deliveries of all that waits: each of them counts for every message that stays.\<close>

lemma whole_batch:
  assumes "length xs \<le> n"
  shows "nths xs (set [0 ..< n]) = xs" "nths xs (- set [0 ..< n]) = []"
proof -
  show "nths xs (set [0 ..< n]) = xs" by (rule nths_all) (use assms in auto)
  show "nths xs (- set [0 ..< n]) = []"
    unfolding nths_def using assms by (auto simp: filter_empty_conv set_zip)
qed

lemma deliver_whole:
  assumes "length (tq_waiting Q) \<le> n" "\<forall>m \<in> set (tq_waiting Q). k \<le> snd m"
  shows "length (tq_waiting (deliver K E a [0 ..< n] Q)) \<le> n"
    "\<forall>m \<in> set (tq_waiting (deliver K E a [0 ..< n] Q)). Suc k \<le> snd m"
  using assms(2) by (auto simp: deliver_def Let_def whole_batch [OF assms(1)] simp del: set_upt
      intro: order_trans [OF length_filter_le] order_trans [OF length_filter_le assms(1)])

lemma deliver_wholes:
  "length (tq_waiting Q) \<le> n \<Longrightarrow> \<forall>m \<in> set (tq_waiting Q). k \<le> snd m \<Longrightarrow>
    \<forall>m \<in> set (tq_waiting (queue_run K E (map (\<lambda>a. Batch a [0 ..< n]) as) Q)). k + length as \<le> snd m"
proof (induction as arbitrary: Q k)
  case (Cons a as)
  from Cons.IH [OF deliver_whole [OF Cons.prems]] show ?case by (simp add: queue_run_def)
qed (simp add: queue_run_def)

lemma used_up:
  assumes "queue_inv K E sent Q" "length as = Suc MAX_RETRIES"
  shows "tq_waiting (queue_run K E (map (\<lambda>a. Batch a [0 ..< length (tq_waiting Q)]) as) Q) = []"
proof -
  let ?Q = "queue_run K E (map (\<lambda>a. Batch a [0 ..< length (tq_waiting Q)]) as) Q"
  have "\<forall>m \<in> set (tq_waiting ?Q). snd m \<le> MAX_RETRIES"
    using queue_run_inv [OF assms(1)] by (simp add: queue_inv_def)
  moreover have "\<forall>m \<in> set (tq_waiting ?Q). Suc MAX_RETRIES \<le> snd m"
    using deliver_wholes [of Q "length (tq_waiting Q)" 0 K E as] assms(2) by simp
  ultimately have "\<forall>m \<in> set (tq_waiting ?Q). False" by (meson Suc_n_not_le_n order_trans)
  then show ?thesis by (cases "tq_waiting ?Q") auto
qed

lemma length_chunks: "0 < n \<Longrightarrow> length (chunks n xs) \<le> length xs"
proof (induction n xs rule: chunks.induct)
  case (1 n xs)
  show ?case
  proof (cases "xs = [] \<or> n = 0")
    case False
    then have "length (chunks n (drop n xs)) \<le> length (drop n xs)" using 1 by simp
    with False show ?thesis by (subst chunks.simps) (cases xs; auto)
  qed (use 1 in \<open>auto simp: chunks.simps\<close>)
qed

lemma message_rows_total:
  "length (concat (map fst (List.map_filter (take_message K now) bodies))) = length (concat (map (message_rows K) bodies))"
proof (induction bodies)
  case (Cons b bodies)
  show ?case
  proof (cases "take_message K now b")
    case None
    then have "message_result K b = None" by (simp add: take_message_parts(1))
    with None Cons show ?thesis
      by (auto simp: List.map_filter_simps message_rows_def message_result_def split: option.splits)
  next
    case (Some p)
    with take_message_parts(2) [of K now b "fst p" "snd p"] Cons show ?thesis by (simp add: List.map_filter_simps)
  qed
qed (simp add: List.map_filter_simps)

text \<open>An attempt in which nothing goes wrong acknowledges the batch.\<close>

lemma clean_attempt:
  assumes "world_ok W" "\<forall>b \<in> set bodies. \<forall>r. message_result K b = Some r \<longrightarrow> is_ok (fee_events_of (wk_fees K) (we_fees E) r)"
    and "at_links a = []" "length (concat (map (message_rows K) bodies)) \<le> at_db a"
  shows "fst (processWalletTxBatch K E a bodies W) = AckAll"
proof -
  let ?taken = "List.map_filter (take_message K (at_now a)) bodies"
  let ?rows = "concat (map fst ?taken)"
  have "length (chunks D1_BATCH_CHUNK ?rows) \<le> at_db a"
    using length_chunks [of D1_BATCH_CHUNK ?rows] assms(4) message_rows_total [of K "at_now a" bodies]
    by (simp add: D1_BATCH_CHUNK_def)
  then have db: "fst (storeWalletActivities (wk_store K) now (at_db a) ?rows t)" for now t
    by (simp add: storeWalletActivities_def run_batches_done)
  have "\<forall>r \<in> set (map snd ?taken). is_ok (fee_events_of (wk_fees K) (we_fees E) r)"
  proof
    fix r assume "r \<in> set (map snd ?taken)"
    then obtain b rs where "b \<in> set bodies" "take_message K (at_now a) b = Some (rs, r)"
      by (force simp: List.map_filter_def)
    with assms(2) take_message_parts(2) show "is_ok (fee_events_of (wk_fees K) (we_fees E) r)" by blast
  qed
  then have fees: "fst (process_fees (wk_fees K) (we_fees E) [] now (map snd ?taken) (ww_signers W))" for now
    using process_fees_clean assms(1) by (simp add: world_ok_def)
  from db [of "int (at_now a)" "ww_table W"] fees [of "int (at_now a)"] show ?thesis
    by (auto simp: processWalletTxBatch_def Let_def assms(3) split: prod.split bool.split)
qed

definition new_world :: wallet_world where
  "new_world = \<lparr>ww_table = empty_activity, ww_signers = new_signers\<rparr>"

lemma new_world_ok: "world_ok new_world"
  by (simp add: world_ok_def new_world_def empty_ok own_signers_new)

definition empty_queue :: tx_queue where
  "empty_queue = \<lparr>tq_waiting = [], tq_dead = [], tq_world = new_world\<rparr>"

lemma empty_queue_inv: "queue_inv K E [] empty_queue"
  by (simp add: queue_inv_def empty_queue_def new_world_ok)

text \<open>
  C9: No message is lost silently and nothing is stored twice.  Messages are sent and delivered in any
  order and in any batches, and anything goes wrong in a delivery (a database that stops after some of
  the inserts, calls of token signers lost on either way).  Then every message sent is in exactly one of
  three places, counted with repetitions: it waits and has failed at most five times; it is in the dead
  letter queue and has failed six times; or it has left the queue, and then it was unusable or all its
  rows are stored and all its fee events booked.  No wallet has two rows of one transaction.  A delivery
  of all that waits in which nothing goes wrong handles every waiting message, and puts none in the dead
  letter queue; and six deliveries of all that waits leave none waiting, whatever happens in them.
\<close>
theorem queue_indexes_everything:
  assumes "queue_run K E evs empty_queue = Q"
    and "\<And>b r. b \<in> set (sent_bodies evs) \<Longrightarrow> message_result K b = Some r \<Longrightarrow> is_ok (fee_events_of (wk_fees K) (we_fees E) r)"
    and "at_links a = []" "length (concat (map (message_rows K \<circ> fst) (tq_waiting Q))) \<le> at_db a"
    and "length as = 6"
  shows "(\<exists>handled. mset (sent_bodies evs) = mset (map fst (tq_waiting Q)) + mset (map fst (tq_dead Q)) + mset handled \<and>
      (\<forall>b \<in> set handled. indexed K E b (tq_world Q))) \<and>
    (\<forall>m \<in> set (tq_waiting Q). snd m \<le> 5) \<and> (\<forall>m \<in> set (tq_dead Q). snd m = 6) \<and>
    distinct (map (\<lambda>r. (ad_wallet r, ad_signature r)) (at_rows (ww_table (tq_world Q)))) \<and>
    (let Q' = deliver K E a [0 ..< length (tq_waiting Q)] Q in
      tq_waiting Q' = [] \<and> tq_dead Q' = tq_dead Q \<and> (\<forall>m \<in> set (tq_waiting Q). indexed K E (fst m) (tq_world Q'))) \<and>
    tq_waiting (queue_run K E (map (\<lambda>a. Batch a [0 ..< length (tq_waiting Q)]) as) Q) = []"
proof -
  have inv: "queue_inv K E (sent_bodies evs) Q" using queue_run_inv [OF empty_queue_inv, of K E evs] assms(1) by simp
  then have W: "world_ok (tq_world Q)" by (simp add: queue_inv_def)
  let ?bodies = "map fst (tq_waiting Q)"
  obtain e dropped W' where p: "processWalletTxBatch K E a ?bodies (tq_world Q) = (e, dropped, W')" by (metis prod_cases3)
  have sub: "set ?bodies \<subseteq> set (sent_bodies evs)"
  proof -
    obtain handled where "mset (sent_bodies evs) = mset ?bodies + mset (map fst (tq_dead Q)) + mset handled"
      using inv by (auto simp: queue_inv_def)
    then have "set_mset (mset (sent_bodies evs)) = set_mset (mset ?bodies + mset (map fst (tq_dead Q)) + mset handled)"
      by (rule arg_cong)
    then show ?thesis by auto
  qed
  have "fst (processWalletTxBatch K E a ?bodies (tq_world Q)) = AckAll"
    by (rule clean_attempt [OF W _ assms(3)]) (use sub assms(2,4) in \<open>auto simp del: length_concat\<close>)
  with p have e: "e = AckAll" by simp
  have whole: "nths (tq_waiting Q) (set [0 ..< length (tq_waiting Q)]) = tq_waiting Q"
      "nths (tq_waiting Q) (- set [0 ..< length (tq_waiting Q)]) = []"
    by (rule whole_batch, simp)+
  have Q': "deliver K E a [0 ..< length (tq_waiting Q)] Q = \<lparr>tq_waiting = [], tq_dead = tq_dead Q, tq_world = W'\<rparr>"
    by (simp add: deliver_def Let_def whole p e redelivered_def del: set_upt)
  have "\<forall>m \<in> set (tq_waiting Q). indexed K E (fst m) W'" using attempt_props [OF p W] e by simp
  moreover have "distinct (map (\<lambda>r. (ad_wallet r, ad_signature r)) (at_rows (ww_table (tq_world Q))))"
    using W by (simp add: world_ok_def table_ok_def)
  moreover have "tq_waiting (queue_run K E (map (\<lambda>a. Batch a [0 ..< length (tq_waiting Q)]) as) Q) = []"
    by (rule used_up [OF inv]) (simp add: assms(5) MAX_RETRIES_def)
  ultimately show ?thesis using inv by (simp add: Q' queue_inv_def MAX_RETRIES_def)
qed

text \<open>
  Six failed deliveries in a row and the message is in the dead letter queue with nothing indexed; no
  code of the repository reads that queue.
\<close>

lemma no_database:
  assumes "message_rows K b \<noteq> []" "at_db a = 0"
  shows "\<exists>dropped. processWalletTxBatch K E a [b] W = (RetryAll, dropped, W) \<and> b \<notin> set dropped"
proof -
  obtain rs0 r0 where "take_message K 0 b = Some (rs0, r0)" using assms(1) by (auto simp: message_rows_def split: option.splits)
  then obtain rs r where t: "take_message K (at_now a) b = Some (rs, r)"
    using take_message_parts(1) [of K "at_now a" b] take_message_parts(1) [of K 0 b]
    by (cases "take_message K (at_now a) b") auto
  then have ne: "rs \<noteq> []" using take_message_parts(2) [OF t] assms(1) by auto
  then obtain c cs where "chunks D1_BATCH_CHUNK rs = c # cs"
    by (subst (asm) chunks.simps) (cases rs; simp add: chunks.simps D1_BATCH_CHUNK_def)
  then have "storeWalletActivities (wk_store K) (int (at_now a)) 0 rs (ww_table W) = (False, ww_table W)"
    using ne by (simp add: storeWalletActivities_def)
  then show ?thesis using t ne assms(2) by (simp add: processWalletTxBatch_def Let_def List.map_filter_simps)
qed

theorem six_failures_lose_message:
  assumes "message_rows K b \<noteq> []" "length as = 6" "list_all (\<lambda>a. at_db a = 0) as"
  shows "queue_run K E (Sent b # map (\<lambda>a. Batch a [0]) as) empty_queue =
      \<lparr>tq_waiting = [], tq_dead = [(b, 6)], tq_world = new_world\<rparr> \<and> \<not> indexed K E b new_world"
proof -
  have step: "deliver K E a [0] \<lparr>tq_waiting = [(b, k)], tq_dead = [], tq_world = new_world\<rparr> =
      (if k < 5 then \<lparr>tq_waiting = [(b, Suc k)], tq_dead = [], tq_world = new_world\<rparr>
       else \<lparr>tq_waiting = [], tq_dead = [(b, Suc k)], tq_world = new_world\<rparr>)" if a: "at_db a = 0" for a k
    using no_database [OF assms(1) a, of E new_world]
    by (auto simp: deliver_def Let_def nths_Cons redelivered_def MAX_RETRIES_def)
  obtain a1 a2 a3 a4 a5 a6 where as: "as = [a1, a2, a3, a4, a5, a6]"
    using assms(2) by (auto simp: numeral_eq_Suc length_Suc_conv)
  have "stored (ww_table new_world) = {}" by (simp add: stored_def new_world_def empty_activity_def)
  then have "\<not> indexed K E b new_world" using assms(1) by (auto simp: indexed_def)
  then show ?thesis using assms(3) step by (simp add: queue_run_def as empty_queue_def)
qed

definition sample_webhook_kit :: webhook_kit where
  "sample_webhook_kit =
     \<lparr>wk_api = sample_api_kit, wk_parse = (\<lambda>_. Some JNull), wk_read = (\<lambda>_. Some sample_top_up), wk_isAddress = (\<lambda>_. True),
      wk_walletPda = Some, wk_store = sample_store_kit, wk_fees = sample_fee_kit\<rparr>"

definition sample_webhook_env :: webhook_env where
  "sample_webhook_env = \<lparr>we_secret = Some ''hook'', we_session = Some ''session'', we_fees = sample_fee_env\<rparr>"

definition sample_body :: js where
  "sample_body = JObject [(''result'', JObject [])]"

lemma sample_facts:
  "is_ok (fee_events_of sample_fee_kit sample_fee_env sample_top_up)"
  "\<not> fst (process_fees sample_fee_kit sample_fee_env [LostAfter] 1000 [sample_top_up] new_signers)"
  "length (affectedWallets (the (sr_transaction sample_top_up))) = 2"
  by code_simp+

lemma sample_taken: "take_message sample_webhook_kit now JNull = None"
  "\<exists>rs. take_message sample_webhook_kit now sample_body = Some (rs, sample_top_up) \<and> length rs \<le> 2"
proof -
  have mf: "length (List.map_filter f xs) \<le> length xs" for f :: "string \<Rightarrow> activity_row option" and xs
    by (simp add: List.map_filter_def)
  obtain c where c: "sr_transaction sample_top_up = Some c" by (simp add: sample_top_up_def)
  have "length (activityRowsFromResult N sample_top_up t) \<le> 2" for N t
    using mf [of _ "affectedWallets c"] sample_facts(3) by (simp add: activityRowsFromResult_def c Let_def)
  then show "\<exists>rs. take_message sample_webhook_kit now sample_body = Some (rs, sample_top_up) \<and> length rs \<le> 2"
    by (simp add: take_message_def sample_body_def jget_def is_object_def sample_webhook_kit_def)
qed (simp add: take_message_def)

text \<open>The first delivery loses the answer of the signer, after the rows are stored.\<close>

lemma sample_left:
  assumes "at_db a = 10" "at_links a = [LostAfter]" "at_now a = 1000"
  shows "tq_waiting (queue_run sample_webhook_kit sample_webhook_env [Sent JNull, Sent sample_body, Batch a [0, 1]] empty_queue) =
    [(sample_body, 1)]"
proof -
  let ?K = "sample_webhook_kit"
  obtain rs where rs: "take_message ?K 1000 sample_body = Some (rs, sample_top_up)" "length rs \<le> 2"
    using sample_taken(2) by blast
  have "length (chunks D1_BATCH_CHUNK rs) \<le> 10"
    using length_chunks [of D1_BATCH_CHUNK rs] rs(2) by (simp add: D1_BATCH_CHUNK_def)
  then have db: "fst (storeWalletActivities (wk_store ?K) (int 1000) 10 rs (ww_table new_world))"
    by (simp add: storeWalletActivities_def run_batches_done)
  then obtain t1 where t1: "storeWalletActivities (wk_store ?K) 1000 10 rs (ww_table new_world) = (True, t1)"
    by (metis eq_fst_iff of_nat_numeral)
  obtain ok S1 where p: "process_fees (wk_fees ?K) (we_fees sample_webhook_env) [LostAfter] 1000 [sample_top_up] (ww_signers new_world) = (ok, S1)"
    by force
  then have "\<not> ok"
    using sample_facts(2)
    by (simp add: sample_webhook_kit_def sample_webhook_env_def new_world_def del: process_fees.simps)
  with p have S1: "process_fees (wk_fees ?K) (we_fees sample_webhook_env) [LostAfter] 1000 [sample_top_up] (ww_signers new_world) = (False, S1)"
    by simp
  have "processWalletTxBatch ?K sample_webhook_env a [JNull, sample_body] new_world =
      (RetryAll, [JNull], \<lparr>ww_table = t1, ww_signers = S1\<rparr>)"
    by (simp add: processWalletTxBatch_def assms rs(1) sample_taken(1) List.map_filter_simps t1 S1 Let_def
        del: process_fees.simps)
  then show ?thesis
    by (simp add: queue_run_def empty_queue_def deliver_def Let_def nths_Cons redelivered_def MAX_RETRIES_def)
      (simp add: sample_body_def)
qed

theorem queue_indexes_everything_witness:
  "\<exists>lost clean. at_links lost = [LostAfter] \<and>
     (let Q = queue_run sample_webhook_kit sample_webhook_env [Sent JNull, Sent sample_body, Batch lost [0, 1]] empty_queue in
      tq_waiting Q = [(sample_body, 1)] \<and>
      indexed sample_webhook_kit sample_webhook_env sample_body
        (tq_world (deliver sample_webhook_kit sample_webhook_env clean [0] Q)))"
proof -
  let ?K = "sample_webhook_kit" and ?E = "sample_webhook_env"
  define lost :: attempt where "lost = \<lparr>at_now = 1000, at_db = 10, at_links = [LostAfter]\<rparr>"
  define clean :: attempt where "clean = \<lparr>at_now = 2000, at_db = 10, at_links = []\<rparr>"
  let ?evs = "[Sent JNull, Sent sample_body, Batch lost [0, 1]]"
  define Q where "Q = queue_run ?K ?E ?evs empty_queue"
  have Q: "queue_run ?K ?E ?evs empty_queue = Q" by (simp only: Q_def)
  have waiting: "tq_waiting Q = [(sample_body, 1)]" unfolding Q_def by (rule sample_left) (simp_all add: lost_def)
  have res: "r = sample_top_up" if "b \<in> set (sent_bodies ?evs)" "message_result ?K b = Some r" for b r
    using that sample_taken(1) sample_taken(2) [of 0] by (auto simp: message_result_def)
  have ok: "is_ok (fee_events_of (wk_fees ?K) (we_fees ?E) r)"
    if "b \<in> set (sent_bodies ?evs)" "message_result ?K b = Some r" for b r
    using res [OF that] sample_facts(1) by (simp add: sample_webhook_kit_def sample_webhook_env_def)
  have len: "length (concat (map (message_rows ?K \<circ> fst) (tq_waiting Q))) \<le> at_db clean"
    using sample_taken(2) [of 0] by (auto simp: clean_def message_rows_def waiting)
  have links: "at_links clean = []" by (simp add: clean_def)
  have six: "length (replicate 6 clean) = 6" by simp
  have pos: "[0 ..< length (tq_waiting Q)] = [0]" by (simp add: waiting)
  from queue_indexes_everything [OF Q ok links len six]
  have "indexed ?K ?E sample_body (tq_world (deliver ?K ?E clean [0] Q))"
    unfolding Let_def pos by (simp add: waiting)
  then show ?thesis
    by (intro exI [of _ lost] exI [of _ clean]) (simp only: Q Let_def waiting, simp add: lost_def)
qed

subsection \<open>Deliveries and readers\<close>

lemma hex_digits: "n < 16 \<Longrightarrow> hex_val (hex_digit n) = Some (int n) \<and> hex_digit n \<notin> {CHR ''-'', CHR ''+'', CHR ''x'', CHR ''X'', CHR ''s''} \<and>
    lower_char (hex_digit n) = hex_digit n \<and> \<not> is_space (hex_digit n)"
proof -
  have "\<forall>n \<in> set [0 ..< 16]. hex_val (hex_digit n) = Some (int n) \<and>
      hex_digit n \<notin> {CHR ''-'', CHR ''+'', CHR ''x'', CHR ''X'', CHR ''s''} \<and>
      lower_char (hex_digit n) = hex_digit n \<and> \<not> is_space (hex_digit n)"
    by code_simp
  then show "n < 16 \<Longrightarrow> ?thesis" by simp
qed

lemma byte_digits: "unat (b :: byte) div 16 < 16" "unat b mod 16 < 16"
  using unat_byte_lt [of b] by (simp_all add: div_less_iff_less_mult)

lemma hex_pair: "parse_int hex_val 16 (hex_byte b) = Some (uint b)"
proof -
  note d = hex_digits [OF byte_digits(1) [of b]] hex_digits [OF byte_digits(2) [of b]]
  have "int (unat b div 16) * 16 + int (unat b mod 16) = int (unat b)"
    by (metis div_mult_mod_eq of_nat_add of_nat_mult of_nat_numeral)
  moreover from d have "CHR ''-'' \<noteq> hex_digit (unat b div 16)" "CHR ''+'' \<noteq> hex_digit (unat b div 16)"
    "CHR ''x'' \<noteq> hex_digit (unat b mod 16)" "CHR ''X'' \<noteq> hex_digit (unat b mod 16)" by auto
  ultimately show ?thesis using d
    by (simp add: parse_int_def hex_byte_def digits_prefix_def Let_def starts_with_Cons mult.commute)
qed

lemma hex_pairs_hex: "hex_pairs (uint8ArrayToHex bs) = Some bs"
proof (induction bs)
  case (Cons b bs)
  have "hex_pairs (hex_byte b @ uint8ArrayToHex bs) = Some (b # bs)"
    using hex_pair [of b] Cons by (simp add: hex_byte_def)
  then show ?case by (simp add: uint8ArrayToHex_def)
qed (simp add: uint8ArrayToHex_def)

lemma hex_text_plain: "c \<in> set (uint8ArrayToHex bs) \<Longrightarrow> lower_char c = c \<and> \<not> is_space c \<and> c \<noteq> CHR ''s''"
  using hex_digits byte_digits by (auto simp: uint8ArrayToHex_def hex_byte_def)

lemma hexToBytes_hex: "bs \<noteq> [] \<Longrightarrow> hexToBytes (uint8ArrayToHex bs) = Some bs"
proof -
  assume ne: "bs \<noteq> []"
  let ?h = "uint8ArrayToHex bs"
  have len: "length ?h = 2 * length bs"
    by (induction bs) (simp_all add: uint8ArrayToHex_def hex_byte_def)
  then have h: "?h \<noteq> []" using ne by auto
  then have "trim ?h = ?h" using hex_text_plain [of "hd ?h" bs] hex_text_plain [of "last ?h" bs] by (intro trim_id) simp
  moreover have "to_lower ?h = ?h" using hex_text_plain [of _ bs] by (simp add: to_lower_def map_idI)
  ultimately show ?thesis using h len by (simp add: hexToBytes_def hex_pairs_hex)
qed

lemma verifySignature_iff:
  "verifySignature K webhookSecret now bdy stamp supplied \<longleftrightarrow>
     trim (or_else webhookSecret '''') \<noteq> '''' \<and>
     (\<exists>s t ts. stamp = Some t \<and> supplied = Some s \<and> t \<noteq> '''' \<and> s \<noteq> '''' \<and> ak_number K t = Some ts \<and>
        \<bar>of_nat now / 1000 - ts\<bar> \<le> 300 \<and>
        hexToBytes (if starts_with ''sha256='' s then drop 7 s else s) =
          Some (hmacSha256 K (trim (or_else webhookSecret '''')) (t @ ''.'' @ bdy)))"
  by (cases stamp; cases supplied) (auto simp: verifySignature_def Let_def MAX_SKEW_SECONDS_def split: option.splits)

text \<open>What a sender with the secret puts into the header.\<close>

definition signed_header :: "api_kit \<Rightarrow> string \<Rightarrow> string \<Rightarrow> string \<Rightarrow> string" where
  "signed_header K secret stamp bdy = ''sha256='' @ uint8ArrayToHex (hmacSha256 K secret (stamp @ ''.'' @ bdy))"

text \<open>
  C24: What the webhook takes in.  A message goes on the queue only for a request with a time within five
  minutes of the worker's and a header that reads as the HMAC of exactly this time and this body under the
  configured secret, and it is the message of that body; every other request leaves the queue alone.
  A sender that signs with the secret, in time, has a payload with a result taken in.
\<close>
theorem webhook_takes_signed_deliveries:
  assumes "api_kit_ok (wk_api K)"
  shows "(snd (post_webhook K E sent now r) = Some m \<longrightarrow>
      sent \<and> trim (or_else (we_secret E) '''') \<noteq> '''' \<and>
      (\<exists>stamp sup ts ps. wr_timestamp r = Some stamp \<and> ak_number (wk_api K) stamp = Some ts \<and>
        \<bar>of_nat now / 1000 - ts\<bar> \<le> 300 \<and> wr_signature r = Some sup \<and>
        hexToBytes (if starts_with ''sha256='' sup then drop 7 sup else sup) =
          Some (hmacSha256 (wk_api K) (trim (or_else (we_secret E) '''')) (stamp @ ''.'' @ wr_body r)) \<and>
        wk_parse K (wr_body r) = Some (JObject ps) \<and> m = webhook_message r now ps)) \<and>
    (sent \<and> trim (or_else (we_secret E) '''') \<noteq> '''' \<and> wr_timestamp r = Some stamp \<and> stamp \<noteq> '''' \<and>
      ak_number (wk_api K) stamp = Some ts \<and> \<bar>of_nat now / 1000 - ts\<bar> \<le> 300 \<and>
      wr_signature r = Some (signed_header (wk_api K) (trim (or_else (we_secret E) '''')) stamp (wr_body r)) \<and>
      wk_parse K (wr_body r) = Some (JObject ps) \<and> \<not> falsy (jget ps ''result'') \<longrightarrow>
      post_webhook K E sent now r =
        (json [(''ok'', JBool True), (''enqueued'', JBool True)] 200, Some (webhook_message r now ps)))"
    (is "?only \<and> ?takes")
proof
  show ?only
  proof
    assume h: "snd (post_webhook K E sent now r) = Some m"
    then have v: "verifySignature (wk_api K) (we_secret E) now (wr_body r) (wr_timestamp r) (wr_signature r)"
      by (auto simp: post_webhook_def split: if_splits)
    with h have "\<exists>ps. sent \<and> wk_parse K (wr_body r) = Some (JObject ps) \<and> m = webhook_message r now ps"
      by (auto simp: post_webhook_def split: if_splits option.splits js.splits)
    with v show "sent \<and> trim (or_else (we_secret E) '''') \<noteq> '''' \<and>
      (\<exists>stamp sup ts ps. wr_timestamp r = Some stamp \<and> ak_number (wk_api K) stamp = Some ts \<and>
        \<bar>of_nat now / 1000 - ts\<bar> \<le> 300 \<and> wr_signature r = Some sup \<and>
        hexToBytes (if starts_with ''sha256='' sup then drop 7 sup else sup) =
          Some (hmacSha256 (wk_api K) (trim (or_else (we_secret E) '''')) (stamp @ ''.'' @ wr_body r)) \<and>
        wk_parse K (wr_body r) = Some (JObject ps) \<and> m = webhook_message r now ps)"
      unfolding verifySignature_iff by blast
  qed
  have h: "hexToBytes (uint8ArrayToHex (hmacSha256 (wk_api K) s p)) = Some (hmacSha256 (wk_api K) s p)" for s p
  proof (rule hexToBytes_hex)
    have "length (hmacSha256 (wk_api K) s p) = 32" using assms by (simp add: api_kit_ok_def hmacSha256_def)
    then show "hmacSha256 (wk_api K) s p \<noteq> []" by auto
  qed
  show ?takes
  proof
    assume a: "sent \<and> trim (or_else (we_secret E) '''') \<noteq> '''' \<and> wr_timestamp r = Some stamp \<and> stamp \<noteq> '''' \<and>
      ak_number (wk_api K) stamp = Some ts \<and> \<bar>of_nat now / 1000 - ts\<bar> \<le> 300 \<and>
      wr_signature r = Some (signed_header (wk_api K) (trim (or_else (we_secret E) '''')) stamp (wr_body r)) \<and>
      wk_parse K (wr_body r) = Some (JObject ps) \<and> \<not> falsy (jget ps ''result'')"
    then have "verifySignature (wk_api K) (we_secret E) now (wr_body r) (wr_timestamp r) (wr_signature r)"
      unfolding verifySignature_iff by (simp add: signed_header_def h starts_with_Cons)
    with a show "post_webhook K E sent now r =
        (json [(''ok'', JBool True), (''enqueued'', JBool True)] 200, Some (webhook_message r now ps))"
      by (simp add: post_webhook_def)
  qed
qed

theorem webhook_takes_signed_deliveries_witness:
  "\<exists>sig. snd (post_webhook (sample_webhook_kit\<lparr>wk_parse := \<lambda>_. Some (JObject [(''result'', JBool True)])\<rparr>) sample_webhook_env True 1000000
     \<lparr>wr_body = ''{}'', wr_timestamp = Some ''900'', wr_signature = Some sig, wr_idempotencyKey = Some ''k''\<rparr>) \<noteq> None"
proof -
  let ?K = "sample_webhook_kit\<lparr>wk_parse := \<lambda>_. Some (JObject [(''result'', JBool True)])\<rparr>"
  let ?sig = "signed_header sample_api_kit ''hook'' ''900'' ''{}''"
  let ?r = "\<lparr>wr_body = ''{}'', wr_timestamp = Some ''900'', wr_signature = Some ?sig, wr_idempotencyKey = Some ''k''\<rparr>"
  have k: "api_kit_ok (wk_api ?K)" by (simp add: sample_webhook_kit_def sample_api_kit_ok)
  have s: "trim ''hook'' = ''hook''" "ak_number sample_api_kit ''900'' = Some 900" by code_simp+
  have e: "or_else (we_secret sample_webhook_env) '''' = ''hook''" "wk_api ?K = sample_api_kit"
    by (simp_all add: sample_webhook_env_def sample_webhook_kit_def)
  have "post_webhook ?K sample_webhook_env True 1000000 ?r =
      (json [(''ok'', JBool True), (''enqueued'', JBool True)] 200, Some (webhook_message ?r 1000000 [(''result'', JBool True)]))"
    by (rule webhook_takes_signed_deliveries [OF k, THEN conjunct2, THEN mp, of True sample_webhook_env ?r "''900''" 900 1000000])
      (simp add: e s jget_def falsy_def)
  then show ?thesis by (intro exI [of _ ?sig]) simp
qed

lemma page_of_wallet:
  assumes "page_rows K t w l cursor = Some (page, c)"
  shows "set page \<subseteq> {q \<in> set (at_rows t). ad_wallet q = w}" "length page \<le> 50"
proof -
  from assms obtain rs where rs: "select_page (clamp_limit l) (decodeCursor K cursor) w t = Some rs"
      "page = rs \<or> page = take (nat \<lfloor>clamp_limit l\<rfloor>) rs"
    by (auto simp: page_rows_def Let_def split: if_splits)
  have "set (newest_first qs) = set qs" for qs by (simp add: newest_first_def)
  with rs have "set rs \<subseteq> {q \<in> set (at_rows t). ad_wallet q = w}"
    by (auto simp: select_page_def dest!: in_set_takeD split: if_splits)
  with rs(2) show "set page \<subseteq> {q \<in> set (at_rows t). ad_wallet q = w}" by (auto dest: in_set_takeD)
  have "nat \<lfloor>clamp_limit l\<rfloor> \<le> 50" using clamp_range(2) [of l] by linarith
  moreover have "of_nat (length page) \<le> clamp_limit l \<or> page = take (nat \<lfloor>clamp_limit l\<rfloor>) rs"
    using assms rs(1) by (auto simp: page_rows_def Let_def split: if_splits)
  moreover have "length page \<le> 50" if "of_nat (length page) \<le> clamp_limit l"
    using order_trans [OF that clamp_range(2)] by (metis of_nat_le_iff of_nat_numeral)
  ultimately show "length page \<le> 50" by auto
qed

text \<open>
  Whose history is shown.  The history route answers with rows only to a request with a live admit
  session whose token's wallet is the address asked for, and all rows it then shows, at most 50, are stored rows
  of this wallet, whatever limit and cursor the request carries.
\<close>
theorem history_needs_own_session:
  assumes "get_activity K E now r t = Some reply" "rp_status reply = 200"
  shows "\<exists>token page nextCursor. admit_token (wk_api K) (we_session E) (hr_cookies r) now = Some token \<and> token \<noteq> '''' \<and>
    wk_walletPda K token = Some (trim (hr_address r)) \<and>
    rp_body reply = [(''items'', JArray (map (\<lambda>q. item_js (toItem (wk_store K) q)) page)), (''nextCursor'', nextCursor)] \<and>
    set page \<subseteq> {q \<in> set (at_rows t). ad_wallet q = trim (hr_address r)} \<and> length page \<le> 50"
proof -
  from assms obtain token limit items c where h: "admit_token (wk_api K) (we_session E) (hr_cookies r) now = Some token"
      "token \<noteq> ''''" "wk_walletPda K token = Some (trim (hr_address r))"
      "readWalletActivity (wk_store K) t (trim (hr_address r)) limit (hr_cursor r) = Some (items, c)"
      "rp_body reply = [(''items'', JArray (map item_js items)), (''nextCursor'', case c of Some c \<Rightarrow> JString c | None \<Rightarrow> JNull)]"
    by (auto simp: get_activity_def json_def json_error_def tryParseAddress_def Let_def split: option.splits if_splits)
  from h(4) obtain page where p: "page_rows (wk_store K) t (trim (hr_address r)) limit (hr_cursor r) = Some (page, c)"
      "items = map (toItem (wk_store K)) page"
    by (auto simp: readWalletActivity_def)
  with h page_of_wallet [OF p(1)] show ?thesis by (auto simp: comp_def)
qed

lemma sample_admitted:
  assumes "issueBrowseUnlockCookie sample_api_kit (Some ''s3cret'') None ''Tok'' 1000 ''j1'' = Inr (e, changes)"
  shows "admit_token sample_api_kit (Some ''s3cret'') (fold apply_change changes Map.empty) 2000 = Some ''Tok''"
proof -
  have tok: "trim ''Tok'' = ''Tok''" by code_simp
  from assms obtain change where issued:
      "issue_session sample_api_kit (Some ''s3cret'') BROWSE_UNLOCK_COOKIE BROWSE_SESSION_TTL_MS None ''Tok'' 1000 ''j1'' = Inr (e, change)"
    and changes: "changes = [clear_session OWNER_BROWSE_COOKIE None, change]"
    by (auto simp: issueBrowseUnlockCookie_def result_simps)
  have "read_session sample_api_kit (Some ''s3cret'') BROWSE_UNLOCK_COOKIE (fold apply_change changes Map.empty) 2000 =
      Some \<lparr>sp_head = ''Tok'', sp_exp = of_nat (1000 + BROWSE_SESSION_TTL_MS), sp_jti = ''j1''\<rparr>"
    using read_issued [OF sample_api_kit_ok issued, of "apply_change (clear_session OWNER_BROWSE_COOKIE None) Map.empty" 2000] changes
    by (simp add: tok BROWSE_SESSION_TTL_MS_def)
  then show ?thesis by (simp add: admit_token_def readBrowseUnlock_def)
qed

theorem history_needs_own_session_witness:
  "\<exists>cookies reply. get_activity sample_webhook_kit (sample_webhook_env\<lparr>we_session := Some ''s3cret''\<rparr>) 2000
     \<lparr>hr_address = ''Tok'', hr_cookies = cookies, hr_limit = None, hr_cursor = None\<rparr>
     (fold (insert_or_ignore sample_store_kit 1) [sample_activity ''a'' 5] empty_activity) = Some reply \<and> rp_status reply = 200 \<and>
     (\<exists>token. wk_walletPda sample_webhook_kit token = Some ''Tok'')"
proof -
  let ?E = "sample_webhook_env\<lparr>we_session := Some ''s3cret''\<rparr>"
  let ?t = "fold (insert_or_ignore sample_store_kit 1) [sample_activity ''a'' 5] empty_activity"
  from sample_unlock obtain e changes where "issueBrowseUnlockCookie sample_api_kit (Some ''s3cret'') None ''Tok'' 1000 ''j1'' = Inr (e, changes)" .
  note adm = sample_admitted [OF this]
  define r where "r = \<lparr>hr_address = ''Tok'', hr_cookies = fold apply_change changes Map.empty, hr_limit = None, hr_cursor = None\<rparr>"
  have tok: "trim ''Tok'' = ''Tok''" by code_simp
  have page: "\<exists>items c. readWalletActivity sample_store_kit ?t ''Tok'' 20 None = Some (items, c)"
    by (simp add: readWalletActivity_def page_rows_def select_page_def clamp_limit_def Let_def)
  then have "\<exists>reply. get_activity sample_webhook_kit ?E 2000 r ?t = Some reply \<and> rp_status reply = 200"
    using adm
    by (auto simp: get_activity_def r_def tryParseAddress_def tok sample_webhook_kit_def sample_webhook_env_def json_def Let_def
        simp del: fold_simps)
  then obtain reply where g: "get_activity sample_webhook_kit ?E 2000 r ?t = Some reply" "rp_status reply = 200" by blast
  from history_needs_own_session [OF g] have "\<exists>token. wk_walletPda sample_webhook_kit token = Some ''Tok''"
    by (auto simp: r_def tok)
  with g show ?thesis unfolding r_def by blast
qed

end
