(* ===== verification/TxRoutes.thy ===== *)
theory TxRoutes
  imports WalletQueue
begin

text \<open>
  The fee payer and token routes of the API worker (\<^verbatim>\<open>workers/api/src/transactions/decode-tx.ts\<close>,
  \<^verbatim>\<open>sign.ts\<close>, \<^verbatim>\<open>fee-payer.ts\<close>, \<^verbatim>\<open>errors.ts\<close>, \<^verbatim>\<open>tokens/routes.ts\<close>, \<^verbatim>\<open>verified-tokens.ts\<close>,
  \<^verbatim>\<open>payment-token.ts\<close>, \<^verbatim>\<open>usdc-mint.ts\<close>, \<^verbatim>\<open>fees/constants.ts\<close>, \<^verbatim>\<open>shared/solana/cluster.ts\<close>), over the model
  of the token signers.  Field \<open>transactions\<close> of the request is taken to have its declared type.
\<close>

subsection \<open>Decoding a transaction\<close>

record api_sign_tx =
  as_messageBytes :: bytes
  as_feePayer :: address
  as_phygitalToken :: address

definition token_account :: "sign_kit \<Rightarrow> parsed_instruction option \<Rightarrow> thrown + address" where
  "token_account K parsed = obind (kit_call K ''parse'' parsed) (\<lambda>expanded. Inr (account_of expanded ''phygitalToken''))"

definition api_token_of :: "sign_kit \<Rightarrow> wallet_instruction \<Rightarrow> kit_instruction \<Rightarrow> thrown + address" where
  "api_token_of K ixType walletIx =
     (case ixType of
        Execute \<Rightarrow> token_account K (parseExecuteInstruction (sk_kit K) walletIx)
      | ExecuteWithAuthority \<Rightarrow> token_account K (parseExecuteWithAuthorityInstruction (sk_kit K) walletIx)
      | SetAuthority \<Rightarrow> token_account K (parseSetAuthorityInstruction (sk_kit K) walletIx)
      | SetWalletPolicy \<Rightarrow> token_account K (parseSetWalletPolicyInstruction (sk_kit K) walletIx)
      | ClearAuthority \<Rightarrow> token_account K (parseClearAuthorityInstruction walletIx)
      | ClearWalletPolicy \<Rightarrow> token_account K (parseClearWalletPolicyInstruction walletIx)
      | ExecuteWithAuthorityUsingPolicies \<Rightarrow>
          throw_coded ''Only phygital transactions are fee-sponsored'' ''unexpected_instruction'')"

text \<open>The loop over the top-level instructions; the empty token is the \<open>null\<close> it starts with.\<close>

fun api_token_loop :: "sign_kit \<Rightarrow> address \<Rightarrow> kit_instruction list \<Rightarrow> thrown + address" where
  "api_token_loop K phygitalToken [] = Inr phygitalToken"
| "api_token_loop K phygitalToken (ix # rest) =
     (if ix_program ix \<noteq> PHYGITAL_WALLET_PROGRAM_ADDRESS then api_token_loop K phygitalToken rest
      else if phygitalToken \<noteq> ''''
        then throw_coded ''Transaction mixes multiple phygital-wallet instructions'' ''unexpected_instruction''
      else
        obind (asWalletInstruction ix) (\<lambda>walletIx.
        obind (kit_call K ''identify''
          (Option.bind (ix_data walletIx) (identifyPhygitalWalletInstruction (sk_kit K)))) (\<lambda>ixType.
        obind (api_token_of K ixType walletIx) (\<lambda>t. api_token_loop K t rest))))"

definition api_decodeWireTransaction :: "sign_kit \<Rightarrow> string \<Rightarrow> thrown + api_sign_tx" where
  "api_decodeWireTransaction K base64Tx =
     obind (kit_call K ''base64'' (sk_base64Encode K base64Tx)) (\<lambda>bs.
     obind (kit_call K ''transaction'' (k_tx_decode (sk_kit K) bs)) (\<lambda>tx.
     obind (kit_call K ''message'' (map_option fst (k_msg_read (sk_kit K) (kt_messageBytes tx)))) (\<lambda>compiled.
     let feePayer = or_else (nth_opt (sk_staticAccounts K compiled) 0) '''' in
     if feePayer = '''' then throw_coded ''Transaction has no fee payer'' ''invalid_transaction''
     else
       obind (kit_call K ''instructions'' (sk_instructions K compiled)) (\<lambda>topLevel.
       obind (api_token_loop K '''' topLevel) (\<lambda>phygitalToken.
       if phygitalToken = ''''
       then throw_coded ''Transaction missing phygital-wallet execute instruction'' ''unexpected_instruction''
       else Inr \<lparr>as_messageBytes = kt_messageBytes tx, as_feePayer = feePayer, as_phygitalToken = phygitalToken\<rparr>)))))"

subsection \<open>\<^verbatim>\<open>POST /sign\<close>\<close>

definition optional :: "string \<Rightarrow> js option \<Rightarrow> (string \<times> js) list" where
  "optional k v = (case v of Some x \<Rightarrow> [(k, x)] | None \<Rightarrow> [])"

definition signRouteJsonError :: "thrown \<Rightarrow> reply" where
  "signRouteJsonError err =
     (let n = normalizeError err no_fallback in
      json ([(''error'', JString (ne_error n)), (''code'', JString (ne_code n))] @
        optional ''details'' (map_option JObject (ne_details n)) @ optional ''soft'' (map_option JBool (ne_soft n))) (ne_status n))"

definition refusal_reply :: "refusal \<Rightarrow> reply" where
  "refusal_reply r =
     json ([(''error'', JString (rf_error r)), (''code'', JString (rf_code r))] @
       optional ''details'' (map_option JObject (rf_details r)) @ optional ''soft'' (map_option JBool (rf_soft r))) (rf_status r)"

record sign_request =
  sq_body :: "thrown + string list option"
  sq_meta :: audit_meta
  sq_ms :: nat

definition sign_audit :: "sign_request \<Rightarrow> string option \<Rightarrow> bool \<Rightarrow> audit_entry" where
  "sign_audit r token ok =
     (blank_entry AuditSign)\<lparr>ae_phygitalToken := token, ae_ok := Some ok, ae_actor := Some ActorAccessory,
       ae_origin := mt_origin (sq_meta r), ae_requestId := mt_requestId (sq_meta r), ae_ms := Some (sq_ms r)\<rparr>"

text \<open>The \<open>catch\<close> block.\<close>

definition sign_caught :: "sign_request \<Rightarrow> string option \<Rightarrow> thrown \<Rightarrow> reply" where
  "sign_caught r token e =
     (signRouteJsonError e)\<lparr>rp_audit := [(sign_audit r token False)\<lparr>ae_code := Some ''exception''\<rparr>]\<rparr>"

definition sign_reply :: "sign_request \<Rightarrow> string \<Rightarrow> sign_result \<Rightarrow> reply" where
  "sign_reply r token res =
     (case res of
        SignOk sigs audit \<Rightarrow>
          (json [(''signatures'', JArray (map JString sigs))] 200)\<lparr>rp_audit :=
            [(sign_audit r (Some token) True)\<lparr>ae_detail := Some (
               optional ''feePayer'' (map_option (\<lambda>(p, _, _). JString p) audit) @ [(''count'', jnat (length sigs))] @
               optional ''reserved'' (map_option (\<lambda>(_, _, n). jnat n) audit))\<rparr>]\<rparr>
      | SignRefused rf \<Rightarrow>
          (refusal_reply rf)\<lparr>rp_audit :=
            [(sign_audit r (Some token) False)\<lparr>ae_detail := Some [(''code'', JString (rf_code rf))]\<rparr>]\<rparr>)"

definition post_sign ::
  "sign_kit \<Rightarrow> signer_env \<Rightarrow> signer_link \<Rightarrow> int \<Rightarrow> sign_request \<Rightarrow> signers \<Rightarrow> reply \<times> signers" where
  "post_sign K E link now r S =
     (case sq_body r of
        Inl e \<Rightarrow> (sign_caught r None e, S)
      | Inr None \<Rightarrow> (json_error ''transactions required'' ''invalid_transaction'' 400, S)
      | Inr (Some []) \<Rightarrow> (json_error ''transactions required'' ''invalid_transaction'' 400, S)
      | Inr (Some (first # rest)) \<Rightarrow>
          (case api_decodeWireTransaction K first of
             Inl e \<Rightarrow> (sign_caught r None e, S)
           | Inr d \<Rightarrow>
               (case call_signer link (as_phygitalToken d) (signTransactions K E (Some (first # rest)) now) S of
                  (Inl e, S1) \<Rightarrow> (sign_caught r (Some (as_phygitalToken d)) e, S1)
                | (Inr res, S1) \<Rightarrow> (sign_reply r (as_phygitalToken d) res, S1))))"

subsection \<open>\<^verbatim>\<open>GET /getFeePayer\<close>\<close>

definition get_fee_payer :: "(string \<Rightarrow> js option) \<Rightarrow> string \<Rightarrow> reply" where
  "get_fee_payer parse pubkeys =
     (let feePayer = (case parse pubkeys of Some (JArray (JString p # _)) \<Rightarrow> p | _ \<Rightarrow> '''') in
      if feePayer = '''' then json_error ''Fee payer is not configured'' ''signer_misconfigured'' 500
      else json [(''feePayer'', JString feePayer)] 200)"

subsection \<open>\<^verbatim>\<open>GET /tokens/fee-balance\<close>\<close>

definition FEE_BALANCE_LOW_LAMPORTS :: int where "FEE_BALANCE_LOW_LAMPORTS = 1000000"

text \<open>\<open>toFixed\<close> of a negative number is that of its absolute value behind a sign.\<close>

definition lamportsToSolUi :: "int \<Rightarrow> string" where
  "lamportsToSolUi lamports =
     (let n = (of_int lamports :: rat) / 1000000000;
          t = strip_zeros ((if n < 0 then ''-'' else '''') @ to_fixed 9 \<bar>n\<bar>) in
      if t = '''' then ''0'' else t)"

record balance_request =
  br_token :: "string option"
  br_cookies :: jar

definition get_fee_balance ::
  "api_kit \<Rightarrow> string option \<Rightarrow> (string \<Rightarrow> bool) \<Rightarrow> signer_link \<Rightarrow> nat \<Rightarrow> balance_request \<Rightarrow> signers \<Rightarrow> reply \<times> signers" where
  "get_fee_balance K secret isAddress link now r S =
     (case tryParseAddress isAddress (trim (or_else (br_token r) '''')) of
        None \<Rightarrow> (json [(''error'', JString ''Query param phygitalToken must be a valid Solana address'')] 400, S)
      | Some token \<Rightarrow>
          if map_option sp_head (readBrowseUnlock K secret (br_cookies r) now) \<noteq> Some token \<and>
             map_option sp_head (readOwnerBrowse K secret (br_cookies r) now) \<noteq> Some token
          then (json_error ''Unlock this item to continue.'' ''session_required'' 401, S)
          else
            (case call_signer link token (getFeeBalance (int now)) S of
               (Inl e, S1) \<Rightarrow> (json [(''error'', JString (getErrorMessage e ''Failed to load fee balance''))] 502, S1)
             | (Inr (balance, reserved, available), S1) \<Rightarrow>
                 (json [(''balanceLamports'', JString (int_text balance)), (''availableLamports'', JString (int_text available)),
                   (''reservedLamports'', JString (int_text reserved)), (''balanceUi'', JString (lamportsToSolUi available)),
                   (''low'', JBool (available < FEE_BALANCE_LOW_LAMPORTS))] 200, S1)))"

subsection \<open>Verified tokens\<close>

definition getCluster :: "string option \<Rightarrow> string" where
  "getCluster cluster = (if to_lower (trim (or_else cluster '''')) = ''mainnet'' then ''mainnet'' else ''devnet'')"

definition isMainnet :: "string option \<Rightarrow> bool" where
  "isMainnet cluster = (getCluster cluster = ''mainnet'')"

definition getRpcUrl :: "string option \<Rightarrow> string option \<Rightarrow> string" where
  "getRpcUrl cluster rpcUrl =
     (if trim (or_else rpcUrl '''') \<noteq> '''' then trim (or_else rpcUrl '''')
      else if getCluster cluster = ''mainnet'' then ''https://rpc.revibase.com''
      else ''https://api.devnet.solana.com'')"

definition USDC_DECIMALS :: rat where "USDC_DECIMALS = 6"

definition getUsdcMint :: "string option \<Rightarrow> string" where
  "getUsdcMint cluster =
     (if isMainnet cluster then ''EPjFWdd5AufqSSqeM2qN1xzybapC8G4wEGGkZwyTDt1v''
      else ''4zMMC9srt5Ri5X14GAgXhaHii3GnPAEERYPJgZJDnm3'')"

record payment_token =
  pt_mint :: string
  pt_symbol :: string
  pt_name :: string
  pt_icon :: "string option"
  pt_decimals :: rat
  pt_tokenProgram :: string

text \<open>The address of the token program is a constant of its package; it is the parameter \<open>classic\<close>.\<close>

definition isClassicTokenProgram :: "string \<Rightarrow> string option \<Rightarrow> bool" where
  "isClassicTokenProgram classic program \<longleftrightarrow> program = Some classic"

definition defaultUsdcToken :: "string \<Rightarrow> string option \<Rightarrow> payment_token" where
  "defaultUsdcToken classic cluster =
     \<lparr>pt_mint = getUsdcMint cluster, pt_symbol = ''USDC'', pt_name = ''USD Coin'', pt_icon = Some ''/tokens/usdc.png'',
      pt_decimals = USDC_DECIMALS, pt_tokenProgram = classic\<rparr>"

record jupiter_token =
  jt_id :: "string option"
  jt_name :: "string option"
  jt_symbol :: "string option"
  jt_icon :: "string option"
  jt_decimals :: "rat option"
  jt_tokenProgram :: "string option"

definition or_text :: "string \<Rightarrow> string \<Rightarrow> string" where
  "or_text s d = (if s = '''' then d else s)"

definition mapToken :: "string \<Rightarrow> jupiter_token \<Rightarrow> payment_token option" where
  "mapToken classic raw =
     (let mint = trim (or_else (jt_id raw) '''') in
      if mint = '''' then None
      else if \<not> isClassicTokenProgram classic (Some (or_else (jt_tokenProgram raw) classic)) then None
      else case jt_decimals raw of
        None \<Rightarrow> None
      | Some decimals \<Rightarrow>
          if decimals < 0 then None
          else
            let symbol = or_text (trim (or_else (jt_symbol raw) '''')) (take 4 mint);
                name = or_text (trim (or_else (jt_name raw) '''')) symbol;
                icon = trim (or_else (jt_icon raw) '''') in
            Some \<lparr>pt_mint = mint, pt_symbol = symbol, pt_name = name, pt_icon = (if icon = '''' then None else Some icon),
              pt_decimals = decimals, pt_tokenProgram = classic\<rparr>)"

definition pinUsdc :: "string \<Rightarrow> string option \<Rightarrow> payment_token list \<Rightarrow> payment_token list" where
  "pinUsdc classic cluster tokens =
     (let usdc = defaultUsdcToken classic cluster in usdc # filter (\<lambda>t. pt_mint t \<noteq> pt_mint usdc) tokens)"

text \<open>The answer of the catalog: an error, a status that is not ok, a body that is no array, or the tokens.\<close>

datatype jupiter_answer = JupiterThrows | JupiterNotOk | JupiterOther | JupiterTokens "jupiter_token list"

definition fetchVerifiedTokensFromNetwork ::
  "string \<Rightarrow> string option \<Rightarrow> string option \<Rightarrow> jupiter_answer \<Rightarrow> payment_token list" where
  "fetchVerifiedTokensFromNetwork classic cluster apiKey answer =
     (if \<not> isMainnet cluster then [defaultUsdcToken classic cluster]
      else if trim (or_else apiKey '''') = '''' then [defaultUsdcToken classic cluster]
      else case answer of
        JupiterTokens raws \<Rightarrow> pinUsdc classic cluster (List.map_filter (mapToken classic) raws)
      | _ \<Rightarrow> [defaultUsdcToken classic cluster])"

definition CATALOG_TTL_MS :: int where "CATALOG_TTL_MS = 15 * 60 * 1000"

text \<open>The cache: what is served, and the cache afterwards.  The fetch returns at \<open>later\<close>.\<close>

definition fetchVerifiedTokens ::
  "payment_token list \<Rightarrow> int \<Rightarrow> int \<Rightarrow> (payment_token list \<times> int) option \<Rightarrow>
   payment_token list \<times> (payment_token list \<times> int) option" where
  "fetchVerifiedTokens fetched now later cache =
     (case cache of
        Some (tokens, fetchedAt) \<Rightarrow>
          if now - fetchedAt < CATALOG_TTL_MS then (tokens, cache) else (fetched, Some (fetched, later))
      | None \<Rightarrow> (fetched, Some (fetched, later)))"

subsection \<open>The two decoders agree\<close>

lemma resolveWalletInstruction_token:
  "resolveWalletInstruction K ix t acc = Inr q \<Longrightarrow> api_token_of K t ix = Inr (rw_phygitalToken q)"
  by (cases t)
    (auto simp: resolveWalletInstruction_def api_token_of_def token_account_def resolve_execute_def resolve_plain_def
      result_simps)

lemma api_loop_rest:
  "\<forall>ix \<in> set ixs. ix_program ix \<noteq> PHYGITAL_WALLET_PROGRAM_ADDRESS \<Longrightarrow> api_token_loop K t ixs = Inr t"
  by (induction ixs) auto

lemma api_loop_agrees:
  "resolve_loop K acc None ixs = Inr (Some q) \<Longrightarrow> rw_phygitalToken q \<noteq> '''' \<Longrightarrow>
     api_token_loop K '''' ixs = Inr (rw_phygitalToken q)"
proof (induction ixs)
  case (Cons ix ixs)
  show ?case
  proof (cases "ix_program ix = PHYGITAL_WALLET_PROGRAM_ADDRESS")
    case True
    with Cons.prems(1) obtain w t r where r: "asWalletInstruction ix = Inr w"
        "Option.bind (ix_data w) (identifyPhygitalWalletInstruction (sk_kit K)) = Some t"
        "resolveWalletInstruction K w t acc = Inr r" "resolve_loop K acc (Some r) ixs = Inr (Some q)"
      by (auto simp: result_simps)
    then have "\<forall>ix \<in> set ixs. ix_program ix \<noteq> PHYGITAL_WALLET_PROGRAM_ADDRESS" "q = r"
      by (auto simp: resolve_loop_Some SECP256R1_PROGRAM_def PHYGITAL_WALLET_PROGRAM_ADDRESS_def)
    with True r show ?thesis by (simp add: resolveWalletInstruction_token api_loop_rest kit_call_def)
  qed (use Cons in \<open>auto simp: result_simps\<close>)
qed simp

lemma decode_agrees_core:
  assumes "decodeWireTransaction K wire acc = Inr d" "ds_phygitalToken d \<noteq> ''''"
  shows "api_decodeWireTransaction K wire =
    Inr \<lparr>as_messageBytes = ds_messageBytes d, as_feePayer = ds_feePayer d, as_phygitalToken = ds_phygitalToken d\<rparr>"
proof -
  have payer: "ds_feePayer d \<noteq> ''''"
    using assms(1) by (auto simp: decodeWireTransaction_def result_simps split: option.splits if_splits)
  obtain bs tx compiled n topLevel r where h: "sk_base64Encode K wire = Some bs" "k_tx_decode (sk_kit K) bs = Some tx"
    "k_msg_read (sk_kit K) (kt_messageBytes tx) = Some (compiled, n)"
    "sk_instructions K compiled = Some topLevel" "ds_messageBytes d = kt_messageBytes tx"
    "nth_opt (sk_staticAccounts K compiled) 0 = Some (ds_feePayer d)"
    "resolve_loop K acc None topLevel = Inr (Some r)"
    "ds_phygitalToken d = rw_phygitalToken r" "ds_isFeePaying d = rw_isFeePaying r"
    by (rule decode_core [OF assms(1)])
  have "api_token_loop K '''' topLevel = Inr (ds_phygitalToken d)"
    using api_loop_agrees [OF h(7)] h(8) assms(2) by simp
  with h payer assms(2) show ?thesis
    by (simp add: api_decodeWireTransaction_def kit_call_def Let_def or_else_def del: nth_opt_Some_iff)
qed

text \<open>
  The API worker reads a transaction as its signer does.  Whatever the token signer decodes, with any
  top-up accumulator, the API worker decodes to the same message, fee payer and token, so a request is sent
  to the signer of the token the signature is then bound to, and none the signer would take is refused first.
\<close>
theorem api_decode_agrees:
  assumes "decodeWireTransaction K wire acc = Inr d" "ds_phygitalToken d \<noteq> ''''"
  shows "api_decodeWireTransaction K wire =
    Inr \<lparr>as_messageBytes = ds_messageBytes d, as_feePayer = ds_feePayer d, as_phygitalToken = ds_phygitalToken d\<rparr>"
  using assms by (rule decode_agrees_core)

theorem api_decode_agrees_witness:
  "\<exists>d. api_decodeWireTransaction sample_sign_kit ''wire'' = Inr d \<and> as_feePayer d = ''payer'' \<and> as_phygitalToken d = ''token''"
proof -
  show ?thesis
    by (rule exI, rule conjI, rule api_decode_agrees [OF zero_top_up_decoded]) simp_all
qed

subsection \<open>A request spends only its own token's balance\<close>

definition named_signer :: "string \<Rightarrow> token_signer \<Rightarrow> bool" where
  "named_signer t s \<longleftrightarrow> ts_name s = Some t \<and> (memo_token s = None \<or> memo_token s = Some t)"

text \<open>The signer of \<open>t\<close> once its token is memoised.\<close>

definition of_token :: "string \<Rightarrow> token_signer \<Rightarrow> bool" where
  "of_token t s \<longleftrightarrow> ts_name s = Some t \<and> memo_token s = Some t"

lemma of_token_updates [simp]:
  "of_token t (s\<lparr>ts_db := db\<rparr>) = of_token t s" "of_token t (s\<lparr>ts_backend := bk\<rparr>) = of_token t s"
  "of_token t (s\<lparr>ts_alarm := al\<rparr>) = of_token t s" "of_token t (s\<lparr>ts_storeMade := m\<rparr>) = of_token t s"
  "of_token t (releaseReserves ids s) = of_token t s"
  by (simp_all add: of_token_def memo_token_def releaseReserves_def)

lemma getStore_memo:
  assumes "getStore now s = (r, s')" "of_token t s"
  shows "of_token t s'"
  using assms
  by (auto simp: getStore_def and_then_def getToken_def ensure_in_store_def of_token_def [of t s]
      split: if_splits prod.splits sum.splits option.splits) (auto simp: of_token_def memo_token_def)

lemma bindToken_memo:
  assumes "bindToken u now s = (r, s')" "of_token t s"
  shows "of_token t s'" "r = Inr () \<Longrightarrow> trim u = t"
proof -
  show "r = Inr () \<Longrightarrow> trim u = t" using assms by (auto simp: bindToken_def Let_def throw_coded_def of_token_def split: if_splits)
  show "of_token t s'"
  proof (cases "trim u = t")
    case True
    have m: "of_token t (s\<lparr>ts_token := Some (trim u)\<rparr>)"
      using True assms(2) by (auto simp: of_token_def memo_token_def split: if_splits)
    obtain v s1 where g: "getStore now (s\<lparr>ts_token := Some (trim u)\<rparr>) = (v, s1)" by force
    have "of_token t s1" by (rule getStore_memo [OF g m])
    with g assms True show ?thesis
      by (auto simp: bindToken_def Let_def and_then_def ensure_in_store_def split: sum.splits prod.splits if_splits)
  next
    case False
    with assms show ?thesis by (auto simp: bindToken_def Let_def of_token_def)
  qed
qed

lemma sign_one_memo:
  assumes "sign_one K acc backend now ids wire s = (res, s')" "of_token t s"
  shows "of_token t s'"
    "res = Signed ids' sig p \<Longrightarrow> \<exists>d. decodeWireTransaction K wire acc = Inr d \<and> trim (ds_phygitalToken d) = t"
proof -
  have "of_token t s' \<and>
    (res = Signed ids' sig p \<longrightarrow> (\<exists>d. decodeWireTransaction K wire acc = Inr d \<and> trim (ds_phygitalToken d) = t))"
  proof (cases "decodeWireTransaction K wire acc")
    case (Inr d)
    obtain r s1 where b: "bindToken (ds_phygitalToken d) now s = (r, s1)" by force
    note m = bindToken_memo [OF b assms(2)]
    show ?thesis
    proof (cases r)
      case (Inr u)
      with m have m': "of_token t s1" "trim (ds_phygitalToken d) = t" by auto
      with assms(1) \<open>decodeWireTransaction K wire acc = Inr d\<close> b Inr show ?thesis
        by (auto simp: sign_one_def Let_def split: if_splits prod.splits bool.splits sum.splits)
    qed (use assms(1) \<open>decodeWireTransaction K wire acc = Inr d\<close> b m in \<open>auto simp: sign_one_def\<close>)
  qed (use assms in \<open>auto simp: sign_one_def\<close>)
  then show "of_token t s'"
    "res = Signed ids' sig p \<Longrightarrow> \<exists>d. decodeWireTransaction K wire acc = Inr d \<and> trim (ds_phygitalToken d) = t" by simp_all
qed

lemma sign_loop_memo:
  assumes "sign_loop K acc backend now ids sigs seen wires s = (res, s')" "of_token t s"
  shows "of_token t s' \<and> (\<forall>ids' sigs' seen'. res = LoopDone ids' sigs' seen' \<longrightarrow>
    length sigs' = length sigs + length wires \<and>
    list_all (\<lambda>w. \<exists>d. decodeWireTransaction K w acc = Inr d \<and> trim (ds_phygitalToken d) = t) wires)"
  using assms
proof (induction wires arbitrary: ids sigs seen s)
  case (Cons w ws)
  obtain r s1 where one: "sign_one K acc backend now ids w s = (r, s1)" by force
  note m = sign_one_memo [OF one Cons.prems(2)]
  show ?case
  proof (cases r)
    case (Signed ids1 sig p)
    with Cons.prems(1) one have "sign_loop K acc backend now ids1 (sigs @ [sig]) (Some p) ws s1 = (res, s')" by simp
    from Cons.IH [OF this m(1)] m(2) [OF Signed] show ?thesis by auto
  qed (use Cons.prems(1) one m in auto)
qed auto

lemma getToken_named:
  assumes "named_signer t s" "real_token t"
  shows "\<exists>s1. getToken s = (Inr t, s1) \<and> of_token t s1"
proof (cases "memo_token s")
  case None
  have name: "tokenFromName (ts_name s) = Inr t" using assms by (simp add: named_signer_def tokenFromName_def)
  have "of_token t (s\<lparr>ts_token := Some t\<rparr>)" using assms by (simp add: of_token_def memo_token_def named_signer_def)
  then show ?thesis by (simp add: getToken_def None name)
next
  case (Some u)
  with assms(1) have "u = t" "of_token t s" by (simp_all add: named_signer_def of_token_def)
  with Some show ?thesis by (simp add: getToken_def)
qed

lemma schedule_of_token: "scheduleReserveAlarm now s = (r, s') \<Longrightarrow> of_token t s \<Longrightarrow> of_token t s'"
proof -
  assume h: "scheduleReserveAlarm now s = (r, s')" "of_token t s"
  obtain v s1 where g: "getStore now s = (v, s1)" by force
  have "of_token t s1" by (rule getStore_memo [OF g h(2)])
  with g h(1) show ?thesis by (auto simp: scheduleReserveAlarm_def and_then_def split: sum.splits option.splits)
qed

lemma sign_try_of_token:
  assumes "sign_try K E wires now s = (res, s')" "of_token t s"
  shows "of_token t s' \<and> (\<forall>ids' sigs' seen'. res = LoopDone ids' sigs' seen' \<longrightarrow>
    length sigs' = length wires \<and>
    list_all (\<lambda>w. \<exists>d. decodeWireTransaction K w (trim (or_else (se_accumulator E) '''')) = Inr d \<and>
      trim (ds_phygitalToken d) = t) wires)"
proof (cases "getBackend K E s")
  case (Pair b s1)
  have s1: "of_token t s1" using Pair assms(2) by (auto simp: getBackend_def split: option.splits sum.splits)
  show ?thesis
  proof (cases b)
    case (Inr backend)
    obtain v s2 where g: "getStore now s1 = (v, s2)" by force
    have s2: "of_token t s2" by (rule getStore_memo [OF g s1])
    show ?thesis
    proof (cases v)
      case (Inr u)
      let ?acc = "trim (or_else (se_accumulator E) '''')"
      obtain lr s3 where lp: "sign_loop K ?acc backend now [] [] None wires (s2\<lparr>ts_db := expireReserves now (ts_db s2)\<rparr>) = (lr, s3)"
        by force
      have m: "of_token t s3 \<and> (\<forall>ids' sigs' seen'. lr = LoopDone ids' sigs' seen' \<longrightarrow> length sigs' = length wires \<and>
          list_all (\<lambda>w. \<exists>d. decodeWireTransaction K w ?acc = Inr d \<and> trim (ds_phygitalToken d) = t) wires)"
        using sign_loop_memo [OF lp, of t] s2 by simp
      have r: "(res, s') = (case (lr, s3) of
          (LoopDone reservedIds sigs seen, s3) \<Rightarrow>
            (case scheduleReserveAlarm now s3 of
               (Inl e, s4) \<Rightarrow> (LoopThrown e reservedIds, s4)
             | (Inr _, s4) \<Rightarrow> (LoopDone reservedIds sigs seen, s4))
        | r \<Rightarrow> r)"
        using assms(1) Pair \<open>b = Inr backend\<close> g Inr lp by (simp add: sign_try_def and_then_def on_db_def)
      show ?thesis
      proof (cases lr)
        case (LoopDone ids sigs seen)
        obtain x s4 where sc: "scheduleReserveAlarm now s3 = (x, s4)" by force
        have "of_token t s4" using schedule_of_token [OF sc] m by blast
        with r m LoopDone sc show ?thesis by (cases x) auto
      qed (use r m in auto)
    next
      case (Inl e)
      have "(res, s') = (LoopThrown e [], s2)"
        using assms(1) Pair \<open>b = Inr backend\<close> g Inl by (simp add: sign_try_def and_then_def)
      with s2 show ?thesis by simp
    qed
  qed (use assms Pair s1 in \<open>auto simp: sign_try_def\<close>)
qed

lemma signTransactions_of_token:
  assumes "named_signer t s" "real_token t" "signTransactions K E wires now s = (r, s')"
  shows "named_signer t s' \<and> (\<forall>sigs audit. r = Inr (SignOk sigs audit) \<longrightarrow> (\<exists>ws. wires = Some ws \<and> length sigs = length ws \<and>
    list_all (\<lambda>w. \<exists>d. decodeWireTransaction K w (trim (or_else (se_accumulator E) '''')) = Inr d \<and>
      trim (ds_phygitalToken d) = t) ws))"
proof -
  obtain s1 where t: "getToken s = (Inr t, s1)" "of_token t s1" using getToken_named [OF assms(1,2)] by blast
  have named: "of_token t x \<Longrightarrow> named_signer t x" for x by (simp add: of_token_def named_signer_def)
  show ?thesis
  proof (cases "wires = None \<or> wires = Some []")
    case True
    with assms(3) t show ?thesis by (auto simp: signTransactions_def and_then_def named)
  next
    case False
    then obtain ws where ws: "wires = Some ws" "ws \<noteq> []" by auto
    obtain lr s2 where tr: "sign_try K E ws now s1 = (lr, s2)" by force
    note m = sign_try_of_token [OF tr t(2)]
    show ?thesis
    proof (cases lr)
      case (LoopThrown e ids)
      obtain v s3 where g: "getStore now s2 = (v, s3)" by force
      have "of_token t s3" using getStore_memo [OF g] m by blast
      with assms(3) t ws tr LoopThrown g show ?thesis
        by (cases v) (auto simp: signTransactions_def and_then_def named)
    qed (use assms(3) t ws tr m named in \<open>auto simp: signTransactions_def and_then_def\<close>)
  qed
qed

definition named_signers :: "signers \<Rightarrow> bool" where
  "named_signers S \<longleftrightarrow> (\<forall>t. real_token t \<longrightarrow> named_signer t (S t))"

lemma named_signers_new: "named_signers new_signers"
  by (simp add: named_signers_def named_signer_def new_signers_def new_signer_def memo_token_def)

lemma call_signer_only: "call_signer link token m S = (r, S') \<Longrightarrow> u \<noteq> trim token \<Longrightarrow> S' u = S u"
  by (auto simp: call_signer_def Let_def split: if_splits signer_link.splits)

text \<open>
  C10: Whose balance a signature is taken from.  A request to sign changes at most one token's signer, that of
  the token its first transaction names.  When it is answered with signatures there is one for every
  transaction of the request, and each of these names that same token; the signers stay those of their tokens.
\<close>
theorem sign_spends_own_token:
  assumes "named_signers S" "post_sign K E link now r S = (reply, S')"
  shows "named_signers S' \<and> (\<exists>t. \<forall>u. u = t \<or> S' u = S u) \<and>
    (rp_status reply = 200 \<and> map fst (rp_body reply) = [''signatures''] \<longrightarrow>
      (\<exists>ws d t sigs. sq_body r = Inr (Some ws) \<and> api_decodeWireTransaction K (hd ws) = Inr d \<and>
        t = trim (as_phygitalToken d) \<and> (\<forall>u. u = t \<or> S' u = S u) \<and>
        rp_body reply = [(''signatures'', JArray (map JString sigs))] \<and> length sigs = length ws \<and>
        list_all (\<lambda>w. \<exists>q. decodeWireTransaction K w (trim (or_else (se_accumulator E) '''')) = Inr q \<and>
          trim (ds_phygitalToken q) = t) ws))"
proof (cases "\<exists>first rest d. sq_body r = Inr (Some (first # rest)) \<and> api_decodeWireTransaction K first = Inr d")
  case False
  have "S' = S \<and> map fst (rp_body reply) \<noteq> [''signatures'']"
    using assms(2) False
    by (auto simp: post_sign_def sign_caught_def signRouteJsonError_def json_error_def json_def Let_def
        split: sum.splits option.splits list.splits)
  with assms(1) show ?thesis by auto
next
  case True
  then obtain first rest d where h: "sq_body r = Inr (Some (first # rest))" "api_decodeWireTransaction K first = Inr d" by blast
  let ?t = "trim (as_phygitalToken d)"
  let ?m = "signTransactions K E (Some (first # rest)) now"
  obtain q S1 where c: "call_signer link (as_phygitalToken d) ?m S = (q, S1)" by force
  have S1: "S' = S1" using assms(2) h c by (auto simp: post_sign_def split: sum.splits)
  have only: "\<forall>u. u = ?t \<or> S' u = S u" using call_signer_only [OF c] S1 by blast
  obtain qm sm where run: "?m (S ?t) = (qm, sm)" by force
  have named: "named_signers S'"
  proof (cases "?t = ''''")
    case True
    with c S1 assms(1) show ?thesis by (auto simp: call_signer_def)
  next
    case False
    have "named_signer ?t (S ?t)" using assms(1) False by (simp add: named_signers_def)
    from signTransactions_of_token [OF this _ run] False have "named_signer ?t sm" by simp
    with c S1 assms(1) False run show ?thesis
      by (auto simp: call_signer_def Let_def named_signers_def split: signer_link.splits)
  qed
  have sigs: "\<exists>sigs. rp_body reply = [(''signatures'', JArray (map JString sigs))] \<and> length sigs = length (first # rest) \<and>
      list_all (\<lambda>w. \<exists>q. decodeWireTransaction K w (trim (or_else (se_accumulator E) '''')) = Inr q \<and>
        trim (ds_phygitalToken q) = ?t) (first # rest)"
    if "map fst (rp_body reply) = [''signatures'']"
  proof -
    note keys = that
    obtain sigs audit where ok: "q = Inr (SignOk sigs audit)"
      using assms(2) h c keys
      by (auto simp: post_sign_def sign_caught_def signRouteJsonError_def sign_reply_def refusal_reply_def json_def Let_def
          split: sum.splits sign_result.splits)
    then have ne: "?t \<noteq> ''''" and r: "qm = Inr (SignOk sigs audit)"
      using c run by (auto simp: call_signer_def Let_def split: if_splits signer_link.splits)
    have "named_signer ?t (S ?t)" using assms(1) ne by (simp add: named_signers_def)
    from signTransactions_of_token [OF this _ run] ne r
    show ?thesis using assms(2) h c ok by (auto simp: post_sign_def sign_reply_def json_def)
  qed
  have "\<exists>ws d t sigs. sq_body r = Inr (Some ws) \<and> api_decodeWireTransaction K (hd ws) = Inr d \<and>
      t = trim (as_phygitalToken d) \<and> (\<forall>u. u = t \<or> S' u = S u) \<and>
      rp_body reply = [(''signatures'', JArray (map JString sigs))] \<and> length sigs = length ws \<and>
      list_all (\<lambda>w. \<exists>q. decodeWireTransaction K w (trim (or_else (se_accumulator E) '''')) = Inr q \<and>
        trim (ds_phygitalToken q) = t) ws"
    if "map fst (rp_body reply) = [''signatures'']"
  proof -
    from sigs [OF that] obtain ss where ss: "rp_body reply = [(''signatures'', JArray (map JString ss))]"
        "length ss = length (first # rest)" "list_all (\<lambda>w. \<exists>q. decodeWireTransaction K w (trim (or_else (se_accumulator E) '''')) = Inr q \<and>
          trim (ds_phygitalToken q) = ?t) (first # rest)"
      by blast
    show ?thesis
      by (intro exI [of _ "first # rest"] exI [of _ d] exI [of _ ?t] exI [of _ ss] conjI) (use ss only h in simp_all)
  qed
  note out = this
  show ?thesis
  proof (intro conjI impI)
    show "named_signers S'" by (rule named)
    show "\<exists>t. \<forall>u. u = t \<or> S' u = S u" by (rule exI [of _ ?t]) (rule only)
  qed (elim conjE, rule out)
qed


definition sample_sign_request :: sign_request where
  "sample_sign_request = \<lparr>sq_body = Inr (Some [''wire'']), sq_meta = auditMeta None None None, sq_ms = 5\<rparr>"

definition sample_signers :: signers where
  "sample_signers = new_signers(''token'' := sample_signer)"

lemma sample_signers_named: "named_signers sample_signers"
proof -
  have "named_signer ''token'' sample_signer"
    by (simp add: named_signer_def sample_signer_def new_signer_def memo_token_def)
  then show ?thesis using named_signers_new by (simp add: named_signers_def sample_signers_def)
qed

lemma sample_post_sign:
  "let reply = fst (post_sign sample_sign_kit (sample_env_keys None) Delivered 30 sample_sign_request sample_signers) in
    rp_status reply = 200 \<and> map fst (rp_body reply) = [''signatures'']"
proof -
  have t: "trim ''token'' = ''token''" by code_simp
  have d: "api_decodeWireTransaction sample_sign_kit ''wire'' =
      Inr \<lparr>as_messageBytes = [1, 2, 3], as_feePayer = ''payer'', as_phygitalToken = ''token''\<rparr>"
    using decode_agrees_core [OF zero_top_up_decoded] by simp
  show ?thesis
    using sample_request
    by (simp add: post_sign_def sample_sign_request_def d call_signer_def t sample_signers_def sign_reply_def json_def)
qed

theorem sign_spends_own_token_witness:
  "\<exists>sigs. rp_body (fst (post_sign sample_sign_kit (sample_env_keys None) Delivered 30 sample_sign_request sample_signers)) =
     [(''signatures'', JArray (map JString sigs))] \<and> length sigs = 1"
proof -
  let ?run = "post_sign sample_sign_kit (sample_env_keys None) Delivered 30 sample_sign_request sample_signers"
  have "?run = (fst ?run, snd ?run)" by simp
  from sign_spends_own_token [OF sample_signers_named this] sample_post_sign
  show ?thesis by (auto simp: sample_sign_request_def Let_def)
qed

subsection \<open>The balance on display\<close>

lemma lamportsToSolUi_exact: "0 \<le> n \<Longrightarrow> decimal_value (lamportsToSolUi n) = of_int n / 1000000000"
proof -
  assume n: "0 \<le> n"
  let ?x = "(of_int n :: rat) / 1000000000"
  have f: "\<lfloor>?x * 10 ^ 9 + 1 / 2\<rfloor> = n"
  proof (rule floor_unique)
    show "of_int n \<le> ?x * 10 ^ 9 + 1 / 2" "?x * 10 ^ 9 + 1 / 2 < of_int n + 1" by simp_all
  qed
  have "lamportsToSolUi n = strip_zeros (to_fixed 9 ?x)"
    using n fixed_value(2) [of 9 ?x] by (simp add: lamportsToSolUi_def Let_def)
  then show ?thesis using fixed_value(1) [of 9 ?x] n unfolding f by simp
qed

text \<open>
  The fee balance a browser sees.  The route answers with a balance only to an admit session of the token
  asked about; it then gives the balance of this token's ledger after a first-time grant, what is reserved,
  and what is available, which is the difference or nothing, and its text in SOL is exact; it is called low
  exactly below a thousandth of a SOL.  The signers of other tokens are not touched.
\<close>
theorem fee_balance_is_exact:
  assumes "get_fee_balance K secret isAddress Delivered now r S = (reply, S')" "rp_status reply = 200"
  shows "\<exists>t b res av ui low. (map_option sp_head (readBrowseUnlock K secret (br_cookies r) now) = Some t \<or>
      map_option sp_head (readOwnerBrowse K secret (br_cookies r) now) = Some t) \<and> t = trim (or_else (br_token r) '''') \<and>
    rp_body reply = [(''balanceLamports'', JString (int_text b)), (''availableLamports'', JString (int_text av)),
      (''reservedLamports'', JString (int_text res)), (''balanceUi'', JString ui), (''low'', JBool low)] \<and>
    b = getFeeBalanceLamports (ts_db (S' t)) \<and> res = getReservedLamports (int now) (ts_db (S' t)) \<and>
    av = max 0 (b - res) \<and> decimal_value ui = of_int av / 1000000000 \<and> (low \<longleftrightarrow> av < 1000000) \<and>
    (\<forall>u. u = t \<or> S' u = S u)"
proof -
  let ?t = "trim (or_else (br_token r) '''')"
  from assms obtain b res av where h: "?t \<noteq> ''''"
      "map_option sp_head (readBrowseUnlock K secret (br_cookies r) now) = Some ?t \<or>
       map_option sp_head (readOwnerBrowse K secret (br_cookies r) now) = Some ?t"
      "call_signer Delivered ?t (getFeeBalance (int now)) S = (Inr (b, res, av), S')"
      "rp_body reply = [(''balanceLamports'', JString (int_text b)), (''availableLamports'', JString (int_text av)),
        (''reservedLamports'', JString (int_text res)), (''balanceUi'', JString (lamportsToSolUi av)),
        (''low'', JBool (av < FEE_BALANCE_LOW_LAMPORTS))]"
    by (auto simp: get_fee_balance_def tryParseAddress_def json_def json_error_def
        split: option.splits if_splits sum.splits prod.splits)
  obtain s' where s': "getFeeBalance (int now) (S ?t) = (Inr (b, res, av), s')" "S' = S(?t := s')"
    using h(1,3) by (auto simp: call_signer_def Let_def prod_eq_iff)
  then have v: "b = getFeeBalanceLamports (ts_db s')" "res = getReservedLamports (int now) (ts_db s')" "av = max 0 (b - res)"
    by (auto simp: getFeeBalance_def and_then_Inr Let_def)
  then have "0 \<le> av" by simp
  from lamportsToSolUi_exact [OF this] h s'(2) v show ?thesis
    by (intro exI [of _ ?t] exI [of _ b] exI [of _ res] exI [of _ av] exI [of _ "lamportsToSolUi av"]
        exI [of _ "av < FEE_BALANCE_LOW_LAMPORTS"]) (simp add: FEE_BALANCE_LOW_LAMPORTS_def)
qed

theorem fee_balance_is_exact_witness:
  "\<exists>cookies reply S'. get_fee_balance sample_api_kit (Some ''s3cret'') (\<lambda>_. True) Delivered 2000
       \<lparr>br_token = Some ''Tok'', br_cookies = cookies\<rparr> new_signers = (reply, S') \<and>
     getFeeBalanceLamports (ts_db (S' ''Tok'')) = 1000000 \<and>
     (\<exists>ui. (''balanceUi'', JString ui) \<in> set (rp_body reply) \<and> decimal_value ui = 1 / 1000)"
proof -
  from sample_unlock obtain e changes where "issueBrowseUnlockCookie sample_api_kit (Some ''s3cret'') None ''Tok'' 1000 ''j1'' = Inr (e, changes)" .
  note adm = sample_admitted [OF this]
  define r where "r = \<lparr>br_token = Some ''Tok'', br_cookies = fold apply_change changes Map.empty\<rparr>"
  let ?run = "get_fee_balance sample_api_kit (Some ''s3cret'') (\<lambda>_. True) Delivered 2000 r new_signers"
  have tok: "trim ''Tok'' = ''Tok''" by code_simp
  have in_: "map_option sp_head (readBrowseUnlock sample_api_kit (Some ''s3cret'') (br_cookies r) 2000) = Some ''Tok'' \<or>
      map_option sp_head (readOwnerBrowse sample_api_kit (Some ''s3cret'') (br_cookies r) 2000) = Some ''Tok''"
    using adm by (auto simp: admit_token_def r_def split: option.splits)
  have bal: "fst (getFeeBalance 2000 (new_signers ''Tok'')) = Inr (1000000, 0, 1000000)"
    "getFeeBalanceLamports (ts_db (snd (getFeeBalance 2000 (new_signers ''Tok'')))) = 1000000"
    by code_simp+
  obtain s' where s': "getFeeBalance 2000 (new_signers ''Tok'') = (Inr (1000000, 0, 1000000), s')"
    using bal(1) by (metis prod.collapse)
  have run: "?run = (fst ?run, snd ?run)" by simp
  have shape: "rp_status (fst ?run) = 200" "snd ?run = new_signers(''Tok'' := s')"
    using in_ s' by (auto simp: get_fee_balance_def r_def tryParseAddress_def tok call_signer_def json_def)
  obtain t b res av ui low where h: "t = trim (or_else (br_token r) '''')" "(''balanceUi'', JString ui) \<in> set (rp_body (fst ?run))"
      "b = getFeeBalanceLamports (ts_db (snd ?run t))" "res = getReservedLamports 2000 (ts_db (snd ?run t))" "av = max 0 (b - res)"
      "decimal_value ui = of_int av / 1000000000"
    using fee_balance_is_exact [OF run shape(1)] by auto
  have b: "getFeeBalanceLamports (ts_db s') = 1000000" using bal(2) s' by simp
  have "getReservedLamports 2000 (ts_db s') = 0"
    using s' by (auto simp: getFeeBalance_def and_then_Inr Let_def)
  moreover have "t = ''Tok''" using h(1) by (simp add: r_def tok)
  then have "snd ?run t = s'" unfolding shape(2) by simp
  ultimately have "decimal_value ui = 1 / 1000" using h(3-6) b by simp
  then have "\<exists>ui. (''balanceUi'', JString ui) \<in> set (rp_body (fst ?run)) \<and> decimal_value ui = 1 / 1000" using h(2) by blast
  moreover have "getFeeBalanceLamports (ts_db (snd ?run ''Tok'')) = 1000000" unfolding shape(2) by (simp add: b)
  ultimately show ?thesis using run unfolding r_def by blast
qed

subsection \<open>The catalog\<close>

definition token_ok :: "string \<Rightarrow> payment_token \<Rightarrow> bool" where
  "token_ok classic t \<longleftrightarrow>
     trim (pt_mint t) = pt_mint t \<and> pt_mint t \<noteq> '''' \<and> pt_symbol t \<noteq> '''' \<and> pt_name t \<noteq> '''' \<and>
     0 \<le> pt_decimals t \<and> pt_tokenProgram t = classic \<and> pt_icon t \<noteq> Some ''''"

lemma mapToken_ok: "mapToken classic raw = Some t \<Longrightarrow> token_ok classic t"
  by (auto simp: mapToken_def token_ok_def Let_def or_text_def split: option.splits if_splits)

lemma usdc_ok: "token_ok classic (defaultUsdcToken classic cluster)"
proof -
  have "trim (getUsdcMint cluster) = getUsdcMint cluster" "getUsdcMint cluster \<noteq> ''''"
    by (simp_all add: getUsdcMint_def trim_id is_space_def)
  then show ?thesis by (simp add: token_ok_def defaultUsdcToken_def USDC_DECIMALS_def)
qed

definition catalog_ok :: "string \<Rightarrow> string option \<Rightarrow> payment_token list \<Rightarrow> bool" where
  "catalog_ok classic cluster tokens \<longleftrightarrow>
     list_all (token_ok classic) tokens \<and> (\<exists>rest. tokens = defaultUsdcToken classic cluster # rest \<and>
       getUsdcMint cluster \<notin> set (map pt_mint rest))"

lemma network_catalog_ok: "catalog_ok classic cluster (fetchVerifiedTokensFromNetwork classic cluster apiKey answer)"
proof -
  have "list_all (token_ok classic) (filter P (List.map_filter (mapToken classic) raws))" for P raws
    by (auto simp: list_all_iff List.map_filter_def dest: mapToken_ok)
  then show ?thesis
    using usdc_ok [of classic cluster]
    by (auto simp: catalog_ok_def fetchVerifiedTokensFromNetwork_def pinUsdc_def Let_def defaultUsdcToken_def [of classic cluster]
        split: jupiter_answer.split)
qed

text \<open>A run of requests: the time of each, the answer the catalog would give it, and the time the answer is in.\<close>

fun serve_tokens ::
  "string \<Rightarrow> string option \<Rightarrow> string option \<Rightarrow> (int \<times> jupiter_answer \<times> int) list \<Rightarrow> (payment_token list \<times> int) option \<Rightarrow>
   payment_token list list" where
  "serve_tokens classic cluster apiKey [] cache = []"
| "serve_tokens classic cluster apiKey ((now, answer, later) # rest) cache =
     (let (tokens, cache') = fetchVerifiedTokens (fetchVerifiedTokensFromNetwork classic cluster apiKey answer) now later cache in
      tokens # serve_tokens classic cluster apiKey rest cache')"

lemma serve_tokens_ok:
  "(\<forall>tokens t. cache = Some (tokens, t) \<longrightarrow> catalog_ok classic cluster tokens) \<Longrightarrow>
     list_all (catalog_ok classic cluster) (serve_tokens classic cluster apiKey rs cache)"
proof (induction rs arbitrary: cache)
  case (Cons r rs)
  obtain now answer later where r: "r = (now, answer, later)" by (metis prod_cases3)
  let ?f = "fetchVerifiedTokensFromNetwork classic cluster apiKey answer"
  obtain tokens cache' where f: "fetchVerifiedTokens ?f now later cache = (tokens, cache')" by force
  have "catalog_ok classic cluster tokens \<and> (\<forall>tokens t. cache' = Some (tokens, t) \<longrightarrow> catalog_ok classic cluster tokens)"
    using f Cons.prems network_catalog_ok [of classic cluster apiKey answer]
    by (auto simp: fetchVerifiedTokens_def split: option.splits if_splits)
  with Cons.IH [of cache'] show ?case by (simp add: r f)
qed simp

text \<open>
  Every catalog of tokens that is served is well-formed.  Whatever the external catalog answers, and
  however requests hit or miss the cache, each reply lists the cluster's USDC first and under no other entry, and
  only tokens of the classic program, with a trimmed mint, a symbol, a name and a number of decimals of at least zero.
\<close>
theorem served_catalogs_are_wellformed:
  "list_all (catalog_ok classic cluster) (serve_tokens classic cluster apiKey requests None)"
  by (rule serve_tokens_ok) simp

end
