(* ===== verification/OptimisticCache.thy ===== *)
theory OptimisticCache
  imports WalletTx PolicyEditor TxRoutes
begin

text \<open>
  The application's cache of queries: its keys (\<^verbatim>\<open>queries/keys.ts\<close>), the patches made when a transaction was
  accepted and their rollback when its confirmation fails (\<^verbatim>\<open>queries/mutations.ts\<close>), and the flows that
  combine them (\<^verbatim>\<open>send-flow.tsx\<close>, \<^verbatim>\<open>receive-nearby-panel.tsx\<close>, \<^verbatim>\<open>fee-balance-panel.tsx\<close>,
  \<^verbatim>\<open>use-claim-accessory.ts\<close>, \<^verbatim>\<open>use-unlink-accessory.ts\<close>, \<^verbatim>\<open>use-set-wallet-policy.ts\<close>,
  \<^verbatim>\<open>use-clear-wallet-policy.ts\<close>).

  The cache itself is \<^verbatim>\<open>@tanstack/react-query\<close>, a parameter: the record \<open>query_client\<close>, whose documented
  behaviour is \<open>query_client_ok\<close>.  A refetch is a change of the cache made by others; here a query that was
  invalidated is only marked stale.
\<close>

subsection \<open>Keys and data\<close>

datatype key_part = KText string | KNum nat | KNull

type_synonym query_key = "key_part list"

definition nullable :: "string option \<Rightarrow> key_part" where
  "nullable t = (case t of None \<Rightarrow> KNull | Some s \<Rightarrow> KText s)"

definition walletPortfolio_all :: query_key where "walletPortfolio_all = [KText ''walletPortfolio'']"
definition walletPortfolio_byOwner :: "string option \<Rightarrow> query_key" where
  "walletPortfolio_byOwner owner = walletPortfolio_all @ [nullable owner]"

definition walletActivity_all :: query_key where "walletActivity_all = [KText ''walletActivity'']"
definition walletActivity_byOwner :: "string option \<Rightarrow> nat \<Rightarrow> string option \<Rightarrow> query_key" where
  "walletActivity_byOwner owner limit cursor = walletActivity_all @ [nullable owner, KNum limit, nullable cursor]"

definition feeBalance_byToken :: "string option \<Rightarrow> query_key" where
  "feeBalance_byToken token = [KText ''feeBalance'', nullable token]"

definition tokenAuthority_byToken :: "string option \<Rightarrow> query_key" where
  "tokenAuthority_byToken token = [KText ''tokenAuthority'', nullable token]"

definition walletPolicy_byToken :: "string option \<Rightarrow> query_key" where
  "walletPolicy_byToken token = [KText ''walletPolicy'', nullable token]"

definition ownedAccessories_byAuthority :: "string option \<Rightarrow> query_key" where
  "ownedAccessories_byAuthority authority = [KText ''ownedAccessories'', nullable authority]"

definition phygitalToken_all :: query_key where "phygitalToken_all = [KText ''phygitalTokens'']"

record portfolio =
  po_holdings :: "holding list"
  po_collectibles :: "collectible list"

record fee_balance =
  fb_lamports :: int
  fb_ui :: string
  fb_low :: bool

datatype flow_dir = FlowIn | FlowOut

record app_activity =
  aa_id :: string
  aa_walletAddress :: string
  aa_kind :: string
  aa_title :: string
  aa_subtitle :: "string option"
  aa_amountLabel :: "string option"
  aa_deltas :: "(string \<times> flow_dir \<times> string) list"
  aa_statusLabel :: "string option"
  aa_timestamp :: "int option"
  aa_signature :: "string option"
  aa_mint :: "string option"
  aa_detail :: "js option"
  aa_pending :: bool
  aa_source :: string

record activity_page =
  ap_items :: "app_activity list"
  ap_nextCursor :: "string option"

record token_authority =
  to_isClaimed :: bool
  to_authority :: "string option"

text \<open>What the queries the code patches hold; a \<open>phygitalTokens\<close> query holds an account with an address, or null.\<close>

datatype cached =
    PortfolioData portfolio
  | FeeData fee_balance
  | PageData activity_page
  | AuthorityData token_authority
  | ViewData policy_view
  | OwnedData "string list"
  | TokenData "string option"
  | OtherData nat

text \<open>The type argument of \<open>getQueryData\<close> is a cast; a key always holds data of its own type, see \<open>key_fits\<close>.\<close>

definition as_portfolio :: "cached option \<Rightarrow> portfolio option" where
  "as_portfolio d = (case d of Some (PortfolioData p) \<Rightarrow> Some p | _ \<Rightarrow> None)"
definition as_fee :: "cached option \<Rightarrow> fee_balance option" where
  "as_fee d = (case d of Some (FeeData b) \<Rightarrow> Some b | _ \<Rightarrow> None)"
definition as_page :: "cached option \<Rightarrow> activity_page option" where
  "as_page d = (case d of Some (PageData p) \<Rightarrow> Some p | _ \<Rightarrow> None)"
definition as_authority :: "cached option \<Rightarrow> token_authority option" where
  "as_authority d = (case d of Some (AuthorityData a) \<Rightarrow> Some a | _ \<Rightarrow> None)"
definition as_policy :: "cached option \<Rightarrow> policy_view option" where
  "as_policy d = (case d of Some (ViewData v) \<Rightarrow> Some v | _ \<Rightarrow> None)"
definition as_owned :: "cached option \<Rightarrow> string list option" where
  "as_owned d = (case d of Some (OwnedData ts) \<Rightarrow> Some ts | _ \<Rightarrow> None)"

text \<open>
  The query client.  \<open>qc_set\<close> is \<open>setQueryData\<close>, \<open>qc_remove\<close> and \<open>qc_invalidate\<close> act on every query whose
  key starts with the given one (and, for the second, that the predicate takes), \<open>qc_findAll\<close> lists the
  keys of the queries that start with it, those that have no data yet included.
\<close>

record 'q query_client =
  qc_get :: "'q \<Rightarrow> query_key \<Rightarrow> cached option"
  qc_set :: "query_key \<Rightarrow> cached \<Rightarrow> 'q \<Rightarrow> 'q"
  qc_remove :: "query_key \<Rightarrow> 'q \<Rightarrow> 'q"
  qc_invalidate :: "query_key \<Rightarrow> (query_key \<Rightarrow> cached option \<Rightarrow> bool) \<Rightarrow> 'q \<Rightarrow> 'q"
  qc_stale :: "'q \<Rightarrow> query_key \<Rightarrow> bool"
  qc_findAll :: "query_key \<Rightarrow> 'q \<Rightarrow> query_key list"

text \<open>\<open>setQueryData\<close> with an updater that may return \<open>undefined\<close>, which changes nothing.\<close>

definition update_query :: "'q query_client \<Rightarrow> query_key \<Rightarrow> (cached option \<Rightarrow> cached option) \<Rightarrow> 'q \<Rightarrow> 'q" where
  "update_query Q k f q = (case f (qc_get Q q k) of None \<Rightarrow> q | Some d \<Rightarrow> qc_set Q k d q)"

subsection \<open>Balances\<close>

definition app_lamportsToSolUi :: "int \<Rightarrow> string" where
  "app_lamportsToSolUi lamports = lamportsToSolUi lamports"

definition app_MIN_ATTEMPT_FEE_LAMPORTS :: int where "app_MIN_ATTEMPT_FEE_LAMPORTS = 100000"
definition app_FEE_BALANCE_LOW_LAMPORTS :: int where "app_FEE_BALANCE_LOW_LAMPORTS = 1000000"

text \<open>\<open>usd\<close> is the product of two JavaScript numbers, the first read from a text; a failed parse keeps the holding.\<close>

definition adjustHolding :: "(string \<Rightarrow> rat \<Rightarrow> rat) \<Rightarrow> string \<Rightarrow> flow_dir \<Rightarrow> holding \<Rightarrow> holding" where
  "adjustHolding usd amountUi dir h =
     (case (uiAmountToRaw amountUi (ho_decimals h), BigInt (ho_balanceRaw h)) of
        (Inr delta, Some current) \<Rightarrow>
          let nextRaw = (if dir = FlowOut then if delta < current then current - delta else 0 else current + delta);
              balanceUi = formatAmount nextRaw (ho_decimals h) in
          h\<lparr>ho_balanceRaw := int_text nextRaw, ho_balanceUi := balanceUi,
            ho_valueUsd := (case ho_price h of Some p \<Rightarrow> Some (usd balanceUi p) | None \<Rightarrow> ho_valueUsd h)\<rparr>
      | _ \<Rightarrow> h)"

record portfolio_delta =
  pd_owner :: string
  pd_mint :: string
  pd_amountUi :: string
  pd_direction :: flow_dir
  pd_removeCollectible :: bool

definition patched_portfolio :: "(string \<Rightarrow> rat \<Rightarrow> rat) \<Rightarrow> portfolio_delta \<Rightarrow> portfolio \<Rightarrow> portfolio" where
  "patched_portfolio usd a p =
     (if pd_removeCollectible a then p\<lparr>po_collectibles := filter (\<lambda>c. co_mint c \<noteq> pd_mint a) (po_collectibles p)\<rparr>
      else p\<lparr>po_holdings := map (\<lambda>h. if ho_mint h = pd_mint a then adjustHolding usd (pd_amountUi a) (pd_direction a) h else h)
          (po_holdings p)\<rparr>)"

definition applyOptimisticPortfolioDelta ::
  "'q query_client \<Rightarrow> (string \<Rightarrow> rat \<Rightarrow> rat) \<Rightarrow> portfolio_delta \<Rightarrow> 'q \<Rightarrow> portfolio option \<times> 'q" where
  "applyOptimisticPortfolioDelta Q usd a q =
     (let key = walletPortfolio_byOwner (Some (pd_owner a)) in
      (as_portfolio (qc_get Q q key),
       update_query Q key (\<lambda>prev. map_option (PortfolioData \<circ> patched_portfolio usd a) (as_portfolio prev)) q))"

definition restorePortfolioSnapshot :: "'q query_client \<Rightarrow> string \<Rightarrow> portfolio option \<Rightarrow> 'q \<Rightarrow> 'q" where
  "restorePortfolioSnapshot Q owner previous q =
     (let key = walletPortfolio_byOwner (Some owner) in
      case previous of
        None \<Rightarrow> qc_invalidate Q key (\<lambda>_ _. True) q
      | Some p \<Rightarrow> qc_set Q key (PortfolioData p) q)"

text \<open>Lamports are exact, as they are for \<open>Number\<close> below \<open>2 ^ 53\<close>.\<close>

definition patched_fee :: "string \<Rightarrow> flow_dir \<Rightarrow> fee_balance option \<Rightarrow> fee_balance option" where
  "patched_fee amountUi dir prev =
     (case uiAmountToRaw amountUi SOL_DECIMALS of
        Inl _ \<Rightarrow> prev
      | Inr delta \<Rightarrow>
          if delta \<le> 0 then prev
          else
            let current = (case prev of None \<Rightarrow> 0 | Some b \<Rightarrow> fb_lamports b);
                nextLamports = (if dir = FlowOut then max 0 (current - delta) else current + delta) in
            Some \<lparr>fb_lamports = nextLamports, fb_ui = app_lamportsToSolUi nextLamports,
              fb_low = (nextLamports < app_FEE_BALANCE_LOW_LAMPORTS)\<rparr>)"

definition applyOptimisticFeeBalance ::
  "'q query_client \<Rightarrow> string \<Rightarrow> string \<Rightarrow> flow_dir \<Rightarrow> 'q \<Rightarrow> fee_balance option \<times> 'q" where
  "applyOptimisticFeeBalance Q token amountUi dir q =
     (let key = feeBalance_byToken (Some token) in
      (as_fee (qc_get Q q key), update_query Q key (\<lambda>prev. map_option FeeData (patched_fee amountUi dir (as_fee prev))) q))"

definition restoreFeeBalanceSnapshot :: "'q query_client \<Rightarrow> string \<Rightarrow> fee_balance option \<Rightarrow> 'q \<Rightarrow> 'q" where
  "restoreFeeBalanceSnapshot Q token previous q =
     (let key = feeBalance_byToken (Some token) in
      case previous of
        None \<Rightarrow> qc_invalidate Q key (\<lambda>_ _. True) q
      | Some b \<Rightarrow> qc_set Q key (FeeData b) q)"

subsection \<open>The list of transactions\<close>

definition ACTIVITY_FIRST_PAGE_LIMITS :: "nat list" where "ACTIVITY_FIRST_PAGE_LIMITS = [20, 40]"

text \<open>\<open>queryKey[3] == null\<close> also holds for a key without a fourth part.\<close>

definition isOwnerActivityFirstPage :: "query_key \<Rightarrow> string \<Rightarrow> bool" where
  "isOwnerActivityFirstPage k owner \<longleftrightarrow>
     take 2 k = [KText ''walletActivity'', KText owner] \<and> (length k \<le> 3 \<or> k ! 3 = KNull)"

definition prependActivityItem :: "activity_page option \<Rightarrow> app_activity \<Rightarrow> activity_page" where
  "prependActivityItem page item =
     \<lparr>ap_items = item # filter (\<lambda>r. aa_id r \<noteq> aa_id item) (case page of None \<Rightarrow> [] | Some p \<Rightarrow> ap_items p),
      ap_nextCursor = (case page of None \<Rightarrow> None | Some p \<Rightarrow> ap_nextCursor p)\<rparr>"

text \<open>The map of the keys, by their JSON text: a key that is there keeps its place.\<close>

definition addKey :: "query_key \<Rightarrow> query_key list \<Rightarrow> query_key list" where
  "addKey k ks = (if k \<in> set ks then ks else ks @ [k])"

definition activity_keys :: "'q query_client \<Rightarrow> string \<Rightarrow> 'q \<Rightarrow> query_key list" where
  "activity_keys Q owner q =
     fold addKey
       (filter (\<lambda>k. isOwnerActivityFirstPage k owner) (qc_findAll Q walletActivity_all q) @
        map (\<lambda>limit. walletActivity_byOwner (Some owner) limit None) ACTIVITY_FIRST_PAGE_LIMITS) []"

type_synonym activity_snapshot = "(query_key \<times> activity_page option) list"

definition prepend_at :: "'q query_client \<Rightarrow> app_activity \<Rightarrow> query_key \<Rightarrow> activity_snapshot \<times> 'q \<Rightarrow> activity_snapshot \<times> 'q" where
  "prepend_at Q item k = (\<lambda>(snapshot, q).
     (snapshot @ [(k, as_page (qc_get Q q k))],
      update_query Q k (\<lambda>prev. Some (PageData (prependActivityItem (as_page prev) item))) q))"

definition applyOptimisticWalletActivity :: "'q query_client \<Rightarrow> app_activity \<Rightarrow> 'q \<Rightarrow> activity_snapshot \<times> 'q" where
  "applyOptimisticWalletActivity Q item q = fold (prepend_at Q item) (activity_keys Q (aa_walletAddress item) q) ([], q)"

definition patched_page :: "string \<Rightarrow> (app_activity \<Rightarrow> app_activity) \<Rightarrow> activity_page \<Rightarrow> activity_page" where
  "patched_page i patch p = p\<lparr>ap_items := map (\<lambda>r. if aa_id r = i then patch r else r) (ap_items p)\<rparr>"

definition patch_page_at ::
  "'q query_client \<Rightarrow> string \<Rightarrow> (app_activity \<Rightarrow> app_activity) \<Rightarrow> query_key \<Rightarrow> 'q \<Rightarrow> 'q" where
  "patch_page_at Q i patch k = update_query Q k (\<lambda>prev. map_option (PageData \<circ> patched_page i patch) (as_page prev))"

definition patchOptimisticWalletActivity ::
  "'q query_client \<Rightarrow> string \<Rightarrow> string \<Rightarrow> (app_activity \<Rightarrow> app_activity) \<Rightarrow> 'q \<Rightarrow> 'q" where
  "patchOptimisticWalletActivity Q owner i patch q =
     fold (patch_page_at Q i patch) (filter (\<lambda>k. isOwnerActivityFirstPage k owner) (qc_findAll Q walletActivity_all q)) q"

definition restore_page :: "'q query_client \<Rightarrow> query_key \<times> activity_page option \<Rightarrow> 'q \<Rightarrow> 'q" where
  "restore_page Q = (\<lambda>(k, previous) q. case previous of None \<Rightarrow> qc_remove Q k q | Some p \<Rightarrow> qc_set Q k (PageData p) q)"

definition restoreWalletActivitySnapshot :: "'q query_client \<Rightarrow> activity_snapshot option \<Rightarrow> 'q \<Rightarrow> 'q" where
  "restoreWalletActivitySnapshot Q snapshot q =
     (case snapshot of None \<Rightarrow> q | Some entries \<Rightarrow> fold (restore_page Q) entries q)"

subsection \<open>Invalidation\<close>

definition uniq :: "string option list \<Rightarrow> string list" where
  "uniq vs = fold (\<lambda>v acc. if v \<in> set acc then acc else acc @ [v])
     (concat (map (\<lambda>v. case v of None \<Rightarrow> [] | Some s \<Rightarrow> if s = '''' then [] else [s]) vs)) []"

definition invalidateWalletBalances :: "'q query_client \<Rightarrow> string option list \<Rightarrow> string option list \<Rightarrow> 'q \<Rightarrow> 'q" where
  "invalidateWalletBalances Q wallets tokens q =
     fold (\<lambda>t. qc_invalidate Q (feeBalance_byToken (Some t)) (\<lambda>_ _. True)) (uniq tokens)
       (fold (\<lambda>w. qc_invalidate Q (walletPortfolio_byOwner (Some w)) (\<lambda>_ _. True)) (uniq wallets) q)"

definition cachedTokenAddress :: "cached option \<Rightarrow> string option" where
  "cachedTokenAddress d = (case d of Some (TokenData a) \<Rightarrow> a | _ \<Rightarrow> None)"

definition invalidatePhygitalToken :: "'q query_client \<Rightarrow> string option \<Rightarrow> 'q \<Rightarrow> 'q" where
  "invalidatePhygitalToken Q tokenAddress q =
     (case tokenAddress of
        None \<Rightarrow> qc_invalidate Q phygitalToken_all (\<lambda>_ _. True) q
      | Some a \<Rightarrow>
          if a = '''' then qc_invalidate Q phygitalToken_all (\<lambda>_ _. True) q
          else qc_invalidate Q phygitalToken_all
            (\<lambda>k d. take 2 (drop 1 k) = [KText ''address'', KText a] \<or> cachedTokenAddress d = Some a) q)"

definition invalidateRpcDependentQueries :: "'q query_client \<Rightarrow> 'q \<Rightarrow> 'q" where
  "invalidateRpcDependentQueries Q q = qc_invalidate Q walletPortfolio_all (\<lambda>_ _. True) q"

definition watchTransactionConfirmation :: "bool \<Rightarrow> ('q \<Rightarrow> 'q) \<Rightarrow> 'q \<Rightarrow> 'q" where
  "watchTransactionConfirmation confirmed rollback q = (if confirmed then q else rollback q)"

subsection \<open>Ownership and policy\<close>

definition applyOptimisticTokenAuthority ::
  "'q query_client \<Rightarrow> string \<Rightarrow> token_authority \<Rightarrow> 'q \<Rightarrow> token_authority option \<times> 'q" where
  "applyOptimisticTokenAuthority Q token nxt q =
     (let key = tokenAuthority_byToken (Some token) in (as_authority (qc_get Q q key), qc_set Q key (AuthorityData nxt) q))"

definition restoreTokenAuthoritySnapshot :: "'q query_client \<Rightarrow> string \<Rightarrow> token_authority option \<Rightarrow> 'q \<Rightarrow> 'q" where
  "restoreTokenAuthoritySnapshot Q token previous q =
     (let key = tokenAuthority_byToken (Some token) in
      case previous of None \<Rightarrow> qc_remove Q key q | Some a \<Rightarrow> qc_set Q key (AuthorityData a) q)"

definition applyOptimisticWalletPolicy :: "'q query_client \<Rightarrow> string \<Rightarrow> policy_view \<Rightarrow> 'q \<Rightarrow> policy_view option \<times> 'q" where
  "applyOptimisticWalletPolicy Q token nxt q =
     (let key = walletPolicy_byToken (Some token) in (as_policy (qc_get Q q key), qc_set Q key (ViewData nxt) q))"

definition restoreWalletPolicySnapshot :: "'q query_client \<Rightarrow> string \<Rightarrow> policy_view option \<Rightarrow> 'q \<Rightarrow> 'q" where
  "restoreWalletPolicySnapshot Q token previous q =
     (let key = walletPolicy_byToken (Some token) in
      case previous of None \<Rightarrow> qc_remove Q key q | Some v \<Rightarrow> qc_set Q key (ViewData v) q)"

text \<open>\<open>adding\<close> tells whether the direction is \<open>add\<close>.\<close>

definition applyOptimisticOwnedAccessories ::
  "'q query_client \<Rightarrow> string option \<Rightarrow> string \<Rightarrow> bool \<Rightarrow> 'q \<Rightarrow> string list option \<times> 'q" where
  "applyOptimisticOwnedAccessories Q authority token adding q =
     (if \<not> truthy authority then (None, q)
      else
        let key = ownedAccessories_byAuthority authority in
        case as_owned (qc_get Q q key) of
          None \<Rightarrow> (None, if adding then qc_set Q key (OwnedData [token]) q else q)
        | Some previous \<Rightarrow>
            (Some previous,
             qc_set Q key (OwnedData
               (if adding then if token \<in> set previous then previous else previous @ [token]
                else filter (\<lambda>t. t \<noteq> token) previous)) q))"

definition restoreOwnedAccessoriesSnapshot :: "'q query_client \<Rightarrow> string option \<Rightarrow> string list option \<Rightarrow> 'q \<Rightarrow> 'q" where
  "restoreOwnedAccessoriesSnapshot Q authority previous q =
     (if \<not> truthy authority then q
      else
        let key = ownedAccessories_byAuthority authority in
        case previous of None \<Rightarrow> qc_remove Q key q | Some ts \<Rightarrow> qc_set Q key (OwnedData ts) q)"

subsection \<open>The flows\<close>

text \<open>
  A send by the accessory's wallet or its owner (\<^verbatim>\<open>runSend\<close>).  \<open>sx_amount\<close> is the text of the amount field; a
  collectible is sent with the amount \<open>1\<close>.  Texts of the surface are written out as in \<^verbatim>\<open>copy/phygital.ts\<close>.
\<close>

record send_context =
  sx_token :: string
  sx_wallet :: string
  sx_recipient :: string
  sx_nft :: bool
  sx_name :: string
  sx_mint :: string
  sx_amount :: string
  sx_now :: int

definition sx_amountUi :: "send_context \<Rightarrow> string" where
  "sx_amountUi x = (if sx_nft x then ''1'' else sx_amount x)"

record send_snapshot =
  sn_signature :: string
  sn_fee :: "fee_balance option"
  sn_activity :: activity_snapshot
  sn_portfolio :: "portfolio option"

definition sent_row :: "send_context \<Rightarrow> string \<Rightarrow> app_activity" where
  "sent_row x signature =
     \<lparr>aa_id = signature, aa_walletAddress = sx_wallet x, aa_kind = ''sent'', aa_title = ''Sent'',
      aa_subtitle = Some (sx_recipient x), aa_amountLabel = Some (if sx_nft x then sx_name x else ''-'' @ sx_amount x),
      aa_deltas = [(sx_mint x, FlowOut, sx_amountUi x)], aa_statusLabel = None, aa_timestamp = Some (sx_now x),
      aa_signature = Some signature, aa_mint = Some (sx_mint x), aa_detail = None, aa_pending = True, aa_source = ''local''\<rparr>"

definition sent_delta :: "send_context \<Rightarrow> portfolio_delta" where
  "sent_delta x =
     \<lparr>pd_owner = sx_wallet x, pd_mint = sx_mint x, pd_amountUi = sx_amountUi x, pd_direction = FlowOut,
      pd_removeCollectible = sx_nft x\<rparr>"

definition send_apply ::
  "'q query_client \<Rightarrow> (string \<Rightarrow> rat \<Rightarrow> rat) \<Rightarrow> send_context \<Rightarrow> string \<Rightarrow> 'q \<Rightarrow> send_snapshot \<times> 'q" where
  "send_apply Q usd x signature q =
     (let (fee, q) = applyOptimisticFeeBalance Q (sx_token x) (app_lamportsToSolUi app_MIN_ATTEMPT_FEE_LAMPORTS) FlowOut q;
          (activity, q) = applyOptimisticWalletActivity Q (sent_row x signature) q;
          (prior, q) = applyOptimisticPortfolioDelta Q usd (sent_delta x) q in
      (\<lparr>sn_signature = signature, sn_fee = fee, sn_activity = activity, sn_portfolio = prior\<rparr>, q))"

definition landed :: "app_activity \<Rightarrow> app_activity" where
  "landed r = r\<lparr>aa_pending := False\<rparr>"

definition send_confirm :: "'q query_client \<Rightarrow> send_context \<Rightarrow> send_snapshot \<Rightarrow> 'q \<Rightarrow> 'q" where
  "send_confirm Q x snap q = patchOptimisticWalletActivity Q (sx_wallet x) (sn_signature snap) landed q"

definition send_rollback :: "'q query_client \<Rightarrow> send_context \<Rightarrow> send_snapshot \<Rightarrow> 'q \<Rightarrow> 'q" where
  "send_rollback Q x snap q =
     restoreWalletActivitySnapshot Q (Some (sn_activity snap))
       (restorePortfolioSnapshot Q (sx_wallet x) (sn_portfolio snap)
         (restoreFeeBalanceSnapshot Q (sx_token x) (sn_fee snap) q))"

text \<open>
  What \<^verbatim>\<open>runSend\<close> gives \<^verbatim>\<open>walletTx.run\<close>, around the calls of \<open>base\<close> that send.  Its updates and \<open>onSent\<close> are
  functions on the cache that do not throw here; what a run does when they do is said of \<^verbatim>\<open>runWalletTransaction\<close>.
\<close>

definition send_args ::
  "'q query_client \<Rightarrow> (string \<Rightarrow> rat \<Rightarrow> rat) \<Rightarrow> send_context \<Rightarrow> (tx_mode \<Rightarrow> send_failure + string) \<Rightarrow>
     (send_failure \<Rightarrow> denial_decision) \<Rightarrow> (send_failure \<Rightarrow> bool) \<Rightarrow> ('q, send_snapshot) tx_args" where
  "send_args Q usd x send decide isAbort =
     \<lparr>ta_send = send,
      ta_apply = (\<lambda>signature q. let (snap, q) = send_apply Q usd x signature q in (Inr snap, q)),
      ta_confirm = send_confirm Q x, ta_rollback = send_rollback Q x, ta_onSent = (\<lambda>_ _. None),
      ta_decide = decide, ta_isAbort = isAbort\<rparr>"

text \<open>Receiving from a nearby accessory (\<^verbatim>\<open>runReceive\<close>): the recipient's row and both portfolios.\<close>

record receive_context =
  rx_recipient :: string
  rx_payer :: string
  rx_mint :: string
  rx_amount :: string
  rx_now :: int

record receive_snapshot =
  rn_signature :: string
  rn_recipient :: "portfolio option"
  rn_payer :: "portfolio option"
  rn_activity :: activity_snapshot

definition received_row :: "receive_context \<Rightarrow> string \<Rightarrow> app_activity" where
  "received_row x signature =
     \<lparr>aa_id = signature, aa_walletAddress = rx_recipient x, aa_kind = ''received'', aa_title = ''Received'',
      aa_subtitle = Some (rx_payer x), aa_amountLabel = Some (''+'' @ rx_amount x),
      aa_deltas = [(rx_mint x, FlowIn, rx_amount x)], aa_statusLabel = None, aa_timestamp = Some (rx_now x),
      aa_signature = Some signature, aa_mint = Some (rx_mint x), aa_detail = None, aa_pending = True, aa_source = ''local''\<rparr>"

definition received_delta :: "receive_context \<Rightarrow> string \<Rightarrow> flow_dir \<Rightarrow> portfolio_delta" where
  "received_delta x owner dir =
     \<lparr>pd_owner = owner, pd_mint = rx_mint x, pd_amountUi = rx_amount x, pd_direction = dir, pd_removeCollectible = False\<rparr>"

definition receive_apply ::
  "'q query_client \<Rightarrow> (string \<Rightarrow> rat \<Rightarrow> rat) \<Rightarrow> receive_context \<Rightarrow> string \<Rightarrow> 'q \<Rightarrow> receive_snapshot \<times> 'q" where
  "receive_apply Q usd x signature q =
     (let (activity, q) = applyOptimisticWalletActivity Q (received_row x signature) q;
          (recipient, q) = applyOptimisticPortfolioDelta Q usd (received_delta x (rx_recipient x) FlowIn) q;
          (payer, q) = applyOptimisticPortfolioDelta Q usd (received_delta x (rx_payer x) FlowOut) q in
      (\<lparr>rn_signature = signature, rn_recipient = recipient, rn_payer = payer, rn_activity = activity\<rparr>, q))"

definition receive_confirm :: "'q query_client \<Rightarrow> receive_context \<Rightarrow> receive_snapshot \<Rightarrow> 'q \<Rightarrow> 'q" where
  "receive_confirm Q x snap q = patchOptimisticWalletActivity Q (rx_recipient x) (rn_signature snap) landed q"

definition receive_rollback :: "'q query_client \<Rightarrow> receive_context \<Rightarrow> receive_snapshot \<Rightarrow> 'q \<Rightarrow> 'q" where
  "receive_rollback Q x snap q =
     restoreWalletActivitySnapshot Q (Some (rn_activity snap))
       (restorePortfolioSnapshot Q (rx_payer x) (rn_payer snap)
         (restorePortfolioSnapshot Q (rx_recipient x) (rn_recipient snap) q))"

text \<open>A top-up of the fee balance (\<^verbatim>\<open>runTopUp\<close>); the wallet may not be known yet.\<close>

record topup_context =
  ux_token :: string
  ux_wallet :: "string option"
  ux_amount :: string
  ux_now :: int

record topup_snapshot =
  un_signature :: string
  un_fee :: "fee_balance option"
  un_activity :: "activity_snapshot option"
  un_portfolio :: "portfolio option"

definition topup_row :: "topup_context \<Rightarrow> string \<Rightarrow> string \<Rightarrow> app_activity" where
  "topup_row x w signature =
     \<lparr>aa_id = signature, aa_walletAddress = w, aa_kind = ''topUp'', aa_title = ''Top-up submitted'', aa_subtitle = None,
      aa_amountLabel = Some (''-'' @ ux_amount x @ '' SOL''), aa_deltas = [(APP_SOL_MINT, FlowOut, ux_amount x)],
      aa_statusLabel = Some ''Top-up sent. Balance updates shortly.'', aa_timestamp = Some (ux_now x), aa_signature = Some signature,
      aa_mint = Some APP_SOL_MINT, aa_detail = None, aa_pending = True, aa_source = ''local''\<rparr>"

definition topup_apply ::
  "'q query_client \<Rightarrow> (string \<Rightarrow> rat \<Rightarrow> rat) \<Rightarrow> topup_context \<Rightarrow> string \<Rightarrow> 'q \<Rightarrow> topup_snapshot \<times> 'q" where
  "topup_apply Q usd x signature q =
     (let (fee, q) = applyOptimisticFeeBalance Q (ux_token x) (ux_amount x) FlowIn q in
      if \<not> truthy (ux_wallet x) then
        (\<lparr>un_signature = signature, un_fee = fee, un_activity = None, un_portfolio = None\<rparr>, q)
      else
        let w = the (ux_wallet x);
            (activity, q) = applyOptimisticWalletActivity Q (topup_row x w signature) q;
            (prior, q) = applyOptimisticPortfolioDelta Q usd
              \<lparr>pd_owner = w, pd_mint = APP_SOL_MINT, pd_amountUi = ux_amount x, pd_direction = FlowOut,
               pd_removeCollectible = False\<rparr> q in
        (\<lparr>un_signature = signature, un_fee = fee, un_activity = Some activity, un_portfolio = prior\<rparr>, q))"

definition topup_confirm :: "'q query_client \<Rightarrow> topup_context \<Rightarrow> topup_snapshot \<Rightarrow> 'q \<Rightarrow> 'q" where
  "topup_confirm Q x snap q =
     (if truthy (ux_wallet x) then patchOptimisticWalletActivity Q (the (ux_wallet x)) (un_signature snap) landed q else q)"

definition topup_rollback :: "'q query_client \<Rightarrow> topup_context \<Rightarrow> topup_snapshot \<Rightarrow> 'q \<Rightarrow> 'q" where
  "topup_rollback Q x snap q =
     (let q = restoreFeeBalanceSnapshot Q (ux_token x) (un_fee snap) q in
      if truthy (ux_wallet x) then
        restoreWalletActivitySnapshot Q (un_activity snap)
          (restorePortfolioSnapshot Q (the (ux_wallet x)) (un_portfolio snap) q)
      else q)"

text \<open>
  Claiming and unlinking an accessory change three queries together; setting and clearing its policy change
  one.  The mutation fails when nobody is signed in or the transaction is not accepted (\<open>sent\<close>); otherwise it
  gives the signature and the rollback of what it changed, which the confirmation decides about.
\<close>

record owner_wallet =
  ow_authenticated :: bool
  ow_address :: "string option"
  ow_signer :: bool

datatype mutation_error = SignInFirst | NotAccepted send_failure

type_synonym 'q mutation = "(mutation_error + string \<times> ('q \<Rightarrow> 'q)) \<times> 'q"

definition owner_mutation :: "bool \<Rightarrow> send_failure + string \<Rightarrow> ('q \<Rightarrow> ('q \<Rightarrow> 'q) \<times> 'q) \<Rightarrow> 'q \<Rightarrow> 'q mutation" where
  "owner_mutation ready sent optimistic q =
     (if \<not> ready then (Inl SignInFirst, q)
      else case sent of
        Inl e \<Rightarrow> (Inl (NotAccepted e), q)
      | Inr signature \<Rightarrow> let (rollback, q) = optimistic q in (Inr (signature, rollback), q))"

definition ownership_change ::
  "'q query_client \<Rightarrow> string \<Rightarrow> string option \<Rightarrow> token_authority \<Rightarrow> policy_view \<Rightarrow> bool \<Rightarrow> 'q \<Rightarrow> ('q \<Rightarrow> 'q) \<times> 'q" where
  "ownership_change Q token address authority policy adding q =
     (let (authorityBefore, q) = applyOptimisticTokenAuthority Q token authority q;
          (policyBefore, q) = applyOptimisticWalletPolicy Q token policy q;
          (ownedBefore, q) = applyOptimisticOwnedAccessories Q address token adding q in
      (\<lambda>q. restoreOwnedAccessoriesSnapshot Q address ownedBefore
         (restoreWalletPolicySnapshot Q token policyBefore
           (restoreTokenAuthoritySnapshot Q token authorityBefore q)), q))"

definition policy_change :: "'q query_client \<Rightarrow> string \<Rightarrow> policy_view \<Rightarrow> 'q \<Rightarrow> ('q \<Rightarrow> 'q) \<times> 'q" where
  "policy_change Q token policy q =
     (let (policyBefore, q) = applyOptimisticWalletPolicy Q token policy q in
      (restoreWalletPolicySnapshot Q token policyBefore, q))"

definition useClaimAccessory :: "'q query_client \<Rightarrow> string \<Rightarrow> owner_wallet \<Rightarrow> send_failure + string \<Rightarrow> 'q \<Rightarrow> 'q mutation" where
  "useClaimAccessory Q token w sent =
     owner_mutation (ow_authenticated w \<and> truthy (ow_address w)) sent
       (ownership_change Q token (ow_address w) \<lparr>to_isClaimed = True, to_authority = ow_address w\<rparr> STANDARD_POLICY_VIEW True)"

definition useUnlinkAccessory :: "'q query_client \<Rightarrow> string \<Rightarrow> owner_wallet \<Rightarrow> send_failure + string \<Rightarrow> 'q \<Rightarrow> 'q mutation" where
  "useUnlinkAccessory Q token w sent =
     owner_mutation (ow_authenticated w \<and> truthy (ow_address w) \<and> ow_signer w) sent
       (ownership_change Q token (ow_address w) \<lparr>to_isClaimed = False, to_authority = None\<rparr> NONE_POLICY_VIEW False)"

definition useSetWalletPolicy ::
  "'q query_client \<Rightarrow> string \<Rightarrow> owner_wallet \<Rightarrow> submission \<Rightarrow> int \<Rightarrow> send_failure + string \<Rightarrow> 'q \<Rightarrow> 'q mutation" where
  "useSetWalletPolicy Q token w input nowSeconds sent =
     owner_mutation (ow_authenticated w \<and> truthy (ow_address w) \<and> ow_signer w) sent
       (\<lambda>q. policy_change Q token
          (buildOptimisticWalletPolicyView input (as_policy (qc_get Q q (walletPolicy_byToken (Some token)))) nowSeconds) q)"

definition useClearWalletPolicy :: "'q query_client \<Rightarrow> string \<Rightarrow> owner_wallet \<Rightarrow> send_failure + string \<Rightarrow> 'q \<Rightarrow> 'q mutation" where
  "useClearWalletPolicy Q token w sent =
     owner_mutation (ow_authenticated w \<and> truthy (ow_address w) \<and> ow_signer w) sent (policy_change Q token OPEN_POLICY_VIEW)"

subsection \<open>The documented behaviour of the query client\<close>

definition query_client_ok :: "'q query_client \<Rightarrow> bool" where
  "query_client_ok Q \<longleftrightarrow>
     (\<forall>q k d. qc_get Q (qc_set Q k d q) = (qc_get Q q)(k \<mapsto> d)) \<and>
     (\<forall>q k k'. qc_get Q (qc_remove Q k q) k' = (if prefix k k' then None else qc_get Q q k')) \<and>
     (\<forall>q p f. qc_get Q (qc_invalidate Q p f q) = qc_get Q q) \<and>
     (\<forall>q p k. k \<in> set (qc_findAll Q p q) \<longrightarrow> prefix p k) \<and>
     (\<forall>q p k. prefix p k \<and> qc_get Q q k \<noteq> None \<longrightarrow> k \<in> set (qc_findAll Q p q)) \<and>
     (\<forall>q p. distinct (qc_findAll Q p q)) \<and>
     (\<forall>q p k d k'. k' \<in> set (qc_findAll Q p (qc_set Q k d q)) \<longrightarrow> k' = k \<or> k' \<in> set (qc_findAll Q p q)) \<and>
     (\<forall>q p f k. prefix p k \<and> qc_get Q q k \<noteq> None \<and> f k (qc_get Q q k) \<longrightarrow> qc_stale Q (qc_invalidate Q p f q) k) \<and>
     (\<forall>q p f k. qc_stale Q q k \<longrightarrow> qc_stale Q (qc_invalidate Q p f q) k) \<and>
     (\<forall>q k d k'. k' \<noteq> k \<longrightarrow> qc_stale Q (qc_set Q k d q) k' = qc_stale Q q k') \<and>
     (\<forall>q k k'. \<not> prefix k k' \<longrightarrow> qc_stale Q (qc_remove Q k q) k' = qc_stale Q q k')"

lemma client_laws:
  assumes "query_client_ok Q"
  shows get_set: "qc_get Q (qc_set Q k d q) = (qc_get Q q)(k \<mapsto> d)"
    and get_remove: "qc_get Q (qc_remove Q k q) k' = (if prefix k k' then None else qc_get Q q k')"
    and get_invalidate: "qc_get Q (qc_invalidate Q p f q) = qc_get Q q"
    and findAll_prefix: "k \<in> set (qc_findAll Q p q) \<Longrightarrow> prefix p k"
    and findAll_data: "prefix p k \<Longrightarrow> qc_get Q q k \<noteq> None \<Longrightarrow> k \<in> set (qc_findAll Q p q)"
    and findAll_distinct: "distinct (qc_findAll Q p q)"
    and findAll_set: "k' \<in> set (qc_findAll Q p (qc_set Q k d q)) \<Longrightarrow> k' = k \<or> k' \<in> set (qc_findAll Q p q)"
    and stale_invalidate: "prefix p k \<Longrightarrow> qc_get Q q k \<noteq> None \<Longrightarrow> f k (qc_get Q q k) \<Longrightarrow> qc_stale Q (qc_invalidate Q p f q) k"
    and stale_invalidate_keeps: "qc_stale Q q k \<Longrightarrow> qc_stale Q (qc_invalidate Q p f q) k"
    and stale_set: "k' \<noteq> k \<Longrightarrow> qc_stale Q (qc_set Q k d q) k' = qc_stale Q q k'"
    and stale_remove: "\<not> prefix k k' \<Longrightarrow> qc_stale Q (qc_remove Q k q) k' = qc_stale Q q k'"
proof -
  note laws = assms [unfolded query_client_ok_def]
  show "qc_get Q (qc_set Q k d q) = (qc_get Q q)(k \<mapsto> d)" "qc_get Q (qc_remove Q k q) k' = (if prefix k k' then None else qc_get Q q k')"
    "qc_get Q (qc_invalidate Q p f q) = qc_get Q q" "distinct (qc_findAll Q p q)"
    by (simp_all add: laws)
  show "k \<in> set (qc_findAll Q p q) \<Longrightarrow> prefix p k" using laws by metis
  show "prefix p k \<Longrightarrow> qc_get Q q k \<noteq> None \<Longrightarrow> k \<in> set (qc_findAll Q p q)" using laws by metis
  show "k' \<in> set (qc_findAll Q p (qc_set Q k d q)) \<Longrightarrow> k' = k \<or> k' \<in> set (qc_findAll Q p q)" using laws by metis
  show "prefix p k \<Longrightarrow> qc_get Q q k \<noteq> None \<Longrightarrow> f k (qc_get Q q k) \<Longrightarrow> qc_stale Q (qc_invalidate Q p f q) k" using laws by metis
  show "qc_stale Q q k \<Longrightarrow> qc_stale Q (qc_invalidate Q p f q) k" using laws by metis
  show "k' \<noteq> k \<Longrightarrow> qc_stale Q (qc_set Q k d q) k' = qc_stale Q q k'" using laws by metis
  show "\<not> prefix k k' \<Longrightarrow> qc_stale Q (qc_remove Q k q) k' = qc_stale Q q k'" using laws by metis
qed

text \<open>The keys of the application are made by its factories, and a key always holds data of one type.\<close>

definition key_shape :: "string \<Rightarrow> nat \<Rightarrow> query_key \<Rightarrow> bool" where
  "key_shape r n k \<longleftrightarrow> length k = n \<and> take 1 k = [KText r]"

definition key_fits :: "query_key \<Rightarrow> cached \<Rightarrow> bool" where
  "key_fits k d = (case d of
      PortfolioData _ \<Rightarrow> key_shape ''walletPortfolio'' 2 k
    | FeeData _ \<Rightarrow> key_shape ''feeBalance'' 2 k
    | PageData _ \<Rightarrow> key_shape ''walletActivity'' 4 k
    | AuthorityData _ \<Rightarrow> key_shape ''tokenAuthority'' 2 k
    | ViewData _ \<Rightarrow> key_shape ''walletPolicy'' 2 k
    | OwnedData _ \<Rightarrow> key_shape ''ownedAccessories'' 2 k
    | TokenData _ \<Rightarrow> take 1 k = phygitalToken_all
    | OtherData _ \<Rightarrow> \<not> take 1 k \<in> set (map (\<lambda>r. [KText r])
        [''walletPortfolio'', ''feeBalance'', ''walletActivity'', ''tokenAuthority'', ''walletPolicy'', ''ownedAccessories'']))"

definition data_ok :: "'q query_client \<Rightarrow> 'q \<Rightarrow> bool" where
  "data_ok Q q \<longleftrightarrow> (\<forall>k d. qc_get Q q k = Some d \<longrightarrow> key_fits k d)"

definition cache_ok :: "'q query_client \<Rightarrow> 'q \<Rightarrow> bool" where
  "cache_ok Q q \<longleftrightarrow> data_ok Q q \<and> (\<forall>k \<in> set (qc_findAll Q walletActivity_all q). length k = 4)"

lemmas key_defs = walletPortfolio_byOwner_def walletPortfolio_all_def walletActivity_byOwner_def walletActivity_all_def
  feeBalance_byToken_def tokenAuthority_byToken_def walletPolicy_byToken_def ownedAccessories_byAuthority_def
  phygitalToken_all_def nullable_def

lemmas as_defs = as_portfolio_def as_fee_def as_page_def as_authority_def as_policy_def as_owned_def

lemma as_data [simp]:
  "as_portfolio (Some (PortfolioData p)) = Some p" "as_fee (Some (FeeData b)) = Some b"
  "as_page (Some (PageData g)) = Some g" "as_authority (Some (AuthorityData a)) = Some a"
  "as_policy (Some (ViewData v)) = Some v" "as_owned (Some (OwnedData ts)) = Some ts"
  "as_portfolio None = None" "as_fee None = None" "as_page None = None" "as_authority None = None"
  "as_policy None = None" "as_owned None = None"
  by (simp_all add: as_defs)

text \<open>What is read back is all there is.\<close>

lemma typed_data:
  assumes "cache_ok Q q"
  shows "map_option PortfolioData (as_portfolio (qc_get Q q (walletPortfolio_byOwner owner))) = qc_get Q q (walletPortfolio_byOwner owner)"
    and "map_option FeeData (as_fee (qc_get Q q (feeBalance_byToken token))) = qc_get Q q (feeBalance_byToken token)"
    and "map_option AuthorityData (as_authority (qc_get Q q (tokenAuthority_byToken token))) = qc_get Q q (tokenAuthority_byToken token)"
    and "map_option ViewData (as_policy (qc_get Q q (walletPolicy_byToken token))) = qc_get Q q (walletPolicy_byToken token)"
    and "map_option OwnedData (as_owned (qc_get Q q (ownedAccessories_byAuthority token))) = qc_get Q q (ownedAccessories_byAuthority token)"
    and "take 1 k = walletActivity_all \<Longrightarrow> map_option PageData (as_page (qc_get Q q k)) = qc_get Q q k"
proof -
  have fits: "key_fits k d" if "qc_get Q q k = Some d" for k d using assms that by (simp add: cache_ok_def data_ok_def)
  note split = option.split cached.split and defs = as_defs key_defs key_fits_def key_shape_def
  show "map_option PortfolioData (as_portfolio (qc_get Q q (walletPortfolio_byOwner owner))) = qc_get Q q (walletPortfolio_byOwner owner)"
    using fits [of "walletPortfolio_byOwner owner"] by (cases "qc_get Q q (walletPortfolio_byOwner owner)") (auto simp: defs split: cached.splits option.splits)
  show "map_option FeeData (as_fee (qc_get Q q (feeBalance_byToken token))) = qc_get Q q (feeBalance_byToken token)"
    using fits [of "feeBalance_byToken token"] by (cases "qc_get Q q (feeBalance_byToken token)") (auto simp: defs split: cached.splits option.splits)
  show "map_option AuthorityData (as_authority (qc_get Q q (tokenAuthority_byToken token))) = qc_get Q q (tokenAuthority_byToken token)"
    using fits [of "tokenAuthority_byToken token"] by (cases "qc_get Q q (tokenAuthority_byToken token)") (auto simp: defs split: cached.splits option.splits)
  show "map_option ViewData (as_policy (qc_get Q q (walletPolicy_byToken token))) = qc_get Q q (walletPolicy_byToken token)"
    using fits [of "walletPolicy_byToken token"] by (cases "qc_get Q q (walletPolicy_byToken token)") (auto simp: defs split: cached.splits option.splits)
  show "map_option OwnedData (as_owned (qc_get Q q (ownedAccessories_byAuthority token))) = qc_get Q q (ownedAccessories_byAuthority token)"
    using fits [of "ownedAccessories_byAuthority token"] by (cases "qc_get Q q (ownedAccessories_byAuthority token)") (auto simp: defs split: cached.splits option.splits)
  show "map_option PageData (as_page (qc_get Q q k)) = qc_get Q q k" if "take 1 k = walletActivity_all"
    using fits [of k] that by (cases "qc_get Q q k") (auto simp: defs split: cached.splits)
qed

lemma get_update:
  assumes "query_client_ok Q"
  shows "qc_get Q (update_query Q k f q) = (case f (qc_get Q q k) of None \<Rightarrow> qc_get Q q | Some d \<Rightarrow> (qc_get Q q)(k \<mapsto> d))"
  by (simp add: update_query_def get_set [OF assms] split: option.split)

lemma stale_update:
  "query_client_ok Q \<Longrightarrow> k' \<noteq> k \<Longrightarrow> qc_stale Q (update_query Q k f q) k' = qc_stale Q q k'"
  by (simp add: update_query_def stale_set split: option.split)

subsection \<open>The first pages\<close>

lemma fold_addKey: "set (fold addKey ks acc) = set ks \<union> set acc" "distinct acc \<Longrightarrow> distinct (fold addKey ks acc)"
  by (induction ks arbitrary: acc) (auto simp: addKey_def)

lemma activity_keys_distinct: "distinct (activity_keys Q w q)"
  by (simp add: activity_keys_def fold_addKey(2))

lemma set_activity_keys: "set (activity_keys Q w q) =
    {k \<in> set (qc_findAll Q walletActivity_all q). isOwnerActivityFirstPage k w} \<union>
    {walletActivity_byOwner (Some w) 20 None, walletActivity_byOwner (Some w) 40 None}"
  unfolding activity_keys_def fold_addKey(1) ACTIVITY_FIRST_PAGE_LIMITS_def by auto

lemma activity_keys_cached:
  assumes "query_client_ok Q" "qc_get Q q k \<noteq> None" "isOwnerActivityFirstPage k w"
  shows "k \<in> set (activity_keys Q w q)"
proof -
  have "take 1 (take 2 k) = [KText ''walletActivity'']" using assms(3) by (simp add: isOwnerActivityFirstPage_def)
  then have "prefix walletActivity_all k" by (simp add: walletActivity_all_def) (metis take_is_prefix)
  then show ?thesis using findAll_data [OF assms(1) _ assms(2)] assms(3) by (simp add: set_activity_keys)
qed

lemma activity_keys_limits: "walletActivity_byOwner (Some w) 20 None \<in> set (activity_keys Q w q)"
    "walletActivity_byOwner (Some w) 40 None \<in> set (activity_keys Q w q)"
  by (simp_all add: set_activity_keys)

lemma activity_keys_first: "k \<in> set (activity_keys Q w q) \<Longrightarrow> isOwnerActivityFirstPage k w"
  by (auto simp: set_activity_keys isOwnerActivityFirstPage_def key_defs)

lemma first_page_root: "isOwnerActivityFirstPage k w \<Longrightarrow> take 1 k = walletActivity_all"
  by (cases k) (auto simp: isOwnerActivityFirstPage_def walletActivity_all_def)

lemma activity_keys_length:
  assumes "cache_ok Q q" "k \<in> set (activity_keys Q w q)"
  shows "length k = 4"
  using assms by (auto simp: set_activity_keys cache_ok_def key_defs)

lemma prepend_fold:
  assumes "query_client_ok Q" "distinct ks"
  shows "fst (fold (prepend_at Q item) ks (snapshot, q)) = snapshot @ map (\<lambda>k. (k, as_page (qc_get Q q k))) ks"
    and "qc_get Q (snd (fold (prepend_at Q item) ks (snapshot, q))) k =
      (if k \<in> set ks then Some (PageData (prependActivityItem (as_page (qc_get Q q k)) item)) else qc_get Q q k)"
    and "k \<notin> set ks \<Longrightarrow> qc_stale Q (snd (fold (prepend_at Q item) ks (snapshot, q))) k = qc_stale Q q k"
  using assms(2)
proof (induction ks arbitrary: snapshot q)
  case (Cons a ks)
  let ?u = "\<lambda>q. update_query Q a (\<lambda>prev. Some (PageData (prependActivityItem (as_page prev) item))) q"
  have step: "fold (prepend_at Q item) (a # ks) (snapshot, q) =
      fold (prepend_at Q item) ks (snapshot @ [(a, as_page (qc_get Q q a))], ?u q)" for snapshot q
    by (simp add: prepend_at_def)
  note G = get_update [OF assms(1)]
  case 1
  then show ?case unfolding step using Cons.IH(1) by (auto simp: G)
  case 2
  then show ?case unfolding step using Cons.IH(2) by (auto simp: G)
  case 3
  then show ?case unfolding step using Cons.IH(3) by (auto simp: stale_update [OF assms(1)])
qed simp_all

text \<open>Rolling back the pages: keys of one length do not start with each other.\<close>

lemma restore_pages:
  assumes "query_client_ok Q" "distinct ks" "\<forall>k \<in> set ks. length k = 4 \<and> take 1 k = walletActivity_all"
    and "\<forall>k. qc_get Q q k \<noteq> None \<and> take 1 k = walletActivity_all \<longrightarrow> length k = 4"
  shows "qc_get Q (fold (restore_page Q) (map (\<lambda>k. (k, P k)) ks) q) k =
    (if k \<in> set ks then map_option PageData (P k) else qc_get Q q k)"
  using assms(2-4)
proof (induction ks arbitrary: q)
  case (Cons a ks)
  let ?q = "restore_page Q (a, P a) q"
  have a: "length a = 4" "take 1 a = walletActivity_all" using Cons.prems(2) by auto
  have only: "prefix a k' \<longleftrightarrow> k' = a" if "qc_get Q q k' \<noteq> None" for k'
  proof
    assume p: "prefix a k'"
    then have "take 1 k' = walletActivity_all" using a by (cases a; cases k') auto
    with that Cons.prems(3) have "length k' = length a" using a by auto
    with p show "k' = a" by (metis prefix_length_less prefix_order.le_imp_less_or_eq less_irrefl)
  qed simp
  have G: "qc_get Q ?q k' = (if k' = a then map_option PageData (P a) else qc_get Q q k')" for k'
    using only [of k'] by (cases "qc_get Q q k'") (auto simp: restore_page_def get_set [OF assms(1)] get_remove [OF assms(1)] split: option.split)
  have "\<forall>k'. qc_get Q ?q k' \<noteq> None \<and> take 1 k' = walletActivity_all \<longrightarrow> length k' = 4"
    using Cons.prems(3) a by (auto simp: G)
  with Cons.IH [of ?q] Cons.prems(1,2) have
    "qc_get Q (fold (restore_page Q) (map (\<lambda>k. (k, P k)) ks) ?q) k = (if k \<in> set ks then map_option PageData (P k) else qc_get Q ?q k)"
    by simp
  then show ?case using Cons.prems(1) by (auto simp: G)
qed simp

lemma restore_pages_stale:
  assumes "query_client_ok Q" "\<forall>e \<in> set es. take 1 (fst e) = walletActivity_all" "take 1 k \<noteq> walletActivity_all"
  shows "qc_stale Q (fold (restore_page Q) es q) k = qc_stale Q q k"
  using assms(2)
proof (induction es arbitrary: q)
  case (Cons e es)
  obtain a b where e: "e = (a, b)" by force
  have "k \<noteq> a" "\<not> prefix a k" using Cons.prems assms(3) by (auto simp: e walletActivity_all_def elim!: prefixE)
  then have "qc_stale Q (restore_page Q e q) k = qc_stale Q q k"
    by (simp add: e restore_page_def stale_set [OF assms(1)] stale_remove [OF assms(1)] split: option.split)
  with Cons show ?case by simp
qed simp

subsection \<open>What the patches and their rollbacks do to the cache\<close>

lemma roots [simp]:
  "take 1 (feeBalance_byToken t) \<noteq> walletActivity_all" "take 1 (walletPortfolio_byOwner w) \<noteq> walletActivity_all"
  "feeBalance_byToken t \<noteq> walletPortfolio_byOwner w" "walletPortfolio_byOwner w \<noteq> feeBalance_byToken t"
  "walletPortfolio_byOwner (Some a) = walletPortfolio_byOwner (Some b) \<longleftrightarrow> a = b"
  "tokenAuthority_byToken t \<noteq> walletPolicy_byToken u" "tokenAuthority_byToken t \<noteq> ownedAccessories_byAuthority v"
  "walletPolicy_byToken u \<noteq> ownedAccessories_byAuthority v"
  "walletPolicy_byToken u \<noteq> tokenAuthority_byToken t" "ownedAccessories_byAuthority v \<noteq> tokenAuthority_byToken t"
  "ownedAccessories_byAuthority v \<noteq> walletPolicy_byToken u"
  by (simp_all add: key_defs)

lemma delta_reads:
  assumes "query_client_ok Q"
  shows "fst (applyOptimisticPortfolioDelta Q usd a q) = as_portfolio (qc_get Q q (walletPortfolio_byOwner (Some (pd_owner a))))"
    and "qc_get Q (snd (applyOptimisticPortfolioDelta Q usd a q)) =
      (case as_portfolio (qc_get Q q (walletPortfolio_byOwner (Some (pd_owner a)))) of
         None \<Rightarrow> qc_get Q q
       | Some p \<Rightarrow> (qc_get Q q)(walletPortfolio_byOwner (Some (pd_owner a)) \<mapsto> PortfolioData (patched_portfolio usd a p)))"
  by (simp_all add: applyOptimisticPortfolioDelta_def Let_def get_update [OF assms] split: option.split)

lemma restore_portfolio_reads:
  assumes "query_client_ok Q"
  shows "qc_get Q (restorePortfolioSnapshot Q owner previous q) =
    (case previous of None \<Rightarrow> qc_get Q q | Some p \<Rightarrow> (qc_get Q q)(walletPortfolio_byOwner (Some owner) \<mapsto> PortfolioData p))"
  by (simp add: restorePortfolioSnapshot_def get_set [OF assms] get_invalidate [OF assms] split: option.split)

lemma fee_reads:
  assumes "query_client_ok Q"
  shows "fst (applyOptimisticFeeBalance Q token amount dir q) = as_fee (qc_get Q q (feeBalance_byToken (Some token)))"
    and "qc_get Q (snd (applyOptimisticFeeBalance Q token amount dir q)) =
      (case patched_fee amount dir (as_fee (qc_get Q q (feeBalance_byToken (Some token)))) of
         None \<Rightarrow> qc_get Q q | Some b \<Rightarrow> (qc_get Q q)(feeBalance_byToken (Some token) \<mapsto> FeeData b))"
  by (simp_all add: applyOptimisticFeeBalance_def Let_def get_update [OF assms] split: option.split)

lemma restore_fee_reads:
  assumes "query_client_ok Q"
  shows "qc_get Q (restoreFeeBalanceSnapshot Q token previous q) =
    (case previous of None \<Rightarrow> qc_get Q q | Some b \<Rightarrow> (qc_get Q q)(feeBalance_byToken (Some token) \<mapsto> FeeData b))"
  by (simp add: restoreFeeBalanceSnapshot_def get_set [OF assms] get_invalidate [OF assms] split: option.split)

lemma fee_keeps_findAll:
  assumes "query_client_ok Q" "k \<in> set (qc_findAll Q walletActivity_all (snd (applyOptimisticFeeBalance Q token amount dir q)))"
  shows "k \<in> set (qc_findAll Q walletActivity_all q)"
proof -
  have "\<not> prefix walletActivity_all (feeBalance_byToken (Some token))" by (simp add: key_defs)
  with findAll_prefix [OF assms(1,2)] have "k \<noteq> feeBalance_byToken (Some token)" by auto
  with assms(2) show ?thesis
    by (auto simp: applyOptimisticFeeBalance_def Let_def update_query_def dest: findAll_set [OF assms(1)] split: option.splits)
qed

lemma activity_reads:
  assumes "query_client_ok Q" "applyOptimisticWalletActivity Q item q = (snapshot, q1)"
  shows "snapshot = map (\<lambda>k. (k, as_page (qc_get Q q k))) (activity_keys Q (aa_walletAddress item) q)"
    and "qc_get Q q1 k =
      (if k \<in> set (activity_keys Q (aa_walletAddress item) q) then Some (PageData (prependActivityItem (as_page (qc_get Q q k)) item))
       else qc_get Q q k)"
proof -
  from assms(2) have r: "snapshot = fst (fold (prepend_at Q item) (activity_keys Q (aa_walletAddress item) q) ([], q))"
    "q1 = snd (fold (prepend_at Q item) (activity_keys Q (aa_walletAddress item) q) ([], q))"
    by (simp_all add: applyOptimisticWalletActivity_def)
  note folded = prepend_fold [OF assms(1) activity_keys_distinct]
  show "snapshot = map (\<lambda>k. (k, as_page (qc_get Q q k))) (activity_keys Q (aa_walletAddress item) q)"
    unfolding r(1) folded(1) by simp
  show "qc_get Q q1 k = (if k \<in> set (activity_keys Q (aa_walletAddress item) q)
      then Some (PageData (prependActivityItem (as_page (qc_get Q q k)) item)) else qc_get Q q k)"
    unfolding r(2) folded(2) by simp
qed

text \<open>A snapshot of pages that were not changed otherwise is their rollback.\<close>

definition page_keys :: "query_key list \<Rightarrow> bool" where
  "page_keys ks \<longleftrightarrow> distinct ks \<and> (\<forall>k \<in> set ks. length k = 4 \<and> take 1 k = walletActivity_all)"

lemma activity_page_keys:
  assumes "query_client_ok Q" "\<forall>k \<in> set (qc_findAll Q walletActivity_all q). length k = 4"
  shows "page_keys (activity_keys Q w q)"
  using assms(2) activity_keys_distinct [of Q w q] activity_keys_first [of _ Q w q] first_page_root
  by (auto simp: page_keys_def set_activity_keys walletActivity_byOwner_def walletActivity_all_def)

lemma data_ok_page_length:
  assumes "data_ok Q q" "qc_get Q q k \<noteq> None" "take 1 k = walletActivity_all"
  shows "length k = 4"
proof -
  from assms(1,2) obtain d where "key_fits k d" by (auto simp: data_ok_def)
  with assms(3) show ?thesis by (auto simp: key_fits_def key_shape_def key_defs split: cached.splits)
qed

lemma restore_pages_back:
  assumes "query_client_ok Q" "cache_ok Q q0" "page_keys ks" "data_ok Q q"
  shows "qc_get Q (restoreWalletActivitySnapshot Q (Some (map (\<lambda>k. (k, as_page (qc_get Q q0 k))) ks)) q) k =
    (if k \<in> set ks then qc_get Q q0 k else qc_get Q q k)"
  using restore_pages [OF assms(1), of ks q "\<lambda>k. as_page (qc_get Q q0 k)" k] assms(3) typed_data(6) [OF assms(2), of k]
    data_ok_page_length [OF assms(4)]
  by (auto simp: page_keys_def restoreWalletActivitySnapshot_def)

lemma attempt_fee: "uiAmountToRaw (app_lamportsToSolUi app_MIN_ATTEMPT_FEE_LAMPORTS) SOL_DECIMALS = Inr 100000"
proof -
  have ui: "app_lamportsToSolUi app_MIN_ATTEMPT_FEE_LAMPORTS = ''0.0001''"
  proof -
    have "digit_char 0 = CHR ''0''" "digit_char 1 = CHR ''1''" by code_simp+
    then have n: "nat_text 100000 = ''100000''" "nat_text 0 = ''0''"
      by (simp_all add: nat_text.simps [of 100000] nat_text.simps [of 10000] nat_text.simps [of 1000] nat_text.simps [of 100]
        nat_text.simps [of 10] nat_text.simps [of "Suc 0"] nat_text.simps [of 0])
    have "\<lfloor>(100000 / 1000000000 :: rat) * 10 ^ 9 + 1 / 2\<rfloor> = 100000" by (rule floor_unique) simp_all
    then have fixed: "to_fixed 9 (100000 / 1000000000) = ''0.000100000''"
      by (simp add: to_fixed_def Let_def n padStart_def numeral_3_eq_3)
    have zeros: "strip_zeros ''0.000100000'' = ''0.0001''" by code_simp
    show ?thesis using fixed zeros by (simp add: app_lamportsToSolUi_def app_MIN_ATTEMPT_FEE_LAMPORTS_def lamportsToSolUi_def)
  qed
  have ok: "plain_ok ''0'' (Some ''0001'')" by (simp add: plain_ok_def is_digit_def)
  have shown: "amount_text ''0'' (Some ''0001'') = ''0.0001''" by (simp add: amount_text_def)
  have v: "digits_val ''0'' = 0" "digits_val ''0001'' = 1" by code_simp+
  have "\<not> number_le_zero ''0.0001''"
    using number_small [OF ok, of 9] v by (simp add: shown plain_frac_def plain_val_def)
  with raw_plain [OF ok, of 9] v show ?thesis by (simp add: shown ui plain_frac_def SOL_DECIMALS_def)
qed

text \<open>A debit of the attempt always leaves a balance, also when none was known.\<close>

lemma attempt_fee_known:
  "patched_fee (app_lamportsToSolUi app_MIN_ATTEMPT_FEE_LAMPORTS) FlowOut prev =
     (let n = max 0 ((case prev of None \<Rightarrow> 0 | Some b \<Rightarrow> fb_lamports b) - 100000) in
      Some \<lparr>fb_lamports = n, fb_ui = app_lamportsToSolUi n, fb_low = (n < app_FEE_BALANCE_LOW_LAMPORTS)\<rparr>)"
  by (simp add: patched_fee_def attempt_fee Let_def)

subsection \<open>A send and its rollback\<close>

text \<open>The keys of a send: the fee balance, the portfolio, and the first pages of the wallet that are cached or usual.\<close>

definition fee_key :: "send_context \<Rightarrow> query_key" where "fee_key x = feeBalance_byToken (Some (sx_token x))"
definition portfolio_key :: "send_context \<Rightarrow> query_key" where "portfolio_key x = walletPortfolio_byOwner (Some (sx_wallet x))"

lemma send_cache:
  assumes "query_client_ok Q" "cache_ok Q q" "send_apply Q usd x signature q = (snap, q1)"
  obtains ks where "page_keys ks"
    "walletActivity_byOwner (Some (sx_wallet x)) 20 None \<in> set ks" "walletActivity_byOwner (Some (sx_wallet x)) 40 None \<in> set ks"
    "\<And>k. k \<in> set ks \<Longrightarrow> isOwnerActivityFirstPage k (sx_wallet x)"
    "\<And>k. qc_get Q q k \<noteq> None \<Longrightarrow> isOwnerActivityFirstPage k (sx_wallet x) \<Longrightarrow> k \<in> set ks"
    "snap = \<lparr>sn_signature = signature, sn_fee = as_fee (qc_get Q q (fee_key x)),
       sn_activity = map (\<lambda>k. (k, as_page (qc_get Q q k))) ks, sn_portfolio = as_portfolio (qc_get Q q (portfolio_key x))\<rparr>"
    "\<And>k. qc_get Q q1 k =
       (if k \<in> set ks then Some (PageData (prependActivityItem (as_page (qc_get Q q k)) (sent_row x signature)))
        else if k = fee_key x then
          map_option FeeData (patched_fee (app_lamportsToSolUi app_MIN_ATTEMPT_FEE_LAMPORTS) FlowOut (as_fee (qc_get Q q k)))
        else if k = portfolio_key x then map_option (PortfolioData \<circ> patched_portfolio usd (sent_delta x)) (as_portfolio (qc_get Q q k))
        else qc_get Q q k)"
proof -
  obtain fee qf where f: "applyOptimisticFeeBalance Q (sx_token x) (app_lamportsToSolUi app_MIN_ATTEMPT_FEE_LAMPORTS) FlowOut q = (fee, qf)"
    by force
  obtain act qa where a: "applyOptimisticWalletActivity Q (sent_row x signature) qf = (act, qa)" by force
  let ?ks = "activity_keys Q (sx_wallet x) qf"
  have row: "aa_walletAddress (sent_row x signature) = sx_wallet x" by (simp add: sent_row_def)
  have lens: "\<forall>k \<in> set (qc_findAll Q walletActivity_all qf). length k = 4"
    using fee_keeps_findAll [OF assms(1)] f assms(2) unfolding cache_ok_def by (metis snd_conv)
  have pages: "page_keys ?ks" by (rule activity_page_keys [OF assms(1) lens])
  have apart: "k \<noteq> fee_key x" "k \<noteq> portfolio_key x" if "k \<in> set ?ks" for k
    using pages that by (auto simp: page_keys_def fee_key_def portfolio_key_def key_defs)
  note fee = fee_reads [OF assms(1), of "sx_token x" "app_lamportsToSolUi app_MIN_ATTEMPT_FEE_LAMPORTS" FlowOut q, unfolded f]
  have F: "qc_get Q qf k = (if k = fee_key x then map_option FeeData
      (patched_fee (app_lamportsToSolUi app_MIN_ATTEMPT_FEE_LAMPORTS) FlowOut (as_fee (qc_get Q q k))) else qc_get Q q k)" for k
    using fee(2) by (simp add: fee_key_def attempt_fee_known Let_def)
  note act = activity_reads [OF assms(1) a, unfolded row]
  have pd: "pd_owner (sent_delta x) = sx_wallet x" by (simp add: sent_delta_def)
  note delta = delta_reads [OF assms(1), of usd "sent_delta x" qa, unfolded pd, folded portfolio_key_def]
  have pk: "portfolio_key x \<noteq> fee_key x" "portfolio_key x \<notin> set ?ks"
    using apart by (auto simp: portfolio_key_def fee_key_def)
  have A: "qc_get Q qa k = (if k \<in> set ?ks then Some (PageData (prependActivityItem (as_page (qc_get Q q k)) (sent_row x signature)))
      else qc_get Q qf k)" for k
    using act(2) [of k] apart [of k] by (simp add: F)
  have at_pk: "qc_get Q qa (portfolio_key x) = qc_get Q q (portfolio_key x)" using pk by (simp add: A F)
  have typed: "map_option PortfolioData (as_portfolio (qc_get Q q (portfolio_key x))) = qc_get Q q (portfolio_key x)"
    unfolding portfolio_key_def by (rule typed_data(1) [OF assms(2)])
  have snap: "snap = \<lparr>sn_signature = signature, sn_fee = as_fee (qc_get Q q (fee_key x)),
      sn_activity = map (\<lambda>k. (k, as_page (qc_get Q q k))) ?ks, sn_portfolio = as_portfolio (qc_get Q q (portfolio_key x))\<rparr>"
    and q1: "q1 = snd (applyOptimisticPortfolioDelta Q usd (sent_delta x) qa)"
    using assms(3) fee(1) act(1) delta(1) at_pk apart
    by (auto simp: send_apply_def f a fee_key_def F split: prod.splits)
  have got: "qc_get Q q1 k = (if k \<in> set ?ks then Some (PageData (prependActivityItem (as_page (qc_get Q q k)) (sent_row x signature)))
        else if k = fee_key x then
          map_option FeeData (patched_fee (app_lamportsToSolUi app_MIN_ATTEMPT_FEE_LAMPORTS) FlowOut (as_fee (qc_get Q q k)))
        else if k = portfolio_key x then map_option (PortfolioData \<circ> patched_portfolio usd (sent_delta x)) (as_portfolio (qc_get Q q k))
        else qc_get Q q k)" for k
    unfolding q1 delta(2) at_pk using pk typed by (auto simp: A F split: option.split)
  have cached: "k \<in> set ?ks" if "qc_get Q q k \<noteq> None" "isOwnerActivityFirstPage k (sx_wallet x)" for k
  proof (rule activity_keys_cached [OF assms(1) _ that(2)])
    have "k \<noteq> fee_key x" using first_page_root [OF that(2)] by (auto simp: fee_key_def key_defs)
    with that(1) show "qc_get Q qf k \<noteq> None" by (simp add: F)
  qed
  show ?thesis
    by (rule that [OF pages activity_keys_limits(1) activity_keys_limits(2) activity_keys_first [of _ Q "sx_wallet x" qf] cached snap got])
qed

text \<open>
  The rollback of a send, on a cache \<open>q2\<close> that others may have changed meanwhile: the queries the send touched
  are as before it, whatever happened to them since.
\<close>

lemma send_rollback_reads:
  assumes "query_client_ok Q" "cache_ok Q q" "send_apply Q usd x signature q = (snap, q1)"
    and "data_ok Q q2"
  shows "qc_get Q (send_rollback Q x snap q2) k =
    (if k = fee_key x \<or> k = portfolio_key x then (if qc_get Q q k = None then qc_get Q q2 k else qc_get Q q k)
     else if isOwnerActivityFirstPage k (sx_wallet x) \<and> qc_get Q q1 k \<noteq> None then qc_get Q q k
     else qc_get Q q2 k)"
    and "qc_get Q q (fee_key x) = None \<Longrightarrow> qc_get Q q2 (fee_key x) \<noteq> None \<Longrightarrow> qc_stale Q (send_rollback Q x snap q2) (fee_key x)"
proof -
  obtain ks where ks: "page_keys ks" "\<And>k. k \<in> set ks \<Longrightarrow> isOwnerActivityFirstPage k (sx_wallet x)"
    "\<And>k. qc_get Q q k \<noteq> None \<Longrightarrow> isOwnerActivityFirstPage k (sx_wallet x) \<Longrightarrow> k \<in> set ks"
    and snap: "snap = \<lparr>sn_signature = signature, sn_fee = as_fee (qc_get Q q (fee_key x)),
       sn_activity = map (\<lambda>k. (k, as_page (qc_get Q q k))) ks, sn_portfolio = as_portfolio (qc_get Q q (portfolio_key x))\<rparr>"
    and q1: "\<And>k. qc_get Q q1 k =
       (if k \<in> set ks then Some (PageData (prependActivityItem (as_page (qc_get Q q k)) (sent_row x signature)))
        else if k = fee_key x then
          map_option FeeData (patched_fee (app_lamportsToSolUi app_MIN_ATTEMPT_FEE_LAMPORTS) FlowOut (as_fee (qc_get Q q k)))
        else if k = portfolio_key x then map_option (PortfolioData \<circ> patched_portfolio usd (sent_delta x)) (as_portfolio (qc_get Q q k))
        else qc_get Q q k)"
    by (rule send_cache [OF assms(1-3)]) blast
  let ?f = "restoreFeeBalanceSnapshot Q (sx_token x) (sn_fee snap) q2"
  let ?p = "restorePortfolioSnapshot Q (sx_wallet x) (sn_portfolio snap) ?f"
  have fee: "map_option FeeData (as_fee (qc_get Q q (fee_key x))) = qc_get Q q (fee_key x)"
    and pf: "map_option PortfolioData (as_portfolio (qc_get Q q (portfolio_key x))) = qc_get Q q (portfolio_key x)"
    unfolding fee_key_def portfolio_key_def by (rule typed_data [OF assms(2)])+
  have apart: "fee_key x \<noteq> portfolio_key x" "take 1 (fee_key x) \<noteq> walletActivity_all" "take 1 (portfolio_key x) \<noteq> walletActivity_all"
    by (simp_all add: fee_key_def portfolio_key_def del: One_nat_def)
  then have not_page: "fee_key x \<notin> set ks" "portfolio_key x \<notin> set ks"
    using ks(1) by (auto simp: page_keys_def simp del: One_nat_def)
  have P: "qc_get Q ?p k = (if k = fee_key x \<or> k = portfolio_key x then (if qc_get Q q k = None then qc_get Q q2 k else qc_get Q q k)
      else qc_get Q q2 k)" for k
    using fee pf apart(1) unfolding restore_portfolio_reads [OF assms(1)] restore_fee_reads [OF assms(1)]
    by (auto simp: snap fee_key_def [symmetric] portfolio_key_def [symmetric] split: option.splits)
  have "data_ok Q ?p" using assms(2,4) by (auto simp: data_ok_def cache_ok_def P split: if_splits)
  then have R: "qc_get Q (send_rollback Q x snap q2) k = (if k \<in> set ks then qc_get Q q k else qc_get Q ?p k)" for k
    using restore_pages_back [OF assms(1,2) ks(1), of ?p k] by (simp add: send_rollback_def snap)
  show "qc_get Q (send_rollback Q x snap q2) k =
    (if k = fee_key x \<or> k = portfolio_key x then (if qc_get Q q k = None then qc_get Q q2 k else qc_get Q q k)
     else if isOwnerActivityFirstPage k (sx_wallet x) \<and> qc_get Q q1 k \<noteq> None then qc_get Q q k
     else qc_get Q q2 k)"
  proof (cases "isOwnerActivityFirstPage k (sx_wallet x)")
    case True
    then have "k \<in> set ks \<longleftrightarrow> qc_get Q q1 k \<noteq> None"
      using ks(3) [of k] q1 [of k] first_page_root [OF True] apart
      by (cases "qc_get Q q k") (auto simp del: One_nat_def split: if_splits)
    with True first_page_root [OF True] apart show ?thesis by (auto simp: R P simp del: One_nat_def)
  next
    case False
    then have "k \<notin> set ks" using ks(2) by blast
    with False show ?thesis by (simp add: R P)
  qed
  show "qc_stale Q (send_rollback Q x snap q2) (fee_key x)" if "qc_get Q q (fee_key x) = None" "qc_get Q q2 (fee_key x) \<noteq> None"
  proof -
    have "qc_stale Q ?f (fee_key x)"
      using that stale_invalidate [OF assms(1), of "fee_key x" "fee_key x" q2 "\<lambda>_ _. True"] fee
      by (simp add: restoreFeeBalanceSnapshot_def snap fee_key_def [symmetric])
    then have "qc_stale Q ?p (fee_key x)"
      using apart(1) by (auto simp: restorePortfolioSnapshot_def Let_def portfolio_key_def [symmetric] stale_set [OF assms(1)]
          stale_invalidate_keeps [OF assms(1)] split: option.split)
    moreover have "\<forall>e \<in> set (sn_activity snap). take 1 (fst e) = walletActivity_all"
      using ks(1) by (auto simp: snap page_keys_def)
    ultimately show ?thesis
      using restore_pages_stale [OF assms(1) _ apart(2), of "sn_activity snap" ?p]
      by (simp add: send_rollback_def restoreWalletActivitySnapshot_def)
  qed
qed

text \<open>The parts of the cache after a send.\<close>

lemma send_shows:
  assumes "query_client_ok Q" "cache_ok Q q" "send_apply Q usd x signature q = (snap, q1)"
  shows "sn_signature snap = signature"
    and "qc_get Q q1 (walletActivity_byOwner (Some (sx_wallet x)) 20 None) = Some (PageData
      (prependActivityItem (as_page (qc_get Q q (walletActivity_byOwner (Some (sx_wallet x)) 20 None))) (sent_row x signature)))"
    and "qc_get Q q (portfolio_key x) = Some (PortfolioData p) \<Longrightarrow>
      qc_get Q q1 (portfolio_key x) = Some (PortfolioData (patched_portfolio usd (sent_delta x) p))"
    and "as_fee (qc_get Q q1 (fee_key x)) =
      patched_fee (app_lamportsToSolUi app_MIN_ATTEMPT_FEE_LAMPORTS) FlowOut (as_fee (qc_get Q q (fee_key x)))"
proof (atomize (full), rule send_cache [OF assms], intro conjI impI)
  fix ks
  let ?first = "walletActivity_byOwner (Some (sx_wallet x)) 20 None"
  assume ks: "page_keys ks" "?first \<in> set ks"
    and snap: "snap = \<lparr>sn_signature = signature, sn_fee = as_fee (qc_get Q q (fee_key x)),
       sn_activity = map (\<lambda>k. (k, as_page (qc_get Q q k))) ks, sn_portfolio = as_portfolio (qc_get Q q (portfolio_key x))\<rparr>"
    and q1: "\<And>k. qc_get Q q1 k =
       (if k \<in> set ks then Some (PageData (prependActivityItem (as_page (qc_get Q q k)) (sent_row x signature)))
        else if k = fee_key x then
          map_option FeeData (patched_fee (app_lamportsToSolUi app_MIN_ATTEMPT_FEE_LAMPORTS) FlowOut (as_fee (qc_get Q q k)))
        else if k = portfolio_key x then map_option (PortfolioData \<circ> patched_portfolio usd (sent_delta x)) (as_portfolio (qc_get Q q k))
        else qc_get Q q k)"
  show "sn_signature snap = signature" by (simp add: snap)
  show "qc_get Q q1 ?first = Some (PageData (prependActivityItem (as_page (qc_get Q q ?first)) (sent_row x signature)))"
    using ks(2) by (simp add: q1)
  have apart: "fee_key x \<notin> set ks" "portfolio_key x \<notin> set ks" "portfolio_key x \<noteq> fee_key x"
    using ks(1) by (auto simp: page_keys_def portfolio_key_def fee_key_def key_defs)
  then show "qc_get Q q1 (portfolio_key x) = Some (PortfolioData (patched_portfolio usd (sent_delta x) p))"
    if "qc_get Q q (portfolio_key x) = Some (PortfolioData p)"
    using that by (simp add: q1)
  show "as_fee (qc_get Q q1 (fee_key x)) =
      patched_fee (app_lamportsToSolUi app_MIN_ATTEMPT_FEE_LAMPORTS) FlowOut (as_fee (qc_get Q q (fee_key x)))"
    using apart by (simp add: q1 attempt_fee_known Let_def)
qed

lemma data_ok_send:
  assumes "query_client_ok Q" "cache_ok Q q" "send_apply Q usd x signature q = (snap, q1)"
  shows "data_ok Q q1"
proof -
  obtain ks where ks: "page_keys ks" and q1: "\<And>k. qc_get Q q1 k =
       (if k \<in> set ks then Some (PageData (prependActivityItem (as_page (qc_get Q q k)) (sent_row x signature)))
        else if k = fee_key x then
          map_option FeeData (patched_fee (app_lamportsToSolUi app_MIN_ATTEMPT_FEE_LAMPORTS) FlowOut (as_fee (qc_get Q q k)))
        else if k = portfolio_key x then map_option (PortfolioData \<circ> patched_portfolio usd (sent_delta x)) (as_portfolio (qc_get Q q k))
        else qc_get Q q k)"
    by (rule send_cache [OF assms]) blast
  have "key_fits k (PageData g)" if "k \<in> set ks" for k g
    using ks that by (simp add: page_keys_def key_fits_def key_shape_def walletActivity_all_def)
  moreover have "key_fits (fee_key x) (FeeData b)" "key_fits (portfolio_key x) (PortfolioData p)" for b p
    by (simp_all add: fee_key_def portfolio_key_def key_defs key_fits_def key_shape_def)
  ultimately show ?thesis using assms(2) by (auto simp: data_ok_def cache_ok_def q1 split: if_splits)
qed

text \<open>What a run changed is what its \<open>apply\<close> changed.\<close>

lemma send_run:
  assumes "runWalletTransaction (send_args Q usd x send decide isAbort) preferred q = (out, r)"
  shows "case sent_of out of
      None \<Rightarrow> tr_watched r = None \<and> tr_state r = q
    | Some (s, m) \<Rightarrow> send m = Inr s \<and> (\<exists>snap. tr_watched r = Some snap \<and> send_apply Q usd x s q = (snap, tr_state r))"
proof -
  let ?A = "send_args Q usd x send decide isAbort"
  have quiet: "callbacks_quiet ?A" by (simp add: callbacks_quiet_def send_args_def split: prod.split)
  obtain modes where spec: "run_spec ?A q out r modes" using run_spec_holds [OF quiet assms] by blast
  have run: "send_apply Q usd x s q = (snap, q1)" if "ta_apply ?A s q = (Inr snap, q1)" for s snap q1
    using that by (simp add: send_args_def split: prod.splits)
  have send: "ta_send ?A = send" by (simp add: send_args_def)
  show ?thesis
    using spec by (auto simp: run_spec_def send split: option.splits dest: run)
qed

text \<open>
  C28: A send that does not land leaves no trace.  However a send ends, if nothing was accepted the cache is the
  one before; and if it was accepted and its confirmation fails, the rollback brings every query back: the
  portfolio, the pages of transactions, those made for it included, and the fee balance.  A fee balance that
  was not known is the only exception, and that one is marked for a refetch.  (The updates of a send do not
  throw here; WalletTx says what a run does when they do.)
\<close>
theorem failed_sends_leave_no_trace:
  assumes "query_client_ok Q" "cache_ok Q q"
    and "runWalletTransaction (send_args Q usd x send decide isAbort) preferred q = (out, r)"
  shows "case tr_watched r of
      None \<Rightarrow> sent_of out = None \<and> tr_state r = q
    | Some snap \<Rightarrow>
        let after = settle_confirmation (send_args Q usd x send decide isAbort) False snap (tr_state r) in
        sent_of out \<noteq> None \<and>
        (\<forall>k. k \<noteq> fee_key x \<or> qc_get Q q k \<noteq> None \<longrightarrow> qc_get Q after k = qc_get Q q k) \<and>
        (qc_get Q q (fee_key x) = None \<longrightarrow> qc_stale Q after (fee_key x))"
proof (cases "sent_of out")
  case None
  with send_run [OF assms(3)] show ?thesis by simp
next
  case (Some sm)
  then obtain s m snap where watched: "tr_watched r = Some snap" and applied: "send_apply Q usd x s q = (snap, tr_state r)"
    using send_run [OF assms(3)] by (cases sm) auto
  have after: "settle_confirmation (send_args Q usd x send decide isAbort) False snap (tr_state r) = send_rollback Q x snap (tr_state r)"
    by (simp add: settle_confirmation_def send_args_def)
  note rolled = send_rollback_reads [OF assms(1,2) applied data_ok_send [OF assms(1,2) applied]]
  have same: "qc_get Q (tr_state r) k = qc_get Q q k"
    if "k \<noteq> fee_key x" "k = portfolio_key x \<longrightarrow> qc_get Q q k = None" "isOwnerActivityFirstPage k (sx_wallet x) \<longrightarrow> qc_get Q (tr_state r) k = None" for k
    by (rule send_cache [OF assms(1,2) applied]) (use that in \<open>auto split: if_splits\<close>)
  have "qc_get Q (tr_state r) (fee_key x) \<noteq> None"
    by (rule send_cache [OF assms(1,2) applied]) (auto simp: attempt_fee_known Let_def)
  moreover have "qc_get Q (send_rollback Q x snap (tr_state r)) k = qc_get Q q k" if "k \<noteq> fee_key x \<or> qc_get Q q k \<noteq> None" for k
  proof (cases "k = portfolio_key x")
    case True
    then have "k \<noteq> fee_key x" "\<not> isOwnerActivityFirstPage k (sx_wallet x)"
      using first_page_root [of k] by (auto simp: fee_key_def portfolio_key_def key_defs)
    with True rolled(1) [of k] same [of k] show ?thesis by simp
  next
    case False
    with that rolled(1) [of k] same [of k] show ?thesis by (auto split: if_splits)
  qed
  ultimately show ?thesis using rolled(2) by (simp add: watched after Let_def Some)
qed

subsection \<open>A client that has the documented behaviour\<close>

definition sample_client :: "(query_key \<times> cached \<times> bool) list query_client" where
  "sample_client =
     \<lparr>qc_get = (\<lambda>q k. map_option fst (map_of q k)),
      qc_set = (\<lambda>k d q. (k, d, False) # filter (\<lambda>e. fst e \<noteq> k) q),
      qc_remove = (\<lambda>k q. filter (\<lambda>e. \<not> prefix k (fst e)) q),
      qc_invalidate = (\<lambda>p f q. map (\<lambda>(k, d, s). (k, d, s \<or> prefix p k \<and> f k (Some d))) q),
      qc_stale = (\<lambda>q k. case map_of q k of Some (d, s) \<Rightarrow> s | None \<Rightarrow> False),
      qc_findAll = (\<lambda>p q. remdups (filter (prefix p) (map fst q)))\<rparr>"

lemma map_of_filter_keys:
  "map_of (filter (\<lambda>e. fst e \<noteq> a) q) k = (if k \<noteq> a then map_of q k else None)"
  "map_of (filter (\<lambda>e. \<not> prefix a (fst e)) q) k = (if prefix a k then None else map_of q k)"
  by (induction q) auto

lemma map_of_marked: "map_of (map (\<lambda>(k, d, s). (k, d, g k d s)) q) k = map_option (\<lambda>(d, s). (d, g k d s)) (map_of q k)"
  by (induction q) auto

lemma sample_client_ok: "query_client_ok sample_client"
proof (unfold query_client_ok_def, intro conjI allI impI)
  show "qc_get sample_client (qc_set sample_client k d q) = (qc_get sample_client q)(k \<mapsto> d)" for q k d
    by (rule ext) (simp add: sample_client_def map_of_filter_keys)
  show "qc_get sample_client (qc_remove sample_client k q) k' = (if prefix k k' then None else qc_get sample_client q k')" for q k k'
    by (simp add: sample_client_def map_of_filter_keys)
  show "qc_get sample_client (qc_invalidate sample_client p f q) = qc_get sample_client q" for q p f
    by (rule ext) (simp add: sample_client_def map_of_marked option.map_comp comp_def split_beta)
  show "k \<in> set (qc_findAll sample_client p q) \<Longrightarrow> prefix p k" for q p k
    by (simp add: sample_client_def)
  show "prefix p k \<and> qc_get sample_client q k \<noteq> None \<Longrightarrow> k \<in> set (qc_findAll sample_client p q)" for q p k
    by (force simp: sample_client_def dest: map_of_SomeD)
  show "distinct (qc_findAll sample_client p q)" for q p
    by (simp add: sample_client_def)
  show "k' \<in> set (qc_findAll sample_client p (qc_set sample_client k d q)) \<Longrightarrow> k' = k \<or> k' \<in> set (qc_findAll sample_client p q)"
    for q p k d k'
    by (auto simp: sample_client_def split: if_splits)
  show "prefix p k \<and> qc_get sample_client q k \<noteq> None \<and> f k (qc_get sample_client q k) \<Longrightarrow>
      qc_stale sample_client (qc_invalidate sample_client p f q) k" for q p f k
    by (auto simp: sample_client_def map_of_marked)
  show "qc_stale sample_client q k \<Longrightarrow> qc_stale sample_client (qc_invalidate sample_client p f q) k" for q p f k
    by (auto simp: sample_client_def map_of_marked split: option.splits)
  show "k' \<noteq> k \<Longrightarrow> qc_stale sample_client (qc_set sample_client k d q) k' = qc_stale sample_client q k'" for q k d k'
    by (simp add: sample_client_def map_of_filter_keys)
  show "\<not> prefix k k' \<Longrightarrow> qc_stale sample_client (qc_remove sample_client k q) k' = qc_stale sample_client q k'" for q k k'
    by (simp add: sample_client_def map_of_filter_keys)
qed

text \<open>A wallet with five units of a token of which two are sent; its fee balance was never loaded.\<close>

definition sample_send :: send_context where
  "sample_send = \<lparr>sx_token = ''T'', sx_wallet = ''W'', sx_recipient = ''R'', sx_nft = False, sx_name = '''', sx_mint = ''M'',
     sx_amount = ''2'', sx_now = 100\<rparr>"

definition sample_holding :: holding where
  "sample_holding = \<lparr>ho_mint = ''M'', ho_symbol = ''M'', ho_name = ''M'', ho_icon = None, ho_decimals = 0,
     ho_tokenProgram = None, ho_balanceRaw = ''5'', ho_balanceUi = ''5'', ho_price = None, ho_valueUsd = None\<rparr>"

definition sample_portfolio :: portfolio where
  "sample_portfolio = \<lparr>po_holdings = [sample_holding], po_collectibles = []\<rparr>"

definition sample_cache :: "(query_key \<times> cached \<times> bool) list" where
  "sample_cache = [(portfolio_key sample_send, PortfolioData sample_portfolio, False)]"

definition sample_send_args :: "((query_key \<times> cached \<times> bool) list, send_snapshot) tx_args" where
  "sample_send_args = send_args sample_client (\<lambda>_ p. p) sample_send (\<lambda>_. Inr ''sig'') (\<lambda>_. Refuse) (\<lambda>_. False)"

lemma sample_get: "qc_get sample_client sample_cache k =
    (if k = portfolio_key sample_send then Some (PortfolioData sample_portfolio) else None)"
  by (simp add: sample_client_def sample_cache_def)

lemma sample_cache_ok: "cache_ok sample_client sample_cache"
proof -
  have "qc_findAll sample_client walletActivity_all sample_cache = []"
    by (simp add: sample_client_def sample_cache_def portfolio_key_def key_defs)
  then show ?thesis
    by (simp add: cache_ok_def data_ok_def sample_get key_fits_def key_shape_def portfolio_key_def walletPortfolio_byOwner_def
        walletPortfolio_all_def)
qed

lemma sample_run: "\<exists>r. runWalletTransaction sample_send_args None sample_cache = (WasSent ''sig'' ByPolicy, r)"
  by (simp add: runWalletTransaction_def sendAndApply_def applyOptimistic_def sample_send_args_def send_args_def Let_def
      split: prod.split)

lemma sample_amount: "uiAmountToRaw ''2'' 0 = Inr 2" "BigInt ''5'' = Some 5"
proof -
  have ok: "plain_ok ''2'' None" and two: "amount_text ''2'' None = ''2''"
    by (simp_all add: plain_ok_def amount_text_def is_digit_def)
  have v: "digits_val ''2'' = 2" by code_simp
  have "\<not> number_le_zero ''2''"
    using number_small [OF ok, of 0] v by (simp add: two plain_frac_def plain_val_def)
  with raw_plain [OF ok, of 0] v show "uiAmountToRaw ''2'' 0 = Inr 2" by (simp add: two plain_frac_def)
  show "BigInt ''5'' = Some 5" by code_simp
qed

theorem failed_sends_leave_no_trace_witness:
  "\<exists>r snap. runWalletTransaction sample_send_args None sample_cache = (WasSent ''sig'' ByPolicy, r) \<and> tr_watched r = Some snap \<and>
    qc_get sample_client (settle_confirmation sample_send_args False snap (tr_state r)) (portfolio_key sample_send) =
      Some (PortfolioData sample_portfolio) \<and>
    qc_get sample_client (settle_confirmation sample_send_args False snap (tr_state r)) (walletActivity_byOwner (Some ''W'') 20 None) = None \<and>
    qc_stale sample_client (settle_confirmation sample_send_args False snap (tr_state r)) (fee_key sample_send)"
proof -
  obtain r where run: "runWalletTransaction sample_send_args None sample_cache = (WasSent ''sig'' ByPolicy, r)" using sample_run ..
  have keys: "portfolio_key sample_send \<noteq> fee_key sample_send" "walletActivity_byOwner (Some ''W'') 20 None \<noteq> fee_key sample_send"
    "walletActivity_byOwner (Some ''W'') 20 None \<noteq> portfolio_key sample_send"
    by (simp_all add: portfolio_key_def fee_key_def key_defs)
  from failed_sends_leave_no_trace [OF sample_client_ok sample_cache_ok run [unfolded sample_send_args_def]] run keys
  show ?thesis
    by (auto simp: sample_get sent_of_def Let_def sample_send_args_def [symmetric] split: option.splits)
qed

subsection \<open>A send that lands\<close>

lemma BigInt_int_text: "0 \<le> n \<Longrightarrow> BigInt (int_text n) = Some n"
  by (simp add: int_text_def BigInt_digits nat_text_digits)

lemma adjusted_out:
  assumes "BigInt (ho_balanceRaw h) = Some n" "uiAmountToRaw amountUi (ho_decimals h) = Inr a"
  shows "BigInt (ho_balanceRaw (adjustHolding usd amountUi FlowOut h)) = Some (max 0 (n - a))"
    and "decimal_value (ho_balanceUi (adjustHolding usd amountUi FlowOut h)) = of_int (max 0 (n - a)) / 10 ^ ho_decimals h"
  using assms by (auto simp: adjustHolding_def Let_def BigInt_int_text formatAmount_is_formatUnits formatUnits_value max_def)

lemma adjustHolding_mint [simp]: "ho_mint (adjustHolding usd amountUi dir h) = ho_mint h"
  by (simp add: adjustHolding_def Let_def split: sum.split option.split)

lemma patch_fold:
  assumes "query_client_ok Q" "distinct ks"
  shows "qc_get Q (fold (patch_page_at Q i f) ks q) k =
    (if k \<in> set ks \<and> as_page (qc_get Q q k) \<noteq> None then Some (PageData (patched_page i f (the (as_page (qc_get Q q k))))) else qc_get Q q k)"
  using assms(2)
proof (induction ks arbitrary: q)
  case (Cons a ks)
  have "qc_get Q (patch_page_at Q i f a q) k' = (if k' = a \<and> as_page (qc_get Q q k') \<noteq> None then Some (PageData (patched_page i f (the (as_page (qc_get Q q k')))))
      else qc_get Q q k')" for k'
    by (auto simp: patch_page_at_def get_update [OF assms(1)] split: option.splits)
  with Cons show ?case by auto
qed simp

lemma send_confirm_reads:
  assumes "query_client_ok Q"
  shows "qc_get Q (send_confirm Q x snap q) k =
    (if isOwnerActivityFirstPage k (sx_wallet x) \<and> as_page (qc_get Q q k) \<noteq> None
     then Some (PageData (patched_page (sn_signature snap) landed (the (as_page (qc_get Q q k))))) else qc_get Q q k)"
proof -
  have "k \<in> set (qc_findAll Q walletActivity_all q)" if "isOwnerActivityFirstPage k (sx_wallet x)" "as_page (qc_get Q q k) \<noteq> None"
  proof (rule findAll_data [OF assms])
    show "prefix walletActivity_all k" using first_page_root [OF that(1)] by (metis take_is_prefix)
    show "qc_get Q q k \<noteq> None" using that(2) by (cases "qc_get Q q k") simp_all
  qed
  then show ?thesis
    using patch_fold [OF assms distinct_filter [OF findAll_distinct [OF assms]], of "sn_signature snap" landed
        "\<lambda>k. isOwnerActivityFirstPage k (sx_wallet x)" walletActivity_all q q k]
    by (auto simp: send_confirm_def patchOptimisticWalletActivity_def)
qed

lemma patched_row:
  "patched_page i f (prependActivityItem old item) =
    \<lparr>ap_items = (if aa_id item = i then f item else item) #
       map (\<lambda>r. if aa_id r = i then f r else r) (filter (\<lambda>r. aa_id r \<noteq> aa_id item) (case old of None \<Rightarrow> [] | Some p \<Rightarrow> ap_items p)),
     ap_nextCursor = (case old of None \<Rightarrow> None | Some p \<Rightarrow> ap_nextCursor p)\<rparr>"
  by (simp add: patched_page_def prependActivityItem_def)

text \<open>
  C37: A send that lands is shown.  Once it is confirmed, the holding that was sent has the old balance less the
  amount typed, not below nothing, in base units and as the text on screen; the other holdings and the
  collectibles are the same; and the first page of the wallet's transactions starts with the send, no longer
  pending, once, followed by what it had.
\<close>
theorem landed_sends_are_shown:
  assumes "query_client_ok Q" "cache_ok Q q"
    and "runWalletTransaction (send_args Q usd x send decide isAbort) preferred q = (WasSent signature mode, r)"
    and "qc_get Q q (portfolio_key x) = Some (PortfolioData p)" "h \<in> set (po_holdings p)" "ho_mint h = sx_mint x" "\<not> sx_nft x"
    and "BigInt (ho_balanceRaw h) = Some n" "uiAmountToRaw (sx_amount x) (ho_decimals h) = Inr a"
  shows "\<exists>snap p' h' page. tr_watched r = Some snap \<and>
    (let after = settle_confirmation (send_args Q usd x send decide isAbort) True snap (tr_state r) in
      qc_get Q after (portfolio_key x) = Some (PortfolioData p') \<and> h' \<in> set (po_holdings p') \<and> ho_mint h' = ho_mint h \<and>
      BigInt (ho_balanceRaw h') = Some (max 0 (n - a)) \<and>
      decimal_value (ho_balanceUi h') = of_int (max 0 (n - a)) / 10 ^ ho_decimals h \<and>
      filter (\<lambda>g. ho_mint g \<noteq> sx_mint x) (po_holdings p') = filter (\<lambda>g. ho_mint g \<noteq> sx_mint x) (po_holdings p) \<and>
      po_collectibles p' = po_collectibles p \<and>
      qc_get Q after (walletActivity_byOwner (Some (sx_wallet x)) 20 None) = Some (PageData page) \<and>
      ap_items page = (sent_row x signature)\<lparr>aa_pending := False\<rparr> # filter (\<lambda>r. aa_id r \<noteq> signature)
        (case as_page (qc_get Q q (walletActivity_byOwner (Some (sx_wallet x)) 20 None)) of None \<Rightarrow> [] | Some old \<Rightarrow> ap_items old))"
proof -
  let ?A = "send_args Q usd x send decide isAbort"
  let ?first = "walletActivity_byOwner (Some (sx_wallet x)) 20 None"
  let ?p = "patched_portfolio usd (sent_delta x) p"
  let ?h = "adjustHolding usd (sx_amount x) FlowOut h"
  obtain snap where watched: "tr_watched r = Some snap" and applied: "send_apply Q usd x signature q = (snap, tr_state r)"
    using send_run [OF assms(3)] by (auto simp: sent_of_def)
  note shows_it = send_shows [OF assms(1,2) applied]
  note sign = shows_it(1) and row = shows_it(2) and got = shows_it(3) [OF assms(4)]
  have after: "settle_confirmation ?A True snap (tr_state r) = send_confirm Q x snap (tr_state r)"
    by (simp add: settle_confirmation_def send_args_def)
  have nt: "\<not> isOwnerActivityFirstPage (portfolio_key x) (sx_wallet x)" "isOwnerActivityFirstPage ?first (sx_wallet x)"
    by (simp_all add: isOwnerActivityFirstPage_def portfolio_key_def key_defs)
  have hp: "po_holdings ?p = map (\<lambda>g. if ho_mint g = sx_mint x then adjustHolding usd (sx_amount x) FlowOut g else g) (po_holdings p)"
    "po_collectibles ?p = po_collectibles p"
    using assms(7) by (simp_all add: patched_portfolio_def sent_delta_def sx_amountUi_def)
  have others: "filter (\<lambda>g. ho_mint g \<noteq> sx_mint x) (po_holdings ?p) = filter (\<lambda>g. ho_mint g \<noteq> sx_mint x) (po_holdings p)"
    unfolding hp by (induction "po_holdings p" arbitrary: p) (auto simp: filter_map comp_def intro: map_idI)
  have page: "map (\<lambda>r. if aa_id r = signature then landed r else r) (filter (\<lambda>r. aa_id r \<noteq> signature) rs) =
      filter (\<lambda>r. aa_id r \<noteq> signature) rs" for rs
    by (induction rs) auto
  have id: "aa_id (sent_row x signature) = signature" by (simp add: sent_row_def)
  have "?h \<in> set (po_holdings ?p)" using assms(5,6) unfolding hp by force
  then show ?thesis
    using adjusted_out [OF assms(8,9), of usd] others hp(2)
    by (intro exI [of _ snap] exI [of _ ?p] exI [of _ ?h]
          exI [of _ "patched_page signature landed (prependActivityItem (as_page (qc_get Q q ?first)) (sent_row x signature))"])
      (simp add: watched after Let_def send_confirm_reads [OF assms(1)] nt got row sign patched_row id page landed_def)
qed

theorem landed_sends_are_shown_witness:
  "\<exists>r snap p' h' page. runWalletTransaction sample_send_args None sample_cache = (WasSent ''sig'' ByPolicy, r) \<and> tr_watched r = Some snap \<and>
    qc_get sample_client (settle_confirmation sample_send_args True snap (tr_state r)) (portfolio_key sample_send) = Some (PortfolioData p') \<and>
    h' \<in> set (po_holdings p') \<and> BigInt (ho_balanceRaw h') = Some 3 \<and>
    qc_get sample_client (settle_confirmation sample_send_args True snap (tr_state r)) (walletActivity_byOwner (Some ''W'') 20 None) =
      Some (PageData page) \<and>
    ap_items page = [(sent_row sample_send ''sig'')\<lparr>aa_pending := False\<rparr>]"
proof -
  obtain r where run: "runWalletTransaction sample_send_args None sample_cache = (WasSent ''sig'' ByPolicy, r)" using sample_run ..
  have first: "walletActivity_byOwner (Some ''W'') 20 None \<noteq> portfolio_key sample_send" by (simp add: portfolio_key_def key_defs)
  have facts: "qc_get sample_client sample_cache (portfolio_key sample_send) = Some (PortfolioData sample_portfolio)"
    "sample_holding \<in> set (po_holdings sample_portfolio)" "ho_mint sample_holding = sx_mint sample_send" "\<not> sx_nft sample_send"
    "BigInt (ho_balanceRaw sample_holding) = Some 5" "uiAmountToRaw (sx_amount sample_send) (ho_decimals sample_holding) = Inr 2"
    by (simp_all add: sample_get sample_portfolio_def sample_holding_def sample_send_def sample_amount)
  have wallet: "sx_wallet sample_send = ''W''" by (simp add: sample_send_def)
  from landed_sends_are_shown [OF sample_client_ok sample_cache_ok run [unfolded sample_send_args_def] facts] run
  show ?thesis
    by (auto simp: Let_def sample_send_args_def [symmetric] wallet sample_get first)
qed

subsection \<open>What the rollback cannot know\<close>

text \<open>
  A fee balance that was never loaded is taken for zero: a send shows it as zero and low, whatever it is.
\<close>

lemma unknown_balance_becomes_low:
  assumes "query_client_ok Q" "cache_ok Q q" "send_apply Q usd x signature q = (snap, q1)" "qc_get Q q (fee_key x) = None"
  shows "as_fee (qc_get Q q1 (fee_key x)) = Some \<lparr>fb_lamports = 0, fb_ui = app_lamportsToSolUi 0, fb_low = True\<rparr>"
  using send_shows(4) [OF assms(1-3)] assms(4) by (simp add: attempt_fee_known Let_def app_FEE_BALANCE_LOW_LAMPORTS_def)

text \<open>
  A wallet whose transactions were never loaded gets a first page with the send alone and no cursor, fresh
  for as long as the queries of transactions are.
\<close>

lemma send_hides_unloaded_history:
  assumes "query_client_ok Q" "cache_ok Q q" "send_apply Q usd x signature q = (snap, q1)"
    and "qc_get Q q (walletActivity_byOwner (Some (sx_wallet x)) 20 None) = None"
  shows "qc_get Q q1 (walletActivity_byOwner (Some (sx_wallet x)) 20 None) =
    Some (PageData \<lparr>ap_items = [sent_row x signature], ap_nextCursor = None\<rparr>)"
  using send_shows(2) [OF assms(1-3)] by (simp add: assms(4) prependActivityItem_def)

text \<open>
  Two sends of one wallet overlap: the rollback of the first takes back the patches of the second as well, and
  if the second fails too, its rollback shows those of the first again.
\<close>

lemma overlapping_rollbacks_interfere:
  assumes "query_client_ok Q" "cache_ok Q q" "send_apply Q usd x first q = (snap1, q1)"
    and "cache_ok Q q1" "send_apply Q usd y second q1 = (snap2, q2)" "sx_wallet y = sx_wallet x"
    and "qc_get Q q (portfolio_key x) \<noteq> None"
  shows "qc_get Q (send_rollback Q x snap1 q2) (portfolio_key x) = qc_get Q q (portfolio_key x)"
    and "qc_get Q (send_rollback Q y snap2 (send_rollback Q x snap1 q2)) (portfolio_key x) = qc_get Q q1 (portfolio_key x)"
proof -
  have ok2: "data_ok Q q2" by (rule data_ok_send [OF assms(1,4,5)])
  note one = send_rollback_reads(1) [OF assms(1-3) ok2]
  show "qc_get Q (send_rollback Q x snap1 q2) (portfolio_key x) = qc_get Q q (portfolio_key x)"
    using one [of "portfolio_key x"] assms(7) by simp
  have "data_ok Q (send_rollback Q x snap1 q2)"
    using ok2 assms(2) by (auto simp: data_ok_def cache_ok_def one split: if_splits)
  note two = send_rollback_reads(1) [OF assms(1,4,5) this]
  have same: "portfolio_key y = portfolio_key x" by (simp add: portfolio_key_def assms(6))
  obtain p where "qc_get Q q (portfolio_key x) = Some (PortfolioData p)"
    using typed_data(1) [OF assms(2), of "Some (sx_wallet x)"] assms(7) by (auto simp: portfolio_key_def)
  with send_shows(3) [OF assms(1-3)] have "qc_get Q q1 (portfolio_key x) \<noteq> None" by simp
  then show "qc_get Q (send_rollback Q y snap2 (send_rollback Q x snap1 q2)) (portfolio_key x) = qc_get Q q1 (portfolio_key x)"
    using two [of "portfolio_key x"] same by auto
qed

subsection \<open>Ownership and policy\<close>

text \<open>The three restores are one: a key that no other cached key extends gets its old data, or none.\<close>

definition put_back :: "'q query_client \<Rightarrow> query_key \<Rightarrow> cached option \<Rightarrow> 'q \<Rightarrow> 'q" where
  "put_back Q k previous q = (case previous of None \<Rightarrow> qc_remove Q k q | Some d \<Rightarrow> qc_set Q k d q)"

lemma restores_put_back:
  "restoreTokenAuthoritySnapshot Q t a = put_back Q (tokenAuthority_byToken (Some t)) (map_option AuthorityData a)"
  "restoreWalletPolicySnapshot Q t v = put_back Q (walletPolicy_byToken (Some t)) (map_option ViewData v)"
  "truthy w \<Longrightarrow> restoreOwnedAccessoriesSnapshot Q w ts = put_back Q (ownedAccessories_byAuthority w) (map_option OwnedData ts)"
  by (auto simp: restoreTokenAuthoritySnapshot_def restoreWalletPolicySnapshot_def restoreOwnedAccessoriesSnapshot_def put_back_def
      Let_def split: option.split)

definition alone :: "query_key \<Rightarrow> (query_key \<Rightarrow> cached option) \<Rightarrow> bool" where
  "alone k g \<longleftrightarrow> (\<forall>k'. g k' \<noteq> None \<and> prefix k k' \<longrightarrow> k' = k)"

lemma put_back_reads:
  assumes "query_client_ok Q" "alone k (qc_get Q q)"
  shows "qc_get Q (put_back Q k d q) = (qc_get Q q)(k := d)"
proof
  show "qc_get Q (put_back Q k d q) k' = ((qc_get Q q)(k := d)) k'" for k'
    using assms(2) by (cases "qc_get Q q k'")
      (auto simp: put_back_def alone_def get_set [OF assms(1)] get_remove [OF assms(1)] split: option.split)
qed

lemma alone_cached:
  assumes "data_ok Q q"
  shows "alone (tokenAuthority_byToken t) (qc_get Q q)" "alone (walletPolicy_byToken t) (qc_get Q q)"
    "alone (ownedAccessories_byAuthority w) (qc_get Q q)"
proof -
  have "k' = [KText r, a]" if "qc_get Q q k' = Some d" "prefix [KText r, a] k'"
    and "r \<in> {''tokenAuthority'', ''walletPolicy'', ''ownedAccessories''}" for k' d r a
  proof -
    have "key_fits k' d" using assms that(1) by (simp add: data_ok_def)
    with that(2,3) show ?thesis
      by (auto simp: key_fits_def key_shape_def phygitalToken_all_def elim!: prefixE split: cached.splits)
  qed
  then show "alone (tokenAuthority_byToken t) (qc_get Q q)" "alone (walletPolicy_byToken t) (qc_get Q q)"
    "alone (ownedAccessories_byAuthority w) (qc_get Q q)"
    by (auto simp: alone_def tokenAuthority_byToken_def walletPolicy_byToken_def ownedAccessories_byAuthority_def)
qed

lemma data_ok_upd:
  assumes "qc_get Q q' = (qc_get Q q)(k := d)" "data_ok Q q" "\<And>v. d = Some v \<Longrightarrow> key_fits k v"
  shows "data_ok Q q'"
  using assms by (auto simp: data_ok_def)

text \<open>Data put back where it was keeps the cache well-formed.\<close>

lemma put_back_old:
  assumes "query_client_ok Q" "data_ok Q q0" "data_ok Q q" "alone k (qc_get Q q)"
  shows "qc_get Q (put_back Q k (qc_get Q q0 k) q) = (qc_get Q q)(k := qc_get Q q0 k)"
    and "data_ok Q (put_back Q k (qc_get Q q0 k) q)"
proof -
  show r: "qc_get Q (put_back Q k (qc_get Q q0 k) q) = (qc_get Q q)(k := qc_get Q q0 k)"
    by (rule put_back_reads [OF assms(1,4)])
  show "data_ok Q (put_back Q k (qc_get Q q0 k) q)"
    by (rule data_ok_upd [OF r assms(3)]) (use assms(2) in \<open>simp add: data_ok_def\<close>)
qed

lemma policy_back:
  assumes "query_client_ok Q" "cache_ok Q q" "policy_change Q token v q = (rollback, q1)"
  shows "qc_get Q q1 = (qc_get Q q)(walletPolicy_byToken (Some token) \<mapsto> ViewData v)"
    and "qc_get Q (rollback q1) = qc_get Q q"
proof -
  let ?k = "walletPolicy_byToken (Some token)"
  have ok: "data_ok Q q" using assms(2) by (simp add: cache_ok_def)
  from assms(3) have q1: "qc_get Q q1 = (qc_get Q q)(?k \<mapsto> ViewData v)" and "rollback = put_back Q ?k (map_option ViewData (as_policy (qc_get Q q ?k)))"
    by (auto simp: policy_change_def applyOptimisticWalletPolicy_def Let_def get_set [OF assms(1)] restores_put_back)
  then have r: "rollback = put_back Q ?k (qc_get Q q ?k)" by (simp add: typed_data(4) [OF assms(2)])
  have "data_ok Q q1"
    by (rule data_ok_upd [OF q1 ok]) (auto simp: key_fits_def key_shape_def walletPolicy_byToken_def)
  from put_back_old(1) [OF assms(1) ok this alone_cached(2) [OF this]] show "qc_get Q (rollback q1) = qc_get Q q"
    by (simp add: r q1)
  show "qc_get Q q1 = (qc_get Q q)(?k \<mapsto> ViewData v)" by (rule q1)
qed

text \<open>What \<open>applyOptimisticOwnedAccessories\<close> makes of the list of an owner.\<close>

definition owned_after :: "bool \<Rightarrow> string \<Rightarrow> string list option \<Rightarrow> string list option" where
  "owned_after adding token ts =
     (case ts of
        None \<Rightarrow> if adding then Some [token] else None
      | Some ts \<Rightarrow> Some (if adding then if token \<in> set ts then ts else ts @ [token] else filter (\<lambda>t. t \<noteq> token) ts))"

lemma ownership_back:
  assumes "query_client_ok Q" "cache_ok Q q" "truthy w" "ownership_change Q token w auth v adding q = (rollback, q1)"
  shows "qc_get Q q1 = (qc_get Q q)(tokenAuthority_byToken (Some token) \<mapsto> AuthorityData auth,
      walletPolicy_byToken (Some token) \<mapsto> ViewData v,
      ownedAccessories_byAuthority w :=
        map_option OwnedData (owned_after adding token (as_owned (qc_get Q q (ownedAccessories_byAuthority w)))))"
    and "qc_get Q (rollback q1) = qc_get Q q"
proof -
  let ?a = "tokenAuthority_byToken (Some token)" and ?p = "walletPolicy_byToken (Some token)" and ?o = "ownedAccessories_byAuthority w"
  let ?g = "qc_get Q q"
  have ok: "data_ok Q q" using assms(2) by (simp add: cache_ok_def)
  note typed = typed_data(3-5) [OF assms(2)]
  let ?q2 = "qc_set Q ?p (ViewData v) (qc_set Q ?a (AuthorityData auth) q)"
  have g2: "qc_get Q ?q2 = ?g(?a \<mapsto> AuthorityData auth, ?p \<mapsto> ViewData v)" by (simp add: get_set [OF assms(1)])
  have o2: "qc_get Q ?q2 ?o = ?g ?o" by (simp add: g2)
  have p2: "qc_get Q (qc_set Q ?a (AuthorityData auth) q) ?p = ?g ?p" by (simp add: get_set [OF assms(1)] key_defs)
  have owned: "applyOptimisticOwnedAccessories Q w token adding ?q2 = (ob, q1) \<Longrightarrow>
      ob = as_owned (?g ?o) \<and> qc_get Q q1 = (qc_get Q ?q2)(?o := map_option OwnedData (owned_after adding token (as_owned (?g ?o))))" for ob q1
    using typed(3) [of w] assms(3)
    by (auto simp: applyOptimisticOwnedAccessories_def Let_def o2 owned_after_def get_set [OF assms(1)] fun_upd_idem_iff split: option.splits if_splits)
  from assms(4) obtain ob where o: "applyOptimisticOwnedAccessories Q w token adding ?q2 = (ob, q1)"
    and "rollback = (\<lambda>q. restoreOwnedAccessoriesSnapshot Q w ob
       (restoreWalletPolicySnapshot Q token (as_policy (?g ?p)) (restoreTokenAuthoritySnapshot Q token (as_authority (?g ?a)) q)))"
    by (auto simp: ownership_change_def applyOptimisticTokenAuthority_def applyOptimisticWalletPolicy_def Let_def p2 split: prod.splits)
  then have r: "rollback = (\<lambda>q. put_back Q ?o (?g ?o) (put_back Q ?p (?g ?p) (put_back Q ?a (?g ?a) q)))"
    using owned [OF o] typed assms(3) by (simp add: restores_put_back)
  show q1: "qc_get Q q1 = ?g(?a \<mapsto> AuthorityData auth, ?p \<mapsto> ViewData v, ?o := map_option OwnedData (owned_after adding token (as_owned (?g ?o))))"
    using owned [OF o] by (simp add: g2)
  have "data_ok Q q1"
    using ok by (auto simp: data_ok_def q1 key_fits_def key_shape_def tokenAuthority_byToken_def walletPolicy_byToken_def
        ownedAccessories_byAuthority_def)
  note r1 = put_back_old [OF assms(1) ok this alone_cached(1) [OF this], of "Some token"]
  note r2 = put_back_old [OF assms(1) ok r1(2) alone_cached(2) [OF r1(2)], of "Some token"]
  note r3 = put_back_old(1) [OF assms(1) ok r2(2) alone_cached(3) [OF r2(2)], of w]
  show "qc_get Q (rollback q1) = ?g" unfolding r r3 r2(1) r1(1) q1 by auto
qed

text \<open>
  Every mutation of the owner: one that is refused, not accepted or does not land leaves the cache as it was;
  a claim that landed shows the owner, the standard policy and the accessory among the owner's, once if it was
  there at most once; and unlinking it takes all three back.
\<close>

definition mutations :: "'q query_client \<Rightarrow> string \<Rightarrow> owner_wallet \<Rightarrow> submission \<Rightarrow> int \<Rightarrow> send_failure + string \<Rightarrow> ('q \<Rightarrow> 'q mutation) list" where
  "mutations Q token w input now sent =
     [useClaimAccessory Q token w sent, useUnlinkAccessory Q token w sent, useSetWalletPolicy Q token w input now sent,
      useClearWalletPolicy Q token w sent]"

lemma owner_mutation_back:
  assumes "owner_mutation ready sent optimistic q = (out, q1)" "\<And>rb q2. ready \<Longrightarrow> optimistic q = (rb, q2) \<Longrightarrow> qc_get Q (rb q2) = qc_get Q q"
  shows "case out of Inl _ \<Rightarrow> q1 = q | Inr (_, rollback) \<Rightarrow> qc_get Q (watchTransactionConfirmation False rollback q1) = qc_get Q q"
  using assms by (auto simp: owner_mutation_def watchTransactionConfirmation_def split: if_splits sum.splits prod.splits)

lemma mutations_roll_back:
  assumes "query_client_ok Q" "cache_ok Q q" "f \<in> set (mutations Q token w input now sent)" "f q = (out, q1)"
  shows "case out of Inl _ \<Rightarrow> q1 = q | Inr (_, rollback) \<Rightarrow> qc_get Q (watchTransactionConfirmation False rollback q1) = qc_get Q q"
proof -
  note restored = ownership_back(2) [OF assms(1,2)] policy_back(2) [OF assms(1,2)]
  from assms(3) consider "f = useClaimAccessory Q token w sent" | "f = useUnlinkAccessory Q token w sent"
    | "f = useSetWalletPolicy Q token w input now sent" | "f = useClearWalletPolicy Q token w sent"
    by (auto simp: mutations_def)
  then show ?thesis
  proof cases
    case 1 with assms(4) restored(1) show ?thesis by (auto simp: useClaimAccessory_def elim!: owner_mutation_back)
  next
    case 2 with assms(4) restored(1) show ?thesis by (auto simp: useUnlinkAccessory_def elim!: owner_mutation_back)
  next
    case 3 with assms(4) restored(2) show ?thesis by (auto simp: useSetWalletPolicy_def elim!: owner_mutation_back)
  next
    case 4 with assms(4) restored(2) show ?thesis by (auto simp: useClearWalletPolicy_def elim!: owner_mutation_back)
  qed
qed

lemma claim_is_shown:
  assumes "query_client_ok Q" "cache_ok Q q" "useClaimAccessory Q token w sent q = (Inr (s, rollback), q1)"
  shows "as_authority (qc_get Q q1 (tokenAuthority_byToken (Some token))) = Some \<lparr>to_isClaimed = True, to_authority = ow_address w\<rparr>"
    and "as_policy (qc_get Q q1 (walletPolicy_byToken (Some token))) = Some STANDARD_POLICY_VIEW"
    and "\<exists>ts. as_owned (qc_get Q q1 (ownedAccessories_byAuthority (ow_address w))) = Some ts \<and> token \<in> set ts"
proof -
  from assms(3) have t: "truthy (ow_address w)" and c: "ownership_change Q token (ow_address w)
      \<lparr>to_isClaimed = True, to_authority = ow_address w\<rparr> STANDARD_POLICY_VIEW True q = (rollback, q1)"
    by (auto simp: useClaimAccessory_def owner_mutation_def split: if_splits sum.splits prod.splits)
  note g = ownership_back(1) [OF assms(1,2) t c]
  show "as_authority (qc_get Q q1 (tokenAuthority_byToken (Some token))) = Some \<lparr>to_isClaimed = True, to_authority = ow_address w\<rparr>"
    "as_policy (qc_get Q q1 (walletPolicy_byToken (Some token))) = Some STANDARD_POLICY_VIEW"
    "\<exists>ts. as_owned (qc_get Q q1 (ownedAccessories_byAuthority (ow_address w))) = Some ts \<and> token \<in> set ts"
    by (auto simp: g owned_after_def split: option.split)
qed

subsection \<open>Receiving from a nearby accessory\<close>

text \<open>The two portfolios of a payment are restored in the order they were taken, which is right when they differ.\<close>

lemma receive_rolls_back:
  assumes "query_client_ok Q" "cache_ok Q q" "receive_apply Q usd x signature q = (snap, q1)" "rx_recipient x \<noteq> rx_payer x"
  shows "qc_get Q (receive_rollback Q x snap q1) = qc_get Q q"
proof -
  let ?w = "rx_recipient x" and ?rk = "walletPortfolio_byOwner (Some (rx_recipient x))" and ?pk = "walletPortfolio_byOwner (Some (rx_payer x))"
  let ?g = "qc_get Q q"
  obtain act qa where a: "applyOptimisticWalletActivity Q (received_row x signature) q = (act, qa)" by force
  obtain rb qb where b: "applyOptimisticPortfolioDelta Q usd (received_delta x ?w FlowIn) qa = (rb, qb)" by force
  obtain pb qc where c: "applyOptimisticPortfolioDelta Q usd (received_delta x (rx_payer x) FlowOut) qb = (pb, qc)" by force
  let ?ks = "activity_keys Q ?w q"
  have row: "aa_walletAddress (received_row x signature) = ?w" by (simp add: received_row_def)
  note A = activity_reads [OF assms(1) a, unfolded row]
  have pages: "page_keys ?ks" using assms(2) by (intro activity_page_keys [OF assms(1)]) (simp add: cache_ok_def)
  have apart: "?rk \<notin> set ?ks" "?pk \<notin> set ?ks" using pages by (auto simp: page_keys_def key_defs)
  have own: "pd_owner (received_delta x v d) = v" for v d by (simp add: received_delta_def)
  note B = delta_reads [OF assms(1), of usd "received_delta x ?w FlowIn" qa, unfolded b own, simplified]
  note C = delta_reads [OF assms(1), of usd "received_delta x (rx_payer x) FlowOut" qb, unfolded c own, simplified]
  have snap: "snap = \<lparr>rn_signature = signature, rn_recipient = as_portfolio (?g ?rk), rn_payer = as_portfolio (?g ?pk),
      rn_activity = map (\<lambda>k. (k, as_page (?g k))) ?ks\<rparr>" and q1: "q1 = qc"
    using assms(3,4) A(1) B C(1) apart by (auto simp: receive_apply_def a b c A(2) split: option.splits)
  let ?p = "restorePortfolioSnapshot Q (rx_payer x) (rn_payer snap) (restorePortfolioSnapshot Q ?w (rn_recipient snap) q1)"
  have typed: "map_option PortfolioData (as_portfolio (?g ?rk)) = ?g ?rk" "map_option PortfolioData (as_portfolio (?g ?pk)) = ?g ?pk"
    by (rule typed_data [OF assms(2)])+
  have P: "qc_get Q ?p k = (if k \<in> set ?ks then qc_get Q qa k else ?g k)" for k
    using typed apart assms(4) B(2) C(2) unfolding restore_portfolio_reads [OF assms(1)] q1
    by (auto simp: snap A(2) split: option.splits)
  have "key_fits k (PageData v)" if "k \<in> set ?ks" for k v
    using pages that by (simp add: page_keys_def key_fits_def key_shape_def walletActivity_all_def)
  then have "data_ok Q ?p" using assms(2) by (auto simp: data_ok_def cache_ok_def P A(2) split: if_splits)
  note pages_back = restore_pages_back [OF assms(1,2) pages this]
  have "rn_activity snap = map (\<lambda>k. (k, as_page (?g k))) ?ks" by (simp add: snap)
  then have "receive_rollback Q x snap q1 = restoreWalletActivitySnapshot Q (Some (map (\<lambda>k. (k, as_page (?g k))) ?ks)) ?p"
    by (simp only: receive_rollback_def)
  then show ?thesis using pages_back P by (simp add: fun_eq_iff)
qed

subsection \<open>Topping up the fee balance\<close>

lemma topup_rolls_back:
  assumes "query_client_ok Q" "cache_ok Q q" "topup_apply Q usd x signature q = (snap, q1)"
    and "k \<noteq> feeBalance_byToken (Some (ux_token x)) \<or> qc_get Q q k \<noteq> None"
  shows "qc_get Q (topup_rollback Q x snap q1) k = qc_get Q q k"
proof -
  let ?g = "qc_get Q q" and ?fk = "feeBalance_byToken (Some (ux_token x))"
  obtain fee qf where f: "applyOptimisticFeeBalance Q (ux_token x) (ux_amount x) FlowIn q = (fee, qf)" by force
  note F = fee_reads [OF assms(1), of "ux_token x" "ux_amount x" FlowIn q, unfolded f, simplified]
  have typed: "map_option FeeData (as_fee (?g ?fk)) = ?g ?fk" by (rule typed_data(2) [OF assms(2)])
  show ?thesis
  proof (cases "truthy (ux_wallet x)")
    case False
    then have "snap = \<lparr>un_signature = signature, un_fee = fee, un_activity = None, un_portfolio = None\<rparr>" "q1 = qf"
      using assms(3) by (auto simp: topup_apply_def f)
    then show ?thesis
      using False typed assms(4) F
      by (auto simp: topup_rollback_def restore_fee_reads [OF assms(1)] split: option.splits)
  next
    case True
    then obtain w where w: "ux_wallet x = Some w" by (auto simp: truthy_def)
    let ?d = "\<lparr>pd_owner = w, pd_mint = APP_SOL_MINT, pd_amountUi = ux_amount x, pd_direction = FlowOut, pd_removeCollectible = False\<rparr>"
    let ?wk = "walletPortfolio_byOwner (Some w)"
    obtain act qa where a: "applyOptimisticWalletActivity Q (topup_row x w signature) qf = (act, qa)" by force
    let ?ks = "activity_keys Q w qf"
    have row: "aa_walletAddress (topup_row x w signature) = w" by (simp add: topup_row_def)
    note A = activity_reads [OF assms(1) a, unfolded row]
    have lens: "\<forall>k \<in> set (qc_findAll Q walletActivity_all qf). length k = 4"
      using fee_keeps_findAll [OF assms(1)] f assms(2) unfolding cache_ok_def by (metis snd_conv)
    have pages: "page_keys ?ks" by (rule activity_page_keys [OF assms(1) lens])
    have apart: "?wk \<notin> set ?ks" "?fk \<notin> set ?ks" using pages by (auto simp: page_keys_def key_defs)
    have qf: "qc_get Q qf k = ?g k" if "k \<noteq> ?fk" for k using that F(2) by (simp split: option.splits)
    obtain pb qc where c: "applyOptimisticPortfolioDelta Q usd ?d qa = (pb, qc)" by force
    note C = delta_reads [OF assms(1), of usd ?d qa, unfolded c, simplified]
    have pk: "map_option PortfolioData (as_portfolio (?g ?wk)) = ?g ?wk" by (rule typed_data(1) [OF assms(2)])
    have at_wk: "qc_get Q qa ?wk = ?g ?wk" using apart by (simp add: A(2) qf)
    have act: "act = map (\<lambda>k. (k, as_page (?g k))) ?ks" 
      unfolding A(1) using qf apart by (intro map_cong refl) (metis (no_types))
    have snap: "snap = \<lparr>un_signature = signature, un_fee = as_fee (?g ?fk), un_activity = Some act, un_portfolio = as_portfolio (?g ?wk)\<rparr>"
      and q1: "q1 = qc"
      using assms(3) True F(1) C(1) at_wk by (auto simp: topup_apply_def f w a c)
    let ?p = "restorePortfolioSnapshot Q w (un_portfolio snap) (restoreFeeBalanceSnapshot Q (ux_token x) (un_fee snap) q1)"
    have P: "qc_get Q ?p k = (if k \<in> set ?ks then qc_get Q qa k else if k = ?fk \<and> ?g k = None then qc_get Q qf k else ?g k)" for k
      using typed pk apart at_wk C(2) qf unfolding restore_portfolio_reads [OF assms(1)] restore_fee_reads [OF assms(1)] q1
      by (auto simp: snap A(2) split: option.splits)
    have "key_fits k (PageData v)" if "k \<in> set ?ks" for k v
      using pages that by (simp add: page_keys_def key_fits_def key_shape_def walletActivity_all_def)
    moreover have "key_fits ?fk v" if "qc_get Q qf ?fk = Some v" for v
      using that F(2) assms(2) by (auto simp: key_fits_def key_shape_def feeBalance_byToken_def cache_ok_def data_ok_def split: option.splits)
    ultimately have "data_ok Q ?p" using assms(2) by (auto simp: data_ok_def cache_ok_def P A(2) split: if_splits)
    note pages_back = restore_pages_back [OF assms(1,2) pages this]
    have "topup_rollback Q x snap q1 = restoreWalletActivitySnapshot Q (Some (map (\<lambda>k. (k, as_page (?g k))) ?ks)) ?p"
      using True by (simp add: topup_rollback_def w Let_def snap act)
    then show ?thesis using pages_back P assms(4) by auto
  qed
qed

end
