(* ===== verification/Spec2Isabelle.thy ===== *)
theory Spec2Isabelle
  imports SignerFlows AppEdge SignerClient OptimisticCache
begin

text \<open>
  Phygital Wallet: a model of the TypeScript system around the on-chain wallet program.

  The program.  An accessory (an NFC chip with a P-256 passkey) controls a token account on Solana; the
  wallet of the token is a program-derived address, and an owner with an Ed25519 key may act as its
  authority.  Five parts of the repository work together, and the theories follow them.

  1. The signer (\<^verbatim>\<open>secure-signer/src\<close>), an iframe that holds the owner's key.  The application posts
     messages to it; it decrypts the wallet blob with the PRF output of a passkey, shows what is signed,
     signs, and erases every secret buffer.
  2. The SDK (\<^verbatim>\<open>packages/js/phygital-wallet/src\<close>), which compiles the instructions of a transaction into the
     compact form the wallet program executes, asks the accessory's passkey for a signature over a
     challenge that binds them, and asks a fee payer to sponsor the result.
  3. The fee payer (\<^verbatim>\<open>workers/api-signer/src\<close>), one object per token with a ledger of prepaid fees.
  4. The API worker (\<^verbatim>\<open>workers/api/src\<close>): sessions, taps, the backup of owner wallets, the webhook and queue
     that index transactions and book their fees, the history, and the routes in front of the fee payer.
  5. The application (\<^verbatim>\<open>app/src\<close>): the edge in front of its pages with its session cookies, the client of the
     signer's iframe, the wallets it registers for other pages, the transactions it builds, sends and watches,
     and the editor of spending policies.  The rest of it is presentation and data fetching.

  Theories and sources.
  \<^item> Prelude: strings, arrays, results, objects as association lists; Encoding (\<^verbatim>\<open>encoding.ts\<close>): base64, byte
    texts, constant-time comparison; Decimal: decimal texts of integers; SignerConstants (\<^verbatim>\<open>constants.ts\<close>);
    Kit: the data types of \<^verbatim>\<open>@solana/kit\<close> and the record of its functions, which are parameters.
  \<^item> WalletFormat (\<^verbatim>\<open>wallet-format.ts\<close>): reader, encoder and strict decoder of the encrypted wallet blob.
    Protocol (\<^verbatim>\<open>protocol.ts\<close>): posted values and the fail-closed validator.  SignerState (\<^verbatim>\<open>state.ts\<close>): operation
    state, replay window and single-use authorization.
  \<^item> ClearSign (\<^verbatim>\<open>tx/clear-sign.ts\<close>) and TxPolicy (\<^verbatim>\<open>tx/decode-v1.ts\<close>, \<^verbatim>\<open>parser.ts\<close>, \<^verbatim>\<open>policy.ts\<close>,
    \<^verbatim>\<open>sign-risk.ts\<close>): what the signer shows and refuses; WalletProgram: the generated client of the program.
  \<^item> SignerIO, WalletService (\<^verbatim>\<open>crypto.ts\<close>, \<^verbatim>\<open>wallet-service.ts\<close>, \<^verbatim>\<open>blob-store.ts\<close>, \<^verbatim>\<open>user-name.ts\<close>,
    \<^verbatim>\<open>api-backup.ts\<close>), SignerMain (\<^verbatim>\<open>main.ts\<close>) and SignerFlows: the effects, the operations on secrets, the handlers
    and whole runs.  A secret is a buffer of an explicit heap, so that its erasure is a fact about the heap;
    a wait of the code is a response of the surroundings, and a handler that lacks one is suspended.
  \<^item> Compile (\<^verbatim>\<open>wallet/compile.ts\<close>), Challenges (\<^verbatim>\<open>utils/challenges.ts\<close>), WrapMessage and WrapPipeline
    (\<^verbatim>\<open>wallet/wrap-transaction.ts\<close>, \<^verbatim>\<open>preview.ts\<close>, \<^verbatim>\<open>fee-payer.ts\<close>, \<^verbatim>\<open>signer.ts\<close>).
  \<^item> WorkerCommon (\<^verbatim>\<open>workers/shared\<close>): errors, log filter.  TokenStore (\<^verbatim>\<open>token-store.ts\<close>), SignDecode
    (\<^verbatim>\<open>transactions/decode-tx.ts\<close>, \<^verbatim>\<open>backend/secrets.ts\<close>) and TokenSigner (\<^verbatim>\<open>token-signer.ts\<close>): the ledger as a record of
    its SQLite tables, the decoder of sponsored transactions, and the object with its memoised fields.
  \<^item> ApiSession (\<^verbatim>\<open>auth/session-hmac.ts\<close> and the cookies), ApiGate (\<^verbatim>\<open>auth/require-app-access.ts\<close>,
    \<^verbatim>\<open>shared/cors.ts\<close>), AuditLog (\<^verbatim>\<open>audit/audit-log.ts\<close>), KvChallenge (\<^verbatim>\<open>shared/kv-challenge.ts\<close>), TapCounter (\<^verbatim>\<open>tap\<close>),
    AccessoryRoutes (\<^verbatim>\<open>auth/*-routes.ts\<close>), OwnerBlob and OwnerRoutes (\<^verbatim>\<open>owner-wallet\<close>).
  \<^item> SubscribeResult, FeeEvents (\<^verbatim>\<open>fees/subscribe-fee-tx.ts\<close>), WalletActivity and ActivityStore
    (\<^verbatim>\<open>webhooks/wallet-activity.ts\<close>, \<^verbatim>\<open>wallet-activity-store.ts\<close>), WalletQueue (\<^verbatim>\<open>webhooks/transactions.ts\<close>,
    \<^verbatim>\<open>wallet-tx-queue.ts\<close>) and TxRoutes (\<^verbatim>\<open>transactions\<close>, \<^verbatim>\<open>tokens\<close>).
  \<^item> AppRoutes (\<^verbatim>\<open>app/src/lib\<close>: \<^verbatim>\<open>token-routes.ts\<close>, \<^verbatim>\<open>claim-return.ts\<close>, \<^verbatim>\<open>address.ts\<close>) and AppEdge
    (\<^verbatim>\<open>session-cookies.ts\<close>, \<^verbatim>\<open>tap-unlock-middleware.ts\<close>, \<^verbatim>\<open>middleware.ts\<close>): which page a tap opens, which
    return path is followed, what the edge sets and clears.
  \<^item> SignerClient: the application's side of the signer protocol, a step relation over messages, time-outs
    and the mounting of the frame.  WalletStandard: the wallets registered with other pages, their stored
    session and their listeners.
  \<^item> Codecs and ProgramClient: the combinators of \<^verbatim>\<open>@solana/kit\<close> that the generated client uses, and the
    client (\<^verbatim>\<open>packages/js/phygital-wallet/src/generated\<close>) written over them with its builders and parsers.
  \<^item> Amounts (\<^verbatim>\<open>amount.ts\<close>), AppTx (\<^verbatim>\<open>solana/tx.ts\<close>), AppSend (what the owner sends: transfers, payments,
    policies, claims), WalletTx (\<^verbatim>\<open>wallet-transaction.ts\<close>, \<^verbatim>\<open>use-wallet-transaction.ts\<close>: policy first, the
    owner on a denial) and PolicyEditor (\<^verbatim>\<open>policy-limit-editor.tsx\<close>, \<^verbatim>\<open>use-wallet-policy.ts\<close>): the path from
    a typed amount to the bytes the owner signs.  OptimisticCache (\<^verbatim>\<open>queries/keys.ts\<close>, \<^verbatim>\<open>queries/mutations.ts\<close> and
    the flows that use them): what a send, a payment received, a top-up, a claim or a change of policy does to
    the cached balances, transactions and ownership, and its rollback.

  Conventions.  A function that throws returns \<open>'e + 'a\<close>.  A request handler is a function from the request and
  the state to the reply and the new state; the clock of a request is a parameter.  Loops over data are
  structural recursion.  The only fuel is the number of retries of the signer's flows (\<open>SignerMain\<close>): a
  flow consumes one response of the surroundings per retry, and \<open>handle_ends\<close> shows that the number of
  responses left is always enough fuel.  JavaScript numbers that count lamports, slots and times are integers,
  amounts of tokens rationals; byte values are words, so their wrap-around is that of the code.

  Code outside the repository is a parameter: Ed25519, SHA-256, HKDF, AES-GCM, HMAC and P-256, the codecs and
  role functions of \<^verbatim>\<open>@solana/kit\<close>, JSON texts, the responses of the network, the browser's storage and
  passkeys.  What a property needs of them is a named hypothesis of its statement (that decryption inverts
  encryption under the same key, that AES-GCM adds a tag of 16 bytes, that the encoder of JSON is injective, that a store returns what it was
  given), and a witness instantiates each.  Records of such functions are named \<open>kit\<close>, \<open>env\<close>, \<open>sign_kit\<close>,
  \<open>api_kit\<close>, \<open>webhook_kit\<close>, \<open>send_kit\<close> (the instruction builders of the token programs), \<open>app_rpc\<close>, \<open>query_client\<close> and so on;
  \<open>codecs_ok\<close>, \<open>sol_builder_ok\<close> and \<open>query_client_ok\<close> are such hypotheses: that a codec is a round trip, that
  the system program's transfer carries its three arguments, that the query client gives back what was set.

  What the lemmas show.  For the signer: secrets are erased on every path, a signature is posted only over
  bytes whose summary was confirmed, the formats round-trip, the validator accepts exactly the messages of
  the protocol, authorizations are used once.  For the SDK: the compact form expands to the instructions it
  was made from with least privilege, the passkey signs one transaction only and only after the preview.
  For the ledger: the balance is the booked events and one starter credit, refused requests reserve nothing,
  every event is booked once.  For the API worker: what each session, challenge, tap and backup needs, and
  that a queued message waits, is indexed, or has failed six times and is dead.
  For the application: only the mounted signer's window answers a call, and each call ends once; a stored
  wallet session is taken only for the token it names; what is built is what is parsed; a typed amount is
  exact, and what the owner confirms shows it; the owner's authority is used in its own session or after a
  consent; the policy editor keeps the program's limits on caps (not those on permissions, and not the one
  on caps of zero), lifts no limit unconfirmed and keeps what was not touched;
  a send that fails leaves the cache as it was, and one that lands is shown.  Where flows overlap the rollback
  is not the inverse of the patch; \<open>OptimisticCache.overlapping_rollbacks_interfere\<close> says what happens then.
  Three interfaces inside the repository are locales: the byte reader of the blob format, the replay window
  and the pool of reservations; each is interpreted on the model's own operations.

  Not modelled: the on-chain program (Rust), DOM rendering and React components beyond the state machine of
  the policy editor, the fetching of the application's queries, its texts, the calls of \<^verbatim>\<open>navigator.credentials\<close>, log output, SQL migrations, generated
  declarations and error tables.  Requests to one object
  are handled one after the other except where a theory says that steps interleave (the tap counters and the
  deliveries of the queue).
\<close>

end
